(* ===== verification/Prelude.thy ===== *)
theory Prelude
  imports Main "HOL-Library.Monad_Syntax"
begin

text \<open>
  What every component of the development shares.

  \<^item> \<open>dcheck\<close> is the reading of \<open>CHECK\<close> and \<open>DCHECK\<close>: a computation of the model has
    type \<open>'a option\<close>, and \<open>None\<close> is a process that has aborted on a failed check.
    A theorem that an operation returns \<open>Some\<close> says that none of its checks fires.
  \<^item> \<open>vector_insert\<close> and \<open>vector_erase\<close> are \<open>std::vector::insert\<close> and \<open>erase\<close> at a
    position, with the laws the components use.
  \<^item> \<open>run\<close> performs a sequence of operations of one object, and the locale
    \<open>step_invariant\<close> with its extension \<open>total_machine\<close> is the contract shared by the
    objects of the model: an invariant every operation keeps and, in the extension,
    a precondition under which no check fires.
\<close>

named_theorems option_dest "how a computation that returned came about"

section \<open>Checks\<close>

definition dcheck :: "bool \<Rightarrow> unit option" where
  "dcheck b = (if b then Some () else None)"

lemma dcheck_simps [simp]:
  "dcheck True = Some ()"
  "dcheck False = None"
  by (simp_all add: dcheck_def)

lemma dcheck_eq_Some [simp]: "dcheck b = Some u \<longleftrightarrow> b"
  by (simp add: dcheck_def)

lemma dcheck_bind_eq_Some [option_dest]:
  "(dcheck b \<bind> f) = Some y \<longleftrightarrow> b \<and> f () = Some y"
  by (cases b) simp_all

lemma bind_eq_SomeD [option_dest]:
  "(m \<bind> f) = Some y \<longleftrightarrow> (\<exists>x. m = Some x \<and> f x = Some y)"
  by (cases m) simp_all

section \<open>Machine limits\<close>

definition INT_MAX :: int where
  "INT_MAX = 2147483647"

text \<open>Conversion to a 32-bit \<open>int\<close>.\<close>

definition to_int32 :: "int \<Rightarrow> int" where
  "to_int32 x = (x + 2 ^ 31) mod 2 ^ 32 - 2 ^ 31"

lemma to_int32_id: "- (2 ^ 31) \<le> x \<Longrightarrow> x < 2 ^ 31 \<Longrightarrow> to_int32 x = x"
  by (simp add: to_int32_def)

lemma to_int32_mod64: "to_int32 (x mod 2 ^ 64) = to_int32 x"
proof -
  have "(x mod 2 ^ 64 + 2 ^ 31) mod (2 ^ 32 :: int) = (x mod 2 ^ 64 mod 2 ^ 32 + 2 ^ 31) mod 2 ^ 32"
    by (simp add: mod_add_left_eq)
  also have "x mod 2 ^ 64 mod 2 ^ 32 = x mod (2 ^ 32 :: int)"
    by (rule mod_mod_cancel) (simp add: le_imp_power_dvd)
  finally show ?thesis by (simp add: to_int32_def mod_add_left_eq)
qed

text \<open>Division of C truncates towards zero.\<close>

definition c_div :: "int \<Rightarrow> int \<Rightarrow> int" where
  "c_div a b = sgn a * sgn b * (\<bar>a\<bar> div \<bar>b\<bar>)"

section \<open>Vectors\<close>

definition vector_insert :: "nat \<Rightarrow> 'a \<Rightarrow> 'a list \<Rightarrow> 'a list" where
  "vector_insert i x xs = take i xs @ x # drop i xs"

definition vector_erase :: "nat \<Rightarrow> 'a list \<Rightarrow> 'a list" where
  "vector_erase i xs = take i xs @ drop (Suc i) xs"

lemma length_vector_insert [simp]: "length (vector_insert i x xs) = Suc (length xs)"
  by (simp add: vector_insert_def)

lemma length_vector_erase [simp]:
  "i < length xs \<Longrightarrow> length (vector_erase i xs) = length xs - 1"
  by (simp add: vector_erase_def)

lemma set_vector_insert [simp]: "set (vector_insert i x xs) = insert x (set xs)"
proof -
  have "set (take i xs) \<union> set (drop i xs) = set xs"
    by (metis append_take_drop_id set_append)
  then show ?thesis by (auto simp: vector_insert_def)
qed

lemma vector_split: "i < length xs \<Longrightarrow> xs = take i xs @ xs ! i # drop (Suc i) xs"
  by (simp add: id_take_nth_drop)

lemma set_vector_erase_subset: "set (vector_erase i xs) \<subseteq> set xs"
  by (auto simp: vector_erase_def dest: in_set_takeD in_set_dropD)

lemma in_set_vector_eraseD: "x \<in> set (vector_erase i xs) \<Longrightarrow> x \<in> set xs"
  by (auto simp: vector_erase_def dest: in_set_takeD in_set_dropD)

lemma set_vector_erase:
  assumes "distinct xs" and "i < length xs"
  shows "set (vector_erase i xs) = set xs - {xs ! i}"
proof -
  have "distinct (take i xs @ xs ! i # drop (Suc i) xs)"
    using assms vector_split [of i xs] by simp
  moreover have "set xs = set (take i xs @ xs ! i # drop (Suc i) xs)"
    using assms(2) vector_split [of i xs] by simp
  ultimately show ?thesis by (auto simp: vector_erase_def)
qed

lemma map_vector_insert: "map f (vector_insert i x xs) = vector_insert i (f x) (map f xs)"
  by (simp add: vector_insert_def take_map drop_map)

lemma map_vector_erase: "map f (vector_erase i xs) = vector_erase i (map f xs)"
  by (simp add: vector_erase_def take_map drop_map)

lemma distinct_vector_insert:
  assumes "distinct xs" and "x \<notin> set xs"
  shows "distinct (vector_insert i x xs)"
proof -
  have "distinct (take i xs @ drop i xs)" using assms(1) by simp
  then have "set (take i xs) \<inter> set (drop i xs) = {}"
    by (simp only: distinct_append)
  then show ?thesis
    using assms by (auto simp: vector_insert_def dest: in_set_takeD in_set_dropD)
qed

lemma distinct_vector_erase:
  assumes "distinct xs"
  shows "distinct (vector_erase i xs)"
proof (cases "i < length xs")
  case True
  have "distinct (take i xs @ xs ! i # drop (Suc i) xs)"
    using assms vector_split [OF True] by simp
  then show ?thesis by (simp add: vector_erase_def)
next
  case False
  with assms show ?thesis by (simp add: vector_erase_def)
qed

lemma nth_vector_insert:
  "i \<le> length xs \<Longrightarrow> vector_insert i x xs ! j =
     (if j < i then xs ! j else if j = i then x else xs ! (j - 1))"
  by (auto simp: vector_insert_def nth_append nth_Cons' min_def)

lemma nth_vector_erase:
  "i < length xs \<Longrightarrow> j < length xs - 1 \<Longrightarrow>
     vector_erase i xs ! j = (if j < i then xs ! j else xs ! Suc j)"
  by (auto simp: vector_erase_def nth_append min_def)

lemma vector_erase_insert: "i \<le> length xs \<Longrightarrow> vector_erase i (vector_insert i x xs) = xs"
  by (simp add: vector_insert_def vector_erase_def min_def)

section \<open>Sequences of operations\<close>

fun run :: "('s \<Rightarrow> 'op \<Rightarrow> 's option) \<Rightarrow> 's \<Rightarrow> 'op list \<Rightarrow> 's option" where
  "run step s [] = Some s"
| "run step s (c # cs) = (case step s c of None \<Rightarrow> None | Some t \<Rightarrow> run step t cs)"

lemma run_append:
  "run step s (cs @ ds) = (case run step s cs of None \<Rightarrow> None | Some t \<Rightarrow> run step t ds)"
  by (induction cs arbitrary: s) (auto split: option.splits)

inductive legal :: "('s \<Rightarrow> 'op \<Rightarrow> 's option) \<Rightarrow> ('s \<Rightarrow> 'op \<Rightarrow> bool) \<Rightarrow> 's \<Rightarrow> 'op list \<Rightarrow> 's \<Rightarrow> bool"
  for step allowed where
  legal_Nil: "legal step allowed s [] s"
| legal_Cons: "allowed s c \<Longrightarrow> step s c = Some t \<Longrightarrow> legal step allowed t cs u \<Longrightarrow>
    legal step allowed s (c # cs) u"

inductive_simps legal_Nil_iff [simp]: "legal step allowed s [] t"
inductive_simps legal_Cons_iff: "legal step allowed s (c # cs) u"

lemma legal_run: "legal step allowed s cs t \<Longrightarrow> run step s cs = Some t"
  by (induction rule: legal.induct) simp_all

text \<open>An executable check that a sequence is legal, which the witnesses evaluate.\<close>

fun run_checked :: "('s \<Rightarrow> 'op \<Rightarrow> 's option) \<Rightarrow> ('s \<Rightarrow> 'op \<Rightarrow> bool) \<Rightarrow> 's \<Rightarrow> 'op list \<Rightarrow> 's option" where
  "run_checked step allowed s [] = Some s"
| "run_checked step allowed s (c # cs) =
     (if allowed s c then case step s c of None \<Rightarrow> None | Some t \<Rightarrow> run_checked step allowed t cs
      else None)"

lemma run_checked_legal: "run_checked step allowed s cs = Some t \<Longrightarrow> legal step allowed s cs t"
  by (induction cs arbitrary: s) (auto split: if_splits option.splits intro: legal.intros)

lemma run_checked_witness:
  assumes "case run_checked step allowed s cs of None \<Rightarrow> False | Some t \<Rightarrow> P t"
  obtains t where "legal step allowed s cs t" "P t"
  using assms by (auto split: option.splits intro: run_checked_legal)

locale step_invariant =
  fixes step :: "'s \<Rightarrow> 'op \<Rightarrow> 's option"
    and allowed :: "'s \<Rightarrow> 'op \<Rightarrow> bool"
    and inv :: "'s \<Rightarrow> bool"
  assumes inv_step: "inv s \<Longrightarrow> allowed s c \<Longrightarrow> step s c = Some t \<Longrightarrow> inv t"
begin

lemma legal_inv: "legal step allowed s cs t \<Longrightarrow> inv s \<Longrightarrow> inv t"
  by (induction rule: legal.induct) (auto intro: inv_step)

end

locale total_machine = step_invariant +
  assumes progress: "inv s \<Longrightarrow> allowed s c \<Longrightarrow> \<exists>t. step s c = Some t"
begin

lemma step_total: "inv s \<Longrightarrow> allowed s c \<Longrightarrow> \<exists>t. step s c = Some t \<and> inv t"
  using progress inv_step by blast

lemma legal_extend:
  assumes "legal step allowed s cs t" and "inv s" and "allowed t c"
  shows "\<exists>u. legal step allowed s (cs @ [c]) u \<and> inv u"
  using assms
proof (induction rule: legal.induct)
  case (legal_Nil s)
  then show ?case using step_total [of s c] by (auto intro: legal.intros)
next
  case (legal_Cons s d t cs u)
  then show ?case using inv_step [of s d t] by (auto intro: legal.intros)
qed

end

end
