(* ===== verification/WebStateList.thy ===== *)
theory WebStateList
  imports Prelude "HOL-Library.Word"
begin

text \<open>
  The list of tabs of one window: \<open>chrome/browser/web_state_list/web_state_list.{h,mm}\<close>,
  \<open>web_state_opener.{h,mm}\<close>, \<open>web_state_list_order_controller.{h,mm}\<close> and the observer and
  delegate interfaces beside them.

  A \<open>web::WebState*\<close> is a \<^typ>\<open>nat option\<close>, \<^term>\<open>None\<close> the null pointer. What the list asks
  a tab (its last committed navigation index, its visible URL) is the argument \<open>env\<close>.
  Indices are \<open>int\<close>s, as in the code, \<open>-1\<close> being \<open>kInvalidIndex\<close>. The observers and the
  delegate are outside the list: what they are told is appended to the ghost field
  \<open>notifications\<close>, with the value of the mutation lock at that moment, so that the order
  of the calls and the lock discipline can be stated.
\<close>

unbundle bit_operations_syntax

section \<open>The interfaces\<close>

type_synonym web_state = nat

record web_state_env =
  last_committed_item_index :: "web_state \<Rightarrow> int"
  visible_url :: "web_state \<Rightarrow> string"

text \<open>\<open>WebStateListObserver\<close>: one constructor per notification; the reasons are an \<open>int\<close>.\<close>

definition CHANGE_REASON_NONE :: int where "CHANGE_REASON_NONE = 0"
definition CHANGE_REASON_REPLACED :: int where "CHANGE_REASON_REPLACED = 1"
definition CHANGE_REASON_USER_ACTION :: int where "CHANGE_REASON_USER_ACTION = 2"

datatype observer_event =
    WebStateInsertedAt "web_state option" int bool
  | WebStateMoved "web_state option" int int
  | WebStateReplacedAt "web_state option" "web_state option" int
  | WillDetachWebStateAt "web_state option" int
  | WebStateDetachedAt "web_state option" int
  | WillCloseWebStateAt "web_state option" int bool
  | WebStateActivatedAt "web_state option" "web_state option" int int
  | WillBeginBatchOperation
  | BatchOperationEnded

datatype delegate_call =
    WillAddWebState "web_state option"
  | WebStateDetached "web_state option"

datatype notification =
    ToObserver nat bool observer_event
  | ToDelegate delegate_call

section \<open>Openers and wrappers\<close>

record web_state_opener =
  opener :: "web_state option"
  navigation_index :: int

definition navigation_index_from_web_state :: "web_state_env \<Rightarrow> web_state option \<Rightarrow> int" where
  "navigation_index_from_web_state env p =
     (case p of None \<Rightarrow> -1 | Some ws \<Rightarrow> last_committed_item_index env ws)"

definition opener_from :: "web_state_env \<Rightarrow> web_state option \<Rightarrow> web_state_opener" where
  "opener_from env p = \<lparr>opener = p, navigation_index = navigation_index_from_web_state env p\<rparr>"

definition no_opener :: web_state_opener where
  "no_opener = \<lparr>opener = None, navigation_index = -1\<rparr>"

record web_state_wrapper =
  wrapped :: "web_state option"
  wrapped_opener :: web_state_opener

definition new_wrapper :: "web_state option \<Rightarrow> web_state_wrapper option" where
  "new_wrapper p = do {
     dcheck (p \<noteq> None);
     Some \<lparr>wrapped = p, wrapped_opener = no_opener\<rparr>
   }"

definition replace_web_state ::
  "web_state_wrapper \<Rightarrow> web_state option \<Rightarrow> (web_state_wrapper \<times> web_state option) option" where
  "replace_web_state w p = do {
     dcheck (p \<noteq> wrapped w);
     Some (w\<lparr>wrapped := p, wrapped_opener := no_opener\<rparr>, wrapped w)
   }"

definition was_opened_by :: "web_state_wrapper \<Rightarrow> web_state \<Rightarrow> int \<Rightarrow> bool \<Rightarrow> bool" where
  "was_opened_by w ws opener_navigation_index use_group =
     (if opener (wrapped_opener w) \<noteq> Some ws then False
      else if \<not> use_group then True
      else navigation_index (wrapped_opener w) = opener_navigation_index)"

section \<open>The list\<close>

definition kInvalidIndex :: int where "kInvalidIndex = -1"

definition INSERT_NO_FLAGS :: int where "INSERT_NO_FLAGS = 0"
definition INSERT_ACTIVATE :: int where "INSERT_ACTIVATE = 1"
definition INSERT_FORCE_INDEX :: int where "INSERT_FORCE_INDEX = 2"
definition INSERT_INHERIT_OPENER :: int where "INSERT_INHERIT_OPENER = 4"

definition CLOSE_NO_FLAGS :: int where "CLOSE_NO_FLAGS = 0"
definition CLOSE_USER_ACTION :: int where "CLOSE_USER_ACTION = 1"

definition is_insertion_flag_set :: "int \<Rightarrow> int \<Rightarrow> bool" where
  "is_insertion_flag_set flagset flag = ((flagset AND flag) = flag)"

definition is_closing_flag_set :: "int \<Rightarrow> int \<Rightarrow> bool" where
  "is_closing_flag_set flagset flag = ((flagset AND flag) = flag)"

record web_state_list =
  wrappers :: "web_state_wrapper list"
  active_index :: int
  locked :: bool
  observers :: "nat list"
  notifications :: "notification list"

definition new_web_state_list :: web_state_list where
  "new_web_state_list = \<lparr>wrappers = [], active_index = kInvalidIndex, locked = False,
     observers = [], notifications = []\<rparr>"

definition is_empty :: "web_state_list \<Rightarrow> bool" where
  "is_empty l = (wrappers l = [])"

definition count :: "web_state_list \<Rightarrow> int" where
  "count l = int (length (wrappers l))"

definition contains_index :: "web_state_list \<Rightarrow> int \<Rightarrow> bool" where
  "contains_index l i = (0 \<le> i \<and> i < count l)"

definition is_mutating :: "web_state_list \<Rightarrow> bool" where
  "is_mutating l = locked l"

definition get_web_state_at :: "web_state_list \<Rightarrow> int \<Rightarrow> web_state option option" where
  "get_web_state_at l i = do {
     dcheck (contains_index l i);
     Some (wrapped (wrappers l ! nat i))
   }"

definition get_active_web_state :: "web_state_list \<Rightarrow> web_state option option" where
  "get_active_web_state l =
     (if active_index l \<noteq> kInvalidIndex then get_web_state_at l (active_index l) else Some None)"

text \<open>The loops that look for the first tab with a property.\<close>

fun first_index_from :: "(int \<Rightarrow> web_state_wrapper \<Rightarrow> bool) \<Rightarrow> int \<Rightarrow> web_state_wrapper list \<Rightarrow> int" where
  "first_index_from p i [] = kInvalidIndex"
| "first_index_from p i (w # ws) = (if p i w then i else first_index_from p (i + 1) ws)"

definition get_index_of_web_state :: "web_state_list \<Rightarrow> web_state option \<Rightarrow> int" where
  "get_index_of_web_state l p = first_index_from (\<lambda>_ w. wrapped w = p) 0 (wrappers l)"

definition has_visible_url :: "web_state_env \<Rightarrow> string \<Rightarrow> web_state_wrapper \<Rightarrow> bool" where
  "has_visible_url env url w =
     (case wrapped w of None \<Rightarrow> False | Some ws \<Rightarrow> visible_url env ws = url)"

definition get_index_of_web_state_with_url :: "web_state_env \<Rightarrow> web_state_list \<Rightarrow> string \<Rightarrow> int" where
  "get_index_of_web_state_with_url env l url =
     first_index_from (\<lambda>_ w. has_visible_url env url w) 0 (wrappers l)"

definition get_index_of_inactive_web_state_with_url ::
  "web_state_env \<Rightarrow> web_state_list \<Rightarrow> string \<Rightarrow> int" where
  "get_index_of_inactive_web_state_with_url env l url =
     first_index_from (\<lambda>i w. i \<noteq> active_index l \<and> has_visible_url env url w) 0 (wrappers l)"

definition get_opener_of_web_state_at :: "web_state_list \<Rightarrow> int \<Rightarrow> web_state_opener option" where
  "get_opener_of_web_state_at l i = do {
     dcheck (contains_index l i);
     Some (wrapped_opener (wrappers l ! nat i))
   }"

definition set_opener_of_web_state_at ::
  "web_state_list \<Rightarrow> int \<Rightarrow> web_state_opener \<Rightarrow> web_state_list option" where
  "set_opener_of_web_state_at l i op = do {
     dcheck (contains_index l i);
     dcheck (contains_index l (get_index_of_web_state l (opener op)));
     Some (l\<lparr>wrappers := (wrappers l)
       [nat i := (wrappers l ! nat i)\<lparr>wrapped_opener := op\<rparr>]\<rparr>)
   }"

text \<open>
  \<open>GetIndexOfNthWebStateOpenedBy\<close>: the loop runs over the tabs after \<open>start_index\<close> while
  \<open>n\<close> is not 0; once it has found one, the first tab that does not match ends it.
\<close>

fun nth_opened_loop ::
  "(web_state_wrapper \<Rightarrow> bool) \<Rightarrow> int \<Rightarrow> int \<Rightarrow> int \<Rightarrow> web_state_wrapper list \<Rightarrow> int" where
  "nth_opened_loop p i n found [] = found"
| "nth_opened_loop p i n found (w # ws) =
     (if n = 0 then found
      else if p w then nth_opened_loop p (i + 1) (n - 1) i ws
      else if found \<noteq> kInvalidIndex then found
      else nth_opened_loop p (i + 1) n found ws)"

definition get_index_of_nth_web_state_opened_by ::
  "web_state_env \<Rightarrow> web_state_list \<Rightarrow> web_state option \<Rightarrow> int \<Rightarrow> bool \<Rightarrow> int \<Rightarrow> int option" where
  "get_index_of_nth_web_state_opened_by env l p start_index use_group n = do {
     dcheck (n > 0);
     Some (case p of
       None \<Rightarrow> kInvalidIndex
     | Some ws \<Rightarrow>
         if \<not> contains_index l start_index \<or> start_index = INT_MAX then kInvalidIndex
         else let opener_navigation_index =
                    (if use_group then last_committed_item_index env ws else -1)
              in nth_opened_loop (\<lambda>w. was_opened_by w ws opener_navigation_index use_group)
                   (start_index + 1) n kInvalidIndex (drop (nat (start_index + 1)) (wrappers l)))
   }"

definition get_index_of_next_web_state_opened_by ::
  "web_state_env \<Rightarrow> web_state_list \<Rightarrow> web_state option \<Rightarrow> int \<Rightarrow> bool \<Rightarrow> int option" where
  "get_index_of_next_web_state_opened_by env l p start_index use_group =
     get_index_of_nth_web_state_opened_by env l p start_index use_group 1"

definition get_index_of_last_web_state_opened_by ::
  "web_state_env \<Rightarrow> web_state_list \<Rightarrow> web_state option \<Rightarrow> int \<Rightarrow> bool \<Rightarrow> int option" where
  "get_index_of_last_web_state_opened_by env l p start_index use_group =
     get_index_of_nth_web_state_opened_by env l p start_index use_group INT_MAX"

section \<open>The order controller\<close>

definition determine_insertion_index ::
  "web_state_env \<Rightarrow> web_state_list \<Rightarrow> web_state option \<Rightarrow> int option" where
  "determine_insertion_index env l p =
     (if p = None then Some (count l)
      else do {
        let opener_index = get_index_of_web_state l p;
        dcheck (opener_index \<noteq> kInvalidIndex);
        list_child_index \<leftarrow> get_index_of_last_web_state_opened_by env l p opener_index True;
        let reference_index =
          (if list_child_index \<noteq> kInvalidIndex then list_child_index else opener_index);
        dcheck (reference_index < INT_MAX);
        Some (reference_index + 1)
      })"

definition get_valid_index :: "int \<Rightarrow> int \<Rightarrow> int option" where
  "get_valid_index index removing_index = do {
     dcheck (removing_index \<ge> 0);
     if removing_index < index then do { dcheck (index \<ge> 1); Some (index - 1) } else Some index
   }"

definition determine_new_active_index ::
  "web_state_env \<Rightarrow> web_state_list \<Rightarrow> int \<Rightarrow> int option" where
  "determine_new_active_index env l removing_index = do {
     dcheck (contains_index l removing_index);
     removing \<leftarrow> get_web_state_at l removing_index;
     child \<leftarrow> get_index_of_next_web_state_opened_by env l removing removing_index False;
     if child \<noteq> kInvalidIndex then get_valid_index child removing_index
     else do {
       op \<leftarrow> get_opener_of_web_state_at l removing_index;
       if opener op \<noteq> None then do {
         sibling \<leftarrow> get_index_of_next_web_state_opened_by env l (opener op) removing_index False;
         if sibling \<noteq> kInvalidIndex then get_valid_index sibling removing_index
         else get_valid_index (get_index_of_web_state l (opener op)) removing_index
       }
       else if count l = 1 then Some kInvalidIndex
       else if removing_index \<ge> count l - 1 then Some (removing_index - 1)
       else Some removing_index
     }
   }"

section \<open>Operations\<close>

definition notify :: "web_state_list \<Rightarrow> observer_event \<Rightarrow> web_state_list" where
  "notify l e = l\<lparr>notifications :=
     notifications l @ map (\<lambda>ob. ToObserver ob (locked l) e) (observers l)\<rparr>"

definition tell_delegate :: "web_state_list \<Rightarrow> delegate_call \<Rightarrow> web_state_list" where
  "tell_delegate l c = l\<lparr>notifications := notifications l @ [ToDelegate c]\<rparr>"

definition add_observer :: "web_state_list \<Rightarrow> nat \<Rightarrow> web_state_list" where
  "add_observer l ob = l\<lparr>observers := observers l @ [ob]\<rparr>"

definition remove_observer :: "web_state_list \<Rightarrow> nat \<Rightarrow> web_state_list" where
  "remove_observer l ob = l\<lparr>observers := removeAll ob (observers l)\<rparr>"

text \<open>\<open>base::AutoReset\<close> on \<open>locked_\<close> is the pair of updates around the body of an operation.\<close>

definition notify_if_active_web_state_changed ::
  "web_state_list \<Rightarrow> web_state option \<Rightarrow> int \<Rightarrow> web_state_list option" where
  "notify_if_active_web_state_changed l old reason = do {
     new \<leftarrow> get_active_web_state l;
     Some (if old = new then l
           else notify l (WebStateActivatedAt old new (active_index l) reason))
   }"

definition clear_openers_referencing :: "web_state_list \<Rightarrow> int \<Rightarrow> web_state_list" where
  "clear_openers_referencing l i =
     (let old = wrapped (wrappers l ! nat i)
      in l\<lparr>wrappers := map (\<lambda>w. if opener (wrapped_opener w) = old
                              then w\<lparr>wrapped_opener := no_opener\<rparr> else w) (wrappers l)\<rparr>)"

definition activate_web_state_at :: "web_state_list \<Rightarrow> int \<Rightarrow> web_state_list option" where
  "activate_web_state_at l i = do {
     dcheck (contains_index l i);
     old \<leftarrow> get_active_web_state l;
     notify_if_active_web_state_changed (l\<lparr>active_index := i\<rparr>) old CHANGE_REASON_USER_ACTION
   }"

definition insert_web_state ::
  "web_state_env \<Rightarrow> web_state_list \<Rightarrow> int \<Rightarrow> web_state option \<Rightarrow> int \<Rightarrow> web_state_opener
     \<Rightarrow> (web_state_list \<times> int) option" where
  "insert_web_state env l index ws insertion_flags op0 = do {
     let activating = is_insertion_flag_set insertion_flags INSERT_ACTIVATE;
     dcheck (\<not> locked l);
     let l1 = l\<lparr>locked := True\<rparr>;
     op \<leftarrow> (if is_insertion_flag_set insertion_flags INSERT_INHERIT_OPENER
            then map_option (opener_from env) (get_active_web_state l1)
            else Some op0);
     index \<leftarrow> (if is_insertion_flag_set insertion_flags INSERT_FORCE_INDEX then Some index
               else map_option (\<lambda>i. if i < 0 \<or> count l1 < i then count l1 else i)
                      (determine_insertion_index env l1 (opener op)));
     dcheck (contains_index l1 index \<or> index = count l1);
     let l2 = tell_delegate l1 (WillAddWebState ws);
     w \<leftarrow> new_wrapper ws;
     let l3 = l2\<lparr>wrappers := vector_insert (nat index) w (wrappers l2)\<rparr>;
     let l4 = (if active_index l3 \<ge> index then l3\<lparr>active_index := active_index l3 + 1\<rparr> else l3);
     let l5 = notify l4 (WebStateInsertedAt ws index activating);
     l6 \<leftarrow> (if opener op \<noteq> None then set_opener_of_web_state_at l5 index op else Some l5);
     let l7 = l6\<lparr>locked := False\<rparr>;
     l8 \<leftarrow> (if activating then activate_web_state_at l7 index else Some l7);
     Some (l8, index)
   }"

definition moved_active_index :: "int \<Rightarrow> int \<Rightarrow> int \<Rightarrow> int" where
  "moved_active_index active from_index to_index =
     (if active = from_index then to_index
      else let lo = min from_index to_index;
               hi = max from_index to_index;
               delta = (if from_index < to_index then -1 else 1)
           in if lo \<le> active \<and> active \<le> hi then active + delta else active)"

definition move_web_state_at :: "web_state_list \<Rightarrow> int \<Rightarrow> int \<Rightarrow> web_state_list option" where
  "move_web_state_at l from_index to_index = do {
     dcheck (\<not> locked l);
     let l1 = l\<lparr>locked := True\<rparr>;
     dcheck (contains_index l1 from_index);
     dcheck (contains_index l1 to_index);
     if from_index = to_index then Some (l1\<lparr>locked := False\<rparr>)
     else let w = wrappers l1 ! nat from_index;
              l2 = l1\<lparr>wrappers := vector_insert (nat to_index) w
                                 (vector_erase (nat from_index) (wrappers l1))\<rparr>;
              l3 = l2\<lparr>active_index := moved_active_index (active_index l2) from_index to_index\<rparr>;
              l4 = notify l3 (WebStateMoved (wrapped w) from_index to_index)
          in Some (l4\<lparr>locked := False\<rparr>)
   }"

definition replace_web_state_at ::
  "web_state_list \<Rightarrow> int \<Rightarrow> web_state option \<Rightarrow> (web_state_list \<times> web_state option) option" where
  "replace_web_state_at l i ws = do {
     dcheck (contains_index l i);
     let l1 = tell_delegate l (WillAddWebState ws);
     let l2 = clear_openers_referencing l1 i;
     (w, old) \<leftarrow> replace_web_state (wrappers l2 ! nat i) ws;
     let l3 = l2\<lparr>wrappers := (wrappers l2)[nat i := w]\<rparr>;
     let l4 = notify l3 (WebStateReplacedAt old ws i);
     l5 \<leftarrow> notify_if_active_web_state_changed l4 old CHANGE_REASON_REPLACED;
     Some (tell_delegate l5 (WebStateDetached old), old)
   }"

definition detached_active_index :: "int \<Rightarrow> int \<Rightarrow> int \<Rightarrow> int \<Rightarrow> int" where
  "detached_active_index active index new_active_index remaining =
     (if active > index then active - 1
      else if active = index then
        (if new_active_index \<noteq> kInvalidIndex
            \<and> \<not> (0 \<le> new_active_index \<and> new_active_index < remaining)
         then remaining - 1 else new_active_index)
      else active)"

definition detach_web_state_at ::
  "web_state_env \<Rightarrow> web_state_list \<Rightarrow> int \<Rightarrow> (web_state_list \<times> web_state option) option" where
  "detach_web_state_at env l i = do {
     dcheck (\<not> locked l);
     let l1 = l\<lparr>locked := True\<rparr>;
     dcheck (contains_index l1 i);
     new_active_index \<leftarrow> determine_new_active_index env l1 i;
     let ws = wrapped (wrappers l1 ! nat i);
     let l2 = notify l1 (WillDetachWebStateAt ws i);
     let l3 = clear_openers_referencing l2 i;
     (_, detached) \<leftarrow> replace_web_state (wrappers l3 ! nat i) None;
     let l4 = l3\<lparr>wrappers := vector_erase (nat i) (wrappers l3)\<rparr>;
     let active_web_state_was_closed = (i = active_index l4);
     let l5 = l4\<lparr>active_index :=
                detached_active_index (active_index l4) i new_active_index (count l4)\<rparr>;
     let l6 = notify l5 (WebStateDetachedAt ws i);
     l7 \<leftarrow> (if active_web_state_was_closed
            then notify_if_active_web_state_changed l6 ws CHANGE_REASON_NONE else Some l6);
     let l8 = tell_delegate l7 (WebStateDetached ws);
     Some (l8\<lparr>locked := False\<rparr>, detached)
   }"

definition close_web_state_at ::
  "web_state_env \<Rightarrow> web_state_list \<Rightarrow> int \<Rightarrow> int \<Rightarrow> web_state_list option" where
  "close_web_state_at env l i close_flags = do {
     (l1, detached) \<leftarrow> detach_web_state_at env l i;
     dcheck (\<not> locked l1);
     let l2 = l1\<lparr>locked := True\<rparr>;
     let user_action = is_closing_flag_set close_flags CLOSE_USER_ACTION;
     let l3 = notify l2 (WillCloseWebStateAt detached i user_action);
     Some (l3\<lparr>locked := False\<rparr>)
   }"

definition perform_batch_operation ::
  "web_state_list \<Rightarrow> (web_state_list \<Rightarrow> web_state_list option) option \<Rightarrow> web_state_list option" where
  "perform_batch_operation l operation = do {
     let l1 = notify l WillBeginBatchOperation;
     l2 \<leftarrow> (case operation of None \<Rightarrow> Some l1 | Some f \<Rightarrow> f l1);
     Some (notify l2 BatchOperationEnded)
   }"

end
