(* ===== verification/WebStateListFacts.thy ===== *)
theory WebStateListFacts
  imports WebStateList
begin

text \<open>
  What is proved of the tab list: the searches, the invariant \<open>well_formed\<close>, the effect of
  each operation on it and on the abstract state (the sequence of tabs and the active
  tab), and the interface between the list and its order controller.
\<close>

unbundle bit_operations_syntax

named_theorems wsl_defs "definitions that only read or log"

declare kInvalidIndex_def [wsl_defs] count_def [wsl_defs] contains_index_def [wsl_defs]

section \<open>The searches\<close>

lemma first_index_from_cases:
  "first_index_from p i ws = kInvalidIndex \<and> (\<forall>k < length ws. \<not> p (i + int k) (ws ! k)) \<or>
   (\<exists>k < length ws. first_index_from p i ws = i + int k \<and> p (i + int k) (ws ! k)
      \<and> (\<forall>j < k. \<not> p (i + int j) (ws ! j)))"
proof (induction p i ws rule: first_index_from.induct)
  case (2 p i w ws)
  show ?case
  proof (cases "p i w")
    case False
    from "2.IH" [OF False] False show ?thesis
      by (simp add: All_less_Suc2 Ex_less_Suc2 algebra_simps)
  qed (simp add: All_less_Suc2 Ex_less_Suc2)
qed simp

lemma nth_opened_loop_0 [simp]: "nth_opened_loop p i 0 found ws = found"
  by (cases ws) simp_all

lemma nth_opened_loop_1:
  "nth_opened_loop p i 1 kInvalidIndex ws = first_index_from (\<lambda>_. p) i ws"
  by (induction ws arbitrary: i) simp_all

text \<open>
  With a bound \<open>n\<close> that the list cannot exhaust, the loop returns the end of the first run
  of matching tabs.
\<close>

lemma nth_opened_loop_found:
  assumes "0 \<le> found" and "int (length ws) \<le> n"
  shows "nth_opened_loop p (found + 1) n found ws = found + int (length (takeWhile p ws))"
  using assms
proof (induction ws arbitrary: found n)
  case (Cons w ws)
  then show ?case using Cons.IH [of "found + 1" "n - 1"] by (auto simp: kInvalidIndex_def)
qed simp

definition last_of_first_run :: "('a \<Rightarrow> bool) \<Rightarrow> int \<Rightarrow> 'a list \<Rightarrow> int" where
  "last_of_first_run p i ws =
     (let before = takeWhile (\<lambda>w. \<not> p w) ws;
          matching = takeWhile p (drop (length before) ws)
      in if matching = [] then kInvalidIndex
         else i + int (length before) + int (length matching) - 1)"

lemma nth_opened_loop_last:
  assumes "0 \<le> i" and "int (length ws) \<le> n"
  shows "nth_opened_loop p i n kInvalidIndex ws = last_of_first_run p i ws"
  using assms
proof (induction ws arbitrary: i)
  case (Cons w ws)
  show ?case
  proof (cases "p w")
    case True
    then show ?thesis
      using Cons.prems nth_opened_loop_found [of i ws "n - 1" p]
      by (simp add: last_of_first_run_def Let_def)
  next
    case False
    then show ?thesis using Cons.IH [of "i + 1"] Cons.prems
      by (simp add: last_of_first_run_def Let_def)
  qed
qed (simp add: last_of_first_run_def)

lemma last_of_first_run_cases:
  "last_of_first_run p i ws = kInvalidIndex \<or>
   (\<exists>k < length ws. last_of_first_run p i ws = i + int k \<and> p (ws ! k))"
proof (cases "takeWhile p (drop (length (takeWhile (\<lambda>w. \<not> p w) ws)) ws) = []")
  case False
  define b where "b = length (takeWhile (\<lambda>w. \<not> p w) ws)"
  define m where "m = takeWhile p (drop b ws)"
  have m: "m \<noteq> []" using False by (simp add: m_def b_def)
  have len: "length m \<le> length ws - b"
    using length_takeWhile_le [of p "drop b ws"] by (simp add: m_def)
  have "p (drop b ws ! (length m - 1))"
    using m nth_mem [of "length m - 1" m] set_takeWhileD [of "m ! (length m - 1)" p "drop b ws"]
      takeWhile_nth [of "length m - 1" p "drop b ws"]
    by (simp add: m_def)
  moreover have "b + (length m - 1) < length ws"
    using m len by (cases m) auto
  ultimately have "p (ws ! (b + (length m - 1)))"
    by (simp add: nth_drop)
  then show ?thesis
    using m \<open>b + (length m - 1) < length ws\<close>
    by (intro disjI2 exI [of _ "b + (length m - 1)"])
      (auto simp: last_of_first_run_def Let_def b_def [symmetric] m_def [symmetric]
        of_nat_diff Suc_le_eq)
qed (simp add: last_of_first_run_def)

section \<open>The invariant\<close>

text \<open>
  \<open>live\<close>: the tabs are non-null and pairwise different (the list owns each through a
  \<open>unique_ptr\<close>), and every recorded opener is a tab of the list.
\<close>

definition tabs :: "web_state_wrapper list \<Rightarrow> web_state option set" where
  "tabs ws = wrapped ` set ws"

definition live :: "web_state_wrapper list \<Rightarrow> bool" where
  "live ws \<longleftrightarrow> distinct (map wrapped ws) \<and> None \<notin> tabs ws
     \<and> (\<forall>w \<in> set ws. opener (wrapped_opener w) \<in> insert None (tabs ws))"

definition settled :: "web_state_list \<Rightarrow> bool" where
  "settled l \<longleftrightarrow> live (wrappers l) \<and> kInvalidIndex \<le> active_index l \<and> active_index l < count l
     \<and> count l \<le> INT_MAX"

definition well_formed :: "web_state_list \<Rightarrow> bool" where
  "well_formed l \<longleftrightarrow> settled l \<and> \<not> locked l"

lemma settled_more [simp]:
  "settled (l\<lparr>locked := b\<rparr>) = settled l"
  "settled (l\<lparr>notifications := ns\<rparr>) = settled l"
  "settled (l\<lparr>observers := obs\<rparr>) = settled l"
  by (simp_all add: settled_def count_def)

lemma notify_simps [simp]:
  "wrappers (notify l e) = wrappers l" "active_index (notify l e) = active_index l"
  "locked (notify l e) = locked l" "observers (notify l e) = observers l"
  by (simp_all add: notify_def)

lemma tell_delegate_simps [simp]:
  "wrappers (tell_delegate l c) = wrappers l" "active_index (tell_delegate l c) = active_index l"
  "locked (tell_delegate l c) = locked l" "observers (tell_delegate l c) = observers l"
  by (simp_all add: tell_delegate_def)

lemma count_cong [simp]:
  "count (l\<lparr>locked := b\<rparr>) = count l" "count (l\<lparr>notifications := ns\<rparr>) = count l"
  "count (l\<lparr>observers := obs\<rparr>) = count l" "count (l\<lparr>active_index := i\<rparr>) = count l"
  "count (notify l e) = count l" "count (tell_delegate l c) = count l"
  by (simp_all add: count_def)

lemma settled_log [simp]: "settled (notify l e) = settled l" "settled (tell_delegate l c) = settled l"
  by (simp_all add: notify_def tell_delegate_def)

lemma well_formed_new: "well_formed new_web_state_list"
  by (simp add: well_formed_def settled_def live_def tabs_def new_web_state_list_def
      kInvalidIndex_def count_def INT_MAX_def)

lemma settled_activeD: "settled l \<Longrightarrow> active_index l \<noteq> kInvalidIndex \<Longrightarrow> contains_index l (active_index l)"
  by (auto simp: settled_def kInvalidIndex_def contains_index_def)

lemma contains_index_nth: "contains_index l i \<Longrightarrow> nat i < length (wrappers l)"
  by (auto simp: contains_index_def count_def)

lemma contains_index_cong [simp]:
  "contains_index (l\<lparr>locked := b\<rparr>) i = contains_index l i"
  "contains_index (l\<lparr>notifications := ns\<rparr>) i = contains_index l i"
  "contains_index (l\<lparr>observers := obs\<rparr>) i = contains_index l i"
  "contains_index (l\<lparr>active_index := j\<rparr>) i = contains_index l i"
  "contains_index (notify l e) i = contains_index l i"
  "contains_index (tell_delegate l c) i = contains_index l i"
  by (simp_all add: contains_index_def)

text \<open>The position of a tab.\<close>

lemma get_index_of_web_state_cases:
  "get_index_of_web_state l p = kInvalidIndex \<and> p \<notin> tabs (wrappers l) \<or>
   (\<exists>k < length (wrappers l). get_index_of_web_state l p = int k \<and> wrapped (wrappers l ! k) = p)"
  using first_index_from_cases [of "\<lambda>_ w. wrapped w = p" 0 "wrappers l"]
  by (auto simp: get_index_of_web_state_def tabs_def in_set_conv_nth)

lemma contains_index_get_index [simp]:
  "contains_index l (get_index_of_web_state l p) \<longleftrightarrow> p \<in> tabs (wrappers l)"
  using get_index_of_web_state_cases [of l p]
  by (auto simp: contains_index_def count_def kInvalidIndex_def tabs_def)

lemma get_index_of_web_state_at:
  assumes "live (wrappers l)" and "k < length (wrappers l)"
  shows "get_index_of_web_state l (wrapped (wrappers l ! k)) = int k"
proof -
  have d: "distinct (map wrapped (wrappers l))" using assms(1) by (simp add: live_def)
  obtain j where "j < length (wrappers l)" "wrapped (wrappers l ! j) = wrapped (wrappers l ! k)"
    "get_index_of_web_state l (wrapped (wrappers l ! k)) = int j"
    using get_index_of_web_state_cases [of l "wrapped (wrappers l ! k)"] assms(2)
    by (auto simp: tabs_def)
  then show ?thesis
    using d assms(2) by (metis length_map nth_eq_iff_index_eq nth_map)
qed

lemma get_active_web_state_settled:
  "settled l \<Longrightarrow> get_active_web_state l =
     Some (if active_index l = kInvalidIndex then None
           else wrapped (wrappers l ! nat (active_index l)))"
  using settled_activeD [of l]
  by (auto simp: get_active_web_state_def get_web_state_at_def)

section \<open>The order controller\<close>

lemma opened_by_loop_range:
  assumes "contains_index l start" and "count l \<le> INT_MAX" and "n = 1 \<or> n = INT_MAX"
  shows "\<exists>r. get_index_of_nth_web_state_opened_by env l p start g n = Some r
    \<and> (r = kInvalidIndex \<or> start < r \<and> r < count l)"
proof (cases p)
  case None
  with assms show ?thesis by (auto simp: get_index_of_nth_web_state_opened_by_def INT_MAX_def)
next
  case (Some ws)
  define idx where "idx = (if g then last_committed_item_index env ws else -1)"
  define q where "q = (\<lambda>w. was_opened_by w ws idx g)"
  define vs where "vs = drop (nat (start + 1)) (wrappers l)"
  have ok: "contains_index l start \<and> start \<noteq> INT_MAX" "start + 1 \<ge> 0"
    using assms(1,2) by (auto simp: contains_index_def)
  have len: "int (length vs) = count l - (start + 1)"
    using assms(1) by (auto simp: vs_def count_def contains_index_def)
  have eq: "get_index_of_nth_web_state_opened_by env l p start g n
      = Some (nth_opened_loop q (start + 1) n kInvalidIndex vs)"
    using Some ok assms(3)
    by (auto simp: get_index_of_nth_web_state_opened_by_def q_def vs_def idx_def INT_MAX_def)
  have "nth_opened_loop q (start + 1) n kInvalidIndex vs = kInvalidIndex
      \<or> (\<exists>k < length vs. nth_opened_loop q (start + 1) n kInvalidIndex vs = start + 1 + int k)"
    using assms(3)
  proof
    assume "n = 1"
    then show ?thesis
      using first_index_from_cases [of "\<lambda>_. q" "start + 1" vs] by (auto simp: nth_opened_loop_1)
  next
    assume n: "n = INT_MAX"
    have "nth_opened_loop q (start + 1) n kInvalidIndex vs = last_of_first_run q (start + 1) vs"
      using n len assms(2) ok by (intro nth_opened_loop_last) (auto simp: n)
    then show ?thesis
      using last_of_first_run_cases [of q "start + 1" vs] by auto
  qed
  then show ?thesis using eq len by auto
qed

lemmas next_opened_range =
  opened_by_loop_range [where n = 1, simplified, folded get_index_of_next_web_state_opened_by_def]
lemmas last_opened_range =
  opened_by_loop_range [where n = INT_MAX, simplified, folded get_index_of_last_web_state_opened_by_def]

lemma determine_insertion_index_range:
  assumes "settled l" and "p \<in> insert None (tabs (wrappers l))"
  shows "\<exists>i. determine_insertion_index env l p = Some i \<and> 0 \<le> i \<and> i \<le> count l"
proof (cases "p = None")
  case True
  then show ?thesis by (simp add: determine_insertion_index_def count_def)
next
  case False
  let ?k = "get_index_of_web_state l p"
  have k: "contains_index l ?k" using assms(2) False by simp
  then have k': "?k \<noteq> kInvalidIndex" "0 \<le> ?k" "?k < count l"
    by (auto simp: contains_index_def kInvalidIndex_def)
  have m: "count l \<le> INT_MAX" using assms(1) by (simp add: settled_def)
  obtain r where r: "get_index_of_last_web_state_opened_by env l p ?k True = Some r"
    "r = kInvalidIndex \<or> ?k < r \<and> r < count l"
    using last_opened_range [OF k m, of env p True] by blast
  then show ?thesis using False k' m
    by (auto simp: determine_insertion_index_def kInvalidIndex_def)
qed

lemma determine_new_active_index_range:
  assumes "settled l" and "contains_index l i"
  shows "\<exists>j. determine_new_active_index env l i = Some j \<and> kInvalidIndex \<le> j \<and> j < count l
    \<and> (j = kInvalidIndex \<longrightarrow> count l = 1)"
proof -
  define w where "w = wrappers l ! nat i"
  have m: "count l \<le> INT_MAX" using assms(1) by (simp add: settled_def)
  have w: "w \<in> set (wrappers l)"
    using contains_index_nth [OF assms(2)] by (simp add: w_def)
  have op: "opener (wrapped_opener w) \<in> insert None (tabs (wrappers l))"
    using assms(1) w by (simp add: settled_def live_def)
  obtain c where c: "get_index_of_next_web_state_opened_by env l (wrapped w) i False = Some c"
    "c = kInvalidIndex \<or> i < c \<and> c < count l"
    using next_opened_range [OF assms(2) m] by blast
  obtain b where b: "get_index_of_next_web_state_opened_by env l (opener (wrapped_opener w)) i False = Some b"
    "b = kInvalidIndex \<or> i < b \<and> b < count l"
    using next_opened_range [OF assms(2) m] by blast
  have k: "opener (wrapped_opener w) \<noteq> None \<Longrightarrow>
      contains_index l (get_index_of_web_state l (opener (wrapped_opener w)))"
    using op by auto
  show ?thesis
    using assms(2) c b k
    by (auto simp: determine_new_active_index_def get_web_state_at_def get_opener_of_web_state_at_def
        get_valid_index_def contains_index_def w_def [symmetric] kInvalidIndex_def)
qed

text \<open>
  \<open>web_state_list_order_controller.h\<close> lets other ordering heuristics be plugged into the
  list. What the list needs of one is the locale \<open>order_policy\<close>: an insertion index
  within the list, and after a removal an index of the old list, invalid only when the
  last tab goes. The index \<open>DetachWebStateAt\<close> then activates is valid.
\<close>

locale order_policy =
  fixes insertion :: "web_state_list \<Rightarrow> web_state option \<Rightarrow> int option"
    and new_active :: "web_state_list \<Rightarrow> int \<Rightarrow> int option"
  assumes insertion_range: "settled l \<Longrightarrow> p \<in> insert None (tabs (wrappers l)) \<Longrightarrow>
      \<exists>i. insertion l p = Some i \<and> 0 \<le> i \<and> i \<le> count l"
    and new_active_range: "settled l \<Longrightarrow> contains_index l i \<Longrightarrow>
      \<exists>j. new_active l i = Some j \<and> kInvalidIndex \<le> j \<and> j < count l
        \<and> (j = kInvalidIndex \<longrightarrow> count l = 1)"
begin

lemma detached_index_valid:
  assumes "settled l" and "contains_index l i"
  shows "\<exists>j a. new_active l i = Some j \<and> detached_active_index (active_index l) i j (count l - 1) = a
    \<and> kInvalidIndex \<le> a \<and> a < count l - 1
    \<and> (a = kInvalidIndex \<longleftrightarrow> active_index l = kInvalidIndex \<or> count l = 1)"
proof -
  obtain j where j: "new_active l i = Some j" "-1 \<le> j" "j < count l" "j = -1 \<longrightarrow> count l = 1"
    using new_active_range [OF assms] by (auto simp: kInvalidIndex_def)
  have bounds: "0 \<le> i" "i < count l" "-1 \<le> active_index l" "active_index l < count l"
    using assms by (simp_all add: settled_def contains_index_def kInvalidIndex_def)
  define a where "a = detached_active_index (active_index l) i j (count l - 1)"
  have "-1 \<le> a \<and> a < count l - 1 \<and> (a = -1 \<longleftrightarrow> active_index l = -1 \<or> count l = 1)"
    using j(2-4) bounds by (simp add: a_def detached_active_index_def kInvalidIndex_def) arith
  then show ?thesis using j(1) by (auto simp: a_def kInvalidIndex_def)
qed

end

interpretation controller: order_policy "determine_insertion_index env" "determine_new_active_index env"
  for env
  by unfold_locales (use determine_insertion_index_range determine_new_active_index_range in blast)+

section \<open>Effects of the operations\<close>

text \<open>
  The abstract state of a tab list: the sequence of its tabs and the active one. Each
  operation is shown to act on it as its name says.
\<close>

definition strip :: "web_state_list \<Rightarrow> web_state option list" where
  "strip l = map wrapped (wrappers l)"

definition active_tab :: "web_state_list \<Rightarrow> web_state option" where
  "active_tab l = (if active_index l = kInvalidIndex then None else strip l ! nat (active_index l))"

lemma get_active_web_state_eq: "settled l \<Longrightarrow> get_active_web_state l = Some (active_tab l)"
  using settled_activeD [of l] contains_index_nth [of l "active_index l"]
  by (auto simp: get_active_web_state_settled active_tab_def strip_def)

lemma active_tab_in: "settled l \<Longrightarrow> active_tab l \<in> insert None (tabs (wrappers l))"
  using settled_activeD [of l] contains_index_nth [of l "active_index l"]
  by (auto simp: active_tab_def strip_def tabs_def)

lemma active_tab_log [simp]:
  "active_tab (notify l e) = active_tab l" "active_tab (tell_delegate l c) = active_tab l"
  "active_tab (l\<lparr>locked := b\<rparr>) = active_tab l"
  by (simp_all add: active_tab_def strip_def)

lemma notify_if_active_web_state_changed_eq:
  "settled l \<Longrightarrow> notify_if_active_web_state_changed l old reason =
     Some (if old = active_tab l then l
           else notify l (WebStateActivatedAt old (active_tab l) (active_index l) reason))"
  by (simp add: notify_if_active_web_state_changed_def get_active_web_state_eq)

text \<open>One message to every observer, with the value of the lock.\<close>

definition to_observers :: "web_state_list \<Rightarrow> bool \<Rightarrow> observer_event \<Rightarrow> notification list" where
  "to_observers l b e = map (\<lambda>ob. ToObserver ob b e) (observers l)"

lemma notifications_log:
  "notifications (notify l e) = notifications l @ to_observers l (locked l) e"
  "notifications (tell_delegate l c) = notifications l @ [ToDelegate c]"
  by (simp_all add: notify_def tell_delegate_def to_observers_def)

lemma to_observers_cong: "observers l = observers l' \<Longrightarrow> to_observers l b e = to_observers l' b e"
  by (simp add: to_observers_def)

lemma settled_active [simp]:
  "settled l \<Longrightarrow> settled (l\<lparr>active_index := i\<rparr>) \<longleftrightarrow> i = kInvalidIndex \<or> contains_index l i"
  by (auto simp: settled_def contains_index_def count_def kInvalidIndex_def)

lemma activate_web_state_at_effect:
  assumes "settled l" and "contains_index l i"
  shows "\<exists>l'. activate_web_state_at l i = Some l' \<and> wrappers l' = wrappers l \<and> active_index l' = i
    \<and> locked l' = locked l \<and> observers l' = observers l
    \<and> notifications l' = notifications l @ (if active_tab l = active_tab l' then []
        else to_observers l (locked l)
          (WebStateActivatedAt (active_tab l) (active_tab l') i CHANGE_REASON_USER_ACTION))"
  using assms
  by (auto simp: activate_web_state_at_def get_active_web_state_eq notifications_log to_observers_def
      notify_if_active_web_state_changed_eq)

lemma set_opener_of_web_state_at_eq:
  "contains_index l i \<Longrightarrow> opener op \<in> tabs (wrappers l) \<Longrightarrow> set_opener_of_web_state_at l i op =
     Some (l\<lparr>wrappers := (wrappers l)[nat i := (wrappers l ! nat i)\<lparr>wrapped_opener := op\<rparr>]\<rparr>)"
  by (simp add: set_opener_of_web_state_at_def)

lemma vector_insert_update: "i \<le> length xs \<Longrightarrow> (vector_insert i x xs)[i := y] = vector_insert i y xs"
  by (simp add: vector_insert_def list_update_append)

lemma vector_insert_nth: "i \<le> length xs \<Longrightarrow> vector_insert i x xs ! i = x"
  by (simp add: nth_vector_insert)

lemma tabs_vector_insert [simp]: "tabs (vector_insert i w ws) = insert (wrapped w) (tabs ws)"
  by (simp add: tabs_def)

lemma live_vector_insert:
  assumes "live ws" and "wrapped w \<noteq> None" and "wrapped w \<notin> tabs ws"
    and "opener (wrapped_opener w) \<in> insert None (insert (wrapped w) (tabs ws))"
  shows "live (vector_insert i w ws)"
  using assms
  by (auto simp: live_def map_vector_insert distinct_vector_insert tabs_def)

text \<open>The opener an insertion records: the active tab when it is inherited, else the argument.\<close>

definition effective_opener ::
  "web_state_env \<Rightarrow> web_state_list \<Rightarrow> int \<Rightarrow> web_state_opener \<Rightarrow> web_state_opener" where
  "effective_opener env l flags op0 =
     (if is_insertion_flag_set flags INSERT_INHERIT_OPENER then opener_from env (active_tab l) else op0)"

definition insert_allowed ::
  "web_state_env \<Rightarrow> web_state_list \<Rightarrow> int \<Rightarrow> web_state option \<Rightarrow> int \<Rightarrow> web_state_opener \<Rightarrow> bool" where
  "insert_allowed env l index ws flags op0 \<longleftrightarrow>
     ws \<noteq> None \<and> ws \<notin> tabs (wrappers l) \<and> count l < INT_MAX
     \<and> (is_insertion_flag_set flags INSERT_FORCE_INDEX \<longrightarrow> 0 \<le> index \<and> index \<le> count l)
     \<and> (is_insertion_flag_set flags INSERT_INHERIT_OPENER
        \<or> opener op0 \<in> insert None (tabs (wrappers l)))"

definition insertion_index ::
  "web_state_env \<Rightarrow> web_state_list \<Rightarrow> int \<Rightarrow> int \<Rightarrow> web_state_opener \<Rightarrow> int" where
  "insertion_index env l index flags op0 =
     (if is_insertion_flag_set flags INSERT_FORCE_INDEX then index
      else the (determine_insertion_index env l (opener (effective_opener env l flags op0))))"

lemma search_locked [simp]:
  "get_index_of_web_state (l\<lparr>locked := b\<rparr>) p = get_index_of_web_state l p"
  "get_index_of_nth_web_state_opened_by env (l\<lparr>locked := b\<rparr>) p i g n =
     get_index_of_nth_web_state_opened_by env l p i g n"
  by (simp_all add: get_index_of_web_state_def get_index_of_nth_web_state_opened_by_def Let_def
      cong: option.case_cong if_cong)

lemma order_controller_locked [simp]:
  "determine_insertion_index env (l\<lparr>locked := b\<rparr>) p = determine_insertion_index env l p"
  "determine_new_active_index env (l\<lparr>locked := b\<rparr>) i = determine_new_active_index env l i"
  by (simp_all add: determine_insertion_index_def determine_new_active_index_def
      get_index_of_last_web_state_opened_by_def get_index_of_next_web_state_opened_by_def
      get_web_state_at_def get_opener_of_web_state_at_def Let_def cong: if_cong)

lemma insert_web_state_effect:
  assumes wf: "well_formed l" and ok: "insert_allowed env l index ws flags op0"
  defines "op \<equiv> effective_opener env l flags op0"
  defines "i \<equiv> insertion_index env l index flags op0"
  shows "\<exists>l'. insert_web_state env l index ws flags op0 = Some (l', i) \<and> 0 \<le> i \<and> i \<le> count l
    \<and> wrappers l' = vector_insert (nat i)
         \<lparr>wrapped = ws, wrapped_opener = (if opener op = None then no_opener else op)\<rparr> (wrappers l)
    \<and> active_index l' = (if is_insertion_flag_set flags INSERT_ACTIVATE then i
         else if active_index l \<ge> i then active_index l + 1 else active_index l)
    \<and> \<not> locked l' \<and> observers l' = observers l
    \<and> notifications l' = notifications l @ ToDelegate (WillAddWebState ws)
        # to_observers l True (WebStateInsertedAt ws i (is_insertion_flag_set flags INSERT_ACTIVATE))
        @ (if is_insertion_flag_set flags INSERT_ACTIVATE
           then to_observers l False
             (WebStateActivatedAt (active_tab l) ws i CHANGE_REASON_USER_ACTION) else [])"
proof -
  have st: "settled l" "\<not> locked l" using wf by (simp_all add: well_formed_def)
  have op_in: "opener op \<in> insert None (tabs (wrappers l))"
    using ok active_tab_in [OF st(1)]
    by (auto simp: op_def effective_opener_def insert_allowed_def opener_from_def)
  obtain j where j: "determine_insertion_index env l (opener op) = Some j" "0 \<le> j" "j \<le> count l"
    using controller.insertion_range [OF st(1) op_in] by blast
  have i: "0 \<le> i" "i \<le> count l"
    using j ok by (auto simp: i_def insertion_index_def insert_allowed_def op_def [symmetric])
  define l1 where "l1 = l\<lparr>locked := True\<rparr>"
  have get_op: "(if is_insertion_flag_set flags INSERT_INHERIT_OPENER
      then map_option (opener_from env) (get_active_web_state l1) else Some op0) = Some op"
    using st(1) by (simp add: op_def effective_opener_def l1_def get_active_web_state_eq)
  have get_i: "(if is_insertion_flag_set flags INSERT_FORCE_INDEX then Some index
      else map_option (\<lambda>i. if i < 0 \<or> count l1 < i then count l1 else i)
        (determine_insertion_index env l1 (opener op))) = Some i"
    using j by (simp add: i_def insertion_index_def op_def [symmetric] l1_def)
  define w where "w = \<lparr>wrapped = ws, wrapped_opener = no_opener\<rparr>"
  have n: "nat i \<le> length (wrappers l)" using i by (simp add: count_def)
  define a where "a = (if active_index l \<ge> i then active_index l + 1 else active_index l)"
  define act where "act = is_insertion_flag_set flags INSERT_ACTIVATE"
  define l5 where "l5 = notify (tell_delegate l1 (WillAddWebState ws)\<lparr>
      wrappers := vector_insert (nat i) w (wrappers l), active_index := a\<rparr>) (WebStateInsertedAt ws i act)"
  define l6 where "l6 = (if opener op \<noteq> None then l5\<lparr>wrappers := (wrappers l5)
      [nat i := (wrappers l5 ! nat i)\<lparr>wrapped_opener := op\<rparr>]\<rparr> else l5)"
  have set_op: "(if opener op \<noteq> None then set_opener_of_web_state_at l5 i op else Some l5) = Some l6"
    using op_in i set_opener_of_web_state_at_eq [of l5 i op]
    by (auto simp: l6_def contains_index_def l5_def count_def)
  have w6: "wrappers l6 = vector_insert (nat i)
      \<lparr>wrapped = ws, wrapped_opener = (if opener op = None then no_opener else op)\<rparr> (wrappers l)"
    using n by (simp add: l6_def l5_def w_def vector_insert_nth vector_insert_update)
  have a6: "active_index l6 = a" "locked l6" "observers l6 = observers l"
    by (simp_all add: l6_def l5_def l1_def)
  have "live (wrappers l6)"
    unfolding w6 using st(1) ok op_in
    by (intro live_vector_insert) (auto simp: settled_def insert_allowed_def no_opener_def)
  then have st6: "settled l6"
    using st(1) ok i a6 w6
    by (auto simp: settled_def count_def insert_allowed_def a_def kInvalidIndex_def)
  have len6: "contains_index l6 i" using i w6 by (simp add: contains_index_def count_def)
  have strip6: "strip l6 = vector_insert (nat i) ws (strip l)"
    by (simp add: strip_def w6 map_vector_insert)
  have strip_len: "length (strip l) = length (wrappers l)" by (simp add: strip_def)
  have tab6: "active_tab l6 = active_tab l"
    using st(1) i a6(1) n strip_len
    by (auto simp: active_tab_def strip6 a_def nth_vector_insert settled_def kInvalidIndex_def
        count_def nat_add_distrib)
  have ws_new: "ws \<noteq> active_tab l"
    using active_tab_in [OF st(1)] ok by (auto simp: insert_allowed_def)
  have n6: "notifications l6 = notifications l @ ToDelegate (WillAddWebState ws)
      # to_observers l True (WebStateInsertedAt ws i act)"
    by (simp add: l6_def l5_def l1_def notifications_log to_observers_def)
  obtain l8 where l8: "(if act then activate_web_state_at (l6\<lparr>locked := False\<rparr>) i
        else Some (l6\<lparr>locked := False\<rparr>)) = Some l8"
    "wrappers l8 = wrappers l6" "active_index l8 = (if act then i else a)" "\<not> locked l8"
    "observers l8 = observers l"
    and n8: "notifications l8 = notifications l6 @ (if act then to_observers l False
      (WebStateActivatedAt (active_tab l) ws i CHANGE_REASON_USER_ACTION) else [])"
  proof (cases act)
    case True
    obtain l8 where l8: "activate_web_state_at (l6\<lparr>locked := False\<rparr>) i = Some l8"
      "wrappers l8 = wrappers l6" "active_index l8 = i" "\<not> locked l8" "observers l8 = observers l6"
      "notifications l8 = notifications l6 @ (if active_tab l = active_tab l8 then []
        else to_observers l6 False (WebStateActivatedAt (active_tab l) (active_tab l8) i CHANGE_REASON_USER_ACTION))"
      using activate_web_state_at_effect [of "l6\<lparr>locked := False\<rparr>" i] st6 len6 tab6
      by (auto simp: contains_index_def to_observers_def)
    have "active_tab l8 = ws"
      using l8(2,3) i n strip6 by (simp add: active_tab_def strip_def kInvalidIndex_def nth_vector_insert)
    with l8 that [of l8] True ws_new a6(3) show ?thesis by (simp add: to_observers_def)
  next
    case False
    with that [of "l6\<lparr>locked := False\<rparr>"] a6 show ?thesis by simp
  qed
  have w: "new_wrapper ws = Some w"
    using ok by (simp add: new_wrapper_def w_def insert_allowed_def)
  have here: "(contains_index l1 i \<or> i = count l1) = True"
    using i by (auto simp: l1_def contains_index_def)
  define l3 where "l3 = tell_delegate l1 (WillAddWebState ws)\<lparr>
      wrappers := vector_insert (nat i) w (wrappers (tell_delegate l1 (WillAddWebState ws)))\<rparr>"
  have l5: "notify (if active_index l3 \<ge> i then l3\<lparr>active_index := active_index l3 + 1\<rparr> else l3)
      (WebStateInsertedAt ws i act) = l5"
    by (cases l, cases "active_index l \<ge> i")
      (simp_all add: l5_def l3_def a_def l1_def notify_def tell_delegate_def)
  have "insert_web_state env l index ws flags op0 = Some (l8, i)"
    unfolding insert_web_state_def Let_def
    by (simp only: st(2) l1_def [symmetric] not_False_eq_True dcheck_simps Option.bind.bind_lunit
        get_op get_i here w l3_def [symmetric] act_def [symmetric] l5 set_op l8(1))
  then show ?thesis using i l8 w6 n6 n8 by (auto simp: a_def act_def)
qed

subsection \<open>Moving\<close>

lemma move_web_state_at_effect:
  assumes "well_formed l" and "contains_index l i" and "contains_index l j"
  shows "\<exists>l'. move_web_state_at l i j = Some l'
    \<and> wrappers l' = vector_insert (nat j) (wrappers l ! nat i) (vector_erase (nat i) (wrappers l))
    \<and> active_index l' = moved_active_index (active_index l) i j
    \<and> \<not> locked l' \<and> observers l' = observers l
    \<and> notifications l' = notifications l @ (if i = j then []
        else to_observers l True (WebStateMoved (wrapped (wrappers l ! nat i)) i j))"
proof (cases "i = j")
  case True
  have "wrappers l = vector_insert (nat j) (wrappers l ! nat j) (vector_erase (nat j) (wrappers l))"
    using vector_split [OF contains_index_nth [OF assms(3)]] contains_index_nth [OF assms(3)]
    by (simp add: vector_insert_def vector_erase_def min_def)
  moreover have "moved_active_index (active_index l) j j = active_index l"
    by (simp add: moved_active_index_def)
  ultimately show ?thesis
    using assms True by (simp add: well_formed_def move_web_state_at_def)
next
  case False
  with assms show ?thesis
    by (simp add: well_formed_def move_web_state_at_def Let_def notifications_log to_observers_def)
qed

text \<open>The index after a move is the index of the same element.\<close>

lemma moved_active_index_range:
  assumes "0 \<le> a" "a < n" "0 \<le> i" "i < n" "0 \<le> j" "j < n"
  shows "0 \<le> moved_active_index a i j \<and> moved_active_index a i j < n"
  using assms by (auto simp: moved_active_index_def Let_def)

lemma moved_active_index_invalid:
  "0 \<le> i \<Longrightarrow> 0 \<le> j \<Longrightarrow> moved_active_index kInvalidIndex i j = kInvalidIndex"
  by (auto simp: moved_active_index_def Let_def kInvalidIndex_def)

lemma nth_moved:
  assumes "i < length xs" "j < length xs" "a < length xs"
  shows "vector_insert j (xs ! i) (vector_erase i xs)
      ! nat (moved_active_index (int a) (int i) (int j)) = xs ! a"
  using assms
  by (auto simp: nth_vector_insert nth_vector_erase moved_active_index_def Let_def nat_diff_distrib'
      nat_add_distrib min_def max_def split: if_splits)

lemma set_moved: "i < length xs \<Longrightarrow> set (vector_insert j (xs ! i) (vector_erase i xs)) = set xs"
proof -
  assume "i < length xs"
  then have "set (take i xs @ xs ! i # drop (Suc i) xs) = set xs"
    using vector_split [of i xs] by simp
  then show ?thesis by (auto simp: vector_erase_def)
qed

lemma distinct_moved:
  assumes "distinct xs" and "i < length xs"
  shows "distinct (vector_insert j (xs ! i) (vector_erase i xs))"
  using assms by (intro distinct_vector_insert) (simp_all add: distinct_vector_erase set_vector_erase)

lemma live_moved:
  assumes "live ws" and "i < length ws"
  shows "live (vector_insert j (ws ! i) (vector_erase i ws))"
  using assms distinct_moved [of "map wrapped ws" i j]
  by (simp add: live_def tabs_def set_moved map_vector_insert map_vector_erase del: set_vector_insert)

subsection \<open>Replacing and detaching\<close>

definition forget_opener :: "web_state option \<Rightarrow> web_state_wrapper \<Rightarrow> web_state_wrapper" where
  "forget_opener p w =
     (if opener (wrapped_opener w) = p then w\<lparr>wrapped_opener := no_opener\<rparr> else w)"

lemma wrapped_forget_opener [simp]: "wrapped (forget_opener p w) = wrapped w"
  by (simp add: forget_opener_def)

lemma wrappers_clear_openers [simp]:
  "wrappers (clear_openers_referencing l i) =
     map (forget_opener (wrapped (wrappers l ! nat i))) (wrappers l)"
  "active_index (clear_openers_referencing l i) = active_index l"
  "locked (clear_openers_referencing l i) = locked l"
  "observers (clear_openers_referencing l i) = observers l"
  "notifications (clear_openers_referencing l i) = notifications l"
  by (simp_all add: clear_openers_referencing_def Let_def forget_opener_def cong: if_cong)

lemma tabs_forget_opener [simp]: "tabs (map (forget_opener p) ws) = tabs ws"
  by (simp add: tabs_def image_image)

lemma map_wrapped_forget_opener [simp]: "map wrapped (map (forget_opener p) ws) = map wrapped ws"
  by simp

lemma opener_forget_opener:
  "opener (wrapped_opener (forget_opener p w)) =
     (if opener (wrapped_opener w) = p then None else opener (wrapped_opener w))"
  by (simp add: forget_opener_def no_opener_def)

lemma tabs_vector_erase:
  assumes "live ws" and "i < length ws"
  shows "tabs (vector_erase i ws) = tabs ws - {wrapped (ws ! i)}"
proof -
  have "tabs (vector_erase i ws) = set (vector_erase i (map wrapped ws))"
    by (simp add: tabs_def map_vector_erase [symmetric])
  also have "\<dots> = tabs ws - {wrapped (ws ! i)}"
    using assms set_vector_erase [of "map wrapped ws" i] by (simp add: tabs_def live_def)
  finally show ?thesis .
qed

lemma live_forget:
  "live ws \<Longrightarrow> live (map (forget_opener p) ws)"
  by (auto simp: live_def opener_forget_opener comp_def)

lemma opener_forget_opener_neq:
  "opener (wrapped_opener (forget_opener p w)) = p \<Longrightarrow> p = None"
  by (simp add: opener_forget_opener split: if_splits)

lemma live_erase_forget:
  assumes "live ws" and "i < length ws"
  shows "live (vector_erase i (map (forget_opener (wrapped (ws ! i))) ws))"
proof -
  let ?vs = "map (forget_opener (wrapped (ws ! i))) ws"
  have vs: "live ?vs" "i < length ?vs" "wrapped (?vs ! i) = wrapped (ws ! i)"
    using assms by (simp_all add: live_forget)
  have "opener (wrapped_opener w) \<in> insert None (tabs (vector_erase i ?vs))"
    if "w \<in> set (vector_erase i ?vs)" for w
  proof -
    have mem: "w \<in> set ?vs" using that by (rule in_set_vector_eraseD)
    then have "opener (wrapped_opener w) \<in> insert None (tabs ?vs)"
      using vs(1) by (simp only: live_def)
    moreover have "opener (wrapped_opener w) = wrapped (ws ! i) \<Longrightarrow> opener (wrapped_opener w) = None"
    proof -
      obtain x where "w = forget_opener (wrapped (ws ! i)) x" using mem by auto
      then show "opener (wrapped_opener w) = wrapped (ws ! i) \<Longrightarrow> opener (wrapped_opener w) = None"
        using opener_forget_opener_neq [of "wrapped (ws ! i)" x] by simp
    qed
    ultimately show ?thesis unfolding tabs_vector_erase [OF vs(1,2)] vs(3) by blast
  qed
  moreover have "distinct (map wrapped (vector_erase i ?vs))"
    using vs(1) unfolding live_def map_vector_erase by (blast intro: distinct_vector_erase)
  moreover have "None \<notin> tabs (vector_erase i ?vs)"
    using vs(1) tabs_vector_erase [OF vs(1,2)] by (simp add: live_def)
  ultimately show ?thesis by (simp add: live_def)
qed

lemma replace_web_state_eq:
  "p \<noteq> wrapped w \<Longrightarrow> replace_web_state w p =
     Some (w\<lparr>wrapped := p, wrapped_opener := no_opener\<rparr>, wrapped w)"
  by (simp add: replace_web_state_def)

lemma live_replace:
  assumes "live ws" and "i < length ws" and "p \<noteq> None" and "p \<notin> tabs ws"
  shows "live ((map (forget_opener (wrapped (ws ! i))) ws)
    [i := (ws ! i)\<lparr>wrapped := p, wrapped_opener := no_opener\<rparr>])"
proof -
  let ?w = "(ws ! i)\<lparr>wrapped := p, wrapped_opener := no_opener\<rparr>"
  have "live (vector_insert i ?w (vector_erase i (map (forget_opener (wrapped (ws ! i))) ws)))"
    using assms tabs_vector_erase [of "map (forget_opener (wrapped (ws ! i))) ws" i]
    by (intro live_vector_insert live_erase_forget) (auto simp: live_forget no_opener_def)
  moreover have "(map (forget_opener (wrapped (ws ! i))) ws)[i := ?w] =
      vector_insert i ?w (vector_erase i (map (forget_opener (wrapped (ws ! i))) ws))"
    using assms(2)
    by (simp add: vector_insert_def vector_erase_def upd_conv_take_nth_drop min_def)
  ultimately show ?thesis by simp
qed

lemma replace_web_state_at_effect:
  assumes "settled l" and "contains_index l i" and "p \<noteq> None" and "p \<notin> tabs (wrappers l)"
  defines "old \<equiv> wrapped (wrappers l ! nat i)"
  shows "\<exists>l'. replace_web_state_at l i p = Some (l', old)
    \<and> wrappers l' = (map (forget_opener old) (wrappers l))
        [nat i := (wrappers l ! nat i)\<lparr>wrapped := p, wrapped_opener := no_opener\<rparr>]
    \<and> active_index l' = active_index l \<and> locked l' = locked l \<and> observers l' = observers l
    \<and> settled l'
    \<and> notifications l' = notifications l @ ToDelegate (WillAddWebState p)
        # to_observers l (locked l) (WebStateReplacedAt old p i)
        @ (if old = active_tab l' then [] else to_observers l (locked l)
             (WebStateActivatedAt old (active_tab l') (active_index l) CHANGE_REASON_REPLACED))
        @ [ToDelegate (WebStateDetached old)]"
proof -
  have n: "nat i < length (wrappers l)" by (rule contains_index_nth [OF assms(2)])
  define w where "w = forget_opener old (wrappers l ! nat i)"
  define ws where "ws = (map (forget_opener old) (wrappers l))
      [nat i := w\<lparr>wrapped := p, wrapped_opener := no_opener\<rparr>]"
  define l4 where "l4 = notify (clear_openers_referencing (tell_delegate l (WillAddWebState p)) i
      \<lparr>wrappers := ws\<rparr>) (WebStateReplacedAt old p i)"
  have pw: "p \<noteq> wrapped w"
    using assms(4) n by (auto simp: w_def tabs_def)
  have wsn: "ws = (map (forget_opener old) (wrappers l))
      [nat i := (wrappers l ! nat i)\<lparr>wrapped := p, wrapped_opener := no_opener\<rparr>]"
    by (simp add: ws_def w_def forget_opener_def)
  have "live ws"
    unfolding wsn old_def using assms n by (intro live_replace) (auto simp: settled_def)
  then have st: "settled l4"
    using assms(1) by (simp add: l4_def settled_def count_def ws_def)
  have eqs: "wrappers (clear_openers_referencing (tell_delegate l (WillAddWebState p)) i) ! nat i = w"
    "replace_web_state w p = Some (w\<lparr>wrapped := p, wrapped_opener := no_opener\<rparr>, old)"
    using n pw replace_web_state_eq [of p w] by (simp_all add: w_def old_def)
  have f4: "wrappers l4 = ws" "active_index l4 = active_index l" "locked l4 = locked l"
    "observers l4 = observers l" by (simp_all add: l4_def)
  define l5 where "l5 = (if old = active_tab l4 then l4 else notify l4
      (WebStateActivatedAt old (active_tab l4) (active_index l4) CHANGE_REASON_REPLACED))"
  have l5: "notify_if_active_web_state_changed l4 old CHANGE_REASON_REPLACED = Some l5"
    "wrappers l5 = ws" "active_index l5 = active_index l" "locked l5 = locked l"
    "observers l5 = observers l" "settled l5" "active_tab l5 = active_tab l4"
    "notifications l5 = notifications l4 @ (if old = active_tab l4 then [] else to_observers l (locked l)
      (WebStateActivatedAt old (active_tab l4) (active_index l) CHANGE_REASON_REPLACED))"
    using st f4 by (simp_all add: l5_def notify_if_active_web_state_changed_eq [OF st]
        notifications_log to_observers_def)
  have n4: "notifications l4 = notifications l @ ToDelegate (WillAddWebState p)
      # to_observers l (locked l) (WebStateReplacedAt old p i)"
    by (simp add: l4_def notifications_log to_observers_def clear_openers_referencing_def Let_def)
  have "replace_web_state_at l i p = Some (tell_delegate l5 (WebStateDetached old), old)"
    using assms(2) eqs l5(1)
    by (simp add: replace_web_state_at_def Let_def l4_def ws_def old_def)
  then show ?thesis using l5 wsn n4 by (auto simp: notifications_log)
qed

text \<open>
  What the observers are told of a detachment, every message while the list is locked: it
  is about to happen, it has happened and, when the active tab was detached, the change of
  the active tab.
\<close>

definition detach_log :: "web_state_list \<Rightarrow> int \<Rightarrow> web_state_list \<Rightarrow> notification list" where
  "detach_log l i l' =
     (let ws = wrapped (wrappers l ! nat i)
      in to_observers l True (WillDetachWebStateAt ws i)
         @ to_observers l True (WebStateDetachedAt ws i)
         @ (if i = active_index l
            then to_observers l True
              (WebStateActivatedAt ws (active_tab l') (active_index l') CHANGE_REASON_NONE)
            else []))"

lemma detach_web_state_at_effect:
  assumes "well_formed l" and "contains_index l i"
  defines "ws \<equiv> wrapped (wrappers l ! nat i)"
  shows "\<exists>l'. detach_web_state_at env l i = Some (l', ws)
    \<and> wrappers l' = vector_erase (nat i) (map (forget_opener ws) (wrappers l))
    \<and> active_index l' = detached_active_index (active_index l) i
        (the (determine_new_active_index env l i)) (count l - 1)
    \<and> observers l' = observers l \<and> well_formed l'
    \<and> notifications l' = notifications l @ detach_log l i l' @ [ToDelegate (WebStateDetached ws)]"
proof -
  have st: "settled l" "\<not> locked l" using assms(1) by (simp_all add: well_formed_def)
  have n: "nat i < length (wrappers l)" by (rule contains_index_nth [OF assms(2)])
  obtain j a where j: "determine_new_active_index env l i = Some j"
    and a_def: "a = detached_active_index (active_index l) i j (count l - 1)"
    and a: "kInvalidIndex \<le> a" "a < count l - 1"
    using controller.detached_index_valid [OF st(1) assms(2), of env] by blast
  define vs where "vs = vector_erase (nat i) (map (forget_opener ws) (wrappers l))"
  define l3 where "l3 = clear_openers_referencing
      (notify (l\<lparr>locked := True\<rparr>) (WillDetachWebStateAt ws i)) i"
  define l6 where "l6 = notify (l3\<lparr>wrappers := vs, active_index := a\<rparr>) (WebStateDetachedAt ws i)"
  have l6: "wrappers l6 = vs" "active_index l6 = a" "observers l6 = observers l" "locked l6"
    "notifications l6 = notifications l @ to_observers l True (WillDetachWebStateAt ws i)
       @ to_observers l True (WebStateDetachedAt ws i)"
    by (simp_all add: l6_def l3_def notify_def to_observers_def)
  have live: "live vs"
    unfolding vs_def ws_def using st(1) n by (intro live_erase_forget) (simp_all add: settled_def)
  have len: "int (length vs) = count l - 1"
    using n by (simp add: vs_def count_def of_nat_diff)
  have st6: "settled l6"
    using live a len st(1) by (simp add: l6_def settled_def count_def)
  have "ws \<in> tabs (wrappers l)" using n by (simp add: ws_def tabs_def)
  then have "ws \<noteq> None" using st(1) by (metis settled_def live_def)
  then have rep: "replace_web_state (wrappers l3 ! nat i) None =
      Some ((wrappers l3 ! nat i)\<lparr>wrapped := None, wrapped_opener := no_opener\<rparr>, ws)"
    using n \<open>ws \<noteq> None\<close> replace_web_state_eq [of None "wrappers l3 ! nat i"]
    by (auto simp: l3_def ws_def)
  have "tabs vs = tabs (map (forget_opener ws) (wrappers l)) - {ws}"
    using st(1) n tabs_vector_erase [of "map (forget_opener ws) (wrappers l)" "nat i"]
    by (simp add: vs_def ws_def live_forget settled_def)
  then have "ws \<notin> insert None (tabs vs)"
    using \<open>ws \<noteq> None\<close> by blast
  then have changed: "ws \<noteq> active_tab l6"
    using active_tab_in [OF st6] unfolding l6(1) by metis
  obtain l7 where l7: "(if i = active_index l then notify_if_active_web_state_changed l6 ws CHANGE_REASON_NONE
      else Some l6) = Some l7" "wrappers l7 = vs" "active_index l7 = a" "observers l7 = observers l"
    "notifications l7 = notifications l @ detach_log l i l6"
    using notify_if_active_web_state_changed_eq [OF st6, of ws CHANGE_REASON_NONE] l6 changed
    by (cases "i = active_index l")
      (auto simp: detach_log_def ws_def Let_def notify_def to_observers_def)
  define l8 where "l8 = tell_delegate l7 (WebStateDetached ws)\<lparr>locked := False\<rparr>"
  have facts: "contains_index (l\<lparr>locked := True\<rparr>) i = True"
    "determine_new_active_index env (l\<lparr>locked := True\<rparr>) i = Some j"
    "wrapped (wrappers (l\<lparr>locked := True\<rparr>) ! nat i) = ws" "vector_erase (nat i) (wrappers l3) = vs"
    "active_index (l3\<lparr>wrappers := vs\<rparr>) = active_index l"
    "detached_active_index (active_index l) i j (count (l3\<lparr>wrappers := vs\<rparr>)) = a"
    using assms(2) j len by (simp_all add: ws_def l3_def vs_def a_def count_def)
  have "detach_web_state_at env l i = Some (l8, ws)"
    unfolding detach_web_state_at_def Let_def
    by (simp only: facts st(2) l3_def [symmetric] rep l6_def [symmetric] l7(1) l8_def [symmetric]
        not_False_eq_True dcheck_simps Option.bind.bind_lunit prod.case)
  moreover have "well_formed l8"
    using live a len l7 st(1) by (simp add: well_formed_def settled_def l8_def count_def)
  moreover have "active_tab l8 = active_tab l6"
    using l6 l7 by (simp add: active_tab_def strip_def l8_def)
  ultimately show ?thesis using l7 l6 j
    by (auto simp: l8_def a_def vs_def detach_log_def Let_def tell_delegate_def)
qed

subsection \<open>Closing\<close>

lemma close_web_state_at_effect:
  assumes "well_formed l" and "contains_index l i"
  shows "\<exists>l' d. close_web_state_at env l i f = Some l' \<and> detach_web_state_at env l i = Some (d, wrapped (wrappers l ! nat i))
    \<and> wrappers l' = wrappers d \<and> active_index l' = active_index d \<and> observers l' = observers d
    \<and> well_formed l'
    \<and> notifications l' = notifications d
        @ to_observers d True (WillCloseWebStateAt (wrapped (wrappers l ! nat i)) i
            (is_closing_flag_set f CLOSE_USER_ACTION))"
proof -
  obtain d where d: "detach_web_state_at env l i = Some (d, wrapped (wrappers l ! nat i))" "well_formed d"
    using detach_web_state_at_effect [OF assms, of env] by blast
  then show ?thesis
    by (simp add: close_web_state_at_def well_formed_def settled_def count_def notifications_log to_observers_def)
qed

lemma length_detach:
  assumes "detach_web_state_at env l i = Some (l', p)"
  shows "length (wrappers l') < length (wrappers l)"
  using assms
  by (auto simp: detach_web_state_at_def Let_def option_dest
      notify_if_active_web_state_changed_def split: if_splits dest!: contains_index_nth)

lemma length_close:
  "close_web_state_at env l i f = Some l' \<Longrightarrow> length (wrappers l') < length (wrappers l)"
  by (auto simp: close_web_state_at_def Let_def option_dest dest: length_detach)

text \<open>The loop of \<open>CloseAllWebStates\<close>, which ends because each turn removes a tab.\<close>

function close_all_loop :: "web_state_env \<Rightarrow> int \<Rightarrow> web_state_list \<Rightarrow> web_state_list option" where
  "close_all_loop env f l =
     (if is_empty l then Some l
      else case close_web_state_at env l (count l - 1) f of
        None \<Rightarrow> None
      | Some l' \<Rightarrow> close_all_loop env f l')"
  by pat_completeness auto
termination
  by (relation "measure (\<lambda>(env, f, l). length (wrappers l))") (auto dest: length_close)

declare close_all_loop.simps [simp del]

definition close_all_web_states :: "web_state_env \<Rightarrow> web_state_list \<Rightarrow> int \<Rightarrow> web_state_list option" where
  "close_all_web_states env l close_flags =
     perform_batch_operation l (Some (close_all_loop env close_flags))"

definition destroy_web_state_list :: "web_state_env \<Rightarrow> web_state_list \<Rightarrow> web_state_list option" where
  "destroy_web_state_list env l = do {
     dcheck (\<not> locked l);
     close_all_web_states env l CLOSE_NO_FLAGS
   }"

lemma close_all_loop_effect:
  "well_formed l \<Longrightarrow> \<exists>l'. close_all_loop env f l = Some l' \<and> wrappers l' = [] \<and> well_formed l'"
proof (induction env f l rule: close_all_loop.induct)
  case (1 env f l)
  show ?case
  proof (cases "is_empty l")
    case True
    with 1 show ?thesis by (simp add: close_all_loop.simps [of env f l] is_empty_def)
  next
    case False
    then have "contains_index l (count l - 1)"
      by (cases "wrappers l") (auto simp: is_empty_def contains_index_def count_def)
    then obtain l' where "close_web_state_at env l (count l - 1) f = Some l'" "well_formed l'"
      using close_web_state_at_effect [OF "1.prems"] by blast
    with False "1.IH" show ?thesis by (simp add: close_all_loop.simps [of env f l])
  qed
qed

lemma well_formed_notify [simp]: "well_formed (notify l e) = well_formed l"
  by (simp add: well_formed_def)

lemma close_all_web_states_effect:
  assumes "well_formed l"
  shows "\<exists>l'. close_all_web_states env l f = Some l' \<and> wrappers l' = [] \<and> well_formed l'"
  using close_all_loop_effect [of "notify l WillBeginBatchOperation" env f] assms
  by (auto simp: close_all_web_states_def perform_batch_operation_def)

end
