(* ===== verification/WebStateListMachine.thy ===== *)
theory WebStateListMachine
  imports WebStateListFacts
begin

text \<open>
  The public interface of \<open>WebStateList\<close> as a machine: one constructor of
  \<open>web_state_list_op\<close> per mutating method of \<open>web_state_list.h\<close>, its documented
  precondition in \<open>op_allowed\<close>, and the step function that calls the method. The contract
  of the pluggable order controller is the locale \<open>order_policy\<close>, interpreted on the
  controller of the code.
\<close>

unbundle bit_operations_syntax

section \<open>The interface as operations\<close>

datatype web_state_list_op =
    SetOpenerOfWebStateAt int web_state_opener
  | InsertWebState int "web_state option" int web_state_opener
  | MoveWebStateAt int int
  | ReplaceWebStateAt int "web_state option"
  | DetachWebStateAt int
  | CloseWebStateAt int int
  | CloseAllWebStates int
  | ActivateWebStateAt int
  | AddObserver nat
  | RemoveObserver nat

fun web_state_list_step ::
  "web_state_env \<Rightarrow> web_state_list \<Rightarrow> web_state_list_op \<Rightarrow> web_state_list option" where
  "web_state_list_step env l (SetOpenerOfWebStateAt i op) = set_opener_of_web_state_at l i op"
| "web_state_list_step env l (InsertWebState i ws flags op) =
     map_option fst (insert_web_state env l i ws flags op)"
| "web_state_list_step env l (MoveWebStateAt i j) = move_web_state_at l i j"
| "web_state_list_step env l (ReplaceWebStateAt i ws) = map_option fst (replace_web_state_at l i ws)"
| "web_state_list_step env l (DetachWebStateAt i) = map_option fst (detach_web_state_at env l i)"
| "web_state_list_step env l (CloseWebStateAt i flags) = close_web_state_at env l i flags"
| "web_state_list_step env l (CloseAllWebStates flags) = close_all_web_states env l flags"
| "web_state_list_step env l (ActivateWebStateAt i) = activate_web_state_at l i"
| "web_state_list_step env l (AddObserver ob) = Some (add_observer l ob)"
| "web_state_list_step env l (RemoveObserver ob) = Some (remove_observer l ob)"

fun op_allowed :: "web_state_env \<Rightarrow> web_state_list \<Rightarrow> web_state_list_op \<Rightarrow> bool" where
  "op_allowed env l (SetOpenerOfWebStateAt i op) =
     (contains_index l i \<and> opener op \<in> tabs (wrappers l))"
| "op_allowed env l (InsertWebState i ws flags op) = insert_allowed env l i ws flags op"
| "op_allowed env l (MoveWebStateAt i j) = (contains_index l i \<and> contains_index l j)"
| "op_allowed env l (ReplaceWebStateAt i ws) =
     (contains_index l i \<and> ws \<noteq> None \<and> ws \<notin> tabs (wrappers l))"
| "op_allowed env l (DetachWebStateAt i) = contains_index l i"
| "op_allowed env l (CloseWebStateAt i flags) = contains_index l i"
| "op_allowed env l (ActivateWebStateAt i) = contains_index l i"
| "op_allowed env l _ = True"

section \<open>Every operation keeps the invariant\<close>

lemma set_opener_well_formed:
  assumes "well_formed l" and "contains_index l i" and "opener op \<in> tabs (wrappers l)"
  shows "\<exists>l'. set_opener_of_web_state_at l i op = Some l' \<and> strip l' = strip l
    \<and> active_index l' = active_index l \<and> well_formed l'"
proof -
  define w where "w = (wrappers l ! nat i)\<lparr>wrapped_opener := op\<rparr>"
  define l' where "l' = l\<lparr>wrappers := (wrappers l)[nat i := w]\<rparr>"
  have n: "nat i < length (wrappers l)" by (rule contains_index_nth [OF assms(2)])
  have m: "map wrapped ((wrappers l)[nat i := w]) = map wrapped (wrappers l)"
    using n by (simp add: map_update w_def list_update_same_conv)
  then have t: "tabs ((wrappers l)[nat i := w]) = tabs (wrappers l)"
    unfolding tabs_def by (metis set_map)
  have "opener (wrapped_opener v) \<in> insert None (tabs (wrappers l))"
    if "v \<in> set ((wrappers l)[nat i := w])" for v
    using that assms(1,3) set_update_subset_insert [of "wrappers l" "nat i" w]
    by (auto simp: well_formed_def settled_def live_def w_def)
  then have "well_formed l'"
    using assms(1) by (auto simp: l'_def well_formed_def settled_def live_def m t count_def)
  then show ?thesis
    using assms(2,3) m by (simp add: set_opener_of_web_state_at_eq w_def l'_def strip_def)
qed

lemma insert_well_formed:
  assumes "well_formed l" and "insert_allowed env l index ws flags op0"
  shows "\<exists>l' i. insert_web_state env l index ws flags op0 = Some (l', i) \<and> well_formed l'"
proof -
  define op where "op = effective_opener env l flags op0"
  define i where "i = insertion_index env l index flags op0"
  obtain l' where l': "insert_web_state env l index ws flags op0 = Some (l', i)" "0 \<le> i" "i \<le> count l"
    "wrappers l' = vector_insert (nat i)
      \<lparr>wrapped = ws, wrapped_opener = (if opener op = None then no_opener else op)\<rparr> (wrappers l)"
    "active_index l' = (if is_insertion_flag_set flags INSERT_ACTIVATE then i
       else if active_index l \<ge> i then active_index l + 1 else active_index l)" "\<not> locked l'"
    using insert_web_state_effect [OF assms] unfolding op_def i_def by blast
  have st: "settled l" using assms(1) by (simp add: well_formed_def)
  have "opener op \<in> insert None (tabs (wrappers l))"
    using assms(2) active_tab_in [OF st]
    by (auto simp: op_def effective_opener_def insert_allowed_def opener_from_def)
  then have "live (wrappers l')"
    unfolding l'(4) using st assms(2)
    by (intro live_vector_insert) (auto simp: settled_def insert_allowed_def no_opener_def)
  then have "well_formed l'"
    using st assms(2) l'
    by (auto simp: well_formed_def settled_def count_def insert_allowed_def kInvalidIndex_def)
  then show ?thesis using l'(1) by blast
qed

lemma move_well_formed:
  assumes "well_formed l" and "contains_index l i" and "contains_index l j"
  shows "\<exists>l'. move_web_state_at l i j = Some l' \<and> well_formed l'"
proof -
  obtain l' where l': "move_web_state_at l i j = Some l'"
    "wrappers l' = vector_insert (nat j) (wrappers l ! nat i) (vector_erase (nat i) (wrappers l))"
    "active_index l' = moved_active_index (active_index l) i j" "\<not> locked l'"
    using move_web_state_at_effect [OF assms] by blast
  have n: "nat i < length (wrappers l)" by (rule contains_index_nth [OF assms(2)])
  have "live (wrappers l')"
    unfolding l'(2) using assms(1) n by (intro live_moved) (simp_all add: well_formed_def settled_def)
  moreover have c: "count l' = count l" using n by (simp add: l'(2) count_def)
  moreover have "kInvalidIndex \<le> active_index l' \<and> active_index l' < count l"
  proof (cases "active_index l = kInvalidIndex")
    case True
    then show ?thesis
      using assms moved_active_index_invalid [of i j]
      by (auto simp: l'(3) contains_index_def kInvalidIndex_def)
  next
    case False
    then show ?thesis
      using assms moved_active_index_range [of "active_index l" "count l" i j]
      by (auto simp: l'(3) contains_index_def kInvalidIndex_def well_formed_def settled_def)
  qed
  ultimately show ?thesis
    using assms(1) l'(1,4) by (auto simp: well_formed_def settled_def)
qed

lemma replace_well_formed:
  "well_formed l \<Longrightarrow> contains_index l i \<Longrightarrow> p \<noteq> None \<Longrightarrow> p \<notin> tabs (wrappers l) \<Longrightarrow>
     \<exists>l' old. replace_web_state_at l i p = Some (l', old) \<and> well_formed l'"
  using replace_web_state_at_effect [of l i p] by (auto simp: well_formed_def)

lemma activate_well_formed:
  "well_formed l \<Longrightarrow> contains_index l i \<Longrightarrow> \<exists>l'. activate_web_state_at l i = Some l' \<and> well_formed l'"
  using activate_web_state_at_effect [of l i]
  by (auto simp: well_formed_def settled_def contains_index_def count_def kInvalidIndex_def)

lemma detach_well_formed:
  "well_formed l \<Longrightarrow> contains_index l i \<Longrightarrow>
     \<exists>l' p. detach_web_state_at env l i = Some (l', p) \<and> well_formed l'"
  using detach_web_state_at_effect [of l i env] by blast

lemma close_well_formed:
  "well_formed l \<Longrightarrow> contains_index l i \<Longrightarrow>
     \<exists>l'. close_web_state_at env l i f = Some l' \<and> well_formed l'"
  using close_web_state_at_effect [of l i env f] by blast

lemma observers_well_formed [simp]:
  "well_formed (add_observer l ob) = well_formed l"
  "well_formed (remove_observer l ob) = well_formed l"
  by (simp_all add: well_formed_def add_observer_def remove_observer_def)

lemma step_well_formed:
  assumes "well_formed l" and "op_allowed env l c"
  shows "\<exists>l'. web_state_list_step env l c = Some l' \<and> well_formed l'"
proof (cases c)
  case (SetOpenerOfWebStateAt i op)
  with assms show ?thesis using set_opener_well_formed [of l i op] by auto
next
  case (InsertWebState i ws flags op)
  with assms show ?thesis using insert_well_formed [of l env i ws flags op] by auto
next
  case (MoveWebStateAt i j)
  with assms show ?thesis using move_well_formed [of l i j] by auto
next
  case (ReplaceWebStateAt i ws)
  with assms show ?thesis using replace_well_formed [of l i ws] by auto
next
  case (DetachWebStateAt i)
  with assms show ?thesis using detach_well_formed [of l i env] by auto
next
  case (CloseWebStateAt i flags)
  with assms show ?thesis using close_well_formed [of l i env flags] by auto
next
  case (CloseAllWebStates flags)
  with assms show ?thesis using close_all_web_states_effect [of l env flags] by auto
next
  case (ActivateWebStateAt i)
  with assms show ?thesis using activate_well_formed [of l i] by auto
qed (use assms in simp_all)

interpretation tab_list: total_machine "web_state_list_step env" "op_allowed env" well_formed
  for env
proof unfold_locales
  show "well_formed t" if "well_formed s" "op_allowed env s c" "web_state_list_step env s c = Some t"
    for s c t
    using step_well_formed [OF that(1,2)] that(3) by auto
  show "\<exists>t. web_state_list_step env s c = Some t" if "well_formed s" "op_allowed env s c" for s c
    using step_well_formed [OF that] by blast
qed

section \<open>Properties\<close>

text \<open>Facts about positions used below.\<close>

lemma strip_nth: "contains_index l i \<Longrightarrow> strip l ! nat i = wrapped (wrappers l ! nat i)"
  by (simp add: strip_def contains_index_nth)

lemma length_strip [simp]: "length (strip l) = length (wrappers l)"
  by (simp add: strip_def)

lemma active_tab_at: "active_index l = int k \<Longrightarrow> active_tab l = strip l ! k"
  by (simp add: active_tab_def kInvalidIndex_def)

lemma settled_active_cases:
  assumes "settled l"
  obtains (none) "active_index l = kInvalidIndex" "active_tab l = None"
  | (some) k where "k < length (wrappers l)" "active_index l = int k" "active_tab l = strip l ! k"
proof (cases "active_index l = kInvalidIndex")
  case False
  then have "0 \<le> active_index l" "active_index l < int (length (wrappers l))"
    using assms by (auto simp: settled_def kInvalidIndex_def count_def)
  then have "nat (active_index l) < length (wrappers l)" "active_index l = int (nat (active_index l))"
    by auto
  with some show ?thesis by (metis active_tab_at)
qed (use none in \<open>simp add: active_tab_def\<close>)

text \<open>Two lists the witnesses use: an environment in which nothing has navigated, and three tabs.\<close>

definition idle_env :: web_state_env where
  "idle_env = \<lparr>last_committed_item_index = (\<lambda>_. 0), visible_url = (\<lambda>_. [])\<rparr>"

definition three_tabs :: web_state_list where
  "three_tabs = \<lparr>wrappers =
     [\<lparr>wrapped = Some 1, wrapped_opener = no_opener\<rparr>,
      \<lparr>wrapped = Some 2, wrapped_opener = \<lparr>opener = Some 1, navigation_index = 0\<rparr>\<rparr>,
      \<lparr>wrapped = Some 3, wrapped_opener = no_opener\<rparr>],
     active_index = 0, locked = False, observers = [8, 9], notifications = []\<rparr>"

lemma three_tabs_well_formed: "well_formed three_tabs"
  by (simp add: three_tabs_def well_formed_def settled_def live_def tabs_def count_def
      kInvalidIndex_def INT_MAX_def no_opener_def)

lemma three_tabs_abs:
  "strip three_tabs = [Some 1, Some 2, Some 3]" "active_tab three_tabs = Some 1"
  "observers three_tabs = [8, 9]" "active_index three_tabs = 0" "count three_tabs = 3"
  by (simp_all add: strip_def three_tabs_def active_tab_def kInvalidIndex_def count_def)

lemma insert_allowed_new: "insert_allowed env new_web_state_list 0 (Some 7) 1 no_opener"
  by (simp add: insert_allowed_def new_web_state_list_def tabs_def count_def INT_MAX_def no_opener_def)

text \<open>
  C1. A window whose tab list is driven only through its public methods, each called within
  its documented precondition, never fails a check, and the list stays well formed: its tabs
  are different and non-null, its active index is valid or \<open>kInvalidIndex\<close>, every opener is
  in the list and the mutation lock is free between operations.
\<close>

theorem tab_list_never_aborts:
  assumes "legal (web_state_list_step env) (op_allowed env) new_web_state_list cs l"
    and "op_allowed env l c"
  shows "\<exists>l'. web_state_list_step env l c = Some l' \<and> well_formed l'"
  using tab_list.step_total tab_list.legal_inv [OF assms(1) well_formed_new] assms(2) by blast

theorem tab_list_never_aborts_witness:
  "\<exists>l'. web_state_list_step idle_env new_web_state_list (InsertWebState 0 (Some 7) 1 no_opener) = Some l'
     \<and> well_formed l'"
  by (rule tab_list_never_aborts [OF legal_Nil]) (simp add: insert_allowed_new)

lemma insert_result:
  assumes "well_formed l" and "insert_allowed env l index ws flags op0"
  shows "\<exists>l' i. insert_web_state env l index ws flags op0 = Some (l', i) \<and> 0 \<le> i \<and> i \<le> count l
    \<and> strip l' = vector_insert (nat i) ws (strip l)
    \<and> active_tab l' = (if is_insertion_flag_set flags INSERT_ACTIVATE then ws else active_tab l)
    \<and> (is_insertion_flag_set flags INSERT_FORCE_INDEX \<longrightarrow> i = index)
    \<and> map_option opener (get_opener_of_web_state_at l' i) =
        Some (if is_insertion_flag_set flags INSERT_INHERIT_OPENER then active_tab l else opener op0)"
proof -
  define i where "i = insertion_index env l index flags op0"
  obtain l' where l': "insert_web_state env l index ws flags op0 = Some (l', i)" "0 \<le> i" "i \<le> count l"
    "wrappers l' = vector_insert (nat i) \<lparr>wrapped = ws, wrapped_opener =
       (if opener (effective_opener env l flags op0) = None then no_opener
        else effective_opener env l flags op0)\<rparr> (wrappers l)"
    "active_index l' = (if is_insertion_flag_set flags INSERT_ACTIVATE then i
       else if active_index l \<ge> i then active_index l + 1 else active_index l)"
    using insert_web_state_effect [OF assms] unfolding i_def by blast
  have n: "nat i \<le> length (wrappers l)" using l'(3) by (simp add: count_def)
  have st: "settled l" using assms(1) by (simp add: well_formed_def)
  have strip: "strip l' = vector_insert (nat i) ws (strip l)"
    by (simp add: strip_def l'(4) map_vector_insert)
  have "active_tab l' = (if is_insertion_flag_set flags INSERT_ACTIVATE then ws else active_tab l)"
    using st
  proof (cases rule: settled_active_cases)
    case none
    then show ?thesis
      using l'(2,5) n strip by (auto simp: active_tab_def nth_vector_insert kInvalidIndex_def)
  next
    case (some k)
    then show ?thesis
      using l'(2,5) n strip
      by (auto simp: active_tab_def nth_vector_insert kInvalidIndex_def nat_add_distrib nat_le_iff)
  qed
  moreover have "map_option opener (get_opener_of_web_state_at l' i) =
      Some (if is_insertion_flag_set flags INSERT_INHERIT_OPENER then active_tab l else opener op0)"
    using l'(2,3,4) n
    by (simp add: get_opener_of_web_state_at_def contains_index_def count_def nth_vector_insert
        effective_opener_def opener_from_def no_opener_def)
  ultimately show ?thesis using l'(1-3) strip by (auto simp: i_def insertion_index_def)
qed

text \<open>
  C4. An insertion puts the tab at the index it returns, keeps the other tabs in order, and
  keeps the active tab unless the insertion activates: then the new tab is active. The index
  is the requested one when it is forced, and the opener recorded is the active tab when it
  is inherited and the given one otherwise.
\<close>

theorem insert_inserts:
  assumes "well_formed l" and "insert_allowed env l index ws flags op0"
  shows "\<exists>l' i. insert_web_state env l index ws flags op0 = Some (l', i) \<and> 0 \<le> i \<and> i \<le> count l
    \<and> strip l' = vector_insert (nat i) ws (strip l)
    \<and> active_tab l' = (if is_insertion_flag_set flags INSERT_ACTIVATE then ws else active_tab l)
    \<and> (is_insertion_flag_set flags INSERT_FORCE_INDEX \<longrightarrow> i = index)
    \<and> map_option opener (get_opener_of_web_state_at l' i) =
        Some (if is_insertion_flag_set flags INSERT_INHERIT_OPENER then active_tab l else opener op0)"
  by (rule insert_result [OF assms])

theorem insert_inserts_witness:
  "\<exists>l' i. insert_web_state idle_env new_web_state_list 0 (Some 7) 1 no_opener = Some (l', i)
    \<and> strip l' = [Some 7] \<and> active_tab l' = Some 7"
  using insert_inserts [OF well_formed_new insert_allowed_new, of idle_env]
  by (auto simp: strip_def new_web_state_list_def vector_insert_def is_insertion_flag_set_def
      INSERT_ACTIVATE_def)

lemma move_result:
  assumes "well_formed l" and "contains_index l i" and "contains_index l j"
  shows "\<exists>l'. move_web_state_at l i j = Some l'
    \<and> strip l' = vector_insert (nat j) (strip l ! nat i) (vector_erase (nat i) (strip l))
    \<and> strip l' ! nat j = strip l ! nat i \<and> active_tab l' = active_tab l"
proof -
  obtain l' where l': "move_web_state_at l i j = Some l'"
    "wrappers l' = vector_insert (nat j) (wrappers l ! nat i) (vector_erase (nat i) (wrappers l))"
    "active_index l' = moved_active_index (active_index l) i j"
    using move_web_state_at_effect [OF assms] by blast
  have n: "nat i < length (wrappers l)" "nat j < length (wrappers l)"
    using contains_index_nth assms(2,3) by blast+
  have ij: "i = int (nat i)" "j = int (nat j)"
    using assms(2,3) by (simp_all add: contains_index_def)
  have strip: "strip l' = vector_insert (nat j) (strip l ! nat i) (vector_erase (nat i) (strip l))"
    using n by (simp add: strip_def l'(2) map_vector_insert map_vector_erase)
  have st: "settled l" using assms(1) by (simp add: well_formed_def)
  have "active_tab l' = active_tab l"
    using st
  proof (cases rule: settled_active_cases)
    case none
    then show ?thesis
      using l'(3) assms(2,3) moved_active_index_invalid [of i j]
      by (simp add: active_tab_def contains_index_def)
  next
    case (some k)
    have "strip l' ! nat (moved_active_index (int k) i j) = strip l ! k"
      unfolding strip using nth_moved [of "nat i" "strip l" "nat j" k] n some(1) ij by simp
    moreover have "0 \<le> moved_active_index (int k) i j"
      using moved_active_index_range [of "int k" "count l" i j] assms(2,3) some(1)
      by (simp add: contains_index_def count_def)
    ultimately show ?thesis
      using l'(3) some by (simp add: active_tab_def kInvalidIndex_def)
  qed
  then show ?thesis
    using l'(1) strip n by (simp add: nth_vector_insert)
qed

text \<open>
  C5. A move takes the tab at one index to the other and leaves the same tab active,
  wherever it has moved to.
\<close>

theorem move_keeps_active_tab:
  assumes "well_formed l" and "contains_index l i" and "contains_index l j"
  shows "\<exists>l'. move_web_state_at l i j = Some l'
    \<and> strip l' = vector_insert (nat j) (strip l ! nat i) (vector_erase (nat i) (strip l))
    \<and> strip l' ! nat j = strip l ! nat i \<and> active_tab l' = active_tab l"
  by (rule move_result [OF assms])

theorem move_keeps_active_tab_witness:
  "\<exists>l'. move_web_state_at three_tabs 0 2 = Some l' \<and> strip l' = [Some 2, Some 3, Some 1]
    \<and> active_tab l' = Some 1"
proof -
  have "contains_index three_tabs 0" "contains_index three_tabs 2"
    by (simp_all add: contains_index_def three_tabs_abs)
  from move_keeps_active_tab [OF three_tabs_well_formed this] show ?thesis
    by (auto simp: three_tabs_abs vector_insert_def vector_erase_def)
qed

lemma detach_result:
  assumes "well_formed l" and "contains_index l i"
  shows "\<exists>l'. detach_web_state_at env l i = Some (l', strip l ! nat i)
    \<and> strip l' = vector_erase (nat i) (strip l)
    \<and> (\<forall>w \<in> set (wrappers l'). opener (wrapped_opener w) \<noteq> strip l ! nat i)
    \<and> (i \<noteq> active_index l \<longrightarrow> active_tab l' = active_tab l)
    \<and> (i = active_index l \<longrightarrow> (active_tab l' = None \<longleftrightarrow> count l = 1))"
proof -
  define ws where "ws = wrapped (wrappers l ! nat i)"
  have st: "settled l" using assms(1) by (simp add: well_formed_def)
  obtain j where j: "determine_new_active_index env l i = Some j"
    "kInvalidIndex \<le> detached_active_index (active_index l) i j (count l - 1)"
    "detached_active_index (active_index l) i j (count l - 1) = kInvalidIndex
       \<longleftrightarrow> active_index l = kInvalidIndex \<or> count l = 1"
    using controller.detached_index_valid [OF st assms(2), of env] by blast
  obtain l' where l': "detach_web_state_at env l i = Some (l', ws)"
    "wrappers l' = vector_erase (nat i) (map (forget_opener ws) (wrappers l))"
    "active_index l' = detached_active_index (active_index l) i j (count l - 1)" "well_formed l'"
    using detach_web_state_at_effect [OF assms, of env] j(1) unfolding ws_def by auto
  have n: "nat i < length (wrappers l)" by (rule contains_index_nth [OF assms(2)])
  have "ws \<in> tabs (wrappers l)" using n by (simp add: ws_def tabs_def)
  then have "ws \<noteq> None" using st by (metis settled_def live_def)
  have strip: "strip l' = vector_erase (nat i) (strip l)"
    by (simp add: strip_def l'(2) map_vector_erase comp_def)
  have st': "settled l'" using l'(4) by (simp add: well_formed_def)
  have forgot: "opener (wrapped_opener w) \<noteq> ws" if w: "w \<in> set (wrappers l')" for w
  proof -
    have "w \<in> forget_opener ws ` set (wrappers l)"
      using in_set_vector_eraseD w unfolding l'(2) by fastforce
    then show ?thesis using \<open>ws \<noteq> None\<close> by (metis imageE opener_forget_opener_neq)
  qed
  have other: "active_tab l' = active_tab l" if "i \<noteq> active_index l"
    using st
  proof (cases rule: settled_active_cases)
    case none
    then show ?thesis
      using assms(2) l'(3) that
      by (simp add: active_tab_def detached_active_index_def contains_index_def kInvalidIndex_def)
  next
    case (some k)
    then have "k \<noteq> nat i" using that assms(2) by (auto simp: contains_index_def)
    then show ?thesis
      using some n l'(3) assms(2) strip
      by (auto simp: active_tab_def detached_active_index_def contains_index_def kInvalidIndex_def
          nth_vector_erase nat_diff_distrib)
  qed
  have same: "active_tab l' = None \<longleftrightarrow> count l = 1" if "i = active_index l"
    using st'
  proof (cases rule: settled_active_cases)
    case none
    then show ?thesis using j(3) l'(3) that assms(2) by (auto simp: contains_index_def kInvalidIndex_def)
  next
    case (some k)
    then have "active_tab l' \<in> tabs (wrappers l')" by (simp add: tabs_def strip_def)
    then have "active_tab l' \<noteq> None" using st' by (metis settled_def live_def)
    moreover have "active_index l' \<noteq> kInvalidIndex" using some(2) by (simp add: kInvalidIndex_def)
    ultimately show ?thesis using j(3) l'(3) that by simp
  qed
  show ?thesis
    using l'(1) strip forgot other same strip_nth [OF assms(2)] by (auto simp: ws_def)
qed

text \<open>
  C3. Detaching a tab removes exactly it and forgets it as an opener. Another active tab
  stays active; when the active tab goes, the list has an active tab afterwards exactly when
  it still has a tab.
\<close>

theorem detach_removes_one_tab:
  assumes "well_formed l" and "contains_index l i"
  shows "\<exists>l'. detach_web_state_at env l i = Some (l', strip l ! nat i)
    \<and> strip l' = vector_erase (nat i) (strip l)
    \<and> (\<forall>w \<in> set (wrappers l'). opener (wrapped_opener w) \<noteq> strip l ! nat i)
    \<and> (i \<noteq> active_index l \<longrightarrow> active_tab l' = active_tab l)
    \<and> (i = active_index l \<longrightarrow> (active_tab l' = None \<longleftrightarrow> count l = 1))"
  by (rule detach_result [OF assms])

theorem detach_removes_one_tab_witness:
  "\<exists>l'. detach_web_state_at idle_env three_tabs 0 = Some (l', Some 1) \<and> strip l' = [Some 2, Some 3]
    \<and> active_tab l' \<noteq> None"
proof -
  have "contains_index three_tabs 0" by (simp add: contains_index_def three_tabs_abs)
  from detach_removes_one_tab [OF three_tabs_well_formed this, of idle_env] show ?thesis
    by (auto simp: three_tabs_abs vector_erase_def)
qed

text \<open>
  The observers hear of a detachment in a fixed order, every time with the list locked
  against re-entrant mutation: it is about to happen, it has happened and, exactly when the
  active tab was the one detached, which tab is now active. The delegate is told last.
\<close>

theorem detach_notifies:
  assumes "well_formed l" and "contains_index l i"
  shows "\<exists>l'. detach_web_state_at env l i = Some (l', strip l ! nat i)
    \<and> notifications l' = notifications l
        @ map (\<lambda>ob. ToObserver ob True (WillDetachWebStateAt (strip l ! nat i) i)) (observers l)
        @ map (\<lambda>ob. ToObserver ob True (WebStateDetachedAt (strip l ! nat i) i)) (observers l)
        @ (if i = active_index l
           then map (\<lambda>ob. ToObserver ob True (WebStateActivatedAt (strip l ! nat i) (active_tab l')
                  (active_index l') CHANGE_REASON_NONE)) (observers l)
           else [])
        @ [ToDelegate (WebStateDetached (strip l ! nat i))]"
  using detach_web_state_at_effect [OF assms, of env]
  unfolding detach_log_def to_observers_def Let_def strip_nth [OF assms(2)]
  by (auto simp only: append_assoc)

theorem detach_notifies_witness:
  "\<exists>l'. detach_web_state_at idle_env three_tabs 1 = Some (l', Some 2)
    \<and> notifications l' = [ToObserver 8 True (WillDetachWebStateAt (Some 2) 1),
        ToObserver 9 True (WillDetachWebStateAt (Some 2) 1),
        ToObserver 8 True (WebStateDetachedAt (Some 2) 1),
        ToObserver 9 True (WebStateDetachedAt (Some 2) 1),
        ToDelegate (WebStateDetached (Some 2))]"
proof -
  have "contains_index three_tabs 1" by (simp add: contains_index_def three_tabs_abs)
  moreover have "notifications three_tabs = []" by (simp add: three_tabs_def)
  ultimately show ?thesis
    using detach_notifies [OF three_tabs_well_formed, of 1 idle_env]
    by (auto simp: three_tabs_abs)
qed

text \<open>
  Closing all tabs ends, whatever the list, with no tab left, no tab active and the
  list well formed.
\<close>

theorem close_all_empties:
  assumes "well_formed l"
  shows "\<exists>l'. close_all_web_states env l flags = Some l' \<and> strip l' = [] \<and> active_tab l' = None
    \<and> well_formed l'"
proof -
  obtain l' where l': "close_all_web_states env l flags = Some l'" "wrappers l' = []" "well_formed l'"
    using close_all_web_states_effect [OF assms] by blast
  then have "active_index l' = kInvalidIndex"
    by (auto simp: well_formed_def settled_def count_def kInvalidIndex_def)
  with l' show ?thesis by (simp add: strip_def active_tab_def)
qed

theorem close_all_empties_witness:
  "\<exists>l'. close_all_web_states idle_env three_tabs 0 = Some l' \<and> strip l' = []"
  using close_all_empties [OF three_tabs_well_formed] by blast

section \<open>What the order controller chooses\<close>

lemma last_of_first_run_spec:
  "(last_of_first_run p i ws = kInvalidIndex \<and> (\<forall>w \<in> set ws. \<not> p w)) \<or>
   (\<exists>a b. a \<le> b \<and> b < length ws \<and> (\<forall>m < a. \<not> p (ws ! m)) \<and> (\<forall>m. a \<le> m \<and> m \<le> b \<longrightarrow> p (ws ! m))
      \<and> (Suc b = length ws \<or> \<not> p (ws ! Suc b)) \<and> last_of_first_run p i ws = i + int b)"
proof -
  define pre where "pre = takeWhile (\<lambda>w. \<not> p w) ws"
  define a where "a = length pre"
  define run where "run = takeWhile p (drop a ws)"
  have ws: "ws = pre @ drop a ws"
    unfolding a_def pre_def by (metis dropWhile_eq_drop takeWhile_dropWhile_id)
  show ?thesis
  proof (cases "run = []")
    case True
    have "\<forall>w \<in> set ws. \<not> p w"
    proof (cases "drop a ws")
      case Nil
      then have "ws = pre" using ws by simp
      then show ?thesis by (metis pre_def set_takeWhileD)
    next
      case (Cons w vs)
      then have "\<not> p w" using True by (simp add: run_def split: if_splits)
      moreover have "a < length ws" using Cons by (metis drop_all list.distinct(1) not_le)
      then have "p (ws ! a)" using nth_length_takeWhile [of "\<lambda>w. \<not> p w" ws] by (simp add: a_def pre_def)
      moreover have "ws ! a = w" using Cons by (metis Cons nth_via_drop)
      ultimately show ?thesis by simp
    qed
    then show ?thesis using True by (simp add: last_of_first_run_def Let_def run_def a_def pre_def)
  next
    case False
    obtain r where run: "length run = Suc r" using False by (cases run) auto
    define b where "b = a + r"
    have len: "a + length run \<le> length ws"
    proof -
      have "a \<le> length ws" by (simp add: a_def pre_def length_takeWhile_le)
      moreover have "length run \<le> length (drop a ws)" unfolding run_def by (rule length_takeWhile_le)
      ultimately show ?thesis by simp
    qed
    then have "a \<le> b" "b < length ws" using run by (simp_all add: b_def)
    moreover
    have "\<not> p (ws ! m)" if "m < a" for m
      using that nth_mem [of m pre] takeWhile_nth [of m "\<lambda>w. \<not> p w" ws]
        set_takeWhileD [of "pre ! m" "\<lambda>w. \<not> p w" ws] by (simp add: a_def pre_def)
    moreover have "p (ws ! m)" if "a \<le> m" "m \<le> b" for m
    proof -
      have "m - a < length run" using that run unfolding b_def by arith
      then have "p (run ! (m - a))" using nth_mem [of "m - a" run] by (metis run_def set_takeWhileD)
      moreover have "run ! (m - a) = drop a ws ! (m - a)"
        using \<open>m - a < length run\<close> by (simp add: run_def takeWhile_nth)
      ultimately show ?thesis using that(1) len by simp
    qed
    moreover have "Suc b = length ws \<or> \<not> p (ws ! Suc b)"
    proof (cases "length run < length (drop a ws)")
      case True
      then have "\<not> p (drop a ws ! length run)"
        using nth_length_takeWhile [of p "drop a ws"] by (simp add: run_def)
      then show ?thesis using True run by (simp add: b_def)
    next
      case False
      then have "Suc b = length ws" using len run unfolding b_def by simp
      then show ?thesis by simp
    qed
    moreover have "last_of_first_run p i ws = i + int b"
    proof -
      have "int b = int a + int (length run) - 1"
        using run by (simp add: b_def)
      then show ?thesis
        unfolding last_of_first_run_def Let_def pre_def [symmetric] a_def [symmetric] run_def [symmetric]
        using False by simp
    qed
    ultimately show ?thesis by blast
  qed
qed

definition in_group :: "web_state_env \<Rightarrow> web_state \<Rightarrow> web_state_wrapper \<Rightarrow> bool" where
  "in_group env ws w = was_opened_by w ws (last_committed_item_index env ws) True"

text \<open>
  A tab opened from another goes directly after the last tab of the first run of tabs,
  right of its opener, that the opener has opened since its current navigation; with no such
  tab it goes directly right of the opener, and without an opener to the end.
\<close>

theorem insertion_after_opened_run:
  assumes "well_formed l" and "k < length (wrappers l)" and "strip l ! k = Some ws"
  shows "determine_insertion_index env l None = Some (count l)
    \<and> ((\<forall>m. k < m \<and> m < length (wrappers l) \<longrightarrow> \<not> in_group env ws (wrappers l ! m)) \<and>
          determine_insertion_index env l (Some ws) = Some (int k + 1)
       \<or> (\<exists>a b. k < a \<and> a \<le> b \<and> b < length (wrappers l) \<and> (\<forall>m. k < m \<and> m < a \<longrightarrow> \<not> in_group env ws (wrappers l ! m))
            \<and> (\<forall>m. a \<le> m \<and> m \<le> b \<longrightarrow> in_group env ws (wrappers l ! m)) \<and> (Suc b = length (wrappers l) \<or> \<not> in_group env ws (wrappers l ! Suc b))
            \<and> determine_insertion_index env l (Some ws) = Some (int b + 1)))"
proof -
  let ?child = "\<lambda>m. in_group env ws (wrappers l ! m)"
  define q where "q = (\<lambda>w. was_opened_by w ws (last_committed_item_index env ws) True)"
  define vs where "vs = drop (Suc k) (wrappers l)"
  define r where "r = last_of_first_run q (int k + 1) vs"
  have st: "live (wrappers l)" "count l \<le> INT_MAX"
    using assms(1) by (simp_all add: well_formed_def settled_def)
  have "wrapped (wrappers l ! k) = Some ws" using assms(2,3) by (simp add: strip_def)
  then have idx: "get_index_of_web_state l (Some ws) = int k"
    using get_index_of_web_state_at [OF st(1) assms(2)] by simp
  have k: "contains_index l (int k)" "int k < INT_MAX"
    using assms(2) st(2) by (simp_all add: contains_index_def count_def)
  have "nth_opened_loop q (int k + 1) INT_MAX kInvalidIndex vs = r"
    unfolding r_def using st(2) by (intro nth_opened_loop_last) (simp_all add: vs_def count_def)
  then have last: "get_index_of_last_web_state_opened_by env l (Some ws) (int k) True = Some r"
    using k
    by (simp add: get_index_of_last_web_state_opened_by_def get_index_of_nth_web_state_opened_by_def
        q_def vs_def INT_MAX_def nat_add_distrib)
  have r_cases: "(r = kInvalidIndex \<and> (\<forall>w \<in> set vs. \<not> q w)) \<or>
      (\<exists>a b. a \<le> b \<and> b < length vs \<and> (\<forall>m < a. \<not> q (vs ! m)) \<and> (\<forall>m. a \<le> m \<and> m \<le> b \<longrightarrow> q (vs ! m))
        \<and> (Suc b = length vs \<or> \<not> q (vs ! Suc b)) \<and> r = int k + 1 + int b)"
    unfolding r_def by (rule last_of_first_run_spec)
  have det: "determine_insertion_index env l (Some ws) =
      Some ((if r \<noteq> kInvalidIndex then r else int k) + 1)"
  proof -
    have "(if r \<noteq> kInvalidIndex then r else int k) < INT_MAX"
      using r_cases k(2) st(2) by (auto simp: vs_def count_def)
    then show ?thesis using idx last
      by (simp add: determine_insertion_index_def kInvalidIndex_def Let_def)
  qed
  have child: "?child (Suc k + m) \<longleftrightarrow> q (vs ! m)" if "m < length vs" for m
    using that assms(2) by (simp add: q_def vs_def in_group_def)
  have right: "(\<forall>m. k < m \<and> P m \<longrightarrow> Q m) \<longleftrightarrow> (\<forall>m. P (Suc k + m) \<longrightarrow> Q (Suc k + m))" for P Q
    by (metis add_Suc less_add_Suc1 less_imp_Suc_add)
  have len: "length (wrappers l) = Suc k + length vs"
    using assms(2) by (simp add: vs_def)
  have none: "determine_insertion_index env l None = Some (count l)"
    by (simp add: determine_insertion_index_def)
  from r_cases show ?thesis
  proof
    assume r: "r = kInvalidIndex \<and> (\<forall>w \<in> set vs. \<not> q w)"
    then have "\<forall>m. k < m \<and> m < length (wrappers l) \<longrightarrow> \<not> ?child m"
      unfolding right using child by (simp add: len)
    then show ?thesis using det r none by simp
  next
    assume "\<exists>a b. a \<le> b \<and> b < length vs \<and> (\<forall>m < a. \<not> q (vs ! m))
      \<and> (\<forall>m. a \<le> m \<and> m \<le> b \<longrightarrow> q (vs ! m)) \<and> (Suc b = length vs \<or> \<not> q (vs ! Suc b))
      \<and> r = int k + 1 + int b"
    then obtain a b where ab: "a \<le> b" "b < length vs" "\<forall>m<a. \<not> q (vs ! m)" "\<forall>m. a \<le> m \<and> m \<le> b \<longrightarrow> q (vs ! m)"
      "Suc b = length vs \<or> \<not> q (vs ! Suc b)" and r: "r = int k + 1 + int b"
      by blast
    have "k < Suc k + a" "Suc k + a \<le> Suc k + b" "Suc k + b < length (wrappers l)"
      using ab by (simp_all add: len)
    moreover have "\<forall>m. k < m \<and> m < Suc k + a \<longrightarrow> \<not> ?child m"
      unfolding right using ab child by simp
    moreover have "\<forall>m. Suc k + a \<le> m \<and> m \<le> Suc k + b \<longrightarrow> ?child m"
    proof (intro allI impI)
      fix m
      assume m: "Suc k + a \<le> m \<and> m \<le> Suc k + b"
      then have "a \<le> m - Suc k" "m - Suc k \<le> b" by auto
      then have "q (vs ! (m - Suc k))" "m - Suc k < length vs" using ab by auto
      then show "?child m" using m child [of "m - Suc k"] by simp
    qed
    moreover have "Suc (Suc k + b) = length (wrappers l) \<or> \<not> ?child (Suc (Suc k + b))"
      using ab child [of "Suc b"] by (auto simp: len)
    moreover have "determine_insertion_index env l (Some ws) = Some (int (Suc k + b) + 1)"
      using det r by (simp add: kInvalidIndex_def)
    ultimately show ?thesis using none by blast
  qed
qed

theorem insertion_after_opened_run_witness:
  "determine_insertion_index idle_env three_tabs (Some 1) = Some 2"
proof -
  have w: "wrappers three_tabs ! 1 = \<lparr>wrapped = Some 2, wrapped_opener = \<lparr>opener = Some 1, navigation_index = 0\<rparr>\<rparr>"
    "wrappers three_tabs ! 2 = \<lparr>wrapped = Some 3, wrapped_opener = no_opener\<rparr>"
    "length (wrappers three_tabs) = 3"
    by (simp_all add: three_tabs_def)
  have child: "in_group idle_env 1 (wrappers three_tabs ! m) \<longleftrightarrow> m = 1"
    if "0 < m" "m < 3" for m :: nat
  proof -
    from that have "m = 1 \<or> m = 2" by auto
    then show ?thesis using w by (auto simp: in_group_def was_opened_by_def idle_env_def no_opener_def)
  qed
  have "0 < length (wrappers three_tabs)" "strip three_tabs ! 0 = Some 1"
    by (simp_all add: w three_tabs_abs)
  from insertion_after_opened_run [OF three_tabs_well_formed this, of idle_env, unfolded w(3)]
  obtain a b :: nat where ab: "0 < a" "a \<le> b" "b < 3" "\<forall>m. 0 < m \<and> m < a \<longrightarrow> m \<noteq> 1"
      "\<forall>m. a \<le> m \<and> m \<le> b \<longrightarrow> m = 1" "determine_insertion_index idle_env three_tabs (Some 1) = Some (int b + 1)"
    using child by fastforce
  then have "b = 1" by auto
  then show ?thesis using ab(6) by simp
qed

text \<open>The first tab right of position \<open>k\<close> that \<open>ws\<close> has opened, if there is one.\<close>

definition opener_at :: "web_state_list \<Rightarrow> nat \<Rightarrow> web_state option" where
  "opener_at l m = opener (wrapped_opener (wrappers l ! m))"

definition first_opened_right :: "web_state_list \<Rightarrow> nat \<Rightarrow> web_state option \<Rightarrow> nat \<Rightarrow> bool" where
  "first_opened_right l k p m \<longleftrightarrow> k < m \<and> m < length (wrappers l) \<and> opener_at l m = p
     \<and> (\<forall>j. k < j \<and> j < m \<longrightarrow> opener_at l j \<noteq> p)"

lemma next_opened_cases:
  assumes "well_formed l" and "k < length (wrappers l)"
  shows "(get_index_of_next_web_state_opened_by env l (Some ws) (int k) False = Some kInvalidIndex
      \<and> (\<forall>m. k < m \<and> m < length (wrappers l) \<longrightarrow> opener_at l m \<noteq> Some ws)) \<or>
    (\<exists>m. get_index_of_next_web_state_opened_by env l (Some ws) (int k) False = Some (int m)
      \<and> first_opened_right l k (Some ws) m)"
proof -
  define q where "q = (\<lambda>w :: web_state_wrapper. opener (wrapped_opener w) = Some ws)"
  define vs where "vs = drop (Suc k) (wrappers l)"
  have k: "contains_index l (int k)" "int k < INT_MAX"
    using assms by (auto simp: contains_index_def count_def well_formed_def settled_def)
  have "(\<lambda>w. was_opened_by w ws (-1) False) = q"
    by (auto simp: was_opened_by_def q_def)
  then have eq: "get_index_of_next_web_state_opened_by env l (Some ws) (int k) False =
      Some (first_index_from (\<lambda>_. q) (int k + 1) vs)"
    using k nth_opened_loop_1 [of q "int k + 1" vs]
    by (simp add: get_index_of_next_web_state_opened_by_def get_index_of_nth_web_state_opened_by_def
        vs_def nat_add_distrib)
  have len: "length (wrappers l) = Suc k + length vs" using assms(2) by (simp add: vs_def)
  have q: "q (vs ! m) \<longleftrightarrow> opener_at l (Suc k + m) = Some ws" if "m < length vs" for m
    using that assms(2) by (simp add: q_def vs_def opener_at_def)
  from first_index_from_cases [of "\<lambda>_. q" "int k + 1" vs] show ?thesis
  proof
    assume *: "first_index_from (\<lambda>_. q) (int k + 1) vs = kInvalidIndex \<and> (\<forall>m<length vs. \<not> q (vs ! m))"
    have "opener_at l m \<noteq> Some ws" if "k < m" "m < length (wrappers l)" for m
      using * q [of "m - Suc k"] that len by simp
    with * eq show ?thesis by simp
  next
    assume "\<exists>j<length vs. first_index_from (\<lambda>_. q) (int k + 1) vs = int k + 1 + int j
      \<and> q (vs ! j) \<and> (\<forall>i<j. \<not> q (vs ! i))"
    then obtain j where j: "j < length vs" "first_index_from (\<lambda>_. q) (int k + 1) vs = int k + 1 + int j"
      "q (vs ! j)" "\<forall>i<j. \<not> q (vs ! i)" by blast
    have "opener_at l i \<noteq> Some ws" if "k < i" "i < Suc k + j" for i
      using j q [of "i - Suc k"] that by simp
    then have "first_opened_right l k (Some ws) (Suc k + j)"
      using j q [of j] len by (simp add: first_opened_right_def)
    with j(2) eq show ?thesis by (intro disjI2 exI [of _ "Suc k + j"]) simp
  qed
qed

lemma first_opened_right_unique:
  "first_opened_right l k p m \<Longrightarrow> first_opened_right l k p n \<Longrightarrow> m = n"
  by (metis first_opened_right_def linorder_neqE_nat)

lemma next_opened_found:
  assumes "well_formed l" and "k < length (wrappers l)" and "first_opened_right l k (Some ws) m"
  shows "get_index_of_next_web_state_opened_by env l (Some ws) (int k) False = Some (int m)"
proof -
  have "\<not> (\<forall>m. k < m \<and> m < length (wrappers l) \<longrightarrow> opener_at l m \<noteq> Some ws)"
    using assms(3) by (auto simp: first_opened_right_def)
  with next_opened_cases [OF assms(1,2)] first_opened_right_unique [OF assms(3)] show ?thesis
    by metis
qed

lemma next_opened_none:
  assumes "well_formed l" and "k < length (wrappers l)" and "\<nexists>m. first_opened_right l k (Some ws) m"
  shows "get_index_of_next_web_state_opened_by env l (Some ws) (int k) False = Some kInvalidIndex"
  using next_opened_cases [OF assms(1,2)] assms(3) by metis

text \<open>
  C6. The tab activated after the active one is closed is, in this order: the first tab to
  its right that it opened itself; else, for a tab that has an opener, the first tab to its
  right opened by the same opener, or that opener itself; else the tab right of it, or left
  of it when it is the last, or none. The index returned already counts the removed tab out.
\<close>

theorem new_active_choice:
  assumes "well_formed l" and "k < length (wrappers l)"
  shows "(\<forall>m. first_opened_right l k (strip l ! k) m \<longrightarrow>
        determine_new_active_index env l (int k) = Some (int m - 1))
    \<and> ((\<nexists>m. first_opened_right l k (strip l ! k) m) \<and> opener_at l k \<noteq> None \<longrightarrow>
        (\<forall>m. first_opened_right l k (opener_at l k) m \<longrightarrow>
           determine_new_active_index env l (int k) = Some (int m - 1))
        \<and> (\<forall>m < length (wrappers l). (\<nexists>n. first_opened_right l k (opener_at l k) n)
             \<and> strip l ! m = opener_at l k \<longrightarrow>
             determine_new_active_index env l (int k) = Some (if k < m then int m - 1 else int m)))
    \<and> ((\<nexists>m. first_opened_right l k (strip l ! k) m) \<and> opener_at l k = None \<longrightarrow>
        determine_new_active_index env l (int k) =
          Some (if length (wrappers l) = 1 then kInvalidIndex
                else if Suc k = length (wrappers l) then int k - 1 else int k))"
proof -
  have st: "live (wrappers l)" using assms(1) by (simp add: well_formed_def settled_def)
  have k: "contains_index l (int k)" using assms(2) by (simp add: contains_index_def count_def)
  obtain ws where ws: "wrapped (wrappers l ! k) = Some ws"
    using st assms(2) by (metis image_eqI live_def nth_mem option.exhaust tabs_def)
  have unfold: "determine_new_active_index env l (int k) =
    (get_index_of_next_web_state_opened_by env l (Some ws) (int k) False \<bind> (\<lambda>child.
      if child \<noteq> kInvalidIndex then get_valid_index child (int k)
      else if opener_at l k \<noteq> None then
        get_index_of_next_web_state_opened_by env l (opener_at l k) (int k) False \<bind> (\<lambda>sibling.
          if sibling \<noteq> kInvalidIndex then get_valid_index sibling (int k)
          else get_valid_index (get_index_of_web_state l (opener_at l k)) (int k))
      else if count l = 1 then Some kInvalidIndex
      else if int k \<ge> count l - 1 then Some (int k - 1) else Some (int k)))"
    using k ws
    by (simp add: determine_new_active_index_def get_web_state_at_def get_opener_of_web_state_at_def
        opener_at_def cong: if_cong)
  have strip: "strip l ! k = Some ws" using ws assms(2) by (simp add: strip_def)
  have right: "k < m \<Longrightarrow> get_valid_index (int m) (int k) = Some (int m - 1)" for m
    by (simp add: get_valid_index_def)
  have pos: "first_opened_right l j p m \<Longrightarrow> j < m" for j p m by (simp add: first_opened_right_def)
  have valid: "int m \<noteq> kInvalidIndex" for m by (simp add: kInvalidIndex_def)
  have 1: "determine_new_active_index env l (int k) = Some (int m - 1)"
    if "first_opened_right l k (strip l ! k) m" for m
    using that unfolding unfold strip
    by (simp add: next_opened_found [OF assms] right pos valid)
  have none: "\<nexists>m. first_opened_right l k (strip l ! k) m \<Longrightarrow>
      get_index_of_next_web_state_opened_by env l (Some ws) (int k) False = Some kInvalidIndex"
    unfolding strip by (rule next_opened_none [OF assms])
  have 2: "determine_new_active_index env l (int k) = Some (int m - 1)"
    if "\<nexists>m. first_opened_right l k (strip l ! k) m" "opener_at l k \<noteq> None"
      "first_opened_right l k (opener_at l k) m" for m
    using that unfolding unfold none [OF that(1)]
    by (auto simp: next_opened_found [OF assms] right pos valid)
  have 3: "determine_new_active_index env l (int k) = Some (if k < m then int m - 1 else int m)"
    if "\<nexists>m. first_opened_right l k (strip l ! k) m" "opener_at l k \<noteq> None"
      "\<nexists>m. first_opened_right l k (opener_at l k) m" "m < length (wrappers l)"
      "strip l ! m = opener_at l k" for m
  proof -
    have "get_index_of_web_state l (opener_at l k) = int m"
      using get_index_of_web_state_at [OF st that(4)] that(4,5) by (simp add: strip_def)
    then show ?thesis
      using that unfolding unfold none [OF that(1)]
      by (auto simp: next_opened_none [OF assms] get_valid_index_def)
  qed
  have 4: "determine_new_active_index env l (int k) =
      Some (if length (wrappers l) = 1 then kInvalidIndex
            else if Suc k = length (wrappers l) then int k - 1 else int k)"
    if "\<nexists>m. first_opened_right l k (strip l ! k) m" "opener_at l k = None"
    using that assms(2) unfolding unfold none [OF that(1)] by (auto simp: count_def)
  show ?thesis using 1 2 3 4 by blast
qed

theorem new_active_choice_witness:
  "determine_new_active_index idle_env three_tabs 0 = Some 0"
proof -
  have "first_opened_right three_tabs 0 (strip three_tabs ! 0) 1" "0 < length (wrappers three_tabs)"
    by (simp_all add: first_opened_right_def opener_at_def strip_def three_tabs_def)
  with new_active_choice [OF three_tabs_well_formed, of 0 idle_env] show ?thesis by fastforce
qed

end
