(* ===== verification/UrlDownloader.thy ===== *)
theory UrlDownloader
  imports Prelude
begin

text \<open>
  The queue that downloads and deletes the offline copies of reading list entries:
  \<open>chrome/browser/reading_list/url_downloader.{h,cc}\<close>.

  Everything the class leaves to a library is an argument: the file system is a value of
  type \<open>'fs\<close> with the operations of \<open>file_ops\<close>, and \<open>downloader_env\<close> holds the
  functions on URLs and the paths of \<open>components/reading_list\<close>. The cancelable task tracker
  is the two queues \<open>posted\<close> (tasks not yet run on the background sequence) and \<open>replies\<close>
  (results whose callback has not run yet on the main thread): a task and its reply are
  two steps, so calls of the API interleave between them. \<open>distilling\<close> and \<open>fetching\<close>
  record that the distiller, or the URL loader, still owes its callback. \<open>completions\<close> lists
  the calls of the two client callbacks and \<open>started\<close> the tasks taken from the queue.
\<close>

section \<open>The environment\<close>

type_synonym gurl = string
type_synonym file_path = string

record 'fs file_ops =
  path_exists :: "'fs \<Rightarrow> file_path \<Rightarrow> bool"
  directory_exists :: "'fs \<Rightarrow> file_path \<Rightarrow> bool"
  create_directory :: "'fs \<Rightarrow> file_path \<Rightarrow> 'fs \<times> bool"
  delete_recursively :: "'fs \<Rightarrow> file_path \<Rightarrow> 'fs \<times> bool"
  write_file :: "'fs \<Rightarrow> file_path \<Rightarrow> string \<Rightarrow> 'fs \<times> int"
  move_file :: "'fs \<Rightarrow> file_path \<Rightarrow> file_path \<Rightarrow> 'fs \<times> bool"
  file_size :: "'fs \<Rightarrow> file_path \<Rightarrow> int"

datatype offline_type = OFFLINE_TYPE_HTML | OFFLINE_TYPE_PDF

record 'fs downloader_env =
  fops :: "'fs file_ops"
  offline_directory_absolute_path :: "gurl \<Rightarrow> file_path"
  offline_page_path :: "gurl \<Rightarrow> offline_type \<Rightarrow> file_path"
  absolute_path_from_relative :: "file_path \<Rightarrow> file_path"
  append_path :: "file_path \<Rightarrow> string \<Rightarrow> file_path"
  md5_string :: "string \<Rightarrow> string"
  escape_for_html :: "string \<Rightarrow> string"
  url_spec :: "gurl \<Rightarrow> string"
  url_is_valid :: "gurl \<Rightarrow> bool"
  scheme_is_data :: "gurl \<Rightarrow> bool"
  scheme_is_cryptographic :: "gurl \<Rightarrow> bool"

section \<open>The state\<close>

datatype success_state = DOWNLOAD_SUCCESS | DOWNLOAD_EXISTS | ERROR

datatype task_type = DELETE | DOWNLOAD

type_synonym task = "task_type \<times> gurl"

record image_info =
  image_url :: gurl
  image_data :: string

datatype posted_task =
    CheckPathThenDownload gurl file_path
  | DeleteThenComplete gurl file_path
  | CleanUpThenComplete gurl string file_path success_state file_path
  | SavePDFThenComplete gurl file_path file_path
  | SaveHTMLThenComplete gurl "image_info list" string string file_path

datatype posted_reply =
    DownloadURLReply gurl bool
  | DeleteCompletionReply gurl bool
  | PostDeleteReply gurl string file_path success_state
  | DownloadCompletionReply gurl string file_path success_state

datatype completion =
    DownloadDone gurl gurl success_state file_path int string
  | DeleteDone gurl bool

record 'fs url_downloader =
  tasks :: "task list"
  working :: bool
  original_url :: gurl
  distilled_url :: gurl
  saved_size :: int
  mime_type :: string
  url_loader :: bool
  distiller :: bool
  posted :: "posted_task list"
  replies :: "posted_reply list"
  distilling :: "gurl option"
  fetching :: "gurl option"
  completions :: "completion list"
  started :: "task list"
  files :: 'fs

definition new_url_downloader :: "'fs \<Rightarrow> 'fs url_downloader" where
  "new_url_downloader fs = \<lparr>tasks = [], working = False, original_url = [], distilled_url = [],
     saved_size = 0, mime_type = [], url_loader = False, distiller = False, posted = [],
     replies = [], distilling = None, fetching = None, completions = [], started = [],
     files = fs\<rparr>"

section \<open>The queue\<close>

definition post_task :: "'fs url_downloader \<Rightarrow> posted_task \<Rightarrow> 'fs url_downloader" where
  "post_task d p = d\<lparr>posted := posted d @ [p]\<rparr>"

definition offline_path_exists ::
  "'fs url_downloader \<Rightarrow> gurl \<Rightarrow> file_path \<Rightarrow> 'fs url_downloader" where
  "offline_path_exists d url path = post_task d (CheckPathThenDownload url path)"

definition handle_next_task ::
  "'fs downloader_env \<Rightarrow> 'fs url_downloader \<Rightarrow> 'fs url_downloader option" where
  "handle_next_task env d =
     (if working d then Some d
      else case tasks d of
        [] \<Rightarrow> Some d
      | (kind, url) # rest \<Rightarrow>
          let d1 = d\<lparr>working := True, tasks := rest, started := started d @ [(kind, url)]\<rparr>;
              directory_path = offline_directory_absolute_path env url
          in case kind of
               DELETE \<Rightarrow> Some (post_task d1 (DeleteThenComplete url directory_path))
             | DOWNLOAD \<Rightarrow> do {
                 dcheck (\<not> distiller d1);
                 Some (offline_path_exists d1 url directory_path)
               })"

definition cancel_download_offline_url :: "'fs url_downloader \<Rightarrow> gurl \<Rightarrow> 'fs url_downloader" where
  "cancel_download_offline_url d url = d\<lparr>tasks := removeAll (DOWNLOAD, url) (tasks d)\<rparr>"

definition remove_offline_url ::
  "'fs downloader_env \<Rightarrow> 'fs url_downloader \<Rightarrow> gurl \<Rightarrow> 'fs url_downloader option" where
  "remove_offline_url env d url =
     (let d1 = cancel_download_offline_url d url;
          d2 = d1\<lparr>tasks := tasks d1 @ [(DELETE, url)]\<rparr>
      in handle_next_task env d2)"

definition download_offline_url ::
  "'fs downloader_env \<Rightarrow> 'fs url_downloader \<Rightarrow> gurl \<Rightarrow> 'fs url_downloader option" where
  "download_offline_url env d url =
     (if (DOWNLOAD, url) \<in> set (tasks d) then Some d
      else handle_next_task env (d\<lparr>tasks := tasks d @ [(DOWNLOAD, url)]\<rparr>))"

text \<open>\<open>TryCancelAll\<close> drops the tasks not yet run and the replies not yet delivered.\<close>

definition cancel_task :: "'fs url_downloader \<Rightarrow> 'fs url_downloader" where
  "cancel_task d = d\<lparr>posted := [], replies := [], distiller := False, distilling := None\<rparr>"

section \<open>Completions\<close>

definition post_delete ::
  "'fs downloader_env \<Rightarrow> 'fs url_downloader \<Rightarrow> gurl \<Rightarrow> string \<Rightarrow> file_path \<Rightarrow> success_state
     \<Rightarrow> 'fs url_downloader option" where
  "post_delete env d url title offline_path success =
     (let d1 = d\<lparr>completions := completions d @
                 [DownloadDone url (distilled_url d) success offline_path (saved_size d) title]\<rparr>;
          d2 = d1\<lparr>distiller := False, distilling := None\<rparr>;
          d3 = d2\<lparr>working := False\<rparr>
      in handle_next_task env d3)"

definition download_completion_handler ::
  "'fs downloader_env \<Rightarrow> 'fs url_downloader \<Rightarrow> gurl \<Rightarrow> string \<Rightarrow> file_path \<Rightarrow> success_state
     \<Rightarrow> 'fs url_downloader option" where
  "download_completion_handler env d url title offline_path success = do {
     dcheck (working d);
     if success = ERROR
     then Some (post_task d (CleanUpThenComplete url title offline_path success
                              (offline_directory_absolute_path env url)))
     else post_delete env d url title offline_path success
   }"

definition delete_completion_handler ::
  "'fs downloader_env \<Rightarrow> 'fs url_downloader \<Rightarrow> gurl \<Rightarrow> bool \<Rightarrow> 'fs url_downloader option" where
  "delete_completion_handler env d url success = do {
     dcheck (working d);
     let d1 = d\<lparr>completions := completions d @ [DeleteDone url success]\<rparr>;
     handle_next_task env (d1\<lparr>working := False\<rparr>)
   }"

section \<open>Downloading a page\<close>

text \<open>
  The constructor of \<open>DistillerViewer\<close>
  (\<open>chrome/browser/dom_distiller/distiller_viewer.cc\<close>) checks the URL and starts the
  distiller, which is outside the repository and calls back later.
\<close>

definition new_distiller_viewer ::
  "'fs downloader_env \<Rightarrow> 'fs url_downloader \<Rightarrow> gurl \<Rightarrow> 'fs url_downloader option" where
  "new_distiller_viewer env d url = do {
     dcheck (url_is_valid env url);
     Some (d\<lparr>distiller := True, distilling := Some url\<rparr>)
   }"

definition download_url ::
  "'fs downloader_env \<Rightarrow> 'fs url_downloader \<Rightarrow> gurl \<Rightarrow> bool \<Rightarrow> 'fs url_downloader option" where
  "download_url env d url offline_url_exists =
     (if offline_url_exists then download_completion_handler env d url [] [] DOWNLOAD_EXISTS
      else new_distiller_viewer env
             (d\<lparr>original_url := url, distilled_url := url, saved_size := 0\<rparr>) url)"

definition distilled_page_redirected_to_url ::
  "'fs url_downloader \<Rightarrow> gurl \<Rightarrow> gurl \<Rightarrow> 'fs url_downloader option" where
  "distilled_page_redirected_to_url d page_url redirected_url = do {
     dcheck (original_url d = page_url);
     Some (d\<lparr>distilled_url := redirected_url\<rparr>)
   }"

definition distilled_page_has_mime_type ::
  "'fs url_downloader \<Rightarrow> gurl \<Rightarrow> string \<Rightarrow> 'fs url_downloader option" where
  "distilled_page_has_mime_type d url mime = do {
     dcheck (original_url d = url);
     Some (d\<lparr>mime_type := mime\<rparr>)
   }"

definition pdf_mime_type :: string where "pdf_mime_type = ''application/pdf''"

definition fetch_pdf_file ::
  "'fs downloader_env \<Rightarrow> 'fs url_downloader \<Rightarrow> 'fs url_downloader" where
  "fetch_pdf_file env d =
     (let pdf_url = (if url_is_valid env (distilled_url d) then distilled_url d
                     else original_url d)
      in d\<lparr>url_loader := True, fetching := Some pdf_url\<rparr>)"

text \<open>
  \<open>OnURLLoadComplete\<close>: \<open>response_mime\<close> is the type of the response when there is one, and
  \<open>url\<close> the URL bound when the loader was started. Reading \<open>url_loader_\<close> needs it set.
\<close>

definition on_url_load_complete ::
  "'fs downloader_env \<Rightarrow> 'fs url_downloader \<Rightarrow> gurl \<Rightarrow> file_path \<Rightarrow> string option
     \<Rightarrow> 'fs url_downloader option" where
  "on_url_load_complete env d url response_path response_mime = do {
     dcheck (mime_type d = pdf_mime_type);
     let path = offline_page_path env (original_url d) OFFLINE_TYPE_PDF;
     dcheck (url_loader d);
     let mime = (case response_mime of None \<Rightarrow> [] | Some m \<Rightarrow> m);
     if response_path = [] \<or> mime \<noteq> mime_type d
     then download_completion_handler env d (original_url d) [] path ERROR
     else Some ((post_task d (SavePDFThenComplete url response_path path))\<lparr>url_loader := False\<rparr>)
   }"

definition distiller_callback ::
  "'fs downloader_env \<Rightarrow> 'fs url_downloader \<Rightarrow> gurl \<Rightarrow> string \<Rightarrow> image_info list \<Rightarrow> string
     \<Rightarrow> 'fs url_downloader option" where
  "distiller_callback env d page_url html images title =
     (if html = [] then
        if mime_type d = pdf_mime_type then Some (fetch_pdf_file env d)
        else download_completion_handler env d page_url [] [] ERROR
      else Some (post_task d (SaveHTMLThenComplete page_url images html title
                               (offline_page_path env page_url OFFLINE_TYPE_HTML))))"

section \<open>Saving files (on the background sequence)\<close>

definition create_offline_url_directory ::
  "'fs downloader_env \<Rightarrow> 'fs url_downloader \<Rightarrow> gurl \<Rightarrow> 'fs url_downloader \<times> bool" where
  "create_offline_url_directory env d url =
     (let directory_path = offline_directory_absolute_path env url
      in if \<not> directory_exists (fops env) (files d) directory_path
         then let (fs, ok) = create_directory (fops env) (files d) directory_path
              in (d\<lparr>files := fs\<rparr>, ok)
         else (d, True))"

definition save_pdf_file ::
  "'fs downloader_env \<Rightarrow> 'fs url_downloader \<Rightarrow> file_path \<Rightarrow> 'fs url_downloader \<times> success_state" where
  "save_pdf_file env d temporary_path =
     (let (d1, created) = create_offline_url_directory env d (original_url d)
      in if created then
           let path = offline_page_path env (original_url d1) OFFLINE_TYPE_PDF;
               absolute_path = absolute_path_from_relative env path;
               (fs, moved) = move_file (fops env) (files d1) temporary_path absolute_path;
               d2 = d1\<lparr>files := fs\<rparr>
           in if moved
              then (d2\<lparr>saved_size := saved_size d2 + file_size (fops env) (files d2) absolute_path\<rparr>,
                    DOWNLOAD_SUCCESS)
              else (d2, ERROR)
         else (d1, ERROR))"

definition save_image ::
  "'fs downloader_env \<Rightarrow> 'fs url_downloader \<Rightarrow> gurl \<Rightarrow> gurl \<Rightarrow> string
     \<Rightarrow> 'fs url_downloader \<times> string \<times> bool" where
  "save_image env d url img data =
     (let image_hash = md5_string env (url_spec env img);
          path = append_path env (offline_directory_absolute_path env url) image_hash
      in if \<not> path_exists (fops env) (files d) path then
           let (fs, written) = write_file (fops env) (files d) path data;
               d1 = d\<lparr>files := fs\<rparr>
           in if written \<le> 0 then (d1, image_hash, False)
              else (d1\<lparr>saved_size := saved_size d1 + written\<rparr>, image_hash, True)
         else (d, image_hash, True))"

text \<open>\<open>std::string::find\<close> and the loop that replaces every occurrence.\<close>

fun is_prefix :: "string \<Rightarrow> string \<Rightarrow> bool" where
  "is_prefix [] ys = True"
| "is_prefix (x # xs) [] = False"
| "is_prefix (x # xs) (y # ys) = (x = y \<and> is_prefix xs ys)"

fun find_first :: "string \<Rightarrow> string \<Rightarrow> nat option" where
  "find_first needle [] = (if needle = [] then Some 0 else None)"
| "find_first needle (c # cs) =
     (if is_prefix needle (c # cs) then Some 0 else map_option Suc (find_first needle cs))"

definition string_find :: "string \<Rightarrow> string \<Rightarrow> nat \<Rightarrow> nat option" where
  "string_find s needle pos =
     (if length s < pos then None else map_option (\<lambda>k. pos + k) (find_first needle (drop pos s)))"

definition string_replace :: "string \<Rightarrow> nat \<Rightarrow> nat \<Rightarrow> string \<Rightarrow> string" where
  "string_replace s pos len r = take pos s @ r @ drop (pos + len) s"

partial_function (option) replace_occurrences ::
  "string \<Rightarrow> string \<Rightarrow> string \<Rightarrow> nat option \<Rightarrow> string option" where
  "replace_occurrences needle name html pos =
     (if pos = None then Some html
      else replace_occurrences needle name (string_replace html (the pos) (length needle) name)
             (string_find (string_replace html (the pos) (length needle) name) needle
                (the pos + length name)))"

declare replace_occurrences.simps [code]

definition kDisableImageContextMenuScript :: string where
  "kDisableImageContextMenuScript =
     ''<script>'' @
     ''document.addEventListener('DOMContentLoaded', function (event) {'' @
     ''    var imgMenuDisabler = document.createElement('style');'' @
     ''    imgMenuDisabler.innerHTML = 'img { -webkit-touch-callout: none; }';'' @
     ''    document.head.appendChild(imgMenuDisabler);'' @
     ''}, false);'' @
     ''</script>''"

text \<open>
  The loop over the images. The outer option is a replacement loop that never ends, the inner
  one the early return of an empty string when an image cannot be written.
\<close>

fun replace_images ::
  "'fs downloader_env \<Rightarrow> gurl \<Rightarrow> 'fs url_downloader \<Rightarrow> string \<Rightarrow> bool \<Rightarrow> image_info list
     \<Rightarrow> ('fs url_downloader \<times> (string \<times> bool) option) option" where
  "replace_images env url d html found [] = Some (d, Some (html, found))"
| "replace_images env url d html found (im # ims) =
     (if scheme_is_data env (image_url im) then replace_images env url d html found ims
      else
        let mixed = scheme_is_cryptographic env (distilled_url d)
                    \<and> \<not> scheme_is_cryptographic env (image_url im);
            (d1, local_image_name, ok) =
              (if \<not> mixed \<and> url_is_valid env (image_url im) \<and> image_data im \<noteq> []
               then save_image env d url (image_url im) (image_data im)
               else (d, [], True))
        in if \<not> ok then Some (d1, None)
           else
             let needle = escape_for_html env (url_spec env (image_url im));
                 pos = string_find html needle 0
             in (case replace_occurrences needle local_image_name html pos of
                   None \<Rightarrow> None
                 | Some html1 \<Rightarrow> replace_images env url d1 html1 (found \<or> pos \<noteq> None) ims))"

definition save_and_replace_images_in_html ::
  "'fs downloader_env \<Rightarrow> 'fs url_downloader \<Rightarrow> gurl \<Rightarrow> string \<Rightarrow> image_info list
     \<Rightarrow> ('fs url_downloader \<times> string) option" where
  "save_and_replace_images_in_html env d url html images =
     (case replace_images env url d html False images of
        None \<Rightarrow> None
      | Some (d1, None) \<Rightarrow> Some (d1, [])
      | Some (d1, Some (html1, found)) \<Rightarrow>
          Some (d1, if found then html1 @ kDisableImageContextMenuScript else html1))"

definition save_html_for_url ::
  "'fs downloader_env \<Rightarrow> 'fs url_downloader \<Rightarrow> string \<Rightarrow> gurl \<Rightarrow> 'fs url_downloader \<times> bool" where
  "save_html_for_url env d html url =
     (if html = [] then (d, False)
      else let path = absolute_path_from_relative env (offline_page_path env url OFFLINE_TYPE_HTML);
               (fs, written) = write_file (fops env) (files d) path html;
               d1 = d\<lparr>files := fs\<rparr>
           in if written \<le> 0 then (d1, False)
              else (d1\<lparr>saved_size := saved_size d1 + written\<rparr>, True))"

definition save_distilled_html ::
  "'fs downloader_env \<Rightarrow> 'fs url_downloader \<Rightarrow> gurl \<Rightarrow> image_info list \<Rightarrow> string
     \<Rightarrow> ('fs url_downloader \<times> success_state) option" where
  "save_distilled_html env d url images html =
     (let (d1, created) = create_offline_url_directory env d url
      in if created then
           map_option (\<lambda>(d2, html1).
               let (d3, ok) = save_html_for_url env d2 html1 url
               in (d3, if ok then DOWNLOAD_SUCCESS else ERROR))
             (save_and_replace_images_in_html env d1 url html images)
         else Some (d1, ERROR))"

section \<open>The task tracker\<close>

fun run_posted_task ::
  "'fs downloader_env \<Rightarrow> 'fs url_downloader \<Rightarrow> posted_task
     \<Rightarrow> ('fs url_downloader \<times> posted_reply) option" where
  "run_posted_task env d (CheckPathThenDownload url path) =
     Some (d, DownloadURLReply url (path_exists (fops env) (files d) path))"
| "run_posted_task env d (DeleteThenComplete url path) =
     (let (fs, ok) = delete_recursively (fops env) (files d) path
      in Some (d\<lparr>files := fs\<rparr>, DeleteCompletionReply url ok))"
| "run_posted_task env d (CleanUpThenComplete url title path success directory) =
     (let (fs, _) = delete_recursively (fops env) (files d) directory
      in Some (d\<lparr>files := fs\<rparr>, PostDeleteReply url title path success))"
| "run_posted_task env d (SavePDFThenComplete url temporary_path path) =
     (let (d1, success) = save_pdf_file env d temporary_path
      in Some (d1, DownloadCompletionReply url [] path success))"
| "run_posted_task env d (SaveHTMLThenComplete url images html title path) =
     map_option (\<lambda>(d1, success). (d1, DownloadCompletionReply url title path success))
       (save_distilled_html env d url images html)"

fun run_posted_reply ::
  "'fs downloader_env \<Rightarrow> 'fs url_downloader \<Rightarrow> posted_reply \<Rightarrow> 'fs url_downloader option" where
  "run_posted_reply env d (DownloadURLReply url there) = download_url env d url there"
| "run_posted_reply env d (DeleteCompletionReply url ok) = delete_completion_handler env d url ok"
| "run_posted_reply env d (PostDeleteReply url title path success) =
     post_delete env d url title path success"
| "run_posted_reply env d (DownloadCompletionReply url title path success) =
     download_completion_handler env d url title path success"

section \<open>Events\<close>

datatype downloader_event =
    DownloadOfflineURL gurl
  | CancelDownloadOfflineURL gurl
  | RemoveOfflineURL gurl
  | RunPostedTask
  | RunPostedReply
  | PageRedirected gurl
  | PageHasMimeType string
  | DistillerFinished string "image_info list" string
  | URLLoadComplete file_path "string option"
  | CancelTask

text \<open>One event; an event whose sender does not exist has no step.\<close>

fun downloader_step ::
  "'fs downloader_env \<Rightarrow> 'fs url_downloader \<Rightarrow> downloader_event \<Rightarrow> 'fs url_downloader option" where
  "downloader_step env d (DownloadOfflineURL url) = download_offline_url env d url"
| "downloader_step env d (CancelDownloadOfflineURL url) = Some (cancel_download_offline_url d url)"
| "downloader_step env d (RemoveOfflineURL url) = remove_offline_url env d url"
| "downloader_step env d RunPostedTask =
     (case posted d of
        [] \<Rightarrow> None
      | p # ps \<Rightarrow>
          map_option (\<lambda>(d1, r). d1\<lparr>replies := replies d1 @ [r]\<rparr>)
            (run_posted_task env (d\<lparr>posted := ps\<rparr>) p))"
| "downloader_step env d RunPostedReply =
     (case replies d of
        [] \<Rightarrow> None
      | r # rs \<Rightarrow> run_posted_reply env (d\<lparr>replies := rs\<rparr>) r)"
| "downloader_step env d (PageRedirected final_url) =
     (case distilling d of
        None \<Rightarrow> None
      | Some url \<Rightarrow> distilled_page_redirected_to_url d url final_url)"
| "downloader_step env d (PageHasMimeType mime) =
     (case distilling d of None \<Rightarrow> None | Some url \<Rightarrow> distilled_page_has_mime_type d url mime)"
| "downloader_step env d (DistillerFinished html images title) =
     (case distilling d of
        None \<Rightarrow> None
      | Some url \<Rightarrow> distiller_callback env (d\<lparr>distilling := None\<rparr>) url html images title)"
| "downloader_step env d (URLLoadComplete response_path response_mime) =
     (case fetching d of
        None \<Rightarrow> None
      | Some url \<Rightarrow>
          on_url_load_complete env (d\<lparr>fetching := None\<rparr>) url response_path response_mime)"
| "downloader_step env d CancelTask = Some (cancel_task d)"

end
