(* ===== verification/UrlDownloaderFacts.thy ===== *)
theory UrlDownloaderFacts
  imports UrlDownloader
begin

text \<open>
  What the download queue guarantees. First the replacement loop of
  \<open>SaveAndReplaceImagesInHTML\<close> against a left-to-right substitution; then the invariant of
  the queue: one job in flight exactly while \<open>working_\<close>, no task left waiting when idle,
  the completions matching the tasks taken from the queue in order, deletions of a URL
  queued before its download.
\<close>

section \<open>The replacement loop\<close>

lemma is_prefix_iff: "is_prefix u s \<longleftrightarrow> take (length u) s = u"
  by (induction u s rule: is_prefix.induct) auto

function substitute :: "string \<Rightarrow> string \<Rightarrow> string \<Rightarrow> string" where
  "substitute u name [] = []"
| "substitute u name (c # cs) =
     (if u \<noteq> [] \<and> is_prefix u (c # cs) then name @ substitute u name (drop (length u) (c # cs))
      else c # substitute u name cs)"
  by pat_completeness auto
termination
  by (relation "measure (\<lambda>(u, name, s). length s)") auto

lemma find_first_None: "u \<noteq> [] \<Longrightarrow> find_first u s = None \<Longrightarrow> substitute u name s = s"
  by (induction s) (auto split: if_splits)

lemma find_first_Some:
  "u \<noteq> [] \<Longrightarrow> find_first u s = Some k \<Longrightarrow>
     k + length u \<le> length s \<and>
     substitute u name s = take k s @ name @ substitute u name (drop (k + length u) s)"
proof (induction s arbitrary: k)
  case (Cons c cs)
  show ?case
  proof (cases "is_prefix u (c # cs)")
    case True
    then have "take (length u) (c # cs) = u" by (simp add: is_prefix_iff)
    then have "length u \<le> length (c # cs)" by (metis length_take min.absorb_iff2)
    with True Cons.prems show ?thesis by simp
  next
    case False
    then obtain j where "find_first u cs = Some j" "k = Suc j" using Cons.prems by auto
    with False Cons show ?thesis by auto
  qed
qed simp

lemma string_find_None:
  "u \<noteq> [] \<Longrightarrow> string_find s u p = None \<Longrightarrow> p \<le> length s \<Longrightarrow>
     take p s @ substitute u name (drop p s) = s"
  by (auto simp: string_find_def find_first_None split: if_splits)

lemma string_find_Some:
  assumes "u \<noteq> []" and "string_find s u p = Some q"
  shows "p \<le> q" "q + length u \<le> length s"
    "take p s @ substitute u name (drop p s) =
       take q s @ name @ substitute u name (drop (q + length u) s)"
proof -
  obtain k where k: "find_first u (drop p s) = Some k" "q = p + k" "p \<le> length s"
    using assms(2) by (auto simp: string_find_def split: if_splits)
  note f = find_first_Some [OF assms(1) k(1), where name = name]
  show "p \<le> q" using k by simp
  show le: "q + length u \<le> length s" using f [THEN conjunct1] k(2,3) by simp
  show "take p s @ substitute u name (drop p s) =
       take q s @ name @ substitute u name (drop (q + length u) s)"
  proof -
    have "k + length u + p = q + length u" using k(2) by simp
    then have "drop (k + length u) (drop p s) = drop (q + length u) s" by (metis drop_drop)
    moreover have "take q s = take p s @ take k (drop p s)" using k(2) by (simp add: take_add)
    ultimately show ?thesis using f by (simp del: drop_drop)
  qed
qed

lemma replace_occurrences_from:
  assumes "u \<noteq> []" and "p \<le> length html"
  shows "replace_occurrences u name html (string_find html u p) =
    Some (take p html @ substitute u name (drop p html))"
  using assms(2)
proof (induction "length html - p" arbitrary: html p rule: less_induct)
  case less
  show ?case
  proof (cases "string_find html u p")
    case None
    with less.prems show ?thesis
      by (simp add: replace_occurrences.simps string_find_None [OF assms(1)])
  next
    case (Some q)
    note q = string_find_Some(1,2) [OF assms(1) Some] string_find_Some(3) [OF assms(1) Some, where name = name]
    define html1 where "html1 = string_replace html q (length u) name"
    have len: "length html1 = q + length name + (length html - (q + length u))"
      using q(2) by (simp add: html1_def string_replace_def)
    have "0 < length u" using assms(1) by simp
    then have "length html1 - (q + length name) < length html - p" using len q(1,2) by linarith
    moreover have "q + length name \<le> length html1" using len by simp
    ultimately have "replace_occurrences u name html1 (string_find html1 u (q + length name)) =
        Some (take (q + length name) html1 @ substitute u name (drop (q + length name) html1))"
      by (rule less.hyps)
    moreover have "take (q + length name) html1 = take q html @ name"
      "drop (q + length name) html1 = drop (q + length u) html"
      using q(2) by (simp_all add: html1_def string_replace_def)
    ultimately show ?thesis
      by (subst replace_occurrences.simps) (simp add: Some html1_def [symmetric] q(3))
  qed
qed

text \<open>
  C32. Replacing the references to one image in the page ends and substitutes the local name
  for every occurrence of the image URL, left to right and without rescanning what it has
  written, provided the escaped URL is not empty.
\<close>

theorem image_references_replaced:
  assumes "needle \<noteq> []"
  shows "replace_occurrences needle name html (string_find html needle 0) =
    Some (substitute needle name html)"
  using replace_occurrences_from [OF assms, of 0 html name] by simp

theorem image_references_replaced_witness:
  "replace_occurrences ''ab'' ''bab'' ''xabab'' (string_find ''xabab'' ''ab'' 0) = Some ''xbabbab''"
  using image_references_replaced [of "''ab''" "''bab''" "''xabab''"] by simp


section \<open>The invariant of the queue\<close>

text \<open>A download never precedes another download, or a deletion, of the same URL.\<close>

fun queue_ok :: "task list \<Rightarrow> bool" where
  "queue_ok [] = True"
| "queue_ok ((DELETE, u) # ts) = queue_ok ts"
| "queue_ok ((DOWNLOAD, u) # ts) =
     ((DOWNLOAD, u) \<notin> set ts \<and> (DELETE, u) \<notin> set ts \<and> queue_ok ts)"

lemma queue_ok_tl: "queue_ok (t # ts) \<Longrightarrow> queue_ok ts"
  by (cases t; cases "fst t") auto

lemma queue_ok_removeAll: "queue_ok ts \<Longrightarrow> queue_ok (removeAll x ts)"
  by (induction ts rule: queue_ok.induct) auto

lemma queue_ok_delete: "queue_ok ts \<Longrightarrow> (DOWNLOAD, u) \<notin> set ts \<Longrightarrow> queue_ok (ts @ [(DELETE, u)])"
  by (induction ts rule: queue_ok.induct) auto

lemma queue_ok_download: "queue_ok ts \<Longrightarrow> (DOWNLOAD, u) \<notin> set ts \<Longrightarrow> queue_ok (ts @ [(DOWNLOAD, u)])"
  by (induction ts rule: queue_ok.induct) auto

definition images_ok :: "'fs downloader_env \<Rightarrow> image_info list \<Rightarrow> bool" where
  "images_ok env ims = list_all (\<lambda>im. scheme_is_data env (image_url im)
     \<or> escape_for_html env (url_spec env (image_url im)) \<noteq> []) ims"

text \<open>A completion belongs to a task when it reports its URL, or the final URL of its page.\<close>

fun completes :: "completion \<Rightarrow> task \<Rightarrow> bool" where
  "completes (DeleteDone u ok) t = (t = (DELETE, u))"
| "completes (DownloadDone u final s path sz title) t =
     (fst t = DOWNLOAD \<and> (u = snd t \<or> u = final))"

fun posted_for :: "'fs downloader_env \<Rightarrow> 'fs url_downloader \<Rightarrow> task \<Rightarrow> posted_task \<Rightarrow> bool" where
  "posted_for env d t (CheckPathThenDownload u path) = (t = (DOWNLOAD, u) \<and> \<not> distiller d)"
| "posted_for env d t (DeleteThenComplete u path) = (t = (DELETE, u) \<and> \<not> distiller d)"
| "posted_for env d t (CleanUpThenComplete u title path s dir) =
     (fst t = DOWNLOAD \<and> (u = snd t \<or> u = distilled_url d))"
| "posted_for env d t (SavePDFThenComplete u tmp path) =
     (fst t = DOWNLOAD \<and> (u = snd t \<or> u = distilled_url d))"
| "posted_for env d t (SaveHTMLThenComplete u ims html title path) =
     (t = (DOWNLOAD, u) \<and> images_ok env ims)"

fun reply_for :: "'fs url_downloader \<Rightarrow> task \<Rightarrow> posted_reply \<Rightarrow> bool" where
  "reply_for d t (DownloadURLReply u b) = (t = (DOWNLOAD, u) \<and> \<not> distiller d)"
| "reply_for d t (DeleteCompletionReply u b) = (t = (DELETE, u) \<and> \<not> distiller d)"
| "reply_for d t (PostDeleteReply u title path s) =
     (fst t = DOWNLOAD \<and> (u = snd t \<or> u = distilled_url d))"
| "reply_for d t (DownloadCompletionReply u title path s) =
     (fst t = DOWNLOAD \<and> (u = snd t \<or> u = distilled_url d))"

text \<open>The four places where the job in flight can be.\<close>

inductive in_flight :: "'fs downloader_env \<Rightarrow> 'fs url_downloader \<Rightarrow> task \<Rightarrow> bool" for env d t where
  at_task: "posted d = [p] \<Longrightarrow> replies d = [] \<Longrightarrow> distilling d = None \<Longrightarrow> fetching d = None
    \<Longrightarrow> posted_for env d t p \<Longrightarrow> in_flight env d t"
| at_reply: "posted d = [] \<Longrightarrow> replies d = [r] \<Longrightarrow> distilling d = None \<Longrightarrow> fetching d = None
    \<Longrightarrow> reply_for d t r \<Longrightarrow> in_flight env d t"
| at_distiller: "posted d = [] \<Longrightarrow> replies d = [] \<Longrightarrow> distilling d = Some u \<Longrightarrow> fetching d = None
    \<Longrightarrow> t = (DOWNLOAD, u) \<Longrightarrow> original_url d = u \<Longrightarrow> in_flight env d t"
| at_loader: "posted d = [] \<Longrightarrow> replies d = [] \<Longrightarrow> distilling d = None \<Longrightarrow> fetching d = Some u
    \<Longrightarrow> fst t = DOWNLOAD \<Longrightarrow> original_url d = snd t \<Longrightarrow> u = snd t \<or> u = distilled_url d
    \<Longrightarrow> url_loader d \<Longrightarrow> mime_type d = pdf_mime_type \<Longrightarrow> in_flight env d t"

definition idle :: "'fs url_downloader \<Rightarrow> bool" where
  "idle d \<longleftrightarrow> \<not> working d \<and> \<not> distiller d \<and> posted d = [] \<and> replies d = [] \<and> distilling d = None
     \<and> fetching d = None \<and> list_all2 completes (completions d) (started d)"

definition busy :: "'fs downloader_env \<Rightarrow> 'fs url_downloader \<Rightarrow> bool" where
  "busy env d \<longleftrightarrow> working d \<and> (\<exists>ts t. started d = ts @ [t]
     \<and> list_all2 completes (completions d) ts \<and> in_flight env d t)"

definition flow_ok :: "'fs downloader_env \<Rightarrow> 'fs url_downloader \<Rightarrow> bool" where
  "flow_ok env d \<longleftrightarrow> queue_ok (tasks d) \<and> (busy env d \<or> idle d \<and> tasks d = [])"

text \<open>
  What the world may do: run the task or the reply that is queued, and call back from the
  distiller or the loader that was started, with images whose URL is not empty. Downloads are
  requested of valid URLs, and \<open>CancelTask\<close> is called only when neither the task tracker nor
  the distiller has a job.
\<close>

fun event_allowed :: "'fs downloader_env \<Rightarrow> 'fs url_downloader \<Rightarrow> downloader_event \<Rightarrow> bool" where
  "event_allowed env d RunPostedTask = (posted d \<noteq> [])"
| "event_allowed env d RunPostedReply = (replies d \<noteq> [])"
| "event_allowed env d (PageRedirected u) = (distilling d \<noteq> None)"
| "event_allowed env d (PageHasMimeType m) = (distilling d \<noteq> None)"
| "event_allowed env d (DistillerFinished html ims title) = (distilling d \<noteq> None \<and> images_ok env ims)"
| "event_allowed env d (URLLoadComplete path m) = (fetching d \<noteq> None)"
| "event_allowed env d (DownloadOfflineURL u) = url_is_valid env u"
| "event_allowed env d CancelTask = (posted d = [] \<and> replies d = [] \<and> distilling d = None)"
| "event_allowed env d _ = True"

definition valid_downloads :: "'fs downloader_env \<Rightarrow> 'fs url_downloader \<Rightarrow> bool" where
  "valid_downloads env d \<longleftrightarrow>
     (\<forall>u. (DOWNLOAD, u) \<in> set (tasks d) \<union> set (started d) \<longrightarrow> url_is_valid env u)"

definition downloader_ok :: "'fs downloader_env \<Rightarrow> 'fs url_downloader \<Rightarrow> bool" where
  "downloader_ok env d \<longleftrightarrow> flow_ok env d \<and> valid_downloads env d"

lemma new_downloader_ok: "downloader_ok env (new_url_downloader fs)"
  by (simp add: downloader_ok_def flow_ok_def idle_def new_url_downloader_def valid_downloads_def)

lemma handle_next_task_ok:
  assumes "idle d" and "queue_ok (tasks d)"
  obtains d' where "handle_next_task env d = Some d'" "flow_ok env d'"
proof (cases "tasks d")
  case Nil
  with assms that show ?thesis by (simp add: handle_next_task_def idle_def flow_ok_def)
next
  case (Cons t ts)
  obtain k u where t: "t = (k, u)" by (cases t)
  have q: "queue_ok ts" using assms(2) Cons queue_ok_tl by simp
  show ?thesis
  proof (cases k)
    case DELETE
    show ?thesis
      by (rule that, use assms Cons t DELETE q in \<open>auto simp: handle_next_task_def idle_def
            flow_ok_def busy_def post_task_def intro!: in_flight.at_task\<close>)
  next
    case DOWNLOAD
    show ?thesis
      by (rule that, use assms Cons t DOWNLOAD q in \<open>auto simp: handle_next_task_def idle_def
            flow_ok_def busy_def post_task_def offline_path_exists_def intro!: in_flight.at_task\<close>)
  qed
qed

lemma handle_next_task_busy: "busy env d \<Longrightarrow> handle_next_task env d = Some d"
  by (simp add: handle_next_task_def busy_def)


text \<open>A job being handed over: nothing is in flight, the last task started is \<open>t\<close>.\<close>

definition handed_over :: "'fs url_downloader \<Rightarrow> task \<Rightarrow> bool" where
  "handed_over d t \<longleftrightarrow> working d \<and> queue_ok (tasks d) \<and> posted d = [] \<and> replies d = []
     \<and> distilling d = None \<and> fetching d = None
     \<and> (\<exists>ts. started d = ts @ [t] \<and> list_all2 completes (completions d) ts)"

lemma handed_overE:
  assumes "handed_over d t"
  obtains ts where "working d" "queue_ok (tasks d)" "posted d = []" "replies d = []"
    "distilling d = None" "fetching d = None" "started d = ts @ [t]"
    "list_all2 completes (completions d) ts"
  using assms by (auto simp: handed_over_def)

lemma flow_ok_busy:
  assumes "handed_over d t" and "in_flight env e t" and "working e = working d"
    and "tasks e = tasks d" and "started e = started d" and "completions e = completions d"
  shows "flow_ok env e"
  using assms unfolding flow_ok_def busy_def handed_over_def by metis

lemma post_delete_ok:
  assumes "handed_over d t" and "fst t = DOWNLOAD" and "u = snd t \<or> u = distilled_url d"
  obtains d' where "post_delete env d u title path s = Some d'" "flow_ok env d'"
proof -
  define e where "e = d\<lparr>completions := completions d @
    [DownloadDone u (distilled_url d) s path (saved_size d) title],
    distiller := False, distilling := None, working := False\<rparr>"
  obtain ts where ts: "posted d = []" "replies d = []" "fetching d = None" "queue_ok (tasks d)"
    "started d = ts @ [t]" "list_all2 completes (completions d) ts"
    using assms(1) by (rule handed_overE)
  have "completes (DownloadDone u (distilled_url d) s path (saved_size d) title) t"
    using assms by simp
  then have "idle e" using ts by (simp add: e_def idle_def list_all2_appendI)
  moreover have "queue_ok (tasks e)" using ts by (simp add: e_def)
  ultimately obtain d' where "handle_next_task env e = Some d'" "flow_ok env d'"
    by (rule handle_next_task_ok)
  then show ?thesis using that by (simp add: post_delete_def e_def)
qed

lemma download_completion_handler_ok:
  assumes "handed_over d t" and "fst t = DOWNLOAD" and "u = snd t \<or> u = distilled_url d"
  obtains d' where "download_completion_handler env d u title path s = Some d'" "flow_ok env d'"
proof (cases "s = ERROR")
  case True
  define e where "e = post_task d (CleanUpThenComplete u title path s
                              (offline_directory_absolute_path env u))"
  have flight: "in_flight env e t"
    by (rule in_flight.at_task [of _ "CleanUpThenComplete u title path s (offline_directory_absolute_path env u)"])
      (use assms in \<open>auto simp: e_def post_task_def handed_over_def\<close>)
  have "flow_ok env e"
    by (rule flow_ok_busy [OF assms(1) flight]) (simp_all add: e_def post_task_def)
  with True that assms(1) show ?thesis
    by (auto simp: download_completion_handler_def handed_over_def e_def)
next
  case False
  have "working d" using assms(1) by (simp add: handed_over_def)
  with post_delete_ok [OF assms, of env title path s] False that show ?thesis
    by (auto simp: download_completion_handler_def)
qed

lemma delete_completion_handler_ok:
  assumes "handed_over d (DELETE, u)" and "\<not> distiller d"
  obtains d' where "delete_completion_handler env d u ok = Some d'" "flow_ok env d'"
proof -
  have "idle (d\<lparr>completions := completions d @ [DeleteDone u ok], working := False\<rparr>)"
    using assms by (auto simp: idle_def list_all2_appendI elim!: handed_overE)
  moreover have "queue_ok (tasks (d\<lparr>completions := completions d @ [DeleteDone u ok], working := False\<rparr>))"
    using assms by (simp add: handed_over_def)
  ultimately obtain d' where
    "handle_next_task env (d\<lparr>completions := completions d @ [DeleteDone u ok], working := False\<rparr>) = Some d'"
    "flow_ok env d'" by (rule handle_next_task_ok)
  then show ?thesis using assms(1) that by (simp add: delete_completion_handler_def handed_over_def)
qed

lemma run_posted_reply_ok:
  assumes "handed_over d t" and "reply_for d t r" and "fst t = DOWNLOAD \<longrightarrow> url_is_valid env (snd t)"
  obtains d' where "run_posted_reply env d r = Some d'" "flow_ok env d'"
proof (cases r)
  case (DownloadURLReply u there)
  show ?thesis
  proof (cases there)
    case True
    have t: "fst t = DOWNLOAD" "u = snd t \<or> u = distilled_url d"
      using assms(2) DownloadURLReply by auto
    from download_completion_handler_ok [OF assms(1) t, of env "[]" "[]" DOWNLOAD_EXISTS] show ?thesis
      using that DownloadURLReply True by (auto simp: download_url_def new_distiller_viewer_def)
  next
    case False
    define e where "e = d\<lparr>original_url := u, distilled_url := u, saved_size := 0,
            distiller := True, distilling := Some u\<rparr>"
    have flight: "in_flight env e t"
      by (rule in_flight.at_distiller [of _ u])
        (use assms DownloadURLReply in \<open>auto simp: e_def handed_over_def\<close>)
    have "flow_ok env e"
      by (rule flow_ok_busy [OF assms(1) flight]) (simp_all add: e_def)
    moreover have "url_is_valid env u" using assms(2,3) DownloadURLReply by auto
    ultimately show ?thesis using that False DownloadURLReply by (simp add: download_url_def new_distiller_viewer_def e_def)
  qed
next
  case (DeleteCompletionReply u ok)
  then show ?thesis using delete_completion_handler_ok [of d u env ok] assms that by auto
next
  case (PostDeleteReply u title path s)
  then show ?thesis using post_delete_ok [OF assms(1), of u env title path s] assms(2) that by auto
next
  case (DownloadCompletionReply u title path s)
  then show ?thesis
    using download_completion_handler_ok [OF assms(1), of u env title path s] assms(2) that by auto
qed

text \<open>The background tasks change only the files and the saved size, and end.\<close>

definition same_but_files :: "'fs url_downloader \<Rightarrow> 'fs url_downloader \<Rightarrow> bool" where
  "same_but_files d e \<longleftrightarrow> (\<exists>fs n. e = d\<lparr>files := fs, saved_size := n\<rparr>)"

lemma same_but_files_refl [simp]: "same_but_files d d"
  unfolding same_but_files_def by (rule exI [of _ "files d"], rule exI [of _ "saved_size d"]) simp

lemma same_but_files_trans [trans]:
  "same_but_files d e \<Longrightarrow> same_but_files e f \<Longrightarrow> same_but_files d f"
  unfolding same_but_files_def by fastforce

lemma same_but_files_upd [simp]:
  "same_but_files d (d\<lparr>files := fs\<rparr>)"
  "same_but_files d (d\<lparr>files := fs, saved_size := n\<rparr>)"
  unfolding same_but_files_def
  by (rule exI [of _ fs], rule exI [of _ "saved_size d"], simp,
      rule exI [of _ fs], rule exI [of _ n], simp)

lemma same_but_files_fields:
  assumes "same_but_files d e"
  shows "tasks e = tasks d" "working e = working d" "distiller e = distiller d" "posted e = posted d"
    "replies e = replies d" "distilling e = distilling d" "fetching e = fetching d"
    "completions e = completions d" "started e = started d" "distilled_url e = distilled_url d"
    "original_url e = original_url d" "mime_type e = mime_type d" "url_loader e = url_loader d"
  using assms by (auto simp: same_but_files_def)

lemma create_directory_same:
  "create_offline_url_directory env d u = (e, b) \<Longrightarrow> same_but_files d e"
  by (auto simp: create_offline_url_directory_def Let_def split: if_splits prod.splits)

lemma save_image_same: "save_image env d u im data = (e, n, b) \<Longrightarrow> same_but_files d e"
  by (auto simp: save_image_def Let_def split: if_splits prod.splits)

lemma save_html_same: "save_html_for_url env d html u = (e, b) \<Longrightarrow> same_but_files d e"
  by (auto simp: save_html_for_url_def Let_def split: if_splits prod.splits)

lemma save_pdf_file_same:
  assumes "save_pdf_file env d tmp = (e, s)"
  shows "same_but_files d e"
proof -
  obtain d1 b where d1: "create_offline_url_directory env d (original_url d) = (d1, b)"
    by (cases "create_offline_url_directory env d (original_url d)")
  have "same_but_files d d1" by (rule create_directory_same [OF d1])
  moreover have "same_but_files d1 e"
    using assms d1 by (auto simp: save_pdf_file_def Let_def split: if_splits prod.splits)
  ultimately show ?thesis by (rule same_but_files_trans)
qed

lemma replace_images_total:
  "images_ok env ims \<Longrightarrow> \<exists>e r. replace_images env u d html found ims = Some (e, r) \<and> same_but_files d e"
proof (induction ims arbitrary: d html found)
  case (Cons im ims)
  have ims: "images_ok env ims" using Cons.prems by (simp add: images_ok_def)
  show ?case
  proof (cases "scheme_is_data env (image_url im)")
    case True
    then show ?thesis using Cons.IH [OF ims] by simp
  next
    case False
    then have needle: "escape_for_html env (url_spec env (image_url im)) \<noteq> []"
      using Cons.prems by (simp add: images_ok_def)
    define saved where "saved =
      (if \<not> (scheme_is_cryptographic env (distilled_url d) \<and> \<not> scheme_is_cryptographic env (image_url im))
          \<and> url_is_valid env (image_url im) \<and> image_data im \<noteq> []
       then save_image env d u (image_url im) (image_data im) else (d, [], True))"
    obtain d1 name ok where s: "saved = (d1, name, ok)" by (cases saved)
    then have d1: "same_but_files d d1"
      by (auto simp: saved_def save_image_same split: if_splits)
    obtain html1 where html1: "replace_occurrences (escape_for_html env (url_spec env (image_url im))) name html
        (string_find html (escape_for_html env (url_spec env (image_url im))) 0) = Some html1"
      using replace_occurrences_from [OF needle, of 0 html name] by simp
    have step: "replace_images env u d html found (im # ims) =
      (if \<not> ok then Some (d1, None)
       else replace_images env u d1 html1
         (found \<or> string_find html (escape_for_html env (url_spec env (image_url im))) 0 \<noteq> None) ims)"
      by (simp only: replace_images.simps Let_def False if_False saved_def [symmetric] s prod.case
          html1 option.case)
    show ?thesis
      unfolding step using d1 Cons.IH [OF ims] same_but_files_trans [OF d1] by (metis (full_types))
  qed
qed simp

lemma save_distilled_html_total:
  assumes "images_ok env ims"
  shows "\<exists>e s. save_distilled_html env d u ims html = Some (e, s) \<and> same_but_files d e"
proof -
  obtain d1 b where d1: "create_offline_url_directory env d u = (d1, b)"
    by (cases "create_offline_url_directory env d u")
  note same = create_directory_same [OF d1]
  obtain d2 r where d2: "replace_images env u d1 html False ims = Some (d2, r)" "same_but_files d1 d2"
    using replace_images_total [OF assms] by blast
  obtain html1 where html1: "save_and_replace_images_in_html env d1 u html ims = Some (d2, html1)"
    using d2(1) by (cases r) (auto simp: save_and_replace_images_in_html_def)
  obtain d3 ok where d3: "save_html_for_url env d2 html1 u = (d3, ok)"
    by (cases "save_html_for_url env d2 html1 u")
  have "same_but_files d d3"
    using same same_but_files_trans d2(2) save_html_same [OF d3] by metis
  with same d1 html1 d3 show ?thesis by (cases b) (auto simp: save_distilled_html_def)
qed

lemma run_posted_task_ok:
  assumes "posted_for env d t p"
  obtains e r where "run_posted_task env d p = Some (e, r)" "same_but_files d e" "reply_for e t r"
proof (cases p)
  case (CheckPathThenDownload u path)
  then show ?thesis using assms that by simp
next
  case (DeleteThenComplete u path)
  then show ?thesis using assms that by (cases "delete_recursively (fops env) (files d) path") auto
next
  case (CleanUpThenComplete u title path s dir)
  then show ?thesis using assms that by (cases "delete_recursively (fops env) (files d) dir") auto
next
  case (SavePDFThenComplete u tmp path)
  obtain e s where e: "save_pdf_file env d tmp = (e, s)" by (cases "save_pdf_file env d tmp")
  note same = save_pdf_file_same [OF e]
  show ?thesis
    by (rule that [OF _ same]) (use SavePDFThenComplete assms e same_but_files_fields [OF same] in auto)
next
  case (SaveHTMLThenComplete u ims html title path)
  then obtain e s where e: "save_distilled_html env d u ims html = Some (e, s)" and same: "same_but_files d e"
    using save_distilled_html_total assms by fastforce
  show ?thesis
    by (rule that [OF _ same]) (use SaveHTMLThenComplete assms e same_but_files_fields [OF same] in auto)
qed


section \<open>Every event\<close>

lemma in_flight_tasks [simp]: "in_flight env (d\<lparr>tasks := ts\<rparr>) t \<longleftrightarrow> in_flight env d t"
proof -
  have "posted_for env (d\<lparr>tasks := ts\<rparr>) t p = posted_for env d t p" for p by (cases p) simp_all
  moreover have "reply_for (d\<lparr>tasks := ts\<rparr>) t r = reply_for d t r" for r by (cases r) simp_all
  ultimately show ?thesis by (simp add: in_flight.simps)
qed

lemma busy_tasks [simp]: "busy env (d\<lparr>tasks := ts\<rparr>) \<longleftrightarrow> busy env d"
  by (simp add: busy_def)

lemma idle_tasks [simp]: "idle (d\<lparr>tasks := ts\<rparr>) \<longleftrightarrow> idle d"
  by (simp add: idle_def)

lemma enqueue_ok:
  assumes "flow_ok env d" and "queue_ok ts"
  shows "\<exists>d'. handle_next_task env (d\<lparr>tasks := ts\<rparr>) = Some d' \<and> flow_ok env d'"
proof (cases "busy env d")
  case True
  then have "busy env (d\<lparr>tasks := ts\<rparr>)" by simp
  with handle_next_task_busy [OF this] assms(2) show ?thesis by (simp add: flow_ok_def)
next
  case False
  then have "idle (d\<lparr>tasks := ts\<rparr>)" using assms(1) by (simp add: flow_ok_def)
  then show ?thesis by (rule handle_next_task_ok) (use assms(2) in auto)
qed

text \<open>The job in flight, wherever it is, once it has been taken out.\<close>

lemma busy_working: "flow_ok env d \<Longrightarrow> \<not> idle d \<Longrightarrow> busy env d"
  by (simp add: flow_ok_def)

lemma busy_at_task:
  assumes "flow_ok env d" and "posted d = p # ps"
  obtains t where "ps = []" "handed_over (d\<lparr>posted := ps\<rparr>) t" "posted_for env d t p"
proof -
  have "\<not> idle d" using assms(2) by (simp add: idle_def)
  then have b: "busy env d" and q: "queue_ok (tasks d)"
    using assms(1) by (simp_all add: flow_ok_def)
  then obtain ts t where t: "working d" "started d = ts @ [t]" "list_all2 completes (completions d) ts"
    "in_flight env d t" by (auto simp: busy_def)
  from t(4) show ?thesis
    by (cases rule: in_flight.cases) (use assms(2) q t that in \<open>auto simp: handed_over_def\<close>)
qed

lemma busy_at_reply:
  assumes "flow_ok env d" and "replies d = r # rs"
  obtains t where "rs = []" "handed_over (d\<lparr>replies := rs\<rparr>) t" "reply_for d t r"
proof -
  have "\<not> idle d" using assms(2) by (simp add: idle_def)
  then have b: "busy env d" and q: "queue_ok (tasks d)"
    using assms(1) by (simp_all add: flow_ok_def)
  then obtain ts t where t: "working d" "started d = ts @ [t]" "list_all2 completes (completions d) ts"
    "in_flight env d t" by (auto simp: busy_def)
  from t(4) show ?thesis
    by (cases rule: in_flight.cases) (use assms(2) q t that in \<open>auto simp: handed_over_def\<close>)
qed

lemma busy_at_distiller:
  assumes "flow_ok env d" and "distilling d = Some u"
  shows "handed_over (d\<lparr>distilling := None\<rparr>) (DOWNLOAD, u)" "original_url d = u" "posted d = []"
    "replies d = []" "fetching d = None"
proof -
  have "\<not> idle d" using assms(2) by (simp add: idle_def)
  then have b: "busy env d" and q: "queue_ok (tasks d)"
    using assms(1) by (simp_all add: flow_ok_def)
  then obtain ts t where t: "working d" "started d = ts @ [t]" "list_all2 completes (completions d) ts"
    "in_flight env d t" by (auto simp: busy_def)
  from t(4) show "handed_over (d\<lparr>distilling := None\<rparr>) (DOWNLOAD, u)" "original_url d = u" "posted d = []"
    "replies d = []" "fetching d = None"
    by (cases rule: in_flight.cases; use assms(2) q t in \<open>auto simp: handed_over_def\<close>)+
qed

lemma busy_at_loader:
  assumes "flow_ok env d" and "fetching d = Some u"
  obtains t where "handed_over (d\<lparr>fetching := None\<rparr>) t" "fst t = DOWNLOAD" "original_url d = snd t"
    "u = snd t \<or> u = distilled_url d" "url_loader d" "mime_type d = pdf_mime_type"
proof -
  have "\<not> idle d" using assms(2) by (simp add: idle_def)
  then have b: "busy env d" and q: "queue_ok (tasks d)"
    using assms(1) by (simp_all add: flow_ok_def)
  then obtain ts t where t: "working d" "started d = ts @ [t]" "list_all2 completes (completions d) ts"
    "in_flight env d t" by (auto simp: busy_def)
  from t(4) show ?thesis
    by (cases rule: in_flight.cases) (use assms(2) q t in \<open>auto simp: handed_over_def intro!: that\<close>)
qed

lemma run_posted_task_step:
  assumes "flow_ok env d" and "posted d \<noteq> []"
  shows "\<exists>d'. downloader_step env d RunPostedTask = Some d' \<and> flow_ok env d'"
proof -
  obtain p ps where p: "posted d = p # ps" using assms(2) by (cases "posted d") auto
  obtain t where t: "ps = []" "handed_over (d\<lparr>posted := ps\<rparr>) t" "posted_for env d t p"
    using assms(1) p by (rule busy_at_task)
  have "posted_for env (d\<lparr>posted := ps\<rparr>) t p" using t(3) by (cases p) simp_all
  then obtain e r where e: "run_posted_task env (d\<lparr>posted := ps\<rparr>) p = Some (e, r)"
    "same_but_files (d\<lparr>posted := ps\<rparr>) e" "reply_for e t r" by (rule run_posted_task_ok)
  note fields = same_but_files_fields [OF e(2)]
  have r: "reply_for (e\<lparr>replies := [r]\<rparr>) t r" using e(3) by (cases r) simp_all
  have "replies d = []" "distilling d = None" "fetching d = None"
    using t(2) by (simp_all add: handed_over_def)
  then have flight: "in_flight env (e\<lparr>replies := [r]\<rparr>) t"
    by (intro in_flight.at_reply [of _ r]) (use t r fields in simp_all)
  have "flow_ok env (e\<lparr>replies := [r]\<rparr>)"
    by (rule flow_ok_busy [OF t(2) flight]) (simp_all add: fields)
  then show ?thesis using p e \<open>replies d = []\<close> by (simp add: fields)
qed

lemma page_event_step:
  assumes "flow_ok env d" and "distilling d = Some u"
  shows "flow_ok env (d\<lparr>distilled_url := x\<rparr>)" "flow_ok env (d\<lparr>mime_type := m\<rparr>)"
proof -
  note b = busy_at_distiller [OF assms]
  have w: "handed_over (d\<lparr>distilling := None\<rparr>) (DOWNLOAD, u)" by (rule b(1))
  have flight: "in_flight env (d\<lparr>distilled_url := x\<rparr>) (DOWNLOAD, u)"
    "in_flight env (d\<lparr>mime_type := m\<rparr>) (DOWNLOAD, u)"
    by (rule in_flight.at_distiller; use b assms in simp)+
  show "flow_ok env (d\<lparr>distilled_url := x\<rparr>)"
    by (rule flow_ok_busy [OF w flight(1)]) simp_all
  show "flow_ok env (d\<lparr>mime_type := m\<rparr>)"
    by (rule flow_ok_busy [OF w flight(2)]) simp_all
qed

lemma distiller_finished_step:
  assumes "flow_ok env d" and "distilling d = Some u" and "images_ok env ims"
  shows "\<exists>d'. distiller_callback env (d\<lparr>distilling := None\<rparr>) u html ims title = Some d'
    \<and> flow_ok env d'"
proof -
  note b = busy_at_distiller [OF assms(1,2)]
  note w = b(1)
  show ?thesis
  proof (cases "html = []")
    case False
    define e where "e = post_task (d\<lparr>distilling := None\<rparr>)
      (SaveHTMLThenComplete u ims html title (offline_page_path env u OFFLINE_TYPE_HTML))"
    have flight: "in_flight env e (DOWNLOAD, u)"
      by (rule in_flight.at_task [of _ "SaveHTMLThenComplete u ims html title
            (offline_page_path env u OFFLINE_TYPE_HTML)"]) (use b assms in \<open>simp_all add: e_def post_task_def\<close>)
    have "flow_ok env e"
      by (rule flow_ok_busy [OF w flight]) (simp_all add: e_def post_task_def)
    with False show ?thesis by (simp add: distiller_callback_def e_def)
  next
    case True
    show ?thesis
    proof (cases "mime_type d = pdf_mime_type")
      case True
      define e where "e = fetch_pdf_file env (d\<lparr>distilling := None\<rparr>)"
      have flight: "in_flight env e (DOWNLOAD, u)"
        by (rule in_flight.at_loader)
          (use b assms True in \<open>auto simp: e_def fetch_pdf_file_def\<close>)
      have "flow_ok env e"
        by (rule flow_ok_busy [OF w flight]) (simp_all add: e_def fetch_pdf_file_def)
      with True \<open>html = []\<close> show ?thesis by (simp add: distiller_callback_def e_def)
    next
      case False
      obtain d' where "download_completion_handler env (d\<lparr>distilling := None\<rparr>) u [] [] ERROR = Some d'"
        "flow_ok env d'"
        by (rule download_completion_handler_ok [OF w]) auto
      with False \<open>html = []\<close> show ?thesis by (simp add: distiller_callback_def)
    qed
  qed
qed

lemma load_complete_step:
  assumes "flow_ok env d" and "fetching d = Some u"
  shows "\<exists>d'. on_url_load_complete env (d\<lparr>fetching := None\<rparr>) u path m = Some d' \<and> flow_ok env d'"
proof -
  obtain t where t: "handed_over (d\<lparr>fetching := None\<rparr>) t" "fst t = DOWNLOAD" "original_url d = snd t"
    "u = snd t \<or> u = distilled_url d" "url_loader d" "mime_type d = pdf_mime_type"
    using assms by (rule busy_at_loader)
  define target where "target = offline_page_path env (original_url d) OFFLINE_TYPE_PDF"
  define bad where "bad \<longleftrightarrow> path = [] \<or> (case m of None \<Rightarrow> [] | Some x \<Rightarrow> x) \<noteq> mime_type d"
  have eq: "on_url_load_complete env (d\<lparr>fetching := None\<rparr>) u path m =
    (if bad then download_completion_handler env (d\<lparr>fetching := None\<rparr>) (original_url d) [] target ERROR
     else Some ((post_task (d\<lparr>fetching := None\<rparr>) (SavePDFThenComplete u path target))\<lparr>url_loader := False\<rparr>))"
    using t(5,6) by (simp add: on_url_load_complete_def bad_def target_def)
  show ?thesis
  proof (cases bad)
    case True
    obtain d' where "download_completion_handler env (d\<lparr>fetching := None\<rparr>) (original_url d) [] target ERROR
        = Some d'" "flow_ok env d'"
      by (rule download_completion_handler_ok [OF t(1,2), of "original_url d"]) (use t(3) in auto)
    with True eq show ?thesis by simp
  next
    case False
    define e where "e = (post_task (d\<lparr>fetching := None\<rparr>) (SavePDFThenComplete u path target))\<lparr>url_loader := False\<rparr>"
    have flight: "in_flight env e t"
      by (rule in_flight.at_task [of _ "SavePDFThenComplete u path target"])
        (use t in \<open>simp_all add: e_def post_task_def handed_over_def\<close>)
    have "flow_ok env e"
      by (rule flow_ok_busy [OF t(1) flight]) (simp_all add: e_def post_task_def)
    with False eq show ?thesis by (simp add: e_def)
  qed
qed

lemma flow_step:
  assumes "flow_ok env d" and "valid_downloads env d" and "event_allowed env d e"
  shows "\<exists>d'. downloader_step env d e = Some d' \<and> flow_ok env d'"
proof (cases e)
  case (DownloadOfflineURL u)
  have "queue_ok (tasks d)" using assms(1) by (simp add: flow_ok_def)
  then have "(DOWNLOAD, u) \<notin> set (tasks d) \<Longrightarrow> queue_ok (tasks d @ [(DOWNLOAD, u)])"
    by (rule queue_ok_download)
  then show ?thesis
    using enqueue_ok [OF assms(1), of "tasks d @ [(DOWNLOAD, u)]"] assms(1) DownloadOfflineURL
    by (auto simp: download_offline_url_def)
next
  case (CancelDownloadOfflineURL u)
  then show ?thesis using assms(1)
    by (auto simp: cancel_download_offline_url_def flow_ok_def queue_ok_removeAll)
next
  case (RemoveOfflineURL u)
  have "queue_ok (removeAll (DOWNLOAD, u) (tasks d) @ [(DELETE, u)])"
    using assms(1) by (intro queue_ok_delete queue_ok_removeAll) (auto simp: flow_ok_def)
  from enqueue_ok [OF assms(1) this] RemoveOfflineURL show ?thesis
    by (simp add: remove_offline_url_def cancel_download_offline_url_def)
next
  case RunPostedTask
  then show ?thesis using run_posted_task_step [OF assms(1)] assms(3) by simp
next
  case RunPostedReply
  then obtain r rs where r: "replies d = r # rs" using assms(3) by (cases "replies d") auto
  obtain t where t: "rs = []" "handed_over (d\<lparr>replies := rs\<rparr>) t" "reply_for d t r"
    using assms(1) r by (rule busy_at_reply)
  have "reply_for (d\<lparr>replies := rs\<rparr>) t r" using t(3) by (cases r) simp_all
  moreover have "t \<in> set (started d)" using t(2) by (auto simp: handed_over_def)
  then have "fst t = DOWNLOAD \<longrightarrow> url_is_valid env (snd t)"
    using assms(2) by (metis UnI2 prod.collapse valid_downloads_def)
  ultimately obtain d' where "run_posted_reply env (d\<lparr>replies := rs\<rparr>) r = Some d'" "flow_ok env d'"
    using run_posted_reply_ok [OF t(2)] by blast
  with r RunPostedReply show ?thesis by simp
next
  case (PageRedirected u)
  then obtain v where "distilling d = Some v" using assms(3) by auto
  with PageRedirected busy_at_distiller [OF assms(1)] page_event_step [OF assms(1)] show ?thesis
    by (simp add: distilled_page_redirected_to_url_def)
next
  case (PageHasMimeType m)
  then obtain v where "distilling d = Some v" using assms(3) by auto
  with PageHasMimeType busy_at_distiller [OF assms(1)] page_event_step [OF assms(1)] show ?thesis
    by (simp add: distilled_page_has_mime_type_def)
next
  case (DistillerFinished html ims title)
  then show ?thesis using distiller_finished_step [OF assms(1)] assms(3) by auto
next
  case (URLLoadComplete path m)
  then show ?thesis using load_complete_step [OF assms(1)] assms(3) by auto
next
  case CancelTask
  then have none: "posted d = []" "replies d = []" "distilling d = None" using assms(3) by simp_all
  show ?thesis
  proof (cases "idle d")
    case True
    then have "cancel_task d = d" by (simp add: cancel_task_def idle_def)
    with assms(1) CancelTask show ?thesis by simp
  next
    case False
    then obtain ts t where t: "working d" "started d = ts @ [t]" "list_all2 completes (completions d) ts"
      "in_flight env d t" using assms(1) by (auto simp: flow_ok_def busy_def)
    have "in_flight env (cancel_task d) t"
      using t(4) none by (cases rule: in_flight.cases) (auto simp: cancel_task_def intro: in_flight.at_loader)
    then have "busy env (cancel_task d)" using t(1-3) unfolding busy_def by (auto simp: cancel_task_def)
    with assms(1) CancelTask show ?thesis by (simp add: flow_ok_def) (simp add: cancel_task_def)
  qed
qed

text \<open>Only a request brings a new task into the queue.\<close>

definition known_tasks :: "'fs url_downloader \<Rightarrow> task set" where
  "known_tasks d = set (tasks d) \<union> set (started d)"

fun requested_tasks :: "downloader_event \<Rightarrow> task set" where
  "requested_tasks (DownloadOfflineURL u) = {(DOWNLOAD, u)}"
| "requested_tasks (RemoveOfflineURL u) = {(DELETE, u)}"
| "requested_tasks _ = {}"

lemma known_handle: "handle_next_task env d = Some d' \<Longrightarrow> known_tasks d' = known_tasks d"
  by (auto simp: handle_next_task_def known_tasks_def post_task_def offline_path_exists_def Let_def
      dcheck_bind_eq_Some split: if_splits list.splits prod.splits task_type.splits)

lemma known_tasks_upd [simp]:
  "known_tasks (d\<lparr>replies := rs\<rparr>) = known_tasks d" "known_tasks (d\<lparr>posted := ps\<rparr>) = known_tasks d"
  "known_tasks (d\<lparr>distilling := x\<rparr>) = known_tasks d" "known_tasks (d\<lparr>fetching := y\<rparr>) = known_tasks d"
  "known_tasks (d\<lparr>completions := cs\<rparr>) = known_tasks d" "known_tasks (d\<lparr>working := w\<rparr>) = known_tasks d"
  "known_tasks (d\<lparr>distiller := b\<rparr>) = known_tasks d" "known_tasks (d\<lparr>url_loader := b\<rparr>) = known_tasks d"
  "known_tasks (d\<lparr>original_url := o1\<rparr>) = known_tasks d" "known_tasks (d\<lparr>distilled_url := o2\<rparr>) = known_tasks d"
  "known_tasks (d\<lparr>saved_size := n\<rparr>) = known_tasks d" "known_tasks (d\<lparr>mime_type := m\<rparr>) = known_tasks d"
  "known_tasks (post_task d p) = known_tasks d"
  by (simp_all add: known_tasks_def post_task_def)

lemma known_post_delete:
  assumes "post_delete env d u title path s = Some d'"
  shows "known_tasks d' = known_tasks d"
  using known_handle [OF assms [unfolded post_delete_def Let_def]] by simp

lemma known_download_completion:
  "download_completion_handler env d u title path s = Some d' \<Longrightarrow> known_tasks d' = known_tasks d"
  using known_post_delete [of env d u title path s d']
  by (auto simp: download_completion_handler_def dcheck_bind_eq_Some split: if_splits)

lemma known_delete_completion:
  assumes "delete_completion_handler env d u ok = Some d'"
  shows "known_tasks d' = known_tasks d"
proof -
  have "handle_next_task env (d\<lparr>completions := completions d @ [DeleteDone u ok], working := False\<rparr>) = Some d'"
    using assms by (simp add: delete_completion_handler_def dcheck_bind_eq_Some Let_def)
  from known_handle [OF this] show ?thesis by simp
qed

lemma known_reply:
  assumes "run_posted_reply env d r = Some d'"
  shows "known_tasks d' = known_tasks d"
proof (cases r)
  case (DownloadURLReply u there)
  show ?thesis
  proof (cases there)
    case True
    with assms DownloadURLReply have "download_completion_handler env d u [] [] DOWNLOAD_EXISTS = Some d'"
      by (simp add: download_url_def new_distiller_viewer_def)
    then show ?thesis by (rule known_download_completion)
  next
    case False
    with assms DownloadURLReply have "d' = d\<lparr>original_url := u, distilled_url := u, saved_size := 0,
        distiller := True, distilling := Some u\<rparr>"
      by (simp add: download_url_def new_distiller_viewer_def dcheck_bind_eq_Some)
    then show ?thesis by simp
  qed
qed (use assms in \<open>simp_all add: known_delete_completion known_post_delete known_download_completion\<close>)

lemma known_step:
  assumes "downloader_step env d e = Some d'" and "flow_ok env d"
  shows "known_tasks d' \<subseteq> known_tasks d \<union> requested_tasks e"
proof (cases e)
  case (DownloadOfflineURL u)
  have "known_tasks d' = known_tasks (d\<lparr>tasks := tasks d @ [(DOWNLOAD, u)]\<rparr>) \<or> d' = d"
    using assms(1) DownloadOfflineURL known_handle [of env "d\<lparr>tasks := tasks d @ [(DOWNLOAD, u)]\<rparr>" d']
    by (simp add: download_offline_url_def split: if_splits)
  with DownloadOfflineURL show ?thesis by (auto simp: known_tasks_def)
next
  case (CancelDownloadOfflineURL u)
  with assms show ?thesis by (auto simp: cancel_download_offline_url_def known_tasks_def)
next
  case (RemoveOfflineURL u)
  then have "known_tasks d' = known_tasks (d\<lparr>tasks := removeAll (DOWNLOAD, u) (tasks d) @ [(DELETE, u)]\<rparr>)"
    using assms(1) known_handle [of env "d\<lparr>tasks := removeAll (DOWNLOAD, u) (tasks d) @ [(DELETE, u)]\<rparr>" d']
    by (simp add: remove_offline_url_def cancel_download_offline_url_def)
  with RemoveOfflineURL show ?thesis by (auto simp: known_tasks_def)
next
  case RunPostedTask
  then obtain p ps where p: "posted d = p # ps" using assms by (cases "posted d") auto
  obtain t where t: "ps = []" "posted_for env d t p" using busy_at_task [OF assms(2) p] by metis
  have "posted_for env (d\<lparr>posted := ps\<rparr>) t p" using t(2) by (cases p) simp_all
  then obtain x r where x: "run_posted_task env (d\<lparr>posted := ps\<rparr>) p = Some (x, r)"
    "same_but_files (d\<lparr>posted := ps\<rparr>) x" by (rule run_posted_task_ok)
  with assms(1) RunPostedTask p same_but_files_fields [OF x(2)] show ?thesis
    by (auto simp: known_tasks_def)
next
  case RunPostedReply
  then obtain r rs where "run_posted_reply env (d\<lparr>replies := rs\<rparr>) r = Some d'"
    using assms(1) by (cases "replies d") auto
  from known_reply [OF this] show ?thesis by simp
next
  case (PageRedirected u)
  then show ?thesis using assms(1)
    by (auto simp: distilled_page_redirected_to_url_def dcheck_bind_eq_Some split: option.splits)
next
  case (PageHasMimeType m)
  then show ?thesis using assms(1)
    by (auto simp: distilled_page_has_mime_type_def dcheck_bind_eq_Some split: option.splits)
next
  case (DistillerFinished html ims title)
  then obtain u where "distiller_callback env (d\<lparr>distilling := None\<rparr>) u html ims title = Some d'"
    using assms(1) by (auto split: option.splits)
  then have "known_tasks d' = known_tasks (d\<lparr>distilling := None\<rparr>)"
    using known_download_completion [of env "d\<lparr>distilling := None\<rparr>" u "[]" "[]" ERROR d']
    by (auto simp: distiller_callback_def fetch_pdf_file_def Let_def split: if_splits)
  then show ?thesis by simp
next
  case (URLLoadComplete path m)
  define x where "x = d\<lparr>fetching := None\<rparr>"
  obtain u where "on_url_load_complete env x u path m = Some d'"
    using assms(1) URLLoadComplete by (auto simp: x_def split: option.splits)
  then have "known_tasks d' = known_tasks x"
    using known_download_completion [of env x "original_url x" "[]"
        "offline_page_path env (original_url x) OFFLINE_TYPE_PDF" ERROR d']
    by (auto simp: on_url_load_complete_def dcheck_bind_eq_Some Let_def split: if_splits)
  then show ?thesis by (simp add: x_def)
next
  case CancelTask
  with assms show ?thesis by (auto simp: cancel_task_def)
qed

lemma downloader_step_ok:
  assumes "downloader_ok env d" and "event_allowed env d e"
  shows "\<exists>d'. downloader_step env d e = Some d' \<and> downloader_ok env d'"
proof -
  have ok: "flow_ok env d" "valid_downloads env d" using assms(1) by (simp_all add: downloader_ok_def)
  obtain d' where d': "downloader_step env d e = Some d'" "flow_ok env d'"
    using flow_step [OF ok assms(2)] by blast
  have "url_is_valid env u" if "(DOWNLOAD, u) \<in> known_tasks d'" for u
  proof -
    from that known_step [OF d'(1) ok(1)] consider "(DOWNLOAD, u) \<in> known_tasks d"
      | "(DOWNLOAD, u) \<in> requested_tasks e" by blast
    then show ?thesis
      using ok(2) assms(2) by cases (auto simp: known_tasks_def valid_downloads_def, cases e, auto)
  qed
  then have "valid_downloads env d'" by (simp add: valid_downloads_def known_tasks_def)
  with d' show ?thesis by (auto simp: downloader_ok_def)
qed

interpretation downloads: total_machine "downloader_step env" "event_allowed env" "downloader_ok env"
  for env :: "'fs downloader_env"
  by unfold_locales (use downloader_step_ok in fastforce)+


section \<open>Properties\<close>

text \<open>A file system that is a list of paths with their sizes, and an environment over it.\<close>

type_synonym disk = "(file_path \<times> int) list"

definition disk_ops :: "disk file_ops" where
  "disk_ops = \<lparr>
     path_exists = (\<lambda>fs p. p \<in> fst ` set fs),
     directory_exists = (\<lambda>fs p. p \<in> fst ` set fs),
     create_directory = (\<lambda>fs p. ((p, 0) # fs, True)),
     delete_recursively = (\<lambda>fs p. (filter (\<lambda>f. \<not> is_prefix p (fst f)) fs, True)),
     write_file = (\<lambda>fs p x. ((p, int (length x)) # fs, int (length x))),
     move_file = (\<lambda>fs p q. ((q, 9) # fs, True)),
     file_size = (\<lambda>fs p. case map_of fs p of None \<Rightarrow> 0 | Some n \<Rightarrow> n)\<rparr>"

definition disk_env :: "disk downloader_env" where
  "disk_env = \<lparr>
     fops = disk_ops,
     offline_directory_absolute_path = (\<lambda>u. ''/'' @ u),
     offline_page_path = (\<lambda>u t. u @ (case t of OFFLINE_TYPE_HTML \<Rightarrow> ''/p.html'' | OFFLINE_TYPE_PDF \<Rightarrow> ''/f.pdf'')),
     absolute_path_from_relative = (\<lambda>p. ''/'' @ p),
     append_path = (\<lambda>p n. p @ ''/'' @ n),
     md5_string = (\<lambda>s. ''m'' @ s),
     escape_for_html = (\<lambda>s. s),
     url_spec = (\<lambda>u. u),
     url_is_valid = (\<lambda>u. u \<noteq> []),
     scheme_is_data = (\<lambda>u. is_prefix ''data'' u),
     scheme_is_cryptographic = (\<lambda>u. is_prefix ''https'' u)\<rparr>"

text \<open>
  C2. From a new downloader, no sequence of requests for valid URLs, of cancelled requests, of
  runs of its tasks and of callbacks makes a check of the class, or of the viewer it creates,
  fail, as long as the pages distilled have no image (but data URLs) whose escaped URL is
  empty, see C33, and nobody calls \<open>CancelTask\<close> while the tracker or the distiller has a job
  (no code of the repository calls it, and \<open>cancel_task_wedges\<close> below says what it would do).
  The queue never stalls: while a task is waiting the downloader is working, and while
  it is working exactly one task, reply, distillation or load is outstanding for it; the
  completions reported are those of the tasks taken from the queue, in the order in which they
  were taken, all of them but the one in flight.
\<close>

theorem downloads_never_stall:
  assumes "legal (downloader_step env) (event_allowed env) (new_url_downloader fs) es d"
  shows "(event_allowed env d e \<longrightarrow> (\<exists>d'. downloader_step env d e = Some d'))
    \<and> (\<not> working d \<longrightarrow> tasks d = [] \<and> length (started d) = length (completions d))
    \<and> (working d \<longrightarrow> length (started d) = Suc (length (completions d))
        \<and> length (posted d) + length (replies d)
           + length (filter (\<lambda>p. p \<noteq> None) [distilling d, fetching d]) = 1)
    \<and> list_all2 completes (completions d) (take (length (completions d)) (started d))"
proof -
  have ok: "downloader_ok env d"
    using assms new_downloader_ok by (rule downloads.legal_inv)
  have 1: "event_allowed env d e \<longrightarrow> (\<exists>d'. downloader_step env d e = Some d')"
    using downloader_step_ok [OF ok] by blast
  from ok consider "busy env d" | "idle d" "tasks d = []" by (auto simp: downloader_ok_def flow_ok_def)
  then show ?thesis
  proof cases
    case 1
    then obtain ts t where t: "working d" "started d = ts @ [t]"
      "list_all2 completes (completions d) ts" "in_flight env d t" by (auto simp: busy_def)
    have "length (posted d) + length (replies d)
        + length (filter (\<lambda>p. p \<noteq> None) [distilling d, fetching d]) = 1"
      using t(4) by (cases rule: in_flight.cases) simp_all
    with t \<open>event_allowed env d e \<longrightarrow> _\<close> list_all2_lengthD [OF t(3)] show ?thesis by simp
  next
    case 2
    then have l: "list_all2 completes (completions d) (started d)" "\<not> working d"
      by (simp_all add: idle_def)
    with 2 \<open>event_allowed env d e \<longrightarrow> _\<close> list_all2_lengthD [OF l(1)] show ?thesis by simp
  qed
qed

text \<open>A page is downloaded, then removed, then downloaded again while the removal waits.\<close>

definition some_events :: "downloader_event list" where
  "some_events = [DownloadOfflineURL ''u'', RunPostedTask, RemoveOfflineURL ''u'', DownloadOfflineURL ''u'',
     RunPostedReply, PageHasMimeType ''text/html'',
     DistillerFinished ''<img src=a>'' [\<lparr>image_url = ''a'', image_data = ''xyz''\<rparr>] ''T'', RunPostedTask,
     RunPostedReply, RunPostedTask]"

theorem downloads_never_stall_witness:
  "working (the (run (downloader_step disk_env) (new_url_downloader []) some_events)) \<and>
   length (started (the (run (downloader_step disk_env) (new_url_downloader []) some_events))) = 2 \<and>
   list_all2 completes
     (completions (the (run (downloader_step disk_env) (new_url_downloader []) some_events)))
     [(DOWNLOAD, ''u'')]"
proof -
  define d where "d = the (run (downloader_step disk_env) (new_url_downloader []) some_events)"
  have "case run_checked (downloader_step disk_env) (event_allowed disk_env) (new_url_downloader []) some_events
      of None \<Rightarrow> False
      | Some e \<Rightarrow> working e \<and> length (completions e) = 1 \<and> take 1 (started e) = [(DOWNLOAD, ''u'')]"
    by code_simp
  then obtain e where e: "legal (downloader_step disk_env) (event_allowed disk_env) (new_url_downloader []) some_events e"
    "working e" "length (completions e) = 1" "take 1 (started e) = [(DOWNLOAD, ''u'')]"
    by (rule run_checked_witness) auto
  then have "d = e" using legal_run by (fastforce simp: d_def)
  with downloads_never_stall [OF e(1)] e show ?thesis unfolding d_def [symmetric] by auto
qed


lemma replace_empty_no_result:
  "replace_occurrences needle name h pos = Some r \<Longrightarrow> needle = [] \<Longrightarrow> name = [] \<Longrightarrow> pos = Some p \<Longrightarrow>
     p \<le> length h \<Longrightarrow> False"
proof (induction needle name h pos r rule: replace_occurrences.raw_induct [rotated, consumes 1])
  case (1 f needle name h pos r)
  have "find_first [] (drop p h) = Some 0" by (cases "drop p h") simp_all
  with 1 show ?case by (auto simp: string_replace_def string_find_def)
qed

lemma replace_empty_diverges: "p \<le> length html \<Longrightarrow> replace_occurrences [] [] html (Some p) = None"
  using replace_empty_no_result by fastforce

text \<open>Whether writing a file that is not empty always works.\<close>

definition writes_ok :: "'fs downloader_env \<Rightarrow> bool" where
  "writes_ok env \<longleftrightarrow> (\<forall>fs p x. x \<noteq> [] \<longrightarrow> 0 < snd (write_file (fops env) fs p x))"

lemma save_image_writes:
  "writes_ok env \<Longrightarrow> x \<noteq> [] \<Longrightarrow> save_image env d u im x = (e, n, ok) \<Longrightarrow> ok"
  by (auto simp: save_image_def writes_ok_def Let_def split: if_splits prod.splits)
    (metis leD snd_conv)+

definition empty_invalid_image :: "'fs downloader_env \<Rightarrow> image_info \<Rightarrow> bool" where
  "empty_invalid_image env im \<longleftrightarrow> \<not> scheme_is_data env (image_url im) \<and> \<not> url_is_valid env (image_url im)
     \<and> escape_for_html env (url_spec env (image_url im)) = []"

lemma replace_images_empty:
  assumes "im \<in> set ims" and "empty_invalid_image env im"
  shows "replace_images env u d html found ims = None
    \<or> \<not> writes_ok env \<and> (\<exists>e. replace_images env u d html found ims = Some (e, None))"
  using assms(1)
proof (induction ims arbitrary: d html found)
  case (Cons i js)
  show ?case
  proof (cases "empty_invalid_image env i")
    case True
    have "find_first [] html = Some 0" by (cases html) simp_all
    then have "string_find html [] 0 = Some 0" by (simp add: string_find_def)
    moreover have "replace_occurrences [] [] html (Some 0) = None"
      by (rule replace_empty_diverges) simp
    ultimately show ?thesis using True by (simp add: empty_invalid_image_def Let_def)
  next
    case False
    then have "im \<in> set js" using Cons.prems assms(2) by auto
    note IH = Cons.IH [OF this]
    show ?thesis
    proof (cases "scheme_is_data env (image_url i)")
      case True
      with IH show ?thesis by simp
    next
      case notdata: False
      define saved where "saved =
        (if \<not> (scheme_is_cryptographic env (distilled_url d) \<and> \<not> scheme_is_cryptographic env (image_url i))
            \<and> url_is_valid env (image_url i) \<and> image_data i \<noteq> []
         then save_image env d u (image_url i) (image_data i) else (d, [], True))"
      obtain d1 name ok where s: "saved = (d1, name, ok)" by (cases saved)
      have step: "replace_images env u d html found (i # js) =
        (if \<not> ok then Some (d1, None)
         else case replace_occurrences (escape_for_html env (url_spec env (image_url i))) name html
             (string_find html (escape_for_html env (url_spec env (image_url i))) 0) of
           None \<Rightarrow> None
         | Some html1 \<Rightarrow> replace_images env u d1 html1
             (found \<or> string_find html (escape_for_html env (url_spec env (image_url i))) 0 \<noteq> None) js)"
        by (simp only: replace_images.simps Let_def notdata if_False saved_def [symmetric] s prod.case)
      have "\<not> ok \<Longrightarrow> \<not> writes_ok env"
        using s save_image_writes by (auto simp: saved_def split: if_splits)
      then show ?thesis unfolding step using IH by (simp split: option.split)
    qed
  qed
qed simp

text \<open>
  C33. A page that refers anywhere among its images to one whose URL is not valid, so that its
  spec is empty, is never saved: once the directory is created and while the images before it
  can be written, the replacement loop finds the empty string at the same position for ever;
  otherwise the saving ends with an error.
\<close>

theorem invalid_image_url_hangs:
  assumes "im \<in> set ims" and "\<not> scheme_is_data env (image_url im)" and "\<not> url_is_valid env (image_url im)"
    and "escape_for_html env (url_spec env (image_url im)) = []"
  shows "(save_distilled_html env d u ims html = None
      \<or> (\<exists>e. save_distilled_html env d u ims html = Some (e, ERROR)))
    \<and> (writes_ok env \<and> snd (create_offline_url_directory env d u)
        \<longrightarrow> save_distilled_html env d u ims html = None)"
proof -
  obtain e ok where e: "create_offline_url_directory env d u = (e, ok)"
    by (cases "create_offline_url_directory env d u")
  have "empty_invalid_image env im" using assms(2-4) by (simp add: empty_invalid_image_def)
  from replace_images_empty [OF assms(1) this, of u e html False] e show ?thesis
    by (auto simp: save_distilled_html_def save_and_replace_images_in_html_def save_html_for_url_def)
qed

theorem invalid_image_url_hangs_witness:
  "save_distilled_html disk_env (new_url_downloader []) ''u''
     [\<lparr>image_url = ''a'', image_data = ''x''\<rparr>, \<lparr>image_url = [], image_data = ''x''\<rparr>] ''<p>'' = None"
  by (rule invalid_image_url_hangs [where im = "\<lparr>image_url = [], image_data = ''x''\<rparr>", THEN conjunct2, rule_format])
    (simp_all add: disk_env_def disk_ops_def create_offline_url_directory_def new_url_downloader_def writes_ok_def)

text \<open>
  When a PDF was redirected and saved, the success is reported under the final URL, not
  under the URL that was asked for: \<open>OnURLLoadComplete\<close> passes the URL bound to the loader.
\<close>

theorem redirected_pdf_reported_under_final_url:
  assumes "distilling d = Some u" and "original_url d = u" and "posted d = []" and "replies d = []"
    and "working d" and "tasks d = []" and "v \<noteq> u" and "url_is_valid env v" and "tmp \<noteq> []"
    and "\<And>e. snd (save_pdf_file env e tmp) = DOWNLOAD_SUCCESS"
  shows "\<exists>d'. run (downloader_step env) d
      [PageRedirected v, PageHasMimeType pdf_mime_type, DistillerFinished [] [] [],
       URLLoadComplete tmp (Some pdf_mime_type), RunPostedTask, RunPostedReply] = Some d'
    \<and> (\<exists>size. completions d' = completions d @
        [DownloadDone v v DOWNLOAD_SUCCESS (offline_page_path env u OFFLINE_TYPE_PDF) size []])
    \<and> tasks d' = [] \<and> \<not> working d'"
proof -
  define path where "path = offline_page_path env u OFFLINE_TYPE_PDF"
  define e where "e = d\<lparr>distilled_url := v, mime_type := pdf_mime_type, distilling := None,
    url_loader := True, fetching := None, posted := [], url_loader := False\<rparr>"
  obtain g where g: "save_pdf_file env e tmp = (g, DOWNLOAD_SUCCESS)"
    using assms(10) [of e] by (metis prod.collapse)
  note same = same_but_files_fields [OF save_pdf_file_same [OF g], unfolded e_def, simplified]
  have 1: "run (downloader_step env) d
      [PageRedirected v, PageHasMimeType pdf_mime_type, DistillerFinished [] [] [],
       URLLoadComplete tmp (Some pdf_mime_type)] =
    Some (e\<lparr>posted := [SavePDFThenComplete v tmp path]\<rparr>)"
    using assms by (simp add: distilled_page_redirected_to_url_def distilled_page_has_mime_type_def
        distiller_callback_def fetch_pdf_file_def on_url_load_complete_def post_task_def path_def e_def)
  have 2: "downloader_step env (e\<lparr>posted := [SavePDFThenComplete v tmp path]\<rparr>) RunPostedTask =
      Some (g\<lparr>replies := [DownloadCompletionReply v [] path DOWNLOAD_SUCCESS]\<rparr>)"
  proof -
    have "e\<lparr>posted := []\<rparr> = e" "replies e = []" using assms(4) by (simp_all add: e_def)
    then show ?thesis using g same(5) assms(4) by simp
  qed
  have 3: "downloader_step env (g\<lparr>replies := [DownloadCompletionReply v [] path DOWNLOAD_SUCCESS]\<rparr>)
      RunPostedReply = Some (g\<lparr>replies := [], completions := completions d @
        [DownloadDone v v DOWNLOAD_SUCCESS path (saved_size g) []],
        distiller := False, distilling := None, working := False\<rparr>)"
    using same assms(5,6) by (simp add: download_completion_handler_def post_delete_def handle_next_task_def)
  have "run (downloader_step env) d
      ([PageRedirected v, PageHasMimeType pdf_mime_type, DistillerFinished [] [] [],
       URLLoadComplete tmp (Some pdf_mime_type)] @ [RunPostedTask, RunPostedReply]) =
    Some (g\<lparr>replies := [], completions := completions d @
        [DownloadDone v v DOWNLOAD_SUCCESS path (saved_size g) []],
        distiller := False, distilling := None, working := False\<rparr>)"
    by (simp only: run_append 1 option.case) (simp only: run.simps 2 3 option.case)
  then show ?thesis using same(1) assms(6) by (simp only: append.simps path_def) simp
qed

theorem redirected_pdf_reported_under_final_url_witness:
  "\<exists>d'. run (downloader_step disk_env)
      ((new_url_downloader [])\<lparr>working := True, distiller := True, original_url := ''u'',
         distilling := Some ''u''\<rparr>)
      [PageRedirected ''v'', PageHasMimeType pdf_mime_type, DistillerFinished [] [] [],
       URLLoadComplete ''t'' (Some pdf_mime_type), RunPostedTask, RunPostedReply] = Some d'
    \<and> (\<exists>size. completions d' = [DownloadDone ''v'' ''v'' DOWNLOAD_SUCCESS ''u/f.pdf'' size []])"
proof -
  have "snd (save_pdf_file disk_env e ''t'') = DOWNLOAD_SUCCESS" for e
    by (auto simp: save_pdf_file_def create_offline_url_directory_def disk_env_def disk_ops_def Let_def)
  from redirected_pdf_reported_under_final_url [OF _ _ _ _ _ _ _ _ _ this, where v = "''v''" and
      d = "(new_url_downloader [])\<lparr>working := True, distiller := True, original_url := ''u'',
         distilling := Some ''u''\<rparr>"] show ?thesis
    by (force simp: new_url_downloader_def disk_env_def)
qed

text \<open>
  After \<open>CancelTask\<close> while a deletion or a distillation is outstanding the downloader
  keeps accepting requests and never starts, or completes, another one: \<open>working_\<close> stays set
  and the callback that would clear it has been cancelled.
\<close>

lemma cancelled_step:
  assumes "working d" "posted d = []" "replies d = []" "distilling d = None" "fetching d = None"
    and "event_allowed env d e" and "downloader_step env d e = Some d'"
  shows "working d' \<and> posted d' = [] \<and> replies d' = [] \<and> distilling d' = None \<and> fetching d' = None
    \<and> completions d' = completions d \<and> started d' = started d"
  using assms
  by (cases e) (auto simp: download_offline_url_def remove_offline_url_def handle_next_task_def
      cancel_download_offline_url_def cancel_task_def split: if_splits)

lemma cancelled_run:
  assumes "legal (downloader_step env) (event_allowed env) d es d'"
    and "working d" "posted d = []" "replies d = []" "distilling d = None" "fetching d = None"
  shows "working d' \<and> completions d' = completions d \<and> started d' = started d"
  using assms
proof (induction rule: legal.induct)
  case (legal_Cons d e d1 es d2)
  from cancelled_step [OF legal_Cons.prems legal_Cons.hyps(1,2)] legal_Cons.IH show ?case by simp
qed simp

theorem cancel_task_wedges:
  assumes "working d" and "fetching d = None"
    and "legal (downloader_step env) (event_allowed env) (cancel_task d) es d'"
  shows "working d' \<and> completions d' = completions d \<and> started d' = started d"
  using cancelled_run [OF assms(3)] assms(1,2) by (simp add: cancel_task_def)

theorem cancel_task_wedges_witness:
  "working (the (run (downloader_step disk_env)
     (cancel_task (the (remove_offline_url disk_env (new_url_downloader []) ''u'')))
     [DownloadOfflineURL ''v'', DownloadOfflineURL ''w'']))"
proof -
  define d where "d = the (remove_offline_url disk_env (new_url_downloader []) ''u'')"
  have d: "working d" "fetching d = None"
    unfolding d_def by code_simp+
  have "case run_checked (downloader_step disk_env) (event_allowed disk_env) (cancel_task d)
      [DownloadOfflineURL ''v'', DownloadOfflineURL ''w''] of None \<Rightarrow> False | Some e \<Rightarrow> True"
    unfolding d_def by code_simp
  then obtain e where e: "legal (downloader_step disk_env) (event_allowed disk_env) (cancel_task d)
      [DownloadOfflineURL ''v'', DownloadOfflineURL ''w''] e" by (rule run_checked_witness)
  from cancel_task_wedges [OF d e] legal_run [OF e] show ?thesis
    unfolding d_def [symmetric] by simp
qed


end
