(* ===== verification/ReadingListDownload.thy ===== *)
theory ReadingListDownload
  imports UrlDownloaderFacts "HOL-Library.Char_ord" "HOL-Library.List_Lexorder"
begin

text \<open>
  The service that keeps offline copies of the reading list:
  \<open>chrome/browser/reading_list/reading_list_download_service.{h,cc}\<close>, on top of the download
  queue of theory \<open>UrlDownloader\<close>.

  The reading list model is a component outside the repository: a value of type \<open>'m\<close> with
  the operations of \<open>model_ops\<close>. \<open>delayed\<close> holds the calls of \<open>DownloadEntry\<close> posted with a
  delay, \<open>clean_ups\<close> the clean-up tasks posted by \<open>SyncWithModel\<close> with the set their reply
  receives, and \<open>uma\<close> the samples recorded in the download histograms. What the network
  tracker answers is the argument \<open>net\<close>.
\<close>

section \<open>The reading list model and the network\<close>

datatype distillation_state = WAITING | PROCESSING | PROCESSED | WILL_RETRY | DISTILLATION_ERROR

record reading_list_entry =
  entry_url :: gurl
  distilled_state :: distillation_state
  failed_download_counter :: int
  is_read :: bool
  time_until_next_try :: int

record 'm model_ops =
  get_entry_by_url :: "'m \<Rightarrow> gurl \<Rightarrow> reading_list_entry option"
  set_entry_distilled_state :: "'m \<Rightarrow> gurl \<Rightarrow> distillation_state \<Rightarrow> 'm"
  set_entry_distilled_info :: "'m \<Rightarrow> gurl \<Rightarrow> file_path \<Rightarrow> gurl \<Rightarrow> int \<Rightarrow> int \<Rightarrow> 'm"
  set_entry_title :: "'m \<Rightarrow> gurl \<Rightarrow> string \<Rightarrow> 'm"
  model_keys :: "'m \<Rightarrow> gurl list"
  model_loaded :: "'m \<Rightarrow> bool"

datatype connection_type = CONNECTION_UNKNOWN | CONNECTION_ETHERNET | CONNECTION_WIFI
  | CONNECTION_2G | CONNECTION_3G | CONNECTION_4G | CONNECTION_NONE | CONNECTION_BLUETOOTH

record network =
  is_offline :: bool
  known_connection_type :: "connection_type option"

text \<open>Strings, the directories of the offline root, and the clock.\<close>

record 'fs service_env =
  denv :: "'fs downloader_env"
  offline_root :: file_path
  offline_url_directory_id :: "gurl \<Rightarrow> string"
  sub_directories :: "'fs \<Rightarrow> file_path \<Rightarrow> string list"
  collapse_whitespace :: "string \<Rightarrow> string"
  time_now :: int

section \<open>The service\<close>

datatype uma_download_status = SUCCESS | FAILURE | RETRY

datatype uma_sample =
    DownloadStatus uma_download_status
  | DownloadFailures int

definition kNumberOfFailsBeforeWifiOnly :: int where "kNumberOfFailsBeforeWifiOnly = 5"
definition kNumberOfFailsBeforeStop :: int where "kNumberOfFailsBeforeStop = 7"

record ('m, 'fs) download_service =
  rl_model :: 'm
  downloader :: "'fs url_downloader"
  url_to_download_cellular :: "gurl list"
  url_to_download_wifi :: "gurl list"
  had_connection :: bool
  observing :: bool
  retained_web_states :: bool
  delayed :: "(gurl \<times> int) list"
  clean_ups :: "(string list \<times> gurl list) list"
  uma :: "uma_sample list"

definition new_download_service :: "'m \<Rightarrow> 'fs \<Rightarrow> network \<Rightarrow> ('m, 'fs) download_service" where
  "new_download_service m fs net = \<lparr>rl_model = m, downloader = new_url_downloader fs,
     url_to_download_cellular = [], url_to_download_wifi = [],
     had_connection = (\<not> is_offline net), observing = False, retained_web_states = True,
     delayed = [], clean_ups = [], uma = []\<rparr>"

definition initialize :: "('m, 'fs) download_service \<Rightarrow> ('m, 'fs) download_service" where
  "initialize s = s\<lparr>observing := True\<rparr>"

definition shutdown :: "('m, 'fs) download_service \<Rightarrow> ('m, 'fs) download_service" where
  "shutdown s = s\<lparr>observing := False\<rparr>"

definition clear :: "('m, 'fs) download_service \<Rightarrow> ('m, 'fs) download_service" where
  "clear s = s\<lparr>retained_web_states := False\<rparr>"

definition clean_up_files :: "'fs service_env \<Rightarrow> 'fs \<Rightarrow> string list \<Rightarrow> 'fs" where
  "clean_up_files env fs processed_directories =
     fold (\<lambda>name fs. if name \<notin> set processed_directories
             then fst (delete_recursively (fops (denv env)) fs
                         (append_path (denv env) (offline_root env) name))
             else fs)
       (sub_directories env fs (offline_root env)) fs"

text \<open>The early return shared by \<open>ScheduleDownloadEntry\<close> and \<open>DownloadEntry\<close>.\<close>

definition not_to_download :: "reading_list_entry \<Rightarrow> bool" where
  "not_to_download e = (distilled_state e = DISTILLATION_ERROR \<or> distilled_state e = PROCESSED
     \<or> is_read e)"

definition schedule_download_entry ::
  "'m model_ops \<Rightarrow> ('m, 'fs) download_service \<Rightarrow> gurl \<Rightarrow> ('m, 'fs) download_service option" where
  "schedule_download_entry ops s url = do {
     dcheck (model_loaded ops (rl_model s));
     Some (case get_entry_by_url ops (rl_model s) url of
         None \<Rightarrow> s
       | Some e \<Rightarrow> if not_to_download e then s
                   else s\<lparr>delayed := delayed s @ [(url, time_until_next_try e)]\<rparr>)
   }"

fun schedule_all ::
  "'m model_ops \<Rightarrow> ('m, 'fs) download_service \<Rightarrow> gurl list \<Rightarrow> ('m, 'fs) download_service option" where
  "schedule_all ops s [] = Some s"
| "schedule_all ops s (url # urls) = do {
     s1 \<leftarrow> schedule_download_entry ops s url;
     schedule_all ops s1 urls
   }"

definition download_unprocessed_entries ::
  "'m model_ops \<Rightarrow> ('m, 'fs) download_service \<Rightarrow> gurl list \<Rightarrow> ('m, 'fs) download_service option" where
  "download_unprocessed_entries ops s unprocessed_entries = schedule_all ops s unprocessed_entries"

definition process_new_entry ::
  "'m model_ops \<Rightarrow> ('m, 'fs) download_service \<Rightarrow> gurl \<Rightarrow> ('m, 'fs) download_service option" where
  "process_new_entry ops s url =
     (case get_entry_by_url ops (rl_model s) url of
        None \<Rightarrow> Some (s\<lparr>downloader := cancel_download_offline_url (downloader s) url\<rparr>)
      | Some e \<Rightarrow>
          if is_read e
          then Some (s\<lparr>downloader := cancel_download_offline_url (downloader s) url\<rparr>)
          else schedule_download_entry ops s url)"

text \<open>\<open>std::set\<close> iterates in order and without duplicates.\<close>

definition std_set :: "string list \<Rightarrow> string list" where
  "std_set xs = sort (remdups xs)"

fun split_entries ::
  "'m model_ops \<Rightarrow> 'fs service_env \<Rightarrow> 'm \<Rightarrow> gurl list \<Rightarrow> (string list \<times> gurl list) option" where
  "split_entries ops env m [] = Some ([], [])"
| "split_entries ops env m (url # urls) = do {
     e \<leftarrow> get_entry_by_url ops m url;
     (processed, unprocessed) \<leftarrow> split_entries ops env m urls;
     Some (case distilled_state e of
         PROCESSED \<Rightarrow> (offline_url_directory_id env url # processed, unprocessed)
       | WAITING \<Rightarrow> (processed, url # unprocessed)
       | PROCESSING \<Rightarrow> (processed, url # unprocessed)
       | WILL_RETRY \<Rightarrow> (processed, url # unprocessed)
       | DISTILLATION_ERROR \<Rightarrow> (processed, unprocessed))
   }"

definition sync_with_model ::
  "'m model_ops \<Rightarrow> 'fs service_env \<Rightarrow> ('m, 'fs) download_service \<Rightarrow> ('m, 'fs) download_service option" where
  "sync_with_model ops env s = do {
     dcheck (model_loaded ops (rl_model s));
     (processed, unprocessed) \<leftarrow> split_entries ops env (rl_model s) (model_keys ops (rl_model s));
     Some (s\<lparr>clean_ups := clean_ups s @ [(std_set processed, std_set unprocessed)]\<rparr>)
   }"

definition start_download ::
  "'m model_ops \<Rightarrow> 'fs service_env \<Rightarrow> ('m, 'fs) download_service \<Rightarrow> reading_list_entry
     \<Rightarrow> ('m, 'fs) download_service option" where
  "start_download ops env s e = do {
     let s1 = s\<lparr>rl_model := set_entry_distilled_state ops (rl_model s) (entry_url e) PROCESSING\<rparr>;
     d \<leftarrow> download_offline_url (denv env) (downloader s1) (entry_url e);
     Some (s1\<lparr>downloader := d\<rparr>)
   }"

definition get_connection_type :: "network \<Rightarrow> connection_type" where
  "get_connection_type net =
     (case known_connection_type net of None \<Rightarrow> CONNECTION_UNKNOWN | Some t \<Rightarrow> t)"

definition download_entry ::
  "'m model_ops \<Rightarrow> 'fs service_env \<Rightarrow> network \<Rightarrow> ('m, 'fs) download_service \<Rightarrow> gurl
     \<Rightarrow> ('m, 'fs) download_service option" where
  "download_entry ops env net s url = do {
     dcheck (model_loaded ops (rl_model s));
     (case get_entry_by_url ops (rl_model s) url of
        None \<Rightarrow> Some s
      | Some e \<Rightarrow>
          if not_to_download e then Some s
          else if is_offline net then
            let s1 = (if failed_download_counter e < kNumberOfFailsBeforeWifiOnly
                      then s\<lparr>url_to_download_cellular := url_to_download_cellular s @ [entry_url e]\<rparr>
                      else s)
            in Some (if failed_download_counter e < kNumberOfFailsBeforeStop
                     then s1\<lparr>url_to_download_wifi := url_to_download_wifi s1 @ [entry_url e]\<rparr>
                     else s1)
          else if failed_download_counter e < kNumberOfFailsBeforeWifiOnly
          then start_download ops env s e
          else if failed_download_counter e < kNumberOfFailsBeforeStop then
            if get_connection_type net = CONNECTION_WIFI then start_download ops env s e
            else Some (s\<lparr>url_to_download_wifi := url_to_download_wifi s @ [entry_url e]\<rparr>)
          else Some s)
   }"

definition remove_downloaded_entry ::
  "'m model_ops \<Rightarrow> 'fs service_env \<Rightarrow> ('m, 'fs) download_service \<Rightarrow> gurl
     \<Rightarrow> ('m, 'fs) download_service option" where
  "remove_downloaded_entry ops env s url = do {
     dcheck (model_loaded ops (rl_model s));
     d \<leftarrow> remove_offline_url (denv env) (downloader s) url;
     Some (s\<lparr>downloader := d\<rparr>)
   }"

definition on_download_end ::
  "'m model_ops \<Rightarrow> 'fs service_env \<Rightarrow> ('m, 'fs) download_service \<Rightarrow> gurl \<Rightarrow> gurl \<Rightarrow> success_state
     \<Rightarrow> file_path \<Rightarrow> int \<Rightarrow> string \<Rightarrow> ('m, 'fs) download_service option" where
  "on_download_end ops env s url distilled success distilled_path sz title = do {
     dcheck (model_loaded ops (rl_model s));
     let real_success_value = (if distilled_path = [] then ERROR else success);
     if real_success_value = ERROR then
       (case get_entry_by_url ops (rl_model s) url of
          Some e \<Rightarrow>
            if failed_download_counter e + 1 < kNumberOfFailsBeforeStop then do {
              let s1 = s\<lparr>rl_model := set_entry_distilled_state ops (rl_model s) url WILL_RETRY\<rparr>;
              s2 \<leftarrow> schedule_download_entry ops s1 url;
              Some (s2\<lparr>uma := uma s2 @ [DownloadStatus RETRY]\<rparr>)
            }
            else Some (s\<lparr>rl_model := set_entry_distilled_state ops (rl_model s) url DISTILLATION_ERROR,
                         uma := uma s @ [DownloadStatus FAILURE]\<rparr>)
        | None \<Rightarrow> Some (s\<lparr>rl_model := set_entry_distilled_state ops (rl_model s) url DISTILLATION_ERROR,
                          uma := uma s @ [DownloadStatus FAILURE]\<rparr>))
     else do {
       let m1 = set_entry_distilled_info ops (rl_model s) url distilled_path distilled sz (time_now env);
       let trimmed_title = collapse_whitespace env title;
       let m2 = (if trimmed_title \<noteq> [] then set_entry_title ops m1 url trimmed_title else m1);
       let samples = (case get_entry_by_url ops m2 url of
                        None \<Rightarrow> [] | Some e \<Rightarrow> [DownloadFailures (failed_download_counter e)]);
       Some (s\<lparr>rl_model := m2, uma := uma s @ samples @ [DownloadStatus SUCCESS]\<rparr>)
     }
   }"

definition on_delete_end :: "('m, 'fs) download_service \<Rightarrow> gurl \<Rightarrow> bool \<Rightarrow> ('m, 'fs) download_service" where
  "on_delete_end s url ok = s"

definition on_connection_changed ::
  "'m model_ops \<Rightarrow> ('m, 'fs) download_service \<Rightarrow> connection_type \<Rightarrow> ('m, 'fs) download_service option" where
  "on_connection_changed ops s t =
     (if t = CONNECTION_NONE then Some (s\<lparr>had_connection := False\<rparr>)
      else do {
        s1 \<leftarrow> (if \<not> had_connection s
               then schedule_all ops (s\<lparr>had_connection := True\<rparr>) (url_to_download_cellular s)
               else Some s);
        if t = CONNECTION_WIFI then schedule_all ops s1 (url_to_download_wifi s1) else Some s1
      })"

section \<open>Events\<close>

text \<open>The delayed calls fire in the order of their delays: the event names the one that does.\<close>

text \<open>The client callbacks the downloader makes during one of its events, in order.\<close>

fun deliver ::
  "'m model_ops \<Rightarrow> 'fs service_env \<Rightarrow> ('m, 'fs) download_service \<Rightarrow> completion list
     \<Rightarrow> ('m, 'fs) download_service option" where
  "deliver ops env s [] = Some s"
| "deliver ops env s (DownloadDone url final success path sz title # cs) = do {
     s1 \<leftarrow> on_download_end ops env s url final success path sz title;
     deliver ops env s1 cs
   }"
| "deliver ops env s (DeleteDone url ok # cs) = deliver ops env (on_delete_end s url ok) cs"

text \<open>
  \<open>ModelChanged\<close> stands for whatever else changes the reading list: the user, sync, or the
  model when it has loaded its entries.
\<close>

datatype 'm service_event =
    ModelChanged 'm
  | ReadingListModelLoaded
  | ReadingListWillRemoveEntry gurl
  | ReadingListDidAddEntry gurl
  | ReadingListDidMoveEntry gurl
  | OnConnectionChanged connection_type
  | DelayedDownload nat network
  | CleanUpDone
  | DownloaderEvent downloader_event

fun service_step ::
  "'m model_ops \<Rightarrow> 'fs service_env \<Rightarrow> ('m, 'fs) download_service \<Rightarrow> 'm service_event
     \<Rightarrow> ('m, 'fs) download_service option" where
  "service_step ops env s (ModelChanged m) = Some (s\<lparr>rl_model := m\<rparr>)"
| "service_step ops env s ReadingListModelLoaded = sync_with_model ops env s"
| "service_step ops env s (ReadingListWillRemoveEntry url) = do {
     dcheck (get_entry_by_url ops (rl_model s) url \<noteq> None);
     remove_downloaded_entry ops env s url
   }"
| "service_step ops env s (ReadingListDidAddEntry url) = process_new_entry ops s url"
| "service_step ops env s (ReadingListDidMoveEntry url) = process_new_entry ops s url"
| "service_step ops env s (OnConnectionChanged t) = on_connection_changed ops s t"
| "service_step ops env s (DelayedDownload i net) =
     (if i < length (delayed s)
      then download_entry ops env net (s\<lparr>delayed := vector_erase i (delayed s)\<rparr>) (fst (delayed s ! i))
      else None)"
| "service_step ops env s CleanUpDone =
     (case clean_ups s of
        [] \<Rightarrow> None
      | (processed, unprocessed) # rest \<Rightarrow>
          let d = downloader s;
              s1 = s\<lparr>clean_ups := rest,
                     downloader := d\<lparr>files := clean_up_files env (files d) processed\<rparr>\<rparr>
          in download_unprocessed_entries ops s1 unprocessed)"
| "service_step ops env s (DownloaderEvent e) = do {
     d \<leftarrow> downloader_step (denv env) (downloader s) e;
     deliver ops env (s\<lparr>downloader := d\<rparr>) (drop (length (completions (downloader s))) (completions d))
   }"

end
