(* ===== verification/ReadingListDownloadFacts.thy ===== *)
theory ReadingListDownloadFacts
  imports ReadingListDownload
begin

text \<open>
  The download service never makes a check fail while its model is loaded, gives up on an
  entry after seven failures, and synchronises the offline directory with the model. The
  last two properties are what the code does where it departs from its comments.
\<close>

section \<open>What is expected of the reading list model\<close>

definition model_laws :: "'m model_ops \<Rightarrow> bool" where
  "model_laws ops \<longleftrightarrow>
     (\<forall>m u st. model_loaded ops m \<longrightarrow> model_loaded ops (set_entry_distilled_state ops m u st))
   \<and> (\<forall>m u p v n t. model_loaded ops m \<longrightarrow> model_loaded ops (set_entry_distilled_info ops m u p v n t))
   \<and> (\<forall>m u t. model_loaded ops m \<longrightarrow> model_loaded ops (set_entry_title ops m u t))
   \<and> (\<forall>m u. u \<in> set (model_keys ops m) \<longrightarrow> get_entry_by_url ops m u \<noteq> None)
   \<and> (\<forall>m u st e. get_entry_by_url ops m u = Some e \<longrightarrow>
        (\<exists>e'. get_entry_by_url ops (set_entry_distilled_state ops m u st) u = Some e'
          \<and> distilled_state e' = st \<and> is_read e' = is_read e \<and> entry_url e' = entry_url e
          \<and> failed_download_counter e' = failed_download_counter e
              + (if st = WILL_RETRY \<or> st = DISTILLATION_ERROR then 1 else 0)))"

lemma model_laws_loaded:
  assumes "model_laws ops" and "model_loaded ops m"
  shows "model_loaded ops (set_entry_distilled_state ops m u st)"
    "model_loaded ops (set_entry_distilled_info ops m u p v n t)"
    "model_loaded ops (set_entry_title ops m u x)"
  using assms by (simp_all add: model_laws_def)

lemma model_laws_keys: "model_laws ops \<Longrightarrow> u \<in> set (model_keys ops m) \<Longrightarrow> get_entry_by_url ops m u \<noteq> None"
  by (simp add: model_laws_def)

lemma model_laws_set_state:
  assumes "model_laws ops" and "get_entry_by_url ops m u = Some e"
  obtains e' where "get_entry_by_url ops (set_entry_distilled_state ops m u st) u = Some e'"
    "distilled_state e' = st" "is_read e' = is_read e" "entry_url e' = entry_url e"
    "failed_download_counter e' = failed_download_counter e
       + (if st = WILL_RETRY \<or> st = DISTILLATION_ERROR then 1 else 0)"
proof -
  from assms(1) have "\<forall>m u st e. get_entry_by_url ops m u = Some e \<longrightarrow>
        (\<exists>e'. get_entry_by_url ops (set_entry_distilled_state ops m u st) u = Some e'
          \<and> distilled_state e' = st \<and> is_read e' = is_read e \<and> entry_url e' = entry_url e
          \<and> failed_download_counter e' = failed_download_counter e
              + (if st = WILL_RETRY \<or> st = DISTILLATION_ERROR then 1 else 0))"
    unfolding model_laws_def by (elim conjE)
  from this [rule_format, OF assms(2), of st] that show ?thesis by (elim exE conjE)
qed

text \<open>The model refuses entries whose URL is not valid.\<close>

definition valid_entry_urls :: "'m model_ops \<Rightarrow> 'fs service_env \<Rightarrow> bool" where
  "valid_entry_urls ops env \<longleftrightarrow>
     (\<forall>m u e. get_entry_by_url ops m u = Some e \<longrightarrow> url_is_valid (denv env) (entry_url e))"

text \<open>A reading list kept as a list of entries, where entries without a URL do not count.\<close>

type_synonym entry_list = "reading_list_entry list"

definition change_entry :: "(reading_list_entry \<Rightarrow> reading_list_entry) \<Rightarrow> gurl \<Rightarrow> entry_list \<Rightarrow> entry_list" where
  "change_entry f u = map (\<lambda>e. if entry_url e = u then f e else e)"

definition list_model :: "entry_list model_ops" where
  "list_model = \<lparr>
     get_entry_by_url = (\<lambda>m u. if u = [] then None else find (\<lambda>e. entry_url e = u) m),
     set_entry_distilled_state = (\<lambda>m u st. change_entry (\<lambda>e. e\<lparr>distilled_state := st,
        failed_download_counter := failed_download_counter e
          + (if st = WILL_RETRY \<or> st = DISTILLATION_ERROR then 1 else 0)\<rparr>) u m),
     set_entry_distilled_info = (\<lambda>m u p v n t. change_entry (\<lambda>e. e\<lparr>distilled_state := PROCESSED,
        failed_download_counter := 0\<rparr>) u m),
     set_entry_title = (\<lambda>m u t. m),
     model_keys = (\<lambda>m. filter (\<lambda>u. u \<noteq> []) (map entry_url m)),
     model_loaded = (\<lambda>m. True)\<rparr>"

lemma find_change_entry:
  assumes "\<And>e. entry_url (f e) = entry_url e" and "find (\<lambda>e. entry_url e = u) m = Some e"
  shows "find (\<lambda>e. entry_url e = u) (change_entry f u m) = Some (f e)"
  using assms(2) by (induction m) (auto simp: change_entry_def assms(1) split: if_splits)

lemma list_model_laws: "model_laws list_model"
  unfolding model_laws_def list_model_def
  by (auto simp: find_change_entry find_None_iff)


section \<open>The invariant\<close>

definition service_ok ::
  "'m model_ops \<Rightarrow> 'fs service_env \<Rightarrow> ('m, 'fs) download_service \<Rightarrow> bool" where
  "service_ok ops env s \<longleftrightarrow> model_laws ops \<and> model_loaded ops (rl_model s)
     \<and> valid_entry_urls ops env \<and> downloader_ok (denv env) (downloader s)"

text \<open>
  Before the model is loaded the service has nothing to do: the tracker of the network calls,
  but no URL waits for a connection.
\<close>

definition service_waits ::
  "'m model_ops \<Rightarrow> 'fs service_env \<Rightarrow> ('m, 'fs) download_service \<Rightarrow> bool" where
  "service_waits ops env s \<longleftrightarrow> model_laws ops \<and> \<not> model_loaded ops (rl_model s)
     \<and> valid_entry_urls ops env \<and> downloader_ok (denv env) (downloader s)
     \<and> url_to_download_cellular s = [] \<and> url_to_download_wifi s = []
     \<and> delayed s = [] \<and> clean_ups s = [] \<and> idle (downloader s)"

definition service_inv ::
  "'m model_ops \<Rightarrow> 'fs service_env \<Rightarrow> ('m, 'fs) download_service \<Rightarrow> bool" where
  "service_inv ops env s \<longleftrightarrow> service_ok ops env s \<or> service_waits ops env s"

text \<open>
  A model that is loaded stays loaded, and a model that is not yet loaded makes no
  notification of its entries. The downloader is asked for downloads by the service only.
\<close>

fun service_event_allowed ::
  "'m model_ops \<Rightarrow> 'fs service_env \<Rightarrow> ('m, 'fs) download_service \<Rightarrow> 'm service_event \<Rightarrow> bool" where
  "service_event_allowed ops env s (ModelChanged m) =
     (model_loaded ops (rl_model s) \<longrightarrow> model_loaded ops m)"
| "service_event_allowed ops env s ReadingListModelLoaded = model_loaded ops (rl_model s)"
| "service_event_allowed ops env s (ReadingListWillRemoveEntry u) =
     (model_loaded ops (rl_model s) \<and> get_entry_by_url ops (rl_model s) u \<noteq> None)"
| "service_event_allowed ops env s (ReadingListDidAddEntry u) = model_loaded ops (rl_model s)"
| "service_event_allowed ops env s (ReadingListDidMoveEntry u) = model_loaded ops (rl_model s)"
| "service_event_allowed ops env s (OnConnectionChanged t) = True"
| "service_event_allowed ops env s (DelayedDownload i net) = (i < length (delayed s))"
| "service_event_allowed ops env s CleanUpDone = (clean_ups s \<noteq> [])"
| "service_event_allowed ops env s (DownloaderEvent e) =
     (event_allowed (denv env) (downloader s) e \<and> requested_tasks e = {})"

lemma schedule_ok:
  assumes "model_loaded ops (rl_model s)"
  obtains ds where "schedule_download_entry ops s u = Some (s\<lparr>delayed := delayed s @ ds\<rparr>)"
proof (cases "get_entry_by_url ops (rl_model s) u")
  case None
  then show ?thesis using assms that [of "[]"] by (simp add: schedule_download_entry_def)
next
  case (Some e)
  then show ?thesis
    using assms that [of "[]"] that [of "[(u, time_until_next_try e)]"]
    by (cases "not_to_download e") (simp_all add: schedule_download_entry_def)
qed

lemma schedule_all_ok:
  assumes "model_loaded ops (rl_model s)"
  shows "\<exists>ds. schedule_all ops s us = Some (s\<lparr>delayed := delayed s @ ds\<rparr>)"
  using assms
proof (induction us arbitrary: s)
  case Nil
  show ?case by (rule exI [of _ "[]"]) simp
next
  case (Cons u us)
  obtain ds where ds: "schedule_download_entry ops s u = Some (s\<lparr>delayed := delayed s @ ds\<rparr>)"
    using Cons.prems by (rule schedule_ok)
  obtain es where "schedule_all ops (s\<lparr>delayed := delayed s @ ds\<rparr>) us =
      Some (s\<lparr>delayed := delayed s @ ds @ es\<rparr>)"
    using Cons.IH [of "s\<lparr>delayed := delayed s @ ds\<rparr>"] Cons.prems by auto
  with ds show ?case by auto
qed

lemma service_ok_delayed [simp]: "service_ok ops env (s\<lparr>delayed := ds\<rparr>) \<longleftrightarrow> service_ok ops env s"
  by (simp add: service_ok_def)

lemma downloader_ok_files:
  assumes "downloader_ok env d"
  shows "downloader_ok env (d\<lparr>files := fs\<rparr>)"
proof -
  have "posted_for env (d\<lparr>files := fs\<rparr>) t p = posted_for env d t p" for t p by (cases p) simp_all
  moreover have "reply_for (d\<lparr>files := fs\<rparr>) t r = reply_for d t r" for t r by (cases r) simp_all
  ultimately have "in_flight env (d\<lparr>files := fs\<rparr>) t \<longleftrightarrow> in_flight env d t" for t
    by (simp add: in_flight.simps)
  with assms show ?thesis
    by (simp add: downloader_ok_def flow_ok_def valid_downloads_def busy_def idle_def)
qed

lemma start_download_ok:
  assumes "service_ok ops env s" and "url_is_valid (denv env) (entry_url e)"
  shows "\<exists>s'. start_download ops env s e = Some s' \<and> service_ok ops env s'"
proof -
  obtain d where "download_offline_url (denv env) (downloader s) (entry_url e) = Some d"
    "downloader_ok (denv env) d"
    using downloader_step_ok [of "denv env" "downloader s" "DownloadOfflineURL (entry_url e)"] assms
    by (auto simp: service_ok_def)
  with assms(1) show ?thesis by (auto simp: start_download_def service_ok_def model_laws_loaded)
qed

lemma download_entry_ok:
  assumes "service_ok ops env s"
  shows "\<exists>s'. download_entry ops env net s u = Some s' \<and> service_ok ops env s'"
proof (cases "get_entry_by_url ops (rl_model s) u")
  case None
  with assms show ?thesis by (simp add: download_entry_def service_ok_def)
next
  case (Some e)
  then have "url_is_valid (denv env) (entry_url e)"
    using assms by (auto simp: service_ok_def valid_entry_urls_def)
  from start_download_ok [OF assms this] Some assms show ?thesis
    by (auto simp: download_entry_def service_ok_def Let_def)
qed

lemma on_download_end_ok:
  assumes "service_ok ops env s"
  shows "\<exists>s'. on_download_end ops env s u v r p n t = Some s' \<and> service_ok ops env s'
    \<and> downloader s' = downloader s"
proof (cases "p = [] \<or> r = ERROR")
  case False
  with assms show ?thesis
    by (auto simp: on_download_end_def service_ok_def Let_def model_laws_loaded)
next
  case True
  show ?thesis
  proof (cases "get_entry_by_url ops (rl_model s) u")
    case None
    with True assms show ?thesis
      by (auto simp: on_download_end_def service_ok_def Let_def model_laws_loaded)
  next
    case (Some e)
    define s1 where "s1 = s\<lparr>rl_model := set_entry_distilled_state ops (rl_model s) u WILL_RETRY\<rparr>"
    have "service_ok ops env s1" using assms by (simp add: s1_def service_ok_def model_laws_loaded)
    moreover from this obtain ds where
      "schedule_download_entry ops s1 u = Some (s1\<lparr>delayed := delayed s1 @ ds\<rparr>)"
      using schedule_ok [of ops s1] by (auto simp: service_ok_def)
    ultimately show ?thesis
      using True Some assms
      by (auto simp: on_download_end_def service_ok_def Let_def model_laws_loaded s1_def)
  qed
qed

lemma deliver_ok:
  assumes "service_ok ops env s"
  shows "\<exists>s'. deliver ops env s cs = Some s' \<and> service_ok ops env s' \<and> downloader s' = downloader s"
  using assms
proof (induction cs arbitrary: s)
  case (Cons c cs)
  show ?case
  proof (cases c)
    case (DownloadDone u v r p n t)
    then show ?thesis using on_download_end_ok [OF Cons.prems, of u v r p n t] Cons.IH by fastforce
  next
    case (DeleteDone u ok)
    then show ?thesis using Cons by (simp add: on_delete_end_def)
  qed
qed simp

lemma split_entries_ok:
  assumes "\<And>u. u \<in> set us \<Longrightarrow> get_entry_by_url ops m u \<noteq> None"
  shows "\<exists>P U. split_entries ops env m us = Some (P, U)
    \<and> set P = {offline_url_directory_id env u | u e. u \<in> set us
                 \<and> get_entry_by_url ops m u = Some e \<and> distilled_state e = PROCESSED}
    \<and> set U = {u \<in> set us. \<exists>e. get_entry_by_url ops m u = Some e
                 \<and> distilled_state e \<in> {WAITING, PROCESSING, WILL_RETRY}}"
  using assms
proof (induction us)
  case (Cons u us)
  obtain e where e: "get_entry_by_url ops m u = Some e" using Cons.prems [of u] by auto
  obtain P U where PU: "split_entries ops env m us = Some (P, U)"
    "set P = {offline_url_directory_id env u | u e. u \<in> set us
                 \<and> get_entry_by_url ops m u = Some e \<and> distilled_state e = PROCESSED}"
    "set U = {u \<in> set us. \<exists>e. get_entry_by_url ops m u = Some e
                 \<and> distilled_state e \<in> {WAITING, PROCESSING, WILL_RETRY}}"
    using Cons by auto
  show ?case using e PU by (cases "distilled_state e") auto
qed simp

lemma sync_ok:
  assumes "service_ok ops env s"
  shows "\<exists>s'. sync_with_model ops env s = Some s' \<and> service_ok ops env s'"
  using assms split_entries_ok [of "model_keys ops (rl_model s)" ops "rl_model s" env] model_laws_keys
  by (fastforce simp: sync_with_model_def service_ok_def)

lemma on_connection_changed_ok:
  assumes "service_ok ops env s"
  shows "\<exists>s'. on_connection_changed ops s t = Some s' \<and> service_ok ops env s'"
proof -
  have loaded: "model_loaded ops (rl_model s)" using assms by (simp add: service_ok_def)
  define s1 where "s1 = (if \<not> had_connection s
    then schedule_all ops (s\<lparr>had_connection := True\<rparr>) (url_to_download_cellular s) else Some s)"
  obtain s2 where s2: "s1 = Some s2" "service_ok ops env s2"
    using schedule_all_ok [of ops "s\<lparr>had_connection := True\<rparr>" "url_to_download_cellular s"] assms
    by (cases "had_connection s") (auto simp: s1_def service_ok_def)
  obtain ds where "schedule_all ops s2 (url_to_download_wifi s2) = Some (s2\<lparr>delayed := delayed s2 @ ds\<rparr>)"
    using schedule_all_ok [of ops s2 "url_to_download_wifi s2"] s2(2) by (auto simp: service_ok_def)
  with s2 assms show ?thesis
    unfolding on_connection_changed_def s1_def [symmetric] by (auto simp: service_ok_def)
qed

lemma loaded_step_ok:
  assumes "service_ok ops env s" and "service_event_allowed ops env s c"
  shows "\<exists>s'. service_step ops env s c = Some s' \<and> service_ok ops env s'"
proof (cases c)
  case (ModelChanged m)
  with assms show ?thesis by (auto simp: service_ok_def)
next
  case ReadingListModelLoaded
  then show ?thesis using sync_ok [OF assms(1)] by simp
next
  case (ReadingListWillRemoveEntry u)
  obtain d where "remove_offline_url (denv env) (downloader s) u = Some d" "downloader_ok (denv env) d"
    using downloader_step_ok [of "denv env" "downloader s" "RemoveOfflineURL u"] assms(1)
    by (auto simp: service_ok_def)
  with ReadingListWillRemoveEntry assms show ?thesis
    by (auto simp: remove_downloaded_entry_def service_ok_def)
next
  case (OnConnectionChanged t)
  then show ?thesis using on_connection_changed_ok [OF assms(1)] by simp
next
  case (DelayedDownload i net)
  then show ?thesis using download_entry_ok [of ops env "s\<lparr>delayed := vector_erase i (delayed s)\<rparr>"] assms by simp
next
  case CleanUpDone
  then obtain P U rest where c: "clean_ups s = (P, U) # rest" using assms(2) by (cases "clean_ups s") auto
  define s1 where "s1 = s\<lparr>clean_ups := rest, downloader := (downloader s)
    \<lparr>files := clean_up_files env (files (downloader s)) P\<rparr>\<rparr>"
  have "service_ok ops env s1"
    using assms(1) by (simp add: s1_def service_ok_def downloader_ok_files)
  moreover from this obtain ds where "schedule_all ops s1 U = Some (s1\<lparr>delayed := delayed s1 @ ds\<rparr>)"
    using schedule_all_ok [of ops s1 U] by (auto simp: service_ok_def)
  ultimately show ?thesis
    using CleanUpDone c by (simp add: download_unprocessed_entries_def s1_def [symmetric])
next
  case (DownloaderEvent e)
  obtain d where d: "downloader_step (denv env) (downloader s) e = Some d" "downloader_ok (denv env) d"
    using downloader_step_ok [of "denv env" "downloader s" e] assms DownloaderEvent
    by (auto simp: service_ok_def)
  then have "service_ok ops env (s\<lparr>downloader := d\<rparr>)" using assms(1) by (simp add: service_ok_def)
  from deliver_ok [OF this] d(1) DownloaderEvent show ?thesis by fastforce
next
  case (ReadingListDidAddEntry u)
  have "service_ok ops env (s\<lparr>downloader := cancel_download_offline_url (downloader s) u\<rparr>)"
    using downloader_step_ok [of "denv env" "downloader s" "CancelDownloadOfflineURL u"] assms(1)
    by (auto simp: service_ok_def)
  moreover obtain ds where "schedule_download_entry ops s u = Some (s\<lparr>delayed := delayed s @ ds\<rparr>)"
    using schedule_ok [of ops s] assms(1) by (auto simp: service_ok_def)
  ultimately show ?thesis
    using ReadingListDidAddEntry assms(1) by (auto simp: process_new_entry_def split: option.splits)
next
  case (ReadingListDidMoveEntry u)
  have "service_ok ops env (s\<lparr>downloader := cancel_download_offline_url (downloader s) u\<rparr>)"
    using downloader_step_ok [of "denv env" "downloader s" "CancelDownloadOfflineURL u"] assms(1)
    by (auto simp: service_ok_def)
  moreover obtain ds where "schedule_download_entry ops s u = Some (s\<lparr>delayed := delayed s @ ds\<rparr>)"
    using schedule_ok [of ops s] assms(1) by (auto simp: service_ok_def)
  ultimately show ?thesis
    using ReadingListDidMoveEntry assms(1) by (auto simp: process_new_entry_def split: option.splits)
qed

lemma waiting_step_ok:
  assumes "service_waits ops env s" and "service_event_allowed ops env s c"
  shows "\<exists>s'. service_step ops env s c = Some s' \<and> service_inv ops env s'"
proof -
  have w: "\<not> model_loaded ops (rl_model s)" "url_to_download_cellular s = []" "url_to_download_wifi s = []"
    "delayed s = []" "clean_ups s = []" "idle (downloader s)"
    using assms(1) by (simp_all add: service_waits_def)
  show ?thesis
  proof (cases c)
    case (ModelChanged m)
    with assms(1) show ?thesis by (auto simp: service_inv_def service_waits_def service_ok_def)
  next
    case (OnConnectionChanged t)
    have "service_waits ops env (s\<lparr>had_connection := b\<rparr>)" for b
      using assms(1) by (simp add: service_waits_def)
    with w OnConnectionChanged show ?thesis
      using assms(1) by (auto simp: on_connection_changed_def service_inv_def)
  next
    case (DownloaderEvent e)
    obtain d where d: "downloader_step (denv env) (downloader s) e = Some d" "downloader_ok (denv env) d"
      using downloader_step_ok [of "denv env" "downloader s" e] assms DownloaderEvent
      by (auto simp: service_waits_def)
    have "idle d \<and> completions d = completions (downloader s)"
      using d(1) w(6) assms(2) DownloaderEvent
      by (cases e) (auto simp: idle_def cancel_download_offline_url_def cancel_task_def)
    with d DownloaderEvent assms(1) show ?thesis by (auto simp: service_inv_def service_waits_def)
  qed (use w assms(2) in simp_all)
qed

lemma service_step_ok:
  assumes "service_inv ops env s" and "service_event_allowed ops env s c"
  shows "\<exists>s'. service_step ops env s c = Some s' \<and> service_inv ops env s'"
  using assms loaded_step_ok waiting_step_ok unfolding service_inv_def by metis

interpretation offline_pages: total_machine "service_step ops env" "service_event_allowed ops env"
    "service_inv ops env" for ops :: "'m model_ops" and env :: "'fs service_env"
  by unfold_locales (use service_step_ok in fastforce)+

section \<open>Properties\<close>

definition disk_service_env :: "disk service_env" where
  "disk_service_env = \<lparr>denv = disk_env, offline_root = ''/'', offline_url_directory_id = (\<lambda>u. u),
     sub_directories = (\<lambda>fs p. map fst fs), collapse_whitespace = (\<lambda>t. t), time_now = 0\<rparr>"

definition waiting_entry :: reading_list_entry where
  "waiting_entry = \<lparr>entry_url = ''u'', distilled_state = WAITING, failed_download_counter = 0,
     is_read = False, time_until_next_try = 0\<rparr>"

definition connected :: network where
  "connected = \<lparr>is_offline = False, known_connection_type = Some CONNECTION_4G\<rparr>"

lemma disk_entry_urls: "valid_entry_urls list_model disk_service_env"
  by (auto simp: valid_entry_urls_def list_model_def disk_service_env_def disk_env_def find_Some_iff
      split: if_splits)



text \<open>The downloader reports the failure of the same entry several times in a row.\<close>

fun fail_repeatedly ::
  "'m model_ops \<Rightarrow> 'fs service_env \<Rightarrow> ('m, 'fs) download_service \<Rightarrow> gurl \<Rightarrow> nat
     \<Rightarrow> ('m, 'fs) download_service option" where
  "fail_repeatedly ops env s u 0 = Some s"
| "fail_repeatedly ops env s u (Suc k) = do {
     s1 \<leftarrow> fail_repeatedly ops env s u k;
     on_download_end ops env s1 u u ERROR [] 0 []
   }"

lemma failure_counted:
  assumes "service_ok ops env s" and "get_entry_by_url ops (rl_model s) u = Some e"
    and "\<not> is_read e" and "distilled_state e \<noteq> DISTILLATION_ERROR"
  obtains s' e' where "on_download_end ops env s u v ERROR p n t = Some s'" "service_ok ops env s'"
    "get_entry_by_url ops (rl_model s') u = Some e'" "\<not> is_read e'"
    "failed_download_counter e' = failed_download_counter e + 1"
    "distilled_state e' = (if failed_download_counter e + 1 < kNumberOfFailsBeforeStop
       then WILL_RETRY else DISTILLATION_ERROR)"
    "length (delayed s') = length (delayed s)
       + (if failed_download_counter e + 1 < kNumberOfFailsBeforeStop then 1 else 0)"
proof (cases "failed_download_counter e + 1 < kNumberOfFailsBeforeStop")
  case True
  have ok: "model_laws ops" "model_loaded ops (rl_model s)"
    using assms(1) by (simp_all add: service_ok_def)
  obtain e' where e': "get_entry_by_url ops (set_entry_distilled_state ops (rl_model s) u WILL_RETRY) u = Some e'"
    "distilled_state e' = WILL_RETRY" "is_read e' = is_read e" "entry_url e' = entry_url e"
    "failed_download_counter e' = failed_download_counter e
       + (if WILL_RETRY = WILL_RETRY \<or> WILL_RETRY = DISTILLATION_ERROR then 1 else 0)"
    by (rule model_laws_set_state [OF ok(1) assms(2)])
  then have "\<not> not_to_download e'" using assms(3) by (simp add: not_to_download_def)
  with e' True assms ok show ?thesis
    by (intro that [of "s\<lparr>rl_model := set_entry_distilled_state ops (rl_model s) u WILL_RETRY,
          delayed := delayed s @ [(u, time_until_next_try e')], uma := uma s @ [DownloadStatus RETRY]\<rparr>" e'])
      (auto simp: on_download_end_def schedule_download_entry_def Let_def model_laws_loaded service_ok_def)
next
  case False
  have ok: "model_laws ops" "model_loaded ops (rl_model s)"
    using assms(1) by (simp_all add: service_ok_def)
  obtain e' where e': "get_entry_by_url ops (set_entry_distilled_state ops (rl_model s) u DISTILLATION_ERROR) u = Some e'"
    "distilled_state e' = DISTILLATION_ERROR" "is_read e' = is_read e" "entry_url e' = entry_url e"
    "failed_download_counter e' = failed_download_counter e
       + (if DISTILLATION_ERROR = WILL_RETRY \<or> DISTILLATION_ERROR = DISTILLATION_ERROR then 1 else 0)"
    by (rule model_laws_set_state [OF ok(1) assms(2)])
  with False assms ok show ?thesis
    by (intro that [of "s\<lparr>rl_model := set_entry_distilled_state ops (rl_model s) u DISTILLATION_ERROR,
          uma := uma s @ [DownloadStatus FAILURE]\<rparr>" e'])
      (auto simp: on_download_end_def Let_def model_laws_loaded service_ok_def)
qed

text \<open>
  An unread entry that has not failed yet is scheduled again after each of its first six
  failures; the seventh puts it in the error state, in which no later call schedules or
  downloads it.
\<close>

theorem gives_up_after_seven_failures:
  assumes "service_ok ops env s" and "get_entry_by_url ops (rl_model s) u = Some e"
    and "\<not> is_read e" and "distilled_state e = WAITING" and "failed_download_counter e = 0"
    and "0 < k" and "k \<le> 7"
  shows "\<exists>s' e'. fail_repeatedly ops env s u k = Some s'
    \<and> get_entry_by_url ops (rl_model s') u = Some e'
    \<and> distilled_state e' = (if k < 7 then WILL_RETRY else DISTILLATION_ERROR)
    \<and> length (delayed s') = length (delayed s) + min k 6
    \<and> (k = 7 \<longrightarrow> schedule_download_entry ops s' u = Some s'
          \<and> (\<forall>net. download_entry ops env net s' u = Some s'))"
proof -
  have "\<exists>s' e'. fail_repeatedly ops env s u k = Some s' \<and> service_ok ops env s'
      \<and> get_entry_by_url ops (rl_model s') u = Some e' \<and> \<not> is_read e'
      \<and> failed_download_counter e' = int k
      \<and> distilled_state e' = (if k = 0 then WAITING else if k < 7 then WILL_RETRY else DISTILLATION_ERROR)
      \<and> length (delayed s') = length (delayed s) + min k 6" if "k \<le> 7" for k
    using that
  proof (induction k)
    case 0
    with assms show ?case by simp
  next
    case (Suc k)
    then obtain s1 e1 where s1: "fail_repeatedly ops env s u k = Some s1" "service_ok ops env s1"
      "get_entry_by_url ops (rl_model s1) u = Some e1" "\<not> is_read e1" "failed_download_counter e1 = int k"
      "distilled_state e1 = (if k = 0 then WAITING else if k < 7 then WILL_RETRY else DISTILLATION_ERROR)"
      "length (delayed s1) = length (delayed s) + min k 6"
      by auto
    have "distilled_state e1 \<noteq> DISTILLATION_ERROR" using s1(6) Suc.prems by simp
    from failure_counted [OF s1(2-4) this, of u "[]" 0 "[]"] obtain s2 e2 where s2:
      "on_download_end ops env s1 u u ERROR [] 0 [] = Some s2" "service_ok ops env s2"
      "get_entry_by_url ops (rl_model s2) u = Some e2" "\<not> is_read e2"
      "failed_download_counter e2 = int k + 1"
      "distilled_state e2 = (if int k + 1 < 7 then WILL_RETRY else DISTILLATION_ERROR)"
      "length (delayed s2) = length (delayed s1) + (if int k + 1 < 7 then 1 else 0)"
      using s1(5) by (auto simp: kNumberOfFailsBeforeStop_def)
    have "fail_repeatedly ops env s u (Suc k) = Some s2" using s1(1) s2(1) by simp
    moreover have "distilled_state e2 =
        (if Suc k = 0 then WAITING else if Suc k < 7 then WILL_RETRY else DISTILLATION_ERROR)"
      using s2(6) by simp
    moreover have "length (delayed s2) = length (delayed s) + min (Suc k) 6"
      using s1(7) s2(7) Suc.prems by (simp add: min_def split: if_splits)
    moreover have "failed_download_counter e2 = int (Suc k)" using s2(5) by simp
    ultimately show ?case using s2(2-4) by blast
  qed
  from this [OF assms(7)] obtain s' e' where s': "fail_repeatedly ops env s u k = Some s'"
    "service_ok ops env s'" "get_entry_by_url ops (rl_model s') u = Some e'"
    "distilled_state e' = (if k < 7 then WILL_RETRY else DISTILLATION_ERROR)"
    "length (delayed s') = length (delayed s) + min k 6" using assms(6) by auto
  moreover have "schedule_download_entry ops s' u = Some s' \<and> (\<forall>net. download_entry ops env net s' u = Some s')"
    if "k = 7"
  proof -
    have "not_to_download e'" using s'(4) that by (simp add: not_to_download_def)
    with s'(2,3) show ?thesis
      by (simp add: schedule_download_entry_def download_entry_def service_ok_def)
  qed
  ultimately show ?thesis by blast
qed

theorem gives_up_after_seven_failures_witness:
  "\<exists>s' e'. fail_repeatedly list_model disk_service_env
       (new_download_service [waiting_entry] [] connected) ''u'' 7 = Some s'
     \<and> get_entry_by_url list_model (rl_model s') ''u'' = Some e'
     \<and> distilled_state e' = DISTILLATION_ERROR \<and> length (delayed s') = 6"
proof -
  have "service_ok list_model disk_service_env (new_download_service [waiting_entry] [] connected)"
    by (simp add: service_ok_def list_model_laws disk_entry_urls new_download_service_def new_downloader_ok)
      (simp add: list_model_def)
  moreover have "get_entry_by_url list_model
      (rl_model (new_download_service [waiting_entry] ([] :: disk) connected)) ''u'' = Some waiting_entry"
    by (simp add: list_model_def new_download_service_def waiting_entry_def)
  ultimately show ?thesis
    using gives_up_after_seven_failures [of list_model disk_service_env
        "new_download_service [waiting_entry] [] connected" "''u''" waiting_entry 7]
    by (auto simp: waiting_entry_def new_download_service_def)
qed


text \<open>
  \<open>SyncWithModel\<close> posts one clean-up that keeps exactly the directories of the entries
  that are processed, and whose reply schedules, once each and in order, exactly the entries
  that are waiting, in progress or to be retried.
\<close>

theorem sync_with_model_splits:
  assumes "model_laws ops" and "model_loaded ops (rl_model s)"
  shows "\<exists>P U. sync_with_model ops env s = Some (s\<lparr>clean_ups := clean_ups s @ [(P, U)]\<rparr>)
    \<and> set P = {offline_url_directory_id env u | u e. u \<in> set (model_keys ops (rl_model s))
                 \<and> get_entry_by_url ops (rl_model s) u = Some e \<and> distilled_state e = PROCESSED}
    \<and> set U = {u \<in> set (model_keys ops (rl_model s)). \<exists>e. get_entry_by_url ops (rl_model s) u = Some e
                 \<and> distilled_state e \<in> {WAITING, PROCESSING, WILL_RETRY}}
    \<and> sorted U \<and> distinct U"
proof -
  have "\<exists>P U. split_entries ops env (rl_model s) (model_keys ops (rl_model s)) = Some (P, U)
    \<and> set P = {offline_url_directory_id env u | u e. u \<in> set (model_keys ops (rl_model s))
                 \<and> get_entry_by_url ops (rl_model s) u = Some e \<and> distilled_state e = PROCESSED}
    \<and> set U = {u \<in> set (model_keys ops (rl_model s)). \<exists>e. get_entry_by_url ops (rl_model s) u = Some e
                 \<and> distilled_state e \<in> {WAITING, PROCESSING, WILL_RETRY}}"
    by (rule split_entries_ok) (rule model_laws_keys [OF assms(1)])
  then obtain P U where PU: "split_entries ops env (rl_model s) (model_keys ops (rl_model s)) = Some (P, U)"
    "set P = {offline_url_directory_id env u | u e. u \<in> set (model_keys ops (rl_model s))
                 \<and> get_entry_by_url ops (rl_model s) u = Some e \<and> distilled_state e = PROCESSED}"
    "set U = {u \<in> set (model_keys ops (rl_model s)). \<exists>e. get_entry_by_url ops (rl_model s) u = Some e
                 \<and> distilled_state e \<in> {WAITING, PROCESSING, WILL_RETRY}}"
    by (elim exE conjE)
  have "sync_with_model ops env s = Some (s\<lparr>clean_ups := clean_ups s @ [(std_set P, std_set U)]\<rparr>)"
    using PU(1) assms(2) by (simp add: sync_with_model_def)
  with PU(2,3) show ?thesis
    by (intro exI [of _ "std_set P"] exI [of _ "std_set U"]) (simp add: std_set_def)
qed

theorem sync_with_model_splits_witness:
  "\<exists>P U. sync_with_model list_model disk_service_env (new_download_service [waiting_entry] [] connected) =
     Some ((new_download_service [waiting_entry] [] connected)\<lparr>clean_ups := [(P, U)]\<rparr>)
   \<and> set P = {} \<and> set U = {''u''}"
proof -
  have "model_loaded list_model (rl_model (new_download_service [waiting_entry] ([] :: disk) connected))"
    by (simp add: list_model_def)
  from sync_with_model_splits [OF list_model_laws this, of disk_service_env] show ?thesis
    by (simp add: new_download_service_def list_model_def waiting_entry_def cong: conj_cong) blast
qed

text \<open>
  An entry whose offline copy is already there when its download starts is counted as
  failed: the downloader reports \<open>DOWNLOAD_EXISTS\<close> with an empty path, which \<open>OnDownloadEnd\<close>
  takes for an error, so that the entry is retried and in the end given up.
\<close>

theorem existing_copy_counts_as_failure:
  assumes "service_ok ops env s" and "replies (downloader s) = [DownloadURLReply u True]"
    and "get_entry_by_url ops (rl_model s) u = Some e" and "\<not> is_read e"
    and "distilled_state e = PROCESSING"
  shows "\<exists>s' e'. service_step ops env s (DownloaderEvent RunPostedReply) = Some s'
    \<and> completions (downloader s') = completions (downloader s) @
        [DownloadDone u (distilled_url (downloader s)) DOWNLOAD_EXISTS [] (saved_size (downloader s)) []]
    \<and> get_entry_by_url ops (rl_model s') u = Some e'
    \<and> failed_download_counter e' = failed_download_counter e + 1
    \<and> distilled_state e' = (if failed_download_counter e + 1 < kNumberOfFailsBeforeStop
         then WILL_RETRY else DISTILLATION_ERROR)"
proof -
  define d where "d = downloader s"
  have dok: "downloader_ok (denv env) d" using assms(1) by (simp add: service_ok_def d_def)
  then have flow: "flow_ok (denv env) d" by (simp add: downloader_ok_def)
  obtain t where t: "handed_over (d\<lparr>replies := []\<rparr>) t"
    using busy_at_reply [OF flow, of "DownloadURLReply u True" "[]"] assms(2) by (auto simp: d_def)
  then have w: "working d" by (simp add: handed_over_def)
  obtain d' where d': "downloader_step (denv env) d RunPostedReply = Some d'" "downloader_ok (denv env) d'"
    using downloader_step_ok [OF dok, of RunPostedReply] assms(2) by (auto simp: d_def)
  have "completions (the (handle_next_task env2 x)) = completions x"
    if "handle_next_task env2 x = Some y" for env2 :: "'b downloader_env" and x y
    using that by (auto simp: handle_next_task_def offline_path_exists_def post_task_def Let_def dcheck_bind_eq_Some
        split: list.splits prod.splits task_type.splits if_splits)
  note completions_kept = this
  have log: "completions d' = completions d @
      [DownloadDone u (distilled_url d) DOWNLOAD_EXISTS [] (saved_size d) []]"
    using d'(1) assms(2) w completions_kept
    by (fastforce simp: d_def download_url_def new_distiller_viewer_def download_completion_handler_def post_delete_def)
  have ok: "service_ok ops env (s\<lparr>downloader := d'\<rparr>)" using assms(1) d'(2) by (simp add: service_ok_def)
  have ne: "distilled_state e \<noteq> DISTILLATION_ERROR" using assms(5) by simp
  have g: "get_entry_by_url ops (rl_model (s\<lparr>downloader := d'\<rparr>)) u = Some e" using assms(3) by simp
  obtain s' e' where s': "on_download_end ops env (s\<lparr>downloader := d'\<rparr>) u (distilled_url d) ERROR [] (saved_size d) [] = Some s'"
    "get_entry_by_url ops (rl_model s') u = Some e'"
    "failed_download_counter e' = failed_download_counter e + 1"
    "distilled_state e' = (if failed_download_counter e + 1 < kNumberOfFailsBeforeStop
         then WILL_RETRY else DISTILLATION_ERROR)"
    by (rule failure_counted [OF ok g assms(4) ne])
  have same: "on_download_end ops env (s\<lparr>downloader := d'\<rparr>) u (distilled_url d) DOWNLOAD_EXISTS [] (saved_size d) []
      = Some s'" using s'(1) by (simp add: on_download_end_def cong: if_cong)
  have "downloader s' = d'"
    using on_download_end_ok [OF ok, of u "distilled_url d" ERROR "[]" "saved_size d" "[]"] s'(1) by auto
  moreover have "service_step ops env s (DownloaderEvent RunPostedReply) = Some s'"
    using d'(1) log same by (simp add: d_def [symmetric])
  ultimately show ?thesis using s'(2-4) log by (auto simp: d_def)
qed

theorem existing_copy_counts_as_failure_witness:
  "\<exists>s' e'. service_step list_model disk_service_env
     (the (run (service_step list_model disk_service_env)
        (new_download_service [waiting_entry] [(''/u'', 3)] connected)
        [ReadingListDidAddEntry ''u'', DelayedDownload 0 connected, DownloaderEvent RunPostedTask]))
     (DownloaderEvent RunPostedReply) = Some s'
   \<and> get_entry_by_url list_model (rl_model s') ''u'' = Some e' \<and> distilled_state e' = WILL_RETRY"
proof -
  have "case run_checked (service_step list_model disk_service_env)
      (service_event_allowed list_model disk_service_env) (new_download_service [waiting_entry] [(''/u'', 3)] connected)
      [ReadingListDidAddEntry ''u'', DelayedDownload 0 connected, DownloaderEvent RunPostedTask] of None \<Rightarrow> False
    | Some s \<Rightarrow> replies (downloader s) = [DownloadURLReply ''u'' True]
       \<and> get_entry_by_url list_model (rl_model s) ''u'' = Some (waiting_entry\<lparr>distilled_state := PROCESSING\<rparr>)"
    by code_simp
  then obtain s where s: "legal (service_step list_model disk_service_env)
      (service_event_allowed list_model disk_service_env) (new_download_service [waiting_entry] [(''/u'', 3)] connected)
      [ReadingListDidAddEntry ''u'', DelayedDownload 0 connected, DownloaderEvent RunPostedTask] s"
    "replies (downloader s) = [DownloadURLReply ''u'' True]"
    "get_entry_by_url list_model (rl_model s) ''u'' = Some (waiting_entry\<lparr>distilled_state := PROCESSING\<rparr>)"
    by (rule run_checked_witness) auto
  have "service_ok list_model disk_service_env (new_download_service [waiting_entry] [(''/u'', 3)] connected)"
    by (simp add: service_ok_def list_model_laws disk_entry_urls new_download_service_def new_downloader_ok)
      (simp add: list_model_def)
  then have "service_inv list_model disk_service_env s"
    using offline_pages.legal_inv [OF s(1)] by (simp add: service_inv_def)
  then have "service_ok list_model disk_service_env s"
    by (auto simp: service_inv_def service_waits_def list_model_def)
  from existing_copy_counts_as_failure [OF this s(2,3)] legal_run [OF s(1)] show ?thesis
    by (auto simp: waiting_entry_def kNumberOfFailsBeforeStop_def)
qed

text \<open>
  The URLs set aside while there was no suitable connection are never taken off their
  lists: each of the two only grows, and every connection schedules all of them again.
\<close>

definition waiting_grows :: "('m, 'fs) download_service \<Rightarrow> ('m, 'fs) download_service \<Rightarrow> bool" where
  "waiting_grows s t \<longleftrightarrow>
     (\<exists>xs ys. url_to_download_cellular t = url_to_download_cellular s @ xs
        \<and> url_to_download_wifi t = url_to_download_wifi s @ ys)"

lemma waiting_grows_refl [simp]: "waiting_grows s s"
  by (simp add: waiting_grows_def)

lemma waiting_grows_trans: "waiting_grows s t \<Longrightarrow> waiting_grows t u \<Longrightarrow> waiting_grows s u"
  by (auto simp: waiting_grows_def)

lemma waiting_same:
  "url_to_download_cellular t = url_to_download_cellular s \<Longrightarrow>
     url_to_download_wifi t = url_to_download_wifi s \<Longrightarrow> waiting_grows s t"
  by (simp add: waiting_grows_def)

lemma waiting_schedule: "schedule_download_entry ops s u = Some t \<Longrightarrow> waiting_grows s t"
  by (auto simp: schedule_download_entry_def dcheck_bind_eq_Some intro: waiting_same
      split: option.splits if_splits)

lemma waiting_schedule_all: "schedule_all ops s us = Some t \<Longrightarrow> waiting_grows s t"
  by (induction us arbitrary: s)
    (auto simp: bind_eq_SomeD dest: waiting_schedule intro: waiting_grows_trans)

lemma waiting_start: "start_download ops env s e = Some t \<Longrightarrow> waiting_grows s t"
  by (auto simp: start_download_def bind_eq_SomeD Let_def intro: waiting_same)

lemma waiting_download_entry: "download_entry ops env net s u = Some t \<Longrightarrow> waiting_grows s t"
  by (auto simp: download_entry_def dcheck_bind_eq_Some Let_def waiting_grows_def
      dest: waiting_start [unfolded waiting_grows_def] split: option.splits if_splits)

lemma waiting_download_end: "on_download_end ops env s u v r p n x = Some t \<Longrightarrow> waiting_grows s t"
proof -
  assume *: "on_download_end ops env s u v r p n x = Some t"
  have "waiting_grows s s2" if "schedule_download_entry ops (s\<lparr>rl_model := m\<rparr>) u = Some s1"
    "s2 = s1\<lparr>uma := xs\<rparr>" for m s1 s2 xs
    using waiting_schedule [OF that(1)] that(2) by (simp add: waiting_grows_def)
  with * show ?thesis
    by (auto simp: on_download_end_def dcheck_bind_eq_Some bind_eq_SomeD Let_def intro: waiting_same
        split: option.splits if_splits)
qed

lemma waiting_deliver: "deliver ops env s cs = Some t \<Longrightarrow> waiting_grows s t"
proof (induction cs arbitrary: s)
  case (Cons c cs)
  then show ?case
    by (cases c) (auto simp: bind_eq_SomeD on_delete_end_def dest: waiting_download_end
        intro: waiting_grows_trans)
qed simp

lemma waiting_step:
  assumes "service_step ops env s c = Some t"
  shows "waiting_grows s t"
proof (cases c)
  case (ModelChanged m)
  with assms show ?thesis by (auto intro: waiting_same)
next
  case (DownloaderEvent e)
  then obtain d where "deliver ops env (s\<lparr>downloader := d\<rparr>)
      (drop (length (completions (downloader s))) (completions d)) = Some t"
    using assms by (auto simp: bind_eq_SomeD)
  then have "waiting_grows (s\<lparr>downloader := d\<rparr>) t" by (rule waiting_deliver)
  then show ?thesis by (simp add: waiting_grows_def)
next
  case (DelayedDownload i net)
  then have "waiting_grows (s\<lparr>delayed := vector_erase i (delayed s)\<rparr>) t"
    using assms waiting_download_entry by (auto split: if_splits)
  then show ?thesis by (simp add: waiting_grows_def)
next
  case CleanUpDone
  then obtain P U rest where "clean_ups s = (P, U) # rest" using assms by (cases "clean_ups s") auto
  with CleanUpDone assms waiting_schedule_all
  have "waiting_grows (s\<lparr>clean_ups := rest, downloader := (downloader s)
    \<lparr>files := clean_up_files env (files (downloader s)) P\<rparr>\<rparr>) t"
    by (auto simp: download_unprocessed_entries_def Let_def)
  then show ?thesis by (simp add: waiting_grows_def)
next
  case (OnConnectionChanged conn)
  then have *: "on_connection_changed ops s conn = Some t" using assms by simp
  show ?thesis
  proof (cases "conn = CONNECTION_NONE")
    case True
    with * show ?thesis by (auto simp: on_connection_changed_def intro: waiting_same)
  next
    case False
    with * obtain s1 where s1: "(if \<not> had_connection s
        then schedule_all ops (s\<lparr>had_connection := True\<rparr>) (url_to_download_cellular s) else Some s) = Some s1"
      "(if conn = CONNECTION_WIFI then schedule_all ops s1 (url_to_download_wifi s1) else Some s1) = Some t"
      by (auto simp: on_connection_changed_def bind_eq_SomeD)
    have "waiting_grows (s\<lparr>had_connection := True\<rparr>) s1 \<or> s1 = s"
      using s1(1) waiting_schedule_all by (auto split: if_splits)
    then have "waiting_grows s s1" by (auto simp: waiting_grows_def)
    moreover have "waiting_grows s1 t" using s1(2) waiting_schedule_all by (auto split: if_splits)
    ultimately show ?thesis by (rule waiting_grows_trans)
  qed
next
  case ReadingListModelLoaded
  then show ?thesis using assms
    by (auto simp: sync_with_model_def dcheck_bind_eq_Some bind_eq_SomeD intro: waiting_same split: prod.splits)
next
  case (ReadingListWillRemoveEntry u)
  then show ?thesis using assms
    by (auto simp: remove_downloaded_entry_def dcheck_bind_eq_Some bind_eq_SomeD intro: waiting_same)
next
  case (ReadingListDidAddEntry u)
  then show ?thesis using assms waiting_schedule
    by (auto simp: process_new_entry_def intro: waiting_same split: option.splits if_splits)
next
  case (ReadingListDidMoveEntry u)
  then show ?thesis using assms waiting_schedule
    by (auto simp: process_new_entry_def intro: waiting_same split: option.splits if_splits)
qed

theorem waiting_lists_only_grow:
  assumes "legal (service_step ops env) (service_event_allowed ops env) s es t"
  shows "\<exists>xs ys. url_to_download_cellular t = url_to_download_cellular s @ xs
    \<and> url_to_download_wifi t = url_to_download_wifi s @ ys"
proof -
  from assms have "waiting_grows s t"
  proof (induction rule: legal.induct)
    case (legal_Cons s c u cs v)
    then show ?case using waiting_step waiting_grows_trans by blast
  qed simp
  then show ?thesis by (simp add: waiting_grows_def)
qed

theorem waiting_lists_only_grow_witness:
  "\<exists>ys. url_to_download_wifi (the (run (service_step list_model disk_service_env)
      ((new_download_service [waiting_entry] [] connected)\<lparr>url_to_download_wifi := [''w'']\<rparr>)
      [OnConnectionChanged CONNECTION_WIFI, OnConnectionChanged CONNECTION_NONE])) = ''w'' # ys"
proof -
  have "case run_checked (service_step list_model disk_service_env) (service_event_allowed list_model disk_service_env)
      ((new_download_service [waiting_entry] [] connected)\<lparr>url_to_download_wifi := [''w'']\<rparr>)
      [OnConnectionChanged CONNECTION_WIFI, OnConnectionChanged CONNECTION_NONE] of None \<Rightarrow> False | Some s \<Rightarrow> True"
    by code_simp
  then obtain s where s: "legal (service_step list_model disk_service_env) (service_event_allowed list_model disk_service_env)
      ((new_download_service [waiting_entry] [] connected)\<lparr>url_to_download_wifi := [''w'']\<rparr>)
      [OnConnectionChanged CONNECTION_WIFI, OnConnectionChanged CONNECTION_NONE] s"
    by (rule run_checked_witness)
  from waiting_lists_only_grow [OF s] legal_run [OF s] show ?thesis by auto
qed


end
