(* ===== verification/BrowserStates.thy ===== *)
theory BrowserStates
  imports Prelude "HOL-Library.AList" "HOL-Library.Char_ord" "HOL-Library.List_Lexorder"
    "HOL-Library.Word"
begin

text \<open>
  The browser states (profiles) and the information about them kept in local preferences:
  \<open>chrome/browser/browser_state/browser_state_info_cache.{h,cc}\<close> and
  \<open>chrome_browser_state_manager_impl.{h,cc}\<close>.

  A dictionary of preferences is an association list. Paths, the removal of a key of a
  dictionary by \<open>path\<close> (which a library splits at dots), the primary account of a browser
  state and the file sizes under a directory are fields of \<open>states_env\<close>.
\<close>

datatype pref_value = StringValue string | BooleanValue bool

type_synonym info = "(string \<times> pref_value) list"
type_synonym info_dictionary = "(string \<times> info) list"

record states_env =
  dir_name :: "string \<Rightarrow> string"
  base_name :: "string \<Rightarrow> string"
  maybe_as_ascii :: "string \<Rightarrow> string"
  append_ascii :: "string \<Rightarrow> string \<Rightarrow> string"
  remove_at_path :: "string \<Rightarrow> info_dictionary \<Rightarrow> info_dictionary"
  primary_account :: "nat \<Rightarrow> string \<times> string"
  file_sizes :: "string \<Rightarrow> string \<Rightarrow> int list"
  user_data_directory :: string

definition get_string :: "info \<Rightarrow> string \<Rightarrow> string" where
  "get_string i k = (case map_of i k of Some (StringValue s) \<Rightarrow> s | _ \<Rightarrow> [])"

definition get_boolean :: "info \<Rightarrow> string \<Rightarrow> bool" where
  "get_boolean i k = (case map_of i k of Some (BooleanValue b) \<Rightarrow> b | _ \<Rightarrow> False)"

section \<open>The cache\<close>

definition kGAIAIdKey :: string where "kGAIAIdKey = ''gaia_id''"
definition kIsAuthErrorKey :: string where "kIsAuthErrorKey = ''is_auth_error''"
definition kUserNameKey :: string where "kUserNameKey = ''user_name''"

datatype cache_event = OnBrowserStateAdded string | OnBrowserStateWasRemoved string

record browser_state_info_cache =
  cache_prefs :: info_dictionary
  sorted_keys :: "string list"
  user_data_dir :: string
  cache_observers :: "nat list"
  cache_events :: "(nat \<times> cache_event) list"

text \<open>\<open>std::upper_bound\<close> on a sorted vector: before the first key that is greater.\<close>

fun insert_at_upper_bound :: "string \<Rightarrow> string list \<Rightarrow> string list" where
  "insert_at_upper_bound key [] = [key]"
| "insert_at_upper_bound key (k # ks) =
     (if key < k then key # k # ks else k # insert_at_upper_bound key ks)"

definition add_browser_state_cache_key ::
  "browser_state_info_cache \<Rightarrow> string \<Rightarrow> browser_state_info_cache" where
  "add_browser_state_cache_key c key = c\<lparr>sorted_keys := insert_at_upper_bound key (sorted_keys c)\<rparr>"

definition new_browser_state_info_cache ::
  "info_dictionary \<Rightarrow> string \<Rightarrow> browser_state_info_cache" where
  "new_browser_state_info_cache prefs dir =
     fold (\<lambda>(key, _) c. add_browser_state_cache_key c key) prefs
       \<lparr>cache_prefs = prefs, sorted_keys = [], user_data_dir = dir, cache_observers = [],
        cache_events = []\<rparr>"

definition cache_key_from_browser_state_path ::
  "states_env \<Rightarrow> browser_state_info_cache \<Rightarrow> string \<Rightarrow> string option" where
  "cache_key_from_browser_state_path env c path = do {
     dcheck (user_data_dir c = dir_name env path);
     Some (maybe_as_ascii env (base_name env path))
   }"

definition tell_cache_observers ::
  "browser_state_info_cache \<Rightarrow> cache_event \<Rightarrow> browser_state_info_cache" where
  "tell_cache_observers c e =
     c\<lparr>cache_events := cache_events c @ map (\<lambda>ob. (ob, e)) (cache_observers c)\<rparr>"

definition add_browser_state ::
  "states_env \<Rightarrow> browser_state_info_cache \<Rightarrow> string \<Rightarrow> string \<Rightarrow> string
     \<Rightarrow> browser_state_info_cache option" where
  "add_browser_state env c path gaia_id user_name = do {
     key \<leftarrow> cache_key_from_browser_state_path env c path;
     let info = [(kGAIAIdKey, StringValue gaia_id), (kUserNameKey, StringValue user_name)];
     let c1 = c\<lparr>cache_prefs := AList.update key info (cache_prefs c)\<rparr>;
     let c2 = add_browser_state_cache_key c1 key;
     Some (tell_cache_observers c2 (OnBrowserStateAdded path))
   }"

definition add_cache_observer :: "browser_state_info_cache \<Rightarrow> nat \<Rightarrow> browser_state_info_cache" where
  "add_cache_observer c ob = c\<lparr>cache_observers := cache_observers c @ [ob]\<rparr>"

definition remove_cache_observer :: "browser_state_info_cache \<Rightarrow> nat \<Rightarrow> browser_state_info_cache" where
  "remove_cache_observer c ob = c\<lparr>cache_observers := removeAll ob (cache_observers c)\<rparr>"

definition get_number_of_browser_states :: "browser_state_info_cache \<Rightarrow> nat" where
  "get_number_of_browser_states c = length (sorted_keys c)"

fun index_of_key :: "string \<Rightarrow> string list \<Rightarrow> nat option" where
  "index_of_key key [] = None"
| "index_of_key key (k # ks) = (if k = key then Some 0 else map_option Suc (index_of_key key ks))"

text \<open>The outer option is a failed check, the inner one \<open>std::string::npos\<close>.\<close>

definition get_index_of_browser_state_with_path ::
  "states_env \<Rightarrow> browser_state_info_cache \<Rightarrow> string \<Rightarrow> nat option option" where
  "get_index_of_browser_state_with_path env c path =
     (if dir_name env path \<noteq> user_data_dir c then Some None
      else map_option (\<lambda>search_key. index_of_key search_key (sorted_keys c))
             (cache_key_from_browser_state_path env c path))"

definition remove_browser_state ::
  "states_env \<Rightarrow> browser_state_info_cache \<Rightarrow> string \<Rightarrow> browser_state_info_cache option" where
  "remove_browser_state env c path = do {
     index \<leftarrow> get_index_of_browser_state_with_path env c path;
     dcheck (index \<noteq> None);
     key \<leftarrow> cache_key_from_browser_state_path env c path;
     let c1 = c\<lparr>cache_prefs := remove_at_path env key (cache_prefs c)\<rparr>;
     let c2 = c1\<lparr>sorted_keys := remove1 key (sorted_keys c1)\<rparr>;
     Some (tell_cache_observers c2 (OnBrowserStateWasRemoved path))
   }"

text \<open>Reading through the null pointer of a missing dictionary ends the program.\<close>

definition get_info_for_browser_state_at_index ::
  "browser_state_info_cache \<Rightarrow> nat \<Rightarrow> info option" where
  "get_info_for_browser_state_at_index c index = do {
     dcheck (index < get_number_of_browser_states c);
     map_of (cache_prefs c) (sorted_keys c ! index)
   }"

definition set_info_for_browser_state_at_index ::
  "browser_state_info_cache \<Rightarrow> nat \<Rightarrow> info \<Rightarrow> browser_state_info_cache" where
  "set_info_for_browser_state_at_index c index info =
     c\<lparr>cache_prefs := AList.update (sorted_keys c ! index) info (cache_prefs c)\<rparr>"

definition get_user_name_of_browser_state_at_index ::
  "browser_state_info_cache \<Rightarrow> nat \<Rightarrow> string option" where
  "get_user_name_of_browser_state_at_index c index =
     map_option (\<lambda>info. get_string info kUserNameKey) (get_info_for_browser_state_at_index c index)"

definition get_path_of_browser_state_at_index ::
  "states_env \<Rightarrow> browser_state_info_cache \<Rightarrow> nat \<Rightarrow> string option" where
  "get_path_of_browser_state_at_index env c index =
     (if index < length (sorted_keys c)
      then Some (append_ascii env (user_data_dir c) (sorted_keys c ! index)) else None)"

definition get_gaia_id_of_browser_state_at_index ::
  "browser_state_info_cache \<Rightarrow> nat \<Rightarrow> string option" where
  "get_gaia_id_of_browser_state_at_index c index =
     map_option (\<lambda>info. get_string info kGAIAIdKey) (get_info_for_browser_state_at_index c index)"

definition browser_state_is_authenticated_at_index ::
  "browser_state_info_cache \<Rightarrow> nat \<Rightarrow> bool option" where
  "browser_state_is_authenticated_at_index c index = do {
     gaia \<leftarrow> get_gaia_id_of_browser_state_at_index c index;
     name \<leftarrow> get_user_name_of_browser_state_at_index c index;
     Some (gaia \<noteq> [] \<or> name \<noteq> [])
   }"

definition browser_state_is_auth_error_at_index ::
  "browser_state_info_cache \<Rightarrow> nat \<Rightarrow> bool option" where
  "browser_state_is_auth_error_at_index c index =
     map_option (\<lambda>info. get_boolean info kIsAuthErrorKey) (get_info_for_browser_state_at_index c index)"

definition set_auth_info_of_browser_state_at_index ::
  "browser_state_info_cache \<Rightarrow> nat \<Rightarrow> string \<Rightarrow> string \<Rightarrow> browser_state_info_cache option" where
  "set_auth_info_of_browser_state_at_index c index gaia_id user_name = do {
     gaia \<leftarrow> get_gaia_id_of_browser_state_at_index c index;
     name \<leftarrow> get_user_name_of_browser_state_at_index c index;
     if gaia_id = gaia \<and> user_name = name then Some c
     else do {
       info \<leftarrow> get_info_for_browser_state_at_index c index;
       let info1 = AList.update kGAIAIdKey (StringValue gaia_id) info;
       let info2 = AList.update kUserNameKey (StringValue user_name) info1;
       Some (set_info_for_browser_state_at_index c index info2)
     }
   }"

definition set_browser_state_is_auth_error_at_index ::
  "browser_state_info_cache \<Rightarrow> nat \<Rightarrow> bool \<Rightarrow> browser_state_info_cache option" where
  "set_browser_state_is_auth_error_at_index c index value = do {
     old \<leftarrow> browser_state_is_auth_error_at_index c index;
     if value = old then Some c
     else do {
       info \<leftarrow> get_info_for_browser_state_at_index c index;
       Some (set_info_for_browser_state_at_index c index
               (AList.update kIsAuthErrorKey (BooleanValue value) info))
     }
   }"

section \<open>The manager\<close>

text \<open>The counts of \<open>browser_state_metrics.cc\<close>.\<close>

record state_counts =
  total :: nat
  signedin :: nat
  auth_errors :: nat

fun count_states :: "browser_state_info_cache \<Rightarrow> nat list \<Rightarrow> state_counts \<Rightarrow> state_counts option" where
  "count_states c [] counts = Some counts"
| "count_states c (i # is) counts = do {
     authenticated \<leftarrow> browser_state_is_authenticated_at_index c i;
     if authenticated then do {
       failed \<leftarrow> browser_state_is_auth_error_at_index c i;
       let counts1 = counts\<lparr>signedin := signedin counts + 1\<rparr>;
       count_states c is (if failed then counts1\<lparr>auth_errors := auth_errors counts1 + 1\<rparr> else counts1)
     }
     else count_states c is counts
   }"

definition count_browser_state_information :: "browser_state_info_cache \<Rightarrow> state_counts option" where
  "count_browser_state_information c =
     (let n = get_number_of_browser_states c
      in count_states c [0..<n] \<lparr>total = n, signedin = 0, auth_errors = 0\<rparr>)"

text \<open>
  A loaded browser state is a number; \<open>owned_states\<close> is the map from paths to states, with its
  entries in the order of the paths. \<open>posted_size_tasks\<close> are the size tasks posted with
  their delay, \<open>logged_counts\<close> the numbers of browser states logged.
\<close>

record browser_state_manager =
  owned_states :: "(string \<times> nat) list"
  next_state :: nat
  info_cache :: "browser_state_info_cache option"
  local_cache_prefs :: info_dictionary
  last_used_name :: string
  posted_size_tasks :: "(string \<times> int) list"
  logged_counts :: "state_counts list"

definition new_browser_state_manager ::
  "info_dictionary \<Rightarrow> string \<Rightarrow> browser_state_manager" where
  "new_browser_state_manager prefs last_used =
     \<lparr>owned_states = [], next_state = 0, info_cache = None, local_cache_prefs = prefs,
      last_used_name = last_used, posted_size_tasks = [], logged_counts = []\<rparr>"

definition kIOSChromeInitialBrowserState :: string where
  "kIOSChromeInitialBrowserState = ''Default''"

definition get_last_used_browser_state_dir ::
  "states_env \<Rightarrow> browser_state_manager \<Rightarrow> string \<Rightarrow> string" where
  "get_last_used_browser_state_dir env m dir =
     (let name = (if last_used_name m = [] then kIOSChromeInitialBrowserState else last_used_name m)
      in append_ascii env dir name)"

definition get_browser_state_info_cache ::
  "states_env \<Rightarrow> browser_state_manager \<Rightarrow> browser_state_manager \<times> browser_state_info_cache" where
  "get_browser_state_info_cache env m =
     (case info_cache m of
        Some c \<Rightarrow> (m, c)
      | None \<Rightarrow> let c = new_browser_state_info_cache (local_cache_prefs m) (user_data_directory env)
                in (m\<lparr>info_cache := Some c\<rparr>, c))"

definition get_loaded_browser_states :: "browser_state_manager \<Rightarrow> nat list" where
  "get_loaded_browser_states m = map snd (owned_states m)"

definition add_browser_state_to_cache ::
  "states_env \<Rightarrow> browser_state_manager \<Rightarrow> nat \<Rightarrow> string \<Rightarrow> browser_state_manager option" where
  "add_browser_state_to_cache env m state path = do {
     let (m1, c) = get_browser_state_info_cache env m;
     if dir_name env path \<noteq> user_data_dir c then Some m1
     else do {
       let (gaia, username) = primary_account env state;
       index \<leftarrow> get_index_of_browser_state_with_path env c path;
       c1 \<leftarrow> (case index of
               Some i \<Rightarrow> set_auth_info_of_browser_state_at_index c i gaia username
             | None \<Rightarrow> add_browser_state env c path gaia username);
       Some (m1\<lparr>info_cache := Some c1\<rparr>)
     }
   }"

text \<open>Sizes are \<open>int64_t\<close>, the megabytes an \<open>int\<close>.\<close>

definition compute_files_size :: "states_env \<Rightarrow> string \<Rightarrow> string \<Rightarrow> 64 word" where
  "compute_files_size env dir pattern = fold (\<lambda>s acc. acc + word_of_int s) (file_sizes env dir pattern) 0"

definition kBytesInOneMB :: "64 word" where "kBytesInOneMB = 1024 * 1024"

definition size_mb :: "64 word \<Rightarrow> int" where
  "size_mb n = sint (word_of_int (c_div (sint n) (sint kBytesInOneMB)) :: 32 word)"

definition size_histograms :: "(string \<times> string) list" where
  "size_histograms =
     [(''Profile.TotalSize'', ''*''), (''Profile.HistorySize'', ''History''),
      (''Profile.TotalHistorySize'', ''History*''), (''Profile.CookiesSize'', ''Cookies''),
      (''Profile.BookmarksSize'', ''Bookmarks''), (''Profile.FaviconsSize'', ''Favicons''),
      (''Profile.TopSitesSize'', ''Top Sites''), (''Profile.VisitedLinksSize'', ''Visited Links''),
      (''Profile.WebDataSize'', ''Web Data''), (''Profile.ExtensionSize'', ''Extension*'')]"

definition browser_state_size_task :: "states_env \<Rightarrow> string \<Rightarrow> (string \<times> int) list" where
  "browser_state_size_task env path =
     map (\<lambda>(histogram, pattern). (histogram, size_mb (compute_files_size env path pattern)))
       size_histograms"

definition do_final_init ::
  "states_env \<Rightarrow> browser_state_manager \<Rightarrow> nat \<Rightarrow> string \<Rightarrow> browser_state_manager option" where
  "do_final_init env m state path = do {
     m1 \<leftarrow> add_browser_state_to_cache env m state path;
     let m2 = m1\<lparr>posted_size_tasks := posted_size_tasks m1 @ [(path, 112)]\<rparr>;
     let (m3, c) = get_browser_state_info_cache env m2;
     counts \<leftarrow> count_browser_state_information c;
     Some (m3\<lparr>logged_counts := logged_counts m3 @ [counts]\<rparr>)
   }"

definition get_browser_state ::
  "states_env \<Rightarrow> browser_state_manager \<Rightarrow> string \<Rightarrow> (browser_state_manager \<times> nat) option" where
  "get_browser_state env m path =
     (case map_of (owned_states m) path of
        Some state \<Rightarrow> Some (m, state)
      | None \<Rightarrow> do {
          let state = next_state m;
          let m1 = m\<lparr>owned_states := insort_key fst (path, state) (owned_states m),
                     next_state := state + 1\<rparr>;
          m2 \<leftarrow> do_final_init env m1 state path;
          Some (m2, state)
        })"

definition get_last_used_browser_state ::
  "states_env \<Rightarrow> browser_state_manager \<Rightarrow> (browser_state_manager \<times> nat) option" where
  "get_last_used_browser_state env m =
     get_browser_state env m (get_last_used_browser_state_dir env m (user_data_directory env))"

end
