(* ===== verification/BrowserStatesFacts.thy ===== *)
theory BrowserStatesFacts
  imports BrowserStates
begin

text \<open>
  The cache of browser states stays in step with the preferences it is read from, the
  manager loads a browser state at most once for a path, and its cache entry agrees with the
  primary account. The last property is the one removal the cache does not make stick.
\<close>

section \<open>The keys\<close>

lemma set_insert_at_upper_bound [simp]: "set (insert_at_upper_bound k ks) = insert k (set ks)"
  by (induction ks) auto

lemma length_insert_at_upper_bound [simp]: "length (insert_at_upper_bound k ks) = Suc (length ks)"
  by (induction ks) auto

lemma sorted_insert_at_upper_bound: "sorted ks \<Longrightarrow> sorted (insert_at_upper_bound k ks)"
  by (induction ks) auto

lemma distinct_insert_at_upper_bound:
  "distinct ks \<Longrightarrow> k \<notin> set ks \<Longrightarrow> distinct (insert_at_upper_bound k ks)"
  by (induction ks) auto

lemma index_of_key_None: "index_of_key k ks = None \<longleftrightarrow> k \<notin> set ks"
  by (induction ks) auto

lemma index_of_key_Some: "index_of_key k ks = Some i \<Longrightarrow> i < length ks \<and> ks ! i = k"
  by (induction ks arbitrary: i) (auto split: if_splits)

definition cache_ok :: "browser_state_info_cache \<Rightarrow> bool" where
  "cache_ok c \<longleftrightarrow> sorted (sorted_keys c) \<and> distinct (sorted_keys c)
     \<and> distinct (map fst (cache_prefs c)) \<and> set (sorted_keys c) = fst ` set (cache_prefs c)"

lemma new_cache_fold:
  assumes "distinct (map fst ps)" and "sorted (sorted_keys c)" and "distinct (sorted_keys c)"
    and "set (sorted_keys c) \<inter> fst ` set ps = {}"
  shows "\<exists>ks. fold (\<lambda>(key, _) c. add_browser_state_cache_key c key) ps c = c\<lparr>sorted_keys := ks\<rparr>
    \<and> sorted ks \<and> distinct ks \<and> set ks = set (sorted_keys c) \<union> fst ` set ps"
  using assms
proof (induction ps arbitrary: c)
  case Nil
  show ?case by (rule exI [of _ "sorted_keys c"]) (use Nil in simp)
next
  case (Cons p ps)
  obtain k i where p: "p = (k, i)" by (cases p)
  define c1 where "c1 = add_browser_state_cache_key c k"
  have c1: "sorted (sorted_keys c1)" "distinct (sorted_keys c1)" "set (sorted_keys c1) = insert k (set (sorted_keys c))"
    using Cons.prems p by (simp_all add: c1_def add_browser_state_cache_key_def
        sorted_insert_at_upper_bound distinct_insert_at_upper_bound)
  have "distinct (map fst ps)" "set (sorted_keys c1) \<inter> fst ` set ps = {}"
    using Cons.prems p c1(3) by (auto simp: image_iff)
  from Cons.IH [OF this(1) c1(1,2) this(2)] obtain ks where
    ks: "fold (\<lambda>(key, _) c. add_browser_state_cache_key c key) ps c1 = c1\<lparr>sorted_keys := ks\<rparr>"
    "sorted ks" "distinct ks" "set ks = set (sorted_keys c1) \<union> fst ` set ps" by blast
  show ?case
    by (rule exI [of _ ks]) (use ks c1(3) p in \<open>simp add: c1_def [symmetric]\<close>,
        simp add: c1_def add_browser_state_cache_key_def)
qed

lemma new_cache_ok:
  assumes "distinct (map fst prefs)"
  shows "cache_ok (new_browser_state_info_cache prefs dir)"
    "cache_prefs (new_browser_state_info_cache prefs dir) = prefs"
    "user_data_dir (new_browser_state_info_cache prefs dir) = dir"
proof -
  obtain ks where ks: "new_browser_state_info_cache prefs dir =
      \<lparr>cache_prefs = prefs, sorted_keys = ks, user_data_dir = dir, cache_observers = [], cache_events = []\<rparr>"
    "sorted ks" "distinct ks" "set ks = fst ` set prefs"
    using new_cache_fold [OF assms, of "\<lparr>cache_prefs = prefs, sorted_keys = [], user_data_dir = dir,
        cache_observers = [], cache_events = []\<rparr>"]
    by (auto simp: new_browser_state_info_cache_def)
  then show "cache_ok (new_browser_state_info_cache prefs dir)"
    "cache_prefs (new_browser_state_info_cache prefs dir) = prefs"
    "user_data_dir (new_browser_state_info_cache prefs dir) = dir"
    using assms by (simp_all add: cache_ok_def)
qed

lemma cache_ok_info:
  assumes "cache_ok c" and "i < length (sorted_keys c)"
  obtains info where "get_info_for_browser_state_at_index c i = Some info"
    "map_of (cache_prefs c) (sorted_keys c ! i) = Some info"
proof -
  have "sorted_keys c ! i \<in> fst ` set (cache_prefs c)" using assms by (metis cache_ok_def nth_mem)
  then obtain info where "map_of (cache_prefs c) (sorted_keys c ! i) = Some info"
    by (metis map_of_eq_None_iff not_None_eq)
  with that assms(2) show ?thesis
    by (simp add: get_info_for_browser_state_at_index_def get_number_of_browser_states_def)
qed

lemma set_info_ok:
  assumes "cache_ok c" and "i < length (sorted_keys c)"
  shows "cache_ok (set_info_for_browser_state_at_index c i info)"
    "get_info_for_browser_state_at_index (set_info_for_browser_state_at_index c i info) i = Some info"
proof -
  have "sorted_keys c ! i \<in> fst ` set (cache_prefs c)" using assms by (metis cache_ok_def nth_mem)
  then show "cache_ok (set_info_for_browser_state_at_index c i info)"
    using assms(1) by (simp add: cache_ok_def set_info_for_browser_state_at_index_def
        dom_update distinct_update insert_absorb)
  show "get_info_for_browser_state_at_index (set_info_for_browser_state_at_index c i info) i = Some info"
    using assms(2) by (simp add: get_info_for_browser_state_at_index_def get_number_of_browser_states_def
        set_info_for_browser_state_at_index_def update_conv')
qed

lemma add_browser_state_ok:
  assumes "cache_ok c" and "dir_name env path = user_data_dir c"
    and "maybe_as_ascii env (base_name env path) \<notin> set (sorted_keys c)"
  obtains c' where "add_browser_state env c path gaia name = Some c'" "cache_ok c'"
    "user_data_dir c' = user_data_dir c"
    "cache_prefs c' = AList.update (maybe_as_ascii env (base_name env path))
       [(kGAIAIdKey, StringValue gaia), (kUserNameKey, StringValue name)] (cache_prefs c)"
    "set (sorted_keys c') = insert (maybe_as_ascii env (base_name env path)) (set (sorted_keys c))"
proof -
  define k where "k = maybe_as_ascii env (base_name env path)"
  define d where "d = AList.update k [(kGAIAIdKey, StringValue gaia), (kUserNameKey, StringValue name)] (cache_prefs c)"
  define c' where "c' = tell_cache_observers (c\<lparr>cache_prefs := d, sorted_keys := insert_at_upper_bound k (sorted_keys c)\<rparr>)
    (OnBrowserStateAdded path)"
  have f: "sorted_keys c' = insert_at_upper_bound k (sorted_keys c)" "cache_prefs c' = d"
    "user_data_dir c' = user_data_dir c"
    by (simp_all add: c'_def tell_cache_observers_def)
  have add: "add_browser_state env c path gaia name = Some c'"
    using assms(2) by (simp add: add_browser_state_def cache_key_from_browser_state_path_def c'_def
        add_browser_state_cache_key_def k_def d_def)
  have "distinct (map fst d)" "fst ` set d = insert k (fst ` set (cache_prefs c))"
    using assms(1) by (simp_all add: d_def cache_ok_def dom_update distinct_update)
  then have "cache_ok c'"
    using assms(1,3) unfolding cache_ok_def f
    by (simp add: sorted_insert_at_upper_bound distinct_insert_at_upper_bound k_def)
  with add f that show ?thesis by (simp add: k_def d_def)
qed

section \<open>Reading and writing the account\<close>

lemma keys_distinct [simp]:
  "kGAIAIdKey \<noteq> kUserNameKey" "kUserNameKey \<noteq> kGAIAIdKey"
  "kIsAuthErrorKey \<noteq> kGAIAIdKey" "kIsAuthErrorKey \<noteq> kUserNameKey"
  by (simp_all add: kGAIAIdKey_def kUserNameKey_def kIsAuthErrorKey_def)

lemma set_auth_info_ok:
  assumes "cache_ok c" and "i < length (sorted_keys c)"
  obtains c' where "set_auth_info_of_browser_state_at_index c i gaia name = Some c'" "cache_ok c'"
    "sorted_keys c' = sorted_keys c" "user_data_dir c' = user_data_dir c"
    "get_gaia_id_of_browser_state_at_index c' i = Some gaia"
    "get_user_name_of_browser_state_at_index c' i = Some name"
proof -
  obtain info where info: "get_info_for_browser_state_at_index c i = Some info"
    using cache_ok_info [OF assms] by blast
  show ?thesis
  proof (cases "gaia = get_string info kGAIAIdKey \<and> name = get_string info kUserNameKey")
    case True
    with that [of c] info assms(1) show ?thesis
      by (simp add: set_auth_info_of_browser_state_at_index_def get_gaia_id_of_browser_state_at_index_def
          get_user_name_of_browser_state_at_index_def)
  next
    case False
    define info' where "info' = AList.update kUserNameKey (StringValue name)
      (AList.update kGAIAIdKey (StringValue gaia) info)"
    define c' where "c' = set_info_for_browser_state_at_index c i info'"
    have "set_auth_info_of_browser_state_at_index c i gaia name = Some c'"
      using False info by (auto simp: set_auth_info_of_browser_state_at_index_def c'_def info'_def
          get_gaia_id_of_browser_state_at_index_def get_user_name_of_browser_state_at_index_def)
    moreover have "cache_ok c'" "get_info_for_browser_state_at_index c' i = Some info'"
      unfolding c'_def by (rule set_info_ok [OF assms])+
    moreover have "sorted_keys c' = sorted_keys c" "user_data_dir c' = user_data_dir c"
      by (simp_all add: c'_def set_info_for_browser_state_at_index_def)
    moreover have "get_string info' kGAIAIdKey = gaia" "get_string info' kUserNameKey = name"
      by (simp_all add: info'_def get_string_def update_conv')
    ultimately show ?thesis
      by (intro that [of c']) (simp_all add: get_gaia_id_of_browser_state_at_index_def
          get_user_name_of_browser_state_at_index_def)
  qed
qed

lemma count_states_total:
  assumes "cache_ok c" and "\<forall>i \<in> set is. i < length (sorted_keys c)"
  shows "\<exists>n. count_states c is counts = Some n"
  using assms(2)
proof (induction "is" arbitrary: counts)
  case (Cons i "is")
  obtain info where "get_info_for_browser_state_at_index c i = Some info"
    using cache_ok_info [OF assms(1), of i] Cons.prems by auto
  with Cons show ?case
    by (simp add: browser_state_is_authenticated_at_index_def browser_state_is_auth_error_at_index_def
        get_gaia_id_of_browser_state_at_index_def get_user_name_of_browser_state_at_index_def Let_def)
qed simp

section \<open>The manager\<close>

definition manager_ok :: "states_env \<Rightarrow> browser_state_manager \<Rightarrow> bool" where
  "manager_ok env m \<longleftrightarrow>
     (case info_cache m of
        None \<Rightarrow> distinct (map fst (local_cache_prefs m))
      | Some c \<Rightarrow> cache_ok c \<and> user_data_dir c = user_data_directory env)
     \<and> distinct (map fst (owned_states m)) \<and> distinct (map snd (owned_states m))
     \<and> (\<forall>s \<in> snd ` set (owned_states m). s < next_state m)"

lemma get_cache_ok:
  assumes "manager_ok env m"
  obtains c where "get_browser_state_info_cache env m = (m\<lparr>info_cache := Some c\<rparr>, c)" "cache_ok c"
    "user_data_dir c = user_data_directory env"
proof (cases "info_cache m")
  case None
  with assms have "distinct (map fst (local_cache_prefs m))" by (simp add: manager_ok_def)
  note c = new_cache_ok [OF this, of "user_data_directory env"]
  show ?thesis
    by (rule that [OF _ c(1,3)]) (simp add: None get_browser_state_info_cache_def Let_def)
next
  case (Some c)
  then have "m\<lparr>info_cache := Some c\<rparr> = m" by simp
  with assms Some that show ?thesis by (simp add: get_browser_state_info_cache_def manager_ok_def)
qed

definition cache_agrees :: "states_env \<Rightarrow> browser_state_info_cache \<Rightarrow> nat \<Rightarrow> string \<Rightarrow> bool" where
  "cache_agrees env c state path \<longleftrightarrow>
     (\<exists>i. get_index_of_browser_state_with_path env c path = Some (Some i)
        \<and> get_gaia_id_of_browser_state_at_index c i = Some (fst (primary_account env state))
        \<and> get_user_name_of_browser_state_at_index c i = Some (snd (primary_account env state)))"

lemma add_to_cache_ok:
  assumes "manager_ok env m"
  shows "\<exists>c. add_browser_state_to_cache env m state path = Some (m\<lparr>info_cache := Some c\<rparr>)
    \<and> cache_ok c \<and> user_data_dir c = user_data_directory env
    \<and> (dir_name env path = user_data_directory env \<longrightarrow> cache_agrees env c state path)"
proof -
  obtain c where c: "get_browser_state_info_cache env m = (m\<lparr>info_cache := Some c\<rparr>, c)" "cache_ok c"
    "user_data_dir c = user_data_directory env" using assms by (rule get_cache_ok)
  define k where "k = maybe_as_ascii env (base_name env path)"
  obtain gaia name where acc: "primary_account env state = (gaia, name)"
    by (cases "primary_account env state")
  show ?thesis
  proof (cases "dir_name env path = user_data_directory env")
    case False
    with c show ?thesis by (auto simp: add_browser_state_to_cache_def)
  next
    case True
    have key: "cache_key_from_browser_state_path env e path = Some k" if "user_data_dir e = user_data_dir c" for e
      using True c(3) that by (simp add: cache_key_from_browser_state_path_def k_def)
    have index: "get_index_of_browser_state_with_path env e path = Some (index_of_key k (sorted_keys e))"
      if "user_data_dir e = user_data_dir c" for e
      using True c(3) that key [of e] by (simp add: get_index_of_browser_state_with_path_def)
    show ?thesis
    proof (cases "index_of_key k (sorted_keys c)")
      case (Some i)
      then have "i < length (sorted_keys c)" using index_of_key_Some by blast
      from set_auth_info_ok [OF c(2) this, of gaia name]
      obtain c' where c': "set_auth_info_of_browser_state_at_index c i gaia name = Some c'" "cache_ok c'"
        "sorted_keys c' = sorted_keys c" "user_data_dir c' = user_data_dir c"
        "get_gaia_id_of_browser_state_at_index c' i = Some gaia"
        "get_user_name_of_browser_state_at_index c' i = Some name" .
      have "add_browser_state_to_cache env m state path = Some (m\<lparr>info_cache := Some c'\<rparr>)"
        using True c acc index [of c] Some c'(1) by (simp add: add_browser_state_to_cache_def)
      with c' c(3) acc index [of c'] Some show ?thesis by (auto simp: cache_agrees_def)
    next
      case None
      then have k: "maybe_as_ascii env (base_name env path) \<notin> set (sorted_keys c)"
        by (simp add: index_of_key_None k_def)
      have dir: "dir_name env path = user_data_dir c" using True c(3) by simp
      obtain c' where c': "add_browser_state env c path gaia name = Some c'" "cache_ok c'"
        "user_data_dir c' = user_data_dir c"
        "cache_prefs c' = AList.update k
           [(kGAIAIdKey, StringValue gaia), (kUserNameKey, StringValue name)] (cache_prefs c)"
        "set (sorted_keys c') = insert k (set (sorted_keys c))"
        unfolding k_def by (rule add_browser_state_ok [OF c(2) dir k])
      obtain i where i: "index_of_key k (sorted_keys c') = Some i"
        using c'(5) index_of_key_None by (metis insertI1 not_None_eq)
      note i' = index_of_key_Some [OF i]
      have "get_info_for_browser_state_at_index c' i =
          Some [(kGAIAIdKey, StringValue gaia), (kUserNameKey, StringValue name)]"
        using i' by (simp add: get_info_for_browser_state_at_index_def get_number_of_browser_states_def
            c'(4) update_conv')
      then have "cache_agrees env c' state path"
        using index [OF c'(3)] i acc
        by (auto simp: cache_agrees_def get_gaia_id_of_browser_state_at_index_def get_string_def
            get_user_name_of_browser_state_at_index_def)
      moreover have "add_browser_state_to_cache env m state path = Some (m\<lparr>info_cache := Some c'\<rparr>)"
        using True c acc index [of c] None c'(1) by (simp add: add_browser_state_to_cache_def)
      ultimately show ?thesis using c'(2,3) c(3) by auto
    qed
  qed
qed

lemma map_of_insort_key:
  "p \<notin> fst ` set xs \<Longrightarrow> map_of (insort_key fst (p, s) xs) q = (if q = p then Some s else map_of xs q)"
  by (induction xs) auto

lemma get_browser_state_ok:
  assumes "manager_ok env m"
  shows "\<exists>m' s. get_browser_state env m path = Some (m', s) \<and> manager_ok env m'
    \<and> map_of (owned_states m') path = Some s
    \<and> fst ` set (owned_states m') = insert path (fst ` set (owned_states m))
    \<and> (map_of (owned_states m) path = None \<and> dir_name env path = user_data_directory env \<longrightarrow>
         (\<exists>c. info_cache m' = Some c \<and> cache_agrees env c s path))"
proof (cases "map_of (owned_states m) path")
  case (Some s)
  then have "path \<in> fst ` set (owned_states m)" by (metis domI dom_map_of_conv_image_fst)
  with Some assms show ?thesis by (auto simp: get_browser_state_def)
next
  case None
  then have new: "path \<notin> fst ` set (owned_states m)" by (simp add: map_of_eq_None_iff)
  define s where "s = next_state m"
  define m1 where "m1 = m\<lparr>owned_states := insort_key fst (path, s) (owned_states m), next_state := Suc s\<rparr>"
  have "s \<notin> snd ` set (owned_states m)" using assms by (auto simp: manager_ok_def s_def)
  moreover have "(path, s) \<notin> set (owned_states m)" using new by (metis fst_conv imageI)
  ultimately have ok1: "manager_ok env m1"
    using new assms
    by (auto simp: manager_ok_def m1_def s_def distinct_map inj_on_def set_insort_key distinct_insort less_Suc_eq
        split: option.splits)
  obtain c where c: "add_browser_state_to_cache env m1 s path = Some (m1\<lparr>info_cache := Some c\<rparr>)"
    "cache_ok c" "user_data_dir c = user_data_directory env"
    "dir_name env path = user_data_directory env \<longrightarrow> cache_agrees env c s path"
    using add_to_cache_ok [OF ok1] by blast
  obtain counts where counts: "count_browser_state_information c = Some counts"
    using count_states_total [OF c(2), of "[0..<length (sorted_keys c)]"]
    by (auto simp: count_browser_state_information_def get_number_of_browser_states_def Let_def)
  define m2 where "m2 = m1\<lparr>info_cache := Some c, posted_size_tasks := posted_size_tasks m1 @ [(path, 112)],
    logged_counts := logged_counts m1 @ [counts]\<rparr>"
  have "get_browser_state env m path = Some (m2, s)"
    using None c(1) counts
    by (simp add: get_browser_state_def do_final_init_def s_def [symmetric] m1_def [symmetric] m2_def
        get_browser_state_info_cache_def Let_def)
  moreover have "manager_ok env m2"
    using ok1 c(2,3) by (simp add: manager_ok_def m2_def)
  moreover have "map_of (owned_states m2) path = Some s"
    using new by (simp add: m2_def m1_def map_of_insort_key)
  moreover have "fst ` set (owned_states m2) = insert path (fst ` set (owned_states m))"
    by (simp add: m2_def m1_def set_insort_key)
  ultimately show ?thesis using c(4) by (auto simp: m2_def)
qed


section \<open>Properties\<close>

definition load_state :: "states_env \<Rightarrow> browser_state_manager \<Rightarrow> string \<Rightarrow> browser_state_manager option" where
  "load_state env m path = map_option fst (get_browser_state env m path)"

lemma load_state_ok:
  assumes "manager_ok env m"
  shows "\<exists>m'. load_state env m p = Some m' \<and> manager_ok env m'"
proof -
  obtain m' s where "get_browser_state env m p = Some (m', s)" "manager_ok env m'"
    using get_browser_state_ok [OF assms, of p] by (elim exE conjE)
  then show ?thesis by (simp add: load_state_def)
qed

interpretation states: total_machine "load_state env" "\<lambda>_ _. True" "manager_ok env" for env
proof unfold_locales
  show "manager_ok env t" if "manager_ok env s" "load_state env s c = Some t" for s t c
    using load_state_ok [OF that(1), of c] that(2) by auto
  show "\<exists>t. load_state env s c = Some t" if "manager_ok env s" for s c
    using load_state_ok [OF that, of c] by auto
qed

lemma new_manager_ok: "distinct (map fst prefs) \<Longrightarrow> manager_ok env (new_browser_state_manager prefs used)"
  by (simp add: manager_ok_def new_browser_state_manager_def)

lemma load_states:
  assumes "manager_ok env m"
  shows "\<exists>m'. run (load_state env) m paths = Some m' \<and> manager_ok env m'
    \<and> fst ` set (owned_states m') = fst ` set (owned_states m) \<union> set paths"
  using assms
proof (induction paths arbitrary: m)
  case (Cons p ps)
  obtain m1 s where m1: "get_browser_state env m p = Some (m1, s)" "manager_ok env m1"
    "fst ` set (owned_states m1) = insert p (fst ` set (owned_states m))"
    using get_browser_state_ok [OF Cons.prems, of p] by (elim exE conjE)
  from Cons.IH [OF m1(2)] m1 show ?case by (auto simp: load_state_def)
qed simp

text \<open>
  However often and for whatever paths browser states are asked for, the manager loads
  exactly one for each path, no two paths share one, and asking again for a loaded path
  returns it and changes nothing.
\<close>

theorem browser_states_loaded_once:
  assumes "distinct (map fst prefs)"
  shows "\<exists>m. run (load_state env) (new_browser_state_manager prefs used) paths = Some m
    \<and> fst ` set (owned_states m) = set paths
    \<and> distinct (map fst (owned_states m)) \<and> distinct (get_loaded_browser_states m)
    \<and> (\<forall>p \<in> set paths. \<exists>s. (p, s) \<in> set (owned_states m) \<and> get_browser_state env m p = Some (m, s))"
proof -
  have none: "owned_states (new_browser_state_manager prefs used) = []"
    by (simp add: new_browser_state_manager_def)
  obtain m where "run (load_state env) (new_browser_state_manager prefs used) paths = Some m"
    "manager_ok env m" "fst ` set (owned_states m) =
       fst ` set (owned_states (new_browser_state_manager prefs used)) \<union> set paths"
    using load_states [OF new_manager_ok [OF assms], of env used paths] by (elim exE conjE)
  then have m: "run (load_state env) (new_browser_state_manager prefs used) paths = Some m"
    "manager_ok env m" "fst ` set (owned_states m) = set paths" by (simp_all add: none)
  then have "\<exists>s. (p, s) \<in> set (owned_states m) \<and> get_browser_state env m p = Some (m, s)"
    if "p \<in> set paths" for p
  proof -
    have "p \<in> fst ` set (owned_states m)" unfolding m(3) by (rule that)
    then obtain s where s: "(p, s) \<in> set (owned_states m)" by (elim imageE) (metis prod.collapse)
    moreover from this have "map_of (owned_states m) p = Some s"
      using m(2) by (simp add: manager_ok_def)
    ultimately show ?thesis by (auto simp: get_browser_state_def)
  qed
  with m show ?thesis by (auto simp: manager_ok_def get_loaded_browser_states_def)
qed

definition two_level_env :: states_env where
  "two_level_env = \<lparr>dir_name = (\<lambda>p. ''/d''), base_name = (\<lambda>p. p), maybe_as_ascii = (\<lambda>s. s),
     append_ascii = (\<lambda>d n. n),
     remove_at_path = (\<lambda>k d. if CHR ''.'' \<in> set k then d else AList.delete k d),
     primary_account = (\<lambda>s. (''gaia'', ''user@'')), file_sizes = (\<lambda>d p. [1048576]),
     user_data_directory = ''/d''\<rparr>"

theorem browser_states_loaded_once_witness:
  "\<exists>m. run (load_state two_level_env) (new_browser_state_manager [(''Default'', [])] '''')
      [''Default'', ''P'', ''Default''] = Some m \<and> fst ` set (owned_states m) = {''Default'', ''P''}"
proof -
  have "distinct (map fst [(''Default'', [] :: info)])" by simp
  from browser_states_loaded_once [OF this, of two_level_env "''''" "[''Default'', ''P'', ''Default'']"]
  obtain m where "run (load_state two_level_env) (new_browser_state_manager [(''Default'', [])] '''')
      [''Default'', ''P'', ''Default''] = Some m" "fst ` set (owned_states m) = set [''Default'', ''P'', ''Default'']"
    by (elim exE conjE)
  then show ?thesis by (intro exI conjI) auto
qed

text \<open>
  Loading a browser state of the user data directory leaves one entry for it in the
  cache, whose account is the primary account, whether the entry was there before or not; the
  keys of the cache stay sorted, distinct and those of the preferences.
\<close>

theorem cache_agrees_with_account:
  assumes "distinct (map fst prefs)"
    and "run (load_state env) (new_browser_state_manager prefs used) paths = Some m"
    and "path \<notin> set paths" and "dir_name env path = user_data_directory env"
  shows "\<exists>m' s c. get_browser_state env m path = Some (m', s) \<and> info_cache m' = Some c
    \<and> cache_agrees env c s path \<and> cache_ok c"
proof -
  have none: "owned_states (new_browser_state_manager prefs used) = []"
    by (simp add: new_browser_state_manager_def)
  have m: "manager_ok env m" "fst ` set (owned_states m) = set paths"
    using load_states [OF new_manager_ok [OF assms(1)], of env used paths] assms(2)
    by (simp_all add: none)
  then have "map_of (owned_states m) path = None" using assms(3) by (simp add: map_of_eq_None_iff)
  then obtain m' s c where "get_browser_state env m path = Some (m', s)" "manager_ok env m'"
    "info_cache m' = Some c" "cache_agrees env c s path"
    using get_browser_state_ok [OF m(1), of path] assms(4) by blast
  then show ?thesis by (auto simp: manager_ok_def)
qed

theorem cache_agrees_with_account_witness:
  "\<exists>m' s c. get_browser_state two_level_env (new_browser_state_manager [(''Default'', [])] '''') ''Default''
      = Some (m', s) \<and> info_cache m' = Some c \<and> cache_agrees two_level_env c s ''Default'' \<and> cache_ok c"
  by (rule cache_agrees_with_account [where prefs = "[(''Default'', [])]" and paths = "[]"])
    (simp_all add: two_level_env_def)

text \<open>
  A browser state whose directory name has a dot is not forgotten: its key is stored
  without path expansion but removed with it, so that a cache read again from the same
  preferences has the entry back.
\<close>

theorem removed_browser_state_reappears:
  assumes "cache_ok c" and "dir_name env path = user_data_dir c"
    and "maybe_as_ascii env (base_name env path) \<in> set (sorted_keys c)"
    and "remove_at_path env (maybe_as_ascii env (base_name env path)) (cache_prefs c) = cache_prefs c"
  shows "\<exists>c'. remove_browser_state env c path = Some c'
    \<and> get_index_of_browser_state_with_path env c' path = Some None
    \<and> (\<exists>i. get_index_of_browser_state_with_path env
             (new_browser_state_info_cache (cache_prefs c') (user_data_dir c')) path = Some (Some i))"
proof -
  define k where "k = maybe_as_ascii env (base_name env path)"
  define c' where "c' = tell_cache_observers (c\<lparr>sorted_keys := remove1 k (sorted_keys c)\<rparr>) (OnBrowserStateWasRemoved path)"
  have f: "user_data_dir c' = user_data_dir c" "cache_prefs c' = cache_prefs c"
    "sorted_keys c' = remove1 k (sorted_keys c)"
    by (simp_all add: c'_def tell_cache_observers_def)
  have key: "get_index_of_browser_state_with_path env e path = Some (index_of_key k (sorted_keys e))"
    "cache_key_from_browser_state_path env e path = Some k"
    if "user_data_dir e = user_data_dir c" for e
    using assms(2) that by (simp_all add: get_index_of_browser_state_with_path_def
        cache_key_from_browser_state_path_def k_def)
  obtain i where "index_of_key k (sorted_keys c) = Some i"
    using assms(3) index_of_key_None by (metis k_def not_None_eq)
  then have "remove_browser_state env c path = Some c'"
    using key [of c] assms(4) by (simp add: remove_browser_state_def c'_def k_def)
  moreover have "index_of_key k (sorted_keys c') = None"
    using assms(1) by (simp add: index_of_key_None f cache_ok_def)
  moreover have d: "distinct (map fst (cache_prefs c))" "k \<in> fst ` set (cache_prefs c)"
    using assms(1,3) by (auto simp: cache_ok_def k_def)
  note n = new_cache_ok [OF d(1), of "user_data_dir c"]
  have "index_of_key k (sorted_keys (new_browser_state_info_cache (cache_prefs c) (user_data_dir c))) \<noteq> None"
    using n d(2) by (simp add: index_of_key_None cache_ok_def)
  ultimately show ?thesis
    using key [of c'] key [OF n(3)] f by auto
qed

theorem removed_browser_state_reappears_witness:
  "\<exists>c'. remove_browser_state two_level_env (new_browser_state_info_cache [(''P.1'', [])] ''/d'') ''P.1'' = Some c'
    \<and> (\<exists>i. get_index_of_browser_state_with_path two_level_env
             (new_browser_state_info_cache (cache_prefs c') (user_data_dir c')) ''P.1'' = Some (Some i))"
proof -
  have "cache_ok (new_browser_state_info_cache [(''P.1'', [])] ''/d'')" by (rule new_cache_ok) simp
  moreover have "sorted_keys (new_browser_state_info_cache [(''P.1'', [])] ''/d'') = [''P.1'']" by code_simp
  ultimately show ?thesis
    using removed_browser_state_reappears [of "new_browser_state_info_cache [(''P.1'', [])] ''/d''" two_level_env "''P.1''"]
      new_cache_ok [of "[(''P.1'', [])]" "''/d''"]
    by (force simp: two_level_env_def)
qed


end
