(* ===== verification/FirstUserAction.thy ===== *)
theory FirstUserAction
  imports Prelude
begin

text \<open>
  The classification of the first user action after the application comes to the
  foreground: \<open>chrome/browser/metrics/first_user_action_recorder.{h,cc}\<close>. The histogram
  samples are the field \<open>samples\<close>; \<open>rethrow_callback\<close> is the task posted for an action that
  is looked at again after the ones already in the message queue.
\<close>

datatype device_family_index = HANDSET | TABLET

datatype first_user_action_type = NEW_TASK | CONTINUATION | EXPIRATION | START_ON_NTP

fun device_index :: "device_family_index \<Rightarrow> nat" where
  "device_index HANDSET = 0"
| "device_index TABLET = 1"

definition kFirstUserActionNewTaskHistogramName :: "string list" where
  "kFirstUserActionNewTaskHistogramName =
     [''FirstUserAction.BackgroundTimeNewTaskHandset'', ''FirstUserAction.BackgroundTimeNewTaskTablet'']"

definition kFirstUserActionContinuationHistogramName :: "string list" where
  "kFirstUserActionContinuationHistogramName =
     [''FirstUserAction.BackgroundTimeContinuationHandset'',
      ''FirstUserAction.BackgroundTimeContinuationTablet'']"

definition kFirstUserActionExpirationHistogramName :: "string list" where
  "kFirstUserActionExpirationHistogramName =
     [''FirstUserAction.BackgroundTimeExpirationHandset'',
      ''FirstUserAction.BackgroundTimeExpirationTablet'']"

definition kFirstUserActionTypeHistogramName :: "string list" where
  "kFirstUserActionTypeHistogramName =
     [''FirstUserAction.HandsetUserActionType'', ''FirstUserAction.TabletUserActionType'']"

definition kIgnoredActions :: "string list" where
  "kIgnoredActions =
     [''MobileOmniboxUse'', ''MobileFirstUserAction_Continuation'',
      ''MobileFirstUserAction_Expiration'', ''MobileFirstUserAction_NewTask'',
      ''MobileMenuCloseAllTabs'', ''MobileMenuCloseAllIncognitoTabs'', ''MobileMenuCloseTab'',
      ''MobileNewTabOpened'', ''MobileTabClosed'', ''MobileTabStripCloseTab'',
      ''MobileStackViewCloseTab'', ''MobileToolbarShowMenu'', ''MobileToolbarShowStackView'']"

definition kRethrownActions :: "string list" where
  "kRethrownActions = [''MobileTabSwitched'']"

definition kNewTaskActions :: "string list" where
  "kNewTaskActions =
     [''MobileMenuAllBookmarks'', ''MobileMenuHistory'', ''MobileMenuNewIncognitoTab'',
      ''MobileMenuNewTab'', ''MobileMenuRecentTabs'', ''MobileMenuVoiceSearch'',
      ''MobileBookmarkManagerEntryOpened'', ''MobileRecentTabManagerTabFromOtherDeviceOpened'',
      ''MobileNTPMostVisited'', ''MobileNTPShowBookmarks'', ''MobileNTPShowMostVisited'',
      ''MobileNTPShowOpenTabs'', ''MobileNTPShowHistory'', ''MobileNTPShowReadingList'',
      ''MobileNTPSwitchToBookmarks'', ''MobileNTPSwitchToMostVisited'',
      ''MobileNTPSwitchToOpenTabs'', ''MobileTabStripNewTab'', ''MobileToolbarNewTab'',
      ''MobileToolbarStackViewNewTab'', ''MobileToolbarVoiceSearch'', ''OmniboxInputInProgress'']"

definition kDurationHistogramMin :: int where "kDurationHistogramMin = 5"
definition kDurationHistogramMax :: int where "kDurationHistogramMax = 48 * 60"
definition kDurationHistogramBucketCount :: int where "kDurationHistogramBucketCount = 50"

datatype action_sample =
    TypeSample string first_user_action_type
  | DurationSample string int int int int

record first_user_action_recorder =
  device_family :: device_family_index
  recorded_action :: bool
  action_pending :: bool
  background_minutes :: int
  rethrow_callback :: "string option"
  samples :: "action_sample list"

definition new_first_user_action_recorder :: "bool \<Rightarrow> int \<Rightarrow> first_user_action_recorder" where
  "new_first_user_action_recorder is_ipad_idiom background_duration =
     \<lparr>device_family = (if is_ipad_idiom then TABLET else HANDSET), recorded_action = False,
      action_pending = False, background_minutes = background_duration,
      rethrow_callback = None, samples = []\<rparr>"

definition duration_sample :: "string list \<Rightarrow> first_user_action_recorder \<Rightarrow> action_sample" where
  "duration_sample names r =
     DurationSample (names ! device_index (device_family r)) (background_minutes r)
       kDurationHistogramMin kDurationHistogramMax kDurationHistogramBucketCount"

definition record_action ::
  "first_user_action_recorder \<Rightarrow> first_user_action_type \<Rightarrow> first_user_action_recorder" where
  "record_action r action_type =
     (if \<not> recorded_action r then
        let r1 = r\<lparr>samples := samples r @
                    [TypeSample (kFirstUserActionTypeHistogramName ! device_index (device_family r))
                       action_type],
                   recorded_action := True\<rparr>
        in case action_type of
             NEW_TASK \<Rightarrow> r1\<lparr>samples := samples r1 @
               [duration_sample kFirstUserActionNewTaskHistogramName r1]\<rparr>
           | CONTINUATION \<Rightarrow> r1\<lparr>samples := samples r1 @
               [duration_sample kFirstUserActionContinuationHistogramName r1]\<rparr>
           | EXPIRATION \<Rightarrow> r1\<lparr>samples := samples r1 @
               [duration_sample kFirstUserActionExpirationHistogramName r1]\<rparr>
           | START_ON_NTP \<Rightarrow> r1
      else r)"

definition expire :: "first_user_action_recorder \<Rightarrow> first_user_action_recorder" where
  "expire r = record_action (r\<lparr>rethrow_callback := None\<rparr>) EXPIRATION"

definition record_start_on_ntp :: "first_user_action_recorder \<Rightarrow> first_user_action_recorder" where
  "record_start_on_ntp r = record_action r START_ON_NTP"

fun array_contains_string :: "string list \<Rightarrow> string \<Rightarrow> bool" where
  "array_contains_string [] to_find = False"
| "array_contains_string (s # to_search) to_find =
     (if to_find = s then True else array_contains_string to_search to_find)"

definition starts_with :: "string \<Rightarrow> string \<Rightarrow> bool" where
  "starts_with s p = (take (length p) s = p)"

definition should_process_action ::
  "first_user_action_recorder \<Rightarrow> string \<Rightarrow> first_user_action_recorder \<times> bool" where
  "should_process_action r action_name =
     (if recorded_action r then (r, False)
      else if \<not> action_pending r \<and> array_contains_string kRethrownActions action_name
      then (r\<lparr>rethrow_callback := Some action_name, action_pending := True\<rparr>, False)
      else let known_mobile_action = (starts_with action_name ''Mobile''
                 \<or> array_contains_string kNewTaskActions action_name)
           in (r, known_mobile_action \<and> \<not> array_contains_string kIgnoredActions action_name))"

definition on_user_action ::
  "first_user_action_recorder \<Rightarrow> string \<Rightarrow> first_user_action_recorder" where
  "on_user_action r action_name =
     (let (r1, process) = should_process_action r action_name
      in if process then
           if array_contains_string kNewTaskActions action_name then record_action r1 NEW_TASK
           else record_action r1 CONTINUATION
         else r1)"

text \<open>The messages the recorder receives; the rethrown action runs once.\<close>

datatype recorder_event =
    Expire
  | RecordStartOnNTP
  | OnUserAction string
  | RunRethrown

fun recorder_step :: "first_user_action_recorder \<Rightarrow> recorder_event \<Rightarrow> first_user_action_recorder option" where
  "recorder_step r Expire = Some (expire r)"
| "recorder_step r RecordStartOnNTP = Some (record_start_on_ntp r)"
| "recorder_step r (OnUserAction a) = Some (on_user_action r a)"
| "recorder_step r RunRethrown =
     (case rethrow_callback r of
        None \<Rightarrow> None
      | Some a \<Rightarrow> Some (on_user_action (r\<lparr>rethrow_callback := None\<rparr>) a))"

section \<open>What is recorded\<close>

lemma array_contains_string_iff: "array_contains_string xs s \<longleftrightarrow> s \<in> set xs"
  by (induction xs) auto

fun recorder_event_allowed :: "first_user_action_recorder \<Rightarrow> recorder_event \<Rightarrow> bool" where
  "recorder_event_allowed r RunRethrown = (rethrow_callback r \<noteq> None)"
| "recorder_event_allowed r _ = True"

definition type_samples :: "action_sample list \<Rightarrow> first_user_action_type list" where
  "type_samples xs = concat (map (\<lambda>x. case x of TypeSample _ t \<Rightarrow> [t] | DurationSample _ _ _ _ _ \<Rightarrow> []) xs)"

text \<open>The classification of an action by its name alone.\<close>

definition action_class :: "string \<Rightarrow> first_user_action_type option" where
  "action_class a =
     (if a \<in> set kIgnoredActions then None
      else if a \<in> set kNewTaskActions then Some NEW_TASK
      else if starts_with a ''Mobile'' then Some CONTINUATION
      else None)"

lemma kNewTask_not_ignored: "a \<in> set kNewTaskActions \<Longrightarrow> a \<notin> set kIgnoredActions"
  by (auto simp: kNewTaskActions_def kIgnoredActions_def)

lemma on_user_action_cases:
  "on_user_action r a =
     (if recorded_action r then r
      else if \<not> action_pending r \<and> a \<in> set kRethrownActions
      then r\<lparr>rethrow_callback := Some a, action_pending := True\<rparr>
      else case action_class a of None \<Rightarrow> r | Some t \<Rightarrow> record_action r t)"
  using kNewTask_not_ignored
  by (auto simp: on_user_action_def should_process_action_def array_contains_string_iff action_class_def
      Let_def)

definition recorder_ok :: "first_user_action_recorder \<Rightarrow> bool" where
  "recorder_ok r \<longleftrightarrow> length (type_samples (samples r)) = (if recorded_action r then 1 else 0)
     \<and> (rethrow_callback r \<noteq> None \<longrightarrow> action_pending r)"

lemma record_action_ok: "recorder_ok r \<Longrightarrow> recorder_ok (record_action r t)"
  by (cases t) (auto simp: record_action_def recorder_ok_def type_samples_def duration_sample_def)

lemma recorder_step_ok:
  assumes "recorder_ok r" and "recorder_event_allowed r e"
  shows "\<exists>r'. recorder_step r e = Some r' \<and> recorder_ok r'"
proof -
  have *: "recorder_ok (r\<lparr>rethrow_callback := None\<rparr>)"
    "recorder_ok (r\<lparr>rethrow_callback := Some a, action_pending := True\<rparr>)" for a
    using assms(1) by (simp_all add: recorder_ok_def)
  have "recorder_ok (on_user_action s a)" if "recorder_ok s" for s a
  proof -
    have "recorder_ok (s\<lparr>rethrow_callback := Some a, action_pending := True\<rparr>)"
      using that by (simp add: recorder_ok_def)
    with that record_action_ok [OF that] show ?thesis
      by (simp add: on_user_action_cases split: option.split)
  qed
  with * assms record_action_ok show ?thesis
    by (cases e) (auto simp: expire_def record_start_on_ntp_def)
qed

interpretation recorder: total_machine recorder_step recorder_event_allowed recorder_ok
  by unfold_locales (use recorder_step_ok in fastforce)+

text \<open>
  Whatever actions, expirations and rethrown actions a recorder receives, it records at
  most one action type, exactly one once it has recorded an action, and from then on nothing.
\<close>

theorem first_action_recorded_once:
  assumes "legal recorder_step recorder_event_allowed (new_first_user_action_recorder pad mins) es r"
  shows "length (type_samples (samples r)) = (if recorded_action r then 1 else 0)
    \<and> (recorded_action r \<and> recorder_step r e = Some r' \<longrightarrow> samples r' = samples r)"
proof -
  have "recorder_ok (new_first_user_action_recorder pad mins)"
    by (simp add: recorder_ok_def new_first_user_action_recorder_def type_samples_def)
  with assms have "recorder_ok r" by (rule recorder.legal_inv)
  then show ?thesis
    by (cases e) (auto simp: recorder_ok_def expire_def record_start_on_ntp_def record_action_def
        on_user_action_cases split: option.splits)
qed

theorem first_action_recorded_once_witness:
  "length (type_samples (samples (the (run recorder_step (new_first_user_action_recorder True 30)
     [OnUserAction ''MobileTabSwitched'', RunRethrown, Expire])))) = 1"
proof -
  have "case run_checked recorder_step recorder_event_allowed (new_first_user_action_recorder True 30)
      [OnUserAction ''MobileTabSwitched'', RunRethrown, Expire] of None \<Rightarrow> False | Some r \<Rightarrow> recorded_action r"
    by code_simp
  then obtain r where r: "legal recorder_step recorder_event_allowed (new_first_user_action_recorder True 30)
      [OnUserAction ''MobileTabSwitched'', RunRethrown, Expire] r" "recorded_action r"
    by (rule run_checked_witness)
  from first_action_recorded_once [OF r(1)] r(2) legal_run [OF r(1)] show ?thesis by simp
qed

text \<open>
  A tab switch is looked at again after the actions already queued: the first of them
  that says something is the one recorded, and the tab switch counts as a continuation only
  when none of them does.
\<close>

fun first_class :: "string list \<Rightarrow> first_user_action_type option" where
  "first_class [] = None"
| "first_class (a # as) = (case action_class a of None \<Rightarrow> first_class as | Some t \<Rightarrow> Some t)"

lemma record_action_type:
  "\<not> recorded_action r \<Longrightarrow> type_samples (samples (record_action r t)) = type_samples (samples r) @ [t]
     \<and> recorded_action (record_action r t) \<and> rethrow_callback (record_action r t) = rethrow_callback r"
  by (cases t) (auto simp: record_action_def type_samples_def duration_sample_def)

lemma recorded_ignores:
  "recorded_action r \<Longrightarrow> run recorder_step r (map OnUserAction as) = Some r"
  by (induction as) (simp_all add: on_user_action_cases)

lemma pending_actions:
  assumes "\<not> recorded_action r" and "action_pending r"
  shows "run recorder_step r (map OnUserAction as) =
    Some (case first_class as of None \<Rightarrow> r | Some t \<Rightarrow> record_action r t)"
proof (induction as)
  case (Cons a as)
  show ?case
  proof (cases "action_class a")
    case None
    with Cons assms show ?thesis by (simp add: on_user_action_cases)
  next
    case (Some t)
    with assms record_action_type [of r t] recorded_ignores [of "record_action r t" as] show ?thesis
      by (simp add: on_user_action_cases)
  qed
qed simp

lemma tab_switched_class: "action_class ''MobileTabSwitched'' = Some CONTINUATION"
  by code_simp

theorem tab_switch_yields:
  assumes "\<not> recorded_action r" and "\<not> action_pending r" and "type_samples (samples r) = []"
  shows "\<exists>r'. run recorder_step r
      (OnUserAction ''MobileTabSwitched'' # map OnUserAction as @ [RunRethrown]) = Some r'
    \<and> type_samples (samples r') = [case first_class as of None \<Rightarrow> CONTINUATION | Some t \<Rightarrow> t]"
proof -
  define r1 where "r1 = r\<lparr>rethrow_callback := Some ''MobileTabSwitched'', action_pending := True\<rparr>"
  have r1: "\<not> recorded_action r1" "action_pending r1" "type_samples (samples r1) = []"
    "rethrow_callback r1 = Some ''MobileTabSwitched''" using assms by (simp_all add: r1_def)
  have start: "recorder_step r (OnUserAction ''MobileTabSwitched'') = Some r1"
    using assms by (simp add: on_user_action_cases kRethrownActions_def r1_def)
  define r2 where "r2 = (case first_class as of None \<Rightarrow> r1 | Some t \<Rightarrow> record_action r1 t)"
  have run2: "run recorder_step r1 (map OnUserAction as) = Some r2"
    unfolding r2_def by (rule pending_actions [OF r1(1,2)])
  show ?thesis
  proof (cases "first_class as")
    case None
    then have "r2 = r1" by (simp add: r2_def)
    then have "recorder_step r2 RunRethrown = Some (record_action (r1\<lparr>rethrow_callback := None\<rparr>) CONTINUATION)"
      using r1 by (simp add: on_user_action_cases tab_switched_class)
    moreover have "type_samples (samples (record_action (r1\<lparr>rethrow_callback := None\<rparr>) CONTINUATION)) = [CONTINUATION]"
      using record_action_type [of "r1\<lparr>rethrow_callback := None\<rparr>" CONTINUATION] r1 by simp
    ultimately show ?thesis
      using None by (simp only: run.simps start option.case run_append run2) simp
  next
    case (Some t)
    then have "r2 = record_action r1 t" by (simp add: r2_def)
    with record_action_type [OF r1(1), of t] r1
    have r2: "type_samples (samples r2) = [t]" "recorded_action r2"
      "rethrow_callback r2 = Some ''MobileTabSwitched''" by simp_all
    then have "recorder_step r2 RunRethrown = Some (r2\<lparr>rethrow_callback := None\<rparr>)"
      by (simp add: on_user_action_cases)
    with r2 Some show ?thesis
      by (simp only: run.simps start option.case run_append run2) simp
  qed
qed

theorem tab_switch_yields_witness:
  "\<exists>r'. run recorder_step (new_first_user_action_recorder False 10)
      [OnUserAction ''MobileTabSwitched'', OnUserAction ''MobileTabClosed'',
       OnUserAction ''MobileMenuNewTab'', RunRethrown] = Some r'
    \<and> type_samples (samples r') = [NEW_TASK]"
proof -
  have "first_class [''MobileTabClosed'', ''MobileMenuNewTab''] = Some NEW_TASK" by code_simp
  with tab_switch_yields [of "new_first_user_action_recorder False 10" "[''MobileTabClosed'', ''MobileMenuNewTab'']"]
  show ?thesis by (simp add: new_first_user_action_recorder_def type_samples_def)
qed

end
