(* ===== verification/WkNavigationUtil.thy ===== *)
theory WkNavigationUtil
  imports Prelude
begin

text \<open>
  The special URLs of the web layer, \<open>web/navigation/wk_navigation_util.{h,mm}\<close>, and the page
  that restores a session from them, \<open>web/navigation/resources/restore_session.html\<close>.

  What the URL library, the JSON writer and the JavaScript standard functions compute is the
  argument \<open>env\<close>; \<open>is_text\<close> says which strings are UTF-8. The session history of the web view is a list of (title, URL) entries with
  the position of the current one, changed by \<open>replaceState\<close>, \<open>pushState\<close> and \<open>go\<close>.
\<close>

type_synonym nav_url = string

record session_data =
  session_offset :: int
  session_urls :: "string list"
  session_titles :: "string list"

record url_env =
  nav_spec :: "nav_url \<Rightarrow> string"
  nav_parse :: "string \<Rightarrow> nav_url"
  nav_is_valid :: "nav_url \<Rightarrow> bool"
  nav_scheme :: "nav_url \<Rightarrow> string"
  nav_path :: "nav_url \<Rightarrow> string"
  nav_ref :: "nav_url \<Rightarrow> string"
  nav_query :: "nav_url \<Rightarrow> string"
  nav_is_about_blank :: "nav_url \<Rightarrow> bool"
  replace_ref :: "nav_url \<Rightarrow> string \<Rightarrow> nav_url"
  file_url_with_path :: "string \<Rightarrow> nav_url"
  restore_session_resource_path :: string
  escape_query_param_value :: "string \<Rightarrow> string"
  unescape_binary_url_component :: "string \<Rightarrow> string"
  append_query_parameter :: "nav_url \<Rightarrow> string \<Rightarrow> string \<Rightarrow> nav_url"
  get_value_for_key_in_query :: "nav_url \<Rightarrow> string \<Rightarrow> string option"
  is_app_specific_url :: "nav_url \<Rightarrow> bool"
  use_js_for_error_page :: bool
  is_text :: "string \<Rightarrow> bool"
  json_write :: "session_data \<Rightarrow> string"
  json_parse :: "string \<Rightarrow> session_data option"
  location_hash :: "string \<Rightarrow> string"
  location_base :: "string \<Rightarrow> string"
  decode_uri_component :: "string \<Rightarrow> string"
  encode_uri_component :: "string \<Rightarrow> string"

definition kMaxSessionSize :: int where "kMaxSessionSize = 75"

definition kRestoreSessionSessionHashPrefix :: string where
  "kRestoreSessionSessionHashPrefix = ''session=''"

definition kRestoreSessionTargetUrlHashPrefix :: string where
  "kRestoreSessionTargetUrlHashPrefix = ''targetUrl=''"

definition kOriginalUrlKey :: string where "kOriginalUrlKey = ''for''"

definition kAboutBlankURL :: string where "kAboutBlankURL = ''about:blank''"

definition has_prefix :: "string \<Rightarrow> string \<Rightarrow> bool" where
  "has_prefix s p = (take (length p) s = p)"

section \<open>The window of items that is restored\<close>

text \<open>
  \<open>GetSafeItemIterators\<close>, its iterators as positions. The subtraction of an \<open>int\<close> from a
  \<open>size_t\<close> is one of \<open>size_t\<close>s.
\<close>

definition get_safe_item_iterators :: "int \<Rightarrow> nat \<Rightarrow> int \<times> int \<times> int" where
  "get_safe_item_iterators last_committed_item_index n =
     (if int n \<le> kMaxSessionSize then (0, int n, last_committed_item_index)
      else if last_committed_item_index < kMaxSessionSize div 2
      then (0, kMaxSessionSize, last_committed_item_index)
      else
        let (first, past) =
          (if (int n - last_committed_item_index) mod 2 ^ 64 \<le> kMaxSessionSize div 2
           then (int n - kMaxSessionSize, int n)
           else (last_committed_item_index - kMaxSessionSize div 2,
                 last_committed_item_index + kMaxSessionSize div 2 + 1))
        in (first, past, last_committed_item_index - first))"

record nav_item =
  item_url :: nav_url
  item_title :: string

definition get_restore_session_base_url :: "url_env \<Rightarrow> nav_url" where
  "get_restore_session_base_url env = file_url_with_path env (restore_session_resource_path env)"

definition create_restore_session_url ::
  "url_env \<Rightarrow> int \<Rightarrow> nav_item list \<Rightarrow> (nav_url \<times> int) option" where
  "create_restore_session_url env last_committed_item_index items = do {
     dcheck (last_committed_item_index \<ge> 0
             \<and> last_committed_item_index < to_int32 (int (length items)));
     let (first, past, new_last_committed_item_index) =
       get_safe_item_iterators last_committed_item_index (length items);
     let new_size = past - first;
     let window = take (nat new_size) (drop (nat first) items);
     let offset = to_int32 ((new_last_committed_item_index + 1 - new_size) mod 2 ^ 64);
     let session = \<lparr>session_offset = offset,
                    session_urls = map (\<lambda>i. nav_spec env (item_url i)) window,
                    session_titles = map item_title window\<rparr>;
     let ref = kRestoreSessionSessionHashPrefix @ escape_query_param_value env (json_write env session);
     Some (replace_ref env (get_restore_session_base_url env) ref, first)
   }"

section \<open>Redirect and placeholder URLs\<close>

definition is_restore_session_url :: "url_env \<Rightarrow> nav_url \<Rightarrow> bool" where
  "is_restore_session_url env url =
     (nav_scheme env url = ''file'' \<and> nav_path env url = nav_path env (get_restore_session_base_url env))"

definition create_redirect_url :: "url_env \<Rightarrow> nav_url \<Rightarrow> nav_url" where
  "create_redirect_url env target_url =
     (let ref = kRestoreSessionTargetUrlHashPrefix
                @ escape_query_param_value env (nav_spec env target_url)
      in replace_ref env (get_restore_session_base_url env) ref)"

text \<open>The inner option is the \<open>target_url\<close> set when the function returns true.\<close>

definition extract_target_url :: "url_env \<Rightarrow> nav_url \<Rightarrow> nav_url option option" where
  "extract_target_url env url = do {
     dcheck (is_restore_session_url env url);
     Some (if has_prefix (nav_ref env url) kRestoreSessionTargetUrlHashPrefix
           then Some (nav_parse env (unescape_binary_url_component env
                        (drop (length kRestoreSessionTargetUrlHashPrefix) (nav_ref env url))))
           else None)
   }"

definition is_placeholder_url :: "url_env \<Rightarrow> nav_url \<Rightarrow> bool option" where
  "is_placeholder_url env url = do {
     dcheck (\<not> use_js_for_error_page env);
     Some (nav_is_about_blank env url \<and> has_prefix (nav_query env url) kOriginalUrlKey)
   }"

definition create_placeholder_url_for_url :: "url_env \<Rightarrow> nav_url \<Rightarrow> nav_url option" where
  "create_placeholder_url_for_url env original_url = do {
     dcheck (\<not> use_js_for_error_page env);
     if \<not> nav_is_valid env original_url then Some []
     else do {
       let placeholder_url = append_query_parameter env (nav_parse env kAboutBlankURL)
                               kOriginalUrlKey (nav_spec env original_url);
       dcheck (nav_is_valid env placeholder_url);
       Some placeholder_url
     }
   }"

definition extract_url_from_placeholder_url :: "url_env \<Rightarrow> nav_url \<Rightarrow> nav_url option" where
  "extract_url_from_placeholder_url env url = do {
     dcheck (\<not> use_js_for_error_page env);
     placeholder \<leftarrow> is_placeholder_url env url;
     Some (case (if placeholder then get_value_for_key_in_query env url kOriginalUrlKey else None) of
         None \<Rightarrow> []
       | Some value \<Rightarrow>
           let decoded_url = nav_parse env value
           in if nav_is_valid env decoded_url then decoded_url else [])
   }"

definition is_wk_internal_url :: "url_env \<Rightarrow> nav_url \<Rightarrow> bool option" where
  "is_wk_internal_url env url = do {
     placeholder \<leftarrow> (if \<not> use_js_for_error_page env then is_placeholder_url env url else Some False);
     Some (placeholder \<or> is_restore_session_url env url)
   }"

definition url_needs_user_agent_type :: "url_env \<Rightarrow> nav_url \<Rightarrow> bool option" where
  "url_needs_user_agent_type env url =
     (if is_app_specific_url env url then Some False
      else do {
        placeholder \<leftarrow> (if \<not> use_js_for_error_page env \<and> nav_scheme env url = ''about''
                       then is_placeholder_url env url else Some False);
        if placeholder then do {
          original \<leftarrow> extract_url_from_placeholder_url env url;
          Some (\<not> is_app_specific_url env original)
        }
        else if nav_scheme env url = ''about'' then Some False
        else if nav_scheme env url = ''file'' \<and> is_restore_session_url env url then Some True
        else if nav_scheme env url = ''file'' then Some False
        else Some True
      })"

section \<open>The page that restores the session\<close>

record session_history =
  history_entries :: "(string \<times> string) list"
  history_position :: nat

definition replace_state :: "session_history \<Rightarrow> string \<Rightarrow> string \<Rightarrow> session_history" where
  "replace_state h title url =
     h\<lparr>history_entries := (history_entries h)[history_position h := (title, url)]\<rparr>"

definition push_state :: "session_history \<Rightarrow> string \<Rightarrow> string \<Rightarrow> session_history" where
  "push_state h title url =
     h\<lparr>history_entries := take (Suc (history_position h)) (history_entries h) @ [(title, url)],
       history_position := Suc (history_position h)\<rparr>"

definition history_go :: "session_history \<Rightarrow> int \<Rightarrow> session_history" where
  "history_go h delta =
     (let target = int (history_position h) + delta
      in if 0 \<le> target \<and> target < int (length (history_entries h))
         then h\<lparr>history_position := nat target\<rparr> else h)"

text \<open>\<open>xs[i] || default\<close> of JavaScript: past the end or empty, the default.\<close>

definition element_or :: "string list \<Rightarrow> nat \<Rightarrow> string \<Rightarrow> string" where
  "element_or xs i d = (if i < length xs \<and> xs ! i \<noteq> [] then xs ! i else d)"

definition get_restore_url :: "url_env \<Rightarrow> string \<Rightarrow> string \<Rightarrow> string" where
  "get_restore_url env base target = base @ ''#targetUrl='' @ encode_uri_component env target"

fun push_entries ::
  "url_env \<Rightarrow> string \<Rightarrow> session_data \<Rightarrow> session_history \<Rightarrow> nat list \<Rightarrow> session_history" where
  "push_entries env base s h [] = h"
| "push_entries env base s h (i # is) =
     push_entries env base s
       (push_state h (element_or (session_titles s) i ''Untitled'')
          (get_restore_url env base (element_or (session_urls s) i kAboutBlankURL))) is"

datatype page_outcome =
    HistoryRestored session_history
  | RedirectedTo string
  | BlankPage

text \<open>The interval waits until the history is as long as the list of URLs, then moves.\<close>

definition restore_session ::
  "url_env \<Rightarrow> string \<Rightarrow> string \<Rightarrow> session_history \<Rightarrow> page_outcome" where
  "restore_session env base session_json h =
     (case json_parse env session_json of
        None \<Rightarrow> BlankPage
      | Some s \<Rightarrow>
          if length (session_urls s) < 1 then BlankPage
          else
            let h1 = replace_state h (element_or (session_titles s) 0 ''Untitled'')
                       (get_restore_url env base (element_or (session_urls s) 0 kAboutBlankURL));
                h2 = push_entries env base s h1 [1..<length (session_urls s)]
            in HistoryRestored
                 (if length (history_entries h2) = length (session_urls s)
                  then history_go h2 (session_offset s) else h2))"

definition extract_hash_value_for_prefix :: "url_env \<Rightarrow> string \<Rightarrow> string \<Rightarrow> string option" where
  "extract_hash_value_for_prefix env hash prefix =
     (if \<not> has_prefix hash prefix then None
      else Some (decode_uri_component env (drop (length prefix) hash)))"

definition page_onload :: "url_env \<Rightarrow> string \<Rightarrow> session_history \<Rightarrow> page_outcome" where
  "page_onload env location h =
     (let hash = location_hash env location;
          base = location_base env location
      in if hash = [] then BlankPage
         else case extract_hash_value_for_prefix env hash ''#session='' of
           Some (c # cs) \<Rightarrow> restore_session env base (c # cs) h
         | _ \<Rightarrow>
             (case extract_hash_value_for_prefix env hash ''#targetUrl='' of
                Some (c # cs) \<Rightarrow> RedirectedTo (c # cs)
              | _ \<Rightarrow> BlankPage))"

end
