(* ===== verification/WkNavigationUtilFacts.thy ===== *)
theory WkNavigationUtilFacts
  imports WkNavigationUtil
begin

text \<open>
  The window kept of a long session, the round trips of redirect and placeholder URLs, and
  the session the restoring page rebuilds from the URL that carries it.
\<close>

section \<open>The window\<close>

lemma session_window:
  assumes "0 \<le> k" and "k < int n" and "int n < 2 ^ 63"
    and "get_safe_item_iterators k n = (first, past, new_k)"
  shows "0 \<le> first \<and> past \<le> int n \<and> past - first = min (int n) 75
    \<and> 0 \<le> new_k \<and> new_k < past - first \<and> first + new_k = k
    \<and> (\<forall>i j. 0 \<le> i \<and> i < int n \<and> \<not> (first \<le> i \<and> i < past) \<and> first \<le> j \<and> j < past
          \<longrightarrow> \<bar>j - k\<bar> \<le> \<bar>i - k\<bar>)"
proof -
  have "(int n - k) mod 2 ^ 64 = int n - k"
    by (rule mod_pos_pos_trivial) (use assms in auto)
  with assms show ?thesis
    unfolding get_safe_item_iterators_def kMaxSessionSize_def
    by (auto split: if_splits simp: Let_def)
qed

text \<open>
  C34. Of a session of \<open>n\<close> items the window restored has \<open>min n 75\<close> consecutive ones, the
  current item is among them at the index returned, and no item left out is nearer to the
  current one than an item that is kept.
\<close>

theorem safe_window:
  assumes "0 \<le> k" and "k < int n" and "int n < 2 ^ 63"
    and "get_safe_item_iterators k n = (first, past, new_k)"
  shows "0 \<le> first \<and> past \<le> int n \<and> past - first = min (int n) 75
    \<and> 0 \<le> new_k \<and> new_k < past - first \<and> first + new_k = k
    \<and> (\<forall>i j. 0 \<le> i \<and> i < int n \<and> \<not> (first \<le> i \<and> i < past) \<and> first \<le> j \<and> j < past
          \<longrightarrow> \<bar>j - k\<bar> \<le> \<bar>i - k\<bar>)"
  using assms by (rule session_window)

theorem safe_window_witness:
  "\<exists>first past new_k. get_safe_item_iterators 100 200 = (first, past, new_k)
     \<and> past - first = 75 \<and> first + new_k = 100"
proof -
  have w: "get_safe_item_iterators 100 200 = (63, 138, 37)" by code_simp
  from safe_window [OF _ _ _ w] show ?thesis by (simp add: w)
qed

section \<open>Redirect and placeholder URLs\<close>

text \<open>
  What is known of the URL library. The fragments put on the URL of the restoring page are a
  prefix and an escaped text, which the library leaves as they are; escaping writes every byte
  but letters, digits and a few marks as a percent sign and two hexadecimal digits.
\<close>

definition restore_ref :: "url_env \<Rightarrow> string \<Rightarrow> bool" where
  "restore_ref env r \<longleftrightarrow> (\<exists>x. r = kRestoreSessionSessionHashPrefix @ escape_query_param_value env x
     \<or> r = kRestoreSessionTargetUrlHashPrefix @ escape_query_param_value env x)"

definition url_laws :: "url_env \<Rightarrow> bool" where
  "url_laws env \<longleftrightarrow>
     (\<forall>r. restore_ref env r \<longrightarrow>
        nav_ref env (replace_ref env (get_restore_session_base_url env) r) = r
        \<and> nav_path env (replace_ref env (get_restore_session_base_url env) r)
            = nav_path env (get_restore_session_base_url env)
        \<and> nav_scheme env (replace_ref env (get_restore_session_base_url env) r) = ''file'')
   \<and> (\<forall>s. unescape_binary_url_component env (escape_query_param_value env s) = s)
   \<and> (\<forall>u. nav_is_valid env u \<longrightarrow> nav_parse env (nav_spec env u) = u)"

lemma has_prefix_append [simp]: "has_prefix (p @ s) p"
  by (simp add: has_prefix_def)

lemma has_prefix_simps [simp]:
  "has_prefix s []"
  "has_prefix [] (c # p) = False"
  "has_prefix (d # s) (c # p) = (d = c \<and> has_prefix s p)"
  by (simp_all add: has_prefix_def)

text \<open>
  The redirect URL of a valid URL is a session restoration URL from which that URL is
  extracted again.
\<close>

theorem redirect_url_roundtrip:
  assumes "url_laws env" and "nav_is_valid env u"
  shows "is_restore_session_url env (create_redirect_url env u)
    \<and> extract_target_url env (create_redirect_url env u) = Some (Some u)"
proof -
  define base where "base = get_restore_session_base_url env"
  define r where "r = kRestoreSessionTargetUrlHashPrefix @ escape_query_param_value env (nav_spec env u)"
  have url: "create_redirect_url env u = replace_ref env base r"
    by (simp add: create_redirect_url_def base_def r_def)
  have r: "restore_ref env r" by (auto simp: restore_ref_def r_def)
  then have internal: "is_restore_session_url env (replace_ref env base r)"
    using assms(1) by (simp add: url_laws_def is_restore_session_url_def base_def)
  have "nav_ref env (replace_ref env base r) = r" using assms(1) r by (simp add: url_laws_def base_def)
  moreover have
    "unescape_binary_url_component env (escape_query_param_value env (nav_spec env u)) = nav_spec env u"
    "nav_parse env (nav_spec env u) = u"
    using assms by (simp_all add: url_laws_def)
  ultimately show ?thesis using internal by (simp add: url extract_target_url_def r_def)
qed

text \<open>URLs that are their own spec, a hash sign before the fragment, and no escaping.\<close>

fun after_hash :: "string \<Rightarrow> string" where
  "after_hash [] = []"
| "after_hash (c # cs) = (if c = CHR ''#'' then cs else after_hash cs)"

fun before_hash :: "string \<Rightarrow> string" where
  "before_hash [] = []"
| "before_hash (c # cs) = (if c = CHR ''#'' then [] else c # before_hash cs)"

fun write_string :: "string \<Rightarrow> string" where
  "write_string [] = ''.''"
| "write_string (c # cs) = CHR ''+'' # c # write_string cs"

fun read_string :: "string \<Rightarrow> (string \<times> string) option" where
  "read_string (p # c # r) =
     (if p = CHR ''+'' then map_option (\<lambda>(s, r). (c # s, r)) (read_string r) else Some ([], c # r))"
| "read_string [p] = Some ([], [])"
| "read_string [] = None"

lemma read_write_string: "read_string (write_string s @ r) = Some (s, r)"
  by (induction s) (cases r, simp_all)

fun write_strings :: "string list \<Rightarrow> string" where
  "write_strings [] = ''.''"
| "write_strings (s # ss) = CHR ''*'' # write_string s @ write_strings ss"

fun read_strings :: "nat \<Rightarrow> string \<Rightarrow> (string list \<times> string) option" where
  "read_strings (Suc n) (p # r) =
     (if p = CHR ''*'' then
        (case read_string r of
           None \<Rightarrow> None
         | Some (s, r1) \<Rightarrow> map_option (\<lambda>(ss, r2). (s # ss, r2)) (read_strings n r1))
      else Some ([], r))"
| "read_strings _ _ = None"

lemma read_write_strings: "length ss < n \<Longrightarrow> read_strings n (write_strings ss @ r) = Some (ss, r)"
proof (induction ss arbitrary: n)
  case Nil
  then show ?case by (cases n) simp_all
next
  case (Cons s ss)
  then show ?case by (cases n) (simp_all add: read_write_string)
qed

definition plain_json :: "session_data \<Rightarrow> string" where
  "plain_json s = write_string (replicate (nat (session_offset s)) CHR ''1'')
     @ write_string (replicate (nat (- session_offset s)) CHR ''1'')
     @ write_strings (session_urls s) @ write_strings (session_titles s)"

definition parse_plain_json :: "string \<Rightarrow> session_data option" where
  "parse_plain_json j = do {
     (pos, r1) \<leftarrow> read_string j;
     (neg, r2) \<leftarrow> read_string r1;
     (us, r3) \<leftarrow> read_strings (length j) r2;
     (ts, r4) \<leftarrow> read_strings (length j) r3;
     Some \<lparr>session_offset = int (length pos) - int (length neg), session_urls = us, session_titles = ts\<rparr>
   }"

lemma length_write_strings: "length ss < length (write_strings ss)"
  by (induction ss) auto

lemma length_write_string: "0 < length (write_string s)"
  by (cases s) simp_all

lemma parse_plain: "parse_plain_json (plain_json s) = Some s"
proof -
  have "length (session_urls s) < length (plain_json s)" "length (session_titles s) < length (plain_json s)"
    using length_write_strings [of "session_urls s"] length_write_strings [of "session_titles s"]
    by (simp_all add: plain_json_def)
  then show ?thesis
    using read_write_strings [of "session_titles s" _ "[]"]
    by (simp add: parse_plain_json_def plain_json_def read_write_string read_write_strings)
qed

definition plain_url_env :: url_env where
  "plain_url_env = \<lparr>nav_spec = (\<lambda>u. u), nav_parse = (\<lambda>u. u), nav_is_valid = (\<lambda>u. u \<noteq> []),
     nav_scheme = (\<lambda>u. if has_prefix u ''about'' then ''about'' else ''file''),
     nav_path = before_hash, nav_ref = after_hash,
     nav_query = drop 12, nav_is_about_blank = (\<lambda>u. has_prefix u kAboutBlankURL),
     replace_ref = (\<lambda>u r. before_hash u @ ''#'' @ r), file_url_with_path = (\<lambda>p. ''file:'' @ p),
     restore_session_resource_path = ''/restore_session.html'',
     escape_query_param_value = (\<lambda>s. s), unescape_binary_url_component = (\<lambda>s. s),
     append_query_parameter = (\<lambda>u k v. u @ ''?'' @ k @ ''='' @ v),
     get_value_for_key_in_query = (\<lambda>u k. Some (drop 16 u)),
     is_app_specific_url = (\<lambda>u. False), use_js_for_error_page = False,
     is_text = (\<lambda>s. True), json_write = plain_json, json_parse = parse_plain_json,
     location_hash = (\<lambda>u. ''#'' @ after_hash u), location_base = before_hash,
     decode_uri_component = (\<lambda>s. s), encode_uri_component = (\<lambda>s. s)\<rparr>"

lemma hash_laws:
  "after_hash (before_hash u @ CHR ''#'' # r) = r" "before_hash (before_hash u @ CHR ''#'' # r) = before_hash u"
  by (induction u) auto

lemma has_prefix_hash:
  "CHR ''#'' \<notin> set p \<Longrightarrow> has_prefix (before_hash u @ CHR ''#'' # r) p = has_prefix u p"
proof (induction p arbitrary: u)
  case (Cons c p)
  then show ?case by (cases u) auto
qed simp

lemma plain_url_laws: "url_laws plain_url_env"
proof -
  have "has_prefix (before_hash u @ CHR ''#'' # r) ''about'' = has_prefix u ''about''" for u r
    by (rule has_prefix_hash) simp
  then show ?thesis
    by (simp add: url_laws_def plain_url_env_def hash_laws get_restore_session_base_url_def has_prefix_def)
qed

theorem redirect_url_roundtrip_witness:
  "extract_target_url plain_url_env (create_redirect_url plain_url_env ''http:x'') = Some (Some ''http:x'')"
  by (rule redirect_url_roundtrip [OF plain_url_laws, THEN conjunct2]) (simp add: plain_url_env_def)

text \<open>
  The placeholder URL of a valid URL is recognised as a placeholder, is internal to the
  web view, and the URL is extracted from it again.
\<close>

theorem placeholder_url_roundtrip:
  assumes "url_laws env" and "\<not> use_js_for_error_page env" and "nav_is_valid env u"
    and "nav_is_valid env p" and "nav_is_about_blank env p"
    and "append_query_parameter env (nav_parse env kAboutBlankURL) kOriginalUrlKey (nav_spec env u) = p"
    and "has_prefix (nav_query env p) kOriginalUrlKey"
    and "get_value_for_key_in_query env p kOriginalUrlKey = Some (nav_spec env u)"
  shows "create_placeholder_url_for_url env u = Some p \<and> is_placeholder_url env p = Some True
    \<and> is_wk_internal_url env p = Some True \<and> extract_url_from_placeholder_url env p = Some u"
proof -
  have "nav_parse env (nav_spec env u) = u" using assms(1,3) by (simp add: url_laws_def)
  with assms show ?thesis
    by (simp add: create_placeholder_url_for_url_def is_placeholder_url_def is_wk_internal_url_def
        extract_url_from_placeholder_url_def)
qed

theorem placeholder_url_roundtrip_witness:
  "extract_url_from_placeholder_url plain_url_env ''about:blank?for=http:x'' = Some ''http:x''"
  by (rule placeholder_url_roundtrip [of plain_url_env "''http:x''" "''about:blank?for=http:x''",
        THEN conjunct2, THEN conjunct2, THEN conjunct2])
    (simp_all add: plain_url_laws, simp_all add: plain_url_env_def kAboutBlankURL_def kOriginalUrlKey_def)

section \<open>The session restored by the page\<close>

text \<open>
  What is known of the JSON writer and of the functions of JavaScript: they keep text. A spec is
  ASCII. The URLs they are used on are the restoring page with one of its fragments.
\<close>

definition session_is_text :: "url_env \<Rightarrow> session_data \<Rightarrow> bool" where
  "session_is_text env s \<longleftrightarrow> - (2 ^ 31) \<le> session_offset s \<and> session_offset s < 2 ^ 31
     \<and> list_all (is_text env) (session_urls s) \<and> list_all (is_text env) (session_titles s)"

definition session_laws :: "url_env \<Rightarrow> bool" where
  "session_laws env \<longleftrightarrow>
     (\<forall>s. session_is_text env s \<longrightarrow> json_parse env (json_write env s) = Some s
        \<and> json_write env s \<noteq> [] \<and> is_text env (json_write env s))
   \<and> (\<forall>u. is_text env (nav_spec env u))
   \<and> (\<forall>r. restore_ref env r \<longrightarrow>
        location_hash env (replace_ref env (get_restore_session_base_url env) r) = ''#'' @ r
        \<and> (\<forall>x. is_text env x \<longrightarrow>
             location_hash env (location_base env (replace_ref env (get_restore_session_base_url env) r)
               @ ''#targetUrl='' @ encode_uri_component env x) = ''#targetUrl='' @ encode_uri_component env x))
   \<and> (\<forall>x. is_text env x \<longrightarrow> decode_uri_component env (escape_query_param_value env x) = x)
   \<and> (\<forall>x. is_text env x \<longrightarrow> decode_uri_component env (encode_uri_component env x) = x)"

lemma session_lawsD:
  assumes "session_laws env"
  shows "session_is_text env s \<Longrightarrow> json_parse env (json_write env s) = Some s"
    "session_is_text env s \<Longrightarrow> json_write env s \<noteq> []"
    "session_is_text env s \<Longrightarrow> is_text env (json_write env s)"
    "is_text env (nav_spec env u)"
    "restore_ref env r \<Longrightarrow>
       location_hash env (replace_ref env (get_restore_session_base_url env) r) = ''#'' @ r"
    "restore_ref env r \<Longrightarrow> is_text env x \<Longrightarrow>
       location_hash env (location_base env (replace_ref env (get_restore_session_base_url env) r)
         @ ''#targetUrl='' @ encode_uri_component env x) = ''#targetUrl='' @ encode_uri_component env x"
    "is_text env x \<Longrightarrow> decode_uri_component env (escape_query_param_value env x) = x"
    "is_text env x \<Longrightarrow> decode_uri_component env (encode_uri_component env x) = x"
  using assms unfolding session_laws_def by blast+

definition session_entry :: "url_env \<Rightarrow> string \<Rightarrow> session_data \<Rightarrow> nat \<Rightarrow> string \<times> string" where
  "session_entry env base s i =
     (element_or (session_titles s) i ''Untitled'',
      get_restore_url env base (element_or (session_urls s) i kAboutBlankURL))"

lemma push_entries_appends:
  assumes "history_entries h \<noteq> []" and "history_position h = length (history_entries h) - 1"
  shows "push_entries env base s h is =
    h\<lparr>history_entries := history_entries h @ map (session_entry env base s) is,
      history_position := history_position h + length is\<rparr>"
  using assms
proof (induction "is" arbitrary: h)
  case (Cons i "is")
  define h1 where "h1 = push_state h (element_or (session_titles s) i ''Untitled'')
    (get_restore_url env base (element_or (session_urls s) i kAboutBlankURL))"
  have h1: "h1 = h\<lparr>history_entries := history_entries h @ [session_entry env base s i],
      history_position := Suc (history_position h)\<rparr>"
    using Cons.prems by (cases "history_entries h") (auto simp: h1_def push_state_def session_entry_def)
  then have "history_entries h1 \<noteq> []" "history_position h1 = length (history_entries h1) - 1"
    using Cons.prems by (cases "history_entries h", auto)+
  from Cons.IH [OF this] show ?case by (simp add: h1_def [symmetric]) (simp add: h1)
qed simp

definition fresh_history :: session_history where
  "fresh_history = \<lparr>history_entries = [([], [])], history_position = 0\<rparr>"

lemma restore_session_fresh:
  assumes "json_parse env j = Some s" and "session_urls s \<noteq> []"
    and "session_offset s = int k + 1 - int (length (session_urls s))" and "k < length (session_urls s)"
  shows "restore_session env base j fresh_history =
    HistoryRestored \<lparr>history_entries = map (session_entry env base s) [0..<length (session_urls s)],
      history_position = k\<rparr>"
proof -
  define n where "n = length (session_urls s)"
  have n: "0 < n" using assms(2) by (simp add: n_def)
  define h1 where "h1 = \<lparr>history_entries = [session_entry env base s 0], history_position = 0\<rparr>"
  have "push_entries env base s h1 [1..<n] =
      h1\<lparr>history_entries := [session_entry env base s 0] @ map (session_entry env base s) [1..<n],
         history_position := n - 1\<rparr>"
    using push_entries_appends [of h1 env base s "[1..<n]"] by (simp add: h1_def)
  moreover have "[0..<n] = 0 # [1..<n]" using n by (simp add: upt_conv_Cons)
  ultimately have push: "push_entries env base s h1 [1..<n] =
      \<lparr>history_entries = map (session_entry env base s) [0..<n], history_position = n - 1\<rparr>"
    by (simp add: h1_def)
  have "replace_state fresh_history (element_or (session_titles s) 0 ''Untitled'')
      (get_restore_url env base (element_or (session_urls s) 0 kAboutBlankURL)) = h1"
    by (simp add: replace_state_def fresh_history_def h1_def session_entry_def)
  then have "restore_session env base j fresh_history = HistoryRestored
      (if length (history_entries (push_entries env base s h1 [1..<n])) = n
       then history_go (push_entries env base s h1 [1..<n]) (session_offset s)
       else push_entries env base s h1 [1..<n])"
    using assms(1) n by (simp add: restore_session_def n_def [symmetric] Let_def)
  also have "\<dots> = HistoryRestored \<lparr>history_entries = map (session_entry env base s) [0..<n], history_position = k\<rparr>"
    unfolding push using assms(3,4) n
    by (simp add: history_go_def n_def [symmetric] Let_def of_nat_diff)
  finally show ?thesis by (simp add: n_def)
qed

lemma redirect_entry:
  assumes "session_laws env" and "restore_ref env r" and "is_text env x" and "x \<noteq> []"
  shows "page_onload env (get_restore_url env
      (location_base env (replace_ref env (get_restore_session_base_url env) r)) x) h = RedirectedTo x"
proof -
  obtain c cs where "x = c # cs" using assms(4) by (cases x) auto
  with session_lawsD(6) [OF assms(1-3)] session_lawsD(8) [OF assms(1,3)] show ?thesis
    by (simp add: page_onload_def extract_hash_value_for_prefix_def Let_def get_restore_url_def)
qed

text \<open>
  Loading in a fresh web view the URL that \<open>CreateRestoreSessionUrl\<close> makes of a session
  rebuilds it: the back/forward list has the items of the window in order, the entry shown is
  the current item, and every entry redirects to the URL of its item.
\<close>

lemma session_restored:
  assumes "session_laws env" and "0 \<le> k" and "k < int (length items)" and "length items < 2 ^ 31"
    and "\<forall>i \<in> set items. nav_spec env (item_url i) \<noteq> [] \<and> is_text env (item_title i)"
  shows "\<exists>url first h. create_restore_session_url env k items = Some (url, first)
    \<and> page_onload env url fresh_history = HistoryRestored h
    \<and> length (history_entries h) = min (length items) 75
    \<and> first + int (history_position h) = k
    \<and> 0 \<le> first \<and> first + int (length (history_entries h)) \<le> int (length items)
    \<and> (\<forall>i j. 0 \<le> i \<and> i < int (length items)
         \<and> \<not> (first \<le> i \<and> i < first + int (length (history_entries h)))
         \<and> first \<le> j \<and> j < first + int (length (history_entries h)) \<longrightarrow> \<bar>j - k\<bar> \<le> \<bar>i - k\<bar>)
    \<and> (\<forall>i < length (history_entries h). fst (history_entries h ! i) =
         (if item_title (items ! (nat first + i)) = [] then ''Untitled'' else item_title (items ! (nat first + i))))
    \<and> (\<forall>i < length (history_entries h). \<forall>any.
         page_onload env (snd (history_entries h ! i)) any =
           RedirectedTo (nav_spec env (item_url (items ! (nat first + i)))))"
proof -
  define n where "n = length items"
  obtain first past new_k where win: "get_safe_item_iterators k n = (first, past, new_k)"
    by (cases "get_safe_item_iterators k n")
  have k: "0 \<le> k" "k < int n" "int n < 2 ^ 63" using assms(2-4) by (simp_all add: n_def)
  note near = session_window [OF k win]
  then have w: "0 \<le> first" "past \<le> int n" "past - first = min (int n) 75" "0 \<le> new_k"
    "new_k < past - first" "first + new_k = k" by blast+
  define window where "window = take (nat (past - first)) (drop (nat first) items)"
  have len: "length window = min n 75" and size: "past - first = int (length window)"
    using w by (auto simp: window_def n_def min_def)
  define s where "s = \<lparr>session_offset = to_int32 ((new_k + 1 - (past - first)) mod 2 ^ 64),
    session_urls = map (\<lambda>i. nav_spec env (item_url i)) window, session_titles = map item_title window\<rparr>"
  define url where "url = replace_ref env (get_restore_session_base_url env)
    (kRestoreSessionSessionHashPrefix @ escape_query_param_value env (json_write env s))"
  have "to_int32 (int n) = int n" using assms(4) by (intro to_int32_id) (simp_all add: n_def)
  then have create: "create_restore_session_url env k items = Some (url, first)"
    using k win by (simp add: create_restore_session_url_def n_def [symmetric] window_def [symmetric]
        s_def url_def)
  have "to_int32 (new_k + 1 - (past - first)) = new_k + 1 - (past - first)"
    by (rule to_int32_id) (use w in auto)
  then have offset: "session_offset s = int (nat new_k) + 1 - int (length (session_urls s))"
    using w(4) size by (simp add: s_def to_int32_mod64 [simplified])
  have new_k: "nat new_k < length (session_urls s)" using w(4,5) size by (simp add: s_def)
  define h where "h = \<lparr>history_entries = map (session_entry env (location_base env url) s) [0..<length window],
    history_position = nat new_k\<rparr>"
  define r where "r = kRestoreSessionSessionHashPrefix @ escape_query_param_value env (json_write env s)"
  have r: "restore_ref env r" by (auto simp: restore_ref_def r_def)
  have url_r: "url = replace_ref env (get_restore_session_base_url env) r" by (simp add: url_def r_def)
  have in_window: "x \<in> set items" if "x \<in> set window" for x
    using that unfolding window_def by (meson in_set_dropD in_set_takeD)
  have written: "session_is_text env s"
  proof -
    have "session_offset s = int (nat new_k) + 1 - int (length window)"
      using offset by (simp add: s_def)
    moreover have "length window \<le> 75" using len by simp
    ultimately show ?thesis
      using assms(5) in_window w(4,5) size session_lawsD(4) [OF assms(1)]
      by (auto simp: session_is_text_def s_def list_all_iff)
  qed
  have json: "json_parse env (json_write env s) = Some s" "json_write env s \<noteq> []"
    "decode_uri_component env (escape_query_param_value env (json_write env s)) = json_write env s"
    "location_hash env url = ''#'' @ kRestoreSessionSessionHashPrefix @ escape_query_param_value env (json_write env s)"
    using session_lawsD(1-3) [OF assms(1) written] session_lawsD(7) [OF assms(1)] session_lawsD(5) [OF assms(1) r]
    by (simp_all add: url_r) (simp add: r_def)
  have "restore_session env (location_base env url) (json_write env s) fresh_history = HistoryRestored h"
  proof -
    have ne: "session_urls s \<noteq> []" using new_k by auto
    have "length (session_urls s) = length window" by (simp add: s_def)
    with restore_session_fresh [OF json(1) ne offset new_k, of "location_base env url"] show ?thesis
      by (simp add: h_def)
  qed
  then have load: "page_onload env url fresh_history = HistoryRestored h"
    using json(2-4) by (cases "json_write env s")
      (simp_all add: page_onload_def extract_hash_value_for_prefix_def kRestoreSessionSessionHashPrefix_def Let_def)
  have entry: "page_onload env (snd (history_entries h ! i)) any =
      RedirectedTo (nav_spec env (item_url (items ! (nat first + i))))"
    if "i < length window" for i any
  proof -
    have item: "window ! i = items ! (nat first + i)" "items ! (nat first + i) \<in> set items"
      using that w(1,2) by (auto simp: window_def n_def)
    then have ne: "nav_spec env (item_url (window ! i)) \<noteq> []" using assms(5) by simp
    then have "element_or (session_urls s) i kAboutBlankURL = nav_spec env (item_url (window ! i))"
      using that by (simp add: element_or_def s_def)
    then have "snd (history_entries h ! i) =
        get_restore_url env (location_base env url) (nav_spec env (item_url (window ! i)))"
      using that by (simp add: h_def session_entry_def)
    with redirect_entry [OF assms(1) r session_lawsD(4) [OF assms(1)] ne] item(1) show ?thesis
      by (simp add: url_r)
  qed
  have title: "fst (history_entries h ! i) =
      (if item_title (items ! (nat first + i)) = [] then ''Untitled'' else item_title (items ! (nat first + i)))"
    if "i < length window" for i
  proof -
    have "window ! i = items ! (nat first + i)" using that w(1,2) by (auto simp: window_def n_def)
    then show ?thesis using that by (simp add: h_def session_entry_def element_or_def s_def)
  qed
  have "first + int (history_position h) = k" using w(4,6) by (simp add: h_def)
  moreover have "0 \<le> first" "first + int (length window) \<le> int n"
    using w(1,2) size by simp_all
  moreover have "past = first + int (length window)" using size by simp
  then have "\<forall>i j. 0 \<le> i \<and> i < int n \<and> \<not> (first \<le> i \<and> i < first + int (length window))
      \<and> first \<le> j \<and> j < first + int (length window) \<longrightarrow> \<bar>j - k\<bar> \<le> \<bar>i - k\<bar>"
    using near by blast
  moreover have "length (history_entries h) = length window" by (simp add: h_def)
  ultimately show ?thesis using create load entry title len
    by (intro exI [of _ url] exI [of _ first] exI [of _ h]) (simp only: n_def, simp)
qed


lemma plain_session_laws: "session_laws plain_url_env"
proof -
  have "plain_json s \<noteq> []" for s using length_write_strings [of "session_urls s"] by (auto simp: plain_json_def)
  then show ?thesis
    by (simp add: session_laws_def plain_url_env_def parse_plain hash_laws)
qed

lemma session_restored_witness:
  "\<exists>url first h. create_restore_session_url plain_url_env 1
      [\<lparr>item_url = ''http:a'', item_title = ''A''\<rparr>, \<lparr>item_url = ''http:b'', item_title = ''''\<rparr>] = Some (url, first)
    \<and> page_onload plain_url_env url fresh_history = HistoryRestored h
    \<and> length (history_entries h) = 2 \<and> first + int (history_position h) = 1"
  using session_restored [OF plain_session_laws, of 1
      "[\<lparr>item_url = ''http:a'', item_title = ''A''\<rparr>, \<lparr>item_url = ''http:b'', item_title = ''''\<rparr>]"]
  by (force simp: plain_url_env_def)


end
