(* ===== verification/ErrorRetry.thy ===== *)
theory ErrorRetry
  imports WkNavigationUtilFacts
begin

text \<open>
  The error and retry state of a navigation item:
  \<open>web/navigation/error_retry_state_machine.{h,mm}\<close>. Each operation returns the machine and
  the command for the web view; \<open>NOTREACHED\<close> is \<^term>\<open>None\<close>, like a failed check.
\<close>

section \<open>The machine\<close>

datatype error_retry_state =
    kNewRequest
  | kNoNavigationError
  | kLoadingPlaceholder
  | kRetryPlaceholderNavigation
  | kReadyToDisplayError
  | kDisplayingError
  | kNavigatingToFailedNavigationItem
  | kRetryFailedNavigationItem
  | kIgnorePlaceholderNavigation

datatype error_retry_command =
    kLoadPlaceholder
  | kLoadError
  | kReload
  | kRewriteToWebViewURL
  | kRewriteToPlaceholderURL
  | kDoNothing

record error_retry_state_machine =
  retry_state :: error_retry_state
  retry_url :: nav_url

definition new_error_retry_state_machine :: error_retry_state_machine where
  "new_error_retry_state_machine = \<lparr>retry_state = kNewRequest, retry_url = []\<rparr>"

definition copy_error_retry_state_machine :: "error_retry_state_machine \<Rightarrow> error_retry_state_machine" where
  "copy_error_retry_state_machine m = \<lparr>retry_state = retry_state m, retry_url = retry_url m\<rparr>"

definition set_url :: "error_retry_state_machine \<Rightarrow> nav_url \<Rightarrow> error_retry_state_machine" where
  "set_url m url = m\<lparr>retry_url := url\<rparr>"

definition set_no_navigation_error :: "error_retry_state_machine \<Rightarrow> error_retry_state_machine" where
  "set_no_navigation_error m = m\<lparr>retry_state := kNoNavigationError\<rparr>"

definition set_displaying_web_error :: "error_retry_state_machine \<Rightarrow> error_retry_state_machine option" where
  "set_displaying_web_error m = do {
     dcheck (retry_state m = kReadyToDisplayError \<or> retry_state m = kRetryFailedNavigationItem);
     Some (m\<lparr>retry_state := kDisplayingError\<rparr>)
   }"

definition set_retry_placeholder_navigation ::
  "error_retry_state_machine \<Rightarrow> error_retry_state_machine option" where
  "set_retry_placeholder_navigation m = do {
     dcheck (retry_state m = kNoNavigationError);
     Some (m\<lparr>retry_state := kRetryPlaceholderNavigation\<rparr>)
   }"

definition set_ignore_placeholder_navigation :: "error_retry_state_machine \<Rightarrow> error_retry_state_machine" where
  "set_ignore_placeholder_navigation m = m\<lparr>retry_state := kIgnorePlaceholderNavigation\<rparr>"

definition back_forward_or_reload_failed ::
  "error_retry_state_machine \<Rightarrow> error_retry_state_machine \<times> error_retry_command" where
  "back_forward_or_reload_failed m = (m\<lparr>retry_state := kReadyToDisplayError\<rparr>, kLoadError)"

definition did_fail_provisional_navigation ::
  "url_env \<Rightarrow> error_retry_state_machine \<Rightarrow> nav_url \<Rightarrow> nav_url
     \<Rightarrow> (error_retry_state_machine \<times> error_retry_command) option" where
  "did_fail_provisional_navigation env m web_view_url error_url =
     (case retry_state m of
        kNewRequest \<Rightarrow>
          if web_view_url = create_redirect_url env error_url
          then Some (m\<lparr>retry_state := kReadyToDisplayError\<rparr>, kLoadError)
          else Some (m\<lparr>retry_state := kLoadingPlaceholder\<rparr>, kLoadPlaceholder)
      | kNoNavigationError \<Rightarrow> Some (m\<lparr>retry_state := kLoadingPlaceholder\<rparr>, kRewriteToPlaceholderURL)
      | kRetryFailedNavigationItem \<Rightarrow>
          Some (m\<lparr>retry_state := kLoadingPlaceholder\<rparr>, kRewriteToPlaceholderURL)
      | kDisplayingError \<Rightarrow> Some (m\<lparr>retry_state := kLoadingPlaceholder\<rparr>, kRewriteToPlaceholderURL)
      | _ \<Rightarrow> None)"

definition did_fail_navigation ::
  "error_retry_state_machine \<Rightarrow> nav_url \<Rightarrow> (error_retry_state_machine \<times> error_retry_command) option" where
  "did_fail_navigation m web_view_url =
     (case retry_state m of
        kNewRequest \<Rightarrow> Some (m\<lparr>retry_state := kReadyToDisplayError\<rparr>, kLoadError)
      | kNoNavigationError \<Rightarrow> Some (back_forward_or_reload_failed m)
      | kRetryFailedNavigationItem \<Rightarrow> Some (back_forward_or_reload_failed m)
      | kDisplayingError \<Rightarrow> Some (back_forward_or_reload_failed m)
      | _ \<Rightarrow> None)"

definition did_finish_navigation ::
  "url_env \<Rightarrow> bool \<Rightarrow> error_retry_state_machine \<Rightarrow> nav_url
     \<Rightarrow> (error_retry_state_machine \<times> error_retry_command) option" where
  "did_finish_navigation env ios13 m web_view_url =
     (case retry_state m of
        kLoadingPlaceholder \<Rightarrow> do {
          _ \<leftarrow> (if ios13 then do {
                  placeholder \<leftarrow> create_placeholder_url_for_url env (retry_url m);
                  dcheck (web_view_url = placeholder)
                } else Some ());
          Some (m\<lparr>retry_state := kReadyToDisplayError\<rparr>, kLoadError)
        }
      | kRetryPlaceholderNavigation \<Rightarrow> do {
          is_placeholder \<leftarrow> is_placeholder_url env web_view_url;
          if is_placeholder then do {
            placeholder \<leftarrow> create_placeholder_url_for_url env (retry_url m);
            dcheck (web_view_url = placeholder);
            Some (m\<lparr>retry_state := kRetryPlaceholderNavigation\<rparr>, kRewriteToWebViewURL)
          }
          else Some (m\<lparr>retry_state := kReadyToDisplayError\<rparr>, kLoadError)
        }
      | kNewRequest \<Rightarrow>
          if is_restore_session_url env web_view_url then Some (m, kDoNothing)
          else do {
            is_placeholder \<leftarrow> is_placeholder_url env web_view_url;
            if is_placeholder
            then Some (m\<lparr>retry_state := kNavigatingToFailedNavigationItem\<rparr>, kRewriteToWebViewURL)
            else Some (m\<lparr>retry_state := kNoNavigationError\<rparr>, kDoNothing)
          }
      | kReadyToDisplayError \<Rightarrow> do {
          dcheck (web_view_url = retry_url m);
          Some (m\<lparr>retry_state := kDisplayingError\<rparr>, kDoNothing)
        }
      | kDisplayingError \<Rightarrow> do {
          placeholder \<leftarrow> create_placeholder_url_for_url env (retry_url m);
          if web_view_url = placeholder
          then Some (m\<lparr>retry_state := kNavigatingToFailedNavigationItem\<rparr>, kRewriteToWebViewURL)
          else do {
            target \<leftarrow> (if is_restore_session_url env web_view_url
                       then extract_target_url env web_view_url else Some None);
            if target = Some (retry_url m)
            then Some (m\<lparr>retry_state := kNoNavigationError\<rparr>, kDoNothing)
            else do {
              dcheck (web_view_url = retry_url m);
              Some (m\<lparr>retry_state := kNoNavigationError\<rparr>, kDoNothing)
            }
          }
        }
      | kNavigatingToFailedNavigationItem \<Rightarrow> do {
          dcheck (web_view_url = retry_url m);
          Some (m\<lparr>retry_state := kRetryFailedNavigationItem\<rparr>, kReload)
        }
      | kRetryFailedNavigationItem \<Rightarrow> do {
          dcheck (web_view_url = retry_url m);
          Some (m\<lparr>retry_state := kNoNavigationError\<rparr>, kDoNothing)
        }
      | kIgnorePlaceholderNavigation \<Rightarrow> Some (m\<lparr>retry_state := kNoNavigationError\<rparr>, kDoNothing)
      | kNoNavigationError \<Rightarrow> Some (m, kDoNothing))"

section \<open>The machine and the web view that obeys it\<close>

text \<open>
  A web view carries out the last command it was given before it reports anything else: after
  a placeholder command it finishes at the placeholder, after a rewrite or an error page at
  the URL of the item, and a reload may finish or fail. At any time a load may be cancelled once it
  is committed, or replaced by data that is loaded at once: the machine is then set to having no
  error, and nothing is left to carry out.
\<close>

datatype retry_event =
    FinishNavigation nav_url
  | FailProvisionalNavigation nav_url nav_url
  | FailNavigation nav_url
  | RetryPlaceholderNavigation
  | DisplayWebError
  | LoadCancelledOrReplaced

record retry_system =
  machine :: error_retry_state_machine
  pending_command :: error_retry_command

definition new_retry_system :: "nav_url \<Rightarrow> retry_system" where
  "new_retry_system url =
     \<lparr>machine = set_url new_error_retry_state_machine url, pending_command = kDoNothing\<rparr>"

fun retry_step :: "url_env \<Rightarrow> retry_system \<Rightarrow> retry_event \<Rightarrow> retry_system option" where
  "retry_step env s (FinishNavigation url) =
     map_option (\<lambda>(m, c). \<lparr>machine = m, pending_command = c\<rparr>)
       (did_finish_navigation env True (machine s) url)"
| "retry_step env s (FailProvisionalNavigation url error_url) =
     map_option (\<lambda>(m, c). \<lparr>machine = m, pending_command = c\<rparr>)
       (did_fail_provisional_navigation env (machine s) url error_url)"
| "retry_step env s (FailNavigation url) =
     map_option (\<lambda>(m, c). \<lparr>machine = m, pending_command = c\<rparr>) (did_fail_navigation (machine s) url)"
| "retry_step env s RetryPlaceholderNavigation =
     map_option (\<lambda>m. s\<lparr>machine := m\<rparr>) (set_retry_placeholder_navigation (machine s))"
| "retry_step env s DisplayWebError =
     map_option (\<lambda>m. \<lparr>machine = m, pending_command = kDoNothing\<rparr>) (set_displaying_web_error (machine s))"
| "retry_step env s LoadCancelledOrReplaced =
     Some \<lparr>machine = set_no_navigation_error (machine s), pending_command = kDoNothing\<rparr>"

text \<open>What the web view, whose item has the URL \<open>u\<close> and the placeholder \<open>p\<close>, reports next.\<close>

fun retry_event_allowed ::
  "url_env \<Rightarrow> nav_url \<Rightarrow> nav_url \<Rightarrow> retry_system \<Rightarrow> retry_event \<Rightarrow> bool" where
  "retry_event_allowed env u p s (FinishNavigation w) =
     (case pending_command s of
        kLoadPlaceholder \<Rightarrow> w = p
      | kRewriteToPlaceholderURL \<Rightarrow> w = p
      | kLoadError \<Rightarrow> w = u
      | kRewriteToWebViewURL \<Rightarrow> w = u
      | kReload \<Rightarrow> w = u
      | kDoNothing \<Rightarrow> w = u \<or> w = p \<or> w = create_redirect_url env u)"
| "retry_event_allowed env u p s (FailProvisionalNavigation w e) =
     ((pending_command s = kDoNothing \<or> pending_command s = kReload)
      \<and> retry_state (machine s) \<noteq> kRetryPlaceholderNavigation)"
| "retry_event_allowed env u p s (FailNavigation w) =
     ((pending_command s = kDoNothing \<or> pending_command s = kReload)
      \<and> retry_state (machine s) \<noteq> kRetryPlaceholderNavigation)"
| "retry_event_allowed env u p s RetryPlaceholderNavigation =
     (pending_command s = kDoNothing \<and> retry_state (machine s) = kNoNavigationError)"
| "retry_event_allowed env u p s DisplayWebError = (pending_command s = kReload)"
| "retry_event_allowed env u p s LoadCancelledOrReplaced = True"

text \<open>The state agrees with the command that is being carried out.\<close>

definition agrees :: "error_retry_state \<Rightarrow> error_retry_command \<Rightarrow> bool" where
  "agrees st c =
     (case st of
        kNewRequest \<Rightarrow> c = kDoNothing
      | kNoNavigationError \<Rightarrow> c = kDoNothing
      | kLoadingPlaceholder \<Rightarrow> c = kLoadPlaceholder \<or> c = kRewriteToPlaceholderURL
      | kRetryPlaceholderNavigation \<Rightarrow> c = kDoNothing \<or> c = kRewriteToWebViewURL
      | kReadyToDisplayError \<Rightarrow> c = kLoadError
      | kDisplayingError \<Rightarrow> c = kDoNothing
      | kNavigatingToFailedNavigationItem \<Rightarrow> c = kRewriteToWebViewURL
      | kRetryFailedNavigationItem \<Rightarrow> c = kReload
      | kIgnorePlaceholderNavigation \<Rightarrow> False)"

text \<open>An item with a valid URL that is not itself one of the special URLs.\<close>

definition ordinary_item :: "url_env \<Rightarrow> nav_url \<Rightarrow> nav_url \<Rightarrow> bool" where
  "ordinary_item env u p \<longleftrightarrow> url_laws env \<and> \<not> use_js_for_error_page env \<and> nav_is_valid env u
     \<and> create_placeholder_url_for_url env u = Some p \<and> is_placeholder_url env p = Some True
     \<and> is_placeholder_url env u = Some False \<and> \<not> is_restore_session_url env u
     \<and> is_placeholder_url env (create_redirect_url env u) = Some False
     \<and> \<not> is_restore_session_url env p"

definition retry_ok :: "url_env \<Rightarrow> nav_url \<Rightarrow> nav_url \<Rightarrow> retry_system \<Rightarrow> bool" where
  "retry_ok env u p s \<longleftrightarrow> ordinary_item env u p \<and> retry_url (machine s) = u
     \<and> agrees (retry_state (machine s)) (pending_command s)"

lemma ordinary_redirect:
  assumes "ordinary_item env u p"
  shows "is_restore_session_url env (create_redirect_url env u)"
    "extract_target_url env (create_redirect_url env u) = Some (Some u)"
  using redirect_url_roundtrip [of env u] assms by (simp_all add: ordinary_item_def)

lemma retry_finish_ok:
  assumes "retry_ok env u p s" and "retry_event_allowed env u p s (FinishNavigation w)"
  shows "\<exists>s'. retry_step env s (FinishNavigation w) = Some s' \<and> retry_ok env u p s'"
proof -
  have o: "ordinary_item env u p" and url: "retry_url (machine s) = u"
    using assms(1) by (simp_all add: retry_ok_def)
  note facts = o [unfolded ordinary_item_def] ordinary_redirect [OF o]
  have "p \<noteq> u" using facts by auto
  show ?thesis
    using assms url facts
    by (cases "retry_state (machine s)"; cases "pending_command s")
      (auto simp: retry_ok_def agrees_def did_finish_navigation_def o)
qed

lemma retry_step_ok:
  assumes "retry_ok env u p s" and "retry_event_allowed env u p s e"
  shows "\<exists>s'. retry_step env s e = Some s' \<and> retry_ok env u p s'"
proof (cases e)
  case (FinishNavigation w)
  then show ?thesis using retry_finish_ok assms by simp
next
  case (FailProvisionalNavigation w err)
  with assms show ?thesis
    by (cases "retry_state (machine s)"; cases "pending_command s")
      (auto simp: retry_ok_def agrees_def did_fail_provisional_navigation_def)
next
  case (FailNavigation w)
  with assms show ?thesis
    by (cases "retry_state (machine s)"; cases "pending_command s")
      (auto simp: retry_ok_def agrees_def did_fail_navigation_def back_forward_or_reload_failed_def)
next
  case RetryPlaceholderNavigation
  with assms show ?thesis
    by (auto simp: retry_ok_def agrees_def set_retry_placeholder_navigation_def)
next
  case DisplayWebError
  with assms show ?thesis
    by (cases "retry_state (machine s)")
      (auto simp: retry_ok_def agrees_def set_displaying_web_error_def)
next
  case LoadCancelledOrReplaced
  with assms show ?thesis by (simp add: retry_ok_def agrees_def set_no_navigation_error_def)
qed

interpretation retry: total_machine "retry_step env" "retry_event_allowed env u p" "retry_ok env u p"
  for env u p
proof unfold_locales
  show "retry_ok env u p t" if "retry_ok env u p s" "retry_event_allowed env u p s c" "retry_step env s c = Some t"
    for s c t
    using retry_step_ok [OF that(1,2)] that(3) by auto
  show "\<exists>t. retry_step env s c = Some t" if "retry_ok env u p s" "retry_event_allowed env u p s c" for s c
    using retry_step_ok [OF that] by auto
qed

lemma new_retry_ok: "ordinary_item env u p \<Longrightarrow> retry_ok env u p (new_retry_system u)"
  by (simp add: retry_ok_def new_retry_system_def set_url_def new_error_retry_state_machine_def agrees_def)

section \<open>Properties\<close>

text \<open>
  C35. A web view that carries out the commands it is given never brings the machine of an
  ordinary item to a state it does not expect: no check fails, and whenever nothing is left to
  carry out the item is new, loaded, showing its error, or about to retry its placeholder.
\<close>

theorem error_retry_never_stuck:
  assumes "ordinary_item env u p"
    and "legal (retry_step env) (retry_event_allowed env u p) (new_retry_system u) es s"
    and "retry_event_allowed env u p s e"
  shows "(\<exists>s'. retry_step env s e = Some s')
    \<and> (pending_command s = kDoNothing \<longrightarrow>
        retry_state (machine s) \<in> {kNewRequest, kNoNavigationError, kDisplayingError, kRetryPlaceholderNavigation})
    \<and> (retry_state (machine s) = kReadyToDisplayError \<longleftrightarrow> pending_command s = kLoadError)
    \<and> (retry_state (machine s) = kRetryFailedNavigationItem \<longleftrightarrow> pending_command s = kReload)"
proof -
  have ok: "retry_ok env u p s" by (rule retry.legal_inv [OF assms(2) new_retry_ok [OF assms(1)]])
  then have "agrees (retry_state (machine s)) (pending_command s)" by (simp add: retry_ok_def)
  then have "(pending_command s = kDoNothing \<longrightarrow>
        retry_state (machine s) \<in> {kNewRequest, kNoNavigationError, kDisplayingError, kRetryPlaceholderNavigation})
    \<and> (retry_state (machine s) = kReadyToDisplayError \<longleftrightarrow> pending_command s = kLoadError)
    \<and> (retry_state (machine s) = kRetryFailedNavigationItem \<longleftrightarrow> pending_command s = kReload)"
    by (cases "retry_state (machine s)") (auto simp: agrees_def)
  with retry_step_ok [OF ok assms(3)] show ?thesis by blast
qed

definition plain_placeholder :: nav_url where
  "plain_placeholder = ''about:blank?for=http:x''"

lemma plain_ordinary: "ordinary_item plain_url_env ''http:x'' plain_placeholder"
  by (simp add: ordinary_item_def plain_url_laws)
    (simp add: plain_url_env_def plain_placeholder_def create_placeholder_url_for_url_def kAboutBlankURL_def
      kOriginalUrlKey_def is_placeholder_url_def is_restore_session_url_def create_redirect_url_def
      get_restore_session_base_url_def)

theorem error_retry_never_stuck_witness:
  "\<exists>s'. retry_step plain_url_env
     (the (run (retry_step plain_url_env) (new_retry_system ''http:x'')
       [FailProvisionalNavigation ''http:x'' ''http:x'', FinishNavigation plain_placeholder]))
     (FinishNavigation ''http:x'') = Some s'"
proof -
  have "case run_checked (retry_step plain_url_env) (retry_event_allowed plain_url_env ''http:x'' plain_placeholder)
      (new_retry_system ''http:x'')
      [FailProvisionalNavigation ''http:x'' ''http:x'', FinishNavigation plain_placeholder] of None \<Rightarrow> False
    | Some s \<Rightarrow> retry_event_allowed plain_url_env ''http:x'' plain_placeholder s (FinishNavigation ''http:x'')"
    by code_simp
  then obtain s where s: "legal (retry_step plain_url_env) (retry_event_allowed plain_url_env ''http:x'' plain_placeholder)
      (new_retry_system ''http:x'')
      [FailProvisionalNavigation ''http:x'' ''http:x'', FinishNavigation plain_placeholder] s"
    "retry_event_allowed plain_url_env ''http:x'' plain_placeholder s (FinishNavigation ''http:x'')"
    by (rule run_checked_witness)
  from error_retry_never_stuck [OF plain_ordinary s] legal_run [OF s(1)] show ?thesis by simp
qed

text \<open>
  The cycle of the documentation: going back to an item that shows its error rewrites the
  placeholder to the URL of the item, reloads it, and either ends with the page loaded or, when
  the reload fails, rewrites the placeholder again and ends with the error shown again.
\<close>

theorem retry_cycle:
  assumes "retry_ok env u p s" and "retry_state (machine s) = kDisplayingError"
  shows "(\<exists>t. legal (retry_step env) (retry_event_allowed env u p) s
            [FinishNavigation p, FinishNavigation u, FinishNavigation u] t
          \<and> retry_state (machine t) = kNoNavigationError \<and> pending_command t = kDoNothing)
    \<and> (\<exists>t. legal (retry_step env) (retry_event_allowed env u p) s
            [FinishNavigation p, FinishNavigation u, FailProvisionalNavigation u u,
             FinishNavigation p, FinishNavigation u] t
          \<and> retry_state (machine t) = kDisplayingError \<and> pending_command t = kDoNothing)"
proof -
  have o: "ordinary_item env u p" and url: "retry_url (machine s) = u"
    and idle: "pending_command s = kDoNothing"
    using assms by (auto simp: retry_ok_def agrees_def)
  have p: "create_placeholder_url_for_url env u = Some p" using o by (simp add: ordinary_item_def)
  define m where "m st = (machine s)\<lparr>retry_state := st\<rparr>" for st
  define sys where "sys st c = \<lparr>machine = m st, pending_command = c\<rparr>" for st c
  have s: "s = sys kDisplayingError kDoNothing"
    using assms(2) idle by (cases s, cases "machine s") (simp add: sys_def m_def)
  have steps:
    "retry_step env (sys kDisplayingError kDoNothing) (FinishNavigation p) =
       Some (sys kNavigatingToFailedNavigationItem kRewriteToWebViewURL)"
    "retry_step env (sys kNavigatingToFailedNavigationItem kRewriteToWebViewURL) (FinishNavigation u) =
       Some (sys kRetryFailedNavigationItem kReload)"
    "retry_step env (sys kRetryFailedNavigationItem kReload) (FinishNavigation u) =
       Some (sys kNoNavigationError kDoNothing)"
    "retry_step env (sys kRetryFailedNavigationItem kReload) (FailProvisionalNavigation u u) =
       Some (sys kLoadingPlaceholder kRewriteToPlaceholderURL)"
    "retry_step env (sys kLoadingPlaceholder kRewriteToPlaceholderURL) (FinishNavigation p) =
       Some (sys kReadyToDisplayError kLoadError)"
    "retry_step env (sys kReadyToDisplayError kLoadError) (FinishNavigation u) =
       Some (sys kDisplayingError kDoNothing)"
    using url p by (simp_all add: sys_def m_def did_finish_navigation_def did_fail_provisional_navigation_def)
  have fields: "pending_command (sys st c) = c" "retry_state (machine (sys st c)) = st" for st c
    by (simp_all add: sys_def m_def)
  show ?thesis
    unfolding s by (simp add: legal_Cons_iff steps fields del: retry_step.simps)
qed

theorem retry_cycle_witness:
  "\<exists>t. legal (retry_step plain_url_env) (retry_event_allowed plain_url_env ''http:x'' plain_placeholder)
     \<lparr>machine = \<lparr>retry_state = kDisplayingError, retry_url = ''http:x''\<rparr>, pending_command = kDoNothing\<rparr>
     [FinishNavigation plain_placeholder, FinishNavigation ''http:x'', FinishNavigation ''http:x''] t
   \<and> retry_state (machine t) = kNoNavigationError"
  using retry_cycle [of plain_url_env "''http:x''" plain_placeholder
      "\<lparr>machine = \<lparr>retry_state = kDisplayingError, retry_url = ''http:x''\<rparr>, pending_command = kDoNothing\<rparr>"]
  by (simp add: retry_ok_def plain_ordinary agrees_def) blast


end
