(* ===== verification/OrderedSet.thy ===== *)
theory OrderedSet
  imports Prelude
begin

text \<open>
  \<open>std::set\<close> with a comparator, and \<open>std::set_difference\<close>. A set is the list of its
  elements in the order of the comparator, which the standard asks to be a strict weak order;
  that contract is the locale \<open>set_comparator\<close>.
\<close>

text \<open>\<open>insert\<close> keeps the element that is there when the new one is equivalent to it.\<close>

fun set_insert :: "('a \<Rightarrow> 'a \<Rightarrow> bool) \<Rightarrow> 'a \<Rightarrow> 'a list \<Rightarrow> 'a list" where
  "set_insert lt x [] = [x]"
| "set_insert lt x (y # ys) =
     (if lt x y then x # y # ys
      else if lt y x then y # set_insert lt x ys
      else y # ys)"

definition set_of_range :: "('a \<Rightarrow> 'a \<Rightarrow> bool) \<Rightarrow> 'a list \<Rightarrow> 'a list" where
  "set_of_range lt xs = foldl (\<lambda>s x. set_insert lt x s) [] xs"

fun set_difference :: "('a \<Rightarrow> 'a \<Rightarrow> bool) \<Rightarrow> 'a list \<Rightarrow> 'a list \<Rightarrow> 'a list" where
  "set_difference lt [] ys = []"
| "set_difference lt xs [] = xs"
| "set_difference lt (x # xs) (y # ys) =
     (if lt x y then x # set_difference lt xs (y # ys)
      else if lt y x then set_difference lt (x # xs) ys
      else set_difference lt xs ys)"

lemma set_difference_Nil2 [simp]: "set_difference lt xs [] = xs"
  by (cases xs) simp_all

lemma set_insert_subset: "set (set_insert lt x s) \<subseteq> insert x (set s)"
  by (induction s) auto

lemma set_insert_superset: "set s \<subseteq> set (set_insert lt x s)"
  by (induction s) auto

lemma set_of_range_subset: "set (set_of_range lt xs) \<subseteq> set xs"
proof (induction xs rule: rev_induct)
  case (snoc x xs)
  then show ?case
    using set_insert_subset [of lt x "set_of_range lt xs"] by (auto simp: set_of_range_def)
qed (simp add: set_of_range_def)

lemma set_difference_subset: "set (set_difference lt xs ys) \<subseteq> set xs"
  by (induction lt xs ys rule: set_difference.induct) auto

lemma sorted_difference: "sorted_wrt R xs \<Longrightarrow> sorted_wrt R (set_difference lt xs ys)"
proof (induction lt xs ys rule: set_difference.induct)
  case (3 lt x xs y ys)
  then show ?case by (auto dest: subsetD [OF set_difference_subset])
qed simp_all

locale set_comparator =
  fixes lt :: "'a \<Rightarrow> 'a \<Rightarrow> bool"
  assumes irrefl: "\<not> lt x x"
    and trans: "lt x y \<Longrightarrow> lt y z \<Longrightarrow> lt x z"
    and incomparable_trans: "\<not> lt x y \<Longrightarrow> \<not> lt y x \<Longrightarrow> \<not> lt y z \<Longrightarrow> \<not> lt z y
      \<Longrightarrow> \<not> lt x z \<and> \<not> lt z x"
begin

definition equivalent :: "'a \<Rightarrow> 'a \<Rightarrow> bool" where
  "equivalent x y \<longleftrightarrow> \<not> lt x y \<and> \<not> lt y x"

lemma equivalent_refl: "equivalent x x"
  by (simp add: equivalent_def irrefl)

lemma less_equivalent: "lt x y \<Longrightarrow> equivalent y z \<Longrightarrow> lt x z"
  using incomparable_trans trans unfolding equivalent_def by blast

lemma equivalent_less: "equivalent x y \<Longrightarrow> lt y z \<Longrightarrow> lt x z"
  using incomparable_trans trans unfolding equivalent_def by blast

lemma insert_has_equivalent: "\<exists>y\<in>set (set_insert lt x s). equivalent y x"
  by (induction s) (auto simp: equivalent_def irrefl)

lemma sorted_insert:
  "sorted_wrt lt s \<Longrightarrow> sorted_wrt lt (set_insert lt x s)"
proof (induction s)
  case (Cons y ys)
  then show ?case
    using set_insert_subset [of lt x ys] by (auto intro: trans)
qed simp

lemma range_snoc: "set_of_range lt (xs @ [x]) = set_insert lt x (set_of_range lt xs)"
  by (simp add: set_of_range_def)

lemma sorted_range: "sorted_wrt lt (set_of_range lt xs)"
  by (induction xs rule: rev_induct) (simp_all add: set_of_range_def sorted_insert)

lemma range_has_equivalent: "x \<in> set xs \<Longrightarrow> \<exists>y\<in>set (set_of_range lt xs). equivalent y x"
proof (induction xs rule: rev_induct)
  case (snoc z xs)
  show ?case
  proof (cases "x = z")
    case True
    then show ?thesis by (simp add: range_snoc insert_has_equivalent)
  next
    case False
    with snoc show ?thesis
      using set_insert_superset [of "set_of_range lt xs" lt z] by (auto simp: range_snoc)
  qed
qed simp

text \<open>Inserting a range that is sorted already keeps every element.\<close>

lemma insert_last: "\<forall>y\<in>set s. lt y x \<Longrightarrow> set_insert lt x s = s @ [x]"
  using irrefl trans by (induction s) auto

lemma range_sorted: "sorted_wrt lt xs \<Longrightarrow> set_of_range lt xs = xs"
  by (induction xs rule: rev_induct)
    (simp_all add: set_of_range_def sorted_wrt_append insert_last)

lemma mem_difference:
  "sorted_wrt lt xs \<Longrightarrow> sorted_wrt lt ys \<Longrightarrow>
   z \<in> set (set_difference lt xs ys) \<longleftrightarrow> z \<in> set xs \<and> (\<forall>y\<in>set ys. \<not> equivalent z y)"
proof (induction xs arbitrary: ys)
  case (Cons x xs)
  note outer = Cons.IH and sorted_x = Cons.prems(1)
  show ?case
    using Cons.prems(2)
  proof (induction ys)
    case (Cons y ys)
    consider "lt x y" | "\<not> lt x y" "lt y x" | "equivalent x y"
      by (auto simp: equivalent_def)
    then show ?case
    proof cases
      case 1
      then have "\<forall>w\<in>set (y # ys). lt x w" using Cons.prems by (auto intro: trans)
      then have "\<forall>w\<in>set (y # ys). \<not> equivalent x w" by (simp add: equivalent_def)
      with 1 outer [of "y # ys"] sorted_x Cons.prems show ?thesis by auto
    next
      case 2
      have "\<not> equivalent z y" if "z \<in> set (x # xs)"
      proof -
        have "lt y z" using that 2 sorted_x by (auto intro: trans)
        then show ?thesis by (simp add: equivalent_def)
      qed
      with 2 Cons show ?thesis by auto
    next
      case 3
      have "\<not> equivalent z y" if "z \<in> set xs"
        using that sorted_x equivalent_less [of y x z] 3 by (auto simp: equivalent_def)
      moreover have "\<not> equivalent w x" if "w \<in> set ys" for w
        using that Cons.prems equivalent_less [of x y w] 3 by (auto simp: equivalent_def)
      moreover have "x \<notin> set xs" using sorted_x irrefl by auto
      ultimately show ?thesis
        using 3 outer [of ys] sorted_x Cons.prems by (auto simp: equivalent_def)
    qed
  qed simp
qed simp

end

end
