(* ===== verification/CookieCache.thy ===== *)
theory CookieCache
  imports OrderedSet "HOL-Library.List_Lexorder" "HOL-Library.Char_ord" "HOL-Library.Product_Lexorder"
begin

text \<open>
  The cache of the cookies sent for a URL, \<open>net/cookies/cookie_cache.{h,cc}\<close>, which tells the
  observers of a cookie what was added and removed. A cookie has the four fields the
  comparators read; \<open>cookie_attributes\<close> is the rest of it (dates and flags). Strings are compared
  as \<open>std::string\<close> does, by their characters as unsigned bytes.
\<close>

section \<open>The cache\<close>

record canonical_cookie =
  cookie_domain :: string
  cookie_path :: string
  cookie_name :: string
  cookie_value :: string
  cookie_attributes :: string

definition cookie_comparator :: "canonical_cookie \<Rightarrow> canonical_cookie \<Rightarrow> bool" where
  "cookie_comparator lhs rhs =
     (if cookie_domain lhs \<noteq> cookie_domain rhs then cookie_domain lhs < cookie_domain rhs
      else if cookie_path lhs \<noteq> cookie_path rhs then cookie_path lhs < cookie_path rhs
      else if cookie_name lhs \<noteq> cookie_name rhs then cookie_name lhs < cookie_name rhs
      else False)"

definition cookie_and_value_comparator :: "canonical_cookie \<Rightarrow> canonical_cookie \<Rightarrow> bool" where
  "cookie_and_value_comparator lhs rhs =
     (if cookie_domain lhs \<noteq> cookie_domain rhs then cookie_domain lhs < cookie_domain rhs
      else if cookie_path lhs \<noteq> cookie_path rhs then cookie_path lhs < cookie_path rhs
      else if cookie_name lhs \<noteq> cookie_name rhs then cookie_name lhs < cookie_name rhs
      else if cookie_value lhs \<noteq> cookie_value rhs then cookie_value lhs < cookie_value rhs
      else False)"

type_synonym cookie_set = "canonical_cookie list"
type_synonym cookie_key = "string \<times> string"
type_synonym cookie_cache = "cookie_key \<Rightarrow> cookie_set option"

text \<open>\<open>cache_[key]\<close>, which adds an empty set for a key that is not there.\<close>

definition cache_slot :: "cookie_cache \<Rightarrow> cookie_key \<Rightarrow> cookie_set" where
  "cache_slot cache key = (case cache key of None \<Rightarrow> [] | Some s \<Rightarrow> s)"

definition append_out :: "canonical_cookie list option \<Rightarrow> cookie_set \<Rightarrow> canonical_cookie list option" where
  "append_out out cookies = map_option (\<lambda>v. v @ cookies) out"

text \<open>The results are the cache, the value returned and the two vectors, absent when NULL.\<close>

definition update_cookies ::
  "cookie_cache \<Rightarrow> string \<Rightarrow> string \<Rightarrow> canonical_cookie list
    \<Rightarrow> canonical_cookie list option \<Rightarrow> canonical_cookie list option
    \<Rightarrow> cookie_cache \<times> bool \<times> canonical_cookie list option \<times> canonical_cookie list option" where
  "update_cookies cache url name new_cookies out_removed_cookies out_added_cookies =
     (let key = (url, name);
          old_set = cache_slot cache key;
          cache1 = cache(key \<mapsto> old_set);
          new_set = set_of_range cookie_comparator new_cookies;
          added_cookies = set_of_range cookie_comparator
            (set_difference cookie_and_value_comparator new_set old_set);
          removed_cookies = set_of_range cookie_comparator
            (set_difference cookie_and_value_comparator old_set new_set)
      in if added_cookies = [] \<and> removed_cookies = []
         then (cache1, False, out_removed_cookies, out_added_cookies)
         else (cache1(key \<mapsto> new_set), True,
               append_out out_removed_cookies removed_cookies,
               append_out out_added_cookies added_cookies))"

section \<open>The comparators\<close>

definition cookie_id :: "canonical_cookie \<Rightarrow> string \<times> string \<times> string" where
  "cookie_id c = (cookie_domain c, cookie_path c, cookie_name c)"

definition cookie_content :: "canonical_cookie \<Rightarrow> string \<times> string \<times> string \<times> string" where
  "cookie_content c = (cookie_domain c, cookie_path c, cookie_name c, cookie_value c)"

lemma cookie_comparator_id: "cookie_comparator c d \<longleftrightarrow> cookie_id c < cookie_id d"
  by (auto simp: cookie_comparator_def cookie_id_def less_prod_simp)

lemma cookie_comparator_content: "cookie_and_value_comparator c d \<longleftrightarrow> cookie_content c < cookie_content d"
  by (auto simp: cookie_and_value_comparator_def cookie_content_def less_prod_simp)

interpretation by_id: set_comparator cookie_comparator
  by unfold_locales (auto simp: cookie_comparator_id)

interpretation by_content: set_comparator cookie_and_value_comparator
  by unfold_locales (auto simp: cookie_comparator_content)

lemma equivalent_id: "by_id.equivalent c d \<longleftrightarrow> cookie_id c = cookie_id d"
  by (auto simp: by_id.equivalent_def cookie_comparator_id)

lemma equivalent_content: "by_content.equivalent c d \<longleftrightarrow> cookie_content c = cookie_content d"
  by (auto simp: by_content.equivalent_def cookie_comparator_content)

lemma sorted_id_content:
  "sorted_wrt cookie_comparator s \<Longrightarrow> sorted_wrt cookie_and_value_comparator s"
  by (erule sorted_wrt_mono_rel [rotated])
    (auto simp: cookie_comparator_def cookie_and_value_comparator_def split: if_splits)

lemma difference_by_content:
  assumes "sorted_wrt cookie_comparator s" and "sorted_wrt cookie_comparator t"
  shows "set_of_range cookie_comparator (set_difference cookie_and_value_comparator s t) =
      set_difference cookie_and_value_comparator s t"
    and "set (set_difference cookie_and_value_comparator s t) =
      {c \<in> set s. cookie_content c \<notin> cookie_content ` set t}"
proof -
  show "set_of_range cookie_comparator (set_difference cookie_and_value_comparator s t) =
      set_difference cookie_and_value_comparator s t"
    using assms(1) by (simp add: by_id.range_sorted sorted_difference)
  show "set (set_difference cookie_and_value_comparator s t) =
      {c \<in> set s. cookie_content c \<notin> cookie_content ` set t}"
    using by_content.mem_difference [OF assms [THEN sorted_id_content]]
    by (auto simp: equivalent_content)
qed

section \<open>Properties\<close>

definition cache_ok :: "cookie_cache \<Rightarrow> bool" where
  "cache_ok cache \<longleftrightarrow> (\<forall>key s. cache key = Some s \<longrightarrow> sorted_wrt cookie_comparator s)"

lemma cache_ok_slot: "cache_ok cache \<Longrightarrow> sorted_wrt cookie_comparator (cache_slot cache key)"
  by (cases "cache key"; cases key) (auto simp: cache_ok_def cache_slot_def)

lemma update_cookies_effect:
  assumes "cache_ok cache"
    and "update_cookies cache url name cookies (Some r) (Some a) = (cache', changed, removed, added)"
  defines "old \<equiv> cache_slot cache (url, name)"
    and "new \<equiv> set_of_range cookie_comparator cookies"
  shows "cache_ok cache'"
    and "changed \<longleftrightarrow> cookie_content ` set old \<noteq> cookie_content ` set new"
    and "\<exists>gone. removed = Some (r @ gone) \<and> sorted_wrt cookie_comparator gone
          \<and> set gone = {c \<in> set old. cookie_content c \<notin> cookie_content ` set new}"
    and "\<exists>fresh. added = Some (a @ fresh) \<and> sorted_wrt cookie_comparator fresh
          \<and> set fresh = {c \<in> set new. cookie_content c \<notin> cookie_content ` set old}"
    and "cache_slot cache' (url, name) = (if changed then new else old)"
    and "cookie_id ` set new = cookie_id ` set cookies" and "set new \<subseteq> set cookies"
    and "key \<noteq> (url, name) \<Longrightarrow> cache_slot cache' key = cache_slot cache key"
proof -
  have old: "sorted_wrt cookie_comparator old" unfolding old_def by (rule cache_ok_slot [OF assms(1)])
  have new: "sorted_wrt cookie_comparator new" unfolding new_def by (rule by_id.sorted_range)
  define gone where "gone = set_difference cookie_and_value_comparator old new"
  define fresh where "fresh = set_difference cookie_and_value_comparator new old"
  note gone = difference_by_content [OF old new, folded gone_def]
    and fresh = difference_by_content [OF new old, folded fresh_def]
  have same: "gone = [] \<and> fresh = [] \<longleftrightarrow> cookie_content ` set old = cookie_content ` set new"
    using gone(2) fresh(2) by (auto simp flip: set_empty)
  have result: "cache' = cache((url, name) \<mapsto> if changed then new else old)"
    "changed \<longleftrightarrow> \<not> (gone = [] \<and> fresh = [])" "removed = Some (r @ gone)" "added = Some (a @ fresh)"
    using assms(2) gone(1) fresh(1)
    by (auto simp: update_cookies_def Let_def append_out_def simp flip: old_def new_def gone_def fresh_def
        split: if_splits)
  show "cache_ok cache'" using assms(1) old new by (auto simp: result(1) cache_ok_def)
  show "changed \<longleftrightarrow> cookie_content ` set old \<noteq> cookie_content ` set new"
    using result(2) same by simp
  show "\<exists>gone. removed = Some (r @ gone) \<and> sorted_wrt cookie_comparator gone
      \<and> set gone = {c \<in> set old. cookie_content c \<notin> cookie_content ` set new}"
    using result(3) gone(2) sorted_difference [OF old] by (auto simp: gone_def)
  show "\<exists>fresh. added = Some (a @ fresh) \<and> sorted_wrt cookie_comparator fresh
      \<and> set fresh = {c \<in> set new. cookie_content c \<notin> cookie_content ` set old}"
    using result(4) fresh(2) sorted_difference [OF new] by (auto simp: fresh_def)
  show "cache_slot cache' (url, name) = (if changed then new else old)"
    by (simp add: result(1) cache_slot_def)
  show "set new \<subseteq> set cookies" unfolding new_def by (rule set_of_range_subset)
  then show "cookie_id ` set new = cookie_id ` set cookies"
    using by_id.range_has_equivalent [of _ cookies]
    by (auto simp: equivalent_id new_def image_iff) metis
  show "cache_slot cache' key = cache_slot cache key" if "key \<noteq> (url, name)"
    using that by (simp add: result(1) cache_slot_def)
qed

text \<open>
  An update returns true exactly when the (domain, path, name, value) tuples of the new
  cookies and of the cached ones differ; the vectors then receive exactly the cached cookies
  whose tuple is gone and the new ones whose tuple is new, in the order of (domain, path,
  name), and the new cookies are cached, one for each (domain, path, name) that occurs. An
  update that returns false leaves the cached cookies as they are, and no update touches those
  of another URL or name.
\<close>

theorem update_reports_changes:
  assumes "cache_ok cache"
    and "update_cookies cache url name cookies (Some r) (Some a) = (cache', changed, removed, added)"
  shows "let old = cache_slot cache (url, name); new = set_of_range cookie_comparator cookies in
    (changed \<longleftrightarrow> cookie_content ` set old \<noteq> cookie_content ` set new)
    \<and> (\<exists>gone. removed = Some (r @ gone) \<and> sorted_wrt cookie_comparator gone
          \<and> set gone = {c \<in> set old. cookie_content c \<notin> cookie_content ` set new})
    \<and> (\<exists>fresh. added = Some (a @ fresh) \<and> sorted_wrt cookie_comparator fresh
          \<and> set fresh = {c \<in> set new. cookie_content c \<notin> cookie_content ` set old})
    \<and> cache_slot cache' (url, name) = (if changed then new else old)
    \<and> cookie_id ` set new = cookie_id ` set cookies \<and> set new \<subseteq> set cookies
    \<and> (\<forall>key. key \<noteq> (url, name) \<longrightarrow> cache_slot cache' key = cache_slot cache key)
    \<and> cache_ok cache'"
proof -
  note e = update_cookies_effect [OF assms]
  show ?thesis
    unfolding Let_def by (intro conjI allI impI e)
qed

definition plain_cookie :: "string \<Rightarrow> canonical_cookie" where
  "plain_cookie v = \<lparr>cookie_domain = ''d'', cookie_path = ''/'', cookie_name = ''n'', cookie_value = v,
     cookie_attributes = ''''\<rparr>"

theorem update_reports_changes_witness:
  "case update_cookies (Map.empty((''u'', ''n'') \<mapsto> [plain_cookie ''1''])) ''u'' ''n''
      [plain_cookie ''2'', plain_cookie ''3''] (Some []) (Some []) of (cache, changed, removed, added) \<Rightarrow>
    changed \<and> cache_slot cache (''u'', ''n'') = [plain_cookie ''2'']"
proof (cases "update_cookies (Map.empty((''u'', ''n'') \<mapsto> [plain_cookie ''1''])) ''u'' ''n''
      [plain_cookie ''2'', plain_cookie ''3''] (Some []) (Some [])")
  case (fields cache changed removed added)
  have "cache_ok (Map.empty((''u'', ''n'') \<mapsto> [plain_cookie ''1'']))"
    by (simp add: cache_ok_def)
  note effect = update_reports_changes [OF this fields, unfolded Let_def]
  have sets: "set_of_range cookie_comparator [plain_cookie ''2'', plain_cookie ''3''] = [plain_cookie ''2'']"
    "cache_slot (Map.empty((''u'', ''n'') \<mapsto> [plain_cookie ''1''])) (''u'', ''n'') = [plain_cookie ''1'']"
    "cookie_content (plain_cookie ''1'') \<noteq> cookie_content (plain_cookie ''2'')"
    by (simp_all add: set_of_range_def cache_slot_def cookie_comparator_def plain_cookie_def cookie_content_def)
  have changed: "changed" using effect [THEN conjunct1] sets by simp
  moreover have "cache_slot cache (''u'', ''n'') = [plain_cookie ''2'']"
    using effect [THEN conjunct2, THEN conjunct2, THEN conjunct2, THEN conjunct1] changed sets(1) by simp
  ultimately show ?thesis using fields by simp
qed

end
