(* ===== verification/ChunkedUpload.thy ===== *)
theory ChunkedUpload
  imports Prelude
begin

text \<open>
  The uploader of a request body that arrives in chunks, \<open>net/chunked_data_stream_uploader.{h,cc}\<close>,
  between the network layer, which reads, and the delegate, which has the data. The answer of
  the delegate to \<open>OnRead\<close> is the argument \<open>on_read\<close> of the operations that may ask for it, and
  the calls made to the delegate and to the base class \<open>net::UploadDataStream\<close> are logged.
\<close>

section \<open>The uploader\<close>

datatype upload_call =
    OnRead nat int
  | SetIsFinalChunk
  | OnReadCompleted int

datatype upload_result = OK | ERR_FAILED | ERR_IO_PENDING | BytesRead int

record chunked_uploader =
  pending_read_buffer :: "nat option"
  pending_read_buffer_length :: int
  pending_internal_read :: bool
  is_final_chunk :: bool
  is_front_of_stream :: bool
  upload_calls :: "upload_call list"

definition new_chunked_uploader :: chunked_uploader where
  "new_chunked_uploader =
     \<lparr>pending_read_buffer = None, pending_read_buffer_length = 0, pending_internal_read = False,
      is_final_chunk = False, is_front_of_stream = True, upload_calls = []\<rparr>"

definition upload_call_made :: "upload_call \<Rightarrow> chunked_uploader \<Rightarrow> chunked_uploader" where
  "upload_call_made c u = u\<lparr>upload_calls := upload_calls u @ [c]\<rparr>"

definition init_internal :: "chunked_uploader \<Rightarrow> upload_result" where
  "init_internal u = (if is_front_of_stream u then OK else ERR_FAILED)"

definition finish_read :: "chunked_uploader \<Rightarrow> int \<Rightarrow> chunked_uploader \<times> upload_result" where
  "finish_read u bytes_read =
     (let u1 = u\<lparr>pending_read_buffer := None, pending_read_buffer_length := 0\<rparr>;
          u2 = (if pending_internal_read u1
                then upload_call_made (OnReadCompleted bytes_read) (u1\<lparr>pending_internal_read := False\<rparr>)
                else u1)
      in (u2, BytesRead bytes_read))"

definition upload :: "int \<Rightarrow> chunked_uploader \<Rightarrow> (chunked_uploader \<times> upload_result) option" where
  "upload on_read u =
     (case pending_read_buffer u of
        None \<Rightarrow> None
      | Some buffer \<Rightarrow>
          let u1 = u\<lparr>is_front_of_stream := False\<rparr>
          in if is_final_chunk u1 then Some (finish_read (upload_call_made SetIsFinalChunk u1) 0)
             else
               let u2 = upload_call_made (OnRead buffer (pending_read_buffer_length u1)) u1
               in if on_read \<le> 0 then Some (u2\<lparr>pending_internal_read := True\<rparr>, ERR_IO_PENDING)
                  else Some (finish_read u2 on_read))"

definition read_internal ::
  "int \<Rightarrow> chunked_uploader \<Rightarrow> nat \<Rightarrow> int \<Rightarrow> (chunked_uploader \<times> upload_result) option" where
  "read_internal on_read u buffer buffer_length = do {
     dcheck (buffer_length > 0);
     dcheck (pending_read_buffer u = None);
     upload on_read (u\<lparr>pending_read_buffer := Some buffer, pending_read_buffer_length := buffer_length\<rparr>)
   }"

definition reset_internal :: "chunked_uploader \<Rightarrow> chunked_uploader" where
  "reset_internal u =
     u\<lparr>pending_read_buffer := None, pending_read_buffer_length := 0, pending_internal_read := False,
       is_final_chunk := False\<rparr>"

definition upload_when_ready :: "int \<Rightarrow> chunked_uploader \<Rightarrow> bool \<Rightarrow> chunked_uploader option" where
  "upload_when_ready on_read u final =
     (let u1 = u\<lparr>is_final_chunk := final\<rparr>
      in if pending_internal_read u1 then map_option fst (upload on_read u1) else Some u1)"

section \<open>The uploader between its two clients\<close>

text \<open>
  The system counts the reads the network layer has started, those that returned or were
  reported complete, and those a reset has dropped. The network layer does not start a read
  while one is outstanding; the delegate may say at any time that it is ready.
\<close>

datatype upload_event =
    NetworkRead nat int int
  | DelegateReady bool int
  | NetworkReset

record upload_system =
  uploader :: chunked_uploader
  reads_started :: nat
  reads_returned :: nat
  reads_dropped :: nat

definition new_upload_system :: upload_system where
  "new_upload_system =
     \<lparr>uploader = new_chunked_uploader, reads_started = 0, reads_returned = 0, reads_dropped = 0\<rparr>"

definition completions :: "chunked_uploader \<Rightarrow> nat" where
  "completions u = length (filter (\<lambda>c. case c of OnReadCompleted n \<Rightarrow> True | _ \<Rightarrow> False) (upload_calls u))"

definition outstanding :: "upload_system \<Rightarrow> nat" where
  "outstanding s = (if pending_internal_read (uploader s) then 1 else 0)"

fun upload_step :: "upload_system \<Rightarrow> upload_event \<Rightarrow> upload_system option" where
  "upload_step s (NetworkRead buffer len on_read) =
     map_option (\<lambda>(u, r). s\<lparr>uploader := u, reads_started := Suc (reads_started s),
        reads_returned := (case r of BytesRead n \<Rightarrow> Suc (reads_returned s) | _ \<Rightarrow> reads_returned s)\<rparr>)
       (read_internal on_read (uploader s) buffer len)"
| "upload_step s (DelegateReady final on_read) =
     map_option (\<lambda>u. s\<lparr>uploader := u\<rparr>) (upload_when_ready on_read (uploader s) final)"
| "upload_step s NetworkReset =
     Some (s\<lparr>uploader := reset_internal (uploader s), reads_dropped := reads_dropped s + outstanding s\<rparr>)"

fun upload_allowed :: "upload_system \<Rightarrow> upload_event \<Rightarrow> bool" where
  "upload_allowed s (NetworkRead buffer len on_read) \<longleftrightarrow> len > 0 \<and> outstanding s = 0"
| "upload_allowed s (DelegateReady final on_read) \<longleftrightarrow> True"
| "upload_allowed s NetworkReset \<longleftrightarrow> True"

definition upload_ok :: "upload_system \<Rightarrow> bool" where
  "upload_ok s \<longleftrightarrow>
     (pending_read_buffer (uploader s) \<noteq> None) = pending_internal_read (uploader s)
     \<and> reads_started s =
         reads_returned s + completions (uploader s) + reads_dropped s + outstanding s
     \<and> (reads_started s > 0 \<longrightarrow> \<not> is_front_of_stream (uploader s))"

lemmas upload_simps = upload_ok_def outstanding_def read_internal_def upload_def finish_read_def
  upload_call_made_def upload_when_ready_def reset_internal_def completions_def Let_def

interpretation upload: total_machine upload_step upload_allowed upload_ok
proof unfold_locales
  show "upload_ok t" if "upload_ok s" "upload_allowed s c" "upload_step s c = Some t" for s c t
    using that by (cases c) (auto simp: upload_simps split: option.splits if_splits)
  show "\<exists>t. upload_step s c = Some t" if "upload_ok s" "upload_allowed s c" for s c
    using that by (cases c) (auto simp: upload_simps split: option.splits if_splits)
qed

lemma new_upload_ok: "upload_ok new_upload_system"
  by (simp add: upload_simps new_upload_system_def new_chunked_uploader_def)

section \<open>Properties\<close>

text \<open>
  C36. However reads, chunks and resets interleave, no check of the uploader fails, every read
  of the network layer is either still outstanding, or dropped by a reset, or has finished
  exactly once (by its return value or by \<open>OnReadCompleted\<close>, never both), at most one is
  outstanding and it is the one whose buffer is kept, and the stream is not rewound once read.
\<close>

theorem every_read_finishes_once:
  assumes "legal upload_step upload_allowed new_upload_system es s"
  shows "(upload_allowed s e \<longrightarrow> (\<exists>t. upload_step s e = Some t))
    \<and> reads_started s =
        reads_returned s + completions (uploader s) + reads_dropped s + outstanding s
    \<and> outstanding s = (if pending_read_buffer (uploader s) = None then 0 else 1)
    \<and> (reads_started s > 0 \<longrightarrow> init_internal (uploader s) = ERR_FAILED)"
proof -
  have ok: "upload_ok s" by (rule upload.legal_inv [OF assms new_upload_ok])
  then have "upload_allowed s e \<longrightarrow> (\<exists>t. upload_step s e = Some t)" using upload.progress by blast
  with ok show ?thesis by (auto simp: upload_ok_def outstanding_def init_internal_def)
qed

theorem every_read_finishes_once_witness:
  "\<exists>s. run upload_step new_upload_system
      [NetworkRead 1 10 0, DelegateReady False 5, DelegateReady True 0, NetworkRead 2 10 7] = Some s
    \<and> reads_started s = 2 \<and> init_internal (uploader s) = ERR_FAILED"
proof -
  have "case run_checked upload_step upload_allowed new_upload_system
      [NetworkRead 1 10 0, DelegateReady False 5, DelegateReady True 0, NetworkRead 2 10 7] of
      None \<Rightarrow> False | Some s \<Rightarrow> reads_started s = 2"
    by code_simp
  then obtain s where s: "legal upload_step upload_allowed new_upload_system
      [NetworkRead 1 10 0, DelegateReady False 5, DelegateReady True 0, NetworkRead 2 10 7] s"
    "reads_started s = 2"
    by (rule run_checked_witness)
  from every_read_finishes_once [OF s(1)] legal_run [OF s(1)] s(2) show ?thesis by simp
qed

text \<open>
  When the delegate has said that the last chunk is read, the read that is outstanding, or
  the next one, ends the stream with 0 bytes without asking the delegate, unless the stream is
  reset in between: a reset forgets that the delegate has no more data, and the next read asks
  it again.
\<close>

theorem final_chunk_ends_stream:
  assumes "upload_ok s" and "len > 0"
  shows "\<exists>t. upload_step s (DelegateReady True k) = Some t
    \<and> (if pending_internal_read (uploader s)
       then upload_calls (uploader t) = upload_calls (uploader s) @ [SetIsFinalChunk, OnReadCompleted 0]
       else \<exists>v. upload_step t (NetworkRead buffer len n) = Some v
              \<and> upload_calls (uploader v) = upload_calls (uploader s) @ [SetIsFinalChunk]
              \<and> reads_returned v = Suc (reads_returned s))
    \<and> (\<exists>v. run upload_step t [NetworkReset, NetworkRead buffer len n] = Some v
          \<and> upload_calls (uploader v) = upload_calls (uploader t) @ [OnRead buffer len])"
  using assms by (auto simp: upload_simps split: option.splits if_splits)

theorem final_chunk_ends_stream_witness:
  "\<exists>t. upload_step new_upload_system (DelegateReady True 0) = Some t
    \<and> (\<exists>v. run upload_step t [NetworkReset, NetworkRead 1 5 0] = Some v
          \<and> upload_calls (uploader v) = upload_calls (uploader t) @ [OnRead 1 5])"
  using final_chunk_ends_stream [OF new_upload_ok, of 5 0 1 0] by auto

end
