(* ===== verification/SyncSetup.thy ===== *)
theory SyncSetup
  imports Prelude
begin

text \<open>
  The service behind the sync settings, \<open>chrome/browser/sync/sync_setup_service.{h,cc}\<close>. The sync
  engine and its user settings are outside the repository: a value \<open>ops\<close> of \<open>sync_ops\<close> holds
  the queries and the setters the code calls, on a state of type \<open>'s\<close>, with \<open>'u\<close> the type of
  \<open>syncer::UserSelectableType\<close>.
\<close>

section \<open>The sync engine\<close>

datatype model_type =
    BOOKMARKS | TYPED_URLS | PASSWORDS | PROXY_TABS | AUTOFILL | PREFERENCES | READING_LIST
  | OtherModelType nat

datatype google_service_auth_error =
    AUTH_NONE | REQUEST_CANCELED | SERVICE_UNAVAILABLE | INVALID_GAIA_CREDENTIALS
  | CONNECTION_FAILED | USER_NOT_SIGNED_UP | UNEXPECTED_SERVICE_RESPONSE | SERVICE_ERROR | NUM_STATES

record ('s, 'u) sync_ops =
  preferred_data_types :: "'s \<Rightarrow> model_type set"
  active_data_types :: "'s \<Rightarrow> model_type set"
  can_sync_feature_start :: "'s \<Rightarrow> bool"
  auth_error :: "'s \<Rightarrow> google_service_auth_error"
  has_unrecoverable_error :: "'s \<Rightarrow> bool"
  setup_in_progress :: "'s \<Rightarrow> bool"
  take_setup_handle :: "'s \<Rightarrow> 's"
  release_setup_handle :: "'s \<Rightarrow> 's"
  settings_set_sync_requested :: "'s \<Rightarrow> bool \<Rightarrow> 's"
  settings_selected_types :: "'s \<Rightarrow> 'u set"
  settings_set_selected_types :: "'s \<Rightarrow> bool \<Rightarrow> 'u set \<Rightarrow> 's"
  settings_sync_everything :: "'s \<Rightarrow> bool"
  settings_passphrase_required :: "'s \<Rightarrow> bool"
  settings_trusted_vault_key_required :: "'s \<Rightarrow> bool"
  settings_encrypt_everything :: "'s \<Rightarrow> bool"
  settings_first_setup_complete :: "'s \<Rightarrow> bool"
  settings_set_first_setup_complete :: "'s \<Rightarrow> 's"
  all_user_selectable_types :: "'u list"
  canonical_model_type :: "'u \<Rightarrow> model_type"

section \<open>The service\<close>

datatype sync_service_state =
    kNoSyncServiceError
  | kSyncServiceSignInNeedsUpdate
  | kSyncServiceCouldNotConnect
  | kSyncServiceServiceUnavailable
  | kSyncServiceNeedsPassphrase
  | kSyncServiceNeedsTrustedVaultKey
  | kSyncServiceUnrecoverableError
  | kSyncSettingsNotConfirmed

datatype syncable_datatype =
    kSyncBookmarks | kSyncOmniboxHistory | kSyncPasswords | kSyncOpenTabs | kSyncAutofill
  | kSyncPreferences | kSyncReadingList | kNumberOfSyncableDatatypes

fun datatype_index :: "syncable_datatype \<Rightarrow> nat" where
  "datatype_index kSyncBookmarks = 0"
| "datatype_index kSyncOmniboxHistory = 1"
| "datatype_index kSyncPasswords = 2"
| "datatype_index kSyncOpenTabs = 3"
| "datatype_index kSyncAutofill = 4"
| "datatype_index kSyncPreferences = 5"
| "datatype_index kSyncReadingList = 6"
| "datatype_index kNumberOfSyncableDatatypes = 7"

definition kDataTypes :: "model_type list" where
  "kDataTypes = [BOOKMARKS, TYPED_URLS, PASSWORDS, PROXY_TABS, AUTOFILL, PREFERENCES, READING_LIST]"

definition get_model_type :: "syncable_datatype \<Rightarrow> model_type option" where
  "get_model_type d = do {
     dcheck (datatype_index d < length kDataTypes);
     Some (kDataTypes ! datatype_index d)
   }"

text \<open>\<open>sync_blocker\<close> says whether the handle is held; the samples of the histogram are counted.\<close>

record 's sync_setup =
  sync_service :: 's
  sync_blocker :: bool
  stop_source_samples :: nat

definition new_sync_setup_service :: "'s \<Rightarrow> 's sync_setup" where
  "new_sync_setup_service service =
     \<lparr>sync_service = service, sync_blocker = False, stop_source_samples = 0\<rparr>"

definition hold_blocker :: "('s, 'u) sync_ops \<Rightarrow> 's sync_setup \<Rightarrow> 's sync_setup" where
  "hold_blocker ops s =
     (if \<not> sync_blocker s
      then s\<lparr>sync_service := take_setup_handle ops (sync_service s), sync_blocker := True\<rparr> else s)"

definition get_preferred_data_types :: "('s, 'u) sync_ops \<Rightarrow> 's sync_setup \<Rightarrow> model_type set" where
  "get_preferred_data_types ops s = preferred_data_types ops (sync_service s)"

definition is_data_type_active :: "('s, 'u) sync_ops \<Rightarrow> 's sync_setup \<Rightarrow> model_type \<Rightarrow> bool" where
  "is_data_type_active ops s d = (d \<in> active_data_types ops (sync_service s))"

definition is_data_type_preferred :: "('s, 'u) sync_ops \<Rightarrow> 's sync_setup \<Rightarrow> model_type \<Rightarrow> bool" where
  "is_data_type_preferred ops s d = (d \<in> get_preferred_data_types ops s)"

definition is_syncing_all_data_types :: "('s, 'u) sync_ops \<Rightarrow> 's sync_setup \<Rightarrow> bool" where
  "is_syncing_all_data_types ops s = settings_sync_everything ops (sync_service s)"

definition is_sync_enabled :: "('s, 'u) sync_ops \<Rightarrow> 's sync_setup \<Rightarrow> bool" where
  "is_sync_enabled ops s = can_sync_feature_start ops (sync_service s)"

definition is_encrypt_everything_enabled :: "('s, 'u) sync_ops \<Rightarrow> 's sync_setup \<Rightarrow> bool" where
  "is_encrypt_everything_enabled ops s = settings_encrypt_everything ops (sync_service s)"

definition is_first_setup_complete :: "('s, 'u) sync_ops \<Rightarrow> 's sync_setup \<Rightarrow> bool" where
  "is_first_setup_complete ops s = settings_first_setup_complete ops (sync_service s)"

definition has_finished_initial_setup :: "('s, 'u) sync_ops \<Rightarrow> 's sync_setup \<Rightarrow> bool" where
  "has_finished_initial_setup ops s =
     (\<not> can_sync_feature_start ops (sync_service s)
      \<or> settings_first_setup_complete ops (sync_service s))"

definition has_uncommitted_changes :: "('s, 'u) sync_ops \<Rightarrow> 's sync_setup \<Rightarrow> bool" where
  "has_uncommitted_changes ops s = setup_in_progress ops (sync_service s)"

definition get_sync_service_state :: "('s, 'u) sync_ops \<Rightarrow> 's sync_setup \<Rightarrow> sync_service_state option" where
  "get_sync_service_state ops s =
     (let service = sync_service s;
          no_auth_error =
            (if has_unrecoverable_error ops service then kSyncServiceUnrecoverableError
             else if settings_passphrase_required ops service then kSyncServiceNeedsPassphrase
             else if \<not> is_first_setup_complete ops s \<and> is_sync_enabled ops s
             then kSyncSettingsNotConfirmed
             else if settings_trusted_vault_key_required ops service
             then kSyncServiceNeedsTrustedVaultKey
             else kNoSyncServiceError)
      in case auth_error ops service of
           REQUEST_CANCELED \<Rightarrow> Some kSyncServiceCouldNotConnect
         | SERVICE_UNAVAILABLE \<Rightarrow> Some kSyncServiceServiceUnavailable
         | INVALID_GAIA_CREDENTIALS \<Rightarrow> Some kSyncServiceSignInNeedsUpdate
         | AUTH_NONE \<Rightarrow> Some no_auth_error
         | CONNECTION_FAILED \<Rightarrow> Some no_auth_error
         | USER_NOT_SIGNED_UP \<Rightarrow> Some no_auth_error
         | UNEXPECTED_SERVICE_RESPONSE \<Rightarrow> Some no_auth_error
         | SERVICE_ERROR \<Rightarrow> None
         | NUM_STATES \<Rightarrow> None)"

definition user_action_is_required_to_have_tab_sync_work ::
  "('s, 'u) sync_ops \<Rightarrow> 's sync_setup \<Rightarrow> bool option" where
  "user_action_is_required_to_have_tab_sync_work ops s =
     (if \<not> is_sync_enabled ops s \<or> \<not> is_data_type_preferred ops s PROXY_TABS then Some True
      else do {
        state \<leftarrow> get_sync_service_state ops s;
        Some (case state of
            kNoSyncServiceError \<Rightarrow> False
          | kSyncServiceCouldNotConnect \<Rightarrow> False
          | kSyncServiceServiceUnavailable \<Rightarrow> False
          | kSyncServiceSignInNeedsUpdate \<Rightarrow> True
          | kSyncServiceNeedsPassphrase \<Rightarrow> True
          | kSyncServiceNeedsTrustedVaultKey \<Rightarrow> True
          | kSyncServiceUnrecoverableError \<Rightarrow> True
          | kSyncSettingsNotConfirmed \<Rightarrow> True)
      })"

definition set_sync_enabled_without_changing_datatypes ::
  "('s, 'u) sync_ops \<Rightarrow> 's sync_setup \<Rightarrow> bool \<Rightarrow> 's sync_setup" where
  "set_sync_enabled_without_changing_datatypes ops s sync_enabled =
     (let s1 = hold_blocker ops s;
          s2 = (if \<not> sync_enabled then s1\<lparr>stop_source_samples := Suc (stop_source_samples s1)\<rparr> else s1)
      in s2\<lparr>sync_service := settings_set_sync_requested ops (sync_service s2) sync_enabled\<rparr>)"

text \<open>
  \<open>SetSyncEnabled\<close> and \<open>SetSyncingAllDataTypes\<close> call each other; \<^term>\<open>None\<close> is a recursion
  that does not end.
\<close>

datatype sync_call = SetSyncEnabled bool | SetSyncingAllDataTypes bool

partial_function (option) sync_calls ::
  "('s, 'u) sync_ops \<Rightarrow> 's sync_setup \<Rightarrow> sync_call \<Rightarrow> 's sync_setup option" where
  "sync_calls ops s c =
     (case c of
        SetSyncEnabled sync_enabled \<Rightarrow>
          let s1 = set_sync_enabled_without_changing_datatypes ops s sync_enabled
          in if sync_enabled \<and> get_preferred_data_types ops s1 = {}
             then sync_calls ops s1 (SetSyncingAllDataTypes True) else Some s1
      | SetSyncingAllDataTypes sync_all \<Rightarrow>
          Option.bind
            (if sync_all \<and> \<not> is_sync_enabled ops (hold_blocker ops s)
             then sync_calls ops (hold_blocker ops s) (SetSyncEnabled True)
             else Some (hold_blocker ops s))
            (\<lambda>s1. Some (s1\<lparr>sync_service :=
               settings_set_selected_types ops (sync_service s1) sync_all
                 (settings_selected_types ops (sync_service s1))\<rparr>)))"

definition set_sync_enabled :: "('s, 'u) sync_ops \<Rightarrow> 's sync_setup \<Rightarrow> bool \<Rightarrow> 's sync_setup option" where
  "set_sync_enabled ops s sync_enabled = sync_calls ops s (SetSyncEnabled sync_enabled)"

definition set_syncing_all_data_types ::
  "('s, 'u) sync_ops \<Rightarrow> 's sync_setup \<Rightarrow> bool \<Rightarrow> 's sync_setup option" where
  "set_syncing_all_data_types ops s sync_all = sync_calls ops s (SetSyncingAllDataTypes sync_all)"

definition set_data_type_enabled ::
  "('s, 'u) sync_ops \<Rightarrow> 's sync_setup \<Rightarrow> model_type \<Rightarrow> bool \<Rightarrow> 's sync_setup option" where
  "set_data_type_enabled ops s d enabled =
     (let s1 = hold_blocker ops s;
          model_types = (if enabled then insert d (get_preferred_data_types ops s1)
                         else get_preferred_data_types ops s1 - {d});
          selected_types = set (filter (\<lambda>t. canonical_model_type ops t \<in> model_types)
                                  (all_user_selectable_types ops));
          s2 = (if enabled \<and> \<not> is_sync_enabled ops s1
                then set_sync_enabled_without_changing_datatypes ops s1 True else s1);
          s3 = s2\<lparr>sync_service := settings_set_selected_types ops (sync_service s2)
                   (is_syncing_all_data_types ops s2) selected_types\<rparr>
      in if get_preferred_data_types ops s3 = {} then set_sync_enabled ops s3 False else Some s3)"

definition prepare_for_first_sync_setup :: "('s, 'u) sync_ops \<Rightarrow> 's sync_setup \<Rightarrow> 's sync_setup option" where
  "prepare_for_first_sync_setup ops s = do {
     dcheck (\<not> settings_first_setup_complete ops (sync_service s));
     Some (hold_blocker ops s)
   }"

definition set_first_setup_complete :: "('s, 'u) sync_ops \<Rightarrow> 's sync_setup \<Rightarrow> 's sync_setup option" where
  "set_first_setup_complete ops s = do {
     dcheck (sync_blocker s);
     Some (if can_sync_feature_start ops (sync_service s)
           then s\<lparr>sync_service := settings_set_first_setup_complete ops (sync_service s)\<rparr> else s)
   }"

definition commit_sync_changes :: "('s, 'u) sync_ops \<Rightarrow> 's sync_setup \<Rightarrow> 's sync_setup" where
  "commit_sync_changes ops s =
     (if sync_blocker s
      then s\<lparr>sync_service := release_setup_handle ops (sync_service s), sync_blocker := False\<rparr> else s)"

end
