(* ===== verification/SyncSetupFacts.thy ===== *)
theory SyncSetupFacts
  imports SyncSetup
begin

text \<open>What the sync setup service promises to the settings that use it.\<close>

section \<open>The mutual recursion\<close>

abbreviation requested where
  "requested ops s \<equiv> set_sync_enabled_without_changing_datatypes ops s True"

definition select_types :: "('s, 'u) sync_ops \<Rightarrow> 's sync_setup \<Rightarrow> bool \<Rightarrow> 's sync_setup" where
  "select_types ops s sync_all =
     s\<lparr>sync_service := settings_set_selected_types ops (sync_service s) sync_all
        (settings_selected_types ops (sync_service s))\<rparr>"

lemma blocker_held [simp]:
  "sync_blocker (hold_blocker ops s)"
  "sync_blocker (set_sync_enabled_without_changing_datatypes ops s b)"
  "sync_blocker s \<Longrightarrow> hold_blocker ops s = s"
  by (simp_all add: hold_blocker_def set_sync_enabled_without_changing_datatypes_def Let_def)

text \<open>Asking twice for sync is asking once.\<close>

definition request_law :: "('s, 'u) sync_ops \<Rightarrow> bool" where
  "request_law ops \<longleftrightarrow>
     (\<forall>x b. settings_set_sync_requested ops (settings_set_sync_requested ops x b) b =
        settings_set_sync_requested ops x b)"

lemma requested_twice: "request_law ops \<Longrightarrow> requested ops (requested ops s) = requested ops s"
  by (simp add: request_law_def set_sync_enabled_without_changing_datatypes_def hold_blocker_def Let_def)

definition stuck :: "('s, 'u) sync_ops \<Rightarrow> 's sync_setup \<Rightarrow> sync_call \<Rightarrow> bool" where
  "stuck ops s c \<longleftrightarrow> (c = SetSyncEnabled True \<or> c = SetSyncingAllDataTypes True)
     \<and> sync_blocker s \<and> requested ops s = s
     \<and> get_preferred_data_types ops s = {} \<and> \<not> is_sync_enabled ops s"

lemma sync_calls_not_stuck: "sync_calls ops s c = Some t \<Longrightarrow> \<not> stuck ops s c"
proof (induction ops s c t rule: sync_calls.raw_induct [rotated, consumes 1])
  case (1 calls ops s c t)
  show ?case
  proof
    assume stuck: "stuck ops s c"
    show False
    proof (cases c)
      case (SetSyncEnabled b)
      then have "calls ops s (SetSyncingAllDataTypes True) = Some t" "stuck ops s (SetSyncingAllDataTypes True)"
        using stuck 1(2) by (auto simp: stuck_def)
      then show False using 1(1) by blast
    next
      case (SetSyncingAllDataTypes b)
      with stuck 1(2) obtain u where "calls ops s (SetSyncEnabled True) = Some u"
        by (auto simp: stuck_def split: option.splits bind_splits)
      moreover have "stuck ops s (SetSyncEnabled True)" using stuck by (simp add: stuck_def)
      ultimately show False using 1(1) by blast
    qed
  qed
qed

lemma set_sync_enabled_eq:
  assumes "request_law ops"
  shows "set_sync_enabled ops s True =
     (if get_preferred_data_types ops (requested ops s) \<noteq> {} then Some (requested ops s)
      else if is_sync_enabled ops (requested ops s) then Some (select_types ops (requested ops s) True)
      else None)"
proof -
  note twice = requested_twice [OF assms, of s]
  show ?thesis
  proof (cases "get_preferred_data_types ops (requested ops s) = {} \<and> \<not> is_sync_enabled ops (requested ops s)")
    case True
    then have "stuck ops (requested ops s) (SetSyncingAllDataTypes True)"
      using twice by (simp add: stuck_def)
    then have "sync_calls ops (requested ops s) (SetSyncingAllDataTypes True) = None"
      using sync_calls_not_stuck by (metis not_None_eq)
    then show ?thesis
      unfolding set_sync_enabled_def using True by (subst sync_calls.simps) (simp add: Let_def)
  next
    case False
    then show ?thesis
      unfolding set_sync_enabled_def select_types_def
      by (subst sync_calls.simps, simp add: Let_def, subst sync_calls.simps) simp
  qed
qed

section \<open>Properties\<close>

text \<open>
  C37. Turning sync on returns with the setup handle held, unless asking for sync leaves sync
  unable to start and no data type preferred: then \<open>SetSyncEnabled\<close> and
  \<open>SetSyncingAllDataTypes\<close> call each other for ever.
\<close>

theorem turning_on_sync:
  assumes "request_law ops"
  shows "(set_sync_enabled ops s True = None \<longleftrightarrow>
      preferred_data_types ops (sync_service (requested ops s)) = {}
      \<and> \<not> can_sync_feature_start ops (sync_service (requested ops s)))
    \<and> (\<forall>t. set_sync_enabled ops s True = Some t \<longrightarrow> sync_blocker t)
    \<and> (\<exists>t. set_sync_enabled ops s False = Some t \<and> sync_blocker t
          \<and> stop_source_samples t = Suc (stop_source_samples s))"
proof -
  have "\<exists>t. set_sync_enabled ops s False = Some t \<and> sync_blocker t
      \<and> stop_source_samples t = Suc (stop_source_samples s)"
    unfolding set_sync_enabled_def
    by (subst sync_calls.simps)
      (simp add: Let_def set_sync_enabled_without_changing_datatypes_def hold_blocker_def)
  then show ?thesis
    by (auto simp: set_sync_enabled_eq [OF assms] get_preferred_data_types_def is_sync_enabled_def
        select_types_def)
qed

text \<open>A sync engine that may be forbidden to run, and whose types are its seven selectable ones.\<close>

record plain_sync =
  plain_allowed :: bool
  plain_requested :: bool
  plain_everything :: bool
  plain_selected :: "model_type set"
  plain_first_setup :: bool
  plain_handles :: nat

definition plain_ops :: "(plain_sync, model_type) sync_ops" where
  "plain_ops = \<lparr>
     preferred_data_types = (\<lambda>x. if plain_everything x then set kDataTypes else plain_selected x),
     active_data_types = plain_selected,
     can_sync_feature_start = (\<lambda>x. plain_allowed x \<and> plain_requested x),
     auth_error = (\<lambda>x. AUTH_NONE), has_unrecoverable_error = (\<lambda>x. False),
     setup_in_progress = (\<lambda>x. plain_handles x > 0),
     take_setup_handle = (\<lambda>x. x\<lparr>plain_handles := Suc (plain_handles x)\<rparr>),
     release_setup_handle = (\<lambda>x. x\<lparr>plain_handles := plain_handles x - 1\<rparr>),
     settings_set_sync_requested = (\<lambda>x b. x\<lparr>plain_requested := b\<rparr>),
     settings_selected_types = (\<lambda>x. if plain_everything x then set kDataTypes else plain_selected x),
     settings_set_selected_types = (\<lambda>x b ts. x\<lparr>plain_everything := b, plain_selected := ts\<rparr>),
     settings_sync_everything = plain_everything,
     settings_passphrase_required = (\<lambda>x. False), settings_trusted_vault_key_required = (\<lambda>x. False),
     settings_encrypt_everything = (\<lambda>x. False), settings_first_setup_complete = plain_first_setup,
     settings_set_first_setup_complete = (\<lambda>x. x\<lparr>plain_first_setup := True\<rparr>),
     all_user_selectable_types = kDataTypes, canonical_model_type = (\<lambda>t. t)\<rparr>"

definition plain_start :: "bool \<Rightarrow> model_type set \<Rightarrow> plain_sync" where
  "plain_start allowed types = \<lparr>plain_allowed = allowed, plain_requested = False, plain_everything = False,
     plain_selected = types, plain_first_setup = False, plain_handles = 0\<rparr>"

theorem turning_on_sync_witness:
  "set_sync_enabled plain_ops (new_sync_setup_service (plain_start False {})) True = None
   \<and> set_sync_enabled plain_ops (new_sync_setup_service (plain_start True {})) True \<noteq> None"
proof -
  have "request_law plain_ops" by (simp add: request_law_def plain_ops_def)
  note on = turning_on_sync [OF this, THEN conjunct1]
  show ?thesis
    unfolding on
    by (simp add: plain_ops_def plain_start_def new_sync_setup_service_def hold_blocker_def
        set_sync_enabled_without_changing_datatypes_def)
qed

text \<open>
  The user need not act for tab sync to work exactly when sync can start, the open tabs are
  among the preferred types, and either the authentication is failing in a way that is
  transient, or there is no error that needs the user: no unrecoverable error, no missing
  passphrase or trusted vault key, and the first setup was confirmed.
\<close>

theorem no_user_action_needed:
  "user_action_is_required_to_have_tab_sync_work ops s = Some False \<longleftrightarrow>
     (let x = sync_service s in
      can_sync_feature_start ops x \<and> PROXY_TABS \<in> preferred_data_types ops x
      \<and> (auth_error ops x \<in> {REQUEST_CANCELED, SERVICE_UNAVAILABLE}
         \<or> (auth_error ops x \<in> {AUTH_NONE, CONNECTION_FAILED, USER_NOT_SIGNED_UP, UNEXPECTED_SERVICE_RESPONSE}
            \<and> \<not> has_unrecoverable_error ops x \<and> \<not> settings_passphrase_required ops x
            \<and> settings_first_setup_complete ops x \<and> \<not> settings_trusted_vault_key_required ops x)))"
  by (cases "auth_error ops (sync_service s)")
    (auto simp: user_action_is_required_to_have_tab_sync_work_def get_sync_service_state_def
      is_sync_enabled_def is_data_type_preferred_def get_preferred_data_types_def
      is_first_setup_complete_def Let_def)

text \<open>What the settings of the sync engine remember of what they are given.\<close>

definition settings_laws :: "('s, 'u) sync_ops \<Rightarrow> bool" where
  "settings_laws ops \<longleftrightarrow>
     (\<forall>x b ts. preferred_data_types ops (settings_set_selected_types ops x b ts) =
        canonical_model_type ops ` (if b then set (all_user_selectable_types ops) else ts))
     \<and> (\<forall>x b. preferred_data_types ops (settings_set_sync_requested ops x b) = preferred_data_types ops x)
     \<and> (\<forall>x b. settings_sync_everything ops (settings_set_sync_requested ops x b) = settings_sync_everything ops x)
     \<and> (\<forall>x. \<not> can_sync_feature_start ops (settings_set_sync_requested ops x False))
     \<and> (\<forall>x. preferred_data_types ops (take_setup_handle ops x) = preferred_data_types ops x)
     \<and> (\<forall>x. settings_sync_everything ops (take_setup_handle ops x) = settings_sync_everything ops x)"

text \<open>
  Enabling or disabling a type that the user can select changes the preferred types by
  exactly that type when not everything is synced, and leaves every type preferred otherwise;
  the setup handle is held, and sync cannot start when no type is left.
\<close>

theorem data_type_toggled:
  assumes "settings_laws ops"
    and "get_preferred_data_types ops s \<subseteq> canonical_model_type ops ` set (all_user_selectable_types ops)"
    and "d \<in> canonical_model_type ops ` set (all_user_selectable_types ops)"
  shows "\<exists>t. set_data_type_enabled ops s d enabled = Some t \<and> sync_blocker t
    \<and> get_preferred_data_types ops t =
        (if is_syncing_all_data_types ops s
         then canonical_model_type ops ` set (all_user_selectable_types ops)
         else if enabled then insert d (get_preferred_data_types ops s)
         else get_preferred_data_types ops s - {d})
    \<and> (get_preferred_data_types ops t = {} \<longrightarrow> \<not> is_sync_enabled ops t)"
proof -
  note laws = assms(1) [unfolded settings_laws_def]
  define wanted where "wanted = (if enabled then insert d (get_preferred_data_types ops s)
    else get_preferred_data_types ops s - {d})"
  define chosen where "chosen = set (filter (\<lambda>t. canonical_model_type ops t \<in> wanted) (all_user_selectable_types ops))"
  have chosen: "canonical_model_type ops ` chosen = wanted"
    using assms(2,3) by (auto simp: chosen_def wanted_def split: if_splits)
  define s1 where "s1 = hold_blocker ops s"
  have s1: "get_preferred_data_types ops s1 = get_preferred_data_types ops s" "sync_blocker s1"
    "is_syncing_all_data_types ops s1 = is_syncing_all_data_types ops s"
    using laws by (simp_all add: s1_def get_preferred_data_types_def is_syncing_all_data_types_def hold_blocker_def)
  define s2 where "s2 = (if enabled \<and> \<not> is_sync_enabled ops s1 then requested ops s1 else s1)"
  have s2: "is_syncing_all_data_types ops s2 = is_syncing_all_data_types ops s" "sync_blocker s2"
    using laws s1 by (simp_all add: s2_def is_syncing_all_data_types_def
        set_sync_enabled_without_changing_datatypes_def Let_def)
  define s3 where "s3 = s2\<lparr>sync_service := settings_set_selected_types ops (sync_service s2)
    (is_syncing_all_data_types ops s2) chosen\<rparr>"
  have s3: "get_preferred_data_types ops s3 =
      (if is_syncing_all_data_types ops s
       then canonical_model_type ops ` set (all_user_selectable_types ops) else wanted)"
    "sync_blocker s3"
    using laws s2 chosen by (simp_all add: s3_def get_preferred_data_types_def)
  have eq: "set_data_type_enabled ops s d enabled =
      (if get_preferred_data_types ops s3 = {} then set_sync_enabled ops s3 False else Some s3)"
    unfolding set_data_type_enabled_def Let_def s1_def [symmetric] s1(1)
    by (simp add: s3_def s2_def chosen_def wanted_def if_distrib)
  have off: "set_sync_enabled ops s3 False = Some (set_sync_enabled_without_changing_datatypes ops s3 False)"
    unfolding set_sync_enabled_def by (subst sync_calls.simps) (simp add: Let_def)
  have "get_preferred_data_types ops (set_sync_enabled_without_changing_datatypes ops s3 False) =
      get_preferred_data_types ops s3"
    "\<not> is_sync_enabled ops (set_sync_enabled_without_changing_datatypes ops s3 False)"
    using laws s3(2) by (simp_all add: get_preferred_data_types_def is_sync_enabled_def
        set_sync_enabled_without_changing_datatypes_def Let_def)
  with eq off s3 show ?thesis unfolding wanted_def by auto
qed

theorem data_type_toggled_witness:
  "\<exists>t. set_data_type_enabled plain_ops (new_sync_setup_service (plain_start True {PASSWORDS})) PASSWORDS False
      = Some t \<and> get_preferred_data_types plain_ops t = {} \<and> \<not> is_sync_enabled plain_ops t"
proof -
  have laws: "settings_laws plain_ops" by (simp add: settings_laws_def plain_ops_def)
  have start: "get_preferred_data_types plain_ops (new_sync_setup_service (plain_start True {PASSWORDS})) = {PASSWORDS}"
    "is_syncing_all_data_types plain_ops (new_sync_setup_service (plain_start True {PASSWORDS})) = False"
    by (simp_all add: get_preferred_data_types_def is_syncing_all_data_types_def plain_ops_def plain_start_def
        new_sync_setup_service_def)
  have selectable: "canonical_model_type plain_ops ` set (all_user_selectable_types plain_ops) = set kDataTypes"
    by (simp add: plain_ops_def)
  show ?thesis
    using data_type_toggled [OF laws, of "new_sync_setup_service (plain_start True {PASSWORDS})" PASSWORDS False]
    unfolding start selectable by (auto simp: kDataTypes_def)
qed

end
