(* ===== verification/NotificationPromo.thy ===== *)
theory NotificationPromo
  imports Prelude
begin

text \<open>
  The promotion shown on the new tab page, \<open>chrome/browser/notification_promo.{h,cc}\<close>: its
  parameters come from an experiment, its history (first view, views, closed) from the
  preferences. Doubles are a type \<open>'d\<close> of which the code uses zero and the conversions to and
  from \<open>base::Time\<close>, here in microseconds; the value \<open>env\<close> has them with the other library
  functions. A JSON dictionary is an association list with at most one entry of a key.
\<close>

section \<open>Values and preferences\<close>

datatype json_value =
    JsonString string
  | JsonInt int
  | JsonDict "(string \<times> json_value) list"
  | JsonOther

record 'd promo_env =
  double_zero :: 'd
  is_zero :: "'d \<Rightarrow> bool"
  from_double_t :: "'d \<Rightarrow> int"
  to_double_t :: "int \<Rightarrow> 'd"
  time_from_string :: "string \<Rightarrow> int option"
  string_to_int :: "string \<Rightarrow> int option"
  number_to_string :: "int \<Rightarrow> string"
  variation_params :: "(string \<times> string) list option"

fun set_key :: "string \<Rightarrow> json_value \<Rightarrow> (string \<times> json_value) list \<Rightarrow> (string \<times> json_value) list" where
  "set_key k v [] = [(k, v)]"
| "set_key k v ((j, w) # kvs) = (if j = k then (k, v) # kvs else (j, w) # set_key k v kvs)"

definition find_string_key :: "(string \<times> json_value) list \<Rightarrow> string \<Rightarrow> string option" where
  "find_string_key d k = (case map_of d k of Some (JsonString s) \<Rightarrow> Some s | _ \<Rightarrow> None)"

definition find_int_key :: "(string \<times> json_value) list \<Rightarrow> string \<Rightarrow> int option" where
  "find_int_key d k = (case map_of d k of Some (JsonInt i) \<Rightarrow> Some i | _ \<Rightarrow> None)"

definition find_dict_key ::
  "(string \<times> json_value) list \<Rightarrow> string \<Rightarrow> (string \<times> json_value) list option" where
  "find_dict_key d k = (case map_of d k of Some (JsonDict p) \<Rightarrow> Some p | _ \<Rightarrow> None)"

text \<open>An entry of the preference \<open>ios.ntppromo\<close>, each key of which may be missing.\<close>

record 'd promo_entry =
  entry_first_view_time :: "'d option"
  entry_views :: "int option"
  entry_closed :: "bool option"

text \<open>The preference, absent when it is not registered.\<close>

type_synonym 'd promo_prefs = "(string \<Rightarrow> 'd promo_entry option) option"

section \<open>The promotion\<close>

record 'd notification_promo =
  promo_text :: string
  promo_payload :: "(string \<times> json_value) list"
  promo_start :: 'd
  promo_end :: 'd
  promo_id :: int
  max_views :: int
  max_seconds :: int
  first_view_time :: 'd
  promo_views :: int
  promo_closed :: bool

definition new_notification_promo :: "'d promo_env \<Rightarrow> 'd notification_promo" where
  "new_notification_promo env =
     \<lparr>promo_text = '''', promo_payload = [], promo_start = double_zero env, promo_end = double_zero env,
      promo_id = -1, max_views = 0, max_seconds = 0, first_view_time = double_zero env,
      promo_views = 0, promo_closed = False\<rparr>"

definition is_payload_param :: "string \<Rightarrow> bool" where
  "is_payload_param param_name =
     (param_name \<noteq> ''start'' \<and> param_name \<noteq> ''end'' \<and> param_name \<noteq> ''promo_text''
      \<and> param_name \<noteq> ''max_views'' \<and> param_name \<noteq> ''max_seconds'' \<and> param_name \<noteq> ''promo_id'')"

definition time_key :: "'d promo_env \<Rightarrow> (string \<times> json_value) list \<Rightarrow> string \<Rightarrow> 'd \<Rightarrow> 'd" where
  "time_key env promo k old =
     (case find_string_key promo k of
        None \<Rightarrow> old
      | Some str \<Rightarrow> (case time_from_string env str of None \<Rightarrow> old | Some t \<Rightarrow> to_double_t env t))"

definition or_keep :: "'a option \<Rightarrow> 'a \<Rightarrow> 'a" where
  "or_keep v old = (case v of None \<Rightarrow> old | Some x \<Rightarrow> x)"

definition init_from_json ::
  "'d promo_env \<Rightarrow> 'd notification_promo \<Rightarrow> (string \<times> json_value) list \<Rightarrow> 'd notification_promo" where
  "init_from_json env p promo =
     p\<lparr>promo_start := time_key env promo ''start'' (promo_start p),
       promo_end := time_key env promo ''end'' (promo_end p),
       promo_text := or_keep (find_string_key promo ''promo_text'') (promo_text p),
       promo_payload := or_keep (find_dict_key promo ''payload'') (promo_payload p),
       max_views := or_keep (find_int_key promo ''max_views'') (max_views p),
       max_seconds := or_keep (find_int_key promo ''max_seconds'') (max_seconds p),
       promo_id := or_keep (find_int_key promo ''promo_id'') (promo_id p)\<rparr>"

fun split_params ::
  "'d promo_env \<Rightarrow> (string \<times> string) list \<Rightarrow> (string \<times> json_value) list \<Rightarrow> (string \<times> json_value) list
    \<Rightarrow> (string \<times> json_value) list \<times> (string \<times> json_value) list" where
  "split_params env [] json payload = (json, payload)"
| "split_params env ((name, param) # params) json payload =
     (let v = (case string_to_int env param of Some n \<Rightarrow> JsonInt n | None \<Rightarrow> JsonString param)
      in if is_payload_param name then split_params env params json (set_key name v payload)
         else split_params env params (set_key name v json) payload)"

definition init_from_variations :: "'d promo_env \<Rightarrow> 'd notification_promo \<Rightarrow> 'd notification_promo" where
  "init_from_variations env p =
     (case variation_params env of
        None \<Rightarrow> p
      | Some params \<Rightarrow>
          let (json, payload) = split_params env params [] []
          in init_from_json env p (set_key ''payload'' (JsonDict payload) json))"

definition register_prefs :: "'d promo_prefs \<Rightarrow> 'd promo_prefs" where
  "register_prefs prefs = (case prefs of None \<Rightarrow> Some Map.empty | Some d \<Rightarrow> Some d)"

definition migrate_user_prefs :: "'d promo_prefs \<Rightarrow> 'd promo_prefs" where
  "migrate_user_prefs prefs = map_option (\<lambda>d. Map.empty) prefs"

definition write_prefs_values ::
  "'d promo_env \<Rightarrow> 'd promo_prefs \<Rightarrow> int \<Rightarrow> 'd \<Rightarrow> int \<Rightarrow> bool \<Rightarrow> 'd promo_prefs option" where
  "write_prefs_values env prefs pid fvt views closed = do {
     promo_dict \<leftarrow> prefs;
     Some (Some (promo_dict(number_to_string env pid \<mapsto>
       \<lparr>entry_first_view_time = Some fvt, entry_views = Some views, entry_closed = Some closed\<rparr>)))
   }"

definition write_prefs ::
  "'d promo_env \<Rightarrow> 'd notification_promo \<Rightarrow> 'd promo_prefs \<Rightarrow> 'd promo_prefs option" where
  "write_prefs env p prefs =
     write_prefs_values env prefs (promo_id p) (first_view_time p) (promo_views p) (promo_closed p)"

definition init_from_prefs ::
  "'d promo_env \<Rightarrow> 'd notification_promo \<Rightarrow> 'd promo_prefs \<Rightarrow> 'd notification_promo" where
  "init_from_prefs env p prefs =
     (if promo_id p = -1 then p
      else case prefs of
        None \<Rightarrow> p
      | Some promo_dict \<Rightarrow>
          (case promo_dict (number_to_string env (promo_id p)) of
             None \<Rightarrow> p
           | Some ntp_promo \<Rightarrow>
               p\<lparr>first_view_time := or_keep (entry_first_view_time ntp_promo) (first_view_time p),
                 promo_views := or_keep (entry_views ntp_promo) (promo_views p),
                 promo_closed := or_keep (entry_closed ntp_promo) (promo_closed p)\<rparr>))"

definition start_time :: "'d notification_promo \<Rightarrow> 'd" where "start_time p = promo_start p"

definition end_time :: "'d notification_promo \<Rightarrow> 'd" where "end_time p = promo_end p"

definition exceeds_max_views :: "'d notification_promo \<Rightarrow> bool" where
  "exceeds_max_views p = (if max_views p = 0 then False else promo_views p \<ge> max_views p)"

definition exceeds_max_seconds :: "'d promo_env \<Rightarrow> int \<Rightarrow> 'd notification_promo \<Rightarrow> bool" where
  "exceeds_max_seconds env now p =
     (if max_seconds p = 0 \<or> is_zero env (first_view_time p) then False
      else from_double_t env (first_view_time p) + max_seconds p * 1000000 < now)"

definition can_show :: "'d promo_env \<Rightarrow> int \<Rightarrow> 'd notification_promo \<Rightarrow> bool" where
  "can_show env now p =
     (\<not> promo_closed p \<and> promo_text p \<noteq> '''' \<and> \<not> exceeds_max_views p
      \<and> \<not> exceeds_max_seconds env now p
      \<and> from_double_t env (start_time p) < now \<and> from_double_t env (end_time p) > now)"

definition handle_closed ::
  "'d promo_env \<Rightarrow> 'd notification_promo \<Rightarrow> 'd promo_prefs \<Rightarrow> 'd promo_prefs option" where
  "handle_closed env p prefs =
     (if \<not> promo_closed p
      then write_prefs_values env prefs (promo_id p) (first_view_time p) (promo_views p) True
      else Some prefs)"

definition handle_viewed ::
  "'d promo_env \<Rightarrow> int \<Rightarrow> 'd notification_promo \<Rightarrow> 'd promo_prefs \<Rightarrow> 'd promo_prefs option" where
  "handle_viewed env now p prefs =
     (let views = to_int32 (promo_views p + 1);
          fvt = (if is_zero env (first_view_time p) then to_double_t env now else first_view_time p)
      in write_prefs_values env prefs (promo_id p) fvt views (promo_closed p))"

section \<open>Sessions\<close>

text \<open>
  What the new tab page does with a promotion in one run of the application, as
  \<open>NotificationPromoWhatsNew::Init\<close>, \<open>CanShow\<close> and \<open>HandleViewed\<close> call it: read the parameters and the
  preferences, show the promotion if it can be shown, and record that it was viewed.
\<close>

definition loaded_promo ::
  "'d promo_env \<Rightarrow> (string \<times> json_value) list \<Rightarrow> 'd promo_prefs \<Rightarrow> 'd notification_promo" where
  "loaded_promo env json prefs =
     init_from_prefs env (init_from_json env (new_notification_promo env) json) prefs"

definition promo_session ::
  "'d promo_env \<Rightarrow> (string \<times> json_value) list \<Rightarrow> 'd promo_prefs \<times> nat \<Rightarrow> int
    \<Rightarrow> ('d promo_prefs \<times> nat) option" where
  "promo_session env json s now =
     (let p = loaded_promo env json (fst s)
      in if can_show env now p
         then map_option (\<lambda>prefs. (prefs, Suc (snd s))) (handle_viewed env now p (fst s))
         else Some s)"

definition promo_wanted :: "(string \<times> json_value) list \<Rightarrow> int \<Rightarrow> int \<Rightarrow> bool" where
  "promo_wanted json pid m \<longleftrightarrow> find_int_key json ''promo_id'' = Some pid \<and> pid \<noteq> -1
     \<and> find_int_key json ''max_views'' = Some m \<and> 0 < m \<and> m \<le> INT_MAX"

lemma loaded_fields:
  assumes "promo_wanted json pid m"
  shows "promo_id (loaded_promo env json prefs) = pid"
    and "max_views (loaded_promo env json prefs) = m"
  using assms
  by (auto simp: promo_wanted_def loaded_promo_def init_from_prefs_def init_from_json_def or_keep_def
      split: option.split)

text \<open>The preferences say that the promotion was viewed \<open>n\<close> times.\<close>

definition views_recorded :: "'d promo_env \<Rightarrow> int \<Rightarrow> 'd promo_prefs \<Rightarrow> nat \<Rightarrow> bool" where
  "views_recorded env pid prefs n \<longleftrightarrow>
     (\<exists>d. prefs = Some d \<and> (case d (number_to_string env pid) of
        None \<Rightarrow> n = 0 | Some e \<Rightarrow> entry_views e = Some (int n)))"

lemma loaded_views:
  assumes "promo_wanted json pid m" and "views_recorded env pid prefs n"
  shows "promo_views (loaded_promo env json prefs) = int n"
  using assms
  by (auto simp: promo_wanted_def views_recorded_def loaded_promo_def init_from_prefs_def init_from_json_def
      new_notification_promo_def or_keep_def split: option.split option.split_asm)

definition session_ok :: "'d promo_env \<Rightarrow> int \<Rightarrow> int \<Rightarrow> 'd promo_prefs \<times> nat \<Rightarrow> bool" where
  "session_ok env pid m s \<longleftrightarrow> views_recorded env pid (fst s) (snd s) \<and> int (snd s) \<le> m"

lemma session_step:
  assumes "promo_wanted json pid m" and "session_ok env pid m s"
  shows "\<exists>t. promo_session env json s now = Some t \<and> session_ok env pid m t"
proof -
  obtain d where d: "fst s = Some d" using assms(2) by (auto simp: session_ok_def views_recorded_def)
  have views: "promo_views (loaded_promo env json (fst s)) = int (snd s)"
    using assms by (auto intro: loaded_views simp: session_ok_def)
  note fields = loaded_fields [OF assms(1), of env "fst s"]
  show ?thesis
  proof (cases "can_show env now (loaded_promo env json (fst s))")
    case True
    then have less: "int (snd s) < m"
      using fields views assms(1) by (auto simp: can_show_def exceeds_max_views_def promo_wanted_def split: if_splits)
    then have "to_int32 (int (snd s) + 1) = int (Suc (snd s))"
      using assms(1) by (subst to_int32_id) (auto simp: promo_wanted_def INT_MAX_def)
    with True less show ?thesis
      by (simp add: promo_session_def handle_viewed_def write_prefs_values_def Let_def d
          fields [unfolded d] views [unfolded d]
          session_ok_def views_recorded_def)
  next
    case False
    with assms(2) show ?thesis by (simp add: promo_session_def)
  qed
qed

interpretation promo_sessions: total_machine "promo_session env json" "\<lambda>s now. promo_wanted json pid m"
  "session_ok env pid m" for env json pid m
proof unfold_locales
  show "session_ok env pid m t" if "session_ok env pid m s" "promo_wanted json pid m"
    "promo_session env json s c = Some t" for s c t
    using session_step [OF that(2,1), of c] that(3) by auto
  show "\<exists>t. promo_session env json s c = Some t" if "session_ok env pid m s" "promo_wanted json pid m" for s c
    using session_step [OF that(2,1), of c] by auto
qed

section \<open>Properties\<close>

text \<open>
  A promotion limited to \<open>m\<close> views, of which the preferences hold nothing at first, is shown
  in at most \<open>m\<close> sessions, however many there are and whenever they happen; each session that
  shows it adds one to the views recorded, and none aborts.
\<close>

theorem promo_views_bounded:
  assumes "promo_wanted json pid m"
    and "legal (promo_session env json) (\<lambda>s now. promo_wanted json pid m) (Some Map.empty, 0) nows (prefs, n)"
  shows "int n \<le> m \<and> promo_views (loaded_promo env json prefs) = int n
    \<and> (int n = m \<longrightarrow> \<not> can_show env now (loaded_promo env json prefs))
    \<and> (\<exists>t. promo_session env json (prefs, n) now = Some t)"
proof -
  have "session_ok env pid m (Some Map.empty, 0)"
    using assms(1) by (simp add: session_ok_def views_recorded_def promo_wanted_def)
  with promo_sessions.legal_inv [OF assms(2)] have ok: "session_ok env pid m (prefs, n)" by blast
  then have views: "promo_views (loaded_promo env json prefs) = int n"
    using loaded_views [OF assms(1), of env prefs n] by (simp add: session_ok_def)
  then have "int n = m \<Longrightarrow> \<not> can_show env now (loaded_promo env json prefs)"
    using assms(1) loaded_fields [OF assms(1), of env prefs]
    by (simp add: can_show_def exceeds_max_views_def promo_wanted_def)
  with ok views session_step [OF assms(1) ok, of now] show ?thesis
    by (auto simp: session_ok_def)
qed

definition plain_promo_env :: "int promo_env" where
  "plain_promo_env = \<lparr>double_zero = 0, is_zero = (\<lambda>d. d = 0), from_double_t = (\<lambda>d. d), to_double_t = (\<lambda>t. t),
     time_from_string = (\<lambda>s. Some (int (length s))), string_to_int = (\<lambda>s. None),
     number_to_string = (\<lambda>n. if n = 7 then ''7'' else ''other''), variation_params = None\<rparr>"

definition plain_promo :: "(string \<times> json_value) list" where
  "plain_promo = [(''promo_id'', JsonInt 7), (''max_views'', JsonInt 1), (''promo_text'', JsonString ''hi''),
     (''start'', JsonString ''a''), (''end'', JsonString ''abcdefgh'')]"

theorem promo_views_bounded_witness:
  "\<exists>prefs. run (promo_session plain_promo_env plain_promo) (Some Map.empty, 0) [3, 4, 5] = Some (prefs, 1)
    \<and> \<not> can_show plain_promo_env 5 (loaded_promo plain_promo_env plain_promo prefs)"
proof -
  have wanted: "promo_wanted plain_promo 7 1"
    by (simp add: promo_wanted_def plain_promo_def find_int_key_def INT_MAX_def)
  have "case run_checked (promo_session plain_promo_env plain_promo) (\<lambda>s now. promo_wanted plain_promo 7 1)
      (Some Map.empty, 0) [3, 4, 5] of None \<Rightarrow> False | Some t \<Rightarrow> snd t = 1"
    by code_simp
  then obtain t where t: "legal (promo_session plain_promo_env plain_promo)
      (\<lambda>s now. promo_wanted plain_promo 7 1) (Some Map.empty, 0) [3, 4, 5] t" "snd t = 1"
    by (rule run_checked_witness)
  obtain prefs where prefs: "t = (prefs, 1)" using t(2) by (cases t) simp
  from promo_views_bounded [OF wanted t(1) [unfolded prefs], of 5] legal_run [OF t(1)] prefs
  show ?thesis by auto
qed

text \<open>
  Closing a promotion keeps it from being shown in every later session with the same
  preferences; but the promotion in memory is not told: when the same object is viewed after it
  was closed, the preferences say again that it is not closed.
\<close>

theorem closed_promo:
  assumes "promo_id p \<noteq> -1" and "promo_closed p = False"
  shows "\<exists>d. handle_closed env p (Some prefs) = Some (Some d)
    \<and> (promo_id q = promo_id p \<longrightarrow> \<not> can_show env now (init_from_prefs env q (Some d)))
    \<and> (\<exists>d'. handle_viewed env now p (Some d) = Some (Some d')
          \<and> (promo_id q = promo_id p \<longrightarrow> \<not> promo_closed (init_from_prefs env q (Some d'))))"
  using assms
  by (auto simp: handle_closed_def handle_viewed_def write_prefs_values_def init_from_prefs_def or_keep_def
      can_show_def Let_def)

theorem closed_promo_witness:
  "\<exists>d. handle_closed plain_promo_env (loaded_promo plain_promo_env plain_promo (Some Map.empty)) (Some Map.empty)
      = Some (Some d)
    \<and> \<not> can_show plain_promo_env 3 (loaded_promo plain_promo_env plain_promo (Some d))"
proof -
  have p: "promo_id (loaded_promo plain_promo_env plain_promo (Some Map.empty)) \<noteq> -1"
    "promo_closed (loaded_promo plain_promo_env plain_promo (Some Map.empty)) = False"
    by code_simp+
  have q: "promo_id (init_from_json plain_promo_env (new_notification_promo plain_promo_env) plain_promo) =
      promo_id (loaded_promo plain_promo_env plain_promo (Some Map.empty))"
    by code_simp
  from closed_promo [OF p, of plain_promo_env Map.empty
      "init_from_json plain_promo_env (new_notification_promo plain_promo_env) plain_promo" 3] q
  show ?thesis by (auto simp: loaded_promo_def)
qed

end
