(* ===== verification/WebThreads.thy ===== *)
theory WebThreads
  imports Prelude
begin

text \<open>
  The well-known threads of the web layer: \<open>web/web_thread_impl.{h,cc}\<close>, the declarations of
  \<open>web/public/thread/web_thread.h\<close> and \<open>web_task_traits.h\<close>, and the physical thread behind one,
  \<open>web/web_sub_thread.{h,cc}\<close>.

  A task runner of the base library is the number of the physical thread that runs its tasks;
  \<open>cur\<close> is the physical thread that executes an operation. The lock of the globals is part of
  the state: acquiring it when it is held is a deadlock, \<^term>\<open>None\<close> like a failed check. What is
  handed to the task runners and the calls that leave the component are logged.
\<close>

section \<open>The globals\<close>

datatype web_thread_id = UI | IO | ID_COUNT

fun id_number :: "web_thread_id \<Rightarrow> nat" where
  "id_number UI = 0"
| "id_number IO = 1"
| "id_number ID_COUNT = 2"

datatype web_thread_state = UNINITIALIZED | RUNNING | SHUTDOWN

datatype thread_task =
    UserTask nat
  | CompleteInitializationOnWebThread

datatype thread_call =
    DelegateInit nat
  | DelegateCleanUp nat
  | CancelAllURLFetchers
  | DisallowUnresponsiveTasks
  | ThreadRun

record posted_task =
  posted_to :: nat
  posted_what :: thread_task
  posted_delay :: int
  posted_nestable :: bool

record thread_globals =
  globals_created :: bool
  globals_lock :: bool
  thread_states :: "web_thread_id \<Rightarrow> web_thread_state"
  thread_runners :: "web_thread_id \<Rightarrow> nat option"
  task_executor :: bool
  io_thread_delegate :: "nat option"
  posted :: "posted_task list"
  thread_calls :: "thread_call list"

definition new_thread_globals :: thread_globals where
  "new_thread_globals =
     \<lparr>globals_created = False, globals_lock = False, thread_states = (\<lambda>i. UNINITIALIZED),
      thread_runners = (\<lambda>i. None), task_executor = False, io_thread_delegate = None, posted = [],
      thread_calls = []\<rparr>"

definition get_globals :: "thread_globals \<Rightarrow> thread_globals" where
  "get_globals g = g\<lparr>globals_created := True\<rparr>"

definition acquire_lock :: "thread_globals \<Rightarrow> thread_globals option" where
  "acquire_lock g = (if globals_lock g then None else Some (g\<lparr>globals_lock := True\<rparr>))"

definition release_lock :: "thread_globals \<Rightarrow> thread_globals" where
  "release_lock g = g\<lparr>globals_lock := False\<rparr>"

definition thread_call_made :: "thread_call \<Rightarrow> thread_globals \<Rightarrow> thread_globals" where
  "thread_call_made c g = g\<lparr>thread_calls := thread_calls g @ [c]\<rparr>"

section \<open>Where the code runs\<close>

definition is_thread_initialized :: "thread_globals \<Rightarrow> web_thread_id \<Rightarrow> (thread_globals \<times> bool) option" where
  "is_thread_initialized g identifier =
     (if \<not> globals_created g then Some (g, False)
      else do {
        g1 \<leftarrow> acquire_lock (get_globals g);
        dcheck (id_number identifier < id_number ID_COUNT);
        Some (release_lock g1, thread_states g1 identifier = RUNNING)
      })"

definition currently_on :: "nat \<Rightarrow> thread_globals \<Rightarrow> web_thread_id \<Rightarrow> (thread_globals \<times> bool) option" where
  "currently_on cur g identifier = do {
     g1 \<leftarrow> acquire_lock (get_globals g);
     dcheck (id_number identifier < id_number ID_COUNT);
     Some (release_lock g1, thread_runners g1 identifier = Some cur)
   }"

definition get_current_thread_identifier ::
  "nat \<Rightarrow> thread_globals \<Rightarrow> (thread_globals \<times> web_thread_id option) option" where
  "get_current_thread_identifier cur g =
     (if \<not> globals_created g then Some (g, None)
      else do {
        g1 \<leftarrow> acquire_lock (get_globals g);
        Some (release_lock g1, find (\<lambda>i. thread_runners g1 i = Some cur) [UI, IO])
      })"

definition get_thread_name :: "web_thread_id \<Rightarrow> string" where
  "get_thread_name thread =
     (if id_number UI \<le> id_number thread \<and> id_number thread < id_number ID_COUNT
      then [''Web_UIThread'', ''Web_IOThread''] ! id_number thread
      else ''Unknown Thread'')"

definition get_dcheck_currently_on_error_message :: "string \<Rightarrow> web_thread_id \<Rightarrow> string" where
  "get_dcheck_currently_on_error_message actual_name expected =
     (let actual = (if actual_name = [] then ''Unknown Thread'' else actual_name)
      in ''Must be called on '' @ get_thread_name expected @ ''; actually called on '' @ actual @ ''.'')"

section \<open>Posting tasks\<close>

definition post_task_helper ::
  "nat \<Rightarrow> thread_globals \<Rightarrow> web_thread_id \<Rightarrow> thread_task \<Rightarrow> int \<Rightarrow> bool \<Rightarrow> (thread_globals \<times> bool) option" where
  "post_task_helper cur g identifier task delay nestable = do {
     dcheck (id_number identifier < id_number ID_COUNT);
     (g1, current_thread) \<leftarrow> get_current_thread_identifier cur g;
     let target_thread_outlives_current =
       (case current_thread of Some c \<Rightarrow> id_number c \<ge> id_number identifier | None \<Rightarrow> False);
     let g2 = get_globals g1;
     g3 \<leftarrow> (if \<not> target_thread_outlives_current then acquire_lock g2 else Some g2);
     let accepting_tasks = (thread_states g3 identifier = RUNNING);
     g4 \<leftarrow> (if accepting_tasks
           then map_option (\<lambda>runner. g3\<lparr>posted := posted g3 @
                  [\<lparr>posted_to = runner, posted_what = task, posted_delay = delay, posted_nestable = nestable\<rparr>]\<rparr>)
                (thread_runners g3 identifier)
           else Some g3);
     Some (if \<not> target_thread_outlives_current then release_lock g4 else g4, accepting_tasks)
   }"

datatype task_shutdown_behavior = CONTINUE_ON_SHUTDOWN | SKIP_ON_SHUTDOWN | BLOCK_SHUTDOWN

record task_traits =
  traits_web_extension :: bool
  traits_web_thread :: web_thread_id
  traits_nestable :: bool
  traits_use_current_thread :: bool
  traits_shutdown_behavior :: "task_shutdown_behavior option"

definition thread_traits :: "web_thread_id \<Rightarrow> bool \<Rightarrow> task_traits" where
  "thread_traits i nestable =
     \<lparr>traits_web_extension = True, traits_web_thread = i, traits_nestable = nestable,
      traits_use_current_thread = False, traits_shutdown_behavior = None\<rparr>"

definition get_web_thread_identifier :: "task_traits \<Rightarrow> web_thread_id option" where
  "get_web_thread_identifier traits = do {
     dcheck (traits_web_extension traits);
     let i = traits_web_thread traits;
     dcheck (id_number i < id_number ID_COUNT);
     dcheck (\<not> traits_use_current_thread traits);
     (case traits_shutdown_behavior traits of
        None \<Rightarrow> Some ()
      | Some behavior \<Rightarrow>
          (if i = UI then dcheck (behavior = SKIP_ON_SHUTDOWN)
           else if i = IO then dcheck (behavior = BLOCK_SHUTDOWN)
           else Some ()));
     Some i
   }"

definition executor_post_delayed_task ::
  "nat \<Rightarrow> thread_globals \<Rightarrow> task_traits \<Rightarrow> thread_task \<Rightarrow> int \<Rightarrow> (thread_globals \<times> bool) option" where
  "executor_post_delayed_task cur g traits task delay = do {
     i \<leftarrow> get_web_thread_identifier traits;
     post_task_helper cur g i task delay (traits_nestable traits)
   }"

text \<open>A \<open>WebThreadTaskRunner\<close> is its identifier; there is one for each.\<close>

definition get_task_runner_for_thread :: "web_thread_id \<Rightarrow> web_thread_id option" where
  "get_task_runner_for_thread identifier = (if identifier = ID_COUNT then None else Some identifier)"

definition create_task_runner :: "task_traits \<Rightarrow> web_thread_id option" where
  "create_task_runner traits = Option.bind (get_web_thread_identifier traits) get_task_runner_for_thread"

definition create_single_thread_task_runner :: "task_traits \<Rightarrow> bool \<Rightarrow> web_thread_id option" where
  "create_single_thread_task_runner traits shared = do {
     dcheck shared;
     i \<leftarrow> get_web_thread_identifier traits;
     get_task_runner_for_thread i
   }"

text \<open>\<open>base::PostDelayedTask\<close> finds the executor that is registered for the traits.\<close>

definition runner_post_delayed_task ::
  "nat \<Rightarrow> thread_globals \<Rightarrow> web_thread_id \<Rightarrow> thread_task \<Rightarrow> int \<Rightarrow> (thread_globals \<times> bool) option" where
  "runner_post_delayed_task cur g i task delay = do {
     dcheck (task_executor g);
     executor_post_delayed_task cur g (thread_traits i True) task delay
   }"

definition runner_post_non_nestable_delayed_task ::
  "nat \<Rightarrow> thread_globals \<Rightarrow> web_thread_id \<Rightarrow> thread_task \<Rightarrow> int \<Rightarrow> (thread_globals \<times> bool) option" where
  "runner_post_non_nestable_delayed_task cur g i task delay = do {
     dcheck (task_executor g);
     executor_post_delayed_task cur g (thread_traits i False) task delay
   }"

definition runs_tasks_in_current_sequence ::
  "nat \<Rightarrow> thread_globals \<Rightarrow> web_thread_id \<Rightarrow> (thread_globals \<times> bool) option" where
  "runs_tasks_in_current_sequence cur g i = currently_on cur g i"

section \<open>Threads come and go\<close>

definition new_web_thread ::
  "nat \<Rightarrow> thread_globals \<Rightarrow> web_thread_id \<Rightarrow> nat \<Rightarrow> thread_globals option" where
  "new_web_thread cur g identifier runner = do {
     (if identifier = UI then dcheck (runner = cur) else Some ());
     g1 \<leftarrow> acquire_lock (get_globals g);
     dcheck (id_number identifier < id_number ID_COUNT);
     dcheck (thread_states g1 identifier = UNINITIALIZED);
     let g2 = g1\<lparr>thread_states := (thread_states g1)(identifier := RUNNING)\<rparr>;
     dcheck (thread_runners g2 identifier = None);
     Some (release_lock (g2\<lparr>thread_runners := (thread_runners g2)(identifier := Some runner)\<rparr>))
   }"

definition destroy_web_thread :: "thread_globals \<Rightarrow> web_thread_id \<Rightarrow> thread_globals option" where
  "destroy_web_thread g identifier = do {
     g1 \<leftarrow> acquire_lock (get_globals g);
     dcheck (thread_states g1 identifier = RUNNING);
     Some (release_lock (g1\<lparr>thread_states := (thread_states g1)(identifier := SHUTDOWN)\<rparr>))
   }"

definition reset_globals_for_testing :: "thread_globals \<Rightarrow> web_thread_id \<Rightarrow> thread_globals option" where
  "reset_globals_for_testing g identifier = do {
     g1 \<leftarrow> acquire_lock (get_globals g);
     dcheck (thread_states g1 identifier = SHUTDOWN);
     Some (release_lock (g1\<lparr>thread_states := (thread_states g1)(identifier := UNINITIALIZED),
       thread_runners := (thread_runners g1)(identifier := None)\<rparr>))
   }"

definition create_task_executor :: "thread_globals \<Rightarrow> thread_globals option" where
  "create_task_executor g = do { dcheck (\<not> task_executor g); Some (g\<lparr>task_executor := True\<rparr>) }"

definition reset_task_executor_for_testing :: "thread_globals \<Rightarrow> thread_globals option" where
  "reset_task_executor_for_testing g = do { dcheck (task_executor g); Some (g\<lparr>task_executor := False\<rparr>) }"

definition set_io_thread_delegate :: "thread_globals \<Rightarrow> nat option \<Rightarrow> thread_globals option" where
  "set_io_thread_delegate g delegate = do {
     (g1, initialized) \<leftarrow> is_thread_initialized g IO;
     dcheck (\<not> initialized);
     dcheck (io_thread_delegate g1 = None \<or> delegate = None);
     Some (g1\<lparr>io_thread_delegate := delegate\<rparr>)
   }"

section \<open>The physical thread\<close>

text \<open>
  \<open>sub_checker\<close> is the thread the thread checker is bound to, and \<open>sub_running\<close> whether the
  \<open>base::Thread\<close>, number \<open>sub_physical\<close>, was started.
\<close>

record web_sub_thread =
  sub_identifier :: web_thread_id
  sub_physical :: nat
  sub_running :: bool
  blocking_allowed_for_testing :: bool
  sub_web_thread :: bool
  sub_checker :: "nat option"

definition new_web_sub_thread :: "web_thread_id \<Rightarrow> nat \<Rightarrow> web_sub_thread" where
  "new_web_sub_thread identifier physical =
     \<lparr>sub_identifier = identifier, sub_physical = physical, sub_running = False,
      blocking_allowed_for_testing = False, sub_web_thread = False, sub_checker = None\<rparr>"

definition called_on_valid_thread :: "nat \<Rightarrow> web_sub_thread \<Rightarrow> web_sub_thread option" where
  "called_on_valid_thread cur t =
     (case sub_checker t of
        None \<Rightarrow> Some (t\<lparr>sub_checker := Some cur\<rparr>)
      | Some bound \<Rightarrow> (if bound = cur then Some t else None))"

definition register_as_web_thread ::
  "nat \<Rightarrow> thread_globals \<Rightarrow> web_sub_thread \<Rightarrow> (thread_globals \<times> web_sub_thread) option" where
  "register_as_web_thread cur g t = do {
     dcheck (sub_running t);
     dcheck (\<not> sub_web_thread t);
     g1 \<leftarrow> new_web_thread cur g (sub_identifier t) (sub_physical t);
     Some (g1\<lparr>posted := posted g1 @
         [\<lparr>posted_to = sub_physical t, posted_what = CompleteInitializationOnWebThread,
          posted_delay = 0, posted_nestable = True\<rparr>]\<rparr>,
       t\<lparr>sub_web_thread := True\<rparr>)
   }"

definition allow_blocking_for_testing :: "web_sub_thread \<Rightarrow> web_sub_thread option" where
  "allow_blocking_for_testing t = do {
     dcheck (\<not> sub_running t);
     Some (t\<lparr>blocking_allowed_for_testing := True\<rparr>)
   }"

definition sub_thread_init ::
  "nat \<Rightarrow> thread_globals \<Rightarrow> web_sub_thread \<Rightarrow> (thread_globals \<times> web_sub_thread) option" where
  "sub_thread_init cur g t = do {
     t1 \<leftarrow> called_on_valid_thread cur t;
     Some (if \<not> blocking_allowed_for_testing t1 then thread_call_made DisallowUnresponsiveTasks g else g, t1)
   }"

definition sub_thread_run ::
  "nat \<Rightarrow> thread_globals \<Rightarrow> web_sub_thread \<Rightarrow> (thread_globals \<times> web_sub_thread) option" where
  "sub_thread_run cur g t = do {
     t1 \<leftarrow> called_on_valid_thread cur t;
     (case sub_identifier t1 of
        UI \<Rightarrow> Some (thread_call_made ThreadRun g, t1)
      | IO \<Rightarrow> Some (thread_call_made ThreadRun g, t1)
      | ID_COUNT \<Rightarrow> None)
   }"

definition io_thread_clean_up ::
  "nat \<Rightarrow> thread_globals \<Rightarrow> web_sub_thread \<Rightarrow> (thread_globals \<times> web_sub_thread) option" where
  "io_thread_clean_up cur g t = do {
     t1 \<leftarrow> called_on_valid_thread cur t;
     Some (thread_call_made CancelAllURLFetchers g, t1)
   }"

definition sub_thread_clean_up ::
  "nat \<Rightarrow> thread_globals \<Rightarrow> web_sub_thread \<Rightarrow> (thread_globals \<times> web_sub_thread) option" where
  "sub_thread_clean_up cur g t = do {
     t1 \<leftarrow> called_on_valid_thread cur t;
     (g1, on_io) \<leftarrow> currently_on cur g IO;
     (g2, t2) \<leftarrow> (if on_io then io_thread_clean_up cur g1 t1 else Some (g1, t1));
     let g3 = (if sub_identifier t2 = IO
               then (case io_thread_delegate g2 of None \<Rightarrow> g2 | Some d \<Rightarrow> thread_call_made (DelegateCleanUp d) g2)
               else g2);
     g4 \<leftarrow> (if sub_web_thread t2 then destroy_web_thread g3 (sub_identifier t2) else Some g3);
     Some (g4, t2\<lparr>sub_web_thread := False\<rparr>)
   }"

definition complete_initialization_on_web_thread ::
  "nat \<Rightarrow> thread_globals \<Rightarrow> web_sub_thread \<Rightarrow> (thread_globals \<times> web_sub_thread) option" where
  "complete_initialization_on_web_thread cur g t = do {
     t1 \<leftarrow> called_on_valid_thread cur t;
     Some (if sub_identifier t1 = IO
           then (case io_thread_delegate g of None \<Rightarrow> g | Some d \<Rightarrow> thread_call_made (DelegateInit d) g)
           else g, t1)
   }"

end
