(* ===== verification/UrlData.thy ===== *)
theory UrlData
  imports WebThreads "HOL-Library.AList" "HOL-Library.List_Lexorder" "HOL-Library.Char_ord"
begin

text \<open>
  The data sources behind \<open>chrome:\<close> URLs: \<open>web/webui/url_data_manager_ios.{h,cc}\<close>, the reference
  counted \<open>url_data_source_ios_impl.{h,cc}\<close>, the backend and its jobs in
  \<open>url_data_manager_ios_backend.{h,mm}\<close>, the functions of \<open>url_data_source_ios.mm\<close>, and the part of
  \<open>browser_state.mm\<close> that owns the backend. A client, a \<open>URLDataSourceIOS\<close>, is the record of its
  virtual functions; \<open>StartDataRequest\<close> is logged. Fewer than \<open>2 ^ 31\<close> requests are started.

  The threads are those of \<open>WebThreads\<close>: a callback is an entry of \<open>url_callbacks\<close> and the task
  posted for it is \<^term>\<open>UserTask\<close> of its index. Sources and jobs are numbered; a
  \<open>scoped_refptr\<close> counts in \<open>ds_refs\<close>, and dropping the last one calls the destruction trait. The
  storage of a deleted source is \<^term>\<open>None\<close>, so that using it is \<^term>\<open>None\<close> like a failed check.
\<close>

section \<open>Sources\<close>

record gurl =
  gurl_valid :: bool
  gurl_scheme :: string
  gurl_host :: string
  gurl_spec :: string
  gurl_path_begin :: int

text \<open>The virtual functions of a \<open>URLDataSourceIOS\<close>.\<close>

record source_client =
  get_source :: string
  should_replace_existing_source :: bool
  allow_caching :: bool
  get_csp_object_src :: string
  should_deny_xframe_options :: bool
  get_mime_type :: "string \<Rightarrow> string"
  should_service_request :: "gurl \<Rightarrow> bool"

text \<open>The functions a source does not override; \<open>app_specific\<close> is \<open>WebClient::IsAppSpecificURL\<close>.\<close>

definition default_source_client :: "(gurl \<Rightarrow> bool) \<Rightarrow> string \<Rightarrow> (string \<Rightarrow> string) \<Rightarrow> source_client" where
  "default_source_client app_specific name mime =
     \<lparr>get_source = name, should_replace_existing_source = True, allow_caching = True,
      get_csp_object_src = ''object-src 'none';'', should_deny_xframe_options = True,
      get_mime_type = mime, should_service_request = app_specific\<rparr>"

record data_source =
  ds_client :: source_client
  source_name :: string
  ds_backend :: bool
  ds_refs :: nat
  ds_replacements :: "(string \<times> string) list option"

definition new_url_data_source_ios_impl :: "string \<Rightarrow> source_client \<Rightarrow> data_source" where
  "new_url_data_source_ios_impl name client =
     \<lparr>ds_client = client, source_name = name, ds_backend = False, ds_refs = 0, ds_replacements = None\<rparr>"

section \<open>Jobs\<close>

datatype job_event =
    NotifyStartError
  | NotifyHeadersComplete
  | ReadRawDataComplete int
  | BufferFilled string
  | JobKilled

record url_job =
  job_url :: gurl
  job_data :: "string option"
  data_offset :: int
  pending_buf :: bool
  pending_buf_size :: int
  job_mime_type :: string
  job_allow_caching :: bool
  add_content_security_policy :: bool
  csp_object_source :: string
  csp_frame_source :: string
  deny_xframe_options :: bool
  job_source :: "nat option"
  send_content_type_header :: bool
  job_incognito :: bool
  job_backend :: bool
  job_weak_valid :: bool
  job_events :: "job_event list"

definition new_url_request_chrome_job :: "gurl \<Rightarrow> bool \<Rightarrow> url_job" where
  "new_url_request_chrome_job url incognito =
     \<lparr>job_url = url, job_data = None, data_offset = 0, pending_buf = False, pending_buf_size = 0,
      job_mime_type = [], job_allow_caching = True, add_content_security_policy = True,
      csp_object_source = ''object-src 'none';'', csp_frame_source = ''frame-src 'none';'',
      deny_xframe_options = True, job_source = None, send_content_type_header = False,
      job_incognito = incognito, job_backend = False, job_weak_valid = True, job_events = []\<rparr>"

definition job_notify :: "job_event \<Rightarrow> url_job \<Rightarrow> url_job" where
  "job_notify e job = job\<lparr>job_events := job_events job @ [e]\<rparr>"

definition complete_read :: "url_job \<Rightarrow> int \<Rightarrow> (url_job \<times> int) option" where
  "complete_read job buf_size = do {
     bytes \<leftarrow> job_data job;
     let remaining = to_int32 ((int (length bytes) - data_offset job) mod 2 ^ 64);
     let n = (if buf_size > remaining then remaining else buf_size);
     Some (if n > 0
           then (job_notify (BufferFilled (take (nat n) (drop (nat (data_offset job)) bytes))) job)
                  \<lparr>data_offset := data_offset job + n\<rparr>
           else job, n)
   }"

definition ERR_IO_PENDING :: int where "ERR_IO_PENDING = - 1"
definition ERR_FAILED :: int where "ERR_FAILED = - 2"

definition read_raw_data :: "url_job \<Rightarrow> int \<Rightarrow> (url_job \<times> int) option" where
  "read_raw_data job buf_size =
     (if job_data job = None
      then do {
        dcheck (\<not> pending_buf job);
        Some (job\<lparr>pending_buf := True, pending_buf_size := buf_size\<rparr>, ERR_IO_PENDING)
      }
      else complete_read job buf_size)"

definition job_data_available :: "url_job \<Rightarrow> string option \<Rightarrow> url_job option" where
  "job_data_available job bytes =
     (case bytes of
        Some b \<Rightarrow>
          (let job1 = job\<lparr>job_data := Some b\<rparr>
           in if pending_buf job1
              then do {
                (job2, rv) \<leftarrow> complete_read job1 (pending_buf_size job1);
                Some (job_notify (ReadRawDataComplete rv) (job2\<lparr>pending_buf := False\<rparr>))
              }
              else Some job1)
      | None \<Rightarrow> Some (job_notify (ReadRawDataComplete ERR_FAILED) job))"

definition job_get_mime_type :: "url_job \<Rightarrow> string \<times> bool" where
  "job_get_mime_type job = (job_mime_type job, job_mime_type job \<noteq> [])"

text \<open>The headers of the response, in the order they are added.\<close>

definition get_response_info :: "url_job \<Rightarrow> string list" where
  "get_response_info job =
     [''HTTP/1.1 200 OK'']
     @ (if add_content_security_policy job
        then [''Content-Security-Policy: script-src chrome://resources 'self'; ''
              @ csp_object_source job @ csp_frame_source job] else [])
     @ (if deny_xframe_options job then [''X-Frame-Options: DENY''] else [])
     @ (if \<not> job_allow_caching job then [''Cache-Control: no-cache''] else [])
     @ (if send_content_type_header job \<and> job_mime_type job \<noteq> []
        then [''Content-Type:'' @ job_mime_type job] else [])"

section \<open>The state\<close>

datatype url_callback =
    DeleteDataSources
  | DeleteBackend
  | AddDataSourceOnIOThread nat
  | GetMimeTypeOnUI nat string nat
  | CallStartRequest nat string int
  | MimeTypeAvailable nat nat string
  | SendResponseOnIOThread nat int "string option"

text \<open>The source whose reference a callback holds.\<close>

fun bound_source :: "url_callback \<Rightarrow> nat option" where
  "bound_source DeleteDataSources = None"
| "bound_source DeleteBackend = None"
| "bound_source (AddDataSourceOnIOThread source) = Some source"
| "bound_source (GetMimeTypeOnUI source path job) = Some source"
| "bound_source (CallStartRequest source path request_id) = Some source"
| "bound_source (MimeTypeAvailable job source mime_type) = Some source"
| "bound_source (SendResponseOnIOThread source request_id bytes) = Some source"

text \<open>
  \<open>url_data_sources\<close> is the static list of the manager, \<open>deleted_sources\<close> the history of deletions with
  the physical thread each ran on; \<open>data_sources\<close> and \<open>pending_requests\<close> are maps in key order;
  \<open>held_callbacks\<close> are the callbacks that clients were given, with the request they answer, and
  \<open>data_requests\<close> logs the calls of \<open>StartDataRequest\<close>.
\<close>

record url_data =
  url_threads :: thread_globals
  url_callbacks :: "url_callback list"
  url_objects :: "nat \<Rightarrow> data_source option"
  next_source :: nat
  has_manager :: bool
  url_data_sources :: "nat list option"
  deleted_sources :: "(nat \<times> nat) list"
  browser_state_alive :: bool
  backend_alive :: bool
  data_sources :: "(string \<times> nat) list"
  pending_requests :: "(int \<times> nat) list"
  next_request_id :: int
  url_jobs :: "url_job option list"
  held_callbacks :: "(nat \<times> int) list"
  data_requests :: "(nat \<times> string \<times> int) list"

text \<open>A callback is handed to a thread; when the thread does not accept it, it is destroyed.\<close>

definition hand_over ::
  "nat \<Rightarrow> url_data \<Rightarrow> web_thread_id \<Rightarrow> url_callback \<Rightarrow> bool \<Rightarrow> (url_data \<times> bool) option" where
  "hand_over cur s i c nestable = do {
     (g, accepted) \<leftarrow> (if nestable then runner_post_delayed_task else runner_post_non_nestable_delayed_task)
         cur (url_threads s) i (UserTask (length (url_callbacks s))) 0;
     Some (s\<lparr>url_threads := g, url_callbacks := url_callbacks s @ [c]\<rparr>, accepted)
   }"

definition dcheck_currently_on :: "nat \<Rightarrow> url_data \<Rightarrow> web_thread_id \<Rightarrow> url_data option" where
  "dcheck_currently_on cur s i = do {
     (g, b) \<leftarrow> currently_on cur (url_threads s) i;
     dcheck b;
     Some (s\<lparr>url_threads := g\<rparr>)
   }"

definition update_source :: "nat \<Rightarrow> (data_source \<Rightarrow> data_source) \<Rightarrow> url_data \<Rightarrow> url_data option" where
  "update_source source f s = do {
     d \<leftarrow> url_objects s source;
     Some (s\<lparr>url_objects := (url_objects s)(source \<mapsto> f d)\<rparr>)
   }"

section \<open>Deleting sources\<close>

definition is_scheduled_for_deletion :: "url_data \<Rightarrow> nat \<Rightarrow> bool" where
  "is_scheduled_for_deletion s source =
     (case url_data_sources s of None \<Rightarrow> False | Some sources \<Rightarrow> source \<in> set sources)"

definition destroy_source :: "nat \<Rightarrow> nat \<Rightarrow> url_data \<Rightarrow> url_data option" where
  "destroy_source cur source s = do {
     dcheck (url_objects s source \<noteq> None);
     Some (s\<lparr>url_objects := (url_objects s)(source := None),
             deleted_sources := deleted_sources s @ [(cur, source)]\<rparr>)
   }"

primrec destroy_sources :: "nat \<Rightarrow> nat list \<Rightarrow> url_data \<Rightarrow> url_data option" where
  "destroy_sources cur [] s = Some s"
| "destroy_sources cur (x # xs) s = Option.bind (destroy_source cur x s) (destroy_sources cur xs)"

definition delete_data_sources :: "nat \<Rightarrow> url_data \<Rightarrow> url_data option" where
  "delete_data_sources cur s = do {
     s1 \<leftarrow> dcheck_currently_on cur s UI;
     (case url_data_sources s1 of
        None \<Rightarrow> Some s1
      | Some sources \<Rightarrow> destroy_sources cur sources (s1\<lparr>url_data_sources := Some []\<rparr>))
   }"

definition delete_data_source :: "nat \<Rightarrow> url_data \<Rightarrow> nat \<Rightarrow> url_data option" where
  "delete_data_source cur s source = do {
     (g, on_ui) \<leftarrow> currently_on cur (url_threads s) UI;
     let s1 = s\<lparr>url_threads := g\<rparr>;
     (if on_ui then destroy_source cur source s1
      else (let sources = (case url_data_sources s1 of None \<Rightarrow> [] | Some sources \<Rightarrow> sources);
                schedule_delete = (sources = []);
                s2 = s1\<lparr>url_data_sources := Some (sources @ [source])\<rparr>
            in if schedule_delete then map_option fst (hand_over cur s2 UI DeleteDataSources True)
               else Some s2))
   }"

section \<open>References\<close>

text \<open>A reference may not be added to a source that waits for its deletion.\<close>

definition add_ref :: "nat \<Rightarrow> url_data \<Rightarrow> url_data option" where
  "add_ref source s = do {
     dcheck (\<not> is_scheduled_for_deletion s source);
     update_source source (\<lambda>d. d\<lparr>ds_refs := ds_refs d + 1\<rparr>) s
   }"

definition destruct :: "nat \<Rightarrow> url_data \<Rightarrow> nat \<Rightarrow> url_data option" where
  "destruct cur s source = delete_data_source cur s source"

definition release :: "nat \<Rightarrow> nat \<Rightarrow> url_data \<Rightarrow> url_data option" where
  "release cur source s = do {
     d \<leftarrow> url_objects s source;
     dcheck (ds_refs d > 0);
     let s1 = s\<lparr>url_objects := (url_objects s)(source \<mapsto> d\<lparr>ds_refs := ds_refs d - 1\<rparr>)\<rparr>;
     (if ds_refs d - 1 = 0 then destruct cur s1 source else Some s1)
   }"

definition release_bound :: "nat \<Rightarrow> url_callback \<Rightarrow> url_data \<Rightarrow> url_data option" where
  "release_bound cur c s = (case bound_source c of None \<Rightarrow> Some s | Some source \<Rightarrow> release cur source s)"

text \<open>\<open>base::PostTask\<close> of a bound callback.\<close>

definition post_url_callback :: "nat \<Rightarrow> url_data \<Rightarrow> web_thread_id \<Rightarrow> url_callback \<Rightarrow> url_data option" where
  "post_url_callback cur s i c = do {
     s1 \<leftarrow> (case bound_source c of None \<Rightarrow> Some s | Some source \<Rightarrow> add_ref source s);
     (s2, accepted) \<leftarrow> hand_over cur s1 i c True;
     (if accepted then Some s2 else release_bound cur c s2)
   }"

section \<open>Adding sources\<close>

definition create_source :: "data_source \<Rightarrow> url_data \<Rightarrow> url_data \<times> nat" where
  "create_source d s =
     (s\<lparr>url_objects := (url_objects s)(next_source s \<mapsto> d), next_source := next_source s + 1\<rparr>, next_source s)"

definition get_from_browser_state :: "url_data \<Rightarrow> url_data" where
  "get_from_browser_state s = s\<lparr>has_manager := True\<rparr>"

definition manager_add_data_source :: "nat \<Rightarrow> url_data \<Rightarrow> nat \<Rightarrow> url_data option" where
  "manager_add_data_source cur s source = do {
     s1 \<leftarrow> dcheck_currently_on cur s UI;
     post_url_callback cur s1 IO (AddDataSourceOnIOThread source)
   }"

definition add_data_source :: "nat \<Rightarrow> url_data \<Rightarrow> source_client \<Rightarrow> url_data option" where
  "add_data_source cur s client =
     (let (s1, source) = create_source (new_url_data_source_ios_impl (get_source client) client)
                           (get_from_browser_state s)
      in manager_add_data_source cur s1 source)"

definition add_web_ui_ios_data_source :: "nat \<Rightarrow> url_data \<Rightarrow> nat \<Rightarrow> url_data option" where
  "add_web_ui_ios_data_source cur s source = manager_add_data_source cur (get_from_browser_state s) source"

definition map_set :: "'k::linorder \<Rightarrow> 'v \<Rightarrow> ('k \<times> 'v) list \<Rightarrow> ('k \<times> 'v) list" where
  "map_set k v m = (if k \<in> fst ` set m then AList.update k v m else insort_key fst (k, v) m)"

definition backend_add_data_source :: "nat \<Rightarrow> url_data \<Rightarrow> nat \<Rightarrow> url_data option" where
  "backend_add_data_source cur s source = do {
     s1 \<leftarrow> dcheck_currently_on cur s IO;
     d \<leftarrow> url_objects s1 source;
     let name = source_name d;
     (case map_of (data_sources s1) name of
        None \<Rightarrow> do {
          s2 \<leftarrow> add_ref source s1;
          update_source source (\<lambda>d. d\<lparr>ds_backend := True\<rparr>)
            (s2\<lparr>data_sources := map_set name source (data_sources s2)\<rparr>)
        }
      | Some old \<Rightarrow>
          if \<not> should_replace_existing_source (ds_client d) then Some s1
          else do {
            s2 \<leftarrow> update_source old (\<lambda>d. d\<lparr>ds_backend := False\<rparr>) s1;
            s3 \<leftarrow> add_ref source s2;
            s4 \<leftarrow> release cur old (s3\<lparr>data_sources := map_set name source (data_sources s3)\<rparr>);
            update_source source (\<lambda>d. d\<lparr>ds_backend := True\<rparr>) s4
          })
   }"

text \<open>The backend of a browser state starts with the source of the shared resources.\<close>

definition new_url_data_manager_ios_backend :: "nat \<Rightarrow> url_data \<Rightarrow> source_client \<Rightarrow> url_data option" where
  "new_url_data_manager_ios_backend cur s shared =
     (let (s1, source) = create_source (new_url_data_source_ios_impl (get_source shared) shared)
                           (s\<lparr>backend_alive := True, data_sources := [], pending_requests := [],
                              next_request_id := 0\<rparr>)
      in backend_add_data_source cur s1 source)"

definition get_url_data_manager_ios_backend_on_io_thread ::
  "nat \<Rightarrow> source_client \<Rightarrow> url_data \<Rightarrow> url_data option" where
  "get_url_data_manager_ios_backend_on_io_thread cur shared s = do {
     dcheck (browser_state_alive s);
     s1 \<leftarrow> dcheck_currently_on cur s IO;
     (if \<not> backend_alive s1 then new_url_data_manager_ios_backend cur s1 shared else Some s1)
   }"

definition add_data_source_on_io_thread :: "nat \<Rightarrow> source_client \<Rightarrow> url_data \<Rightarrow> nat \<Rightarrow> url_data option" where
  "add_data_source_on_io_thread cur shared s source = do {
     s1 \<leftarrow> dcheck_currently_on cur s IO;
     s2 \<leftarrow> get_url_data_manager_ios_backend_on_io_thread cur shared s1;
     backend_add_data_source cur s2 source
   }"

primrec forget_backend :: "(string \<times> nat) list \<Rightarrow> url_data \<Rightarrow> url_data option" where
  "forget_backend [] s = Some s"
| "forget_backend (x # xs) s =
     Option.bind (update_source (snd x) (\<lambda>d. d\<lparr>ds_backend := False\<rparr>) s) (forget_backend xs)"

primrec release_sources :: "nat \<Rightarrow> (string \<times> nat) list \<Rightarrow> url_data \<Rightarrow> url_data option" where
  "release_sources cur [] s = Some s"
| "release_sources cur (x # xs) s =
     Option.bind (release cur (snd x) (s\<lparr>data_sources := xs\<rparr>)) (release_sources cur xs)"

definition destroy_backend :: "nat \<Rightarrow> url_data \<Rightarrow> url_data option" where
  "destroy_backend cur s = do {
     s1 \<leftarrow> forget_backend (data_sources s) s;
     s2 \<leftarrow> release_sources cur (data_sources s1) s1;
     Some (s2\<lparr>backend_alive := False\<rparr>)
   }"

text \<open>The end of the browser state: its backend is deleted on the IO thread as long as it takes tasks.\<close>

definition destroy_browser_state :: "nat \<Rightarrow> url_data \<Rightarrow> url_data option" where
  "destroy_browser_state cur s =
     (let s1 = s\<lparr>browser_state_alive := False, has_manager := False\<rparr>
      in if backend_alive s1
         then do {
           (s2, posted) \<leftarrow> hand_over cur s1 IO DeleteBackend False;
           (if \<not> posted then destroy_backend cur s2 else Some s2)
         }
         else Some s1)"

section \<open>Requests\<close>

definition check_url_is_valid :: "(gurl \<Rightarrow> bool) \<Rightarrow> string list \<Rightarrow> gurl \<Rightarrow> bool option" where
  "check_url_is_valid app_specific additional_schemes url = do {
     dcheck (app_specific url \<or> gurl_scheme url \<in> set additional_schemes);
     dcheck (gurl_valid url);
     Some True
   }"

definition url_to_request_path :: "gurl \<Rightarrow> string" where
  "url_to_request_path url =
     (let offset = gurl_path_begin url + 1
      in if offset < int (length (gurl_spec url)) then drop (nat offset) (gurl_spec url) else [])"

definition get_data_source_from_url :: "url_data \<Rightarrow> gurl \<Rightarrow> nat option" where
  "get_data_source_from_url s url =
     (case map_of (data_sources s) (gurl_host url) of
        Some source \<Rightarrow> Some source
      | None \<Rightarrow> map_of (data_sources s) (gurl_scheme url @ ''://''))"

definition has_pending_job :: "url_data \<Rightarrow> nat \<Rightarrow> bool" where
  "has_pending_job s job = list_ex (\<lambda>i. snd i = job) (pending_requests s)"

fun remove_request_loop :: "(int \<times> nat) list \<Rightarrow> nat \<Rightarrow> (int \<times> nat) list" where
  "remove_request_loop [] job = []"
| "remove_request_loop (i # is) job = (if snd i = job then is else i # remove_request_loop is job)"

definition remove_request :: "url_data \<Rightarrow> nat \<Rightarrow> url_data" where
  "remove_request s job = s\<lparr>pending_requests := remove_request_loop (pending_requests s) job\<rparr>"

definition find_job :: "url_data \<Rightarrow> nat \<Rightarrow> url_job option" where
  "find_job s job = (if job < length (url_jobs s) then url_jobs s ! job else None)"

definition put_job :: "nat \<Rightarrow> url_job \<Rightarrow> url_data \<Rightarrow> url_data" where
  "put_job job j s = s\<lparr>url_jobs := (url_jobs s)[job := Some j]\<rparr>"

definition start_request ::
  "nat \<Rightarrow> (gurl \<Rightarrow> bool) \<Rightarrow> string list \<Rightarrow> url_data \<Rightarrow> nat \<Rightarrow> (url_data \<times> bool) option" where
  "start_request cur app_specific additional_schemes s job = do {
     j \<leftarrow> find_job s job;
     valid \<leftarrow> check_url_is_valid app_specific additional_schemes (job_url j);
     (if \<not> valid then Some (s, False)
      else case get_data_source_from_url s (job_url j) of
        None \<Rightarrow> Some (s, False)
      | Some source \<Rightarrow> do {
          d \<leftarrow> url_objects s source;
          (if \<not> should_service_request (ds_client d) (job_url j) then Some (s, False)
           else (let path = url_to_request_path (job_url j);
                     request_id = next_request_id s;
                     s1 = s\<lparr>pending_requests := (if request_id \<in> fst ` set (pending_requests s)
                              then pending_requests s
                              else insort_key fst (request_id, job) (pending_requests s)),
                            next_request_id := request_id + 1\<rparr>;
                     s2 = put_job job
                            (j\<lparr>job_allow_caching := allow_caching (ds_client d),
                               add_content_security_policy := True,
                               csp_object_source := get_csp_object_src (ds_client d),
                               csp_frame_source := ''frame-src 'none';'',
                               deny_xframe_options := should_deny_xframe_options (ds_client d),
                               send_content_type_header := False\<rparr>) s1
                 in do {
                   s3 \<leftarrow> post_url_callback cur s2 UI (GetMimeTypeOnUI source path job);
                   s4 \<leftarrow> post_url_callback cur s3 UI (CallStartRequest source path request_id);
                   Some (s4, True)
                 }))
        })
   }"

definition create_job :: "gurl \<Rightarrow> bool \<Rightarrow> url_data \<Rightarrow> url_data" where
  "create_job url incognito s =
     s\<lparr>url_jobs := url_jobs s @ [Some (new_url_request_chrome_job url incognito)]\<rparr>"

definition start_job ::
  "nat \<Rightarrow> source_client \<Rightarrow> (gurl \<Rightarrow> bool) \<Rightarrow> string list \<Rightarrow> url_data \<Rightarrow> nat \<Rightarrow> url_data option" where
  "start_job cur shared app_specific additional_schemes s job = do {
     s1 \<leftarrow> get_url_data_manager_ios_backend_on_io_thread cur shared s;
     j \<leftarrow> find_job s1 job;
     (s2, started) \<leftarrow> start_request cur app_specific additional_schemes
         (put_job job (j\<lparr>job_backend := True\<rparr>) s1) job;
     (if started then Some s2
      else do {
        j2 \<leftarrow> find_job s2 job;
        Some (put_job job (job_notify NotifyStartError j2) s2)
      })
   }"

definition kill_job :: "url_data \<Rightarrow> nat \<Rightarrow> url_data option" where
  "kill_job s job = do {
     j \<leftarrow> find_job s job;
     let s1 = put_job job (j\<lparr>job_weak_valid := False\<rparr>) s;
     s2 \<leftarrow> (if job_backend j then do { dcheck (backend_alive s1); Some (remove_request s1 job) } else Some s1);
     j2 \<leftarrow> find_job s2 job;
     Some (put_job job (job_notify JobKilled j2) s2)
   }"

text \<open>The destructor of a job checks that it is not pending and drops the source it keeps alive.\<close>

definition destroy_job :: "nat \<Rightarrow> url_data \<Rightarrow> nat \<Rightarrow> url_data option" where
  "destroy_job cur s job = do {
     j \<leftarrow> find_job s job;
     (if job_backend j then dcheck (backend_alive s \<and> \<not> has_pending_job s job) else Some ());
     let s1 = s\<lparr>url_jobs := (url_jobs s)[job := None]\<rparr>;
     (case job_source j of None \<Rightarrow> Some s1 | Some source \<Rightarrow> release cur source s1)
   }"

definition read_job :: "url_data \<Rightarrow> nat \<Rightarrow> int \<Rightarrow> url_data option" where
  "read_job s job buf_size = do {
     j \<leftarrow> find_job s job;
     (j1, rv) \<leftarrow> read_raw_data j buf_size;
     Some (put_job job j1 s)
   }"

definition set_source :: "nat \<Rightarrow> nat \<Rightarrow> nat \<Rightarrow> url_data \<Rightarrow> url_data option" where
  "set_source cur job source s = do {
     j \<leftarrow> find_job s job;
     s1 \<leftarrow> add_ref source s;
     let s2 = put_job job (j\<lparr>job_source := Some source\<rparr>) s1;
     (case job_source j of None \<Rightarrow> Some s2 | Some old \<Rightarrow> release cur old s2)
   }"

text \<open>The translations a source stream of the job replaces, if it replaces any.\<close>

definition set_up_source_stream :: "url_data \<Rightarrow> url_job \<Rightarrow> (string \<times> string) list option option" where
  "set_up_source_stream s job =
     (case job_source job of
        None \<Rightarrow> Some None
      | Some source \<Rightarrow> map_option ds_replacements (url_objects s source))"

definition mime_type_available :: "nat \<Rightarrow> url_data \<Rightarrow> nat \<Rightarrow> nat \<Rightarrow> string \<Rightarrow> url_data option" where
  "mime_type_available cur s job source mime_type = do {
     j \<leftarrow> find_job s job;
     let s1 = put_job job (j\<lparr>job_mime_type := mime_type\<rparr>) s;
     s2 \<leftarrow> (if mime_type = ''text/html'' then set_source cur job source s1 else Some s1);
     j2 \<leftarrow> find_job s2 job;
     Some (put_job job (job_notify NotifyHeadersComplete j2) s2)
   }"

definition backend_data_available :: "url_data \<Rightarrow> int \<Rightarrow> string option \<Rightarrow> url_data option" where
  "backend_data_available s request_id bytes =
     (case map_of (pending_requests s) request_id of
        None \<Rightarrow> Some s
      | Some job \<Rightarrow> do {
          let s1 = s\<lparr>pending_requests := AList.delete request_id (pending_requests s)\<rparr>;
          j \<leftarrow> find_job s1 job;
          j1 \<leftarrow> job_data_available j bytes;
          Some (put_job job j1 s1)
        })"

definition send_response :: "nat \<Rightarrow> url_data \<Rightarrow> nat \<Rightarrow> int \<Rightarrow> string option \<Rightarrow> url_data option" where
  "send_response cur s source request_id bytes =
     (if is_scheduled_for_deletion s source then Some s
      else post_url_callback cur s IO (SendResponseOnIOThread source request_id bytes))"

definition send_response_on_io_thread ::
  "nat \<Rightarrow> url_data \<Rightarrow> nat \<Rightarrow> int \<Rightarrow> string option \<Rightarrow> url_data option" where
  "send_response_on_io_thread cur s source request_id bytes = do {
     s1 \<leftarrow> dcheck_currently_on cur s IO;
     d \<leftarrow> url_objects s1 source;
     (if ds_backend d
      then do { dcheck (backend_alive s1); backend_data_available s1 request_id bytes }
      else Some s1)
   }"

definition get_mime_type_on_ui :: "nat \<Rightarrow> url_data \<Rightarrow> nat \<Rightarrow> string \<Rightarrow> nat \<Rightarrow> url_data option" where
  "get_mime_type_on_ui cur s source path job = do {
     s1 \<leftarrow> dcheck_currently_on cur s UI;
     d \<leftarrow> url_objects s1 source;
     post_url_callback cur s1 IO (MimeTypeAvailable job source (get_mime_type (ds_client d) path))
   }"

text \<open>The client is given a callback that holds the source and knows the request.\<close>

definition call_start_request :: "url_data \<Rightarrow> nat \<Rightarrow> string \<Rightarrow> int \<Rightarrow> url_data option" where
  "call_start_request s source path request_id = do {
     s1 \<leftarrow> add_ref source s;
     Some (s1\<lparr>held_callbacks := held_callbacks s1 @ [(source, request_id)],
              data_requests := data_requests s1 @ [(source, path, request_id)]\<rparr>)
   }"

section \<open>The threads run\<close>

text \<open>A callback bound to a weak pointer is dropped when the pointer is invalid.\<close>

fun run_callback :: "nat \<Rightarrow> source_client \<Rightarrow> url_data \<Rightarrow> url_callback \<Rightarrow> url_data option" where
  "run_callback cur shared s DeleteDataSources = delete_data_sources cur s"
| "run_callback cur shared s DeleteBackend = destroy_backend cur s"
| "run_callback cur shared s (AddDataSourceOnIOThread source) = add_data_source_on_io_thread cur shared s source"
| "run_callback cur shared s (GetMimeTypeOnUI source path job) = get_mime_type_on_ui cur s source path job"
| "run_callback cur shared s (CallStartRequest source path request_id) =
     call_start_request s source path request_id"
| "run_callback cur shared s (MimeTypeAvailable job source mime_type) =
     (case find_job s job of
        None \<Rightarrow> Some s
      | Some j \<Rightarrow> if job_weak_valid j then mime_type_available cur s job source mime_type else Some s)"
| "run_callback cur shared s (SendResponseOnIOThread source request_id bytes) =
     send_response_on_io_thread cur s source request_id bytes"

text \<open>A physical thread takes the first task posted to it; the callback is destroyed after it ran.\<close>

fun take_task :: "nat \<Rightarrow> posted_task list \<Rightarrow> (posted_task \<times> posted_task list) option" where
  "take_task cur [] = None"
| "take_task cur (t # ts) =
     (if posted_to t = cur then Some (t, ts)
      else map_option (\<lambda>(u, us). (u, t # us)) (take_task cur ts))"

definition run_next :: "nat \<Rightarrow> source_client \<Rightarrow> url_data \<Rightarrow> url_data option" where
  "run_next cur shared s =
     (case take_task cur (posted (url_threads s)) of
        None \<Rightarrow> Some s
      | Some (t, rest) \<Rightarrow>
          (let s1 = s\<lparr>url_threads := (url_threads s)\<lparr>posted := rest\<rparr>\<rparr>
           in case posted_what t of
                CompleteInitializationOnWebThread \<Rightarrow> Some s1
              | UserTask n \<Rightarrow>
                  if n < length (url_callbacks s1)
                  then do {
                    s2 \<leftarrow> run_callback cur shared s1 (url_callbacks s1 ! n);
                    release_bound cur (url_callbacks s1 ! n) s2
                  }
                  else None))"

datatype url_event =
    AddSource nat source_client
  | RunNext nat
  | ClientResponds nat nat "string option"
  | ClientDropsCallback nat nat
  | SourceResponds nat nat int "string option"
  | CreateJob gurl bool
  | StartJob nat nat
  | KillJob nat
  | DestroyJob nat nat
  | ReadJob nat int
  | DeleteAtShutdown nat
  | DestroyBrowserState nat
  | StopWebThread web_thread_id

text \<open>
  The first number is the physical thread. \<open>SourceResponds\<close> is a source that answers without its
  callback, as one with a request in flight may.
\<close>

fun url_step ::
  "source_client \<Rightarrow> (gurl \<Rightarrow> bool) \<Rightarrow> string list \<Rightarrow> url_data \<Rightarrow> url_event \<Rightarrow> url_data option" where
  "url_step shared app schemes s (AddSource cur client) = add_data_source cur s client"
| "url_step shared app schemes s (RunNext cur) = run_next cur shared s"
| "url_step shared app schemes s (ClientResponds cur k bytes) =
     (if k < length (held_callbacks s)
      then send_response cur s (fst (held_callbacks s ! k)) (snd (held_callbacks s ! k)) bytes else None)"
| "url_step shared app schemes s (ClientDropsCallback cur k) =
     (if k < length (held_callbacks s)
      then release cur (fst (held_callbacks s ! k)) (s\<lparr>held_callbacks := vector_erase k (held_callbacks s)\<rparr>)
      else None)"
| "url_step shared app schemes s (SourceResponds cur source request_id bytes) =
     send_response cur s source request_id bytes"
| "url_step shared app schemes s (CreateJob url incognito) = Some (create_job url incognito s)"
| "url_step shared app schemes s (StartJob cur job) = start_job cur shared app schemes s job"
| "url_step shared app schemes s (KillJob job) = kill_job s job"
| "url_step shared app schemes s (DestroyJob cur job) = destroy_job cur s job"
| "url_step shared app schemes s (ReadJob job buf_size) = read_job s job buf_size"
| "url_step shared app schemes s (DeleteAtShutdown cur) = delete_data_sources cur s"
| "url_step shared app schemes s (DestroyBrowserState cur) = destroy_browser_state cur s"
| "url_step shared app schemes s (StopWebThread i) =
     map_option (\<lambda>g. s\<lparr>url_threads := g\<rparr>) (destroy_web_thread (url_threads s) i)"

definition new_url_data :: "thread_globals \<Rightarrow> url_data" where
  "new_url_data g =
     \<lparr>url_threads = g, url_callbacks = [], url_objects = (\<lambda>source. None), next_source = 0,
      has_manager = False, url_data_sources = None, deleted_sources = [], browser_state_alive = True,
      backend_alive = False, data_sources = [], pending_requests = [], next_request_id = 0,
      url_jobs = [], held_callbacks = [], data_requests = []\<rparr>"

end
