(* ===== verification/WebThreadsFacts.thy ===== *)
theory WebThreadsFacts
  imports WebThreads
begin

text \<open>What the well-known threads promise to the code that posts to them.\<close>

section \<open>The life of the threads\<close>

datatype thread_event =
    StartThread nat web_thread_id nat
  | StopThread web_thread_id
  | PostTask nat web_thread_id thread_task int bool

fun thread_step :: "thread_globals \<Rightarrow> thread_event \<Rightarrow> thread_globals option" where
  "thread_step g (StartThread cur i runner) = new_web_thread cur g i runner"
| "thread_step g (StopThread i) = destroy_web_thread g i"
| "thread_step g (PostTask cur i task delay nestable) =
     map_option fst (post_task_helper cur g i task delay nestable)"

text \<open>Each identifier is used for one thread at most; any thread may post to any identifier.\<close>

fun thread_event_allowed :: "thread_globals \<Rightarrow> thread_event \<Rightarrow> bool" where
  "thread_event_allowed g (StartThread cur i runner) \<longleftrightarrow>
     i \<noteq> ID_COUNT \<and> thread_states g i = UNINITIALIZED \<and> (i = UI \<longrightarrow> runner = cur)"
| "thread_event_allowed g (StopThread i) \<longleftrightarrow> thread_states g i = RUNNING"
| "thread_event_allowed g (PostTask cur i task delay nestable) \<longleftrightarrow> i \<noteq> ID_COUNT"

definition threads_ok :: "thread_globals \<Rightarrow> bool" where
  "threads_ok g \<longleftrightarrow> \<not> globals_lock g
     \<and> (\<forall>i. thread_states g i = UNINITIALIZED \<longleftrightarrow> thread_runners g i = None)
     \<and> (\<forall>i. thread_runners g i \<noteq> None \<longrightarrow> globals_created g)"

lemma below_count [simp]: "id_number i < 2 \<longleftrightarrow> i \<noteq> ID_COUNT"
  by (cases i) simp_all

lemma find_current: "thread_runners g ID_COUNT = None \<Longrightarrow>
   find (\<lambda>i. thread_runners g i = Some cur) [UI, IO] = None \<longleftrightarrow> (\<forall>i. thread_runners g i \<noteq> Some cur)"
  by (auto split: if_splits) (metis option.distinct(1) web_thread_id.exhaust)

lemma current_identifier_unlocked:
  "\<not> globals_lock g \<Longrightarrow> \<exists>c. get_current_thread_identifier cur g = Some (g, c)"
  by (cases g) (simp add: get_current_thread_identifier_def acquire_lock_def get_globals_def release_lock_def)

lemma post_task_result:
  assumes "threads_ok g" and "i \<noteq> ID_COUNT"
  shows "post_task_helper cur g i task delay nestable =
    Some (g\<lparr>globals_created := True, posted := posted g @
       (if thread_states g i = RUNNING
        then [\<lparr>posted_to = the (thread_runners g i), posted_what = task, posted_delay = delay,
               posted_nestable = nestable\<rparr>] else [])\<rparr>, thread_states g i = RUNNING)"
proof -
  have unlocked: "\<not> globals_lock g" using assms(1) by (simp add: threads_ok_def)
  obtain c where c: "get_current_thread_identifier cur g = Some (g, c)"
    using current_identifier_unlocked [OF unlocked] by blast
  have runner: "\<exists>r. thread_runners g i = Some r" if "thread_states g i = RUNNING"
    using assms(1) that by (metis not_None_eq threads_ok_def web_thread_state.distinct(1))
  show ?thesis
    unfolding post_task_helper_def c
    using assms(2) unlocked runner
    by (auto simp: acquire_lock_def release_lock_def get_globals_def Let_def intro: thread_globals.equality)
qed

lemma thread_step_ok:
  assumes "threads_ok g" and "thread_event_allowed g e"
  shows "\<exists>g'. thread_step g e = Some g' \<and> threads_ok g'"
proof (cases e)
  case (PostTask cur i task delay nestable)
  with assms show ?thesis by (simp add: post_task_result) (simp add: threads_ok_def)
next
  case (StartThread cur i runner)
  with assms show ?thesis
    by (auto simp: new_web_thread_def threads_ok_def acquire_lock_def release_lock_def get_globals_def)
next
  case (StopThread i)
  moreover from this assms have "thread_runners g i \<noteq> None"
    by (metis thread_event_allowed.simps(2) threads_ok_def web_thread_state.distinct(1))
  ultimately show ?thesis using assms
    by (auto simp: destroy_web_thread_def threads_ok_def acquire_lock_def release_lock_def get_globals_def)
qed

interpretation threads: total_machine thread_step thread_event_allowed threads_ok
proof unfold_locales
  show "threads_ok t" if "threads_ok s" "thread_event_allowed s c" "thread_step s c = Some t" for s c t
    using thread_step_ok [OF that(1,2)] that(3) by auto
  show "\<exists>t. thread_step s c = Some t" if "threads_ok s" "thread_event_allowed s c" for s c
    using thread_step_ok [OF that] by auto
qed

lemma new_threads_ok: "threads_ok new_thread_globals"
  by (simp add: threads_ok_def new_thread_globals_def)

section \<open>Properties\<close>

text \<open>
  C38. Whatever threads were started and stopped and whoever posts, posting a task ends without
  a deadlock or a failed check and with the lock free, tells the truth about whether the target
  accepts tasks, and hands the task to the task runner of a target that is running, behind the
  tasks posted before it, and to nobody otherwise.
\<close>

theorem posting_reaches_running_thread:
  assumes "legal thread_step thread_event_allowed new_thread_globals es g" and "i \<noteq> ID_COUNT"
  shows "\<exists>g' accepted. post_task_helper cur g i task delay nestable = Some (g', accepted)
    \<and> \<not> globals_lock g'
    \<and> accepted = (thread_states g i = RUNNING)
    \<and> (if accepted
       then \<exists>r. thread_runners g i = Some r \<and> posted g' = posted g @
              [\<lparr>posted_to = r, posted_what = task, posted_delay = delay, posted_nestable = nestable\<rparr>]
       else posted g' = posted g)
    \<and> thread_states g' = thread_states g \<and> thread_runners g' = thread_runners g"
proof -
  have ok: "threads_ok g" by (rule threads.legal_inv [OF assms(1) new_threads_ok])
  moreover have "\<exists>r. thread_runners g i = Some r" if "thread_states g i = RUNNING"
    using ok that by (metis not_None_eq threads_ok_def web_thread_state.distinct(1))
  ultimately show ?thesis
    using assms(2) by (auto simp: post_task_result threads_ok_def)
qed

theorem posting_reaches_running_thread_witness:
  "\<exists>g g'. run thread_step new_thread_globals [StartThread 0 UI 0, StartThread 0 IO 1] = Some g
    \<and> post_task_helper 0 g IO (UserTask 5) 0 True = Some (g', True)
    \<and> map posted_to (posted g') = [1]"
proof -
  have "case run_checked thread_step thread_event_allowed new_thread_globals
      [StartThread 0 UI 0, StartThread 0 IO 1] of None \<Rightarrow> False
    | Some g \<Rightarrow> thread_states g IO = RUNNING \<and> thread_runners g IO = Some 1 \<and> posted g = []"
    by code_simp
  then obtain g where g: "legal thread_step thread_event_allowed new_thread_globals
      [StartThread 0 UI 0, StartThread 0 IO 1] g"
    "thread_states g IO = RUNNING \<and> thread_runners g IO = Some 1 \<and> posted g = []"
    by (rule run_checked_witness)
  have "IO \<noteq> ID_COUNT" by simp
  from posting_reaches_running_thread [OF g(1) this, of 0 "UserTask 5" 0 True] g(2) legal_run [OF g(1)]
  show ?thesis by auto
qed

text \<open>
  The IO thread from its start to its end, run on its own physical thread: registering,
  completing the initialization and cleaning up succeed, the delegate is initialized once and
  cleaned up once, after the URL fetchers are cancelled; afterwards the identifier is shut down
  and nothing can be posted to it, but its task runner is kept, so the code that still runs on
  that thread is told that it is on the IO thread.
\<close>

theorem io_thread_lifecycle:
  assumes "threads_ok g" and "thread_states g IO = UNINITIALIZED" and "io_thread_delegate g = Some d"
  shows "\<exists>g1 t1 g2 t2 g3 t3.
     register_as_web_thread cur g ((new_web_sub_thread IO p)\<lparr>sub_running := True\<rparr>) = Some (g1, t1)
   \<and> complete_initialization_on_web_thread p g1 t1 = Some (g2, t2)
   \<and> sub_thread_clean_up p g2 t2 = Some (g3, t3)
   \<and> thread_calls g3 = thread_calls g @ [DelegateInit d, CancelAllURLFetchers, DelegateCleanUp d]
   \<and> thread_states g3 IO = SHUTDOWN \<and> \<not> sub_web_thread t3 \<and> threads_ok g3
   \<and> (\<forall>x task delay nestable. \<exists>g4.
        post_task_helper x g3 IO task delay nestable = Some (g4, False) \<and> posted g4 = posted g3)
   \<and> currently_on p g3 IO = Some (g3, True) \<and> is_thread_initialized g3 IO = Some (g3, False)"
proof -
  note defs = acquire_lock_def release_lock_def get_globals_def thread_call_made_def Let_def
  define t where "t = (new_web_sub_thread IO p)\<lparr>sub_running := True\<rparr>"
  define g1 where "g1 = g\<lparr>globals_created := True, thread_states := (thread_states g)(IO := RUNNING),
    thread_runners := (thread_runners g)(IO := Some p),
    posted := posted g @ [\<lparr>posted_to = p, posted_what = CompleteInitializationOnWebThread, posted_delay = 0,
      posted_nestable = True\<rparr>]\<rparr>"
  define g2 where "g2 = g1\<lparr>thread_calls := thread_calls g @ [DelegateInit d]\<rparr>"
  define g3 where "g3 = g2\<lparr>thread_states := (thread_states g)(IO := SHUTDOWN),
    thread_calls := thread_calls g @ [DelegateInit d, CancelAllURLFetchers, DelegateCleanUp d]\<rparr>"
  define t1 where "t1 = t\<lparr>sub_web_thread := True\<rparr>"
  define t2 where "t2 = t1\<lparr>sub_checker := Some p\<rparr>"
  have unlocked: "globals_lock g = False" and none: "thread_runners g IO = None"
    using assms(1,2) by (simp_all add: threads_ok_def)
  have s1: "register_as_web_thread cur g t = Some (g1, t1)"
    using assms(2) unlocked none
    by (cases g) (simp add: register_as_web_thread_def new_web_thread_def defs g1_def t1_def t_def
        new_web_sub_thread_def)
  have s2: "complete_initialization_on_web_thread p g1 t1 = Some (g2, t2)"
    using assms(3) by (simp add: complete_initialization_on_web_thread_def called_on_valid_thread_def defs
        g1_def g2_def t1_def t2_def t_def new_web_sub_thread_def)
  have s3: "sub_thread_clean_up p g2 t2 = Some (g3, t2\<lparr>sub_web_thread := False\<rparr>)"
    using assms(3) unlocked
    by (cases g) (simp add: sub_thread_clean_up_def io_thread_clean_up_def currently_on_def destroy_web_thread_def
        called_on_valid_thread_def defs g1_def g2_def g3_def t1_def t2_def t_def new_web_sub_thread_def)
  have ok: "threads_ok g3" using assms(1) by (auto simp: threads_ok_def g1_def g2_def g3_def)
  have down: "thread_states g3 IO = SHUTDOWN" "thread_runners g3 IO = Some p" "globals_created g3"
    "globals_lock g3 = False"
    using unlocked by (simp_all add: g1_def g2_def g3_def)
  have post: "\<exists>g4. post_task_helper x g3 IO task delay nestable = Some (g4, False) \<and> posted g4 = posted g3"
    for x task delay nestable
    using post_task_result [OF ok, of IO] down by simp
  have asked: "currently_on p g3 IO = Some (g3, True)" "is_thread_initialized g3 IO = Some (g3, False)"
    using down by (cases g3, simp add: currently_on_def is_thread_initialized_def defs)+
  have "thread_calls g3 = thread_calls g @ [DelegateInit d, CancelAllURLFetchers, DelegateCleanUp d]"
    by (simp add: g3_def)
  with s1 s2 s3 ok down(1) post asked show ?thesis
    unfolding t_def [symmetric]
    by - (rule exI [of _ g1], rule exI [of _ t1], rule exI [of _ g2], rule exI [of _ t2],
        rule exI [of _ g3], rule exI [of _ "t2\<lparr>sub_web_thread := False\<rparr>"], simp)
qed

theorem io_thread_lifecycle_witness:
  "\<exists>g1 t1 g2 t2 g3 t3.
     register_as_web_thread 0 (new_thread_globals\<lparr>io_thread_delegate := Some 9\<rparr>)
       ((new_web_sub_thread IO 1)\<lparr>sub_running := True\<rparr>) = Some (g1, t1)
   \<and> complete_initialization_on_web_thread 1 g1 t1 = Some (g2, t2)
   \<and> sub_thread_clean_up 1 g2 t2 = Some (g3, t3)
   \<and> thread_calls g3 = [DelegateInit 9, CancelAllURLFetchers, DelegateCleanUp 9]"
proof -
  have g: "threads_ok (new_thread_globals\<lparr>io_thread_delegate := Some 9\<rparr>)"
    "thread_states (new_thread_globals\<lparr>io_thread_delegate := Some 9\<rparr>) IO = UNINITIALIZED"
    "io_thread_delegate (new_thread_globals\<lparr>io_thread_delegate := Some 9\<rparr>) = Some 9"
    by (simp_all add: threads_ok_def new_thread_globals_def)
  show ?thesis
    using io_thread_lifecycle [OF g, of 0 1]
    by (elim exE conjE) (simp add: new_thread_globals_def)
qed

end
