(* ===== verification/UrlDataFacts.thy ===== *)
theory UrlDataFacts
  imports UrlData WebThreadsFacts "HOL-Library.Multiset"
begin

text \<open>
  The data sources never meet a failed check, are deleted once, on the UI thread and only when
  nobody refers to them, whatever the threads, the clients and the network layer do in whatever order.
\<close>

section \<open>Threads and the queue\<close>

definition threads_good :: "thread_globals \<Rightarrow> bool" where
  "threads_good g \<longleftrightarrow> threads_ok g \<and> task_executor g
     \<and> thread_runners g UI \<noteq> None \<and> thread_runners g IO \<noteq> None"

definition runner :: "url_data \<Rightarrow> web_thread_id \<Rightarrow> nat" where
  "runner s i = the (thread_runners (url_threads s) i)"

definition accepts :: "url_data \<Rightarrow> web_thread_id \<Rightarrow> bool" where
  "accepts s i \<longleftrightarrow> thread_states (url_threads s) i = RUNNING"

definition task_entry :: "url_callback list \<Rightarrow> posted_task \<Rightarrow> nat \<times> url_callback" where
  "task_entry cs t =
     (posted_to t, case posted_what t of UserTask n \<Rightarrow> cs ! n | CompleteInitializationOnWebThread \<Rightarrow> DeleteDataSources)"

text \<open>The callbacks that are posted and not yet run, with the thread each waits for.\<close>

definition queue :: "url_data \<Rightarrow> (nat \<times> url_callback) list" where
  "queue s = map (task_entry (url_callbacks s)) (posted (url_threads s))"

definition posted_wf :: "url_data \<Rightarrow> bool" where
  "posted_wf s \<longleftrightarrow> (\<forall>t\<in>set (posted (url_threads s)). \<exists>n. posted_what t = UserTask n \<and> n < length (url_callbacks s))"

lemma good_created: "threads_good g \<Longrightarrow> globals_created g"
  unfolding threads_good_def threads_ok_def by blast

lemma good_unlocked: "threads_good g \<Longrightarrow> \<not> globals_lock g"
  by (simp add: threads_good_def threads_ok_def)

lemma good_currently_on:
  assumes "threads_good g" and "i \<noteq> ID_COUNT"
  shows "currently_on cur g i = Some (g, thread_runners g i = Some cur)"
proof -
  have "g\<lparr>globals_created := True\<rparr> = g" using good_created [OF assms(1)] by simp
  moreover from good_unlocked [OF assms(1)] have "g\<lparr>globals_lock := False\<rparr> = g" by simp
  ultimately show ?thesis
    using assms(2) good_unlocked [OF assms(1)]
    by (simp add: currently_on_def get_globals_def acquire_lock_def release_lock_def)
qed

lemma checked_on: "threads_good (url_threads s) \<Longrightarrow> thread_runners (url_threads s) i = Some cur \<Longrightarrow>
   i \<noteq> ID_COUNT \<Longrightarrow> dcheck_currently_on cur s i = Some s"
  by (simp add: dcheck_currently_on_def good_currently_on)

definition post_to_runner :: "bool \<Rightarrow> web_thread_id \<Rightarrow> thread_task \<Rightarrow> thread_globals \<Rightarrow> thread_globals" where
  "post_to_runner nestable i task g =
     (if thread_states g i = RUNNING
      then g\<lparr>posted := posted g @ [\<lparr>posted_to = the (thread_runners g i), posted_what = task,
             posted_delay = 0, posted_nestable = nestable\<rparr>]\<rparr> else g)"

lemma good_post:
  assumes "threads_good g" and "i \<noteq> ID_COUNT"
  shows "post_task_helper cur g i task 0 nestable = Some (post_to_runner nestable i task g, thread_states g i = RUNNING)"
proof -
  have "globals_created g" by (rule good_created [OF assms(1)])
  then have *: "g\<lparr>globals_created := True, posted := x\<rparr> = g\<lparr>posted := x\<rparr>" for x
    by (cases g) simp
  have "threads_ok g" using assms(1) by (simp add: threads_good_def)
  from post_task_result [OF this assms(2), of cur task 0 nestable] show ?thesis
    by (simp add: post_to_runner_def *)
qed

lemma good_runner_post:
  assumes "threads_good g" and "i \<noteq> ID_COUNT"
  shows "(if nestable then runner_post_delayed_task else runner_post_non_nestable_delayed_task) cur g i task 0
    = Some (post_to_runner nestable i task g, thread_states g i = RUNNING)"
  using assms
  by (auto simp: runner_post_delayed_task_def runner_post_non_nestable_delayed_task_def threads_good_def
      executor_post_delayed_task_def thread_traits_def get_web_thread_identifier_def
      good_post [unfolded threads_good_def])

lemma post_to_runner_simps [simp]:
  "thread_runners (post_to_runner n i task g) = thread_runners g"
  "thread_states (post_to_runner n i task g) = thread_states g"
  "threads_good (post_to_runner n i task g) = threads_good g"
  by (simp_all add: post_to_runner_def threads_good_def threads_ok_def)

lemma hand_over_result:
  assumes "threads_good (url_threads s)" and "i \<noteq> ID_COUNT"
  shows "hand_over cur s i c nestable =
    Some (s\<lparr>url_threads := post_to_runner nestable i (UserTask (length (url_callbacks s))) (url_threads s),
            url_callbacks := url_callbacks s @ [c]\<rparr>, accepts s i)"
  using assms good_runner_post [OF assms, of nestable cur]
  by (simp add: hand_over_def accepts_def)

lemma task_entry_append:
  "posted_wf s \<Longrightarrow> t \<in> set (posted (url_threads s)) \<Longrightarrow>
   task_entry (url_callbacks s @ [c]) t = task_entry (url_callbacks s) t"
  by (auto simp: posted_wf_def task_entry_def nth_append)

lemma queue_hand_over:
  "posted_wf s \<Longrightarrow>
   queue (s\<lparr>url_threads := post_to_runner nestable i (UserTask (length (url_callbacks s))) (url_threads s),
            url_callbacks := url_callbacks s @ [c]\<rparr>)
   = queue s @ (if accepts s i then [(runner s i, c)] else [])"
  by (auto simp: queue_def post_to_runner_def accepts_def runner_def task_entry_append)
     (simp add: task_entry_def)

lemma posted_wf_hand_over:
  "posted_wf s \<Longrightarrow>
   posted_wf (s\<lparr>url_threads := post_to_runner nestable i (UserTask (length (url_callbacks s))) (url_threads s),
            url_callbacks := url_callbacks s @ [c]\<rparr>)"
  by (auto simp: posted_wf_def post_to_runner_def intro: less_SucI)

text \<open>Taking a task takes the first entry of the thread.\<close>

fun take_entry :: "nat \<Rightarrow> (nat \<times> url_callback) list \<Rightarrow> (url_callback \<times> (nat \<times> url_callback) list) option" where
  "take_entry cur [] = None"
| "take_entry cur (e # es) =
     (if fst e = cur then Some (snd e, es)
      else map_option (\<lambda>(c, fs). (c, e # fs)) (take_entry cur es))"

lemma fst_task_entry: "fst (task_entry cs t) = posted_to t"
  by (simp add: task_entry_def)

lemma take_entry_task:
  "take_entry cur (map (task_entry cs) ts) =
     map_option (\<lambda>(t, rest). (snd (task_entry cs t), map (task_entry cs) rest)) (take_task cur ts)"
proof (induction ts)
  case (Cons t ts)
  then show ?case
    by (cases "take_task cur ts") (auto simp: fst_task_entry)
qed simp

lemma take_task_set: "take_task cur ts = Some (t, rest) \<Longrightarrow>
   t \<in> set ts \<and> set rest \<subseteq> set ts \<and> posted_to t = cur"
  by (induction ts arbitrary: rest) (auto split: if_splits)

lemma take_entry_mset: "take_entry cur q = Some (c, rest) \<Longrightarrow> mset q = add_mset (cur, c) (mset rest)"
  by (induction q arbitrary: rest) (auto split: if_splits)

lemma run_next_queue:
  assumes "posted_wf s"
  shows "run_next cur shared s =
    (case take_entry cur (queue s) of
       None \<Rightarrow> Some s
     | Some (c, rest) \<Rightarrow>
         Option.bind (run_callback cur shared (s\<lparr>url_threads := (url_threads s)\<lparr>posted := snd (the (take_task cur (posted (url_threads s))))\<rparr>\<rparr>) c)
           (release_bound cur c))"
proof (cases "take_task cur (posted (url_threads s))")
  case None
  then show ?thesis by (simp add: run_next_def queue_def take_entry_task)
next
  case (Some tr)
  obtain t rest where tr: "tr = (t, rest)" by (cases tr)
  have "t \<in> set (posted (url_threads s))" using take_task_set Some tr by fastforce
  then obtain n where "posted_what t = UserTask n" "n < length (url_callbacks s)"
    using assms by (auto simp: posted_wf_def)
  with Some tr show ?thesis
    by (simp add: run_next_def queue_def take_entry_task task_entry_def)
qed

section \<open>References and deletions\<close>

definition bound_list :: "url_callback \<Rightarrow> nat list" where
  "bound_list c = (case bound_source c of None \<Rightarrow> [] | Some x \<Rightarrow> [x])"

definition job_list :: "url_job option \<Rightarrow> nat list" where
  "job_list j = (case j of None \<Rightarrow> [] | Some j \<Rightarrow> (case job_source j of None \<Rightarrow> [] | Some x \<Rightarrow> [x]))"

text \<open>Who holds references: the map of the backend, the posted callbacks, the jobs and the clients.\<close>

definition holders :: "url_data \<Rightarrow> nat multiset" where
  "holders s = mset (map snd (data_sources s)) + mset (concat (map (bound_list \<circ> snd) (queue s)))
     + mset (concat (map job_list (url_jobs s))) + mset (map fst (held_callbacks s))"

definition refs :: "url_data \<Rightarrow> nat \<Rightarrow> nat" where
  "refs s x = (case url_objects s x of None \<Rightarrow> 0 | Some d \<Rightarrow> ds_refs d)"

definition refs_ok :: "nat multiset \<Rightarrow> url_data \<Rightarrow> bool" where
  "refs_ok X s \<longleftrightarrow> (\<forall>x. count (holders s + X) x = refs s x)"

definition scheduled :: "url_data \<Rightarrow> nat list" where
  "scheduled s = (case url_data_sources s of None \<Rightarrow> [] | Some sources \<Rightarrow> sources)"

definition deletions_ok :: "url_data \<Rightarrow> bool" where
  "deletions_ok s \<longleftrightarrow> distinct (scheduled s)
     \<and> (\<forall>x. x \<in> set (scheduled s) \<longleftrightarrow> (\<exists>d. url_objects s x = Some d \<and> ds_refs d = 0))"

definition history_ok :: "url_data \<Rightarrow> bool" where
  "history_ok s \<longleftrightarrow> distinct (map snd (deleted_sources s))
     \<and> (\<forall>x. x \<in> snd ` set (deleted_sources s) \<longleftrightarrow> x < next_source s \<and> url_objects s x = None)
     \<and> (\<forall>x. url_objects s x \<noteq> None \<longrightarrow> x < next_source s)
     \<and> (\<forall>t\<in>fst ` set (deleted_sources s). thread_runners (url_threads s) UI = Some t)"

text \<open>A task that will delete what waits is always on its way, as long as the UI thread accepts tasks.\<close>

definition wake :: "url_data \<Rightarrow> bool" where
  "wake s \<longleftrightarrow> (scheduled s \<noteq> [] \<and> accepts s UI \<longrightarrow> (runner s UI, DeleteDataSources) \<in> set (queue s))"

definition core :: "nat multiset \<Rightarrow> url_data \<Rightarrow> bool" where
  "core X s \<longleftrightarrow> threads_good (url_threads s) \<and> posted_wf s \<and> refs_ok X s \<and> deletions_ok s \<and> history_ok s"

definition same_source :: "data_source \<Rightarrow> data_source \<Rightarrow> bool" where
  "same_source d e \<longleftrightarrow> e\<lparr>ds_refs := ds_refs d\<rparr> = d"

text \<open>What the operations on references leave alone; \<open>C\<close> are the callbacks they may post.\<close>

definition same_layout :: "url_data \<Rightarrow> url_data \<Rightarrow> bool" where
  "same_layout s t \<longleftrightarrow> data_sources t = data_sources s \<and> pending_requests t = pending_requests s
     \<and> next_request_id t = next_request_id s \<and> url_jobs t = url_jobs s
     \<and> held_callbacks t = held_callbacks s \<and> browser_state_alive t = browser_state_alive s
     \<and> backend_alive t = backend_alive s \<and> next_source t = next_source s
     \<and> thread_runners (url_threads t) = thread_runners (url_threads s)
     \<and> thread_states (url_threads t) = thread_states (url_threads s)"

definition quiet :: "(nat \<times> url_callback) set \<Rightarrow> url_data \<Rightarrow> url_data \<Rightarrow> bool" where
  "quiet C s t \<longleftrightarrow> same_layout s t
     \<and> (\<forall>x e. url_objects t x = Some e \<longrightarrow> (\<exists>d. url_objects s x = Some d \<and> same_source d e))
     \<and> (\<exists>q. queue t = queue s @ q \<and> set q \<subseteq> C \<union> {(runner s UI, DeleteDataSources)})
     \<and> set (scheduled s) \<subseteq> set (scheduled t) \<union> snd ` set (deleted_sources t)
     \<and> set (deleted_sources s) \<subseteq> set (deleted_sources t)"

lemma same_source_refl [simp]: "same_source d d"
  by (simp add: same_source_def)

lemma same_source_refs [simp]: "same_source d (d\<lparr>ds_refs := n\<rparr>)"
  by (simp add: same_source_def)

lemma same_source_trans: "same_source d e \<Longrightarrow> same_source e f \<Longrightarrow> same_source d f"
  unfolding same_source_def by (cases d, cases e, cases f) simp

lemma same_sourceD: "same_source d e \<Longrightarrow> ds_client e = ds_client d \<and> source_name e = source_name d
   \<and> ds_backend e = ds_backend d \<and> ds_replacements e = ds_replacements d"
  unfolding same_source_def by (cases d, cases e) simp

lemma quiet_refl [simp]: "quiet C s s"
  by (auto simp: quiet_def same_layout_def)

lemma quiet_trans:
  assumes "quiet C s t" and "quiet C t u"
  shows "quiet C s u"
proof -
  have run: "runner t UI = runner s UI"
    using assms(1) by (simp add: quiet_def same_layout_def runner_def)
  have lay: "same_layout s u"
    using assms by (simp add: quiet_def same_layout_def)
  have objs: "\<exists>d. url_objects s x = Some d \<and> same_source d e" if "url_objects u x = Some e" for x e
    using assms that unfolding quiet_def by (meson same_source_trans)
  obtain q1 where q1: "queue t = queue s @ q1" "set q1 \<subseteq> C \<union> {(runner s UI, DeleteDataSources)}"
    using assms(1) by (auto simp: quiet_def)
  obtain q2 where q2: "queue u = queue t @ q2" "set q2 \<subseteq> C \<union> {(runner t UI, DeleteDataSources)}"
    using assms(2) by (auto simp: quiet_def)
  have "queue u = queue s @ (q1 @ q2) \<and> set (q1 @ q2) \<subseteq> C \<union> {(runner s UI, DeleteDataSources)}"
    using q1 q2 run by auto
  moreover have "set (deleted_sources s) \<subseteq> set (deleted_sources t)" "set (deleted_sources t) \<subseteq> set (deleted_sources u)"
    "set (scheduled s) \<subseteq> set (scheduled t) \<union> snd ` set (deleted_sources t)"
    "set (scheduled t) \<subseteq> set (scheduled u) \<union> snd ` set (deleted_sources u)"
    using assms by (simp_all only: quiet_def)
  then have "set (scheduled s) \<subseteq> set (scheduled u) \<union> snd ` set (deleted_sources u)"
    "set (deleted_sources s) \<subseteq> set (deleted_sources u)" by blast+
  ultimately show ?thesis using lay objs unfolding quiet_def by blast
qed

lemma quiet_weaken: "quiet C s t \<Longrightarrow> C \<subseteq> D \<Longrightarrow> quiet D s t"
  unfolding quiet_def by blast

lemma quiet_object: "quiet C s t \<Longrightarrow> url_objects t x = Some e \<Longrightarrow>
   \<exists>d. url_objects s x = Some d \<and> same_source d e"
  unfolding quiet_def by blast

lemma quiet_layout: "quiet C s t \<Longrightarrow> same_layout s t"
  by (simp add: quiet_def)

lemma same_layout_threads: "same_layout s t \<Longrightarrow> runner t i = runner s i \<and> accepts t i = accepts s i"
  by (simp add: same_layout_def runner_def accepts_def)

lemma scheduled_iff: "is_scheduled_for_deletion s x \<longleftrightarrow> x \<in> set (scheduled s)"
  by (simp add: is_scheduled_for_deletion_def scheduled_def split: option.splits)

lemma refs_pos_alive: "refs s x > 0 \<Longrightarrow> \<exists>d. url_objects s x = Some d \<and> ds_refs d > 0"
  by (auto simp: refs_def split: option.splits)

lemma held_refs: "core X s \<Longrightarrow> x \<in># holders s + X \<Longrightarrow> refs s x > 0"
  unfolding core_def refs_ok_def by (metis count_greater_zero_iff)

lemma refs_not_scheduled: "core X s \<Longrightarrow> refs s x > 0 \<Longrightarrow> x \<notin> set (scheduled s)"
  unfolding core_def deletions_ok_def refs_def by (force split: option.splits)

lemma hand_over_ok:
  assumes "core (mset (bound_list c) + X) s" and "i \<noteq> ID_COUNT"
  shows "\<exists>t. hand_over cur s i c n = Some (t, accepts s i)
    \<and> core (if accepts s i then X else mset (bound_list c) + X) t
    \<and> quiet {(runner s i, c)} s t \<and> queue t = queue s @ (if accepts s i then [(runner s i, c)] else [])
    \<and> scheduled t = scheduled s \<and> url_objects t = url_objects s"
proof -
  let ?t = "s\<lparr>url_threads := post_to_runner n i (UserTask (length (url_callbacks s))) (url_threads s),
              url_callbacks := url_callbacks s @ [c]\<rparr>"
  have good: "threads_good (url_threads s)" and wf: "posted_wf s" using assms(1) by (simp_all add: core_def)
  have q: "queue ?t = queue s @ (if accepts s i then [(runner s i, c)] else [])"
    by (rule queue_hand_over [OF wf])
  have sch: "scheduled ?t = scheduled s" by (simp add: scheduled_def)
  have "core (if accepts s i then X else mset (bound_list c) + X) ?t"
    using assms(1) good posted_wf_hand_over [OF wf] sch
    unfolding core_def refs_ok_def deletions_ok_def history_ok_def holders_def q
    by (simp add: refs_def ac_simps)
  moreover have "quiet {(runner s i, c)} s ?t"
    unfolding quiet_def q sch by (auto simp: same_layout_def)
  ultimately show ?thesis
    using hand_over_result [OF good assms(2), of cur c n] q sch by auto
qed

lemma add_ref_ok:
  assumes "core X s" and "refs s x > 0"
  shows "\<exists>t. add_ref x s = Some t \<and> core (add_mset x X) t \<and> quiet {} s t \<and> queue t = queue s
    \<and> scheduled t = scheduled s \<and> (\<forall>y. refs t y \<ge> refs s y)"
proof -
  obtain d where d: "url_objects s x = Some d" "ds_refs d > 0" using refs_pos_alive [OF assms(2)] by blast
  let ?t = "s\<lparr>url_objects := (url_objects s)(x \<mapsto> d\<lparr>ds_refs := ds_refs d + 1\<rparr>)\<rparr>"
  have same: "queue ?t = queue s" "scheduled ?t = scheduled s" "holders ?t = holders s"
    by (simp_all add: queue_def scheduled_def holders_def)
  have "add_ref x s = Some ?t"
    using refs_not_scheduled [OF assms] d by (simp add: add_ref_def scheduled_iff update_source_def)
  moreover have "core (add_mset x X) ?t"
    using assms(1) d same unfolding core_def refs_ok_def deletions_ok_def history_ok_def posted_wf_def
    by (auto simp: refs_def)
  moreover have "quiet {} s ?t" using d same by (auto simp: quiet_def same_layout_def)
  ultimately show ?thesis using same d by (auto simp: refs_def)
qed

text \<open>The source \<open>x\<close> has just lost its last reference.\<close>

definition unreferenced :: "nat \<Rightarrow> nat multiset \<Rightarrow> url_data \<Rightarrow> bool" where
  "unreferenced x X s \<longleftrightarrow> threads_good (url_threads s) \<and> posted_wf s \<and> refs_ok X s \<and> history_ok s
     \<and> (\<exists>d. url_objects s x = Some d \<and> ds_refs d = 0) \<and> distinct (scheduled s)
     \<and> (\<forall>y. y \<in> set (scheduled s) \<longleftrightarrow> y \<noteq> x \<and> (\<exists>d. url_objects s y = Some d \<and> ds_refs d = 0))"

lemma destroy_unreferenced:
  assumes "unreferenced x X s" and "thread_runners (url_threads s) UI = Some cur"
  shows "\<exists>t. destroy_source cur x s = Some t \<and> core X t \<and> quiet {} s t \<and> queue t = queue s
    \<and> scheduled t = scheduled s"
proof -
  let ?t = "s\<lparr>url_objects := (url_objects s)(x := None), deleted_sources := deleted_sources s @ [(cur, x)]\<rparr>"
  obtain d where d: "url_objects s x = Some d" "ds_refs d = 0" using assms(1) by (auto simp: unreferenced_def)
  have same: "queue ?t = queue s" "scheduled ?t = scheduled s" "holders ?t = holders s"
    by (simp_all add: queue_def scheduled_def holders_def)
  have refs: "refs ?t = refs s" using d by (auto simp: refs_def fun_eq_iff)
  have "history_ok ?t"
    using assms d unfolding unreferenced_def history_ok_def
    by (auto simp: image_iff)
  moreover have "deletions_ok ?t"
    using assms(1) d unfolding unreferenced_def deletions_ok_def same by auto
  ultimately have "core X ?t"
    using assms(1) same refs by (simp add: core_def unreferenced_def refs_ok_def posted_wf_def)
  moreover have "quiet {} s ?t" using same by (auto simp: quiet_def same_layout_def)
  ultimately show ?thesis using same d by (simp add: destroy_source_def)
qed

lemma schedule_unreferenced:
  assumes "unreferenced x X s"
  shows "core X (s\<lparr>url_data_sources := Some (scheduled s @ [x])\<rparr>)"
    and "quiet {} s (s\<lparr>url_data_sources := Some (scheduled s @ [x])\<rparr>)"
proof -
  let ?t = "s\<lparr>url_data_sources := Some (scheduled s @ [x])\<rparr>"
  have same: "queue ?t = queue s" "scheduled ?t = scheduled s @ [x]" "holders ?t = holders s" "refs ?t = refs s"
    by (simp_all add: queue_def scheduled_def holders_def refs_def fun_eq_iff)
  have "deletions_ok ?t"
    using assms unfolding unreferenced_def deletions_ok_def same by auto
  then show "core X ?t"
    using assms same by (simp add: core_def unreferenced_def refs_ok_def posted_wf_def history_ok_def)
  show "quiet {} s ?t" using same by (auto simp: quiet_def same_layout_def)
qed

lemma delete_unreferenced:
  assumes "unreferenced x X s" and "wake s"
  shows "\<exists>t. delete_data_source cur s x = Some t \<and> core X t \<and> quiet {} s t \<and> wake t"
proof -
  have good: "threads_good (url_threads s)" using assms(1) by (simp add: unreferenced_def)
  have on: "currently_on cur (url_threads s) UI = Some (url_threads s, thread_runners (url_threads s) UI = Some cur)"
    by (rule good_currently_on [OF good]) simp
  show ?thesis
  proof (cases "thread_runners (url_threads s) UI = Some cur")
    case True
    from destroy_unreferenced [OF assms(1) True] obtain t where t:
      "destroy_source cur x s = Some t" "core X t" "quiet {} s t" "queue t = queue s" "scheduled t = scheduled s"
      by blast
    have "wake t" using assms(2) t same_layout_threads [OF quiet_layout [OF t(3)]] by (simp add: wake_def)
    with t True show ?thesis by (simp add: delete_data_source_def on)
  next
    case False
    let ?s = "s\<lparr>url_data_sources := Some (scheduled s @ [x])\<rparr>"
    note sched = schedule_unreferenced [OF assms(1)]
    have sch: "scheduled ?s = scheduled s @ [x]" by (simp add: scheduled_def)
    show ?thesis
    proof (cases "scheduled s = []")
      case True
      from hand_over_ok [of DeleteDataSources X ?s UI cur True] sched(1) obtain t where t:
        "hand_over cur ?s UI DeleteDataSources True = Some (t, accepts ?s UI)" "core X t"
        "quiet {(runner ?s UI, DeleteDataSources)} ?s t"
        "queue t = queue ?s @ (if accepts ?s UI then [(runner ?s UI, DeleteDataSources)] else [])"
        "scheduled t = scheduled ?s"
        by (auto simp: bound_list_def split: if_splits)
      have "quiet {} ?s t" using t(3) by (simp add: quiet_def)
      moreover have "wake t" using t(4) same_layout_threads [OF quiet_layout [OF t(3)]] by (simp add: wake_def)
      ultimately show ?thesis
        using t True False sched(2) quiet_trans [of "{}" s ?s t]
        by (auto simp: delete_data_source_def on scheduled_def split: option.splits)
    next
      case nonempty: False
      have "wake ?s"
        using assms(2) nonempty by (auto simp: wake_def queue_def runner_def accepts_def)
      with sched nonempty False show ?thesis
        by (auto simp: delete_data_source_def on scheduled_def split: option.splits)
    qed
  qed
qed

lemma release_ok:
  assumes "core (add_mset x X) s" and "wake s"
  shows "\<exists>t. release cur x s = Some t \<and> core X t \<and> quiet {} s t \<and> wake t"
proof -
  have pos: "refs s x > 0" by (rule held_refs [OF assms(1)]) simp
  obtain d where d: "url_objects s x = Some d" "ds_refs d > 0" using refs_pos_alive [OF pos] by blast
  let ?s = "s\<lparr>url_objects := (url_objects s)(x \<mapsto> d\<lparr>ds_refs := ds_refs d - 1\<rparr>)\<rparr>"
  have same: "queue ?s = queue s" "scheduled ?s = scheduled s" "holders ?s = holders s"
    by (simp_all add: queue_def scheduled_def holders_def)
  have quiet: "quiet {} s ?s" using d same by (auto simp: quiet_def same_layout_def)
  have wake: "wake ?s" using assms(2) same by (simp add: wake_def runner_def accepts_def)
  have "count (holders s + X) y = refs ?s y" for y
  proof (cases "y = x")
    case True
    have "count (holders s + add_mset x X) x = refs s x" using assms(1) unfolding core_def refs_ok_def by blast
    with d True show ?thesis by (simp add: refs_def)
  next
    case False
    have "count (holders s + add_mset x X) y = refs s y" using assms(1) unfolding core_def refs_ok_def by blast
    with False show ?thesis by (simp add: refs_def)
  qed
  then have refs: "refs_ok X ?s" unfolding refs_ok_def same by blast
  have not_sch: "x \<notin> set (scheduled s)" by (rule refs_not_scheduled [OF assms(1) pos])
  have hist: "history_ok ?s"
    using assms(1) d unfolding core_def history_ok_def by auto
  show ?thesis
  proof (cases "ds_refs d - 1 = 0")
    case True
    have "unreferenced x X ?s"
      using assms(1) refs hist True not_sch d unfolding core_def unreferenced_def deletions_ok_def same
      by (auto simp: posted_wf_def)
    from delete_unreferenced [OF this wake, of cur] obtain t where
      "delete_data_source cur ?s x = Some t" "core X t" "quiet {} ?s t" "wake t" by blast
    with d True quiet_trans [OF quiet] show ?thesis by (auto simp: release_def destruct_def)
  next
    case False
    have "deletions_ok ?s"
      using assms(1) False not_sch d unfolding core_def deletions_ok_def same by auto
    then have "core X ?s" using assms(1) refs hist by (simp add: core_def posted_wf_def)
    with d False quiet wake show ?thesis by (simp add: release_def)
  qed
qed

lemma wake_quiet: "wake s \<Longrightarrow> quiet C s t \<Longrightarrow> scheduled t = scheduled s \<Longrightarrow> wake t"
  using same_layout_threads [of s t] by (auto simp: wake_def quiet_def)

lemma release_bound_ok:
  assumes "core (mset (bound_list c) + X) s" and "wake s"
  shows "\<exists>t. release_bound cur c s = Some t \<and> core X t \<and> quiet {} s t \<and> wake t"
  using assms release_ok [of _ X s cur]
  by (cases "bound_source c") (auto simp: release_bound_def bound_list_def)

text \<open>Posting a callback that already holds its reference.\<close>

definition post_bound :: "nat \<Rightarrow> url_data \<Rightarrow> web_thread_id \<Rightarrow> url_callback \<Rightarrow> url_data option" where
  "post_bound cur s i c = do {
     (s2, accepted) \<leftarrow> hand_over cur s i c True;
     (if accepted then Some s2 else release_bound cur c s2)
   }"

lemma post_url_callback_bound: "post_url_callback cur s i c =
  Option.bind (case bound_source c of None \<Rightarrow> Some s | Some source \<Rightarrow> add_ref source s) (\<lambda>s1. post_bound cur s1 i c)"
  by (simp add: post_url_callback_def post_bound_def)

lemma post_bound_ok:
  assumes "core (mset (bound_list c) + X) s" and "wake s" and "i \<noteq> ID_COUNT"
  shows "\<exists>t. post_bound cur s i c = Some t \<and> core X t \<and> quiet {(runner s i, c)} s t \<and> wake t"
proof -
  from hand_over_ok [OF assms(1,3), of cur True] obtain u where u:
    "hand_over cur s i c True = Some (u, accepts s i)"
    "core (if accepts s i then X else mset (bound_list c) + X) u"
    "quiet {(runner s i, c)} s u" "scheduled u = scheduled s" by blast
  have w: "wake u" by (rule wake_quiet [OF assms(2) u(3,4)])
  show ?thesis
  proof (cases "accepts s i")
    case True
    with u w show ?thesis by (simp add: post_bound_def)
  next
    case False
    with u(2) have "core (mset (bound_list c) + X) u" by simp
    from release_bound_ok [OF this w, of cur] obtain t where
      "release_bound cur c u = Some t" "core X t" "quiet {} u t" "wake t" by blast
    moreover from this have "quiet {(runner s i, c)} s t"
      using quiet_trans [OF u(3) quiet_weaken [of "{}"]] by simp
    ultimately show ?thesis using False u by (simp add: post_bound_def)
  qed
qed

lemma destroy_sources_ok:
  assumes "threads_good (url_threads s)" and "posted_wf s" and "refs_ok X s" and "history_ok s"
    and "thread_runners (url_threads s) UI = Some cur" and "scheduled s = []"
    and "distinct xs" and "\<And>y. y \<in> set xs \<longleftrightarrow> (\<exists>d. url_objects s y = Some d \<and> ds_refs d = 0)"
  shows "\<exists>t. destroy_sources cur xs s = Some t \<and> core X t \<and> quiet {} s t \<and> queue t = queue s
    \<and> scheduled t = [] \<and> set xs \<subseteq> snd ` set (deleted_sources t)"
  using assms
proof (induction xs arbitrary: s)
  case Nil
  then show ?case by (auto simp: core_def deletions_ok_def)
next
  case (Cons x xs)
  let ?t = "s\<lparr>url_objects := (url_objects s)(x := None), deleted_sources := deleted_sources s @ [(cur, x)]\<rparr>"
  obtain d where d: "url_objects s x = Some d" "ds_refs d = 0" using Cons.prems(8) [of x] by auto
  have same: "queue ?t = queue s" "scheduled ?t = scheduled s" "holders ?t = holders s"
    by (simp_all add: queue_def scheduled_def holders_def)
  have "refs ?t = refs s" using d by (auto simp: refs_def fun_eq_iff)
  then have "refs_ok X ?t" using Cons.prems(3) by (simp add: refs_ok_def same)
  moreover have "history_ok ?t"
    using Cons.prems(4,5) d unfolding history_ok_def by (auto simp: image_iff)
  moreover have "y \<in> set xs \<longleftrightarrow> (\<exists>d. url_objects ?t y = Some d \<and> ds_refs d = 0)" for y
    using Cons.prems(7) Cons.prems(8) [of y] by auto
  ultimately obtain t where t: "destroy_sources cur xs ?t = Some t" "core X t" "quiet {} ?t t"
    "queue t = queue ?t" "scheduled t = []" "set xs \<subseteq> snd ` set (deleted_sources t)"
    using Cons.IH [of ?t] Cons.prems(1,2,5,6,7) same by (auto simp: posted_wf_def)
  have q: "quiet {} s ?t" using same d by (auto simp: quiet_def same_layout_def)
  have "(cur, x) \<in> set (deleted_sources t)" using t(3) unfolding quiet_def by auto
  then have "x \<in> snd ` set (deleted_sources t)" by force
  with t q quiet_trans [OF q t(3)] d same show ?case by (auto simp: destroy_source_def)
qed

lemma delete_data_sources_ok:
  assumes "core X s" and "thread_runners (url_threads s) UI = Some cur"
  shows "\<exists>t. delete_data_sources cur s = Some t \<and> core X t \<and> quiet {} s t \<and> wake t
    \<and> queue t = queue s \<and> set (scheduled s) \<subseteq> snd ` set (deleted_sources t)"
proof -
  have on: "dcheck_currently_on cur s UI = Some s"
    using assms by (intro checked_on) (simp_all add: core_def)
  show ?thesis
  proof (cases "url_data_sources s")
    case None
    with assms on show ?thesis by (auto simp: delete_data_sources_def scheduled_def wake_def)
  next
    case (Some xs)
    let ?s = "s\<lparr>url_data_sources := Some []\<rparr>"
    have same: "queue ?s = queue s" "holders ?s = holders s" "refs ?s = refs s" "scheduled ?s = []"
      by (simp_all add: queue_def holders_def refs_def fun_eq_iff scheduled_def)
    have sch: "scheduled s = xs" using Some by (simp add: scheduled_def)
    obtain t where t: "destroy_sources cur xs ?s = Some t" "core X t" "quiet {} ?s t"
      "queue t = queue ?s" "scheduled t = []" "set xs \<subseteq> snd ` set (deleted_sources t)"
      using destroy_sources_ok [of ?s X cur xs] assms same sch
      by (auto simp: core_def posted_wf_def refs_ok_def history_ok_def deletions_ok_def)
    have "quiet {} s t"
      using t(3,6) sch same unfolding quiet_def same_layout_def by (auto simp: runner_def)
    with t on Some sch same show ?thesis by (auto simp: delete_data_sources_def wake_def)
  qed
qed

section \<open>The backend, the jobs and the queue\<close>

definition backend_ok :: "url_data \<Rightarrow> bool" where
  "backend_ok s \<longleftrightarrow> distinct (map fst (data_sources s))
     \<and> (\<forall>n x. (n, x) \<in> set (data_sources s) \<longrightarrow>
            (\<exists>d. url_objects s x = Some d \<and> source_name d = n \<and> ds_backend d))
     \<and> (\<forall>x d. url_objects s x = Some d \<longrightarrow> ds_backend d \<longrightarrow> (source_name d, x) \<in> set (data_sources s))
     \<and> (\<not> backend_alive s \<longrightarrow> data_sources s = [])"

definition job_ok :: "url_data \<Rightarrow> url_job \<Rightarrow> bool" where
  "job_ok s j \<longleftrightarrow> (job_backend j \<longrightarrow> backend_alive s) \<and> (job_weak_valid j \<longleftrightarrow> JobKilled \<notin> set (job_events j))"

definition jobs_ok :: "url_data \<Rightarrow> bool" where
  "jobs_ok s \<longleftrightarrow> distinct (map fst (pending_requests s)) \<and> distinct (map snd (pending_requests s))
     \<and> (\<forall>r job. (r, job) \<in> set (pending_requests s) \<longrightarrow> r < next_request_id s
            \<and> (\<exists>j. find_job s job = Some j \<and> job_backend j \<and> job_weak_valid j))
     \<and> (\<forall>job j. find_job s job = Some j \<longrightarrow> job_ok s j)
     \<and> (\<not> browser_state_alive s \<longrightarrow> (\<forall>job. find_job s job = None))"

fun home :: "url_callback \<Rightarrow> web_thread_id" where
  "home DeleteDataSources = UI"
| "home DeleteBackend = IO"
| "home (AddDataSourceOnIOThread source) = IO"
| "home (GetMimeTypeOnUI source path job) = UI"
| "home (CallStartRequest source path request_id) = UI"
| "home (MimeTypeAvailable job source mime_type) = IO"
| "home (SendResponseOnIOThread source request_id bytes) = IO"

fun entry_ok :: "url_data \<Rightarrow> nat \<times> url_callback \<Rightarrow> bool" where
  "entry_ok s (t, c) \<longleftrightarrow> t = runner s (home c) \<and> (\<forall>x. c = AddDataSourceOnIOThread x \<longrightarrow> browser_state_alive s)
     \<and> (c = DeleteBackend \<longrightarrow> \<not> browser_state_alive s)"

definition queue_ok :: "url_data \<Rightarrow> bool" where
  "queue_ok s \<longleftrightarrow> (\<forall>e\<in>set (queue s). entry_ok s e)"

definition url_inv :: "nat multiset \<Rightarrow> url_data \<Rightarrow> bool" where
  "url_inv X s \<longleftrightarrow> core X s \<and> wake s \<and> backend_ok s \<and> jobs_ok s \<and> queue_ok s"

text \<open>What every operation does to the queue and to what waits for its deletion.\<close>

definition grows :: "url_data \<Rightarrow> url_data \<Rightarrow> bool" where
  "grows s t \<longleftrightarrow> (\<exists>q. queue t = queue s @ q)
     \<and> set (scheduled s) \<subseteq> set (scheduled t) \<union> snd ` set (deleted_sources t)
     \<and> set (deleted_sources s) \<subseteq> set (deleted_sources t)
     \<and> thread_runners (url_threads t) = thread_runners (url_threads s)
     \<and> thread_states (url_threads t) = thread_states (url_threads s)"

lemma grows_refl [simp]: "grows s s"
  by (simp add: grows_def)

lemma grows_trans:
  assumes "grows s t" and "grows t u"
  shows "grows s u"
proof -
  have "\<exists>q. queue u = queue s @ q" using assms unfolding grows_def by (metis append.assoc)
  moreover have "set (deleted_sources s) \<subseteq> set (deleted_sources t)" "set (deleted_sources t) \<subseteq> set (deleted_sources u)"
    "set (scheduled s) \<subseteq> set (scheduled t) \<union> snd ` set (deleted_sources t)"
    "set (scheduled t) \<subseteq> set (scheduled u) \<union> snd ` set (deleted_sources u)"
    using assms by (simp_all only: grows_def)
  then have "set (scheduled s) \<subseteq> set (scheduled u) \<union> snd ` set (deleted_sources u)"
    "set (deleted_sources s) \<subseteq> set (deleted_sources u)" by blast+
  ultimately show ?thesis using assms unfolding grows_def by simp
qed

lemma quiet_grows: "quiet C s t \<Longrightarrow> grows s t"
  unfolding quiet_def same_layout_def grows_def by blast

lemma backend_ok_quiet:
  assumes "backend_ok s" and "quiet C s t" and "core X t"
  shows "backend_ok t"
proof -
  have lay: "data_sources t = data_sources s" "backend_alive t = backend_alive s"
    using assms(2) by (simp_all add: quiet_def same_layout_def)
  have objs: "\<exists>d. url_objects s x = Some d \<and> same_source d e" if "url_objects t x = Some e" for x e
    using assms(2) that unfolding quiet_def by blast
  have "\<exists>e. url_objects t x = Some e \<and> source_name e = n \<and> ds_backend e" if "(n, x) \<in> set (data_sources s)" for n x
  proof -
    have "x \<in> snd ` set (data_sources t)" using that lay by force
    then have "x \<in># holders t + X" by (simp add: holders_def)
    then obtain e where e: "url_objects t x = Some e"
      using refs_pos_alive held_refs [OF assms(3)] by blast
    from objs [OF e] obtain d where "url_objects s x = Some d" "same_source d e" by blast
    with assms(1) that e show ?thesis unfolding backend_ok_def by (metis option.inject same_sourceD)
  qed
  moreover have "(source_name e, x) \<in> set (data_sources s)" if "url_objects t x = Some e" "ds_backend e" for x e
    using objs [OF that(1)] that(2) assms(1) unfolding backend_ok_def by (metis same_sourceD)
  ultimately show ?thesis using assms(1) unfolding backend_ok_def lay by blast
qed

lemma find_job_layout: "url_jobs t = url_jobs s \<Longrightarrow> find_job t = find_job s"
  by (simp add: find_job_def fun_eq_iff)

lemma jobs_ok_layout:
  assumes "jobs_ok s" and "same_layout s t"
  shows "jobs_ok t"
proof -
  have eqs: "url_jobs t = url_jobs s" "pending_requests t = pending_requests s"
    "next_request_id t = next_request_id s" "backend_alive t = backend_alive s"
    "browser_state_alive t = browser_state_alive s"
    using assms(2) by (simp_all add: same_layout_def)
  note eqs = eqs find_job_layout [OF eqs(1)]
  show ?thesis using assms(1) unfolding jobs_ok_def job_ok_def eqs .
qed

lemma queue_ok_quiet:
  assumes "queue_ok s" and "quiet C s t" and "\<And>e. e \<in> C \<Longrightarrow> entry_ok s e"
  shows "queue_ok t"
proof -
  have lay: "runner t = runner s" "browser_state_alive t = browser_state_alive s"
    using assms(2) by (auto simp: quiet_def same_layout_def runner_def)
  have same: "entry_ok t e = entry_ok s e" for e
    using lay by (cases e) simp
  obtain q where q: "queue t = queue s @ q" "set q \<subseteq> C \<union> {(runner s UI, DeleteDataSources)}"
    using assms(2) by (auto simp: quiet_def)
  have "entry_ok s e" if "e \<in> set q" for e
    using that q(2) assms(3) by (cases "e \<in> C") auto
  with assms(1) q(1) show ?thesis unfolding queue_ok_def same by auto
qed

lemma quiet_inv:
  assumes "url_inv Y s" and "quiet C s t" and "core X t" and "wake t" and "\<And>e. e \<in> C \<Longrightarrow> entry_ok s e"
  shows "url_inv X t"
  using assms backend_ok_quiet [OF _ assms(2,3)] jobs_ok_layout [OF _ quiet_layout [OF assms(2)]]
    queue_ok_quiet [OF _ assms(2,5)]
  by (auto simp: url_inv_def)

definition good_result :: "nat multiset \<Rightarrow> url_data \<Rightarrow> url_data option \<Rightarrow> bool" where
  "good_result X s r \<longleftrightarrow> (\<exists>t. r = Some t \<and> url_inv X t \<and> grows s t)"

lemma good_resultI: "r = Some t \<Longrightarrow> url_inv X t \<Longrightarrow> grows s t \<Longrightarrow> good_result X s r"
  by (auto simp: good_result_def)

lemma good_resultE:
  assumes "good_result X s r"
  obtains t where "r = Some t" "url_inv X t" "grows s t"
  using assms by (auto simp: good_result_def)

lemma good_result_bind:
  assumes "good_result X s r" and "\<And>t. r = Some t \<Longrightarrow> url_inv X t \<Longrightarrow> grows s t \<Longrightarrow> good_result Y t (f t)"
  shows "good_result Y s (Option.bind r f)"
proof -
  obtain t where t: "r = Some t" "url_inv X t" "grows s t" using assms(1) by (rule good_resultE)
  obtain u where "f t = Some u" "url_inv Y u" "grows t u" using assms(2) [OF t] by (rule good_resultE)
  with t grows_trans [OF t(3)] show ?thesis by (auto intro: good_resultI)
qed

lemma inv_threads: "url_inv X s \<Longrightarrow> threads_good (url_threads s)"
  by (simp add: url_inv_def core_def)

lemma inv_checked_on: "url_inv X s \<Longrightarrow> thread_runners (url_threads s) i = Some cur \<Longrightarrow>
   i \<noteq> ID_COUNT \<Longrightarrow> dcheck_currently_on cur s i = Some s"
  by (rule checked_on [OF inv_threads])

lemma inv_held_refs: "url_inv X s \<Longrightarrow> x \<in># holders s + X \<Longrightarrow> refs s x > 0"
  by (rule held_refs [of X]) (simp_all add: url_inv_def)

lemma inv_transient_refs [simp]: "url_inv (add_mset x X) s \<Longrightarrow> refs s x > 0"
  by (rule inv_held_refs [of "add_mset x X"]) simp_all

lemma release_inv: "url_inv (add_mset x X) s \<Longrightarrow> good_result X s (release cur x s)"
  using release_ok [of x X s cur] quiet_inv [of "add_mset x X" s "{}" _ X] quiet_grows
  unfolding good_result_def url_inv_def by fastforce

lemma release_bound_inv: "url_inv (mset (bound_list c) + X) s \<Longrightarrow> good_result X s (release_bound cur c s)"
  using release_inv [of _ X s cur]
  by (cases "bound_source c") (auto simp: release_bound_def bound_list_def intro: good_resultI)

lemma add_ref_inv:
  assumes "url_inv X s" and "refs s x > 0"
  shows "\<exists>t. add_ref x s = Some t \<and> url_inv (add_mset x X) t \<and> quiet {} s t"
proof -
  obtain t where t: "add_ref x s = Some t" "core (add_mset x X) t" "quiet {} s t" "scheduled t = scheduled s"
    using add_ref_ok [of X s x] assms by (auto simp: url_inv_def)
  have "wake t" using assms(1) wake_quiet [OF _ t(3,4)] by (simp add: url_inv_def)
  with t quiet_inv [OF assms(1) t(3,2)] show ?thesis by auto
qed

lemma post_bound_inv:
  assumes "url_inv (mset (bound_list c) + X) s" and "entry_ok s (runner s i, c)" and "i \<noteq> ID_COUNT"
  shows "good_result X s (post_bound cur s i c)"
proof -
  obtain t where t: "post_bound cur s i c = Some t" "core X t" "quiet {(runner s i, c)} s t" "wake t"
    using post_bound_ok [of c X s i cur] assms by (auto simp: url_inv_def)
  then show ?thesis
    using quiet_inv [OF assms(1) t(3,2,4)] assms(2) quiet_grows by (auto intro: good_resultI)
qed

lemma entry_ok_layout: "same_layout s t \<Longrightarrow> entry_ok t e = entry_ok s e"
  by (cases e) (simp add: same_layout_def runner_def)

lemma post_url_callback_quiet:
  assumes "url_inv X s" and "\<And>x. bound_source c = Some x \<Longrightarrow> refs s x > 0"
    and "entry_ok s (runner s i, c)" and "i \<noteq> ID_COUNT"
  shows "\<exists>t. post_url_callback cur s i c = Some t \<and> url_inv X t \<and> quiet {(runner s i, c)} s t"
proof -
  have "\<exists>t. (case bound_source c of None \<Rightarrow> Some s | Some source \<Rightarrow> add_ref source s) = Some t
      \<and> url_inv (mset (bound_list c) + X) t \<and> quiet {} s t"
    using add_ref_inv [OF assms(1)] assms(1,2) by (auto simp: bound_list_def split: option.splits)
  then obtain t where t: "(case bound_source c of None \<Rightarrow> Some s | Some source \<Rightarrow> add_ref source s) = Some t"
    "url_inv (mset (bound_list c) + X) t" "quiet {} s t" by blast
  note lay = quiet_layout [OF t(3)]
  have run: "runner t i = runner s i" using same_layout_threads [OF lay] by simp
  have ok: "entry_ok t (runner t i, c)" using assms(3) entry_ok_layout [OF lay] run by metis
  obtain u where u: "post_bound cur t i c = Some u" "core X u" "quiet {(runner t i, c)} t u" "wake u"
    using post_bound_ok [of c X t i cur] t(2) assms(4) by (auto simp: url_inv_def)
  have "url_inv X u" by (rule quiet_inv [OF t(2) u(3,2,4)]) (use ok in simp)
  moreover have "quiet {(runner s i, c)} s u"
    using quiet_trans [OF quiet_weaken [OF t(3)] u(3)] run by simp
  ultimately show ?thesis using t u by (simp add: post_url_callback_bound)
qed

lemma post_url_callback_inv:
  assumes "url_inv X s" and "\<And>x. bound_source c = Some x \<Longrightarrow> refs s x > 0"
    and "entry_ok s (runner s i, c)" and "i \<noteq> ID_COUNT"
  shows "good_result X s (post_url_callback cur s i c)"
proof -
  obtain t where "post_url_callback cur s i c = Some t" "url_inv X t" "quiet {(runner s i, c)} s t"
    using post_url_callback_quiet [OF assms] by blast
  then show ?thesis by (auto intro: good_resultI quiet_grows)
qed

section \<open>Adding to the backend\<close>

lemma mset_update_known:
  "map_of m k = Some old \<Longrightarrow>
   add_mset old (image_mset snd (mset (AList.update k v m))) = add_mset v (image_mset snd (mset m))"
  by (induction m) (auto split: if_splits simp: add_mset_commute)

lemma mset_map_set_known:
  "map_of m k = Some old \<Longrightarrow>
   add_mset old (image_mset snd (mset (map_set k v m))) = add_mset v (image_mset snd (mset m))"
  using mset_update_known [of m k old v] by (force simp: map_set_def dest: map_of_SomeD)

lemma mset_map_set_new:
  "map_of m k = None \<Longrightarrow> image_mset snd (mset (map_set k v m)) = add_mset v (image_mset snd (mset m))"
  by (simp add: map_set_def map_of_eq_None_iff)

lemma distinct_insort_pair:
  "distinct (map fst m) \<Longrightarrow> fst p \<notin> fst ` set m \<Longrightarrow> distinct (map fst (insort_key fst p m))"
  by (induction m) (auto simp: set_insort_key)

lemma distinct_map_set: "distinct (map fst m) \<Longrightarrow> distinct (map fst (map_set k v m))"
  by (simp add: map_set_def distinct_update distinct_insort_pair)

lemma in_map_set:
  assumes "distinct (map fst m)"
  shows "(n, x) \<in> set (map_set k v m) \<longleftrightarrow> (if n = k then x = v else (n, x) \<in> set m)"
proof (cases "k \<in> fst ` set m")
  case True
  have "map_of (AList.update k v m) n = Some x \<longleftrightarrow> (n, x) \<in> set (AList.update k v m)"
    by (rule map_of_eq_Some_iff) (rule distinct_update [OF assms])
  moreover have "map_of m n = Some x \<longleftrightarrow> (n, x) \<in> set m"
    by (rule map_of_eq_Some_iff [OF assms])
  ultimately show ?thesis using True by (auto simp: map_set_def update_conv')
next
  case False
  then have "(k, x) \<notin> set m" for x by force
  with False show ?thesis by (auto simp: map_set_def set_insort_key)
qed

lemma flag_core:
  assumes "core X s" and "url_objects s x = Some d"
  shows "core X (s\<lparr>url_objects := (url_objects s)(x \<mapsto> d\<lparr>ds_backend := b\<rparr>)\<rparr>)"
proof -
  let ?t = "s\<lparr>url_objects := (url_objects s)(x \<mapsto> d\<lparr>ds_backend := b\<rparr>)\<rparr>"
  have same: "scheduled ?t = scheduled s" "holders ?t = holders s" "refs ?t = refs s"
    using assms(2) by (auto simp: queue_def scheduled_def holders_def refs_def fun_eq_iff)
  have "deletions_ok ?t" using assms unfolding core_def deletions_ok_def same by auto
  moreover have "history_ok ?t" using assms unfolding core_def history_ok_def by auto
  ultimately show ?thesis using assms(1) by (simp add: core_def refs_ok_def posted_wf_def same)
qed

lemma core_data_sources:
  assumes "core X s" and "image_mset snd (mset m) + Y = image_mset snd (mset (data_sources s)) + X"
  shows "core Y (s\<lparr>data_sources := m\<rparr>)"
proof -
  let ?t = "s\<lparr>data_sources := m\<rparr>"
  have same: "scheduled ?t = scheduled s" "queue ?t = queue s" "refs ?t = refs s"
    by (simp_all add: queue_def scheduled_def refs_def fun_eq_iff)
  have "holders ?t + Y = holders s + X"
    using assms(2) by (simp add: holders_def same ac_simps)
  then show ?thesis
    using assms(1) by (simp add: core_def refs_ok_def posted_wf_def deletions_ok_def history_ok_def same)
qed

lemma find_job_simps [simp]:
  "find_job (s\<lparr>data_sources := m\<rparr>) = find_job s"
  "find_job (s\<lparr>url_objects := f\<rparr>) = find_job s"
  "find_job (s\<lparr>next_source := n\<rparr>) = find_job s"
  "find_job (s\<lparr>has_manager := h\<rparr>) = find_job s"
  "find_job (s\<lparr>url_threads := g\<rparr>) = find_job s"
  "find_job (s\<lparr>held_callbacks := cs\<rparr>) = find_job s"
  "find_job (s\<lparr>pending_requests := ps\<rparr>) = find_job s"
  "find_job (s\<lparr>next_request_id := i\<rparr>) = find_job s"
  "find_job (s\<lparr>backend_alive := a\<rparr>) = find_job s"
  "find_job (s\<lparr>browser_state_alive := a\<rparr>) = find_job s"
  by (simp_all add: find_job_def fun_eq_iff)

text \<open>Rewriting sources and the map leaves jobs and queue alone.\<close>

definition sources_changed :: "url_data \<Rightarrow> url_data \<Rightarrow> bool" where
  "sources_changed s t \<longleftrightarrow> pending_requests t = pending_requests s \<and> next_request_id t = next_request_id s
     \<and> url_jobs t = url_jobs s \<and> browser_state_alive t = browser_state_alive s
     \<and> backend_alive t = backend_alive s \<and> url_threads t = url_threads s
     \<and> url_callbacks t = url_callbacks s \<and> url_data_sources t = url_data_sources s
     \<and> deleted_sources t = deleted_sources s"

lemma sources_changed_ok:
  assumes "sources_changed s t"
  shows "jobs_ok t = jobs_ok s" "queue_ok t = queue_ok s" "wake t = wake s" "grows s t"
proof -
  have eqs: "pending_requests t = pending_requests s" "next_request_id t = next_request_id s"
    "browser_state_alive t = browser_state_alive s" "backend_alive t = backend_alive s"
    "url_threads t = url_threads s" "url_callbacks t = url_callbacks s"
    "url_data_sources t = url_data_sources s" "deleted_sources t = deleted_sources s"
    "url_jobs t = url_jobs s"
    using assms by (simp_all add: sources_changed_def)
  note jobs = find_job_layout [OF eqs(9)]
  have q: "queue t = queue s" "scheduled t = scheduled s" "accepts t = accepts s" "runner t = runner s"
    by (simp_all add: queue_def scheduled_def accepts_def runner_def eqs fun_eq_iff)
  have e: "entry_ok t x = entry_ok s x" for x by (cases x) (simp add: q eqs)
  show "jobs_ok t = jobs_ok s" unfolding jobs_ok_def job_ok_def eqs jobs ..
  show "queue_ok t = queue_ok s" by (simp add: queue_ok_def q e)
  show "wake t = wake s" by (simp add: wake_def q)
  show "grows s t" by (simp add: grows_def q eqs)
qed

lemma backend_member:
  "backend_ok s \<Longrightarrow> (n, x) \<in> set (data_sources s) \<Longrightarrow>
   \<exists>d. url_objects s x = Some d \<and> source_name d = n \<and> ds_backend d"
  by (simp add: backend_ok_def)

lemma backend_flag:
  "backend_ok s \<Longrightarrow> url_objects s x = Some d \<Longrightarrow> ds_backend d \<Longrightarrow> (source_name d, x) \<in> set (data_sources s)"
  by (simp add: backend_ok_def)

lemma attach_inv:
  assumes "url_inv (add_mset x X) s" and "url_objects s x = Some d" and "backend_alive s"
    and "map_of (data_sources s) (source_name d) = None"
  shows "good_result X s (update_source x (\<lambda>d. d\<lparr>ds_backend := True\<rparr>)
           (s\<lparr>data_sources := map_set (source_name d) x (data_sources s)\<rparr>))"
proof -
  let ?m = "map_set (source_name d) x (data_sources s)"
  let ?s = "s\<lparr>data_sources := ?m\<rparr>"
  let ?t = "?s\<lparr>url_objects := (url_objects s)(x \<mapsto> d\<lparr>ds_backend := True\<rparr>)\<rparr>"
  have bk: "backend_ok s" using assms(1) by (simp add: url_inv_def)
  then have dist: "distinct (map fst (data_sources s))" by (simp add: backend_ok_def)
  have "core X ?s"
    using assms(1) mset_map_set_new [OF assms(4), of x] by (intro core_data_sources) (simp_all add: url_inv_def)
  from flag_core [OF this, of x d True] have "core X ?t" using assms(2) by simp
  moreover have "backend_ok ?t"
    unfolding backend_ok_def
  proof (intro conjI allI impI)
    show "distinct (map fst (data_sources ?t))" using distinct_map_set [OF dist] by simp
    show "\<exists>e. url_objects ?t y = Some e \<and> source_name e = n \<and> ds_backend e" if "(n, y) \<in> set (data_sources ?t)" for n y
    proof (cases "n = source_name d")
      case True
      with that in_map_set [OF dist] assms(2) show ?thesis by simp
    next
      case False
      with that in_map_set [OF dist] have "(n, y) \<in> set (data_sources s)" by simp
      from backend_member [OF bk this] False assms(2) show ?thesis by auto
    qed
    show "(source_name e, y) \<in> set (data_sources ?t)" if "url_objects ?t y = Some e" "ds_backend e" for y e
    proof (cases "y = x")
      case True
      with that in_map_set [OF dist] assms(2) show ?thesis by auto
    next
      case False
      with that have "(source_name e, y) \<in> set (data_sources s)" using backend_flag [OF bk] by simp
      moreover from this assms(4) have "source_name e \<noteq> source_name d"
        by (metis map_of_eq_None_iff fst_conv image_eqI)
      ultimately show ?thesis using in_map_set [OF dist] by simp
    qed
    show "data_sources ?t = []" if "\<not> backend_alive ?t" using that assms(3) by simp
  qed
  moreover have "sources_changed s ?t" by (simp add: sources_changed_def)
  ultimately have "url_inv X ?t" "grows s ?t"
    using assms(1) sources_changed_ok [of s ?t] by (simp_all add: url_inv_def)
  then show ?thesis using assms(2) by (auto simp: update_source_def intro: good_resultI)
qed

text \<open>A source of the same name gives way.\<close>

lemma replace_inv:
  assumes "url_inv X s" and "url_objects s x = Some d" and "refs s x > 0" and "backend_alive s"
    and "map_of (data_sources s) (source_name d) = Some old"
  shows "good_result X s (do {
     s2 \<leftarrow> update_source old (\<lambda>d. d\<lparr>ds_backend := False\<rparr>) s;
     s3 \<leftarrow> add_ref x s2;
     s4 \<leftarrow> release cur old (s3\<lparr>data_sources := map_set (source_name d) x (data_sources s3)\<rparr>);
     update_source x (\<lambda>d. d\<lparr>ds_backend := True\<rparr>) s4
   })"
proof -
  let ?n = "source_name d"
  have bk: "backend_ok s" and core: "core X s" and wake: "wake s" using assms(1) by (simp_all add: url_inv_def)
  have dist: "distinct (map fst (data_sources s))" using bk by (simp add: backend_ok_def)
  have old: "(?n, old) \<in> set (data_sources s)" by (rule map_of_SomeD [OF assms(5)])
  obtain o1 where o1: "url_objects s old = Some o1" "source_name o1 = ?n" "ds_backend o1"
    using backend_member [OF bk old] by blast
  let ?s2 = "s\<lparr>url_objects := (url_objects s)(old \<mapsto> o1\<lparr>ds_backend := False\<rparr>)\<rparr>"
  have step2: "update_source old (\<lambda>d. d\<lparr>ds_backend := False\<rparr>) s = Some ?s2"
    using o1 by (simp add: update_source_def)
  have core2: "core X ?s2" by (rule flag_core [OF core o1(1)])
  have lay2: "queue ?s2 = queue s" "scheduled ?s2 = scheduled s" "refs ?s2 = refs s"
    using o1 by (auto simp: queue_def scheduled_def refs_def fun_eq_iff)
  have wake2: "wake ?s2" using wake by (simp add: wake_def lay2 accepts_def runner_def)
  obtain s3 where s3: "add_ref x ?s2 = Some s3" "core (add_mset x X) s3" "quiet {} ?s2 s3"
    "scheduled s3 = scheduled ?s2"
    using add_ref_ok [OF core2, of x] assms(3) lay2 by auto
  have wake3: "wake s3" by (rule wake_quiet [OF wake2 s3(3,4)])
  have ds3: "data_sources s3 = data_sources s" using s3(3) by (simp add: quiet_def same_layout_def)
  let ?m = "map_set ?n x (data_sources s)"
  let ?s3 = "s3\<lparr>data_sources := ?m\<rparr>"
  have core3: "core (add_mset old X) ?s3"
    using mset_map_set_known [OF assms(5), of x] ds3
    by (intro core_data_sources [OF s3(2)]) (metis add_mset_add_single union_ac(2) union_mset_add_mset_right union_mset_add_mset_left)
  have wake3': "wake ?s3" using wake3 by (simp add: wake_def scheduled_def queue_def accepts_def runner_def)
  obtain s4 where s4: "release cur old ?s3 = Some s4" "core X s4" "quiet {} ?s3 s4" "wake s4"
    using release_ok [OF core3 wake3'] by blast
  have ds4: "data_sources s4 = ?m" using s4(3) by (simp add: quiet_def same_layout_def)
  have "(?n, x) \<in> set ?m" using in_map_set [OF dist, of ?n x ?n x] by simp
  then have "x \<in># holders s4 + X" using ds4 by (force simp: holders_def)
  then obtain e where e: "url_objects s4 x = Some e" using refs_pos_alive held_refs [OF s4(2)] by blast
  let ?t = "s4\<lparr>url_objects := (url_objects s4)(x \<mapsto> e\<lparr>ds_backend := True\<rparr>)\<rparr>"
  have core_t: "core X ?t" by (rule flag_core [OF s4(2) e])
  have origin: "\<exists>d0. url_objects s y = Some d0 \<and> source_name f = source_name d0
      \<and> (ds_backend f \<longleftrightarrow> ds_backend d0 \<and> y \<noteq> old)" if f: "url_objects s4 y = Some f" for y f
  proof -
    obtain d3 where d3: "url_objects ?s3 y = Some d3" "same_source d3 f"
      using quiet_object [OF s4(3) f] by blast
    then have "url_objects s3 y = Some d3" by simp
    then obtain d2 where d2: "url_objects ?s2 y = Some d2" "same_source d2 d3"
      using quiet_object [OF s3(3)] by blast
    from same_source_trans [OF d2(2) d3(2)] have "same_source d2 f" .
    with d2(1) o1 show ?thesis by (cases "y = old") (auto dest!: same_sourceD)
  qed
  obtain d0 where d0: "url_objects s x = Some d0" "source_name e = source_name d0" using origin [OF e] by blast
  have name_e: "source_name e = ?n" using d0 assms(2) by simp
  have "backend_ok ?t"
    unfolding backend_ok_def
  proof (intro conjI allI impI)
    show "distinct (map fst (data_sources ?t))" using distinct_map_set [OF dist] ds4 by simp
    show "\<exists>f. url_objects ?t y = Some f \<and> source_name f = n \<and> ds_backend f" if "(n, y) \<in> set (data_sources ?t)" for n y
    proof (cases "n = ?n")
      case True
      with that in_map_set [OF dist] name_e ds4 show ?thesis by simp
    next
      case False
      with that in_map_set [OF dist] ds4 have mem: "(n, y) \<in> set (data_sources s)" by simp
      then obtain d1 where d1: "url_objects s y = Some d1" "source_name d1 = n" "ds_backend d1"
        using backend_member [OF bk] by blast
      have "y \<in># holders s4 + X" using that by (force simp: holders_def)
      then obtain f where f: "url_objects s4 y = Some f" using refs_pos_alive held_refs [OF s4(2)] by blast
      have "y \<noteq> x" "y \<noteq> old" using d1 False assms(2) o1 by auto
      with origin [OF f] d1 f show ?thesis by auto
    qed
    show "(source_name f, y) \<in> set (data_sources ?t)" if "url_objects ?t y = Some f" "ds_backend f" for y f
    proof (cases "y = x")
      case True
      with that have "source_name f = ?n" using name_e by auto
      with True in_map_set [OF dist] ds4 show ?thesis by simp
    next
      case False
      with that origin [of y f] obtain d1 where d1: "url_objects s y = Some d1" "source_name f = source_name d1"
        "ds_backend d1" "y \<noteq> old" by auto
      have mem: "(source_name f, y) \<in> set (data_sources s)" using backend_flag [OF bk d1(1,3)] d1(2) by simp
      moreover have "source_name f \<noteq> ?n"
        using mem d1(4) assms(5) dist by (metis map_of_eq_Some_iff option.inject)
      ultimately show ?thesis using in_map_set [OF dist] ds4 by simp
    qed
    show "data_sources ?t = []" if "\<not> backend_alive ?t"
      using that assms(4) s3(3) s4(3) by (simp add: quiet_def same_layout_def)
  qed
  moreover have c: "sources_changed s ?s2" "sources_changed s3 ?s3" "sources_changed s4 ?t"
    by (simp_all add: sources_changed_def)
  have "jobs_ok ?t"
    using assms(1) sources_changed_ok(1) [OF c(1)] sources_changed_ok(1) [OF c(2)] sources_changed_ok(1) [OF c(3)]
      jobs_ok_layout [OF _ quiet_layout [OF s3(3)]] jobs_ok_layout [OF _ quiet_layout [OF s4(3)]]
    by (simp add: url_inv_def)
  moreover have "queue_ok ?t"
    using assms(1) sources_changed_ok(2) [OF c(1)] sources_changed_ok(2) [OF c(2)] sources_changed_ok(2) [OF c(3)]
      queue_ok_quiet [OF _ s3(3)] queue_ok_quiet [OF _ s4(3)]
    by (simp add: url_inv_def)
  moreover have "wake ?t" using s4(4) sources_changed_ok(3) [OF c(3)] by simp
  ultimately have "url_inv X ?t" using core_t by (simp add: url_inv_def)
  moreover have "grows s ?t"
    using grows_trans [OF sources_changed_ok(4) [OF c(1)] grows_trans [OF quiet_grows [OF s3(3)]
        grows_trans [OF sources_changed_ok(4) [OF c(2)] grows_trans [OF quiet_grows [OF s4(3)]
            sources_changed_ok(4) [OF c(3)]]]]] .
  ultimately show ?thesis
    using step2 s3(1) s4(1) e ds3 by (auto simp: update_source_def intro: good_resultI)
qed

end
