(* ===== verification/UrlDataMachine.thy ===== *)
theory UrlDataMachine
  imports UrlDataFacts
begin

text \<open>
  Every operation on the data sources keeps the invariant, and the properties of any sequence of events.
\<close>

section \<open>Adding sources\<close>

lemma update_source_frame:
  "update_source x f s = Some t \<Longrightarrow> url_jobs t = url_jobs s \<and> browser_state_alive t = browser_state_alive s
     \<and> backend_alive t = backend_alive s"
  by (auto simp: update_source_def split: Option.bind_splits)

lemma backend_add_inv:
  assumes "url_inv X s" and "thread_runners (url_threads s) IO = Some cur" and "backend_alive s"
    and "refs s x > 0"
  shows "good_result X s (backend_add_data_source cur s x)"
proof -
  note on = inv_checked_on [OF assms(1,2)]
  obtain d where d: "url_objects s x = Some d" using refs_pos_alive [OF assms(4)] by blast
  show ?thesis
  proof (cases "map_of (data_sources s) (source_name d)")
    case None
    obtain t where t: "add_ref x s = Some t" "url_inv (add_mset x X) t" "quiet {} s t"
      using add_ref_inv [OF assms(1,4)] by blast
    have lay: "data_sources t = data_sources s" "backend_alive t = backend_alive s"
      using t(3) by (simp_all add: quiet_def same_layout_def)
    have "refs t x > 0" using t(2) by simp
    then obtain e where e: "url_objects t x = Some e" using refs_pos_alive by blast
    moreover from quiet_object [OF t(3) e] d have "source_name e = source_name d"
      by (auto dest: same_sourceD)
    ultimately have "good_result X t (update_source x (\<lambda>d. d\<lparr>ds_backend := True\<rparr>)
        (t\<lparr>data_sources := map_set (source_name d) x (data_sources t)\<rparr>))"
      using attach_inv [OF t(2) e] None lay assms(3) by simp
    then show ?thesis
      using None on d t grows_trans [OF quiet_grows [OF t(3)]]
      by (auto simp: backend_add_data_source_def elim!: good_resultE intro: good_resultI)
  next
    case (Some old)
    show ?thesis
    proof (cases "should_replace_existing_source (ds_client d)")
      case True
      with Some on d replace_inv [OF assms(1) d assms(4,3) Some, of cur] show ?thesis
        by (simp add: backend_add_data_source_def)
    next
      case False
      with Some on d assms(1) show ?thesis
        by (auto simp: backend_add_data_source_def intro: good_resultI)
    qed
  qed
qed

text \<open>A new source takes its first reference.\<close>

lemma fresh_add_ref:
  assumes "url_inv X s" and "ds_refs d = 0" and "\<not> ds_backend d"
  shows "\<exists>t. add_ref (next_source s) (fst (create_source d s)) = Some t
    \<and> url_inv (add_mset (next_source s) X) t \<and> grows s t
    \<and> url_objects t (next_source s) = Some (d\<lparr>ds_refs := 1\<rparr>) \<and> data_sources t = data_sources s
    \<and> url_jobs t = url_jobs s \<and> backend_alive t = backend_alive s \<and> browser_state_alive t = browser_state_alive s
    \<and> url_threads t = url_threads s"
proof -
  let ?n = "next_source s"
  let ?t = "s\<lparr>url_objects := (url_objects s)(?n \<mapsto> d\<lparr>ds_refs := 1\<rparr>), next_source := ?n + 1\<rparr>"
  have core: "core X s" and bk: "backend_ok s" using assms(1) by (simp_all add: url_inv_def)
  have none: "url_objects s ?n = None"
    using core unfolding core_def history_ok_def by (metis less_irrefl option.collapse)
  have not_sch: "?n \<notin> set (scheduled s)" using core none unfolding core_def deletions_ok_def by auto
  have not_del: "?n \<notin> snd ` set (deleted_sources s)" using core unfolding core_def history_ok_def by auto
  have same: "scheduled ?t = scheduled s" "holders ?t = holders s" "queue ?t = queue s"
    by (simp_all add: queue_def scheduled_def holders_def)
  have add: "add_ref ?n (fst (create_source d s)) = Some ?t"
    using not_sch assms(2)
    by (simp add: create_source_def add_ref_def update_source_def is_scheduled_for_deletion_def scheduled_def
        split: option.splits)
  have "count (holders s + add_mset ?n X) y = refs ?t y" for y
  proof -
    have c: "count (holders s + X) y = refs s y" using core unfolding core_def refs_ok_def by blast
    show ?thesis
    proof (cases "y = ?n")
      case True
      with c none show ?thesis by (simp add: refs_def)
    next
      case False
      with c show ?thesis by (simp add: refs_def)
    qed
  qed
  then have "refs_ok (add_mset ?n X) ?t" unfolding refs_ok_def same by blast
  moreover have "deletions_ok ?t"
    using core not_sch assms(2) unfolding core_def deletions_ok_def same by auto
  moreover have "history_ok ?t"
    using core none not_del unfolding core_def history_ok_def by (auto simp: less_Suc_eq)
  ultimately have "core (add_mset ?n X) ?t" using core by (simp add: core_def posted_wf_def)
  moreover have "backend_ok ?t"
  proof -
    have "\<And>n. (n, ?n) \<notin> set (data_sources s)" using backend_member [OF bk] none by fastforce
    then show ?thesis using bk none assms(3) unfolding backend_ok_def by auto
  qed
  moreover have c: "sources_changed s ?t" by (simp add: sources_changed_def)
  ultimately have "url_inv (add_mset ?n X) ?t"
    using assms(1) sources_changed_ok [OF c] by (simp add: url_inv_def)
  with add sources_changed_ok(4) [OF c] show ?thesis by auto
qed

lemma new_backend_inv:
  assumes "url_inv X s" and "thread_runners (url_threads s) IO = Some cur" and "\<not> backend_alive s"
  shows "\<exists>t. new_url_data_manager_ios_backend cur s shared = Some t \<and> url_inv X t \<and> grows s t
    \<and> url_jobs t = url_jobs s \<and> browser_state_alive t = browser_state_alive s \<and> backend_alive t"
proof -
  let ?s = "s\<lparr>backend_alive := True, data_sources := [], pending_requests := [], next_request_id := 0\<rparr>"
  let ?d = "new_url_data_source_ios_impl (get_source shared) shared"
  have jobs: "jobs_ok s" and bk: "backend_ok s" using assms(1) by (simp_all add: url_inv_def)
  have ds: "data_sources s = []" using bk assms(3) by (simp add: backend_ok_def)
  have "core X (s\<lparr>data_sources := []\<rparr>)"
    using assms(1) ds by (intro core_data_sources) (simp_all add: url_inv_def)
  then have core: "core X ?s"
    by (simp add: core_def refs_ok_def posted_wf_def deletions_ok_def history_ok_def holders_def queue_def
        refs_def scheduled_def)
  have "jobs_ok ?s"
    using jobs assms(3) unfolding jobs_ok_def job_ok_def by auto
  moreover have "queue ?s = queue s" "scheduled ?s = scheduled s" by (simp_all add: queue_def scheduled_def)
  moreover have "backend_ok ?s" using bk ds by (simp add: backend_ok_def)
  moreover have e: "entry_ok ?s e = entry_ok s e" for e by (cases e) (simp add: runner_def)
  ultimately have inv: "url_inv X ?s" and grows: "grows s ?s"
    using assms(1) core by (simp_all add: url_inv_def queue_ok_def wake_def accepts_def runner_def grows_def)
  obtain t where t: "add_ref (next_source ?s) (fst (create_source ?d ?s)) = Some t"
    "url_inv (add_mset (next_source ?s) X) t" "grows ?s t"
    "url_objects t (next_source ?s) = Some (?d\<lparr>ds_refs := 1\<rparr>)" "data_sources t = []"
    "url_jobs t = url_jobs s" "backend_alive t" "browser_state_alive t = browser_state_alive s"
    using fresh_add_ref [OF inv, of ?d] by (auto simp: new_url_data_source_ios_impl_def)
  from attach_inv [OF t(2,4,7)] t(5) obtain u where u:
    "update_source (next_source ?s) (\<lambda>d. d\<lparr>ds_backend := True\<rparr>)
       (t\<lparr>data_sources := map_set (source_name ?d) (next_source ?s) (data_sources t)\<rparr>) = Some u"
    "url_inv X u" "grows t u" by (auto elim!: good_resultE)
  have good: "threads_good (url_threads s)" by (rule inv_threads [OF assms(1)])
  have on: "dcheck_currently_on cur (fst (create_source ?d ?s)) IO = Some (fst (create_source ?d ?s))"
    using assms(2) good by (intro checked_on) (simp_all add: create_source_def)
  have "new_url_data_manager_ios_backend cur s shared = Some u"
    using on t(1) u(1)
    by (simp add: new_url_data_manager_ios_backend_def backend_add_data_source_def create_source_def)
  with u t(6-8) update_source_frame [OF u(1)] grows_trans [OF grows grows_trans [OF t(3) u(3)]]
  show ?thesis by simp
qed

lemma get_backend_inv:
  assumes "url_inv X s" and "thread_runners (url_threads s) IO = Some cur" and "browser_state_alive s"
  shows "\<exists>t. get_url_data_manager_ios_backend_on_io_thread cur shared s = Some t \<and> url_inv X t \<and> grows s t
    \<and> url_jobs t = url_jobs s \<and> browser_state_alive t \<and> backend_alive t"
proof (cases "backend_alive s")
  case True
  with inv_checked_on [OF assms(1,2)] assms show ?thesis
    by (simp add: get_url_data_manager_ios_backend_on_io_thread_def)
next
  case False
  with inv_checked_on [OF assms(1,2)] assms new_backend_inv [OF assms(1,2) False, of shared] show ?thesis
    by (auto simp: get_url_data_manager_ios_backend_on_io_thread_def)
qed

lemma grows_runners: "grows s t \<Longrightarrow> thread_runners (url_threads t) = thread_runners (url_threads s)"
  by (simp add: grows_def)

lemma add_on_io_inv:
  assumes "url_inv (add_mset x X) s" and "thread_runners (url_threads s) IO = Some cur" and "browser_state_alive s"
  shows "good_result (add_mset x X) s (add_data_source_on_io_thread cur shared s x)"
proof -
  obtain t where t: "get_url_data_manager_ios_backend_on_io_thread cur shared s = Some t"
    "url_inv (add_mset x X) t" "grows s t" "backend_alive t"
    using get_backend_inv [OF assms, of shared] by blast
  have "good_result (add_mset x X) t (backend_add_data_source cur t x)"
    using backend_add_inv [OF t(2) _ t(4)] t(2) grows_runners [OF t(3)] assms(2) by simp
  then show ?thesis
    using inv_checked_on [OF assms(1,2)] t grows_trans [OF t(3)]
    by (auto simp: add_data_source_on_io_thread_def elim!: good_resultE intro: good_resultI)
qed

lemma add_data_source_inv:
  assumes "url_inv X s" and "thread_runners (url_threads s) UI = Some cur" and "browser_state_alive s"
  shows "good_result X s (add_data_source cur s client)"
proof -
  let ?s = "get_from_browser_state s"
  let ?d = "new_url_data_source_ios_impl (get_source client) client"
  let ?c = "AddDataSourceOnIOThread (next_source ?s)"
  have same: "queue ?s = queue s" "scheduled ?s = scheduled s" "holders ?s = holders s" "refs ?s = refs s"
    by (simp_all add: get_from_browser_state_def queue_def scheduled_def holders_def refs_def fun_eq_iff)
  have inv: "url_inv X ?s"
  proof -
    have c: "sources_changed s ?s" by (simp add: sources_changed_def get_from_browser_state_def)
    have "core X ?s" "backend_ok ?s"
      using assms(1) by (simp_all add: url_inv_def core_def refs_ok_def posted_wf_def deletions_ok_def
          history_ok_def same backend_ok_def) (simp_all add: get_from_browser_state_def)
    then show ?thesis using assms(1) sources_changed_ok [OF c] by (simp add: url_inv_def)
  qed
  have gs: "grows s ?s" by (simp add: grows_def same) (simp add: get_from_browser_state_def)
  have alive: "browser_state_alive ?s" "url_threads ?s = url_threads s"
    using assms(3) by (simp_all add: get_from_browser_state_def)
  obtain t where t: "add_ref (next_source ?s) (fst (create_source ?d ?s)) = Some t"
    "url_inv (add_mset (next_source ?s) X) t" "grows ?s t" "browser_state_alive t" "url_threads t = url_threads s"
    using fresh_add_ref [OF inv, of ?d] alive by (auto simp: new_url_data_source_ios_impl_def)
  have "good_result X t (post_bound cur t IO ?c)"
    using post_bound_inv [of ?c X t IO cur] t(2,4) by (simp add: bound_list_def)
  moreover have "dcheck_currently_on cur (fst (create_source ?d ?s)) UI = Some (fst (create_source ?d ?s))"
    using assms(2) inv_threads [OF assms(1)] alive by (intro checked_on) (simp_all add: create_source_def)
  ultimately show ?thesis
    using t(1) grows_trans [OF gs grows_trans [OF t(3)]]
    by (auto simp: add_data_source_def create_source_def manager_add_data_source_def post_url_callback_bound
        elim!: good_resultE intro: good_resultI)
qed

section \<open>Jobs\<close>

lemma mset_concat_update:
  "i < length xs \<Longrightarrow> mset (concat (map f (xs[i := y]))) + mset (f (xs ! i)) = mset (concat (map f xs)) + mset (f y)"
proof (induction xs arbitrary: i)
  case (Cons x xs)
  then show ?case by (cases i) (auto simp: ac_simps)
qed simp

lemma find_put_job [simp]:
  "find_job s job = Some j \<Longrightarrow> find_job (put_job job k s) job' = (if job' = job then Some k else find_job s job')"
  by (auto simp: find_job_def put_job_def nth_list_update split: if_splits)

lemma find_job_bound: "find_job s job = Some j \<Longrightarrow> job < length (url_jobs s) \<and> url_jobs s ! job = Some j"
  by (simp add: find_job_def split: if_splits)

lemma core_jobs:
  assumes "core X s" and "job < length (url_jobs s)"
    and "mset (job_list k) + Y = mset (job_list (url_jobs s ! job)) + X"
  shows "core Y (s\<lparr>url_jobs := (url_jobs s)[job := k]\<rparr>)"
proof -
  let ?t = "s\<lparr>url_jobs := (url_jobs s)[job := k]\<rparr>"
  have same: "scheduled ?t = scheduled s" "queue ?t = queue s" "refs ?t = refs s"
    by (simp_all add: queue_def scheduled_def refs_def fun_eq_iff)
  let ?new = "mset (concat (map job_list (url_jobs ?t)))" and ?old = "mset (concat (map job_list (url_jobs s)))"
    and ?g = "mset (job_list k)" and ?f = "mset (job_list (url_jobs s ! job))"
  have "?new + ?f = ?old + ?g"
    using mset_concat_update [OF assms(2), of job_list k] by simp
  then have "?new + Y + ?f = ?old + (?g + Y)" by (metis union_assoc union_commute)
  also have "\<dots> = ?old + X + ?f" unfolding assms(3) by (simp only: ac_simps)
  finally have "?new + Y = ?old + X" by (rule add_right_imp_eq)
  then have "holders ?t + Y = holders s + X" by (simp add: holders_def same ac_simps)
  then show ?thesis
    using assms(1) by (simp add: core_def refs_ok_def posted_wf_def deletions_ok_def history_ok_def same)
qed

lemma jobs_layout_ok:
  assumes "url_threads t = url_threads s" "url_callbacks t = url_callbacks s"
    "url_data_sources t = url_data_sources s" "deleted_sources t = deleted_sources s"
    "browser_state_alive t = browser_state_alive s" "backend_alive t = backend_alive s"
    "url_objects t = url_objects s" "data_sources t = data_sources s"
  shows "queue_ok t = queue_ok s" "wake t = wake s" "grows s t" "backend_ok t = backend_ok s"
proof -
  have q: "queue t = queue s" "scheduled t = scheduled s" "accepts t = accepts s" "runner t = runner s"
    by (simp_all add: queue_def scheduled_def accepts_def runner_def assms fun_eq_iff)
  have e: "entry_ok t x = entry_ok s x" for x by (cases x) (simp add: q assms)
  show "queue_ok t = queue_ok s" by (simp add: queue_ok_def q e)
  show "wake t = wake s" by (simp add: wake_def q)
  show "grows s t" by (simp add: grows_def q assms)
  show "backend_ok t = backend_ok s" by (simp add: backend_ok_def assms)
qed

lemma jobs_ok_put:
  assumes "jobs_ok s" and "find_job s job = Some j" and "job_ok s k"
    and "job \<in> snd ` set (pending_requests s) \<Longrightarrow> job_backend k \<and> job_weak_valid k"
  shows "jobs_ok (put_job job k s)"
proof -
  have eqs: "pending_requests (put_job job k s) = pending_requests s"
    "next_request_id (put_job job k s) = next_request_id s"
    "browser_state_alive (put_job job k s) = browser_state_alive s"
    "\<And>x. job_ok (put_job job k s) x = job_ok s x"
    by (simp_all add: put_job_def job_ok_def)
  show ?thesis
    unfolding jobs_ok_def eqs find_put_job [OF assms(2)]
  proof (intro conjI allI impI)
    show "\<exists>j. (if job' = job then Some k else find_job s job') = Some j \<and> job_backend j \<and> job_weak_valid j"
      if "(i, job') \<in> set (pending_requests s)" for i job'
    proof (cases "job' = job")
      case True
      with that have "job \<in> snd ` set (pending_requests s)" by force
      from assms(4) [OF this] True show ?thesis by simp
    next
      case False
      with that assms(1) show ?thesis by (auto simp: jobs_ok_def)
    qed
    show "(if job' = job then Some k else find_job s job') = None" if "\<not> browser_state_alive s" for job'
      using that assms(1,2) by (simp add: jobs_ok_def)
    show "job_ok s x" if "(if job' = job then Some k else find_job s job') = Some x" for job' x
      using that assms(1,3) by (auto simp: jobs_ok_def split: if_splits)
  qed (use assms(1) in \<open>auto simp: jobs_ok_def\<close>)
qed

lemma put_job_inv:
  assumes "url_inv X s" and "find_job s job = Some j" and "job_ok s k"
    and "job \<in> snd ` set (pending_requests s) \<Longrightarrow> job_backend k \<and> job_weak_valid k"
    and "mset (job_list (Some k)) + Y = mset (job_list (Some j)) + X"
  shows "url_inv Y (put_job job k s)" and "grows s (put_job job k s)"
proof -
  have "core Y (put_job job k s)"
    using core_jobs [of X s job "Some k" Y] assms(1,5) find_job_bound [OF assms(2)]
    by (simp add: put_job_def url_inv_def)
  moreover have "jobs_ok (put_job job k s)"
    using jobs_ok_put [OF _ assms(2,3,4)] assms(1) by (simp add: url_inv_def)
  ultimately show "url_inv Y (put_job job k s)" and "grows s (put_job job k s)"
    using jobs_layout_ok [of "put_job job k s" s] assms(1) by (simp_all add: url_inv_def put_job_def)
qed

lemma pending_job: "jobs_ok s \<Longrightarrow> job \<in> snd ` set (pending_requests s) \<Longrightarrow>
   \<exists>j. find_job s job = Some j \<and> job_backend j \<and> job_weak_valid j"
  unfolding jobs_ok_def by force

lemma found_job_ok: "jobs_ok s \<Longrightarrow> find_job s job = Some j \<Longrightarrow> job_ok s j"
  by (simp add: jobs_ok_def)

text \<open>Changing only what a job knows of its data.\<close>

definition same_role :: "url_job \<Rightarrow> url_job \<Rightarrow> bool" where
  "same_role j k \<longleftrightarrow> job_source k = job_source j \<and> job_backend k = job_backend j
     \<and> job_weak_valid k = job_weak_valid j
     \<and> (JobKilled \<in> set (job_events k) \<longleftrightarrow> JobKilled \<in> set (job_events j))"

lemma put_same_role:
  assumes "url_inv X s" and "find_job s job = Some j" and "same_role j k"
  shows "url_inv X (put_job job k s)" and "grows s (put_job job k s)"
proof -
  have jobs: "jobs_ok s" using assms(1) by (simp add: url_inv_def)
  have "job_ok s k" using found_job_ok [OF jobs assms(2)] assms(3) by (simp add: job_ok_def same_role_def)
  moreover have "job_backend k \<and> job_weak_valid k" if "job \<in> snd ` set (pending_requests s)"
    using pending_job [OF jobs that] assms(2,3) by (simp add: same_role_def)
  moreover have "job_list (Some k) = job_list (Some j)" using assms(3) by (simp add: job_list_def same_role_def)
  ultimately show "url_inv X (put_job job k s)" and "grows s (put_job job k s)"
    using put_job_inv [OF assms(1,2)] by simp_all
qed

lemma complete_read_role: "complete_read j n = Some (k, rv) \<Longrightarrow> same_role j k"
  by (auto simp: complete_read_def same_role_def job_notify_def Let_def split: Option.bind_splits if_splits)

lemma complete_read_total: "job_data j \<noteq> None \<Longrightarrow> \<exists>k rv. complete_read j n = Some (k, rv)"
  by (auto simp: complete_read_def Let_def)

lemma read_raw_data_role:
  assumes "\<not> pending_buf j"
  shows "\<exists>k rv. read_raw_data j n = Some (k, rv) \<and> same_role j k"
proof (cases "job_data j")
  case None
  with assms show ?thesis by (simp add: read_raw_data_def same_role_def)
next
  case (Some b)
  then obtain k rv where "complete_read j n = Some (k, rv)" using complete_read_total [of j n] by auto
  with Some complete_read_role show ?thesis by (auto simp: read_raw_data_def)
qed

lemma job_data_available_role: "\<exists>k. job_data_available j bytes = Some k \<and> same_role j k"
proof (cases bytes)
  case None
  then show ?thesis by (simp add: job_data_available_def job_notify_def same_role_def)
next
  case (Some b)
  show ?thesis
  proof (cases "pending_buf j")
    case True
    obtain k rv where k: "complete_read (j\<lparr>job_data := Some b\<rparr>) (pending_buf_size j) = Some (k, rv)"
      using complete_read_total [of "j\<lparr>job_data := Some b\<rparr>" "pending_buf_size j"] by fastforce
    from complete_read_role [OF k] Some True k show ?thesis
      by (simp add: job_data_available_def job_notify_def same_role_def)
  next
    case False
    with Some show ?thesis by (simp add: job_data_available_def same_role_def)
  qed
qed

lemma read_job_inv:
  assumes "url_inv X s" and "find_job s job = Some j" and "\<not> pending_buf j"
  shows "good_result X s (read_job s job n)"
proof -
  obtain k rv where k: "read_raw_data j n = Some (k, rv)" "same_role j k"
    using read_raw_data_role [OF assms(3)] by blast
  with put_same_role [OF assms(1,2) k(2)] assms(2) show ?thesis
    by (simp add: read_job_def good_result_def)
qed

lemma create_job_inv:
  assumes "url_inv X s" and "browser_state_alive s"
  shows "url_inv X (create_job url incognito s)" and "grows s (create_job url incognito s)"
proof -
  let ?j = "new_url_request_chrome_job url incognito"
  let ?t = "create_job url incognito s"
  have same: "scheduled ?t = scheduled s" "queue ?t = queue s" "refs ?t = refs s"
    by (simp_all add: create_job_def queue_def scheduled_def refs_def fun_eq_iff)
  have "job_list (Some ?j) = []" by (simp add: job_list_def new_url_request_chrome_job_def)
  then have "holders ?t = holders s" unfolding holders_def same by (simp add: create_job_def)
  then have core: "core X ?t"
    using assms(1) by (simp add: url_inv_def core_def refs_ok_def posted_wf_def deletions_ok_def history_ok_def same)
      (simp add: create_job_def)
  have find: "find_job ?t i = (if i = length (url_jobs s) then Some ?j else find_job s i)" for i
    by (auto simp: create_job_def find_job_def nth_append)
  have none: "find_job s (length (url_jobs s)) = None" by (simp add: find_job_def)
  have jobs: "jobs_ok s" using assms(1) by (simp add: url_inv_def)
  have eqs: "pending_requests ?t = pending_requests s" "next_request_id ?t = next_request_id s"
    "browser_state_alive ?t = browser_state_alive s" "\<And>x. job_ok ?t x = job_ok s x"
    by (simp_all add: create_job_def job_ok_def)
  have "jobs_ok ?t"
    unfolding jobs_ok_def eqs
  proof (intro conjI allI impI)
    show "\<exists>j. find_job ?t job = Some j \<and> job_backend j \<and> job_weak_valid j"
      if "(i, job) \<in> set (pending_requests s)" for i job
    proof -
      from that have "job \<in> snd ` set (pending_requests s)" by force
      from pending_job [OF jobs this] none find show ?thesis by auto
    qed
    show "job_ok s j" if "find_job ?t job = Some j" for job j
      using that jobs find
      by (auto simp: jobs_ok_def job_ok_def new_url_request_chrome_job_def split: if_splits)
  qed (use jobs assms(2) in \<open>auto simp: jobs_ok_def\<close>)
  with core show "url_inv X ?t" and "grows s ?t"
    using jobs_layout_ok [of ?t s] assms(1) by (simp_all add: url_inv_def create_job_def)
qed

lemma set_remove_request: "distinct (map snd ps) \<Longrightarrow> set (remove_request_loop ps job) = {e \<in> set ps. snd e \<noteq> job}"
  by (induction ps) (auto intro: rev_image_eqI)

lemma distinct_remove_request: "distinct (map f ps) \<Longrightarrow> distinct (map f (remove_request_loop ps job))"
proof (induction ps)
  case (Cons p ps)
  have "set (remove_request_loop ps job) \<subseteq> set ps"
    by (induction ps) auto
  with Cons show ?case by auto
qed simp

text \<open>Taking requests off the list of pending ones.\<close>

lemma jobs_ok_fewer:
  assumes "jobs_ok s" and "set ps \<subseteq> set (pending_requests s)" and "distinct (map fst ps)" and "distinct (map snd ps)"
  shows "jobs_ok (s\<lparr>pending_requests := ps\<rparr>)"
  using assms unfolding jobs_ok_def job_ok_def by auto

lemma pending_inv:
  assumes "url_inv X s" and "jobs_ok (s\<lparr>pending_requests := ps, next_request_id := n\<rparr>)"
  shows "url_inv X (s\<lparr>pending_requests := ps, next_request_id := n\<rparr>)"
    and "grows s (s\<lparr>pending_requests := ps, next_request_id := n\<rparr>)"
proof -
  let ?t = "s\<lparr>pending_requests := ps, next_request_id := n\<rparr>"
  have same: "scheduled ?t = scheduled s" "queue ?t = queue s" "refs ?t = refs s" "holders ?t = holders s"
    by (simp_all add: queue_def scheduled_def refs_def holders_def fun_eq_iff)
  have "core X ?t"
    using assms(1) by (simp add: url_inv_def core_def refs_ok_def posted_wf_def deletions_ok_def history_ok_def same)
  with assms jobs_layout_ok [of ?t s] show "url_inv X ?t" and "grows s ?t" by (simp_all add: url_inv_def)
qed

lemma fewer_pending_inv:
  assumes "url_inv X s" and "set ps \<subseteq> set (pending_requests s)" and "distinct (map fst ps)" and "distinct (map snd ps)"
  shows "url_inv X (s\<lparr>pending_requests := ps\<rparr>)" and "grows s (s\<lparr>pending_requests := ps\<rparr>)"
  using pending_inv [OF assms(1), of "next_request_id s" ps] jobs_ok_fewer [OF _ assms(2-4)] assms(1)
  by (simp_all add: url_inv_def)

lemma kill_job_inv:
  assumes "url_inv X s" and "find_job s job = Some j"
  shows "good_result X s (kill_job s job)"
proof -
  have jobs: "jobs_ok s" using assms(1) by (simp add: url_inv_def)
  let ?ps = "if job_backend j then remove_request_loop (pending_requests s) job else pending_requests s"
  let ?k = "job_notify JobKilled (j\<lparr>job_weak_valid := False\<rparr>)"
  let ?s = "s\<lparr>pending_requests := ?ps\<rparr>"
  have dist: "distinct (map fst (pending_requests s))" "distinct (map snd (pending_requests s))"
    using jobs by (simp_all add: jobs_ok_def)
  have gone: "job \<notin> snd ` set ?ps"
  proof (cases "job_backend j")
    case True
    then show ?thesis using set_remove_request [OF dist(2)] by auto
  next
    case False
    then show ?thesis using pending_job [OF jobs] assms(2) by fastforce
  qed
  have "set ?ps \<subseteq> set (pending_requests s)" using set_remove_request [OF dist(2)] by auto
  moreover have "distinct (map fst ?ps)" "distinct (map snd ?ps)"
    using dist by (simp_all add: distinct_remove_request)
  ultimately have inv: "url_inv X ?s" "grows s ?s"
    by (rule fewer_pending_inv [OF assms(1)])+
  have find: "find_job ?s job = Some j" using assms(2) by simp
  have "job_ok ?s ?k" using found_job_ok [OF jobs assms(2)] by (simp add: job_ok_def job_notify_def)
  moreover have "job_list (Some ?k) = job_list (Some j)" by (simp add: job_list_def job_notify_def)
  ultimately have final: "url_inv X (put_job job ?k ?s)" "grows ?s (put_job job ?k ?s)"
    using put_job_inv [OF inv(1) find] gone by simp_all
  have "kill_job s job = Some (put_job job ?k ?s)"
    using assms(2) found_job_ok [OF jobs assms(2)] find_job_bound [OF assms(2)]
    by (simp add: kill_job_def remove_request_def put_job_def find_job_def job_ok_def)
  then show ?thesis using final grows_trans [OF inv(2)] by (auto intro: good_resultI)
qed

lemma destroy_job_inv:
  assumes "url_inv X s" and "find_job s job = Some j" and "job_backend j \<Longrightarrow> \<not> job_weak_valid j"
  shows "good_result X s (destroy_job cur s job)"
proof -
  let ?s = "s\<lparr>url_jobs := (url_jobs s)[job := None]\<rparr>"
  have jobs: "jobs_ok s" using assms(1) by (simp add: url_inv_def)
  have not_pending: "job \<notin> snd ` set (pending_requests s)"
    using pending_job [OF jobs] assms(2,3) by fastforce
  then have "\<not> has_pending_job s job" by (force simp: has_pending_job_def list_ex_iff)
  have core: "core (mset (job_list (Some j)) + X) ?s"
    using core_jobs [of X s job None] assms(1) find_job_bound [OF assms(2)]
    by (simp add: url_inv_def job_list_def)
  have find: "find_job ?s i = (if i = job then None else find_job s i)" for i
    by (auto simp: find_job_def nth_list_update)
  have "jobs_ok ?s"
    unfolding jobs_ok_def
  proof (intro conjI allI impI)
    show "\<exists>j. find_job ?s job' = Some j \<and> job_backend j \<and> job_weak_valid j"
      if "(i, job') \<in> set (pending_requests ?s)" for i job'
    proof -
      from that have "job' \<in> snd ` set (pending_requests s)" by force
      moreover from this not_pending have "job' \<noteq> job" by blast
      ultimately show ?thesis using pending_job [OF jobs] find by simp
    qed
    show "job_ok ?s k" if "find_job ?s job' = Some k" for job' k
      using that jobs find by (auto simp: jobs_ok_def job_ok_def split: if_splits)
  qed (use jobs find in \<open>auto simp: jobs_ok_def\<close>)
  then have inv: "url_inv (mset (job_list (Some j)) + X) ?s" "grows s ?s"
    using core jobs_layout_ok [of ?s s] assms(1) by (simp_all add: url_inv_def)
  have check: "(if job_backend j then dcheck (backend_alive s \<and> \<not> has_pending_job s job) else Some ()) = Some ()"
    using found_job_ok [OF jobs assms(2)] \<open>\<not> has_pending_job s job\<close> by (simp add: job_ok_def)
  show ?thesis
  proof (cases "job_source j")
    case None
    with inv check assms(2) show ?thesis by (auto simp: destroy_job_def job_list_def intro: good_resultI)
  next
    case (Some x)
    with inv have "good_result X ?s (release cur x ?s)" by (intro release_inv) (simp add: job_list_def)
    with Some inv(2) check assms(2) show ?thesis
      by (auto simp: destroy_job_def elim!: good_resultE intro: good_resultI grows_trans)
  qed
qed

section \<open>Requests\<close>

definition url_allowed :: "(gurl \<Rightarrow> bool) \<Rightarrow> string list \<Rightarrow> gurl \<Rightarrow> bool" where
  "url_allowed app schemes url \<longleftrightarrow> gurl_valid url \<and> (app url \<or> gurl_scheme url \<in> set schemes)"

lemma source_held: "(n, x) \<in> set (data_sources s) \<Longrightarrow> x \<in># holders s + X"
  by (force simp: holders_def)

lemma looked_up_source: "get_data_source_from_url s url = Some x \<Longrightarrow> \<exists>n. (n, x) \<in> set (data_sources s)"
  by (auto simp: get_data_source_from_url_def split: option.splits dest: map_of_SomeD)

lemma pending_id: "jobs_ok s \<Longrightarrow> (r, job) \<in> set (pending_requests s) \<Longrightarrow> r < next_request_id s"
  by (simp add: jobs_ok_def)

lemma add_pending_inv:
  assumes "url_inv X s" and "find_job s job = Some j" and "job_backend j" and "job_weak_valid j"
    and "job \<notin> snd ` set (pending_requests s)"
  shows "url_inv X (s\<lparr>pending_requests := insort_key fst (next_request_id s, job) (pending_requests s),
                      next_request_id := next_request_id s + 1\<rparr>)"
    and "grows s (s\<lparr>pending_requests := insort_key fst (next_request_id s, job) (pending_requests s),
                      next_request_id := next_request_id s + 1\<rparr>)"
proof -
  have jobs: "jobs_ok s" using assms(1) by (simp add: url_inv_def)
  have fresh: "next_request_id s \<notin> fst ` set (pending_requests s)" using jobs by (force simp: jobs_ok_def)
  have dist: "distinct (map snd (insort_key fst p ps))" if "distinct (map snd ps)" "snd p \<notin> snd ` set ps"
    for p :: "int \<times> nat" and ps
    using that by (induction ps) (auto simp: set_insort_key)
  have d1: "distinct (map fst (insort_key fst (next_request_id s, job) (pending_requests s)))"
    by (rule distinct_insort_pair) (use jobs fresh in \<open>auto simp: jobs_ok_def\<close>)
  have d2: "distinct (map snd (insort_key fst (next_request_id s, job) (pending_requests s)))"
    by (rule dist) (use jobs assms(5) in \<open>auto simp: jobs_ok_def\<close>)
  have "jobs_ok (s\<lparr>pending_requests := insort_key fst (next_request_id s, job) (pending_requests s),
      next_request_id := next_request_id s + 1\<rparr>)"
    unfolding jobs_ok_def
  proof (intro conjI allI impI)
    fix r i
    assume "(r, i) \<in> set (pending_requests (s\<lparr>pending_requests := insort_key fst (next_request_id s, job) (pending_requests s),
      next_request_id := next_request_id s + 1\<rparr>))"
    then have or: "(r = next_request_id s \<and> i = job) \<or> (r, i) \<in> set (pending_requests s)"
      by (simp add: set_insort_key)
    then show "r < next_request_id (s\<lparr>pending_requests := insort_key fst (next_request_id s, job) (pending_requests s),
      next_request_id := next_request_id s + 1\<rparr>)"
      using pending_id [OF jobs, of r i] by auto
    from or show "\<exists>j. find_job (s\<lparr>pending_requests := insort_key fst (next_request_id s, job) (pending_requests s),
      next_request_id := next_request_id s + 1\<rparr>) i = Some j \<and> job_backend j \<and> job_weak_valid j"
      using jobs assms(2-4) by (auto simp: jobs_ok_def)
  qed (use jobs d1 d2 in \<open>auto simp: jobs_ok_def job_ok_def\<close>)
  from pending_inv [OF assms(1) this] show
    "url_inv X (s\<lparr>pending_requests := insort_key fst (next_request_id s, job) (pending_requests s),
                      next_request_id := next_request_id s + 1\<rparr>)"
    "grows s (s\<lparr>pending_requests := insort_key fst (next_request_id s, job) (pending_requests s),
                      next_request_id := next_request_id s + 1\<rparr>)" .
qed

lemma start_request_inv:
  assumes "url_inv X s" and "find_job s job = Some j" and "job_backend j" and "job_weak_valid j"
    and "job \<notin> snd ` set (pending_requests s)" and "url_allowed app schemes (job_url j)"
  shows "\<exists>t b. start_request cur app schemes s job = Some (t, b) \<and> url_inv X t \<and> grows s t \<and> (\<not> b \<longrightarrow> t = s)"
proof -
  have valid: "check_url_is_valid app schemes (job_url j) = Some True"
    using assms(6) by (simp add: check_url_is_valid_def url_allowed_def)
  show ?thesis
  proof (cases "get_data_source_from_url s (job_url j)")
    case None
    with assms valid have "start_request cur app schemes s job = Some (s, False)" by (simp add: start_request_def)
    with assms(1) show ?thesis by auto
  next
    case (Some x)
    obtain n where n: "(n, x) \<in> set (data_sources s)" using looked_up_source [OF Some] by blast
    obtain d where d: "url_objects s x = Some d" "ds_backend d"
      using backend_member [OF _ n] assms(1) by (auto simp: url_inv_def)
    show ?thesis
    proof (cases "should_service_request (ds_client d) (job_url j)")
      case False
      with assms valid Some d have "start_request cur app schemes s job = Some (s, False)"
        by (simp add: start_request_def)
      with assms(1) show ?thesis by auto
    next
      case True
      let ?r = "next_request_id s" and ?path = "url_to_request_path (job_url j)"
      let ?s1 = "s\<lparr>pending_requests := insort_key fst (?r, job) (pending_requests s), next_request_id := ?r + 1\<rparr>"
      let ?k = "j\<lparr>job_allow_caching := allow_caching (ds_client d), add_content_security_policy := True,
                   csp_object_source := get_csp_object_src (ds_client d),
                   csp_frame_source := ''frame-src 'none';'',
                   deny_xframe_options := should_deny_xframe_options (ds_client d),
                   send_content_type_header := False\<rparr>"
      let ?s2 = "put_job job ?k ?s1"
      note p = add_pending_inv [OF assms(1-5)]
      have role: "same_role j ?k" by (simp add: same_role_def)
      have find: "find_job ?s1 job = Some j" using assms(2) by simp
      note q = put_same_role [OF p(1) find role]
      have ds2: "data_sources ?s2 = data_sources s" by (simp add: put_job_def)
      have refs2: "refs ?s2 x > 0" using inv_held_refs [OF q(1)] source_held [of n x ?s2 X] n ds2 by simp
      obtain s3 where s3: "post_url_callback cur ?s2 UI (GetMimeTypeOnUI x ?path job) = Some s3" "url_inv X s3"
        "quiet {(runner ?s2 UI, GetMimeTypeOnUI x ?path job)} ?s2 s3"
        using post_url_callback_quiet [OF q(1), of "GetMimeTypeOnUI x ?path job" UI cur] refs2 by auto
      have "data_sources s3 = data_sources s" using s3(3) ds2 by (simp add: quiet_def same_layout_def)
      then have refs3: "refs s3 x > 0" using inv_held_refs [OF s3(2)] source_held [of n x s3 X] n by simp
      obtain s4 where s4: "post_url_callback cur s3 UI (CallStartRequest x ?path ?r) = Some s4" "url_inv X s4" "grows s3 s4"
        using post_url_callback_inv [OF s3(2), of "CallStartRequest x ?path ?r" UI cur] refs3 by (auto elim: good_resultE)
      have "?r \<notin> fst ` set (pending_requests s)" using assms(1) by (force simp: url_inv_def jobs_ok_def)
      then have "start_request cur app schemes s job = Some (s4, True)"
        using assms(2) valid Some d True s3(1) s4(1) by (simp add: start_request_def Let_def)
      with s4(2) grows_trans [OF p(2) grows_trans [OF q(2) grows_trans [OF quiet_grows [OF s3(3)] s4(3)]]]
      show ?thesis by blast
    qed
  qed
qed

lemma start_job_inv:
  assumes "url_inv X s" and "thread_runners (url_threads s) IO = Some cur" and "browser_state_alive s"
    and "find_job s job = Some j" and "\<not> job_backend j" and "job_weak_valid j"
    and "url_allowed app schemes (job_url j)"
  shows "good_result X s (start_job cur shared app schemes s job)"
proof -
  obtain s1 where s1: "get_url_data_manager_ios_backend_on_io_thread cur shared s = Some s1" "url_inv X s1"
    "grows s s1" "url_jobs s1 = url_jobs s" "backend_alive s1"
    using get_backend_inv [OF assms(1-3), of shared] by blast
  let ?k = "j\<lparr>job_backend := True\<rparr>"
  let ?s = "put_job job ?k s1"
  have find: "find_job s1 job = Some j" using assms(4) find_job_layout [OF s1(4)] by simp
  have jobs: "jobs_ok s1" using s1(2) by (simp add: url_inv_def)
  have new: "job \<notin> snd ` set (pending_requests s1)" using pending_job [OF jobs] find assms(5) by fastforce
  have "job_ok s1 ?k" using found_job_ok [OF jobs find] s1(5) by (simp add: job_ok_def)
  then have inv: "url_inv X ?s" "grows s1 ?s"
    using put_job_inv [OF s1(2) find, of ?k X] new by (simp_all add: job_list_def)
  have find2: "find_job ?s job = Some ?k" using find by simp
  have new2: "job \<notin> snd ` set (pending_requests ?s)" using new by (simp add: put_job_def)
  obtain t b where t: "start_request cur app schemes ?s job = Some (t, b)" "url_inv X t" "grows ?s t" "\<not> b \<longrightarrow> t = ?s"
    using start_request_inv [OF inv(1) find2 _ _ new2, of app schemes cur] assms(6,7) by auto
  show ?thesis
  proof (cases b)
    case True
    with s1 find t grows_trans [OF s1(3) grows_trans [OF inv(2) t(3)]] show ?thesis
      by (auto simp: start_job_def intro: good_resultI)
  next
    case False
    with t have te: "t = ?s" by simp
    have role: "same_role ?k (job_notify NotifyStartError ?k)" by (auto simp: same_role_def job_notify_def)
    from put_same_role [OF inv(1) find2 role] show ?thesis
      using s1 find t False te find2 grows_trans [OF s1(3) grows_trans [OF inv(2)]]
      by (auto simp: start_job_def intro: good_resultI)
  qed
qed

section \<open>Answers\<close>

lemma held_core:
  assumes "core X s" and "mset (map fst hs) + Y = mset (map fst (held_callbacks s)) + X"
  shows "core Y (s\<lparr>held_callbacks := hs\<rparr>)"
proof -
  let ?t = "s\<lparr>held_callbacks := hs\<rparr>"
  have same: "scheduled ?t = scheduled s" "queue ?t = queue s" "refs ?t = refs s"
    by (simp_all add: queue_def scheduled_def refs_def fun_eq_iff)
  have "holders ?t + Y = holders s + X" using assms(2) by (simp add: holders_def same ac_simps)
  then show ?thesis
    using assms(1) by (simp add: core_def refs_ok_def posted_wf_def deletions_ok_def history_ok_def same)
qed

lemma held_inv:
  assumes "url_inv X s" and "mset (map fst hs) + Y = mset (map fst (held_callbacks s)) + X"
  shows "url_inv Y (s\<lparr>held_callbacks := hs\<rparr>)" and "grows s (s\<lparr>held_callbacks := hs\<rparr>)"
proof -
  have "core Y (s\<lparr>held_callbacks := hs\<rparr>)" using held_core [OF _ assms(2)] assms(1) by (simp add: url_inv_def)
  moreover have "jobs_ok (s\<lparr>held_callbacks := hs\<rparr>)"
    using assms(1) by (simp add: url_inv_def jobs_ok_def job_ok_def)
  ultimately show "url_inv Y (s\<lparr>held_callbacks := hs\<rparr>)" and "grows s (s\<lparr>held_callbacks := hs\<rparr>)"
    using assms(1) jobs_layout_ok [of "s\<lparr>held_callbacks := hs\<rparr>" s] by (simp_all add: url_inv_def)
qed

lemma requests_inv: "url_inv X s \<Longrightarrow> url_inv X (s\<lparr>data_requests := l\<rparr>)"
proof -
  assume inv: "url_inv X s"
  let ?t = "s\<lparr>data_requests := l\<rparr>"
  have same: "scheduled ?t = scheduled s" "queue ?t = queue s" "refs ?t = refs s" "holders ?t = holders s"
    by (simp_all add: queue_def scheduled_def refs_def holders_def fun_eq_iff)
  have "find_job ?t = find_job s" by (simp add: find_job_def fun_eq_iff)
  then have "jobs_ok ?t" using inv by (simp add: url_inv_def jobs_ok_def job_ok_def)
  moreover have "core X ?t"
    using inv by (simp add: url_inv_def core_def refs_ok_def posted_wf_def deletions_ok_def history_ok_def same)
  ultimately show ?thesis using inv jobs_layout_ok [of ?t s] by (simp add: url_inv_def)
qed

lemma call_start_request_inv:
  assumes "url_inv X s" and "refs s x > 0"
  shows "good_result X s (call_start_request s x path r)"
proof -
  obtain t where t: "add_ref x s = Some t" "url_inv (add_mset x X) t" "quiet {} s t"
    using add_ref_inv [OF assms] by blast
  let ?hs = "held_callbacks t @ [(x, r)]"
  have "mset (map fst ?hs) + X = mset (map fst (held_callbacks t)) + add_mset x X" by simp
  note h = held_inv [OF t(2) this]
  let ?u = "t\<lparr>held_callbacks := ?hs, data_requests := data_requests t @ [(x, path, r)]\<rparr>"
  have "url_inv X ?u" "grows t ?u" using requests_inv [OF h(1)] h(2) by (simp_all add: grows_def queue_def scheduled_def)
  then show ?thesis
    using t(1) grows_trans [OF quiet_grows [OF t(3)]]
    by (auto simp: call_start_request_def intro: good_resultI)
qed

lemma get_mime_type_on_ui_inv:
  assumes "url_inv X s" and "thread_runners (url_threads s) UI = Some cur" and "refs s x > 0"
  shows "good_result X s (get_mime_type_on_ui cur s x path job)"
proof -
  obtain d where d: "url_objects s x = Some d" using refs_pos_alive [OF assms(3)] by blast
  have "good_result X s (post_url_callback cur s IO (MimeTypeAvailable job x (get_mime_type (ds_client d) path)))"
    by (rule post_url_callback_inv [OF assms(1)]) (use assms(3) in auto)
  with inv_checked_on [OF assms(1,2)] d show ?thesis by (simp add: get_mime_type_on_ui_def)
qed

lemma send_response_inv:
  assumes "url_inv X s" and "url_objects s x \<noteq> None"
  shows "good_result X s (send_response cur s x r bytes)"
proof (cases "x \<in> set (scheduled s)")
  case True
  with assms(1) show ?thesis by (auto simp: send_response_def scheduled_iff intro: good_resultI)
next
  case False
  obtain d where d: "url_objects s x = Some d" using assms(2) by auto
  then have "ds_refs d > 0" using assms(1) False by (auto simp: url_inv_def core_def deletions_ok_def)
  with d have "refs s x > 0" by (simp add: refs_def)
  then have "good_result X s (post_url_callback cur s IO (SendResponseOnIOThread x r bytes))"
    by (intro post_url_callback_inv [OF assms(1)]) auto
  with False show ?thesis by (simp add: send_response_def scheduled_iff)
qed

lemma backend_data_available_inv:
  assumes "url_inv X s"
  shows "good_result X s (backend_data_available s r bytes)"
proof (cases "map_of (pending_requests s) r")
  case None
  with assms show ?thesis by (auto simp: backend_data_available_def intro: good_resultI)
next
  case (Some job)
  let ?s = "s\<lparr>pending_requests := AList.delete r (pending_requests s)\<rparr>"
  have jobs: "jobs_ok s" using assms by (simp add: url_inv_def)
  have "job \<in> snd ` set (pending_requests s)" using map_of_SomeD [OF Some] by force
  then obtain j where j: "find_job s job = Some j" using pending_job [OF jobs] by blast
  have "set (AList.delete r (pending_requests s)) \<subseteq> set (pending_requests s)"
    by (auto simp: AList.delete_eq)
  moreover have "distinct (map fst (AList.delete r (pending_requests s)))"
    "distinct (map snd (AList.delete r (pending_requests s)))"
    using jobs by (auto simp: jobs_ok_def AList.delete_eq distinct_map_filter)
  ultimately have inv: "url_inv X ?s" "grows s ?s"
    by (rule fewer_pending_inv [OF assms])+
  obtain k where k: "job_data_available j bytes = Some k" "same_role j k"
    using job_data_available_role by blast
  have find: "find_job ?s job = Some j" using j by simp
  from put_same_role [OF inv(1) find k(2)] grows_trans [OF inv(2)] Some k(1) j show ?thesis
    by (auto simp: backend_data_available_def intro: good_resultI)
qed

lemma send_response_on_io_inv:
  assumes "url_inv X s" and "thread_runners (url_threads s) IO = Some cur" and "refs s x > 0"
  shows "good_result X s (send_response_on_io_thread cur s x r bytes)"
proof -
  obtain d where d: "url_objects s x = Some d" using refs_pos_alive [OF assms(3)] by blast
  have "backend_alive s" if "ds_backend d"
    using assms(1) backend_flag [of s x d] d that by (auto simp: url_inv_def backend_ok_def)
  with inv_checked_on [OF assms(1,2)] d assms(1) backend_data_available_inv [OF assms(1), of r bytes]
  show ?thesis by (auto simp: send_response_on_io_thread_def intro: good_resultI)
qed

lemma put_job_refs [simp]: "refs (put_job job k s) = refs s"
  by (simp add: put_job_def refs_def fun_eq_iff)

lemma set_source_inv:
  assumes "url_inv X s" and "find_job s job = Some j" and "refs s x > 0"
  shows "\<exists>t k. set_source cur job x s = Some t \<and> url_inv X t \<and> grows s t
     \<and> find_job t job = Some k"
proof -
  obtain t where t: "add_ref x s = Some t" "url_inv (add_mset x X) t" "quiet {} s t"
    using add_ref_inv [OF assms(1,3)] by blast
  have "url_jobs t = url_jobs s" using t(3) by (simp add: quiet_def same_layout_def)
  note find = assms(2) [folded find_job_layout [OF this]]
  let ?k = "j\<lparr>job_source := Some x\<rparr>"
  have jobs: "jobs_ok t" using t(2) by (simp add: url_inv_def)
  have "job_ok t ?k" using found_job_ok [OF jobs find] by (simp add: job_ok_def)
  moreover have "job_backend ?k \<and> job_weak_valid ?k" if "job \<in> snd ` set (pending_requests t)"
    using pending_job [OF jobs that] find by simp
  moreover have "mset (job_list (Some ?k)) + (mset (job_list (Some j)) + X)
      = mset (job_list (Some j)) + add_mset x X" by (simp add: job_list_def)
  ultimately have inv: "url_inv (mset (job_list (Some j)) + X) (put_job job ?k t)" "grows t (put_job job ?k t)"
    using put_job_inv [OF t(2) find, of ?k] by simp_all
  have find2: "find_job (put_job job ?k t) job = Some ?k" using find by simp
  note gr = grows_trans [OF quiet_grows [OF t(3)] inv(2)]
  show ?thesis
  proof (cases "job_source j")
    case None
    with inv t(1) assms(2) find2 gr show ?thesis by (simp add: set_source_def job_list_def)
  next
    case (Some old)
    have "core (add_mset old X) (put_job job ?k t)" "wake (put_job job ?k t)"
      using inv(1) Some by (simp_all add: job_list_def url_inv_def)
    then obtain u where u: "release cur old (put_job job ?k t) = Some u" "core X u"
      "quiet {} (put_job job ?k t) u" "wake u" using release_ok by blast
    have "url_inv X u" by (rule quiet_inv [OF inv(1) u(3,2,4)]) simp
    moreover have "url_jobs u = url_jobs (put_job job ?k t)" using u(3) by (simp add: quiet_def same_layout_def)
    then have "find_job u job = Some ?k" using find2 find_job_layout by metis
    ultimately show ?thesis
      using Some u(1) t(1) assms(2) grows_trans [OF gr quiet_grows [OF u(3)]] by (simp add: set_source_def)
  qed
qed

lemma mime_type_available_inv:
  assumes "url_inv X s" and "find_job s job = Some j" and "refs s x > 0"
  shows "good_result X s (mime_type_available cur s job x mime)"
proof -
  let ?s = "put_job job (j\<lparr>job_mime_type := mime\<rparr>) s"
  have role: "same_role j (j\<lparr>job_mime_type := mime\<rparr>)" by (simp add: same_role_def)
  note inv = put_same_role [OF assms(1,2) role]
  have find: "find_job ?s job = Some (j\<lparr>job_mime_type := mime\<rparr>)" using assms(2) by simp
  have "\<exists>t k. (if mime = ''text/html'' then set_source cur job x ?s else Some ?s) = Some t \<and> url_inv X t
      \<and> grows ?s t \<and> find_job t job = Some k"
    using set_source_inv [OF inv(1) find, of x cur] assms(3) inv(1) find by auto
  then obtain t k where t: "(if mime = ''text/html'' then set_source cur job x ?s else Some ?s) = Some t"
    "url_inv X t" "grows ?s t" "find_job t job = Some k" by blast
  have role2: "same_role k (job_notify NotifyHeadersComplete k)" by (auto simp: same_role_def job_notify_def)
  from put_same_role [OF t(2,4) role2] t assms(2) grows_trans [OF inv(2) grows_trans [OF t(3)]]
  show ?thesis by (auto simp: mime_type_available_def Let_def intro: good_resultI)
qed

section \<open>The end of the backend\<close>

lemma forget_backend_ok:
  assumes "core X s" and "\<forall>x\<in>snd ` set m. url_objects s x \<noteq> None"
  shows "\<exists>t. forget_backend m s = Some t \<and> core X t \<and> sources_changed s t
     \<and> data_sources t = data_sources s \<and> held_callbacks t = held_callbacks s
     \<and> (\<forall>y e. url_objects t y = Some e \<longrightarrow> (\<exists>d. url_objects s y = Some d
            \<and> (ds_backend e \<longrightarrow> ds_backend d \<and> y \<notin> snd ` set m)))"
  using assms
proof (induction m arbitrary: s)
  case Nil
  then show ?case by (auto simp: sources_changed_def)
next
  case (Cons p m)
  obtain n x where p: "p = (n, x)" by (cases p)
  then obtain d where d: "url_objects s x = Some d" using Cons.prems(2) by auto
  let ?s = "s\<lparr>url_objects := (url_objects s)(x \<mapsto> d\<lparr>ds_backend := False\<rparr>)\<rparr>"
  have core: "core X ?s" by (rule flag_core [OF Cons.prems(1) d])
  have alive: "\<forall>y\<in>snd ` set m. url_objects ?s y \<noteq> None"
    using Cons.prems(2) by auto
  obtain t where t: "forget_backend m ?s = Some t" "core X t" "sources_changed ?s t"
    "data_sources t = data_sources ?s" "held_callbacks t = held_callbacks ?s"
    and objs: "\<And>y e. url_objects t y = Some e \<Longrightarrow> \<exists>d. url_objects ?s y = Some d
            \<and> (ds_backend e \<longrightarrow> ds_backend d \<and> y \<notin> snd ` set m)"
    using Cons.IH [OF core alive] by blast
  have "\<exists>d'. url_objects s y = Some d' \<and> (ds_backend e \<longrightarrow> ds_backend d' \<and> y \<notin> snd ` set (p # m))"
    if "url_objects t y = Some e" for y e
    using objs [OF that] d p by (cases "y = x") auto
  moreover have "forget_backend (p # m) s = Some t" using t(1) d p by (simp add: update_source_def)
  ultimately show ?case using t(2-5) by (auto simp: sources_changed_def)
qed

definition detached :: "url_data \<Rightarrow> bool" where
  "detached s \<longleftrightarrow> (\<forall>x d. url_objects s x = Some d \<longrightarrow> \<not> ds_backend d)"

lemma release_sources_ok:
  assumes "core X s" and "wake s" and "data_sources s = m"
    and "detached s"
  shows "\<exists>t. release_sources cur m s = Some t \<and> core X t \<and> wake t \<and> data_sources t = []
     \<and> detached t \<and> quiet {} s (t\<lparr>data_sources := m\<rparr>)"
  using assms
proof (induction m arbitrary: s)
  case Nil
  from Nil.prems(3) have "s\<lparr>data_sources := []\<rparr> = s" by (cases s) simp
  then have "quiet {} s (s\<lparr>data_sources := []\<rparr>)" by simp
  with Nil show ?case by simp
next
  case (Cons p m)
  obtain n x where p: "p = (n, x)" by (cases p)
  let ?s = "s\<lparr>data_sources := m\<rparr>"
  have core: "core (add_mset x X) ?s"
    using Cons.prems(1,3) p by (intro core_data_sources) simp_all
  have wake: "wake ?s" using Cons.prems(2) by (simp add: wake_def scheduled_def queue_def accepts_def runner_def)
  obtain u where u: "release cur x ?s = Some u" "core X u" "quiet {} ?s u" "wake u"
    using release_ok [OF core wake] by blast
  have ds: "data_sources u = m" using u(3) by (simp add: quiet_def same_layout_def)
  have flags: "detached u"
    using quiet_object [OF u(3)] Cons.prems(4) unfolding detached_def by (fastforce dest!: same_sourceD)
  obtain t where t: "release_sources cur m u = Some t" "core X t" "wake t" "data_sources t = []"
    "detached t" "quiet {} u (t\<lparr>data_sources := m\<rparr>)"
    using Cons.IH [OF u(2,4) ds flags] by blast
  have "quiet {} ?s (t\<lparr>data_sources := m\<rparr>)" by (rule quiet_trans [OF u(3) t(6)])
  then have "quiet {} s (t\<lparr>data_sources := p # m\<rparr>)"
    using Cons.prems(3)
    by (simp add: quiet_def same_layout_def queue_def scheduled_def runner_def)
  with u(1) t p show ?case by simp
qed

lemma destroy_backend_inv:
  assumes "url_inv X s" and "\<not> browser_state_alive s"
  shows "good_result X s (destroy_backend cur s)"
proof -
  have bk: "backend_ok s" and jobs: "jobs_ok s" and core: "core X s" using assms(1) by (simp_all add: url_inv_def)
  have alive: "\<forall>x\<in>snd ` set (data_sources s). url_objects s x \<noteq> None"
    using backend_member [OF bk] by fastforce
  obtain s1 where s1: "forget_backend (data_sources s) s = Some s1" "core X s1" "sources_changed s s1"
    "data_sources s1 = data_sources s"
    and objs: "\<And>y e. url_objects s1 y = Some e \<Longrightarrow> \<exists>d. url_objects s y = Some d
            \<and> (ds_backend e \<longrightarrow> ds_backend d \<and> y \<notin> snd ` set (data_sources s))"
    using forget_backend_ok [OF core alive] by blast
  have no_flag: "detached s1"
    unfolding detached_def
  proof (intro allI impI notI)
    fix y e
    assume "url_objects s1 y = Some e" "ds_backend e"
    with objs [OF this(1)] obtain d where "url_objects s y = Some d" "ds_backend d" "y \<notin> snd ` set (data_sources s)"
      by blast
    with backend_flag [OF bk this(1,2)] show False by force
  qed
  have wake: "wake s1" using assms(1) sources_changed_ok(3) [OF s1(3)] by (simp add: url_inv_def)
  obtain t where t: "release_sources cur (data_sources s1) s1 = Some t" "core X t" "wake t" "data_sources t = []"
    "detached t" "quiet {} s1 (t\<lparr>data_sources := data_sources s1\<rparr>)"
    using release_sources_ok [OF s1(2) wake refl no_flag] by blast
  let ?u = "t\<lparr>data_sources := data_sources s1\<rparr>"
  let ?v = "t\<lparr>backend_alive := False\<rparr>"
  have lay: "same_layout s1 ?u" using t(6) by (rule quiet_layout)
  have core_v: "core X ?v"
    using t(2) by (simp add: core_def refs_ok_def posted_wf_def deletions_ok_def history_ok_def holders_def
        queue_def refs_def scheduled_def)
  have "url_jobs ?v = url_jobs s" using lay s1(3) by (simp add: same_layout_def sources_changed_def)
  note find = find_job_layout [OF this]
  have none: "find_job s i = None" for i using jobs assms(2) by (simp add: jobs_ok_def)
  have pend: "pending_requests ?v = pending_requests s"
    using lay s1(3) by (simp add: same_layout_def sources_changed_def)
  have "pending_requests s = []"
    using pending_job [OF jobs] none by (cases "pending_requests s") (force simp del: split_paired_Ex)+
  then have "jobs_ok ?v" unfolding jobs_ok_def pend find using none by simp
  moreover have "backend_ok ?v" using t(4,5) by (simp add: backend_ok_def detached_def)
  moreover have "wake ?v" using t(3) by (simp add: wake_def scheduled_def queue_def accepts_def runner_def)
  moreover have "queue_ok ?v"
  proof -
    have "queue_ok s1" using assms(1) sources_changed_ok(2) [OF s1(3)] by (simp add: url_inv_def)
    then have "queue_ok ?u" by (rule queue_ok_quiet [OF _ t(6)]) simp
    moreover have e: "entry_ok ?u e = entry_ok ?v e" for e by (cases e) (simp add: runner_def)
    ultimately show ?thesis by (simp add: queue_ok_def e) (simp add: queue_def)
  qed
  ultimately have inv: "url_inv X ?v" using core_v by (simp add: url_inv_def)
  have "grows s1 ?u" by (rule quiet_grows [OF t(6)])
  then have "grows s1 ?v" by (simp add: grows_def queue_def scheduled_def)
  with sources_changed_ok(4) [OF s1(3)] have "grows s ?v" by (rule grows_trans)
  with inv s1(1) t(1) show ?thesis by (simp add: destroy_backend_def good_result_def)
qed

definition add_queued :: "url_data \<Rightarrow> bool" where
  "add_queued s \<longleftrightarrow> list_ex (\<lambda>e. case snd e of AddDataSourceOnIOThread x \<Rightarrow> True | _ \<Rightarrow> False) (queue s)"

lemma destroy_browser_state_inv:
  assumes "url_inv X s" and "browser_state_alive s" and "\<And>job. find_job s job = None" and "\<not> add_queued s"
  shows "good_result X s (destroy_browser_state cur s)"
proof -
  let ?s = "s\<lparr>browser_state_alive := False, has_manager := False\<rparr>"
  have same: "scheduled ?s = scheduled s" "queue ?s = queue s" "refs ?s = refs s" "holders ?s = holders s"
    "runner ?s = runner s" "accepts ?s = accepts s"
    by (simp_all add: queue_def scheduled_def refs_def holders_def runner_def accepts_def fun_eq_iff)
  have core: "core X ?s"
    using assms(1) by (simp add: url_inv_def core_def refs_ok_def posted_wf_def deletions_ok_def history_ok_def same)
  have "jobs_ok ?s" using assms(1,3) by (simp add: url_inv_def jobs_ok_def job_ok_def)
  moreover have "entry_ok ?s e" if "e \<in> set (queue s)" for e
  proof -
    obtain t c where e: "e = (t, c)" by (cases e)
    have "queue_ok s" using assms(1) by (simp add: url_inv_def)
    with that e have "entry_ok s (t, c)" unfolding queue_ok_def by blast
    moreover have "c \<noteq> AddDataSourceOnIOThread x" for x
      using assms(4) that e by (force simp: add_queued_def list_ex_iff)
    ultimately show ?thesis using assms(2) e same by simp
  qed
  ultimately have inv: "url_inv X ?s"
    using assms(1) core same by (simp add: url_inv_def wake_def queue_ok_def backend_ok_def)
  have grows: "grows s ?s" by (simp add: grows_def same)
  show ?thesis
  proof (cases "backend_alive s")
    case False
    with inv grows show ?thesis by (auto simp: destroy_browser_state_def intro: good_resultI)
  next
    case True
    obtain t where t: "hand_over cur ?s IO DeleteBackend False = Some (t, accepts ?s IO)" "core X t"
      "quiet {(runner ?s IO, DeleteBackend)} ?s t" "scheduled t = scheduled ?s"
      using hand_over_ok [of DeleteBackend X ?s IO cur False] core by (auto simp: bound_list_def split: if_splits)
    have "wake t" using wake_quiet [OF _ t(3,4)] inv by (simp add: url_inv_def)
    then have inv_t: "url_inv X t" by (rule quiet_inv [OF inv t(3,2)]) simp
    note gr = grows_trans [OF grows quiet_grows [OF t(3)]]
    have "\<not> browser_state_alive t" using t(3) by (simp add: quiet_def same_layout_def)
    from destroy_backend_inv [OF inv_t this, of cur] True t(1) inv_t gr grows_trans [OF gr] show ?thesis
      by (auto simp: destroy_browser_state_def elim!: good_resultE intro: good_resultI)
  qed
qed

section \<open>Running the threads\<close>

lemma runner_Some: "url_inv X s \<Longrightarrow> i \<noteq> ID_COUNT \<Longrightarrow> thread_runners (url_threads s) i = Some (runner s i)"
  using inv_threads [of X s] by (cases i) (auto simp: threads_good_def runner_def)

lemma home_not_count [simp]: "home c \<noteq> ID_COUNT"
  by (cases c) simp_all

lemma run_callback_inv:
  assumes "url_inv (mset (bound_list c) + X) s" and "entry_ok s (cur, c)" and "c \<noteq> DeleteDataSources"
  shows "good_result (mset (bound_list c) + X) s (run_callback cur shared s c)"
proof -
  have cur: "thread_runners (url_threads s) (home c) = Some cur"
    using runner_Some [OF assms(1), of "home c"] assms(2) by simp
  show ?thesis
  proof (cases c)
    case DeleteDataSources
    with assms(3) show ?thesis by simp
  next
    case DeleteBackend
    with assms show ?thesis by (simp add: destroy_backend_inv)
  next
    case (AddDataSourceOnIOThread x)
    with assms cur show ?thesis by (simp add: bound_list_def add_on_io_inv)
  next
    case (GetMimeTypeOnUI x path job)
    with assms cur show ?thesis by (simp add: bound_list_def get_mime_type_on_ui_inv)
  next
    case (CallStartRequest x path r)
    with assms cur show ?thesis by (simp add: bound_list_def call_start_request_inv)
  next
    case (MimeTypeAvailable job x mime)
    with assms show ?thesis
      by (auto simp: bound_list_def mime_type_available_inv split: option.splits intro: good_resultI)
  next
    case (SendResponseOnIOThread x r bytes)
    with assms cur show ?thesis by (simp add: bound_list_def send_response_on_io_inv)
  qed
qed

definition taken :: "nat \<Rightarrow> url_data \<Rightarrow> url_data" where
  "taken cur s = s\<lparr>url_threads := (url_threads s)\<lparr>posted := snd (the (take_task cur (posted (url_threads s))))\<rparr>\<rparr>"

lemma taken_facts:
  assumes "url_inv X s" and "take_entry cur (queue s) = Some (c, rest)"
  shows "queue (taken cur s) = rest" and "core (mset (bound_list c) + X) (taken cur s)"
    and "entry_ok (taken cur s) (cur, c)" and "backend_ok (taken cur s)" and "jobs_ok (taken cur s)"
    and "queue_ok (taken cur s)" and "c \<noteq> DeleteDataSources \<Longrightarrow> wake (taken cur s)"
    and "scheduled (taken cur s) = scheduled s"
proof -
  let ?t = "taken cur s"
  have wf: "posted_wf s" and core: "core X s" and qok: "queue_ok s" and wake: "wake s"
    using assms(1) by (simp_all add: url_inv_def core_def)
  obtain t ts where t: "take_task cur (posted (url_threads s)) = Some (t, ts)"
    and rest: "rest = map (task_entry (url_callbacks s)) ts"
    using assms(2) by (auto simp: queue_def take_entry_task)
  have th: "url_threads ?t = (url_threads s)\<lparr>posted := ts\<rparr>" using t by (simp add: taken_def)
  show q: "queue ?t = rest" using rest th by (simp add: queue_def) (simp add: taken_def)
  have m: "mset (queue s) = add_mset (cur, c) (mset rest)" by (rule take_entry_mset [OF assms(2)])
  have "mset (concat (map (bound_list \<circ> snd) (queue s))) = mset (bound_list c) + mset (concat (map (bound_list \<circ> snd) rest))"
  proof -
    have "mset (concat (map f xs)) = \<Sum>\<^sub># (image_mset (mset \<circ> f) (mset xs))" for f :: "nat \<times> url_callback \<Rightarrow> nat list" and xs
      by (induction xs) simp_all
    with m show ?thesis by simp
  qed
  then have holders: "holders ?t + (mset (bound_list c) + X) = holders s + X"
    by (simp add: holders_def q) (simp add: taken_def ac_simps)
  have refs: "refs ?t = refs s" by (simp add: refs_def taken_def fun_eq_iff)
  have sch: "scheduled ?t = scheduled s" by (simp add: scheduled_def taken_def)
  have objs: "url_objects ?t = url_objects s" "deleted_sources ?t = deleted_sources s"
    "next_source ?t = next_source s" "thread_runners (url_threads ?t) = thread_runners (url_threads s)"
    by (simp_all add: taken_def)
  have "posted_wf ?t"
    using wf take_task_set [OF t] unfolding posted_wf_def th by (auto simp: taken_def)
  moreover have "threads_good (url_threads ?t)"
    using core unfolding th core_def threads_good_def threads_ok_def by simp
  moreover have "refs_ok (mset (bound_list c) + X) ?t"
    using core unfolding core_def refs_ok_def holders refs by blast
  moreover have "deletions_ok ?t" "history_ok ?t"
    using core unfolding core_def deletions_ok_def history_ok_def sch objs by simp_all
  ultimately show "core (mset (bound_list c) + X) ?t" unfolding core_def by blast
  show "scheduled ?t = scheduled s" by (rule sch)
  have e: "entry_ok ?t e = entry_ok s e" for e by (cases e) (simp add: runner_def taken_def)
  have "set (queue s) = insert (cur, c) (set rest)" using m by (metis set_mset_add_mset_insert set_mset_mset)
  with qok show "entry_ok ?t (cur, c)" "queue_ok ?t" unfolding queue_ok_def e q by blast+
  show "backend_ok ?t" using assms(1) by (simp add: url_inv_def backend_ok_def taken_def)
  have "url_jobs ?t = url_jobs s" by (simp add: taken_def)
  note find = find_job_layout [OF this]
  have eqs: "pending_requests ?t = pending_requests s" "next_request_id ?t = next_request_id s"
    "browser_state_alive ?t = browser_state_alive s" "\<And>x. job_ok ?t x = job_ok s x"
    by (simp_all add: taken_def job_ok_def)
  have "jobs_ok s" using assms(1) by (simp add: url_inv_def)
  then show "jobs_ok ?t" unfolding jobs_ok_def eqs find .
  show "wake ?t" if "c \<noteq> DeleteDataSources"
    using wake that \<open>set (queue s) = insert (cur, c) (set rest)\<close>
    unfolding wake_def sch q by (auto simp: runner_def accepts_def th)
qed

text \<open>One turn of a thread.\<close>

lemma run_next_ok:
  assumes "url_inv X s" and "take_entry cur (queue s) = Some (c, rest)"
  shows "\<exists>t q. run_next cur shared s = Some t \<and> url_inv X t \<and> grows (taken cur s) t
     \<and> (c = DeleteDataSources \<longrightarrow> set (scheduled s) \<subseteq> snd ` set (deleted_sources t))"
proof -
  note tk = taken_facts [OF assms]
  have wf: "posted_wf s" using assms(1) by (simp add: url_inv_def core_def)
  have run: "run_next cur shared s = Option.bind (run_callback cur shared (taken cur s) c) (release_bound cur c)"
    using run_next_queue [OF wf, of cur shared] assms(2) by (simp add: taken_def)
  show ?thesis
  proof (cases "c = DeleteDataSources")
    case True
    have "thread_runners (url_threads s) UI = Some cur"
      using runner_Some [OF assms(1), of UI] tk(3) True by (simp add: taken_def runner_def)
    then have ui: "thread_runners (url_threads (taken cur s)) UI = Some cur" by (simp add: taken_def)
    have core: "core X (taken cur s)" using tk(2) True by (simp add: bound_list_def)
    obtain t where t: "delete_data_sources cur (taken cur s) = Some t" "core X t" "quiet {} (taken cur s) t" "wake t"
      "set (scheduled (taken cur s)) \<subseteq> snd ` set (deleted_sources t)"
      using delete_data_sources_ok [OF core ui] by blast
    have "url_inv X t"
      using t(2,4) backend_ok_quiet [OF tk(4) t(3,2)] jobs_ok_layout [OF tk(5) quiet_layout [OF t(3)]]
        queue_ok_quiet [OF tk(6) t(3)] by (simp add: url_inv_def)
    with run True t quiet_grows [OF t(3)] tk(8) show ?thesis by (simp add: release_bound_def)
  next
    case False
    have inv: "url_inv (mset (bound_list c) + X) (taken cur s)"
      using tk False by (simp add: url_inv_def)
    obtain u where u: "run_callback cur shared (taken cur s) c = Some u" "url_inv (mset (bound_list c) + X) u"
      "grows (taken cur s) u"
      using run_callback_inv [OF inv tk(3) False] by (rule good_resultE)
    obtain t where "release_bound cur c u = Some t" "url_inv X t" "grows u t"
      using release_bound_inv [OF u(2)] by (rule good_resultE)
    with run False u grows_trans [OF u(3)] show ?thesis by auto
  qed
qed

section \<open>Any sequence of events\<close>

text \<open>
  What the callers keep to: sources are added on the UI thread, jobs are started once, on the IO
  thread and with an allowed URL, and killed before they are destroyed when they were started;
  one read is outstanding at a time; a browser state ends when its jobs are gone and no source is
  on its way to it. Clients and sources may answer at any time and from any thread.
\<close>

fun url_event_allowed :: "(gurl \<Rightarrow> bool) \<Rightarrow> string list \<Rightarrow> url_data \<Rightarrow> url_event \<Rightarrow> bool" where
  "url_event_allowed app schemes s (AddSource cur client) \<longleftrightarrow> cur = runner s UI \<and> browser_state_alive s"
| "url_event_allowed app schemes s (RunNext cur) \<longleftrightarrow> True"
| "url_event_allowed app schemes s (ClientResponds cur k bytes) \<longleftrightarrow> k < length (held_callbacks s)"
| "url_event_allowed app schemes s (ClientDropsCallback cur k) \<longleftrightarrow> k < length (held_callbacks s)"
| "url_event_allowed app schemes s (SourceResponds cur source r bytes) \<longleftrightarrow> url_objects s source \<noteq> None"
| "url_event_allowed app schemes s (CreateJob url incognito) \<longleftrightarrow> browser_state_alive s"
| "url_event_allowed app schemes s (StartJob cur job) \<longleftrightarrow>
     cur = runner s IO \<and> browser_state_alive s
     \<and> (case find_job s job of None \<Rightarrow> False
        | Some j \<Rightarrow> \<not> job_backend j \<and> JobKilled \<notin> set (job_events j) \<and> url_allowed app schemes (job_url j))"
| "url_event_allowed app schemes s (KillJob job) \<longleftrightarrow> find_job s job \<noteq> None"
| "url_event_allowed app schemes s (DestroyJob cur job) \<longleftrightarrow>
     (case find_job s job of None \<Rightarrow> False
      | Some j \<Rightarrow> job_backend j \<longrightarrow> JobKilled \<in> set (job_events j))"
| "url_event_allowed app schemes s (ReadJob job n) \<longleftrightarrow>
     (case find_job s job of None \<Rightarrow> False | Some j \<Rightarrow> \<not> pending_buf j)"
| "url_event_allowed app schemes s (DeleteAtShutdown cur) \<longleftrightarrow> cur = runner s UI"
| "url_event_allowed app schemes s (DestroyBrowserState cur) \<longleftrightarrow>
     browser_state_alive s \<and> list_all (\<lambda>j. j = None) (url_jobs s) \<and> \<not> add_queued s"
| "url_event_allowed app schemes s (StopWebThread i) \<longleftrightarrow> i \<noteq> ID_COUNT \<and> accepts s i"

lemma stop_thread_inv:
  assumes "url_inv X s" and "accepts s i"
  shows "\<exists>g. destroy_web_thread (url_threads s) i = Some g \<and> url_inv X (s\<lparr>url_threads := g\<rparr>)"
proof -
  let ?g = "(url_threads s)\<lparr>thread_states := (thread_states (url_threads s))(i := SHUTDOWN)\<rparr>"
  let ?s = "s\<lparr>url_threads := ?g\<rparr>"
  have good: "threads_good (url_threads s)" by (rule inv_threads [OF assms(1)])
  have run: "thread_states (url_threads s) i = RUNNING" using assms(2) by (simp add: accepts_def)
  have "(url_threads s)\<lparr>globals_lock := False\<rparr> = url_threads s"
    using good_unlocked [OF good] by simp
  then have step: "destroy_web_thread (url_threads s) i = Some ?g"
    using good_unlocked [OF good] good_created [OF good] run
    by (cases "url_threads s") (simp add: destroy_web_thread_def get_globals_def acquire_lock_def release_lock_def)
  have "thread_runners (url_threads s) i \<noteq> None"
    using good run unfolding threads_good_def threads_ok_def by (metis web_thread_state.distinct(1))
  then have "threads_good ?g" using good by (auto simp: threads_good_def threads_ok_def)
  moreover have same: "scheduled ?s = scheduled s" "queue ?s = queue s" "refs ?s = refs s" "holders ?s = holders s"
    "runner ?s = runner s"
    by (simp_all add: queue_def scheduled_def refs_def holders_def runner_def fun_eq_iff)
  ultimately have "core X ?s"
    using assms(1) by (simp add: url_inv_def core_def refs_ok_def posted_wf_def deletions_ok_def history_ok_def)
  moreover have "wake ?s" using assms(1) same by (auto simp: url_inv_def wake_def accepts_def)
  moreover have e: "entry_ok ?s e = entry_ok s e" for e by (cases e) (simp add: same)
  have "queue_ok ?s" using assms(1) unfolding url_inv_def queue_ok_def same e by blast
  moreover have "jobs_ok ?s" "backend_ok ?s"
    using assms(1) by (simp_all add: url_inv_def jobs_ok_def job_ok_def backend_ok_def)
  ultimately have "url_inv X ?s" by (simp add: url_inv_def)
  with step show ?thesis by blast
qed

lemma result_inv: "good_result X s r \<Longrightarrow> \<exists>t. r = Some t \<and> url_inv X t"
  by (auto elim: good_resultE)

lemma run_next_inv: "url_inv X s \<Longrightarrow> \<exists>t. run_next cur shared s = Some t \<and> url_inv X t"
proof (cases "take_entry cur (queue s)")
  case None
  assume "url_inv X s"
  with None run_next_queue [of s cur shared] show ?thesis by (simp add: url_inv_def core_def)
next
  case (Some cr)
  assume "url_inv X s"
  with Some run_next_ok [of X s cur "fst cr" "snd cr" shared] show ?thesis by auto
qed

lemma held_alive:
  assumes "url_inv X s" and "x \<in># holders s"
  shows "url_objects s x \<noteq> None"
proof -
  have "refs s x > 0" by (rule inv_held_refs [OF assms(1)]) (use assms(2) in simp)
  from refs_pos_alive [OF this] show ?thesis by auto
qed

lemma client_drops_inv:
  assumes "url_inv X s" and "k < length (held_callbacks s)"
  shows "good_result X s (url_step shared app schemes s (ClientDropsCallback cur k))"
proof -
  let ?hs = "vector_erase k (held_callbacks s)" and ?x = "fst (held_callbacks s ! k)"
  let ?s = "s\<lparr>held_callbacks := ?hs\<rparr>"
  have "mset (held_callbacks s) = add_mset (held_callbacks s ! k) (mset ?hs)"
    using assms(2) by (subst vector_split [OF assms(2)]) (simp add: vector_erase_def del: append_take_drop_id)
  then have "mset (map fst (held_callbacks s)) = add_mset ?x (mset (map fst ?hs))"
    by simp
  then have m: "mset (map fst ?hs) + add_mset ?x X = mset (map fst (held_callbacks s)) + X" by simp
  note h = held_inv [OF assms(1) m]
  have "good_result X ?s (release cur ?x ?s)" by (rule release_inv [OF h(1)])
  then show ?thesis using assms(2) grows_trans [OF h(2)]
    by (auto elim!: good_resultE intro: good_resultI)
qed

lemma url_step_inv:
  assumes "url_inv {#} s" and "url_event_allowed app schemes s e"
  shows "\<exists>t. url_step shared app schemes s e = Some t \<and> url_inv {#} t"
proof -
  have jobs: "jobs_ok s" using assms(1) by (simp add: url_inv_def)
  note run = runner_Some [OF assms(1)]
  have alive: "url_objects s (fst (held_callbacks s ! k)) \<noteq> None" if "k < length (held_callbacks s)" for k
  proof -
    have "fst (held_callbacks s ! k) \<in># holders s" using that by (force simp: holders_def)
    then show ?thesis by (rule held_alive [OF assms(1)])
  qed
  show ?thesis
  proof (cases e)
    case (AddSource cur client)
    with assms run show ?thesis by (auto intro!: result_inv add_data_source_inv)
  next
    case (RunNext cur)
    with run_next_inv [OF assms(1)] show ?thesis by simp
  next
    case (ClientResponds cur k bytes)
    with assms alive show ?thesis by (auto intro!: result_inv send_response_inv)
  next
    case (ClientDropsCallback cur k)
    with assms client_drops_inv [OF assms(1), of k shared app schemes cur] show ?thesis
      by (auto intro: result_inv)
  next
    case (SourceResponds cur source r bytes)
    with assms show ?thesis by (auto intro!: result_inv send_response_inv)
  next
    case (CreateJob url incognito)
    with assms create_job_inv [OF assms(1)] show ?thesis by simp
  next
    case (StartJob cur job)
    with assms(2) obtain j where j: "find_job s job = Some j" "\<not> job_backend j" "JobKilled \<notin> set (job_events j)"
      "url_allowed app schemes (job_url j)" "cur = runner s IO" "browser_state_alive s"
      by (auto split: option.splits)
    then have "job_weak_valid j" using found_job_ok [OF jobs j(1)] by (simp add: job_ok_def)
    with StartJob j run show ?thesis by (auto intro!: result_inv start_job_inv [OF assms(1)])
  next
    case (KillJob job)
    with assms show ?thesis by (auto intro!: result_inv kill_job_inv [OF assms(1)])
  next
    case (DestroyJob cur job)
    with assms(2) obtain j where j: "find_job s job = Some j" "job_backend j \<longrightarrow> JobKilled \<in> set (job_events j)"
      by (auto split: option.splits)
    then have "job_backend j \<Longrightarrow> \<not> job_weak_valid j" using found_job_ok [OF jobs j(1)] by (simp add: job_ok_def)
    with DestroyJob j show ?thesis by (auto intro!: result_inv destroy_job_inv [OF assms(1)])
  next
    case (ReadJob job n)
    with assms(2) show ?thesis
      by (auto intro!: result_inv read_job_inv [OF assms(1)] split: option.splits)
  next
    case (DeleteAtShutdown cur)
    then have ui: "thread_runners (url_threads s) UI = Some cur" using assms(2) run by simp
    have core: "core {#} s" using assms(1) by (simp add: url_inv_def)
    obtain t where t: "delete_data_sources cur s = Some t" "core {#} t" "quiet {} s t" "wake t"
      using delete_data_sources_ok [OF core ui] by blast
    have "url_inv {#} t" by (rule quiet_inv [OF assms(1) t(3,2,4)]) simp
    with t(1) DeleteAtShutdown show ?thesis by simp
  next
    case (DestroyBrowserState cur)
    have "find_job s job = None" for job
      using assms(2) DestroyBrowserState by (auto simp: find_job_def list_all_length)
    with DestroyBrowserState assms show ?thesis by (auto intro!: result_inv destroy_browser_state_inv)
  next
    case (StopWebThread i)
    with assms stop_thread_inv [OF assms(1), of i] show ?thesis by auto
  qed
qed

interpretation url_data: total_machine "url_step shared app schemes" "url_event_allowed app schemes" "url_inv {#}"
  for shared app schemes
proof unfold_locales
  show "url_inv {#} t" if "url_inv {#} s" "url_event_allowed app schemes s c" "url_step shared app schemes s c = Some t"
    for s c t
    using url_step_inv [OF that(1,2), of shared] that(3) by auto
  show "\<exists>t. url_step shared app schemes s c = Some t" if "url_inv {#} s" "url_event_allowed app schemes s c" for s c
    using url_step_inv [OF that, of shared] by auto
qed

lemma new_url_data_inv:
  assumes "threads_good g" and "posted g = []"
  shows "url_inv {#} (new_url_data g)"
  using assms
  by (simp add: url_inv_def core_def posted_wf_def refs_ok_def deletions_ok_def history_ok_def wake_def backend_ok_def
      jobs_ok_def queue_ok_def queue_def scheduled_def holders_def refs_def find_job_def new_url_data_def)

section \<open>Properties\<close>

text \<open>The UI thread is physical thread 0 and the IO thread physical thread 1; two sources share a name.\<close>

definition two_threads :: thread_globals where
  "two_threads =
     \<lparr>globals_created = True, globals_lock = False,
      thread_states = (\<lambda>i. if i = ID_COUNT then UNINITIALIZED else RUNNING),
      thread_runners = (\<lambda>i. if i = UI then Some 0 else if i = IO then Some 1 else None),
      task_executor = True, io_thread_delegate = None, posted = [], thread_calls = []\<rparr>"

definition sample_client :: "string \<Rightarrow> source_client" where
  "sample_client name = default_source_client (\<lambda>url. True) name (\<lambda>path. ''text/html'')"

definition sample_url :: gurl where
  "sample_url = \<lparr>gurl_valid = True, gurl_scheme = ''chrome'', gurl_host = ''a'', gurl_spec = ''chrome://a/x'',
     gurl_path_begin = 10\<rparr>"

abbreviation sample_step :: "url_data \<Rightarrow> url_event \<Rightarrow> url_data option" where
  "sample_step \<equiv> url_step (sample_client ''resources'') (\<lambda>url. True) []"

abbreviation sample_allowed :: "url_data \<Rightarrow> url_event \<Rightarrow> bool" where
  "sample_allowed \<equiv> url_event_allowed (\<lambda>url. True) []"

lemma two_threads_good: "threads_good two_threads" "posted two_threads = []"
proof -
  have "thread_states two_threads i = UNINITIALIZED \<longleftrightarrow> thread_runners two_threads i = None" for i
    by (cases i) (simp_all add: two_threads_def)
  then show "threads_good two_threads"
    by (simp add: threads_good_def threads_ok_def) (simp add: two_threads_def)
  show "posted two_threads = []" by (simp add: two_threads_def)
qed

text \<open>
  C18. Whatever the threads, the clients and the network layer do in whatever order, no operation
  on the data sources fails a check; no source is deleted twice and each deletion happens on the UI
  thread; and nobody, neither the map of the backend, nor a posted callback, a job or a client,
  refers to a source that was deleted, not even when a source answers after its last reference
  is gone.
\<close>

theorem data_sources_outlive_references:
  assumes "legal (url_step shared app schemes) (url_event_allowed app schemes) (new_url_data g) es s"
    and "threads_good g" and "posted g = []"
  shows "(\<forall>e. url_event_allowed app schemes s e \<longrightarrow> (\<exists>t. url_step shared app schemes s e = Some t))
    \<and> distinct (map snd (deleted_sources s))
    \<and> (\<forall>t\<in>fst ` set (deleted_sources s). thread_runners (url_threads s) UI = Some t)
    \<and> (\<forall>x<next_source s. (x \<in> snd ` set (deleted_sources s)) = (url_objects s x = None))
    \<and> (\<forall>x. x \<in># holders s \<longrightarrow> url_objects s x \<noteq> None)"
proof -
  have inv: "url_inv {#} s"
    by (rule url_data.legal_inv [OF assms(1) new_url_data_inv [OF assms(2,3)]])
  then have hist: "history_ok s" by (simp add: url_inv_def core_def)
  have "\<forall>e. url_event_allowed app schemes s e \<longrightarrow> (\<exists>t. url_step shared app schemes s e = Some t)"
    using url_data.progress [OF inv] by blast
  moreover have "\<forall>x. x \<in># holders s \<longrightarrow> url_objects s x \<noteq> None" using held_alive [OF inv] by blast
  ultimately show ?thesis using hist by (simp add: history_ok_def)
qed

theorem data_sources_outlive_references_witness:
  "\<exists>s. run sample_step (new_url_data two_threads)
       [AddSource 0 (sample_client ''a''), RunNext 1, AddSource 0 (sample_client ''a''), RunNext 1, RunNext 0] = Some s
     \<and> deleted_sources s = [(0, 0)] \<and> url_objects s 0 = None \<and> (\<forall>x. x \<in># holders s \<longrightarrow> url_objects s x \<noteq> None)"
proof -
  have "case run_checked sample_step sample_allowed (new_url_data two_threads)
       [AddSource 0 (sample_client ''a''), RunNext 1, AddSource 0 (sample_client ''a''), RunNext 1, RunNext 0] of
       None \<Rightarrow> False | Some s \<Rightarrow> deleted_sources s = [(0, 0)] \<and> next_source s = 3"
    by code_simp
  then obtain s where s: "legal sample_step sample_allowed (new_url_data two_threads)
       [AddSource 0 (sample_client ''a''), RunNext 1, AddSource 0 (sample_client ''a''), RunNext 1, RunNext 0] s"
    "deleted_sources s = [(0, 0)] \<and> next_source s = 3"
    by (rule run_checked_witness)
  note all = data_sources_outlive_references [OF s(1) two_threads_good]
  have held: "\<forall>x. x \<in># holders s \<longrightarrow> url_objects s x \<noteq> None" using all by (elim conjE)
  have "\<forall>x<next_source s. (x \<in> snd ` set (deleted_sources s)) = (url_objects s x = None)"
    using all by (elim conjE)
  with s(2) have "url_objects s 0 = None" by (auto dest: spec [of _ 0])
  with held s(2) legal_run [OF s(1)] show ?thesis by blast
qed

lemma take_entry_append:
  "take_entry cur (p @ q) = (case take_entry cur p of
     Some (c, rest) \<Rightarrow> Some (c, rest @ q) | None \<Rightarrow> map_option (\<lambda>(c, rest). (c, p @ rest)) (take_entry cur q))"
proof (induction p)
  case Nil
  then show ?case by (cases "take_entry cur q") auto
next
  case (Cons e p)
  then show ?case by (cases "take_entry cur q") (auto split: option.splits)
qed

lemma take_entry_length: "take_entry cur q = Some (c, rest) \<Longrightarrow> length q = Suc (length rest)"
  using arg_cong [OF take_entry_mset, of cur q c rest size] by simp

lemma deletion_reached:
  assumes "url_inv {#} s" and "queue s = pre @ (runner s UI, DeleteDataSources) # post"
  shows "\<exists>n t. n \<le> Suc (length pre)
     \<and> run (url_step shared app schemes) s (replicate n (RunNext (runner s UI))) = Some t
     \<and> set (scheduled s) \<subseteq> snd ` set (deleted_sources t) \<and> set (deleted_sources s) \<subseteq> set (deleted_sources t)"
  using assms
proof (induction "length pre" arbitrary: s pre post rule: less_induct)
  case less
  let ?cur = "runner s UI"
  show ?case
  proof (cases "take_entry ?cur pre")
    case None
    then have "take_entry ?cur (queue s) = Some (DeleteDataSources, pre @ post)"
      using less.prems(2) by (simp add: take_entry_append)
    from run_next_ok [OF less.prems(1) this, of shared] obtain t where
      "run_next ?cur shared s = Some t" "grows (taken ?cur s) t"
      "set (scheduled s) \<subseteq> snd ` set (deleted_sources t)" by auto
    then show ?thesis
      by (intro exI [of _ 1] exI [of _ t]) (auto simp: grows_def taken_def)
  next
    case (Some cr)
    obtain c rest where cr: "cr = (c, rest)" by (cases cr)
    then have take: "take_entry ?cur (queue s) = Some (c, rest @ (?cur, DeleteDataSources) # post)"
      using Some less.prems(2) by (simp add: take_entry_append)
    from run_next_ok [OF less.prems(1) take, of shared] obtain t where
      t: "run_next ?cur shared s = Some t" "url_inv {#} t" "grows (taken ?cur s) t" by auto
    then obtain q where q: "queue t = rest @ (?cur, DeleteDataSources) # (post @ q)"
      using taken_facts(1) [OF less.prems(1) take] by (auto simp: grows_def)
    have run: "runner t UI = ?cur" using t(3) by (simp add: grows_def taken_def runner_def)
    have "length rest < length pre" using take_entry_length [of ?cur pre c rest] Some cr by simp
    from less.hyps [OF this t(2), of "post @ q"] q run obtain n u where
      u: "n \<le> Suc (length rest)" "run (url_step shared app schemes) t (replicate n (RunNext ?cur)) = Some u"
      "set (scheduled t) \<subseteq> snd ` set (deleted_sources u)" "set (deleted_sources t) \<subseteq> set (deleted_sources u)"
      by auto
    have g: "set (scheduled s) \<subseteq> set (scheduled t) \<union> snd ` set (deleted_sources t)"
      "set (deleted_sources s) \<subseteq> set (deleted_sources t)"
      using t(3) taken_facts(8) [OF less.prems(1) take] by (simp_all add: grows_def) (simp add: taken_def)
    have "set (scheduled s) \<subseteq> snd ` set (deleted_sources u)" "set (deleted_sources s) \<subseteq> set (deleted_sources u)"
      using g u(3,4) by blast+
    moreover have "run (url_step shared app schemes) s (replicate (Suc n) (RunNext ?cur)) = Some u"
      using t(1) u(2) by simp
    moreover have "Suc n \<le> Suc (length pre)" using u(1) \<open>length rest < length pre\<close> by simp
    ultimately show ?thesis by blast
  qed
qed

text \<open>
  C19. No source is leaked while the UI thread takes tasks: whatever happened, the sources that
  lost their last reference are all deleted after the UI thread has run at most the tasks that are
  queued, without any further event.
\<close>

theorem unreferenced_sources_deleted:
  assumes "legal (url_step shared app schemes) (url_event_allowed app schemes) (new_url_data g) es s"
    and "threads_good g" and "posted g = []" and "accepts s UI"
  shows "\<exists>n t. n \<le> length (queue s)
     \<and> run (url_step shared app schemes) s (replicate n (RunNext (runner s UI))) = Some t
     \<and> (\<forall>x d. url_objects s x = Some d \<and> ds_refs d = 0 \<longrightarrow> x \<in> snd ` set (deleted_sources t))"
proof -
  have inv: "url_inv {#} s"
    by (rule url_data.legal_inv [OF assms(1) new_url_data_inv [OF assms(2,3)]])
  have sched: "x \<in> set (scheduled s)" if "url_objects s x = Some d" "ds_refs d = 0" for x d
    using inv that by (auto simp: url_inv_def core_def deletions_ok_def)
  show ?thesis
  proof (cases "scheduled s = []")
    case True
    with sched show ?thesis by (intro exI [of _ 0] exI [of _ s]) auto
  next
    case False
    then have "(runner s UI, DeleteDataSources) \<in> set (queue s)"
      using inv assms(4) by (simp add: url_inv_def wake_def)
    then obtain pre post where q: "queue s = pre @ (runner s UI, DeleteDataSources) # post"
      by (meson split_list)
    from deletion_reached [OF inv q, of shared app schemes] obtain n t where
      "n \<le> Suc (length pre)" "run (url_step shared app schemes) s (replicate n (RunNext (runner s UI))) = Some t"
      "set (scheduled s) \<subseteq> snd ` set (deleted_sources t)" by blast
    with sched q show ?thesis by (intro exI [of _ n] exI [of _ t]) auto
  qed
qed

theorem unreferenced_sources_deleted_witness:
  "\<exists>s n t. run sample_step (new_url_data two_threads)
       [AddSource 0 (sample_client ''a''), RunNext 1, AddSource 0 (sample_client ''a''), RunNext 1] = Some s
     \<and> scheduled s = [0] \<and> run sample_step s (replicate n (RunNext 0)) = Some t \<and> 0 \<in> snd ` set (deleted_sources t)"
proof -
  have "case run_checked sample_step sample_allowed (new_url_data two_threads)
       [AddSource 0 (sample_client ''a''), RunNext 1, AddSource 0 (sample_client ''a''), RunNext 1] of
       None \<Rightarrow> False | Some s \<Rightarrow> scheduled s = [0] \<and> accepts s UI \<and> runner s UI = 0
         \<and> map_option ds_refs (url_objects s 0) = Some 0"
    by code_simp
  then obtain s where s: "legal sample_step sample_allowed (new_url_data two_threads)
       [AddSource 0 (sample_client ''a''), RunNext 1, AddSource 0 (sample_client ''a''), RunNext 1] s"
    "scheduled s = [0] \<and> accepts s UI \<and> runner s UI = 0 \<and> map_option ds_refs (url_objects s 0) = Some 0"
    by (rule run_checked_witness)
  then have "accepts s UI" by simp
  from unreferenced_sources_deleted [OF s(1) two_threads_good this] s(2) obtain n t where
    "run sample_step s (replicate n (RunNext 0)) = Some t" "0 \<in> snd ` set (deleted_sources t)"
    by auto
  with s(2) legal_run [OF s(1)] show ?thesis by blast
qed

end
