(* ===== verification/UrlDataOrder.thy ===== *)
theory UrlDataOrder
  imports UrlDataMachine
begin

text \<open>
  The mime type of a request reaches its job before its data, because the UI thread is asked for the
  former before the latter and each thread runs its tasks in order.
\<close>

section \<open>What the operations leave alone\<close>

definition calm :: "url_callback set \<Rightarrow> url_data \<Rightarrow> url_data \<Rightarrow> bool" where
  "calm C s t \<longleftrightarrow> posted_wf t \<and> threads_good (url_threads t)
     \<and> (\<exists>q. queue t = queue s @ q \<and> snd ` set q \<subseteq> insert DeleteDataSources C)
     \<and> thread_runners (url_threads t) = thread_runners (url_threads s)
     \<and> thread_states (url_threads t) = thread_states (url_threads s)
     \<and> url_jobs t = url_jobs s \<and> pending_requests t = pending_requests s
     \<and> next_request_id t = next_request_id s \<and> held_callbacks t = held_callbacks s
     \<and> data_requests t = data_requests s \<and> browser_state_alive t = browser_state_alive s
     \<and> (browser_state_alive s \<longrightarrow> backend_alive s \<longrightarrow> backend_alive t)"

definition sound :: "url_data \<Rightarrow> bool" where
  "sound s \<longleftrightarrow> posted_wf s \<and> threads_good (url_threads s)"

lemma calm_refl: "sound s \<Longrightarrow> calm C s s"
  by (simp add: calm_def sound_def)

lemma calm_sound: "calm C s t \<Longrightarrow> sound t"
  by (simp add: calm_def sound_def)

lemma calm_trans:
  assumes "calm C s t" and "calm C t u"
  shows "calm C s u"
proof -
  obtain p q where p: "queue t = queue s @ p" "snd ` set p \<subseteq> insert DeleteDataSources C"
    and q: "queue u = queue t @ q" "snd ` set q \<subseteq> insert DeleteDataSources C"
    using assms by (auto simp: calm_def)
  then have "queue u = queue s @ (p @ q) \<and> snd ` set (p @ q) \<subseteq> insert DeleteDataSources C"
    by (simp add: image_Un)
  with assms show ?thesis unfolding calm_def by auto
qed

lemma calm_weaken: "calm C s t \<Longrightarrow> C \<subseteq> D \<Longrightarrow> calm D s t"
  unfolding calm_def by blast

text \<open>Changes of sources only.\<close>

lemma calm_same:
  assumes "sound s" and "url_threads t = url_threads s" "url_callbacks t = url_callbacks s"
    "url_jobs t = url_jobs s" "pending_requests t = pending_requests s"
    "next_request_id t = next_request_id s" "held_callbacks t = held_callbacks s"
    "data_requests t = data_requests s" "browser_state_alive t = browser_state_alive s"
    and "browser_state_alive s \<Longrightarrow> backend_alive s \<Longrightarrow> backend_alive t"
  shows "calm C s t"
proof -
  have "queue t = queue s" using assms(2,3) by (simp add: queue_def)
  then show ?thesis using assms by (simp add: calm_def sound_def posted_wf_def)
qed

lemma hand_over_calm:
  assumes "sound s" and "i \<noteq> ID_COUNT" and "hand_over cur s i c n = Some (t, b)"
  shows "calm {c} s t" and "b = accepts s i"
    and "queue t = queue s @ (if b then [(runner s i, c)] else [])"
proof -
  have wf: "posted_wf s" and good: "threads_good (url_threads s)" using assms(1) by (simp_all add: sound_def)
  have t: "t = s\<lparr>url_threads := post_to_runner n i (UserTask (length (url_callbacks s))) (url_threads s),
            url_callbacks := url_callbacks s @ [c]\<rparr>" and b: "b = accepts s i"
    using hand_over_result [OF good assms(2), of cur c n] assms(3) by simp_all
  show "b = accepts s i" by (rule b)
  show q: "queue t = queue s @ (if b then [(runner s i, c)] else [])"
    unfolding t b by (rule queue_hand_over [OF wf])
  have "posted_wf t" unfolding t by (rule posted_wf_hand_over [OF wf])
  with q good show "calm {c} s t" by (auto simp: calm_def t)
qed

lemma currently_on_sound: "sound s \<Longrightarrow> i \<noteq> ID_COUNT \<Longrightarrow>
   currently_on cur (url_threads s) i = Some (url_threads s, thread_runners (url_threads s) i = Some cur)"
  by (rule good_currently_on) (simp_all add: sound_def)

lemma dcheck_on_same: "sound s \<Longrightarrow> i \<noteq> ID_COUNT \<Longrightarrow> dcheck_currently_on cur s i = Some t \<Longrightarrow> t = s"
  by (auto simp: dcheck_currently_on_def currently_on_sound split: Option.bind_splits)

lemma update_source_calm: "sound s \<Longrightarrow> update_source x f s = Some t \<Longrightarrow> calm C s t"
  by (auto simp: update_source_def split: Option.bind_splits intro!: calm_same)

lemma destroy_source_calm: "sound s \<Longrightarrow> destroy_source cur x s = Some t \<Longrightarrow> calm C s t"
  by (auto simp: destroy_source_def split: Option.bind_splits intro!: calm_same)

lemma destroy_sources_calm: "sound s \<Longrightarrow> destroy_sources cur xs s = Some t \<Longrightarrow> calm C s t"
proof (induction xs arbitrary: s)
  case (Cons x xs)
  then obtain u where u: "destroy_source cur x s = Some u" "destroy_sources cur xs u = Some t"
    by (auto split: Option.bind_splits)
  have "calm C s u" by (rule destroy_source_calm [OF Cons.prems(1) u(1)])
  with Cons.IH [OF calm_sound [OF this] u(2)] show ?case by (rule calm_trans [rotated])
qed (simp add: calm_refl)

lemma delete_data_sources_calm:
  assumes "sound s" and "delete_data_sources cur s = Some t"
  shows "calm C s t"
proof -
  obtain u where "dcheck_currently_on cur s UI = Some u"
    using assms(2) by (auto simp: delete_data_sources_def split: Option.bind_splits)
  with dcheck_on_same [OF assms(1) _ this] have on: "dcheck_currently_on cur s UI = Some s" by simp
  show ?thesis
  proof (cases "url_data_sources s")
    case None
    with assms on show ?thesis by (simp add: delete_data_sources_def calm_refl)
  next
    case (Some xs)
    let ?s = "s\<lparr>url_data_sources := Some []\<rparr>"
    have c: "calm C s ?s" by (rule calm_same [OF assms(1)]) simp_all
    have "destroy_sources cur xs ?s = Some t" using assms(2) on Some by (simp add: delete_data_sources_def)
    from calm_trans [OF c destroy_sources_calm [OF calm_sound [OF c] this]] show ?thesis .
  qed
qed

lemma delete_data_source_calm:
  assumes "sound s" and "delete_data_source cur s x = Some t"
  shows "calm C s t"
proof -
  note on = currently_on_sound [OF assms(1), of UI cur]
  show ?thesis
  proof (cases "thread_runners (url_threads s) UI = Some cur")
    case True
    with assms on show ?thesis by (simp add: delete_data_source_def destroy_source_calm)
  next
    case False
    let ?s = "s\<lparr>url_data_sources := Some (scheduled s @ [x])\<rparr>"
    have c: "calm C s ?s" by (rule calm_same [OF assms(1)]) simp_all
    have r: "delete_data_source cur s x =
        (if scheduled s = [] then map_option fst (hand_over cur ?s UI DeleteDataSources True) else Some ?s)"
      using on False by (simp add: delete_data_source_def scheduled_def Let_def split: option.splits)
    show ?thesis
    proof (cases "scheduled s = []")
      case True
      then obtain b where "hand_over cur ?s UI DeleteDataSources True = Some (t, b)"
        using assms(2) r by auto
      from hand_over_calm(1) [OF calm_sound [OF c] _ this] have "calm {DeleteDataSources} ?s t" by simp
      then have "calm C ?s t" unfolding calm_def by blast
      with c show ?thesis by (rule calm_trans)
    next
      case False
      with assms(2) r c show ?thesis by simp
    qed
  qed
qed

lemma add_ref_calm: "sound s \<Longrightarrow> add_ref x s = Some t \<Longrightarrow> calm C s t"
  by (auto simp: add_ref_def option_dest update_source_calm)

lemma release_calm:
  assumes "sound s" and "release cur x s = Some t"
  shows "calm C s t"
proof -
  obtain d where d: "url_objects s x = Some d" "ds_refs d > 0"
    using assms(2) by (auto simp: release_def option_dest)
  let ?s = "s\<lparr>url_objects := (url_objects s)(x \<mapsto> d\<lparr>ds_refs := ds_refs d - 1\<rparr>)\<rparr>"
  have c: "calm C s ?s" by (rule calm_same [OF assms(1)]) simp_all
  have "(if ds_refs d - 1 = 0 then delete_data_source cur ?s x else Some ?s) = Some t"
    using assms(2) d unfolding release_def destruct_def Let_def by simp
  then show ?thesis
    using c calm_trans [OF c delete_data_source_calm [OF calm_sound [OF c]]] by (auto split: if_splits)
qed

lemma release_bound_calm: "sound s \<Longrightarrow> release_bound cur c s = Some t \<Longrightarrow> calm C s t"
  by (auto simp: release_bound_def calm_refl release_calm split: option.splits)

lemma post_url_callback_calm:
  assumes "sound s" and "i \<noteq> ID_COUNT" and "post_url_callback cur s i c = Some t"
  shows "accepts s i \<Longrightarrow> queue t = queue s @ [(runner s i, c)] \<and> calm {c} s t"
    and "\<not> accepts s i \<Longrightarrow> calm {} s t"
proof -
  obtain u where u: "(case bound_source c of None \<Rightarrow> Some s | Some source \<Rightarrow> add_ref source s) = Some u"
    "post_bound cur u i c = Some t" using assms(3) by (auto simp: post_url_callback_bound option_dest)
  have calm_u: "calm C s u" for C
    using u(1) assms(1) by (auto simp: calm_refl add_ref_calm split: option.splits)
  have q: "queue u = queue s"
    using u(1) by (auto simp: add_ref_def update_source_def queue_def option_dest split: option.splits)
  have same: "accepts u i = accepts s i" "runner u i = runner s i"
    using calm_u [of "{}"] by (simp_all add: calm_def accepts_def runner_def)
  obtain v b where v: "hand_over cur u i c True = Some (v, b)"
    "(if b then Some v else release_bound cur c v) = Some t"
    using u(2) by (auto simp: post_bound_def option_dest)
  note h = hand_over_calm [OF calm_sound [OF calm_u] assms(2) v(1)]
  show "queue t = queue s @ [(runner s i, c)] \<and> calm {c} s t" if "accepts s i"
    using that h v(2) q same calm_trans [OF calm_u h(1)] by simp
  show "calm {} s t" if n: "\<not> accepts s i"
  proof -
    have "release_bound cur c v = Some t" "queue v = queue u" using n h v(2) same by simp_all
    moreover from this h(1) have uv: "calm {} u v" by (simp add: calm_def)
    ultimately show ?thesis
      using calm_trans [OF calm_u calm_trans [OF uv release_bound_calm [OF calm_sound [OF uv]]]] by blast
  qed
qed

lemma post_url_callback_calm': "sound s \<Longrightarrow> i \<noteq> ID_COUNT \<Longrightarrow> post_url_callback cur s i c = Some t \<Longrightarrow> calm {c} s t"
  using post_url_callback_calm [of s i cur c t] calm_weaken [of "{}" s t "{c}"] by blast

lemma backend_add_calm:
  assumes "sound s" and "backend_add_data_source cur s x = Some t"
  shows "calm C s t"
proof -
  obtain u where "dcheck_currently_on cur s IO = Some u"
    using assms(2) by (auto simp: backend_add_data_source_def option_dest)
  with dcheck_on_same [OF assms(1) _ this] have on: "dcheck_currently_on cur s IO = Some s" by simp
  obtain d where d: "url_objects s x = Some d" using assms(2) on by (auto simp: backend_add_data_source_def option_dest)
  have put: "sound v \<Longrightarrow> calm C v (v\<lparr>data_sources := m\<rparr>)" for v m by (rule calm_same) simp_all
  show ?thesis
  proof (cases "map_of (data_sources s) (source_name d)")
    case None
    then obtain u where u: "add_ref x s = Some u"
      "update_source x (\<lambda>d. d\<lparr>ds_backend := True\<rparr>) (u\<lparr>data_sources := map_set (source_name d) x (data_sources u)\<rparr>) = Some t"
      using assms(2) on d by (auto simp: backend_add_data_source_def option_dest)
    note c1 = add_ref_calm [OF assms(1) u(1), of C]
    note c2 = put [OF calm_sound [OF c1], of "map_set (source_name d) x (data_sources u)"]
    from calm_trans [OF c1 calm_trans [OF c2 update_source_calm [OF calm_sound [OF c2] u(2)]]] show ?thesis .
  next
    case (Some old)
    show ?thesis
    proof (cases "should_replace_existing_source (ds_client d)")
      case False
      with assms Some on d show ?thesis by (simp add: backend_add_data_source_def calm_refl)
    next
      case True
      then obtain a b c where u: "update_source old (\<lambda>d. d\<lparr>ds_backend := False\<rparr>) s = Some a" "add_ref x a = Some b"
        "release cur old (b\<lparr>data_sources := map_set (source_name d) x (data_sources b)\<rparr>) = Some c"
        "update_source x (\<lambda>d. d\<lparr>ds_backend := True\<rparr>) c = Some t"
        using assms(2) on d Some by (auto simp: backend_add_data_source_def option_dest)
      note c1 = update_source_calm [OF assms(1) u(1), of C]
      note c2 = add_ref_calm [OF calm_sound [OF c1] u(2), of C]
      note c3 = put [OF calm_sound [OF c2], of "map_set (source_name d) x (data_sources b)"]
      note c4 = release_calm [OF calm_sound [OF c3] u(3), of C]
      note c5 = update_source_calm [OF calm_sound [OF c4] u(4), of C]
      from calm_trans [OF c1 calm_trans [OF c2 calm_trans [OF c3 calm_trans [OF c4 c5]]]] show ?thesis .
    qed
  qed
qed

lemma get_backend_calm:
  assumes "sound s" and "\<not> backend_alive s \<Longrightarrow> next_request_id s = 0 \<and> pending_requests s = []"
    and "get_url_data_manager_ios_backend_on_io_thread cur shared s = Some t"
  shows "calm C s t"
proof -
  obtain u where "dcheck_currently_on cur s IO = Some u"
    using assms(3) by (auto simp: get_url_data_manager_ios_backend_on_io_thread_def option_dest)
  with dcheck_on_same [OF assms(1) _ this] have on: "dcheck_currently_on cur s IO = Some s" by simp
  show ?thesis
  proof (cases "backend_alive s")
    case True
    with assms on show ?thesis
      by (auto simp: get_url_data_manager_ios_backend_on_io_thread_def option_dest calm_refl)
  next
    case False
    let ?d = "new_url_data_source_ios_impl (get_source shared) shared"
    let ?s = "fst (create_source ?d (s\<lparr>backend_alive := True, data_sources := [], pending_requests := [],
                     next_request_id := 0\<rparr>))"
    have "calm C s ?s"
      by (rule calm_same [OF assms(1)]) (use assms(2) [OF False] in \<open>simp_all add: create_source_def\<close>)
    moreover have "backend_add_data_source cur ?s (next_source s) = Some t"
      using assms(3) on False
      by (auto simp: get_url_data_manager_ios_backend_on_io_thread_def option_dest
          new_url_data_manager_ios_backend_def create_source_def)
    ultimately show ?thesis using calm_trans backend_add_calm calm_sound by blast
  qed
qed

lemma add_on_io_calm:
  assumes "sound s" and "\<not> backend_alive s \<Longrightarrow> next_request_id s = 0 \<and> pending_requests s = []"
    and "add_data_source_on_io_thread cur shared s x = Some t"
  shows "calm C s t"
proof -
  obtain u v where "dcheck_currently_on cur s IO = Some u"
    "get_url_data_manager_ios_backend_on_io_thread cur shared u = Some v" "backend_add_data_source cur v x = Some t"
    using assms(3) by (auto simp: add_data_source_on_io_thread_def option_dest)
  with dcheck_on_same [OF assms(1) _ this(1)] have
    v: "get_url_data_manager_ios_backend_on_io_thread cur shared s = Some v" "backend_add_data_source cur v x = Some t"
    by simp_all
  note c = get_backend_calm [OF assms(1,2) v(1), of C]
  from calm_trans [OF c backend_add_calm [OF calm_sound [OF c] v(2)]] show ?thesis by simp
qed

lemma forget_backend_calm: "sound s \<Longrightarrow> forget_backend m s = Some t \<Longrightarrow> calm C s t"
proof (induction m arbitrary: s)
  case (Cons p m)
  then obtain u where u: "update_source (snd p) (\<lambda>d. d\<lparr>ds_backend := False\<rparr>) s = Some u" "forget_backend m u = Some t"
    by (auto simp: option_dest)
  note c = update_source_calm [OF Cons.prems(1) u(1), of C]
  from calm_trans [OF c Cons.IH [OF calm_sound [OF c] u(2)]] show ?case .
qed (simp add: calm_refl)

lemma release_sources_calm: "sound s \<Longrightarrow> release_sources cur m s = Some t \<Longrightarrow> calm C s t"
proof (induction m arbitrary: s)
  case (Cons p m)
  then obtain u where u: "release cur (snd p) (s\<lparr>data_sources := m\<rparr>) = Some u" "release_sources cur m u = Some t"
    by (auto simp: option_dest)
  have c1: "calm C s (s\<lparr>data_sources := m\<rparr>)" by (rule calm_same [OF Cons.prems(1)]) simp_all
  note c2 = release_calm [OF calm_sound [OF c1] u(1), of C]
  from calm_trans [OF c1 calm_trans [OF c2 Cons.IH [OF calm_sound [OF c2] u(2)]]] show ?case .
qed (simp add: calm_refl)

lemma destroy_backend_calm:
  assumes "sound s" and "\<not> browser_state_alive s" and "destroy_backend cur s = Some t"
  shows "calm C s t"
proof -
  obtain u v where u: "forget_backend (data_sources s) s = Some u" "release_sources cur (data_sources u) u = Some v"
    "t = v\<lparr>backend_alive := False\<rparr>" using assms(3) by (auto simp: destroy_backend_def option_dest)
  note c1 = forget_backend_calm [OF assms(1) u(1), of C]
  note c2 = release_sources_calm [OF calm_sound [OF c1] u(2), of C]
  have "\<not> browser_state_alive v" using c1 c2 assms(2) by (simp add: calm_def)
  then have c3: "calm C v t" unfolding u(3) by (intro calm_same [OF calm_sound [OF c2]]) simp_all
  from calm_trans [OF c1 calm_trans [OF c2 c3]] show ?thesis .
qed

section \<open>Which comes first\<close>

text \<open>The first entry of the queue for which \<open>q\<close> holds comes after one for which \<open>p\<close> holds.\<close>

fun before :: "('e \<Rightarrow> bool) \<Rightarrow> ('e \<Rightarrow> bool) \<Rightarrow> 'e list \<Rightarrow> bool" where
  "before p q [] \<longleftrightarrow> False"
| "before p q (x # xs) \<longleftrightarrow> p x \<or> \<not> q x \<and> before p q xs"

lemma before_append: "before p q xs \<Longrightarrow> before p q (xs @ ys)"
  by (induction xs) auto

lemma before_snoc: "p x \<Longrightarrow> \<not> list_ex q xs \<Longrightarrow> before p q (xs @ x # ys)"
  by (induction xs) auto

lemma before_take:
  assumes "before p q es" and "take_entry cur es = Some (c, rest)"
    and "\<And>e. e \<in> set es \<Longrightarrow> p e \<or> q e \<Longrightarrow> fst e = h"
  shows "p (cur, c) \<or> \<not> q (cur, c) \<and> before p q rest"
  using assms
proof (induction es arbitrary: rest)
  case (Cons e es)
  show ?case
  proof (cases "fst e = cur")
    case True
    then have "e = (cur, c)" "rest = es" using Cons.prems(2) by (auto simp: prod_eq_iff)
    with Cons.prems(1) show ?thesis by simp
  next
    case False
    then obtain fs where fs: "take_entry cur es = Some (c, fs)" "rest = e # fs"
      using Cons.prems(2) by (auto split: option.splits)
    have "(cur, c) \<in> set (e # es)"
      using arg_cong [OF take_entry_mset [OF fs(1)], of set_mset] by auto
    show ?thesis
    proof (cases "p e")
      case True
      with Cons.prems(3) [of e] False have "h \<noteq> cur" by auto
      with Cons.prems(3) [OF \<open>(cur, c) \<in> set (e # es)\<close>] have "\<not> q (cur, c)" by auto
      with True fs show ?thesis by simp
    next
      case no: False
      then have "before p q es" "\<not> q e" using Cons.prems(1) by auto
      with Cons.IH [OF _ fs(1)] Cons.prems(3) fs(2) show ?thesis by auto
    qed
  qed
qed simp

section \<open>Requests on their way\<close>

fun asks_mime :: "nat \<Rightarrow> nat \<times> url_callback \<Rightarrow> bool" where
  "asks_mime job (t, GetMimeTypeOnUI source path job') \<longleftrightarrow> job' = job"
| "asks_mime job e \<longleftrightarrow> False"

fun starts :: "int \<Rightarrow> nat \<times> url_callback \<Rightarrow> bool" where
  "starts r (t, CallStartRequest source path r') \<longleftrightarrow> r' = r"
| "starts r e \<longleftrightarrow> False"

fun brings_mime :: "nat \<Rightarrow> nat \<times> url_callback \<Rightarrow> bool" where
  "brings_mime job (t, MimeTypeAvailable job' source mime) \<longleftrightarrow> job' = job"
| "brings_mime job e \<longleftrightarrow> False"

fun answers :: "int \<Rightarrow> nat \<times> url_callback \<Rightarrow> bool" where
  "answers r (t, SendResponseOnIOThread source r' bytes) \<longleftrightarrow> r' = r"
| "answers r e \<longleftrightarrow> False"

definition forwarded :: "url_data \<Rightarrow> int \<Rightarrow> bool" where
  "forwarded s r \<longleftrightarrow> list_ex (\<lambda>e. snd (snd e) = r) (data_requests s)"

text \<open>
  Where the mime type of a pending request is, when it has not arrived: on the way to the UI thread
  before the request itself; on the way back before any answer; dropped, with every later answer,
  because the IO thread ended; or dropped with the request because the UI thread ended.
\<close>

definition mime_pending :: "url_data \<Rightarrow> int \<Rightarrow> nat \<Rightarrow> bool" where
  "mime_pending s r job \<longleftrightarrow>
     before (asks_mime job) (starts r) (queue s) \<and> \<not> forwarded s r
   \<or> before (brings_mime job) (answers r) (queue s)
   \<or> \<not> accepts s IO \<and> \<not> list_ex (answers r) (queue s)
   \<or> \<not> forwarded s r \<and> \<not> list_ex (starts r) (queue s)"

definition headers_known :: "url_job \<Rightarrow> bool" where
  "headers_known j \<longleftrightarrow> NotifyHeadersComplete \<in> set (job_events j)"

definition answered :: "url_job \<Rightarrow> bool" where
  "answered j \<longleftrightarrow> job_data j \<noteq> None \<or> (\<exists>n. ReadRawDataComplete n \<in> set (job_events j))"

definition ids_ok :: "url_data \<Rightarrow> bool" where
  "ids_ok s \<longleftrightarrow> (\<forall>r. list_ex (answers r) (queue s) \<longrightarrow> forwarded s r)
     \<and> (\<forall>x r. (x, r) \<in> set (held_callbacks s) \<longrightarrow> forwarded s r)
     \<and> (\<forall>r. forwarded s r \<or> list_ex (starts r) (queue s) \<longrightarrow> r < next_request_id s)
     \<and> (browser_state_alive s \<longrightarrow> \<not> backend_alive s \<longrightarrow> next_request_id s = 0)"

text \<open>The jobs in \<open>E\<close> are exempt: their mime type is being delivered.\<close>

definition order_upto :: "nat set \<Rightarrow> url_data \<Rightarrow> bool" where
  "order_upto E s \<longleftrightarrow> ids_ok s
     \<and> (\<forall>r job j. (r, job) \<in> set (pending_requests s) \<longrightarrow> find_job s job = Some j \<longrightarrow> job \<notin> E \<longrightarrow>
            headers_known j \<or> mime_pending s r job)
     \<and> (\<forall>job j. find_job s job = Some j \<longrightarrow> answered j \<longrightarrow> headers_known j)"

abbreviation order_ok :: "url_data \<Rightarrow> bool" where
  "order_ok \<equiv> order_upto {}"

text \<open>New entries of the queue that are no request, and answers only to what was forwarded.\<close>

definition harmless :: "url_data \<Rightarrow> url_callback \<Rightarrow> bool" where
  "harmless s c \<longleftrightarrow> (\<forall>t r. \<not> starts r (t, c)) \<and> (\<forall>t r. answers r (t, c) \<longrightarrow> forwarded s r \<and> accepts s IO)"

lemma list_ex_append_iff: "list_ex p (xs @ ys) \<longleftrightarrow> list_ex p xs \<or> list_ex p ys"
  by simp

lemma harmless_delete [simp]: "harmless s DeleteDataSources"
  by (simp add: harmless_def)

lemma calm_harmless:
  assumes "calm C s t" and "\<And>c. c \<in> C \<Longrightarrow> harmless s c"
  obtains q where "queue t = queue s @ q" "\<And>r. \<not> list_ex (starts r) q"
    "\<And>r. list_ex (answers r) q \<Longrightarrow> forwarded s r \<and> accepts s IO"
proof -
  obtain q where q: "queue t = queue s @ q" "snd ` set q \<subseteq> insert DeleteDataSources C"
    using assms(1) by (auto simp: calm_def)
  have h: "harmless s (snd e)" if "e \<in> set q" for e
  proof -
    have "snd e \<in> insert DeleteDataSources C" using q(2) that by auto
    then show ?thesis using assms(2) by auto
  qed
  have starts: "\<not> starts r e" if "e \<in> set q" for r e
    using h [OF that] unfolding harmless_def by (metis prod.collapse)
  have answers: "forwarded s r \<and> accepts s IO" if "e \<in> set q" "answers r e" for r e
    using h [OF that(1)] that(2) unfolding harmless_def by (metis prod.collapse)
  show ?thesis
    by (rule that [OF q(1)]) (use starts answers in \<open>auto simp: list_ex_iff\<close>)
qed

lemma calm_fields:
  assumes "calm C s t"
  shows "url_jobs t = url_jobs s" "pending_requests t = pending_requests s" "held_callbacks t = held_callbacks s"
    "next_request_id t = next_request_id s" "forwarded t = forwarded s" "accepts t = accepts s" "runner t = runner s"
    "browser_state_alive t = browser_state_alive s" "find_job t = find_job s"
proof -
  show a: "url_jobs t = url_jobs s" using assms by (simp add: calm_def)
  show "find_job t = find_job s" by (rule find_job_layout [OF a])
qed (use assms in \<open>simp_all add: calm_def forwarded_def accepts_def runner_def fun_eq_iff\<close>)

lemma mime_pending_append:
  assumes "mime_pending s r job" and "queue t = queue s @ q" and "\<not> list_ex (starts r) q"
    and "list_ex (answers r) q \<Longrightarrow> forwarded s r \<and> accepts s IO"
    and "forwarded t = forwarded s" and "accepts t = accepts s"
  shows "mime_pending t r job"
  using assms(1) unfolding mime_pending_def assms(2,5,6) list_ex_append_iff
  using assms(3,4) before_append by blast

lemma order_upto_calm:
  assumes "order_upto E s" and "calm C s t" and "\<And>c. c \<in> C \<Longrightarrow> harmless s c"
  shows "order_upto E t"
proof -
  obtain q where q: "queue t = queue s @ q" "\<And>r. \<not> list_ex (starts r) q"
    "\<And>r. list_ex (answers r) q \<Longrightarrow> forwarded s r \<and> accepts s IO"
    using calm_harmless [OF assms(2,3)] by blast
  note f = calm_fields [OF assms(2)]
  have "ids_ok t"
    using assms(1,2) q unfolding order_upto_def ids_ok_def f q(1) list_ex_append_iff
    by (auto simp: calm_def)
  moreover have "mime_pending t r job" if "mime_pending s r job" for r job
    using mime_pending_append [OF that q(1,2,3) f(5,6)] .
  ultimately show ?thesis
    using assms(1) unfolding order_upto_def f by blast
qed

lemmas order_ok_calm = order_upto_calm [where E = "{}"]

section \<open>The order is kept\<close>

definition mime_sent :: "url_data \<Rightarrow> int \<Rightarrow> nat \<Rightarrow> bool" where
  "mime_sent s r job \<longleftrightarrow> before (brings_mime job) (answers r) (queue s)
     \<or> \<not> accepts s IO \<and> \<not> list_ex (answers r) (queue s)"

lemma mime_sent_pending: "mime_sent s r job \<Longrightarrow> mime_pending s r job"
  by (auto simp: mime_sent_def mime_pending_def)

lemma queue_thread:
  assumes "queue_ok s" and "e \<in> set (queue s)"
  shows "asks_mime job e \<or> starts r e \<Longrightarrow> fst e = runner s UI"
    and "brings_mime job e \<or> answers r e \<Longrightarrow> fst e = runner s IO"
proof -
  obtain t c where e: "e = (t, c)" by (cases e)
  have "entry_ok s (t, c)" using assms e unfolding queue_ok_def by blast
  then show "asks_mime job e \<or> starts r e \<Longrightarrow> fst e = runner s UI"
    "brings_mime job e \<or> answers r e \<Longrightarrow> fst e = runner s IO"
    unfolding e by (cases c; simp)+
qed

lemma take_entry_ex: "take_entry cur q = Some (c, rest) \<Longrightarrow> list_ex p q \<longleftrightarrow> p (cur, c) \<or> list_ex p rest"
  using arg_cong [OF take_entry_mset, of cur q c rest set_mset] by (auto simp: list_ex_iff)

lemma taken_request:
  assumes "mime_pending s r job" and "queue_ok s" and "ids_ok s" and "take_entry cur (queue s) = Some (c, rest)"
    and "queue t = rest" and "accepts t = accepts s" and "forwarded t = forwarded s"
  shows "asks_mime job (cur, c) \<and> \<not> forwarded s r \<or> brings_mime job (cur, c)
    \<or> \<not> answers r (cur, c) \<and> (mime_sent t r job \<or> \<not> starts r (cur, c) \<and> mime_pending t r job)"
proof -
  note ex = take_entry_ex [OF assms(4)]
  have ans: "list_ex (answers r) (queue s) \<Longrightarrow> forwarded s r" using assms(3) by (simp add: ids_ok_def)
  from assms(1) consider
      (A) "before (asks_mime job) (starts r) (queue s)" "\<not> forwarded s r"
    | (B) "before (brings_mime job) (answers r) (queue s)"
    | (C) "\<not> accepts s IO" "\<not> list_ex (answers r) (queue s)"
    | (D) "\<not> forwarded s r" "\<not> list_ex (starts r) (queue s)"
    unfolding mime_pending_def by blast
  then show ?thesis
  proof cases
    case A
    have "asks_mime job (cur, c) \<or> \<not> starts r (cur, c) \<and> before (asks_mime job) (starts r) rest"
      by (rule before_take [OF A(1) assms(4)]) (rule queue_thread(1) [OF assms(2)])
    moreover have "\<not> answers r (cur, c)" using ans A(2) ex by blast
    ultimately show ?thesis using A(2) assms(5,7) by (auto simp: mime_pending_def)
  next
    case B
    have "brings_mime job (cur, c) \<or> \<not> answers r (cur, c) \<and> before (brings_mime job) (answers r) rest"
      by (rule before_take [OF B assms(4)]) (rule queue_thread(2) [OF assms(2)])
    then show ?thesis using assms(5) by (auto simp: mime_sent_def)
  next
    case C
    then show ?thesis using ex assms(5,6) by (auto simp: mime_sent_def)
  next
    case D
    then have "\<not> answers r (cur, c)" using ans ex by blast
    with D show ?thesis using ex assms(5,7) by (auto simp: mime_pending_def)
  qed
qed

lemma pending_order: "order_upto E s \<Longrightarrow> (r, job) \<in> set (pending_requests s) \<Longrightarrow> find_job s job = Some j \<Longrightarrow>
   job \<notin> E \<Longrightarrow> headers_known j \<or> mime_pending s r job"
  by (simp add: order_upto_def)

lemma answered_order: "order_upto E s \<Longrightarrow> find_job s job = Some j \<Longrightarrow> answered j \<Longrightarrow> headers_known j"
  by (simp add: order_upto_def)

lemma order_upto_put:
  assumes "order_upto E s" and "find_job s job = Some j" and "headers_known j \<Longrightarrow> headers_known k"
    and "answered k \<Longrightarrow> headers_known k" and "headers_known k \<or> E \<subseteq> F" and "E - {job} \<subseteq> F"
  shows "order_upto F (put_job job k s)"
proof -
  have eqs: "queue (put_job job k s) = queue s" "forwarded (put_job job k s) = forwarded s"
    "accepts (put_job job k s) = accepts s" "pending_requests (put_job job k s) = pending_requests s"
    by (simp_all add: put_job_def queue_def forwarded_def accepts_def fun_eq_iff)
  have "ids_ok (put_job job k s) = ids_ok s"
    unfolding ids_ok_def eqs by (simp add: put_job_def)
  moreover have "mime_pending (put_job job k s) r i = mime_pending s r i" for r i
    by (simp add: mime_pending_def eqs)
  moreover have "headers_known x \<or> mime_pending s r i"
    if m: "(r, i) \<in> set (pending_requests s)" "(if i = job then Some k else find_job s i) = Some x" "i \<notin> F" for r i x
  proof (cases "i = job")
    case True
    then show ?thesis
      using pending_order [OF assms(1) m(1), of j] m(2,3) assms(2,3,5) by auto
  next
    case False
    then show ?thesis using pending_order [OF assms(1) m(1), of x] m(2,3) assms(6) by auto
  qed
  moreover have "headers_known x"
    if "(if i = job then Some k else find_job s i) = Some x" "answered x" for i x
    using answered_order [OF assms(1)] that assms(4) by (auto split: if_splits)
  ultimately show ?thesis
    using assms(1) unfolding order_upto_def eqs find_put_job [OF assms(2)] by blast
qed

lemma order_ok_put:
  assumes "order_ok s" and "find_job s job = Some j" and "headers_known j \<Longrightarrow> headers_known k"
    and "answered k \<Longrightarrow> headers_known k"
  shows "order_ok (put_job job k s)"
  by (rule order_upto_put [OF assms]) simp_all

lemma queue_simps [simp]:
  "queue (s\<lparr>held_callbacks := h\<rparr>) = queue s"
  "queue (s\<lparr>pending_requests := p\<rparr>) = queue s"
  "queue (s\<lparr>next_request_id := i\<rparr>) = queue s"
  "queue (s\<lparr>url_jobs := js\<rparr>) = queue s"
  "forwarded (s\<lparr>held_callbacks := h\<rparr>) = forwarded s"
  "forwarded (s\<lparr>pending_requests := p\<rparr>) = forwarded s"
  "forwarded (s\<lparr>next_request_id := i\<rparr>) = forwarded s"
  "forwarded (s\<lparr>url_jobs := js\<rparr>) = forwarded s"
  "accepts (s\<lparr>held_callbacks := h\<rparr>) = accepts s"
  "accepts (s\<lparr>pending_requests := p\<rparr>) = accepts s"
  "accepts (s\<lparr>next_request_id := i\<rparr>) = accepts s"
  "accepts (s\<lparr>url_jobs := js\<rparr>) = accepts s"
  by (simp_all add: queue_def forwarded_def accepts_def fun_eq_iff)

lemma order_ok_same:
  assumes "order_ok s" and "queue t = queue s" and "forwarded t = forwarded s" and "accepts t = accepts s"
    and "next_request_id t = next_request_id s" and "browser_state_alive t \<Longrightarrow> browser_state_alive s"
    and "browser_state_alive t \<Longrightarrow> backend_alive s \<Longrightarrow> backend_alive t"
    and "set (pending_requests t) \<subseteq> set (pending_requests s)"
    and "\<And>x r. (x, r) \<in> set (held_callbacks t) \<Longrightarrow> forwarded s r"
    and "\<And>job j. find_job t job = Some j \<Longrightarrow> find_job s job = Some j
          \<or> \<not> answered j \<and> job \<notin> snd ` set (pending_requests s)"
  shows "order_ok t"
proof -
  have mp: "mime_pending t r job = mime_pending s r job" for r job
    by (simp add: mime_pending_def assms(2-4))
  have "ids_ok t"
    using assms(1,6,7,9) unfolding order_upto_def ids_ok_def assms(2-5) by blast
  moreover have "headers_known j \<or> mime_pending s r job"
    if "(r, job) \<in> set (pending_requests t)" "find_job t job = Some j" for r job j
  proof -
    have m: "(r, job) \<in> set (pending_requests s)" using that(1) assms(8) by blast
    then have "job \<in> snd ` set (pending_requests s)" by force
    with assms(10) [OF that(2)] pending_order [OF assms(1) m] show ?thesis by blast
  qed
  moreover have "headers_known j" if "find_job t job = Some j" "answered j" for job j
    using assms(10) [OF that(1)] that(2) answered_order [OF assms(1)] by blast
  ultimately show ?thesis unfolding order_upto_def mp by blast
qed

lemma inv_sound: "url_inv X s \<Longrightarrow> sound s"
  by (simp add: url_inv_def core_def sound_def)

lemma send_response_order:
  assumes "sound s" and "order_ok s" and "forwarded s r" and "send_response cur s x r bytes = Some t"
  shows "order_ok t"
proof (cases "is_scheduled_for_deletion s x")
  case True
  with assms show ?thesis by (simp add: send_response_def)
next
  case False
  let ?c = "SendResponseOnIOThread x r bytes"
  have post: "post_url_callback cur s IO ?c = Some t" using assms(4) False by (simp add: send_response_def)
  note calm = post_url_callback_calm [OF assms(1) _ post]
  show ?thesis
  proof (cases "accepts s IO")
    case True
    have "harmless s ?c" using assms(3) True by (auto simp: harmless_def)
    moreover have "calm {?c} s t" using calm(1) True by simp
    ultimately show ?thesis by (intro order_ok_calm [OF assms(2)]) auto
  next
    case False
    have "calm {} s t" using calm(2) False by simp
    then show ?thesis by (rule order_ok_calm [OF assms(2)]) simp
  qed
qed

lemma add_data_source_order:
  assumes "sound s" and "order_ok s" and "add_data_source cur s client = Some t"
  shows "order_ok t"
proof -
  let ?d = "new_url_data_source_ios_impl (get_source client) client"
  let ?s = "fst (create_source ?d (get_from_browser_state s))"
  let ?c = "AddDataSourceOnIOThread (next_source s)"
  have c1: "calm {?c} s ?s"
    by (rule calm_same [OF assms(1)]) (simp_all add: create_source_def get_from_browser_state_def)
  obtain u where u: "dcheck_currently_on cur ?s UI = Some u" "post_url_callback cur u IO ?c = Some t"
    using assms(3)
    by (auto simp: add_data_source_def create_source_def manager_add_data_source_def get_from_browser_state_def option_dest)
  from dcheck_on_same [OF calm_sound [OF c1] _ u(1)] have "u = ?s" by simp
  with post_url_callback_calm' [OF calm_sound [OF c1] _ u(2) [unfolded this]] have "calm {?c} s t"
    using calm_trans [OF c1] by simp
  then show ?thesis by (rule order_ok_calm [OF assms(2)]) (simp add: harmless_def)
qed

lemma release_order: "sound s \<Longrightarrow> order_ok s \<Longrightarrow> release cur x s = Some t \<Longrightarrow> order_ok t"
  using order_ok_calm [of s "{}" t] release_calm [of s cur x t "{}"] by simp

lemma held_forwarded: "order_ok s \<Longrightarrow> (x, r) \<in> set (held_callbacks s) \<Longrightarrow> forwarded s r"
  by (simp add: order_upto_def ids_ok_def)

lemma client_drops_order:
  assumes "sound s" and "order_ok s" and "url_step shared app schemes s (ClientDropsCallback cur k) = Some t"
  shows "order_ok t"
proof -
  let ?s = "s\<lparr>held_callbacks := vector_erase k (held_callbacks s)\<rparr>"
  have "release cur (fst (held_callbacks s ! k)) ?s = Some t" using assms(3) by (auto split: if_splits)
  moreover have "order_ok ?s"
    by (rule order_ok_same [OF assms(2)])
      (auto dest: in_set_vector_eraseD held_forwarded [OF assms(2)])
  moreover have "sound ?s" using assms(1) by (simp add: sound_def posted_wf_def)
  ultimately show ?thesis using release_order by blast
qed

lemma create_job_order:
  assumes "order_ok s" and "jobs_ok s"
  shows "order_ok (create_job url incognito s)"
proof (rule order_ok_same [OF assms(1)])
  fix job j
  assume "find_job (create_job url incognito s) job = Some j"
  then have "find_job s job = Some j \<or> job = length (url_jobs s) \<and> j = new_url_request_chrome_job url incognito"
    by (auto simp: create_job_def find_job_def nth_append split: if_splits)
  moreover have "length (url_jobs s) \<notin> snd ` set (pending_requests s)"
    using pending_job [OF assms(2)] by (fastforce simp: find_job_def)
  ultimately show "find_job s job = Some j
      \<or> \<not> answered j \<and> job \<notin> snd ` set (pending_requests s)"
    by (auto simp: answered_def new_url_request_chrome_job_def create_job_def)
qed (auto simp: create_job_def dest: held_forwarded [OF assms(1)])

lemma kill_job_order:
  assumes "order_ok s" and "jobs_ok s" and "kill_job s job = Some t"
  shows "order_ok t"
proof -
  obtain j where j: "find_job s job = Some j" using assms(3) by (auto simp: kill_job_def option_dest)
  let ?ps = "if job_backend j then remove_request_loop (pending_requests s) job else pending_requests s"
  let ?s = "s\<lparr>pending_requests := ?ps\<rparr>"
  have "set ?ps \<subseteq> set (pending_requests s)"
    using set_remove_request assms(2) by (auto simp: jobs_ok_def)
  then have ord: "order_ok ?s"
    by (intro order_ok_same [OF assms(1)]) (auto dest: held_forwarded [OF assms(1)])
  have t: "t = put_job job (job_notify JobKilled (j\<lparr>job_weak_valid := False\<rparr>)) ?s"
    using assms(3) j find_job_bound [OF j]
    by (auto simp: kill_job_def remove_request_def put_job_def find_job_def option_dest split: if_splits)
  show ?thesis
    unfolding t
    by (rule order_ok_put [OF ord, of job j]) (use j answered_order [OF assms(1) j] in
        \<open>auto simp: headers_known_def answered_def job_notify_def\<close>)
qed

lemma destroy_job_order:
  assumes "sound s" and "order_ok s" and "destroy_job cur s job = Some t"
  shows "order_ok t"
proof -
  obtain j where j: "find_job s job = Some j" using assms(3) by (auto simp: destroy_job_def option_dest)
  let ?s = "s\<lparr>url_jobs := (url_jobs s)[job := None]\<rparr>"
  have "find_job ?s i = Some k \<Longrightarrow> find_job s i = Some k" for i k
    by (cases "i = job") (auto simp: find_job_def split: if_splits)
  then have ord: "order_ok ?s"
    by (intro order_ok_same [OF assms(2)]) (auto dest: held_forwarded [OF assms(2)])
  have "(case job_source j of None \<Rightarrow> Some ?s | Some source \<Rightarrow> release cur source ?s) = Some t"
    using assms(3) j by (auto simp: destroy_job_def option_dest Let_def)
  moreover have "sound ?s" using assms(1) by (simp add: sound_def posted_wf_def)
  ultimately show ?thesis using ord release_order by (auto split: option.splits)
qed

lemma complete_read_answers: "complete_read j n = Some (k, rv) \<Longrightarrow>
   headers_known k = headers_known j \<and> answered k = answered j"
  by (auto simp: complete_read_def job_notify_def headers_known_def answered_def Let_def option_dest split: if_splits)

lemma read_job_order:
  assumes "order_ok s" and "read_job s job n = Some t"
  shows "order_ok t"
proof -
  obtain j k rv where j: "find_job s job = Some j" "read_raw_data j n = Some (k, rv)" "t = put_job job k s"
    using assms(2) by (auto simp: read_job_def option_dest)
  have "headers_known k = headers_known j \<and> answered k = answered j"
    using j(2) complete_read_answers [of j n k rv]
    by (auto simp: read_raw_data_def headers_known_def answered_def option_dest split: if_splits)
  then show ?thesis
    unfolding j(3) using answered_order [OF assms(1) j(1)] by (intro order_ok_put [OF assms(1) j(1)]) auto
qed

lemma stop_thread_order:
  assumes "order_ok s" and "destroy_web_thread (url_threads s) i = Some g"
  shows "order_ok (s\<lparr>url_threads := g\<rparr>)"
proof -
  let ?t = "s\<lparr>url_threads := g\<rparr>"
  have g: "posted g = posted (url_threads s)" "\<And>k. thread_states g k = RUNNING \<Longrightarrow> thread_states (url_threads s) k = RUNNING"
    using assms(2) by (auto simp: destroy_web_thread_def acquire_lock_def release_lock_def get_globals_def option_dest
        split: if_splits)
  have same: "queue ?t = queue s" "forwarded ?t = forwarded s"
    using g(1) by (simp_all add: queue_def forwarded_def fun_eq_iff)
  have "accepts ?t IO \<Longrightarrow> accepts s IO" using g(2) by (simp add: accepts_def)
  then have "mime_pending ?t r job" if "mime_pending s r job" for r job
    using that unfolding mime_pending_def same by blast
  moreover have "ids_ok ?t" using assms(1) unfolding order_upto_def ids_ok_def same by simp
  moreover have eqs: "pending_requests ?t = pending_requests s" "find_job ?t = find_job s" by simp_all
  ultimately show ?thesis using assms(1) unfolding order_upto_def eqs by blast
qed

text \<open>The two tasks of a request, in the order the backend posts them.\<close>

lemma post_two:
  assumes "sound s" and "post_url_callback cur s UI (GetMimeTypeOnUI x path job) = Some u"
    and "post_url_callback cur u UI (CallStartRequest x path r) = Some t"
    and "\<not> list_ex (starts r) (queue s)"
  shows "\<exists>q. queue t = queue s @ q \<and> (\<forall>i. i \<noteq> r \<longrightarrow> \<not> list_ex (starts i) q) \<and> (\<forall>i. \<not> list_ex (answers i) q)
     \<and> (before (asks_mime job) (starts r) (queue t) \<or> \<not> list_ex (starts r) (queue t))"
    and "calm {GetMimeTypeOnUI x path job, CallStartRequest x path r} s t"
proof -
  let ?g = "GetMimeTypeOnUI x path job" and ?c = "CallStartRequest x path r"
  note c1 = post_url_callback_calm [OF assms(1) _ assms(2)]
  note c1' = post_url_callback_calm' [OF assms(1) _ assms(2)]
  have su: "sound u" using calm_sound c1' by blast
  note c2 = post_url_callback_calm [OF su _ assms(3)]
  have acc: "accepts u UI = accepts s UI" using calm_fields(6) [OF c1'] by simp
  show "calm {?g, ?c} s t"
    using calm_trans [OF calm_weaken [OF c1'] calm_weaken [OF post_url_callback_calm' [OF su _ assms(3)]]] by simp
  show "\<exists>q. queue t = queue s @ q \<and> (\<forall>i. i \<noteq> r \<longrightarrow> \<not> list_ex (starts i) q) \<and> (\<forall>i. \<not> list_ex (answers i) q)
     \<and> (before (asks_mime job) (starts r) (queue t) \<or> \<not> list_ex (starts r) (queue t))"
  proof (cases "accepts s UI")
    case True
    have q: "queue t = queue s @ (runner s UI, ?g) # [(runner u UI, ?c)]"
      using c1(1) c2(1) True acc by simp
    have "before (asks_mime job) (starts r) (queue t)"
      unfolding q by (rule before_snoc) (use assms(4) in simp_all)
    with q show ?thesis by auto
  next
    case False
    have "calm {} s t" using calm_trans [OF c1(2) c2(2)] False acc by simp
    then obtain q where q: "queue t = queue s @ q" "snd ` set q \<subseteq> {DeleteDataSources}"
      by (auto simp: calm_def)
    have e: "snd e = DeleteDataSources" if "e \<in> set q" for e using q(2) that by auto
    have n: "\<not> list_ex (starts i) q" "\<not> list_ex (answers i) q" for i
      using e by (fastforce simp: list_ex_iff elim: starts.elims answers.elims)+
    with q assms(4) show ?thesis by auto
  qed
qed

lemma start_request_order:
  assumes "sound s" and "order_ok s" and "backend_alive s" and "find_job s job = Some j"
    and "job \<notin> snd ` set (pending_requests s)" and "start_request cur app schemes s job = Some (t, b)"
    and "jobs_ok s"
  shows "order_ok t"
proof (cases "t = s")
  case True
  with assms(2) show ?thesis by simp
next
  case False
  let ?r = "next_request_id s"
  obtain x d where x: "get_data_source_from_url s (job_url j) = Some x" "url_objects s x = Some d"
    "should_service_request (ds_client d) (job_url j)"
    using assms(4,6) False by (auto simp: start_request_def option_dest split: option.splits if_splits)
  let ?path = "url_to_request_path (job_url j)"
  let ?ps = "if ?r \<in> fst ` set (pending_requests s) then pending_requests s
             else insort_key fst (?r, job) (pending_requests s)"
  let ?s1 = "s\<lparr>pending_requests := ?ps, next_request_id := ?r + 1\<rparr>"
  let ?k = "j\<lparr>job_allow_caching := allow_caching (ds_client d), add_content_security_policy := True,
               csp_object_source := get_csp_object_src (ds_client d), csp_frame_source := ''frame-src 'none';'',
               deny_xframe_options := should_deny_xframe_options (ds_client d), send_content_type_header := False\<rparr>"
  let ?s2 = "put_job job ?k ?s1"
  obtain u where u: "post_url_callback cur ?s2 UI (GetMimeTypeOnUI x ?path job) = Some u"
    "post_url_callback cur u UI (CallStartRequest x ?path ?r) = Some t"
    using assms(4,6) False x by (auto simp: start_request_def option_dest Let_def split: if_splits)
  have same: "queue ?s2 = queue s" "forwarded ?s2 = forwarded s" "accepts ?s2 = accepts s"
    by (simp_all add: put_job_def)
  have snd2: "sound ?s2" using assms(1) by (simp add: sound_def posted_wf_def put_job_def)
  have ids: "ids_ok s" using assms(2) by (simp add: order_upto_def)
  have fresh: "\<not> forwarded s ?r" "\<not> list_ex (starts ?r) (queue s)"
    using ids unfolding ids_ok_def by (meson less_irrefl)+
  from post_two [OF snd2 u] fresh(2) same obtain q where q: "queue t = queue s @ q"
    "\<And>i. i \<noteq> ?r \<Longrightarrow> \<not> list_ex (starts i) q" "\<And>i. \<not> list_ex (answers i) q"
    "before (asks_mime job) (starts ?r) (queue t) \<or> \<not> list_ex (starts ?r) (queue t)"
    and calm: "calm {GetMimeTypeOnUI x ?path job, CallStartRequest x ?path ?r} ?s2 t" by auto
  note f = calm_fields [OF calm, unfolded same]
  have fields: "next_request_id t = ?r + 1" "pending_requests t = ?ps" "held_callbacks t = held_callbacks s"
    using f by (simp_all add: put_job_def)
  have find: "find_job t i = (if i = job then Some ?k else find_job s i)" for i
    unfolding f(9) using assms(4) by simp
  have "ids_ok t"
    unfolding ids_ok_def f(5) fields q(1) list_ex_append_iff
  proof (intro conjI allI impI)
    show "i < ?r + 1" if "forwarded s i \<or> list_ex (starts i) (queue s) \<or> list_ex (starts i) q" for i
      using ids q(2) [of i] that unfolding ids_ok_def by (cases "i = ?r") (auto intro: less_trans)
    show "?r + 1 = 0" if "browser_state_alive t" "\<not> backend_alive t"
      using that calm assms(3) by (simp add: calm_def put_job_def)
  qed (use ids q(3) in \<open>auto simp: ids_ok_def\<close>)
  moreover have "headers_known k \<or> mime_pending t i job'"
    if "(i, job') \<in> set ?ps" "find_job t job' = Some k" for i job' k
  proof (cases "(i, job') \<in> set (pending_requests s)")
    case True
    then have "job' \<noteq> job" using assms(5) by force
    then have "headers_known k \<or> mime_pending s i job'"
      using pending_order [OF assms(2) True] that(2) find by simp
    moreover have "i \<noteq> ?r" using pending_id [OF assms(7) True] by simp
    then have "mime_pending t i job'" if "mime_pending s i job'"
      using mime_pending_append [OF that q(1) q(2) _ f(5,6)] q(3) by blast
    ultimately show ?thesis by blast
  next
    case False
    then have "i = ?r" "job' = job" using that(1) by (auto simp: set_insort_key split: if_splits)
    with q(4) fresh(1) f(5) show ?thesis by (auto simp: mime_pending_def)
  qed
  moreover have "headers_known k" if "find_job t i = Some k" "answered k" for i k
  proof -
    have "headers_known ?k = headers_known j" "answered ?k = answered j"
      by (simp_all add: headers_known_def answered_def)
    with that answered_order [OF assms(2), of i] find assms(4) show ?thesis
      by (auto split: if_splits)
  qed
  ultimately show ?thesis unfolding order_upto_def fields by blast
qed

lemma no_backend_yet:
  assumes "url_inv X s" and "order_ok s" and "browser_state_alive s" and "\<not> backend_alive s"
  shows "next_request_id s = 0 \<and> pending_requests s = []"
proof -
  have jobs: "jobs_ok s" using assms(1) by (simp add: url_inv_def)
  have "job \<notin> snd ` set (pending_requests s)" for job
    using pending_job [OF jobs, of job] found_job_ok [OF jobs] assms(4) by (auto simp: job_ok_def)
  then have "pending_requests s = []" by (cases "pending_requests s") auto
  with assms(2-4) show ?thesis by (simp add: order_upto_def ids_ok_def)
qed

lemma start_job_order:
  assumes "url_inv X s" and "thread_runners (url_threads s) IO = Some cur" and "order_ok s" and "browser_state_alive s"
    and "find_job s job = Some j" and "\<not> job_backend j" and "start_job cur shared app schemes s job = Some t"
  shows "order_ok t"
proof -
  obtain s1 where s1: "get_url_data_manager_ios_backend_on_io_thread cur shared s = Some s1" "url_inv X s1"
    "url_jobs s1 = url_jobs s" "backend_alive s1"
    using get_backend_inv [OF assms(1,2,4), of shared] by blast
  have c: "calm {} s s1"
    by (rule get_backend_calm [OF inv_sound [OF assms(1)] _ s1(1)]) (rule no_backend_yet [OF assms(1,3,4)])
  have ord1: "order_ok s1" by (rule order_ok_calm [OF assms(3) c]) simp
  have find: "find_job s1 job = Some j" using assms(5) find_job_layout [OF s1(3)] by simp
  have jobs: "jobs_ok s1" using s1(2) by (simp add: url_inv_def)
  have new: "job \<notin> snd ` set (pending_requests s1)" using pending_job [OF jobs] find assms(6) by fastforce
  let ?k = "j\<lparr>job_backend := True\<rparr>"
  let ?s = "put_job job ?k s1"
  have ord2: "order_ok ?s"
    by (rule order_ok_put [OF ord1 find])
      (use answered_order [OF ord1 find] in \<open>simp_all add: headers_known_def answered_def\<close>)
  have jobs2: "jobs_ok ?s"
    by (rule jobs_ok_put [OF jobs find]) (use found_job_ok [OF jobs find] s1(4) new in \<open>auto simp: job_ok_def\<close>)
  have snd2: "sound ?s" using calm_sound [OF c] by (simp add: sound_def posted_wf_def put_job_def)
  have find2: "find_job ?s job = Some ?k" using find by simp
  obtain u b where u: "start_request cur app schemes ?s job = Some (u, b)"
    "(if b then Some u else map_option (\<lambda>j2. put_job job (job_notify NotifyStartError j2) u) (find_job u job)) = Some t"
    using assms(7) s1(1) find by (auto simp: start_job_def option_dest split: if_splits)
  have ord3: "order_ok u"
    by (rule start_request_order [OF snd2 ord2 _ find2 _ u(1) jobs2]) (use s1(4) new in \<open>simp_all add: put_job_def\<close>)
  show ?thesis
  proof (cases b)
    case True
    with u(2) ord3 show ?thesis by simp
  next
    case False
    then obtain k where k: "find_job u job = Some k" "t = put_job job (job_notify NotifyStartError k) u"
      using u(2) by auto
    show ?thesis
      unfolding k(2) by (rule order_ok_put [OF ord3 k(1)])
        (use answered_order [OF ord3 k(1)] in \<open>auto simp: headers_known_def answered_def job_notify_def\<close>)
  qed
qed

lemma destroy_browser_state_order:
  assumes "sound s" and "order_ok s" and "destroy_browser_state cur s = Some t"
  shows "order_ok t"
proof -
  let ?s = "s\<lparr>browser_state_alive := False, has_manager := False\<rparr>"
  have snd: "sound ?s" using assms(1) by (simp add: sound_def posted_wf_def)
  have ord: "order_ok ?s"
    by (rule order_ok_same [OF assms(2)])
      (auto simp: queue_def forwarded_def accepts_def fun_eq_iff dest: held_forwarded [OF assms(2), unfolded forwarded_def])
  show ?thesis
  proof (cases "backend_alive s")
    case False
    with assms(3) ord show ?thesis by (simp add: destroy_browser_state_def)
  next
    case True
    then obtain u b where u: "hand_over cur ?s IO DeleteBackend False = Some (u, b)"
      "(if \<not> b then destroy_backend cur u else Some u) = Some t"
      using assms(3) by (auto simp: destroy_browser_state_def option_dest)
    note c = hand_over_calm(1) [OF snd _ u(1)]
    have ordu: "order_ok u" by (rule order_ok_calm [OF ord c]) (auto simp: harmless_def)
    have "\<not> browser_state_alive u" using c by (simp add: calm_def)
    then have "calm {} u t" if "\<not> b"
      using that u(2) destroy_backend_calm calm_sound [OF c] by simp
    with u(2) ordu order_ok_calm [OF ordu, of "{}" t] show ?thesis by (cases b) auto
  qed
qed

section \<open>Running keeps the order\<close>

lemma taken_same:
  "forwarded (taken cur s) = forwarded s" "accepts (taken cur s) = accepts s" "runner (taken cur s) = runner s"
  "pending_requests (taken cur s) = pending_requests s" "find_job (taken cur s) = find_job s"
  "held_callbacks (taken cur s) = held_callbacks s" "next_request_id (taken cur s) = next_request_id s"
  "browser_state_alive (taken cur s) = browser_state_alive s" "backend_alive (taken cur s) = backend_alive s"
  by (simp_all add: taken_def forwarded_def accepts_def runner_def fun_eq_iff)

text \<open>What is left of the order when the task \<open>c\<close> has been taken.\<close>

lemma taken_order:
  assumes "url_inv X s" and "order_ok s" and "take_entry cur (queue s) = Some (c, rest)"
  shows "ids_ok (taken cur s)"
    and "(r, job) \<in> set (pending_requests s) \<Longrightarrow> find_job s job = Some j \<Longrightarrow> headers_known j
      \<or> asks_mime job (cur, c) \<and> \<not> forwarded s r \<or> brings_mime job (cur, c)
      \<or> \<not> answers r (cur, c) \<and> (mime_sent (taken cur s) r job \<or> \<not> starts r (cur, c) \<and> mime_pending (taken cur s) r job)"
proof -
  have ids: "ids_ok s" and qok: "queue_ok s" using assms(1,2) by (simp_all add: order_upto_def url_inv_def)
  note q = taken_facts(1) [OF assms(1,3)]
  have sub: "list_ex p rest \<Longrightarrow> list_ex p (queue s)" for p using take_entry_ex [OF assms(3)] by blast
  show "ids_ok (taken cur s)"
    using ids sub unfolding ids_ok_def taken_same q by blast
  show "headers_known j
      \<or> asks_mime job (cur, c) \<and> \<not> forwarded s r \<or> brings_mime job (cur, c)
      \<or> \<not> answers r (cur, c) \<and> (mime_sent (taken cur s) r job \<or> \<not> starts r (cur, c) \<and> mime_pending (taken cur s) r job)"
    if "(r, job) \<in> set (pending_requests s)" "find_job s job = Some j"
    using pending_order [OF assms(2) that] taken_request [OF _ qok ids assms(3) q taken_same(2,1)] by blast
qed

lemma taken_upto:
  assumes "url_inv X s" and "order_ok s" and "take_entry cur (queue s) = Some (c, rest)"
    and "\<And>job. asks_mime job (cur, c) \<or> brings_mime job (cur, c) \<Longrightarrow> job \<in> E"
  shows "order_upto E (taken cur s)"
  using taken_order [OF assms(1-3)] assms(4) mime_sent_pending answered_order [OF assms(2)]
  unfolding order_upto_def taken_same by blast

lemma same_queue_order: "calm {} s t \<Longrightarrow> mime_sent s r job \<Longrightarrow> mime_sent t r job"
proof -
  assume c: "calm {} s t" and m: "mime_sent s r job"
  obtain q where q: "queue t = queue s @ q" "snd ` set q \<subseteq> {DeleteDataSources}"
    using c by (auto simp: calm_def)
  have e: "snd e = DeleteDataSources" if "e \<in> set q" for e using q(2) that by auto
  then have "\<not> list_ex (answers r) q" by (fastforce simp: list_ex_iff elim: answers.elims)
  with m show ?thesis
    unfolding mime_sent_def q(1) list_ex_append_iff calm_fields(6) [OF c] using before_append by blast
qed

lemma run_start_order:
  assumes "url_inv X s" and "order_ok s" and "take_entry cur (queue s) = Some (CallStartRequest x path i, rest)"
    and "call_start_request (taken cur s) x path i = Some u"
  shows "order_ok u"
proof -
  let ?s = "taken cur s"
  have ord: "order_ok ?s" by (rule taken_upto [OF assms(1-3)]) simp
  have snd: "sound ?s" using taken_facts(2) [OF assms(1,3)] by (simp add: core_def sound_def)
  obtain v where v: "add_ref x ?s = Some v"
    "u = v\<lparr>held_callbacks := held_callbacks v @ [(x, i)], data_requests := data_requests v @ [(x, path, i)]\<rparr>"
    using assms(4) by (auto simp: call_start_request_def option_dest)
  have c: "calm {} ?s v" by (rule add_ref_calm [OF snd v(1)])
  have ord_v: "order_ok v" by (rule order_ok_calm [OF ord c]) simp
  note f = calm_fields [OF c]
  have same: "queue u = queue v" "accepts u = accepts v" "next_request_id u = next_request_id v"
    "browser_state_alive u = browser_state_alive v" "backend_alive u = backend_alive v"
    "pending_requests u = pending_requests v" "find_job u = find_job v"
    by (simp_all add: v(2) queue_def accepts_def find_job_def fun_eq_iff)
  have fwd: "forwarded u r \<longleftrightarrow> forwarded v r \<or> r = i" for r
    by (auto simp: v(2) forwarded_def)
  have held: "held_callbacks u = held_callbacks v @ [(x, i)]" by (simp add: v(2))
  have "i < next_request_id s"
    using assms(2) take_entry_ex [OF assms(3), of "starts i"] by (simp add: order_upto_def ids_ok_def)
  then have "i < next_request_id v" using f(4) by (simp add: taken_same)
  then have "ids_ok u"
    using ord_v unfolding order_upto_def ids_ok_def same fwd held by auto
  moreover have "headers_known j \<or> mime_pending u r job"
    if "(r, job) \<in> set (pending_requests v)" "find_job v job = Some j" for r job j
  proof -
    have m: "(r, job) \<in> set (pending_requests s)" "find_job s job = Some j"
      using that f(2,9) by (simp_all add: taken_same)
    have "headers_known j \<or> mime_sent ?s r job \<or> r \<noteq> i \<and> mime_pending v r job"
      using taken_order(2) [OF assms(1-3) m] pending_order [OF ord_v that] by auto
    moreover have "mime_pending u r job" if "mime_sent ?s r job"
      using mime_sent_pending same_queue_order [OF c that] by (auto simp: mime_pending_def mime_sent_def same)
    moreover have "mime_pending u r job" if "r \<noteq> i" "mime_pending v r job"
      using that by (auto simp: mime_pending_def same fwd)
    ultimately show ?thesis by blast
  qed
  moreover have "headers_known j" if "find_job v job = Some j" "answered j" for job j
    using answered_order [OF ord_v that] .
  ultimately show ?thesis unfolding order_upto_def same by blast
qed

lemma run_mime_request_order:
  assumes "url_inv X s" and "order_ok s" and "take_entry cur (queue s) = Some (GetMimeTypeOnUI x path i, rest)"
    and "get_mime_type_on_ui cur (taken cur s) x path i = Some u"
  shows "order_ok u"
proof -
  let ?s = "taken cur s"
  have ord: "order_upto {i} ?s" by (rule taken_upto [OF assms(1-3)]) simp
  have snd: "sound ?s" using taken_facts(2) [OF assms(1,3)] by (simp add: core_def sound_def)
  obtain v and d :: data_source where v: "dcheck_currently_on cur ?s UI = Some v"
    "post_url_callback cur v IO (MimeTypeAvailable i x (get_mime_type (ds_client d) path)) = Some u"
    using assms(4) unfolding get_mime_type_on_ui_def option_dest by blast
  have "v = ?s" using dcheck_on_same [OF snd _ v(1)] by simp
  let ?c = "MimeTypeAvailable i x (get_mime_type (ds_client d) path)"
  note p = v(2) [unfolded \<open>v = ?s\<close>]
  note calm = post_url_callback_calm [OF snd _ p]
  have c: "calm {?c} ?s u" using post_url_callback_calm' [OF snd _ p] by simp
  have upto: "order_upto {i} u" by (rule order_upto_calm [OF ord c]) (auto simp: harmless_def)
  note f = calm_fields [OF c]
  have "headers_known j \<or> mime_pending u r i" if "(r, i) \<in> set (pending_requests u)" "find_job u i = Some j" for r j
  proof -
    have m: "(r, i) \<in> set (pending_requests s)" "find_job s i = Some j"
      using that f(2,9) by (simp_all add: taken_same)
    have ids: "ids_ok s" using assms(2) by (simp add: order_upto_def)
    note q = taken_facts(1) [OF assms(1,3)]
    from taken_order(2) [OF assms(1-3) m] consider "headers_known j" | "\<not> forwarded s r" | "mime_pending ?s r i"
      using mime_sent_pending by auto
    then show ?thesis
    proof cases
      case 1
      then show ?thesis by blast
    next
      case 2
      then have "\<not> list_ex (answers r) (queue s)" using ids by (auto simp: ids_ok_def)
      then have none: "\<not> list_ex (answers r) (queue ?s)" unfolding q using take_entry_ex [OF assms(3)] by blast
      show ?thesis
      proof (cases "accepts ?s IO")
        case True
        have "queue u = queue ?s @ [(runner ?s IO, ?c)]" using calm(1) True by simp
        then have "before (brings_mime i) (answers r) (queue u)" using before_snoc [OF _ none] by simp
        then show ?thesis by (simp add: mime_pending_def)
      next
        case False
        have "calm {} ?s u" using calm(2) False by simp
        moreover have "mime_sent ?s r i" using none False by (simp add: mime_sent_def)
        ultimately show ?thesis using same_queue_order mime_sent_pending by blast
      qed
    next
      case 3
      obtain q' where "queue u = queue ?s @ q'" "\<And>r. \<not> list_ex (starts r) q'"
        "\<And>r. list_ex (answers r) q' \<Longrightarrow> forwarded ?s r \<and> accepts ?s IO"
        by (rule calm_harmless [OF c]) (auto simp: harmless_def)
      from mime_pending_append [OF 3 this f(5,6)] show ?thesis by blast
    qed
  qed
  with upto show ?thesis unfolding order_upto_def by blast
qed

lemma mime_available_order:
  assumes "sound s" and "order_upto {job} s" and "mime_type_available cur s job x mime = Some t"
  shows "order_ok t"
proof -
  obtain j where j: "find_job s job = Some j" using assms(3) by (auto simp: mime_type_available_def option_dest)
  let ?s = "put_job job (j\<lparr>job_mime_type := mime\<rparr>) s"
  have ord: "order_upto {job} ?s"
    by (rule order_upto_put [OF assms(2) j])
      (use answered_order [OF assms(2) j] in \<open>simp_all add: headers_known_def answered_def\<close>)
  have snd: "sound ?s" using assms(1) by (simp add: sound_def posted_wf_def put_job_def)
  have find: "find_job ?s job = Some (j\<lparr>job_mime_type := mime\<rparr>)" using j by simp
  obtain u k where u: "(if mime = ''text/html'' then set_source cur job x ?s else Some ?s) = Some u"
    "find_job u job = Some k" "t = put_job job (job_notify NotifyHeadersComplete k) u"
    using assms(3) j by (auto simp: mime_type_available_def option_dest Let_def split: if_splits)
  have "order_upto {job} u"
  proof (cases "mime = ''text/html''")
    case False
    with u(1) ord show ?thesis by simp
  next
    case True
    with u(1) find obtain v where v: "add_ref x ?s = Some v"
      "(case job_source (j\<lparr>job_mime_type := mime\<rparr>) of
          None \<Rightarrow> Some (put_job job (j\<lparr>job_mime_type := mime, job_source := Some x\<rparr>) v)
        | Some old \<Rightarrow> release cur old (put_job job (j\<lparr>job_mime_type := mime, job_source := Some x\<rparr>) v)) = Some u"
      by (auto simp: set_source_def option_dest Let_def)
    let ?v = "put_job job (j\<lparr>job_mime_type := mime, job_source := Some x\<rparr>) v"
    note c = add_ref_calm [OF snd v(1), of "{}"]
    have ord_v: "order_upto {job} v" by (rule order_upto_calm [OF ord c]) simp
    have find_v: "find_job v job = Some (j\<lparr>job_mime_type := mime\<rparr>)" using calm_fields(9) [OF c] find by simp
    have ord_w: "order_upto {job} ?v"
      by (rule order_upto_put [OF ord_v find_v])
        (use answered_order [OF ord_v find_v] in \<open>simp_all add: headers_known_def answered_def\<close>)
    have snd_v: "sound ?v" using calm_sound [OF c] by (simp add: sound_def posted_wf_def put_job_def)
    show ?thesis
      using v(2) ord_w order_upto_calm [OF ord_w release_calm [OF snd_v, where C = "{}"]]
      by (cases "job_source j") auto
  qed
  then show ?thesis
    unfolding u(3) by (rule order_upto_put [OF _ u(2)]) (auto simp: headers_known_def job_notify_def)
qed

lemma job_data_available_headers: "job_data_available j bytes = Some k \<Longrightarrow> headers_known k = headers_known j"
  by (auto simp: job_data_available_def job_notify_def headers_known_def Let_def option_dest
      dest!: complete_read_answers split: option.splits if_splits)

lemma send_response_on_io_order:
  assumes "sound s" and "order_ok s"
    and "\<And>job j. (i, job) \<in> set (pending_requests s) \<Longrightarrow> find_job s job = Some j \<Longrightarrow> headers_known j"
    and "send_response_on_io_thread cur s x i bytes = Some t"
  shows "order_ok t"
proof -
  obtain v where v: "dcheck_currently_on cur s IO = Some v"
    "t = v \<or> backend_data_available v i bytes = Some t"
    using assms(4) by (auto simp: send_response_on_io_thread_def option_dest split: if_splits)
  have "v = s" using dcheck_on_same [OF assms(1) _ v(1)] by simp
  show ?thesis
  proof (cases "t = s")
    case True
    with assms(2) show ?thesis by simp
  next
    case False
    then have b: "backend_data_available s i bytes = Some t" using v \<open>v = s\<close> by simp
    then obtain job where job: "map_of (pending_requests s) i = Some job"
      using False by (auto simp: backend_data_available_def split: option.splits)
    let ?s = "s\<lparr>pending_requests := AList.delete i (pending_requests s)\<rparr>"
    obtain j k where j: "find_job s job = Some j" "job_data_available j bytes = Some k" "t = put_job job k ?s"
      using b job by (auto simp: backend_data_available_def option_dest)
    have "headers_known k"
      using assms(3) [OF map_of_SomeD [OF job] j(1)] job_data_available_headers [OF j(2)] by simp
    moreover have ord: "order_ok ?s"
      by (rule order_ok_same [OF assms(2)]) (auto simp: AList.delete_eq dest: held_forwarded [OF assms(2)])
    ultimately show ?thesis unfolding j(3) by (intro order_ok_put [OF ord, of job j]) (use j(1) in auto)
  qed
qed

lemma run_next_order:
  assumes "url_inv X s" and "order_ok s" and "run_next cur shared s = Some t"
  shows "order_ok t"
proof (cases "take_entry cur (queue s)")
  case None
  have "posted_wf s" using assms(1) by (simp add: url_inv_def core_def)
  with None assms show ?thesis by (simp add: run_next_queue)
next
  case (Some cr)
  obtain c rest where take: "take_entry cur (queue s) = Some (c, rest)" using Some by (cases cr) auto
  let ?s = "taken cur s"
  have "posted_wf s" using assms(1) by (simp add: url_inv_def core_def)
  then obtain u where u: "run_callback cur shared ?s c = Some u" "release_bound cur c u = Some t"
    using assms(3) take by (auto simp: run_next_queue taken_def option_dest)
  note tk = taken_facts [OF assms(1) take]
  have snd: "sound ?s" using tk(2) by (simp add: core_def sound_def)
  have upto: "order_upto {job. asks_mime job (cur, c) \<or> brings_mime job (cur, c)} ?s"
    by (rule taken_upto [OF assms(1,2) take]) simp
  have inv: "url_inv (mset (bound_list c) + X) ?s" if "c \<noteq> DeleteDataSources"
    using tk that by (simp add: url_inv_def)
  have ord: "order_ok u"
  proof (cases c)
    case DeleteDataSources
    with u(1) have "calm {} ?s u" by (simp add: delete_data_sources_calm [OF snd])
    with upto DeleteDataSources show ?thesis by (auto intro: order_ok_calm)
  next
    case DeleteBackend
    with u(1) tk(3) have "calm {} ?s u" by (simp add: destroy_backend_calm [OF snd])
    with upto DeleteBackend show ?thesis by (auto intro: order_ok_calm)
  next
    case (AddDataSourceOnIOThread x)
    have ord: "order_ok ?s" using upto AddDataSourceOnIOThread by simp
    have "browser_state_alive ?s" using tk(3) AddDataSourceOnIOThread by simp
    then have "calm {} ?s u"
      using u(1) AddDataSourceOnIOThread add_on_io_calm [OF snd no_backend_yet [OF inv ord]] by simp
    with ord show ?thesis by (auto intro: order_ok_calm)
  next
    case (GetMimeTypeOnUI x path i)
    with u(1) show ?thesis using run_mime_request_order [OF assms(1,2) take [unfolded GetMimeTypeOnUI]] by simp
  next
    case (CallStartRequest x path i)
    with u(1) show ?thesis using run_start_order [OF assms(1,2) take [unfolded CallStartRequest]] by simp
  next
    case (MimeTypeAvailable job x mime)
    have upto: "order_upto {job} ?s" using upto MimeTypeAvailable by (simp add: Collect_conv_if eq_commute)
    show ?thesis
    proof (cases "\<exists>j. find_job ?s job = Some j \<and> job_weak_valid j")
      case True
      then show ?thesis using u(1) MimeTypeAvailable mime_available_order [OF snd upto] by auto
    next
      case False
      then have "u = ?s" using u(1) MimeTypeAvailable by (auto split: option.splits if_splits)
      moreover have "job \<notin> snd ` set (pending_requests ?s)" using pending_job [OF tk(5)] False by blast
      then have "order_ok ?s" using upto unfolding order_upto_def by force
      ultimately show ?thesis by simp
    qed
  next
    case (SendResponseOnIOThread x i bytes)
    have ord: "order_ok ?s" using upto SendResponseOnIOThread by simp
    have known: "headers_known j" if "(i, job) \<in> set (pending_requests ?s)" "find_job ?s job = Some j" for job j
      using taken_order(2) [OF assms(1,2) take, of i job j] that SendResponseOnIOThread by (simp add: taken_same)
    show ?thesis
      by (rule send_response_on_io_order [OF snd ord known]) (use u(1) SendResponseOnIOThread in simp_all)
  qed
  have "sound u"
  proof (cases "c = DeleteDataSources")
    case True
    with u(1) have "calm {} ?s u" by (simp add: delete_data_sources_calm [OF snd])
    then show ?thesis by (rule calm_sound)
  next
    case False
    from run_callback_inv [OF inv [OF False] tk(3) False, of shared] u(1) show ?thesis
      by (auto elim: good_resultE dest: inv_sound)
  qed
  then show ?thesis using order_ok_calm [OF ord release_bound_calm [OF _ u(2), where C = "{}"]] by simp
qed

section \<open>The property\<close>

text \<open>A source answers only requests that were forwarded to it.\<close>

fun answers_forwarded :: "url_data \<Rightarrow> url_event \<Rightarrow> bool" where
  "answers_forwarded s (SourceResponds cur source r bytes) \<longleftrightarrow> forwarded s r"
| "answers_forwarded s e \<longleftrightarrow> True"

definition ordered_event_allowed :: "(gurl \<Rightarrow> bool) \<Rightarrow> string list \<Rightarrow> url_data \<Rightarrow> url_event \<Rightarrow> bool" where
  "ordered_event_allowed app schemes s e \<longleftrightarrow> url_event_allowed app schemes s e \<and> answers_forwarded s e"

lemma url_step_order:
  assumes "url_inv {#} s" and "order_ok s" and "ordered_event_allowed app schemes s e"
    and "url_step shared app schemes s e = Some t"
  shows "order_ok t"
proof -
  have snd: "sound s" by (rule inv_sound [OF assms(1)])
  have jobs: "jobs_ok s" using assms(1) by (simp add: url_inv_def)
  show ?thesis
  proof (cases e)
    case (AddSource cur client)
    with assms(4) show ?thesis using add_data_source_order [OF snd assms(2)] by simp
  next
    case (RunNext cur)
    with assms(4) show ?thesis using run_next_order [OF assms(1,2)] by simp
  next
    case (ClientResponds cur k bytes)
    with assms(4) have k: "k < length (held_callbacks s)"
      "send_response cur s (fst (held_callbacks s ! k)) (snd (held_callbacks s ! k)) bytes = Some t"
      by (auto split: if_splits)
    have "forwarded s (snd (held_callbacks s ! k))"
      by (rule held_forwarded [OF assms(2), of "fst (held_callbacks s ! k)"]) (use k(1) in simp)
    from send_response_order [OF snd assms(2) this k(2)] show ?thesis .
  next
    case (ClientDropsCallback cur k)
    with assms(4) show ?thesis using client_drops_order [OF snd assms(2)] by blast
  next
    case (SourceResponds cur source r bytes)
    with assms(3,4) show ?thesis
      using send_response_order [OF snd assms(2)] by (auto simp: ordered_event_allowed_def)
  next
    case (CreateJob url incognito)
    with assms(4) show ?thesis using create_job_order [OF assms(2) jobs] by auto
  next
    case (StartJob cur job)
    with assms(3) obtain j where j: "find_job s job = Some j" "\<not> job_backend j" "cur = runner s IO"
      "browser_state_alive s" by (auto simp: ordered_event_allowed_def split: option.splits)
    have "thread_runners (url_threads s) IO = Some cur" using runner_Some [OF assms(1), of IO] j(3) by simp
    with StartJob assms(4) j show ?thesis using start_job_order [OF assms(1) _ assms(2)] by simp
  next
    case (KillJob job)
    with assms(4) show ?thesis using kill_job_order [OF assms(2) jobs] by simp
  next
    case (DestroyJob cur job)
    with assms(4) show ?thesis using destroy_job_order [OF snd assms(2)] by simp
  next
    case (ReadJob job n)
    with assms(4) show ?thesis using read_job_order [OF assms(2)] by simp
  next
    case (DeleteAtShutdown cur)
    with assms(4) have "calm {} s t" by (simp add: delete_data_sources_calm [OF snd])
    then show ?thesis by (intro order_ok_calm [OF assms(2)]) auto
  next
    case (DestroyBrowserState cur)
    with assms(4) show ?thesis using destroy_browser_state_order [OF snd assms(2)] by simp
  next
    case (StopWebThread i)
    with assms(4) show ?thesis using stop_thread_order [OF assms(2)] by auto
  qed
qed

interpretation url_order: step_invariant "url_step shared app schemes" "ordered_event_allowed app schemes"
  "\<lambda>s. url_inv {#} s \<and> order_ok s" for shared app schemes
proof unfold_locales
  show "url_inv {#} t \<and> order_ok t"
    if "url_inv {#} s \<and> order_ok s" "ordered_event_allowed app schemes s c" "url_step shared app schemes s c = Some t"
    for s c t
    using that url_step_order [of s app schemes c shared t] url_step_inv [of s app schemes c shared]
    by (auto simp: ordered_event_allowed_def)
qed

lemma new_url_data_order: "order_ok (new_url_data g)" if "posted g = []"
  using that
  by (simp add: order_upto_def ids_ok_def new_url_data_def queue_def forwarded_def find_job_def)

text \<open>
  C20. The mime type of a request reaches its job before any data: as long as sources answer only
  what was forwarded to them, a job that has data, or was told that the data cannot be had, has
  completed its headers before, for every interleaving of the two threads, also when a thread ends
  or the clients answer at once or more than once.
\<close>

theorem mime_type_before_data:
  assumes "legal (url_step shared app schemes) (ordered_event_allowed app schemes) (new_url_data g) es s"
    and "threads_good g" and "posted g = []" and "find_job s job = Some j"
    and "job_data j \<noteq> None \<or> ReadRawDataComplete n \<in> set (job_events j)"
  shows "NotifyHeadersComplete \<in> set (job_events j)"
proof -
  have "order_ok s"
    using url_order.legal_inv [OF assms(1)] new_url_data_inv [OF assms(2,3)] new_url_data_order [OF assms(3)] by blast
  moreover have "answered j" using assms(5) by (auto simp: answered_def)
  ultimately show ?thesis using answered_order [OF _ assms(4)] by (simp add: headers_known_def)
qed

theorem mime_type_before_data_witness:
  "\<exists>s j. run sample_step (new_url_data two_threads)
       [AddSource 0 (sample_client ''a''), RunNext 1, CreateJob sample_url False, StartJob 1 0, ReadJob 0 10,
        RunNext 0, RunNext 0, ClientResponds 0 0 (Some ''data''), RunNext 1, RunNext 1] = Some s
     \<and> find_job s 0 = Some j \<and> job_data j = Some ''data'' \<and> NotifyHeadersComplete \<in> set (job_events j)"
proof -
  have "case run_checked sample_step (ordered_event_allowed (\<lambda>url. True) []) (new_url_data two_threads)
       [AddSource 0 (sample_client ''a''), RunNext 1, CreateJob sample_url False, StartJob 1 0, ReadJob 0 10,
        RunNext 0, RunNext 0, ClientResponds 0 0 (Some ''data''), RunNext 1, RunNext 1] of None \<Rightarrow> False
     | Some s \<Rightarrow> map_option job_data (find_job s 0) = Some (Some ''data'')"
    by code_simp
  then obtain s where s: "legal sample_step (ordered_event_allowed (\<lambda>url. True) []) (new_url_data two_threads)
       [AddSource 0 (sample_client ''a''), RunNext 1, CreateJob sample_url False, StartJob 1 0, ReadJob 0 10,
        RunNext 0, RunNext 0, ClientResponds 0 0 (Some ''data''), RunNext 1, RunNext 1] s"
    "map_option job_data (find_job s 0) = Some (Some ''data'')"
    by (rule run_checked_witness)
  from s(2) obtain j where j: "find_job s 0 = Some j" "job_data j = Some ''data''" by auto
  have "NotifyHeadersComplete \<in> set (job_events j)"
    by (rule mime_type_before_data [OF s(1) two_threads_good j(1), of 0]) (simp add: j(2))
  with j legal_run [OF s(1)] show ?thesis by blast
qed

end
