(* ===== verification/UrlDataReads.thy ===== *)
theory UrlDataReads
  imports UrlDataOrder
begin

text \<open>A job hands its data to the network layer once, in order, in the pieces that are asked for.\<close>

definition filled :: "url_job \<Rightarrow> string" where
  "filled j = concat (map (\<lambda>e. case e of BufferFilled b \<Rightarrow> b | _ \<Rightarrow> []) (job_events j))"

fun read_all :: "url_job \<Rightarrow> int list \<Rightarrow> (url_job \<times> int list) option" where
  "read_all j [] = Some (j, [])"
| "read_all j (n # ns) = do {
     (k, rv) \<leftarrow> read_raw_data j n;
     (l, rvs) \<leftarrow> read_all k ns;
     Some (l, rv # rvs)
   }"

text \<open>The first \<open>p\<close> bytes of the data \<open>d\<close> were handed out.\<close>

definition handed_out :: "url_job \<Rightarrow> string \<Rightarrow> int \<Rightarrow> bool" where
  "handed_out j d p \<longleftrightarrow> job_data j = Some d \<and> data_offset j = p \<and> 0 \<le> p \<and> p \<le> int (length d)
     \<and> filled j = take (nat p) d"

lemma complete_read_result:
  assumes "job_data j = Some d" and "data_offset j = p" and "0 \<le> p" and "p \<le> int (length d)"
    and "filled j = take (nat p) d" and "int (length d) < 2 ^ 31" and "0 \<le> n"
  shows "\<exists>k. complete_read j n = Some (k, min n (int (length d) - p)) \<and> handed_out k d (min (p + n) (int (length d)))
     \<and> pending_buf k = pending_buf j"
proof -
  have rem: "to_int32 ((int (length d) - data_offset j) mod 2 ^ 64) = int (length d) - p"
    using assms(2-4,6) by (simp add: to_int32_mod64 to_int32_id)
  let ?m = "min n (int (length d) - p)"
  have m: "(if n > int (length d) - p then int (length d) - p else n) = ?m" by simp
  have result: "complete_read j n = Some (if ?m > 0
      then (job_notify (BufferFilled (take (nat ?m) (drop (nat p) d))) j)\<lparr>data_offset := p + ?m\<rparr> else j, ?m)"
    by (simp only: complete_read_def assms(1) Option.bind.bind_lunit Let_def rem m) (simp only: assms(2))
  have take: "take (nat p) d @ take (nat ?m) (drop (nat p) d) = take (nat (p + ?m)) d"
    using assms(3,4,7) by (simp add: nat_add_distrib take_add)
  show ?thesis
  proof (cases "?m > 0")
    case True
    let ?k = "(job_notify (BufferFilled (take (nat ?m) (drop (nat p) d))) j)\<lparr>data_offset := p + ?m\<rparr>"
    have "complete_read j n = Some (?k, ?m)"
      using result True by simp
    moreover have "filled ?k = take (nat (p + ?m)) d"
      using assms(5) take by (simp add: filled_def job_notify_def)
    moreover have "p + ?m = min (p + n) (int (length d))" by simp
    ultimately show ?thesis
      using assms(1-4) True by (auto simp: handed_out_def job_notify_def)
  next
    case False
    then have "?m = 0" using assms(4,7) by auto
    moreover have "complete_read j n = Some (j, ?m)"
      using result by (simp only: False if_False)
    ultimately show ?thesis using assms(1-5,7) by (auto simp: handed_out_def min_def)
  qed
qed

lemma min_add_capped: "0 \<le> c \<Longrightarrow> min (min a b + c) b = min (a + c) b" for a b c :: int
  by (simp add: min_def)

lemma read_all_result:
  assumes "handed_out j d p" and "int (length d) < 2 ^ 31" and "\<forall>n\<in>set ns. 0 \<le> n"
  shows "\<exists>k rvs. read_all j ns = Some (k, rvs) \<and> handed_out k d (min (p + sum_list ns) (int (length d)))"
  using assms
proof (induction ns arbitrary: j p)
  case Nil
  then show ?case by (auto simp: handed_out_def)
next
  case (Cons n ns)
  from Cons.prems obtain k where k: "complete_read j n = Some (k, min n (int (length d) - p))"
    "handed_out k d (min (p + n) (int (length d)))"
    using complete_read_result [of j d p n] by (auto simp: handed_out_def)
  have "read_raw_data j n = Some (k, min n (int (length d) - p))"
    using k(1) Cons.prems(1) by (simp add: read_raw_data_def handed_out_def)
  moreover obtain l rvs where "read_all k ns = Some (l, rvs)"
    "handed_out l d (min (min (p + n) (int (length d)) + sum_list ns) (int (length d)))"
    using Cons.IH [OF k(2)] Cons.prems(2,3) by auto
  moreover have "0 \<le> sum_list ns" using Cons.prems(3) by (intro sum_list_nonneg) simp
  then have "min (min (p + n) (int (length d)) + sum_list ns) (int (length d))
      = min (p + sum_list (n # ns)) (int (length d))"
    by (simp add: min_add_capped add.assoc)
  ultimately show ?case by auto
qed

text \<open>
  Whatever the sizes of the reads, the first of which comes before the data and is completed when the
  data arrives, the buffers filled are the data, byte for byte and in order, up to what was asked
  for, and all of it when enough was asked for.
\<close>

theorem reads_deliver_data:
  assumes "int (length d) < 2 ^ 31" and "0 \<le> n" and "\<forall>m\<in>set ns. 0 \<le> m"
  shows "\<exists>j1 j2 j3 rvs. read_raw_data (new_url_request_chrome_job url incognito) n = Some (j1, ERR_IO_PENDING)
     \<and> job_data_available j1 (Some d) = Some j2
     \<and> ReadRawDataComplete (min n (int (length d))) \<in> set (job_events j2)
     \<and> read_all j2 ns = Some (j3, rvs) \<and> filled j3 = take (nat (n + sum_list ns)) d"
proof -
  let ?j = "new_url_request_chrome_job url incognito"
  let ?j1 = "?j\<lparr>pending_buf := True, pending_buf_size := n\<rparr>"
  let ?j1' = "?j1\<lparr>job_data := Some d\<rparr>"
  have new: "job_data ?j = None" "data_offset ?j = 0" "job_events ?j = []" "\<not> pending_buf ?j"
    by (simp_all add: new_url_request_chrome_job_def)
  have read: "read_raw_data ?j n = Some (?j1, ERR_IO_PENDING)" using new by (simp add: read_raw_data_def)
  obtain k where k: "complete_read ?j1' n = Some (k, min n (int (length d)))" "handed_out k d (min n (int (length d)))"
    using complete_read_result [of ?j1' d 0 n] new assms(1,2) by (auto simp: filled_def)
  let ?j2 = "job_notify (ReadRawDataComplete (min n (int (length d)))) (k\<lparr>pending_buf := False\<rparr>)"
  have data: "job_data_available ?j1 (Some d) = Some ?j2" using k(1) by (simp add: job_data_available_def)
  have "handed_out ?j2 d (min n (int (length d)))"
    using k(2) by (simp add: handed_out_def filled_def job_notify_def)
  from read_all_result [OF this assms(1,3)] obtain l rvs where
    l: "read_all ?j2 ns = Some (l, rvs)" "handed_out l d (min (min n (int (length d)) + sum_list ns) (int (length d)))"
    by blast
  have "0 \<le> sum_list ns" using assms(3) by (simp add: sum_list_nonneg)
  then have "take (nat (min (min n (int (length d)) + sum_list ns) (int (length d)))) d = take (nat (n + sum_list ns)) d"
    by (simp add: min_add_capped) (simp add: min_def)
  then have "filled l = take (nat (n + sum_list ns)) d" using l(2) by (simp add: handed_out_def)
  moreover have "ReadRawDataComplete (min n (int (length d))) \<in> set (job_events ?j2)" by (simp add: job_notify_def)
  ultimately show ?thesis using read data l(1) by blast
qed

theorem reads_deliver_data_witness:
  "\<exists>j1 j2 j3 rvs. read_raw_data (new_url_request_chrome_job sample_url False) 2 = Some (j1, ERR_IO_PENDING)
     \<and> job_data_available j1 (Some ''hello'') = Some j2 \<and> read_all j2 [2, 7] = Some (j3, rvs) \<and> filled j3 = ''hello''"
proof -
  have "int (length ''hello'') < 2 ^ 31" "(0::int) \<le> 2" "\<forall>m\<in>set [2, 7::int]. 0 \<le> m" by simp_all
  from reads_deliver_data [OF this, of sample_url False] obtain j1 j2 j3 rvs where
    "read_raw_data (new_url_request_chrome_job sample_url False) 2 = Some (j1, ERR_IO_PENDING)"
    "job_data_available j1 (Some ''hello'') = Some j2" "read_all j2 [2, 7] = Some (j3, rvs)"
    "filled j3 = take (nat (2 + sum_list [2, 7])) ''hello''" by blast
  then show ?thesis by auto
qed

end
