(* ===== verification/Referrers.thy ===== *)
theory Referrers
  imports Prelude
begin

text \<open>
  The \<open>Referer\<close> header of a navigation, \<open>web/common/referrer_util.{h,cc}\<close> and
  \<open>web/public/navigation/referrer.h\<close>. What the URL library knows of a URL is the argument \<open>env\<close>.
\<close>

record 'u referrer_env =
  scheme_is_cryptographic :: "'u \<Rightarrow> bool"
  url_origin :: "'u \<Rightarrow> 'u"
  as_referrer :: "'u \<Rightarrow> 'u"
  referrer_spec :: "'u \<Rightarrow> string"

datatype referrer_policy =
    ReferrerPolicyAlways
  | ReferrerPolicyDefault
  | ReferrerPolicyNoReferrerWhenDowngrade
  | ReferrerPolicyNever
  | ReferrerPolicyOrigin
  | ReferrerPolicyOriginWhenCrossOrigin
  | ReferrerPolicySameOrigin
  | ReferrerPolicyStrictOrigin
  | ReferrerPolicyStrictOriginWhenCrossOrigin

record 'u referrer =
  referrer_url :: 'u
  policy_of :: referrer_policy

definition referrer_header_value_for_navigation ::
  "'u referrer_env \<Rightarrow> 'u \<Rightarrow> 'u referrer \<Rightarrow> string" where
  "referrer_header_value_for_navigation env destination referrer =
     (let url = referrer_url referrer;
          is_downgrade = (scheme_is_cryptographic env url \<and> \<not> scheme_is_cryptographic env destination);
          full = referrer_spec env (as_referrer env url);
          origin = referrer_spec env (url_origin env url)
      in case policy_of referrer of
           ReferrerPolicyAlways \<Rightarrow> full
         | ReferrerPolicyNever \<Rightarrow> ''''
         | ReferrerPolicyOrigin \<Rightarrow> origin
         | ReferrerPolicyDefault \<Rightarrow> if is_downgrade then '''' else full
         | ReferrerPolicyNoReferrerWhenDowngrade \<Rightarrow> if is_downgrade then '''' else full
         | ReferrerPolicyOriginWhenCrossOrigin \<Rightarrow>
             if url_origin env url \<noteq> url_origin env destination then origin else full
         | ReferrerPolicySameOrigin \<Rightarrow>
             if url_origin env url \<noteq> url_origin env destination then '''' else full
         | ReferrerPolicyStrictOrigin \<Rightarrow> if is_downgrade then '''' else origin
         | ReferrerPolicyStrictOriginWhenCrossOrigin \<Rightarrow>
             if is_downgrade then ''''
             else if url_origin env url \<noteq> url_origin env destination then origin
             else full)"

datatype request_referrer_policy =
    CLEAR_REFERRER_ON_TRANSITION_FROM_SECURE_TO_INSECURE
  | REDUCE_REFERRER_GRANULARITY_ON_TRANSITION_CROSS_ORIGIN
  | ORIGIN_ONLY_ON_TRANSITION_CROSS_ORIGIN
  | NEVER_CLEAR_REFERRER
  | ORIGIN
  | CLEAR_REFERRER_ON_TRANSITION_CROSS_ORIGIN
  | ORIGIN_CLEAR_ON_TRANSITION_FROM_SECURE_TO_INSECURE
  | NO_REFERRER

definition policy_for_navigation :: "'u referrer \<Rightarrow> request_referrer_policy" where
  "policy_for_navigation referrer =
     (case policy_of referrer of
        ReferrerPolicyAlways \<Rightarrow> NEVER_CLEAR_REFERRER
      | ReferrerPolicyNever \<Rightarrow> NO_REFERRER
      | ReferrerPolicyOrigin \<Rightarrow> ORIGIN
      | ReferrerPolicyNoReferrerWhenDowngrade \<Rightarrow> CLEAR_REFERRER_ON_TRANSITION_FROM_SECURE_TO_INSECURE
      | ReferrerPolicyDefault \<Rightarrow> CLEAR_REFERRER_ON_TRANSITION_FROM_SECURE_TO_INSECURE
      | ReferrerPolicyOriginWhenCrossOrigin \<Rightarrow> ORIGIN_ONLY_ON_TRANSITION_CROSS_ORIGIN
      | ReferrerPolicySameOrigin \<Rightarrow> CLEAR_REFERRER_ON_TRANSITION_CROSS_ORIGIN
      | ReferrerPolicyStrictOrigin \<Rightarrow> ORIGIN_CLEAR_ON_TRANSITION_FROM_SECURE_TO_INSECURE
      | ReferrerPolicyStrictOriginWhenCrossOrigin \<Rightarrow>
          REDUCE_REFERRER_GRANULARITY_ON_TRANSITION_CROSS_ORIGIN)"

definition referrer_policy_from_string :: "string \<Rightarrow> referrer_policy" where
  "referrer_policy_from_string policy =
     (if policy = ''never'' \<or> policy = ''no-referrer'' then ReferrerPolicyNever
      else if policy = ''origin'' then ReferrerPolicyOrigin
      else if policy = ''default'' \<or> policy = ''no-referrer-when-downgrade''
      then ReferrerPolicyNoReferrerWhenDowngrade
      else if policy = ''origin-when-cross-origin'' then ReferrerPolicyOriginWhenCrossOrigin
      else if policy = ''always'' \<or> policy = ''unsafe-url'' then ReferrerPolicyAlways
      else if policy = ''same-origin'' then ReferrerPolicySameOrigin
      else if policy = ''strict-origin'' then ReferrerPolicyStrictOrigin
      else if policy = ''strict-origin-when-cross-origin'' then ReferrerPolicyStrictOriginWhenCrossOrigin
      else ReferrerPolicyDefault)"

section \<open>Properties\<close>

text \<open>
  What a destination learns, in the order nothing, the origin, the URL. The tokens of the
  specification say for which destinations a policy gives less than the URL.
\<close>

datatype disclosure = Nothing | Origin | Full

definition disclosed :: "'u referrer_env \<Rightarrow> 'u \<Rightarrow> disclosure \<Rightarrow> string" where
  "disclosed env url d =
     (case d of Nothing \<Rightarrow> '''' | Origin \<Rightarrow> referrer_spec env (url_origin env url)
      | Full \<Rightarrow> referrer_spec env (as_referrer env url))"

definition specified_disclosure :: "string \<Rightarrow> bool \<Rightarrow> bool \<Rightarrow> disclosure" where
  "specified_disclosure token downgrade cross_origin =
     (if token \<in> {''no-referrer'', ''never''} then Nothing
      else if token \<in> {''unsafe-url'', ''always''} then Full
      else if token = ''origin'' then Origin
      else if token = ''same-origin'' then (if cross_origin then Nothing else Full)
      else if token = ''origin-when-cross-origin'' then (if cross_origin then Origin else Full)
      else if downgrade then Nothing
      else if token = ''strict-origin'' then Origin
      else if token = ''strict-origin-when-cross-origin'' then (if cross_origin then Origin else Full)
      else Full)"

text \<open>
  For every policy token of a page, known or not, and every destination, the header is what
  the referrer policy specification says for that token: in particular a navigation from a
  cryptographic to another scheme discloses nothing unless the token is one of those that
  ask for it, and no fragment of the URL is sent that the origin or the referrer form of the
  URL does not have.
\<close>

theorem referrer_follows_specification:
  "referrer_header_value_for_navigation env destination
      \<lparr>referrer_url = url, policy_of = referrer_policy_from_string token\<rparr> =
    disclosed env url (specified_disclosure token
      (scheme_is_cryptographic env url \<and> \<not> scheme_is_cryptographic env destination)
      (url_origin env url \<noteq> url_origin env destination))"
  unfolding referrer_header_value_for_navigation_def referrer_policy_from_string_def
    specified_disclosure_def disclosed_def Let_def
  by simp

end
