(* ===== verification/CertPolicies.thy ===== *)
theory CertPolicies
  imports OrderedSet "HOL-Library.Word" "HOL-Library.List_Lexorder" "HOL-Library.Char_ord"
    "HOL-Library.Product_Lexorder"
begin

text \<open>
  Which certificates with errors the user has accepted: \<open>web/security/cert_policy.cc\<close>,
  \<open>certificate_policy_cache.cc\<close>, \<open>cert_host_pair.{h,cc}\<close> and the security state of a page,
  \<open>web/public/security/ssl_status.h\<close>. A certificate is a value of which the code uses the
  fingerprint of its chain, the 256 bits as a number, and the display name of its issuer.
\<close>

unbundle bit_operations_syntax

section \<open>Policies\<close>

type_synonym cert_status = "32 word"
type_synonym fingerprint = "256 word"

record x509_certificate =
  chain_fingerprint :: fingerprint
  issuer_display_name :: string

datatype cert_judgment = UNKNOWN | ALLOWED | DENIED

type_synonym cert_policy = "fingerprint \<Rightarrow> cert_status option"

definition check_cert :: "cert_policy \<Rightarrow> x509_certificate \<Rightarrow> cert_status \<Rightarrow> cert_judgment" where
  "check_cert allowed cert error =
     (case allowed (chain_fingerprint cert) of
        None \<Rightarrow> UNKNOWN
      | Some saved \<Rightarrow>
          if saved AND error \<noteq> 0 \<and> (NOT (saved AND error)) XOR (NOT error) = 0
          then ALLOWED else UNKNOWN)"

definition allow_cert :: "cert_policy \<Rightarrow> x509_certificate \<Rightarrow> cert_status \<Rightarrow> cert_policy" where
  "allow_cert allowed cert error = allowed(chain_fingerprint cert \<mapsto> error)"

text \<open>\<open>cert_policy_for_host_[host]\<close> is an empty policy for a host that is not there.\<close>

type_synonym certificate_policy_cache = "string \<Rightarrow> cert_policy option"

definition policy_for_host :: "certificate_policy_cache \<Rightarrow> string \<Rightarrow> cert_policy" where
  "policy_for_host cache host = (case cache host of None \<Rightarrow> Map.empty | Some p \<Rightarrow> p)"

text \<open>\<open>on_io\<close> says whether the caller is on the IO thread.\<close>

definition allow_cert_for_host ::
  "bool \<Rightarrow> certificate_policy_cache \<Rightarrow> x509_certificate \<Rightarrow> string \<Rightarrow> cert_status
    \<Rightarrow> certificate_policy_cache option" where
  "allow_cert_for_host on_io cache cert host error = do {
     dcheck on_io;
     Some (cache(host \<mapsto> allow_cert (policy_for_host cache host) cert error))
   }"

definition query_policy ::
  "bool \<Rightarrow> certificate_policy_cache \<Rightarrow> x509_certificate \<Rightarrow> string \<Rightarrow> cert_status
    \<Rightarrow> (certificate_policy_cache \<times> cert_judgment) option" where
  "query_policy on_io cache cert host error = do {
     dcheck on_io;
     Some (cache(host \<mapsto> policy_for_host cache host), check_cert (policy_for_host cache host) cert error)
   }"

definition clear_certificate_policies ::
  "bool \<Rightarrow> certificate_policy_cache \<Rightarrow> certificate_policy_cache option" where
  "clear_certificate_policies on_io cache = do { dcheck on_io; Some Map.empty }"

section \<open>Certificate and host\<close>

record cert_host_pair =
  pair_cert :: x509_certificate
  pair_host :: string
  pair_cert_hash :: fingerprint

definition new_cert_host_pair :: "x509_certificate \<Rightarrow> string \<Rightarrow> cert_host_pair" where
  "new_cert_host_pair cert host =
     \<lparr>pair_cert = cert, pair_host = host, pair_cert_hash = chain_fingerprint cert\<rparr>"

definition cert_host_pair_less :: "cert_host_pair \<Rightarrow> cert_host_pair \<Rightarrow> bool" where
  "cert_host_pair_less x y = ((pair_host x, pair_cert_hash x) < (pair_host y, pair_cert_hash y))"

interpretation cert_host_order: set_comparator cert_host_pair_less
  by unfold_locales (auto simp: cert_host_pair_less_def)

lemma equivalent_cert_host_pairs:
  "cert_host_order.equivalent (new_cert_host_pair c h) (new_cert_host_pair d k) \<longleftrightarrow>
     h = k \<and> chain_fingerprint c = chain_fingerprint d"
  by (auto simp: cert_host_order.equivalent_def cert_host_pair_less_def new_cert_host_pair_def)

section \<open>The security state of a page\<close>

datatype security_style =
    SECURITY_STYLE_UNKNOWN
  | SECURITY_STYLE_UNAUTHENTICATED
  | SECURITY_STYLE_AUTHENTICATION_BROKEN
  | SECURITY_STYLE_AUTHENTICATED

record ssl_status =
  ssl_security_style :: security_style
  ssl_certificate :: "x509_certificate option"
  ssl_cert_status :: cert_status
  ssl_content_status :: int
  ssl_cert_status_host :: string
  ssl_user_data :: "nat option"

definition NORMAL_CONTENT :: int where "NORMAL_CONTENT = 0"

definition DISPLAYED_INSECURE_CONTENT :: int where "DISPLAYED_INSECURE_CONTENT = 1"

definition new_ssl_status :: ssl_status where
  "new_ssl_status =
     \<lparr>ssl_security_style = SECURITY_STYLE_UNKNOWN, ssl_certificate = None, ssl_cert_status = 0,
      ssl_content_status = NORMAL_CONTENT, ssl_cert_status_host = '''', ssl_user_data = None\<rparr>"

text \<open>Copying clones the user data: \<open>clone\<close> is what the embedder's \<open>Clone\<close> makes of it.\<close>

definition copy_ssl_status :: "(nat \<Rightarrow> nat) \<Rightarrow> ssl_status \<Rightarrow> ssl_status" where
  "copy_ssl_status clone other =
     \<lparr>ssl_security_style = ssl_security_style other, ssl_certificate = ssl_certificate other,
      ssl_cert_status = ssl_cert_status other, ssl_content_status = ssl_content_status other,
      ssl_cert_status_host = ssl_cert_status_host other,
      ssl_user_data = map_option clone (ssl_user_data other)\<rparr>"

text \<open>
  The argument of the assignment operator is passed by value, so it is a copy; the operator
  clones its user data once more. \<open>same_chain\<close> is \<open>EqualsIncludingChain\<close>.
\<close>

definition assign_ssl_status :: "(nat \<Rightarrow> nat) \<Rightarrow> ssl_status \<Rightarrow> ssl_status" where
  "assign_ssl_status clone other =
     (let arg = copy_ssl_status clone other
      in arg\<lparr>ssl_user_data := map_option clone (ssl_user_data arg)\<rparr>)"

definition ssl_status_equals ::
  "(x509_certificate \<Rightarrow> x509_certificate \<Rightarrow> bool) \<Rightarrow> ssl_status \<Rightarrow> ssl_status \<Rightarrow> bool" where
  "ssl_status_equals same_chain s t =
     (ssl_security_style s = ssl_security_style t
      \<and> (ssl_certificate s \<noteq> None) = (ssl_certificate t \<noteq> None)
      \<and> (case ssl_certificate s of
            None \<Rightarrow> True
          | Some c \<Rightarrow> (case ssl_certificate t of None \<Rightarrow> False | Some d \<Rightarrow> same_chain c d))
      \<and> ssl_cert_status s = ssl_cert_status t
      \<and> ssl_content_status s = ssl_content_status t)"

section \<open>The cache and what the user accepted\<close>

datatype policy_event =
    AllowCert x509_certificate string cert_status
  | QueryPolicy x509_certificate string cert_status
  | ClearPolicies

fun policy_step :: "certificate_policy_cache \<Rightarrow> policy_event \<Rightarrow> certificate_policy_cache option" where
  "policy_step cache (AllowCert c h e) = allow_cert_for_host True cache c h e"
| "policy_step cache (QueryPolicy c h e) = map_option fst (query_policy True cache c h e)"
| "policy_step cache ClearPolicies = clear_certificate_policies True cache"

text \<open>The errors accepted last for a chain and a host, since the policies were cleared.\<close>

fun accepted :: "policy_event list \<Rightarrow> fingerprint \<Rightarrow> string \<Rightarrow> cert_status option" where
  "accepted [] f h = None"
| "accepted (AllowCert c k e # events) f h =
     (if chain_fingerprint c = f \<and> k = h then Some e else accepted events f h)"
| "accepted (QueryPolicy c k e # events) f h = accepted events f h"
| "accepted (ClearPolicies # events) f h = None"

lemma run_snoc:
  "run step s (cs @ [c]) = (case run step s cs of None \<Rightarrow> None | Some t \<Rightarrow> step t c)"
  by (auto simp: run_append split: option.splits)

lemma policies_are_accepted:
  "\<exists>cache. run policy_step Map.empty events = Some cache
     \<and> (\<forall>f h. policy_for_host cache h f = accepted (rev events) f h)"
proof (induction events rule: rev_induct)
  case (snoc e events)
  then obtain cache where cache: "run policy_step Map.empty events = Some cache"
    "\<forall>f h. policy_for_host cache h f = accepted (rev events) f h" by blast
  show ?case
    using cache
    by (cases e) (auto simp: run_snoc allow_cert_for_host_def query_policy_def
        clear_certificate_policies_def allow_cert_def policy_for_host_def)
qed (simp add: policy_for_host_def)

lemma same_bits_iff: "((NOT (a AND e)) XOR (NOT e) = 0) \<longleftrightarrow> a AND e = (e :: 32 word)"
proof -
  have "(NOT (a AND e)) XOR (NOT e) = (a AND e) XOR e" by (rule bit_word_eqI) (auto simp: bit_simps)
  then show ?thesis by (auto simp: bit_eq_iff bit_simps)
qed

lemma all_bits_iff: "saved AND error = error \<longleftrightarrow> (\<forall>n. bit error n \<longrightarrow> bit (saved :: 32 word) n)"
proof -
  have "n < 32" if "bit error n" for n
    using bit_imp_le_length [OF that] by simp
  then show ?thesis by (auto simp: bit_eq_iff bit_simps)
qed

lemma check_cert_eq:
  "check_cert p cert error =
     (if \<exists>saved. p (chain_fingerprint cert) = Some saved \<and> error \<noteq> 0 \<and> (\<forall>n. bit error n \<longrightarrow> bit saved n)
      then ALLOWED else UNKNOWN)"
  unfolding check_cert_def same_bits_iff all_bits_iff [symmetric]
  by (auto split: option.split)

section \<open>Properties\<close>

text \<open>
  C39. A certificate is allowed for a host exactly when its chain was allowed for that host since
  the policies were last cleared and the errors it has now are among those accepted the last
  time, at least one of them; acceptances for other hosts, queries and earlier acceptances do
  not count.
\<close>

theorem allowed_iff_errors_accepted:
  "\<exists>cache. run policy_step Map.empty events = Some cache
    \<and> (\<exists>cache'. query_policy True cache cert host error =
          Some (cache', if \<exists>saved. accepted (rev events) (chain_fingerprint cert) host = Some saved
                          \<and> error \<noteq> 0 \<and> (\<forall>n. bit error n \<longrightarrow> bit saved n)
                        then ALLOWED else UNKNOWN))"
proof -
  obtain cache where cache: "run policy_step Map.empty events = Some cache"
    "\<forall>f h. policy_for_host cache h f = accepted (rev events) f h"
    using policies_are_accepted by blast
  then show ?thesis by (simp add: query_policy_def check_cert_eq)
qed

definition plain_certificate :: x509_certificate where
  "plain_certificate = \<lparr>chain_fingerprint = 1, issuer_display_name = ''issuer''\<rparr>"

theorem allowed_iff_errors_accepted_witness:
  "\<exists>cache cache'. run policy_step Map.empty [AllowCert plain_certificate ''h'' 6] = Some cache
    \<and> query_policy True cache plain_certificate ''h'' 2 = Some (cache', ALLOWED)"
proof -
  have "\<forall>n. bit (2 :: 32 word) n \<longrightarrow> bit (6 :: 32 word) n"
    unfolding all_bits_iff [symmetric] by simp
  then show ?thesis
    using allowed_iff_errors_accepted [of "[AllowCert plain_certificate ''h'' 6]" plain_certificate "''h''" 2]
    by simp
qed

end
