(* ===== verification/PageInfo.thy ===== *)
theory PageInfo
  imports CertPolicies
begin

text \<open>
  The model of the page information bubble, \<open>chrome/browser/ui/page_info/page_info_model.{h,cc}\<close>.
  Strings are their UTF-8 bytes; a localised string is what \<open>env\<close> gives for the name of its
  resource.
\<close>

section \<open>The model\<close>

datatype section_info_type =
    SECTION_INFO_IDENTITY
  | SECTION_INFO_CONNECTION
  | SECTION_INFO_FIRST_VISIT
  | SECTION_INFO_INTERNAL_PAGE

datatype section_state_icon =
    ICON_NONE
  | ICON_STATE_OK
  | ICON_STATE_ERROR
  | ICON_STATE_INFO
  | ICON_STATE_OFFLINE_PAGE
  | ICON_STATE_INTERNAL_PAGE

datatype button_action = BUTTON_NONE | BUTTON_SHOW_SECURITY_HELP | BUTTON_RELOAD

record section_info =
  icon_id :: section_state_icon
  headline :: string
  section_description :: string
  section_type :: section_info_type
  section_button :: button_action

record 'u page_env =
  get_string :: "string \<Rightarrow> string"
  get_string_with :: "string \<Rightarrow> string \<Rightarrow> string"
  has_chrome_scheme :: "'u \<Rightarrow> bool"
  page_spec :: "'u \<Rightarrow> string"
  page_host :: "'u \<Rightarrow> string"
  danger_triangle_for_warning :: bool
  is_cert_status_error :: "cert_status \<Rightarrow> bool"
  cert_status_is_ev :: "cert_status \<Rightarrow> bool"
  cert_error_descriptions :: "x509_certificate \<Rightarrow> cert_status \<Rightarrow> 'u \<Rightarrow> string list"

record page_info_model =
  sections :: "section_info list"
  certificate_label :: string

definition bullet :: string where
  "bullet = [CHR 0x0A, CHR '' '', CHR 0xE2, CHR 0x80, CHR 0xA2, CHR '' '']"

definition spacer :: string where "spacer = [CHR 0x0A, CHR 0x0A]"

definition warning_icon :: "'u page_env \<Rightarrow> section_state_icon" where
  "warning_icon env = (if danger_triangle_for_warning env then ICON_STATE_ERROR else ICON_STATE_INFO)"

text \<open>Icon, summary, details and certificate details of the connection.\<close>

definition connection_info ::
  "'u page_env \<Rightarrow> 'u \<Rightarrow> ssl_status \<Rightarrow> (section_state_icon \<times> string \<times> string \<times> string) option" where
  "connection_info env url ssl =
     (case ssl_certificate ssl of
        None \<Rightarrow>
          Some (warning_icon env, get_string env ''IDS_PAGE_INFO_NOT_SECURE_SUMMARY'',
            get_string env ''IDS_PAGE_INFO_NOT_SECURE_DETAILS'', '''')
      | Some certificate \<Rightarrow>
          if is_cert_status_error env (ssl_cert_status ssl)
             \<or> ssl_security_style ssl = SECURITY_STYLE_AUTHENTICATION_BROKEN
          then
            Some (ICON_STATE_ERROR, get_string env ''IDS_PAGE_INFO_NOT_SECURE_SUMMARY'',
              get_string env ''IDS_PAGE_INFO_NOT_SECURE_DETAILS'',
              foldl (\<lambda>acc d. acc @ bullet @ d)
                (get_string env ''IDS_PAGE_INFO_SECURITY_TAB_INSECURE_IDENTITY'')
                (cert_error_descriptions env certificate (ssl_cert_status ssl) url))
          else
            let issuer_name = issuer_display_name certificate;
                certificate_details =
                  (if issuer_name \<noteq> ''''
                   then get_string_with env ''IDS_IOS_PAGE_INFO_SECURITY_TAB_SECURE_IDENTITY'' issuer_name
                   else '''')
            in if ssl_content_status ssl = DISPLAYED_INSECURE_CONTENT
               then Some (warning_icon env, get_string env ''IDS_PAGE_INFO_MIXED_CONTENT_SUMMARY'',
                      get_string env ''IDS_PAGE_INFO_MIXED_CONTENT_DETAILS'', certificate_details)
               else do {
                 dcheck (\<not> cert_status_is_ev env (ssl_cert_status ssl));
                 Some (ICON_STATE_OK, get_string env ''IDS_PAGE_INFO_SECURE_SUMMARY'',
                   get_string env ''IDS_PAGE_INFO_SECURE_DETAILS'', certificate_details)
               })"

definition new_page_info_model ::
  "'u page_env \<Rightarrow> 'u \<Rightarrow> ssl_status \<Rightarrow> bool \<Rightarrow> page_info_model option" where
  "new_page_info_model env url ssl is_offline_page =
     (if is_offline_page then
        Some \<lparr>sections = [\<lparr>icon_id = ICON_STATE_OFFLINE_PAGE,
            headline = get_string env ''IDS_IOS_PAGE_INFO_OFFLINE_TITLE'',
            section_description = get_string env ''IDS_IOS_PAGE_INFO_OFFLINE_PAGE'',
            section_type = SECTION_INFO_INTERNAL_PAGE, section_button = BUTTON_RELOAD\<rparr>],
          certificate_label = ''''\<rparr>
      else if has_chrome_scheme env url then
        Some \<lparr>sections = [\<lparr>icon_id = ICON_STATE_INTERNAL_PAGE, headline = page_spec env url,
            section_description = get_string env ''IDS_PAGE_INFO_INTERNAL_PAGE'',
            section_type = SECTION_INFO_INTERNAL_PAGE, section_button = BUTTON_NONE\<rparr>],
          certificate_label = ''''\<rparr>
      else do {
        (icon, summary, details, certificate_details) \<leftarrow> connection_info env url ssl;
        let description = summary @ spacer @ details
          @ (if certificate_details \<noteq> '''' then spacer @ certificate_details else '''');
        Some \<lparr>sections = [\<lparr>icon_id = icon, headline = page_host env url,
            section_description = description, section_type = SECTION_INFO_CONNECTION,
            section_button = BUTTON_SHOW_SECURITY_HELP\<rparr>],
          certificate_label = ''''\<rparr>
      })"

definition get_section_count :: "page_info_model \<Rightarrow> int" where
  "get_section_count m = to_int32 (int (length (sections m)))"

text \<open>Only an index that is too large is checked; a negative one is undefined behaviour.\<close>

definition get_section_info :: "page_info_model \<Rightarrow> int \<Rightarrow> section_info option" where
  "get_section_info m index = do {
     dcheck (index < to_int32 (int (length (sections m))));
     (if index < 0 then None else Some (sections m ! nat index))
   }"

definition get_icon_image :: "section_state_icon \<Rightarrow> string option" where
  "get_icon_image icon =
     (case icon of
        ICON_NONE \<Rightarrow> None
      | ICON_STATE_INTERNAL_PAGE \<Rightarrow> None
      | ICON_STATE_OK \<Rightarrow> Some ''IDR_IOS_PAGEINFO_GOOD''
      | ICON_STATE_ERROR \<Rightarrow> Some ''IDR_IOS_PAGEINFO_BAD''
      | ICON_STATE_INFO \<Rightarrow> Some ''IDR_IOS_PAGEINFO_INFO''
      | ICON_STATE_OFFLINE_PAGE \<Rightarrow> Some ''IDR_IOS_OMNIBOX_OFFLINE'')"

section \<open>Properties\<close>

text \<open>When the page may be shown as secure.\<close>

definition page_is_secure :: "'u page_env \<Rightarrow> 'u \<Rightarrow> ssl_status \<Rightarrow> bool \<Rightarrow> bool" where
  "page_is_secure env url ssl is_offline_page \<longleftrightarrow>
     \<not> is_offline_page \<and> \<not> has_chrome_scheme env url \<and> ssl_certificate ssl \<noteq> None
     \<and> \<not> is_cert_status_error env (ssl_cert_status ssl)
     \<and> ssl_security_style ssl \<noteq> SECURITY_STYLE_AUTHENTICATION_BROKEN
     \<and> ssl_content_status ssl \<noteq> DISPLAYED_INSECURE_CONTENT"

text \<open>
  For a status without extended validation the model is built without a failed check and
  has exactly one section; the section has the secure icon exactly for an online page that is
  not internal, has a certificate without error, is not broken and shows no insecure content,
  and a certificate error or a broken authentication always gives the error icon.
\<close>

theorem secure_icon_only_for_secure_page:
  assumes "\<not> cert_status_is_ev env (ssl_cert_status ssl)"
  shows "\<exists>m s. new_page_info_model env url ssl is_offline_page = Some m
    \<and> get_section_count m = 1 \<and> get_section_info m 0 = Some s
    \<and> (icon_id s = ICON_STATE_OK \<longleftrightarrow> page_is_secure env url ssl is_offline_page)
    \<and> (\<not> is_offline_page \<and> \<not> has_chrome_scheme env url \<and> ssl_certificate ssl \<noteq> None
         \<and> (is_cert_status_error env (ssl_cert_status ssl)
            \<or> ssl_security_style ssl = SECURITY_STYLE_AUTHENTICATION_BROKEN)
       \<longrightarrow> icon_id s = ICON_STATE_ERROR)
    \<and> icon_id s \<noteq> ICON_NONE
    \<and> (section_type s = SECTION_INFO_CONNECTION \<longleftrightarrow> section_button s = BUTTON_SHOW_SECURITY_HELP)"
proof -
  have one: "to_int32 1 = 1" by (simp add: to_int32_def)
  note defs = new_page_info_model_def get_section_count_def get_section_info_def page_is_secure_def one
  show ?thesis
  proof (cases "is_offline_page \<or> has_chrome_scheme env url")
    case True
    then show ?thesis by (auto simp: defs)
  next
    case False
    with assms show ?thesis
      by (cases "ssl_certificate ssl") (auto simp: defs connection_info_def warning_icon_def Let_def)
  qed
qed

definition plain_page_env :: "string page_env" where
  "plain_page_env = \<lparr>get_string = (\<lambda>s. s), get_string_with = (\<lambda>s t. s @ t), has_chrome_scheme = (\<lambda>u. False),
     page_spec = (\<lambda>u. u), page_host = (\<lambda>u. u), danger_triangle_for_warning = True,
     is_cert_status_error = (\<lambda>w. w \<noteq> 0), cert_status_is_ev = (\<lambda>w. False),
     cert_error_descriptions = (\<lambda>c w u. [''bad''])\<rparr>"

theorem secure_icon_only_for_secure_page_witness:
  "\<exists>m s. new_page_info_model plain_page_env ''u''
        (new_ssl_status\<lparr>ssl_certificate := Some plain_certificate, ssl_cert_status := 4\<rparr>) False = Some m
    \<and> get_section_info m 0 = Some s \<and> icon_id s = ICON_STATE_ERROR"
proof -
  have "\<not> cert_status_is_ev plain_page_env
      (ssl_cert_status (new_ssl_status\<lparr>ssl_certificate := Some plain_certificate, ssl_cert_status := 4\<rparr>))"
    by (simp add: plain_page_env_def)
  from secure_icon_only_for_secure_page [OF this, of "''u''" False]
  obtain m s where ms: "new_page_info_model plain_page_env ''u''
        (new_ssl_status\<lparr>ssl_certificate := Some plain_certificate, ssl_cert_status := 4\<rparr>) False = Some m"
    "get_section_info m 0 = Some s"
    "\<not> False \<and> \<not> has_chrome_scheme plain_page_env ''u''
       \<and> ssl_certificate (new_ssl_status\<lparr>ssl_certificate := Some plain_certificate, ssl_cert_status := 4\<rparr>) \<noteq> None
       \<and> (is_cert_status_error plain_page_env
            (ssl_cert_status (new_ssl_status\<lparr>ssl_certificate := Some plain_certificate, ssl_cert_status := 4\<rparr>))
          \<or> ssl_security_style (new_ssl_status\<lparr>ssl_certificate := Some plain_certificate, ssl_cert_status := 4\<rparr>)
             = SECURITY_STYLE_AUTHENTICATION_BROKEN)
       \<longrightarrow> icon_id s = ICON_STATE_ERROR"
    by (elim exE conjE)
  then show ?thesis by (simp add: plain_page_env_def)
qed

end
