(* ===== verification/Removers.thy ===== *)
theory Removers
  imports Prelude
begin

text \<open>
  Clearing the user's bookmarks and reading list: \<open>chrome/browser/bookmarks/bookmark_remover_helper\<close>,
  \<open>bookmarks_utils.cc\<close> and \<open>chrome/browser/reading_list/reading_list_remover_helper\<close>. Both helpers wait
  for their model to load and answer through a callback, which must be called exactly once;
  that contract is the locale \<open>remover\<close>.

  The models are outside: what the code asks of them is an argument of the operations. The
  callbacks posted to the sequence are logged with their argument.
\<close>

section \<open>Bookmark utilities\<close>

text \<open>
  A bookmark tree by its nodes: \<open>root_children\<close> are the permanent nodes, \<open>node_parent\<close> is
  absent for the root.
\<close>

record bookmark_model =
  model_loaded :: bool
  root_children :: "nat list"
  node_children :: "nat \<Rightarrow> nat list"
  node_parent :: "nat \<Rightarrow> nat option"
  node_is_folder :: "nat \<Rightarrow> bool"
  node_is_visible :: "nat \<Rightarrow> bool"
  can_be_edited_by_user :: "nat \<Rightarrow> bool"
  mobile_node :: nat
  bookmark_bar_node :: nat
  other_node :: nat

text \<open>
  \<open>removed\<close> is the model after \<open>RemoveAllUserBookmarks\<close>; the second component of the result is the
  value the default folder is reset to, when it is.
\<close>

definition remove_all_user_bookmarks_ios ::
  "bookmark_model \<Rightarrow> bookmark_model \<Rightarrow> bool \<times> int option" where
  "remove_all_user_bookmarks_ios model removed =
     (if \<not> model_loaded model then (False, None)
      else if \<exists>child\<in>set (root_children removed).
                can_be_edited_by_user removed child \<and> node_children removed child \<noteq> []
      then (False, None)
      else (True, Some (-1)))"

definition primary_permanent_nodes :: "bookmark_model \<Rightarrow> nat list option" where
  "primary_permanent_nodes model = do {
     dcheck (model_loaded model);
     Some [mobile_node model, bookmark_bar_node model, other_node model]
   }"

definition root_level_folders :: "bookmark_model \<Rightarrow> nat list option" where
  "root_level_folders model = do {
     nodes \<leftarrow> primary_permanent_nodes model;
     Some (concat (map (\<lambda>parent. filter (\<lambda>child. node_is_folder model child \<and> node_is_visible model child)
                                  (node_children model parent)) nodes))
   }"

definition is_primary_permanent_node :: "nat \<Rightarrow> bookmark_model \<Rightarrow> bool option" where
  "is_primary_permanent_node node model = do {
     nodes \<leftarrow> primary_permanent_nodes model;
     Some (node \<in> set nodes)
   }"

text \<open>The loop climbs the tree until a root folder or above the root; \<^term>\<open>None\<close> does not end.\<close>

partial_function (option) climb_to_root_folder ::
  "bookmark_model \<Rightarrow> nat list \<Rightarrow> nat option \<Rightarrow> nat option option" where
  "climb_to_root_folder model root_folders position =
     (case position of
        None \<Rightarrow> Some None
      | Some n \<Rightarrow> if n \<in> set root_folders then Some (Some n)
                  else climb_to_root_folder model root_folders (node_parent model n))"

definition root_level_folder_for_node :: "nat \<Rightarrow> bookmark_model \<Rightarrow> nat option option" where
  "root_level_folder_for_node node model = do {
     dcheck (can_be_edited_by_user model node);
     root_folders \<leftarrow> root_level_folders model;
     climb_to_root_folder model root_folders (Some node)
   }"

section \<open>The bookmark helper\<close>

record bookmark_remover =
  br_has_browser_state :: bool
  br_completion :: "nat option"
  br_observing :: bool
  br_answers :: "(nat \<times> bool) list"

definition new_bookmark_remover :: bookmark_remover where
  "new_bookmark_remover =
     \<lparr>br_has_browser_state = True, br_completion = None, br_observing = False, br_answers = []\<rparr>"

definition bookmarks_removed :: "bookmark_remover \<Rightarrow> bool \<Rightarrow> bookmark_remover" where
  "bookmarks_removed h success =
     (let h1 = h\<lparr>br_has_browser_state := False\<rparr>
      in case br_completion h1 of
           None \<Rightarrow> h1
         | Some c \<Rightarrow> h1\<lparr>br_completion := None, br_answers := br_answers h1 @ [(c, success)]\<rparr>)"

text \<open>\<open>removal\<close> is the result of \<open>RemoveAllUserBookmarksIOS\<close>.\<close>

definition bookmark_model_loaded :: "bookmark_remover \<Rightarrow> bool \<Rightarrow> bookmark_remover" where
  "bookmark_model_loaded h removal = bookmarks_removed (h\<lparr>br_observing := False\<rparr>) removal"

definition bookmark_model_being_deleted :: "bookmark_remover \<Rightarrow> bookmark_remover" where
  "bookmark_model_being_deleted h = bookmarks_removed (h\<lparr>br_observing := False\<rparr>) False"

definition bookmark_model_changed :: "bookmark_remover \<Rightarrow> bookmark_remover option" where
  "bookmark_model_changed h = None"

text \<open>\<open>model\<close> says whether there is a model and, if there is, whether it is loaded.\<close>

definition remove_all_user_bookmarks ::
  "bool option \<Rightarrow> bool \<Rightarrow> bookmark_remover \<Rightarrow> nat \<Rightarrow> bookmark_remover" where
  "remove_all_user_bookmarks model removal h completion =
     (let h1 = h\<lparr>br_completion := Some completion\<rparr>
      in case model of
           None \<Rightarrow> bookmarks_removed h1 False
         | Some loaded \<Rightarrow>
             if loaded then bookmarks_removed h1 removal else h1\<lparr>br_observing := True\<rparr>)"

definition destroy_bookmark_remover :: "bookmark_remover \<Rightarrow> unit option" where
  "destroy_bookmark_remover h = dcheck (\<not> br_has_browser_state h)"

section \<open>The reading list helper\<close>

record reading_list_remover =
  rr_model :: bool
  rr_service :: bool
  rr_completion :: "nat option"
  rr_observing :: bool
  rr_service_clears :: nat
  rr_answers :: "(nat \<times> bool) list"

definition new_reading_list_remover :: "bool \<Rightarrow> bool \<Rightarrow> reading_list_remover" where
  "new_reading_list_remover model service =
     \<lparr>rr_model = model, rr_service = service, rr_completion = None, rr_observing = False,
      rr_service_clears = 0, rr_answers = []\<rparr>"

definition reading_list_items_removed :: "reading_list_remover \<Rightarrow> bool \<Rightarrow> reading_list_remover" where
  "reading_list_items_removed h success =
     (let h1 = h\<lparr>rr_model := False, rr_service := False\<rparr>
      in case rr_completion h1 of
           None \<Rightarrow> h1
         | Some c \<Rightarrow> h1\<lparr>rr_completion := None, rr_answers := rr_answers h1 @ [(c, success)]\<rparr>)"

text \<open>
  \<open>ScopedObserver\<close> checks that the source it removes was added. The download service is
  dereferenced: \<^term>\<open>None\<close> without one. \<open>cleared\<close> is the result of \<open>DeleteAllEntries\<close>.
\<close>

definition reading_list_model_loaded :: "reading_list_remover \<Rightarrow> bool \<Rightarrow> reading_list_remover option" where
  "reading_list_model_loaded h cleared = do {
     dcheck (rr_model h);
     dcheck (rr_observing h);
     let h1 = h\<lparr>rr_observing := False\<rparr>;
     dcheck (rr_service h1);
     let h2 = h1\<lparr>rr_service_clears := Suc (rr_service_clears h1)\<rparr>;
     Some (reading_list_items_removed h2 cleared)
   }"

definition reading_list_model_being_deleted :: "reading_list_remover \<Rightarrow> reading_list_remover option" where
  "reading_list_model_being_deleted h = do {
     dcheck (rr_model h);
     dcheck (rr_observing h);
     Some (reading_list_items_removed (h\<lparr>rr_observing := False\<rparr>) False)
   }"

text \<open>\<open>AddObserver\<close> calls \<open>ReadingListModelLoaded\<close> at once when the model is loaded.\<close>

definition remove_all_user_reading_list_items ::
  "bool \<Rightarrow> bool \<Rightarrow> reading_list_remover \<Rightarrow> nat \<Rightarrow> reading_list_remover option" where
  "remove_all_user_reading_list_items loaded cleared h completion =
     (let h1 = h\<lparr>rr_completion := Some completion\<rparr>
      in if \<not> rr_model h1 then Some (reading_list_items_removed h1 False)
         else let h2 = h1\<lparr>rr_observing := True\<rparr>
              in if loaded then reading_list_model_loaded h2 cleared else Some h2)"

definition destroy_reading_list_remover :: "reading_list_remover \<Rightarrow> unit option" where
  "destroy_reading_list_remover h = do { dcheck (\<not> rr_model h); dcheck (\<not> rr_service h) }"

section \<open>What a remover promises\<close>

datatype model_fate = FateLoaded bool | FateDeleted

locale remover =
  fixes request :: "'s \<Rightarrow> nat \<Rightarrow> 's option"
    and notified :: "'s \<Rightarrow> model_fate \<Rightarrow> 's option"
    and destroy :: "'s \<Rightarrow> unit option"
    and fresh :: "'s \<Rightarrow> bool"
    and waiting :: "nat \<Rightarrow> 's \<Rightarrow> bool"
    and answers :: "'s \<Rightarrow> (nat \<times> bool) list"
  assumes request_returns: "fresh s \<Longrightarrow> \<exists>t. request s c = Some t"
    and request_outcome: "fresh s \<Longrightarrow> request s c = Some t \<Longrightarrow>
      waiting c t \<or> destroy t = Some () \<and> (\<exists>b. answers t = [(c, b)])"
    and notified_outcome: "waiting c t \<Longrightarrow>
      \<exists>u b. notified t f = Some u \<and> destroy u = Some () \<and> answers u = [(c, b)]
        \<and> (f = FateDeleted \<longrightarrow> \<not> b)"
begin

lemma answered_once:
  assumes "fresh s"
  shows "\<exists>t. request s c = Some t
    \<and> (waiting c t \<or> destroy t = Some () \<and> (\<exists>b. answers t = [(c, b)]))
    \<and> (waiting c t \<longrightarrow> (\<exists>u b. notified t f = Some u \<and> destroy u = Some () \<and> answers u = [(c, b)]
          \<and> (f = FateDeleted \<longrightarrow> \<not> b)))"
  using request_returns [OF assms, of c] request_outcome [OF assms, of c] notified_outcome [of c _ f]
  by blast

end

fun bookmark_notified :: "bookmark_remover \<Rightarrow> model_fate \<Rightarrow> bookmark_remover option" where
  "bookmark_notified h (FateLoaded b) = Some (bookmark_model_loaded h b)"
| "bookmark_notified h FateDeleted = Some (bookmark_model_being_deleted h)"

fun reading_list_notified :: "reading_list_remover \<Rightarrow> model_fate \<Rightarrow> reading_list_remover option" where
  "reading_list_notified h (FateLoaded b) = reading_list_model_loaded h b"
| "reading_list_notified h FateDeleted = reading_list_model_being_deleted h"

definition bookmark_waiting :: "nat \<Rightarrow> bookmark_remover \<Rightarrow> bool" where
  "bookmark_waiting c h \<longleftrightarrow> br_observing h \<and> br_completion h = Some c \<and> br_answers h = []"

definition reading_list_waiting :: "nat \<Rightarrow> reading_list_remover \<Rightarrow> bool" where
  "reading_list_waiting c h \<longleftrightarrow>
     rr_observing h \<and> rr_model h \<and> rr_service h \<and> rr_completion h = Some c \<and> rr_answers h = []"

lemmas remover_simps = new_bookmark_remover_def remove_all_user_bookmarks_def bookmarks_removed_def
  bookmark_model_loaded_def bookmark_model_being_deleted_def destroy_bookmark_remover_def
  bookmark_waiting_def new_reading_list_remover_def remove_all_user_reading_list_items_def
  reading_list_items_removed_def reading_list_model_loaded_def reading_list_model_being_deleted_def
  destroy_reading_list_remover_def reading_list_waiting_def Let_def

interpretation bookmarks: remover "\<lambda>h c. Some (remove_all_user_bookmarks model removal h c)"
  bookmark_notified destroy_bookmark_remover "\<lambda>h. h = new_bookmark_remover" bookmark_waiting br_answers
  for model removal
proof unfold_locales
  show "\<exists>u b. bookmark_notified t f = Some u \<and> destroy_bookmark_remover u = Some () \<and> br_answers u = [(c, b)]
      \<and> (f = FateDeleted \<longrightarrow> \<not> b)" if "bookmark_waiting c t" for c t f
    using that by (cases f) (auto simp: remover_simps)
qed (auto simp: remover_simps split: option.splits if_splits)

interpretation reading_list: remover "remove_all_user_reading_list_items loaded cleared"
  reading_list_notified destroy_reading_list_remover "\<lambda>h. \<exists>m. h = new_reading_list_remover m True"
  reading_list_waiting rr_answers
  for loaded cleared
proof unfold_locales
  show "\<exists>u b. reading_list_notified t f = Some u \<and> destroy_reading_list_remover u = Some () \<and> rr_answers u = [(c, b)]
      \<and> (f = FateDeleted \<longrightarrow> \<not> b)" if "reading_list_waiting c t" for c t f
    using that by (cases f) (auto simp: remover_simps)
qed (auto simp: remover_simps split: if_splits)

section \<open>Properties\<close>

text \<open>
  A request to clear the bookmarks or the reading list is answered exactly once, at once or
  when the model has loaded or is deleted, with failure in the last case; no check fails on the
  way, and the helper can be destroyed once it has answered.
\<close>

theorem removal_answered_once:
  "(let t = remove_all_user_bookmarks model removal new_bookmark_remover c in
      if bookmark_waiting c t
      then \<exists>u b. bookmark_notified t f = Some u \<and> destroy_bookmark_remover u = Some ()
             \<and> br_answers u = [(c, b)] \<and> (f = FateDeleted \<longrightarrow> \<not> b)
      else destroy_bookmark_remover t = Some () \<and> (\<exists>b. br_answers t = [(c, b)]))
   \<and> (\<exists>t. remove_all_user_reading_list_items loaded cleared (new_reading_list_remover m True) c = Some t
      \<and> (if reading_list_waiting c t
         then \<exists>u b. reading_list_notified t f = Some u \<and> destroy_reading_list_remover u = Some ()
                \<and> rr_answers u = [(c, b)] \<and> (f = FateDeleted \<longrightarrow> \<not> b)
         else destroy_reading_list_remover t = Some () \<and> (\<exists>b. rr_answers t = [(c, b)])))"
  using bookmarks.answered_once [OF refl, of model removal c f]
    reading_list.answered_once [of "new_reading_list_remover m True" loaded cleared c f]
  by (auto simp: Let_def)

theorem removal_answered_once_witness:
  "\<exists>t u b. remove_all_user_reading_list_items False True (new_reading_list_remover True True) 5 = Some t
     \<and> reading_list_notified t FateDeleted = Some u \<and> rr_answers u = [(5, b)] \<and> \<not> b"
proof -
  have w: "reading_list_waiting 5 (the (remove_all_user_reading_list_items False True (new_reading_list_remover True True) 5))"
    "remove_all_user_reading_list_items False True (new_reading_list_remover True True) 5 \<noteq> None"
    by code_simp+
  show ?thesis
    using removal_answered_once [THEN conjunct2, of False True True 5 FateDeleted] w by (auto split: if_splits)
qed

end
