(* ===== verification/Breadcrumbs.thy ===== *)
theory Breadcrumbs
  imports Prelude
begin

text \<open>
  Breadcrumbs for crash reports: the manager that keeps the recent events,
  \<open>chrome/browser/crash_report/breadcrumbs/breadcrumb_manager_keyed_service.{h,cc}\<close>, and the service
  that writes them to disk, \<open>breadcrumb_persistent_storage_keyed_service.{h,cc}\<close>.

  Times are in microseconds. \<open>env\<close> has the bucket of a time (absent when the conversion of
  \<open>base::Time\<close> fails), its timestamp, and \<open>base::SplitString\<close> by newlines, which trims white space and
  drops empty pieces. Each call of \<open>base::Time::Now\<close> is an argument.
\<close>

section \<open>The manager\<close>

record breadcrumb_env =
  event_bucket :: "int \<Rightarrow> int option"
  utc_timestamp :: "int \<Rightarrow> string"
  split_lines :: "string \<Rightarrow> string list"

definition NUL :: char where "NUL = CHR 0x00"

definition NEWLINE :: char where "NEWLINE = CHR 0x0A"

definition kMinEventsBuckets :: nat where "kMinEventsBuckets = 2"

definition kMessageExpirationTime :: int where "kMessageExpirationTime = 20 * 60 * 1000000"

record breadcrumb_manager =
  browsing_mode :: string
  event_buckets :: "(int \<times> string list) list"

definition new_breadcrumb_manager :: "bool \<Rightarrow> breadcrumb_manager" where
  "new_breadcrumb_manager off_the_record =
     \<lparr>browsing_mode = (if off_the_record then ''I'' else ''N''), event_buckets = []\<rparr>"

fun drop_expired :: "int \<Rightarrow> (int \<times> string list) list \<Rightarrow> (int \<times> string list) list" where
  "drop_expired now [] = []"
| "drop_expired now (bucket # buckets) =
     (if length (bucket # buckets) > kMinEventsBuckets
      then if now - fst bucket < kMessageExpirationTime then bucket # buckets
           else drop_expired now buckets
      else bucket # buckets)"

definition drop_old_events :: "int \<Rightarrow> breadcrumb_manager \<Rightarrow> breadcrumb_manager" where
  "drop_old_events now m = m\<lparr>event_buckets := drop_expired now (event_buckets m)\<rparr>"

text \<open>The two loops of \<open>GetEvents\<close>; the flag says that the limit was reached.\<close>

fun collect_bucket :: "nat \<Rightarrow> string list \<Rightarrow> string list \<Rightarrow> string list \<times> bool" where
  "collect_bucket limit events [] = (events, False)"
| "collect_bucket limit events (event # bucket) =
     (let events' = event # events
      in if limit > 0 \<and> length events' \<ge> limit then (events', True)
         else collect_bucket limit events' bucket)"

fun collect_buckets :: "nat \<Rightarrow> string list \<Rightarrow> (int \<times> string list) list \<Rightarrow> string list" where
  "collect_buckets limit events [] = events"
| "collect_buckets limit events (bucket # buckets) =
     (case collect_bucket limit events (rev (snd bucket)) of
        (events', True) \<Rightarrow> events'
      | (events', False) \<Rightarrow> collect_buckets limit events' buckets)"

definition get_events :: "nat \<Rightarrow> int \<Rightarrow> breadcrumb_manager \<Rightarrow> breadcrumb_manager \<times> string list" where
  "get_events event_count_limit now m =
     (let m1 = drop_old_events now m
      in (m1, collect_buckets event_count_limit [] (rev (event_buckets m1))))"

text \<open>The second component of the result is the string the observers are given.\<close>

definition add_event ::
  "breadcrumb_env \<Rightarrow> int \<Rightarrow> int \<Rightarrow> breadcrumb_manager \<Rightarrow> string \<Rightarrow> (breadcrumb_manager \<times> string) option" where
  "add_event env time now m event = do {
     bucket_time \<leftarrow> event_bucket env time;
     let buckets =
       (if event_buckets m = [] \<or> fst (last (event_buckets m)) \<noteq> bucket_time
        then event_buckets m @ [(bucket_time, [])] else event_buckets m);
     let event_log = utc_timestamp env time @ '' '' @ browsing_mode m @ '' ''
                     @ takeWhile (\<lambda>c. c \<noteq> NUL) event;
     let m1 = m\<lparr>event_buckets := butlast buckets @
       [(fst (last buckets), snd (last buckets) @ [event_log])]\<rparr>;
     Some (drop_old_events now m1, event_log)
   }"

section \<open>The persistent storage\<close>

text \<open>
  \<open>disk\<close> is the content of the file, absent when there is none, and \<open>persisted_position\<close> the
  position of the handle when it is open. \<open>SetLength\<close> does not move the position, and a write past
  the end fills the gap with zeros.
\<close>

record breadcrumb_storage =
  observed_manager :: bool
  persisted_position :: "nat option"
  breadcrumb_disk :: "string option"

definition kPersistedExistingEventsCount :: nat where "kPersistedExistingEventsCount = 10"

definition new_breadcrumb_storage :: "string option \<Rightarrow> breadcrumb_storage" where
  "new_breadcrumb_storage disk =
     \<lparr>observed_manager = False, persisted_position = None, breadcrumb_disk = disk\<rparr>"

definition write_at :: "nat \<Rightarrow> string \<Rightarrow> string \<Rightarrow> string" where
  "write_at pos bytes content =
     take pos (content @ replicate (pos - length content) NUL) @ bytes @ drop (pos + length bytes) content"

definition write_at_current_pos :: "breadcrumb_storage \<Rightarrow> string \<Rightarrow> breadcrumb_storage" where
  "write_at_current_pos st bytes =
     (case (persisted_position st, breadcrumb_disk st) of
        (Some pos, Some content) \<Rightarrow>
          st\<lparr>persisted_position := Some (pos + length bytes), breadcrumb_disk := Some (write_at pos bytes content)\<rparr>
      | _ \<Rightarrow> st)"

text \<open>The span over the literal has its terminating zero too.\<close>

definition write_breadcrumb_event :: "breadcrumb_storage \<Rightarrow> string \<Rightarrow> breadcrumb_storage option" where
  "write_breadcrumb_event st event = do {
     dcheck (persisted_position st \<noteq> None);
     Some (write_at_current_pos (write_at_current_pos st event) [NEWLINE, NUL])
   }"

fun write_breadcrumb_events :: "breadcrumb_storage \<Rightarrow> string list \<Rightarrow> breadcrumb_storage option" where
  "write_breadcrumb_events st [] = Some st"
| "write_breadcrumb_events st (event # events) = do {
     st1 \<leftarrow> write_breadcrumb_event st event;
     write_breadcrumb_events st1 events
   }"

definition write_existing_breadcrumb_events ::
  "int \<Rightarrow> breadcrumb_manager \<Rightarrow> breadcrumb_storage \<Rightarrow> (breadcrumb_manager \<times> breadcrumb_storage) option" where
  "write_existing_breadcrumb_events now m st =
     (let st1 = (if persisted_position st \<noteq> None then st\<lparr>breadcrumb_disk := Some []\<rparr>
                 else if observed_manager st
                 then st\<lparr>persisted_position := Some 0, breadcrumb_disk := Some []\<rparr> else st)
      in if \<not> observed_manager st1 then Some (m, st1)
         else let (m1, events) = get_events kPersistedExistingEventsCount now m
              in map_option (\<lambda>st2. (m1, st2)) (write_breadcrumb_events st1 events))"

text \<open>\<open>manager\<close> says whether the argument is a manager or null.\<close>

definition observe_breadcrumb_manager ::
  "bool \<Rightarrow> int \<Rightarrow> breadcrumb_manager \<Rightarrow> breadcrumb_storage \<Rightarrow> (breadcrumb_manager \<times> breadcrumb_storage) option" where
  "observe_breadcrumb_manager manager now m st =
     write_existing_breadcrumb_events now m (st\<lparr>observed_manager := manager\<rparr>)"

definition event_added :: "breadcrumb_storage \<Rightarrow> string \<Rightarrow> breadcrumb_storage option" where
  "event_added st event = write_breadcrumb_event st event"

definition get_stored_events :: "breadcrumb_env \<Rightarrow> breadcrumb_storage \<Rightarrow> string list" where
  "get_stored_events env st =
     (case breadcrumb_disk st of
        None \<Rightarrow> []
      | Some content \<Rightarrow>
          if length content \<le> 0 then [] else split_lines env (take (length content - 1) content))"

text \<open>An event logged while the storage observes the manager reaches the disk.\<close>

definition log_event ::
  "breadcrumb_env \<Rightarrow> breadcrumb_manager \<times> breadcrumb_storage \<Rightarrow> string \<times> int \<times> int
    \<Rightarrow> (breadcrumb_manager \<times> breadcrumb_storage) option" where
  "log_event env s e = do {
     (m1, event_log) \<leftarrow> add_event env (fst (snd e)) (snd (snd e)) (fst s) (fst e);
     st1 \<leftarrow> (if observed_manager (snd s) then event_added (snd s) event_log else Some (snd s));
     Some (m1, st1)
   }"

section \<open>Collecting events\<close>

definition last_events :: "nat \<Rightarrow> string list \<Rightarrow> string list" where
  "last_events limit events = (if limit = 0 then events else drop (length events - limit) events)"

lemma collect_bucket_eq:
  assumes "limit = 0 \<or> length acc < limit"
  shows "collect_bucket limit acc es =
    (if limit > 0 \<and> length acc + length es \<ge> limit
     then (rev (take (limit - length acc) es) @ acc, True) else (rev es @ acc, False))"
  using assms
proof (induction es arbitrary: acc)
  case (Cons e es)
  show ?case
  proof (cases "limit > 0 \<and> length (e # acc) \<ge> limit")
    case True
    then have "limit - length acc = 1" using Cons.prems by auto
    with True show ?thesis by (simp add: Let_def)
  next
    case False
    then have "limit = 0 \<or> length (e # acc) < limit" by auto
    from Cons.IH [OF this] False show ?thesis
      by (auto simp: Let_def take_Cons' Suc_diff_Suc)
  qed
qed auto

lemma collect_buckets_eq:
  assumes "limit = 0 \<or> length acc < limit"
  shows "collect_buckets limit acc bs = last_events limit (concat (map snd (rev bs)) @ acc)"
  using assms
proof (induction bs arbitrary: acc)
  case Nil
  then show ?case by (auto simp: last_events_def)
next
  case (Cons b bs)
  show ?case
  proof (cases "limit > 0 \<and> length acc + length (snd b) \<ge> limit")
    case True
    then have "collect_buckets limit acc (b # bs) = rev (take (limit - length acc) (rev (snd b))) @ acc"
      using collect_bucket_eq [OF Cons.prems, of "rev (snd b)"] by simp
    also have "\<dots> = drop (length (snd b) - (limit - length acc)) (snd b) @ acc"
      by (simp add: take_rev)
    also have "\<dots> = last_events limit (concat (map snd (rev (b # bs))) @ acc)"
      using True Cons.prems by (auto simp: last_events_def)
    finally show ?thesis .
  next
    case False
    then have "limit = 0 \<or> length (snd b @ acc) < limit" using Cons.prems by auto
    from Cons.IH [OF this] show ?thesis
      using collect_bucket_eq [OF Cons.prems, of "rev (snd b)"] False by simp
  qed
qed

lemma drop_expired_eq:
  "\<exists>k. drop_expired now bs = drop k bs \<and> (k > 0 \<longrightarrow> length bs - k \<ge> kMinEventsBuckets)
     \<and> (\<forall>b\<in>set (take k bs). now - fst b \<ge> kMessageExpirationTime)
     \<and> (length (drop k bs) > kMinEventsBuckets \<longrightarrow> now - fst (hd (drop k bs)) < kMessageExpirationTime)"
proof (induction bs)
  case Nil
  show ?case by (intro exI [of _ 0]) (simp add: kMinEventsBuckets_def)
next
  case (Cons b bs)
  show ?case
  proof (cases "length (b # bs) > kMinEventsBuckets \<and> \<not> now - fst b < kMessageExpirationTime")
    case True
    obtain k where k: "drop_expired now bs = drop k bs" "k > 0 \<longrightarrow> length bs - k \<ge> kMinEventsBuckets"
      "\<forall>b\<in>set (take k bs). now - fst b \<ge> kMessageExpirationTime"
      "length (drop k bs) > kMinEventsBuckets \<longrightarrow> now - fst (hd (drop k bs)) < kMessageExpirationTime"
      using Cons.IH by blast
    from True have "drop_expired now (b # bs) = drop_expired now bs" by simp
    with True k show ?thesis by (intro exI [of _ "Suc k"]) (cases k; auto)
  next
    case False
    then show ?thesis by (intro exI [of _ 0]) auto
  qed
qed

section \<open>What is on disk\<close>

definition disk_line :: "string \<Rightarrow> string" where "disk_line e = e @ [NEWLINE, NUL]"

definition disk_of :: "string list \<Rightarrow> string" where "disk_of es = concat (map disk_line es)"

text \<open>
  The storage has written the events \<open>es\<close> from position \<open>gap\<close> on: what is before is filled with
  zeros by the first write.
\<close>

definition storage_holds :: "nat \<Rightarrow> breadcrumb_storage \<Rightarrow> string list \<Rightarrow> bool" where
  "storage_holds gap st es \<longleftrightarrow> observed_manager st
     \<and> breadcrumb_disk st = Some (if es = [] then [] else replicate gap NUL @ disk_of es)
     \<and> persisted_position st = Some (gap + length (disk_of es))"

lemma write_event_holds:
  assumes "storage_holds gap st es"
  shows "\<exists>st'. write_breadcrumb_event st e = Some st' \<and> storage_holds gap st' (es @ [e])"
  using assms
  by (cases st; cases "es = []")
    (auto simp: storage_holds_def write_breadcrumb_event_def write_at_current_pos_def write_at_def
      disk_of_def disk_line_def)

lemma write_events_holds:
  "storage_holds gap st es \<Longrightarrow>
   \<exists>st'. write_breadcrumb_events st fs = Some st' \<and> storage_holds gap st' (es @ fs)"
proof (induction fs arbitrary: st es)
  case (Cons f fs)
  obtain st1 where st1: "write_breadcrumb_event st f = Some st1" "storage_holds gap st1 (es @ [f])"
    using write_event_holds [OF Cons.prems] by blast
  from Cons.IH [OF st1(2)] st1(1) show ?case by simp
qed simp

text \<open>The position the handle of a storage is left at when it is told to observe a manager.\<close>

definition position_kept :: "breadcrumb_storage \<Rightarrow> nat" where
  "position_kept st = (case persisted_position st of None \<Rightarrow> 0 | Some pos \<Rightarrow> pos)"

lemma observe_holds:
  "\<exists>st'. observe_breadcrumb_manager True now m st =
      Some (fst (get_events kPersistedExistingEventsCount now m), st')
    \<and> storage_holds (position_kept st) st' (snd (get_events kPersistedExistingEventsCount now m))"
proof -
  define st1 where "st1 = st\<lparr>observed_manager := True, persisted_position := Some (position_kept st),
    breadcrumb_disk := Some []\<rparr>"
  have "storage_holds (position_kept st) st1 []"
    by (simp add: storage_holds_def disk_of_def st1_def)
  from write_events_holds [OF this, of "snd (get_events kPersistedExistingEventsCount now m)"]
  show ?thesis
    by (cases st; cases "persisted_position st")
      (auto simp: observe_breadcrumb_manager_def write_existing_breadcrumb_events_def Let_def
        st1_def position_kept_def split: prod.split)
qed

text \<open>The text of an event in the log and the texts logged by a run.\<close>

definition event_text :: "breadcrumb_env \<Rightarrow> string \<Rightarrow> string \<times> int \<times> int \<Rightarrow> string" where
  "event_text env mode e = utc_timestamp env (fst (snd e)) @ '' '' @ mode @ '' ''
     @ takeWhile (\<lambda>c. c \<noteq> NUL) (fst e)"

lemma log_event_holds:
  assumes "storage_holds gap (snd s) es" and "log_event env s e = Some t"
  shows "storage_holds gap (snd t) (es @ [event_text env (browsing_mode (fst s)) e])"
    and "browsing_mode (fst t) = browsing_mode (fst s)"
proof -
  obtain m1 l st1 where l: "add_event env (fst (snd e)) (snd (snd e)) (fst s) (fst e) = Some (m1, l)"
    "event_added (snd s) l = Some st1" "t = (m1, st1)"
    using assms by (auto simp: log_event_def storage_holds_def option_dest split: option.splits if_splits prod.splits)
  have "l = event_text env (browsing_mode (fst s)) e" "browsing_mode m1 = browsing_mode (fst s)"
    using l(1) by (auto simp: add_event_def event_text_def drop_old_events_def Let_def option_dest)
  with l(2,3) write_event_holds [OF assms(1), of l]
  show "storage_holds gap (snd t) (es @ [event_text env (browsing_mode (fst s)) e])"
    "browsing_mode (fst t) = browsing_mode (fst s)"
    by (auto simp: event_added_def)
qed

lemma log_events_hold:
  "run (log_event env) s adds = Some t \<Longrightarrow> storage_holds gap (snd s) es \<Longrightarrow>
   storage_holds gap (snd t) (es @ map (event_text env (browsing_mode (fst s))) adds)"
proof (induction adds arbitrary: s es)
  case (Cons e adds)
  then obtain u where u: "log_event env s e = Some u" "run (log_event env) u adds = Some t"
    by (auto split: option.splits)
  from Cons.IH [OF u(2) log_event_holds(1) [OF Cons.prems(2) u(1)]] log_event_holds(2) [OF Cons.prems(2) u(1)]
  show ?case by simp
qed simp

text \<open>
  A line as the log has them: not empty, without newlines, not starting or ending with one of the
  white space characters that \<open>SplitString\<close> trims, of which zero is none.
\<close>

definition white_space :: "char list" where
  "white_space = [CHR 0x09, CHR 0x0A, CHR 0x0B, CHR 0x0C, CHR 0x0D, CHR 0x20]"

definition plain_line :: "string \<Rightarrow> bool" where
  "plain_line e \<longleftrightarrow> e \<noteq> [] \<and> NEWLINE \<notin> set e \<and> hd e \<notin> set white_space \<and> last e \<notin> set white_space"

definition lines_law :: "breadcrumb_env \<Rightarrow> bool" where
  "lines_law env \<longleftrightarrow>
     (\<forall>es. (\<forall>e\<in>set es. plain_line e) \<longrightarrow> split_lines env (concat (map (\<lambda>e. e @ [NEWLINE]) es)) = es)"

definition read_back :: "nat \<Rightarrow> string list \<Rightarrow> string list" where
  "read_back gap es =
     (case es of [] \<Rightarrow> [] | e # es \<Rightarrow> (replicate gap NUL @ e) # map (\<lambda>e. NUL # e) es)"

lemma read_back_gap:
  "es \<noteq> [] \<Longrightarrow> concat (map (\<lambda>e. e @ [NEWLINE]) (read_back gap es)) =
     replicate gap NUL @ concat (map (\<lambda>e. e @ [NEWLINE]) (read_back 0 es))"
  by (cases es) (simp_all add: read_back_def)

lemma disk_of_butlast:
  "es \<noteq> [] \<Longrightarrow> butlast (disk_of es) = concat (map (\<lambda>e. e @ [NEWLINE]) (read_back 0 es))"
proof (induction es rule: rev_induct)
  case (snoc f es)
  show ?case
  proof (cases "es = []")
    case True
    then show ?thesis by (simp add: disk_of_def disk_line_def read_back_def butlast_append)
  next
    case False
    have "disk_of es = butlast (disk_of es) @ [NUL]"
      using False by (cases es rule: rev_cases) (simp_all add: disk_of_def disk_line_def butlast_append)
    then have "butlast (disk_of (es @ [f])) = butlast (disk_of es) @ [NUL] @ f @ [NEWLINE]"
      by (simp add: disk_of_def disk_line_def butlast_append)
    moreover have "read_back 0 (es @ [f]) = read_back 0 es @ [NUL # f]"
      using False by (cases es) (simp_all add: read_back_def)
    ultimately show ?thesis using snoc.IH [OF False] by simp
  qed
qed simp

lemma plain_line_zeros: "plain_line e \<Longrightarrow> plain_line (replicate n NUL @ e)"
  by (cases n) (auto simp: plain_line_def NUL_def NEWLINE_def white_space_def)

lemma stored_events:
  assumes "lines_law env" and "storage_holds gap st es" and "\<forall>e\<in>set es. plain_line e"
  shows "get_stored_events env st = read_back gap es"
proof (cases "es = []")
  case True
  with assms(2) show ?thesis by (simp add: storage_holds_def get_stored_events_def read_back_def)
next
  case False
  have "\<forall>e\<in>set (read_back gap es). plain_line e"
  proof (cases es)
    case (Cons e fs)
    have "plain_line (NUL # f)" if "plain_line f" for f using plain_line_zeros [OF that, of 1] by simp
    with assms(3) Cons show ?thesis by (simp add: read_back_def plain_line_zeros)
  qed (use False in simp)
  moreover have ne: "disk_of es \<noteq> []" using False by (cases es) (simp_all add: disk_of_def disk_line_def)
  then have "butlast (replicate gap NUL @ disk_of es) = replicate gap NUL @ butlast (disk_of es)"
    by (simp add: butlast_append)
  then have "butlast (replicate gap NUL @ disk_of es) = concat (map (\<lambda>e. e @ [NEWLINE]) (read_back gap es))"
    by (simp only: disk_of_butlast [OF False] read_back_gap [OF False, of gap])
  ultimately have "split_lines env (butlast (replicate gap NUL @ disk_of es)) = read_back gap es"
    using assms(1) by (simp add: lines_law_def)
  with ne False assms(2) show ?thesis
    by (simp add: storage_holds_def get_stored_events_def butlast_conv_take)
qed

section \<open>Properties\<close>

text \<open>
  The events returned are the newest ones kept, in the order they were logged, at most the
  limit when there is one; old events are dropped by whole buckets from the oldest on, none of
  them younger than twenty minutes and never one of the last two buckets, and afterwards the
  oldest bucket is younger than that unless only two are left.
\<close>

theorem recent_events_kept:
  "\<exists>k. event_buckets (fst (get_events limit now m)) = drop k (event_buckets m)
     \<and> snd (get_events limit now m) =
         last_events limit (concat (map snd (drop k (event_buckets m))))
     \<and> (limit > 0 \<longrightarrow> length (snd (get_events limit now m)) \<le> limit)
     \<and> (k > 0 \<longrightarrow> length (drop k (event_buckets m)) \<ge> 2)
     \<and> (\<forall>b\<in>set (take k (event_buckets m)). now - fst b \<ge> 20 * 60 * 1000000)
     \<and> (length (drop k (event_buckets m)) > 2 \<longrightarrow>
          now - fst (hd (drop k (event_buckets m))) < 20 * 60 * 1000000)"
proof -
  obtain k where k: "drop_expired now (event_buckets m) = drop k (event_buckets m)"
    "k > 0 \<longrightarrow> length (event_buckets m) - k \<ge> kMinEventsBuckets"
    "\<forall>b\<in>set (take k (event_buckets m)). now - fst b \<ge> kMessageExpirationTime"
    "length (drop k (event_buckets m)) > kMinEventsBuckets \<longrightarrow>
      now - fst (hd (drop k (event_buckets m))) < kMessageExpirationTime"
    using drop_expired_eq by blast
  have "collect_buckets limit [] (rev (drop k (event_buckets m))) =
      last_events limit (concat (map snd (drop k (event_buckets m))))"
    using collect_buckets_eq [of limit "[]"] by (cases limit) auto
  with k show ?thesis
    by (intro exI [of _ k])
      (auto simp: get_events_def drop_old_events_def Let_def last_events_def kMinEventsBuckets_def
        kMessageExpirationTime_def)
qed

theorem recent_events_kept_witness:
  "length (snd (get_events 2 5 \<lparr>browsing_mode = ''N'', event_buckets = [(0, [''a'', ''b'', ''c''])]\<rparr>)) \<le> 2"
  using recent_events_kept [of 2 5 "\<lparr>browsing_mode = ''N'', event_buckets = [(0, [''a'', ''b'', ''c''])]\<rparr>"]
  by auto

text \<open>
  C40. Of the events on disk, the ten newest at the time the storage begins to observe the manager
  and all those logged since, \<open>GetStoredEvents\<close> returns every one, in order, if their lines are
  plain: without newlines and without white space at their ends. But all after the first come
  back with a zero before their text, because the zero that ends the literal newline
  is written behind each event; and the first one behind as many zeros as bytes had been written
  to the handle before, when the storage is told to observe a manager again, because
  \<open>SetLength\<close> empties the file and keeps the position of the handle.
\<close>

theorem breadcrumbs_read_back:
  assumes "lines_law env"
    and "observe_breadcrumb_manager True now m st = Some s"
    and "run (log_event env) s adds = Some t"
    and "\<forall>e\<in>set (snd (get_events 10 now m) @ map (event_text env (browsing_mode m)) adds). plain_line e"
  shows "get_stored_events env (snd t) =
    read_back (case persisted_position st of None \<Rightarrow> 0 | Some pos \<Rightarrow> pos)
      (snd (get_events 10 now m) @ map (event_text env (browsing_mode m)) adds)"
proof -
  have s: "fst s = fst (get_events 10 now m)"
    "storage_holds (position_kept st) (snd s) (snd (get_events 10 now m))"
    using observe_holds [of now m st] assms(2)
    by (auto simp: kPersistedExistingEventsCount_def)
  have "browsing_mode (fst s) = browsing_mode m"
    by (simp add: s(1) get_events_def drop_old_events_def Let_def)
  with log_events_hold [OF assms(3) s(2)]
  have "storage_holds (position_kept st) (snd t)
      (snd (get_events 10 now m) @ map (event_text env (browsing_mode m)) adds)"
    by simp
  from stored_events [OF assms(1) this assms(4)] show ?thesis by (simp add: position_kept_def)
qed

fun cut_lines :: "string \<Rightarrow> string \<Rightarrow> string list" where
  "cut_lines piece [] = []"
| "cut_lines piece (c # cs) =
     (if c = NEWLINE then rev piece # cut_lines [] cs else cut_lines (c # piece) cs)"

lemma cut_lines_line: "NEWLINE \<notin> set e \<Longrightarrow> cut_lines p (e @ NEWLINE # r) = (rev p @ e) # cut_lines [] r"
  by (induction e arbitrary: p) auto

lemma cut_lines_lines:
  "\<forall>e\<in>set es. NEWLINE \<notin> set e \<Longrightarrow> cut_lines [] (concat (map (\<lambda>e. e @ [NEWLINE]) es)) = es"
  by (induction es) (simp_all add: cut_lines_line)

definition plain_breadcrumb_env :: breadcrumb_env where
  "plain_breadcrumb_env = \<lparr>event_bucket = (\<lambda>t. Some (t div 60000000)), utc_timestamp = (\<lambda>t. ''0''),
     split_lines = cut_lines []\<rparr>"

theorem breadcrumbs_read_back_witness:
  "\<exists>s t. observe_breadcrumb_manager True 0 (new_breadcrumb_manager False)
        ((new_breadcrumb_storage (Some ''xy''))\<lparr>persisted_position := Some 2\<rparr>) = Some s
    \<and> run (log_event plain_breadcrumb_env) s [(''a'', 0, 0), (''b'', 0, 0)] = Some t
    \<and> get_stored_events plain_breadcrumb_env (snd t) = [NUL # NUL # ''0 N a'', NUL # ''0 N b'']"
proof -
  define st where "st = (new_breadcrumb_storage (Some ''xy''))\<lparr>persisted_position := Some 2\<rparr>"
  have law: "lines_law plain_breadcrumb_env"
    by (simp add: lines_law_def plain_breadcrumb_env_def cut_lines_lines plain_line_def)
  have none: "snd (get_events 10 0 (new_breadcrumb_manager False)) = []"
    by (simp add: get_events_def drop_old_events_def new_breadcrumb_manager_def Let_def)
  have "case observe_breadcrumb_manager True 0 (new_breadcrumb_manager False) st of
      None \<Rightarrow> False | Some s \<Rightarrow> run (log_event plain_breadcrumb_env) s [(''a'', 0, 0), (''b'', 0, 0)] \<noteq> None"
    unfolding st_def by code_simp
  then obtain s t where run:
    "observe_breadcrumb_manager True 0 (new_breadcrumb_manager False) st = Some s"
    "run (log_event plain_breadcrumb_env) s [(''a'', 0, 0), (''b'', 0, 0)] = Some t"
    by (auto split: option.splits)
  have texts: "map (event_text plain_breadcrumb_env (browsing_mode (new_breadcrumb_manager False)))
      [(''a'', 0, 0), (''b'', 0, 0)] = [''0 N a'', ''0 N b'']"
    by (simp add: event_text_def plain_breadcrumb_env_def new_breadcrumb_manager_def NUL_def)
  have lines: "\<forall>e\<in>set (snd (get_events 10 0 (new_breadcrumb_manager False)) @
      map (event_text plain_breadcrumb_env (browsing_mode (new_breadcrumb_manager False)))
        [(''a'', 0, 0), (''b'', 0, 0)]). plain_line e"
    unfolding none texts by (simp add: plain_line_def NEWLINE_def white_space_def)
  have "get_stored_events plain_breadcrumb_env (snd t) = [NUL # NUL # ''0 N a'', NUL # ''0 N b'']"
    using breadcrumbs_read_back [OF law run lines] unfolding none texts
    by (simp add: read_back_def st_def eval_nat_numeral)
  with run show ?thesis unfolding st_def by blast
qed

end
