(* ===== verification/UrlHelpers.thy ===== *)
theory UrlHelpers
  imports Prelude
begin

text \<open>
  Small functions on URLs: x-callback URLs, \<open>chrome/common/x_callback_url.cc\<close>; the URLs of offline
  pages, \<open>chrome/browser/reading_list/offline_url_utils.cc\<close>; the rewriting of about URLs,
  \<open>chrome/browser/browser_about_rewriter.cc\<close>; changes of the history state,
  \<open>web/history_state_util.cc\<close>; and the time stamps of navigation items,
  \<open>web/navigation/time_smoother.{h,cc}\<close>. The URL library is the argument \<open>env\<close>; \<open>query_pairs\<close> are the
  keys and unescaped values in the order of the query iterator.
\<close>

record 'u url_helpers =
  hu_empty :: 'u
  hu_parse :: "string \<Rightarrow> 'u"
  hu_spec :: "'u \<Rightarrow> string"
  hu_valid :: "'u \<Rightarrow> bool"
  hu_standard :: "'u \<Rightarrow> bool"
  hu_scheme :: "'u \<Rightarrow> string"
  hu_host :: "'u \<Rightarrow> string"
  hu_path :: "'u \<Rightarrow> string"
  hu_origin :: "'u \<Rightarrow> 'u"
  hu_fixup :: "'u \<Rightarrow> 'u"
  hu_resolve :: "'u \<Rightarrow> string \<Rightarrow> 'u"
  hu_set_scheme :: "'u \<Rightarrow> string \<Rightarrow> 'u"
  hu_set_host :: "'u \<Rightarrow> string \<Rightarrow> 'u"
  hu_set_path :: "'u \<Rightarrow> string \<Rightarrow> 'u"
  append_query :: "'u \<Rightarrow> string \<Rightarrow> string \<Rightarrow> 'u"
  query_pairs :: "'u \<Rightarrow> (string \<times> string) list"
  value_for_key_in_query :: "'u \<Rightarrow> string \<Rightarrow> string option"

definition starts_with :: "string \<Rightarrow> string \<Rightarrow> bool" where
  "starts_with s p = (take (length p) s = p)"

section \<open>x-callback URLs\<close>

definition kXCallbackURLHost :: string where "kXCallbackURLHost = ''x-callback-url''"
definition kSuccessURLParameterName :: string where "kSuccessURLParameterName = ''x-success''"
definition kErrorURLParameterName :: string where "kErrorURLParameterName = ''x-error''"
definition kCancelURLParameterName :: string where "kCancelURLParameterName = ''x-cancel''"

definition is_x_callback_url :: "'u url_helpers \<Rightarrow> 'u \<Rightarrow> bool" where
  "is_x_callback_url env url =
     (if \<not> hu_valid env url then False
      else if hu_standard env url then hu_host env url = kXCallbackURLHost
      else
        let path_piece = hu_path env url;
            path_piece = (if starts_with path_piece ''//'' then drop 2 path_piece else path_piece)
        in takeWhile (\<lambda>c. c \<noteq> CHR ''/'') path_piece = kXCallbackURLHost)"

definition append_if_valid :: "'u url_helpers \<Rightarrow> 'u \<Rightarrow> string \<Rightarrow> 'u \<Rightarrow> 'u" where
  "append_if_valid env url name target =
     (if hu_valid env target then append_query env url name (hu_spec env target) else url)"

text \<open>\<open>parameters\<close> are the entries of the map in the order of their keys.\<close>

definition create_x_callback_url_with_parameters ::
  "'u url_helpers \<Rightarrow> string \<Rightarrow> string \<Rightarrow> 'u \<Rightarrow> 'u \<Rightarrow> 'u \<Rightarrow> (string \<times> string) list \<Rightarrow> 'u option" where
  "create_x_callback_url_with_parameters env scheme action success_url error_url cancel_url parameters = do {
     dcheck (scheme \<noteq> []);
     let url = hu_parse env (scheme @ ''://'' @ kXCallbackURLHost @ ''/'' @ action);
     let url1 = append_if_valid env url kSuccessURLParameterName success_url;
     let url2 = append_if_valid env url1 kErrorURLParameterName error_url;
     let url3 = append_if_valid env url2 kCancelURLParameterName cancel_url;
     let url4 = foldl (\<lambda>u (k, v). append_query env u k v) url3 parameters;
     dcheck (is_x_callback_url env url4);
     Some url4
   }"

definition create_x_callback_url :: "'u url_helpers \<Rightarrow> string \<Rightarrow> string \<Rightarrow> 'u option" where
  "create_x_callback_url env scheme action =
     create_x_callback_url_with_parameters env scheme action (hu_empty env) (hu_empty env) (hu_empty env) []"

definition map_insert :: "(string \<Rightarrow> string option) \<Rightarrow> string \<times> string \<Rightarrow> string \<Rightarrow> string option" where
  "map_insert m kv = (case kv of (k, v) \<Rightarrow> if m k = None then m(k \<mapsto> v) else m)"

definition extract_query_parameters_from_x_callback_url ::
  "'u url_helpers \<Rightarrow> 'u \<Rightarrow> (string \<Rightarrow> string option) option" where
  "extract_query_parameters_from_x_callback_url env x_callback_url = do {
     dcheck (is_x_callback_url env x_callback_url);
     Some (foldl map_insert Map.empty (query_pairs env x_callback_url))
   }"

section \<open>URLs of offline pages\<close>

definition kEntryURLQueryParam :: string where "kEntryURLQueryParam = ''entryURL''"
definition kVirtualURLQueryParam :: string where "kVirtualURLQueryParam = ''virtualURL''"
definition kChromeUIScheme :: string where "kChromeUIScheme = ''chrome''"
definition kChromeUIOfflineURL :: string where "kChromeUIOfflineURL = ''chrome://offline/''"
definition kChromeUIOfflineHost :: string where "kChromeUIOfflineHost = ''offline''"
definition kChromeUINewTabURL :: string where "kChromeUINewTabURL = ''chrome://newtab/''"
definition kChromeUIChromeURLsHost :: string where "kChromeUIChromeURLsHost = ''chrome-urls''"
definition kChromeUISyncInternalsHost :: string where "kChromeUISyncInternalsHost = ''sync-internals''"

definition offline_url_for_path :: "'u url_helpers \<Rightarrow> string \<Rightarrow> 'u \<Rightarrow> 'u \<Rightarrow> 'u option" where
  "offline_url_for_path env distilled_path entry_url virtual_url = do {
     dcheck (distilled_path \<noteq> []);
     dcheck (hu_valid env entry_url);
     dcheck (hu_valid env virtual_url);
     let page_url = hu_set_path env (hu_parse env kChromeUIOfflineURL) distilled_path;
     let page_url = append_query env page_url kEntryURLQueryParam (hu_spec env entry_url);
     Some (append_query env page_url kVirtualURLQueryParam (hu_spec env virtual_url))
   }"

definition entry_url_for_offline_url :: "'u url_helpers \<Rightarrow> 'u \<Rightarrow> 'u" where
  "entry_url_for_offline_url env offline_url =
     (case value_for_key_in_query env offline_url kEntryURLQueryParam of
        None \<Rightarrow> hu_empty env
      | Some s \<Rightarrow> if hu_valid env (hu_parse env s) then hu_parse env s else hu_empty env)"

definition virtual_url_for_offline_url :: "'u url_helpers \<Rightarrow> 'u \<Rightarrow> 'u" where
  "virtual_url_for_offline_url env offline_url =
     (case value_for_key_in_query env offline_url kVirtualURLQueryParam of
        None \<Rightarrow> hu_empty env
      | Some s \<Rightarrow> if hu_valid env (hu_parse env s) then hu_parse env s else hu_empty env)"

text \<open>The second component is \<open>resources_root_url\<close>, set when the pointer is not null.\<close>

definition file_url_for_distilled_url ::
  "'u url_helpers \<Rightarrow> 'u \<Rightarrow> string \<Rightarrow> bool \<Rightarrow> ('u \<times> 'u option) option" where
  "file_url_for_distilled_url env distilled_url offline_path wants_root =
     (if \<not> hu_valid env distilled_url then Some (hu_empty env, None)
      else do {
        dcheck (hu_scheme env distilled_url = kChromeUIScheme);
        let file_url = hu_parse env (''file://'' @ offline_path @ hu_path env distilled_url);
        Some (file_url, if wants_root then Some (hu_resolve env file_url ''.'') else None)
      })"

definition is_offline_url :: "'u url_helpers \<Rightarrow> 'u \<Rightarrow> bool" where
  "is_offline_url env url =
     (hu_scheme env url = kChromeUIScheme \<and> hu_host env url = kChromeUIOfflineHost)"

section \<open>About URLs\<close>

definition kHostReplacements :: "(string \<times> string) list" where
  "kHostReplacements = [(''about'', kChromeUIChromeURLsHost), (''sync'', kChromeUISyncInternalsHost)]"

definition replaced_host :: "string \<Rightarrow> string" where
  "replaced_host host = (case map_of kHostReplacements host of None \<Rightarrow> host | Some h \<Rightarrow> h)"

text \<open>The URL after the call and the value returned.\<close>

definition will_handle_web_browser_about_url ::
  "'u url_helpers \<Rightarrow> 'u \<Rightarrow> ('u \<times> bool) option" where
  "will_handle_web_browser_about_url env original_url = do {
     let url = hu_fixup env original_url;
     dcheck (hu_scheme env url \<noteq> ''about'' \<or> hu_path env url = ''blank'');
     if hu_scheme env url \<noteq> kChromeUIScheme then Some (url, False)
     else if hu_origin env url = hu_parse env kChromeUINewTabURL
     then Some (hu_set_scheme env url ''about'', hu_set_scheme env url ''about'' \<noteq> original_url)
     else Some (hu_set_host env url (replaced_host (hu_host env url)), False)
   }"

section \<open>History state\<close>

definition is_history_state_change_valid :: "'u url_helpers \<Rightarrow> 'u \<Rightarrow> 'u \<Rightarrow> bool option" where
  "is_history_state_change_valid env current_url to_url = do {
     dcheck (hu_valid env current_url);
     dcheck (hu_valid env to_url);
     Some (hu_origin env to_url = hu_origin env current_url)
   }"

definition get_history_state_change_url :: "'u url_helpers \<Rightarrow> 'u \<Rightarrow> 'u \<Rightarrow> string \<Rightarrow> 'u option" where
  "get_history_state_change_url env current_url base_url destination =
     (if \<not> hu_valid env base_url then Some (hu_empty env)
      else
        let to_url = hu_resolve env base_url destination
        in if \<not> hu_valid env to_url then Some (hu_empty env)
           else do {
             valid \<leftarrow> is_history_state_change_valid env current_url to_url;
             Some (if \<not> valid then hu_empty env else to_url)
           })"

section \<open>Time stamps\<close>

record time_smoother =
  low_water_mark :: int
  high_water_mark :: int

definition new_time_smoother :: time_smoother where
  "new_time_smoother = \<lparr>low_water_mark = 0, high_water_mark = 0\<rparr>"

definition get_smoothed_time :: "time_smoother \<Rightarrow> int \<Rightarrow> time_smoother \<times> int" where
  "get_smoothed_time s t =
     (if low_water_mark s \<le> t \<and> t \<le> high_water_mark s
      then (s\<lparr>high_water_mark := high_water_mark s + 1\<rparr>, high_water_mark s + 1)
      else (\<lparr>low_water_mark = t, high_water_mark = t\<rparr>, t))"

fun smoothed_times :: "time_smoother \<Rightarrow> int list \<Rightarrow> int list" where
  "smoothed_times s [] = []"
| "smoothed_times s (t # ts) =
     (case get_smoothed_time s t of (s', u) \<Rightarrow> u # smoothed_times s' ts)"

section \<open>Laws of the URL library\<close>

definition query_laws :: "'u url_helpers \<Rightarrow> bool" where
  "query_laws env \<longleftrightarrow>
     (\<forall>u k v. query_pairs env (append_query env u k v) = query_pairs env u @ [(k, v)])
     \<and> (\<forall>u k v. hu_valid env (append_query env u k v) = hu_valid env u
          \<and> hu_standard env (append_query env u k v) = hu_standard env u
          \<and> hu_scheme env (append_query env u k v) = hu_scheme env u
          \<and> hu_host env (append_query env u k v) = hu_host env u
          \<and> hu_path env (append_query env u k v) = hu_path env u)
     \<and> (\<forall>u k. value_for_key_in_query env u k = map_of (query_pairs env u) k)
     \<and> \<not> hu_valid env (hu_empty env)"

lemma query_append:
  assumes "query_laws env"
  shows "query_pairs env (append_query env u k v) = query_pairs env u @ [(k, v)]"
    and "is_x_callback_url env (append_query env u k v) = is_x_callback_url env u"
    and "is_offline_url env (append_query env u k v) = is_offline_url env u"
  using assms by (simp_all add: query_laws_def is_x_callback_url_def is_offline_url_def)

lemma foldl_append:
  assumes "query_laws env"
  shows "query_pairs env (foldl (\<lambda>u (k, v). append_query env u k v) u ps) = query_pairs env u @ ps"
    and "is_x_callback_url env (foldl (\<lambda>u (k, v). append_query env u k v) u ps) = is_x_callback_url env u"
  by (induction ps arbitrary: u) (auto simp: query_append [OF assms])

definition valid_pair :: "'u url_helpers \<Rightarrow> string \<Rightarrow> 'u \<Rightarrow> (string \<times> string) list" where
  "valid_pair env name u = (if hu_valid env u then [(name, hu_spec env u)] else [])"

lemma append_valid:
  assumes "query_laws env"
  shows "query_pairs env (append_if_valid env u name t) = query_pairs env u @ valid_pair env name t"
    and "is_x_callback_url env (append_if_valid env u name t) = is_x_callback_url env u"
  by (auto simp: append_if_valid_def valid_pair_def query_append [OF assms])

lemma foldl_map_insert: "foldl map_insert m ps = map_of ps ++ m"
proof (induction ps arbitrary: m)
  case (Cons p ps)
  then show ?case by (cases p) (auto simp: map_insert_def map_add_def fun_eq_iff split: option.split)
qed simp

section \<open>Properties\<close>

text \<open>
  For a scheme whose bare x-callback URL is recognised, the URL created with callbacks and
  parameters is an x-callback URL, no check fails, and extracting its parameters gives the
  valid callback URLs under their names and every parameter under its key, a callback taking
  precedence over a parameter of the same name; the simple form has no parameters.
\<close>

theorem x_callback_roundtrip:
  assumes "query_laws env" and "scheme \<noteq> []"
    and "is_x_callback_url env (hu_parse env (scheme @ ''://x-callback-url/'' @ action))"
    and "query_pairs env (hu_parse env (scheme @ ''://x-callback-url/'' @ action)) = []"
  shows "\<exists>u. create_x_callback_url_with_parameters env scheme action s e c ps = Some u
    \<and> extract_query_parameters_from_x_callback_url env u =
        Some (map_of (valid_pair env ''x-success'' s @ valid_pair env ''x-error'' e
                      @ valid_pair env ''x-cancel'' c @ ps))
    \<and> (\<exists>v. create_x_callback_url env scheme action = Some v
          \<and> extract_query_parameters_from_x_callback_url env v = Some Map.empty)"
proof -
  have "\<not> hu_valid env (hu_empty env)" using assms(1) by (simp add: query_laws_def)
  then have empty: "valid_pair env n (hu_empty env) = []" for n by (simp add: valid_pair_def)
  have "\<exists>u. create_x_callback_url_with_parameters env scheme action s e c ps = Some u
      \<and> extract_query_parameters_from_x_callback_url env u =
        Some (map_of (valid_pair env ''x-success'' s @ valid_pair env ''x-error'' e
                      @ valid_pair env ''x-cancel'' c @ ps))" for s e c ps
    using assms(2-4)
    by (simp add: create_x_callback_url_with_parameters_def extract_query_parameters_from_x_callback_url_def
        Let_def foldl_append [OF assms(1)] append_valid [OF assms(1)] foldl_map_insert
        kXCallbackURLHost_def kSuccessURLParameterName_def kErrorURLParameterName_def
        kCancelURLParameterName_def)
  from this [of s e c ps] this [of "hu_empty env" "hu_empty env" "hu_empty env" "[]"] empty
  show ?thesis by (auto simp: create_x_callback_url_def)
qed

text \<open>A library in which a URL is its scheme, host and path with its query as a list.\<close>

type_synonym plain_url = "string \<times> (string \<times> string) list"

definition plain_url_helpers :: "plain_url url_helpers" where
  "plain_url_helpers = \<lparr>hu_empty = ([], []), hu_parse = (\<lambda>s. (s, [])), hu_spec = fst,
     hu_valid = (\<lambda>u. fst u \<noteq> []), hu_standard = (\<lambda>u. False),
     hu_scheme = (\<lambda>u. if starts_with (fst u) ''chrome:'' then ''chrome'' else ''other''),
     hu_host = (\<lambda>u. if starts_with (fst u) ''chrome://offline/'' then ''offline'' else ''other''),
     hu_path = (\<lambda>u. drop 4 (fst u)), hu_origin = (\<lambda>u. (take 5 (fst u), [])), hu_fixup = (\<lambda>u. u),
     hu_resolve = (\<lambda>u s. (take 5 (fst u) @ s, [])), hu_set_scheme = (\<lambda>u s. u), hu_set_host = (\<lambda>u s. u),
     hu_set_path = (\<lambda>u s. (''chrome://offline/'' @ s, [])),
     append_query = (\<lambda>u k v. (fst u, snd u @ [(k, v)])), query_pairs = snd,
     value_for_key_in_query = (\<lambda>u k. map_of (snd u) k)\<rparr>"

lemma plain_query_laws: "query_laws plain_url_helpers"
  by (simp add: query_laws_def plain_url_helpers_def)

theorem x_callback_roundtrip_witness:
  "\<exists>u m. create_x_callback_url_with_parameters plain_url_helpers ''app'' ''open'' (''http:a'', []) ([], []) ([], [])
      [(''k'', ''v'')] = Some u
    \<and> extract_query_parameters_from_x_callback_url plain_url_helpers u = Some m
    \<and> m ''x-success'' = Some ''http:a'' \<and> m ''k'' = Some ''v'' \<and> m ''x-error'' = None"
proof -
  have base: "is_x_callback_url plain_url_helpers
      (hu_parse plain_url_helpers (''app'' @ ''://x-callback-url/'' @ ''open''))"
    by (simp add: is_x_callback_url_def plain_url_helpers_def starts_with_def kXCallbackURLHost_def)
  have "query_pairs plain_url_helpers (hu_parse plain_url_helpers (''app'' @ ''://x-callback-url/'' @ ''open'')) = []"
    by (simp add: plain_url_helpers_def)
  from x_callback_roundtrip [OF plain_query_laws _ base this, of "(''http:a'', [])" "([], [])" "([], [])"
      "[(''k'', ''v'')]"]
  show ?thesis by (auto simp: valid_pair_def plain_url_helpers_def)
qed

text \<open>
  The URL of an offline page is recognised as one, and the entry URL and the virtual URL it
  was made from are found in it again.
\<close>

theorem offline_url_roundtrip:
  assumes "query_laws env"
    and "path \<noteq> []" and "hu_valid env entry_url" and "hu_valid env virtual_url"
    and "hu_parse env (hu_spec env entry_url) = entry_url"
    and "hu_parse env (hu_spec env virtual_url) = virtual_url"
    and "is_offline_url env (hu_set_path env (hu_parse env ''chrome://offline/'') path)"
    and "query_pairs env (hu_set_path env (hu_parse env ''chrome://offline/'') path) = []"
  shows "\<exists>u. offline_url_for_path env path entry_url virtual_url = Some u \<and> is_offline_url env u
    \<and> entry_url_for_offline_url env u = entry_url \<and> virtual_url_for_offline_url env u = virtual_url"
proof -
  have lookup: "value_for_key_in_query env u k = map_of (query_pairs env u) k" for u k
    using assms(1) by (simp add: query_laws_def)
  show ?thesis
    using assms(2-)
    by (simp add: offline_url_for_path_def entry_url_for_offline_url_def virtual_url_for_offline_url_def lookup
        Let_def query_append [OF assms(1)] kEntryURLQueryParam_def kVirtualURLQueryParam_def
        kChromeUIOfflineURL_def)
qed

theorem offline_url_roundtrip_witness:
  "\<exists>u. offline_url_for_path plain_url_helpers ''/p'' (''http:a'', []) (''http:b'', []) = Some u
    \<and> entry_url_for_offline_url plain_url_helpers u = (''http:a'', [])
    \<and> virtual_url_for_offline_url plain_url_helpers u = (''http:b'', [])"
proof -
  have "\<exists>u. offline_url_for_path plain_url_helpers ''/p'' (''http:a'', []) (''http:b'', []) = Some u
      \<and> is_offline_url plain_url_helpers u
      \<and> entry_url_for_offline_url plain_url_helpers u = (''http:a'', [])
      \<and> virtual_url_for_offline_url plain_url_helpers u = (''http:b'', [])"
    by (rule offline_url_roundtrip [OF plain_query_laws])
      (simp_all add: plain_url_helpers_def is_offline_url_def starts_with_def kChromeUIScheme_def
        kChromeUIOfflineHost_def)
  then show ?thesis by blast
qed

text \<open>
  A page at a valid URL can never change its history state to another origin: the URL it
  gets is empty or a valid URL of the origin of the page, and no check fails whatever the base
  and the destination are.
\<close>

theorem history_state_keeps_origin:
  assumes "hu_valid env current_url"
  shows "\<exists>u. get_history_state_change_url env current_url base_url destination = Some u
    \<and> (u = hu_empty env
       \<or> u = hu_resolve env base_url destination \<and> hu_valid env u
         \<and> hu_origin env u = hu_origin env current_url)"
  using assms by (auto simp: get_history_state_change_url_def is_history_state_change_valid_def Let_def)

theorem history_state_keeps_origin_witness:
  "\<exists>u. get_history_state_change_url plain_url_helpers (''http:a'', []) (''ftp:ab'', []) ''x'' = Some u
    \<and> (u = ([], []) \<or> take 5 (fst u) = ''http:'')"
  using history_state_keeps_origin [of plain_url_helpers "(''http:a'', [])" "(''ftp:ab'', [])" "''x''"]
  by (auto simp: plain_url_helpers_def)

lemma smoothed_increasing:
  "sorted ts \<Longrightarrow> low_water_mark s \<le> high_water_mark s \<Longrightarrow> \<forall>t\<in>set ts. low_water_mark s \<le> t \<Longrightarrow>
   sorted_wrt (<) (smoothed_times s ts) \<and> (\<forall>u\<in>set (smoothed_times s ts). high_water_mark s < u)"
proof (induction ts arbitrary: s)
  case (Cons t ts)
  obtain s' u where step: "get_smoothed_time s t = (s', u)" by fastforce
  then have s': "high_water_mark s < u" "high_water_mark s' = u" "low_water_mark s' \<le> u" "low_water_mark s' \<le> t"
    using Cons.prems by (auto simp: get_smoothed_time_def split: if_splits)
  then have "\<forall>t'\<in>set ts. low_water_mark s' \<le> t'" using Cons.prems(1) by auto
  from Cons.IH [OF _ _ this] Cons.prems(1) s' step show ?case by force
qed simp

text \<open>
  As long as the clock does not go back, however often it stands still, the time stamps of
  successive items increase strictly, and no stamp is before the time of its item.
\<close>

theorem smoothed_times_increase:
  assumes "sorted ts"
  shows "sorted_wrt (<) (smoothed_times s ts) \<and> length (smoothed_times s ts) = length ts
    \<and> (\<forall>i<length ts. ts ! i \<le> smoothed_times s ts ! i)"
proof -
  have before: "length (smoothed_times s ts) = length ts \<and> (\<forall>i<length ts. ts ! i \<le> smoothed_times s ts ! i)"
  proof (induction ts arbitrary: s)
    case (Cons t ts)
    then show ?case
      by (auto simp: nth_Cons get_smoothed_time_def split: nat.splits prod.splits if_splits)
  qed simp
  have "sorted_wrt (<) (smoothed_times s ts)"
  proof (cases ts)
    case (Cons t ts')
    obtain s' u where step: "get_smoothed_time s t = (s', u)" by fastforce
    then have s': "high_water_mark s' = u" "low_water_mark s' \<le> u" "low_water_mark s' \<le> t"
      by (auto simp: get_smoothed_time_def split: if_splits)
    then have "\<forall>t'\<in>set ts'. low_water_mark s' \<le> t'" using assms Cons by auto
    from smoothed_increasing [OF _ _ this] assms Cons s' step show ?thesis by auto
  qed simp
  with before show ?thesis by blast
qed

theorem smoothed_times_increase_witness:
  "sorted_wrt (<) (smoothed_times new_time_smoother [7, 7, 7, 8])"
  using smoothed_times_increase [of "[7, 7, 7, 8]" new_time_smoother] by simp

end
