(* ===== verification/HttpCacheTasks.thy ===== *)
theory HttpCacheTasks
  imports Prelude
begin

text \<open>
  The two tasks on the HTTP cache: counting its size, \<open>chrome/browser/browsing_data/cache_counter.cc\<close>, and
  clearing it, \<open>net/http_cache_helper.cc\<close>. Both ask the cache for its backend and the backend for
  the work, and each request may finish at once or later, through a callback; the value
  \<open>env\<close> has what the requests return, \<open>pending\<close> being \<open>net::ERR_IO_PENDING\<close>.
\<close>

record cache_env =
  pending :: int
  get_backend_returns :: int
  backend_set :: bool
  calculate_size_returns :: int
  doom_entries_returns :: int

text \<open>
  What the network stack documents of these requests: the value for a request that goes on is an
  error value, and a request for the backend that succeeds at once has set it.
\<close>

definition cache_laws :: "cache_env \<Rightarrow> bool" where
  "cache_laws env \<longleftrightarrow> pending env < 0 \<and> (get_backend_returns env \<ge> 0 \<longrightarrow> backend_set env)"

section \<open>Counting\<close>

datatype counter_step = STEP_GET_BACKEND | STEP_COUNT | STEP_CALLBACK

fun steps_left :: "counter_step \<Rightarrow> nat" where
  "steps_left STEP_GET_BACKEND = 2"
| "steps_left STEP_COUNT = 1"
| "steps_left STEP_CALLBACK = 0"

text \<open>\<open>posted_finish\<close> counts the tasks \<open>OnCountingFinished\<close> posted to the UI thread.\<close>

record io_counter =
  next_step :: counter_step
  counter_result :: int
  counter_backend :: bool
  posted_finish :: nat

definition new_io_counter :: io_counter where
  "new_io_counter = \<lparr>next_step = STEP_GET_BACKEND, counter_result = 0, counter_backend = False, posted_finish = 0\<rparr>"

function count_internal :: "cache_env \<Rightarrow> io_counter \<Rightarrow> int \<Rightarrow> io_counter option" where
  "count_internal env c rv =
     (if rv = pending env then Some c
      else case (if rv < 0 then STEP_CALLBACK else next_step c) of
        STEP_GET_BACKEND \<Rightarrow>
          count_internal env (c\<lparr>next_step := STEP_COUNT, counter_backend := backend_set env\<rparr>)
            (get_backend_returns env)
      | STEP_COUNT \<Rightarrow>
          if counter_backend c
          then count_internal env (c\<lparr>next_step := STEP_CALLBACK\<rparr>) (calculate_size_returns env)
          else None
      | STEP_CALLBACK \<Rightarrow> Some (c\<lparr>next_step := STEP_CALLBACK, counter_result := rv,
          posted_finish := Suc (posted_finish c)\<rparr>))"
  by pat_completeness auto
termination
  by (relation "measure (\<lambda>(env, c, rv). steps_left (next_step c))") (auto split: if_splits)

declare count_internal.simps [simp del]

text \<open>A request that goes on ends by a callback with its result, after the backend was set.\<close>

definition counter_callback :: "cache_env \<Rightarrow> io_counter \<Rightarrow> bool \<Rightarrow> int \<Rightarrow> io_counter option" where
  "counter_callback env c backend rv =
     count_internal env (c\<lparr>counter_backend := backend\<rparr>) rv"

definition count_cache :: "cache_env \<Rightarrow> io_counter option" where
  "count_cache env = count_internal env new_io_counter 0"

text \<open>The size reported to the client of \<open>CacheCounter\<close>, if any.\<close>

definition on_cache_size_calculated :: "int \<Rightarrow> int option" where
  "on_cache_size_calculated result_bytes = (if result_bytes < 0 then None else Some result_bytes)"

definition on_counting_finished :: "io_counter \<Rightarrow> int option" where
  "on_counting_finished c = on_cache_size_calculated (counter_result c)"

text \<open>
  The whole count: \<open>g\<close> and \<open>n\<close> are the results of the two requests, delivered at once or by
  callback as \<open>env\<close> says.
\<close>

definition whole_count :: "cache_env \<Rightarrow> int \<Rightarrow> int \<Rightarrow> io_counter option" where
  "whole_count env g n = do {
     c \<leftarrow> count_cache env;
     c1 \<leftarrow> (if get_backend_returns env = pending env then counter_callback env c (g \<ge> 0) g else Some c);
     (if posted_finish c1 = 0 then counter_callback env c1 (counter_backend c1) n else Some c1)
   }"

section \<open>Clearing\<close>

text \<open>The values posted to the callback of the client, and whether QUIC information was cleared.\<close>

record cache_clearer =
  quic_cleared :: bool
  client_callbacks :: "int list"
  doom_running :: bool

definition new_cache_clearer :: cache_clearer where
  "new_cache_clearer = \<lparr>quic_cleared = False, client_callbacks = [], doom_running = False\<rparr>"

definition post_callback :: "cache_clearer \<Rightarrow> int \<Rightarrow> cache_clearer" where
  "post_callback s error = s\<lparr>client_callbacks := client_callbacks s @ [error], doom_running := False\<rparr>"

definition doom_http_cache :: "cache_env \<Rightarrow> cache_clearer \<Rightarrow> bool \<Rightarrow> int \<Rightarrow> cache_clearer" where
  "doom_http_cache env s backend error =
     (if backend
      then (if doom_entries_returns env \<noteq> pending env then post_callback s (doom_entries_returns env)
            else s\<lparr>doom_running := True\<rparr>)
      else post_callback s error)"

definition clear_http_cache_on_io_thread :: "cache_env \<Rightarrow> cache_clearer \<Rightarrow> cache_clearer" where
  "clear_http_cache_on_io_thread env s =
     (let s1 = s\<lparr>quic_cleared := True\<rparr>
      in if get_backend_returns env \<noteq> pending env
         then doom_http_cache env s1 (backend_set env) (get_backend_returns env) else s1)"

text \<open>\<open>delete_end_set\<close> says that the end of the interval is not the null time.\<close>

definition clear_http_cache :: "cache_env \<Rightarrow> bool \<Rightarrow> cache_clearer option" where
  "clear_http_cache env delete_end_set = do {
     dcheck delete_end_set;
     Some (clear_http_cache_on_io_thread env new_cache_clearer)
   }"

definition whole_clear :: "cache_env \<Rightarrow> bool \<Rightarrow> int \<Rightarrow> int \<Rightarrow> cache_clearer option" where
  "whole_clear env backend g d = do {
     s \<leftarrow> clear_http_cache env True;
     let s1 = (if get_backend_returns env = pending env then doom_http_cache env s backend g else s);
     Some (if doom_running s1 then post_callback s1 d else s1)
   }"

section \<open>Properties\<close>

text \<open>The result of a request: what it returns, or what its callback says.\<close>

definition final_result :: "cache_env \<Rightarrow> int \<Rightarrow> int \<Rightarrow> int" where
  "final_result env returned later = (if returned = pending env then later else returned)"

text \<open>
  However its two requests finish, the count ends: exactly one task is posted to the UI thread,
  with the size, or with the first error, and the client is told the size, but is told nothing when
  there was an error.
\<close>

theorem count_always_ends:
  assumes "cache_laws env" and "g \<noteq> pending env" and "n \<noteq> pending env"
  defines "backend \<equiv> final_result env (get_backend_returns env) g"
    and "bytes \<equiv> final_result env (calculate_size_returns env) n"
  shows "\<exists>c. whole_count env g n = Some c \<and> posted_finish c = 1
    \<and> on_counting_finished c = (if backend < 0 \<or> bytes < 0 then None else Some bytes)
    \<and> counter_result c = (if backend < 0 then backend else bytes)"
proof -
  have laws: "pending env < 0" "get_backend_returns env \<ge> 0 \<Longrightarrow> backend_set env"
    using assms(1) by (simp_all add: cache_laws_def)
  note unfold = count_internal.simps [of env]
  have finish: "count_internal env c rv = Some (c\<lparr>next_step := STEP_CALLBACK, counter_result := rv,
      posted_finish := Suc (posted_finish c)\<rparr>)" if "rv \<noteq> pending env" "rv < 0 \<or> next_step c = STEP_CALLBACK" for c rv
    using that by (subst unfold) auto
  have wait: "count_internal env c (pending env) = Some c" for c
    by (subst unfold) simp
  have count: "count_internal env c rv =
      (if counter_backend c then count_internal env (c\<lparr>next_step := STEP_CALLBACK\<rparr>) (calculate_size_returns env)
       else None)" if "rv \<ge> 0" "next_step c = STEP_COUNT" for c rv
    using that laws(1) by (subst unfold) auto
  have start: "count_cache env = count_internal env
      \<lparr>next_step = STEP_COUNT, counter_result = 0, counter_backend = backend_set env, posted_finish = 0\<rparr>
      (get_backend_returns env)"
    unfolding count_cache_def using laws(1) by (subst unfold) (simp add: new_io_counter_def)
  show ?thesis
    using assms(2,3) laws
    by (cases "get_backend_returns env = pending env"; cases "calculate_size_returns env = pending env";
        cases "get_backend_returns env < 0"; cases "g < 0")
      (auto simp: whole_count_def counter_callback_def start wait finish count backend_def bytes_def
        final_result_def on_counting_finished_def on_cache_size_calculated_def not_less)
qed

definition plain_cache :: cache_env where
  "plain_cache = \<lparr>pending = -1, get_backend_returns = -1, backend_set = False, calculate_size_returns = 42,
     doom_entries_returns = -1\<rparr>"

theorem count_always_ends_witness:
  "\<exists>c. whole_count plain_cache 0 5 = Some c \<and> posted_finish c = 1 \<and> on_counting_finished c = Some 42"
  using count_always_ends [of plain_cache 0 5] by (simp add: plain_cache_def cache_laws_def final_result_def) blast

text \<open>
  Clearing the cache calls the client exactly once, whichever requests finish at once: with the
  result of the deletion when there is a backend, and otherwise with the error of the request for
  it.
\<close>

theorem clear_answers_once:
  assumes "cache_laws env" and "g \<noteq> pending env"
    and "backend = (final_result env (get_backend_returns env) g \<ge> 0)"
    and "get_backend_returns env \<noteq> pending env \<Longrightarrow> backend_set env = backend"
  shows "\<exists>s. whole_clear env backend g d = Some s \<and> quic_cleared s \<and> \<not> doom_running s
    \<and> client_callbacks s = [if backend then final_result env (doom_entries_returns env) d
                            else final_result env (get_backend_returns env) g]"
  using assms
  by (auto simp: whole_clear_def clear_http_cache_def clear_http_cache_on_io_thread_def doom_http_cache_def
      post_callback_def new_cache_clearer_def final_result_def cache_laws_def Let_def)

theorem clear_answers_once_witness:
  "\<exists>s. whole_clear plain_cache True 0 7 = Some s \<and> client_callbacks s = [7]"
  using clear_answers_once [of plain_cache 0 True 7]
  by (auto simp: plain_cache_def cache_laws_def final_result_def)

end
