(* ===== verification/DependencyGraph.thy ===== *)
theory DependencyGraph
  imports Prelude
begin

text \<open>
  Graphs of declared dependencies, in general: the locale \<open>dependency_graph\<close> has the declared
  dependencies of every service and a rank that they decrease, and shows what follows for the
  construction of the factories and for the orders in which the services may be shut down. It is
  interpreted on the factories in \<open>KeyedServicesFacts\<close>.
\<close>

section \<open>Construction of factories\<close>

text \<open>
  The first call of \<open>GetInstance\<close> constructs a factory, and its constructor calls \<open>GetInstance\<close> of
  every factory it depends on; a later call returns the factory. A call of \<open>GetInstance\<close> from
  within its own first call has no defined result and is \<^term>\<open>None\<close>, as is running out of fuel.
\<close>

fun get_instance :: "('s \<Rightarrow> 's list) \<Rightarrow> nat \<Rightarrow> 's list \<Rightarrow> 's \<Rightarrow> 's list \<Rightarrow> 's list option"
and get_instances :: "('s \<Rightarrow> 's list) \<Rightarrow> nat \<Rightarrow> 's list \<Rightarrow> 's list \<Rightarrow> 's list \<Rightarrow> 's list option" where
  "get_instance deps 0 busy s constructed = None"
| "get_instance deps (Suc n) busy s constructed =
     (if s \<in> set constructed then Some constructed
      else if s \<in> set busy then None
      else do {
        constructed' \<leftarrow> get_instances deps n (s # busy) (deps s) constructed;
        Some (constructed' @ [s]) })"
| "get_instances deps n busy [] constructed = Some constructed"
| "get_instances deps n busy (s # ss) constructed =
     do {
       constructed' \<leftarrow> get_instance deps n busy s constructed;
       get_instances deps n busy ss constructed' }"

section \<open>Orders\<close>

fun before :: "'s list \<Rightarrow> 's \<Rightarrow> 's \<Rightarrow> bool" where
  "before [] a b = False"
| "before (x # xs) a b = ((a = x \<and> b \<in> set xs) \<or> before xs a b)"

definition dependencies :: "('s \<Rightarrow> 's list) \<Rightarrow> ('s \<times> 's) set" where
  "dependencies deps = {(s, d). d \<in> set (deps s)}"

text \<open>An order in which services may be shut down: each before the services it depends on.\<close>

definition shutdown_order :: "('s \<Rightarrow> 's list) \<Rightarrow> 's list \<Rightarrow> bool" where
  "shutdown_order deps order \<longleftrightarrow>
     distinct order \<and> set order = UNIV \<and> (\<forall>(s, d) \<in> dependencies deps. before order s d)"

text \<open>A list in which everything comes after what it depends on.\<close>

definition dependencies_first :: "('s \<Rightarrow> 's list) \<Rightarrow> 's list \<Rightarrow> bool" where
  "dependencies_first deps xs \<longleftrightarrow>
     distinct xs \<and> (\<forall>us x vs. xs = us @ x # vs \<longrightarrow> set (deps x) \<subseteq> set us)"

lemma before_in_set: "before xs a b \<Longrightarrow> a \<in> set xs \<and> b \<in> set xs"
  by (induction xs) auto

lemma before_irrefl: "distinct xs \<Longrightarrow> \<not> before xs a a"
  by (induction xs) auto

lemma before_append_iff:
  "before (xs @ ys) a b \<longleftrightarrow> before xs a b \<or> (a \<in> set xs \<and> b \<in> set ys) \<or> before ys a b"
  by (induction xs) auto

lemma before_filter: "before xs a b \<Longrightarrow> P a \<Longrightarrow> P b \<Longrightarrow> before (filter P xs) a b"
  by (induction xs) auto

lemma before_trans: "distinct xs \<Longrightarrow> before xs a b \<Longrightarrow> before xs b c \<Longrightarrow> before xs a c"
  by (induction xs) (auto dest: before_in_set)

lemma before_asym: "distinct xs \<Longrightarrow> before xs a b \<Longrightarrow> \<not> before xs b a"
  using before_trans before_irrefl by metis

lemma before_total:
  "a \<in> set xs \<Longrightarrow> b \<in> set xs \<Longrightarrow> a \<noteq> b \<Longrightarrow> before xs a b \<or> before xs b a"
  by (induction xs) auto

lemma before_rev [simp]: "before (rev xs) a b \<longleftrightarrow> before xs b a"
  by (induction xs) (auto simp: before_append_iff dest: before_in_set)

lemma sorted_key_before:
  "sorted (map f xs) \<Longrightarrow> a \<in> set xs \<Longrightarrow> b \<in> set xs \<Longrightarrow> (f a :: nat) < f b \<Longrightarrow> before xs a b"
  by (induction xs) fastforce+

lemma dependencies_first_before:
  "dependencies_first deps xs \<Longrightarrow> s \<in> set xs \<Longrightarrow> d \<in> set (deps s) \<Longrightarrow> before xs d s"
proof -
  assume first: "dependencies_first deps xs" and s: "s \<in> set xs" and d: "d \<in> set (deps s)"
  from s obtain us vs where xs: "xs = us @ s # vs" by (meson split_list)
  with first d have "d \<in> set us" by (auto simp: dependencies_first_def)
  then show "before xs d s" using xs by (simp add: before_append_iff)
qed

lemma dependencies_first_snoc:
  "dependencies_first deps xs \<Longrightarrow> x \<notin> set xs \<Longrightarrow> set (deps x) \<subseteq> set xs \<Longrightarrow>
     dependencies_first deps (xs @ [x])"
  by (auto simp: dependencies_first_def append_eq_append_conv2 append_eq_Cons_conv Cons_eq_append_conv)

section \<open>The locale\<close>

locale dependency_graph =
  fixes deps :: "'s \<Rightarrow> 's list" and rank :: "'s \<Rightarrow> nat" and universe :: "'s list"
  assumes rank_decreases: "d \<in> set (deps s) \<Longrightarrow> rank d < rank s"
    and distinct_universe: "distinct universe"
    and set_universe: "set universe = UNIV"
begin

lemma rank_trancl: "(s, d) \<in> (dependencies deps)\<^sup>+ \<Longrightarrow> rank d < rank s"
  by (induction rule: trancl_induct) (auto simp: dependencies_def dest!: rank_decreases)

lemma acyclic_dependencies: "acyclic (dependencies deps)"
  using rank_trancl by (auto simp: acyclic_def)

lemma shutdown_order_exists: "shutdown_order deps (rev (sort_key rank universe))"
proof -
  have "before (sort_key rank universe) d s" if "d \<in> set (deps s)" for s d
    using rank_decreases [OF that] set_universe
    by (intro sorted_key_before [where f = rank]) auto
  then show ?thesis
    using distinct_universe set_universe by (auto simp: shutdown_order_def dependencies_def)
qed

lemma before_trancl:
  assumes "shutdown_order deps order" and "(s, d) \<in> (dependencies deps)\<^sup>+"
  shows "before order s d"
  using assms(2)
proof (induction rule: trancl_induct)
  case (base d)
  with assms(1) show ?case by (auto simp: shutdown_order_def)
next
  case (step d e)
  then have "before order d e" using assms(1) by (auto simp: shutdown_order_def)
  with step.IH assms(1) show ?case by (auto simp: shutdown_order_def intro: before_trans)
qed

text \<open>
  What does not depend on a service can be shut down after it: whatever depends on \<open>d\<close>, and \<open>d\<close>
  itself, are moved to the front of a given order.
\<close>

definition front :: "'s \<Rightarrow> 's list \<Rightarrow> 's list" where
  "front d order =
     filter (\<lambda>x. (x, d) \<in> (dependencies deps)\<^sup>*) order @ filter (\<lambda>x. (x, d) \<notin> (dependencies deps)\<^sup>*) order"

lemma shutdown_order_front:
  assumes "shutdown_order deps order"
  shows "shutdown_order deps (front d order)"
proof -
  let ?U = "\<lambda>x. (x, d) \<in> (dependencies deps)\<^sup>*"
  have "before (front d order) s e" if dep: "(s, e) \<in> dependencies deps" for s e
  proof -
    have sorted: "before order s e" using assms dep by (auto simp: shutdown_order_def)
    have up: "?U e \<Longrightarrow> ?U s" using dep by (rule converse_rtrancl_into_rtrancl)
    consider "?U e" | "\<not> ?U e" "?U s" | "\<not> ?U e" "\<not> ?U s" by blast
    then show ?thesis
    proof cases
      case 1
      with up sorted show ?thesis by (simp add: front_def before_append_iff before_filter)
    next
      case 2
      with sorted show ?thesis by (auto simp: front_def before_append_iff dest: before_in_set)
    next
      case 3
      with sorted show ?thesis by (simp add: front_def before_append_iff before_filter)
    qed
  qed
  then show ?thesis using assms by (auto simp: shutdown_order_def front_def)
qed

lemma guaranteed_iff:
  "(\<forall>order. shutdown_order deps order \<longrightarrow> before order s d) \<longleftrightarrow> (s, d) \<in> (dependencies deps)\<^sup>+"
proof
  assume all: "\<forall>order. shutdown_order deps order \<longrightarrow> before order s d"
  obtain order where order: "shutdown_order deps order" using shutdown_order_exists by blast
  show "(s, d) \<in> (dependencies deps)\<^sup>+"
  proof (rule ccontr)
    assume not: "(s, d) \<notin> (dependencies deps)\<^sup>+"
    have "distinct order" and "before order s d" using all order by (auto simp: shutdown_order_def)
    then have "s \<noteq> d" using before_irrefl by metis
    with not have "(s, d) \<notin> (dependencies deps)\<^sup>*" by (simp add: rtrancl_eq_or_trancl)
    then have "before (front d order) d s"
      using order by (auto simp: front_def before_append_iff shutdown_order_def)
    moreover have "before (front d order) s d" "distinct (front d order)"
      using all shutdown_order_front [OF order, of d] by (auto simp: shutdown_order_def)
    ultimately show False using before_asym by metis
  qed
next
  assume "(s, d) \<in> (dependencies deps)\<^sup>+"
  then show "\<forall>order. shutdown_order deps order \<longrightarrow> before order s d" using before_trancl by blast
qed

text \<open>The recursion of the constructors ends, and constructs exactly what can be reached.\<close>

definition reaches :: "'s list \<Rightarrow> 's set" where
  "reaches ss = (dependencies deps)\<^sup>* `` set ss"

lemma reaches_Cons: "reaches (s # ss) = reaches [s] \<union> reaches ss"
  by (auto simp: reaches_def)

lemma reaches_single: "reaches [s] = insert s (reaches (deps s))"
  by (auto simp: reaches_def dependencies_def elim: converse_rtranclE
      intro: converse_rtrancl_into_rtrancl)

lemma reaches_Nil [simp]: "reaches [] = {}"
  by (simp add: reaches_def)

text \<open>A list of what has been constructed that grows by exactly what \<open>ss\<close> reaches.\<close>

definition constructs :: "'s list \<Rightarrow> 's list \<Rightarrow> 's list option \<Rightarrow> bool" where
  "constructs ss built result \<longleftrightarrow>
     (\<exists>built'. result = Some built' \<and> dependencies_first deps built' \<and> set built' = set built \<union> reaches ss)"

lemma reaches_subset:
  "set ss \<subseteq> set built \<Longrightarrow> dependencies_first deps built \<Longrightarrow> reaches ss \<subseteq> set built"
proof
  fix x assume "set ss \<subseteq> set built" and first: "dependencies_first deps built" and "x \<in> reaches ss"
  then obtain s where "s \<in> set built" and "(s, x) \<in> (dependencies deps)\<^sup>*" by (auto simp: reaches_def)
  from this(2) this(1) show "x \<in> set built"
    by (induction rule: rtrancl_induct)
      (auto simp: dependencies_def dest: dependencies_first_before [OF first] before_in_set)
qed

lemma get_instances_constructs:
  assumes "\<And>s built. s \<in> set ss \<Longrightarrow> dependencies_first deps built \<Longrightarrow>
      constructs [s] built (get_instance deps n busy s built)"
    and "dependencies_first deps built"
  shows "constructs ss built (get_instances deps n busy ss built)"
  using assms
proof (induction ss arbitrary: built)
  case Nil
  then show ?case by (simp add: constructs_def)
next
  case (Cons s ss)
  have "constructs [s] built (get_instance deps n busy s built)"
    using Cons.prems(2) by (intro Cons.prems(1)) simp_all
  then obtain built1 where s: "get_instance deps n busy s built = Some built1"
      "dependencies_first deps built1" "set built1 = set built \<union> reaches [s]"
    by (auto simp: constructs_def)
  have "constructs ss built1 (get_instances deps n busy ss built1)"
    using Cons.prems(1) s(2) by (intro Cons.IH) auto
  with s show ?case by (auto simp: constructs_def reaches_Cons [of s ss])
qed

lemma get_instance_constructs:
  "rank s < n \<Longrightarrow> (\<And>x. x \<in> set busy \<Longrightarrow> rank s < rank x) \<Longrightarrow> dependencies_first deps built \<Longrightarrow>
     constructs [s] built (get_instance deps n busy s built)"
proof (induction n arbitrary: s busy built)
  case (Suc n)
  show ?case
  proof (cases "s \<in> set built")
    case True
    then show ?thesis using Suc.prems(3) reaches_subset [of "[s]" built] by (auto simp: constructs_def)
  next
    case False
    have idle: "s \<notin> set busy" using Suc.prems(2) by blast
    have "constructs (deps s) built (get_instances deps n (s # busy) (deps s) built)"
    proof (rule get_instances_constructs)
      fix d built' assume d: "d \<in> set (deps s)" and "dependencies_first deps built'"
      then show "constructs [d] built' (get_instance deps n (s # busy) d built')"
        using Suc.prems(1) rank_decreases [OF d] less_trans [OF rank_decreases [OF d] Suc.prems(2)]
        by (intro Suc.IH) auto
    qed (rule Suc.prems(3))
    then obtain built' where built': "get_instances deps n (s # busy) (deps s) built = Some built'"
        "dependencies_first deps built'" "set built' = set built \<union> reaches (deps s)"
      by (auto simp: constructs_def)
    have "s \<notin> reaches (deps s)"
    proof
      assume "s \<in> reaches (deps s)"
      then obtain d where "(s, d) \<in> dependencies deps" "(d, s) \<in> (dependencies deps)\<^sup>*"
        by (auto simp: reaches_def dependencies_def)
      then have "(s, s) \<in> (dependencies deps)\<^sup>+" by (rule rtrancl_into_trancl2)
      then show False using rank_trancl by blast
    qed
    moreover have "set (deps s) \<subseteq> set built'" using built'(3) by (auto simp: reaches_def)
    ultimately show ?thesis
      using built' False idle by (auto simp: constructs_def reaches_single dependencies_first_snoc)
  qed
qed simp

lemma construction_correct:
  assumes "\<And>s. s \<in> set ss \<Longrightarrow> rank s < n"
  shows "\<exists>built. get_instances deps n [] ss [] = Some built \<and> dependencies_first deps built \<and>
    set built = reaches ss"
proof -
  have "constructs ss [] (get_instances deps n [] ss [])"
    using assms by (intro get_instances_constructs get_instance_constructs)
      (auto simp: dependencies_first_def)
  then show ?thesis by (simp add: constructs_def)
qed

end

end
