(* ===== verification/KeyedServices.thy ===== *)
theory KeyedServices
  imports DependencyGraph
begin

text \<open>
  The keyed services of a browser state: the factories under \<open>chrome/browser\<close>, one record each,
  and the accessors through which the services reach one another.

  A factory is the singleton of a class; \<open>service\<close> names the classes. The constructor gives the
  name and declares the services the factory depends on, \<open>GetBrowserStateToUse\<close> says which
  instance an Incognito browser state gets, and \<open>BuildServiceInstanceFor\<close> builds the service.
  \<open>builds\<close> is the part of the latter that concerns other services: the lookups it makes, in the
  order of the text, together with the checks on the browser state, including those of the
  constructors of this repository that it calls. A lookup is \<open>Require\<close>d when its result is
  dereferenced or checked at once, \<open>Probe\<close>d when the code compares it with null first,
  \<open>Obtain\<close>ed when it is handed on to a constructor or a function outside the repository, and only
  \<open>Touch\<close>ed when it is dropped. Whether such a constructor takes a null is the parameter
  \<open>accepts_null\<close>: \<open>accepts_null s d\<close> when the one called for \<open>s\<close> does so for the argument \<open>d\<close>. Preferences, paths, task runners and network objects that are handed to the service are
  not part of the model. \<open>GetServiceForBrowserState\<close> and the default of \<open>GetBrowserStateToUse\<close>
  belong to the keyed service library, outside the repository: a lookup is the request made to it,
  and the default is the parameter \<open>default_state\<close>.
\<close>

named_theorems factory_defs "the records of the factories"

section \<open>Browser states\<close>

text \<open>A browser state is known by the number of its profile, with its Incognito counterpart.\<close>

datatype chrome_browser_state = Regular nat | OffTheRecord nat

fun is_off_the_record :: "chrome_browser_state \<Rightarrow> bool" where
  "is_off_the_record (Regular n) = False"
| "is_off_the_record (OffTheRecord n) = True"

fun get_original_chrome_browser_state :: "chrome_browser_state \<Rightarrow> chrome_browser_state" where
  "get_original_chrome_browser_state (Regular n) = Regular n"
| "get_original_chrome_browser_state (OffTheRecord n) = Regular n"

fun get_off_the_record_chrome_browser_state :: "chrome_browser_state \<Rightarrow> chrome_browser_state" where
  "get_off_the_record_chrome_browser_state (Regular n) = OffTheRecord n"
| "get_off_the_record_chrome_browser_state (OffTheRecord n) = OffTheRecord n"

definition get_browser_state_redirected_in_incognito ::
    "chrome_browser_state \<Rightarrow> chrome_browser_state" where
  "get_browser_state_redirected_in_incognito b = get_original_chrome_browser_state b"

definition get_browser_state_own_instance_in_incognito ::
    "chrome_browser_state \<Rightarrow> chrome_browser_state" where
  "get_browser_state_own_instance_in_incognito b = b"

text \<open>
  The destructor of a regular browser state, as the browser states whose services are destroyed,
  in order; the Incognito browser state goes last, when there is one.
\<close>

definition destroy_off_the_record_chrome_browser_state ::
    "nat \<Rightarrow> bool \<Rightarrow> chrome_browser_state list" where
  "destroy_off_the_record_chrome_browser_state n has_otr = (if has_otr then [OffTheRecord n] else [])"

definition destroy_chrome_browser_state :: "nat \<Rightarrow> bool \<Rightarrow> chrome_browser_state list" where
  "destroy_chrome_browser_state n has_otr =
     Regular n # destroy_off_the_record_chrome_browser_state n has_otr"

section \<open>Services\<close>

datatype (plugins only: ) service =
  AutocompleteClassifierFactory | InMemoryURLIndexFactory | ShortcutsBackendFactory |
  AutocompleteHistoryManagerFactory | AutofillLogRouterFactory | PersonalDataManagerFactory |
  StrikeDatabaseFactory | BookmarkModelFactory | BookmarkSyncServiceFactory |
  StartupTaskRunnerServiceFactory | BrowsingDataRemoverFactory | CookieSettingsFactory |
  HostContentSettingsMapFactory | BreadcrumbManagerKeyedServiceFactory |
  BreadcrumbPersistentStorageKeyedServiceFactory | DomDistillerServiceFactory |
  BrowserDownloadServiceFactory | ExternalFileRemoverFactory | FaviconServiceFactory |
  IOSChromeFaviconLoaderFactory | IOSChromeLargeIconCacheFactory |
  IOSChromeLargeIconServiceFactory | TrackerFactory |
  IOSChromeInstanceIDProfileServiceFactory | IOSChromeGCMProfileServiceFactory |
  GoogleLogoServiceFactory | HistoryServiceFactory | TopSitesFactory |
  WebHistoryServiceFactory | IOSChromeDeprecatedProfileInvalidationProviderFactory |
  IOSChromeProfileInvalidationProviderFactory | LanguageModelManagerFactory |
  UrlLanguageHistogramFactory | IOSProfileSessionDurationsServiceFactory |
  IOSChromeContentSuggestionsServiceFactory | IOSChromePasswordStoreFactory |
  IOSPasswordRequirementsServiceFactory | PasswordManagerLogRouterFactory |
  IOSCanMakePaymentQueryFactory | IOSPaymentInstrumentLauncherFactory |
  IOSPaymentRequestCacheFactory | PrerenderServiceFactory | ReadingListDownloadServiceFactory |
  ReadingListModelFactory | TemplateURLFetcherFactory | TemplateURLServiceFactory |
  SendTabToSelfClientServiceFactory | IOSChromeTabRestoreServiceFactory |
  TabRestoreServiceDelegateImplIOSFactory | ShareExtensionServiceFactory |
  AboutSigninInternalsFactory | AccountConsistencyServiceFactory | AccountReconcilorFactory |
  AuthenticationServiceFactory | IdentityManagerFactory |
  SigninBrowserStateInfoUpdaterFactory | SigninClientFactory | SigninErrorControllerFactory |
  SnapshotCacheFactory | SuggestionsServiceFactory | ConsentAuditorFactory |
  DeviceInfoSyncServiceFactory | IOSUserEventServiceFactory | ModelTypeStoreServiceFactory |
  ProfileSyncServiceFactory | SendTabToSelfSyncServiceFactory | SessionSyncServiceFactory |
  SyncSetupServiceFactory | TranslateAcceptLanguagesFactory | TranslateRankerFactory |
  FullscreenControllerFactory | TextToSpeechPlaybackControllerFactory |
  BookmarkUndoServiceFactory | UnifiedConsentServiceFactory | UrlLoadingNotifierFactory |
  UrlLoadingServiceFactory | WebStateListWebUsageEnablerFactory | WebDataServiceFactory

datatype access_type = ExplicitAccess | ImplicitAccess

text \<open>What an accessor does: the request it makes of the library, or no request, or a failed check.\<close>

datatype service_lookup =
    Lookup service chrome_browser_state bool
  | ReturnsNull service
  | ChecksFail

text \<open>The types of synced data that \<open>IOSChromeSyncClient\<close> tells apart; the rest are one.\<close>

datatype (plugins only: ) sync_model_type =
  syncer_PREFERENCES | syncer_PRIORITY_PREFERENCES | syncer_HISTORY_DELETE_DIRECTIVES |
  syncer_FAVICON_IMAGES | syncer_FAVICON_TRACKING | syncer_PASSWORDS | syncer_READING_LIST |
  syncer_USER_CONSENTS | syncer_USER_EVENTS | syncer_other_type

text \<open>The calls of the sync client that look a service up, as the sync service makes them.\<close>

datatype (plugins only: ) sync_client_call =
  GetModelTypeStoreService | GetDeviceInfoSyncService | GetSendTabToSelfSyncService |
  GetBookmarkModel | GetFaviconService | GetHistoryService | GetSessionSyncService |
  GetBookmarkUndoService | GetInvalidationService |
  GetSyncableServiceForType sync_model_type | GetControllerDelegateForModelType sync_model_type

text \<open>
  Preferences, command line and features the accessors and builders read, and what the sync service,
  outside the repository, calls of its client while it initializes itself.
\<close>

record environment =
  saving_browser_history_disabled :: "chrome_browser_state \<Rightarrow> bool"
  sync_allowed_by_flag :: bool
  account_wallet_storage_enabled :: bool
  do_not_sync_favicon_data_types :: bool
  sync_initialize_calls :: "sync_client_call list"
  content_suggestions_disabled :: bool
  article_suggestions_enabled :: bool

definition get_service :: "service \<Rightarrow> chrome_browser_state \<Rightarrow> service_lookup" where
  "get_service s b = Lookup s b True"

definition get_service_if_exists :: "service \<Rightarrow> chrome_browser_state \<Rightarrow> service_lookup" where
  "get_service_if_exists s b = Lookup s b False"

definition get_history_service ::
    "environment \<Rightarrow> chrome_browser_state \<Rightarrow> access_type \<Rightarrow> service_lookup" where
  "get_history_service env b access =
     (if access \<noteq> ExplicitAccess \<and> saving_browser_history_disabled env b then ReturnsNull HistoryServiceFactory
      else Lookup HistoryServiceFactory b True)"

definition get_history_service_if_exists ::
    "environment \<Rightarrow> chrome_browser_state \<Rightarrow> access_type \<Rightarrow> service_lookup" where
  "get_history_service_if_exists env b access =
     (if access \<noteq> ExplicitAccess \<and> saving_browser_history_disabled env b then ReturnsNull HistoryServiceFactory
      else Lookup HistoryServiceFactory b True)"

definition get_favicon_service :: "chrome_browser_state \<Rightarrow> access_type \<Rightarrow> service_lookup" where
  "get_favicon_service b access =
     (if \<not> is_off_the_record b then Lookup FaviconServiceFactory b True
      else if access = ExplicitAccess
      then Lookup FaviconServiceFactory (get_original_chrome_browser_state b) True
      else ChecksFail)"

definition get_web_data_service :: "chrome_browser_state \<Rightarrow> access_type \<Rightarrow> service_lookup" where
  "get_web_data_service b access =
     (if access = ExplicitAccess \<or> \<not> is_off_the_record b then Lookup WebDataServiceFactory b True
      else ChecksFail)"

definition get_web_data_service_if_exists ::
    "chrome_browser_state \<Rightarrow> access_type \<Rightarrow> service_lookup" where
  "get_web_data_service_if_exists b access =
     (if access = ExplicitAccess \<or> \<not> is_off_the_record b then Lookup WebDataServiceFactory b False
      else ChecksFail)"

definition get_password_store :: "chrome_browser_state \<Rightarrow> access_type \<Rightarrow> service_lookup" where
  "get_password_store b access =
     (if access = ImplicitAccess \<and> is_off_the_record b then ReturnsNull IOSChromePasswordStoreFactory
      else Lookup IOSChromePasswordStoreFactory b True)"

definition get_profile_sync_service :: "environment \<Rightarrow> chrome_browser_state \<Rightarrow> service_lookup" where
  "get_profile_sync_service env b =
     (if \<not> sync_allowed_by_flag env then ReturnsNull ProfileSyncServiceFactory
      else Lookup ProfileSyncServiceFactory b True)"

definition get_profile_sync_service_if_exists ::
    "environment \<Rightarrow> chrome_browser_state \<Rightarrow> service_lookup" where
  "get_profile_sync_service_if_exists env b =
     (if \<not> sync_allowed_by_flag env then ReturnsNull ProfileSyncServiceFactory
      else Lookup ProfileSyncServiceFactory b False)"

definition get_content_suggestions_service :: "chrome_browser_state \<Rightarrow> service_lookup" where
  "get_content_suggestions_service b =
     (if \<not> is_off_the_record b then Lookup IOSChromeContentSuggestionsServiceFactory b True
      else ChecksFail)"

text \<open>
  The web history service is looked up only while history sync is active, which the sync service,
  looked up first, says.
\<close>

definition get_web_history_service ::
    "environment \<Rightarrow> bool \<Rightarrow> chrome_browser_state \<Rightarrow> service_lookup list" where
  "get_web_history_service env history_sync_active b =
     get_profile_sync_service env b #
       (if sync_allowed_by_flag env \<and> history_sync_active then [Lookup WebHistoryServiceFactory b True]
        else [ReturnsNull WebHistoryServiceFactory])"

section \<open>Factories\<close>

datatype state_to_use = RedirectedInIncognito | OwnInstanceInIncognito | FrameworkDefault

datatype build_step =
    Obtain service_lookup
  | Probe service_lookup
  | Require service_lookup
  | Touch service_lookup
  | Check bool

text \<open>\<open>if_exists_creates\<close>: what \<open>GetForBrowserStateIfExists\<close>, where there is one, passes as \<open>create\<close>.\<close>

record factory =
  factory_name :: string
  depends_on :: "service list"
  state_to_use :: state_to_use
  if_exists_creates :: "bool option"
  null_while_testing :: bool
  created_with_browser_state :: bool
  registers_prefs :: bool
  builds :: "environment \<Rightarrow> chrome_browser_state \<Rightarrow> build_step list"

text \<open>The constructors and functions outside the factories that look services up for them.\<close>

definition new_autocomplete_provider_client ::
    "environment \<Rightarrow> chrome_browser_state \<Rightarrow> build_step list" where [factory_defs]:
  "new_autocomplete_provider_client env b = [Obtain (get_profile_sync_service env b)]"

definition new_ios_chrome_sync_client ::
    "environment \<Rightarrow> chrome_browser_state \<Rightarrow> build_step list" where [factory_defs]:
  "new_ios_chrome_sync_client env b =
     Obtain (get_web_data_service b ImplicitAccess)
     # (if account_wallet_storage_enabled env then [Obtain (get_web_data_service b ImplicitAccess)] else [])
     @ [Obtain (get_password_store b ImplicitAccess),
        Obtain (get_service BookmarkSyncServiceFactory b)]"

fun get_syncable_service_for_type ::
    "environment \<Rightarrow> chrome_browser_state \<Rightarrow> sync_model_type \<Rightarrow> build_step list" where
  "get_syncable_service_for_type env b syncer_PREFERENCES = []"
| "get_syncable_service_for_type env b syncer_PRIORITY_PREFERENCES = []"
| "get_syncable_service_for_type env b syncer_HISTORY_DELETE_DIRECTIVES =
     [Probe (get_history_service env b ExplicitAccess)]"
| "get_syncable_service_for_type env b syncer_FAVICON_IMAGES =
     (if \<not> do_not_sync_favicon_data_types env then [Require (get_service SessionSyncServiceFactory b)]
      else [Check False])"
| "get_syncable_service_for_type env b syncer_FAVICON_TRACKING =
     (if \<not> do_not_sync_favicon_data_types env then [Require (get_service SessionSyncServiceFactory b)]
      else [Check False])"
| "get_syncable_service_for_type env b syncer_PASSWORDS = []"
| "get_syncable_service_for_type env b type = [Check False]"

fun get_controller_delegate_for_model_type ::
    "chrome_browser_state \<Rightarrow> sync_model_type \<Rightarrow> build_step list" where
  "get_controller_delegate_for_model_type b syncer_READING_LIST =
     [Require (get_service ReadingListModelFactory b)]"
| "get_controller_delegate_for_model_type b syncer_USER_CONSENTS =
     [Require (get_service ConsentAuditorFactory b)]"
| "get_controller_delegate_for_model_type b syncer_USER_EVENTS =
     [Require (get_service IOSUserEventServiceFactory b)]"
| "get_controller_delegate_for_model_type b type = [Check False]"

text \<open>The calls of the client; each returns what it looked up to the sync service.\<close>

primrec sync_client_lookups ::
    "environment \<Rightarrow> chrome_browser_state \<Rightarrow> sync_client_call \<Rightarrow> build_step list" where
  "sync_client_lookups env b GetModelTypeStoreService =
     [Obtain (get_service ModelTypeStoreServiceFactory b)]"
| "sync_client_lookups env b GetDeviceInfoSyncService =
     [Obtain (get_service DeviceInfoSyncServiceFactory b)]"
| "sync_client_lookups env b GetSendTabToSelfSyncService =
     [Obtain (get_service SendTabToSelfSyncServiceFactory b)]"
| "sync_client_lookups env b GetBookmarkModel = [Obtain (get_service BookmarkModelFactory b)]"
| "sync_client_lookups env b GetFaviconService = [Obtain (get_favicon_service b ImplicitAccess)]"
| "sync_client_lookups env b GetHistoryService = [Obtain (get_history_service env b ExplicitAccess)]"
| "sync_client_lookups env b GetSessionSyncService = [Obtain (get_service SessionSyncServiceFactory b)]"
| "sync_client_lookups env b GetBookmarkUndoService = [Obtain (get_service BookmarkUndoServiceFactory b)]"
| "sync_client_lookups env b GetInvalidationService =
     [Probe (get_service IOSChromeProfileInvalidationProviderFactory b)]"
| "sync_client_lookups env b (GetSyncableServiceForType type) = get_syncable_service_for_type env b type"
| "sync_client_lookups env b (GetControllerDelegateForModelType type) =
     get_controller_delegate_for_model_type b type"

definition new_ios_chrome_local_session_event_router ::
    "environment \<Rightarrow> chrome_browser_state \<Rightarrow> build_step list" where [factory_defs]:
  "new_ios_chrome_local_session_event_router env b =
     [Probe (get_history_service env b ExplicitAccess)]"

definition create_content_suggestions_service ::
    "environment \<Rightarrow> chrome_browser_state \<Rightarrow> build_step list" where [factory_defs]:
  "create_content_suggestions_service env b =
     [Check (\<not> is_off_the_record b),
      Obtain (get_service IdentityManagerFactory b),
      Obtain (get_history_service env b ExplicitAccess),
      Obtain (get_service IOSChromeLargeIconServiceFactory b)]"

definition register_remote_suggestions_provider ::
    "environment \<Rightarrow> chrome_browser_state \<Rightarrow> build_step list" where [factory_defs]:
  "register_remote_suggestions_provider env b = [Require (get_service IdentityManagerFactory b)]"

definition create_content_suggestions_service_with_providers ::
    "environment \<Rightarrow> chrome_browser_state \<Rightarrow> build_step list" where [factory_defs]:
  "create_content_suggestions_service_with_providers env b =
     create_content_suggestions_service env b
     @ (if article_suggestions_enabled env then register_remote_suggestions_provider env b else [])"

definition autocomplete_classifier_factory :: factory where [factory_defs]:
  "autocomplete_classifier_factory =
    \<lparr>factory_name = ''AutocompleteClassifier'', depends_on = [InMemoryURLIndexFactory, TemplateURLServiceFactory, ShortcutsBackendFactory],
     state_to_use = RedirectedInIncognito, if_exists_creates = None,
     null_while_testing = True, created_with_browser_state = False, registers_prefs = False,
     builds = (\<lambda>env b. new_autocomplete_provider_client env b)\<rparr>"

definition in_memory_url_index_factory :: factory where [factory_defs]:
  "in_memory_url_index_factory =
    \<lparr>factory_name = ''InMemoryURLIndex'', depends_on = [BookmarkModelFactory, HistoryServiceFactory, TemplateURLServiceFactory],
     state_to_use = RedirectedInIncognito, if_exists_creates = None,
     null_while_testing = True, created_with_browser_state = False, registers_prefs = False,
     builds = (\<lambda>env b. [Obtain (get_service BookmarkModelFactory b),
        Obtain (get_history_service env b ImplicitAccess),
        Obtain (get_service TemplateURLServiceFactory b)])\<rparr>"

definition shortcuts_backend_factory :: factory where [factory_defs]:
  "shortcuts_backend_factory =
    \<lparr>factory_name = ''ShortcutsBackend'', depends_on = [HistoryServiceFactory, TemplateURLServiceFactory],
     state_to_use = FrameworkDefault, if_exists_creates = Some False,
     null_while_testing = True, created_with_browser_state = False, registers_prefs = False,
     builds = (\<lambda>env b. [Obtain (get_service TemplateURLServiceFactory b),
        Obtain (get_history_service env b ExplicitAccess)])\<rparr>"

definition autocomplete_history_manager_factory :: factory where [factory_defs]:
  "autocomplete_history_manager_factory =
    \<lparr>factory_name = ''AutocompleteHistoryManager'', depends_on = [WebDataServiceFactory],
     state_to_use = OwnInstanceInIncognito, if_exists_creates = None,
     null_while_testing = False, created_with_browser_state = False, registers_prefs = False,
     builds = (\<lambda>env b. [Obtain (get_web_data_service b ExplicitAccess)])\<rparr>"

definition autofill_log_router_factory :: factory where [factory_defs]:
  "autofill_log_router_factory =
    \<lparr>factory_name = ''AutofillInternalsService'', depends_on = [],
     state_to_use = FrameworkDefault, if_exists_creates = None,
     null_while_testing = False, created_with_browser_state = False, registers_prefs = False,
     builds = (\<lambda>env b. [])\<rparr>"

definition personal_data_manager_factory :: factory where [factory_defs]:
  "personal_data_manager_factory =
    \<lparr>factory_name = ''PersonalDataManager'', depends_on = [IdentityManagerFactory, HistoryServiceFactory, WebDataServiceFactory],
     state_to_use = FrameworkDefault, if_exists_creates = None,
     null_while_testing = False, created_with_browser_state = False, registers_prefs = False,
     builds = (\<lambda>env b. [Obtain (get_web_data_service b ExplicitAccess),
        Obtain (get_history_service env b ExplicitAccess),
        Obtain (get_service IdentityManagerFactory b)])\<rparr>"

definition strike_database_factory :: factory where [factory_defs]:
  "strike_database_factory =
    \<lparr>factory_name = ''AutofillStrikeDatabase'', depends_on = [],
     state_to_use = FrameworkDefault, if_exists_creates = None,
     null_while_testing = False, created_with_browser_state = False, registers_prefs = False,
     builds = (\<lambda>env b. [])\<rparr>"

definition bookmark_model_factory :: factory where [factory_defs]:
  "bookmark_model_factory =
    \<lparr>factory_name = ''BookmarkModel'', depends_on = [BookmarkUndoServiceFactory, StartupTaskRunnerServiceFactory],
     state_to_use = RedirectedInIncognito, if_exists_creates = Some False,
     null_while_testing = True, created_with_browser_state = False, registers_prefs = True,
     builds = (\<lambda>env b. [Obtain (get_service BookmarkSyncServiceFactory b),
        Require (get_service StartupTaskRunnerServiceFactory b),
        Require (get_service BookmarkUndoServiceFactory b)])\<rparr>"

definition bookmark_sync_service_factory :: factory where [factory_defs]:
  "bookmark_sync_service_factory =
    \<lparr>factory_name = ''BookmarkSyncServiceFactory'', depends_on = [BookmarkUndoServiceFactory],
     state_to_use = RedirectedInIncognito, if_exists_creates = None,
     null_while_testing = False, created_with_browser_state = False, registers_prefs = False,
     builds = (\<lambda>env b. [Obtain (get_service_if_exists BookmarkUndoServiceFactory b)])\<rparr>"

definition startup_task_runner_service_factory :: factory where [factory_defs]:
  "startup_task_runner_service_factory =
    \<lparr>factory_name = ''StartupTaskRunnerService'', depends_on = [],
     state_to_use = FrameworkDefault, if_exists_creates = None,
     null_while_testing = False, created_with_browser_state = False, registers_prefs = False,
     builds = (\<lambda>env b. [])\<rparr>"

definition browsing_data_remover_factory :: factory where [factory_defs]:
  "browsing_data_remover_factory =
    \<lparr>factory_name = ''BrowsingDataRemover'', depends_on = [],
     state_to_use = OwnInstanceInIncognito, if_exists_creates = Some False,
     null_while_testing = False, created_with_browser_state = False, registers_prefs = False,
     builds = (\<lambda>env b. [])\<rparr>"

definition cookie_settings_factory :: factory where [factory_defs]:
  "cookie_settings_factory =
    \<lparr>factory_name = ''CookieSettings'', depends_on = [HostContentSettingsMapFactory],
     state_to_use = OwnInstanceInIncognito, if_exists_creates = None,
     null_while_testing = False, created_with_browser_state = False, registers_prefs = True,
     builds = (\<lambda>env b. [Obtain (get_service HostContentSettingsMapFactory b)])\<rparr>"

definition host_content_settings_map_factory :: factory where [factory_defs]:
  "host_content_settings_map_factory =
    \<lparr>factory_name = ''HostContentSettingsMap'', depends_on = [],
     state_to_use = OwnInstanceInIncognito, if_exists_creates = None,
     null_while_testing = False, created_with_browser_state = False, registers_prefs = False,
     builds = (\<lambda>env b. (if is_off_the_record b
         then [Touch (get_service HostContentSettingsMapFactory (get_original_chrome_browser_state b))] else []))\<rparr>"

definition breadcrumb_manager_keyed_service_factory :: factory where [factory_defs]:
  "breadcrumb_manager_keyed_service_factory =
    \<lparr>factory_name = ''BreadcrumbManagerService'', depends_on = [],
     state_to_use = OwnInstanceInIncognito, if_exists_creates = None,
     null_while_testing = False, created_with_browser_state = False, registers_prefs = False,
     builds = (\<lambda>env b. [])\<rparr>"

definition breadcrumb_persistent_storage_keyed_service_factory :: factory where [factory_defs]:
  "breadcrumb_persistent_storage_keyed_service_factory =
    \<lparr>factory_name = ''BreadcrumbPersistentStorageService'', depends_on = [],
     state_to_use = OwnInstanceInIncognito, if_exists_creates = None,
     null_while_testing = False, created_with_browser_state = False, registers_prefs = False,
     builds = (\<lambda>env b. [])\<rparr>"

definition dom_distiller_service_factory :: factory where [factory_defs]:
  "dom_distiller_service_factory =
    \<lparr>factory_name = ''DomDistillerService'', depends_on = [],
     state_to_use = RedirectedInIncognito, if_exists_creates = None,
     null_while_testing = False, created_with_browser_state = False, registers_prefs = False,
     builds = (\<lambda>env b. [])\<rparr>"

definition browser_download_service_factory :: factory where [factory_defs]:
  "browser_download_service_factory =
    \<lparr>factory_name = ''BrowserDownloadService'', depends_on = [],
     state_to_use = OwnInstanceInIncognito, if_exists_creates = None,
     null_while_testing = False, created_with_browser_state = True, registers_prefs = False,
     builds = (\<lambda>env b. [])\<rparr>"

definition external_file_remover_factory :: factory where [factory_defs]:
  "external_file_remover_factory =
    \<lparr>factory_name = ''ExternalFileRemoverService'', depends_on = [IOSChromeTabRestoreServiceFactory],
     state_to_use = FrameworkDefault, if_exists_creates = None,
     null_while_testing = False, created_with_browser_state = False, registers_prefs = False,
     builds = (\<lambda>env b. [Require (get_service IOSChromeTabRestoreServiceFactory b)])\<rparr>"

definition favicon_service_factory :: factory where [factory_defs]:
  "favicon_service_factory =
    \<lparr>factory_name = ''FaviconService'', depends_on = [HistoryServiceFactory],
     state_to_use = FrameworkDefault, if_exists_creates = None,
     null_while_testing = True, created_with_browser_state = False, registers_prefs = False,
     builds = (\<lambda>env b. [Obtain (get_history_service env b ExplicitAccess)])\<rparr>"

definition ios_chrome_favicon_loader_factory :: factory where [factory_defs]:
  "ios_chrome_favicon_loader_factory =
    \<lparr>factory_name = ''FaviconLoader'', depends_on = [IOSChromeLargeIconServiceFactory],
     state_to_use = RedirectedInIncognito, if_exists_creates = Some False,
     null_while_testing = True, created_with_browser_state = False, registers_prefs = False,
     builds = (\<lambda>env b. [Obtain (get_service IOSChromeLargeIconServiceFactory b)])\<rparr>"

definition ios_chrome_large_icon_cache_factory :: factory where [factory_defs]:
  "ios_chrome_large_icon_cache_factory =
    \<lparr>factory_name = ''LargeIconCache'', depends_on = [],
     state_to_use = OwnInstanceInIncognito, if_exists_creates = None,
     null_while_testing = False, created_with_browser_state = False, registers_prefs = False,
     builds = (\<lambda>env b. [])\<rparr>"

definition ios_chrome_large_icon_service_factory :: factory where [factory_defs]:
  "ios_chrome_large_icon_service_factory =
    \<lparr>factory_name = ''LargeIconService'', depends_on = [FaviconServiceFactory],
     state_to_use = OwnInstanceInIncognito, if_exists_creates = None,
     null_while_testing = True, created_with_browser_state = False, registers_prefs = False,
     builds = (\<lambda>env b. [Obtain (get_favicon_service b ExplicitAccess)])\<rparr>"

definition tracker_factory :: factory where [factory_defs]:
  "tracker_factory =
    \<lparr>factory_name = ''feature_engagement::Tracker'', depends_on = [],
     state_to_use = RedirectedInIncognito, if_exists_creates = None,
     null_while_testing = False, created_with_browser_state = False, registers_prefs = False,
     builds = (\<lambda>env b. [])\<rparr>"

definition ios_chrome_instance_id_profile_service_factory :: factory where [factory_defs]:
  "ios_chrome_instance_id_profile_service_factory =
    \<lparr>factory_name = ''InstanceIDProfileService'', depends_on = [IOSChromeGCMProfileServiceFactory],
     state_to_use = FrameworkDefault, if_exists_creates = None,
     null_while_testing = False, created_with_browser_state = False, registers_prefs = False,
     builds = (\<lambda>env b. [Check (\<not> is_off_the_record b),
        Require (get_service IOSChromeGCMProfileServiceFactory b)])\<rparr>"

definition ios_chrome_gcm_profile_service_factory :: factory where [factory_defs]:
  "ios_chrome_gcm_profile_service_factory =
    \<lparr>factory_name = ''GCMProfileService'', depends_on = [IdentityManagerFactory],
     state_to_use = FrameworkDefault, if_exists_creates = None,
     null_while_testing = False, created_with_browser_state = False, registers_prefs = False,
     builds = (\<lambda>env b. [Check (\<not> is_off_the_record b),
        Obtain (get_service IdentityManagerFactory b)])\<rparr>"

definition google_logo_service_factory :: factory where [factory_defs]:
  "google_logo_service_factory =
    \<lparr>factory_name = ''GoogleLogoService'', depends_on = [TemplateURLServiceFactory, IdentityManagerFactory],
     state_to_use = OwnInstanceInIncognito, if_exists_creates = None,
     null_while_testing = False, created_with_browser_state = False, registers_prefs = False,
     builds = (\<lambda>env b. [Obtain (get_service TemplateURLServiceFactory b),
        Obtain (get_service IdentityManagerFactory b)])\<rparr>"

definition history_service_factory :: factory where [factory_defs]:
  "history_service_factory =
    \<lparr>factory_name = ''HistoryService'', depends_on = [BookmarkModelFactory],
     state_to_use = RedirectedInIncognito, if_exists_creates = Some True,
     null_while_testing = True, created_with_browser_state = False, registers_prefs = False,
     builds = (\<lambda>env b. [Obtain (get_service BookmarkModelFactory b)])\<rparr>"

definition top_sites_factory :: factory where [factory_defs]:
  "top_sites_factory =
    \<lparr>factory_name = ''TopSites'', depends_on = [HistoryServiceFactory],
     state_to_use = FrameworkDefault, if_exists_creates = None,
     null_while_testing = True, created_with_browser_state = False, registers_prefs = True,
     builds = (\<lambda>env b. [Obtain (get_history_service env b ExplicitAccess)])\<rparr>"

definition web_history_service_factory :: factory where [factory_defs]:
  "web_history_service_factory =
    \<lparr>factory_name = ''WebHistoryService'', depends_on = [ProfileSyncServiceFactory, IdentityManagerFactory],
     state_to_use = FrameworkDefault, if_exists_creates = None,
     null_while_testing = False, created_with_browser_state = False, registers_prefs = False,
     builds = (\<lambda>env b. [Obtain (get_service IdentityManagerFactory b)])\<rparr>"

definition ios_chrome_deprecated_profile_invalidation_provider_factory :: factory where [factory_defs]:
  "ios_chrome_deprecated_profile_invalidation_provider_factory =
    \<lparr>factory_name = ''InvalidationService'', depends_on = [IdentityManagerFactory, IOSChromeGCMProfileServiceFactory],
     state_to_use = FrameworkDefault, if_exists_creates = None,
     null_while_testing = False, created_with_browser_state = False, registers_prefs = True,
     builds = (\<lambda>env b. [Obtain (get_service IdentityManagerFactory b),
        Require (get_service IOSChromeGCMProfileServiceFactory b)])\<rparr>"

definition ios_chrome_profile_invalidation_provider_factory :: factory where [factory_defs]:
  "ios_chrome_profile_invalidation_provider_factory =
    \<lparr>factory_name = ''InvalidationService'', depends_on = [IdentityManagerFactory, IOSChromeGCMProfileServiceFactory, IOSChromeInstanceIDProfileServiceFactory],
     state_to_use = FrameworkDefault, if_exists_creates = None,
     null_while_testing = False, created_with_browser_state = False, registers_prefs = False,
     builds = (\<lambda>env b. [Obtain (get_service IdentityManagerFactory b),
        Require (get_service IOSChromeGCMProfileServiceFactory b),
        Require (get_service IOSChromeInstanceIDProfileServiceFactory b),
        Require (get_service IOSChromeInstanceIDProfileServiceFactory b)])\<rparr>"

definition language_model_manager_factory :: factory where [factory_defs]:
  "language_model_manager_factory =
    \<lparr>factory_name = ''LanguageModelManager'', depends_on = [],
     state_to_use = RedirectedInIncognito, if_exists_creates = None,
     null_while_testing = False, created_with_browser_state = False, registers_prefs = True,
     builds = (\<lambda>env b. [])\<rparr>"

definition url_language_histogram_factory :: factory where [factory_defs]:
  "url_language_histogram_factory =
    \<lparr>factory_name = ''UrlLanguageHistogram'', depends_on = [],
     state_to_use = FrameworkDefault, if_exists_creates = None,
     null_while_testing = False, created_with_browser_state = False, registers_prefs = True,
     builds = (\<lambda>env b. [])\<rparr>"

definition ios_profile_session_durations_service_factory :: factory where [factory_defs]:
  "ios_profile_session_durations_service_factory =
    \<lparr>factory_name = ''IOSProfileSessionDurationsService'', depends_on = [ProfileSyncServiceFactory, IdentityManagerFactory],
     state_to_use = RedirectedInIncognito, if_exists_creates = None,
     null_while_testing = True, created_with_browser_state = False, registers_prefs = False,
     builds = (\<lambda>env b. [Obtain (get_profile_sync_service env b),
        Obtain (get_service IdentityManagerFactory b)])\<rparr>"

definition ios_chrome_content_suggestions_service_factory :: factory where [factory_defs]:
  "ios_chrome_content_suggestions_service_factory =
    \<lparr>factory_name = ''ContentSuggestionsService'', depends_on = [IdentityManagerFactory, HistoryServiceFactory, IOSChromeLargeIconServiceFactory,
      ReadingListModelFactory],
     state_to_use = FrameworkDefault, if_exists_creates = None,
     null_while_testing = False, created_with_browser_state = False, registers_prefs = True,
     builds = (\<lambda>env b. (if content_suggestions_disabled env
         then create_content_suggestions_service env b
         else create_content_suggestions_service_with_providers env b))\<rparr>"

definition ios_chrome_password_store_factory :: factory where [factory_defs]:
  "ios_chrome_password_store_factory =
    \<lparr>factory_name = ''PasswordStore'', depends_on = [WebDataServiceFactory],
     state_to_use = RedirectedInIncognito, if_exists_creates = None,
     null_while_testing = True, created_with_browser_state = False, registers_prefs = False,
     builds = (\<lambda>env b. [])\<rparr>"

definition ios_password_requirements_service_factory :: factory where [factory_defs]:
  "ios_password_requirements_service_factory =
    \<lparr>factory_name = ''PasswordRequirementsServiceFactory'', depends_on = [],
     state_to_use = FrameworkDefault, if_exists_creates = None,
     null_while_testing = True, created_with_browser_state = False, registers_prefs = False,
     builds = (\<lambda>env b. [])\<rparr>"

definition password_manager_log_router_factory :: factory where [factory_defs]:
  "password_manager_log_router_factory =
    \<lparr>factory_name = ''PasswordManagerInternalsService'', depends_on = [],
     state_to_use = FrameworkDefault, if_exists_creates = None,
     null_while_testing = False, created_with_browser_state = False, registers_prefs = False,
     builds = (\<lambda>env b. [])\<rparr>"

definition ios_can_make_payment_query_factory :: factory where [factory_defs]:
  "ios_can_make_payment_query_factory =
    \<lparr>factory_name = ''CanMakePaymentQuery'', depends_on = [],
     state_to_use = FrameworkDefault, if_exists_creates = None,
     null_while_testing = False, created_with_browser_state = False, registers_prefs = False,
     builds = (\<lambda>env b. [])\<rparr>"

definition ios_payment_instrument_launcher_factory :: factory where [factory_defs]:
  "ios_payment_instrument_launcher_factory =
    \<lparr>factory_name = ''IOSPaymentInstrumentLauncher'', depends_on = [],
     state_to_use = FrameworkDefault, if_exists_creates = None,
     null_while_testing = False, created_with_browser_state = False, registers_prefs = False,
     builds = (\<lambda>env b. [])\<rparr>"

definition ios_payment_request_cache_factory :: factory where [factory_defs]:
  "ios_payment_request_cache_factory =
    \<lparr>factory_name = ''PaymentRequestCache'', depends_on = [],
     state_to_use = FrameworkDefault, if_exists_creates = None,
     null_while_testing = False, created_with_browser_state = False, registers_prefs = False,
     builds = (\<lambda>env b. [])\<rparr>"

definition prerender_service_factory :: factory where [factory_defs]:
  "prerender_service_factory =
    \<lparr>factory_name = ''PrerenderService'', depends_on = [],
     state_to_use = FrameworkDefault, if_exists_creates = None,
     null_while_testing = True, created_with_browser_state = False, registers_prefs = False,
     builds = (\<lambda>env b. [])\<rparr>"

definition reading_list_download_service_factory :: factory where [factory_defs]:
  "reading_list_download_service_factory =
    \<lparr>factory_name = ''ReadingListDownloadService'', depends_on = [ReadingListModelFactory, FaviconServiceFactory, HistoryServiceFactory],
     state_to_use = RedirectedInIncognito, if_exists_creates = None,
     null_while_testing = False, created_with_browser_state = False, registers_prefs = False,
     builds = (\<lambda>env b. [Obtain (get_service ReadingListModelFactory b)])\<rparr>"

definition reading_list_model_factory :: factory where [factory_defs]:
  "reading_list_model_factory =
    \<lparr>factory_name = ''ReadingListModel'', depends_on = [ModelTypeStoreServiceFactory],
     state_to_use = RedirectedInIncognito, if_exists_creates = Some False,
     null_while_testing = False, created_with_browser_state = False, registers_prefs = True,
     builds = (\<lambda>env b. [Require (get_service ModelTypeStoreServiceFactory b)])\<rparr>"

definition template_url_fetcher_factory :: factory where [factory_defs]:
  "template_url_fetcher_factory =
    \<lparr>factory_name = ''TemplateURLFetcher'', depends_on = [TemplateURLServiceFactory],
     state_to_use = RedirectedInIncognito, if_exists_creates = None,
     null_while_testing = False, created_with_browser_state = False, registers_prefs = False,
     builds = (\<lambda>env b. [Obtain (get_service TemplateURLServiceFactory b)])\<rparr>"

definition template_url_service_factory :: factory where [factory_defs]:
  "template_url_service_factory =
    \<lparr>factory_name = ''TemplateURLService'', depends_on = [HistoryServiceFactory, WebDataServiceFactory],
     state_to_use = RedirectedInIncognito, if_exists_creates = None,
     null_while_testing = True, created_with_browser_state = False, registers_prefs = True,
     builds = (\<lambda>env b. [Obtain (get_web_data_service b ExplicitAccess),
        Obtain (get_history_service env b ExplicitAccess)])\<rparr>"

definition send_tab_to_self_client_service_factory :: factory where [factory_defs]:
  "send_tab_to_self_client_service_factory =
    \<lparr>factory_name = ''SendTabToSelfClientService'', depends_on = [SendTabToSelfSyncServiceFactory],
     state_to_use = FrameworkDefault, if_exists_creates = None,
     null_while_testing = False, created_with_browser_state = False, registers_prefs = False,
     builds = (\<lambda>env b. [Require (get_service SendTabToSelfSyncServiceFactory b)])\<rparr>"

definition ios_chrome_tab_restore_service_factory :: factory where [factory_defs]:
  "ios_chrome_tab_restore_service_factory =
    \<lparr>factory_name = ''TabRestoreService'', depends_on = [],
     state_to_use = FrameworkDefault, if_exists_creates = None,
     null_while_testing = True, created_with_browser_state = False, registers_prefs = False,
     builds = (\<lambda>env b. [Check (\<not> is_off_the_record b)])\<rparr>"

definition tab_restore_service_delegate_impl_ios_factory :: factory where [factory_defs]:
  "tab_restore_service_delegate_impl_ios_factory =
    \<lparr>factory_name = ''TabRestoreServiceDelegateImplIOS'', depends_on = [],
     state_to_use = FrameworkDefault, if_exists_creates = None,
     null_while_testing = False, created_with_browser_state = False, registers_prefs = False,
     builds = (\<lambda>env b. [])\<rparr>"

definition share_extension_service_factory :: factory where [factory_defs]:
  "share_extension_service_factory =
    \<lparr>factory_name = ''ShareExtensionService'', depends_on = [BookmarkModelFactory, ReadingListModelFactory],
     state_to_use = RedirectedInIncognito, if_exists_creates = Some False,
     null_while_testing = False, created_with_browser_state = False, registers_prefs = False,
     builds = (\<lambda>env b. [Require (get_service BookmarkModelFactory b),
        Require (get_service ReadingListModelFactory b)])\<rparr>"

definition about_signin_internals_factory :: factory where [factory_defs]:
  "about_signin_internals_factory =
    \<lparr>factory_name = ''AboutSigninInternals'', depends_on = [IdentityManagerFactory, SigninClientFactory, SigninErrorControllerFactory],
     state_to_use = FrameworkDefault, if_exists_creates = None,
     null_while_testing = False, created_with_browser_state = False, registers_prefs = True,
     builds = (\<lambda>env b. [Obtain (get_service IdentityManagerFactory b),
        Obtain (get_service SigninErrorControllerFactory b),
        Obtain (get_service SigninClientFactory b)])\<rparr>"

definition account_consistency_service_factory :: factory where [factory_defs]:
  "account_consistency_service_factory =
    \<lparr>factory_name = ''AccountConsistencyService'', depends_on = [AccountReconcilorFactory, CookieSettingsFactory, IdentityManagerFactory],
     state_to_use = FrameworkDefault, if_exists_creates = None,
     null_while_testing = False, created_with_browser_state = False, registers_prefs = True,
     builds = (\<lambda>env b. [Obtain (get_service AccountReconcilorFactory b),
        Obtain (get_service CookieSettingsFactory b),
        Obtain (get_service IdentityManagerFactory b)])\<rparr>"

definition account_reconcilor_factory :: factory where [factory_defs]:
  "account_reconcilor_factory =
    \<lparr>factory_name = ''AccountReconcilor'', depends_on = [IdentityManagerFactory, SigninClientFactory],
     state_to_use = FrameworkDefault, if_exists_creates = None,
     null_while_testing = False, created_with_browser_state = False, registers_prefs = False,
     builds = (\<lambda>env b. [Obtain (get_service IdentityManagerFactory b),
        Obtain (get_service SigninClientFactory b)])\<rparr>"

definition authentication_service_factory :: factory where [factory_defs]:
  "authentication_service_factory =
    \<lparr>factory_name = ''AuthenticationService'', depends_on = [IdentityManagerFactory, SyncSetupServiceFactory, ProfileSyncServiceFactory],
     state_to_use = FrameworkDefault, if_exists_creates = None,
     null_while_testing = True, created_with_browser_state = False, registers_prefs = True,
     builds = (\<lambda>env b. [Require (get_service SyncSetupServiceFactory b),
        Require (get_service IdentityManagerFactory b),
        Require (get_profile_sync_service env b)])\<rparr>"

definition identity_manager_factory :: factory where [factory_defs]:
  "identity_manager_factory =
    \<lparr>factory_name = ''IdentityManager'', depends_on = [SigninClientFactory],
     state_to_use = FrameworkDefault, if_exists_creates = Some False,
     null_while_testing = False, created_with_browser_state = False, registers_prefs = True,
     builds = (\<lambda>env b. [Obtain (get_service SigninClientFactory b)])\<rparr>"

definition signin_browser_state_info_updater_factory :: factory where [factory_defs]:
  "signin_browser_state_info_updater_factory =
    \<lparr>factory_name = ''SigninBrowserStateInfoUpdater'', depends_on = [IdentityManagerFactory, SigninErrorControllerFactory],
     state_to_use = FrameworkDefault, if_exists_creates = None,
     null_while_testing = False, created_with_browser_state = True, registers_prefs = False,
     builds = (\<lambda>env b. [Require (get_service IdentityManagerFactory b),
        Require (get_service SigninErrorControllerFactory b)])\<rparr>"

definition signin_client_factory :: factory where [factory_defs]:
  "signin_client_factory =
    \<lparr>factory_name = ''SigninClient'', depends_on = [CookieSettingsFactory, HostContentSettingsMapFactory],
     state_to_use = FrameworkDefault, if_exists_creates = None,
     null_while_testing = False, created_with_browser_state = False, registers_prefs = False,
     builds = (\<lambda>env b. [Obtain (get_service CookieSettingsFactory b),
        Obtain (get_service HostContentSettingsMapFactory b)])\<rparr>"

definition signin_error_controller_factory :: factory where [factory_defs]:
  "signin_error_controller_factory =
    \<lparr>factory_name = ''SigninErrorController'', depends_on = [IdentityManagerFactory],
     state_to_use = FrameworkDefault, if_exists_creates = None,
     null_while_testing = False, created_with_browser_state = False, registers_prefs = False,
     builds = (\<lambda>env b. [Obtain (get_service IdentityManagerFactory b)])\<rparr>"

definition snapshot_cache_factory :: factory where [factory_defs]:
  "snapshot_cache_factory =
    \<lparr>factory_name = ''SnapshotCache'', depends_on = [],
     state_to_use = RedirectedInIncognito, if_exists_creates = None,
     null_while_testing = True, created_with_browser_state = False, registers_prefs = False,
     builds = (\<lambda>env b. [Check (\<not> is_off_the_record b)])\<rparr>"

definition suggestions_service_factory :: factory where [factory_defs]:
  "suggestions_service_factory =
    \<lparr>factory_name = ''SuggestionsService'', depends_on = [IdentityManagerFactory, ProfileSyncServiceFactory],
     state_to_use = FrameworkDefault, if_exists_creates = None,
     null_while_testing = False, created_with_browser_state = False, registers_prefs = True,
     builds = (\<lambda>env b. [Obtain (get_service IdentityManagerFactory b),
        Obtain (get_profile_sync_service env b)])\<rparr>"

definition consent_auditor_factory :: factory where [factory_defs]:
  "consent_auditor_factory =
    \<lparr>factory_name = ''ConsentAuditor'', depends_on = [ModelTypeStoreServiceFactory],
     state_to_use = FrameworkDefault, if_exists_creates = Some False,
     null_while_testing = False, created_with_browser_state = False, registers_prefs = True,
     builds = (\<lambda>env b. [Require (get_service ModelTypeStoreServiceFactory b)])\<rparr>"

definition device_info_sync_service_factory :: factory where [factory_defs]:
  "device_info_sync_service_factory =
    \<lparr>factory_name = ''DeviceInfoSyncService'', depends_on = [ModelTypeStoreServiceFactory],
     state_to_use = FrameworkDefault, if_exists_creates = None,
     null_while_testing = False, created_with_browser_state = False, registers_prefs = False,
     builds = (\<lambda>env b. [Require (get_service ModelTypeStoreServiceFactory b)])\<rparr>"

definition ios_user_event_service_factory :: factory where [factory_defs]:
  "ios_user_event_service_factory =
    \<lparr>factory_name = ''UserEventService'', depends_on = [ModelTypeStoreServiceFactory, SessionSyncServiceFactory],
     state_to_use = OwnInstanceInIncognito, if_exists_creates = None,
     null_while_testing = False, created_with_browser_state = False, registers_prefs = False,
     builds = (\<lambda>env b. (if is_off_the_record b then []
         else [Require (get_service ModelTypeStoreServiceFactory b), Require (get_service SessionSyncServiceFactory b)]))\<rparr>"

definition model_type_store_service_factory :: factory where [factory_defs]:
  "model_type_store_service_factory =
    \<lparr>factory_name = ''ModelTypeStoreService'', depends_on = [],
     state_to_use = RedirectedInIncognito, if_exists_creates = None,
     null_while_testing = False, created_with_browser_state = False, registers_prefs = False,
     builds = (\<lambda>env b. [])\<rparr>"

definition profile_sync_service_factory :: factory where [factory_defs]:
  "profile_sync_service_factory =
    \<lparr>factory_name = ''ProfileSyncService'', depends_on = [PersonalDataManagerFactory, ConsentAuditorFactory, DeviceInfoSyncServiceFactory,
      AboutSigninInternalsFactory, BookmarkModelFactory, BookmarkSyncServiceFactory,
      BookmarkUndoServiceFactory, FaviconServiceFactory, HistoryServiceFactory,
      TemplateURLServiceFactory, WebDataServiceFactory, IdentityManagerFactory,
      IOSChromeGCMProfileServiceFactory, IOSChromePasswordStoreFactory, IOSChromeProfileInvalidationProviderFactory,
      IOSChromeDeprecatedProfileInvalidationProviderFactory, IOSUserEventServiceFactory, ModelTypeStoreServiceFactory,
      ReadingListModelFactory, SessionSyncServiceFactory],
     state_to_use = FrameworkDefault, if_exists_creates = Some False,
     null_while_testing = False, created_with_browser_state = False, registers_prefs = False,
     builds = (\<lambda>env b. [Touch (get_service IOSChromeGCMProfileServiceFactory b), Touch (get_service AboutSigninInternalsFactory b), Obtain (get_service IdentityManagerFactory b)]
        @ new_ios_chrome_sync_client env b
        @ [Probe (get_service IOSChromeProfileInvalidationProviderFactory b),
           Probe (get_service IOSChromeDeprecatedProfileInvalidationProviderFactory b)]
        @ concat (map (sync_client_lookups env b) (sync_initialize_calls env))
        @ [Require (get_service PersonalDataManagerFactory b)])\<rparr>"

definition send_tab_to_self_sync_service_factory :: factory where [factory_defs]:
  "send_tab_to_self_sync_service_factory =
    \<lparr>factory_name = ''SendTabToSelfSyncService'', depends_on = [ModelTypeStoreServiceFactory, HistoryServiceFactory, DeviceInfoSyncServiceFactory],
     state_to_use = FrameworkDefault, if_exists_creates = None,
     null_while_testing = False, created_with_browser_state = False, registers_prefs = False,
     builds = (\<lambda>env b. [Require (get_service ModelTypeStoreServiceFactory b),
        Obtain (get_history_service env b ExplicitAccess),
        Require (get_service DeviceInfoSyncServiceFactory b)])\<rparr>"

definition session_sync_service_factory :: factory where [factory_defs]:
  "session_sync_service_factory =
    \<lparr>factory_name = ''SessionSyncService'', depends_on = [FaviconServiceFactory, HistoryServiceFactory, ModelTypeStoreServiceFactory],
     state_to_use = FrameworkDefault, if_exists_creates = None,
     null_while_testing = False, created_with_browser_state = False, registers_prefs = False,
     builds = (\<lambda>env b. new_ios_chrome_local_session_event_router env b)\<rparr>"

definition sync_setup_service_factory :: factory where [factory_defs]:
  "sync_setup_service_factory =
    \<lparr>factory_name = ''SyncSetupService'', depends_on = [ProfileSyncServiceFactory],
     state_to_use = FrameworkDefault, if_exists_creates = Some False,
     null_while_testing = False, created_with_browser_state = False, registers_prefs = False,
     builds = (\<lambda>env b. [Require (get_profile_sync_service env b)])\<rparr>"

definition translate_accept_languages_factory :: factory where [factory_defs]:
  "translate_accept_languages_factory =
    \<lparr>factory_name = ''TranslateAcceptLanguagesService'', depends_on = [],
     state_to_use = RedirectedInIncognito, if_exists_creates = None,
     null_while_testing = False, created_with_browser_state = False, registers_prefs = False,
     builds = (\<lambda>env b. [])\<rparr>"

definition translate_ranker_factory :: factory where [factory_defs]:
  "translate_ranker_factory =
    \<lparr>factory_name = ''TranslateRankerService'', depends_on = [],
     state_to_use = RedirectedInIncognito, if_exists_creates = None,
     null_while_testing = False, created_with_browser_state = False, registers_prefs = False,
     builds = (\<lambda>env b. [])\<rparr>"

definition fullscreen_controller_factory :: factory where [factory_defs]:
  "fullscreen_controller_factory =
    \<lparr>factory_name = ''FullscreenController'', depends_on = [],
     state_to_use = RedirectedInIncognito, if_exists_creates = None,
     null_while_testing = False, created_with_browser_state = False, registers_prefs = False,
     builds = (\<lambda>env b. [])\<rparr>"

definition text_to_speech_playback_controller_factory :: factory where [factory_defs]:
  "text_to_speech_playback_controller_factory =
    \<lparr>factory_name = ''TextToSpeechPlaybackController'', depends_on = [],
     state_to_use = OwnInstanceInIncognito, if_exists_creates = None,
     null_while_testing = False, created_with_browser_state = False, registers_prefs = False,
     builds = (\<lambda>env b. [])\<rparr>"

definition bookmark_undo_service_factory :: factory where [factory_defs]:
  "bookmark_undo_service_factory =
    \<lparr>factory_name = ''BookmarkUndoService'', depends_on = [],
     state_to_use = FrameworkDefault, if_exists_creates = Some False,
     null_while_testing = False, created_with_browser_state = False, registers_prefs = False,
     builds = (\<lambda>env b. [])\<rparr>"

definition unified_consent_service_factory :: factory where [factory_defs]:
  "unified_consent_service_factory =
    \<lparr>factory_name = ''UnifiedConsentService'', depends_on = [IdentityManagerFactory, ProfileSyncServiceFactory],
     state_to_use = FrameworkDefault, if_exists_creates = Some False,
     null_while_testing = False, created_with_browser_state = False, registers_prefs = False,
     builds = (\<lambda>env b. [Obtain (get_service IdentityManagerFactory b),
        Obtain (get_profile_sync_service env b)])\<rparr>"

definition url_loading_notifier_factory :: factory where [factory_defs]:
  "url_loading_notifier_factory =
    \<lparr>factory_name = ''UrlLoadingNotifier'', depends_on = [],
     state_to_use = OwnInstanceInIncognito, if_exists_creates = None,
     null_while_testing = False, created_with_browser_state = False, registers_prefs = False,
     builds = (\<lambda>env b. [])\<rparr>"

definition url_loading_service_factory :: factory where [factory_defs]:
  "url_loading_service_factory =
    \<lparr>factory_name = ''UrlLoadingService'', depends_on = [UrlLoadingNotifierFactory],
     state_to_use = OwnInstanceInIncognito, if_exists_creates = None,
     null_while_testing = False, created_with_browser_state = False, registers_prefs = False,
     builds = (\<lambda>env b. [Obtain (get_service UrlLoadingNotifierFactory b)])\<rparr>"

definition web_state_list_web_usage_enabler_factory :: factory where [factory_defs]:
  "web_state_list_web_usage_enabler_factory =
    \<lparr>factory_name = ''WebStateListWebUsageEnabler'', depends_on = [],
     state_to_use = OwnInstanceInIncognito, if_exists_creates = None,
     null_while_testing = False, created_with_browser_state = False, registers_prefs = False,
     builds = (\<lambda>env b. [])\<rparr>"

definition web_data_service_factory :: factory where [factory_defs]:
  "web_data_service_factory =
    \<lparr>factory_name = ''WebDataService'', depends_on = [],
     state_to_use = RedirectedInIncognito, if_exists_creates = Some False,
     null_while_testing = True, created_with_browser_state = False, registers_prefs = False,
     builds = (\<lambda>env b. [])\<rparr>"

primrec factory_of :: "service \<Rightarrow> factory" where
  "factory_of AutocompleteClassifierFactory = autocomplete_classifier_factory"
| "factory_of InMemoryURLIndexFactory = in_memory_url_index_factory"
| "factory_of ShortcutsBackendFactory = shortcuts_backend_factory"
| "factory_of AutocompleteHistoryManagerFactory = autocomplete_history_manager_factory"
| "factory_of AutofillLogRouterFactory = autofill_log_router_factory"
| "factory_of PersonalDataManagerFactory = personal_data_manager_factory"
| "factory_of StrikeDatabaseFactory = strike_database_factory"
| "factory_of BookmarkModelFactory = bookmark_model_factory"
| "factory_of BookmarkSyncServiceFactory = bookmark_sync_service_factory"
| "factory_of StartupTaskRunnerServiceFactory = startup_task_runner_service_factory"
| "factory_of BrowsingDataRemoverFactory = browsing_data_remover_factory"
| "factory_of CookieSettingsFactory = cookie_settings_factory"
| "factory_of HostContentSettingsMapFactory = host_content_settings_map_factory"
| "factory_of BreadcrumbManagerKeyedServiceFactory = breadcrumb_manager_keyed_service_factory"
| "factory_of BreadcrumbPersistentStorageKeyedServiceFactory = breadcrumb_persistent_storage_keyed_service_factory"
| "factory_of DomDistillerServiceFactory = dom_distiller_service_factory"
| "factory_of BrowserDownloadServiceFactory = browser_download_service_factory"
| "factory_of ExternalFileRemoverFactory = external_file_remover_factory"
| "factory_of FaviconServiceFactory = favicon_service_factory"
| "factory_of IOSChromeFaviconLoaderFactory = ios_chrome_favicon_loader_factory"
| "factory_of IOSChromeLargeIconCacheFactory = ios_chrome_large_icon_cache_factory"
| "factory_of IOSChromeLargeIconServiceFactory = ios_chrome_large_icon_service_factory"
| "factory_of TrackerFactory = tracker_factory"
| "factory_of IOSChromeInstanceIDProfileServiceFactory = ios_chrome_instance_id_profile_service_factory"
| "factory_of IOSChromeGCMProfileServiceFactory = ios_chrome_gcm_profile_service_factory"
| "factory_of GoogleLogoServiceFactory = google_logo_service_factory"
| "factory_of HistoryServiceFactory = history_service_factory"
| "factory_of TopSitesFactory = top_sites_factory"
| "factory_of WebHistoryServiceFactory = web_history_service_factory"
| "factory_of IOSChromeDeprecatedProfileInvalidationProviderFactory = ios_chrome_deprecated_profile_invalidation_provider_factory"
| "factory_of IOSChromeProfileInvalidationProviderFactory = ios_chrome_profile_invalidation_provider_factory"
| "factory_of LanguageModelManagerFactory = language_model_manager_factory"
| "factory_of UrlLanguageHistogramFactory = url_language_histogram_factory"
| "factory_of IOSProfileSessionDurationsServiceFactory = ios_profile_session_durations_service_factory"
| "factory_of IOSChromeContentSuggestionsServiceFactory = ios_chrome_content_suggestions_service_factory"
| "factory_of IOSChromePasswordStoreFactory = ios_chrome_password_store_factory"
| "factory_of IOSPasswordRequirementsServiceFactory = ios_password_requirements_service_factory"
| "factory_of PasswordManagerLogRouterFactory = password_manager_log_router_factory"
| "factory_of IOSCanMakePaymentQueryFactory = ios_can_make_payment_query_factory"
| "factory_of IOSPaymentInstrumentLauncherFactory = ios_payment_instrument_launcher_factory"
| "factory_of IOSPaymentRequestCacheFactory = ios_payment_request_cache_factory"
| "factory_of PrerenderServiceFactory = prerender_service_factory"
| "factory_of ReadingListDownloadServiceFactory = reading_list_download_service_factory"
| "factory_of ReadingListModelFactory = reading_list_model_factory"
| "factory_of TemplateURLFetcherFactory = template_url_fetcher_factory"
| "factory_of TemplateURLServiceFactory = template_url_service_factory"
| "factory_of SendTabToSelfClientServiceFactory = send_tab_to_self_client_service_factory"
| "factory_of IOSChromeTabRestoreServiceFactory = ios_chrome_tab_restore_service_factory"
| "factory_of TabRestoreServiceDelegateImplIOSFactory = tab_restore_service_delegate_impl_ios_factory"
| "factory_of ShareExtensionServiceFactory = share_extension_service_factory"
| "factory_of AboutSigninInternalsFactory = about_signin_internals_factory"
| "factory_of AccountConsistencyServiceFactory = account_consistency_service_factory"
| "factory_of AccountReconcilorFactory = account_reconcilor_factory"
| "factory_of AuthenticationServiceFactory = authentication_service_factory"
| "factory_of IdentityManagerFactory = identity_manager_factory"
| "factory_of SigninBrowserStateInfoUpdaterFactory = signin_browser_state_info_updater_factory"
| "factory_of SigninClientFactory = signin_client_factory"
| "factory_of SigninErrorControllerFactory = signin_error_controller_factory"
| "factory_of SnapshotCacheFactory = snapshot_cache_factory"
| "factory_of SuggestionsServiceFactory = suggestions_service_factory"
| "factory_of ConsentAuditorFactory = consent_auditor_factory"
| "factory_of DeviceInfoSyncServiceFactory = device_info_sync_service_factory"
| "factory_of IOSUserEventServiceFactory = ios_user_event_service_factory"
| "factory_of ModelTypeStoreServiceFactory = model_type_store_service_factory"
| "factory_of ProfileSyncServiceFactory = profile_sync_service_factory"
| "factory_of SendTabToSelfSyncServiceFactory = send_tab_to_self_sync_service_factory"
| "factory_of SessionSyncServiceFactory = session_sync_service_factory"
| "factory_of SyncSetupServiceFactory = sync_setup_service_factory"
| "factory_of TranslateAcceptLanguagesFactory = translate_accept_languages_factory"
| "factory_of TranslateRankerFactory = translate_ranker_factory"
| "factory_of FullscreenControllerFactory = fullscreen_controller_factory"
| "factory_of TextToSpeechPlaybackControllerFactory = text_to_speech_playback_controller_factory"
| "factory_of BookmarkUndoServiceFactory = bookmark_undo_service_factory"
| "factory_of UnifiedConsentServiceFactory = unified_consent_service_factory"
| "factory_of UrlLoadingNotifierFactory = url_loading_notifier_factory"
| "factory_of UrlLoadingServiceFactory = url_loading_service_factory"
| "factory_of WebStateListWebUsageEnablerFactory = web_state_list_web_usage_enabler_factory"
| "factory_of WebDataServiceFactory = web_data_service_factory"

definition get_browser_state_to_use ::
    "(chrome_browser_state \<Rightarrow> chrome_browser_state option) \<Rightarrow> service \<Rightarrow> chrome_browser_state
      \<Rightarrow> chrome_browser_state option" where
  "get_browser_state_to_use default_state s b =
     (case state_to_use (factory_of s) of
        RedirectedInIncognito \<Rightarrow> Some (get_browser_state_redirected_in_incognito b)
      | OwnInstanceInIncognito \<Rightarrow> Some (get_browser_state_own_instance_in_incognito b)
      | FrameworkDefault \<Rightarrow> default_state b)"

section \<open>Construction of the factories\<close>

definition registered_factories :: "service list" where
  "registered_factories =
    [PersonalDataManagerFactory, DomDistillerServiceFactory, TrackerFactory,
     AboutSigninInternalsFactory, AccountConsistencyServiceFactory, AccountReconcilorFactory,
     AutocompleteClassifierFactory, BookmarkModelFactory, BookmarkUndoServiceFactory,
     CookieSettingsFactory, FaviconServiceFactory, HistoryServiceFactory,
     InMemoryURLIndexFactory, ShortcutsBackendFactory, SigninErrorControllerFactory,
     StartupTaskRunnerServiceFactory, TemplateURLServiceFactory, TopSitesFactory,
     WebDataServiceFactory, WebHistoryServiceFactory, TranslateRankerFactory,
     SuggestionsServiceFactory, AuthenticationServiceFactory,
     BreadcrumbManagerKeyedServiceFactory, BreadcrumbPersistentStorageKeyedServiceFactory,
     BrowserDownloadServiceFactory, BrowsingDataRemoverFactory, ConsentAuditorFactory,
     FullscreenControllerFactory, GoogleLogoServiceFactory, IdentityManagerFactory,
     IOSChromeContentSuggestionsServiceFactory,
     IOSChromeDeprecatedProfileInvalidationProviderFactory, IOSChromeFaviconLoaderFactory,
     IOSChromeGCMProfileServiceFactory, IOSChromeLargeIconCacheFactory,
     IOSChromeLargeIconServiceFactory, IOSChromePasswordStoreFactory,
     IOSProfileSessionDurationsServiceFactory, IOSUserEventServiceFactory,
     LanguageModelManagerFactory, ModelTypeStoreServiceFactory, ProfileSyncServiceFactory,
     ReadingListModelFactory, SendTabToSelfClientServiceFactory,
     SigninBrowserStateInfoUpdaterFactory, SigninClientFactory, SnapshotCacheFactory,
     SyncSetupServiceFactory, TabRestoreServiceDelegateImplIOSFactory,
     TextToSpeechPlaybackControllerFactory, TranslateAcceptLanguagesFactory,
     UnifiedConsentServiceFactory, UrlLanguageHistogramFactory,
     WebStateListWebUsageEnablerFactory]"

definition construction_fuel :: nat where
  "construction_fuel = 78"

definition declared :: "service \<Rightarrow> service list" where
  "declared s = depends_on (factory_of s)"

definition ensure_browser_state_keyed_service_factories_built :: "service list option" where
  "ensure_browser_state_keyed_service_factories_built =
     get_instances declared construction_fuel [] registered_factories []"

section \<open>What building a service asks for\<close>

fun step_lookups :: "build_step \<Rightarrow> service_lookup list" where
  "step_lookups (Obtain l) = [l]"
| "step_lookups (Probe l) = [l]"
| "step_lookups (Require l) = [l]"
| "step_lookups (Touch l) = [l]"
| "step_lookups (Check c) = []"

fun held_lookups :: "build_step \<Rightarrow> service_lookup list" where
  "held_lookups (Obtain l) = [l]"
| "held_lookups (Probe l) = [l]"
| "held_lookups (Require l) = [l]"
| "held_lookups (Touch l) = []"
| "held_lookups (Check c) = []"

text \<open>
  Whether a lookup is sure of a result: it finds an instance, or makes one, in the browser state it is
  resolved to. One that does not create may find none.
\<close>

fun found :: "(chrome_browser_state \<Rightarrow> chrome_browser_state option) \<Rightarrow> service_lookup \<Rightarrow> bool" where
  "found default_state (Lookup s b create) = (create \<and> get_browser_state_to_use default_state s b \<noteq> None)"
| "found default_state (ReturnsNull s) = False"
| "found default_state ChecksFail = False"

text \<open>What is handed on to a constructor outside the repository is sure of a result, or may be null there.\<close>

fun handed_on ::
    "(service \<Rightarrow> bool) \<Rightarrow> (chrome_browser_state \<Rightarrow> chrome_browser_state option) \<Rightarrow> service_lookup \<Rightarrow> bool" where
  "handed_on accepts default_state (Lookup d b create) =
     (found default_state (Lookup d b create) \<or> accepts d)"
| "handed_on accepts default_state (ReturnsNull d) = accepts d"
| "handed_on accepts default_state ChecksFail = False"

fun step_succeeds ::
    "(service \<Rightarrow> bool) \<Rightarrow> (chrome_browser_state \<Rightarrow> chrome_browser_state option) \<Rightarrow> build_step \<Rightarrow> bool" where
  "step_succeeds accepts default_state (Obtain l) = handed_on accepts default_state l"
| "step_succeeds accepts default_state (Probe l) = (l \<noteq> ChecksFail)"
| "step_succeeds accepts default_state (Require l) = found default_state l"
| "step_succeeds accepts default_state (Touch l) = (l \<noteq> ChecksFail)"
| "step_succeeds accepts default_state (Check c) = c"

definition build_succeeds ::
    "(service \<Rightarrow> service \<Rightarrow> bool) \<Rightarrow> (chrome_browser_state \<Rightarrow> chrome_browser_state option) \<Rightarrow> environment
      \<Rightarrow> service \<Rightarrow> chrome_browser_state \<Rightarrow> bool" where
  "build_succeeds accepts_null default_state env s b =
     list_all (step_succeeds (accepts_null s) default_state) (builds (factory_of s) env b)"

end
