(* ===== verification/KeyedServicesFacts.thy ===== *)
theory KeyedServicesFacts
  imports KeyedServices
begin

text \<open>
  What the declarations of the factories guarantee: the construction of the factories and of the
  services ends, a service outlives the services built on it exactly where that is declared, no
  check fails while a service is built, and what the order of the two browser states in the
  destructor means for Incognito.
\<close>

section \<open>The graph of the factories\<close>

primrec service_rank :: "service \<Rightarrow> nat" where
  "service_rank AutocompleteClassifierFactory = 9"
| "service_rank InMemoryURLIndexFactory = 6"
| "service_rank ShortcutsBackendFactory = 6"
| "service_rank AutocompleteHistoryManagerFactory = 2"
| "service_rank AutofillLogRouterFactory = 1"
| "service_rank PersonalDataManagerFactory = 5"
| "service_rank StrikeDatabaseFactory = 1"
| "service_rank BookmarkModelFactory = 3"
| "service_rank BookmarkSyncServiceFactory = 2"
| "service_rank StartupTaskRunnerServiceFactory = 1"
| "service_rank BrowsingDataRemoverFactory = 1"
| "service_rank CookieSettingsFactory = 2"
| "service_rank HostContentSettingsMapFactory = 1"
| "service_rank BreadcrumbManagerKeyedServiceFactory = 1"
| "service_rank BreadcrumbPersistentStorageKeyedServiceFactory = 1"
| "service_rank DomDistillerServiceFactory = 1"
| "service_rank BrowserDownloadServiceFactory = 1"
| "service_rank ExternalFileRemoverFactory = 2"
| "service_rank FaviconServiceFactory = 5"
| "service_rank IOSChromeFaviconLoaderFactory = 7"
| "service_rank IOSChromeLargeIconCacheFactory = 1"
| "service_rank IOSChromeLargeIconServiceFactory = 6"
| "service_rank TrackerFactory = 1"
| "service_rank IOSChromeInstanceIDProfileServiceFactory = 6"
| "service_rank IOSChromeGCMProfileServiceFactory = 5"
| "service_rank GoogleLogoServiceFactory = 6"
| "service_rank HistoryServiceFactory = 4"
| "service_rank TopSitesFactory = 5"
| "service_rank WebHistoryServiceFactory = 9"
| "service_rank IOSChromeDeprecatedProfileInvalidationProviderFactory = 6"
| "service_rank IOSChromeProfileInvalidationProviderFactory = 7"
| "service_rank LanguageModelManagerFactory = 1"
| "service_rank UrlLanguageHistogramFactory = 1"
| "service_rank IOSProfileSessionDurationsServiceFactory = 9"
| "service_rank IOSChromeContentSuggestionsServiceFactory = 7"
| "service_rank IOSChromePasswordStoreFactory = 2"
| "service_rank IOSPasswordRequirementsServiceFactory = 1"
| "service_rank PasswordManagerLogRouterFactory = 1"
| "service_rank IOSCanMakePaymentQueryFactory = 1"
| "service_rank IOSPaymentInstrumentLauncherFactory = 1"
| "service_rank IOSPaymentRequestCacheFactory = 1"
| "service_rank PrerenderServiceFactory = 1"
| "service_rank ReadingListDownloadServiceFactory = 6"
| "service_rank ReadingListModelFactory = 2"
| "service_rank TemplateURLFetcherFactory = 6"
| "service_rank TemplateURLServiceFactory = 5"
| "service_rank SendTabToSelfClientServiceFactory = 6"
| "service_rank IOSChromeTabRestoreServiceFactory = 1"
| "service_rank TabRestoreServiceDelegateImplIOSFactory = 1"
| "service_rank ShareExtensionServiceFactory = 4"
| "service_rank AboutSigninInternalsFactory = 6"
| "service_rank AccountConsistencyServiceFactory = 6"
| "service_rank AccountReconcilorFactory = 5"
| "service_rank AuthenticationServiceFactory = 10"
| "service_rank IdentityManagerFactory = 4"
| "service_rank SigninBrowserStateInfoUpdaterFactory = 6"
| "service_rank SigninClientFactory = 3"
| "service_rank SigninErrorControllerFactory = 5"
| "service_rank SnapshotCacheFactory = 1"
| "service_rank SuggestionsServiceFactory = 9"
| "service_rank ConsentAuditorFactory = 2"
| "service_rank DeviceInfoSyncServiceFactory = 2"
| "service_rank IOSUserEventServiceFactory = 7"
| "service_rank ModelTypeStoreServiceFactory = 1"
| "service_rank ProfileSyncServiceFactory = 8"
| "service_rank SendTabToSelfSyncServiceFactory = 5"
| "service_rank SessionSyncServiceFactory = 6"
| "service_rank SyncSetupServiceFactory = 9"
| "service_rank TranslateAcceptLanguagesFactory = 1"
| "service_rank TranslateRankerFactory = 1"
| "service_rank FullscreenControllerFactory = 1"
| "service_rank TextToSpeechPlaybackControllerFactory = 1"
| "service_rank BookmarkUndoServiceFactory = 1"
| "service_rank UnifiedConsentServiceFactory = 9"
| "service_rank UrlLoadingNotifierFactory = 1"
| "service_rank UrlLoadingServiceFactory = 2"
| "service_rank WebStateListWebUsageEnablerFactory = 1"
| "service_rank WebDataServiceFactory = 1"

definition all_services :: "service list" where
  "all_services =
    [AutocompleteClassifierFactory, InMemoryURLIndexFactory, ShortcutsBackendFactory,
     AutocompleteHistoryManagerFactory, AutofillLogRouterFactory, PersonalDataManagerFactory,
     StrikeDatabaseFactory, BookmarkModelFactory, BookmarkSyncServiceFactory,
     StartupTaskRunnerServiceFactory, BrowsingDataRemoverFactory, CookieSettingsFactory,
     HostContentSettingsMapFactory, BreadcrumbManagerKeyedServiceFactory,
     BreadcrumbPersistentStorageKeyedServiceFactory, DomDistillerServiceFactory,
     BrowserDownloadServiceFactory, ExternalFileRemoverFactory, FaviconServiceFactory,
     IOSChromeFaviconLoaderFactory, IOSChromeLargeIconCacheFactory,
     IOSChromeLargeIconServiceFactory, TrackerFactory,
     IOSChromeInstanceIDProfileServiceFactory, IOSChromeGCMProfileServiceFactory,
     GoogleLogoServiceFactory, HistoryServiceFactory, TopSitesFactory,
     WebHistoryServiceFactory, IOSChromeDeprecatedProfileInvalidationProviderFactory,
     IOSChromeProfileInvalidationProviderFactory, LanguageModelManagerFactory,
     UrlLanguageHistogramFactory, IOSProfileSessionDurationsServiceFactory,
     IOSChromeContentSuggestionsServiceFactory, IOSChromePasswordStoreFactory,
     IOSPasswordRequirementsServiceFactory, PasswordManagerLogRouterFactory,
     IOSCanMakePaymentQueryFactory, IOSPaymentInstrumentLauncherFactory,
     IOSPaymentRequestCacheFactory, PrerenderServiceFactory, ReadingListDownloadServiceFactory,
     ReadingListModelFactory, TemplateURLFetcherFactory, TemplateURLServiceFactory,
     SendTabToSelfClientServiceFactory, IOSChromeTabRestoreServiceFactory,
     TabRestoreServiceDelegateImplIOSFactory, ShareExtensionServiceFactory,
     AboutSigninInternalsFactory, AccountConsistencyServiceFactory, AccountReconcilorFactory,
     AuthenticationServiceFactory, IdentityManagerFactory,
     SigninBrowserStateInfoUpdaterFactory, SigninClientFactory, SigninErrorControllerFactory,
     SnapshotCacheFactory, SuggestionsServiceFactory, ConsentAuditorFactory,
     DeviceInfoSyncServiceFactory, IOSUserEventServiceFactory, ModelTypeStoreServiceFactory,
     ProfileSyncServiceFactory, SendTabToSelfSyncServiceFactory, SessionSyncServiceFactory,
     SyncSetupServiceFactory, TranslateAcceptLanguagesFactory, TranslateRankerFactory,
     FullscreenControllerFactory, TextToSpeechPlaybackControllerFactory,
     BookmarkUndoServiceFactory, UnifiedConsentServiceFactory, UrlLoadingNotifierFactory,
     UrlLoadingServiceFactory, WebStateListWebUsageEnablerFactory, WebDataServiceFactory]"

lemma set_all_services: "set all_services = UNIV"
proof -
  have "s \<in> set all_services" for s by (cases s) (simp_all add: all_services_def)
  then show ?thesis by blast
qed

lemma distinct_all_services: "distinct all_services"
  by (simp add: all_services_def)

lemma declared_rank: "d \<in> set (declared s) \<Longrightarrow> service_rank d < service_rank s"
  by (cases s) (auto simp: declared_def factory_defs)

interpretation factories: dependency_graph declared service_rank all_services
  by unfold_locales (simp_all add: declared_rank distinct_all_services set_all_services)

section \<open>Which factories are constructed at start\<close>

text \<open>The factories that are not constructed with the others, only at their first use.\<close>

definition late_factories :: "service list" where
  "late_factories =
    [AutocompleteHistoryManagerFactory, AutofillLogRouterFactory, ExternalFileRemoverFactory,
     IOSCanMakePaymentQueryFactory, IOSChromeTabRestoreServiceFactory,
     IOSPasswordRequirementsServiceFactory, IOSPaymentInstrumentLauncherFactory,
     IOSPaymentRequestCacheFactory, PasswordManagerLogRouterFactory, PrerenderServiceFactory,
     ReadingListDownloadServiceFactory, ShareExtensionServiceFactory, StrikeDatabaseFactory,
     TemplateURLFetcherFactory, UrlLoadingNotifierFactory, UrlLoadingServiceFactory]"

lemma rank_fuel: "service_rank s < construction_fuel"
  by (cases s) (simp_all add: construction_fuel_def)

lemma registered_not_late: "set registered_factories \<inter> set late_factories = {}"
  by (simp add: registered_factories_def late_factories_def)

lemma declared_not_late: "s \<notin> set late_factories \<Longrightarrow> set (declared s) \<inter> set late_factories = {}"
  by (cases s) (simp_all add: late_factories_def declared_def factory_defs)

lemma reaches_not_late:
  "set ss \<inter> set late_factories = {} \<Longrightarrow> x \<in> factories.reaches ss \<Longrightarrow> x \<notin> set late_factories"
proof -
  assume ss: "set ss \<inter> set late_factories = {}" and "x \<in> factories.reaches ss"
  then obtain s where "s \<in> set ss" and path: "(s, x) \<in> (dependencies declared)\<^sup>*"
    by (auto simp: factories.reaches_def)
  then have "s \<notin> set late_factories" using ss by blast
  with path show "x \<notin> set late_factories"
    by (induction rule: rtrancl_induct) (auto simp: dependencies_def dest: declared_not_late)
qed

lemma registered_reached: "s \<in> set ss \<Longrightarrow> s \<in> factories.reaches ss"
  by (auto simp: factories.reaches_def)

lemma declared_reached: "s \<in> factories.reaches ss \<Longrightarrow> d \<in> set (declared s) \<Longrightarrow> d \<in> factories.reaches ss"
  by (auto simp: factories.reaches_def dependencies_def intro: rtrancl_into_rtrancl)

text \<open>The factories that are reached only as dependencies of registered ones.\<close>

lemma indirectly_reached:
  "factories.reaches registered_factories \<supseteq>
     {BookmarkSyncServiceFactory, DeviceInfoSyncServiceFactory, SessionSyncServiceFactory,
      IOSChromeProfileInvalidationProviderFactory, IOSChromeInstanceIDProfileServiceFactory,
      HostContentSettingsMapFactory, SendTabToSelfSyncServiceFactory}"
proof -
  have sync: "ProfileSyncServiceFactory \<in> factories.reaches registered_factories"
    and settings: "CookieSettingsFactory \<in> factories.reaches registered_factories"
    and tabs: "SendTabToSelfClientServiceFactory \<in> factories.reaches registered_factories"
    by (rule registered_reached, simp add: registered_factories_def)+
  have invalidation: "IOSChromeProfileInvalidationProviderFactory \<in> factories.reaches registered_factories"
    by (rule declared_reached [OF sync]) (simp add: declared_def factory_defs)
  show ?thesis
    using declared_reached [OF sync] declared_reached [OF settings] declared_reached [OF tabs]
      declared_reached [OF invalidation] invalidation
    by (simp add: declared_def factory_defs)
qed

lemma not_late_reached: "s \<notin> set late_factories \<Longrightarrow> s \<in> factories.reaches registered_factories"
  using indirectly_reached
  by (cases s) (simp_all add: late_factories_def registered_reached registered_factories_def)

lemma factories_constructed:
  "\<exists>built. ensure_browser_state_keyed_service_factories_built = Some built \<and>
     dependencies_first declared built \<and> set built = - set late_factories"
proof -
  have "factories.reaches registered_factories = - set late_factories"
    using not_late_reached reaches_not_late [OF registered_not_late] by blast
  then show ?thesis
    using factories.construction_correct [of registered_factories construction_fuel] rank_fuel
    by (auto simp: ensure_browser_state_keyed_service_factories_built_def)
qed

section \<open>What building a service needs\<close>

text \<open>
  \<open>((s, b), (d, b'))\<close>: building the instance of \<open>s\<close> for \<open>b\<close> looks up, or holds on to, the instance
  of \<open>d\<close> for \<open>b'\<close>.
\<close>

definition resolved ::
    "(build_step \<Rightarrow> service_lookup list) \<Rightarrow> (chrome_browser_state \<Rightarrow> chrome_browser_state option)
      \<Rightarrow> environment \<Rightarrow> ((service \<times> chrome_browser_state) \<times> service \<times> chrome_browser_state) set" where
  "resolved sel default_state env =
     {((s, b), (d, b')). \<exists>step \<in> set (builds (factory_of s) env b). \<exists>b0 create.
        Lookup d b0 create \<in> set (sel step) \<and> get_browser_state_to_use default_state d b0 = Some b'}"

abbreviation "needs \<equiv> resolved step_lookups"
abbreviation "holds \<equiv> resolved held_lookups"

lemmas accessor_defs =
  get_service_def get_service_if_exists_def get_history_service_def get_favicon_service_def
  get_web_data_service_def get_password_store_def get_profile_sync_service_def

text \<open>The services that the calls of the sync client look up, each for the client's browser state.\<close>

definition sync_client_services :: "service list" where
  "sync_client_services =
    [ModelTypeStoreServiceFactory, DeviceInfoSyncServiceFactory, SendTabToSelfSyncServiceFactory,
     BookmarkModelFactory, FaviconServiceFactory, HistoryServiceFactory, SessionSyncServiceFactory,
     BookmarkUndoServiceFactory, IOSChromeProfileInvalidationProviderFactory,
     ReadingListModelFactory, ConsentAuditorFactory, IOSUserEventServiceFactory]"

lemma sync_type_lookups:
  assumes "step \<in> set (get_syncable_service_for_type env b type)
      \<or> step \<in> set (get_controller_delegate_for_model_type b type)"
    and "Lookup d b0 create \<in> set (step_lookups step)"
  shows "d \<in> set sync_client_services \<and> b0 = b"
  using assms by (cases type) (auto simp: accessor_defs sync_client_services_def split: if_splits)

lemma sync_client_lookup:
  assumes "step \<in> set (sync_client_lookups env b call)" and "Lookup d b0 create \<in> set (step_lookups step)"
  shows "d \<in> set sync_client_services \<and> (b0 = b \<or> b0 = get_original_chrome_browser_state b)"
proof (cases call)
  case (GetSyncableServiceForType type)
  with assms sync_type_lookups [of step env b type] show ?thesis by simp
next
  case (GetControllerDelegateForModelType type)
  with assms sync_type_lookups [of step env b type] show ?thesis by simp
qed (use assms in \<open>auto simp: accessor_defs sync_client_services_def split: if_splits\<close>)

lemma held_looked_up: "l \<in> set (held_lookups step) \<Longrightarrow> l \<in> set (step_lookups step)"
  by (cases step) simp_all

lemmas sync_client_held = sync_client_lookup [OF _ held_looked_up]

lemma lookup_rank:
  assumes "step \<in> set (builds (factory_of s) env b)" and "Lookup d b0 create \<in> set (step_lookups step)"
  shows "service_rank d < service_rank s \<or>
    d = HostContentSettingsMapFactory \<and> s = d \<and> is_off_the_record b \<and>
      b0 = get_original_chrome_browser_state b"
  using assms
  by (cases s)
    (auto simp: factory_defs accessor_defs split: if_splits,
      auto dest!: sync_client_lookup simp: sync_client_services_def)

lemma not_off_the_record_original [simp]: "\<not> is_off_the_record (get_original_chrome_browser_state b)"
  by (cases b) simp_all

definition instance_rank :: "service \<times> chrome_browser_state \<Rightarrow> nat" where
  "instance_rank i = 2 * service_rank (fst i) + (if is_off_the_record (snd i) then 1 else 0)"

lemma needs_rank: "(i, j) \<in> needs default_state env \<Longrightarrow> instance_rank j < instance_rank i"
proof -
  assume "(i, j) \<in> needs default_state env"
  then obtain s b d b' step b0 create where ij: "i = (s, b)" "j = (d, b')"
    and step: "step \<in> set (builds (factory_of s) env b)" "Lookup d b0 create \<in> set (step_lookups step)"
    and b': "get_browser_state_to_use default_state d b0 = Some b'"
    by (auto simp: resolved_def)
  from lookup_rank [OF step] show ?thesis
  proof (elim disjE conjE)
    assume "service_rank d < service_rank s"
    then show ?thesis by (simp add: ij instance_rank_def)
  next
    assume "d = HostContentSettingsMapFactory" "s = d" "is_off_the_record b"
      "b0 = get_original_chrome_browser_state b"
    moreover from this b' have "b' = get_original_chrome_browser_state b"
      by (simp add: get_browser_state_to_use_def host_content_settings_map_factory_def
          get_browser_state_own_instance_in_incognito_def)
    ultimately show ?thesis by (simp add: ij instance_rank_def)
  qed
qed

text \<open>
  C22. The construction of keyed services ends: whatever the preferences, the features and the
  default of the library, no service is needed, directly or indirectly, while it is being built, and
  no chain of services that need one another goes on for ever.
\<close>

theorem construction_of_services_ends: "wf ((resolved step_lookups default_state env)\<inverse>)"
proof (rule wf_subset)
  show "wf (measure instance_rank)" by simp
  show "(needs default_state env)\<inverse> \<subseteq> measure instance_rank" using needs_rank by auto
qed

text \<open>
  When a browser state is created every factory has been constructed exactly once, after the
  ones it depends on and without re-entering its own construction, but for sixteen factories that are
  constructed at their first use; none of these registers preferences or is built with the browser
  state, which would be too late for it.
\<close>

theorem factories_built_at_start:
  "\<exists>built. ensure_browser_state_keyed_service_factories_built = Some built \<and>
     dependencies_first declared built \<and> set built = - set late_factories \<and>
     {s. registers_prefs (factory_of s) \<or> created_with_browser_state (factory_of s)} \<subseteq> set built"
proof -
  have "s \<notin> set late_factories"
    if "registers_prefs (factory_of s) \<or> created_with_browser_state (factory_of s)" for s
    using that by (cases s) (simp_all add: factory_defs late_factories_def)
  then show ?thesis using factories_constructed by auto
qed

section \<open>Services and the services built on them\<close>

text \<open>\<open>s\<close> holds on to \<open>d\<close> in some setting, and what the declarations guarantee of the two.\<close>

definition uses :: "service \<Rightarrow> service \<Rightarrow> bool" where
  "uses s d \<longleftrightarrow> s \<noteq> d \<and> (\<exists>env b. \<exists>step \<in> set (builds (factory_of s) env b). \<exists>b0 create.
     Lookup d b0 create \<in> set (held_lookups step))"

definition always_shut_down_before :: "service \<Rightarrow> service \<Rightarrow> bool" where
  "always_shut_down_before s d \<longleftrightarrow> (\<forall>order. shutdown_order declared order \<longrightarrow> before order s d)"

lemma always_shut_down_before_iff: "always_shut_down_before s d \<longleftrightarrow> (s, d) \<in> (dependencies declared)\<^sup>+"
  unfolding always_shut_down_before_def by (rule factories.guaranteed_iff)

lemma declared_guaranteed: "d \<in> set (declared s) \<Longrightarrow> always_shut_down_before s d"
  by (auto simp: always_shut_down_before_iff dependencies_def)

lemma uses_cases:
  assumes "uses s d"
  shows "d \<in> set (declared s) \<or>
    (s, d) \<in> {(AutocompleteClassifierFactory, ProfileSyncServiceFactory),
             (BookmarkModelFactory, BookmarkSyncServiceFactory),
             (ProfileSyncServiceFactory, SendTabToSelfSyncServiceFactory)}"
proof -
  obtain env b step b0 create where step: "step \<in> set (builds (factory_of s) env b)"
      "Lookup d b0 create \<in> set (held_lookups step)" and "s \<noteq> d"
    using assms by (auto simp: uses_def)
  then show ?thesis
    by (cases s)
      (auto simp: factory_defs accessor_defs declared_def split: if_splits,
        auto dest!: sync_client_held simp: sync_client_services_def)
qed

text \<open>Everything the two users depend on, which the services they use do not belong to.\<close>

definition classifier_dependencies :: "service list" where
  "classifier_dependencies =
    [InMemoryURLIndexFactory, TemplateURLServiceFactory, ShortcutsBackendFactory,
     BookmarkModelFactory, HistoryServiceFactory, WebDataServiceFactory,
     BookmarkUndoServiceFactory, StartupTaskRunnerServiceFactory]"

lemma not_guaranteed_if_closed:
  assumes "set (declared s) \<subseteq> S" and "\<And>x. x \<in> S \<Longrightarrow> set (declared x) \<subseteq> S" and "d \<notin> S"
  shows "\<not> always_shut_down_before s d"
proof -
  have "x \<in> S" if "(s, x) \<in> (dependencies declared)\<^sup>+" for x
    using that
  proof (induction rule: trancl_induct)
    case (base x)
    then show ?case using assms(1) by (auto simp: dependencies_def)
  next
    case (step x y)
    then show ?case using assms(2) by (auto simp: dependencies_def)
  qed
  then show ?thesis using assms(3) by (auto simp: always_shut_down_before_iff)
qed

lemma classifier_not_guaranteed:
  "\<not> always_shut_down_before AutocompleteClassifierFactory ProfileSyncServiceFactory"
  by (rule not_guaranteed_if_closed [where S = "set classifier_dependencies"])
    (auto simp: classifier_dependencies_def declared_def factory_defs)

lemma bookmark_model_not_guaranteed:
  "\<not> always_shut_down_before BookmarkModelFactory BookmarkSyncServiceFactory"
  by (rule not_guaranteed_if_closed
      [where S = "{BookmarkUndoServiceFactory, StartupTaskRunnerServiceFactory}"])
    (auto simp: declared_def factory_defs)

lemma send_tab_to_self_not_guaranteed:
  "\<not> always_shut_down_before ProfileSyncServiceFactory SendTabToSelfSyncServiceFactory"
proof (rule not_guaranteed_if_closed
    [where S = "- {SendTabToSelfSyncServiceFactory, SendTabToSelfClientServiceFactory}"])
  show "set (declared x) \<subseteq> - {SendTabToSelfSyncServiceFactory, SendTabToSelfClientServiceFactory}"
    if "x \<in> - {SendTabToSelfSyncServiceFactory, SendTabToSelfClientServiceFactory}" for x
    using that by (cases x) (simp_all add: declared_def factory_defs)
qed (simp_all add: declared_def factory_defs)

lemma sync_client_uses:
  assumes "step \<in> set (sync_client_lookups env b call)" and "Lookup d b0 create \<in> set (held_lookups step)"
    and "sync_initialize_calls env = [call]" and "d \<noteq> ProfileSyncServiceFactory"
  shows "uses ProfileSyncServiceFactory d"
proof -
  have "step \<in> set (builds (factory_of ProfileSyncServiceFactory) env b)"
    using assms(1,3) by (simp add: profile_sync_service_factory_def)
  with assms(2,4) show ?thesis unfolding uses_def by blast
qed

lemma undeclared_uses:
  "uses AutocompleteClassifierFactory ProfileSyncServiceFactory"
  "uses BookmarkModelFactory BookmarkSyncServiceFactory"
  "uses ProfileSyncServiceFactory SendTabToSelfSyncServiceFactory"
proof -
  let ?env = "\<lparr>saving_browser_history_disabled = \<lambda>_. False, sync_allowed_by_flag = True,
    account_wallet_storage_enabled = False, do_not_sync_favicon_data_types = False,
    sync_initialize_calls = [GetSendTabToSelfSyncService], content_suggestions_disabled = False,
    article_suggestions_enabled = False\<rparr>"
  show "uses AutocompleteClassifierFactory ProfileSyncServiceFactory"
    "uses BookmarkModelFactory BookmarkSyncServiceFactory"
    by (auto simp: uses_def factory_defs accessor_defs intro: exI [of _ ?env])
  show "uses ProfileSyncServiceFactory SendTabToSelfSyncServiceFactory"
    by (rule sync_client_uses [where env = ?env and call = GetSendTabToSelfSyncService
        and step = "Obtain (get_service SendTabToSelfSyncServiceFactory (Regular 1))"
        and b = "Regular 1" and ?b0.0 = "Regular 1" and create = True])
      (simp_all add: accessor_defs)
qed

text \<open>
  C21. A service is shut down before the services it was built on and holds, in every order that the
  declared dependencies permit, but for three pairs whose dependency is declared neither directly nor
  indirectly: the sync service may be shut down before the autocomplete classifier, the bookmark
  sync service before the bookmark model, and the service that syncs the tabs sent to oneself before
  the sync service. What the sync service obtains through its client while it initializes itself
  counts as held, whatever calls of the client that initialization makes.
\<close>

theorem services_outlive_their_users:
  "{(s, d). uses s d \<and> \<not> always_shut_down_before s d} =
     {(AutocompleteClassifierFactory, ProfileSyncServiceFactory),
      (BookmarkModelFactory, BookmarkSyncServiceFactory),
      (ProfileSyncServiceFactory, SendTabToSelfSyncServiceFactory)}"
  using uses_cases declared_guaranteed undeclared_uses classifier_not_guaranteed
    bookmark_model_not_guaranteed send_tab_to_self_not_guaranteed by blast

section \<open>Checks while a service is built\<close>

text \<open>The default of the library: a service exists for regular browser states only.\<close>

definition regular_only :: "(chrome_browser_state \<Rightarrow> chrome_browser_state option) \<Rightarrow> bool" where
  "regular_only default_state \<longleftrightarrow>
     (\<forall>n. default_state (Regular n) = Some (Regular n) \<and> default_state (OffTheRecord n) = None)"

lemmas state_defs =
  get_browser_state_to_use_def get_browser_state_redirected_in_incognito_def
  get_browser_state_own_instance_in_incognito_def

text \<open>
  The calls that the client answers: of a type it serves, and of the favicon types only while they
  are synced. For the other types it is documented not to be called.
\<close>

fun answered :: "environment \<Rightarrow> sync_client_call \<Rightarrow> bool" where
  "answered env (GetSyncableServiceForType type) \<longleftrightarrow>
     type \<in> {syncer_PREFERENCES, syncer_PRIORITY_PREFERENCES, syncer_HISTORY_DELETE_DIRECTIVES,
       syncer_PASSWORDS} \<or>
     type \<in> {syncer_FAVICON_IMAGES, syncer_FAVICON_TRACKING} \<and> \<not> do_not_sync_favicon_data_types env"
| "answered env (GetControllerDelegateForModelType type) \<longleftrightarrow>
     type \<in> {syncer_READING_LIST, syncer_USER_CONSENTS, syncer_USER_EVENTS}"
| "answered env call \<longleftrightarrow> True"

text \<open>The arguments of constructors outside the repository for which there may be no service.\<close>

definition missing_arguments ::
    "environment \<Rightarrow> chrome_browser_state \<Rightarrow> (service \<times> service) set" where
  "missing_arguments env b =
     {(BookmarkSyncServiceFactory, BookmarkUndoServiceFactory)}
     \<union> (if is_off_the_record b then {(GoogleLogoServiceFactory, IdentityManagerFactory)} else {})
     \<union> (if saving_browser_history_disabled env b then {(InMemoryURLIndexFactory, HistoryServiceFactory)} else {})
     \<union> (if sync_allowed_by_flag env then {}
        else {AutocompleteClassifierFactory, IOSProfileSessionDurationsServiceFactory,
          SuggestionsServiceFactory, UnifiedConsentServiceFactory} \<times> {ProfileSyncServiceFactory})"

lemma sync_client_lookup_succeeds:
  assumes "regular_only default_state" and "answered env call"
    and "step \<in> set (sync_client_lookups env (Regular n) call)"
  shows "step_succeeds accepts default_state step"
proof (cases call)
  case (GetSyncableServiceForType type)
  with assms show ?thesis
    by (cases type) (auto simp: accessor_defs state_defs factory_defs regular_only_def split: if_splits)
next
  case (GetControllerDelegateForModelType type)
  with assms show ?thesis
    by (cases type) (auto simp: accessor_defs state_defs factory_defs regular_only_def)
qed (use assms in \<open>auto simp: accessor_defs state_defs factory_defs regular_only_def\<close>)

lemma sync_initialize_succeeds:
  assumes "regular_only default_state" and "list_all (answered env) (sync_initialize_calls env)"
  shows "list_all (step_succeeds accepts default_state)
     (concat (map (sync_client_lookups env (Regular n)) (sync_initialize_calls env)))"
  using assms sync_client_lookup_succeeds by (fastforce simp: list_all_iff)

text \<open>
  C23. While a service is built for a browser state it exists for, no check fails and nothing that
  was not found is dereferenced, if and only if two conditions hold. The constructors outside the
  repository take a null for the arguments listed in \<open>missing_arguments\<close>: the sync service of the
  autocomplete classifier, the session durations, the suggestions and the unified consent service
  where the command line forbids sync, the history of the URL index where history is not saved, the
  identity manager of an Incognito logo service, and the undo service of the bookmark sync service.
  And where the command line forbids sync, the service is neither the sync setup service nor the
  authentication service, which cannot be built then. The default of the library gives regular
  browser states their own services and Incognito ones none, and the initialization of the sync
  service calls its client only for the types the client answers.
\<close>

theorem services_build_without_failing_checks:
  assumes "regular_only default_state" and "get_browser_state_to_use default_state s b0 = Some b"
    and "list_all (answered env) (sync_initialize_calls env)"
  shows "build_succeeds accepts_null default_state env s b \<longleftrightarrow>
    (\<forall>d. (s, d) \<in> missing_arguments env b \<longrightarrow> accepts_null s d) \<and>
    (sync_allowed_by_flag env \<or> s \<notin> {SyncSetupServiceFactory, AuthenticationServiceFactory})"
  using assms sync_initialize_succeeds [OF assms(1,3)]
  by (cases s; cases b; cases b0)
    (auto simp: build_succeeds_def factory_defs accessor_defs state_defs regular_only_def
      missing_arguments_def list.pred_map)

theorem services_build_without_failing_checks_witness:
  "build_succeeds (\<lambda>s d. d = IdentityManagerFactory) (\<lambda>b. if is_off_the_record b then None else Some b)
     \<lparr>saving_browser_history_disabled = \<lambda>_. True, sync_allowed_by_flag = True,
      account_wallet_storage_enabled = True, do_not_sync_favicon_data_types = False,
      sync_initialize_calls = [GetSendTabToSelfSyncService, GetSyncableServiceForType syncer_FAVICON_IMAGES],
      content_suggestions_disabled = False, article_suggestions_enabled = True\<rparr>
     GoogleLogoServiceFactory (OffTheRecord 1)"
proof -
  let ?default = "\<lambda>b. if is_off_the_record b then None else Some b"
  have "regular_only ?default" by (simp add: regular_only_def)
  moreover have "get_browser_state_to_use ?default GoogleLogoServiceFactory (OffTheRecord 1) =
      Some (OffTheRecord 1)"
    by (simp add: state_defs factory_defs)
  ultimately show ?thesis
    using services_build_without_failing_checks [of ?default GoogleLogoServiceFactory "OffTheRecord 1"]
    by (simp add: missing_arguments_def)
qed

section \<open>Incognito services and the regular browser state\<close>

definition shutdown_sequence ::
    "service list \<Rightarrow> nat \<Rightarrow> bool \<Rightarrow> (service \<times> chrome_browser_state) list" where
  "shutdown_sequence order n has_otr =
     concat (map (\<lambda>b. map (\<lambda>s. (s, b)) order) (destroy_chrome_browser_state n has_otr))"

text \<open>The services of an Incognito browser state that hold a service of the regular one.\<close>

definition incognito_users :: "(chrome_browser_state \<Rightarrow> chrome_browser_state option) \<Rightarrow> nat
    \<Rightarrow> (service \<times> service) set" where
  "incognito_users default_state n =
     {(s, d). \<exists>env. ((s, OffTheRecord n), (d, Regular n)) \<in> holds default_state env \<and>
        get_browser_state_to_use default_state s (OffTheRecord n) = Some (OffTheRecord n)}"

lemma incognito_users_eq:
  assumes "regular_only default_state"
  shows "incognito_users default_state n =
    {(AutocompleteHistoryManagerFactory, WebDataServiceFactory),
     (IOSChromeLargeIconServiceFactory, FaviconServiceFactory),
     (GoogleLogoServiceFactory, TemplateURLServiceFactory)}" (is "?l = ?r")
proof
  show "?l \<subseteq> ?r"
  proof (rule subrelI)
    fix s d assume "(s, d) \<in> ?l"
    then obtain env step b0 create where step: "step \<in> set (builds (factory_of s) env (OffTheRecord n))"
        "Lookup d b0 create \<in> set (held_lookups step)"
      and "get_browser_state_to_use default_state d b0 = Some (Regular n)"
      and "get_browser_state_to_use default_state s (OffTheRecord n) = Some (OffTheRecord n)"
      by (auto simp: incognito_users_def resolved_def)
    then show "(s, d) \<in> ?r"
      using assms by (cases s)
        (auto simp: factory_defs accessor_defs state_defs regular_only_def split: if_splits)
  qed
  show "?r \<subseteq> ?l"
    using assms by (auto simp: incognito_users_def resolved_def factory_defs accessor_defs state_defs
        regular_only_def)
qed

lemma regular_before_incognito:
  "shutdown_order declared order \<Longrightarrow>
     before (shutdown_sequence order n True) (d, Regular n) (s, OffTheRecord n)"
  by (auto simp: shutdown_sequence_def destroy_chrome_browser_state_def
      destroy_off_the_record_chrome_browser_state_def before_append_iff shutdown_order_def)

text \<open>
  When a regular browser state is destroyed with its Incognito browser state alive, its services
  go first, in every permitted order. Exactly three Incognito services are built on services of the
  regular browser state, which are then shut down before them: the autocomplete history manager, the
  large icon service and the logo service.
\<close>

theorem incognito_services_outlive_regular_ones:
  assumes "regular_only default_state" and "shutdown_order declared order"
  shows "{(s, d) \<in> incognito_users default_state n.
      before (shutdown_sequence order n True) (d, Regular n) (s, OffTheRecord n)} =
    {(AutocompleteHistoryManagerFactory, WebDataServiceFactory),
     (IOSChromeLargeIconServiceFactory, FaviconServiceFactory),
     (GoogleLogoServiceFactory, TemplateURLServiceFactory)}"
  using incognito_users_eq [OF assms(1)] regular_before_incognito [OF assms(2)] by auto

theorem incognito_services_outlive_regular_ones_witness:
  "(GoogleLogoServiceFactory, TemplateURLServiceFactory) \<in>
     {(s, d) \<in> incognito_users (\<lambda>b. if is_off_the_record b then None else Some b) 1.
      before (shutdown_sequence (rev (sort_key service_rank all_services)) 1 True)
        (d, Regular 1) (s, OffTheRecord 1)}"
proof -
  let ?default = "\<lambda>b. if is_off_the_record b then None else Some b"
  have "regular_only ?default" by (simp add: regular_only_def)
  then show ?thesis
    using incognito_services_outlive_regular_ones [of ?default, OF _ factories.shutdown_order_exists]
    by simp
qed

end
