(* ===== verification/Overlays.thy ===== *)
theory Overlays
  imports WebStateListMachine
begin

text \<open>
  Overlays: the dialogs and banners shown over the page of a tab.
  \<^item> \<open>chrome/browser/overlays/overlay_request_queue_impl.mm\<close>: the queue of requests of a tab,
    with \<open>default_overlay_request_cancel_handler.mm\<close>, which empties it when the tab navigates;
  \<^item> \<open>chrome/browser/overlays/overlay_presenter_impl.mm\<close>: the presenter of a window, which
    observes the tab list and the queues of its tabs and has the front request of the active
    tab shown;
  \<^item> \<open>chrome/browser/ui/overlays/overlay_presentation_context_impl.mm\<close> with
    \<open>overlay_request_ui_state.mm\<close>: the presentation context, which keeps the UI of each request;
  \<^item> \<open>chrome/browser/ui/overlays/common/alerts/alert_overlay_coordinator.mm\<close>: when the UI of a
    request is stopped without animation it is gone when the call returns; when the user
    dismisses it, the animation runs first.

  One modality is modelled, so a window has one presenter and one presentation context. The
  objects of the three files refer to one another and call back within a call, so their fields
  are one record, \<open>overlays\<close>, and the tab list is beside it. A failed \<open>DCHECK\<close>, a null pointer
  that is dereferenced and a null callback that is run are \<^const>\<open>None\<close>. Which requests are shown
  by a child view controller (\<open>coordinatorForRequestUsesChildViewController\<close>, a table of
  classes) is the parameter \<open>uses_child\<close>. What the observers of the presenter are told and when
  requests are queued, answered and destroyed is appended to the ghost field \<open>overlay_log\<close>.
\<close>

unbundle bit_operations_syntax

section \<open>The UI of one request\<close>

type_synonym overlay_request = nat

datatype dismissal_reason = kUserInteraction | kHiding | kCancellation

text \<open>
  A coordinator is \<open>Started\<close> while its view is on screen, \<open>Closing\<close> while the animation of a
  dismissal by the user runs, \<open>Stopped\<close> before and after.
\<close>

datatype coordinator_phase = Started | Closing | Stopped

record overlay_coordinator =
  base_view_controller :: nat
  phase :: coordinator_phase

text \<open>
  \<open>OverlayRequestUIState\<close>. The dismissal callback is bound to the queue of a tab, so it is that
  tab; the presentation callback is bound to nothing that varies.
\<close>

record ui_state =
  ui_coordinator :: "overlay_coordinator option"
  has_ui_been_presented :: bool
  presentation_callback :: bool
  ui_dismissal_reason :: dismissal_reason
  dismissal_callback :: "web_state option"

definition new_ui_state :: ui_state where
  "new_ui_state = \<lparr>ui_coordinator = None, has_ui_been_presented = False,
     presentation_callback = False, ui_dismissal_reason = kUserInteraction,
     dismissal_callback = None\<rparr>"

definition has_callback :: "ui_state \<Rightarrow> bool" where
  "has_callback st = (dismissal_callback st \<noteq> None)"

definition overlay_presentation_requested :: "ui_state \<Rightarrow> web_state \<Rightarrow> ui_state option" where
  "overlay_presentation_requested st queue = do {
     dcheck (\<not> presentation_callback st);
     dcheck (dismissal_callback st = None);
     Some (st\<lparr>presentation_callback := True, dismissal_callback := Some queue,
              ui_dismissal_reason := kUserInteraction\<rparr>)
   }"

section \<open>The state of a window\<close>

datatype overlay_event =
    Queued overlay_request
  | WillShow nat overlay_request
  | DidShow nat overlay_request
  | Answered overlay_request
  | DidHide nat overlay_request
  | Completed overlay_request
  | UsedAfterFree overlay_request

record overlays =
  presenting :: bool
  presented_request :: "overlay_request option"
  detaching_active_web_state :: bool
  active_web_state :: "web_state option"
  has_context :: bool
  supports :: "(overlay_request \<Rightarrow> bool) list"
  queues :: "web_state \<Rightarrow> overlay_request list"
  default_handlers :: "web_state \<Rightarrow> overlay_request list"
  observing :: "web_state \<Rightarrow> bool"
  context_request :: "overlay_request option"
  ui_states :: "overlay_request \<rightharpoonup> ui_state"
  container :: "nat option"
  capabilities :: int
  overlay_log :: "overlay_event list"

definition no_overlays :: "(overlay_request \<Rightarrow> bool) list \<Rightarrow> overlays" where
  "no_overlays ss = \<lparr>presenting = False, presented_request = None,
     detaching_active_web_state = False, active_web_state = None, has_context = False,
     supports = ss, queues = (\<lambda>_. []), default_handlers = (\<lambda>_. []), observing = (\<lambda>_. False),
     context_request = None, ui_states = (\<lambda>_. None), container = None, capabilities = 0,
     overlay_log = []\<rparr>"

definition log_overlay :: "overlay_event list \<Rightarrow> overlays \<Rightarrow> overlays" where
  "log_overlay es p = p\<lparr>overlay_log := overlay_log p @ es\<rparr>"

definition set_ui_state :: "overlay_request \<Rightarrow> ui_state option \<Rightarrow> overlays \<Rightarrow> overlays" where
  "set_ui_state r st p = p\<lparr>ui_states := (ui_states p)(r := st)\<rparr>"

definition front_request :: "overlays \<Rightarrow> web_state \<Rightarrow> overlay_request option" where
  "front_request p ws = (case queues p ws of [] \<Rightarrow> None | r # _ \<Rightarrow> Some r)"

definition get_front_request_for_web_state ::
    "overlays \<Rightarrow> web_state option \<Rightarrow> overlay_request option" where
  "get_front_request_for_web_state p ws = (case ws of None \<Rightarrow> None | Some ws \<Rightarrow> front_request p ws)"

definition get_active_request :: "overlays \<Rightarrow> overlay_request option" where
  "get_active_request p = get_front_request_for_web_state p (active_web_state p)"

definition kNone :: int where "kNone = 0"
definition kContained :: int where "kContained = 1"
definition kPresented :: int where "kPresented = 2"

definition can_show_ui :: "(overlay_request \<Rightarrow> bool) \<Rightarrow> overlay_request \<Rightarrow> int \<Rightarrow> bool" where
  "can_show_ui uses_child r caps =
     (caps AND (if uses_child r then kContained else kPresented) \<noteq> 0)"

text \<open>
  The loops over the observers of the presenter: the first observer that does not support the
  request ends the loop and the function it is in. The flag says that the loop reached its end.
\<close>

fun tell_observers :: "(nat \<Rightarrow> overlay_request \<Rightarrow> overlay_event) \<Rightarrow> overlay_request \<Rightarrow> nat
    \<Rightarrow> (overlay_request \<Rightarrow> bool) list \<Rightarrow> overlay_event list \<times> bool" where
  "tell_observers f r i [] = ([], True)"
| "tell_observers f r i (s # ss) =
     (if \<not> s r then ([], False)
      else let (es, all) = tell_observers f r (Suc i) ss in (f i r # es, all))"

section \<open>Showing\<close>

text \<open>\<open>OverlayPresenterImpl::OverlayWasPresented\<close>, the presentation callback.\<close>

definition overlay_was_presented :: "overlays \<Rightarrow> overlay_request \<Rightarrow> overlays option" where
  "overlay_was_presented p r = do {
     dcheck (has_context p);
     dcheck (presented_request p = Some r);
     Some (log_overlay (fst (tell_observers DidShow r 0 (supports p))) p)
   }"

text \<open>\<open>OverlayPresentationContextImpl::ShowUIForPresentedRequest\<close>.\<close>

definition coordinator_for :: "ui_state \<Rightarrow> nat \<Rightarrow> overlay_coordinator" where
  "coordinator_for st base =
     (case ui_coordinator st of
        Some c \<Rightarrow> if base_view_controller c = base then c
                  else \<lparr>base_view_controller = base, phase = Stopped\<rparr>
      | None \<Rightarrow> \<lparr>base_view_controller = base, phase = Stopped\<rparr>)"

definition show_ui_for_presented_request :: "overlays \<Rightarrow> overlays option" where
  "show_ui_for_presented_request p =
     (case context_request p of
        None \<Rightarrow> Some p
      | Some r \<Rightarrow>
          (case ui_states p r of
             None \<Rightarrow> Some p
           | Some st \<Rightarrow>
               (case container p of
                  None \<Rightarrow> Some p
                | Some base \<Rightarrow> do {
                    dcheck (presentation_callback st);
                    let st1 = st\<lparr>ui_coordinator := Some ((coordinator_for st base)\<lparr>phase := Started\<rparr>),
                                 has_ui_been_presented := True, presentation_callback := False\<rparr>;
                    overlay_was_presented (set_ui_state r (Some st1) p) r
                  })))"

text \<open>\<open>OverlayPresentationContextImpl::SetRequest\<close>.\<close>

definition forget_presented_request :: "overlays \<Rightarrow> overlays option" where
  "forget_presented_request p =
     (case context_request p of
        None \<Rightarrow> Some p
      | Some r \<Rightarrow>
          (case ui_states p r of
             None \<Rightarrow> None
           | Some st \<Rightarrow> do {
               dcheck (\<not> has_callback st);
               dcheck (case ui_coordinator st of None \<Rightarrow> True | Some c \<Rightarrow> phase c = Stopped);
               Some (if ui_dismissal_reason st = kUserInteraction
                        \<or> ui_dismissal_reason st = kCancellation
                     then set_ui_state r None p else p)
             }))"

definition set_request :: "overlays \<Rightarrow> overlay_request option \<Rightarrow> overlays option" where
  "set_request p request =
     (if context_request p = request then Some p
      else do {
        p1 \<leftarrow> forget_presented_request p;
        let p2 = p1\<lparr>context_request := request\<rparr>;
        dcheck (case request of None \<Rightarrow> True | Some r \<Rightarrow> ui_states p2 r \<noteq> None);
        show_ui_for_presented_request p2
      })"

definition show_overlay_ui :: "overlays \<Rightarrow> overlay_request \<Rightarrow> web_state \<Rightarrow> overlays option" where
  "show_overlay_ui p r queue = do {
     let st = (case ui_states p r of None \<Rightarrow> new_ui_state | Some st \<Rightarrow> st);
     st1 \<leftarrow> overlay_presentation_requested st queue;
     set_request (set_ui_state r (Some st1) p) (Some r)
   }"

text \<open>\<open>OverlayPresenterImpl::PresentOverlayForActiveRequest\<close>.\<close>

definition present_overlay_for_active_request ::
    "(overlay_request \<Rightarrow> bool) \<Rightarrow> overlays \<Rightarrow> overlays option" where
  "present_overlay_for_active_request uses_child p = do {
     dcheck (\<not> presenting p);
     if \<not> has_context p then Some p
     else case active_web_state p of
       None \<Rightarrow> Some p
     | Some ws \<Rightarrow>
         (case front_request p ws of
            None \<Rightarrow> Some p
          | Some r \<Rightarrow>
              if \<not> can_show_ui uses_child r (capabilities p) then Some p
              else let p1 = p\<lparr>presenting := True, presented_request := Some r\<rparr>;
                       (es, all) = tell_observers WillShow r 0 (supports p1);
                       p2 = log_overlay es p1
                   in if all then show_overlay_ui p2 r ws else Some p2)
   }"

section \<open>Dismissing\<close>

text \<open>A request leaves the queue it is in; its cancel handler goes with it.\<close>

definition drop_request :: "web_state \<Rightarrow> overlay_request \<Rightarrow> overlays \<Rightarrow> overlays" where
  "drop_request ws r p = p\<lparr>queues := (queues p)(ws := remove1 r (queues p ws)),
     default_handlers := (default_handlers p)(ws := removeAll r (default_handlers p ws))\<rparr>"

text \<open>
  \<open>OverlayPresenterImpl::OverlayWasDismissed\<close>, the dismissal callback: \<open>ws\<close> is the tab whose
  queue it is bound to. A request dismissed by the user is destroyed when the function returns.
\<close>

definition overlay_was_dismissed ::
    "(overlay_request \<Rightarrow> bool) \<Rightarrow> overlays \<Rightarrow> overlay_request \<Rightarrow> web_state \<Rightarrow> dismissal_reason
      \<Rightarrow> overlays option" where
  "overlay_was_dismissed uses_child p r ws reason =
     (if \<not> has_context p then Some p
      else do {
        let popped = (reason = kUserInteraction \<and> front_request p ws = Some r);
        let p1 = (if popped then drop_request ws r p else p);
        dcheck (case presented_request p1 of Some q \<Rightarrow> q = r | None \<Rightarrow> reason = kCancellation);
        let p2 = p1\<lparr>presenting := False, presented_request := None\<rparr>;
        let (es, all) = tell_observers DidHide r 0 (supports p2);
        let p3 = log_overlay es p2;
        p4 \<leftarrow> (if all \<and> get_active_request p3 \<noteq> Some r
               then present_overlay_for_active_request uses_child p3 else Some p3);
        Some (if popped then log_overlay [Completed r] p4 else p4)
      })"

text \<open>\<open>OverlayRequestUIState::OverlayUIWasDismissed\<close>: the callback is moved out and run.\<close>

definition run_dismissal_callback ::
    "(overlay_request \<Rightarrow> bool) \<Rightarrow> overlays \<Rightarrow> overlay_request \<Rightarrow> overlays option" where
  "run_dismissal_callback uses_child p r =
     (case ui_states p r of
        None \<Rightarrow> None
      | Some st \<Rightarrow>
          (case dismissal_callback st of
             None \<Rightarrow> None
           | Some ws \<Rightarrow> overlay_was_dismissed uses_child
               (set_ui_state r (Some (st\<lparr>dismissal_callback := None\<rparr>)) p) r ws
               (ui_dismissal_reason st)))"

text \<open>\<open>OverlayPresentationContextImpl::OverlayUIWasDismissed\<close>.\<close>

definition overlay_ui_was_dismissed ::
    "(overlay_request \<Rightarrow> bool) \<Rightarrow> overlays \<Rightarrow> overlays option" where
  "overlay_ui_was_dismissed uses_child p =
     (case context_request p of
        None \<Rightarrow> None
      | Some r \<Rightarrow> do {
          p1 \<leftarrow> run_dismissal_callback uses_child p r;
          if context_request p1 = Some r then set_request p1 None else Some p1
        })"

text \<open>
  \<open>OverlayPresentationContextImpl::DismissPresentedUI\<close>, only called to hide and to cancel, so
  without animation: a started coordinator reports the dismissal before it returns, and one that
  is closing is already stopped and does nothing.
\<close>

definition dismiss_presented_ui ::
    "(overlay_request \<Rightarrow> bool) \<Rightarrow> overlays \<Rightarrow> dismissal_reason \<Rightarrow> overlays option" where
  "dismiss_presented_ui uses_child p reason =
     (case context_request p of
        None \<Rightarrow> None
      | Some r \<Rightarrow>
          (case ui_states p r of
             None \<Rightarrow> None
           | Some st \<Rightarrow>
               (case ui_coordinator st of
                  None \<Rightarrow> None
                | Some c \<Rightarrow> do {
                    dcheck (container p \<noteq> None);
                    let st1 = st\<lparr>ui_dismissal_reason := reason\<rparr>;
                    if phase c = Started
                    then overlay_ui_was_dismissed uses_child
                           (set_ui_state r (Some (st1\<lparr>ui_coordinator := Some (c\<lparr>phase := Stopped\<rparr>)\<rparr>)) p)
                    else Some (set_ui_state r (Some st1) p)
                  })))"

definition hide_overlay_ui ::
    "(overlay_request \<Rightarrow> bool) \<Rightarrow> overlays \<Rightarrow> overlay_request option \<Rightarrow> overlays option" where
  "hide_overlay_ui uses_child p request = do {
     dcheck (context_request p = request);
     case request of
       None \<Rightarrow> None
     | Some r \<Rightarrow>
         (case ui_states p r of
            None \<Rightarrow> None
          | Some st \<Rightarrow> do {
              dcheck (has_callback st);
              if container p \<noteq> None then dismiss_presented_ui uses_child p kHiding
              else overlay_ui_was_dismissed uses_child
                     (set_ui_state r (Some (st\<lparr>ui_dismissal_reason := kHiding\<rparr>)) p)
            })
   }"

definition cancel_overlay_ui ::
    "(overlay_request \<Rightarrow> bool) \<Rightarrow> overlays \<Rightarrow> overlay_request \<Rightarrow> overlays option" where
  "cancel_overlay_ui uses_child p r =
     (case ui_states p r of
        None \<Rightarrow> Some p
      | Some st \<Rightarrow>
          if \<not> has_callback st then Some (set_ui_state r None p)
          else if container p = None then do {
            dcheck (context_request p = Some r);
            run_dismissal_callback uses_child
              (set_ui_state r (Some (st\<lparr>ui_dismissal_reason := kCancellation\<rparr>)) p) r
          }
          else dismiss_presented_ui uses_child p kCancellation)"

definition cancel_overlay_ui_for_request ::
    "(overlay_request \<Rightarrow> bool) \<Rightarrow> overlays \<Rightarrow> overlay_request option \<Rightarrow> overlays option" where
  "cancel_overlay_ui_for_request uses_child p request =
     (case request of
        None \<Rightarrow> Some p
      | Some r \<Rightarrow> if has_context p then cancel_overlay_ui uses_child p r else Some p)"

fun cancel_all_overlay_ui ::
    "(overlay_request \<Rightarrow> bool) \<Rightarrow> web_state_wrapper list \<Rightarrow> overlays \<Rightarrow> overlays option" where
  "cancel_all_overlay_ui uses_child [] p = Some p"
| "cancel_all_overlay_ui uses_child (w # ws) p = do {
     p1 \<leftarrow> cancel_overlay_ui_for_request uses_child p
            (get_front_request_for_web_state p (wrapped w));
     cancel_all_overlay_ui uses_child ws p1
   }"

section \<open>The presenter\<close>

definition set_presentation_context ::
    "(overlay_request \<Rightarrow> bool) \<Rightarrow> web_state_list \<Rightarrow> overlays \<Rightarrow> bool \<Rightarrow> overlays option" where
  "set_presentation_context uses_child l p context = do {
     p1 \<leftarrow> (if has_context p then cancel_all_overlay_ui uses_child (wrappers l) p else Some p);
     let p2 = p1\<lparr>has_context := context, presenting := False, presented_request := None\<rparr>;
     if context then present_overlay_for_active_request uses_child p2 else Some p2
   }"

definition set_active_web_state ::
    "(overlay_request \<Rightarrow> bool) \<Rightarrow> overlays \<Rightarrow> web_state option \<Rightarrow> int \<Rightarrow> overlays option" where
  "set_active_web_state uses_child p ws reason =
     (if active_web_state p = ws then Some p
      else let previously_active_request = get_active_request p;
               should_cancel_ui =
                 (reason AND CHANGE_REASON_REPLACED \<noteq> 0 \<or> detaching_active_web_state p);
               p1 = p\<lparr>active_web_state := ws, detaching_active_web_state := False\<rparr>
           in if \<not> has_context p1 then Some p1
              else if \<not> presenting p1 then present_overlay_for_active_request uses_child p1
              else do {
                dcheck (previously_active_request \<noteq> None);
                if should_cancel_ui
                then cancel_overlay_ui_for_request uses_child p1 previously_active_request
                else hide_overlay_ui uses_child p1 previously_active_request
              })"

definition observe_queue :: "overlays \<Rightarrow> web_state option \<Rightarrow> overlays option" where
  "observe_queue p ws =
     (case ws of
        None \<Rightarrow> None
      | Some ws \<Rightarrow> do {
          dcheck (\<not> observing p ws);
          Some (p\<lparr>observing := (observing p)(ws := True)\<rparr>)
        })"

definition stop_observing_queue :: "overlays \<Rightarrow> web_state option \<Rightarrow> overlays option" where
  "stop_observing_queue p ws =
     (case ws of
        None \<Rightarrow> None
      | Some ws \<Rightarrow> Some (p\<lparr>observing := (observing p)(ws := False)\<rparr>))"

text \<open>The constructor: the queues of the tabs there are, then the active tab.\<close>

fun observe_queues :: "overlays \<Rightarrow> web_state_wrapper list \<Rightarrow> overlays option" where
  "observe_queues p [] = Some p"
| "observe_queues p (w # ws) = do { p1 \<leftarrow> observe_queue p (wrapped w); observe_queues p1 ws }"

definition create_presenter ::
    "(overlay_request \<Rightarrow> bool) \<Rightarrow> web_state_list \<Rightarrow> overlays \<Rightarrow> overlays option" where
  "create_presenter uses_child l p = do {
     p1 \<leftarrow> observe_queues p (wrappers l);
     active \<leftarrow> get_active_web_state l;
     set_active_web_state uses_child p1 active CHANGE_REASON_NONE
   }"

fun stop_observing_queues :: "overlays \<Rightarrow> web_state_wrapper list \<Rightarrow> overlays option" where
  "stop_observing_queues p [] = Some p"
| "stop_observing_queues p (w # ws) =
     do { p1 \<leftarrow> stop_observing_queue p (wrapped w); stop_observing_queues p1 ws }"

text \<open>
  The observer methods for the tab list. \<open>WebStateMoved\<close>, \<open>WebStateDetachedAt\<close>,
  \<open>WillCloseWebStateAt\<close> and the batch notifications are not overridden.
\<close>

fun observe_tab_list ::
    "(overlay_request \<Rightarrow> bool) \<Rightarrow> overlays \<Rightarrow> observer_event \<Rightarrow> overlays option" where
  "observe_tab_list uses_child p (WebStateInsertedAt ws i activating) = observe_queue p ws"
| "observe_tab_list uses_child p (WebStateReplacedAt old new i) = do {
     p1 \<leftarrow> stop_observing_queue p old;
     p2 \<leftarrow> observe_queue p1 new;
     if old \<noteq> active_web_state p2
     then cancel_overlay_ui_for_request uses_child p2 (get_front_request_for_web_state p2 old)
     else Some p2
   }"
| "observe_tab_list uses_child p (WillDetachWebStateAt ws i) = do {
     p1 \<leftarrow> stop_observing_queue p ws;
     let p2 = p1\<lparr>detaching_active_web_state := (ws = active_web_state p1)\<rparr>;
     if \<not> detaching_active_web_state p2
     then cancel_overlay_ui_for_request uses_child p2 (get_front_request_for_web_state p2 ws)
     else Some p2
   }"
| "observe_tab_list uses_child p (WebStateActivatedAt old new i reason) =
     set_active_web_state uses_child p new reason"
| "observe_tab_list uses_child p _ = Some p"

fun observe_all ::
    "(overlay_request \<Rightarrow> bool) \<Rightarrow> overlays \<Rightarrow> observer_event list \<Rightarrow> overlays option" where
  "observe_all uses_child p [] = Some p"
| "observe_all uses_child p (e # es) =
     do { p1 \<leftarrow> observe_tab_list uses_child p e; observe_all uses_child p1 es }"

text \<open>\<open>BrowserDestroyed\<close>.\<close>

definition browser_destroyed ::
    "(overlay_request \<Rightarrow> bool) \<Rightarrow> web_state_list \<Rightarrow> overlays \<Rightarrow> overlays option" where
  "browser_destroyed uses_child l p = do {
     p1 \<leftarrow> set_presentation_context uses_child l p False;
     p2 \<leftarrow> set_active_web_state uses_child p1 None CHANGE_REASON_NONE;
     stop_observing_queues p2 (wrappers l)
   }"

section \<open>The queues\<close>

text \<open>The presenter as an observer of the queues.\<close>

definition request_added_to_queue ::
    "(overlay_request \<Rightarrow> bool) \<Rightarrow> overlays \<Rightarrow> web_state \<Rightarrow> overlay_request \<Rightarrow> overlays option" where
  "request_added_to_queue uses_child p ws r =
     (if get_active_request p \<noteq> Some r then Some p
      else if \<not> presenting p then present_overlay_for_active_request uses_child p
      else if presented_request p \<noteq> None \<and> length (queues p ws) > 1
              \<and> Some (queues p ws ! 1) = presented_request p
      then hide_overlay_ui uses_child p (presented_request p)
      else Some p)"

definition queued_request_cancelled ::
    "(overlay_request \<Rightarrow> bool) \<Rightarrow> overlays \<Rightarrow> overlay_request \<Rightarrow> overlays option" where
  "queued_request_cancelled uses_child p r =
     cancel_overlay_ui_for_request uses_child
       (if presented_request p = Some r then p\<lparr>presented_request := None\<rparr> else p) (Some r)"

text \<open>\<open>InsertRequest\<close>; the flag says that the request gets the default cancel handler.\<close>

definition insert_request ::
    "(overlay_request \<Rightarrow> bool) \<Rightarrow> overlays \<Rightarrow> web_state \<Rightarrow> nat \<Rightarrow> overlay_request \<Rightarrow> bool
      \<Rightarrow> overlays option" where
  "insert_request uses_child p ws index r default_handler = do {
     dcheck (index \<le> length (queues p ws));
     let p1 = p\<lparr>queues := (queues p)(ws := vector_insert index r (queues p ws)),
                default_handlers := (if default_handler
                  then (default_handlers p)(ws := default_handlers p ws @ [r])
                  else default_handlers p)\<rparr>;
     let p2 = log_overlay [Queued r] p1;
     if observing p2 ws then request_added_to_queue uses_child p2 ws r else Some p2
   }"

definition add_request ::
    "(overlay_request \<Rightarrow> bool) \<Rightarrow> overlays \<Rightarrow> web_state \<Rightarrow> overlay_request \<Rightarrow> bool
      \<Rightarrow> overlays option" where
  "add_request uses_child p ws r default_handler =
     insert_request uses_child p ws (length (queues p ws)) r default_handler"

text \<open>A request that is erased from its queue is destroyed, which runs its completion callbacks.\<close>

definition erase_request :: "web_state \<Rightarrow> overlay_request \<Rightarrow> overlays \<Rightarrow> overlays" where
  "erase_request ws r p = log_overlay [Completed r] (drop_request ws r p)"

definition cancel_request ::
    "(overlay_request \<Rightarrow> bool) \<Rightarrow> overlays \<Rightarrow> web_state \<Rightarrow> overlay_request \<Rightarrow> overlays option" where
  "cancel_request uses_child p ws r =
     (if r \<notin> set (queues p ws) then Some p
      else do {
        p1 \<leftarrow> (if observing p ws then queued_request_cancelled uses_child p r else Some p);
        Some (erase_request ws r p1)
      })"

text \<open>
  \<open>CancelAllRequests\<close>, from the back. Each turn removes one request, so as many turns as there
  are requests at the start are enough.
\<close>

fun cancel_from_back ::
    "(overlay_request \<Rightarrow> bool) \<Rightarrow> nat \<Rightarrow> overlays \<Rightarrow> web_state \<Rightarrow> overlays option" where
  "cancel_from_back uses_child 0 p ws = (if queues p ws = [] then Some p else None)"
| "cancel_from_back uses_child (Suc n) p ws =
     (if queues p ws = [] then Some p
      else do {
        let r = List.last (queues p ws);
        p1 \<leftarrow> (if observing p ws then queued_request_cancelled uses_child p r else Some p);
        cancel_from_back uses_child n (erase_request ws r p1) ws
      })"

definition cancel_all_requests ::
    "(overlay_request \<Rightarrow> bool) \<Rightarrow> overlays \<Rightarrow> web_state \<Rightarrow> overlays option" where
  "cancel_all_requests uses_child p ws =
     cancel_from_back uses_child (length (queues p ws)) p ws"

subsection \<open>The default cancel handlers\<close>

text \<open>
  The handlers of a tab, in the order in which they began to observe it, each cancel their
  request. \<open>WebStateDestroyed\<close> goes on to use the handler, which \<open>CancelRequest\<close> has destroyed.
\<close>

fun cancel_by_handlers ::
    "(overlay_request \<Rightarrow> bool) \<Rightarrow> overlays \<Rightarrow> web_state \<Rightarrow> overlay_request list \<Rightarrow> overlays option" where
  "cancel_by_handlers uses_child p ws [] = Some p"
| "cancel_by_handlers uses_child p ws (r # rs) = do {
     p1 \<leftarrow> cancel_request uses_child p ws r;
     cancel_by_handlers uses_child p1 ws rs
   }"

definition overlays_did_finish_navigation ::
    "(overlay_request \<Rightarrow> bool) \<Rightarrow> overlays \<Rightarrow> web_state \<Rightarrow> bool \<Rightarrow> bool \<Rightarrow> overlays option" where
  "overlays_did_finish_navigation uses_child p ws committed same_document =
     (if committed \<and> \<not> same_document
      then cancel_by_handlers uses_child p ws (default_handlers p ws) else Some p)"

definition render_process_gone ::
    "(overlay_request \<Rightarrow> bool) \<Rightarrow> overlays \<Rightarrow> web_state \<Rightarrow> overlays option" where
  "render_process_gone uses_child p ws =
     cancel_by_handlers uses_child p ws (default_handlers p ws)"

fun web_state_destroyed_handlers ::
    "(overlay_request \<Rightarrow> bool) \<Rightarrow> overlays \<Rightarrow> web_state \<Rightarrow> overlay_request list \<Rightarrow> overlays option" where
  "web_state_destroyed_handlers uses_child p ws [] = Some p"
| "web_state_destroyed_handlers uses_child p ws (r # rs) = do {
     p1 \<leftarrow> cancel_request uses_child p ws r;
     let p2 = (if r \<in> set (default_handlers p1 ws) then p1 else log_overlay [UsedAfterFree r] p1);
     web_state_destroyed_handlers uses_child p2 ws rs
   }"

text \<open>
  A tab is destroyed: its observers are told first, then its user data goes, the queue and the
  requests still in it among them.
\<close>

definition web_state_destroyed ::
    "(overlay_request \<Rightarrow> bool) \<Rightarrow> overlays \<Rightarrow> web_state \<Rightarrow> overlays option" where
  "web_state_destroyed uses_child p ws = do {
     p1 \<leftarrow> web_state_destroyed_handlers uses_child p ws (default_handlers p ws);
     Some (log_overlay (map Completed (queues p1 ws))
       (p1\<lparr>queues := (queues p1)(ws := []), default_handlers := (default_handlers p1)(ws := [])\<rparr>))
   }"

section \<open>The container of the UI\<close>

text \<open>The presentation context tells the presenter, which observes it while it is set.\<close>

definition will_change_capabilities ::
    "(overlay_request \<Rightarrow> bool) \<Rightarrow> overlays \<Rightarrow> int \<Rightarrow> overlays option" where
  "will_change_capabilities uses_child p caps =
     (if \<not> presenting p then Some p
      else case get_active_request p of
        None \<Rightarrow> None
      | Some r \<Rightarrow> if \<not> can_show_ui uses_child r caps then hide_overlay_ui uses_child p (Some r)
                  else Some p)"

definition did_change_capabilities ::
    "(overlay_request \<Rightarrow> bool) \<Rightarrow> overlays \<Rightarrow> overlays option" where
  "did_change_capabilities uses_child p =
     (if presenting p then Some p else present_overlay_for_active_request uses_child p)"

definition container_capabilities :: "nat option \<Rightarrow> bool \<Rightarrow> int" where
  "container_capabilities coordinator in_window =
     (kNone OR (if coordinator \<noteq> None then kContained else 0))
       OR (if coordinator \<noteq> None \<and> in_window then kPresented else 0)"

definition update_for_coordinator ::
    "(overlay_request \<Rightarrow> bool) \<Rightarrow> overlays \<Rightarrow> nat option \<Rightarrow> bool \<Rightarrow> overlays option" where
  "update_for_coordinator uses_child p coordinator in_window = do {
     let caps = container_capabilities coordinator in_window;
     let changed = (capabilities p \<noteq> caps);
     p1 \<leftarrow> (if changed \<and> has_context p then will_change_capabilities uses_child p caps else Some p);
     let p2 = p1\<lparr>capabilities := caps, container := coordinator\<rparr>;
     if changed \<and> has_context p2 then did_change_capabilities uses_child p2 else Some p2
   }"

definition set_coordinator ::
    "(overlay_request \<Rightarrow> bool) \<Rightarrow> overlays \<Rightarrow> nat option \<Rightarrow> bool \<Rightarrow> overlays option" where
  "set_coordinator uses_child p coordinator in_window =
     (if container p = coordinator then Some p
      else update_for_coordinator uses_child p coordinator in_window)"

definition window_did_change ::
    "(overlay_request \<Rightarrow> bool) \<Rightarrow> overlays \<Rightarrow> bool \<Rightarrow> overlays option" where
  "window_did_change uses_child p in_window =
     update_for_coordinator uses_child p (container p) in_window"

subsection \<open>The user\<close>

text \<open>
  The user answers the request on screen: its coordinator begins to close. At the end of the
  animation it reports the dismissal, unless it is gone.
\<close>

definition user_dismisses :: "overlays \<Rightarrow> overlays option" where
  "user_dismisses p =
     (case context_request p of
        None \<Rightarrow> Some p
      | Some r \<Rightarrow>
          (case ui_states p r of
             None \<Rightarrow> Some p
           | Some st \<Rightarrow>
               (case ui_coordinator st of
                  None \<Rightarrow> Some p
                | Some c \<Rightarrow>
                    if phase c = Started
                    then Some (log_overlay [Answered r] (set_ui_state r
                           (Some (st\<lparr>ui_coordinator := Some (c\<lparr>phase := Closing\<rparr>)\<rparr>)) p))
                    else Some p)))"

definition dismissal_finished ::
    "(overlay_request \<Rightarrow> bool) \<Rightarrow> overlays \<Rightarrow> overlay_request \<Rightarrow> overlays option" where
  "dismissal_finished uses_child p r =
     (case ui_states p r of
        None \<Rightarrow> Some p
      | Some st \<Rightarrow>
          (case ui_coordinator st of
             None \<Rightarrow> Some p
           | Some c \<Rightarrow>
               if phase c = Closing then do {
                 dcheck (context_request p = Some r);
                 overlay_ui_was_dismissed uses_child
                   (set_ui_state r (Some (st\<lparr>ui_coordinator := Some (c\<lparr>phase := Stopped\<rparr>)\<rparr>)) p)
               }
               else Some p))"

section \<open>A window\<close>

text \<open>
  What the tab list has told one observer, and the steps of a window: an operation on the tab
  list followed by the presenter's reactions, or an event of the overlays. The presenter is the
  observer \<open>presenter_id\<close> of the tab list.
\<close>

definition presenter_id :: nat where "presenter_id = 0"

definition heard :: "nat \<Rightarrow> notification list \<Rightarrow> observer_event list" where
  "heard ob ns = concat (map (\<lambda>n. case n of ToObserver o' b e \<Rightarrow> if o' = ob then [e] else []
     | ToDelegate c \<Rightarrow> []) ns)"

definition news :: "nat \<Rightarrow> web_state_list \<Rightarrow> web_state_list \<Rightarrow> observer_event list" where
  "news ob l l1 = drop (length (heard ob (notifications l))) (heard ob (notifications l1))"

datatype overlay_op =
    TabList web_state_list_op
  | InsertRequest web_state nat overlay_request bool
  | CancelRequest web_state overlay_request
  | CancelAllRequests web_state
  | DidFinishNavigation web_state bool bool
  | RenderProcessGone web_state
  | WebStateDestroyed web_state
  | SetPresentationContext bool
  | SetCoordinator "nat option" bool
  | WindowDidChange bool
  | UserDismisses
  | DismissalFinished overlay_request

fun overlay_step ::
    "web_state_env \<Rightarrow> (overlay_request \<Rightarrow> bool) \<Rightarrow> web_state_list \<times> overlays \<Rightarrow> overlay_op
      \<Rightarrow> (web_state_list \<times> overlays) option" where
  "overlay_step env uses_child (l, p) (TabList c) = do {
     l1 \<leftarrow> web_state_list_step env l c;
     p1 \<leftarrow> observe_all uses_child p (news presenter_id l l1);
     Some (l1, p1)
   }"
| "overlay_step env uses_child (l, p) (InsertRequest ws i r d) =
     map_option (Pair l) (insert_request uses_child p ws i r d)"
| "overlay_step env uses_child (l, p) (CancelRequest ws r) =
     map_option (Pair l) (cancel_request uses_child p ws r)"
| "overlay_step env uses_child (l, p) (CancelAllRequests ws) =
     map_option (Pair l) (cancel_all_requests uses_child p ws)"
| "overlay_step env uses_child (l, p) (DidFinishNavigation ws committed same) =
     map_option (Pair l) (overlays_did_finish_navigation uses_child p ws committed same)"
| "overlay_step env uses_child (l, p) (RenderProcessGone ws) =
     map_option (Pair l) (render_process_gone uses_child p ws)"
| "overlay_step env uses_child (l, p) (WebStateDestroyed ws) =
     map_option (Pair l) (web_state_destroyed uses_child p ws)"
| "overlay_step env uses_child (l, p) (SetPresentationContext b) =
     map_option (Pair l) (set_presentation_context uses_child l p b)"
| "overlay_step env uses_child (l, p) (SetCoordinator c w) =
     map_option (Pair l) (set_coordinator uses_child p c w)"
| "overlay_step env uses_child (l, p) (WindowDidChange w) =
     map_option (Pair l) (window_did_change uses_child p w)"
| "overlay_step env uses_child (l, p) UserDismisses = map_option (Pair l) (user_dismisses p)"
| "overlay_step env uses_child (l, p) (DismissalFinished r) =
     map_option (Pair l) (dismissal_finished uses_child p r)"

end
