(* ===== verification/OverlaysFacts.thy ===== *)
theory OverlaysFacts
  imports Overlays
begin

text \<open>
  What holds of the overlays of a window.
\<close>

section \<open>States of the presenter and its context\<close>

definition is_lifecycle :: "overlay_event \<Rightarrow> bool" where
  "is_lifecycle e = (case e of Queued r \<Rightarrow> True | Completed r \<Rightarrow> True | _ \<Rightarrow> False)"

definition lifecycle :: "overlays \<Rightarrow> overlay_event list" where
  "lifecycle p = filter is_lifecycle (overlay_log p)"

definition supports_all :: "overlays \<Rightarrow> bool" where
  "supports_all p = (\<forall>s \<in> set (supports p). s = (\<lambda>_. True))"

definition quiet_state :: "ui_state \<Rightarrow> bool" where
  "quiet_state st = (dismissal_callback st = None \<and> \<not> presentation_callback st \<and>
     (case ui_coordinator st of None \<Rightarrow> True | Some c \<Rightarrow> phase c = Stopped))"

definition quiet_but :: "overlay_request option \<Rightarrow> overlays \<Rightarrow> bool" where
  "quiet_but x p = (\<forall>r st. Some r \<noteq> x \<longrightarrow> ui_states p r = Some st \<longrightarrow> quiet_state st)"

text \<open>No UI, and the UI of one request in a phase of its coordinator.\<close>

definition ui_idle :: "overlays \<Rightarrow> bool" where
  "ui_idle p = (\<not> presenting p \<and> presented_request p = None \<and> context_request p = None \<and> quiet_but None p)"

definition ui_up :: "coordinator_phase \<Rightarrow> overlays \<Rightarrow> overlay_request \<Rightarrow> web_state \<Rightarrow> bool" where
  "ui_up ph p r ws = (presenting p \<and> context_request p = Some r \<and> has_context p \<and> container p \<noteq> None \<and>
     quiet_but (Some r) p \<and>
     (case ui_states p r of None \<Rightarrow> False | Some st \<Rightarrow>
        dismissal_callback st = Some ws \<and> \<not> presentation_callback st \<and>
        (ph \<noteq> Stopped \<longrightarrow> ui_dismissal_reason st = kUserInteraction) \<and>
        (case ui_coordinator st of None \<Rightarrow> False | Some c \<Rightarrow> phase c = ph)))"

text \<open>What the showing and dismissing of UI leaves alone.\<close>

definition frame :: "overlays \<Rightarrow> overlays \<Rightarrow> bool" where
  "frame p p' = (active_web_state p' = active_web_state p \<and> has_context p' = has_context p \<and>
     supports p' = supports p \<and> queues p' = queues p \<and> default_handlers p' = default_handlers p \<and>
     observing p' = observing p \<and> detaching_active_web_state p' = detaching_active_web_state p \<and>
     container p' = container p \<and> capabilities p' = capabilities p \<and> lifecycle p' = lifecycle p)"

definition wanted_request :: "(overlay_request \<Rightarrow> bool) \<Rightarrow> overlays \<Rightarrow> overlay_request option" where
  "wanted_request uses_child p =
     (case get_active_request p of
        None \<Rightarrow> None
      | Some r \<Rightarrow> if has_context p \<and> can_show_ui uses_child r (capabilities p) then Some r else None)"

lemma frame_refl [simp]: "frame p p"
  by (simp add: frame_def)

lemma frame_trans: "frame p q \<Longrightarrow> frame q s \<Longrightarrow> frame p s"
  by (simp add: frame_def)

lemma log_overlay_simps [simp]:
  "presenting (log_overlay es p) = presenting p"
  "presented_request (log_overlay es p) = presented_request p"
  "detaching_active_web_state (log_overlay es p) = detaching_active_web_state p"
  "active_web_state (log_overlay es p) = active_web_state p"
  "has_context (log_overlay es p) = has_context p"
  "supports (log_overlay es p) = supports p"
  "queues (log_overlay es p) = queues p"
  "default_handlers (log_overlay es p) = default_handlers p"
  "observing (log_overlay es p) = observing p"
  "context_request (log_overlay es p) = context_request p"
  "ui_states (log_overlay es p) = ui_states p"
  "container (log_overlay es p) = container p"
  "capabilities (log_overlay es p) = capabilities p"
  "overlay_log (log_overlay es p) = overlay_log p @ es"
  by (simp_all add: log_overlay_def)

lemma set_ui_state_simps [simp]:
  "presenting (set_ui_state r st p) = presenting p"
  "presented_request (set_ui_state r st p) = presented_request p"
  "detaching_active_web_state (set_ui_state r st p) = detaching_active_web_state p"
  "active_web_state (set_ui_state r st p) = active_web_state p"
  "has_context (set_ui_state r st p) = has_context p"
  "supports (set_ui_state r st p) = supports p"
  "queues (set_ui_state r st p) = queues p"
  "default_handlers (set_ui_state r st p) = default_handlers p"
  "observing (set_ui_state r st p) = observing p"
  "context_request (set_ui_state r st p) = context_request p"
  "ui_states (set_ui_state r st p) = (ui_states p)(r := st)"
  "container (set_ui_state r st p) = container p"
  "capabilities (set_ui_state r st p) = capabilities p"
  "overlay_log (set_ui_state r st p) = overlay_log p"
  by (simp_all add: set_ui_state_def)

lemma front_request_simps [simp]:
  "front_request (log_overlay es p) = front_request p"
  "front_request (set_ui_state r st p) = front_request p"
  "front_request (p\<lparr>presenting := b\<rparr>) = front_request p"
  "front_request (p\<lparr>presented_request := q\<rparr>) = front_request p"
  "front_request (p\<lparr>context_request := q\<rparr>) = front_request p"
  "front_request (p\<lparr>has_context := b\<rparr>) = front_request p"
  "front_request (p\<lparr>detaching_active_web_state := b\<rparr>) = front_request p"
  "front_request (p\<lparr>active_web_state := w\<rparr>) = front_request p"
  "front_request (p\<lparr>observing := f\<rparr>) = front_request p"
  "front_request (p\<lparr>container := c\<rparr>) = front_request p"
  "front_request (p\<lparr>capabilities := n\<rparr>) = front_request p"
  by (simp_all add: front_request_def fun_eq_iff)

lemma get_active_request_simps [simp]:
  "get_active_request (log_overlay es p) = get_active_request p"
  "get_active_request (set_ui_state r st p) = get_active_request p"
  "get_active_request (p\<lparr>presenting := b\<rparr>) = get_active_request p"
  "get_active_request (p\<lparr>presented_request := q\<rparr>) = get_active_request p"
  "get_active_request (p\<lparr>context_request := q\<rparr>) = get_active_request p"
  "get_active_request (p\<lparr>has_context := b\<rparr>) = get_active_request p"
  "get_active_request (p\<lparr>detaching_active_web_state := b\<rparr>) = get_active_request p"
  "get_active_request (p\<lparr>observing := f\<rparr>) = get_active_request p"
  "get_active_request (p\<lparr>container := c\<rparr>) = get_active_request p"
  "get_active_request (p\<lparr>capabilities := n\<rparr>) = get_active_request p"
  by (simp_all add: get_active_request_def get_front_request_for_web_state_def split: option.splits)

lemma tell_observers_all:
  "\<forall>s \<in> set ss. s = (\<lambda>_. True) \<Longrightarrow> snd (tell_observers f r i ss)"
  by (induction ss arbitrary: i) (auto simp: Let_def case_prod_unfold)

lemma tell_observers_events: "e \<in> set (fst (tell_observers f r i ss)) \<Longrightarrow> \<exists>k. e = f k r"
  by (induction ss arbitrary: i) (auto simp: Let_def case_prod_unfold split: if_splits)

lemma tell_observers_lifecycle:
  assumes "\<And>k. \<not> is_lifecycle (f k r)"
  shows "filter is_lifecycle (fst (tell_observers f r i ss)) = []"
  using assms by (auto simp: filter_empty_conv dest!: tell_observers_events)

lemma notice_lifecycle [simp]:
  "filter is_lifecycle (fst (tell_observers WillShow r i ss)) = []"
  "filter is_lifecycle (fst (tell_observers DidShow r i ss)) = []"
  "filter is_lifecycle (fst (tell_observers DidHide r i ss)) = []"
  by (rule tell_observers_lifecycle, simp add: is_lifecycle_def)+

lemma lifecycle_simps [simp]:
  "lifecycle (set_ui_state r st p) = lifecycle p"
  "lifecycle (log_overlay es p) = lifecycle p @ filter is_lifecycle es"
  "lifecycle (p\<lparr>presenting := b\<rparr>) = lifecycle p"
  "lifecycle (p\<lparr>presented_request := q\<rparr>) = lifecycle p"
  "lifecycle (p\<lparr>context_request := q\<rparr>) = lifecycle p"
  "lifecycle (p\<lparr>has_context := b\<rparr>) = lifecycle p"
  "lifecycle (p\<lparr>detaching_active_web_state := b\<rparr>) = lifecycle p"
  "lifecycle (p\<lparr>active_web_state := w\<rparr>) = lifecycle p"
  "lifecycle (p\<lparr>observing := f\<rparr>) = lifecycle p"
  "lifecycle (p\<lparr>queues := qs\<rparr>) = lifecycle p"
  "lifecycle (p\<lparr>default_handlers := qs\<rparr>) = lifecycle p"
  "lifecycle (p\<lparr>container := c\<rparr>) = lifecycle p"
  "lifecycle (p\<lparr>capabilities := n\<rparr>) = lifecycle p"
  by (simp_all add: lifecycle_def)

section \<open>Showing and dismissing\<close>

lemma forget_quiet:
  assumes "context_request p = Some q" and "ui_states p q = Some st" and "quiet_state st"
  shows "forget_presented_request p = Some (if ui_dismissal_reason st = kUserInteraction
      \<or> ui_dismissal_reason st = kCancellation then set_ui_state q None p else p)"
  using assms by (cases "ui_coordinator st")
    (simp_all add: forget_presented_request_def quiet_state_def has_callback_def)

definition shown_state :: "ui_state \<Rightarrow> nat \<Rightarrow> ui_state" where
  "shown_state st base = st\<lparr>ui_coordinator := Some ((coordinator_for st base)\<lparr>phase := Started\<rparr>),
     has_ui_been_presented := True, presentation_callback := False\<rparr>"

lemma show_ui_shows:
  assumes "context_request p = Some r" and "ui_states p r = Some st" and "container p = Some base"
    and "presentation_callback st" and "has_context p" and "presented_request p = Some r"
  shows "show_ui_for_presented_request p =
    Some (log_overlay (fst (tell_observers DidShow r 0 (supports p))) (set_ui_state r (Some (shown_state st base)) p))"
  using assms by (simp add: show_ui_for_presented_request_def overlay_was_presented_def shown_state_def Let_def)

lemma set_request_shows:
  assumes "\<And>q. context_request p = Some q \<Longrightarrow> \<exists>sq. ui_states p q = Some sq \<and> quiet_state sq \<and> q \<noteq> r"
    and "ui_states p r = Some st" and "container p = Some base"
    and "presentation_callback st" and "has_context p" and "presented_request p = Some r"
  shows "\<exists>p1. set_request p (Some r) = Some p1 \<and> frame p p1 \<and> presenting p1 = presenting p \<and>
    presented_request p1 = Some r \<and> context_request p1 = Some r \<and>
    ui_states p1 r = Some (shown_state st base) \<and>
    (\<forall>q sq. q \<noteq> r \<longrightarrow> ui_states p1 q = Some sq \<longrightarrow> ui_states p q = Some sq)"
proof (cases "context_request p")
  case None
  have "show_ui_for_presented_request (p\<lparr>context_request := Some r\<rparr>) =
    Some (log_overlay (fst (tell_observers DidShow r 0 (supports (p\<lparr>context_request := Some r\<rparr>))))
      (set_ui_state r (Some (shown_state st base)) (p\<lparr>context_request := Some r\<rparr>)))"
    by (rule show_ui_shows) (use assms in simp_all)
  with None assms(2,6) show ?thesis
    by (simp add: set_request_def forget_presented_request_def frame_def Let_def)
next
  case (Some q)
  then obtain sq where sq: "ui_states p q = Some sq" "quiet_state sq" "q \<noteq> r" using assms(1) by blast
  define p0 where "p0 = (if ui_dismissal_reason sq = kUserInteraction \<or> ui_dismissal_reason sq = kCancellation
    then set_ui_state q None p else p)"
  have p0: "forget_presented_request p = Some p0" "frame p p0" "presenting p0 = presenting p"
    "presented_request p0 = presented_request p" "ui_states p0 r = Some st"
    "\<forall>q sq. ui_states p0 q = Some sq \<longrightarrow> ui_states p q = Some sq"
    using forget_quiet [OF Some sq(1,2)] sq(3) assms(2) by (simp_all add: p0_def frame_def)
  have "show_ui_for_presented_request (p0\<lparr>context_request := Some r\<rparr>) =
    Some (log_overlay (fst (tell_observers DidShow r 0 (supports (p0\<lparr>context_request := Some r\<rparr>))))
      (set_ui_state r (Some (shown_state st base)) (p0\<lparr>context_request := Some r\<rparr>)))"
    by (rule show_ui_shows) (use assms p0 in \<open>simp_all add: frame_def\<close>)
  with Some p0 sq(3) assms(6) show ?thesis
    by (simp add: set_request_def frame_def Let_def)
qed

lemma present_shows:
  assumes "supports_all p" and "\<not> presenting p" and "has_context p" and "container p \<noteq> None"
    and "active_web_state p = Some ws" and "front_request p ws = Some r"
    and "can_show_ui uses_child r (capabilities p)" and "quiet_but None p"
    and "\<And>q. context_request p = Some q \<Longrightarrow> ui_states p q \<noteq> None \<and> q \<noteq> r"
  shows "\<exists>p'. present_overlay_for_active_request uses_child p = Some p' \<and> frame p p' \<and>
    ui_up Started p' r ws \<and> presented_request p' = Some r"
proof -
  obtain base where base: "container p = Some base" using assms(4) by blast
  define st where "st = (case ui_states p r of None \<Rightarrow> new_ui_state | Some st \<Rightarrow> st)"
  have quiet: "quiet_state st"
    using assms(8) by (cases "ui_states p r") (simp_all add: st_def new_ui_state_def quiet_but_def quiet_state_def)
  define st1 where "st1 = st\<lparr>presentation_callback := True, dismissal_callback := Some ws,
      ui_dismissal_reason := kUserInteraction\<rparr>"
  define p1 where "p1 = log_overlay (fst (tell_observers WillShow r 0 (supports p)))
      (p\<lparr>presenting := True, presented_request := Some r\<rparr>)"
  define p2 where "p2 = set_ui_state r (Some st1) p1"
  have requested: "overlay_presentation_requested st ws = Some st1"
    using quiet by (simp add: overlay_presentation_requested_def quiet_state_def st1_def)
  have present: "present_overlay_for_active_request uses_child p = set_request p2 (Some r)"
    using assms tell_observers_all [of "supports p" WillShow r 0] requested
    by (simp add: present_overlay_for_active_request_def supports_all_def Let_def case_prod_unfold
        p1_def [symmetric] show_overlay_ui_def p2_def)
      (simp add: p1_def st_def)
  have "\<exists>p3. set_request p2 (Some r) = Some p3 \<and> frame p2 p3 \<and> presenting p3 = presenting p2 \<and>
    presented_request p3 = Some r \<and> context_request p3 = Some r \<and>
    ui_states p3 r = Some (shown_state st1 base) \<and>
    (\<forall>q sq. q \<noteq> r \<longrightarrow> ui_states p3 q = Some sq \<longrightarrow> ui_states p2 q = Some sq)"
  proof (rule set_request_shows)
    fix q assume "context_request p2 = Some q"
    then have "ui_states p q \<noteq> None" "q \<noteq> r" using assms(9) [of q] by (simp_all add: p2_def p1_def)
    then show "\<exists>sq. ui_states p2 q = Some sq \<and> quiet_state sq \<and> q \<noteq> r"
      using assms(8) by (auto simp: p2_def p1_def quiet_but_def)
  qed (use assms base in \<open>simp_all add: p2_def p1_def st1_def\<close>)
  then obtain p3 where p3: "set_request p2 (Some r) = Some p3" "frame p2 p3" "presenting p3"
    "presented_request p3 = Some r" "context_request p3 = Some r"
    "ui_states p3 r = Some (shown_state st1 base)"
    "\<forall>q sq. q \<noteq> r \<longrightarrow> ui_states p3 q = Some sq \<longrightarrow> ui_states p2 q = Some sq"
    by (auto simp: p2_def p1_def)
  have "frame p p2" by (simp add: frame_def p2_def p1_def)
  then have f: "frame p p3" using p3(2) frame_trans by blast
  moreover have "ui_up Started p3 r ws"
    using p3(3,5,6,7) f assms(3,4,8)
    by (auto simp: ui_up_def frame_def shown_state_def st1_def quiet_but_def p2_def p1_def)
  ultimately show ?thesis using present p3(1,4) by simp
qed

text \<open>An empty or a running presentation: what is shown is what is wanted.\<close>

definition sound :: "overlays \<Rightarrow> bool" where
  "sound p = (supports_all p \<and> (capabilities p \<noteq> 0 \<longrightarrow> container p \<noteq> None))"

definition shows_ui :: "overlays \<Rightarrow> overlay_request option \<Rightarrow> overlays \<Rightarrow> bool" where
  "shows_ui p x p' = (case x of None \<Rightarrow> ui_idle p'
     | Some r \<Rightarrow> presented_request p' = Some r \<and>
         (case active_web_state p of None \<Rightarrow> False | Some ws \<Rightarrow> ui_up Started p' r ws))"

lemma frame_sound: "frame p q \<Longrightarrow> sound q = sound p"
  by (simp add: frame_def sound_def supports_all_def)

lemma sound_simps [simp]:
  "sound (log_overlay es p) = sound p"
  "sound (set_ui_state r st p) = sound p"
  "sound (p\<lparr>presenting := b\<rparr>) = sound p"
  "sound (p\<lparr>presented_request := q\<rparr>) = sound p"
  "sound (p\<lparr>detaching_active_web_state := b\<rparr>) = sound p"
  "sound (p\<lparr>active_web_state := w\<rparr>) = sound p"
  "sound (p\<lparr>observing := f\<rparr>) = sound p"
  "sound (p\<lparr>has_context := b\<rparr>) = sound p"
  "sound (p\<lparr>queues := qs\<rparr>) = sound p"
  "sound (drop_request ws r p) = sound p"
  by (simp_all add: sound_def supports_all_def drop_request_def)

lemma can_show_ui_0 [simp]: "\<not> can_show_ui uses_child r 0"
  by (simp add: can_show_ui_def)

lemma present_result:
  assumes "sound p" and "\<not> presenting p" and "quiet_but None p"
    and "\<And>q. context_request p = Some q \<Longrightarrow> ui_states p q \<noteq> None \<and> get_active_request p \<noteq> Some q"
  shows "\<exists>p'. present_overlay_for_active_request uses_child p = Some p' \<and> frame p p' \<and>
    (if wanted_request uses_child p = None then p' = p
     else shows_ui p (wanted_request uses_child p) p')"
proof (cases "wanted_request uses_child p")
  case None
  then have "present_overlay_for_active_request uses_child p = Some p"
    using assms(2)
    by (auto simp: present_overlay_for_active_request_def wanted_request_def get_active_request_def
        get_front_request_for_web_state_def split: option.splits if_splits)
  with None show ?thesis by simp
next
  case (Some r)
  then obtain ws where ws: "active_web_state p = Some ws" "front_request p ws = Some r" "has_context p"
    "can_show_ui uses_child r (capabilities p)" and active: "get_active_request p = Some r"
    by (auto simp: wanted_request_def get_active_request_def get_front_request_for_web_state_def
        split: option.splits if_splits)
  have "capabilities p \<noteq> 0" using ws(4) by (cases "capabilities p = 0") simp_all
  then have "container p \<noteq> None" using assms(1) by (simp add: sound_def)
  then have "\<exists>p'. present_overlay_for_active_request uses_child p = Some p' \<and> frame p p' \<and>
      ui_up Started p' r ws \<and> presented_request p' = Some r"
    using assms(1,2,3) assms(4) active ws by (intro present_shows) (auto simp: sound_def)
  with Some ws(1) show ?thesis by (auto simp: shows_ui_def)
qed

lemma set_request_None:
  assumes "context_request p = Some q" and "ui_states p q = Some sq" and "quiet_but None p"
  shows "\<exists>p'. set_request p None = Some p' \<and> frame p p' \<and> presenting p' = presenting p \<and>
    presented_request p' = presented_request p \<and> context_request p' = None \<and> quiet_but None p'"
proof -
  have "quiet_state sq" using assms(2,3) by (auto simp: quiet_but_def)
  from forget_quiet [OF assms(1,2) this] show ?thesis
    using assms by (simp add: set_request_def show_ui_for_presented_request_def frame_def quiet_but_def)
qed

definition popped_by_user :: "overlays \<Rightarrow> overlay_request \<Rightarrow> web_state \<Rightarrow> dismissal_reason \<Rightarrow> bool" where
  "popped_by_user p r ws reason = (reason = kUserInteraction \<and> front_request p ws = Some r)"

lemma erase_request_simps [simp]:
  "presenting (drop_request ws r p) = presenting p"
  "presented_request (drop_request ws r p) = presented_request p"
  "detaching_active_web_state (drop_request ws r p) = detaching_active_web_state p"
  "active_web_state (drop_request ws r p) = active_web_state p"
  "has_context (drop_request ws r p) = has_context p"
  "supports (drop_request ws r p) = supports p"
  "observing (drop_request ws r p) = observing p"
  "context_request (drop_request ws r p) = context_request p"
  "ui_states (drop_request ws r p) = ui_states p"
  "container (drop_request ws r p) = container p"
  "capabilities (drop_request ws r p) = capabilities p"
  "overlay_log (drop_request ws r p) = overlay_log p"
  "lifecycle (drop_request ws r p) = lifecycle p"
  by (simp_all add: drop_request_def lifecycle_def)

definition left_by :: "overlay_request \<Rightarrow> web_state \<Rightarrow> dismissal_reason \<Rightarrow> overlays \<Rightarrow> overlays" where
  "left_by r ws reason q = log_overlay (fst (tell_observers DidHide r 0 (supports q)))
    ((if popped_by_user q r ws reason then drop_request ws r q else q)
       \<lparr>presenting := False, presented_request := None\<rparr>)"

lemma was_dismissed_eq:
  assumes "has_context q" and "supports_all q"
    and "case presented_request q of Some x \<Rightarrow> x = r | None \<Rightarrow> reason = kCancellation"
  shows "overlay_was_dismissed uses_child q r ws reason =
    map_option (if popped_by_user q r ws reason then log_overlay [Completed r] else id)
      (if get_active_request (left_by r ws reason q) \<noteq> Some r
       then present_overlay_for_active_request uses_child (left_by r ws reason q)
       else Some (left_by r ws reason q))"
proof -
  have all: "snd (tell_observers DidHide r 0 (supports q))"
    using assms(2) by (intro tell_observers_all) (simp add: supports_all_def)
  show ?thesis
    unfolding overlay_was_dismissed_def popped_by_user_def [symmetric] left_by_def
    using assms(1,3) all
    by (cases "popped_by_user q r ws reason"; cases "presented_request q")
      (simp_all add: Let_def case_prod_unfold map_conv_bind_option comp_def option.map_id)
qed

lemma ui_was_dismissed:
  fixes p r ws st
  defines "p0 \<equiv> (if popped_by_user p r ws (ui_dismissal_reason st) then drop_request ws r p else p)"
  assumes "sound p" and "ui_up Stopped p r ws" and "ui_states p r = Some st"
    and "case presented_request p of Some q \<Rightarrow> q = r | None \<Rightarrow> ui_dismissal_reason st = kCancellation"
  shows "\<exists>p'. overlay_ui_was_dismissed uses_child p = Some p' \<and>
    frame (if popped_by_user p r ws (ui_dismissal_reason st) then log_overlay [Completed r] p0 else p0) p' \<and>
    shows_ui p (if get_active_request p0 = Some r then None else wanted_request uses_child p0) p'"
proof -
  let ?popped = "popped_by_user p r ws (ui_dismissal_reason st)"
  have up: "context_request p = Some r" "has_context p" "quiet_but (Some r) p"
    "dismissal_callback st = Some ws" "\<not> presentation_callback st"
    "(case ui_coordinator st of None \<Rightarrow> False | Some c \<Rightarrow> phase c = Stopped)"
    using assms(3,4) by (simp_all add: ui_up_def)
  define p1 where "p1 = set_ui_state r (Some (st\<lparr>dismissal_callback := None\<rparr>)) p0"
  define p3 where "p3 = log_overlay (fst (tell_observers DidHide r 0 (supports p)))
      (p1\<lparr>presenting := False, presented_request := None\<rparr>)"
  have p0: "supports p0 = supports p" "has_context p0 = has_context p" "context_request p0 = Some r"
    "presented_request p0 = presented_request p" "ui_states p0 = ui_states p" "sound p0"
    "active_web_state p0 = active_web_state p" "lifecycle p0 = lifecycle p"
    using up(1) assms(2) by (simp_all add: p0_def)
  have p3: "sound p3" "\<not> presenting p3" "presented_request p3 = None" "context_request p3 = Some r"
    "frame p0 p3" "ui_states p3 r \<noteq> None" "quiet_but None p3"
    "get_active_request p3 = get_active_request p0" "wanted_request uses_child p3 = wanted_request uses_child p0"
    "active_web_state p3 = active_web_state p"
    using p0 up by (simp_all add: p3_def p1_def frame_def quiet_but_def quiet_state_def wanted_request_def
        split: option.splits)
  have run: "run_dismissal_callback uses_child p r =
    map_option (if ?popped then log_overlay [Completed r] else id)
      (if get_active_request p3 \<noteq> Some r then present_overlay_for_active_request uses_child p3 else Some p3)"
  proof -
    define q where "q = set_ui_state r (Some (st\<lparr>dismissal_callback := None\<rparr>)) p"
    have "popped_by_user q r ws (ui_dismissal_reason st) = ?popped"
      by (simp add: popped_by_user_def q_def)
    moreover have "(if ?popped then drop_request ws r q else q) = p1"
      by (simp add: q_def p1_def p0_def drop_request_def set_ui_state_def)
    moreover have "supports q = supports p" by (simp add: q_def)
    ultimately have left: "left_by r ws (ui_dismissal_reason st) q = p3" by (simp add: left_by_def p3_def)
    have "overlay_was_dismissed uses_child q r ws (ui_dismissal_reason st) =
      map_option (if popped_by_user q r ws (ui_dismissal_reason st) then log_overlay [Completed r] else id)
        (if get_active_request p3 \<noteq> Some r then present_overlay_for_active_request uses_child p3 else Some p3)"
      unfolding left [symmetric]
      by (rule was_dismissed_eq) (use up(2) assms(2,5) in \<open>simp_all add: q_def sound_def supports_all_def\<close>)
    moreover have "popped_by_user q r ws (ui_dismissal_reason st) = ?popped"
      by (simp add: popped_by_user_def q_def)
    ultimately show ?thesis
      using assms(4) up(4) by (simp add: run_dismissal_callback_def q_def [symmetric])
  qed
  define f where "f = (if ?popped then log_overlay [Completed r] else id)"
  have f: "ui_states (f x) = ui_states x" "context_request (f x) = context_request x" "presenting (f x) = presenting x"
    "presented_request (f x) = presented_request x" "quiet_but c (f x) = quiet_but c x"
    "ui_up ph (f x) q w = ui_up ph x q w" for x c ph q w
    by (simp_all add: f_def quiet_but_def ui_up_def)
  have frame_f: "frame p0 x \<Longrightarrow> frame (if ?popped then log_overlay [Completed r] p0 else p0) (f x)" for x
    by (simp add: f_def frame_def)
  have idles: ?thesis
    if none: "(if get_active_request p0 = Some r then None else wanted_request uses_child p0) = None"
      and left: "run_dismissal_callback uses_child p r = Some (f p3)"
  proof -
    obtain sq where "ui_states (f p3) r = Some sq" using p3(6) by (auto simp: f)
    then obtain p' where p': "set_request (f p3) None = Some p'" "frame (f p3) p'" "presenting p' = presenting p3"
      "presented_request p' = presented_request p3" "context_request p' = None" "quiet_but None p'"
      using set_request_None [of "f p3" r sq] p3(4,7) by (auto simp: f)
    then have "ui_idle p'" using p3(2,3) by (simp add: ui_idle_def)
    moreover have "overlay_ui_was_dismissed uses_child p = Some p'"
      using up(1) left p'(1) p3(4) by (simp add: overlay_ui_was_dismissed_def f)
    ultimately show ?thesis
      using none frame_trans [OF frame_f [OF p3(5)] p'(2)] by (simp add: shows_ui_def)
  qed
  show ?thesis
  proof (cases "get_active_request p0 = Some r")
    case True
    then have "run_dismissal_callback uses_child p r = Some (f p3)" using run p3(8) by (simp add: f_def)
    with True show ?thesis by (intro idles) simp_all
  next
    case False
    then obtain p4 where p4: "present_overlay_for_active_request uses_child p3 = Some p4" "frame p3 p4"
      "if wanted_request uses_child p3 = None then p4 = p3 else shows_ui p3 (wanted_request uses_child p3) p4"
      using present_result [of p3 uses_child] p3 by auto
    then have left: "run_dismissal_callback uses_child p r = Some (f p4)"
      using run p3(8) False by (simp add: f_def)
    show ?thesis
    proof (cases "wanted_request uses_child p0")
      case None
      with left p4(3) p3(9) have "run_dismissal_callback uses_child p r = Some (f p3)" by simp
      with None show ?thesis by (intro idles) simp_all
    next
      case (Some q)
      with p4(3) p3(9) have q: "shows_ui p3 (Some q) p4" by simp
      then obtain w where w: "active_web_state p = Some w" "ui_up Started p4 q w" "presented_request p4 = Some q"
        by (auto simp: shows_ui_def p3(10) split: option.splits)
      have "get_active_request p0 = Some q"
        using Some by (simp add: wanted_request_def split: option.splits if_splits)
      then have "q \<noteq> r" using False by simp
      moreover have "context_request p4 = Some q" using w(2) by (simp add: ui_up_def)
      ultimately have "overlay_ui_was_dismissed uses_child p = Some (f p4)"
        using up(1) left by (simp add: overlay_ui_was_dismissed_def f)
      then show ?thesis
        using Some False w frame_f [OF frame_trans [OF p3(5) p4(2)]] by (simp add: shows_ui_def f)
    qed
  qed
qed

section \<open>Settled states\<close>

text \<open>
  Between the calls from outside either no UI is up, or the front request of the active tab has
  its UI on screen or is closing.
\<close>

definition settled_ui :: "(overlay_request \<Rightarrow> bool) \<Rightarrow> overlays \<Rightarrow> bool" where
  "settled_ui uses_child p = (ui_idle p \<or>
     (\<exists>r ws. presented_request p = Some r \<and> wanted_request uses_child p = Some r \<and>
        active_web_state p = Some ws \<and> (ui_up Started p r ws \<or> ui_up Closing p r ws)))"

text \<open>The presenter has made the UI what the queues and the container ask for.\<close>

definition redrawn :: "(overlay_request \<Rightarrow> bool) \<Rightarrow> overlays \<Rightarrow> overlays \<Rightarrow> bool" where
  "redrawn uses_child p p' = (frame p p' \<and> shows_ui p (wanted_request uses_child p) p')"

definition closing :: "overlays \<Rightarrow> bool" where
  "closing p = (case context_request p of None \<Rightarrow> False | Some r \<Rightarrow>
     (case ui_states p r of None \<Rightarrow> False | Some st \<Rightarrow>
        (case ui_coordinator st of None \<Rightarrow> False | Some c \<Rightarrow> phase c = Closing)))"

definition prompt :: "(overlay_request \<Rightarrow> bool) \<Rightarrow> overlays \<Rightarrow> bool" where
  "prompt uses_child p = (presented_request p = wanted_request uses_child p)"

lemma frame_active: "frame p q \<Longrightarrow> get_active_request q = get_active_request p"
  by (simp add: frame_def get_active_request_def get_front_request_for_web_state_def front_request_def
      split: option.splits)

lemma frame_wanted: "frame p q \<Longrightarrow> wanted_request uses_child q = wanted_request uses_child p"
  using frame_active [of p q] by (simp add: wanted_request_def frame_def split: option.splits)

lemma frame_shows: "frame p q \<Longrightarrow> shows_ui q x p' = shows_ui p x p'"
  by (simp add: frame_def shows_ui_def cong: option.case_cong)

lemma wanted_simps [simp]:
  "wanted_request uses_child (log_overlay es p) = wanted_request uses_child p"
  "wanted_request uses_child (set_ui_state r st p) = wanted_request uses_child p"
  "wanted_request uses_child (p\<lparr>presenting := b\<rparr>) = wanted_request uses_child p"
  "wanted_request uses_child (p\<lparr>presented_request := q\<rparr>) = wanted_request uses_child p"
  "wanted_request uses_child (p\<lparr>context_request := q\<rparr>) = wanted_request uses_child p"
  "wanted_request uses_child (p\<lparr>detaching_active_web_state := b\<rparr>) = wanted_request uses_child p"
  "wanted_request uses_child (p\<lparr>observing := f\<rparr>) = wanted_request uses_child p"
  by (simp_all add: wanted_request_def split: option.splits)

lemma wanted_active: "wanted_request uses_child p = Some r \<Longrightarrow> get_active_request p = Some r"
  by (simp add: wanted_request_def split: option.splits if_splits)

lemma active_front:
  "get_active_request p = Some r \<longleftrightarrow> (\<exists>ws. active_web_state p = Some ws \<and> front_request p ws = Some r)"
  by (simp add: get_active_request_def get_front_request_for_web_state_def split: option.splits)

lemma ui_up_closing: "ui_up ph p r ws \<Longrightarrow> closing p = (ph = Closing)"
  by (auto simp: ui_up_def closing_def split: option.splits)

lemma ui_up_ph: "ui_up Started p r ws \<Longrightarrow> \<not> ui_up Closing p r' ws'"
  using ui_up_closing [of Started p r ws] ui_up_closing [of Closing p r' ws'] by auto

lemma idle_not_closing: "ui_idle p \<Longrightarrow> \<not> closing p"
  by (simp add: ui_idle_def closing_def)

lemma settled_cases:
  assumes "settled_ui uses_child p"
  obtains (idle) "ui_idle p"
  | (started) r ws where "presented_request p = Some r" "wanted_request uses_child p = Some r"
      "active_web_state p = Some ws" "ui_up Started p r ws" "\<not> closing p"
  | (closing) r ws where "presented_request p = Some r" "wanted_request uses_child p = Some r"
      "active_web_state p = Some ws" "ui_up Closing p r ws" "closing p"
  using assms ui_up_closing unfolding settled_ui_def by blast

lemma settled_presenting:
  "settled_ui uses_child p \<Longrightarrow> presenting p \<longleftrightarrow> presented_request p \<noteq> None"
  by (erule settled_cases) (auto simp: ui_idle_def ui_up_def)

lemma settled_context: "settled_ui uses_child p \<Longrightarrow> context_request p = presented_request p"
  by (erule settled_cases) (auto simp: ui_idle_def ui_up_def)

lemma redrawn_settled:
  assumes "redrawn uses_child p p'"
  shows "settled_ui uses_child p'" "prompt uses_child p'" "\<not> closing p'"
proof -
  have f: "frame p p'" and s: "shows_ui p (wanted_request uses_child p) p'"
    using assms by (simp_all add: redrawn_def)
  show "settled_ui uses_child p'" "prompt uses_child p'" "\<not> closing p'"
    using s frame_wanted [OF f] f ui_up_closing [of Started p']
    by (auto simp: settled_ui_def prompt_def shows_ui_def ui_idle_def frame_def closing_def split: option.splits)
qed

text \<open>Presenting from an idle state, hiding and cancelling what is on screen.\<close>

lemma present_redraws:
  assumes "sound p" and "ui_idle p"
  shows "\<exists>p'. present_overlay_for_active_request uses_child p = Some p' \<and> redrawn uses_child p p'"
proof -
  obtain p' where p': "present_overlay_for_active_request uses_child p = Some p'" "frame p p'"
    "if wanted_request uses_child p = None then p' = p else shows_ui p (wanted_request uses_child p) p'"
    using present_result [of p uses_child] assms by (auto simp: ui_idle_def)
  then show ?thesis
    using assms(2) by (cases "wanted_request uses_child p") (auto simp: redrawn_def shows_ui_def)
qed

lemma dismiss_started:
  assumes "sound p" and "ui_up Started p r ws" and "reason \<noteq> kUserInteraction"
    and "case presented_request p of Some q \<Rightarrow> q = r | None \<Rightarrow> reason = kCancellation"
  shows "\<exists>p'. dismiss_presented_ui uses_child p reason = Some p' \<and> frame p p' \<and>
    shows_ui p (if get_active_request p = Some r then None else wanted_request uses_child p) p'"
proof -
  obtain st c where st: "ui_states p r = Some st" "ui_coordinator st = Some c" "phase c = Started"
    using assms(2) by (auto simp: ui_up_def split: option.splits)
  define st1 where "st1 = st\<lparr>ui_dismissal_reason := reason, ui_coordinator := Some (c\<lparr>phase := Stopped\<rparr>)\<rparr>"
  define p1 where "p1 = set_ui_state r (Some st1) p"
  have up: "ui_up Stopped p1 r ws"
    using assms(2) st by (auto simp: ui_up_def p1_def st1_def quiet_but_def)
  have f: "frame p p1" by (simp add: p1_def frame_def)
  have unpopped: "popped_by_user p1 r ws (ui_dismissal_reason st1) = False"
    using assms(3) by (simp add: popped_by_user_def st1_def)
  have "ui_states p1 r = Some st1" "sound p1"
    and "case presented_request p1 of Some q \<Rightarrow> q = r | None \<Rightarrow> ui_dismissal_reason st1 = kCancellation"
    using assms(1,4) by (cases "presented_request p"; simp add: p1_def st1_def)+
  then obtain p' where p': "overlay_ui_was_dismissed uses_child p1 = Some p'" "frame p1 p'"
    "shows_ui p1 (if get_active_request p1 = Some r then None else wanted_request uses_child p1) p'"
    using ui_was_dismissed [of p1 r ws st1 uses_child] up unfolding unpopped if_False by blast
  moreover have "dismiss_presented_ui uses_child p reason = overlay_ui_was_dismissed uses_child p1"
    using assms(2) st by (simp add: dismiss_presented_ui_def ui_up_def p1_def st1_def Let_def)
  ultimately show ?thesis
    using frame_trans [OF f p'(2)] unfolding frame_active [OF f] frame_wanted [OF f] frame_shows [OF f]
    by metis
qed

lemma hide_started:
  assumes "sound p" and "ui_up Started p r ws" and "presented_request p = Some r"
  shows "\<exists>p'. hide_overlay_ui uses_child p (Some r) = Some p' \<and> frame p p' \<and>
    shows_ui p (if get_active_request p = Some r then None else wanted_request uses_child p) p'"
proof -
  have "hide_overlay_ui uses_child p (Some r) = dismiss_presented_ui uses_child p kHiding"
    using assms(2) by (auto simp: hide_overlay_ui_def ui_up_def has_callback_def split: option.splits)
  then show ?thesis using dismiss_started [OF assms(1,2), of kHiding] assms(3) by simp
qed

lemma cancel_started:
  assumes "sound p" and "ui_up Started p r ws" and "presented_request p \<in> {None, Some r}"
  shows "\<exists>p'. cancel_overlay_ui_for_request uses_child p (Some r) = Some p' \<and> frame p p' \<and>
    shows_ui p (if get_active_request p = Some r then None else wanted_request uses_child p) p'"
proof -
  have "cancel_overlay_ui_for_request uses_child p (Some r) = dismiss_presented_ui uses_child p kCancellation"
    using assms(2)
    by (auto simp: cancel_overlay_ui_for_request_def cancel_overlay_ui_def ui_up_def has_callback_def
        split: option.splits)
  then show ?thesis using dismiss_started [OF assms(1,2), of kCancellation] assms(3) by auto
qed

text \<open>Cancelling a request that has no UI forgets what the context kept of it.\<close>

lemma cancel_quiet:
  assumes "\<And>st. ui_states p r = Some st \<Longrightarrow> quiet_state st"
  shows "cancel_overlay_ui_for_request uses_child p (Some r) =
    Some (if has_context p \<and> ui_states p r \<noteq> None then set_ui_state r None p else p)"
  using assms by (cases "ui_states p r")
    (auto simp: cancel_overlay_ui_for_request_def cancel_overlay_ui_def quiet_state_def has_callback_def)

lemma settled_forget:
  assumes "settled_ui uses_child p" and "presented_request p \<noteq> Some r"
  shows "settled_ui uses_child (set_ui_state r None p)" "closing (set_ui_state r None p) = closing p"
proof -
  have up: "ui_up ph (set_ui_state r None p) q ws" if "ui_up ph p q ws" "q \<noteq> r" for ph q ws
    using that by (simp add: ui_up_def quiet_but_def)
  show "settled_ui uses_child (set_ui_state r None p)"
    using assms(1)
  proof (cases rule: settled_cases)
    case idle
    then show ?thesis by (simp add: settled_ui_def ui_idle_def quiet_but_def)
  next
    case (started q ws)
    then show ?thesis using up assms(2) by (auto simp: settled_ui_def)
  next
    case (closing q ws)
    then show ?thesis using up assms(2) by (auto simp: settled_ui_def)
  qed
  show "closing (set_ui_state r None p) = closing p"
    using settled_context [OF assms(1)] assms(2) by (simp add: closing_def split: option.splits)
qed

lemma ui_up_quiet: "ui_up ph p r ws \<Longrightarrow> q \<noteq> r \<Longrightarrow> ui_states p q = Some st \<Longrightarrow> quiet_state st"
  by (simp add: ui_up_def quiet_but_def)

lemma settled_quiet:
  assumes "settled_ui uses_child p" and "presented_request p \<noteq> Some r" and "ui_states p r = Some st"
  shows "quiet_state st"
  using assms(1)
proof (cases rule: settled_cases)
  case idle
  with assms(3) show ?thesis by (simp add: ui_idle_def quiet_but_def)
next
  case (started q ws)
  with assms(2,3) show ?thesis by (auto intro: ui_up_quiet [OF started(4)])
next
  case (closing q ws)
  with assms(2,3) show ?thesis by (auto intro: ui_up_quiet [OF closing(4)])
qed

lemma cancel_unpresented:
  assumes "settled_ui uses_child p" and "request = None \<or> presented_request p \<noteq> request"
  shows "\<exists>p'. cancel_overlay_ui_for_request uses_child p request = Some p' \<and> frame p p' \<and>
    settled_ui uses_child p' \<and> presented_request p' = presented_request p \<and> closing p' = closing p"
proof (cases request)
  case None
  with assms show ?thesis by (simp add: cancel_overlay_ui_for_request_def)
next
  case (Some r)
  with assms(2) have "presented_request p \<noteq> Some r" by simp
  then show ?thesis
    using cancel_quiet [of p r uses_child] settled_quiet [OF assms(1)] settled_forget [OF assms(1)] assms(1)
    by (auto simp: Some frame_def)
qed

end
