(* ===== verification/OverlaysMachine.thy ===== *)
theory OverlaysMachine
  imports OverlaysFacts
begin

text \<open>
  Every operation of a window keeps the invariant of the overlays.
\<close>

section \<open>The queues own the requests\<close>

definition in_queue :: "overlays \<Rightarrow> overlay_request \<Rightarrow> bool" where
  "in_queue p r = (\<exists>ws. r \<in> set (queues p ws))"

definition queues_apart :: "overlays \<Rightarrow> bool" where
  "queues_apart p = ((\<forall>ws. distinct (queues p ws)) \<and>
     (\<forall>ws ws' r. r \<in> set (queues p ws) \<longrightarrow> r \<in> set (queues p ws') \<longrightarrow> ws = ws'))"

definition handlers_ok :: "overlays \<Rightarrow> bool" where
  "handlers_ok p = (\<forall>ws. distinct (default_handlers p ws) \<and> set (default_handlers p ws) \<subseteq> set (queues p ws))"

definition completed_once :: "overlays \<Rightarrow> bool" where
  "completed_once p = (\<forall>r. count_list (lifecycle p) (Queued r) \<le> 1 \<and>
     count_list (lifecycle p) (Completed r) + of_bool (in_queue p r) = count_list (lifecycle p) (Queued r))"

definition queues_ok :: "overlays \<Rightarrow> bool" where
  "queues_ok p = (queues_apart p \<and> handlers_ok p \<and> completed_once p)"

lemma queues_okD:
  assumes "queues_ok p"
  shows "distinct (queues p ws)" "distinct (default_handlers p ws)"
    "set (default_handlers p ws) \<subseteq> set (queues p ws)"
    "count_list (lifecycle p) (Completed r) + of_bool (in_queue p r) = count_list (lifecycle p) (Queued r)"
    "r \<in> set (queues p ws) \<Longrightarrow> r \<in> set (queues p ws') \<Longrightarrow> ws = ws'"
  using assms unfolding queues_ok_def queues_apart_def handlers_ok_def completed_once_def by blast+

lemma queues_ok_cong:
  "queues q = queues p \<Longrightarrow> default_handlers q = default_handlers p \<Longrightarrow> lifecycle q = lifecycle p \<Longrightarrow>
   queues_ok q = queues_ok p"
  by (simp add: queues_ok_def queues_apart_def handlers_ok_def completed_once_def in_queue_def)

definition queue_request :: "web_state \<Rightarrow> nat \<Rightarrow> overlay_request \<Rightarrow> bool \<Rightarrow> overlays \<Rightarrow> overlays" where
  "queue_request ws index r d p = log_overlay [Queued r]
     (p\<lparr>queues := (queues p)(ws := vector_insert index r (queues p ws)),
        default_handlers := (if d then (default_handlers p)(ws := default_handlers p ws @ [r])
                             else default_handlers p)\<rparr>)"

lemma frame_queues_ok: "frame p q \<Longrightarrow> queues_ok q = queues_ok p"
  by (rule queues_ok_cong) (simp_all add: frame_def)

lemma queue_request_simps [simp]:
  "presenting (queue_request ws i r d p) = presenting p"
  "presented_request (queue_request ws i r d p) = presented_request p"
  "detaching_active_web_state (queue_request ws i r d p) = detaching_active_web_state p"
  "active_web_state (queue_request ws i r d p) = active_web_state p"
  "has_context (queue_request ws i r d p) = has_context p"
  "supports (queue_request ws i r d p) = supports p"
  "queues (queue_request ws i r d p) = (queues p)(ws := vector_insert i r (queues p ws))"
  "default_handlers (queue_request ws i r d p) =
     (if d then (default_handlers p)(ws := default_handlers p ws @ [r]) else default_handlers p)"
  "observing (queue_request ws i r d p) = observing p"
  "context_request (queue_request ws i r d p) = context_request p"
  "ui_states (queue_request ws i r d p) = ui_states p"
  "container (queue_request ws i r d p) = container p"
  "capabilities (queue_request ws i r d p) = capabilities p"
  "lifecycle (queue_request ws i r d p) = lifecycle p @ [Queued r]"
  by (simp_all add: queue_request_def lifecycle_def is_lifecycle_def)

lemma erase_request_fields [simp]:
  "presenting (erase_request ws r p) = presenting p"
  "presented_request (erase_request ws r p) = presented_request p"
  "detaching_active_web_state (erase_request ws r p) = detaching_active_web_state p"
  "active_web_state (erase_request ws r p) = active_web_state p"
  "has_context (erase_request ws r p) = has_context p"
  "supports (erase_request ws r p) = supports p"
  "queues (erase_request ws r p) = (queues p)(ws := remove1 r (queues p ws))"
  "default_handlers (erase_request ws r p) = (default_handlers p)(ws := removeAll r (default_handlers p ws))"
  "observing (erase_request ws r p) = observing p"
  "context_request (erase_request ws r p) = context_request p"
  "ui_states (erase_request ws r p) = ui_states p"
  "container (erase_request ws r p) = container p"
  "capabilities (erase_request ws r p) = capabilities p"
  "lifecycle (erase_request ws r p) = lifecycle p @ [Completed r]"
  "sound (erase_request ws r p) = sound p"
  by (simp_all add: erase_request_def drop_request_def lifecycle_def is_lifecycle_def sound_def supports_all_def)

lemma frame_erase: "frame p q \<Longrightarrow> frame (erase_request ws r p) (erase_request ws r q)"
  by (simp add: frame_def)

lemma queue_request_ok:
  assumes "queues_ok p" and "Queued r \<notin> set (overlay_log p)"
  shows "queues_ok (queue_request ws i r d p)" "\<not> in_queue p r"
proof -
  have fresh: "count_list (lifecycle p) (Queued r) = 0"
    using assms(2) by (simp add: lifecycle_def)
  then have no: "count_list (lifecycle p) (Completed r) = 0" "\<not> in_queue p r"
    using queues_okD(4) [OF assms(1), of r] by (auto split: if_splits)
  then show "\<not> in_queue p r" by simp
  then have notin: "r \<notin> set (queues p w)" for w by (simp add: in_queue_def)
  have iq: "in_queue (queue_request ws i r d p) q \<longleftrightarrow> q = r \<or> in_queue p q" for q
    by (auto simp: in_queue_def split: if_splits)
  have "handlers_ok (queue_request ws i r d p)"
    using queues_okD(2,3) [OF assms(1)] notin by (fastforce simp: handlers_ok_def)
  moreover have "queues_apart (queue_request ws i r d p)"
    using queues_okD(1,5) [OF assms(1)] notin
    by (auto simp: queues_apart_def distinct_vector_insert split: if_splits)
  moreover have "completed_once (queue_request ws i r d p)"
    using assms(1) iq no fresh by (simp add: queues_ok_def completed_once_def)
  ultimately show "queues_ok (queue_request ws i r d p)" by (simp add: queues_ok_def)
qed

lemma erase_request_ok:
  assumes "queues_ok p" and "r \<in> set (queues p ws)"
  shows "queues_ok (erase_request ws r p)"
proof -
  have q: "set (queues (erase_request ws r p) w) = set (queues p w) - (if w = ws then {r} else {})" for w
    using queues_okD(1) [OF assms(1)] by (simp add: set_remove1_eq)
  have "w = ws" if "r \<in> set (queues p w)" for w
    by (rule queues_okD(5) [OF assms(1) that assms(2)])
  then have "x \<in> set (queues p w) - (if w = ws then {r} else {}) \<longleftrightarrow> x \<noteq> r \<and> x \<in> set (queues p w)" for x w
    by auto
  then have iq: "in_queue (erase_request ws r p) x \<longleftrightarrow> x \<noteq> r \<and> in_queue p x" for x
    unfolding in_queue_def q by blast
  have "in_queue p r" using assms(2) by (auto simp: in_queue_def)
  then have "Suc (count_list (lifecycle p) (Completed r)) = count_list (lifecycle p) (Queued r)"
    using queues_okD(4) [OF assms(1), of r] by simp
  then have "completed_once (erase_request ws r p)"
    using assms(1) iq by (auto simp: queues_ok_def completed_once_def)
  moreover have "queues_apart (erase_request ws r p)"
    unfolding queues_apart_def q using queues_okD(1,5) [OF assms(1)] by auto
  moreover have "handlers_ok (erase_request ws r p)"
    unfolding handlers_ok_def q using queues_okD(2,3) [OF assms(1)] by (auto simp: distinct_removeAll)
  ultimately show ?thesis by (simp add: queues_ok_def)
qed

lemma clear_queue_ok:
  "queues_ok p \<Longrightarrow> queues p ws = rs \<Longrightarrow>
   queues_ok (log_overlay (map Completed rs)
     (p\<lparr>queues := (queues p)(ws := []), default_handlers := (default_handlers p)(ws := [])\<rparr>))"
proof (induction rs arbitrary: p)
  case Nil
  then have "(queues p)(ws := []) = queues p" "(default_handlers p)(ws := []) = default_handlers p"
    using queues_okD(3) [OF Nil(1), of ws] by (auto simp: fun_eq_iff)
  then show ?case using Nil(1) by (simp add: log_overlay_def)
next
  case (Cons r rs)
  define q where "q = erase_request ws r p"
  have "queues_ok q" "queues q ws = rs"
    using erase_request_ok [OF Cons.prems(1)] Cons.prems(2) by (simp_all add: q_def)
  then have "queues_ok (log_overlay (map Completed rs)
     (q\<lparr>queues := (queues q)(ws := []), default_handlers := (default_handlers q)(ws := [])\<rparr>))"
    by (rule Cons.IH)
  then show ?case
    by (subst queues_ok_cong [of _ "log_overlay (map Completed rs)
     (q\<lparr>queues := (queues q)(ws := []), default_handlers := (default_handlers q)(ws := [])\<rparr>)"])
      (simp_all add: q_def is_lifecycle_def)
qed

lemma front_in_queue: "front_request p ws = Some r \<Longrightarrow> r \<in> set (queues p ws)"
  by (simp add: front_request_def split: list.splits)

lemma front_request_other:
  "queues q ws = queues p ws \<Longrightarrow> front_request q ws = front_request p ws"
  by (simp add: front_request_def)

lemma get_active_request_other:
  "active_web_state q = active_web_state p \<Longrightarrow>
   (\<And>ws. active_web_state p = Some ws \<Longrightarrow> front_request q ws = front_request p ws) \<Longrightarrow>
   get_active_request q = get_active_request p"
  by (simp add: get_active_request_def get_front_request_for_web_state_def split: option.splits)

lemma wanted_other:
  "get_active_request q = get_active_request p \<Longrightarrow> has_context q = has_context p \<Longrightarrow>
   capabilities q = capabilities p \<Longrightarrow> wanted_request uses_child q = wanted_request uses_child p"
  by (simp add: wanted_request_def cong: option.case_cong)

lemma settled_transfer:
  assumes "presenting q = presenting p" and "presented_request q = presented_request p"
    and "context_request q = context_request p" and "ui_states q = ui_states p"
    and "has_context q = has_context p" and "container q = container p"
    and "active_web_state q = active_web_state p"
    and "presented_request p \<noteq> None \<Longrightarrow> wanted_request uses_child q = wanted_request uses_child p"
    and "settled_ui uses_child p"
  shows "settled_ui uses_child q" "closing q = closing p"
proof -
  have up: "ui_up ph q r ws = ui_up ph p r ws" for ph r ws
    using assms by (simp add: ui_up_def quiet_but_def)
  show "closing q = closing p" using assms(3,4) by (simp add: closing_def cong: option.case_cong)
  show "settled_ui uses_child q"
  proof (cases "presented_request p")
    case None
    with assms show ?thesis by (auto simp: settled_ui_def ui_idle_def quiet_but_def)
  next
    case (Some r)
    with assms up show ?thesis by (auto simp: settled_ui_def ui_idle_def quiet_but_def)
  qed
qed

lemma settled_prompt_idle:
  "settled_ui uses_child p \<Longrightarrow> wanted_request uses_child p = None \<Longrightarrow> prompt uses_child p"
  by (erule settled_cases) (simp_all add: prompt_def ui_idle_def)

section \<open>The active tab changes\<close>

lemma active_switch:
  assumes "settled_ui uses_child p" and "sound p" and "\<not> closing p" and "queues_ok p"
    and "active_web_state p \<noteq> ws"
  defines "p1 \<equiv> p\<lparr>active_web_state := ws, detaching_active_web_state := False\<rparr>"
  shows "\<exists>p'. set_active_web_state uses_child p ws reason = Some p' \<and> redrawn uses_child p1 p'"
  using assms(1)
proof (cases rule: settled_cases)
  case idle
  then have i: "ui_idle p1" by (simp add: p1_def ui_idle_def quiet_but_def)
  show ?thesis
  proof (cases "has_context p")
    case True
    then have "set_active_web_state uses_child p ws reason = present_overlay_for_active_request uses_child p1"
      using assms(5) idle by (simp add: set_active_web_state_def p1_def Let_def ui_idle_def)
    then show ?thesis using present_redraws [of p1 uses_child] i assms(2) by (simp add: p1_def)
  next
    case False
    then have "set_active_web_state uses_child p ws reason = Some p1" "wanted_request uses_child p1 = None"
      using assms(5) by (simp_all add: set_active_web_state_def p1_def Let_def wanted_request_def split: option.splits)
    then show ?thesis using i by (simp add: redrawn_def shows_ui_def)
  qed
next
  case (started r w)
  have up: "ui_up Started p1 r w" using started(4) by (simp add: p1_def ui_up_def quiet_but_def)
  have front: "front_request p w = Some r" using wanted_active [OF started(2)] started(3) by (simp add: active_front)
  have "get_active_request p1 \<noteq> Some r"
  proof
    assume "get_active_request p1 = Some r"
    then obtain w' where "ws = Some w'" "front_request p w' = Some r" by (auto simp: active_front p1_def)
    moreover from this have "w' = w"
      using queues_okD(5) [OF assms(4)] front_in_queue [OF front] front_in_queue by blast
    ultimately show False using started(3) assms(5) by simp
  qed
  moreover have "sound p1" "presented_request p1 = Some r" using assms(2) started(1) by (simp_all add: p1_def)
  ultimately have "\<exists>p'. (if b then cancel_overlay_ui_for_request uses_child p1 (Some r)
      else hide_overlay_ui uses_child p1 (Some r)) = Some p' \<and> redrawn uses_child p1 p'" for b
    using cancel_started [of p1 r w uses_child] hide_started [of p1 r w uses_child] up
    by (cases b) (simp_all add: redrawn_def)
  moreover have "set_active_web_state uses_child p ws reason =
    (if reason AND CHANGE_REASON_REPLACED \<noteq> 0 \<or> detaching_active_web_state p
     then cancel_overlay_ui_for_request uses_child p1 (Some r) else hide_overlay_ui uses_child p1 (Some r))"
    using assms(5) started(4) wanted_active [OF started(2)]
    by (simp add: set_active_web_state_def p1_def Let_def ui_up_def)
  ultimately show ?thesis by simp
qed (use assms(3) in simp)

section \<open>Requests are queued and cancelled\<close>

lemma insert_request_keeps:
  assumes "settled_ui uses_child p" and "sound p" and "queues_ok p"
    and "index \<le> length (queues p ws)" and "Queued r \<notin> set (overlay_log p)"
    and "active_web_state p = Some ws \<Longrightarrow> observing p ws"
    and "closing p \<Longrightarrow> active_web_state p = Some ws \<Longrightarrow> index \<noteq> 0"
  shows "\<exists>p'. insert_request uses_child p ws index r d = Some p' \<and>
    frame (queue_request ws index r d p) p' \<and> settled_ui uses_child p' \<and>
    (prompt uses_child p \<longrightarrow> prompt uses_child p')"
proof -
  define p2 where "p2 = queue_request ws index r d p"
  have insert: "insert_request uses_child p ws index r d =
    (if observing p ws then request_added_to_queue uses_child p2 ws r else Some p2)"
    using assms(4) by (simp add: insert_request_def p2_def queue_request_def Let_def)
  have s2: "sound p2" using assms(2) by (simp add: p2_def sound_def supports_all_def)
  have front: "front_request p2 ws = (if index = 0 then Some r else front_request p ws)"
    using assms(4) by (cases "queues p ws"; cases index)
      (simp_all add: p2_def front_request_def vector_insert_def)
  have other: "front_request p2 w = front_request p w" if "w \<noteq> ws" for w
    using that by (simp add: p2_def front_request_def)
  have notin: "r \<notin> set (queues p w)" for w
    using queue_request_ok(2) [OF assms(3,5)] by (auto simp: in_queue_def)
  show ?thesis
  proof (cases "get_active_request p2 = Some r")
    case False
    then have front': "active_web_state p = Some w \<Longrightarrow> front_request p2 w = front_request p w" for w
      using front other [of w] by (cases "w = ws") (auto simp: active_front p2_def split: if_splits)
    have a: "get_active_request p2 = get_active_request p"
      using front' by (intro get_active_request_other) (auto simp: p2_def)
    have w: "wanted_request uses_child p2 = wanted_request uses_child p"
      using a by (intro wanted_other) (auto simp: p2_def)
    have "settled_ui uses_child p2"
      by (rule settled_transfer(1) [of p2 p]) (use assms(1) w in \<open>simp_all add: p2_def\<close>)
    moreover have "insert_request uses_child p ws index r d = Some p2"
      using False insert by (simp add: request_added_to_queue_def)
    ultimately show ?thesis using w by (simp add: p2_def prompt_def)
  next
    case True
    then obtain w where w: "active_web_state p = Some w" "front_request p2 w = Some r"
      by (auto simp: active_front p2_def)
    have no: "front_request p w \<noteq> Some r" using notin [of w] front_in_queue by blast
    then have "w = ws" using w(2) other [of w] by (cases "w = ws") simp_all
    with no w front have act: "active_web_state p = Some ws" "index = 0"
      by (auto split: if_splits)
    then have ins: "insert_request uses_child p ws index r d = request_added_to_queue uses_child p2 ws r"
      and "\<not> closing p" using insert assms(6,7) by auto
    have "\<exists>p'. request_added_to_queue uses_child p2 ws r = Some p' \<and> redrawn uses_child p2 p'"
      using assms(1)
    proof (cases rule: settled_cases)
      case idle
      then have "ui_idle p2" by (simp add: p2_def ui_idle_def quiet_but_def)
      with True present_redraws [OF s2] show ?thesis
        by (simp add: request_added_to_queue_def ui_idle_def)
    next
      case (started q w)
      then have up: "ui_up Started p2 q ws" using act(1) by (simp add: p2_def ui_up_def quiet_but_def)
      have fr: "front_request p ws = Some q" using wanted_active [OF started(2)] act(1) by (simp add: active_front)
      then obtain qs where qs: "queues p ws = q # qs" by (auto simp: front_request_def split: list.splits)
      then have "queues p2 ws = r # q # qs" using act(2) by (simp add: p2_def vector_insert_def)
      moreover have "q \<noteq> r" using notin [of ws] qs by auto
      moreover have "presented_request p2 = Some q" "presenting p2"
        using started(1,4) by (simp_all add: p2_def ui_up_def)
      ultimately show ?thesis
        using True hide_started [OF s2 up, of uses_child] by (simp add: request_added_to_queue_def redrawn_def)
    qed (use \<open>\<not> closing p\<close> in simp)
    then show ?thesis
      using ins redrawn_settled by (auto simp: p2_def redrawn_def)
  qed
qed

lemma erase_idle: "ui_idle p \<Longrightarrow> ui_idle (erase_request ws r p)"
  by (simp add: ui_idle_def quiet_but_def)

lemma closing_erase [simp]: "closing (erase_request ws r p) = closing p"
  by (simp add: closing_def cong: option.case_cong)

lemma front_erase:
  "front_request p w \<noteq> Some r \<or> w \<noteq> ws \<Longrightarrow> front_request (erase_request ws r p) w = front_request p w"
  by (cases "queues p w") (auto simp: front_request_def)

lemma wanted_erase:
  assumes "get_active_request p \<noteq> Some r \<or> active_web_state p \<noteq> Some ws"
  shows "wanted_request uses_child (erase_request ws r p) = wanted_request uses_child p"
  using assms front_erase [of p _ r ws]
  by (intro wanted_other get_active_request_other) (auto simp: active_front)

text \<open>
  \<open>cancels ws p p'\<close>: from \<open>p\<close> to \<open>p'\<close> only requests of the tab \<open>ws\<close> have gone, each with its
  completion callbacks run.
\<close>

definition cancels :: "web_state \<Rightarrow> overlays \<Rightarrow> overlays \<Rightarrow> bool" where
  "cancels ws p p' = (active_web_state p' = active_web_state p \<and> has_context p' = has_context p \<and>
     supports p' = supports p \<and> observing p' = observing p \<and>
     detaching_active_web_state p' = detaching_active_web_state p \<and>
     container p' = container p \<and> capabilities p' = capabilities p \<and>
     (\<forall>w. w \<noteq> ws \<longrightarrow> queues p' w = queues p w) \<and> set (queues p' ws) \<subseteq> set (queues p ws) \<and>
     (queues_ok p \<longrightarrow> queues_ok p') \<and> (sound p \<longrightarrow> sound p') \<and>
     (closing p' \<longrightarrow> closing p \<and> presented_request p' = presented_request p) \<and>
     (active_web_state p \<noteq> Some ws \<longrightarrow> presented_request p' = presented_request p))"

lemma cancels_refl [simp]: "cancels ws p p"
  by (simp add: cancels_def)

lemma cancels_trans: "cancels ws p q \<Longrightarrow> cancels ws q s \<Longrightarrow> cancels ws p s"
  by (auto simp: cancels_def)

lemma cancel_request_keeps:
  assumes "settled_ui uses_child p" and "sound p" and "queues_ok p" and "r \<in> set (queues p ws)"
    and "active_web_state p = Some ws \<Longrightarrow> observing p ws"
    and "closing p \<Longrightarrow> presented_request p \<noteq> Some r"
  shows "\<exists>p'. (if observing p ws then queued_request_cancelled uses_child p r else Some p) = Some p' \<and>
    frame (erase_request ws r p) (erase_request ws r p') \<and> settled_ui uses_child (erase_request ws r p') \<and>
    cancels ws p (erase_request ws r p') \<and>
    (presented_request p \<noteq> Some r \<longrightarrow> presented_request p' = presented_request p)"
proof -
  have ok: "queues_ok (erase_request ws r q)" if "frame p q" for q
    using erase_request_ok [OF assms(3,4)] frame_queues_ok [OF frame_erase [OF that]] by simp
  have c: "cancels ws p (erase_request ws r q)"
    if "frame p q" "closing q \<longrightarrow> closing p \<and> presented_request q = presented_request p"
      "active_web_state p \<noteq> Some ws \<longrightarrow> presented_request q = presented_request p" for q
    using that ok [OF that(1)] frame_sound [OF that(1)] set_remove1_subset [of r "queues p ws"]
    by (simp add: cancels_def frame_def)
  have keep: "settled_ui uses_child (erase_request ws r q)"
    if "settled_ui uses_child q" "presented_request q \<noteq> Some r" for q
  proof (rule settled_transfer(1) [of _ q])
    assume "presented_request q \<noteq> None"
    with that have "get_active_request q \<noteq> Some r"
      by (auto simp: settled_ui_def ui_idle_def dest: wanted_active)
    then show "wanted_request uses_child (erase_request ws r q) = wanted_request uses_child q"
      by (intro wanted_erase) simp
  qed (use that in simp_all)
  show ?thesis
  proof (cases "observing p ws")
    case False
    have "presented_request p \<noteq> Some r"
    proof
      assume "presented_request p = Some r"
      then obtain w where w: "active_web_state p = Some w" "front_request p w = Some r"
        using assms(1) by (auto simp: settled_ui_def ui_idle_def active_front dest: wanted_active)
      then have "w = ws"
        using assms(4) front_in_queue queues_okD(5) [OF assms(3)] by blast
      with w False assms(5) show False by simp
    qed
    with False show ?thesis using keep [OF assms(1)] c [of p] by simp
  next
    case True
    show ?thesis
    proof (cases "presented_request p = Some r")
      case presented: True
      obtain w where w: "active_web_state p = Some w" "ui_up Started p r w" "get_active_request p = Some r"
        using assms(1) presented assms(6) by (cases rule: settled_cases) (auto simp: ui_idle_def dest: wanted_active)
      then have "r \<in> set (queues p w)" using front_in_queue by (auto simp: active_front)
      then have "w = ws" using assms(4) queues_okD(5) [OF assms(3)] by blast
      define p1 where "p1 = p\<lparr>presented_request := None\<rparr>"
      have up: "ui_up Started p1 r w" using w(2) by (simp add: p1_def ui_up_def quiet_but_def)
      have "frame p p1" "sound p1" using assms(2) by (simp_all add: p1_def frame_def)
      moreover obtain p' where p': "cancel_overlay_ui_for_request uses_child p1 (Some r) = Some p'"
        "frame p1 p'" "ui_idle p'"
        using cancel_started [OF \<open>sound p1\<close> up, of uses_child] w(3) by (auto simp: p1_def shows_ui_def)
      ultimately have f: "frame p p'" and "queued_request_cancelled uses_child p r = Some p'"
        using frame_trans presented by (auto simp: queued_request_cancelled_def p1_def)
      moreover have "settled_ui uses_child (erase_request ws r p')"
        using erase_idle [OF p'(3)] by (simp add: settled_ui_def)
      ultimately show ?thesis
        using True presented c [OF f] frame_erase [OF f] idle_not_closing [OF p'(3)] w(1) \<open>w = ws\<close> by simp
    next
      case False
      then obtain p' where p': "cancel_overlay_ui_for_request uses_child p (Some r) = Some p'" "frame p p'"
        "settled_ui uses_child p'" "presented_request p' = presented_request p" "closing p' = closing p"
        using cancel_unpresented [OF assms(1), of "Some r"] by auto
      then show ?thesis
        using True False keep [OF p'(3)] c [OF p'(2)] frame_erase [OF p'(2)]
        by (simp add: queued_request_cancelled_def)
    qed
  qed
qed

lemma cancel_request_result:
  assumes "settled_ui uses_child p" and "sound p" and "queues_ok p"
    and "active_web_state p = Some ws \<Longrightarrow> observing p ws"
    and "closing p \<Longrightarrow> r \<in> set (queues p ws) \<Longrightarrow> presented_request p \<noteq> Some r"
  shows "\<exists>p'. cancel_request uses_child p ws r = Some p' \<and> settled_ui uses_child p' \<and> cancels ws p p' \<and>
    frame (if r \<in> set (queues p ws) then erase_request ws r p else p) p' \<and>
    (presented_request p \<noteq> Some r \<longrightarrow> presented_request p' = presented_request p)"
proof (cases "r \<in> set (queues p ws)")
  case True
  then show ?thesis
    using cancel_request_keeps [OF assms(1-3) True assms(4) assms(5) [OF _ True]] by (auto simp: cancel_request_def)
qed (use assms in \<open>simp add: cancel_request_def\<close>)

lemma presented_in_queue:
  assumes "settled_ui uses_child p" and "presented_request p = Some r"
  shows "\<exists>ws. active_web_state p = Some ws \<and> r \<in> set (queues p ws)"
  using assms by (auto simp: settled_ui_def ui_idle_def active_front dest!: wanted_active front_in_queue)

lemma not_presented:
  assumes "settled_ui uses_child p" and "queues_ok p" and "active_web_state p \<noteq> Some ws" and "r \<in> set (queues p ws)"
  shows "presented_request p \<noteq> Some r"
  using presented_in_queue [OF assms(1)] assms(3,4) queues_okD(5) [OF assms(2)] by blast

lemma cancel_from_back_result:
  "settled_ui uses_child p \<Longrightarrow> sound p \<Longrightarrow> queues_ok p \<Longrightarrow> (active_web_state p = Some ws \<Longrightarrow> observing p ws) \<Longrightarrow>
   (closing p \<Longrightarrow> active_web_state p \<noteq> Some ws) \<Longrightarrow> length (queues p ws) \<le> n \<Longrightarrow>
   \<exists>p'. cancel_from_back uses_child n p ws = Some p' \<and> settled_ui uses_child p' \<and> cancels ws p p' \<and> queues p' ws = []"
proof (induction n arbitrary: p)
  case (Suc n)
  show ?case
  proof (cases "queues p ws = []")
    case False
    define r where "r = List.last (queues p ws)"
    have r: "r \<in> set (queues p ws)" using False by (simp add: r_def)
    have "closing p \<Longrightarrow> presented_request p \<noteq> Some r"
      using not_presented [OF Suc.prems(1,3) _ r] Suc.prems(5) by simp
    then obtain p1 where p1: "(if observing p ws then queued_request_cancelled uses_child p r else Some p) = Some p1"
      "frame (erase_request ws r p) (erase_request ws r p1)" "settled_ui uses_child (erase_request ws r p1)"
      "cancels ws p (erase_request ws r p1)"
      using cancel_request_keeps [OF Suc.prems(1-3) r Suc.prems(4)] by blast
    define q where "q = erase_request ws r p1"
    have "queues q ws = remove1 r (queues p ws)" using p1(2) by (simp add: frame_def q_def)
    then have "length (queues q ws) \<le> n" using r Suc.prems(6) by (simp add: length_remove1)
    then obtain p' where p': "cancel_from_back uses_child n q ws = Some p'" "settled_ui uses_child p'"
      "cancels ws q p'" "queues p' ws = []"
      using Suc.IH [of q] p1(3,4) Suc.prems by (auto simp: cancels_def q_def [symmetric])
    moreover have "cancel_from_back uses_child (Suc n) p ws = cancel_from_back uses_child n q ws"
      using False p1(1) by (simp add: Let_def r_def [symmetric] q_def)
    ultimately show ?thesis using cancels_trans [OF p1(4), folded q_def] by metis
  qed (use Suc.prems in simp)
qed simp

lemma cancel_by_handlers_result:
  "settled_ui uses_child p \<Longrightarrow> sound p \<Longrightarrow> queues_ok p \<Longrightarrow> (active_web_state p = Some ws \<Longrightarrow> observing p ws) \<Longrightarrow>
   (closing p \<Longrightarrow> active_web_state p \<noteq> Some ws) \<Longrightarrow>
   \<exists>p'. cancel_by_handlers uses_child p ws rs = Some p' \<and> settled_ui uses_child p' \<and> cancels ws p p' \<and>
     set (queues p' ws) = set (queues p ws) - set rs"
proof (induction rs arbitrary: p)
  case (Cons r rs)
  have d: "distinct (queues p ws)" by (rule queues_okD(1) [OF Cons.prems(3)])
  have "closing p \<Longrightarrow> r \<in> set (queues p ws) \<Longrightarrow> presented_request p \<noteq> Some r"
    using not_presented [OF Cons.prems(1,3)] Cons.prems(5) by blast
  then obtain p1 where p1: "cancel_request uses_child p ws r = Some p1" "settled_ui uses_child p1" "cancels ws p p1"
    "frame (if r \<in> set (queues p ws) then erase_request ws r p else p) p1"
    using cancel_request_result [OF Cons.prems(1-4)] by blast
  have s: "set (queues p1 ws) = set (queues p ws) - {r}"
    using p1(4) d by (auto simp: frame_def set_remove1_eq split: if_splits)
  obtain p' where p': "cancel_by_handlers uses_child p1 ws rs = Some p'" "settled_ui uses_child p'" "cancels ws p1 p'"
    "set (queues p' ws) = set (queues p1 ws) - set rs"
    using Cons.IH [OF p1(2)] p1(3) Cons.prems by (auto simp: cancels_def)
  then show ?case using p1(1) cancels_trans [OF p1(3) p'(3)] s by auto
qed simp

section \<open>A tab is destroyed\<close>

lemma destroyed_handlers_result:
  "\<not> observing p ws \<Longrightarrow> distinct rs \<Longrightarrow> set rs \<subseteq> set (queues p ws) \<Longrightarrow> queues_ok p \<Longrightarrow>
   \<exists>p'. web_state_destroyed_handlers uses_child p ws rs = Some p' \<and> cancels ws p p' \<and>
     presenting p' = presenting p \<and> presented_request p' = presented_request p \<and>
     context_request p' = context_request p \<and> ui_states p' = ui_states p \<and>
     overlay_log p' = overlay_log p @ concat (map (\<lambda>r. [Completed r, UsedAfterFree r]) rs)"
proof (induction rs arbitrary: p)
  case (Cons r rs)
  define q where "q = log_overlay [UsedAfterFree r] (erase_request ws r p)"
  have r: "r \<in> set (queues p ws)" and d: "distinct (queues p ws)"
    using Cons.prems(3) queues_okD(1) [OF Cons.prems(4)] by simp_all
  have ok: "queues_ok q"
    using erase_request_ok [OF Cons.prems(4) r]
    by (simp add: q_def queues_ok_cong [of "log_overlay _ _" "erase_request ws r p"] is_lifecycle_def)
  then have "cancels ws p q"
    using Cons.prems(1) set_remove1_subset [of r "queues p ws"]
    by (simp add: cancels_def q_def closing_def cong: option.case_cong)
  moreover have "web_state_destroyed_handlers uses_child p ws (r # rs) =
      web_state_destroyed_handlers uses_child q ws rs"
    using r Cons.prems(1) by (simp add: cancel_request_def q_def Let_def)
  moreover obtain p' where "web_state_destroyed_handlers uses_child q ws rs = Some p'" "cancels ws q p'"
     "presenting p' = presenting q" "presented_request p' = presented_request q"
     "context_request p' = context_request q" "ui_states p' = ui_states q"
     "overlay_log p' = overlay_log q @ concat (map (\<lambda>r. [Completed r, UsedAfterFree r]) rs)"
    using Cons.IH [of q] Cons.prems d ok by (auto simp: q_def set_remove1_eq)
  ultimately show ?case
    using cancels_trans [of ws p q p'] by (auto simp: q_def erase_request_def)
qed simp

lemma web_state_destroyed_result:
  assumes "settled_ui uses_child p" and "queues_ok p" and "\<not> observing p ws" and "active_web_state p \<noteq> Some ws"
  shows "\<exists>p'. web_state_destroyed uses_child p ws = Some p' \<and> cancels ws p p' \<and> settled_ui uses_child p' \<and>
    queues p' ws = [] \<and>
    {r. UsedAfterFree r \<in> set (overlay_log p')} =
      {r. UsedAfterFree r \<in> set (overlay_log p)} \<union> set (default_handlers p ws)"
proof -
  have h: "distinct (default_handlers p ws)" "set (default_handlers p ws) \<subseteq> set (queues p ws)"
    by (rule queues_okD(2,3) [OF assms(2)])+
  obtain q where q: "web_state_destroyed_handlers uses_child p ws (default_handlers p ws) = Some q"
    "cancels ws p q" "presenting q = presenting p" "presented_request q = presented_request p"
    "context_request q = context_request p" "ui_states q = ui_states p"
    "overlay_log q = overlay_log p @ concat (map (\<lambda>r. [Completed r, UsedAfterFree r]) (default_handlers p ws))"
    using destroyed_handlers_result [OF assms(3) h assms(2)] by blast
  define p' where "p' = log_overlay (map Completed (queues q ws))
    (q\<lparr>queues := (queues q)(ws := []), default_handlers := (default_handlers q)(ws := [])\<rparr>)"
  have "queues_ok q" using q(2) assms(2) by (simp add: cancels_def)
  then have ok: "queues_ok p'" unfolding p'_def by (rule clear_queue_ok) simp
  have "cancels ws p p'"
    using q(2) ok assms(2) by (simp add: cancels_def p'_def closing_def sound_def supports_all_def cong: option.case_cong)
  moreover have "wanted_request uses_child p' = wanted_request uses_child p"
    using q(2) assms(4)
    by (intro wanted_other get_active_request_other) (auto simp: p'_def cancels_def front_request_def)
  then have "settled_ui uses_child p'"
    using q(2-6) assms(1) by (intro settled_transfer(1) [of p' p]) (simp_all add: p'_def cancels_def)
  moreover have "web_state_destroyed uses_child p ws = Some p'"
    using q(1) by (simp add: web_state_destroyed_def p'_def)
  moreover have "{r. UsedAfterFree r \<in> set (overlay_log p')} =
      {r. UsedAfterFree r \<in> set (overlay_log p)} \<union> set (default_handlers p ws)"
    using q(7) by (auto simp: p'_def)
  ultimately show ?thesis by (auto simp: p'_def)
qed

section \<open>The presentation context changes\<close>

lemma settled_unpresented:
  "settled_ui uses_child p \<Longrightarrow> presented_request p = None \<Longrightarrow> ui_idle p"
  by (auto simp: settled_ui_def)

lemma idle_settled: "ui_idle p \<Longrightarrow> settled_ui uses_child p"
  by (simp add: settled_ui_def)

lemma cancel_front_result:
  assumes "settled_ui uses_child p" and "sound p" and "\<not> closing p"
  shows "\<exists>p'. cancel_overlay_ui_for_request uses_child p r = Some p' \<and> frame p p' \<and>
    settled_ui uses_child p' \<and> \<not> closing p' \<and>
    presented_request p' = (if presented_request p = r then None else presented_request p)"
proof (cases "r \<noteq> None \<and> presented_request p = r")
  case True
  then obtain q where q: "r = Some q" "presented_request p = Some q" by auto
  obtain w where w: "ui_up Started p q w" "get_active_request p = Some q"
    using assms(1) q(2) assms(3) by (cases rule: settled_cases) (auto simp: ui_idle_def dest: wanted_active)
  then obtain p' where p': "cancel_overlay_ui_for_request uses_child p r = Some p'" "frame p p'" "ui_idle p'"
    using cancel_started [OF assms(2) w(1), of uses_child] q by (auto simp: shows_ui_def)
  then show ?thesis
    using True idle_settled [OF p'(3)] idle_not_closing [OF p'(3)] by (auto simp: ui_idle_def)
next
  case False
  then have "r = None \<or> presented_request p \<noteq> r" by auto
  then obtain p' where "cancel_overlay_ui_for_request uses_child p r = Some p'" "frame p p'"
    "settled_ui uses_child p'" "presented_request p' = presented_request p" "closing p' = closing p"
    using cancel_unpresented [OF assms(1), of r] by blast
  then show ?thesis using False assms(3) by auto
qed

lemma cancel_all_result:
  "settled_ui uses_child p \<Longrightarrow> sound p \<Longrightarrow> \<not> closing p \<Longrightarrow>
   presented_request p = None \<or> active_web_state p \<in> wrapped ` set ws \<Longrightarrow>
   \<exists>p'. cancel_all_overlay_ui uses_child ws p = Some p' \<and> frame p p' \<and> ui_idle p'"
proof (induction ws arbitrary: p)
  case Nil
  then show ?case using settled_unpresented by auto
next
  case (Cons w ws)
  obtain p1 where p1: "cancel_overlay_ui_for_request uses_child p (get_front_request_for_web_state p (wrapped w)) = Some p1"
    "frame p p1" "settled_ui uses_child p1" "\<not> closing p1"
    "presented_request p1 = (if presented_request p = get_front_request_for_web_state p (wrapped w)
       then None else presented_request p)"
    using cancel_front_result [OF Cons.prems(1-3)] by blast
  have "presented_request p1 = None" if "wrapped w = active_web_state p"
  proof (cases "presented_request p")
    case (Some r)
    then have "get_active_request p = Some r"
      using Cons.prems(1) by (auto simp: settled_ui_def ui_idle_def dest: wanted_active)
    then show ?thesis using p1(5) that Some by (simp add: get_active_request_def)
  qed (use p1(5) in simp)
  moreover have "presented_request p1 = None" if "presented_request p = None"
    using p1(5) that by simp
  ultimately have "presented_request p1 = None \<or> active_web_state p1 \<in> wrapped ` set ws"
    using Cons.prems(4) p1(2) by (auto simp: frame_def)
  then obtain p' where "cancel_all_overlay_ui uses_child ws p1 = Some p'" "frame p1 p'" "ui_idle p'"
    using Cons.IH [OF p1(3) _ p1(4)] frame_sound [OF p1(2)] Cons.prems(2) by auto
  then show ?case using p1(1) frame_trans [OF p1(2)] by auto
qed

lemma set_presentation_context_keeps:
  assumes "settled_ui uses_child p" and "sound p" and "\<not> closing p"
    and "active_web_state p \<in> insert None (wrapped ` set (wrappers l))"
  shows "\<exists>p'. set_presentation_context uses_child l p b = Some p' \<and>
    redrawn uses_child (p\<lparr>has_context := b\<rparr>) p'"
proof -
  have act: "presented_request p = None \<or> active_web_state p \<in> wrapped ` set (wrappers l)"
    using assms(4) presented_in_queue [OF assms(1)] by (cases "presented_request p") auto
  obtain p1 where p1: "(if has_context p then cancel_all_overlay_ui uses_child (wrappers l) p else Some p) = Some p1"
    "frame p p1" "ui_idle p1"
  proof (cases "has_context p")
    case True
    then show ?thesis using cancel_all_result [OF assms(1-3) act] that by auto
  next
    case False
    then have "ui_idle p" using assms(1) by (auto simp: settled_ui_def ui_up_def)
    with False that show ?thesis by simp
  qed
  define p2 where "p2 = p1\<lparr>has_context := b, presenting := False, presented_request := None\<rparr>"
  have f: "frame (p\<lparr>has_context := b\<rparr>) p2" using p1(2) by (simp add: p2_def frame_def)
  have idle: "ui_idle p2" using p1(3) by (simp add: p2_def ui_idle_def quiet_but_def)
  have s: "sound p2" using frame_sound [OF p1(2)] assms(2) by (simp add: p2_def)
  have step: "set_presentation_context uses_child l p b =
    (if b then present_overlay_for_active_request uses_child p2 else Some p2)"
    using p1(1) by (simp add: set_presentation_context_def p2_def Let_def)
  have w: "wanted_request uses_child p2 = wanted_request uses_child (p\<lparr>has_context := b\<rparr>)"
    by (rule frame_wanted [OF f])
  show ?thesis
  proof (cases b)
    case True
    then obtain p' where "set_presentation_context uses_child l p b = Some p'" "redrawn uses_child p2 p'"
      using present_redraws [OF s idle, of uses_child] step by auto
    then show ?thesis
      using frame_trans [OF f] frame_shows [OF f] w by (auto simp: redrawn_def)
  next
    case False
    then have "wanted_request uses_child p2 = None"
      by (simp add: p2_def wanted_request_def split: option.splits)
    then show ?thesis using False step f idle w by (simp add: redrawn_def shows_ui_def)
  qed
qed

section \<open>The container changes\<close>

lemma container_capabilities_None [simp]: "container_capabilities None w = 0"
  by (simp add: container_capabilities_def kNone_def)

lemma update_for_coordinator_keeps:
  fixes c :: "nat option" and w :: bool
  assumes "settled_ui uses_child p" and "sound p" and "\<not> closing p"
  defines "p0 \<equiv> p\<lparr>capabilities := container_capabilities c w, container := c\<rparr>"
  shows "\<exists>p'. update_for_coordinator uses_child p c w = Some p' \<and> frame p0 p' \<and> settled_ui uses_child p' \<and>
    \<not> closing p' \<and> sound p' \<and> (prompt uses_child p \<longrightarrow> prompt uses_child p')"
proof -
  define caps where "caps = container_capabilities c w"
  have s0: "sound q0" if "frame p0 q0" for q0
    using assms(2) that by (cases c) (auto simp: p0_def sound_def supports_all_def frame_def)
  show ?thesis
  proof (cases "capabilities p \<noteq> caps \<and> has_context p")
    case False
    have step: "update_for_coordinator uses_child p c w = Some p0"
      using False by (auto simp: update_for_coordinator_def Let_def p0_def caps_def [symmetric])
    have w: "wanted_request uses_child p0 = wanted_request uses_child p"
      using False by (auto simp: wanted_request_def p0_def caps_def [symmetric] get_active_request_def
          get_front_request_for_web_state_def front_request_def split: option.splits)
    have "settled_ui uses_child p0"
      using assms(1)
    proof (cases rule: settled_cases)
      case idle
      then show ?thesis by (simp add: settled_ui_def ui_idle_def quiet_but_def p0_def)
    next
      case (started r ws)
      then have "has_context p" "can_show_ui uses_child r (capabilities p)"
        by (auto simp: wanted_request_def split: option.splits if_splits)
      then have "caps \<noteq> 0" using False by (cases "caps = 0") auto
      then have "c \<noteq> None" by (cases c) (simp_all add: caps_def)
      then show ?thesis using started w by (auto simp: settled_ui_def ui_up_def quiet_but_def p0_def)
    qed (use assms(3) in simp)
    moreover have "\<not> closing p0" using assms(3) by (simp add: closing_def p0_def cong: option.case_cong)
    ultimately show ?thesis using step w s0 [OF frame_refl] by (simp add: prompt_def p0_def)
  next
    case True
    have redo: ?thesis if p1: "will_change_capabilities uses_child p caps = Some p1" "frame p p1" "ui_idle p1" for p1
    proof -
      define p2 where "p2 = p1\<lparr>capabilities := caps, container := c\<rparr>"
      have f: "frame p0 p2" using p1(2) by (simp add: p2_def p0_def caps_def frame_def)
      have "ui_idle p2" using p1(3) by (simp add: p2_def ui_idle_def quiet_but_def)
      then obtain p' where p': "present_overlay_for_active_request uses_child p2 = Some p'" "redrawn uses_child p2 p'"
        using present_redraws [OF s0 [OF f], of uses_child] by blast
      then have "update_for_coordinator uses_child p c w = Some p'"
        using True p1(1,2) \<open>ui_idle p2\<close>
        by (simp add: update_for_coordinator_def Let_def caps_def [symmetric] p2_def [symmetric]
            did_change_capabilities_def ui_idle_def) (simp add: p2_def frame_def)
      moreover have "frame p0 p'" using frame_trans [OF f] p'(2) by (simp add: redrawn_def)
      ultimately show ?thesis using redrawn_settled [OF p'(2)] s0 [of p'] by auto
    qed
    show ?thesis
      using assms(1)
    proof (cases rule: settled_cases)
      case idle
      then show ?thesis using redo [of p] by (simp add: will_change_capabilities_def ui_idle_def)
    next
      case (started r ws)
      note active = wanted_active [OF started(2)]
      have pr: "presenting p" using started(4) by (simp add: ui_up_def)
      show ?thesis
      proof (cases "can_show_ui uses_child r caps")
        case False
        obtain p1 where p1: "hide_overlay_ui uses_child p (Some r) = Some p1" "frame p p1" "ui_idle p1"
          using hide_started [OF assms(2) started(4,1), of uses_child] active by (auto simp: shows_ui_def)
        then have "will_change_capabilities uses_child p caps = Some p1"
          using False pr active by (simp add: will_change_capabilities_def)
        then show ?thesis using redo p1(2,3) by blast
      next
        case can: True
        then have "caps \<noteq> 0" by (cases "caps = 0") auto
        then have c: "c \<noteq> None" by (cases c) (simp_all add: caps_def)
        have "update_for_coordinator uses_child p c w = Some p0"
          using True can pr active
          by (simp add: update_for_coordinator_def Let_def caps_def [symmetric] will_change_capabilities_def
              did_change_capabilities_def p0_def)
        moreover have w: "wanted_request uses_child p0 = Some r"
          using can True active
          by (simp add: wanted_request_def p0_def caps_def get_active_request_def
              get_front_request_for_web_state_def front_request_def cong: option.case_cong)
        moreover have "settled_ui uses_child p0"
          using started w c by (auto simp: settled_ui_def ui_up_def quiet_but_def p0_def)
        moreover have "\<not> closing p0" using assms(3) by (simp add: closing_def p0_def cong: option.case_cong)
        ultimately show ?thesis using started(1) s0 [OF frame_refl] by (simp add: prompt_def p0_def)
      qed
    qed (use assms(3) in simp)
  qed
qed

section \<open>The user answers\<close>

lemma user_dismisses_keeps:
  assumes "settled_ui uses_child p"
  shows "\<exists>p'. user_dismisses p = Some p' \<and> frame p p' \<and> settled_ui uses_child p' \<and>
    presented_request p' = presented_request p"
  using assms
proof (cases rule: settled_cases)
  case idle
  with assms show ?thesis by (simp add: user_dismisses_def ui_idle_def)
next
  case (started r ws)
  obtain st c where st: "ui_states p r = Some st" "ui_coordinator st = Some c" "phase c = Started"
    "ui_dismissal_reason st = kUserInteraction" "context_request p = Some r"
    using started(4) by (auto simp: ui_up_def split: option.splits)
  define p1 where "p1 = log_overlay [Answered r]
    (set_ui_state r (Some (st\<lparr>ui_coordinator := Some (c\<lparr>phase := Closing\<rparr>)\<rparr>)) p)"
  have "user_dismisses p = Some p1" using st by (simp add: user_dismisses_def p1_def)
  moreover have f: "frame p p1" by (simp add: p1_def frame_def is_lifecycle_def)
  moreover have "ui_up Closing p1 r ws"
    using started(4) st by (auto simp: ui_up_def p1_def quiet_but_def)
  moreover have "wanted_request uses_child p1 = Some r" using started(2) frame_wanted [OF f] by simp
  ultimately show ?thesis using started(1,3) by (auto simp: settled_ui_def p1_def)
next
  case (closing r ws)
  then have "user_dismisses p = Some p"
    by (auto simp: user_dismisses_def ui_up_def split: option.splits)
  then show ?thesis using assms by simp
qed

lemma dismissal_finished_keeps:
  assumes "settled_ui uses_child p" and "sound p" and "queues_ok p"
  shows "\<exists>p'. dismissal_finished uses_child p r = Some p' \<and>
    (if closing p \<and> presented_request p = Some r
     then \<exists>ws. active_web_state p = Some ws \<and> front_request p ws = Some r \<and>
       redrawn uses_child (erase_request ws r p) p'
     else p' = p)"
proof (cases "closing p \<and> presented_request p = Some r")
  case False
  have no: "phase c \<noteq> Closing" if "ui_states p r = Some st" "ui_coordinator st = Some c" for st c
  proof (cases "presented_request p = Some r")
    case True
    then have "context_request p = Some r" using settled_context [OF assms(1)] by simp
    then show ?thesis using False True that by (simp add: closing_def)
  next
    case False
    then show ?thesis using settled_quiet [OF assms(1) False that(1)] that(2) by (simp add: quiet_state_def)
  qed
  then have "dismissal_finished uses_child p r = Some p"
    by (auto simp: dismissal_finished_def split: option.splits)
  then show ?thesis unfolding if_not_P [OF False] by simp
next
  case True
  obtain ws where ws: "active_web_state p = Some ws" "wanted_request uses_child p = Some r" "ui_up Closing p r ws"
    using assms(1) True by (cases rule: settled_cases) (auto simp: ui_idle_def)
  then have front: "front_request p ws = Some r" by (auto dest!: wanted_active simp: active_front)
  obtain st c where st: "ui_states p r = Some st" "ui_coordinator st = Some c" "phase c = Closing"
    "ui_dismissal_reason st = kUserInteraction" "context_request p = Some r"
    using ws(3) by (auto simp: ui_up_def split: option.splits)
  define st1 where "st1 = st\<lparr>ui_coordinator := Some (c\<lparr>phase := Stopped\<rparr>)\<rparr>"
  define p1 where "p1 = set_ui_state r (Some st1) p"
  have up: "ui_up Stopped p1 r ws" using ws(3) st by (auto simp: ui_up_def p1_def st1_def quiet_but_def)
  have popped: "popped_by_user p1 r ws (ui_dismissal_reason st1) = True"
    using st front by (simp add: popped_by_user_def st1_def p1_def)
  have "ui_states p1 r = Some st1" "sound p1"
    and "case presented_request p1 of Some q \<Rightarrow> q = r | None \<Rightarrow> ui_dismissal_reason st1 = kCancellation"
    using assms(2) True by (simp_all add: p1_def)
  then obtain p' where p': "overlay_ui_was_dismissed uses_child p1 = Some p'"
    "frame (erase_request ws r p1) p'"
    "shows_ui p1 (if get_active_request (drop_request ws r p1) = Some r then None
       else wanted_request uses_child (drop_request ws r p1)) p'"
    using ui_was_dismissed [of p1 r ws st1 uses_child] up unfolding popped if_True erase_request_def [symmetric]
    by blast
  have e: "frame (erase_request ws r p) (erase_request ws r p1)" by (simp add: p1_def frame_def)
  have "get_active_request (drop_request ws r p1) = get_active_request (erase_request ws r p)"
    "wanted_request uses_child (drop_request ws r p1) = wanted_request uses_child (erase_request ws r p)"
    by (simp_all add: erase_request_def p1_def drop_request_def set_ui_state_def get_active_request_def
        get_front_request_for_web_state_def front_request_def wanted_request_def cong: option.case_cong)
  moreover have "get_active_request (erase_request ws r p) \<noteq> Some r"
    using ws(1) queues_okD(1) [OF assms(3)] by (auto simp: active_front dest!: front_in_queue)
  moreover have "shows_ui p1 x p' = shows_ui (erase_request ws r p) x p'" for x
    by (simp add: shows_ui_def p1_def cong: option.case_cong)
  ultimately have "redrawn uses_child (erase_request ws r p) p'"
    using p'(2,3) frame_trans [OF e] by (simp add: redrawn_def)
  moreover have "dismissal_finished uses_child p r = Some p'"
    using st p'(1) by (simp add: dismissal_finished_def p1_def st1_def)
  ultimately show ?thesis using True ws(1) front by auto
qed

end
