(* ===== verification/OverlaysWindow.thy ===== *)
theory OverlaysWindow
  imports OverlaysMachine
begin

text \<open>
  A window: the presenter follows the tab list, and every step keeps the invariant.
\<close>

section \<open>What one observer of the tab list hears\<close>

definition once :: "nat \<Rightarrow> web_state_list \<Rightarrow> bool" where
  "once ob l = (filter ((=) ob) (observers l) = [ob])"

lemma heard_append [simp]: "heard ob (ns @ ms) = heard ob ns @ heard ob ms"
  by (simp add: heard_def)

lemma heard_Nil [simp]: "heard ob [] = []"
  by (simp add: heard_def)

lemma heard_delegate [simp]: "heard ob (ToDelegate c # ns) = heard ob ns"
  by (simp add: heard_def)

lemma heard_to_observers [simp]: "once ob l \<Longrightarrow> heard ob (to_observers l b e) = [e]"
proof -
  have "heard ob (map (\<lambda>o'. ToObserver o' b e) obs) = map (\<lambda>_. e) (filter ((=) ob) obs)" for obs
    by (induction obs) (auto simp: heard_def)
  then show "once ob l \<Longrightarrow> heard ob (to_observers l b e) = [e]" by (simp add: to_observers_def once_def)
qed

lemma once_cong: "observers l' = observers l \<Longrightarrow> once ob l' = once ob l"
  by (simp add: once_def)

lemma news_eq: "notifications l1 = notifications l @ ns \<Longrightarrow> news ob l l1 = heard ob ns"
  by (simp add: news_def)

section \<open>The presenter reacts\<close>

definition ui_ok :: "(overlay_request \<Rightarrow> bool) \<Rightarrow> overlays \<Rightarrow> bool" where
  "ui_ok uses_child p = (sound p \<and> queues_ok p \<and> settled_ui uses_child p)"

text \<open>\<open>keeps p p'\<close>: a correct state has become another, and the presenter has not fallen behind.\<close>

definition keeps :: "(overlay_request \<Rightarrow> bool) \<Rightarrow> overlays \<Rightarrow> overlays \<Rightarrow> bool" where
  "keeps uses_child p p' = (ui_ok uses_child p' \<and> (prompt uses_child p \<longrightarrow> prompt uses_child p') \<and>
     lifecycle p' = lifecycle p \<and> queues p' = queues p \<and> (closing p' \<longrightarrow> closing p))"

lemma keeps_trans: "keeps uses_child p q \<Longrightarrow> keeps uses_child q s \<Longrightarrow> keeps uses_child p s"
  by (auto simp: keeps_def)

lemma keeps_refl: "ui_ok uses_child p \<Longrightarrow> keeps uses_child p p"
  by (simp add: keeps_def)

lemma redrawn_keeps:
  assumes "redrawn uses_child p p'" and "sound p" and "queues_ok p"
  shows "ui_ok uses_child p'" "prompt uses_child p'" "lifecycle p' = lifecycle p" "queues p' = queues p"
    "\<not> closing p'"
  using assms redrawn_settled [OF assms(1)] frame_sound [of p p'] frame_queues_ok [of p p']
  by (auto simp: redrawn_def ui_ok_def frame_def)

lemma follow_active:
  assumes "ui_ok uses_child p" and "closing p \<longrightarrow> new = active_web_state p"
  shows "\<exists>p'. set_active_web_state uses_child p new reason = Some p' \<and> keeps uses_child p p' \<and>
    active_web_state p' = new \<and> observing p' = observing p \<and>
    detaching_active_web_state p' = (detaching_active_web_state p \<and> new = active_web_state p)"
proof (cases "new = active_web_state p")
  case True
  then show ?thesis using assms(1) by (simp add: set_active_web_state_def keeps_refl)
next
  case False
  define p1 where "p1 = p\<lparr>active_web_state := new, detaching_active_web_state := False\<rparr>"
  have p: "settled_ui uses_child p" "sound p" "queues_ok p" "\<not> closing p"
    using assms False by (simp_all add: ui_ok_def)
  obtain p' where p': "set_active_web_state uses_child p new reason = Some p'" "redrawn uses_child p1 p'"
    using active_switch [OF p(1,2,4,3), of new reason] False by (auto simp: p1_def)
  have "sound p1" "queues_ok p1"
    using p(2,3) queues_ok_cong [of p1 p] by (simp_all add: p1_def)
  note k = redrawn_keeps [OF p'(2) this]
  have "frame p1 p'" using p'(2) by (simp add: redrawn_def)
  then show ?thesis
    using p'(1) k False by (simp add: keeps_def frame_def p1_def)
qed

lemma follow_keep:
  assumes "ui_ok uses_child p"
    and "presenting q = presenting p" and "presented_request q = presented_request p"
    and "context_request q = context_request p" and "ui_states q = ui_states p"
    and "has_context q = has_context p" and "container q = container p"
    and "active_web_state q = active_web_state p" and "supports q = supports p"
    and "capabilities q = capabilities p" and "queues q = queues p"
    and "default_handlers q = default_handlers p" and "lifecycle q = lifecycle p"
  shows "keeps uses_child p q"
proof -
  have "get_active_request q = get_active_request p"
    using assms by (intro get_active_request_other) (simp_all add: front_request_def)
  then have w: "wanted_request uses_child q = wanted_request uses_child p"
    using assms by (intro wanted_other) simp_all
  have "settled_ui uses_child q" "closing q = closing p"
    using settled_transfer [of q p uses_child] assms w by (simp_all add: ui_ok_def)
  moreover have "sound q" "queues_ok q"
    using assms queues_ok_cong [of q p] by (simp_all add: ui_ok_def sound_def supports_all_def)
  ultimately show ?thesis
    using assms w by (simp add: keeps_def ui_ok_def prompt_def)
qed

lemma follow_inserted:
  assumes "ui_ok uses_child p" and "\<not> observing p w"
  shows "\<exists>p'. observe_tab_list uses_child p (WebStateInsertedAt (Some w) i a) = Some p' \<and>
    keeps uses_child p p' \<and> active_web_state p' = active_web_state p \<and>
    observing p' = (observing p)(w := True) \<and>
    detaching_active_web_state p' = detaching_active_web_state p"
  using assms by (auto simp: observe_queue_def intro!: follow_keep)

lemma follow_cancel_inactive:
  assumes "ui_ok uses_child p" and "active_web_state p \<noteq> Some w"
  shows "\<exists>p'. cancel_overlay_ui_for_request uses_child p (get_front_request_for_web_state p (Some w)) = Some p' \<and>
    keeps uses_child p p' \<and> frame p p'"
proof -
  have p: "settled_ui uses_child p" "sound p" "queues_ok p" using assms(1) by (simp_all add: ui_ok_def)
  have "front_request p w = None \<or> presented_request p \<noteq> front_request p w"
    using not_presented [OF p(1,3) assms(2)] front_in_queue by (cases "front_request p w") auto
  then obtain p' where p': "cancel_overlay_ui_for_request uses_child p (front_request p w) = Some p'"
    "frame p p'" "settled_ui uses_child p'" "presented_request p' = presented_request p" "closing p' = closing p"
    using cancel_unpresented [OF p(1)] by blast
  then show ?thesis
    using p frame_sound [OF p'(2)] frame_queues_ok [OF p'(2)] frame_wanted [OF p'(2), of uses_child]
    by (auto simp: keeps_def ui_ok_def prompt_def frame_def get_front_request_for_web_state_def)
qed

lemma follow_replaced:
  assumes "ui_ok uses_child p" and "\<not> observing p n" and "o' \<noteq> n"
  shows "\<exists>p'. observe_tab_list uses_child p (WebStateReplacedAt (Some o') (Some n) i) = Some p' \<and>
    keeps uses_child p p' \<and> active_web_state p' = active_web_state p \<and>
    observing p' = (observing p)(o' := False, n := True) \<and>
    detaching_active_web_state p' = detaching_active_web_state p"
proof -
  define p2 where "p2 = p\<lparr>observing := (observing p)(o' := False, n := True)\<rparr>"
  have k: "keeps uses_child p p2" by (rule follow_keep [OF assms(1)]) (simp_all add: p2_def)
  then have ok: "ui_ok uses_child p2" by (simp add: keeps_def)
  have step: "observe_tab_list uses_child p (WebStateReplacedAt (Some o') (Some n) i) =
    (if Some o' \<noteq> active_web_state p2
     then cancel_overlay_ui_for_request uses_child p2 (get_front_request_for_web_state p2 (Some o'))
     else Some p2)"
    using assms(2,3) by (simp add: stop_observing_queue_def observe_queue_def p2_def Let_def)
  show ?thesis
  proof (cases "Some o' = active_web_state p2")
    case True
    then show ?thesis using step k by (simp add: p2_def)
  next
    case False
    then obtain p' where "cancel_overlay_ui_for_request uses_child p2 (get_front_request_for_web_state p2 (Some o')) = Some p'"
      "keeps uses_child p2 p'" "frame p2 p'"
      using follow_cancel_inactive [OF ok, of o'] by auto
    then show ?thesis using step False keeps_trans [OF k] by (auto simp: frame_def p2_def)
  qed
qed

lemma follow_will_detach:
  assumes "ui_ok uses_child p"
  shows "\<exists>p'. observe_tab_list uses_child p (WillDetachWebStateAt (Some w) i) = Some p' \<and>
    keeps uses_child p p' \<and> active_web_state p' = active_web_state p \<and>
    observing p' = (observing p)(w := False) \<and>
    detaching_active_web_state p' = (Some w = active_web_state p)"
proof -
  define p2 where "p2 = p\<lparr>observing := (observing p)(w := False),
     detaching_active_web_state := (Some w = active_web_state p)\<rparr>"
  have k: "keeps uses_child p p2" by (rule follow_keep [OF assms(1)]) (simp_all add: p2_def)
  then have ok: "ui_ok uses_child p2" by (simp add: keeps_def)
  have step: "observe_tab_list uses_child p (WillDetachWebStateAt (Some w) i) =
    (if Some w \<noteq> active_web_state p2
     then cancel_overlay_ui_for_request uses_child p2 (get_front_request_for_web_state p2 (Some w))
     else Some p2)"
    by (simp add: stop_observing_queue_def p2_def Let_def)
  show ?thesis
  proof (cases "Some w = active_web_state p2")
    case True
    then show ?thesis using step k by (simp add: p2_def)
  next
    case False
    then obtain p' where "cancel_overlay_ui_for_request uses_child p2 (get_front_request_for_web_state p2 (Some w)) = Some p'"
      "keeps uses_child p2 p'" "frame p2 p'"
      using follow_cancel_inactive [OF ok, of w] by auto
    then show ?thesis using step False keeps_trans [OF k] by (auto simp: frame_def p2_def)
  qed
qed

section \<open>The presenter follows the tab list\<close>

definition in_sync :: "web_state_list \<Rightarrow> overlays \<Rightarrow> bool" where
  "in_sync l p = (well_formed l \<and> once presenter_id l \<and> active_web_state p = active_tab l \<and>
     \<not> detaching_active_web_state p \<and> (\<forall>ws. observing p ws \<longleftrightarrow> Some ws \<in> tabs (wrappers l)))"

definition follows :: "(overlay_request \<Rightarrow> bool) \<Rightarrow> overlays \<Rightarrow> observer_event list \<Rightarrow> web_state_list \<Rightarrow> bool" where
  "follows uses_child p es l1 =
     (\<exists>p1. observe_all uses_child p es = Some p1 \<and> in_sync l1 p1 \<and> keeps uses_child p p1)"

lemma observe_all_append:
  "observe_all uses_child p (es @ fs) =
     (case observe_all uses_child p es of None \<Rightarrow> None | Some q \<Rightarrow> observe_all uses_child q fs)"
  by (induction es arbitrary: p) (auto split: option.splits bind_splits)

lemma follows_same:
  assumes "in_sync l p" and "ui_ok uses_child p" and "well_formed l1" and "observers l1 = observers l"
    and "active_tab l1 = active_tab l" and "tabs (wrappers l1) = tabs (wrappers l)"
    and "observe_all uses_child p es = Some p"
  shows "follows uses_child p es l1"
  using assms keeps_refl [OF assms(2)] once_cong [of l1 l presenter_id] by (auto simp: follows_def in_sync_def)

lemma insert_follows:
  assumes "in_sync l p" and "ui_ok uses_child p" and "insert_allowed env l index ws flags op0"
    and "insert_web_state env l index ws flags op0 = Some (l1, i)"
    and "closing p \<longrightarrow> active_tab l1 = active_tab l"
  shows "follows uses_child p (news presenter_id l l1) l1"
proof -
  define act where "act = is_insertion_flag_set flags INSERT_ACTIVATE"
  have wf: "well_formed l" and o1: "once presenter_id l" using assms(1) by (simp_all add: in_sync_def)
  obtain w where w: "ws = Some w" "Some w \<notin> tabs (wrappers l)"
    using assms(3) by (cases ws) (auto simp: insert_allowed_def)
  obtain l2 where l2: "insert_web_state env l index ws flags op0 = Some (l2, insertion_index env l index flags op0)"
    "observers l2 = observers l"
    "notifications l2 = notifications l @ ToDelegate (WillAddWebState ws)
        # to_observers l True (WebStateInsertedAt ws (insertion_index env l index flags op0) act)
        @ (if act then to_observers l False
             (WebStateActivatedAt (active_tab l) ws (insertion_index env l index flags op0) CHANGE_REASON_USER_ACTION) else [])"
    using insert_web_state_effect [OF wf assms(3)] unfolding act_def by blast
  then have l2': "l2 = l1" "i = insertion_index env l index flags op0" using assms(4) by simp_all
  have wf1: "well_formed l1" using insert_well_formed [OF wf assms(3)] assms(4) by simp
  have tab: "strip l1 = vector_insert (nat i) ws (strip l)" "active_tab l1 = (if act then ws else active_tab l)"
    using insert_result [OF wf assms(3)] assms(4) by (auto simp: act_def)
  then have tabs1: "tabs (wrappers l1) = insert ws (tabs (wrappers l))"
    using set_vector_insert [of "nat i" ws "strip l"] unfolding strip_def tabs_def by (metis set_map)
  have es: "news presenter_id l l1 = WebStateInsertedAt (Some w) i act #
      (if act then [WebStateActivatedAt (active_tab l) (Some w) i CHANGE_REASON_USER_ACTION] else [])"
    using news_eq [OF l2(3), of presenter_id] o1 l2' w(1) by simp
  have "\<not> observing p w" using assms(1) w(2) by (simp add: in_sync_def)
  then obtain p1 where p1: "observe_tab_list uses_child p (WebStateInsertedAt (Some w) i act) = Some p1"
    "keeps uses_child p p1" "active_web_state p1 = active_web_state p" "observing p1 = (observing p)(w := True)"
    "detaching_active_web_state p1 = detaching_active_web_state p"
    using follow_inserted [OF assms(2), of w i act] by blast
  have sync: "in_sync l1 q" if "active_web_state q = active_tab l1" "observing q = (observing p)(w := True)"
    "\<not> detaching_active_web_state q" for q
    using that assms(1) wf1 tabs1 w once_cong [of l1 l] l2(2) l2'(1) by (auto simp: in_sync_def)
  show ?thesis
  proof (cases act)
    case False
    then show ?thesis
      using es p1 tab(2) sync [of p1] assms(1) by (auto simp: follows_def in_sync_def)
  next
    case True
    have "ui_ok uses_child p1" "closing p1 \<longrightarrow> Some w = active_web_state p1"
      using p1(2,3) assms(1,5) tab(2) True w(1) by (auto simp: keeps_def in_sync_def)
    then obtain p2 where p2: "set_active_web_state uses_child p1 (Some w) CHANGE_REASON_USER_ACTION = Some p2"
      "keeps uses_child p1 p2" "active_web_state p2 = Some w" "observing p2 = observing p1"
      "detaching_active_web_state p2 = (detaching_active_web_state p1 \<and> Some w = active_web_state p1)"
      using follow_active by blast
    have "in_sync l1 p2"
      using p1 p2 tab(2) True w(1) assms(1) by (intro sync) (auto simp: in_sync_def)
    then show ?thesis
      using es p1(1) p2(1) True keeps_trans [OF p1(2) p2(2)] by (simp add: follows_def)
  qed
qed

lemma activate_follows:
  assumes "in_sync l p" and "ui_ok uses_child p" and "contains_index l i"
    and "activate_web_state_at l i = Some l1" and "closing p \<longrightarrow> active_tab l1 = active_tab l"
  shows "follows uses_child p (news presenter_id l l1) l1"
proof -
  have wf: "well_formed l" and o1: "once presenter_id l" using assms(1) by (simp_all add: in_sync_def)
  have l1: "wrappers l1 = wrappers l" "observers l1 = observers l"
    "notifications l1 = notifications l @ (if active_tab l = active_tab l1 then []
        else to_observers l (locked l)
          (WebStateActivatedAt (active_tab l) (active_tab l1) i CHANGE_REASON_USER_ACTION))"
    using activate_web_state_at_effect [of l i] wf assms(3,4) by (auto simp: well_formed_def)
  have wf1: "well_formed l1" using activate_well_formed [OF wf assms(3)] assms(4) by simp
  obtain p1 where p1: "set_active_web_state uses_child p (active_tab l1) CHANGE_REASON_USER_ACTION = Some p1"
    "keeps uses_child p p1" "active_web_state p1 = active_tab l1" "observing p1 = observing p"
    "detaching_active_web_state p1 = (detaching_active_web_state p \<and> active_tab l1 = active_web_state p)"
    using follow_active [OF assms(2), of "active_tab l1"] assms(1,5) by (auto simp: in_sync_def)
  have "observe_all uses_child p (news presenter_id l l1) = Some p1"
    using p1(1) assms(1) o1 by (auto simp: news_eq [OF l1(3)] in_sync_def set_active_web_state_def)
  then show ?thesis
    using p1(2-5) assms(1) wf1 l1 once_cong [of l1 l] by (auto simp: follows_def in_sync_def)
qed

text \<open>
  A replacement announces the active tab even when another tab was replaced; the presenter has
  that tab already.
\<close>

lemma replace_follows:
  assumes "in_sync l p" and "ui_ok uses_child p" and "contains_index l i"
    and "ws \<noteq> None" and "ws \<notin> tabs (wrappers l)"
    and "replace_web_state_at l i ws = Some (l1, old)" and "closing p \<longrightarrow> active_tab l1 = active_tab l"
  shows "follows uses_child p (news presenter_id l l1) l1"
proof -
  have wf: "well_formed l" and o1: "once presenter_id l" using assms(1) by (simp_all add: in_sync_def)
  have st: "settled l" "\<not> locked l" using wf by (simp_all add: well_formed_def)
  obtain l2 where l2: "replace_web_state_at l i ws = Some (l2, wrapped (wrappers l ! nat i))"
    "wrappers l2 = (map (forget_opener (wrapped (wrappers l ! nat i))) (wrappers l))
        [nat i := (wrappers l ! nat i)\<lparr>wrapped := ws, wrapped_opener := no_opener\<rparr>]"
    "active_index l2 = active_index l" "locked l2 = locked l" "observers l2 = observers l" "settled l2"
    "notifications l2 = notifications l @ ToDelegate (WillAddWebState ws)
        # to_observers l (locked l) (WebStateReplacedAt (wrapped (wrappers l ! nat i)) ws i)
        @ (if wrapped (wrappers l ! nat i) = active_tab l2 then [] else to_observers l (locked l)
             (WebStateActivatedAt (wrapped (wrappers l ! nat i)) (active_tab l2) (active_index l) CHANGE_REASON_REPLACED))
        @ [ToDelegate (WebStateDetached (wrapped (wrappers l ! nat i)))]"
    using replace_web_state_at_effect [OF st(1) assms(3-5)] by blast
  then have eq: "l2 = l1" "old = wrapped (wrappers l ! nat i)" using assms(6) by simp_all
  have n: "nat i < length (wrappers l)" by (rule contains_index_nth [OF assms(3)])
  then have "old \<in> tabs (wrappers l)" by (simp add: eq(2) tabs_def)
  then obtain w where w: "old = Some w" using st(1) by (cases old) (auto simp: settled_def live_def)
  obtain v where v: "ws = Some v" using assms(4) by blast
  have strip1: "strip l1 = (strip l)[nat i := ws]"
    using n by (simp add: strip_def l2(2) [unfolded eq(1)] map_update comp_def)
  have d: "distinct (strip l)" using st(1) by (simp add: settled_def live_def strip_def)
  have ni: "strip l ! nat i = Some w" using n w eq(2) by (simp add: strip_def)
  have "set (strip l1) = insert ws (set (strip l) - {old})"
    using n d ni w by (simp add: strip1 set_update_distinct)
  then have tabs1: "tabs (wrappers l1) = insert ws (tabs (wrappers l) - {old})"
    by (simp add: strip_def tabs_def)
  have act1: "active_tab l1 = (if active_tab l = old then ws else active_tab l)"
  proof (cases "active_index l = kInvalidIndex")
    case True
    then show ?thesis using l2(3) eq(1) w by (simp add: active_tab_def)
  next
    case False
    then have "contains_index l (active_index l)" using st(1) by (rule settled_activeD [rotated])
    then have k: "nat (active_index l) < length (strip l)" using contains_index_nth by (simp add: strip_def)
    then have "strip l ! nat (active_index l) = old \<longleftrightarrow> nat (active_index l) = nat i"
      using nth_eq_iff_index_eq [OF d k, of "nat i"] n ni w by simp
    then show ?thesis
      using False l2(3) eq(1) n strip1 by (simp add: active_tab_def nth_list_update)
  qed
  have wv: "w \<noteq> v" using assms(5) \<open>old \<in> _\<close> w v by auto
  have nv: "\<not> observing p v" using assms(1,5) v by (simp add: in_sync_def)
  obtain p1 where p1: "observe_tab_list uses_child p (WebStateReplacedAt (Some w) (Some v) i) = Some p1"
    "keeps uses_child p p1" "active_web_state p1 = active_web_state p"
    "observing p1 = (observing p)(w := False, v := True)"
    "detaching_active_web_state p1 = detaching_active_web_state p"
    using follow_replaced [OF assms(2) nv wv] by blast
  have "ui_ok uses_child p1" "closing p1 \<longrightarrow> active_tab l1 = active_web_state p1"
    using p1(2,3) assms(1,7) by (auto simp: keeps_def in_sync_def)
  then obtain p2 where p2: "set_active_web_state uses_child p1 (active_tab l1) CHANGE_REASON_REPLACED = Some p2"
    "keeps uses_child p1 p2" "active_web_state p2 = active_tab l1" "observing p2 = observing p1"
    "detaching_active_web_state p2 = (detaching_active_web_state p1 \<and> active_tab l1 = active_web_state p1)"
    using follow_active by blast
  have "old \<noteq> active_tab l1" using act1 wv w v by auto
  then have "news presenter_id l l1 = [WebStateReplacedAt (Some w) (Some v) i,
      WebStateActivatedAt (Some w) (active_tab l1) (active_index l) CHANGE_REASON_REPLACED]"
    using news_eq [OF l2(7), of presenter_id] eq o1 w v by simp
  then have "observe_all uses_child p (news presenter_id l l1) = Some p2"
    using p1(1) p2(1) by simp
  moreover have "well_formed l1" using l2(4,6) eq(1) st(2) by (simp add: well_formed_def)
  then have "in_sync l1 p2"
    using p1 p2 assms(1) tabs1 w v wv once_cong [of l1 l] l2(5) eq(1) by (auto simp: in_sync_def)
  ultimately show ?thesis using keeps_trans [OF p1(2) p2(2)] by (auto simp: follows_def)
qed

lemma detach_follows:
  assumes "in_sync l p" and "ui_ok uses_child p" and "contains_index l i"
    and "detach_web_state_at env l i = Some (l1, ws)" and "closing p \<longrightarrow> active_tab l1 = active_tab l"
  shows "follows uses_child p (news presenter_id l l1) l1" "well_formed l1" "observers l1 = observers l"
proof -
  have wf: "well_formed l" and o1: "once presenter_id l" using assms(1) by (simp_all add: in_sync_def)
  have st: "settled l" using wf by (simp add: well_formed_def)
  obtain l2 where l2: "detach_web_state_at env l i = Some (l2, wrapped (wrappers l ! nat i))"
    "wrappers l2 = vector_erase (nat i) (map (forget_opener (wrapped (wrappers l ! nat i))) (wrappers l))"
    "observers l2 = observers l" "well_formed l2"
    "notifications l2 = notifications l @ detach_log l i l2 @ [ToDelegate (WebStateDetached (wrapped (wrappers l ! nat i)))]"
    using detach_web_state_at_effect [OF wf assms(3), of env] by blast
  then have eq: "l2 = l1" "ws = wrapped (wrappers l ! nat i)" using assms(4) by simp_all
  show wf1: "well_formed l1" and obs1: "observers l1 = observers l" using l2(3,4) eq(1) by simp_all
  have n: "nat i < length (wrappers l)" by (rule contains_index_nth [OF assms(3)])
  then have "ws \<in> tabs (wrappers l)" by (simp add: eq(2) tabs_def)
  then obtain w where w: "ws = Some w" using st by (cases ws) (auto simp: settled_def live_def)
  have d: "distinct (strip l)" using st by (simp add: settled_def live_def strip_def)
  have strip1: "strip l1 = vector_erase (nat i) (strip l)" and ni: "strip l ! nat i = ws"
    and other: "i \<noteq> active_index l \<longrightarrow> active_tab l1 = active_tab l"
    using detach_result [OF wf assms(3), of env] assms(4) by auto
  have "set (strip l1) = set (strip l) - {ws}"
    using set_vector_erase [OF d, of "nat i"] n ni by (simp add: strip1)
  then have tabs1: "tabs (wrappers l1) = tabs (wrappers l) - {ws}"
    by (simp add: strip_def tabs_def)
  have "active_tab l1 \<in> insert None (tabs (wrappers l1))"
    using wf1 by (intro active_tab_in) (simp add: well_formed_def)
  then have "active_tab l1 = None \<or> active_tab l1 \<noteq> ws" unfolding tabs1 by blast
  then have gone: "active_tab l1 \<noteq> ws" using w by (metis option.distinct(1))
  have act: "i = active_index l \<longleftrightarrow> ws = active_tab l"
  proof (cases "active_index l = kInvalidIndex")
    case True
    then show ?thesis using assms(3) w by (auto simp: active_tab_def contains_index_def kInvalidIndex_def)
  next
    case False
    then have k: "contains_index l (active_index l)" using st by (rule settled_activeD [rotated])
    have "strip l ! nat (active_index l) = ws \<longleftrightarrow> nat (active_index l) = nat i"
      using nth_eq_iff_index_eq [OF d, of "nat (active_index l)" "nat i"] n ni contains_index_nth [OF k] by simp
    then show ?thesis
      using False k assms(3) by (auto simp: active_tab_def contains_index_def)
  qed
  have es: "news presenter_id l l1 = WillDetachWebStateAt (Some w) i # WebStateDetachedAt (Some w) i #
      (if ws = active_tab l then [WebStateActivatedAt ws (active_tab l1) (active_index l1) CHANGE_REASON_NONE] else [])"
    using news_eq [OF l2(5), of presenter_id] eq o1 w act by (simp add: detach_log_def Let_def)
  obtain p1 where p1: "observe_tab_list uses_child p (WillDetachWebStateAt (Some w) i) = Some p1"
    "keeps uses_child p p1" "active_web_state p1 = active_web_state p" "observing p1 = (observing p)(w := False)"
    "detaching_active_web_state p1 = (Some w = active_web_state p)"
    using follow_will_detach [OF assms(2)] by blast
  have sync: "in_sync l1 q" if "active_web_state q = active_tab l1" "observing q = (observing p)(w := False)"
    "\<not> detaching_active_web_state q" for q
    using that assms(1) wf1 tabs1 w once_cong [of l1 l] obs1 by (auto simp: in_sync_def)
  show "follows uses_child p (news presenter_id l l1) l1"
  proof (cases "ws = active_tab l")
    case False
    then have "in_sync l1 p1"
      using p1 other act w assms(1) by (intro sync) (auto simp: in_sync_def)
    then show ?thesis using es False p1(1,2) by (simp add: follows_def)
  next
    case True
    have "ui_ok uses_child p1" "closing p1 \<longrightarrow> active_tab l1 = active_web_state p1"
      using p1(2,3) assms(1,5) by (auto simp: keeps_def in_sync_def)
    then obtain p2 where p2: "set_active_web_state uses_child p1 (active_tab l1) CHANGE_REASON_NONE = Some p2"
      "keeps uses_child p1 p2" "active_web_state p2 = active_tab l1" "observing p2 = observing p1"
      "detaching_active_web_state p2 = (detaching_active_web_state p1 \<and> active_tab l1 = active_web_state p1)"
      using follow_active by blast
    have "in_sync l1 p2"
      using p1 p2 True gone assms(1) by (intro sync) (auto simp: in_sync_def)
    then show ?thesis
      using es True p1(1) p2(1) keeps_trans [OF p1(2) p2(2)] by (simp add: follows_def)
  qed
qed

lemma follows_quiet:
  assumes "follows uses_child p es l1" and "well_formed l2" and "observers l2 = observers l1"
    and "wrappers l2 = wrappers l1" and "active_index l2 = active_index l1"
    and "\<And>q. observe_all uses_child q fs = Some q"
  shows "follows uses_child p (es @ fs) l2"
  using assms once_cong [of l2 l1 presenter_id]
  by (auto simp: follows_def in_sync_def observe_all_append active_tab_def strip_def)

lemma close_follows:
  assumes "in_sync l p" and "ui_ok uses_child p" and "contains_index l i"
    and "close_web_state_at env l i f = Some l1" and "closing p \<longrightarrow> active_tab l1 = active_tab l"
  shows "\<exists>es. heard presenter_id (notifications l1) = heard presenter_id (notifications l) @ es \<and>
    follows uses_child p es l1"
proof -
  have wf: "well_formed l" and o1: "once presenter_id l" using assms(1) by (simp_all add: in_sync_def)
  define ws where "ws = wrapped (wrappers l ! nat i)"
  obtain l2 d where c: "close_web_state_at env l i f = Some l2" "detach_web_state_at env l i = Some (d, ws)"
    "wrappers l2 = wrappers d" "active_index l2 = active_index d" "observers l2 = observers d" "well_formed l2"
    "notifications l2 = notifications d @ to_observers d True (WillCloseWebStateAt ws i (is_closing_flag_set f CLOSE_USER_ACTION))"
    using close_web_state_at_effect [OF wf assms(3), of env f] unfolding ws_def by blast
  then have l2: "l2 = l1" using assms(4) by simp
  have "active_tab d = active_tab l1" using c(3,4) l2 by (simp add: active_tab_def strip_def)
  then have "closing p \<longrightarrow> active_tab d = active_tab l" using assms(5) by simp
  note d = detach_follows [OF assms(1-3) c(2) this]
  obtain ns where ns: "notifications d = notifications l @ ns"
    using detach_web_state_at_effect [OF wf assms(3), of env] c(2) by auto
  have od: "once presenter_id d" using o1 d(3) once_cong by metis
  have "follows uses_child p (news presenter_id l d @ [WillCloseWebStateAt ws i (is_closing_flag_set f CLOSE_USER_ACTION)]) l1"
    using c(3-6) l2 by (intro follows_quiet [OF d(1)]) auto
  then show ?thesis using c(7) l2 ns od by (auto simp: news_eq [OF ns])
qed

lemma close_all_loop_follows:
  "in_sync l p \<Longrightarrow> ui_ok uses_child p \<Longrightarrow> \<not> closing p \<Longrightarrow> close_all_loop env f l = Some l1 \<Longrightarrow>
   \<exists>es. heard presenter_id (notifications l1) = heard presenter_id (notifications l) @ es \<and>
     follows uses_child p es l1"
proof (induction env f l arbitrary: p rule: close_all_loop.induct)
  case (1 env f l)
  show ?case
  proof (cases "is_empty l")
    case True
    then have "l1 = l" using "1.prems"(4) by (simp add: close_all_loop.simps [of env f l])
    then show ?thesis
      using follows_same [OF "1.prems"(1,2), of l "[]"] "1.prems"(1) by (auto simp: in_sync_def intro!: exI [of _ "[]"])
  next
    case False
    then have i: "contains_index l (count l - 1)"
      by (cases "wrappers l") (auto simp: is_empty_def contains_index_def count_def)
    obtain l2 where l2: "close_web_state_at env l (count l - 1) f = Some l2" "close_all_loop env f l2 = Some l1"
      using "1.prems"(4) False by (auto simp: close_all_loop.simps [of env f l] split: option.splits)
    obtain es where es: "heard presenter_id (notifications l2) = heard presenter_id (notifications l) @ es"
      "follows uses_child p es l2"
      using close_follows [OF "1.prems"(1,2) i l2(1)] "1.prems"(3) by blast
    then obtain q where q: "observe_all uses_child p es = Some q" "in_sync l2 q" "keeps uses_child p q"
      by (auto simp: follows_def)
    then obtain fs where fs: "heard presenter_id (notifications l1) = heard presenter_id (notifications l2) @ fs"
      "follows uses_child q fs l1"
      using "1.IH" [OF False l2(1) q(2)] l2(2) "1.prems"(3) by (auto simp: keeps_def)
    then have "follows uses_child p (es @ fs) l1"
      using q(1,3) keeps_trans [OF q(3)] by (auto simp: follows_def observe_all_append)
    then show ?thesis using es(1) fs(1) by auto
  qed
qed

lemma close_all_follows:
  assumes "in_sync l p" and "ui_ok uses_child p" and "\<not> closing p"
    and "close_all_web_states env l f = Some l1"
  shows "follows uses_child p (news presenter_id l l1) l1"
proof -
  define l0 where "l0 = notify l WillBeginBatchOperation"
  obtain l2 where l2: "close_all_loop env f l0 = Some l2" "l1 = notify l2 BatchOperationEnded"
    using assms(4) by (auto simp: close_all_web_states_def perform_batch_operation_def l0_def option_dest)
  have o1: "once presenter_id l" using assms(1) by (simp add: in_sync_def)
  have "in_sync l0 p"
    using assms(1) once_cong [of l0 l] by (simp add: in_sync_def l0_def)
  then obtain es where es: "heard presenter_id (notifications l2) = heard presenter_id (notifications l0) @ es"
    "follows uses_child p es l2"
    using close_all_loop_follows [OF _ assms(2,3) l2(1)] by blast
  have "once presenter_id l2" using es(2) by (auto simp: follows_def in_sync_def)
  then have "news presenter_id l l1 = WillBeginBatchOperation # es @ [BatchOperationEnded]"
    using es(1) l2(2) o1 by (simp add: news_def l0_def notifications_log)
  moreover have "follows uses_child p (es @ [BatchOperationEnded]) l1"
    using es(2) l2(2) by (intro follows_quiet [OF es(2)]) (auto simp: follows_def in_sync_def)
  ultimately show ?thesis by (simp add: follows_def)
qed

text \<open>Every operation on the tab list.\<close>

definition tab_list_op_allowed :: "web_state_env \<Rightarrow> web_state_list \<Rightarrow> overlays \<Rightarrow> web_state_list_op \<Rightarrow> bool" where
  "tab_list_op_allowed env l p c = (op_allowed env l c \<and>
     (case c of AddObserver ob \<Rightarrow> ob \<noteq> presenter_id | RemoveObserver ob \<Rightarrow> ob \<noteq> presenter_id | _ \<Rightarrow> True) \<and>
     (closing p \<longrightarrow> (case web_state_list_step env l c of None \<Rightarrow> True | Some l1 \<Rightarrow> active_tab l1 = active_tab l)))"

lemma tab_list_follows:
  assumes "in_sync l p" and "ui_ok uses_child p" and "tab_list_op_allowed env l p c"
    and "web_state_list_step env l c = Some l1"
  shows "follows uses_child p (news presenter_id l l1) l1"
proof -
  have wf: "well_formed l" and o1: "once presenter_id l" using assms(1) by (simp_all add: in_sync_def)
  have ok: "op_allowed env l c" and same: "closing p \<longrightarrow> active_tab l1 = active_tab l"
    using assms(3,4) by (simp_all add: tab_list_op_allowed_def)
  show ?thesis
  proof (cases c)
    case (SetOpenerOfWebStateAt i op)
    then obtain l2 where l2: "set_opener_of_web_state_at l i op = Some l2" "strip l2 = strip l"
      "active_index l2 = active_index l" "well_formed l2"
      using set_opener_well_formed [OF wf, of i op] ok by auto
    then have "l2 = l1" using SetOpenerOfWebStateAt assms(4) by simp
    moreover from this have "notifications l1 = notifications l @ []" "observers l1 = observers l"
      using l2(1) by (auto simp: set_opener_of_web_state_at_def option_dest)
    moreover have "tabs (wrappers l2) = tabs (wrappers l)"
      using l2(2) unfolding tabs_def strip_def by (metis set_map)
    ultimately show ?thesis
      using l2(2-4) follows_same [OF assms(1,2), of l1 "[]"] by (simp add: news_def active_tab_def)
  next
    case (InsertWebState i ws flags op)
    then show ?thesis
      using insert_follows [OF assms(1,2), of env i ws flags op l1] assms(4) ok same by auto
  next
    case (MoveWebStateAt i j)
    then have ij: "contains_index l i" "contains_index l j" using ok by simp_all
    obtain l2 where l2: "move_web_state_at l i j = Some l2" "observers l2 = observers l"
      "notifications l2 = notifications l @ (if i = j then []
        else to_observers l True (WebStateMoved (wrapped (wrappers l ! nat i)) i j))"
      using move_web_state_at_effect [OF wf ij] by blast
    then have eq: "l2 = l1" using MoveWebStateAt assms(4) by simp
    have "strip l1 = vector_insert (nat j) (strip l ! nat i) (vector_erase (nat i) (strip l))"
      "active_tab l1 = active_tab l" "well_formed l1"
      using move_result [OF wf ij] move_well_formed [OF wf ij] l2(1) eq by auto
    moreover from this(1) have "set (strip l1) = set (strip l)"
      using set_moved [of "nat i" "strip l" "nat j"] contains_index_nth [OF ij(1)] by simp
    then have "tabs (wrappers l1) = tabs (wrappers l)" unfolding strip_def tabs_def by (metis set_map)
    ultimately show ?thesis
      using l2(2) eq o1 by (intro follows_same [OF assms(1,2)]) (simp_all add: news_eq [OF l2(3) [unfolded eq]])
  next
    case (ReplaceWebStateAt i ws)
    then show ?thesis
      using replace_follows [OF assms(1,2), of i ws l1] assms(4) ok same by auto
  next
    case (DetachWebStateAt i)
    then show ?thesis
      using detach_follows(1) [OF assms(1,2), of i env l1] assms(4) ok same by auto
  next
    case (CloseWebStateAt i f)
    then show ?thesis
      using close_follows [OF assms(1,2), of i env f l1] assms(4) ok same by (auto simp: news_def)
  next
    case (CloseAllWebStates f)
    then have step: "close_all_web_states env l f = Some l1" using assms(4) by simp
    show ?thesis
    proof (cases "closing p")
      case False
      then show ?thesis using close_all_follows [OF assms(1,2) _ step] by simp
    next
      case True
      have "wrappers l1 = []" "well_formed l1"
        using close_all_web_states_effect [OF wf, of env f] step by auto
      then have "active_tab l1 = None"
        by (auto simp: well_formed_def settled_def count_def kInvalidIndex_def active_tab_def)
      moreover have "active_web_state p \<noteq> None"
        using assms(2) True idle_not_closing by (auto simp: ui_ok_def settled_ui_def)
      ultimately show ?thesis using True same assms(1) by (simp add: in_sync_def)
    qed
  next
    case (ActivateWebStateAt i)
    then show ?thesis
      using activate_follows [OF assms(1,2), of i l1] assms(4) ok same by auto
  next
    case (AddObserver ob)
    then have "l1 = add_observer l ob" "ob \<noteq> presenter_id" using assms(3,4) by (simp_all add: tab_list_op_allowed_def)
    then show ?thesis
      using assms(1) keeps_refl [OF assms(2)]
      by (auto simp: follows_def news_def add_observer_def in_sync_def once_def active_tab_def strip_def
          well_formed_def settled_def count_def)
  next
    case (RemoveObserver ob)
    then have "l1 = remove_observer l ob" "ob \<noteq> presenter_id" using assms(3,4) by (simp_all add: tab_list_op_allowed_def)
    moreover have "filter ((=) presenter_id) (removeAll ob xs) = filter ((=) presenter_id) xs"
      if "ob \<noteq> presenter_id" for xs using that by (induction xs) auto
    ultimately show ?thesis
      using assms(1) keeps_refl [OF assms(2)]
      by (auto simp: follows_def news_def remove_observer_def in_sync_def once_def active_tab_def strip_def
          well_formed_def settled_def count_def)
  qed
qed

end
