(* ===== verification/OverlaysLifecycle.thy ===== *)
theory OverlaysLifecycle
  imports OverlaysMachine
begin

text \<open>
  What the presenter and the presentation context may do to the queues, in whatever state they
  are: nothing, except for a request that the user has dismissed and that is at the front of its
  queue, which is popped. So a request leaves its queue once, also when it is cancelled, or
  hidden by another tab, while its dismissal is animated.
\<close>

section \<open>Calls that leave the queues alone\<close>

definition undisturbed :: "overlays \<Rightarrow> overlays \<Rightarrow> bool" where
  "undisturbed p q \<longleftrightarrow> queues q = queues p \<and> default_handlers q = default_handlers p
     \<and> lifecycle q = lifecycle p"

lemma undisturbed_refl [simp, intro]: "undisturbed p p"
  by (simp add: undisturbed_def)

lemma undisturbed_trans [trans]: "undisturbed p q \<Longrightarrow> undisturbed q s \<Longrightarrow> undisturbed p s"
  by (simp add: undisturbed_def)

lemma undisturbed_ok: "undisturbed p q \<Longrightarrow> queues_ok q = queues_ok p"
  by (rule queues_ok_cong) (simp_all add: undisturbed_def)

lemma undisturbed_from [simp]:
  "undisturbed (set_ui_state r st p) q = undisturbed p q"
  "undisturbed (p\<lparr>presenting := b\<rparr>) q = undisturbed p q"
  "undisturbed (p\<lparr>presented_request := x\<rparr>) q = undisturbed p q"
  "undisturbed (p\<lparr>detaching_active_web_state := b\<rparr>) q = undisturbed p q"
  "undisturbed (p\<lparr>active_web_state := w\<rparr>) q = undisturbed p q"
  "undisturbed (p\<lparr>has_context := b\<rparr>) q = undisturbed p q"
  "undisturbed (p\<lparr>observing := f\<rparr>) q = undisturbed p q"
  "undisturbed (p\<lparr>context_request := x\<rparr>) q = undisturbed p q"
  "undisturbed (p\<lparr>container := c\<rparr>) q = undisturbed p q"
  "undisturbed (p\<lparr>capabilities := k\<rparr>) q = undisturbed p q"
  by (simp_all add: undisturbed_def set_ui_state_def lifecycle_def)

lemma undisturbed_to [simp]:
  "undisturbed p (set_ui_state r st q) = undisturbed p q"
  "undisturbed p (q\<lparr>presenting := b\<rparr>) = undisturbed p q"
  "undisturbed p (q\<lparr>presented_request := x\<rparr>) = undisturbed p q"
  "undisturbed p (q\<lparr>active_web_state := w\<rparr>) = undisturbed p q"
  "undisturbed p (q\<lparr>detaching_active_web_state := b\<rparr>) = undisturbed p q"
  "undisturbed p (q\<lparr>has_context := b\<rparr>) = undisturbed p q"
  "undisturbed p (q\<lparr>observing := f\<rparr>) = undisturbed p q"
  "undisturbed p (q\<lparr>context_request := x\<rparr>) = undisturbed p q"
  "undisturbed p (q\<lparr>container := c\<rparr>) = undisturbed p q"
  "undisturbed p (q\<lparr>capabilities := k\<rparr>) = undisturbed p q"
  "undisturbed p (log_overlay (fst (tell_observers WillShow r i ss)) q) = undisturbed p q"
  "undisturbed p (log_overlay (fst (tell_observers DidShow r i ss)) q) = undisturbed p q"
  "undisturbed p (log_overlay (fst (tell_observers DidHide r i ss)) q) = undisturbed p q"
  "undisturbed p (log_overlay [Answered r] q) = undisturbed p q"
  by (simp_all add: undisturbed_def set_ui_state_def lifecycle_def is_lifecycle_def)

named_theorems calm "calls that leave the queues alone"

lemma calm_presented [calm]: "overlay_was_presented p r = Some q \<Longrightarrow> undisturbed p q"
  by (auto simp: overlay_was_presented_def dcheck_bind_eq_Some)

lemma calm_show_ui [calm]: "show_ui_for_presented_request p = Some q \<Longrightarrow> undisturbed p q"
  by (auto simp: show_ui_for_presented_request_def dcheck_bind_eq_Some Let_def dest: calm
      split: option.splits)

lemma calm_forget [calm]: "forget_presented_request p = Some q \<Longrightarrow> undisturbed p q"
  by (auto simp: forget_presented_request_def dcheck_bind_eq_Some split: option.splits if_splits)

lemma calm_set_request [calm]:
  assumes "set_request p x = Some q"
  shows "undisturbed p q"
proof (cases "context_request p = x")
  case False
  with assms obtain p1 where p1: "forget_presented_request p = Some p1"
    "show_ui_for_presented_request (p1\<lparr>context_request := x\<rparr>) = Some q"
    by (auto simp: set_request_def option_dest dcheck_bind_eq_Some Let_def)
  from calm_forget [OF p1(1)] calm_show_ui [OF p1(2)] show ?thesis
    using undisturbed_trans by simp
qed (use assms in \<open>simp add: set_request_def\<close>)

lemma calm_show_overlay_ui [calm]: "show_overlay_ui p r ws = Some q \<Longrightarrow> undisturbed p q"
  by (auto simp: show_overlay_ui_def option_dest Let_def dest!: calm_set_request)

lemma calm_present [calm]:
  assumes "present_overlay_for_active_request uses_child p = Some q"
  shows "undisturbed p q"
proof -
  have log: "undisturbed p s" if "undisturbed (log_overlay (fst (tell_observers WillShow r 0 (supports p)))
      (p\<lparr>presenting := True, presented_request := Some r\<rparr>)) s" for r s
    using that by (simp add: undisturbed_def lifecycle_def)
  show ?thesis
    using assms
    by (auto simp: present_overlay_for_active_request_def dcheck_bind_eq_Some Let_def case_prod_unfold
        split: option.splits if_splits dest!: calm_show_overlay_ui intro: log)
qed

section \<open>Dismissals\<close>

text \<open>The front request of some queue, dismissed by the user, is popped and completed.\<close>

definition popped_front :: "overlays \<Rightarrow> overlays \<Rightarrow> bool" where
  "popped_front p q \<longleftrightarrow> (\<exists>ws r. r \<in> set (queues p ws) \<and> undisturbed (erase_request ws r p) q)"

lemma popped_front_ok: "popped_front p q \<Longrightarrow> queues_ok p \<Longrightarrow> queues_ok q"
  using erase_request_ok undisturbed_ok unfolding popped_front_def by metis

lemma was_dismissed_calm:
  assumes "overlay_was_dismissed uses_child p r ws reason = Some q"
    and "\<not> (reason = kUserInteraction \<and> front_request p ws = Some r)"
  shows "undisturbed p q"
proof (cases "has_context p")
  case True
  define p3 where "p3 = log_overlay (fst (tell_observers DidHide r 0 (supports p)))
    (p\<lparr>presenting := False, presented_request := None\<rparr>)"
  have p3: "undisturbed p p3" by (simp add: p3_def)
  have "q = p3 \<or> present_overlay_for_active_request uses_child p3 = Some q"
    using assms True
    by (auto simp: overlay_was_dismissed_def option_dest dcheck_bind_eq_Some Let_def case_prod_unfold p3_def
        split: if_splits)
  with p3 calm_present undisturbed_trans show ?thesis by blast
qed (use assms in \<open>simp add: overlay_was_dismissed_def\<close>)

lemma was_dismissed_pops:
  assumes "overlay_was_dismissed uses_child p r ws reason = Some q"
    and "reason = kUserInteraction" and "front_request p ws = Some r"
  shows "undisturbed p q \<or> popped_front p q"
proof (cases "has_context p")
  case True
  define p3 where "p3 = log_overlay (fst (tell_observers DidHide r 0 (supports p)))
    ((drop_request ws r p)\<lparr>presenting := False, presented_request := None\<rparr>)"
  have p3: "undisturbed (drop_request ws r p) p3" by (simp add: p3_def)
  have "\<exists>p4. q = log_overlay [Completed r] p4 \<and>
      (p4 = p3 \<or> present_overlay_for_active_request uses_child p3 = Some p4)"
    using assms True
    by (auto simp: overlay_was_dismissed_def option_dest dcheck_bind_eq_Some Let_def case_prod_unfold p3_def
        drop_request_def split: if_splits)
  then obtain p4 where p4: "q = log_overlay [Completed r] p4" "undisturbed (drop_request ws r p) p4"
    using p3 calm_present undisturbed_trans by blast
  then have "undisturbed (erase_request ws r p) q"
    by (simp add: undisturbed_def erase_request_def)
  then show ?thesis using front_in_queue [OF assms(3)] by (auto simp: popped_front_def)
qed (use assms in \<open>simp add: overlay_was_dismissed_def\<close>)

text \<open>The callback runs with the reason that was written last: only an answer of the user pops.\<close>

definition may_pop :: "bool \<Rightarrow> overlays \<Rightarrow> overlays \<Rightarrow> bool" where
  "may_pop user p q \<longleftrightarrow> undisturbed p q \<or> user \<and> popped_front p q"

lemma may_pop_False [simp]: "may_pop False p q = undisturbed p q"
  by (simp add: may_pop_def)

lemma may_pop_ok: "may_pop user p q \<Longrightarrow> queues_ok p \<Longrightarrow> queues_ok q"
  using popped_front_ok undisturbed_ok unfolding may_pop_def by metis

lemma may_pop_then: "may_pop user p q \<Longrightarrow> undisturbed q s \<Longrightarrow> may_pop user p s"
  unfolding may_pop_def popped_front_def using undisturbed_trans by metis

lemma may_pop_from:
  assumes "may_pop user q s" and "undisturbed p q"
  shows "may_pop user p s"
proof -
  have "undisturbed (erase_request ws r q) s \<Longrightarrow> undisturbed (erase_request ws r p) s" for ws r
    using assms(2) by (simp add: undisturbed_def)
  with assms show ?thesis
    unfolding may_pop_def popped_front_def using undisturbed_trans by (metis undisturbed_def)
qed

lemma callback_may_pop:
  assumes "run_dismissal_callback uses_child p r = Some q" and "ui_states p r = Some st"
  shows "may_pop (ui_dismissal_reason st = kUserInteraction) p q"
proof -
  define p1 where "p1 = set_ui_state r (Some (st\<lparr>dismissal_callback := None\<rparr>)) p"
  obtain ws where ws: "overlay_was_dismissed uses_child p1 r ws (ui_dismissal_reason st) = Some q"
    using assms by (auto simp: run_dismissal_callback_def p1_def split: option.splits)
  have "may_pop (ui_dismissal_reason st = kUserInteraction) p1 q"
    using was_dismissed_calm [OF ws] was_dismissed_pops [OF ws] unfolding may_pop_def by blast
  then show ?thesis by (rule may_pop_from) (simp add: p1_def)
qed

lemma ui_dismissed_may_pop:
  assumes "overlay_ui_was_dismissed uses_child p = Some q"
    and "\<And>r st. context_request p = Some r \<Longrightarrow> ui_states p r = Some st \<Longrightarrow>
      user = (ui_dismissal_reason st = kUserInteraction)"
  shows "may_pop user p q"
proof -
  obtain r p1 where r: "context_request p = Some r" "run_dismissal_callback uses_child p r = Some p1"
    "q = p1 \<or> set_request p1 None = Some q"
    using assms(1) by (auto simp: overlay_ui_was_dismissed_def option_dest split: option.splits if_splits)
  then obtain st where st: "ui_states p r = Some st"
    by (auto simp: run_dismissal_callback_def split: option.splits)
  have "may_pop user p p1" using callback_may_pop [OF r(2) st] assms(2) [OF r(1) st] by simp
  with r(3) may_pop_then calm_set_request show ?thesis by blast
qed

lemma calm_dismiss_presented:
  assumes "dismiss_presented_ui uses_child p reason = Some q" and "reason \<noteq> kUserInteraction"
  shows "undisturbed p q"
proof -
  obtain r st c where r: "context_request p = Some r" "ui_states p r = Some st" "ui_coordinator st = Some c"
    using assms(1) by (auto simp: dismiss_presented_ui_def split: option.splits)
  show ?thesis
  proof (cases "phase c = Started")
    case True
    define p1 where "p1 = set_ui_state r
      (Some (st\<lparr>ui_dismissal_reason := reason, ui_coordinator := Some (c\<lparr>phase := Stopped\<rparr>)\<rparr>)) p"
    have "overlay_ui_was_dismissed uses_child p1 = Some q"
      using assms(1) r True by (simp add: dismiss_presented_ui_def dcheck_bind_eq_Some p1_def)
    then have "may_pop False p1 q"
      by (rule ui_dismissed_may_pop) (use r(1) assms(2) in \<open>auto simp: p1_def set_ui_state_def\<close>)
    then show ?thesis by (simp add: p1_def)
  next
    case False
    with assms(1) r show ?thesis by (auto simp: dismiss_presented_ui_def dcheck_bind_eq_Some)
  qed
qed

lemma calm_hide [calm]:
  assumes "hide_overlay_ui uses_child p x = Some q"
  shows "undisturbed p q"
proof -
  obtain r st where r: "x = Some r" "context_request p = Some r" "ui_states p r = Some st"
    using assms by (auto simp: hide_overlay_ui_def dcheck_bind_eq_Some split: option.splits)
  show ?thesis
  proof (cases "container p = None")
    case True
    define p1 where "p1 = set_ui_state r (Some (st\<lparr>ui_dismissal_reason := kHiding\<rparr>)) p"
    have "overlay_ui_was_dismissed uses_child p1 = Some q"
      using assms r True by (simp add: hide_overlay_ui_def dcheck_bind_eq_Some p1_def)
    then have "may_pop False p1 q"
      by (rule ui_dismissed_may_pop) (use r in \<open>auto simp: p1_def set_ui_state_def\<close>)
    then show ?thesis by (simp add: p1_def)
  next
    case False
    with assms r have "dismiss_presented_ui uses_child p kHiding = Some q"
      by (auto simp: hide_overlay_ui_def dcheck_bind_eq_Some)
    then show ?thesis by (rule calm_dismiss_presented) simp
  qed
qed

lemma calm_cancel_ui [calm]:
  assumes "cancel_overlay_ui uses_child p r = Some q"
  shows "undisturbed p q"
proof (cases "ui_states p r")
  case (Some st)
  define p1 where "p1 = set_ui_state r (Some (st\<lparr>ui_dismissal_reason := kCancellation\<rparr>)) p"
  have "q = set_ui_state r None p \<or> run_dismissal_callback uses_child p1 r = Some q
      \<or> dismiss_presented_ui uses_child p kCancellation = Some q"
    using assms Some by (auto simp: cancel_overlay_ui_def dcheck_bind_eq_Some p1_def split: if_splits)
  then consider "q = set_ui_state r None p" | "run_dismissal_callback uses_child p1 r = Some q"
    | "dismiss_presented_ui uses_child p kCancellation = Some q" by blast
  then show ?thesis
  proof cases
    case 2
    from callback_may_pop [OF this, of "st\<lparr>ui_dismissal_reason := kCancellation\<rparr>"]
    have "undisturbed p1 q" by (simp add: p1_def set_ui_state_def)
    then show ?thesis by (simp add: p1_def)
  next
    case 3
    then show ?thesis by (rule calm_dismiss_presented) simp
  qed simp
qed (use assms in \<open>simp add: cancel_overlay_ui_def\<close>)

lemma calm_cancel_ui_for [calm]:
  "cancel_overlay_ui_for_request uses_child p x = Some q \<Longrightarrow> undisturbed p q"
  by (auto simp: cancel_overlay_ui_for_request_def dest: calm_cancel_ui split: option.splits if_splits)

lemma calm_cancel_all_ui [calm]:
  "cancel_all_overlay_ui uses_child ws p = Some q \<Longrightarrow> undisturbed p q"
proof (induction ws arbitrary: p)
  case (Cons w ws)
  then show ?case by (auto simp: option_dest dest!: calm_cancel_ui_for intro: undisturbed_trans)
qed simp

lemma calm_set_context [calm]:
  assumes "set_presentation_context uses_child l p b = Some q"
  shows "undisturbed p q"
proof -
  obtain p1 where p1: "undisturbed p p1"
    "q = p1\<lparr>has_context := b, presenting := False, presented_request := None\<rparr> \<or>
     present_overlay_for_active_request uses_child
       (p1\<lparr>has_context := b, presenting := False, presented_request := None\<rparr>) = Some q"
    using assms
    by (auto simp: set_presentation_context_def option_dest Let_def dest!: calm_cancel_all_ui split: if_splits)
  from p1(2) have "undisturbed p1 q" by (auto dest: calm_present)
  with p1(1) show ?thesis by (rule undisturbed_trans)
qed

lemma calm_set_active [calm]:
  "set_active_web_state uses_child p ws reason = Some q \<Longrightarrow> undisturbed p q"
  by (auto simp: set_active_web_state_def dcheck_bind_eq_Some Let_def split: if_splits
      dest!: calm_present calm_hide calm_cancel_ui_for)

lemma calm_observe [calm]:
  "observe_queue p ws = Some q \<Longrightarrow> undisturbed p q"
  "stop_observing_queue p ws = Some q \<Longrightarrow> undisturbed p q"
  by (auto simp: observe_queue_def stop_observing_queue_def dcheck_bind_eq_Some split: option.splits)

lemma calm_observe_tab_list [calm]:
  assumes "observe_tab_list uses_child p e = Some q"
  shows "undisturbed p q"
proof (cases e)
  case (WebStateReplacedAt old new i)
  then obtain p1 p2 where p12: "stop_observing_queue p old = Some p1" "observe_queue p1 new = Some p2"
    "q = p2 \<or> (\<exists>x. cancel_overlay_ui_for_request uses_child p2 x = Some q)"
    using assms by (auto simp: option_dest split: if_splits)
  from calm_observe(2) [OF p12(1)] calm_observe(1) [OF p12(2)] p12(3) show ?thesis
    using undisturbed_trans calm_cancel_ui_for by metis
next
  case (WillDetachWebStateAt ws i)
  then obtain p1 p2 where p1: "stop_observing_queue p ws = Some p1"
    "p2 = p1\<lparr>detaching_active_web_state := (ws = active_web_state p1)\<rparr>"
    "q = p2 \<or> (\<exists>x. cancel_overlay_ui_for_request uses_child p2 x = Some q)"
    using assms by (auto simp: option_dest Let_def split: if_splits)
  have "undisturbed p1 p2" by (simp add: p1(2))
  with calm_observe(2) [OF p1(1)] p1(3) show ?thesis
    using undisturbed_trans calm_cancel_ui_for by metis
qed (use assms calm in \<open>auto dest: calm\<close>)

lemma calm_observe_all [calm]: "observe_all uses_child p es = Some q \<Longrightarrow> undisturbed p q"
proof (induction es arbitrary: p)
  case (Cons e es)
  then show ?case by (auto simp: option_dest dest!: calm_observe_tab_list intro: undisturbed_trans)
qed simp

lemma calm_added [calm]: "request_added_to_queue uses_child p ws r = Some q \<Longrightarrow> undisturbed p q"
  by (auto simp: request_added_to_queue_def split: if_splits dest: calm_present calm_hide)

lemma calm_queued_cancelled [calm]:
  "queued_request_cancelled uses_child p r = Some q \<Longrightarrow> undisturbed p q"
  by (auto simp: queued_request_cancelled_def split: if_splits dest!: calm_cancel_ui_for)

lemma calm_coordinator [calm]:
  assumes "update_for_coordinator uses_child p c w = Some q"
  shows "undisturbed p q"
proof -
  define caps where "caps = container_capabilities c w"
  obtain p1 where p1: "undisturbed p p1"
    "q = p1\<lparr>capabilities := caps, container := c\<rparr> \<or>
     did_change_capabilities uses_child (p1\<lparr>capabilities := caps, container := c\<rparr>) = Some q"
    using assms
    by (auto simp: update_for_coordinator_def option_dest Let_def caps_def will_change_capabilities_def
        dest!: calm_hide split: if_splits option.splits)
  from p1(2) have "undisturbed p1 q"
    by (auto simp: did_change_capabilities_def dest!: calm_present split: if_splits)
  with p1(1) show ?thesis by (rule undisturbed_trans)
qed

lemma calm_user [calm]: "user_dismisses p = Some q \<Longrightarrow> undisturbed p q"
  by (auto simp: user_dismisses_def split: option.splits if_splits)

lemma finished_may_pop:
  assumes "dismissal_finished uses_child p r = Some q"
  shows "undisturbed p q \<or> popped_front p q"
proof -
  have "q = p \<or> (\<exists>st. overlay_ui_was_dismissed uses_child (set_ui_state r (Some st) p) = Some q)"
    using assms by (auto simp: dismissal_finished_def dcheck_bind_eq_Some split: option.splits if_splits)
  then consider "q = p" | p1 where "undisturbed p p1" "overlay_ui_was_dismissed uses_child p1 = Some q"
    using undisturbed_to(1) undisturbed_refl by blast
  then show ?thesis
  proof cases
    case 2
    obtain x where "context_request p1 = Some x"
      using 2(2) by (auto simp: overlay_ui_was_dismissed_def split: option.splits)
    then have "may_pop (\<exists>st. ui_states p1 x = Some st \<and> ui_dismissal_reason st = kUserInteraction) p1 q"
      by (intro ui_dismissed_may_pop [OF 2(2)]) auto
    from may_pop_from [OF this 2(1)] show ?thesis by (auto simp: may_pop_def)
  qed simp
qed

section \<open>Every step\<close>

lemma calm_told:
  "(if b then queued_request_cancelled uses_child p r else Some p) = Some q \<Longrightarrow> undisturbed p q"
  by (cases b) (auto dest: calm_queued_cancelled)

lemma cancel_request_ok:
  assumes "queues_ok p" and "cancel_request uses_child p ws r = Some q"
  shows "queues_ok q"
proof (cases "r \<in> set (queues p ws)")
  case True
  then obtain p1 where p1:
    "(if observing p ws then queued_request_cancelled uses_child p r else Some p) = Some p1"
    "q = erase_request ws r p1"
    using assms(2) by (simp add: cancel_request_def bind_eq_SomeD) blast
  note same = calm_told [OF p1(1)]
  have "queues_ok p1" "r \<in> set (queues p1 ws)"
    using assms(1) True undisturbed_ok [OF same] same by (simp_all add: undisturbed_def)
  with p1(2) erase_request_ok show ?thesis by simp
qed (use assms in \<open>simp add: cancel_request_def\<close>)

lemma cancel_from_back_ok:
  "queues_ok p \<Longrightarrow> cancel_from_back uses_child n p ws = Some q \<Longrightarrow> queues_ok q"
proof (induction n arbitrary: p)
  case 0
  then show ?case by (simp split: if_splits)
next
  case (Suc n)
  show ?case
  proof (cases "queues p ws = []")
    case False
    define r where "r = List.last (queues p ws)"
    obtain p1 where told:
      "(if observing p ws then queued_request_cancelled uses_child p r else Some p) = Some p1"
      and p1: "cancel_from_back uses_child n (erase_request ws r p1) ws = Some q"
      using Suc.prems(2) False unfolding r_def by (simp add: bind_eq_SomeD Let_def) blast
    note p1 = calm_told [OF told] p1
    have "r \<in> set (queues p1 ws)" using False p1(1) by (simp add: r_def undisturbed_def)
    then have "queues_ok (erase_request ws r p1)"
      using Suc.prems(1) undisturbed_ok [OF p1(1)] erase_request_ok by simp
    from Suc.IH [OF this p1(2)] show ?thesis .
  qed (use Suc.prems in simp)
qed

lemma by_handlers_ok:
  "queues_ok p \<Longrightarrow> cancel_by_handlers uses_child p ws rs = Some q \<Longrightarrow> queues_ok q"
proof (induction rs arbitrary: p)
  case (Cons r rs)
  then obtain p1 where p1: "cancel_request uses_child p ws r = Some p1"
    "cancel_by_handlers uses_child p1 ws rs = Some q"
    by (auto simp: bind_eq_SomeD)
  show ?case by (rule Cons.IH [OF cancel_request_ok [OF Cons.prems(1) p1(1)] p1(2)])
qed simp

lemma used_after_free_ok [simp]: "queues_ok (log_overlay [UsedAfterFree r] p) = queues_ok p"
  by (rule queues_ok_cong) (simp_all add: is_lifecycle_def)

lemma destroyed_handlers_ok:
  "queues_ok p \<Longrightarrow> web_state_destroyed_handlers uses_child p ws rs = Some q \<Longrightarrow> queues_ok q"
proof (induction rs arbitrary: p)
  case (Cons r rs)
  obtain p1 where p1: "cancel_request uses_child p ws r = Some p1"
    "web_state_destroyed_handlers uses_child
       (if r \<in> set (default_handlers p1 ws) then p1 else log_overlay [UsedAfterFree r] p1) ws rs = Some q"
    using Cons.prems(2) by (auto simp: option_dest Let_def)
  have "queues_ok p1" by (rule cancel_request_ok [OF Cons.prems(1) p1(1)])
  then show ?case by (intro Cons.IH [OF _ p1(2)]) simp
qed simp

lemma insert_request_ok:
  assumes "queues_ok p" and "insert_request uses_child p ws i r d = Some q" and "Queued r \<notin> set (overlay_log p)"
  shows "queues_ok q"
proof -
  have "queue_request ws i r d p = q \<or> request_added_to_queue uses_child (queue_request ws i r d p) ws r = Some q"
    using assms(2)
    by (auto simp: insert_request_def dcheck_bind_eq_Some Let_def queue_request_def split: if_splits)
  then have "undisturbed (queue_request ws i r d p) q" using calm_added by blast
  from undisturbed_ok [OF this] queue_request_ok(1) [OF assms(1,3)] show ?thesis by simp
qed

text \<open>
  All that is expected of the steps: a request is made once. In particular a request may be
  cancelled, its tab left, closed or navigated and the container replaced while a dismissal is
  animated.
\<close>

fun requested_once :: "web_state_list \<times> overlays \<Rightarrow> overlay_op \<Rightarrow> bool" where
  "requested_once (l, p) (InsertRequest ws i r d) = (Queued r \<notin> set (overlay_log p))"
| "requested_once (l, p) _ = True"

lemma step_queues_ok:
  assumes "queues_ok p" and "overlay_step env uses_child (l, p) c = Some (l', q)" and "requested_once (l, p) c"
  shows "queues_ok q"
proof -
  have calm_ok: "undisturbed p q \<Longrightarrow> ?thesis" using assms(1) undisturbed_ok by simp
  show ?thesis
  proof (cases c)
    case (TabList op)
    then show ?thesis using assms(2) calm_ok by (auto simp: option_dest dest: calm_observe_all)
  next
    case (InsertRequest ws i r d)
    then show ?thesis using assms insert_request_ok by fastforce
  next
    case (CancelRequest ws r)
    then show ?thesis using assms cancel_request_ok by fastforce
  next
    case (CancelAllRequests ws)
    then show ?thesis using assms cancel_from_back_ok by (fastforce simp: cancel_all_requests_def)
  next
    case (DidFinishNavigation ws committed same)
    then show ?thesis using assms by_handlers_ok
      by (fastforce simp: overlays_did_finish_navigation_def split: if_splits)
  next
    case (RenderProcessGone ws)
    then show ?thesis using assms by_handlers_ok by (fastforce simp: render_process_gone_def)
  next
    case (WebStateDestroyed ws)
    then obtain p1 where p1: "web_state_destroyed_handlers uses_child p ws (default_handlers p ws) = Some p1"
      "q = log_overlay (map Completed (queues p1 ws))
       (p1\<lparr>queues := (queues p1)(ws := []), default_handlers := (default_handlers p1)(ws := [])\<rparr>)"
      using assms(2) by (auto simp: web_state_destroyed_def option_dest)
    from clear_queue_ok [OF destroyed_handlers_ok [OF assms(1) p1(1)] refl] p1(2) show ?thesis by simp
  next
    case (SetPresentationContext b)
    then show ?thesis using assms(2) calm_ok by (auto dest: calm_set_context)
  next
    case (SetCoordinator x w)
    then show ?thesis using assms(2) calm_ok
      by (auto simp: set_coordinator_def dest: calm_coordinator split: if_splits)
  next
    case (WindowDidChange w)
    then show ?thesis using assms(2) calm_ok by (auto simp: window_did_change_def dest: calm_coordinator)
  next
    case UserDismisses
    then show ?thesis using assms(2) calm_ok by (auto dest: calm_user)
  next
    case (DismissalFinished r)
    then show ?thesis using assms(1,2) calm_ok popped_front_ok by (auto dest: finished_may_pop)
  qed
qed

interpretation request_lives: step_invariant "overlay_step env uses_child" requested_once "\<lambda>w. queues_ok (snd w)"
  for env uses_child
  by unfold_locales (use step_queues_ok in \<open>fastforce\<close>)

lemma no_requests_ok:
  assumes "overlay_log p = []" and "queues p = (\<lambda>_. [])" and "default_handlers p = (\<lambda>_. [])"
  shows "queues_ok p"
  using assms by (simp add: queues_ok_def queues_apart_def handlers_ok_def completed_once_def in_queue_def lifecycle_def)

lemma lifecycle_count: "is_lifecycle e \<Longrightarrow> count_list (lifecycle p) e = count_list (overlay_log p) e"
proof -
  assume "is_lifecycle e"
  then have "count_list (filter is_lifecycle xs) e = count_list xs e" for xs by (induction xs) auto
  then show ?thesis by (simp add: lifecycle_def)
qed

end
