(* ===== verification/OverlaysProps.thy ===== *)
theory OverlaysProps
  imports OverlaysWindow OverlaysLifecycle
begin

text \<open>
  The overlays of a window as a machine, and what they promise.
\<close>

section \<open>The machine\<close>

definition window_ok :: "(overlay_request \<Rightarrow> bool) \<Rightarrow> web_state_list \<times> overlays \<Rightarrow> bool" where
  "window_ok uses_child w = (in_sync (fst w) (snd w) \<and> ui_ok uses_child (snd w))"

text \<open>
  When the steps may happen. A request is queued once, at an index of the queue; a tab that is
  destroyed has left the list. While a dismissal by the user is animated the request that is
  closing is not disturbed: it keeps its place, its tab stays active and the container stays.
\<close>

fun overlay_allowed ::
    "web_state_env \<Rightarrow> web_state_list \<times> overlays \<Rightarrow> overlay_op \<Rightarrow> bool" where
  "overlay_allowed env (l, p) (TabList c) = tab_list_op_allowed env l p c"
| "overlay_allowed env (l, p) (InsertRequest ws i r d) =
     (i \<le> length (queues p ws) \<and> Queued r \<notin> set (overlay_log p) \<and>
      (closing p \<longrightarrow> active_web_state p = Some ws \<longrightarrow> i \<noteq> 0))"
| "overlay_allowed env (l, p) (CancelRequest ws r) = (closing p \<longrightarrow> presented_request p \<noteq> Some r)"
| "overlay_allowed env (l, p) (CancelAllRequests ws) = (closing p \<longrightarrow> active_web_state p \<noteq> Some ws)"
| "overlay_allowed env (l, p) (DidFinishNavigation ws committed same) =
     (committed \<and> \<not> same \<longrightarrow> closing p \<longrightarrow> active_web_state p \<noteq> Some ws)"
| "overlay_allowed env (l, p) (RenderProcessGone ws) = (closing p \<longrightarrow> active_web_state p \<noteq> Some ws)"
| "overlay_allowed env (l, p) (WebStateDestroyed ws) = (Some ws \<notin> tabs (wrappers l))"
| "overlay_allowed env (l, p) (SetPresentationContext b) = (\<not> closing p)"
| "overlay_allowed env (l, p) (SetCoordinator c w) = (\<not> closing p)"
| "overlay_allowed env (l, p) (WindowDidChange w) = (\<not> closing p)"
| "overlay_allowed env (l, p) _ = True"

text \<open>The steps after which a request may be left waiting that could be shown.\<close>

fun leaves_waiting :: "overlays \<Rightarrow> overlay_op \<Rightarrow> bool" where
  "leaves_waiting p (CancelRequest ws r) =
     (active_web_state p = Some ws \<and> front_request p ws = Some r \<and> length (queues p ws) > 1)"
| "leaves_waiting p (DidFinishNavigation ws committed same) =
     (committed \<and> \<not> same \<and> active_web_state p = Some ws \<and>
      \<not> set (queues p ws) \<subseteq> set (default_handlers p ws))"
| "leaves_waiting p (RenderProcessGone ws) =
     (active_web_state p = Some ws \<and> \<not> set (queues p ws) \<subseteq> set (default_handlers p ws))"
| "leaves_waiting p _ = False"

definition new_window ::
    "(overlay_request \<Rightarrow> bool) \<Rightarrow> web_state_list \<Rightarrow> (overlay_request \<Rightarrow> bool) list
      \<Rightarrow> (web_state_list \<times> overlays) option" where
  "new_window uses_child l ss =
     map_option (Pair (add_observer l presenter_id)) (create_presenter uses_child l (no_overlays ss))"

lemma cancels_wanted:
  assumes "cancels ws p p'" and "active_web_state p \<noteq> Some ws"
  shows "wanted_request uses_child p' = wanted_request uses_child p"
  using assms by (intro wanted_other get_active_request_other) (auto simp: cancels_def front_request_def)

lemma cancels_sync: "cancels ws p p' \<Longrightarrow> in_sync l p \<Longrightarrow> in_sync l p'"
  by (simp add: cancels_def in_sync_def)

lemma cancels_ok: "cancels ws p p' \<Longrightarrow> ui_ok uses_child p \<Longrightarrow> settled_ui uses_child p' \<Longrightarrow> ui_ok uses_child p'"
  by (simp add: cancels_def ui_ok_def)

lemma emptied_prompt:
  assumes "cancels ws p p'" and "settled_ui uses_child p'" and "queues p' ws = []" and "prompt uses_child p"
  shows "prompt uses_child p'"
proof (cases "active_web_state p = Some ws")
  case True
  then have "wanted_request uses_child p' = None"
    using assms(1,3) by (simp add: wanted_request_def get_active_request_def get_front_request_for_web_state_def
        front_request_def cancels_def)
  then show ?thesis by (rule settled_prompt_idle [OF assms(2)])
next
  case False
  then show ?thesis using assms(1,4) cancels_wanted [OF assms(1) False] by (simp add: prompt_def cancels_def)
qed

lemma sync_observing: "in_sync l p \<Longrightarrow> active_web_state p = Some ws \<Longrightarrow> observing p ws"
  using active_tab_in [of l] by (auto simp: in_sync_def well_formed_def)

lemma sync_frame:
  assumes "in_sync l p" and "frame q p'" and "active_web_state q = active_web_state p"
    and "observing q = observing p" and "detaching_active_web_state q = detaching_active_web_state p"
  shows "in_sync l p'"
  using assms by (simp add: in_sync_def frame_def)

lemma cancel_request_step:
  assumes "in_sync l p" and "ui_ok uses_child p" and "closing p \<longrightarrow> presented_request p \<noteq> Some r"
  shows "\<exists>p'. cancel_request uses_child p ws r = Some p' \<and> in_sync l p' \<and> ui_ok uses_child p' \<and>
    (\<not> (active_web_state p = Some ws \<and> front_request p ws = Some r \<and> length (queues p ws) > 1) \<longrightarrow>
      prompt uses_child p \<longrightarrow> prompt uses_child p')"
proof -
  have p: "settled_ui uses_child p" "sound p" "queues_ok p" using assms(2) by (simp_all add: ui_ok_def)
  obtain p' where p': "cancel_request uses_child p ws r = Some p'" "settled_ui uses_child p'" "cancels ws p p'"
    "frame (if r \<in> set (queues p ws) then erase_request ws r p else p) p'"
    "presented_request p \<noteq> Some r \<longrightarrow> presented_request p' = presented_request p"
    using cancel_request_result [OF p, of ws r] sync_observing [OF assms(1), of ws] assms(3) by blast
  have "prompt uses_child p'" if "prompt uses_child p"
    and w: "\<not> (active_web_state p = Some ws \<and> front_request p ws = Some r \<and> length (queues p ws) > 1)"
  proof (cases "active_web_state p = Some ws \<and> front_request p ws = Some r")
    case True
    then have "queues p ws = [r]"
      using w by (cases "queues p ws" rule: remdups_adj.cases) (auto simp: front_request_def)
    then have "queues p' ws = []" using p'(4) by (simp add: frame_def)
    then show ?thesis using emptied_prompt [OF p'(3,2)] that(1) by blast
  next
    case False
    have wanted: "wanted_request uses_child p' = wanted_request uses_child p"
    proof (cases "r \<in> set (queues p ws)")
      case True
      have "get_active_request p \<noteq> Some r \<or> active_web_state p \<noteq> Some ws"
        using False by (auto simp: active_front)
      then show ?thesis
        using p'(4) True wanted_erase [of p r ws] frame_wanted [of "erase_request ws r p" p'] by simp
    next
      case False
      then show ?thesis using p'(4) frame_wanted [of p p'] by simp
    qed
    have "presented_request p' = presented_request p"
    proof (cases "active_web_state p = Some ws")
      case True
      then have "presented_request p \<noteq> Some r"
        using that(1) False wanted_active [of uses_child p r] by (auto simp: prompt_def active_front)
      then show ?thesis using p'(5) by simp
    qed (use p'(3) in \<open>simp add: cancels_def\<close>)
    then show ?thesis using wanted that(1) by (simp add: prompt_def)
  qed
  then show ?thesis using p'(1) cancels_sync [OF p'(3) assms(1)] cancels_ok [OF p'(3) assms(2) p'(2)] by blast
qed

lemma handlers_step:
  assumes "in_sync l p" and "ui_ok uses_child p" and "closing p \<longrightarrow> active_web_state p \<noteq> Some ws"
  shows "\<exists>p'. cancel_by_handlers uses_child p ws (default_handlers p ws) = Some p' \<and> in_sync l p' \<and>
    ui_ok uses_child p' \<and>
    (\<not> (active_web_state p = Some ws \<and> \<not> set (queues p ws) \<subseteq> set (default_handlers p ws)) \<longrightarrow>
      prompt uses_child p \<longrightarrow> prompt uses_child p')"
proof -
  have p: "settled_ui uses_child p" "sound p" "queues_ok p" using assms(2) by (simp_all add: ui_ok_def)
  obtain p' where p': "cancel_by_handlers uses_child p ws (default_handlers p ws) = Some p'"
    "settled_ui uses_child p'" "cancels ws p p'"
    "set (queues p' ws) = set (queues p ws) - set (default_handlers p ws)"
    using cancel_by_handlers_result [OF p, of ws "default_handlers p ws"] sync_observing [OF assms(1), of ws] assms(3)
    by blast
  have "prompt uses_child p'" if "prompt uses_child p"
    and w: "\<not> (active_web_state p = Some ws \<and> \<not> set (queues p ws) \<subseteq> set (default_handlers p ws))"
  proof (cases "active_web_state p = Some ws")
    case True
    then have "set (queues p ws) \<subseteq> set (default_handlers p ws)" using w by simp
    then have "set (queues p' ws) = {}" unfolding p'(4) by simp
    then have "queues p' ws = []" by simp
    then show ?thesis using emptied_prompt [OF p'(3,2)] that(1) by blast
  next
    case False
    then show ?thesis
      using that(1) p'(3) cancels_wanted [OF p'(3) False] by (simp add: prompt_def cancels_def)
  qed
  then show ?thesis using p'(1) cancels_sync [OF p'(3) assms(1)] cancels_ok [OF p'(3) assms(2) p'(2)] by blast
qed

lemma coordinator_step:
  assumes "in_sync l p" and "ui_ok uses_child p" and "\<not> closing p"
  shows "\<exists>p'. update_for_coordinator uses_child p c w = Some p' \<and> in_sync l p' \<and> ui_ok uses_child p' \<and>
    (prompt uses_child p \<longrightarrow> prompt uses_child p')"
proof -
  define p0 where "p0 = p\<lparr>capabilities := container_capabilities c w, container := c\<rparr>"
  have p: "settled_ui uses_child p" "sound p" "queues_ok p" using assms(2) by (simp_all add: ui_ok_def)
  obtain p' where p': "update_for_coordinator uses_child p c w = Some p'" "frame p0 p'" "settled_ui uses_child p'"
    "sound p'" "prompt uses_child p \<longrightarrow> prompt uses_child p'"
    using update_for_coordinator_keeps [OF p(1,2) assms(3), of c w] unfolding p0_def by blast
  have "queues_ok p'"
    using p(3) queues_ok_cong [of p0 p] frame_queues_ok [OF p'(2)] by (simp add: p0_def)
  moreover have "in_sync l p'"
    by (rule sync_frame [OF assms(1) p'(2)]) (simp_all add: p0_def)
  ultimately show ?thesis using p' by (auto simp: ui_ok_def)
qed

lemma overlay_step_keeps:
  assumes "window_ok uses_child (l, p)" and "overlay_allowed env (l, p) c"
  shows "\<exists>l' p'. overlay_step env uses_child (l, p) c = Some (l', p') \<and> window_ok uses_child (l', p') \<and>
    (\<not> leaves_waiting p c \<longrightarrow> prompt uses_child p \<longrightarrow> prompt uses_child p')"
proof -
  have sync: "in_sync l p" and ok: "ui_ok uses_child p" using assms(1) by (simp_all add: window_ok_def)
  have p: "settled_ui uses_child p" "sound p" "queues_ok p" using ok by (simp_all add: ui_ok_def)
  have keep: ?thesis if "overlay_step env uses_child (l, p) c = map_option (Pair l) x" "x = Some p'"
    "in_sync l p'" "ui_ok uses_child p'"
    "\<not> leaves_waiting p c \<longrightarrow> prompt uses_child p \<longrightarrow> prompt uses_child p'" for x p'
    using that by (simp add: window_ok_def)
  show ?thesis
  proof (cases c)
    case (TabList op)
    then have allowed: "tab_list_op_allowed env l p op" using assms(2) by simp
    then have "op_allowed env l op" by (simp add: tab_list_op_allowed_def)
    then obtain l1 where l1: "web_state_list_step env l op = Some l1"
      using step_well_formed [of l env op] sync by (auto simp: in_sync_def)
    obtain p1 where "observe_all uses_child p (news presenter_id l l1) = Some p1" "in_sync l1 p1" "keeps uses_child p p1"
      using tab_list_follows [OF sync ok allowed l1] by (auto simp: follows_def)
    then show ?thesis using TabList l1 by (auto simp: window_ok_def keeps_def)
  next
    case (InsertRequest ws i r d)
    obtain p' where p': "insert_request uses_child p ws i r d = Some p'" "frame (queue_request ws i r d p) p'"
      "settled_ui uses_child p'" "prompt uses_child p \<longrightarrow> prompt uses_child p'"
      using insert_request_keeps [OF p, of i ws r d] assms(2) InsertRequest sync_observing [OF sync] by auto
    have "queues_ok (queue_request ws i r d p)"
      using queue_request_ok [OF p(3)] assms(2) InsertRequest by simp
    then have "ui_ok uses_child p'"
      using p'(2,3) p(2) frame_sound [OF p'(2)] frame_queues_ok [OF p'(2)]
      by (simp add: ui_ok_def sound_def supports_all_def)
    moreover have "in_sync l p'" by (rule sync_frame [OF sync p'(2)]) simp_all
    ultimately show ?thesis using InsertRequest p' by (intro keep [of "Some p'"]) auto
  next
    case (CancelRequest ws r)
    then show ?thesis
      using cancel_request_step [OF sync ok, of r ws] assms(2) keep by auto
  next
    case (CancelAllRequests ws)
    obtain p' where p': "cancel_all_requests uses_child p ws = Some p'" "settled_ui uses_child p'"
      "cancels ws p p'" "queues p' ws = []"
      using cancel_from_back_result [OF p, of ws] sync_observing [OF sync, of ws] assms(2) CancelAllRequests
      by (auto simp: cancel_all_requests_def)
    then show ?thesis
      using CancelAllRequests cancels_sync [OF p'(3) sync] cancels_ok [OF p'(3) ok] emptied_prompt [OF p'(3)]
      by (intro keep [of "Some p'"]) auto
  next
    case (DidFinishNavigation ws committed same)
    show ?thesis
    proof (cases "committed \<and> \<not> same")
      case True
      then show ?thesis
        using handlers_step [OF sync ok, of ws] assms(2) keep DidFinishNavigation
        by (auto simp: overlays_did_finish_navigation_def)
    next
      case False
      then have "overlays_did_finish_navigation uses_child p ws committed same = Some p"
        by (auto simp: overlays_did_finish_navigation_def)
      then show ?thesis using sync ok DidFinishNavigation by (intro keep [of "Some p"]) auto
    qed
  next
    case (RenderProcessGone ws)
    then show ?thesis
      using handlers_step [OF sync ok, of ws] assms(2) keep by (auto simp: render_process_gone_def)
  next
    case (WebStateDestroyed ws)
    then have out: "Some ws \<notin> tabs (wrappers l)" using assms(2) by simp
    then have "\<not> observing p ws" "active_web_state p \<noteq> Some ws"
      using sync sync_observing [OF sync, of ws] by (auto simp: in_sync_def)
    then obtain p' where p': "web_state_destroyed uses_child p ws = Some p'" "cancels ws p p'"
      "settled_ui uses_child p'" "queues p' ws = []"
      using web_state_destroyed_result [OF p(1,3)] by blast
    then show ?thesis
      using WebStateDestroyed cancels_sync [OF p'(2) sync] cancels_ok [OF p'(2) ok] emptied_prompt [OF p'(2)]
      by (intro keep [of "Some p'"]) auto
  next
    case (SetPresentationContext b)
    have "active_web_state p \<in> insert None (wrapped ` set (wrappers l))"
      using active_tab_in [of l] sync by (auto simp: in_sync_def well_formed_def tabs_def)
    then obtain p' where p': "set_presentation_context uses_child l p b = Some p'"
      "redrawn uses_child (p\<lparr>has_context := b\<rparr>) p'"
      using set_presentation_context_keeps [OF p(1,2)] assms(2) SetPresentationContext by auto
    have "sound (p\<lparr>has_context := b\<rparr>)" "queues_ok (p\<lparr>has_context := b\<rparr>)"
      using p queues_ok_cong [of "p\<lparr>has_context := b\<rparr>" p] by simp_all
    note k = redrawn_keeps [OF p'(2) this]
    have "in_sync l p'"
      using p'(2) by (intro sync_frame [OF sync, of "p\<lparr>has_context := b\<rparr>"]) (simp_all add: redrawn_def)
    then show ?thesis using SetPresentationContext p'(1) k by (intro keep [of "Some p'"]) auto
  next
    case (SetCoordinator d w)
    show ?thesis
    proof (cases "container p = d")
      case True
      then show ?thesis using sync ok SetCoordinator by (intro keep [of "Some p"]) (auto simp: set_coordinator_def)
    next
      case False
      then show ?thesis
        using coordinator_step [OF sync ok, of d w] assms(2) SetCoordinator keep by (auto simp: set_coordinator_def)
    qed
  next
    case (WindowDidChange w)
    then show ?thesis
      using coordinator_step [OF sync ok, of "container p" w] assms(2) keep by (auto simp: window_did_change_def)
  next
    case UserDismisses
    obtain p' where p': "user_dismisses p = Some p'" "frame p p'" "settled_ui uses_child p'"
      "presented_request p' = presented_request p"
      using user_dismisses_keeps [OF p(1)] by blast
    moreover have "in_sync l p'" by (rule sync_frame [OF sync p'(2)]) simp_all
    ultimately show ?thesis
      using UserDismisses p frame_sound [OF p'(2)] frame_queues_ok [OF p'(2)] frame_wanted [OF p'(2), of uses_child]
      by (intro keep [of "Some p'"]) (auto simp: ui_ok_def prompt_def)
  next
    case (DismissalFinished r)
    obtain p' where p': "dismissal_finished uses_child p r = Some p'"
      "if closing p \<and> presented_request p = Some r
       then \<exists>ws. active_web_state p = Some ws \<and> front_request p ws = Some r \<and>
         redrawn uses_child (erase_request ws r p) p'
       else p' = p"
      using dismissal_finished_keeps [OF p] by blast
    show ?thesis
    proof (cases "closing p \<and> presented_request p = Some r")
      case False
      then have "p' = p" using p'(2) by (simp only: if_False)
      then show ?thesis using DismissalFinished p'(1) sync ok by (intro keep [of "Some p"]) auto
    next
      case True
      then obtain ws where ws: "front_request p ws = Some r" "redrawn uses_child (erase_request ws r p) p'"
        using p'(2) by auto
      have "sound (erase_request ws r p)" "queues_ok (erase_request ws r p)"
        using p(2) erase_request_ok [OF p(3) front_in_queue [OF ws(1)]] by simp_all
      note k = redrawn_keeps [OF ws(2) this]
      have "in_sync l p'"
        using ws(2) by (intro sync_frame [OF sync, of "erase_request ws r p"]) (simp_all add: redrawn_def)
      then show ?thesis using DismissalFinished p'(1) k by (intro keep [of "Some p'"]) auto
    qed
  qed
qed

text \<open>A new window: the presenter is created for the tabs there are.\<close>

lemma observe_queues_result:
  "distinct (map wrapped ws) \<Longrightarrow> None \<notin> tabs ws \<Longrightarrow> (\<forall>w. Some w \<in> tabs ws \<longrightarrow> \<not> observing p w) \<Longrightarrow>
   observe_queues p ws = Some (p\<lparr>observing := (\<lambda>w. observing p w \<or> Some w \<in> tabs ws)\<rparr>)"
proof (induction ws arbitrary: p)
  case (Cons w ws)
  obtain v where v: "wrapped w = Some v" using Cons.prems(2) by (cases "wrapped w") (auto simp: tabs_def)
  define q where "q = p\<lparr>observing := (observing p)(v := True)\<rparr>"
  have "\<not> observing p v" using Cons.prems(3) v by (auto simp: tabs_def)
  then have "observe_queues p (w # ws) = observe_queues q ws"
    by (simp add: observe_queue_def v q_def)
  also have "\<dots> = Some (q\<lparr>observing := (\<lambda>w. observing q w \<or> Some w \<in> tabs ws)\<rparr>)"
    using Cons.prems v by (intro Cons.IH) (auto simp: q_def tabs_def image_iff)
  also have "q\<lparr>observing := (\<lambda>w. observing q w \<or> Some w \<in> tabs ws)\<rparr> =
      p\<lparr>observing := (\<lambda>x. observing p x \<or> Some x \<in> tabs (w # ws))\<rparr>"
    by (auto simp: q_def tabs_def v fun_eq_iff)
  finally show ?case .
qed (simp add: tabs_def)

lemma new_window_ok:
  assumes "well_formed l" and "presenter_id \<notin> set (observers l)" and "\<forall>s \<in> set ss. s = (\<lambda>_. True)"
  shows "\<exists>p. new_window uses_child l ss = Some (add_observer l presenter_id, p) \<and>
    window_ok uses_child (add_observer l presenter_id, p) \<and> prompt uses_child p"
proof -
  have st: "settled l" using assms(1) by (simp add: well_formed_def)
  define p1 where "p1 = (no_overlays ss)\<lparr>observing := (\<lambda>w. Some w \<in> tabs (wrappers l))\<rparr>"
  define p where "p = p1\<lparr>active_web_state := active_tab l\<rparr>"
  have "observe_queues (no_overlays ss) (wrappers l) = Some p1"
    using observe_queues_result [of "wrappers l" "no_overlays ss"] st
    by (simp add: settled_def live_def p1_def no_overlays_def)
  moreover have "set_active_web_state uses_child p1 (active_tab l) CHANGE_REASON_NONE = Some p"
    by (cases "active_tab l") (simp_all add: set_active_web_state_def p_def p1_def no_overlays_def)
  ultimately have "new_window uses_child l ss = Some (add_observer l presenter_id, p)"
    by (simp add: new_window_def create_presenter_def get_active_web_state_eq [OF st])
  moreover have "filter ((=) presenter_id) (observers l) = []"
    using assms(2) by (auto simp: filter_empty_conv)
  then have "in_sync (add_observer l presenter_id) p"
    using assms(1) by (simp add: in_sync_def once_def p_def p1_def no_overlays_def add_observer_def
        active_tab_def strip_def well_formed_def settled_def count_def)
  moreover have "ui_ok uses_child p"
    using assms(3) by (simp add: ui_ok_def p_def p1_def no_overlays_def sound_def supports_all_def
        queues_ok_def queues_apart_def handlers_ok_def completed_once_def in_queue_def lifecycle_def
        settled_ui_def ui_idle_def quiet_but_def)
  moreover have "prompt uses_child p"
    by (simp add: prompt_def p_def p1_def no_overlays_def wanted_request_def get_active_request_def
        get_front_request_for_web_state_def front_request_def split: option.splits)
  ultimately show ?thesis by (simp add: window_ok_def)
qed

interpretation overlay_window: total_machine "overlay_step env uses_child" "overlay_allowed env"
  "window_ok uses_child" for env uses_child
proof unfold_locales
  show "window_ok uses_child t" if "window_ok uses_child s" "overlay_allowed env s c"
    "overlay_step env uses_child s c = Some t" for s c t
    using overlay_step_keeps [of uses_child "fst s" "snd s" env c] that by auto
  show "\<exists>t. overlay_step env uses_child s c = Some t" if "window_ok uses_child s" "overlay_allowed env s c" for s c
    using overlay_step_keeps [of uses_child "fst s" "snd s" env c] that by auto
qed

text \<open>The machine without the steps that may leave a request waiting.\<close>

definition prompt_allowed :: "web_state_env \<Rightarrow> web_state_list \<times> overlays \<Rightarrow> overlay_op \<Rightarrow> bool" where
  "prompt_allowed env w c = (overlay_allowed env w c \<and> \<not> leaves_waiting (snd w) c)"

interpretation prompt_window: total_machine "overlay_step env uses_child" "prompt_allowed env"
  "\<lambda>w. window_ok uses_child w \<and> prompt uses_child (snd w)" for env uses_child
proof unfold_locales
  show "window_ok uses_child t \<and> prompt uses_child (snd t)"
    if "window_ok uses_child s \<and> prompt uses_child (snd s)" "prompt_allowed env s c"
      "overlay_step env uses_child s c = Some t" for s c t
    using overlay_step_keeps [of uses_child "fst s" "snd s" env c] that by (auto simp: prompt_allowed_def)
  show "\<exists>t. overlay_step env uses_child s c = Some t"
    if "window_ok uses_child s \<and> prompt uses_child (snd s)" "prompt_allowed env s c" for s c
    using overlay_step_keeps [of uses_child "fst s" "snd s" env c] that by (auto simp: prompt_allowed_def)
qed

section \<open>What is on screen\<close>

definition on_screen :: "overlays \<Rightarrow> overlay_request \<Rightarrow> bool" where
  "on_screen p r = (case ui_states p r of None \<Rightarrow> False | Some st \<Rightarrow>
     (case ui_coordinator st of None \<Rightarrow> False | Some c \<Rightarrow> phase c \<noteq> Stopped))"

lemma ui_up_on_screen: "ui_up ph p r ws \<Longrightarrow> ph \<noteq> Stopped \<Longrightarrow> on_screen p q \<longleftrightarrow> q = r"
  by (auto simp: ui_up_def on_screen_def quiet_but_def quiet_state_def split: option.splits)

lemma settled_on_screen:
  assumes "settled_ui uses_child p"
  shows "on_screen p r \<longleftrightarrow> presented_request p = Some r"
  using assms
proof (cases rule: settled_cases)
  case idle
  then show ?thesis
    by (auto simp: ui_idle_def quiet_but_def on_screen_def quiet_state_def split: option.splits)
next
  case (started q ws)
  then show ?thesis using ui_up_on_screen by auto
next
  case (closing q ws)
  then show ?thesis using ui_up_on_screen by auto
qed

lemma wanted_Some:
  "wanted_request uses_child p = Some r \<longleftrightarrow>
     (\<exists>ws rest. active_web_state p = Some ws \<and> queues p ws = r # rest \<and> has_context p \<and>
        can_show_ui uses_child r (capabilities p))"
  by (auto simp: wanted_request_def get_active_request_def get_front_request_for_web_state_def
      front_request_def split: option.splits list.splits)

lemma window_on_screen:
  assumes "window_ok uses_child (l, p)" and "on_screen p r"
  shows "\<exists>ws rest. active_tab l = Some ws \<and> queues p ws = r # rest \<and> has_context p \<and>
    can_show_ui uses_child r (capabilities p)"
proof -
  have s: "settled_ui uses_child p" and a: "active_web_state p = active_tab l"
    using assms(1) by (simp_all add: window_ok_def ui_ok_def in_sync_def)
  have "wanted_request uses_child p = Some r"
    using s settled_on_screen [OF s, of r] assms(2) by (auto simp: settled_ui_def ui_idle_def)
  then show ?thesis using a by (simp add: wanted_Some)
qed

lemma legal_window_ok:
  assumes "well_formed l" and "presenter_id \<notin> set (observers l)" and "\<forall>s \<in> set ss. s = (\<lambda>_. True)"
    and "new_window uses_child l ss = Some w" and "legal (overlay_step env uses_child) (overlay_allowed env) w cs t"
  shows "window_ok uses_child t"
  using new_window_ok [OF assms(1-3), of uses_child] assms(4) overlay_window.legal_inv [OF assms(5)] by auto

text \<open>
  C24. A window whose presenter and presentation context are driven by any sequence of tab
  operations, requests, cancellations, navigations, changes of the container and answers of the
  user never fails a check, dereferences a null pointer or runs a null callback; and a request
  that is on screen is always the front request of the active tab, in a container that can show
  it, so that there is at most one. Conditions: the observers of the presenter support every
  request; the presenter does not observe the tab list yet; the tab operations are those of C1;
  a request is queued once, at an index of its queue; a tab that is destroyed has left the list;
  and while a dismissal by the user is animated, its request is not cancelled, its tab not navigated, left or
  taken away, no request put before it and the container not changed. What happens otherwise is
  said by \<open>cancel_while_closing_aborts\<close>, \<open>answered_request_is_kept\<close> and
  \<open>unsupporting_observer_blocks_presenter\<close> below.
\<close>

theorem overlays_never_abort:
  assumes "well_formed l" and "presenter_id \<notin> set (observers l)" and "\<forall>s \<in> set ss. s = (\<lambda>_. True)"
    and "new_window uses_child l ss = Some w"
    and "legal (overlay_step env uses_child) (overlay_allowed env) w cs t" and "overlay_allowed env t c"
  shows "\<exists>l' p'. overlay_step env uses_child t c = Some (l', p') \<and>
    (\<forall>r. on_screen p' r \<longrightarrow> (\<exists>ws rest. active_tab l' = Some ws \<and> queues p' ws = r # rest \<and>
      has_context p' \<and> can_show_ui uses_child r (capabilities p')))"
proof -
  have ok: "window_ok uses_child t" by (rule legal_window_ok [OF assms(1-5)])
  obtain l' p' where "overlay_step env uses_child t c = Some (l', p')" "window_ok uses_child (l', p')"
    using overlay_window.step_total [OF ok assms(6)] by auto
  then show ?thesis using window_on_screen by blast
qed

text \<open>
  C25. Under the conditions of C24, and unless the front request of the active tab is cancelled
  on its own while another waits behind it, or the active tab navigates or loses its renderer
  with a request in its queue that has no default cancel handler, the window shows at every
  moment exactly what it should: the front request of the active tab, whenever there is one and
  the container can show it.
\<close>

theorem front_request_is_shown:
  assumes "well_formed l" and "presenter_id \<notin> set (observers l)" and "\<forall>s \<in> set ss. s = (\<lambda>_. True)"
    and "new_window uses_child l ss = Some w"
    and "legal (overlay_step env uses_child) (prompt_allowed env) w cs (l', p)"
  shows "on_screen p r \<longleftrightarrow> (\<exists>ws rest. active_tab l' = Some ws \<and> queues p ws = r # rest \<and>
    has_context p \<and> can_show_ui uses_child r (capabilities p))"
proof -
  have "window_ok uses_child w \<and> prompt uses_child (snd w)"
    using new_window_ok [OF assms(1-3), of uses_child] assms(4) by auto
  then have ok: "window_ok uses_child (l', p)" "prompt uses_child p"
    using prompt_window.legal_inv [OF assms(5)] by auto
  have s: "settled_ui uses_child p" and a: "active_web_state p = active_tab l'"
    using ok(1) by (simp_all add: window_ok_def ui_ok_def in_sync_def)
  show ?thesis
    using settled_on_screen [OF s, of r] ok(2) wanted_Some [of uses_child p r] a by (simp add: prompt_def)
qed

text \<open>
  C27. A request that is cancelled on its own while it is shown leaves the next one waiting:
  the dismissal is reported before the request is taken from its queue, so the presenter still finds
  it at the front, and nothing tells it of the next request afterwards.
\<close>

theorem cancelled_request_leaves_next_waiting:
  assumes "well_formed l" and "presenter_id \<notin> set (observers l)" and "\<forall>s \<in> set ss. s = (\<lambda>_. True)"
    and "new_window uses_child l ss = Some w"
    and "legal (overlay_step env uses_child) (overlay_allowed env) w cs (l', p)"
    and "on_screen p r" and "\<not> closing p" and "active_tab l' = Some ws" and "queues p ws = r # q # rest"
    and "can_show_ui uses_child q (capabilities p)"
  shows "\<exists>p'. overlay_step env uses_child (l', p) (CancelRequest ws r) = Some (l', p') \<and>
    queues p' ws = q # rest \<and> wanted_request uses_child p' = Some q \<and> (\<forall>x. \<not> on_screen p' x)"
proof -
  have ok: "window_ok uses_child (l', p)" by (rule legal_window_ok [OF assms(1-5)])
  then have s: "settled_ui uses_child p" "sound p" "queues_ok p" and sync: "in_sync l' p"
    by (simp_all add: window_ok_def ui_ok_def)
  have a: "active_web_state p = Some ws" using sync assms(8) by (simp add: in_sync_def)
  have pr: "presented_request p = Some r" using settled_on_screen [OF s(1)] assms(6) by simp
  obtain v where up: "ui_up Started p r v"
    using s(1) pr assms(7) by (cases rule: settled_cases) (auto simp: ui_idle_def)
  define p1 where "p1 = p\<lparr>presented_request := None\<rparr>"
  have up1: "ui_up Started p1 r v" using up by (simp add: p1_def ui_up_def quiet_but_def)
  have "get_active_request p1 = Some r"
    using a assms(9) by (simp add: p1_def active_front front_request_def)
  then obtain p2 where p2: "cancel_overlay_ui_for_request uses_child p1 (Some r) = Some p2" "frame p1 p2" "ui_idle p2"
    using cancel_started [OF _ up1, of uses_child] s(2) by (auto simp: p1_def shows_ui_def)
  define p' where "p' = erase_request ws r p2"
  have "overlay_step env uses_child (l', p) (CancelRequest ws r) = Some (l', p')"
    using p2(1) pr assms(9) sync_observing [OF sync a]
    by (simp add: cancel_request_def queued_request_cancelled_def p1_def p'_def)
  moreover have q: "queues p' ws = q # rest" using p2(2) assms(9) by (simp add: p'_def p1_def frame_def)
  moreover have "wanted_request uses_child p' = Some q"
    using q a p2(2) up assms(10) by (simp add: wanted_Some p'_def p1_def frame_def ui_up_def)
  moreover have i: "ui_idle p'" using erase_idle [OF p2(3)] by (simp add: p'_def)
  have "\<not> on_screen p' x" for x
    using settled_on_screen [OF idle_settled [OF i]] i by (simp add: ui_idle_def)
  ultimately show ?thesis by blast
qed

text \<open>
  C26. A request is destroyed, with its completion callbacks run, exactly when it leaves its
  queue, and once: it has been queued at most once, is in one queue at most, and it has been
  completed or is in a queue, and not both. This holds from any state of the presenter and of
  the presentation context whose queues are empty, for any sequence of steps that queues no
  request twice; in particular when requests are cancelled, tabs left, closed or navigated and
  containers exchanged while a dismissal is animated.
\<close>

theorem requests_complete_once:
  assumes "overlay_log q = []" and "queues q = (\<lambda>_. [])" and "default_handlers q = (\<lambda>_. [])"
    and "legal (overlay_step env uses_child) requested_once (l, q) cs (l', p)"
  shows "count_list (overlay_log p) (Queued r) \<le> 1 \<and>
    count_list (overlay_log p) (Completed r) + of_bool (\<exists>ws. r \<in> set (queues p ws)) =
      count_list (overlay_log p) (Queued r) \<and>
    (\<forall>ws ws'. r \<in> set (queues p ws) \<and> r \<in> set (queues p ws') \<longrightarrow> ws = ws')"
proof -
  have ok: "queues_ok p"
    using request_lives.legal_inv [OF assms(4)] no_requests_ok [OF assms(1-3)] by simp
  have "completed_once p" using ok by (simp add: queues_ok_def)
  then have "count_list (lifecycle p) (Queued r) \<le> 1"
    "count_list (lifecycle p) (Completed r) + of_bool (in_queue p r) = count_list (lifecycle p) (Queued r)"
    unfolding completed_once_def by blast+
  moreover have "count_list (lifecycle p) (Queued r) = count_list (overlay_log p) (Queued r)"
    "count_list (lifecycle p) (Completed r) = count_list (overlay_log p) (Completed r)"
    by (rule lifecycle_count, simp add: is_lifecycle_def)+
  ultimately show ?thesis
    using queues_okD(5) [OF ok, of r] by (simp only: in_queue_def) blast
qed

text \<open>
  C28. When a tab is destroyed with requests in its queue, each of their default cancel
  handlers is used after it has been freed: \<open>NavigationHelper::WebStateDestroyed\<close> cancels the request,
  which destroys the handler and the helper in it, and then goes on with the helper. No other
  handler is.
\<close>

theorem destroyed_tab_uses_freed_handlers:
  assumes "well_formed l" and "presenter_id \<notin> set (observers l)" and "\<forall>s \<in> set ss. s = (\<lambda>_. True)"
    and "new_window uses_child l ss = Some w"
    and "legal (overlay_step env uses_child) (overlay_allowed env) w cs (l', p)"
    and "Some ws \<notin> tabs (wrappers l')"
  shows "\<exists>p'. overlay_step env uses_child (l', p) (WebStateDestroyed ws) = Some (l', p') \<and> queues p' ws = [] \<and>
    {r. UsedAfterFree r \<in> set (overlay_log p')} =
      {r. UsedAfterFree r \<in> set (overlay_log p)} \<union> set (default_handlers p ws)"
proof -
  have "window_ok uses_child (l', p)" by (rule legal_window_ok [OF assms(1-5)])
  then have "settled_ui uses_child p" "queues_ok p" and sync: "in_sync l' p"
    by (simp_all add: window_ok_def ui_ok_def)
  moreover have "\<not> observing p ws" "active_web_state p \<noteq> Some ws"
    using assms(6) sync sync_observing [OF sync, of ws] by (auto simp: in_sync_def)
  ultimately show ?thesis using web_state_destroyed_result [of uses_child p ws] by auto
qed

lemma queued_once: "queues_ok p \<Longrightarrow> count_list (lifecycle p) (Queued r) \<le> 1"
  unfolding queues_ok_def completed_once_def by blast

text \<open>A dismissal by the user that is still animated, from the outside.\<close>

lemma closing_state:
  assumes "settled_ui uses_child p" and "closing p" and "on_screen p r"
  obtains ws st c where "ui_up Closing p r ws" "active_web_state p = Some ws" "front_request p ws = Some r"
    "presented_request p = Some r" "ui_states p r = Some st" "ui_coordinator st = Some c" "phase c = Closing"
    "dismissal_callback st = Some ws" "context_request p = Some r" "container p \<noteq> None" "has_context p"
    "presenting p"
proof -
  have pr: "presented_request p = Some r" using settled_on_screen [OF assms(1)] assms(3) by simp
  obtain ws where ws: "ui_up Closing p r ws" "active_web_state p = Some ws" "wanted_request uses_child p = Some r"
    using assms(1) pr assms(2) by (cases rule: settled_cases) (auto simp: ui_idle_def)
  have "front_request p ws = Some r" using wanted_active [OF ws(3)] ws(2) by (simp add: active_front)
  with ws pr that show thesis by (auto simp: ui_up_def split: option.splits)
qed

text \<open>
  While the dismissal of a request by the user is animated, the request may be
  cancelled, by a navigation for example. If it was the last of its queue and another tab is
  activated before the animation ends, \<open>SetActiveWebState\<close> fails its check: the presenter is presenting and
  its tab has no request.
\<close>

theorem cancel_while_closing_aborts:
  assumes "well_formed l" and "presenter_id \<notin> set (observers l)" and "\<forall>s \<in> set ss. s = (\<lambda>_. True)"
    and "new_window uses_child l ss = Some w"
    and "legal (overlay_step env uses_child) (overlay_allowed env) w cs (l', p)"
    and "closing p" and "on_screen p r" and "active_tab l' = Some ws" and "queues p ws = [r]"
    and "contains_index l' i" and "strip l' ! nat i \<noteq> Some ws"
  shows "\<exists>p'. overlay_step env uses_child (l', p) (CancelRequest ws r) = Some (l', p') \<and>
    overlay_step env uses_child (l', p') (TabList (ActivateWebStateAt i)) = None"
proof -
  have "window_ok uses_child (l', p)" by (rule legal_window_ok [OF assms(1-5)])
  then have s: "settled_ui uses_child p" and sync: "in_sync l' p"
    by (simp_all add: window_ok_def ui_ok_def)
  have wf: "well_formed l'" and o1: "once presenter_id l'" and a: "active_web_state p = Some ws"
    using sync assms(8) by (simp_all add: in_sync_def)
  obtain st c where st: "ui_states p r = Some st" "ui_coordinator st = Some c" "phase c = Closing"
    "dismissal_callback st \<noteq> None" "context_request p = Some r" "container p \<noteq> None" "has_context p"
    "presenting p" "presented_request p = Some r"
    using closing_state [OF s assms(6,7)] by (metis option.distinct(1))
  define p1 where "p1 = set_ui_state r (Some (st\<lparr>ui_dismissal_reason := kCancellation\<rparr>))
    (p\<lparr>presented_request := None\<rparr>)"
  define p' where "p' = erase_request ws r p1"
  obtain base where "container p = Some base" using st(6) by blast
  then have "queued_request_cancelled uses_child p r = Some p1"
    using st by (simp add: queued_request_cancelled_def cancel_overlay_ui_for_request_def cancel_overlay_ui_def
        has_callback_def dismiss_presented_ui_def p1_def)
  then have c: "overlay_step env uses_child (l', p) (CancelRequest ws r) = Some (l', p')"
    using assms(9) sync_observing [OF sync a] by (simp add: cancel_request_def p'_def)
  obtain l2 where l2: "activate_web_state_at l' i = Some l2" "wrappers l2 = wrappers l'" "active_index l2 = i"
    "notifications l2 = notifications l' @ (if active_tab l' = active_tab l2 then []
        else to_observers l' (locked l')
          (WebStateActivatedAt (active_tab l') (active_tab l2) i CHANGE_REASON_USER_ACTION))"
    using activate_web_state_at_effect [of l' i] wf assms(10) by (auto simp: well_formed_def)
  have "active_tab l2 = strip l' ! nat i"
    using l2(2,3) assms(10) by (simp add: active_tab_def strip_def contains_index_def kInvalidIndex_def)
  then have new: "active_tab l2 \<noteq> Some ws" using assms(11) by simp
  then have news: "news presenter_id l' l2 =
      [WebStateActivatedAt (Some ws) (active_tab l2) i CHANGE_REASON_USER_ACTION]"
    using news_eq [OF l2(4), of presenter_id] o1 assms(8) by simp
  have "get_active_request p' = None"
    using a assms(9) by (simp add: p'_def p1_def get_active_request_def get_front_request_for_web_state_def
        front_request_def)
  then have "set_active_web_state uses_child p' (active_tab l2) CHANGE_REASON_USER_ACTION = None"
    using new a st by (simp add: set_active_web_state_def p'_def p1_def Let_def)
  then have "overlay_step env uses_child (l', p') (TabList (ActivateWebStateAt i)) = None"
    using l2(1) news by simp
  with c show ?thesis by blast
qed

text \<open>
  A request the user has answered is asked again if another tab is activated while
  the dismissal is animated: the activation hides the request, which overwrites the reason of the
  dismissal, so at the end of the animation the request is not taken from its queue.
\<close>

theorem answered_request_is_kept:
  assumes "well_formed l" and "presenter_id \<notin> set (observers l)" and "\<forall>s \<in> set ss. s = (\<lambda>_. True)"
    and "new_window uses_child l ss = Some w"
    and "legal (overlay_step env uses_child) (overlay_allowed env) w cs (l', p)"
    and "closing p" and "on_screen p r" and "active_tab l' = Some ws"
    and "contains_index l' i" and "strip l' ! nat i \<noteq> Some ws"
  shows "\<exists>l2 p2 p3. overlay_step env uses_child (l', p) (TabList (ActivateWebStateAt i)) = Some (l2, p2) \<and>
    overlay_step env uses_child (l2, p2) (DismissalFinished r) = Some (l2, p3) \<and>
    front_request p3 ws = Some r \<and> Completed r \<notin> set (overlay_log p3)"
proof -
  have "window_ok uses_child (l', p)" by (rule legal_window_ok [OF assms(1-5)])
  then have s: "settled_ui uses_child p" "sound p" "queues_ok p" and sync: "in_sync l' p"
    by (simp_all add: window_ok_def ui_ok_def)
  have wf: "well_formed l'" and o1: "once presenter_id l'" and a: "active_web_state p = Some ws"
    using sync assms(8) by (simp_all add: in_sync_def)
  obtain v st c where st: "ui_up Closing p r v" "ui_states p r = Some st" "ui_coordinator st = Some c" "phase c = Closing"
    "dismissal_callback st = Some v" "context_request p = Some r" "container p \<noteq> None" "has_context p"
    "presenting p" "presented_request p = Some r" "active_web_state p = Some v" "front_request p v = Some r"
    using closing_state [OF s(1) assms(6,7)] by metis
  then have v: "v = ws" using a by simp
  obtain l2 where l2: "activate_web_state_at l' i = Some l2" "wrappers l2 = wrappers l'" "active_index l2 = i"
    "notifications l2 = notifications l' @ (if active_tab l' = active_tab l2 then []
        else to_observers l' (locked l')
          (WebStateActivatedAt (active_tab l') (active_tab l2) i CHANGE_REASON_USER_ACTION))"
    using activate_web_state_at_effect [of l' i] wf assms(9) by (auto simp: well_formed_def)
  have "active_tab l2 = strip l' ! nat i"
    using l2(2,3) assms(9) by (simp add: active_tab_def strip_def contains_index_def kInvalidIndex_def)
  then have new: "active_tab l2 \<noteq> Some ws" using assms(10) by simp
  then have news: "news presenter_id l' l2 =
      [WebStateActivatedAt (Some ws) (active_tab l2) i CHANGE_REASON_USER_ACTION]"
    using news_eq [OF l2(4), of presenter_id] o1 assms(8) by simp
  define st1 where "st1 = st\<lparr>ui_dismissal_reason := kHiding\<rparr>"
  define p2 where "p2 = set_ui_state r (Some st1)
    (p\<lparr>active_web_state := active_tab l2, detaching_active_web_state := False\<rparr>)"
  have "get_active_request p = Some r" using st(11,12) by (simp add: active_front)
  moreover have "\<not> detaching_active_web_state p" using sync by (simp add: in_sync_def)
  ultimately have "set_active_web_state uses_child p (active_tab l2) CHANGE_REASON_USER_ACTION = Some p2"
    using new a st(2-10)
    by (simp add: set_active_web_state_def Let_def CHANGE_REASON_USER_ACTION_def CHANGE_REASON_REPLACED_def
        hide_overlay_ui_def has_callback_def dismiss_presented_ui_def p2_def st1_def)
  then have step2: "overlay_step env uses_child (l', p) (TabList (ActivateWebStateAt i)) = Some (l2, p2)"
    using l2(1) news by simp
  define st2 where "st2 = st1\<lparr>ui_coordinator := Some (c\<lparr>phase := Stopped\<rparr>)\<rparr>"
  define q where "q = set_ui_state r (Some st2) p2"
  have up: "ui_up Stopped q r ws"
    using st(1) st(2-9) v by (auto simp: ui_up_def q_def p2_def st1_def st2_def quiet_but_def)
  have unpopped: "popped_by_user q r ws (ui_dismissal_reason st2) = False"
    by (simp add: popped_by_user_def st2_def st1_def)
  have "ui_states q r = Some st2" "sound q"
    and "case presented_request q of Some x \<Rightarrow> x = r | None \<Rightarrow> ui_dismissal_reason st2 = kCancellation"
    using s(2) st by (simp_all add: q_def p2_def)
  then obtain p3 where p3: "overlay_ui_was_dismissed uses_child q = Some p3" "frame q p3"
    using ui_was_dismissed [of q r ws st2 uses_child] up unfolding unpopped if_False by blast
  have step3: "overlay_step env uses_child (l2, p2) (DismissalFinished r) = Some (l2, p3)"
    using p3(1) st by (simp add: dismissal_finished_def p2_def q_def st1_def st2_def)
  have "queues p3 = queues p" "lifecycle p3 = lifecycle p"
    using p3(2) by (simp_all add: frame_def q_def p2_def)
  moreover have "in_queue p r" using front_in_queue [OF st(12)] by (auto simp: in_queue_def)
  then have "count_list (lifecycle p) (Completed r) = 0"
    using queues_okD(4) [OF s(3), of r] queued_once [OF s(3), of r] by simp
  ultimately have "count_list (lifecycle p3) (Completed r) = 0" "queues p3 = queues p" by simp_all
  then have "front_request p3 ws = Some r" "Completed r \<notin> set (lifecycle p3)"
    using st(12) v by (simp_all add: front_request_def count_list_0_iff)
  then have "front_request p3 ws = Some r" "Completed r \<notin> set (overlay_log p3)"
    by (simp_all add: lifecycle_def is_lifecycle_def)
  then show ?thesis using step2 step3 by blast
qed

text \<open>
  One observer of the presenter that does not support the front request keeps it from
  being shown and blocks the presenter: \<open>PresentOverlayForActiveRequest\<close> returns from its loop over the observers
  after it has begun to present, so \<open>IsShowingOverlayUI\<close> is true with nothing on screen, and
  the next activation of another tab fails a check.
\<close>

theorem unsupporting_observer_blocks_presenter:
  assumes "ui_idle p" and "wanted_request uses_child p = Some r" and "\<not> detaching_active_web_state p"
    and "s \<in> set (supports p)" and "\<not> s r" and "active_web_state p \<noteq> ws"
  shows "\<exists>p'. present_overlay_for_active_request uses_child p = Some p' \<and> presenting p' \<and>
    (\<forall>x. \<not> on_screen p' x) \<and> set_active_web_state uses_child p' ws CHANGE_REASON_USER_ACTION = None"
proof -
  obtain v rest where v: "active_web_state p = Some v" "queues p v = r # rest" "has_context p"
    "can_show_ui uses_child r (capabilities p)"
    using assms(2) by (auto simp: wanted_Some)
  have idle: "\<not> presenting p" "context_request p = None" "quiet_but None p" using assms(1) by (simp_all add: ui_idle_def)
  have "\<exists>s \<in> set ss. \<not> s r \<Longrightarrow> \<not> snd (tell_observers WillShow r k ss)" for ss k
    by (induction ss arbitrary: k) (auto simp: Let_def case_prod_unfold)
  then have stop: "\<not> snd (tell_observers WillShow r 0 (supports p))" using assms(4,5) by blast
  define p' where "p' = log_overlay (fst (tell_observers WillShow r 0 (supports p)))
    (p\<lparr>presenting := True, presented_request := Some r\<rparr>)"
  have "present_overlay_for_active_request uses_child p = Some p'"
    using v idle stop
    by (simp add: present_overlay_for_active_request_def front_request_def Let_def case_prod_unfold p'_def)
  moreover have "get_active_request p' = Some r"
    using v(1,2) by (simp add: p'_def active_front front_request_def)
  then have "set_active_web_state uses_child p' ws CHANGE_REASON_USER_ACTION = None"
    using assms(3,6) v(3) idle(2)
    by (simp add: set_active_web_state_def Let_def CHANGE_REASON_USER_ACTION_def CHANGE_REASON_REPLACED_def
        hide_overlay_ui_def p'_def)
  moreover have "\<not> on_screen p' x" for x
    using idle(3) by (auto simp: p'_def quiet_but_def on_screen_def quiet_state_def split: option.splits)
  ultimately show ?thesis by (simp add: p'_def)
qed

section \<open>Concrete windows\<close>

text \<open>
  The inputs of the witnesses: a window with the tabs 8 and 7, of which 7 is active and has two
  requests.
\<close>

definition first_window :: "web_state_list \<times> overlays" where
  "first_window = the (new_window (\<lambda>_. True) new_web_state_list [\<lambda>_. True])"

definition two_requests :: "overlay_op list" where
  "two_requests = [SetPresentationContext True, SetCoordinator (Some 5) True,
     TabList (InsertWebState 0 (Some 7) INSERT_ACTIVATE no_opener),
     TabList (InsertWebState 0 (Some 8) INSERT_FORCE_INDEX no_opener),
     InsertRequest 7 0 1 True, InsertRequest 7 1 2 True]"

lemma first_window_start:
  "well_formed new_web_state_list" "presenter_id \<notin> set (observers new_web_state_list)"
  "\<forall>s \<in> set [\<lambda>_. True]. s = (\<lambda>_. True)"
  by (simp_all add: well_formed_new) (simp add: new_web_state_list_def)

lemma first_window_new:
  "new_window (\<lambda>_. True) new_web_state_list [\<lambda>_. True] = Some first_window"
  using new_window_ok [OF first_window_start, of "\<lambda>_. True"] by (auto simp: first_window_def)

abbreviation sample_window_step ::
    "web_state_list \<times> overlays \<Rightarrow> overlay_op \<Rightarrow> (web_state_list \<times> overlays) option" where
  "sample_window_step \<equiv> overlay_step idle_env (\<lambda>_. True)"

abbreviation sample_window_run ::
    "(web_state_list \<times> overlays \<Rightarrow> overlay_op \<Rightarrow> bool) \<Rightarrow> overlay_op list \<Rightarrow> (web_state_list \<times> overlays) option" where
  "sample_window_run allowed ops \<equiv> run_checked sample_window_step allowed first_window (two_requests @ ops)"

lemma two_requests_shown:
  obtains l p where "legal sample_window_step (overlay_allowed idle_env) first_window (two_requests @ []) (l, p)"
    "on_screen p 1" "\<not> closing p" "active_tab l = Some 7" "queues p 7 = [1, 2]" "capabilities p = 3"
proof -
  have "case sample_window_run (overlay_allowed idle_env) [] of None \<Rightarrow> False | Some t \<Rightarrow>
      on_screen (snd t) 1 \<and> \<not> closing (snd t) \<and> active_tab (fst t) = Some 7 \<and> queues (snd t) 7 = [1, 2] \<and>
      capabilities (snd t) = 3"
    by code_simp
  then show thesis by (rule run_checked_witness) (use that in \<open>auto simp: split_paired_all\<close>)
qed

theorem overlays_never_abort_witness:
  "\<exists>t l' p'. run sample_window_step first_window two_requests = Some t \<and>
    sample_window_step t (CancelRequest 7 1) = Some (l', p') \<and>
    (\<forall>r. on_screen p' r \<longrightarrow> (\<exists>rest. queues p' 7 = r # rest \<and> active_tab l' = Some 7))"
proof -
  have "case sample_window_run (overlay_allowed idle_env) [] of None \<Rightarrow> False | Some t \<Rightarrow>
      overlay_allowed idle_env t (CancelRequest 7 1) \<and>
      (case sample_window_step t (CancelRequest 7 1) of None \<Rightarrow> False | Some t' \<Rightarrow> active_tab (fst t') = Some 7)"
    by code_simp
  then obtain t where t: "legal sample_window_step (overlay_allowed idle_env) first_window (two_requests @ []) t"
    "overlay_allowed idle_env t (CancelRequest 7 1) \<and>
      (case sample_window_step t (CancelRequest 7 1) of None \<Rightarrow> False | Some t' \<Rightarrow> active_tab (fst t') = Some 7)"
    by (rule run_checked_witness)
  have "run sample_window_step first_window two_requests = Some t" using legal_run [OF t(1)] by simp
  with overlays_never_abort [OF first_window_start first_window_new t(1), of "CancelRequest 7 1"] t(2)
  show ?thesis by fastforce
qed

theorem front_request_is_shown_witness:
  "\<exists>l p. run sample_window_step first_window
      (two_requests @ [UserDismisses, DismissalFinished 1]) = Some (l, p) \<and> (\<forall>r. on_screen p r \<longleftrightarrow> r = 2)"
proof -
  have "case sample_window_run (prompt_allowed idle_env) [UserDismisses, DismissalFinished 1] of
      None \<Rightarrow> False | Some t \<Rightarrow> active_tab (fst t) = Some 7 \<and> queues (snd t) 7 = [2] \<and> has_context (snd t) \<and>
        can_show_ui (\<lambda>_. True) 2 (capabilities (snd t))"
    by code_simp
  then obtain l p where t: "legal sample_window_step (prompt_allowed idle_env) first_window
      (two_requests @ [UserDismisses, DismissalFinished 1]) (l, p)"
    "active_tab l = Some 7 \<and> queues p 7 = [2] \<and> has_context p \<and> can_show_ui (\<lambda>_. True) 2 (capabilities p)"
    by (rule run_checked_witness) (auto simp: split_paired_all)
  show ?thesis
    using front_request_is_shown [OF first_window_start first_window_new t(1)] t(2) legal_run [OF t(1)] by auto
qed

theorem cancelled_request_leaves_next_waiting_witness:
  "\<exists>l p p'. run sample_window_step first_window two_requests = Some (l, p) \<and>
    sample_window_step (l, p) (CancelRequest 7 1) = Some (l, p') \<and> queues p' 7 = [2] \<and>
    wanted_request (\<lambda>_. True) p' = Some 2 \<and> (\<forall>x. \<not> on_screen p' x)"
proof -
  obtain l p where t: "legal sample_window_step (overlay_allowed idle_env) first_window (two_requests @ []) (l, p)"
    "on_screen p 1" "\<not> closing p" "active_tab l = Some 7" "queues p 7 = [1, 2]" "capabilities p = 3"
    by (rule two_requests_shown)
  have "can_show_ui (\<lambda>_. True) 2 (capabilities p)" using t(6) by (simp add: can_show_ui_def kContained_def)
  from cancelled_request_leaves_next_waiting [OF first_window_start first_window_new t(1-5) this]
  show ?thesis using legal_run [OF t(1)] by auto
qed

text \<open>The request on screen is cancelled while the user's dismissal of it is animated.\<close>

definition no_tabs_window :: "web_state_list \<times> overlays" where
  "no_tabs_window = (add_observer new_web_state_list presenter_id, no_overlays [\<lambda>_. True])"

theorem requests_complete_once_witness:
  "\<exists>l p. run sample_window_step no_tabs_window
      (two_requests @ [UserDismisses, CancelRequest 7 1, DismissalFinished 1]) = Some (l, p) \<and>
    count_list (overlay_log p) (Completed 1) = 1 \<and> \<not> (\<exists>ws. 1 \<in> set (queues p ws))"
proof -
  have "case run_checked sample_window_step requested_once no_tabs_window
        (two_requests @ [UserDismisses, CancelRequest 7 1, DismissalFinished 1]) of
      None \<Rightarrow> False | Some t \<Rightarrow> count_list (overlay_log (snd t)) (Completed 1) = 1"
    by code_simp
  then obtain l p where t: "legal sample_window_step requested_once no_tabs_window
      (two_requests @ [UserDismisses, CancelRequest 7 1, DismissalFinished 1]) (l, p)"
    "count_list (overlay_log p) (Completed 1) = 1"
    by (rule run_checked_witness) (auto simp: split_paired_all)
  have "count_list (overlay_log p) (Queued 1) \<le> 1 \<and>
    count_list (overlay_log p) (Completed 1) + of_bool (\<exists>ws. 1 \<in> set (queues p ws)) =
      count_list (overlay_log p) (Queued 1) \<and>
    (\<forall>ws ws'. 1 \<in> set (queues p ws) \<and> 1 \<in> set (queues p ws') \<longrightarrow> ws = ws')"
    by (rule requests_complete_once [OF _ _ _ t(1) [unfolded no_tabs_window_def]])
      (simp_all add: no_overlays_def)
  then have "1 + of_bool (\<exists>ws. 1 \<in> set (queues p ws)) \<le> (1::nat)" unfolding t(2) by linarith
  then have "\<not> (\<exists>ws. 1 \<in> set (queues p ws))" by (cases "\<exists>ws. 1 \<in> set (queues p ws)") simp_all
  with t(2) legal_run [OF t(1)] show ?thesis by blast
qed

theorem destroyed_tab_uses_freed_handlers_witness:
  "\<exists>l p p'. run sample_window_step first_window (two_requests @ [TabList (CloseWebStateAt 1 0)]) = Some (l, p) \<and>
    sample_window_step (l, p) (WebStateDestroyed 7) = Some (l, p') \<and> queues p' 7 = [] \<and>
    UsedAfterFree 1 \<in> set (overlay_log p') \<and> UsedAfterFree 2 \<in> set (overlay_log p')"
proof -
  have "case sample_window_run (overlay_allowed idle_env) [TabList (CloseWebStateAt 1 0)] of
      None \<Rightarrow> False | Some t \<Rightarrow> strip (fst t) = [Some 8] \<and> default_handlers (snd t) 7 = [1, 2]"
    by code_simp
  then obtain l p where t: "legal sample_window_step (overlay_allowed idle_env) first_window
      (two_requests @ [TabList (CloseWebStateAt 1 0)]) (l, p)" "strip l = [Some 8] \<and> default_handlers p 7 = [1, 2]"
    by (rule run_checked_witness) (auto simp: split_paired_all)
  have "tabs (wrappers l) = {Some 8}" using t(2) by (auto simp: tabs_def strip_def dest: arg_cong [of _ _ set])
  then have "Some 7 \<notin> tabs (wrappers l)" by simp
  from destroyed_tab_uses_freed_handlers [OF first_window_start first_window_new t(1) this] t(2)
  show ?thesis using legal_run [OF t(1)] by (auto simp: set_eq_iff)
qed

theorem cancel_while_closing_aborts_witness:
  "\<exists>l p p'. run sample_window_step first_window (two_requests @ [CancelRequest 7 2, UserDismisses]) = Some (l, p) \<and>
    sample_window_step (l, p) (CancelRequest 7 1) = Some (l, p') \<and>
    sample_window_step (l, p') (TabList (ActivateWebStateAt 0)) = None"
proof -
  have "case sample_window_run (overlay_allowed idle_env) [CancelRequest 7 2, UserDismisses] of
      None \<Rightarrow> False | Some t \<Rightarrow> closing (snd t) \<and> on_screen (snd t) 1 \<and> active_tab (fst t) = Some 7 \<and>
        queues (snd t) 7 = [1] \<and> contains_index (fst t) 0 \<and> strip (fst t) ! nat 0 \<noteq> Some 7"
    by code_simp
  then obtain l p where t: "legal sample_window_step (overlay_allowed idle_env) first_window
      (two_requests @ [CancelRequest 7 2, UserDismisses]) (l, p)"
    "closing p" "on_screen p 1" "active_tab l = Some 7" "queues p 7 = [1]" "contains_index l 0"
    "strip l ! nat 0 \<noteq> Some 7"
    by (rule run_checked_witness) (auto simp: split_paired_all)
  show ?thesis
    using cancel_while_closing_aborts [OF first_window_start first_window_new t] legal_run [OF t(1)] by auto
qed

theorem answered_request_is_kept_witness:
  "\<exists>l p l2 p2 p3. run sample_window_step first_window (two_requests @ [UserDismisses]) = Some (l, p) \<and>
    sample_window_step (l, p) (TabList (ActivateWebStateAt 0)) = Some (l2, p2) \<and>
    sample_window_step (l2, p2) (DismissalFinished 1) = Some (l2, p3) \<and>
    front_request p3 7 = Some 1 \<and> Completed 1 \<notin> set (overlay_log p3)"
proof -
  have "case sample_window_run (overlay_allowed idle_env) [UserDismisses] of
      None \<Rightarrow> False | Some t \<Rightarrow> closing (snd t) \<and> on_screen (snd t) 1 \<and> active_tab (fst t) = Some 7 \<and>
        contains_index (fst t) 0 \<and> strip (fst t) ! nat 0 \<noteq> Some 7"
    by code_simp
  then obtain l p where t: "legal sample_window_step (overlay_allowed idle_env) first_window
      (two_requests @ [UserDismisses]) (l, p)"
    "closing p" "on_screen p 1" "active_tab l = Some 7" "contains_index l 0" "strip l ! nat 0 \<noteq> Some 7"
    by (rule run_checked_witness) (auto simp: split_paired_all)
  show ?thesis
    using answered_request_is_kept [OF first_window_start first_window_new t] legal_run [OF t(1)] by auto
qed

text \<open>A window whose second observer does not support the request 1.\<close>

definition partly_supported :: overlays where
  "partly_supported = (no_overlays [\<lambda>_. True, \<lambda>r. r \<noteq> 1])\<lparr>has_context := True, container := Some 5,
     capabilities := kContained, active_web_state := Some 7,
     queues := (\<lambda>_. [])(7 := [1]), observing := (\<lambda>_. False)(7 := True)\<rparr>"

theorem unsupporting_observer_blocks_presenter_witness:
  "\<exists>p'. present_overlay_for_active_request (\<lambda>_. True) partly_supported = Some p' \<and> presenting p' \<and>
    (\<forall>x. \<not> on_screen p' x) \<and> set_active_web_state (\<lambda>_. True) p' (Some 8) CHANGE_REASON_USER_ACTION = None"
proof (rule unsupporting_observer_blocks_presenter)
  show "ui_idle partly_supported"
    by (simp add: partly_supported_def no_overlays_def ui_idle_def quiet_but_def)
  show "wanted_request (\<lambda>_. True) partly_supported = Some 1"
    by (simp add: wanted_Some partly_supported_def no_overlays_def can_show_ui_def kContained_def)
  show "(\<lambda>r. r \<noteq> 1) \<in> set (supports partly_supported)"
    by (simp add: partly_supported_def no_overlays_def)
qed (simp_all add: partly_supported_def no_overlays_def)

end
