(* ===== verification/OverlayRequests.thy ===== *)
theory OverlayRequests
  imports Prelude
begin

text \<open>
  The callbacks of overlay requests (\<open>chrome/browser/overlays\<close>):
  \<^item> \<open>overlay_request_support.cc\<close> and \<open>overlay_response_support.cc\<close>: which requests an observer
    or an installer takes, which responses a dispatch callback takes;
  \<^item> \<open>overlay_callback_manager_impl.cc\<close>, \<open>overlay_dispatch_callback.cc\<close> and
    \<open>overlay_request_impl.cc\<close>: the callbacks of a request, run when a response is dispatched and
    when the request is destroyed;
  \<^item> \<open>overlay_request_callback_installer.cc\<close>: the installers, which remember by address the
    requests they have given callbacks to.

  A request and an installer are addresses. The address of a destroyed request may be used
  again; an installer that is gone is not reached again, because its completion callbacks hold a
  weak pointer, so its number is not used twice. What a client does in its callback is outside
  the model, and so is the set of user data attached to a request or a response, which is a list
  of keys. What the callbacks of a subclass of the installer are (\<open>InstallCallbacksInternal\<close>) is
  part of the installer. The ghost field \<open>ran\<close> lists the callbacks that were run.
\<close>

section \<open>What is supported\<close>

type_synonym user_data = "nat list"

text \<open>
  \<open>SupportsOverlayRequest<ConfigType>\<close> and \<open>SupportsOverlayResponse<InfoType>\<close> ask for the data
  with the key of the type; the others are \<open>All()\<close>, \<open>None()\<close> and the aggregated supports. The
  classes for requests and for responses are the same.
\<close>

datatype overlay_support =
    Universal
  | Disabled
  | Supports nat
  | Aggregated "overlay_support list"

definition aggregate_support :: "overlay_support list \<Rightarrow> overlay_support option" where
  "aggregate_support supports = do { dcheck (supports \<noteq> []); Some (Aggregated supports) }"

fun any_supported :: "('a \<Rightarrow> bool option) \<Rightarrow> 'a list \<Rightarrow> bool option" where
  "any_supported f [] = Some False"
| "any_supported f (s # ss) = do { b \<leftarrow> f s; if b then Some True else any_supported f ss }"

lemma any_supported_cong [fundef_cong]:
  "ss = ts \<Longrightarrow> (\<And>s. s \<in> set ts \<Longrightarrow> f s = g s) \<Longrightarrow> any_supported f ss = any_supported g ts"
  by (induction ts arbitrary: ss) (auto cong: if_cong)

fun is_supported :: "overlay_support \<Rightarrow> user_data \<Rightarrow> bool option" where
  "is_supported Universal d = Some True"
| "is_supported Disabled d = Some False"
| "is_supported (Supports k) d = Some (k \<in> set d)"
| "is_supported (Aggregated ss) d = do { dcheck (ss \<noteq> []); any_supported (\<lambda>s. is_supported s d) ss }"

section \<open>The callbacks of a request\<close>

record overlay_response =
  response_id :: nat
  response_data :: user_data

text \<open>
  A completion callback is a client's or \<open>OverlayCompleted\<close> of an installer. A dispatch callback
  has the support it was made with.
\<close>

datatype completion_callback = Client nat | OverlayCompleted nat

record dispatch_callback =
  dispatch_target :: nat
  response_support :: overlay_support

record callback_manager =
  completion_response :: "overlay_response option"
  completion_callbacks :: "completion_callback list"
  dispatch_callbacks :: "dispatch_callback list"

record overlay_request_impl =
  request_data :: user_data
  callback_manager_of :: callback_manager

record callback_installer =
  installer_support :: overlay_support
  installed_requests :: "nat set"
  internal_completions :: "nat list"
  internal_dispatches :: "dispatch_callback list"

datatype run_event =
    RanCompletion nat completion_callback "overlay_response option"
  | RanDispatch nat nat overlay_response

record request_world =
  live_requests :: "nat \<rightharpoonup> overlay_request_impl"
  installers :: "nat \<rightharpoonup> callback_installer"
  next_installer :: nat
  ran :: "run_event list"

definition empty_request_world :: request_world where
  "empty_request_world = \<lparr>live_requests = (\<lambda>_. None), installers = (\<lambda>_. None), next_installer = 0, ran = []\<rparr>"

definition new_callback_manager :: callback_manager where
  "new_callback_manager = \<lparr>completion_response = None, completion_callbacks = [], dispatch_callbacks = []\<rparr>"

definition create_overlay_request :: "request_world \<Rightarrow> nat \<Rightarrow> user_data \<Rightarrow> request_world" where
  "create_overlay_request w r d = w\<lparr>live_requests := (live_requests w)
     (r \<mapsto> \<lparr>request_data = d, callback_manager_of = new_callback_manager\<rparr>)\<rparr>"

text \<open>A call on a request; a request that is not there is a null pointer.\<close>

definition with_request ::
    "request_world \<Rightarrow> nat \<Rightarrow> (callback_manager \<Rightarrow> callback_manager) \<Rightarrow> request_world option" where
  "with_request w r f = (case live_requests w r of
     None \<Rightarrow> None
   | Some x \<Rightarrow> Some (w\<lparr>live_requests := (live_requests w)
       (r \<mapsto> x\<lparr>callback_manager_of := f (callback_manager_of x)\<rparr>)\<rparr>))"

definition set_completion_response :: "overlay_response option \<Rightarrow> callback_manager \<Rightarrow> callback_manager" where
  "set_completion_response response m = m\<lparr>completion_response := response\<rparr>"

definition add_completion_callback :: "completion_callback \<Rightarrow> callback_manager \<Rightarrow> callback_manager" where
  "add_completion_callback c m = m\<lparr>completion_callbacks := completion_callbacks m @ [c]\<rparr>"

definition add_dispatch_callback :: "dispatch_callback \<Rightarrow> callback_manager \<Rightarrow> callback_manager" where
  "add_dispatch_callback c m = m\<lparr>dispatch_callbacks := dispatch_callbacks m @ [c]\<rparr>"

text \<open>\<open>OverlayDispatchCallback::Run\<close>, and \<open>DispatchResponse\<close>, which runs it for each callback.\<close>

definition run_dispatch_callback ::
    "nat \<Rightarrow> overlay_response \<Rightarrow> dispatch_callback \<Rightarrow> run_event list option" where
  "run_dispatch_callback r response c = do {
     b \<leftarrow> is_supported (response_support c) (response_data response);
     Some (if b then [RanDispatch r (dispatch_target c) response] else [])
   }"

fun run_dispatch_callbacks ::
    "nat \<Rightarrow> overlay_response \<Rightarrow> dispatch_callback list \<Rightarrow> run_event list option" where
  "run_dispatch_callbacks r response [] = Some []"
| "run_dispatch_callbacks r response (c # cs) = do {
     es \<leftarrow> run_dispatch_callback r response c;
     fs \<leftarrow> run_dispatch_callbacks r response cs;
     Some (es @ fs)
   }"

definition dispatch_response :: "request_world \<Rightarrow> nat \<Rightarrow> overlay_response \<Rightarrow> request_world option" where
  "dispatch_response w r response = (case live_requests w r of
     None \<Rightarrow> None
   | Some x \<Rightarrow> do {
       es \<leftarrow> run_dispatch_callbacks r response (dispatch_callbacks (callback_manager_of x));
       Some (w\<lparr>ran := ran w @ es\<rparr>)
     })"

text \<open>\<open>OverlayCompleted\<close>, through a weak pointer.\<close>

definition overlay_completed :: "request_world \<Rightarrow> nat \<Rightarrow> nat \<Rightarrow> request_world" where
  "overlay_completed w i r = (case installers w i of
     None \<Rightarrow> w
   | Some x \<Rightarrow> w\<lparr>installers := (installers w)
       (i \<mapsto> x\<lparr>installed_requests := installed_requests x - {r}\<rparr>)\<rparr>)"

definition run_completion_callback ::
    "nat \<Rightarrow> overlay_response option \<Rightarrow> completion_callback \<Rightarrow> request_world \<Rightarrow> request_world" where
  "run_completion_callback r response c w =
     (let w1 = w\<lparr>ran := ran w @ [RanCompletion r c response]\<rparr>
      in case c of Client k \<Rightarrow> w1 | OverlayCompleted i \<Rightarrow> overlay_completed w1 i r)"

text \<open>
  The destructor of a request runs the completion callbacks and then destroys the manager, whose
  destructor checks that none is left.
\<close>

definition execute_completion_callbacks :: "request_world \<Rightarrow> nat \<Rightarrow> request_world option" where
  "execute_completion_callbacks w r = (case live_requests w r of
     None \<Rightarrow> None
   | Some x \<Rightarrow>
       let m = callback_manager_of x
       in with_request (fold (run_completion_callback r (completion_response m)) (completion_callbacks m) w)
            r (\<lambda>m. m\<lparr>completion_callbacks := []\<rparr>))"

definition destroy_overlay_request :: "request_world \<Rightarrow> nat \<Rightarrow> request_world option" where
  "destroy_overlay_request w r = do {
     w1 \<leftarrow> execute_completion_callbacks w r;
     x \<leftarrow> live_requests w1 r;
     dcheck (completion_callbacks (callback_manager_of x) = []);
     Some (w1\<lparr>live_requests := (live_requests w1)(r := None)\<rparr>)
   }"

section \<open>Installers\<close>

definition create_installer ::
    "request_world \<Rightarrow> overlay_support \<Rightarrow> nat list \<Rightarrow> dispatch_callback list \<Rightarrow> request_world" where
  "create_installer w s cs ds = w\<lparr>installers := (installers w)(next_installer w \<mapsto>
       \<lparr>installer_support = s, installed_requests = {}, internal_completions = cs,
        internal_dispatches = ds\<rparr>), next_installer := Suc (next_installer w)\<rparr>"

definition destroy_installer :: "request_world \<Rightarrow> nat \<Rightarrow> request_world" where
  "destroy_installer w i = w\<lparr>installers := (installers w)(i := None)\<rparr>"

definition install_callbacks_internal :: "callback_installer \<Rightarrow> callback_manager \<Rightarrow> callback_manager" where
  "install_callbacks_internal x m =
     fold add_dispatch_callback (internal_dispatches x)
       (fold (\<lambda>k. add_completion_callback (Client k)) (internal_completions x) m)"

definition install_callbacks :: "request_world \<Rightarrow> nat \<Rightarrow> nat \<Rightarrow> request_world option" where
  "install_callbacks w i r = do {
     x \<leftarrow> installers w i;
     q \<leftarrow> live_requests w r;
     supported \<leftarrow> is_supported (installer_support x) (request_data q);
     if \<not> supported \<or> r \<in> installed_requests x then Some w
     else do {
       let w1 = w\<lparr>installers := (installers w)
         (i \<mapsto> x\<lparr>installed_requests := insert r (installed_requests x)\<rparr>)\<rparr>;
       w2 \<leftarrow> with_request w1 r (add_completion_callback (OverlayCompleted i));
       with_request w2 r (install_callbacks_internal x)
     }
   }"

section \<open>The operations\<close>

datatype request_op =
    CreateOverlayRequest nat user_data
  | DestroyOverlayRequest nat
  | SetCompletionResponse nat "overlay_response option"
  | AddCompletionCallback nat nat
  | AddDispatchCallback nat dispatch_callback
  | DispatchResponse nat overlay_response
  | CreateInstaller overlay_support "nat list" "dispatch_callback list"
  | DestroyInstaller nat
  | InstallCallbacks nat nat

fun request_step :: "request_world \<Rightarrow> request_op \<Rightarrow> request_world option" where
  "request_step w (CreateOverlayRequest r d) = Some (create_overlay_request w r d)"
| "request_step w (DestroyOverlayRequest r) = destroy_overlay_request w r"
| "request_step w (SetCompletionResponse r x) = with_request w r (set_completion_response x)"
| "request_step w (AddCompletionCallback r k) = with_request w r (add_completion_callback (Client k))"
| "request_step w (AddDispatchCallback r c) = with_request w r (add_dispatch_callback c)"
| "request_step w (DispatchResponse r x) = dispatch_response w r x"
| "request_step w (CreateInstaller s cs ds) = Some (create_installer w s cs ds)"
| "request_step w (DestroyInstaller i) = Some (destroy_installer w i)"
| "request_step w (InstallCallbacks i r) = install_callbacks w i r"

text \<open>
  Callers: they use objects that exist, a request is created at a free address, and an aggregated
  support is not empty.
\<close>

fun support_ok :: "overlay_support \<Rightarrow> bool" where
  "support_ok (Aggregated ss) = (ss \<noteq> [] \<and> list_all support_ok ss)"
| "support_ok s = True"

fun request_op_allowed :: "request_world \<Rightarrow> request_op \<Rightarrow> bool" where
  "request_op_allowed w (CreateOverlayRequest r d) = (live_requests w r = None)"
| "request_op_allowed w (AddDispatchCallback r c) = (live_requests w r \<noteq> None \<and> support_ok (response_support c))"
| "request_op_allowed w (CreateInstaller s cs ds) =
     (support_ok s \<and> list_all (\<lambda>c. support_ok (response_support c)) ds)"
| "request_op_allowed w (DestroyInstaller i) = (installers w i \<noteq> None)"
| "request_op_allowed w (InstallCallbacks i r) = (installers w i \<noteq> None \<and> live_requests w r \<noteq> None)"
| "request_op_allowed w (DestroyOverlayRequest r) = (live_requests w r \<noteq> None)"
| "request_op_allowed w (SetCompletionResponse r x) = (live_requests w r \<noteq> None)"
| "request_op_allowed w (AddCompletionCallback r k) = (live_requests w r \<noteq> None)"
| "request_op_allowed w (DispatchResponse r x) = (live_requests w r \<noteq> None)"

end
