(* ===== verification/OverlayRequestsFacts.thy ===== *)
theory OverlayRequestsFacts
  imports OverlayRequests
begin

text \<open>
  What the callbacks of overlay requests promise: a dispatched response reaches exactly the
  callbacks that support it, a destroyed request runs its completion callbacks, and an installer
  gives its callbacks to a request once, also when addresses are used again.
\<close>

section \<open>Supports\<close>

text \<open>The data a support asks for, read off its leaves.\<close>

fun wants :: "overlay_support \<Rightarrow> user_data \<Rightarrow> bool" where
  "wants Universal d = True"
| "wants Disabled d = False"
| "wants (Supports k) d = (k \<in> set d)"
| "wants (Aggregated ss) d = list_ex (\<lambda>s. wants s d) ss"

lemma any_supported_eq:
  "\<forall>s \<in> set ss. f s = Some (p s) \<Longrightarrow> any_supported f ss = Some (list_ex p ss)"
  by (induction ss) auto

lemma is_supported_wants: "support_ok s \<Longrightarrow> is_supported s d = Some (wants s d)"
  by (induction s) (auto simp: list_all_iff intro!: any_supported_eq)

lemma run_dispatch_callbacks_eq:
  "list_all (\<lambda>c. support_ok (response_support c)) cs \<Longrightarrow>
   run_dispatch_callbacks r x cs = Some (map (\<lambda>c. RanDispatch r (dispatch_target c) x)
     (filter (\<lambda>c. wants (response_support c) (response_data x)) cs))"
  by (induction cs) (auto simp: run_dispatch_callback_def is_supported_wants)

section \<open>The invariant\<close>

abbreviation completions_of :: "overlay_request_impl \<Rightarrow> completion_callback list" where
  "completions_of q \<equiv> completion_callbacks (callback_manager_of q)"

abbreviation dispatches_of :: "overlay_request_impl \<Rightarrow> dispatch_callback list" where
  "dispatches_of q \<equiv> dispatch_callbacks (callback_manager_of q)"

definition request_ok :: "nat \<Rightarrow> overlay_request_impl \<Rightarrow> bool" where
  "request_ok n q \<longleftrightarrow> list_all (\<lambda>c. support_ok (response_support c)) (dispatches_of q) \<and>
     (\<forall>i. OverlayCompleted i \<in> set (completions_of q) \<longrightarrow> i < n) \<and>
     (\<forall>i. count_list (completions_of q) (OverlayCompleted i) \<le> 1)"

definition installer_ok :: "request_world \<Rightarrow> nat \<Rightarrow> callback_installer \<Rightarrow> bool" where
  "installer_ok w i x \<longleftrightarrow> i < next_installer w \<and> support_ok (installer_support x) \<and>
     list_all (\<lambda>c. support_ok (response_support c)) (internal_dispatches x) \<and>
     (\<forall>r. r \<in> installed_requests x \<longleftrightarrow>
        (\<exists>q. live_requests w r = Some q \<and> OverlayCompleted i \<in> set (completions_of q)))"

definition world_ok :: "request_world \<Rightarrow> bool" where
  "world_ok w \<longleftrightarrow> (\<forall>r q. live_requests w r = Some q \<longrightarrow> request_ok (next_installer w) q) \<and>
     (\<forall>i x. installers w i = Some x \<longrightarrow> installer_ok w i x)"

lemma request_okD: "world_ok w \<Longrightarrow> live_requests w r = Some q \<Longrightarrow> request_ok (next_installer w) q"
  by (simp add: world_ok_def)

lemma world_ok_empty: "world_ok empty_request_world"
  by (simp add: world_ok_def empty_request_world_def)

text \<open>A call that leaves the callbacks of the installers alone keeps the invariant.\<close>

lemma world_ok_with_request:
  assumes "world_ok w" and "with_request w r f = Some w'"
    and "\<And>q. live_requests w r = Some q \<Longrightarrow> request_ok (next_installer w)
      (q\<lparr>callback_manager_of := f (callback_manager_of q)\<rparr>)"
    and "\<And>m i. OverlayCompleted i \<in> set (completion_callbacks (f m)) \<longleftrightarrow>
      OverlayCompleted i \<in> set (completion_callbacks m)"
  shows "world_ok w'"
proof -
  obtain q where q: "live_requests w r = Some q"
    and w': "w' = w\<lparr>live_requests := (live_requests w)
      (r \<mapsto> q\<lparr>callback_manager_of := f (callback_manager_of q)\<rparr>)\<rparr>"
    using assms(2) by (auto simp: with_request_def split: option.splits)
  have "installer_ok w' i x" if "installer_ok w i x" for i x
    using that q assms(4) by (simp add: installer_ok_def w')
  then show ?thesis using assms(1) assms(3) [OF q] by (simp add: world_ok_def w')
qed

lemma internal_manager:
  "completion_callbacks (install_callbacks_internal x m) =
     completion_callbacks m @ map Client (internal_completions x)"
  "dispatch_callbacks (install_callbacks_internal x m) = dispatch_callbacks m @ internal_dispatches x"
  "completion_response (install_callbacks_internal x m) = completion_response m"
proof -
  have "fold add_dispatch_callback ds m = m\<lparr>dispatch_callbacks := dispatch_callbacks m @ ds\<rparr>" for ds m
    by (induction ds arbitrary: m) (simp_all add: add_dispatch_callback_def)
  moreover have "fold (\<lambda>k. add_completion_callback (Client k)) cs m =
      m\<lparr>completion_callbacks := completion_callbacks m @ map Client cs\<rparr>" for cs m
    by (induction cs arbitrary: m) (simp_all add: add_completion_callback_def)
  ultimately show "completion_callbacks (install_callbacks_internal x m) =
     completion_callbacks m @ map Client (internal_completions x)"
    "dispatch_callbacks (install_callbacks_internal x m) = dispatch_callbacks m @ internal_dispatches x"
    "completion_response (install_callbacks_internal x m) = completion_response m"
    by (simp_all add: install_callbacks_internal_def)
qed

lemma count_Client [simp]: "count_list (map Client cs) (OverlayCompleted i) = 0"
  by (induction cs) simp_all

text \<open>Installing: either nothing happens, or the callbacks go to the end of the lists.\<close>

lemma install_callbacks_result:
  assumes "installers w i = Some x" and "live_requests w r = Some q" and "support_ok (installer_support x)"
  shows "install_callbacks w i r = Some
    (if \<not> wants (installer_support x) (request_data q) \<or> r \<in> installed_requests x then w
     else w\<lparr>installers := (installers w)(i \<mapsto> x\<lparr>installed_requests := insert r (installed_requests x)\<rparr>),
            live_requests := (live_requests w)(r \<mapsto> q\<lparr>callback_manager_of :=
              install_callbacks_internal x (add_completion_callback (OverlayCompleted i) (callback_manager_of q))\<rparr>)\<rparr>)"
  using assms by (simp add: install_callbacks_def is_supported_wants with_request_def)

lemma world_ok_install:
  assumes "world_ok w" and "installers w i = Some x" and "live_requests w r = Some q"
    and "install_callbacks w i r = Some w'"
  shows "world_ok w'"
proof -
  have x: "installer_ok w i x" and q: "request_ok (next_installer w) q"
    using assms(1-3) by (simp_all add: world_ok_def)
  then have s: "support_ok (installer_support x)" by (simp add: installer_ok_def)
  show ?thesis
  proof (cases "\<not> wants (installer_support x) (request_data q) \<or> r \<in> installed_requests x")
    case True
    then show ?thesis using install_callbacks_result [OF assms(2,3) s] assms(1,4) by auto
  next
    case False
    then have pending: "OverlayCompleted i \<notin> set (completions_of q)" using x assms(3) by (simp add: installer_ok_def)
    then have "request_ok (next_installer w) (q\<lparr>callback_manager_of :=
        install_callbacks_internal x (add_completion_callback (OverlayCompleted i) (callback_manager_of q))\<rparr>)"
      using q x by (auto simp: request_ok_def installer_ok_def internal_manager add_completion_callback_def
          count_list_0_iff)
    then show ?thesis
      using install_callbacks_result [OF assms(2,3) s] assms(1,3,4) False x
      by (auto simp: world_ok_def installer_ok_def internal_manager add_completion_callback_def)
  qed
qed

section \<open>Destroying a request\<close>

text \<open>The installers after the callbacks \<open>cs\<close> of the request \<open>r\<close> have run.\<close>

definition forget_request :: "completion_callback list \<Rightarrow> nat \<Rightarrow> request_world \<Rightarrow> nat \<Rightarrow> callback_installer option" where
  "forget_request cs r w i = (if OverlayCompleted i \<in> set cs
     then map_option (\<lambda>x. x\<lparr>installed_requests := installed_requests x - {r}\<rparr>) (installers w i)
     else installers w i)"

lemma run_completion:
  "run_completion_callback r p c w = w\<lparr>installers := forget_request [c] r w, ran := ran w @ [RanCompletion r c p]\<rparr>"
proof (cases c)
  case (Client k)
  then show ?thesis by (simp add: run_completion_callback_def forget_request_def [abs_def])
next
  case (OverlayCompleted i)
  have "forget_request [c] r w = (installers w)(i := map_option
      (\<lambda>x. x\<lparr>installed_requests := installed_requests x - {r}\<rparr>) (installers w i))"
    by (auto simp: fun_eq_iff forget_request_def OverlayCompleted)
  moreover have "(installers w)(i := None) = installers w" if "installers w i = None"
    using that by (simp add: fun_upd_idem)
  ultimately show ?thesis
    by (cases "installers w i") (simp_all add: run_completion_callback_def overlay_completed_def OverlayCompleted Let_def)
qed

lemma forget_request_Cons:
  "forget_request cs r (w\<lparr>installers := forget_request [c] r w, ran := es\<rparr>) = forget_request (c # cs) r w"
  by (auto simp: fun_eq_iff forget_request_def option.map_comp comp_def)

lemma run_completions:
  "fold (run_completion_callback r p) cs w =
   w\<lparr>installers := forget_request cs r w, ran := ran w @ map (\<lambda>c. RanCompletion r c p) cs\<rparr>"
proof (induction cs arbitrary: w)
  case Nil
  then show ?case by (simp add: forget_request_def [abs_def])
next
  case (Cons c cs)
  have "fold (run_completion_callback r p) (c # cs) w =
      fold (run_completion_callback r p) cs (w\<lparr>installers := forget_request [c] r w, ran := ran w @ [RanCompletion r c p]\<rparr>)"
    unfolding fold_Cons comp_def run_completion ..
  then show ?case by (simp add: Cons.IH forget_request_Cons)
qed

lemma destroy_result:
  assumes "live_requests w r = Some q"
  shows "destroy_overlay_request w r = Some (w\<lparr>live_requests := (live_requests w)(r := None),
    installers := forget_request (completions_of q) r w,
    ran := ran w @ map (\<lambda>c. RanCompletion r c (completion_response (callback_manager_of q))) (completions_of q)\<rparr>)"
  using assms
  by (simp add: destroy_overlay_request_def execute_completion_callbacks_def Let_def run_completions with_request_def)

lemma forgotten:
  assumes "world_ok w" and "live_requests w r = Some q" and "forget_request (completions_of q) r w i = Some x"
  obtains y where "installers w i = Some y" "x = y\<lparr>installed_requests := installed_requests y - {r}\<rparr>"
proof (cases "OverlayCompleted i \<in> set (completions_of q)")
  case True
  then show ?thesis using assms(3) that by (auto simp: forget_request_def)
next
  case False
  then have x: "installers w i = Some x" using assms(3) by (simp add: forget_request_def)
  then have "r \<notin> installed_requests x" using assms(1,2) False by (auto simp: world_ok_def installer_ok_def)
  then have "x = x\<lparr>installed_requests := installed_requests x - {r}\<rparr>" by simp
  with x show ?thesis by (rule that)
qed

lemma world_ok_destroy:
  assumes "world_ok w" and "live_requests w r = Some q" and "destroy_overlay_request w r = Some w'"
  shows "world_ok w'"
proof -
  have "installer_ok w' i x" if "installers w' i = Some x" for i x
  proof -
    have "forget_request (completions_of q) r w i = Some x"
      using that assms(3) destroy_result [OF assms(2)] by auto
    then obtain y where y: "installers w i = Some y" "x = y\<lparr>installed_requests := installed_requests y - {r}\<rparr>"
      by (rule forgotten [OF assms(1,2)])
    then have "installer_ok w i y" using assms(1) by (simp add: world_ok_def)
    moreover have "live_requests w' = (live_requests w)(r := None)" "next_installer w' = next_installer w"
      using assms(3) destroy_result [OF assms(2)] by auto
    ultimately show ?thesis using y(2) by (simp add: installer_ok_def)
  qed
  then show ?thesis using assms(1,3) destroy_result [OF assms(2)] by (auto simp: world_ok_def split: if_splits)
qed

section \<open>The machine\<close>

lemma world_ok_create:
  "world_ok w \<Longrightarrow> live_requests w r = None \<Longrightarrow> world_ok (create_overlay_request w r d)"
  by (auto simp: world_ok_def installer_ok_def request_ok_def create_overlay_request_def new_callback_manager_def)

lemma world_ok_create_installer:
  assumes "world_ok w" and "support_ok s" and "list_all (\<lambda>c. support_ok (response_support c)) ds"
  shows "world_ok (create_installer w s cs ds)" (is "world_ok ?w")
proof -
  let ?n = "next_installer w"
  have q: "request_ok (Suc ?n) q" "OverlayCompleted ?n \<notin> set (completions_of q)"
    if "live_requests w r = Some q" for r q
  proof -
    have "request_ok ?n q" using assms(1) that by (simp add: world_ok_def)
    then show "request_ok (Suc ?n) q" "OverlayCompleted ?n \<notin> set (completions_of q)"
      by (auto simp: request_ok_def less_Suc_eq)
  qed
  have "installer_ok ?w i x" if "installers ?w i = Some x" for i x
  proof (cases "i = ?n")
    case True
    then have "x = \<lparr>installer_support = s, installed_requests = {}, internal_completions = cs, internal_dispatches = ds\<rparr>"
      using that by (simp add: create_installer_def)
    then show ?thesis using True q(2) assms(2,3) by (auto simp: installer_ok_def create_installer_def)
  next
    case False
    then have "installer_ok w i x" using that assms(1) by (simp add: world_ok_def create_installer_def)
    then show ?thesis by (simp add: installer_ok_def create_installer_def)
  qed
  then show ?thesis using q(1) by (simp add: world_ok_def) (simp add: create_installer_def)
qed

lemma world_ok_step:
  assumes "world_ok w" and "request_op_allowed w c" and "request_step w c = Some w'"
  shows "world_ok w'"
proof (cases c)
  case (CreateOverlayRequest r d)
  then show ?thesis using assms world_ok_create by auto
next
  case (DestroyOverlayRequest r)
  then show ?thesis using assms world_ok_destroy by auto
next
  case (SetCompletionResponse r x)
  then have "with_request w r (set_completion_response x) = Some w'" using assms(3) by simp
  then show ?thesis
    by (rule world_ok_with_request [OF assms(1)])
      (use request_okD [OF assms(1)]  in \<open>auto simp: request_ok_def set_completion_response_def\<close>)
next
  case (AddCompletionCallback r k)
  then have "with_request w r (add_completion_callback (Client k)) = Some w'" using assms(3) by simp
  then show ?thesis
    by (rule world_ok_with_request [OF assms(1)])
      (use request_okD [OF assms(1)]  in \<open>auto simp: request_ok_def add_completion_callback_def\<close>)
next
  case (AddDispatchCallback r d)
  then have "with_request w r (add_dispatch_callback d) = Some w'" using assms(3) by simp
  then show ?thesis
    by (rule world_ok_with_request [OF assms(1)])
      (use request_okD [OF assms(1)] assms(2) AddDispatchCallback in \<open>auto simp: request_ok_def add_dispatch_callback_def\<close>)
next
  case (DispatchResponse r x)
  then show ?thesis using assms
    by (auto simp: dispatch_response_def world_ok_def installer_ok_def split: option.splits bind_splits)
next
  case (CreateInstaller s cs ds)
  then show ?thesis using assms world_ok_create_installer by auto
next
  case (DestroyInstaller i)
  then show ?thesis using assms by (auto simp: destroy_installer_def world_ok_def installer_ok_def split: if_splits)
next
  case (InstallCallbacks i r)
  then show ?thesis using assms world_ok_install by auto
qed

lemma world_ok_progress:
  assumes "world_ok w" and "request_op_allowed w c"
  shows "\<exists>w'. request_step w c = Some w'"
proof (cases c)
  case (DestroyOverlayRequest r)
  then show ?thesis using assms destroy_result by auto
next
  case (DispatchResponse r x)
  then show ?thesis
    using assms run_dispatch_callbacks_eq by (auto simp: dispatch_response_def world_ok_def request_ok_def)
next
  case (InstallCallbacks i r)
  then obtain x q where "installers w i = Some x" "live_requests w r = Some q" using assms(2) by auto
  then show ?thesis
    using InstallCallbacks assms(1) install_callbacks_result by (auto simp: world_ok_def installer_ok_def)
qed (use assms in \<open>auto simp: with_request_def\<close>)

interpretation request_machine: total_machine request_step request_op_allowed world_ok
  by unfold_locales (auto intro: world_ok_step world_ok_progress)

lemma reached_ok: "legal request_step request_op_allowed empty_request_world cs w \<Longrightarrow> world_ok w"
  by (rule request_machine.legal_inv [OF _ world_ok_empty])

section \<open>Properties\<close>

text \<open>
  An installer knows a request exactly while its completion callback is pending on the
  request, also when the address of a destroyed request is used again. So installing callbacks on
  a request it supports adds its callbacks behind those there are if they are not there yet, and
  once: installing them again changes nothing.
\<close>

theorem callbacks_installed_once:
  assumes "legal request_step request_op_allowed empty_request_world cs w"
    and "installers w i = Some x" and "live_requests w r = Some q"
    and "wants (installer_support x) (request_data q)"
  shows "(r \<in> installed_requests x \<longleftrightarrow> OverlayCompleted i \<in> set (completions_of q)) \<and>
    (\<exists>w' q'. install_callbacks w i r = Some w' \<and> live_requests w' r = Some q' \<and>
       count_list (completions_of q') (OverlayCompleted i) = 1 \<and>
       (if OverlayCompleted i \<in> set (completions_of q) then w' = w
        else completions_of q' = completions_of q @ OverlayCompleted i # map Client (internal_completions x) \<and>
             dispatches_of q' = dispatches_of q @ internal_dispatches x) \<and>
       install_callbacks w' i r = Some w')"
proof -
  have ok: "installer_ok w i x" "request_ok (next_installer w) q"
    using reached_ok [OF assms(1)] assms(2,3) by (simp_all add: world_ok_def)
  then have s: "support_ok (installer_support x)" by (simp add: installer_ok_def)
  have known: "r \<in> installed_requests x \<longleftrightarrow> OverlayCompleted i \<in> set (completions_of q)"
    using ok(1) assms(3) by (simp add: installer_ok_def)
  have one: "OverlayCompleted i \<in> set (completions_of q) \<Longrightarrow>
      count_list (completions_of q) (OverlayCompleted i) = Suc 0"
  proof -
    assume "OverlayCompleted i \<in> set (completions_of q)"
    then have "count_list (completions_of q) (OverlayCompleted i) \<noteq> 0" by (simp add: count_list_0_iff)
    moreover have "count_list (completions_of q) (OverlayCompleted i) \<le> 1" using ok(2) by (simp add: request_ok_def)
    ultimately show ?thesis by simp
  qed
  note result = install_callbacks_result [OF assms(2,3) s]
  show ?thesis
  proof (cases "OverlayCompleted i \<in> set (completions_of q)")
    case True
    then show ?thesis using result known one assms(3,4) by simp
  next
    case False
    define x' where "x' = x\<lparr>installed_requests := insert r (installed_requests x)\<rparr>"
    define q' where "q' = q\<lparr>callback_manager_of :=
      install_callbacks_internal x (add_completion_callback (OverlayCompleted i) (callback_manager_of q))\<rparr>"
    define w' where "w' = w\<lparr>installers := (installers w)(i \<mapsto> x'), live_requests := (live_requests w)(r \<mapsto> q')\<rparr>"
    have w': "install_callbacks w i r = Some w'"
      using result assms(4) False known by (simp add: w'_def x'_def q'_def)
    have again: "install_callbacks w' i r = Some w'"
      using install_callbacks_result [of w' i x' r q'] s by (simp add: w'_def x'_def)
    have cs: "completions_of q' = completions_of q @ OverlayCompleted i # map Client (internal_completions x)"
      and ds: "dispatches_of q' = dispatches_of q @ internal_dispatches x"
      by (simp_all add: q'_def internal_manager add_completion_callback_def)
    have count: "count_list (completions_of q') (OverlayCompleted i) = 1"
      using False by (simp add: cs count_list_0_iff)
    have "live_requests w' r = Some q'" by (simp add: w'_def)
    with w' again cs ds count False known show ?thesis by auto
  qed
qed

text \<open>
  Destroying a request fails no check, runs each of its completion callbacks once, in the
  order they were added and with the completion response set last, and leaves no installer that
  would take a new request at its address for the old one.
\<close>

theorem completion_callbacks_run_once:
  assumes "legal request_step request_op_allowed empty_request_world cs w" and "live_requests w r = Some q"
  shows "\<exists>w'. destroy_overlay_request w r = Some w' \<and> live_requests w' = (live_requests w)(r := None) \<and>
    ran w' = ran w @ map (\<lambda>c. RanCompletion r c (completion_response (callback_manager_of q))) (completions_of q) \<and>
    (\<forall>i x. installers w' i = Some x \<longrightarrow> r \<notin> installed_requests x)"
proof -
  let ?w = "w\<lparr>live_requests := (live_requests w)(r := None), installers := forget_request (completions_of q) r w,
    ran := ran w @ map (\<lambda>c. RanCompletion r c (completion_response (callback_manager_of q))) (completions_of q)\<rparr>"
  have "r \<notin> installed_requests x" if "installers ?w i = Some x" for i x
    using that by (auto elim: forgotten [OF reached_ok [OF assms(1)] assms(2)])
  then show ?thesis by (intro exI [of _ ?w] conjI destroy_result [OF assms(2)]) auto
qed

text \<open>
  A dispatched response reaches exactly the dispatch callbacks of the request whose
  support takes its data, in the order they were added, and changes nothing else.
\<close>

theorem dispatch_reaches_supporting_callbacks:
  assumes "legal request_step request_op_allowed empty_request_world cs w" and "live_requests w r = Some q"
  shows "dispatch_response w r x = Some (w\<lparr>ran := ran w @ map (\<lambda>c. RanDispatch r (dispatch_target c) x)
    (filter (\<lambda>c. wants (response_support c) (response_data x)) (dispatches_of q))\<rparr>)"
  using reached_ok [OF assms(1)] assms(2) run_dispatch_callbacks_eq
  by (simp add: dispatch_response_def world_ok_def request_ok_def)

section \<open>A concrete history\<close>

text \<open>
  An installer that takes requests with the data 5 adds the completion callback 9 and a dispatch
  callback for responses with the data 6. A request at the address 3 is given its callbacks,
  destroyed, and another one is made at the same address.
\<close>

definition reuse_history :: "request_op list" where
  "reuse_history = [CreateInstaller (Aggregated [Disabled, Supports 5]) [9]
       [\<lparr>dispatch_target = 1, response_support = Supports 6\<rparr>],
     CreateOverlayRequest 3 [5], InstallCallbacks 0 3, DestroyOverlayRequest 3, CreateOverlayRequest 3 [5]]"

abbreviation run_requests :: "request_op list \<Rightarrow> request_world option" where
  "run_requests cs \<equiv> run_checked request_step request_op_allowed empty_request_world (reuse_history @ cs)"

theorem callbacks_installed_once_witness:
  "\<exists>w w'. run request_step empty_request_world reuse_history = Some w \<and> install_callbacks w 0 3 = Some w' \<and>
    w' \<noteq> w \<and> install_callbacks w' 0 3 = Some w'"
proof -
  have "case run_requests [] of None \<Rightarrow> False | Some w \<Rightarrow>
      (case installers w 0 of None \<Rightarrow> False | Some x \<Rightarrow> case live_requests w 3 of None \<Rightarrow> False | Some q \<Rightarrow>
         wants (installer_support x) (request_data q) \<and> completions_of q = [])"
    by code_simp
  then obtain w where w: "legal request_step request_op_allowed empty_request_world (reuse_history @ []) w"
    "case installers w 0 of None \<Rightarrow> False | Some x \<Rightarrow> case live_requests w 3 of None \<Rightarrow> False | Some q \<Rightarrow>
         wants (installer_support x) (request_data q) \<and> completions_of q = []"
    by (rule run_checked_witness)
  then obtain x q where x: "installers w 0 = Some x" "live_requests w 3 = Some q"
    "wants (installer_support x) (request_data q)" "completions_of q = []"
    by (auto split: option.splits)
  obtain w' q' where w': "install_callbacks w 0 3 = Some w'" "live_requests w' 3 = Some q'"
    "completions_of q' = OverlayCompleted 0 # map Client (internal_completions x)" "install_callbacks w' 0 3 = Some w'"
    using callbacks_installed_once [OF w(1) x(1-3)] x(4) by auto
  have "w' \<noteq> w" using x(2,4) w'(2,3) by auto
  with w'(1,4) legal_run [OF w(1)] show ?thesis by auto
qed

theorem completion_callbacks_run_once_witness:
  "\<exists>w w'. run request_step empty_request_world (reuse_history @ [InstallCallbacks 0 3]) = Some w \<and>
    destroy_overlay_request w 3 = Some w' \<and>
    ran w' = ran w @ [RanCompletion 3 (OverlayCompleted 0) None, RanCompletion 3 (Client 9) None]"
proof -
  have "case run_requests [InstallCallbacks 0 3] of None \<Rightarrow> False | Some w \<Rightarrow>
      (case live_requests w 3 of None \<Rightarrow> False | Some q \<Rightarrow>
         completions_of q = [OverlayCompleted 0, Client 9] \<and> completion_response (callback_manager_of q) = None)"
    by code_simp
  then obtain w where w: "legal request_step request_op_allowed empty_request_world (reuse_history @ [InstallCallbacks 0 3]) w"
    "case live_requests w 3 of None \<Rightarrow> False | Some q \<Rightarrow>
         completions_of q = [OverlayCompleted 0, Client 9] \<and> completion_response (callback_manager_of q) = None"
    by (rule run_checked_witness)
  then obtain q where "live_requests w 3 = Some q" "completions_of q = [OverlayCompleted 0, Client 9]"
    "completion_response (callback_manager_of q) = None"
    by (auto split: option.splits)
  with completion_callbacks_run_once [OF w(1)] legal_run [OF w(1)] show ?thesis by fastforce
qed

theorem dispatch_reaches_supporting_callbacks_witness:
  "\<exists>w. run request_step empty_request_world (reuse_history @ [InstallCallbacks 0 3]) = Some w \<and>
    dispatch_response w 3 \<lparr>response_id = 0, response_data = [6]\<rparr> =
      Some (w\<lparr>ran := ran w @ [RanDispatch 3 1 \<lparr>response_id = 0, response_data = [6]\<rparr>]\<rparr>)"
proof -
  have "case run_requests [InstallCallbacks 0 3] of None \<Rightarrow> False | Some w \<Rightarrow>
      (case live_requests w 3 of None \<Rightarrow> False | Some q \<Rightarrow>
         dispatches_of q = [\<lparr>dispatch_target = 1, response_support = Supports 6\<rparr>])"
    by code_simp
  then obtain w where w: "legal request_step request_op_allowed empty_request_world (reuse_history @ [InstallCallbacks 0 3]) w"
    "case live_requests w 3 of None \<Rightarrow> False | Some q \<Rightarrow>
         dispatches_of q = [\<lparr>dispatch_target = 1, response_support = Supports 6\<rparr>]"
    by (rule run_checked_witness)
  then obtain q where q: "live_requests w 3 = Some q"
    "dispatches_of q = [\<lparr>dispatch_target = 1, response_support = Supports 6\<rparr>]"
    by (auto split: option.splits)
  from dispatch_reaches_supporting_callbacks [OF w(1) q(1), of "\<lparr>response_id = 0, response_data = [6]\<rparr>"] q(2)
  show ?thesis using legal_run [OF w(1)] by simp
qed

end
