(* ===== verification/FindInPage.thy ===== *)
theory FindInPage
  imports Prelude "HOL-Library.AList"
begin

text \<open>
  Searching the text of a page, \<open>web/find_in_page\<close>: \<open>find_in_page_request.mm\<close>, the matches of a
  search frame by frame and the selected one among them, and \<open>find_in_page_manager_impl.mm\<close>, which
  calls JavaScript in every frame, collects the answers, and reports to its delegate.

  The frames are those of the web frames manager (\<open>js_messaging/web_frames_manager_impl.mm\<close>), by
  their ids, which are never empty and are distinct. \<open>CallJavaScriptFunction\<close> of
  \<open>js_messaging/web_frame_impl.mm\<close> may refuse; otherwise it answers once, later, with a value or
  with null (the call timed out, or the frame is gone). The calls that are not answered yet are
  \<open>in_flight\<close>, in any order of answers. \<open>operator[]\<close> of \<open>frame_match_count_\<close> inserts a zero for an
  id that is absent; the ids it is used with are present (\<open>find_ok\<close> in \<open>FindInPageFacts\<close>), so it
  only reads. Match counts are integers without a bound: their sum is far from the limits of an
  \<open>int\<close>. A check that fails, an iterator at the end that is dereferenced, and a loop that does not end
  are \<^const>\<open>None\<close>. The ghost field \<open>completed\<close> lists for which request ids
  \<open>LastFindRequestCompleted\<close> has run.
\<close>

section \<open>The request\<close>

type_synonym frame_id = string

text \<open>\<open>selected_frame\<close> is the iterator into \<open>frame_order\<close>, \<^const>\<open>None\<close> at its end.\<close>

record find_request =
  unique_id :: int
  query :: "string option"
  pending_frame_call_count :: int
  frame_match_count :: "(frame_id \<times> int) list"
  frame_order :: "frame_id list"
  selected_frame :: "frame_id option"
  selected_match :: int

definition new_find_request :: find_request where
  "new_find_request = \<lparr>unique_id = 0, query = None, pending_frame_call_count = 0,
     frame_match_count = [], frame_order = [], selected_frame = None, selected_match = -1\<rparr>"

definition reset_request :: "string option \<Rightarrow> int \<Rightarrow> find_request \<Rightarrow> find_request" where
  "reset_request q n r = r\<lparr>unique_id := unique_id r + 1, selected_frame := None, selected_match := -1,
     query := q, pending_frame_call_count := n,
     frame_match_count := map (\<lambda>(f, _). (f, 0)) (frame_match_count r)\<rparr>"

definition get_total_match_count :: "find_request \<Rightarrow> int" where
  "get_total_match_count r = sum_list (map snd (frame_match_count r))"

definition count_of :: "find_request \<Rightarrow> frame_id \<Rightarrow> int" where
  "count_of r f = (case map_of (frame_match_count r) f of None \<Rightarrow> 0 | Some n \<Rightarrow> n)"

definition go_to_first_match :: "find_request \<Rightarrow> find_request \<times> bool" where
  "go_to_first_match r = (case find (\<lambda>f. count_of r f > 0) (frame_order r) of
     None \<Rightarrow> (r, False)
   | Some f \<Rightarrow> (r\<lparr>selected_frame := Some f, selected_match := 0\<rparr>, True))"

text \<open>
  One turn of the loops: the frame after \<open>f\<close>, and the first one after the last. For the previous
  frame the order is reversed.
\<close>

definition next_frame :: "frame_id list \<Rightarrow> frame_id \<Rightarrow> frame_id" where
  "next_frame order f = (case tl (dropWhile (\<lambda>g. g \<noteq> f) order) of [] \<Rightarrow> hd order | g # _ \<Rightarrow> g)"

text \<open>The \<open>do\<close> loops, which skip the frames without matches.\<close>

partial_function (option) skip_empty_frames ::
    "(frame_id \<Rightarrow> frame_id) \<Rightarrow> (frame_id \<Rightarrow> int) \<Rightarrow> frame_id \<Rightarrow> frame_id option" where
  "skip_empty_frames step count f =
     (let g = step f in if count g = 0 then skip_empty_frames step count g else Some g)"

declare skip_empty_frames.simps [code]

definition iterator_or_begin :: "find_request \<Rightarrow> frame_id option" where
  "iterator_or_begin r = (case selected_frame r of
     None \<Rightarrow> (case frame_order r of [] \<Rightarrow> None | f # _ \<Rightarrow> Some f)
   | Some f \<Rightarrow> Some f)"

definition go_to_next_match :: "find_request \<Rightarrow> (find_request \<times> bool) option" where
  "go_to_next_match r =
     (if get_total_match_count r = 0 then Some (r, False)
      else do {
        f \<leftarrow> iterator_or_begin r;
        if selected_match r + 1 < count_of r f
        then Some (r\<lparr>selected_frame := Some f, selected_match := selected_match r + 1\<rparr>, True)
        else do {
          g \<leftarrow> skip_empty_frames (next_frame (frame_order r)) (count_of r) f;
          Some (r\<lparr>selected_frame := Some g, selected_match := 0\<rparr>, True)
        }
      })"

definition go_to_previous_match :: "find_request \<Rightarrow> (find_request \<times> bool) option" where
  "go_to_previous_match r =
     (if get_total_match_count r = 0 then Some (r, False)
      else do {
        f \<leftarrow> iterator_or_begin r;
        if selected_match r - 1 \<ge> 0
        then Some (r\<lparr>selected_frame := Some f, selected_match := selected_match r - 1\<rparr>, True)
        else do {
          g \<leftarrow> skip_empty_frames (next_frame (rev (frame_order r))) (count_of r) f;
          Some (r\<lparr>selected_frame := Some g, selected_match := count_of r g - 1\<rparr>, True)
        }
      })"

definition get_match_count_for_frame :: "frame_id \<Rightarrow> find_request \<Rightarrow> int" where
  "get_match_count_for_frame f r = (case map_of (frame_match_count r) f of None \<Rightarrow> -1 | Some n \<Rightarrow> n)"

definition set_match_count_for_frame :: "int \<Rightarrow> frame_id \<Rightarrow> find_request \<Rightarrow> find_request" where
  "set_match_count_for_frame n f r = r\<lparr>frame_match_count := AList.update f n (frame_match_count r)\<rparr>"

definition get_match_count_for_selected_frame :: "find_request \<Rightarrow> int" where
  "get_match_count_for_selected_frame r =
     (case selected_frame r of None \<Rightarrow> -1 | Some f \<Rightarrow> count_of r f)"

definition set_match_count_for_selected_frame :: "int \<Rightarrow> find_request \<Rightarrow> find_request" where
  "set_match_count_for_selected_frame n r =
     (case selected_frame r of None \<Rightarrow> r | Some f \<Rightarrow> set_match_count_for_frame n f r)"

definition get_current_selected_match_page_index :: "find_request \<Rightarrow> int" where
  "get_current_selected_match_page_index r =
     (if selected_match r = -1 then -1
      else selected_match r + sum_list (map (count_of r)
        (case selected_frame r of None \<Rightarrow> frame_order r
         | Some f \<Rightarrow> takeWhile (\<lambda>g. g \<noteq> f) (frame_order r))))"

definition remove_frame :: "frame_id \<Rightarrow> find_request \<Rightarrow> find_request" where
  "remove_frame f r =
     (let r1 = (if selected_frame r = Some f then r\<lparr>selected_frame := None, selected_match := -1\<rparr> else r)
      in r1\<lparr>frame_order := removeAll f (frame_order r1),
            frame_match_count := AList.delete f (frame_match_count r1)\<rparr>)"

definition add_frame :: "frame_id \<Rightarrow> bool \<Rightarrow> find_request \<Rightarrow> find_request" where
  "add_frame f is_main r =
     (let r1 = set_match_count_for_frame 0 f r
      in r1\<lparr>frame_order := (if is_main then f # frame_order r1 else frame_order r1 @ [f])\<rparr>)"

definition did_receive_find_response_from_one_frame :: "find_request \<Rightarrow> find_request" where
  "did_receive_find_response_from_one_frame r =
     r\<lparr>pending_frame_call_count := pending_frame_call_count r - 1\<rparr>"

definition are_all_find_responses_returned :: "find_request \<Rightarrow> bool" where
  "are_all_find_responses_returned r = (pending_frame_call_count r = 0)"

section \<open>The manager\<close>

text \<open>
  A call of the search function or of its continuation answers to \<open>ProcessFindInPageResult\<close> with
  the frame and the id of the request, a selection to \<open>SelectDidFinish\<close>.
\<close>

datatype js_call = FindCall frame_id int | SelectCall frame_id

datatype js_result =
    Null
  | Number int
  | Dictionary "int option" "int option" "string option"
  | OtherValue

datatype find_report =
    DidHighlightMatches int "string option"
  | DidSelectMatch int string

record find_manager =
  last_find_request :: find_request
  delegate_set :: bool
  web_state_alive :: bool
  web_frames :: "frame_id list"
  in_flight :: "js_call list"
  posted_completions :: nat
  reports :: "find_report list"
  completed :: "int list"

definition new_find_manager :: "bool \<Rightarrow> find_manager" where
  "new_find_manager delegate = \<lparr>last_find_request = new_find_request, delegate_set = delegate,
     web_state_alive = True, web_frames = [], in_flight = [], posted_completions = 0,
     reports = [], completed = []\<rparr>"

definition report :: "find_report \<Rightarrow> find_manager \<Rightarrow> find_manager" where
  "report e m = (if delegate_set m then m\<lparr>reports := reports m @ [e]\<rparr> else m)"

definition report_matches :: "find_manager \<Rightarrow> find_manager" where
  "report_matches m = report (DidHighlightMatches (get_total_match_count (last_find_request m))
     (query (last_find_request m))) m"

text \<open>\<open>SelectCurrentMatch\<close>; \<open>refusing\<close>, here and below, are the frames that refuse a call.\<close>

definition select_current_match :: "frame_id list \<Rightarrow> find_manager \<Rightarrow> find_manager" where
  "select_current_match refusing m =
     (case selected_frame (last_find_request m) of
        None \<Rightarrow> m
      | Some f \<Rightarrow> if f \<in> set (web_frames m) \<and> f \<notin> set refusing
                  then m\<lparr>in_flight := in_flight m @ [SelectCall f]\<rparr> else m)"

definition last_find_request_completed :: "frame_id list \<Rightarrow> find_manager \<Rightarrow> find_manager" where
  "last_find_request_completed refusing m =
     (let m1 = report_matches (m\<lparr>completed := completed m @ [unique_id (last_find_request m)]\<rparr>)
      in if get_total_match_count (last_find_request m1) = 0 then m1
         else let (r, selected) = go_to_first_match (last_find_request m1);
                  m2 = m1\<lparr>last_find_request := r\<rparr>
              in if selected then select_current_match refusing m2 else m2)"

text \<open>The loop of \<open>StartSearch\<close> over the frames.\<close>

fun search_frames :: "frame_id list \<Rightarrow> frame_id list \<Rightarrow> find_manager \<Rightarrow> find_manager" where
  "search_frames refusing [] m = m"
| "search_frames refusing (f # fs) m =
     (if f \<in> set refusing
      then let r = did_receive_find_response_from_one_frame (last_find_request m);
               m1 = m\<lparr>last_find_request := r\<rparr>;
               m2 = (if are_all_find_responses_returned r
                     then m1\<lparr>posted_completions := Suc (posted_completions m1)\<rparr> else m1)
           in search_frames refusing fs m2
      else search_frames refusing fs
             (m\<lparr>in_flight := in_flight m @ [FindCall f (unique_id (last_find_request m))]\<rparr>))"

definition start_search :: "string \<Rightarrow> frame_id list \<Rightarrow> find_manager \<Rightarrow> find_manager" where
  "start_search q refusing m =
     (let m1 = m\<lparr>last_find_request :=
            reset_request (Some q) (int (length (web_frames m))) (last_find_request m)\<rparr>
      in if web_frames m = []
         then m1\<lparr>posted_completions := Suc (posted_completions m1)\<rparr>
         else search_frames refusing (web_frames m) m1)"

definition select_next_match :: "frame_id list \<Rightarrow> find_manager \<Rightarrow> find_manager option" where
  "select_next_match refusing m = do {
     (r, selected) \<leftarrow> go_to_next_match (last_find_request m);
     let m1 = m\<lparr>last_find_request := r\<rparr>;
     Some (if selected then select_current_match refusing m1 else m1)
   }"

definition select_previous_match :: "frame_id list \<Rightarrow> find_manager \<Rightarrow> find_manager option" where
  "select_previous_match refusing m = do {
     (r, selected) \<leftarrow> go_to_previous_match (last_find_request m);
     let m1 = m\<lparr>last_find_request := r\<rparr>;
     Some (if selected then select_current_match refusing m1 else m1)
   }"

datatype find_options = FindInPageSearch | FindInPageNext | FindInPagePrevious

text \<open>
  \<open>Find\<close>: \<open>content_is_html\<close> is the answer of the web state.
\<close>

definition find_in_page ::
    "bool \<Rightarrow> string option \<Rightarrow> find_options \<Rightarrow> frame_id list \<Rightarrow> find_manager \<Rightarrow> find_manager option" where
  "find_in_page content_is_html q options refusing m = do {
     dcheck content_is_html;
     case options of
       FindInPageSearch \<Rightarrow> do { dcheck (q \<noteq> None); Some (start_search (the q) refusing m) }
     | FindInPageNext \<Rightarrow> select_next_match refusing m
     | FindInPagePrevious \<Rightarrow> select_previous_match refusing m
   }"

definition stop_finding :: "find_manager \<Rightarrow> find_manager" where
  "stop_finding m = report_matches (m\<lparr>last_find_request := reset_request None 0 (last_find_request m)\<rparr>)"

text \<open>\<open>ProcessFindInPageResult\<close>.\<close>

definition kFindInPagePending :: int where "kFindInPagePending = -1"

definition process_find_in_page_result ::
    "frame_id list \<Rightarrow> frame_id \<Rightarrow> int \<Rightarrow> js_result \<Rightarrow> find_manager \<Rightarrow> find_manager" where
  "process_find_in_page_result refusing f u result m =
     (if u \<noteq> unique_id (last_find_request m) then m
      else if \<not> web_state_alive m then m
      else let gone = (result = Null \<or> f \<notin> set (web_frames m));
               match_count = (case result of Number n \<Rightarrow> n | _ \<Rightarrow> 0)
           in if \<not> gone \<and> match_count = kFindInPagePending
              then if f \<in> set refusing then m else m\<lparr>in_flight := in_flight m @ [FindCall f u]\<rparr>
              else let r = did_receive_find_response_from_one_frame (set_match_count_for_frame
                             (if gone then 0 else match_count) f (last_find_request m));
                       m1 = m\<lparr>last_find_request := r\<rparr>
                   in if are_all_find_responses_returned r then last_find_request_completed refusing m1 else m1)"

definition select_did_finish :: "js_result \<Rightarrow> find_manager \<Rightarrow> find_manager" where
  "select_did_finish result m =
     (let (matches, index, context_string) =
            (case result of Dictionary x y z \<Rightarrow> (x, y, z) | _ \<Rightarrow> (None, None, None));
          m1 = (case matches of
                  None \<Rightarrow> m
                | Some n \<Rightarrow>
                    if n \<noteq> get_match_count_for_selected_frame (last_find_request m)
                    then report_matches (m\<lparr>last_find_request :=
                           set_match_count_for_selected_frame n (last_find_request m)\<rparr>)
                    else m);
          m2 = (case index of
                  None \<Rightarrow> m1
                | Some i \<Rightarrow> m1\<lparr>last_find_request := (last_find_request m1)\<lparr>selected_match := i\<rparr>\<rparr>)
      in report (DidSelectMatch (get_current_selected_match_page_index (last_find_request m2))
           (case context_string of None \<Rightarrow> [] | Some s \<Rightarrow> s)) m2)"

definition answer_call :: "frame_id list \<Rightarrow> js_call \<Rightarrow> js_result \<Rightarrow> find_manager \<Rightarrow> find_manager" where
  "answer_call refusing c result m =
     (case c of FindCall f u \<Rightarrow> process_find_in_page_result refusing f u result m
      | SelectCall f \<Rightarrow> select_did_finish result m)"

section \<open>Frames\<close>

definition web_frame_did_become_available :: "frame_id \<Rightarrow> bool \<Rightarrow> find_manager \<Rightarrow> find_manager" where
  "web_frame_did_become_available f is_main m =
     m\<lparr>last_find_request := add_frame f is_main (last_find_request m), web_frames := web_frames m @ [f]\<rparr>"

definition web_frame_will_become_unavailable :: "frame_id \<Rightarrow> find_manager \<Rightarrow> find_manager" where
  "web_frame_will_become_unavailable f m =
     (let n = get_match_count_for_frame f (last_find_request m);
          m1 = m\<lparr>last_find_request := remove_frame f (last_find_request m)\<rparr>
      in if query (last_find_request m1) \<noteq> None \<and> n > 0 then report_matches m1 else m1)"

fun call_frame :: "js_call \<Rightarrow> frame_id" where
  "call_frame (FindCall f u) = f"
| "call_frame (SelectCall f) = f"

text \<open>
  \<open>RemoveFrameWithId\<close>: the observers are told, the frame leaves the frames, and its destructor
  answers its calls with null (\<open>CancelPendingRequests\<close>).
\<close>

definition remove_frame_with_id :: "frame_id \<Rightarrow> find_manager \<Rightarrow> find_manager" where
  "remove_frame_with_id f m =
     (if f \<notin> set (web_frames m) then m
      else let m1 = web_frame_will_become_unavailable f m;
               m2 = m1\<lparr>web_frames := removeAll f (web_frames m1),
                       in_flight := filter (\<lambda>c. call_frame c \<noteq> f) (in_flight m1)\<rparr>
           in fold (\<lambda>c. answer_call [] c Null) (filter (\<lambda>c. call_frame c = f) (in_flight m1)) m2)"

text \<open>
  \<open>WebStateDestroyed\<close>: the manager observes the web state from before there are frames, so it is
  told first; the frames then cancel their calls, and the manager goes with the user data.
\<close>

definition find_web_state_destroyed :: "find_manager \<Rightarrow> find_manager" where
  "find_web_state_destroyed m =
     (let m1 = m\<lparr>web_state_alive := False, in_flight := []\<rparr>
      in (fold (\<lambda>c. answer_call [] c Null) (in_flight m) m1)\<lparr>posted_completions := 0\<rparr>)"

section \<open>The operations\<close>

datatype find_op =
    Find "string option" find_options "frame_id list"
  | StopFinding
  | AnswerCall nat js_result "frame_id list"
  | RunPostedCompletion "frame_id list"
  | FrameAvailable frame_id bool
  | FrameUnavailable frame_id
  | WebStateGone

fun find_step :: "find_manager \<Rightarrow> find_op \<Rightarrow> find_manager option" where
  "find_step m (Find q options refusing) = find_in_page True q options refusing m"
| "find_step m StopFinding = Some (stop_finding m)"
| "find_step m (AnswerCall k result refusing) =
     (if k < length (in_flight m)
      then Some (answer_call refusing (in_flight m ! k) result (m\<lparr>in_flight := take k (in_flight m) @ drop (Suc k) (in_flight m)\<rparr>))
      else None)"
| "find_step m (RunPostedCompletion refusing) =
     (case posted_completions m of
        0 \<Rightarrow> None
      | Suc n \<Rightarrow> Some (last_find_request_completed refusing (m\<lparr>posted_completions := n\<rparr>)))"
| "find_step m (FrameAvailable f is_main) = Some (web_frame_did_become_available f is_main m)"
| "find_step m (FrameUnavailable f) = Some (remove_frame_with_id f m)"
| "find_step m WebStateGone = Some (find_web_state_destroyed m)"

end
