(* ===== verification/FindInPageFacts.thy ===== *)
theory FindInPageFacts
  imports FindInPage
begin

text \<open>
  The request of a search as a cursor in the list of all matches of the page, and the manager as
  a machine: searching never hangs, the answers of the frames complete a search, and what goes
  wrong when answers come late.
\<close>

section \<open>Walking through the frames\<close>

lemma up_to_first:
  assumes "f \<notin> set pre"
  shows "dropWhile (\<lambda>g. g \<noteq> f) (pre @ f # post) = f # post" "takeWhile (\<lambda>g. g \<noteq> f) (pre @ f # post) = pre"
  using assms by (induction pre) auto

lemma next_frame_after: "f \<notin> set pre \<Longrightarrow> next_frame (pre @ f # g # post) f = g"
  by (simp add: next_frame_def up_to_first)

lemma next_frame_last: "f \<notin> set pre \<Longrightarrow> next_frame (pre @ [f]) f = hd (pre @ [f])"
  by (simp add: next_frame_def up_to_first)

lemma skip_Some: "count (step f) \<noteq> 0 \<Longrightarrow> skip_empty_frames step count f = Some (step f)"
  by (simp add: skip_empty_frames.simps Let_def)

lemma skip_more: "count (step f) = 0 \<Longrightarrow> skip_empty_frames step count f = skip_empty_frames step count (step f)"
  by (subst skip_empty_frames.simps) (simp add: Let_def)

lemma skip_ahead:
  assumes "distinct order" and "order = pre @ f # z @ g # post" and "\<forall>x \<in> set z. count x = 0" and "count g \<noteq> 0"
  shows "skip_empty_frames (next_frame order) count f = Some g"
  using assms
proof (induction z arbitrary: pre f)
  case Nil
  then show ?case using next_frame_after [of f pre g post] by (simp add: skip_Some)
next
  case (Cons a z)
  then have "next_frame order f = a" using next_frame_after [of f pre a "z @ g # post"] by simp
  moreover have "skip_empty_frames (next_frame order) count a = Some g"
    using Cons.prems by (intro Cons.IH [of "pre @ [f]"]) simp_all
  ultimately show ?case using Cons.prems(3) by (simp add: skip_more)
qed

lemma skip_around:
  assumes "distinct order" and "order = pre @ f # post" and "\<forall>x \<in> set post. count x = 0"
    and "order = z @ g # w" and "\<forall>x \<in> set z. count x = 0" and "count g \<noteq> 0"
  shows "skip_empty_frames (next_frame order) count f = Some g"
  using assms(1-3)
proof (induction post arbitrary: pre f)
  case Nil
  then have n: "next_frame order f = hd order" using next_frame_last [of f pre] by simp
  show ?case
  proof (cases z)
    case Nil
    then show ?thesis using n assms(4,6) by (simp add: skip_Some)
  next
    case (Cons h z')
    then have "skip_empty_frames (next_frame order) count h = Some g"
      using assms by (intro skip_ahead [of order "[]" h z' g w]) auto
    then show ?thesis using n assms(4,5) Cons by (simp add: skip_more)
  qed
next
  case (Cons a post)
  then have "next_frame order f = a" using next_frame_after [of f pre a post] by simp
  moreover have "skip_empty_frames (next_frame order) count a = Some g"
    using Cons.prems by (intro Cons.IH [of "pre @ [f]"]) simp_all
  ultimately show ?case using Cons.prems(3) by (simp add: skip_more)
qed

text \<open>The first and the last frame with matches.\<close>

lemma skip_found:
  assumes "distinct order" and "f \<in> set order" and "\<exists>g \<in> set order. count g \<noteq> 0"
  shows "\<exists>g \<in> set order. count g \<noteq> 0 \<and> skip_empty_frames (next_frame order) count f = Some g"
proof -
  obtain pre post where o: "order = pre @ f # post" using assms(2) by (meson split_list)
  show ?thesis
  proof (cases "\<exists>g \<in> set post. count g \<noteq> 0")
    case True
    then obtain z g w where "post = z @ g # w" "count g \<noteq> 0" "\<forall>x \<in> set z. \<not> count x \<noteq> 0"
      using split_list_first_prop [of post "\<lambda>g. count g \<noteq> 0"] by blast
    then show ?thesis using skip_ahead [OF assms(1), of pre f z g w count] o by (intro bexI [of _ g]) auto
  next
    case False
    obtain z g w where "order = z @ g # w" "count g \<noteq> 0" "\<forall>x \<in> set z. \<not> count x \<noteq> 0"
      using assms(3) split_list_first_prop [of order "\<lambda>g. count g \<noteq> 0"] by blast
    then show ?thesis using skip_around [OF assms(1) o, of count z g w] False by (intro bexI [of _ g]) auto
  qed
qed

section \<open>Requests\<close>

definition request_ok :: "find_request \<Rightarrow> bool" where
  "request_ok r \<longleftrightarrow> distinct (frame_order r) \<and> distinct (map fst (frame_match_count r)) \<and>
     set (frame_order r) \<subseteq> fst ` set (frame_match_count r) \<and>
     (\<forall>(f, n) \<in> set (frame_match_count r). 0 \<le> n \<and> (f \<notin> set (frame_order r) \<longrightarrow> n = 0)) \<and>
     (\<forall>f. selected_frame r = Some f \<longrightarrow> f \<in> set (frame_order r))"

text \<open>The selected match is one of the matches of its frame.\<close>

definition selection_valid :: "find_request \<Rightarrow> bool" where
  "selection_valid r = (case selected_frame r of None \<Rightarrow> False
     | Some f \<Rightarrow> 0 \<le> selected_match r \<and> selected_match r < count_of r f)"

definition nothing_selected :: "find_request \<Rightarrow> bool" where
  "nothing_selected r = (selected_frame r = None \<and> selected_match r = -1)"

lemma count_of_nonneg: "request_ok r \<Longrightarrow> 0 \<le> count_of r f"
  by (auto simp: request_ok_def count_of_def split: option.splits dest!: map_of_SomeD)

lemma count_of_outside: "request_ok r \<Longrightarrow> f \<notin> set (frame_order r) \<Longrightarrow> count_of r f = 0"
  by (auto simp: request_ok_def count_of_def split: option.splits dest!: map_of_SomeD)

lemma total_eq:
  assumes "request_ok r"
  shows "get_total_match_count r = sum_list (map (count_of r) (frame_order r))"
proof -
  let ?c = "frame_match_count r"
  have d: "distinct (map fst ?c)" "distinct (frame_order r)" "set (frame_order r) \<subseteq> set (map fst ?c)"
    using assms by (simp_all add: request_ok_def)
  have "map snd ?c = map (count_of r) (map fst ?c)"
    using d(1) by (auto simp: count_of_def)
  then have "get_total_match_count r = sum_list (map (count_of r) (map fst ?c))"
    unfolding get_total_match_count_def by (rule arg_cong)
  also have "\<dots> = sum (count_of r) (set (map fst ?c))"
    by (rule sum_list_distinct_conv_sum_set [OF d(1)])
  also have "\<dots> = sum (count_of r) (set (frame_order r))"
    using d(3) count_of_outside [OF assms] by (intro sum.mono_neutral_right) auto
  also have "\<dots> = sum_list (map (count_of r) (frame_order r))"
    by (rule sum_list_distinct_conv_sum_set [OF d(2), symmetric])
  finally show ?thesis .
qed

lemma total_nonneg: "request_ok r \<Longrightarrow> 0 \<le> get_total_match_count r"
  by (auto simp: total_eq count_of_nonneg intro!: sum_list_nonneg)

lemma some_matches:
  assumes "request_ok r" and "get_total_match_count r \<noteq> 0"
  shows "\<exists>f \<in> set (frame_order r). count_of r f \<noteq> 0"
proof (rule ccontr)
  assume "\<not> ?thesis"
  then have "map (count_of r) (frame_order r) = map (\<lambda>_. 0) (frame_order r)" by simp
  then show False using assms by (simp add: total_eq del: map_eq_conv)
qed

text \<open>Changing the selection.\<close>

abbreviation select_at :: "frame_id \<Rightarrow> int \<Rightarrow> find_request \<Rightarrow> find_request" where
  "select_at f i r \<equiv> r\<lparr>selected_frame := Some f, selected_match := i\<rparr>"

lemma request_ok_select: "request_ok r \<Longrightarrow> f \<in> set (frame_order r) \<Longrightarrow> request_ok (select_at f i r)"
  by (auto simp: request_ok_def)

lemma count_of_select [simp]: "count_of (r\<lparr>selected_frame := f, selected_match := i\<rparr>) = count_of r"
  by (simp add: count_of_def fun_eq_iff)

lemma page_index_select:
  assumes "frame_order r = pre @ f # post" and "f \<notin> set pre" and "0 \<le> i"
  shows "get_current_selected_match_page_index (select_at f i r) = i + sum_list (map (count_of r) pre)"
  using assms by (simp add: get_current_selected_match_page_index_def up_to_first)

lemma iterator_in:
  assumes "request_ok r" and "get_total_match_count r \<noteq> 0"
  obtains f where "iterator_or_begin r = Some f" "f \<in> set (frame_order r)"
proof (cases "selected_frame r")
  case None
  have "frame_order r \<noteq> []" using some_matches [OF assms] by auto
  then show ?thesis using that [of "hd (frame_order r)"] None
    by (auto simp: iterator_or_begin_def split: list.splits)
next
  case (Some f)
  then show ?thesis using that [of f] assms(1) by (auto simp: iterator_or_begin_def request_ok_def)
qed

text \<open>The two moves always return, wherever the selection is.\<close>

lemma go_to_next_returns:
  assumes "request_ok r"
  shows "\<exists>r' b f i. go_to_next_match r = Some (r', b) \<and>
    (r' = r \<or> r' = select_at f i r \<and> f \<in> set (frame_order r))"
proof (cases "get_total_match_count r = 0")
  case False
  obtain f where f: "iterator_or_begin r = Some f" "f \<in> set (frame_order r)" by (rule iterator_in [OF assms False])
  obtain g where "g \<in> set (frame_order r)" "skip_empty_frames (next_frame (frame_order r)) (count_of r) f = Some g"
    using skip_found [OF _ f(2) some_matches [OF assms False]] assms by (auto simp: request_ok_def)
  then show ?thesis using f by (auto simp: go_to_next_match_def)
qed (auto simp: go_to_next_match_def)

lemma go_to_previous_returns:
  assumes "request_ok r"
  shows "\<exists>r' b f i. go_to_previous_match r = Some (r', b) \<and>
    (r' = r \<or> r' = select_at f i r \<and> f \<in> set (frame_order r))"
proof (cases "get_total_match_count r = 0")
  case False
  obtain f where f: "iterator_or_begin r = Some f" "f \<in> set (frame_order r)" by (rule iterator_in [OF assms False])
  obtain g where "g \<in> set (frame_order r)"
    "skip_empty_frames (next_frame (rev (frame_order r))) (count_of r) f = Some g"
    using skip_found [of "rev (frame_order r)" f "count_of r"] f(2) some_matches [OF assms False] assms
    by (auto simp: request_ok_def)
  then show ?thesis using f by (auto simp: go_to_previous_match_def)
qed (auto simp: go_to_previous_match_def)

section \<open>The cursor\<close>

text \<open>
  All matches of the page in order. The page index of a valid selection is its position among them.
\<close>

definition all_matches :: "find_request \<Rightarrow> (frame_id \<times> int) list" where
  "all_matches r = concat (map (\<lambda>f. map (\<lambda>i. (f, int i)) [0..<nat (count_of r f)]) (frame_order r))"

lemma length_all_matches:
  assumes "request_ok r"
  shows "int (length (all_matches r)) = get_total_match_count r"
proof -
  have "int (length (concat (map (\<lambda>f. map (\<lambda>i. (f, int i)) [0..<nat (count_of r f)]) fs))) =
      sum_list (map (count_of r) fs)" for fs
    using count_of_nonneg [OF assms] by (induction fs) simp_all
  then show ?thesis by (simp add: all_matches_def total_eq [OF assms])
qed

lemma valid_split:
  assumes "request_ok r" and "selection_valid r"
  obtains pre f post where "frame_order r = pre @ f # post" "f \<notin> set pre" "f \<notin> set post"
    "selected_frame r = Some f" "0 \<le> selected_match r" "selected_match r < count_of r f"
    "get_current_selected_match_page_index r = selected_match r + sum_list (map (count_of r) pre)"
    "get_total_match_count r = sum_list (map (count_of r) pre) + count_of r f + sum_list (map (count_of r) post)"
proof -
  obtain f where f: "selected_frame r = Some f" "0 \<le> selected_match r" "selected_match r < count_of r f"
    using assms(2) by (auto simp: selection_valid_def split: option.splits)
  then obtain pre post where o: "frame_order r = pre @ f # post"
    using assms(1) by (auto simp: request_ok_def dest: split_list)
  have d: "f \<notin> set pre" "f \<notin> set post" using assms(1) o by (auto simp: request_ok_def)
  have "r = select_at f (selected_match r) r" using f(1) by simp
  then have "get_current_selected_match_page_index r = selected_match r + sum_list (map (count_of r) pre)"
    using page_index_select [OF o d(1) f(2)] by simp
  then show ?thesis using that [OF o d f] total_eq [OF assms(1)] o by simp
qed

lemma sum_counts_nonneg: "request_ok r \<Longrightarrow> 0 \<le> sum_list (map (count_of r) fs)"
  by (auto simp: count_of_nonneg intro!: sum_list_nonneg)

lemma page_index_in_range:
  assumes "request_ok r" and "selection_valid r"
  shows "0 \<le> get_current_selected_match_page_index r"
    "get_current_selected_match_page_index r < get_total_match_count r"
proof -
  obtain pre f post where *: "selected_match r < count_of r f" "0 \<le> selected_match r"
    "get_current_selected_match_page_index r = selected_match r + sum_list (map (count_of r) pre)"
    "get_total_match_count r = sum_list (map (count_of r) pre) + count_of r f + sum_list (map (count_of r) post)"
    using valid_split [OF assms] by metis
  with sum_counts_nonneg [OF assms(1), of pre] sum_counts_nonneg [OF assms(1), of post]
  show "0 \<le> get_current_selected_match_page_index r"
    "get_current_selected_match_page_index r < get_total_match_count r" by linarith+
qed

text \<open>A frame with matches at the beginning or at the end of a list of frames.\<close>

lemma first_with_matches:
  assumes "sum_list (map (count_of r) fs) \<noteq> 0"
  obtains z g w where "fs = z @ g # w" "count_of r g \<noteq> 0" "\<forall>x \<in> set z. count_of r x = 0"
proof -
  have "\<exists>g \<in> set fs. count_of r g \<noteq> 0"
  proof (rule ccontr)
    assume "\<not> ?thesis"
    then have "map (count_of r) fs = map (\<lambda>_. 0) fs" by simp
    then show False using assms by (simp del: map_eq_conv)
  qed
  then show thesis using that split_list_first_prop [of fs "\<lambda>g. count_of r g \<noteq> 0"] by blast
qed

lemma sum_zeros: "\<forall>x \<in> set z. count_of r x = 0 \<Longrightarrow> sum_list (map (count_of r) z) = 0"
  by (induction z) auto

lemma zeros_of_sum:
  assumes "request_ok r" and "sum_list (map (count_of r) fs) = 0"
  shows "\<forall>x \<in> set fs. count_of r x = 0"
  using assms(2) sum_list_nonneg_eq_0_iff [of "map (count_of r) fs"] count_of_nonneg [OF assms(1)] by auto

text \<open>Where the two loops stop, and the page index there.\<close>

lemma select_result:
  assumes "request_ok r" and "frame_order r = z @ g # w" and "0 \<le> i" and "i < count_of r g"
  shows "request_ok (select_at g i r)" "selection_valid (select_at g i r)"
    "get_current_selected_match_page_index (select_at g i r) = i + sum_list (map (count_of r) z)"
proof -
  have "g \<notin> set z" using assms(1,2) by (auto simp: request_ok_def)
  then show "get_current_selected_match_page_index (select_at g i r) = i + sum_list (map (count_of r) z)"
    by (rule page_index_select [OF assms(2) _ assms(3)])
qed (use assms in \<open>simp_all add: request_ok_select selection_valid_def\<close>)

lemma go_forward:
  assumes "request_ok r" and "frame_order r = pre @ f # post" and "get_total_match_count r \<noteq> 0"
  shows "\<exists>z g w. frame_order r = z @ g # w \<and> 0 < count_of r g \<and>
    skip_empty_frames (next_frame (frame_order r)) (count_of r) f = Some g \<and>
    sum_list (map (count_of r) z) =
      (sum_list (map (count_of r) pre) + count_of r f) mod get_total_match_count r"
proof -
  let ?s = "\<lambda>fs. sum_list (map (count_of r) fs)"
  have d: "distinct (frame_order r)" using assms(1) by (simp add: request_ok_def)
  have total: "get_total_match_count r = ?s pre + count_of r f + ?s post"
    using total_eq [OF assms(1)] assms(2) by simp
  note nn = sum_counts_nonneg [OF assms(1)]
  have pos: "count_of r g \<noteq> 0 \<Longrightarrow> 0 < count_of r g" for g using count_of_nonneg [OF assms(1), of g] by simp
  show ?thesis
  proof (cases "?s post = 0")
    case True
    obtain z g w where z: "frame_order r = z @ g # w" "count_of r g \<noteq> 0" "\<forall>x \<in> set z. count_of r x = 0"
      using first_with_matches [of r "frame_order r"] assms(3) total_eq [OF assms(1)] by auto
    have "skip_empty_frames (next_frame (frame_order r)) (count_of r) f = Some g"
      by (rule skip_around [OF d assms(2) zeros_of_sum [OF assms(1) True] z(1,3,2)])
    moreover have "?s z = 0" by (rule sum_zeros [OF z(3)])
    ultimately show ?thesis using z pos total True by (intro exI [of _ z] exI [of _ g] exI [of _ w]) simp
  next
    case False
    then obtain z g w where z: "post = z @ g # w" "count_of r g \<noteq> 0" "\<forall>x \<in> set z. count_of r x = 0"
      by (rule first_with_matches)
    have "skip_empty_frames (next_frame (frame_order r)) (count_of r) f = Some g"
      using assms(2) z(1) by (intro skip_ahead [OF d _ z(3,2)]) simp
    moreover have "?s z = 0" by (rule sum_zeros [OF z(3)])
    moreover have "(?s pre + count_of r f) mod get_total_match_count r = ?s pre + count_of r f"
      using total z nn [of pre] nn [of w] count_of_nonneg [OF assms(1), of f] pos [OF z(2)] \<open>?s z = 0\<close>
      by (intro mod_pos_pos_trivial) simp_all
    ultimately show ?thesis using z pos assms(2)
      by (intro exI [of _ "pre @ f # z"] exI [of _ g] exI [of _ w]) simp
  qed
qed

lemma go_backward:
  assumes "request_ok r" and "frame_order r = pre @ f # post" and "get_total_match_count r \<noteq> 0"
  shows "\<exists>z g w. frame_order r = z @ g # w \<and> 0 < count_of r g \<and>
    skip_empty_frames (next_frame (rev (frame_order r))) (count_of r) f = Some g \<and>
    sum_list (map (count_of r) z) + count_of r g - 1 =
      (sum_list (map (count_of r) pre) - 1) mod get_total_match_count r"
proof -
  let ?s = "\<lambda>fs. sum_list (map (count_of r) fs)"
  have d: "distinct (rev (frame_order r))" using assms(1) by (simp add: request_ok_def)
  have o: "rev (frame_order r) = rev post @ f # rev pre" by (simp add: assms(2))
  have total: "get_total_match_count r = ?s pre + count_of r f + ?s post"
    using total_eq [OF assms(1)] assms(2) by simp
  note nn = sum_counts_nonneg [OF assms(1)]
  have pos: "count_of r g \<noteq> 0 \<Longrightarrow> 0 < count_of r g" for g using count_of_nonneg [OF assms(1), of g] by simp
  have s_rev: "?s (rev fs) = ?s fs" for fs by (simp add: rev_map [symmetric])
  show ?thesis
  proof (cases "?s pre = 0")
    case True
    have "?s (rev (frame_order r)) \<noteq> 0" using assms(3) total_eq [OF assms(1)] by (simp add: s_rev)
    then obtain z g w where z: "rev (frame_order r) = z @ g # w" "count_of r g \<noteq> 0" "\<forall>x \<in> set z. count_of r x = 0"
      by (rule first_with_matches)
    have "skip_empty_frames (next_frame (rev (frame_order r))) (count_of r) f = Some g"
      using zeros_of_sum [OF assms(1) True] by (intro skip_around [OF d o _ z(1,3,2)]) simp
    moreover have f: "frame_order r = rev w @ g # rev z" using arg_cong [OF z(1), of rev] by simp
    moreover have "?s (rev w) + count_of r g = get_total_match_count r"
      using f total_eq [OF assms(1)] sum_zeros [OF z(3)] by (simp add: s_rev)
    moreover have "0 < get_total_match_count r" using total_nonneg [OF assms(1)] assms(3) by simp
    ultimately show ?thesis using z pos True
      by (intro exI [of _ "rev w"] exI [of _ g] exI [of _ "rev z"]) (simp add: zmod_minus1)
  next
    case False
    then have "?s (rev pre) \<noteq> 0" by (simp add: s_rev)
    then obtain z g w where z: "rev pre = z @ g # w" "count_of r g \<noteq> 0" "\<forall>x \<in> set z. count_of r x = 0"
      by (rule first_with_matches)
    have "skip_empty_frames (next_frame (rev (frame_order r))) (count_of r) f = Some g"
      using o z(1) by (intro skip_ahead [OF d _ z(3,2)]) simp
    moreover have f: "pre = rev w @ g # rev z" using arg_cong [OF z(1), of rev] by simp
    moreover have "?s pre = ?s (rev w) + count_of r g" using f sum_zeros [OF z(3)] by (simp add: s_rev)
    moreover have "(?s pre - 1) mod get_total_match_count r = ?s pre - 1"
      using total nn [of pre] nn [of post] count_of_nonneg [OF assms(1), of f] False
      by (intro mod_pos_pos_trivial) simp_all
    ultimately show ?thesis using z pos assms(2)
      by (intro exI [of _ "rev w"] exI [of _ g] exI [of _ "rev z @ f # post"]) simp
  qed
qed

lemma zero_matches_invalid: "request_ok r \<Longrightarrow> selection_valid r \<Longrightarrow> get_total_match_count r \<noteq> 0"
  using page_index_in_range [of r] by simp

text \<open>
  C29. With a match selected, \<open>FindInPageNext\<close> selects the following match of the page and after
  the last one the first, \<open>FindInPagePrevious\<close> the preceding one and before the first one the last:
  the loops over the frames end, and the index reported to the delegate goes round by one.
\<close>

theorem matches_are_walked_in_order:
  assumes "request_ok r" and "selection_valid r"
  shows "(\<exists>f i. go_to_next_match r = Some (select_at f i r, True) \<and> selection_valid (select_at f i r) \<and>
      get_current_selected_match_page_index (select_at f i r) =
        (get_current_selected_match_page_index r + 1) mod get_total_match_count r) \<and>
    (\<exists>f i. go_to_previous_match r = Some (select_at f i r, True) \<and> selection_valid (select_at f i r) \<and>
      get_current_selected_match_page_index (select_at f i r) =
        (get_current_selected_match_page_index r - 1) mod get_total_match_count r)"
proof -
  let ?s = "\<lambda>fs. sum_list (map (count_of r) fs)" and ?k = "get_current_selected_match_page_index r"
    and ?n = "get_total_match_count r" and ?i = "selected_match r"
  obtain pre f post where v: "frame_order r = pre @ f # post" "selected_frame r = Some f" "0 \<le> ?i"
    "?i < count_of r f" "?k = ?i + ?s pre" "?n = ?s pre + count_of r f + ?s post"
    using valid_split [OF assms] by metis
  have n: "?n \<noteq> 0" by (rule zero_matches_invalid [OF assms])
  have it: "iterator_or_begin r = Some f" using v(2) by (simp add: iterator_or_begin_def)
  note range = page_index_in_range [OF assms] and nn = sum_counts_nonneg [OF assms(1)]
  have "\<exists>f i. go_to_next_match r = Some (select_at f i r, True) \<and> selection_valid (select_at f i r) \<and>
      get_current_selected_match_page_index (select_at f i r) = (?k + 1) mod ?n"
  proof (cases "?i + 1 < count_of r f")
    case True
    then have "(?k + 1) mod ?n = ?i + 1 + ?s pre"
      using v(3,5,6) nn [of pre] nn [of post] by (subst mod_pos_pos_trivial) simp_all
    then show ?thesis using True n it select_result [OF assms(1) v(1), of "?i + 1"] v(3)
      by (intro exI [of _ f] exI [of _ "?i + 1"]) (simp add: go_to_next_match_def)
  next
    case False
    then have "count_of r f = ?i + 1" using v(4) by simp
    then obtain z g w where g: "frame_order r = z @ g # w" "0 < count_of r g"
      "skip_empty_frames (next_frame (frame_order r)) (count_of r) f = Some g" "?s z = (?k + 1) mod ?n"
      using go_forward [OF assms(1) v(1) n] v(5) by (auto simp: algebra_simps)
    then show ?thesis using False n it select_result [OF assms(1) g(1), of 0]
      by (intro exI [of _ g] exI [of _ 0]) (simp add: go_to_next_match_def)
  qed
  moreover have "\<exists>f i. go_to_previous_match r = Some (select_at f i r, True) \<and> selection_valid (select_at f i r) \<and>
      get_current_selected_match_page_index (select_at f i r) = (?k - 1) mod ?n"
  proof (cases "?i - 1 \<ge> 0")
    case True
    then have "(?k - 1) mod ?n = ?i - 1 + ?s pre"
      using v(4,5,6) nn [of pre] nn [of post] by (subst mod_pos_pos_trivial) simp_all
    then show ?thesis using True n it select_result [OF assms(1) v(1), of "?i - 1"] v(4)
      by (intro exI [of _ f] exI [of _ "?i - 1"]) (simp add: go_to_previous_match_def)
  next
    case False
    then have "?i = 0" using v(3) by simp
    then obtain z g w where g: "frame_order r = z @ g # w" "0 < count_of r g"
      "skip_empty_frames (next_frame (rev (frame_order r))) (count_of r) f = Some g"
      "?s z + count_of r g - 1 = (?k - 1) mod ?n"
      using go_backward [OF assms(1) v(1) n] v(5) by auto
    then show ?thesis using False n it select_result [OF assms(1) g(1), of "count_of r g - 1"]
      by (intro exI [of _ g] exI [of _ "count_of r g - 1"]) (simp add: go_to_previous_match_def algebra_simps)
  qed
  ultimately show ?thesis by blast
qed

text \<open>
  When nothing is selected, as after the frame of the selected match has gone, the next
  match is the first of the page and the previous one the last.
\<close>

theorem unselected_starts_at_the_ends:
  assumes "request_ok r" and "nothing_selected r" and "get_total_match_count r \<noteq> 0"
  shows "(\<exists>f i. go_to_next_match r = Some (select_at f i r, True) \<and> selection_valid (select_at f i r) \<and>
      get_current_selected_match_page_index (select_at f i r) = 0) \<and>
    (\<exists>f i. go_to_previous_match r = Some (select_at f i r, True) \<and> selection_valid (select_at f i r) \<and>
      get_current_selected_match_page_index (select_at f i r) = get_total_match_count r - 1)"
proof -
  let ?n = "get_total_match_count r"
  have sel: "selected_frame r = None" "selected_match r = -1" using assms(2) by (simp_all add: nothing_selected_def)
  have "frame_order r \<noteq> []" using some_matches [OF assms(1,3)] by auto
  then obtain f post where f: "frame_order r = [] @ f # post" by (cases "frame_order r") auto
  have it: "iterator_or_begin r = Some f" using sel f by (simp add: iterator_or_begin_def)
  have pos: "0 < ?n" using total_nonneg [OF assms(1)] assms(3) by simp
  have "\<exists>f i. go_to_next_match r = Some (select_at f i r, True) \<and> selection_valid (select_at f i r) \<and>
      get_current_selected_match_page_index (select_at f i r) = 0"
  proof (cases "0 < count_of r f")
    case True
    then show ?thesis using sel it assms(3) select_result [OF assms(1) f, of 0]
      by (intro exI [of _ f] exI [of _ 0]) (simp add: go_to_next_match_def)
  next
    case False
    then have "count_of r f = 0" using count_of_nonneg [OF assms(1), of f] by simp
    then obtain z g w where g: "frame_order r = z @ g # w" "0 < count_of r g"
      "skip_empty_frames (next_frame (frame_order r)) (count_of r) f = Some g" "sum_list (map (count_of r) z) = 0"
      using go_forward [OF assms(1) f assms(3)] by auto
    then show ?thesis using False sel it assms(3) select_result [OF assms(1) g(1), of 0]
      by (intro exI [of _ g] exI [of _ 0]) (simp add: go_to_next_match_def)
  qed
  moreover obtain z g w where g: "frame_order r = z @ g # w" "0 < count_of r g"
    "skip_empty_frames (next_frame (rev (frame_order r))) (count_of r) f = Some g"
    "sum_list (map (count_of r) z) + count_of r g - 1 = ?n - 1"
    using go_backward [OF assms(1) f assms(3)] pos by (auto simp: zmod_minus1)
  then have "\<exists>f i. go_to_previous_match r = Some (select_at f i r, True) \<and> selection_valid (select_at f i r) \<and>
      get_current_selected_match_page_index (select_at f i r) = ?n - 1"
    using sel it assms(3) select_result [OF assms(1) g(1), of "count_of r g - 1"]
    by (intro exI [of _ g] exI [of _ "count_of r g - 1"]) (simp add: go_to_previous_match_def algebra_simps)
  ultimately show ?thesis by blast
qed

section \<open>A concrete page\<close>

text \<open>Two matches in the main frame, none in the second, one in the third.\<close>

definition three_frames :: find_request where
  "three_frames = new_find_request\<lparr>query := Some ''x'', frame_order := [''a'', ''b'', ''c''],
     frame_match_count := [(''a'', 2), (''b'', 0), (''c'', 1)]\<rparr>"

lemma three_frames_ok: "request_ok (three_frames\<lparr>selected_frame := f, selected_match := i\<rparr>)"
  if "f = None \<or> f = Some ''c''" for i
  using that by (auto simp: request_ok_def three_frames_def new_find_request_def)

lemma three_frames_total: "get_total_match_count (three_frames\<lparr>selected_frame := f, selected_match := i\<rparr>) = 3"
  by (simp add: get_total_match_count_def three_frames_def new_find_request_def)

theorem matches_are_walked_in_order_witness:
  "\<exists>f i g j. go_to_next_match (select_at ''c'' 0 three_frames) = Some (select_at f i (select_at ''c'' 0 three_frames), True) \<and>
    get_current_selected_match_page_index (select_at f i three_frames) = 0 \<and>
    go_to_previous_match (select_at ''c'' 0 three_frames) = Some (select_at g j (select_at ''c'' 0 three_frames), True) \<and>
    get_current_selected_match_page_index (select_at g j three_frames) = 1"
proof -
  have "selection_valid (select_at ''c'' 0 three_frames)"
    by (simp add: selection_valid_def count_of_def three_frames_def new_find_request_def)
  moreover have "get_current_selected_match_page_index (select_at ''c'' 0 three_frames) = 2"
    by (simp add: get_current_selected_match_page_index_def count_of_def three_frames_def new_find_request_def)
  ultimately show ?thesis
    using matches_are_walked_in_order [OF three_frames_ok [of "Some ''c''" 0]] three_frames_total by auto
qed

theorem unselected_starts_at_the_ends_witness:
  "\<exists>f i. go_to_previous_match (three_frames\<lparr>selected_frame := None, selected_match := -1\<rparr>) =
      Some (select_at f i three_frames, True) \<and>
    get_current_selected_match_page_index (select_at f i three_frames) = 2"
  using unselected_starts_at_the_ends [OF three_frames_ok [of None "-1"]] three_frames_total
  by (auto simp: nothing_selected_def)

end
