(* ===== verification/FindInPageMachine.thy ===== *)
theory FindInPageMachine
  imports FindInPageFacts
begin

text \<open>
  The manager of a search as a machine of requests of the user, answers of the frames, and frames
  that come and go.
\<close>

section \<open>The invariant\<close>

fun is_current :: "int \<Rightarrow> js_call \<Rightarrow> bool" where
  "is_current u (FindCall f v) = (v = u)"
| "is_current u (SelectCall f) = False"

definition waiting :: "int \<Rightarrow> js_call list \<Rightarrow> int" where
  "waiting u cs = int (length (filter (is_current u) cs))"

lemma waiting_simps [simp]:
  "waiting u [] = 0"
  "waiting u (c # cs) = (if is_current u c then 1 else 0) + waiting u cs"
  "waiting u (cs @ ds) = waiting u cs + waiting u ds"
  "0 \<le> waiting u cs"
  by (simp_all add: waiting_def)

fun call_id_below :: "int \<Rightarrow> js_call \<Rightarrow> bool" where
  "call_id_below u (FindCall f v) = (v \<le> u)"
| "call_id_below u (SelectCall f) = True"

lemma waiting_fresh: "\<forall>c \<in> set cs. call_id_below u c \<Longrightarrow> waiting (u + 1) cs = 0"
proof (induction cs)
  case (Cons c cs)
  then show ?case by (cases c) simp_all
qed simp

text \<open>
  The invariant while the calls \<open>cs\<close>, which are not in flight any more, are still to be answered.
  When it is strict no frame has refused to continue a search: the count of pending answers is then
  exact, and a search without pending answers has completed or will.
\<close>

abbreviation request_id :: "find_manager \<Rightarrow> int" where
  "request_id m \<equiv> unique_id (last_find_request m)"

abbreviation pending :: "find_manager \<Rightarrow> int" where
  "pending m \<equiv> pending_frame_call_count (last_find_request m)"

definition find_inv :: "bool \<Rightarrow> js_call list \<Rightarrow> find_manager \<Rightarrow> bool" where
  "find_inv strict cs m \<longleftrightarrow> request_ok (last_find_request m) \<and>
     (web_state_alive m \<longrightarrow> distinct (web_frames m) \<and>
        set (web_frames m) = set (frame_order (last_find_request m)) \<and>
        waiting (request_id m) (cs @ in_flight m) \<le> pending m \<and>
        (\<forall>c \<in> set (cs @ in_flight m). call_id_below (request_id m) c) \<and>
        (\<forall>c \<in> set (in_flight m). call_frame c \<in> set (web_frames m)) \<and>
        (strict \<longrightarrow> pending m = waiting (request_id m) (cs @ in_flight m) \<and>
           (query (last_find_request m) \<noteq> None \<longrightarrow> pending m = 0 \<longrightarrow>
              0 < posted_completions m \<or> request_id m \<in> set (completed m))))"

lemma find_inv_new: "find_inv strict [] (new_find_manager d)"
  by (simp add: find_inv_def new_find_manager_def new_find_request_def request_ok_def)

section \<open>Reports and selections\<close>

lemma report_fields [simp]:
  "last_find_request (report e m) = last_find_request m" "web_state_alive (report e m) = web_state_alive m"
  "web_frames (report e m) = web_frames m" "in_flight (report e m) = in_flight m"
  "posted_completions (report e m) = posted_completions m" "completed (report e m) = completed m"
  "delegate_set (report e m) = delegate_set m"
  by (simp_all add: report_def)

lemma find_inv_cong:
  assumes "find_inv strict cs m" and "last_find_request m' = last_find_request m"
    and "web_state_alive m' = web_state_alive m" and "web_frames m' = web_frames m" and "in_flight m' = in_flight m"
    and "posted_completions m' = posted_completions m" and "set (completed m) \<subseteq> set (completed m')"
  shows "find_inv strict cs m'"
  using assms unfolding find_inv_def by auto

lemma find_inv_report [simp]: "find_inv strict cs m \<Longrightarrow> find_inv strict cs (report e m)"
  by (erule find_inv_cong) simp_all

lemma find_inv_report_matches: "find_inv strict cs m \<Longrightarrow> find_inv strict cs (report_matches m)"
  by (simp add: report_matches_def)

text \<open>A request that only differs in its selection, or in the counts of its frames.\<close>

lemma find_inv_request:
  assumes "find_inv strict cs m" and "request_ok r" and "frame_order r = frame_order (last_find_request m)"
    and "unique_id r = request_id m" and "query r = query (last_find_request m)"
    and "pending_frame_call_count r = pending m"
  shows "find_inv strict cs (m\<lparr>last_find_request := r\<rparr>)"
  using assms by (auto simp: find_inv_def)

lemma find_inv_select_call:
  "find_inv strict cs m \<Longrightarrow> f \<in> set (web_frames m) \<Longrightarrow>
   find_inv strict cs (m\<lparr>in_flight := in_flight m @ [SelectCall f]\<rparr>)"
  by (auto simp: find_inv_def)

lemma find_inv_select_current:
  "find_inv strict cs m \<Longrightarrow> find_inv strict cs (select_current_match refusing m)"
  by (auto simp: select_current_match_def find_inv_select_call split: option.splits)

lemma go_to_first_match_cases:
  "fst (go_to_first_match r) = r \<or>
   (\<exists>f \<in> set (frame_order r). fst (go_to_first_match r) = select_at f 0 r)"
  by (auto simp: go_to_first_match_def find_Some_iff split: option.splits)

lemma find_inv_select_first:
  "find_inv strict cs m \<Longrightarrow>
   find_inv strict cs (m\<lparr>last_find_request := fst (go_to_first_match (last_find_request m))\<rparr>)"
  using go_to_first_match_cases [of "last_find_request m"]
  by (auto intro!: find_inv_request request_ok_select simp: find_inv_def)

text \<open>
  Completing a search. The strict invariant holds before up to the search that is now completed.
\<close>

lemma find_inv_completed:
  assumes "find_inv False cs m"
    and "strict \<Longrightarrow> web_state_alive m \<Longrightarrow> pending m = waiting (request_id m) (cs @ in_flight m)"
  shows "find_inv strict cs (last_find_request_completed refusing m)"
proof -
  have "find_inv strict cs (m\<lparr>completed := completed m @ [request_id m]\<rparr>)"
    using assms by (auto simp: find_inv_def)
  then show ?thesis
    by (auto simp: last_find_request_completed_def Let_def case_prod_unfold
        intro!: find_inv_select_current find_inv_select_first find_inv_report_matches)
qed

section \<open>Answers\<close>

lemma request_ok_set_count:
  assumes "request_ok r" and "0 \<le> n" and "f \<in> set (frame_order r) \<or> n = 0"
  shows "request_ok (set_match_count_for_frame n f r)"
proof -
  have d: "distinct (map fst (frame_match_count r))" using assms(1) by (simp add: request_ok_def)
  have "set (AList.update f n (frame_match_count r)) =
      insert (f, n) {x \<in> set (frame_match_count r). fst x \<noteq> f}"
  proof -
    have "x \<in> set (AList.update f n (frame_match_count r)) \<longleftrightarrow>
        x \<in> insert (f, n) {x \<in> set (frame_match_count r). fst x \<noteq> f}" for x
    proof -
      have "x \<in> set (AList.update f n (frame_match_count r)) \<longleftrightarrow>
          map_of (AList.update f n (frame_match_count r)) (fst x) = Some (snd x)"
        using distinct_update [OF d] by (metis map_of_is_SomeI map_of_SomeD prod.collapse)
      also have "\<dots> \<longleftrightarrow> x \<in> insert (f, n) {x \<in> set (frame_match_count r). fst x \<noteq> f}"
        using d by (cases x) (auto simp: update_conv' map_of_is_SomeI dest: map_of_SomeD)
      finally show ?thesis .
    qed
    then show ?thesis by blast
  qed
  then show ?thesis
    using assms distinct_update [OF d] unfolding request_ok_def set_match_count_for_frame_def
    by (auto simp: dom_update dest: subsetD)
qed

lemma set_count_fields [simp]:
  "unique_id (set_match_count_for_frame n f r) = unique_id r"
  "query (set_match_count_for_frame n f r) = query r"
  "pending_frame_call_count (set_match_count_for_frame n f r) = pending_frame_call_count r"
  "frame_order (set_match_count_for_frame n f r) = frame_order r"
  "selected_frame (set_match_count_for_frame n f r) = selected_frame r"
  "selected_match (set_match_count_for_frame n f r) = selected_match r"
  by (simp_all add: set_match_count_for_frame_def)

lemma count_of_set_count: "count_of (set_match_count_for_frame n f r) g = (if g = f then n else count_of r g)"
  by (simp add: count_of_def set_match_count_for_frame_def update_conv')

text \<open>The answers JavaScript gives: counts are not negative, \<open>-1\<close> is a search that is not finished.\<close>

fun result_ok :: "js_call \<Rightarrow> js_result \<Rightarrow> bool" where
  "result_ok (FindCall f u) (Number n) = (-1 \<le> n)"
| "result_ok (SelectCall f) (Dictionary (Some n) i s) = (0 \<le> n)"
| "result_ok c x = True"

fun refuses_to_continue :: "js_call \<Rightarrow> js_result \<Rightarrow> frame_id list \<Rightarrow> bool" where
  "refuses_to_continue (FindCall f u) (Number n) refusing = (n = kFindInPagePending \<and> f \<in> set refusing)"
| "refuses_to_continue c x refusing = False"

lemma request_ok_one_less:
  "request_ok r \<Longrightarrow> request_ok (did_receive_find_response_from_one_frame r)"
  by (simp add: request_ok_def did_receive_find_response_from_one_frame_def)

lemma process_result_keeps:
  assumes "find_inv strict (FindCall f u # cs) m" and "result_ok (FindCall f u) result"
    and "strict \<longrightarrow> \<not> refuses_to_continue (FindCall f u) result refusing"
  shows "find_inv strict cs (process_find_in_page_result refusing f u result m)"
proof (cases "u = request_id m \<and> web_state_alive m")
  case False
  then show ?thesis using assms(1) by (auto simp: process_find_in_page_result_def find_inv_def)
next
  case True
  then have u: "u = request_id m" and alive: "web_state_alive m" by simp_all
  define gone where "gone \<longleftrightarrow> result = Null \<or> f \<notin> set (web_frames m)"
  define n where "n = (case result of Number n \<Rightarrow> n | _ \<Rightarrow> 0)"
  show ?thesis
  proof (cases "\<not> gone \<and> n = kFindInPagePending")
    case True
    then obtain result': "result = Number (-1)" "f \<in> set (web_frames m)"
      by (auto simp: gone_def n_def kFindInPagePending_def split: js_result.splits)
    have p: "process_find_in_page_result refusing f u result m =
        (if f \<in> set refusing then m else m\<lparr>in_flight := in_flight m @ [FindCall f u]\<rparr>)"
      using True u alive unfolding process_find_in_page_result_def gone_def n_def by (simp add: Let_def)
    show ?thesis
    proof (cases "f \<in> set refusing")
      case True
      then have "\<not> strict" using assms(3) result' by (simp add: kFindInPagePending_def)
      then show ?thesis using p True assms(1) u by (auto simp: find_inv_def)
    next
      case False
      then show ?thesis using p assms(1) result'(2) u by (auto simp: find_inv_def)
    qed
  next
    case False
    define r where "r = did_receive_find_response_from_one_frame (set_match_count_for_frame
      (if gone then 0 else n) f (last_find_request m))"
    define m1 where "m1 = m\<lparr>last_find_request := r\<rparr>"
    have "process_find_in_page_result refusing f u result m =
        (if \<not> gone \<and> n = kFindInPagePending
         then if f \<in> set refusing then m else m\<lparr>in_flight := in_flight m @ [FindCall f u]\<rparr>
         else if pending m1 = 0 then last_find_request_completed refusing m1 else m1)"
      using u alive unfolding process_find_in_page_result_def are_all_find_responses_returned_def
        m1_def r_def gone_def n_def Let_def by simp
    then have p: "process_find_in_page_result refusing f u result m =
        (if pending m1 = 0 then last_find_request_completed refusing m1 else m1)"
      unfolding if_not_P [OF False] .
    have "0 \<le> (if gone then 0 else n)"
      using assms(2) False by (auto simp: n_def kFindInPagePending_def split: js_result.splits)
    moreover have "f \<in> set (frame_order (last_find_request m)) \<or> (if gone then 0 else n) = 0"
      using assms(1) alive by (auto simp: gone_def find_inv_def)
    ultimately have ok: "request_ok r"
      using assms(1) by (simp add: r_def find_inv_def request_ok_one_less request_ok_set_count)
    have id: "unique_id r = request_id m" "frame_order r = frame_order (last_find_request m)"
      "query r = query (last_find_request m)" "pending_frame_call_count r = pending m - 1"
      by (simp_all add: r_def did_receive_find_response_from_one_frame_def)
    have inv: "find_inv False cs m1"
      using assms(1) ok u alive by (auto simp: find_inv_def m1_def id)
    have exact: "pending m1 = waiting (request_id m1) (cs @ in_flight m1)" if strict
      using assms(1) that u alive by (simp add: find_inv_def m1_def id)
    show ?thesis
    proof (cases "pending m1 = 0")
      case True
      then show ?thesis unfolding p using find_inv_completed [OF inv exact] by simp
    next
      case False
      then have "find_inv strict cs m1" using inv exact by (auto simp: find_inv_def)
      then show ?thesis using p False by simp
    qed
  qed
qed

lemma selected_count_keeps:
  assumes "find_inv strict cs m" and "0 \<le> n"
  shows "find_inv strict cs (m\<lparr>last_find_request := set_match_count_for_selected_frame n (last_find_request m)\<rparr>)"
proof -
  let ?r = "last_find_request m"
  have ok: "request_ok ?r" using assms(1) by (simp add: find_inv_def)
  show ?thesis
  proof (cases "selected_frame ?r")
    case None
    then show ?thesis using assms(1) by (simp add: set_match_count_for_selected_frame_def)
  next
    case (Some f)
    then have "f \<in> set (frame_order ?r)" using ok by (simp add: request_ok_def)
    then have "request_ok (set_match_count_for_frame n f ?r)"
      using request_ok_set_count [OF ok assms(2)] by simp
    then show ?thesis using Some assms(1)
      by (auto simp: set_match_count_for_selected_frame_def intro!: find_inv_request)
  qed
qed

lemma selected_match_keeps:
  "find_inv strict cs m \<Longrightarrow>
   find_inv strict cs (m\<lparr>last_find_request := (last_find_request m)\<lparr>selected_match := i\<rparr>\<rparr>)"
  by (auto intro!: find_inv_request simp: find_inv_def request_ok_def)

lemma find_inv_drop_select: "find_inv strict (SelectCall f # cs) m \<Longrightarrow> find_inv strict cs m"
  by (auto simp: find_inv_def)

lemma select_did_finish_keeps:
  assumes "find_inv strict (SelectCall f # cs) m" and "result_ok (SelectCall f) result"
  shows "find_inv strict cs (select_did_finish result m)"
proof -
  note m = find_inv_drop_select [OF assms(1)]
  show ?thesis
  proof (cases result)
    case (Dictionary x y z)
    define m1 where "m1 = (case x of None \<Rightarrow> m | Some n \<Rightarrow>
      if n \<noteq> get_match_count_for_selected_frame (last_find_request m)
      then report_matches (m\<lparr>last_find_request := set_match_count_for_selected_frame n (last_find_request m)\<rparr>)
      else m)"
    have m1: "find_inv strict cs m1"
    proof (cases x)
      case (Some n)
      then have "0 \<le> n" using assms(2) Dictionary by simp
      then show ?thesis using m Some selected_count_keeps [OF m] by (simp add: m1_def find_inv_report_matches)
    qed (simp add: m1_def m)
    define m2 where "m2 = (case y of None \<Rightarrow> m1
      | Some i \<Rightarrow> m1\<lparr>last_find_request := (last_find_request m1)\<lparr>selected_match := i\<rparr>\<rparr>)"
    have "find_inv strict cs m2"
      using m1 selected_match_keeps [OF m1] by (cases y) (simp_all add: m2_def)
    moreover have "select_did_finish result m =
        report (DidSelectMatch (get_current_selected_match_page_index (last_find_request m2))
          (case z of None \<Rightarrow> [] | Some s \<Rightarrow> s)) m2"
      unfolding select_did_finish_def Dictionary m1_def m2_def Let_def by simp
    ultimately show ?thesis by simp
  qed (use m in \<open>simp_all add: select_did_finish_def\<close>)
qed

lemma answer_keeps:
  assumes "find_inv strict (c # cs) m" and "result_ok c result"
    and "strict \<longrightarrow> \<not> refuses_to_continue c result refusing"
  shows "find_inv strict cs (answer_call refusing c result m)"
  using assms process_result_keeps select_did_finish_keeps by (cases c) (simp_all add: answer_call_def)

lemma answers_keep:
  "find_inv strict (cs @ ds) m \<Longrightarrow>
   find_inv strict ds (fold (\<lambda>c. answer_call refusing c Null) cs m)"
proof (induction cs arbitrary: m)
  case (Cons c cs)
  have "result_ok c Null" "\<not> refuses_to_continue c Null refusing" by (cases c; simp)+
  then have "find_inv strict (cs @ ds) (answer_call refusing c Null m)"
    using Cons.prems by (intro answer_keeps) simp_all
  then show ?case using Cons.IH by simp
qed simp

text \<open>An answer is taken out of those in flight.\<close>

lemma find_inv_take_call:
  assumes "find_inv strict [] m" and "k < length (in_flight m)"
  shows "find_inv strict [in_flight m ! k] (m\<lparr>in_flight := take k (in_flight m) @ drop (Suc k) (in_flight m)\<rparr>)"
proof -
  have e: "in_flight m = take k (in_flight m) @ in_flight m ! k # drop (Suc k) (in_flight m)"
    using assms(2) by (rule id_take_nth_drop)
  then have "waiting u (in_flight m) = waiting u (in_flight m ! k # take k (in_flight m) @ drop (Suc k) (in_flight m))"
    for u by (metis add.left_commute waiting_simps(2,3))
  moreover have "set (in_flight m) =
      set (in_flight m ! k # take k (in_flight m) @ drop (Suc k) (in_flight m))"
    using arg_cong [OF e, of set] by auto
  ultimately show ?thesis using assms(1) by (auto simp: find_inv_def)
qed

section \<open>Frames\<close>

lemma find_inv_add_frame:
  assumes "find_inv strict [] m" and "web_state_alive m" and "f \<notin> set (web_frames m)"
  shows "find_inv strict [] (web_frame_did_become_available f is_main m)"
proof -
  let ?r = "last_find_request m"
  have ok: "request_ok ?r" and f: "f \<notin> set (frame_order ?r)" using assms by (simp_all add: find_inv_def)
  have "request_ok (set_match_count_for_frame 0 f ?r)" by (rule request_ok_set_count [OF ok]) simp_all
  moreover have "f \<in> fst ` set (frame_match_count (set_match_count_for_frame 0 f ?r))"
    by (simp add: set_match_count_for_frame_def dom_update)
  ultimately have "request_ok (add_frame f is_main ?r)"
    using f unfolding request_ok_def add_frame_def Let_def by auto
  moreover have "set (frame_order (add_frame f is_main ?r)) = insert f (set (frame_order ?r))"
    "unique_id (add_frame f is_main ?r) = unique_id ?r" "query (add_frame f is_main ?r) = query ?r"
    "pending_frame_call_count (add_frame f is_main ?r) = pending_frame_call_count ?r"
    by (auto simp: add_frame_def Let_def)
  ultimately show ?thesis
    using assms by (auto simp: find_inv_def web_frame_did_become_available_def)
qed

lemma remove_frame_fields:
  "unique_id (remove_frame f r) = unique_id r" "query (remove_frame f r) = query r"
  "pending_frame_call_count (remove_frame f r) = pending_frame_call_count r"
  "frame_order (remove_frame f r) = removeAll f (frame_order r)"
  "frame_match_count (remove_frame f r) = AList.delete f (frame_match_count r)"
  by (simp_all add: remove_frame_def Let_def)

lemma request_ok_remove:
  assumes "request_ok r"
  shows "request_ok (remove_frame f r)"
proof -
  have keys: "fst ` set (AList.delete f xs) = fst ` set xs - {f}" for xs :: "(frame_id \<times> int) list"
    using delete_keys [of f xs] by (metis list.set_map set_removeAll)
  have entries: "\<forall>(g, n) \<in> set (AList.delete f xs). g \<noteq> f \<and> (g, n) \<in> set xs" for xs :: "(frame_id \<times> int) list"
    by (auto simp: AList.delete_eq)
  have "selected_frame (remove_frame f r) = Some g \<Longrightarrow> selected_frame r = Some g \<and> g \<noteq> f" for g
    by (auto simp: remove_frame_def Let_def split: if_splits)
  moreover have "\<forall>(g, n) \<in> set (AList.delete f (frame_match_count r)). 0 \<le> n \<and> (g \<notin> set (removeAll f (frame_order r)) \<longrightarrow> n = 0)"
    using assms entries [of "frame_match_count r"] unfolding request_ok_def by fastforce
  ultimately show ?thesis
    using assms unfolding request_ok_def remove_frame_fields keys
    by (auto simp: distinct_delete distinct_removeAll)
qed

lemma find_inv_remove_frame:
  assumes "find_inv strict [] m" and "web_state_alive m"
  shows "find_inv strict [] (remove_frame_with_id f m)"
proof (cases "f \<in> set (web_frames m)")
  case True
  define m1 where "m1 = web_frame_will_become_unavailable f m"
  define m0 where "m0 = m\<lparr>last_find_request := remove_frame f (last_find_request m)\<rparr>"
  let ?mine = "filter (\<lambda>c. call_frame c = f) (in_flight m)" and ?others = "filter (\<lambda>c. call_frame c \<noteq> f) (in_flight m)"
  define m2 where "m2 = m1\<lparr>web_frames := removeAll f (web_frames m1), in_flight := ?others\<rparr>"
  have m1: "last_find_request m1 = last_find_request m0" "web_frames m1 = web_frames m" "in_flight m1 = in_flight m"
    "web_state_alive m1 = web_state_alive m" "posted_completions m1 = posted_completions m" "completed m1 = completed m"
    by (simp_all add: m1_def m0_def web_frame_will_become_unavailable_def Let_def report_matches_def)
  have w: "waiting u (in_flight m) = waiting u ?mine + waiting u ?others" for u
  proof -
    have "waiting u cs = waiting u (filter (\<lambda>c. call_frame c = f) cs) + waiting u (filter (\<lambda>c. call_frame c \<noteq> f) cs)" for cs
      by (induction cs) simp_all
    then show ?thesis .
  qed
  have "find_inv strict ?mine m2"
    using assms request_ok_remove [of "last_find_request m" f] w
    by (auto simp: find_inv_def m2_def m1 m0_def remove_frame_fields distinct_removeAll)
  then have "find_inv strict [] (fold (\<lambda>c. answer_call [] c Null) ?mine m2)"
    using answers_keep [of strict ?mine "[]" m2 "[]"] by simp
  then show ?thesis using True by (simp add: remove_frame_with_id_def m1_def [symmetric] Let_def m2_def m1)
qed (simp add: remove_frame_with_id_def assms(1))

section \<open>Searching\<close>

lemma count_of_reset: "count_of (reset_request q n r) f = 0"
proof -
  have "map_of (map (\<lambda>(f, _). (f, 0::int)) xs) f = map_option (\<lambda>_. 0) (map_of xs f)" for xs :: "(frame_id \<times> int) list"
    by (induction xs) auto
  then show ?thesis by (auto simp: count_of_def reset_request_def split: option.splits)
qed

lemma total_reset: "get_total_match_count (reset_request q n r) = 0"
proof -
  have "map snd (map (\<lambda>(f, _). (f, 0::int)) xs) = map (\<lambda>_. 0) xs" for xs :: "(frame_id \<times> int) list"
    by (induction xs) auto
  then show ?thesis by (simp add: get_total_match_count_def reset_request_def del: map_map)
qed

lemma request_ok_reset: "request_ok r \<Longrightarrow> request_ok (reset_request q n r)"
  by (auto simp: request_ok_def reset_request_def comp_def case_prod_unfold image_image)

lemma search_frames_eq:
  assumes "int (length fs) \<le> pending m"
  shows "search_frames refusing fs m = m\<lparr>
    last_find_request := (last_find_request m)\<lparr>pending_frame_call_count :=
      pending m - int (length (filter (\<lambda>f. f \<in> set refusing) fs))\<rparr>,
    in_flight := in_flight m @ map (\<lambda>f. FindCall f (request_id m)) (filter (\<lambda>f. f \<notin> set refusing) fs),
    posted_completions := posted_completions m +
      (if fs \<noteq> [] \<and> set fs \<subseteq> set refusing \<and> pending m = int (length fs) then 1 else 0)\<rparr>"
  using assms
proof (induction fs arbitrary: m)
  case (Cons f fs)
  show ?case
  proof (cases "f \<in> set refusing")
    case True
    define r where "r = did_receive_find_response_from_one_frame (last_find_request m)"
    define m2 where "m2 = m\<lparr>last_find_request := r,
      posted_completions := posted_completions m + (if pending m = 1 then 1 else 0)\<rparr>"
    have "search_frames refusing (f # fs) m = search_frames refusing fs m2"
      using True by (auto simp: m2_def r_def Let_def are_all_find_responses_returned_def
          did_receive_find_response_from_one_frame_def)
    moreover have "int (length fs) \<le> pending m2"
      using Cons.prems by (simp add: m2_def r_def did_receive_find_response_from_one_frame_def)
    moreover have "pending m = 1 \<Longrightarrow> fs = []" using Cons.prems by simp
    ultimately show ?thesis using Cons.IH [of m2] True Cons.prems
      by (auto simp: m2_def r_def did_receive_find_response_from_one_frame_def)
  next
    case False
    then show ?thesis using Cons.IH [of "m\<lparr>in_flight := in_flight m @ [FindCall f (request_id m)]\<rparr>"] Cons.prems
      by auto
  qed
qed simp

lemma find_inv_search:
  assumes "find_inv strict [] m" and "web_state_alive m"
  shows "find_inv strict [] (start_search q refusing m)"
proof -
  let ?fs = "web_frames m"
  define r where "r = reset_request (Some q) (int (length ?fs)) (last_find_request m)"
  define m1 where "m1 = m\<lparr>last_find_request := r\<rparr>"
  have r: "request_ok r" "frame_order r = frame_order (last_find_request m)" "unique_id r = request_id m + 1"
    "pending_frame_call_count r = int (length ?fs)"
    using assms(1) by (simp_all add: r_def find_inv_def request_ok_reset) (simp_all add: reset_request_def)
  have frames: "distinct ?fs" "set ?fs = set (frame_order (last_find_request m))"
    and below: "\<forall>c \<in> set (in_flight m). call_id_below (request_id m) c"
    and held: "\<forall>c \<in> set (in_flight m). call_frame c \<in> set ?fs"
    using assms by (auto simp: find_inv_def)
  have old: "waiting (request_id m + 1) (in_flight m) = 0" by (rule waiting_fresh [OF below])
  have new: "waiting u (map (\<lambda>f. FindCall f u) fs) = int (length fs)" for u fs by (induction fs) simp_all
  have below': "call_id_below (request_id m + 1) c" if "c \<in> set (in_flight m)" for c
    using below that by (cases c) fastforce+
  have parts: "int (length ?fs) = int (length (filter (\<lambda>f. f \<in> set refusing) ?fs)) +
      int (length (filter (\<lambda>f. f \<notin> set refusing) ?fs))"
    using sum_length_filter_compl [of "\<lambda>f. f \<in> set refusing" ?fs] by simp
  have refused: "length (filter (\<lambda>f. f \<notin> set refusing) ?fs) = 0 \<Longrightarrow> set ?fs \<subseteq> set refusing"
    by (auto simp: filter_empty_conv)
  show ?thesis
  proof (cases "?fs = []")
    case True
    then have "start_search q refusing m = m1\<lparr>posted_completions := Suc (posted_completions m)\<rparr>"
      by (simp add: start_search_def r_def m1_def)
    moreover have "find_inv strict [] (m1\<lparr>posted_completions := Suc (posted_completions m)\<rparr>)"
      using r frames old below' held True by (auto simp: find_inv_def m1_def)
    ultimately show ?thesis by simp
  next
    case False
    have e: "start_search q refusing m = search_frames refusing ?fs m1"
      using False by (simp add: start_search_def r_def m1_def)
    have "int (length ?fs) \<le> pending m1" by (simp add: m1_def r(4))
    note s = search_frames_eq [OF this, of refusing]
    have "find_inv strict [] (search_frames refusing ?fs m1)"
      unfolding find_inv_def s
      using r(1,2) frames below' held False parts old refused
      by (auto simp: m1_def r(3,4) new request_ok_def)
    then show ?thesis by (simp add: e)
  qed
qed

lemma find_inv_stop:
  assumes "find_inv strict [] m"
  shows "find_inv strict [] (stop_finding m)"
proof -
  note waiting_fresh
  moreover have "call_id_below (u + 1) c" if "call_id_below u c" for u c using that by (cases c) simp_all
  ultimately have "find_inv strict [] (m\<lparr>last_find_request := reset_request None 0 (last_find_request m)\<rparr>)"
    using assms by (auto simp: find_inv_def request_ok_reset) (auto simp: reset_request_def)
  then show ?thesis by (simp add: stop_finding_def find_inv_report_matches)
qed

lemma find_inv_moved:
  assumes "find_inv strict [] m" and "r = last_find_request m \<or> r = select_at f i (last_find_request m) \<and> f \<in> set (frame_order (last_find_request m))"
  shows "find_inv strict [] (m\<lparr>last_find_request := r\<rparr>)"
  using assms request_ok_select [of "last_find_request m" f i]
  by (auto intro!: find_inv_request simp: find_inv_def)

lemma find_inv_next:
  assumes "find_inv strict [] m"
  shows "\<exists>m'. select_next_match refusing m = Some m' \<and> find_inv strict [] m'"
    "\<exists>m'. select_previous_match refusing m = Some m' \<and> find_inv strict [] m'"
proof -
  have ok: "request_ok (last_find_request m)" using assms by (simp add: find_inv_def)
  obtain r b f i where "go_to_next_match (last_find_request m) = Some (r, b)"
    "r = last_find_request m \<or> r = select_at f i (last_find_request m) \<and> f \<in> set (frame_order (last_find_request m))"
    using go_to_next_returns [OF ok] by blast
  moreover from find_inv_moved [OF assms this(2)] have "find_inv strict [] (m\<lparr>last_find_request := r\<rparr>)" .
  ultimately show "\<exists>m'. select_next_match refusing m = Some m' \<and> find_inv strict [] m'"
    using find_inv_select_current [of strict "[]" "m\<lparr>last_find_request := r\<rparr>"] by (simp add: select_next_match_def Let_def)
  obtain r b f i where "go_to_previous_match (last_find_request m) = Some (r, b)"
    "r = last_find_request m \<or> r = select_at f i (last_find_request m) \<and> f \<in> set (frame_order (last_find_request m))"
    using go_to_previous_returns [OF ok] by blast
  moreover from find_inv_moved [OF assms this(2)] have "find_inv strict [] (m\<lparr>last_find_request := r\<rparr>)" .
  ultimately show "\<exists>m'. select_previous_match refusing m = Some m' \<and> find_inv strict [] m'"
    using find_inv_select_current [of strict "[]" "m\<lparr>last_find_request := r\<rparr>"] by (simp add: select_previous_match_def Let_def)
qed

section \<open>The machine\<close>

text \<open>
  What the manager may be asked while its web state lives. With \<open>strict\<close>, no frame refuses to
  continue a search it has begun.
\<close>

fun find_allowed :: "bool \<Rightarrow> find_manager \<Rightarrow> find_op \<Rightarrow> bool" where
  "find_allowed strict m (Find q options refusing) =
     (web_state_alive m \<and> (options = FindInPageSearch \<longrightarrow> q \<noteq> None))"
| "find_allowed strict m StopFinding = web_state_alive m"
| "find_allowed strict m (AnswerCall k result refusing) =
     (web_state_alive m \<and> k < length (in_flight m) \<and> result_ok (in_flight m ! k) result \<and>
      (strict \<longrightarrow> \<not> refuses_to_continue (in_flight m ! k) result refusing))"
| "find_allowed strict m (RunPostedCompletion refusing) = (web_state_alive m \<and> 0 < posted_completions m)"
| "find_allowed strict m (FrameAvailable f is_main) = (web_state_alive m \<and> f \<noteq> [] \<and> f \<notin> set (web_frames m))"
| "find_allowed strict m (FrameUnavailable f) = web_state_alive m"
| "find_allowed strict m WebStateGone = web_state_alive m"

lemma find_inv_gone:
  assumes "find_inv strict [] m"
  shows "find_inv strict [] (find_web_state_destroyed m)"
proof -
  have "find_inv strict (in_flight m) (m\<lparr>web_state_alive := False, in_flight := []\<rparr>)"
    using assms by (simp add: find_inv_def)
  then have "find_inv strict [] (fold (\<lambda>c. answer_call [] c Null) (in_flight m)
      (m\<lparr>web_state_alive := False, in_flight := []\<rparr>))" (is "find_inv strict [] ?m")
    using answers_keep [of strict "in_flight m" "[]" "m\<lparr>web_state_alive := False, in_flight := []\<rparr>" "[]"] by simp
  moreover have "\<not> web_state_alive ?m"
  proof -
    have "\<not> web_state_alive m' \<Longrightarrow> \<not> web_state_alive (fold (\<lambda>c. answer_call [] c Null) cs m')" for cs m'
    proof (induction cs arbitrary: m')
      case (Cons c cs)
      then have "\<not> web_state_alive (answer_call [] c Null m')"
        by (cases c) (simp_all add: answer_call_def process_find_in_page_result_def select_did_finish_def)
      then show ?case using Cons.IH by simp
    qed simp
    then show ?thesis by simp
  qed
  ultimately show ?thesis by (simp add: find_inv_def find_web_state_destroyed_def Let_def)
qed

lemma find_step_keeps:
  assumes "find_inv strict [] m" and "find_allowed strict m c"
  shows "\<exists>m'. find_step m c = Some m' \<and> find_inv strict [] m'"
proof (cases c)
  case (Find q options refusing)
  then show ?thesis
    using assms find_inv_search find_inv_next [OF assms(1)]
    by (cases options) (auto simp: find_in_page_def)
next
  case StopFinding
  then show ?thesis using find_inv_stop [OF assms(1)] by simp
next
  case (AnswerCall k result refusing)
  then have "k < length (in_flight m)" "result_ok (in_flight m ! k) result"
    "strict \<longrightarrow> \<not> refuses_to_continue (in_flight m ! k) result refusing"
    using assms(2) by simp_all
  then show ?thesis
    using AnswerCall answer_keeps [OF find_inv_take_call [OF assms(1)]] by simp
next
  case (RunPostedCompletion refusing)
  then obtain n where n: "posted_completions m = Suc n" using assms(2) by (cases "posted_completions m") auto
  have "find_inv False [] (m\<lparr>posted_completions := n\<rparr>)" using assms(1) by (auto simp: find_inv_def)
  then have "find_inv strict [] (last_find_request_completed refusing (m\<lparr>posted_completions := n\<rparr>))"
    using assms(1) by (rule_tac find_inv_completed) (simp_all add: find_inv_def)
  then show ?thesis using RunPostedCompletion n by simp
next
  case (FrameAvailable f is_main)
  then show ?thesis using assms find_inv_add_frame by simp
next
  case (FrameUnavailable f)
  then show ?thesis using assms find_inv_remove_frame by simp
next
  case WebStateGone
  then show ?thesis using find_inv_gone [OF assms(1)] by simp
qed

interpretation find_machine: total_machine find_step "find_allowed strict" "find_inv strict []" for strict
  by unfold_locales (use find_step_keeps in fastforce)+

end
