(* ===== verification/FindInPageProps.thy ===== *)
theory FindInPageProps
  imports FindInPageMachine
begin

text \<open>
  What searching a page promises, and what a late answer does.
\<close>

section \<open>Searches return and complete\<close>

lemma reached_inv:
  "legal find_step (find_allowed strict) (new_find_manager d) cs m \<Longrightarrow> find_inv strict [] m"
  by (rule find_machine.legal_inv [OF _ find_inv_new])

text \<open>
  C30. Whatever the user asks, the frames answer and whichever frames come and go, every
  operation of a search returns: no check fails, no iterator at the end is dereferenced and the
  loops over the frames end. While the page lives the frames of the request are those of the page,
  no count is negative, and the total that is reported is the sum of their counts.
\<close>

theorem search_never_hangs:
  assumes "legal find_step (find_allowed False) (new_find_manager d) cs m" and "find_allowed False m c"
  shows "\<exists>m'. find_step m c = Some m' \<and> (web_state_alive m' \<longrightarrow>
    set (frame_order (last_find_request m')) = set (web_frames m') \<and>
    (\<forall>f. 0 \<le> count_of (last_find_request m') f) \<and>
    get_total_match_count (last_find_request m') = (\<Sum>f \<in> set (web_frames m'). count_of (last_find_request m') f))"
proof -
  obtain m' where m': "find_step m c = Some m'" "find_inv False [] m'"
    using find_step_keeps [OF reached_inv [OF assms(1)] assms(2)] by blast
  then have ok: "request_ok (last_find_request m')"
    and frames: "web_state_alive m' \<longrightarrow> set (web_frames m') = set (frame_order (last_find_request m'))"
    by (simp_all add: find_inv_def)
  have "distinct (frame_order (last_find_request m'))" using ok by (simp add: request_ok_def)
  then show ?thesis using m'(1) ok frames
    by (auto simp: total_eq count_of_nonneg sum_list_distinct_conv_sum_set)
qed

text \<open>
  C31. If no frame refuses to continue a search it has begun, the current search has been
  reported to the delegate as soon as none of its calls is in flight and no completion is
  posted; calls of earlier searches do not matter.
\<close>

theorem every_search_completes:
  assumes "legal find_step (find_allowed True) (new_find_manager d) cs m" and "web_state_alive m"
    and "query (last_find_request m) \<noteq> None" and "posted_completions m = 0"
    and "\<forall>f. FindCall f (unique_id (last_find_request m)) \<notin> set (in_flight m)"
  shows "unique_id (last_find_request m) \<in> set (completed m)"
proof -
  have inv: "find_inv True [] m" by (rule reached_inv [OF assms(1)])
  have "\<not> is_current (request_id m) c" if "c \<in> set (in_flight m)" for c
    using assms(5) that by (cases c) auto
  then have "waiting (request_id m) (in_flight m) = 0" by (simp add: waiting_def)
  then show ?thesis using inv assms(2-4) by (auto simp: find_inv_def)
qed

section \<open>Late answers\<close>

lemma skip_elsewhere:
  assumes "distinct order" and "f \<in> set order" and "h \<in> set order" and "h \<noteq> f" and "count h \<noteq> 0"
  shows "\<exists>g \<in> set order. g \<noteq> f \<and> skip_empty_frames (next_frame order) count f = Some g"
proof -
  obtain pre post where o: "order = pre @ f # post" using assms(2) by (meson split_list)
  then have f: "f \<notin> set pre" "f \<notin> set post" using assms(1) by auto
  show ?thesis
  proof (cases "\<exists>g \<in> set post. count g \<noteq> 0")
    case True
    then obtain z g w where "post = z @ g # w" "count g \<noteq> 0" "\<forall>x \<in> set z. \<not> count x \<noteq> 0"
      using split_list_first_prop [of post "\<lambda>g. count g \<noteq> 0"] by blast
    then show ?thesis using skip_ahead [OF assms(1), of pre f z g w count] o f by (intro bexI [of _ g]) auto
  next
    case False
    then have "\<exists>g \<in> set pre. count g \<noteq> 0" using assms(3-5) o by auto
    then obtain z g w where "pre = z @ g # w" "count g \<noteq> 0" "\<forall>x \<in> set z. \<not> count x \<noteq> 0"
      using split_list_first_prop [of pre "\<lambda>g. count g \<noteq> 0"] by blast
    then show ?thesis using skip_around [OF assms(1) o, of count z g "w @ f # post"] False o f
      by (intro bexI [of _ g]) auto
  qed
qed

lemma total_set_count:
  assumes "request_ok r" and "g \<in> set (frame_order r)" and "0 \<le> n"
  shows "get_total_match_count (set_match_count_for_frame n g r) = get_total_match_count r - count_of r g + n"
proof -
  have d: "distinct (frame_order r)" using assms(1) by (simp add: request_ok_def)
  have ok: "request_ok (set_match_count_for_frame n g r)"
    using request_ok_set_count [OF assms(1,3)] assms(2) by simp
  have "(\<Sum>f \<in> set (frame_order r). if f = g then n else count_of r f) =
      n + sum (count_of r) (set (frame_order r) - {g})"
    using assms(2) by (subst sum.remove [of _ g]) (auto intro!: sum.cong)
  moreover have "sum (count_of r) (set (frame_order r)) = count_of r g + sum (count_of r) (set (frame_order r) - {g})"
    using assms(2) by (intro sum.remove) simp_all
  ultimately show ?thesis
    by (simp add: total_eq [OF assms(1)] total_eq [OF ok] sum_list_distinct_conv_sum_set [OF d] count_of_set_count)
qed

text \<open>
  The answer to a selection is taken for the frame that is selected when it arrives. So
  when the user goes on from the last match of a frame before the selection of that match has
  been answered, its answer overwrites the count of the next frame, and a wrong total is reported.
\<close>

theorem late_selection_miscounts_other_frame:
  assumes "legal find_step (find_allowed False) (new_find_manager True) cs m" and "web_state_alive m"
    and "selected_frame (last_find_request m) = Some f"
    and "selected_match (last_find_request m) + 1 = count_of (last_find_request m) f"
    and "h \<in> set (web_frames m)" and "h \<noteq> f" and "count_of (last_find_request m) h \<noteq> 0"
    and "k < length (in_flight m)" and "in_flight m ! k = SelectCall f" and "delegate_set m"
  shows "\<exists>g m1 m2. g \<in> set (web_frames m) \<and> g \<noteq> f \<and> find_step m (Find None FindInPageNext []) = Some m1 \<and>
    selected_frame (last_find_request m1) = Some g \<and>
    find_step m1 (AnswerCall k (Dictionary (Some (count_of (last_find_request m) f)) (Some i) s) []) = Some m2 \<and>
    count_of (last_find_request m2) g = count_of (last_find_request m) f \<and>
    (count_of (last_find_request m) g \<noteq> count_of (last_find_request m) f \<longrightarrow>
       DidHighlightMatches (get_total_match_count (last_find_request m) - count_of (last_find_request m) g +
         count_of (last_find_request m) f) (query (last_find_request m)) \<in> set (reports m2))"
proof -
  let ?r = "last_find_request m" and ?n = "count_of (last_find_request m) f"
  have inv: "find_inv False [] m" by (rule reached_inv [OF assms(1)])
  then have ok: "request_ok ?r" and frames: "set (web_frames m) = set (frame_order ?r)"
    using assms(2) by (simp_all add: find_inv_def)
  have d: "distinct (frame_order ?r)" and f: "f \<in> set (frame_order ?r)"
    using ok assms(3) by (simp_all add: request_ok_def)
  obtain g where g: "g \<in> set (frame_order ?r)" "g \<noteq> f"
    "skip_empty_frames (next_frame (frame_order ?r)) (count_of ?r) f = Some g"
    using skip_elsewhere [where count = "count_of ?r", OF d f _ assms(6,7)] assms(5) frames by auto
  have total: "get_total_match_count ?r \<noteq> 0"
    using zeros_of_sum [OF ok, of "frame_order ?r"] assms(5,7) frames total_eq [OF ok] by auto
  have nn: "0 \<le> ?n" by (rule count_of_nonneg [OF ok])
  let ?r1 = "select_at g 0 ?r"
  have "go_to_next_match ?r = Some (?r1, True)"
    using total assms(3,4) g(3) by (simp add: go_to_next_match_def iterator_or_begin_def)
  then obtain m1 where m1: "find_step m (Find None FindInPageNext []) = Some m1" "last_find_request m1 = ?r1"
    "take (length (in_flight m)) (in_flight m1) = in_flight m" "delegate_set m1"
    using frames g(1) assms(10)
    by (simp add: find_in_page_def select_next_match_def select_current_match_def)
  have k: "k < length (in_flight m1)" "in_flight m1 ! k = SelectCall f"
  proof -
    have "length (in_flight m) \<le> length (in_flight m1)" using arg_cong [OF m1(3), of length] by simp
    then show "k < length (in_flight m1)" using assms(8) by simp
    show "in_flight m1 ! k = SelectCall f" using assms(8,9) m1(3) nth_take [OF assms(8), of "in_flight m1"] by simp
  qed
  let ?m = "m1\<lparr>in_flight := take k (in_flight m1) @ drop (Suc k) (in_flight m1)\<rparr>"
  let ?m2 = "select_did_finish (Dictionary (Some ?n) (Some i) s) ?m"
  have "find_step m1 (AnswerCall k (Dictionary (Some ?n) (Some i) s) []) = Some ?m2"
    using k by (simp add: answer_call_def)
  moreover have sel: "get_match_count_for_selected_frame ?r1 = count_of ?r g"
    by (simp add: get_match_count_for_selected_frame_def)
  have "count_of (last_find_request ?m2) g = ?n"
    using sel m1(2) by (simp add: select_did_finish_def report_matches_def count_of_def
        set_match_count_for_selected_frame_def set_match_count_for_frame_def update_conv' Let_def)
  moreover have "DidHighlightMatches (get_total_match_count ?r - count_of ?r g + ?n) (query ?r) \<in> set (reports ?m2)"
    if "count_of ?r g \<noteq> ?n"
  proof -
    have "get_total_match_count (set_match_count_for_frame ?n g ?r1) = get_total_match_count ?r - count_of ?r g + ?n"
      using total_set_count [OF request_ok_select [OF ok g(1), of 0] _ nn, of g] g(1) total_eq [OF ok]
      by (simp add: get_total_match_count_def)
    then show ?thesis using that sel m1(2,4)
      by (simp add: select_did_finish_def report_matches_def report_def set_match_count_for_selected_frame_def Let_def)
  qed
  ultimately show ?thesis using g(1,2) frames m1(1,2) by (intro exI [of _ g] exI [of _ m1] exI [of _ ?m2]) auto
qed

text \<open>
  The task that completes a search without frames is not bound to its search. A search
  that is started before the task runs, with frames to answer, is reported at once as having no
  match, while its calls are in flight.
\<close>

theorem stale_completion_reports_new_search:
  assumes "legal find_step (find_allowed False) (new_find_manager True) cs m" and "web_state_alive m"
    and "0 < posted_completions m" and "delegate_set m" and "f \<in> set (web_frames m)" and "f \<notin> set refusing"
  shows "\<exists>m1 m2. find_step m (Find (Some q) FindInPageSearch refusing) = Some m1 \<and>
    find_step m1 (RunPostedCompletion []) = Some m2 \<and>
    reports m2 = reports m @ [DidHighlightMatches 0 (Some q)] \<and>
    FindCall f (unique_id (last_find_request m2)) \<in> set (in_flight m2)"
proof -
  define r where "r = reset_request (Some q) (int (length (web_frames m))) (last_find_request m)"
  define m0 where "m0 = m\<lparr>last_find_request := r\<rparr>"
  have "pending m0 = int (length (web_frames m))" by (simp add: m0_def r_def reset_request_def)
  then have s: "find_step m (Find (Some q) FindInPageSearch refusing) = Some (search_frames refusing (web_frames m) m0)"
    using assms(5) by (auto simp: find_in_page_def start_search_def m0_def r_def Let_def)
  define m1 where "m1 = search_frames refusing (web_frames m) m0"
  have m1: "last_find_request m1 = r\<lparr>pending_frame_call_count := pending m1\<rparr>" "delegate_set m1" "reports m1 = reports m"
    and posted: "posted_completions m \<le> posted_completions m1"
    and call: "FindCall f (unique_id r) \<in> set (in_flight m1)"
    using search_frames_eq [of "web_frames m" m0 refusing] assms(4-6) \<open>pending m0 = _\<close> by (simp_all add: m1_def m0_def)
  obtain n where n: "posted_completions m1 = Suc n" using posted assms(3) by (cases "posted_completions m1") auto
  obtain p where p: "last_find_request m1 = r\<lparr>pending_frame_call_count := p\<rparr>" using m1(1) by blast
  have "get_total_match_count r = 0" "query r = Some q" by (simp_all add: r_def total_reset) (simp add: reset_request_def)
  then have total: "get_total_match_count (last_find_request m1) = 0" "query (last_find_request m1) = Some q"
    "request_id m1 = unique_id r"
    by (simp_all add: p get_total_match_count_def)
  define m2 where "m2 = report_matches (m1\<lparr>posted_completions := n, completed := completed m1 @ [request_id m1]\<rparr>)"
  have "find_step m1 (RunPostedCompletion []) = Some m2"
    using total by (simp add: n last_find_request_completed_def Let_def m2_def report_matches_def)
  moreover have "reports m2 = reports m @ [DidHighlightMatches 0 (Some q)]" "request_id m2 = unique_id r"
    "in_flight m2 = in_flight m1"
    using total m1(2,3) by (simp_all add: m2_def report_matches_def report_def)
  ultimately show ?thesis using s call by (auto simp: m1_def)
qed

text \<open>
  The answer to a selection is not bound to its search either: it is reported as the
  selected match of a search that was started meanwhile, before that search has any match.
\<close>

theorem old_selection_reported_for_new_search:
  assumes "legal find_step (find_allowed False) (new_find_manager True) cs m" and "web_state_alive m"
    and "k < length (in_flight m)" and "in_flight m ! k = SelectCall f" and "delegate_set m"
    and "web_frames m \<noteq> []" and "0 \<le> n" and "0 \<le> i"
  shows "\<exists>m1 m2. find_step m (Find (Some q) FindInPageSearch []) = Some m1 \<and>
    find_step m1 (AnswerCall k (Dictionary (Some n) (Some i) (Some s)) []) = Some m2 \<and>
    reports m2 = reports m @ [DidHighlightMatches 0 (Some q), DidSelectMatch i s] \<and>
    selected_frame (last_find_request m2) = None"
proof -
  define r where "r = reset_request (Some q) (int (length (web_frames m))) (last_find_request m)"
  define m0 where "m0 = m\<lparr>last_find_request := r\<rparr>"
  have "search_frames [] (web_frames m) m0 = m0\<lparr>in_flight := in_flight m @
      map (\<lambda>f. FindCall f (unique_id r)) (web_frames m)\<rparr>"
    using search_frames_eq [of "web_frames m" m0 "[]"] assms(6) by (simp add: m0_def r_def reset_request_def)
  then have s: "find_step m (Find (Some q) FindInPageSearch []) = Some (m0\<lparr>in_flight := in_flight m @
      map (\<lambda>f. FindCall f (unique_id r)) (web_frames m)\<rparr>)"
    using assms(6) by (simp add: find_in_page_def start_search_def m0_def r_def Let_def)
  have none: "selected_frame r = None" "query r = Some q" by (simp_all add: r_def reset_request_def)
  have total: "get_total_match_count r = 0" by (simp add: r_def total_reset)
  have "map (count_of r) fs = map (\<lambda>_. 0) fs" for fs by (simp add: r_def count_of_reset)
  then have page: "get_current_selected_match_page_index (r\<lparr>selected_match := i\<rparr>) = i"
    using none(1) assms(8) by (simp add: get_current_selected_match_page_index_def count_of_def [abs_def] del: map_eq_conv)
  show ?thesis
    using s none total page assms(3-5,7)
    by (simp add: answer_call_def nth_append select_did_finish_def report_matches_def report_def m0_def
        get_match_count_for_selected_frame_def set_match_count_for_selected_frame_def Let_def)
qed

section \<open>Concrete searches\<close>

text \<open>A page with two frames and a search that finds two matches in the first and one in the second.\<close>

definition two_frames :: "find_op list" where
  "two_frames = [FrameAvailable ''a'' True, FrameAvailable ''b'' False]"

definition search_two_frames :: "find_op list" where
  "search_two_frames = two_frames @ [Find (Some ''x'') FindInPageSearch [], AnswerCall 0 (Number 2) [],
     AnswerCall 0 (Number 1) []]"

abbreviation run_find :: "bool \<Rightarrow> find_op list \<Rightarrow> find_manager option" where
  "run_find strict cs \<equiv> run_checked find_step (find_allowed strict) (new_find_manager True) cs"

theorem search_never_hangs_witness:
  "\<exists>m m'. run find_step (new_find_manager True) search_two_frames = Some m \<and>
    find_step m (Find None FindInPagePrevious []) = Some m' \<and> get_total_match_count (last_find_request m') =
      (\<Sum>f \<in> set (web_frames m'). count_of (last_find_request m') f)"
proof -
  have "case run_find False search_two_frames of None \<Rightarrow> False | Some m \<Rightarrow>
      find_allowed False m (Find None FindInPagePrevious []) \<and>
      (case find_step m (Find None FindInPagePrevious []) of None \<Rightarrow> False | Some m' \<Rightarrow> web_state_alive m')"
    by code_simp
  then obtain m where m: "legal find_step (find_allowed False) (new_find_manager True) search_two_frames m"
    "find_allowed False m (Find None FindInPagePrevious []) \<and>
      (case find_step m (Find None FindInPagePrevious []) of None \<Rightarrow> False | Some m' \<Rightarrow> web_state_alive m')"
    by (rule run_checked_witness)
  then show ?thesis using search_never_hangs [OF m(1), of "Find None FindInPagePrevious []"] legal_run [OF m(1)]
    by auto
qed

theorem every_search_completes_witness:
  "\<exists>m. run find_step (new_find_manager True) search_two_frames = Some m \<and>
    unique_id (last_find_request m) \<in> set (completed m)"
proof -
  have "case run_find True search_two_frames of None \<Rightarrow> False | Some m \<Rightarrow> web_state_alive m \<and>
      query (last_find_request m) = Some ''x'' \<and> posted_completions m = 0 \<and> in_flight m = [SelectCall ''a'']"
    by code_simp
  then obtain m where m: "legal find_step (find_allowed True) (new_find_manager True) search_two_frames m"
    "web_state_alive m \<and> query (last_find_request m) = Some ''x'' \<and> posted_completions m = 0 \<and>
      in_flight m = [SelectCall ''a'']"
    by (rule run_checked_witness)
  then show ?thesis using every_search_completes [OF m(1)] legal_run [OF m(1)] by auto
qed

theorem late_selection_miscounts_other_frame_witness:
  "\<exists>m m1 m2. run find_step (new_find_manager True) (search_two_frames @ [Find None FindInPageNext []]) = Some m \<and>
    find_step m (Find None FindInPageNext []) = Some m1 \<and>
    find_step m1 (AnswerCall 1 (Dictionary (Some 2) (Some 1) None) []) = Some m2 \<and>
    get_total_match_count (last_find_request m) = 3 \<and> DidHighlightMatches 4 (Some ''x'') \<in> set (reports m2)"
proof -
  let ?cs = "search_two_frames @ [Find None FindInPageNext []]"
  have "case run_find False ?cs of None \<Rightarrow> False | Some m \<Rightarrow> web_state_alive m \<and>
      web_frames m = [''a'', ''b''] \<and> in_flight m = [SelectCall ''a'', SelectCall ''a''] \<and> delegate_set m \<and>
      frame_match_count (last_find_request m) = [(''a'', 2), (''b'', 1)] \<and> query (last_find_request m) = Some ''x'' \<and>
      selected_frame (last_find_request m) = Some ''a'' \<and> selected_match (last_find_request m) = 1"
    by code_simp
  then obtain m where m: "legal find_step (find_allowed False) (new_find_manager True) ?cs m"
    "web_state_alive m \<and> web_frames m = [''a'', ''b''] \<and> in_flight m = [SelectCall ''a'', SelectCall ''a''] \<and>
      delegate_set m \<and> frame_match_count (last_find_request m) = [(''a'', 2), (''b'', 1)] \<and>
      query (last_find_request m) = Some ''x'' \<and>
      selected_frame (last_find_request m) = Some ''a'' \<and> selected_match (last_find_request m) = 1"
    by (rule run_checked_witness)
  then have c: "count_of (last_find_request m) ''a'' = 2" "count_of (last_find_request m) ''b'' = 1"
    "\<And>g. g \<noteq> ''a'' \<Longrightarrow> g \<noteq> ''b'' \<Longrightarrow> count_of (last_find_request m) g = 0"
    and t: "get_total_match_count (last_find_request m) = 3"
    by (simp_all add: count_of_def get_total_match_count_def)
  have h: "web_state_alive m" "selected_frame (last_find_request m) = Some ''a''"
    "selected_match (last_find_request m) + 1 = count_of (last_find_request m) ''a''" "''b'' \<in> set (web_frames m)"
    "''b'' \<noteq> ''a''" "count_of (last_find_request m) ''b'' \<noteq> 0" "1 < length (in_flight m)"
    "in_flight m ! 1 = SelectCall ''a''" "delegate_set m"
    using m(2) c by simp_all
  obtain g m1 m2 where g: "g \<in> set (web_frames m)" "g \<noteq> ''a''" "find_step m (Find None FindInPageNext []) = Some m1"
    "find_step m1 (AnswerCall 1 (Dictionary (Some (count_of (last_find_request m) ''a'')) (Some 1) None) []) = Some m2"
    "count_of (last_find_request m) g \<noteq> count_of (last_find_request m) ''a'' \<longrightarrow>
       DidHighlightMatches (get_total_match_count (last_find_request m) - count_of (last_find_request m) g +
         count_of (last_find_request m) ''a'') (query (last_find_request m)) \<in> set (reports m2)"
    using late_selection_miscounts_other_frame [OF m(1) h, of 1 None] by blast
  then have "g = ''b''" using m(2) by simp
  then have "DidHighlightMatches 4 (Some ''x'') \<in> set (reports m2)" using g(5) c t m(2) by simp
  then show ?thesis using g(3,4) c(1) t legal_run [OF m(1)] by auto
qed

theorem stale_completion_reports_new_search_witness:
  "\<exists>m m1 m2. run find_step (new_find_manager True) (Find (Some ''x'') FindInPageSearch [] # two_frames) = Some m \<and>
    find_step m (Find (Some ''y'') FindInPageSearch []) = Some m1 \<and> find_step m1 (RunPostedCompletion []) = Some m2 \<and>
    reports m2 = reports m @ [DidHighlightMatches 0 (Some ''y'')]"
proof -
  let ?cs = "Find (Some ''x'') FindInPageSearch [] # two_frames"
  have "case run_find False ?cs of None \<Rightarrow> False | Some m \<Rightarrow> web_state_alive m \<and> 0 < posted_completions m \<and>
      delegate_set m \<and> ''a'' \<in> set (web_frames m)"
    by code_simp
  then obtain m where m: "legal find_step (find_allowed False) (new_find_manager True) ?cs m"
    "web_state_alive m \<and> 0 < posted_completions m \<and> delegate_set m \<and> ''a'' \<in> set (web_frames m)"
    by (rule run_checked_witness)
  then show ?thesis
    using stale_completion_reports_new_search [OF m(1), of "''a''" "[]" "''y''"] legal_run [OF m(1)] by auto
qed

theorem old_selection_reported_for_new_search_witness:
  "\<exists>m m1 m2. run find_step (new_find_manager True) search_two_frames = Some m \<and>
    find_step m (Find (Some ''y'') FindInPageSearch []) = Some m1 \<and>
    find_step m1 (AnswerCall 0 (Dictionary (Some 2) (Some 0) (Some ''s'')) []) = Some m2 \<and>
    reports m2 = reports m @ [DidHighlightMatches 0 (Some ''y''), DidSelectMatch 0 ''s'']"
proof -
  have "case run_find False search_two_frames of None \<Rightarrow> False | Some m \<Rightarrow> web_state_alive m \<and>
      in_flight m = [SelectCall ''a''] \<and> delegate_set m \<and> web_frames m = [''a'', ''b'']"
    by code_simp
  then obtain m where m: "legal find_step (find_allowed False) (new_find_manager True) search_two_frames m"
    "web_state_alive m \<and> in_flight m = [SelectCall ''a''] \<and> delegate_set m \<and> web_frames m = [''a'', ''b'']"
    by (rule run_checked_witness)
  then show ?thesis
    using old_selection_reported_for_new_search [OF m(1), of 0 "''a''" 2 0 "''y''" "''s''"] legal_run [OF m(1)]
    by auto
qed

end
