(* ===== verification/NavItems.thy ===== *)
theory NavItems
  imports ErrorRetry Referrers CertPolicies UrlHelpers Complex_Main "HOL-Library.AList" "HOL-Library.Word"
begin

unbundle bit_operations_syntax

text \<open>
  The items of the navigation history: \<open>web/navigation/navigation_item_impl.{h,mm}\<close>, the display
  state of their pages (\<open>web/ui/page_display_state.mm\<close>), the rewriters of their URLs
  (\<open>web/browser_url_rewriter_impl.mm\<close>) and the user agent types (\<open>web/common/user_agent.mm\<close>).

  The argument \<open>env\<close> holds the URL library, the feature flags, the constants of
  \<open>ui::PageTransition\<close> and the rewriters the embedder has registered.
\<close>

section \<open>The environment\<close>

type_synonym url_rewriter = "nav_url \<Rightarrow> bool \<times> nav_url"

record nav_env =
  nav_urls :: url_env
  nav_origin :: "nav_url \<Rightarrow> string"
  equals_ignoring_ref :: "nav_url \<Rightarrow> nav_url \<Rightarrow> bool"
  url_content :: "nav_url \<Rightarrow> nav_url"
  client_url_rewriters :: "url_rewriter list"
  should_block_url :: "nav_url \<Rightarrow> bool"
  use_wk_web_view_loading :: bool
  use_default_user_agent_in_web_client :: bool
  running_on_ios13_or_later :: bool
  page_transition_link :: "32 word"
  page_transition_reload :: "32 word"
  page_transition_forward_back :: "32 word"
  page_transition_client_redirect :: "32 word"
  page_transition_core_mask :: "32 word"
  page_transition_is_redirect_mask :: "32 word"
  format_url :: "nav_url \<Rightarrow> string"
  elide_string :: "string \<Rightarrow> nat \<Rightarrow> string"
  clone_user_data :: "nat \<Rightarrow> nat"

abbreviation restore_url :: "nav_env \<Rightarrow> nav_url \<Rightarrow> bool" where
  "restore_url env \<equiv> is_restore_session_url (nav_urls env)"

abbreviation app_specific :: "nav_env \<Rightarrow> nav_url \<Rightarrow> bool" where
  "app_specific env \<equiv> is_app_specific_url (nav_urls env)"

definition page_transition_core_type_is :: "nav_env \<Rightarrow> 32 word \<Rightarrow> 32 word \<Rightarrow> bool" where
  "page_transition_core_type_is env lhs rhs =
     (lhs AND page_transition_core_mask env = rhs AND page_transition_core_mask env)"

section \<open>Rewriting of URLs\<close>

text \<open>A rewriter may change the URL also when it returns false.\<close>

fun rewrite_url_with_writers :: "url_rewriter list \<Rightarrow> nav_url \<Rightarrow> bool \<times> nav_url" where
  "rewrite_url_with_writers [] url = (False, url)"
| "rewrite_url_with_writers (rewriter # rewriters) url =
     (let (rewritten, url1) = rewriter url
      in if rewritten then (True, url1) else rewrite_url_with_writers rewriters url1)"

definition handle_view_source :: "nav_env \<Rightarrow> url_rewriter" where
  "handle_view_source env url =
     (if nav_scheme (nav_urls env) url = ''view-source'' then (True, url_content env url)
      else (False, url))"

definition browser_url_rewriters :: "nav_env \<Rightarrow> url_rewriter list" where
  "browser_url_rewriters env = client_url_rewriters env @ [handle_view_source env]"

definition rewrite_url_if_necessary :: "nav_env \<Rightarrow> nav_url \<Rightarrow> bool \<times> nav_url" where
  "rewrite_url_if_necessary env url = rewrite_url_with_writers (browser_url_rewriters env) url"

section \<open>User agent types\<close>

datatype user_agent_type = UA_NONE | UA_AUTOMATIC | UA_MOBILE | UA_DESKTOP

definition get_user_agent_type_description :: "nav_env \<Rightarrow> user_agent_type \<Rightarrow> string option" where
  "get_user_agent_type_description env type =
     (case type of
        UA_AUTOMATIC \<Rightarrow> do {
          dcheck (use_default_user_agent_in_web_client env);
          Some ''AUTOMATIC''
        }
      | UA_NONE \<Rightarrow> Some ''NONE''
      | UA_MOBILE \<Rightarrow> Some ''MOBILE''
      | UA_DESKTOP \<Rightarrow> Some ''DESKTOP'')"

definition get_user_agent_type_with_description :: "string \<Rightarrow> user_agent_type" where
  "get_user_agent_type_with_description description =
     (if description = ''MOBILE'' then UA_MOBILE
      else if description = ''DESKTOP'' then UA_DESKTOP
      else UA_NONE)"

section \<open>The display state of a page\<close>

text \<open>A \<open>CGFloat\<close> that may be \<open>NAN\<close>: \<^term>\<open>None\<close> is \<open>NAN\<close>.\<close>

type_synonym cg_float = "rat option"

record page_scroll_state =
  content_offset :: "cg_float \<times> cg_float"
  content_inset :: "cg_float \<times> cg_float \<times> cg_float \<times> cg_float"

record page_zoom_state =
  minimum_zoom_scale :: cg_float
  maximum_zoom_scale :: cg_float
  zoom_scale :: cg_float

record page_display_state =
  scroll_state :: page_scroll_state
  zoom_state :: page_zoom_state

definition new_page_scroll_state :: page_scroll_state where
  "new_page_scroll_state = \<lparr>content_offset = (None, None), content_inset = (None, None, None, None)\<rparr>"

definition new_page_zoom_state :: page_zoom_state where
  "new_page_zoom_state = \<lparr>minimum_zoom_scale = None, maximum_zoom_scale = None, zoom_scale = None\<rparr>"

definition new_page_display_state :: page_display_state where
  "new_page_display_state = \<lparr>scroll_state = new_page_scroll_state, zoom_state = new_page_zoom_state\<rparr>"

definition scroll_state_is_valid :: "page_scroll_state \<Rightarrow> bool" where
  "scroll_state_is_valid s =
     (let (x, y) = content_offset s; (t, l, b, r) = content_inset s
      in x \<noteq> None \<and> y \<noteq> None \<and> t \<noteq> None \<and> l \<noteq> None \<and> b \<noteq> None \<and> r \<noteq> None)"

definition zoom_state_is_valid :: "page_zoom_state \<Rightarrow> bool" where
  "zoom_state_is_valid z =
     (case (minimum_zoom_scale z, maximum_zoom_scale z, zoom_scale z) of
        (Some low, Some high, Some zoom) \<Rightarrow> zoom \<ge> low \<and> zoom \<le> high
      | _ \<Rightarrow> False)"

definition display_state_is_valid :: "page_display_state \<Rightarrow> bool" where
  "display_state_is_valid d = (scroll_state_is_valid (scroll_state d) \<and> zoom_state_is_valid (zoom_state d))"

text \<open>
  The dictionary an \<open>NSDictionary\<close> holds for a display state: the values of the current keys and
  of the deprecated ones, absent ones \<^term>\<open>None\<close>.
\<close>

record display_serialization =
  content_offset_value :: "(cg_float \<times> cg_float) option"
  content_inset_value :: "(cg_float \<times> cg_float \<times> cg_float \<times> cg_float) option"
  min_zoom_value :: "cg_float option"
  max_zoom_value :: "cg_float option"
  zoom_value :: "cg_float option"
  deprecated_x_offset :: "cg_float option"
  deprecated_y_offset :: "cg_float option"

definition get_float_value :: "cg_float option \<Rightarrow> cg_float" where
  "get_float_value value = (case value of Some x \<Rightarrow> x | None \<Rightarrow> None)"

definition get_content_offset :: "display_serialization \<Rightarrow> cg_float \<times> cg_float" where
  "get_content_offset s =
     (case content_offset_value s of
        Some offset \<Rightarrow> offset
      | None \<Rightarrow> (get_float_value (deprecated_x_offset s), get_float_value (deprecated_y_offset s)))"

definition get_content_inset :: "display_serialization \<Rightarrow> cg_float \<times> cg_float \<times> cg_float \<times> cg_float" where
  "get_content_inset s =
     (case content_inset_value s of
        Some inset \<Rightarrow> inset
      | None \<Rightarrow>
          if deprecated_x_offset s \<noteq> None \<and> deprecated_y_offset s \<noteq> None
          then (Some 0, Some 0, Some 0, Some 0)
          else (None, None, None, None))"

definition display_state_of_serialization :: "display_serialization \<Rightarrow> page_display_state" where
  "display_state_of_serialization s =
     \<lparr>scroll_state = \<lparr>content_offset = get_content_offset s, content_inset = get_content_inset s\<rparr>,
      zoom_state = \<lparr>minimum_zoom_scale = get_float_value (min_zoom_value s),
                    maximum_zoom_scale = get_float_value (max_zoom_value s),
                    zoom_scale = get_float_value (zoom_value s)\<rparr>\<rparr>"

definition get_serialization :: "page_display_state \<Rightarrow> display_serialization" where
  "get_serialization d =
     \<lparr>content_offset_value = Some (content_offset (scroll_state d)),
      content_inset_value = Some (content_inset (scroll_state d)),
      min_zoom_value = Some (minimum_zoom_scale (zoom_state d)),
      max_zoom_value = Some (maximum_zoom_scale (zoom_state d)),
      zoom_value = Some (zoom_scale (zoom_state d)),
      deprecated_x_offset = None, deprecated_y_offset = None\<rparr>"

section \<open>Navigation items\<close>

datatype navigation_initiation_type =
    INITIATION_NONE
  | RENDERER_INITIATED
  | BROWSER_INITIATED

text \<open>\<open>nil\<close> is \<^term>\<open>None\<close>; a dictionary is an association list. The icon is only carried.\<close>

type_synonym http_headers = "(string \<times> string) list"

record navigation_item =
  unique_id :: int
  original_request_url :: nav_url
  ni_url :: nav_url
  ni_referrer :: "nav_url referrer"
  ni_virtual_url :: nav_url
  ni_title :: string
  ni_display_state :: page_display_state
  transition_type :: "32 word"
  ni_favicon :: string
  ni_ssl :: ssl_status
  timestamp :: int
  ni_user_agent_type :: user_agent_type
  user_agent_type_inheritance :: user_agent_type
  http_request_headers :: "http_headers option"
  serialized_state_object :: "string option"
  is_created_from_push_state :: bool
  has_state_been_replaced :: bool
  is_created_from_hash_change :: bool
  should_skip_repost_form_confirmation :: bool
  should_skip_serialization :: bool
  ni_post_data :: "string option"
  item_error_machine :: error_retry_state_machine
  initiation_type :: navigation_initiation_type
  is_untrusted :: bool
  cached_display_title :: string

definition new_referrer :: "nav_url referrer" where
  "new_referrer = \<lparr>referrer_url = [], policy_of = ReferrerPolicyDefault\<rparr>"

text \<open>The argument \<open>n\<close> is the next value of the counter of \<open>GetUniqueIDInConstructor\<close>.\<close>

definition new_navigation_item :: "nav_env \<Rightarrow> int \<Rightarrow> navigation_item" where
  "new_navigation_item env n =
     (let agent = (if use_default_user_agent_in_web_client env then UA_AUTOMATIC else UA_NONE) in
      \<lparr>unique_id = n, original_request_url = [], ni_url = [], ni_referrer = new_referrer,
       ni_virtual_url = [], ni_title = [], ni_display_state = new_page_display_state,
       transition_type = page_transition_link env, ni_favicon = [], ni_ssl = new_ssl_status,
       timestamp = 0, ni_user_agent_type = agent, user_agent_type_inheritance = agent,
       http_request_headers = None, serialized_state_object = None,
       is_created_from_push_state = False, has_state_been_replaced = False,
       is_created_from_hash_change = False, should_skip_repost_form_confirmation = False,
       should_skip_serialization = False, ni_post_data = None,
       item_error_machine = new_error_retry_state_machine, initiation_type = INITIATION_NONE,
       is_untrusted = False, cached_display_title = []\<rparr>)"

text \<open>The copy keeps every field, the unique id among them.\<close>

definition copy_navigation_item :: "nav_env \<Rightarrow> navigation_item \<Rightarrow> navigation_item" where
  "copy_navigation_item env item =
     item\<lparr>ni_ssl := copy_ssl_status (clone_user_data env) (ni_ssl item),
          item_error_machine := copy_error_retry_state_machine (item_error_machine item)\<rparr>"

definition set_user_agent_type ::
  "nav_env \<Rightarrow> user_agent_type \<Rightarrow> bool \<Rightarrow> navigation_item \<Rightarrow> navigation_item option" where
  "set_user_agent_type env type update_inherited item = do {
     let item = item\<lparr>ni_user_agent_type := type\<rparr>;
     let item = (if update_inherited then item\<lparr>user_agent_type_inheritance := type\<rparr> else item);
     needed \<leftarrow> url_needs_user_agent_type (nav_urls env) (ni_url item);
     dcheck ((\<not> needed) = (ni_user_agent_type item = UA_NONE));
     Some item
   }"

definition set_item_url :: "nav_env \<Rightarrow> nav_url \<Rightarrow> navigation_item \<Rightarrow> navigation_item option" where
  "set_item_url env url item = do {
     let item = item\<lparr>ni_url := url, cached_display_title := [],
                     item_error_machine := set_url (item_error_machine item) url\<rparr>;
     needed \<leftarrow> url_needs_user_agent_type (nav_urls env) url;
     if \<not> needed then set_user_agent_type env UA_NONE True item
     else if ni_user_agent_type item = UA_NONE
     then set_user_agent_type env
            (if use_default_user_agent_in_web_client env then UA_AUTOMATIC else UA_MOBILE) True item
     else Some item
   }"

definition set_virtual_url :: "nav_url \<Rightarrow> navigation_item \<Rightarrow> navigation_item" where
  "set_virtual_url url item =
     item\<lparr>ni_virtual_url := (if url = ni_url item then [] else url), cached_display_title := []\<rparr>"

definition get_virtual_url :: "navigation_item \<Rightarrow> nav_url" where
  "get_virtual_url item = (if ni_virtual_url item = [] then ni_url item else ni_virtual_url item)"

definition set_title :: "string \<Rightarrow> navigation_item \<Rightarrow> navigation_item" where
  "set_title title item =
     (if ni_title item = title then item
      else item\<lparr>ni_title := title, cached_display_title := []\<rparr>)"

text \<open>\<open>rfind('/')\<close>; \<^term>\<open>None\<close> is \<open>npos\<close>.\<close>

definition rfind_slash :: "string \<Rightarrow> nat option" where
  "rfind_slash s =
     (if CHR ''/'' \<in> set s
      then Some (length s - Suc (length (takeWhile (\<lambda>c. c \<noteq> CHR ''/'') (rev s)))) else None)"

definition kMaxTitleChars :: nat where "kMaxTitleChars = 4 * 1024"

definition get_display_title_for_url :: "nav_env \<Rightarrow> nav_url \<Rightarrow> string" where
  "get_display_title_for_url env url =
     (if url = [] then []
      else
        let title = format_url env url;
            title = (if nav_scheme (nav_urls env) url = ''file'' then
                       case rfind_slash title of
                         Some slashpos \<Rightarrow>
                           if slashpos \<noteq> length title - 1 then drop (slashpos + 1) title else title
                       | None \<Rightarrow> title
                     else title)
        in elide_string env title kMaxTitleChars)"

text \<open>The item is returned too: the title is cached in it.\<close>

definition get_title_for_display :: "nav_env \<Rightarrow> navigation_item \<Rightarrow> string \<times> navigation_item" where
  "get_title_for_display env item =
     (if ni_title item \<noteq> [] then (ni_title item, item)
      else if cached_display_title item \<noteq> [] then (cached_display_title item, item)
      else
        let title = get_display_title_for_url env
              (if nav_scheme (nav_urls env) (ni_url item) = ''file'' then ni_url item else get_virtual_url item)
        in (title, item\<lparr>cached_display_title := title\<rparr>))"

definition set_untrusted :: "navigation_item \<Rightarrow> navigation_item" where
  "set_untrusted item = item\<lparr>is_untrusted := True\<rparr>"

definition add_http_request_headers :: "http_headers option \<Rightarrow> navigation_item \<Rightarrow> navigation_item" where
  "add_http_request_headers additional item =
     (case additional of
        None \<Rightarrow> item
      | Some headers \<Rightarrow>
          (case http_request_headers item of
             Some present \<Rightarrow>
               item\<lparr>http_request_headers := Some (fold (\<lambda>(k, v) h. AList.update k v h) headers present)\<rparr>
           | None \<Rightarrow> item\<lparr>http_request_headers := Some headers\<rparr>))"

definition remove_http_request_header_for_key :: "string \<Rightarrow> navigation_item \<Rightarrow> navigation_item" where
  "remove_http_request_header_for_key key item =
     (case http_request_headers item of
        None \<Rightarrow> item
      | Some present \<Rightarrow>
          let headers = AList.delete key present
          in item\<lparr>http_request_headers := (if headers = [] then None else Some headers)\<rparr>)"

definition reset_http_request_headers :: "navigation_item \<Rightarrow> navigation_item" where
  "reset_http_request_headers item = item\<lparr>http_request_headers := None\<rparr>"

definition reset_for_commit :: "navigation_item \<Rightarrow> navigation_item" where
  "reset_for_commit item = item\<lparr>initiation_type := INITIATION_NONE\<rparr>"

end
