(* ===== verification/NavManager.thy ===== *)
theory NavManager
  imports NavItems
begin

text \<open>
  The navigation manager over the back/forward list of a \<open>WKWebView\<close>:
  \<open>web/navigation/wk_based_navigation_manager_impl.{h,mm}\<close> and its base class
  \<open>web/navigation/navigation_manager_impl.{h,mm}\<close>. This theory holds the state, the list of the
  web view with its detached cache, and the queries; the navigations are in \<open>NavLoads\<close>.

  A \<open>NavigationItem*\<close> is the place that owns the item, of type \<open>item_ref\<close>; \<^term>\<open>None\<close> is the null
  pointer. Queries that create items on the way (\<open>create_if_missing\<close>, the untrusted item)
  return the changed manager. Calls of the delegate are kept in \<open>delegate_calls\<close>, the newest
  first. \<^term>\<open>None\<close> as the outcome of an operation is a failed check or a null pointer that is
  followed.
\<close>

section \<open>The web view\<close>

text \<open>
  A \<open>WKBackForwardListItem\<close> with the \<open>NavigationItemImpl\<close> held by its
  \<open>CRWNavigationItemHolder\<close>, and what the navigation proxy shows of a web view.
\<close>

record wk_item =
  wk_url :: nav_url
  wk_title :: string
  wk_held_item :: "navigation_item option"

record web_view =
  wv_url :: nav_url
  wv_back_list :: "wk_item list"
  wv_current_item :: "wk_item option"
  wv_forward_list :: "wk_item list"

datatype wk_position = BackItem nat | CurrentItem | ForwardItem nat

definition wk_count :: "web_view \<Rightarrow> nat" where
  "wk_count w = length (wv_back_list w) + (if wv_current_item w \<noteq> None then 1 else 0)
                + length (wv_forward_list w)"

text \<open>\<open>itemAtIndex:\<close>, whose argument is relative to the current item.\<close>

definition item_at_offset :: "web_view \<Rightarrow> int \<Rightarrow> wk_position option" where
  "item_at_offset w offset =
     (if offset = 0 then (if wv_current_item w \<noteq> None then Some CurrentItem else None)
      else if offset > 0
      then (if offset \<le> int (length (wv_forward_list w)) then Some (ForwardItem (nat (offset - 1))) else None)
      else (if - offset \<le> int (length (wv_back_list w))
            then Some (BackItem (nat (int (length (wv_back_list w)) + offset))) else None))"

definition wk_item_at :: "web_view \<Rightarrow> wk_position \<Rightarrow> wk_item option" where
  "wk_item_at w pos =
     (case pos of
        BackItem i \<Rightarrow> if i < length (wv_back_list w) then Some (wv_back_list w ! i) else None
      | CurrentItem \<Rightarrow> wv_current_item w
      | ForwardItem i \<Rightarrow> if i < length (wv_forward_list w) then Some (wv_forward_list w ! i) else None)"

definition update_wk_item :: "wk_position \<Rightarrow> (wk_item \<Rightarrow> wk_item) \<Rightarrow> web_view \<Rightarrow> web_view" where
  "update_wk_item pos f w =
     (case pos of
        BackItem i \<Rightarrow> w\<lparr>wv_back_list := (wv_back_list w)[i := f (wv_back_list w ! i)]\<rparr>
      | CurrentItem \<Rightarrow> w\<lparr>wv_current_item := map_option f (wv_current_item w)\<rparr>
      | ForwardItem i \<Rightarrow> w\<lparr>wv_forward_list := (wv_forward_list w)[i := f (wv_forward_list w ! i)]\<rparr>)"

section \<open>The state\<close>

datatype item_ref =
    PendingRef
  | TransientRef
  | EmptyWindowRef
  | WebViewItemRef
  | RestoredRef
  | ContextRef
  | CachedRef nat
  | WkRef wk_position

datatype user_agent_override_option = UA_INHERIT | UA_OVERRIDE_MOBILE | UA_OVERRIDE_DESKTOP

record web_load_params =
  lp_url :: nav_url
  lp_virtual_url :: nav_url
  lp_referrer :: "nav_url referrer"
  lp_transition_type :: "32 word"
  lp_user_agent_override_option :: user_agent_override_option
  lp_is_renderer_initiated :: bool
  lp_extra_headers :: "http_headers option"
  lp_post_data :: "string option"

definition new_web_load_params :: "nav_env \<Rightarrow> nav_url \<Rightarrow> web_load_params" where
  "new_web_load_params env url =
     \<lparr>lp_url = url, lp_virtual_url = [], lp_referrer = new_referrer,
      lp_transition_type = page_transition_link env, lp_user_agent_override_option = UA_INHERIT,
      lp_is_renderer_initiated = False, lp_extra_headers = None, lp_post_data = None\<rparr>"

datatype restore_callback = DeferredLoad web_load_params | ClientCallback nat

datatype nav_delegate_call =
    ClearTransientContent
  | ClearDialogs
  | RecordPageState
  | LoadCurrentItem navigation_initiation_type
  | LoadIfNecessary
  | ReloadPage
  | ItemCommitted nav_url
  | GoToBackForwardListItem wk_position navigation_initiation_type bool
  | RanCallback nat

text \<open>
  The fields of the manager, of its \<open>WKWebViewCache\<close> and \<open>TimeSmoother\<close>; below them what it
  asks the delegate for: the web view, the pending item of the last \<open>NavigationContext\<close>, the
  URL of the document, whether the web state is loading. \<open>nav_clock\<close> is \<open>base::Time::Now()\<close>,
  \<open>nav_next_id\<close> the counter of the unique ids.
\<close>

record nav_manager =
  pending_item :: "navigation_item option"
  pending_item_index :: int
  previous_item_index :: int
  last_committed_item_index :: int
  empty_window_open_item :: "navigation_item option"
  transient_item :: "navigation_item option"
  last_committed_web_view_item :: "navigation_item option"
  nav_time_smoother :: time_smoother
  attached_to_web_view :: bool
  cached_items :: "navigation_item list"
  cached_current_item_index :: int
  is_restore_session_in_progress :: bool
  going_to_back_forward_list_item :: bool
  next_pending_url_should_skip_serialization :: nav_url
  restoration_timer :: bool
  restored_visible_item :: "navigation_item option"
  restore_session_completion_callbacks :: "restore_callback list"
  transient_url_rewriters :: "url_rewriter list"
  nav_web_view :: "web_view option"
  context_pending_item :: "navigation_item option"
  has_nav_web_state :: bool
  document_url :: nav_url
  web_state_is_loading :: bool
  nav_clock :: int
  nav_next_id :: int
  delegate_calls :: "nav_delegate_call list"

definition new_nav_manager :: nav_manager where
  "new_nav_manager =
     \<lparr>pending_item = None, pending_item_index = -1, previous_item_index = -1,
      last_committed_item_index = -1, empty_window_open_item = None, transient_item = None,
      last_committed_web_view_item = None, nav_time_smoother = new_time_smoother,
      attached_to_web_view = True, cached_items = [], cached_current_item_index = 0,
      is_restore_session_in_progress = False, going_to_back_forward_list_item = False,
      next_pending_url_should_skip_serialization = [], restoration_timer = False,
      restored_visible_item = None, restore_session_completion_callbacks = [],
      transient_url_rewriters = [], nav_web_view = None, context_pending_item = None,
      has_nav_web_state = True, document_url = [], web_state_is_loading = False, nav_clock = 0,
      nav_next_id = 1, delegate_calls = []\<rparr>"

definition call_delegate :: "nav_delegate_call \<Rightarrow> nav_manager \<Rightarrow> nav_manager" where
  "call_delegate c s = s\<lparr>delegate_calls := c # delegate_calls s\<rparr>"

definition smoothed_now :: "nav_manager \<Rightarrow> int \<times> nav_manager" where
  "smoothed_now s =
     (let (m, t) = get_smoothed_time (nav_time_smoother s) (nav_clock s)
      in (t, s\<lparr>nav_time_smoother := m\<rparr>))"

section \<open>Items and the places that own them\<close>

definition item_of :: "nav_manager \<Rightarrow> item_ref \<Rightarrow> navigation_item option" where
  "item_of s r =
     (case r of
        PendingRef \<Rightarrow> pending_item s
      | TransientRef \<Rightarrow> transient_item s
      | EmptyWindowRef \<Rightarrow> empty_window_open_item s
      | WebViewItemRef \<Rightarrow> last_committed_web_view_item s
      | RestoredRef \<Rightarrow> restored_visible_item s
      | ContextRef \<Rightarrow> context_pending_item s
      | CachedRef i \<Rightarrow> if i < length (cached_items s) then Some (cached_items s ! i) else None
      | WkRef pos \<Rightarrow>
          (case nav_web_view s of
             None \<Rightarrow> None
           | Some w \<Rightarrow> Option.bind (wk_item_at w pos) wk_held_item))"

definition update_item :: "item_ref \<Rightarrow> (navigation_item \<Rightarrow> navigation_item) \<Rightarrow> nav_manager \<Rightarrow> nav_manager" where
  "update_item r f s =
     (case r of
        PendingRef \<Rightarrow> s\<lparr>pending_item := map_option f (pending_item s)\<rparr>
      | TransientRef \<Rightarrow> s\<lparr>transient_item := map_option f (transient_item s)\<rparr>
      | EmptyWindowRef \<Rightarrow> s\<lparr>empty_window_open_item := map_option f (empty_window_open_item s)\<rparr>
      | WebViewItemRef \<Rightarrow> s\<lparr>last_committed_web_view_item := map_option f (last_committed_web_view_item s)\<rparr>
      | RestoredRef \<Rightarrow> s\<lparr>restored_visible_item := map_option f (restored_visible_item s)\<rparr>
      | ContextRef \<Rightarrow> s\<lparr>context_pending_item := map_option f (context_pending_item s)\<rparr>
      | CachedRef i \<Rightarrow> s\<lparr>cached_items := (cached_items s)[i := f (cached_items s ! i)]\<rparr>
      | WkRef pos \<Rightarrow>
          s\<lparr>nav_web_view := map_option
              (update_wk_item pos (\<lambda>x. x\<lparr>wk_held_item := map_option f (wk_held_item x)\<rparr>))
              (nav_web_view s)\<rparr>)"

text \<open>Following a pointer to read the item, or to change it: \<^term>\<open>None\<close> when it is null.\<close>

definition deref :: "nav_manager \<Rightarrow> item_ref option \<Rightarrow> navigation_item option" where
  "deref s p = Option.bind p (item_of s)"

definition set_navigation_item_in_wk_item ::
  "wk_position \<Rightarrow> navigation_item option \<Rightarrow> nav_manager \<Rightarrow> nav_manager option" where
  "set_navigation_item_in_wk_item pos item s = do {
     w \<leftarrow> nav_web_view s;
     dcheck (wk_item_at w pos \<noteq> None);
     Some (s\<lparr>nav_web_view := Some (update_wk_item pos (\<lambda>x. x\<lparr>wk_held_item := item\<rparr>) w)\<rparr>)
   }"

definition get_navigation_item_from_wk_item :: "nav_manager \<Rightarrow> wk_position option \<Rightarrow> item_ref option" where
  "get_navigation_item_from_wk_item s wk =
     (case wk of
        None \<Rightarrow> None
      | Some pos \<Rightarrow> if item_of s (WkRef pos) = None then None else Some (WkRef pos))"

section \<open>Creating items\<close>

definition is_placeholder :: "nav_env \<Rightarrow> nav_url \<Rightarrow> bool option" where
  "is_placeholder env url = is_placeholder_url (nav_urls env) url"

definition use_js :: "nav_env \<Rightarrow> bool" where
  "use_js env = use_js_for_error_page (nav_urls env)"

text \<open>\<open>None\<close> as additional rewriters is the null pointer.\<close>

definition create_navigation_item_with_rewriters ::
  "nav_env \<Rightarrow> nav_url \<Rightarrow> nav_url referrer \<Rightarrow> 32 word \<Rightarrow> navigation_initiation_type \<Rightarrow> nav_url
    \<Rightarrow> url_rewriter list option \<Rightarrow> nav_manager \<Rightarrow> (navigation_item \<times> nav_manager) option" where
  "create_navigation_item_with_rewriters env url referrer transition initiation previous_url
       additional_rewriters s = do {
     placeholder \<leftarrow> (if use_js env then Some False else is_placeholder env url);
     let loaded_url =
       (if placeholder then url
        else
          let (url_was_rewritten, url1) =
                (case additional_rewriters of
                   None \<Rightarrow> (False, url)
                 | Some rewriters \<Rightarrow> rewrite_url_with_writers rewriters url)
          in if url_was_rewritten then url1 else snd (rewrite_url_if_necessary env url1));
     let loaded_url =
       (if (initiation = RENDERER_INITIATED
            \<or> page_transition_core_type_is env transition (page_transition_reload env))
           \<and> loaded_url \<noteq> url \<and> app_specific env loaded_url \<and> \<not> app_specific env previous_url
        then url else loaded_url);
     let item = (new_navigation_item env (nav_next_id s))\<lparr>original_request_url := loaded_url\<rparr>;
     item \<leftarrow> set_item_url env loaded_url item;
     Some (item\<lparr>ni_referrer := referrer, transition_type := transition, initiation_type := initiation\<rparr>,
           s\<lparr>nav_next_id := nav_next_id s + 1\<rparr>)
   }"

definition rewrite_item_url_if_necessary :: "nav_env \<Rightarrow> navigation_item \<Rightarrow> navigation_item option" where
  "rewrite_item_url_if_necessary env item =
     (let (rewritten, url) = rewrite_url_if_necessary env (ni_url item)
      in if rewritten
         then do {
           let virtual_url = ni_url item;
           item \<leftarrow> set_item_url env url item;
           Some (set_virtual_url virtual_url item)
         }
         else Some item)"

section \<open>The list of the web view, or its cache\<close>

definition get_back_forward_list_item_count :: "nav_manager \<Rightarrow> nat" where
  "get_back_forward_list_item_count s =
     (if \<not> attached_to_web_view s then length (cached_items s)
      else case nav_web_view s of Some w \<Rightarrow> wk_count w | None \<Rightarrow> 0)"

definition get_visible_web_view_url :: "nav_manager \<Rightarrow> nav_url" where
  "get_visible_web_view_url s =
     (if \<not> attached_to_web_view s then []
      else case nav_web_view s of Some w \<Rightarrow> wv_url w | None \<Rightarrow> [])"

definition get_current_item_index :: "nav_manager \<Rightarrow> int" where
  "get_current_item_index s =
     (if \<not> attached_to_web_view s then cached_current_item_index s
      else case nav_web_view s of
        Some w \<Rightarrow> if wv_current_item w \<noteq> None then int (length (wv_back_list w)) else -1
      | None \<Rightarrow> -1)"

definition get_wk_item_at_index :: "nat \<Rightarrow> nav_manager \<Rightarrow> wk_position option option" where
  "get_wk_item_at_index index s = do {
     dcheck (attached_to_web_view s);
     Some (if index \<ge> get_back_forward_list_item_count s then None
           else case nav_web_view s of
             None \<Rightarrow> None
           | Some w \<Rightarrow> item_at_offset w (int index - get_current_item_index s))
   }"

text \<open>The URL behind a placeholder, the URL itself when it is none.\<close>

definition unwrap_placeholder :: "nav_env \<Rightarrow> nav_url \<Rightarrow> nav_url option" where
  "unwrap_placeholder env url = do {
     placeholder \<leftarrow> (if use_js env then Some False else is_placeholder env url);
     if placeholder then extract_url_from_placeholder_url (nav_urls env) url else Some url
   }"

text \<open>The item made for an entry of the list that has none.\<close>

definition new_item_for_wk_item ::
  "nav_env \<Rightarrow> wk_item \<Rightarrow> wk_item option \<Rightarrow> nav_manager \<Rightarrow> (navigation_item \<times> nav_manager) option" where
  "new_item_for_wk_item env wk prev s = do {
     let prev_url = (case prev of Some p \<Rightarrow> wk_url p | None \<Rightarrow> []);
     (item, s) \<leftarrow> create_navigation_item_with_rewriters env (wk_url wk)
       (if prev \<noteq> None then \<lparr>referrer_url = prev_url, policy_of = ReferrerPolicyAlways\<rparr> else new_referrer)
       (page_transition_link env) RENDERER_INITIATED prev_url None s;
     let (now, s) = smoothed_now s;
     let item = set_title (wk_title wk) (item\<lparr>timestamp := now\<rparr>);
     let url = ni_url item;
     item \<leftarrow>
       (if restore_url env url then do {
          target \<leftarrow> extract_target_url (nav_urls env) url;
          case target of
            None \<Rightarrow> Some item
          | Some virtual_url \<Rightarrow> do {
              virtual_url \<leftarrow> unwrap_placeholder env virtual_url;
              Some (set_virtual_url virtual_url item)
            }
        }
        else Some item);
     placeholder \<leftarrow> (if use_js env then Some False else is_placeholder env url);
     item \<leftarrow> (if placeholder then do {
                original \<leftarrow> extract_url_from_placeholder_url (nav_urls env) url;
                Some (set_virtual_url original item)
              }
              else Some item);
     Some (item, s)
   }"

text \<open>\<open>WKWebViewCache::GetNavigationItemImplAtIndex\<close>, without and with \<open>create_if_missing\<close>.\<close>

definition peek_item_at_index :: "nat \<Rightarrow> nav_manager \<Rightarrow> item_ref option option" where
  "peek_item_at_index index s =
     (if index \<ge> get_back_forward_list_item_count s then Some None
      else if \<not> attached_to_web_view s then Some (Some (CachedRef index))
      else do {
        wk \<leftarrow> get_wk_item_at_index index s;
        Some (get_navigation_item_from_wk_item s wk)
      })"

definition cache_get_item_at_index ::
  "nav_env \<Rightarrow> nat \<Rightarrow> nav_manager \<Rightarrow> (item_ref option \<times> nav_manager) option" where
  "cache_get_item_at_index env index s =
     (if index \<ge> get_back_forward_list_item_count s then Some (None, s)
      else if \<not> attached_to_web_view s then Some (Some (CachedRef index), s)
      else do {
        w \<leftarrow> nav_web_view s;
        wk \<leftarrow> get_wk_item_at_index index s;
        let item = get_navigation_item_from_wk_item s wk;
        case wk of
          None \<Rightarrow> Some (None, s)
        | Some pos \<Rightarrow>
            if item \<noteq> None then Some (item, s)
            else do {
              prev \<leftarrow> (if index = 0 then Some None else get_wk_item_at_index (index - 1) s);
              x \<leftarrow> wk_item_at w pos;
              (new_item, s) \<leftarrow> new_item_for_wk_item env x (Option.bind prev (wk_item_at w)) s;
              s \<leftarrow> set_navigation_item_in_wk_item pos (Some new_item) s;
              Some (get_navigation_item_from_wk_item s (Some pos), s)
            }
      })"

section \<open>Items by index\<close>

definition get_item_count :: "nav_manager \<Rightarrow> int" where
  "get_item_count s =
     (if empty_window_open_item s \<noteq> None then 1 else int (get_back_forward_list_item_count s))"

text \<open>An \<open>int\<close> passed as \<open>size_t\<close>.\<close>

definition to_size_t :: "int \<Rightarrow> nat" where "to_size_t i = nat (i mod 2 ^ 64)"

definition get_navigation_item_impl_at_index ::
  "nav_env \<Rightarrow> nat \<Rightarrow> nav_manager \<Rightarrow> (item_ref option \<times> nav_manager) option" where
  "get_navigation_item_impl_at_index env index s =
     (if empty_window_open_item s \<noteq> None
      then Some (if index = 0 then Some EmptyWindowRef else None, s)
      else cache_get_item_at_index env index s)"

fun find_item_from :: "item_ref option \<Rightarrow> nat list \<Rightarrow> nav_manager \<Rightarrow> int option" where
  "find_item_from item [] s = Some (-1)"
| "find_item_from item (index # indices) s = do {
     p \<leftarrow> peek_item_at_index index s;
     if p = item then Some (int index) else find_item_from item indices s
   }"

definition get_index_of_item :: "item_ref option \<Rightarrow> nav_manager \<Rightarrow> int option" where
  "get_index_of_item item s =
     (if item = (if empty_window_open_item s \<noteq> None then Some EmptyWindowRef else None) then Some 0
      else find_item_from item [0..<get_back_forward_list_item_count s] s)"

fun get_items_at :: "nav_env \<Rightarrow> nat list \<Rightarrow> nav_manager \<Rightarrow> (item_ref option list \<times> nav_manager) option" where
  "get_items_at env [] s = Some ([], s)"
| "get_items_at env (index # indices) s = do {
     (p, s) \<leftarrow> get_navigation_item_impl_at_index env index s;
     (ps, s) \<leftarrow> get_items_at env indices s;
     Some (p # ps, s)
   }"

section \<open>The committed, pending and visible items\<close>

definition can_trust_last_committed_item :: "nav_env \<Rightarrow> navigation_item \<Rightarrow> nav_manager \<Rightarrow> bool" where
  "can_trust_last_committed_item env last_committed_item s =
     (if \<not> attached_to_web_view s then True
      else
        let web_view_url = get_visible_web_view_url s;
            last_committed_url = ni_url last_committed_item;
            scheme = nav_scheme (nav_urls env)
        in nav_origin env web_view_url = nav_origin env last_committed_url
           \<or> going_to_back_forward_list_item s
           \<or> scheme web_view_url = ''about'' \<or> scheme last_committed_url = ''about''
           \<or> scheme web_view_url = ''file'' \<or> scheme last_committed_url = ''about''
           \<or> app_specific env web_view_url \<or> app_specific env last_committed_url)"

definition get_last_committed_item_index_in_session :: "nav_manager \<Rightarrow> int" where
  "get_last_committed_item_index_in_session s =
     (if pending_item_index s \<ge> 0 \<or> empty_window_open_item s \<noteq> None then last_committed_item_index s
      else get_current_item_index s)"

text \<open>The item that stands for the document when the last committed item is not trusted.\<close>

definition get_last_committed_web_view_item ::
  "nav_env \<Rightarrow> nav_manager \<Rightarrow> (item_ref option \<times> nav_manager) option" where
  "get_last_committed_web_view_item env s = do {
     let url = document_url s;
     s \<leftarrow> (if last_committed_web_view_item s = None then do {
             (item, s) \<leftarrow> create_navigation_item_with_rewriters env [] new_referrer
                (page_transition_link env) RENDERER_INITIATED [] None s;
             Some (s\<lparr>last_committed_web_view_item := Some (set_untrusted item)\<rparr>)
           }
           else Some s);
     item \<leftarrow> last_committed_web_view_item s;
     item \<leftarrow> set_item_url env url item;
     target \<leftarrow> (if restore_url env url then extract_target_url (nav_urls env) url else Some None);
     virtual_url \<leftarrow>
       (case target of
          None \<Rightarrow> Some url
        | Some virtual_url \<Rightarrow> unwrap_placeholder env virtual_url);
     let item = set_virtual_url virtual_url item;
     let (now, s) = smoothed_now s;
     Some (Some WebViewItemRef, s\<lparr>last_committed_web_view_item := Some (item\<lparr>timestamp := now\<rparr>)\<rparr>)
   }"

definition get_last_committed_item_in_session ::
  "nav_env \<Rightarrow> nav_manager \<Rightarrow> (item_ref option \<times> nav_manager) option" where
  "get_last_committed_item_in_session env s =
     (if empty_window_open_item s \<noteq> None then Some (Some EmptyWindowRef, s)
      else
        let index = get_last_committed_item_index_in_session s
        in if index = -1
           then do { dcheck (get_item_count s = 0); Some (None, s) }
           else do {
             (p, s) \<leftarrow> get_navigation_item_impl_at_index env (to_size_t index) s;
             case deref s p of
               None \<Rightarrow> Some (p, s)
             | Some item \<Rightarrow>
                 if has_nav_web_state s \<and> \<not> can_trust_last_committed_item env item s
                 then get_last_committed_web_view_item env s
                 else Some (p, s)
           })"

definition get_pending_item_in_session ::
  "nav_env \<Rightarrow> nav_manager \<Rightarrow> (item_ref option \<times> nav_manager) option" where
  "get_pending_item_in_session env s =
     (if pending_item_index s = -1
      then Some (if pending_item s \<noteq> None then Some PendingRef
                 else if context_pending_item s \<noteq> None then Some ContextRef else None, s)
      else get_navigation_item_impl_at_index env (to_size_t (pending_item_index s)) s)"

definition get_transient_item :: "nav_manager \<Rightarrow> item_ref option" where
  "get_transient_item s = (if transient_item s \<noteq> None then Some TransientRef else None)"

definition get_pending_item :: "nav_env \<Rightarrow> nav_manager \<Rightarrow> (item_ref option \<times> nav_manager) option" where
  "get_pending_item env s =
     (if is_restore_session_in_progress s then Some (None, s) else get_pending_item_in_session env s)"

definition get_pending_item_index :: "nav_manager \<Rightarrow> int" where
  "get_pending_item_index s = (if is_restore_session_in_progress s then -1 else pending_item_index s)"

definition get_last_committed_item :: "nav_env \<Rightarrow> nav_manager \<Rightarrow> (item_ref option \<times> nav_manager) option" where
  "get_last_committed_item env s =
     (if is_restore_session_in_progress s then Some (None, s)
      else do {
        (p, s) \<leftarrow> get_last_committed_item_in_session env s;
        case deref s p of
          None \<Rightarrow> Some (None, s)
        | Some item \<Rightarrow> Some (if restore_url env (ni_url item) then None else p, s)
      })"

definition get_last_committed_item_index :: "nav_env \<Rightarrow> nav_manager \<Rightarrow> (int \<times> nav_manager) option" where
  "get_last_committed_item_index env s =
     (if is_restore_session_in_progress s then Some (-1, s)
      else do {
        (p, s) \<leftarrow> get_last_committed_item_in_session env s;
        case deref s p of
          None \<Rightarrow> Some (-1, s)
        | Some item \<Rightarrow>
            Some (if restore_url env (ni_url item) then -1
                  else get_last_committed_item_index_in_session s, s)
      })"

definition get_current_item :: "nav_env \<Rightarrow> nav_manager \<Rightarrow> (item_ref option \<times> nav_manager) option" where
  "get_current_item env s =
     (if transient_item s \<noteq> None then Some (Some TransientRef, s)
      else do {
        (p, s) \<leftarrow> get_pending_item_in_session env s;
        if p \<noteq> None then Some (p, s) else get_last_committed_item_in_session env s
      })"

definition get_visible_item :: "nav_env \<Rightarrow> nav_manager \<Rightarrow> (item_ref option \<times> nav_manager) option" where
  "get_visible_item env s =
     (if is_restore_session_in_progress s \<or> restored_visible_item s \<noteq> None
      then Some (if restored_visible_item s \<noteq> None then Some RestoredRef else None, s)
      else if transient_item s \<noteq> None then Some (Some TransientRef, s)
      else do {
        (p, s) \<leftarrow> get_pending_item_in_session env s;
        safe_to_show_pending \<leftarrow>
          (case deref s p of
             None \<Rightarrow> Some False
           | Some item \<Rightarrow> do {
               let safe = (initiation_type item = BROWSER_INITIATED \<and> pending_item_index s = -1);
               if use_wk_web_view_loading env \<and> safe
               then do { dcheck (has_nav_web_state s); Some (web_state_is_loading s) }
               else Some safe
             });
        if safe_to_show_pending then Some (p, s)
        else do {
          (committed, s) \<leftarrow> get_last_committed_item env s;
          if committed \<noteq> None then Some (committed, s)
          else do {
            (result, s) \<leftarrow> get_last_committed_item_in_session env s;
            case deref s result of
              None \<Rightarrow> Some (None, s)
            | Some item \<Rightarrow> Some (if restore_url env (ni_url item) then result else None, s)
          }
        }
      })"

text \<open>The loop of \<open>GetLastCommittedItemWithUserAgentType\<close> from an index down to 0.\<close>

fun find_item_with_user_agent_type ::
  "nav_env \<Rightarrow> nat list \<Rightarrow> nav_manager \<Rightarrow> (item_ref option \<times> nav_manager) option" where
  "find_item_with_user_agent_type env [] s = Some (None, s)"
| "find_item_with_user_agent_type env (index # indices) s = do {
     (p, s) \<leftarrow> get_navigation_item_impl_at_index env index s;
     item \<leftarrow> deref s p;
     needed \<leftarrow> url_needs_user_agent_type (nav_urls env) (ni_url item);
     if needed then do {
       dcheck (ni_user_agent_type item \<noteq> UA_NONE);
       Some (p, s)
     }
     else find_item_with_user_agent_type env indices s
   }"

definition get_last_committed_item_with_user_agent_type ::
  "nav_env \<Rightarrow> nav_manager \<Rightarrow> (item_ref option \<times> nav_manager) option" where
  "get_last_committed_item_with_user_agent_type env s =
     find_item_with_user_agent_type env
       (rev [0..<nat (get_last_committed_item_index_in_session s + 1)]) s"

section \<open>Going back and forward\<close>

definition get_index_for_offset :: "int \<Rightarrow> nav_manager \<Rightarrow> int" where
  "get_index_for_offset offset s =
     (let current_item_index =
            (if pending_item_index s = -1
             then if empty_window_open_item s \<noteq> None then 0 else get_current_item_index s
             else pending_item_index s);
          offset = (if offset < 0 \<and> transient_item s \<noteq> None \<and> pending_item_index s = -1
                    then offset + 1 else offset)
      in current_item_index + offset)"

definition can_go_to_offset :: "int \<Rightarrow> nav_manager \<Rightarrow> bool" where
  "can_go_to_offset offset s =
     (if is_restore_session_in_progress s then False
      else if empty_window_open_item s \<noteq> None then offset = 0
      else let index = get_index_for_offset offset s in index \<ge> 0 \<and> index < get_item_count s)"

definition can_go_back :: "nav_manager \<Rightarrow> bool" where "can_go_back s = can_go_to_offset (-1) s"

definition can_go_forward :: "nav_manager \<Rightarrow> bool" where "can_go_forward s = can_go_to_offset 1 s"

definition get_backward_items ::
  "nav_env \<Rightarrow> nav_manager \<Rightarrow> (item_ref option list \<times> nav_manager) option" where
  "get_backward_items env s =
     (if is_restore_session_in_progress s then Some ([], s)
      else
        let current = get_current_item_index s
        in get_items_at env
             ((if transient_item s \<noteq> None \<and> current \<ge> 0 then [nat current] else []) @ rev [0..<nat current]) s)"

definition get_forward_items ::
  "nav_env \<Rightarrow> nav_manager \<Rightarrow> (item_ref option list \<times> nav_manager) option" where
  "get_forward_items env s =
     (if is_restore_session_in_progress s then Some ([], s)
      else get_items_at env [nat (get_current_item_index s + 1)..<nat (get_item_count s)] s)"

end
