(* ===== verification/NavLoads.thy ===== *)
theory NavLoads
  imports NavManager
begin

text \<open>
  The operations of the navigation manager that change it: pending, transient and committed
  items, detaching from the web view, restoring a session, loading, reloading and going to an
  index (\<open>web/navigation/wk_based_navigation_manager_impl.mm\<close>,
  \<open>web/navigation/navigation_manager_impl.mm\<close>), and the search of an item by its id
  (\<open>web/navigation/navigation_manager_util.mm\<close>).

  The delegate is the web state with its web controller. It loads asynchronously, so its calls are
  only recorded, but \<open>RemoveWebView\<close>, which detaches the manager at once. \<open>LoadURLWithParams\<close>
  calls itself through \<open>Restore\<close>; the first argument of \<open>base_load_url_with_params\<close> bounds the
  depth of these calls.
\<close>

section \<open>Pending and transient items\<close>

definition discard_non_committed_items :: "nav_manager \<Rightarrow> nav_manager" where
  "discard_non_committed_items s =
     s\<lparr>pending_item := None, transient_item := None, pending_item_index := -1\<rparr>"

definition update_pending_item_user_agent_type ::
  "nav_env \<Rightarrow> user_agent_override_option \<Rightarrow> navigation_item option \<Rightarrow> navigation_item
     \<Rightarrow> navigation_item option" where
  "update_pending_item_user_agent_type env option inherit_from_item item = do {
     dcheck (ni_user_agent_type item \<noteq> UA_NONE \<or> option = UA_INHERIT);
     dcheck (ni_user_agent_type item \<noteq> UA_DESKTOP);
     if ni_user_agent_type item = UA_NONE then Some item
     else case option of
         UA_OVERRIDE_DESKTOP \<Rightarrow> set_user_agent_type env UA_DESKTOP True item
       | UA_OVERRIDE_MOBILE \<Rightarrow> set_user_agent_type env UA_MOBILE True item
       | UA_INHERIT \<Rightarrow>
           (case inherit_from_item of
              None \<Rightarrow> Some item
            | Some from_item \<Rightarrow> do {
                dcheck (ni_user_agent_type from_item \<noteq> UA_NONE);
                set_user_agent_type env (user_agent_type_inheritance from_item) True item
              })
   }"

definition is_same_or_placeholder_of :: "nav_env \<Rightarrow> nav_url \<Rightarrow> nav_url \<Rightarrow> bool option" where
  "is_same_or_placeholder_of env url1 url2 = do {
     dcheck (\<not> use_js env);
     if url1 = url2 then Some True
     else do {
       placeholder \<leftarrow> create_placeholder_url_for_url (nav_urls env) url2;
       Some (url1 = placeholder)
     }
   }"

definition is_current_url_same_as_pending ::
  "nav_env \<Rightarrow> nav_url \<Rightarrow> nav_url \<Rightarrow> nav_url \<Rightarrow> bool option" where
  "is_current_url_same_as_pending env current_item_url pending_url proxy_url =
     (if use_js env then Some (current_item_url = pending_url \<and> current_item_url = proxy_url)
      else do {
        same \<leftarrow> is_same_or_placeholder_of env current_item_url pending_url;
        if same then is_same_or_placeholder_of env current_item_url proxy_url else Some False
      })"

text \<open>
  What \<open>AddPendingItem\<close> does once the item is made: the pending item is the current entry of the
  web view when its URL, the URL of the web view and the pending one agree.
\<close>

definition reuse_current_item ::
  "nav_env \<Rightarrow> 32 word \<Rightarrow> navigation_initiation_type \<Rightarrow> nav_manager \<Rightarrow> nav_manager option" where
  "reuse_current_item env navigation_type initiation s = do {
     item \<leftarrow> pending_item s;
     let current = Option.bind (nav_web_view s) wv_current_item;
     let current_item_url = (case current of Some x \<Rightarrow> wk_url x | None \<Rightarrow> []);
     let proxy_url = (case nav_web_view s of Some w \<Rightarrow> wv_url w | None \<Rightarrow> []);
     target \<leftarrow>
       (if navigation_type AND page_transition_reload env \<noteq> 0
           \<and> navigation_type AND page_transition_forward_back env = 0
           \<and> initiation = BROWSER_INITIATED \<and> restore_url env current_item_url
        then extract_target_url (nav_urls env) current_item_url else Some None);
     let current_item_url = (case target of Some url \<Rightarrow> url | None \<Rightarrow> current_item_url);
     same \<leftarrow> is_current_url_same_as_pending env current_item_url (ni_url item) proxy_url;
     if current \<noteq> None \<and> same then do {
       let s = s\<lparr>pending_item_index := get_current_item_index s\<rparr>;
       s \<leftarrow> (if get_navigation_item_from_wk_item s (Some CurrentItem) = None
             then set_navigation_item_in_wk_item CurrentItem (pending_item s) s else Some s);
       Some (s\<lparr>pending_item := None\<rparr>)
     }
     else Some s
   }"

definition add_pending_item ::
  "nav_env \<Rightarrow> nav_url \<Rightarrow> nav_url referrer \<Rightarrow> 32 word \<Rightarrow> navigation_initiation_type
     \<Rightarrow> user_agent_override_option \<Rightarrow> nav_manager \<Rightarrow> nav_manager option" where
  "add_pending_item env url referrer navigation_type initiation option s = do {
     let s = discard_non_committed_items s;
     (committed, s) \<leftarrow> get_last_committed_item_in_session env s;
     (item, s) \<leftarrow> create_navigation_item_with_rewriters env url referrer navigation_type initiation
        (case deref s committed of Some i \<Rightarrow> ni_url i | None \<Rightarrow> []) (Some (transient_url_rewriters s)) s;
     let s = s\<lparr>pending_item := Some item, transient_url_rewriters := []\<rparr>;
     (with_agent, s) \<leftarrow> get_last_committed_item_with_user_agent_type env s;
     item \<leftarrow> update_pending_item_user_agent_type env option (deref s with_agent) item;
     let item = (if next_pending_url_should_skip_serialization s \<noteq> []
                    \<and> url = next_pending_url_should_skip_serialization s
                 then item\<lparr>should_skip_serialization := True\<rparr> else item);
     let s = s\<lparr>pending_item := Some item, next_pending_url_should_skip_serialization := []\<rparr>;
     if \<not> attached_to_web_view s then Some s
     else reuse_current_item env navigation_type initiation s
   }"

definition add_transient_item :: "nav_env \<Rightarrow> nav_url \<Rightarrow> nav_manager \<Rightarrow> nav_manager option" where
  "add_transient_item env url s = do {
     dcheck (attached_to_web_view s);
     (committed, s) \<leftarrow> get_last_committed_item env s;
     (item, s) \<leftarrow> create_navigation_item_with_rewriters env url new_referrer
        (page_transition_client_redirect env) BROWSER_INITIATED
        (case deref s committed of Some i \<Rightarrow> ni_url i | None \<Rightarrow> []) None s;
     let (now, s) = smoothed_now s;
     let s = s\<lparr>transient_item := Some (item\<lparr>timestamp := now\<rparr>)\<rparr>;
     (p, s) \<leftarrow> get_pending_item env s;
     (p, s) \<leftarrow> (if p = None then get_last_committed_item_with_user_agent_type env s else Some (p, s));
     case deref s p of
       None \<Rightarrow> Some s
     | Some agent_item \<Rightarrow> do {
         dcheck (ni_user_agent_type agent_item \<noteq> UA_NONE);
         item \<leftarrow> transient_item s;
         item \<leftarrow> set_user_agent_type env (user_agent_type_inheritance agent_item) True item;
         Some (s\<lparr>transient_item := Some item\<rparr>)
       }
   }"

definition release_pending_item :: "nav_manager \<Rightarrow> navigation_item option \<times> nav_manager" where
  "release_pending_item s = (pending_item s, s\<lparr>pending_item := None\<rparr>)"

definition set_pending_item :: "navigation_item option \<Rightarrow> nav_manager \<Rightarrow> nav_manager" where
  "set_pending_item item s = s\<lparr>pending_item := item\<rparr>"

definition set_pending_item_index :: "int \<Rightarrow> nav_manager \<Rightarrow> nav_manager" where
  "set_pending_item_index index s = s\<lparr>pending_item_index := index\<rparr>"

definition set_previous_item_index :: "int \<Rightarrow> nav_manager \<Rightarrow> nav_manager option" where
  "set_previous_item_index index s = do {
     dcheck (attached_to_web_view s);
     Some (s\<lparr>previous_item_index := index\<rparr>)
   }"

definition set_next_pending_url_not_serializable :: "nav_url \<Rightarrow> nav_manager \<Rightarrow> nav_manager" where
  "set_next_pending_url_not_serializable url s = s\<lparr>next_pending_url_should_skip_serialization := url\<rparr>"

definition add_transient_url_rewriter :: "url_rewriter \<Rightarrow> nav_manager \<Rightarrow> nav_manager" where
  "add_transient_url_rewriter rewriter s =
     s\<lparr>transient_url_rewriters := transient_url_rewriters s @ [rewriter]\<rparr>"

definition update_pending_item_url :: "nav_env \<Rightarrow> nav_url \<Rightarrow> nav_manager \<Rightarrow> nav_manager option" where
  "update_pending_item_url env url s = do {
     (p, s) \<leftarrow> get_pending_item_in_session env s;
     case (p, deref s p) of
       (Some r, Some item) \<Rightarrow>
         if url = ni_url item then Some s
         else do {
           dcheck (transient_item s = None);
           item \<leftarrow> set_item_url env url item;
           let item = reset_http_request_headers ((set_virtual_url url item)\<lparr>ni_post_data := None\<rparr>);
           Some (update_item r (\<lambda>_. item) s)
         }
     | _ \<Rightarrow> Some s
   }"

definition update_current_item_for_replace_state ::
  "nav_env \<Rightarrow> nav_url \<Rightarrow> string option \<Rightarrow> nav_manager \<Rightarrow> nav_manager option" where
  "update_current_item_for_replace_state env url state_object s = do {
     dcheck (transient_item s = None);
     (p, s) \<leftarrow> get_current_item env s;
     r \<leftarrow> p;
     item \<leftarrow> deref s p;
     item \<leftarrow> set_item_url env url item;
     Some (update_item r (\<lambda>_. item\<lparr>serialized_state_object := state_object,
             has_state_been_replaced := True, ni_post_data := None\<rparr>) s)
   }"

section \<open>Commits\<close>

definition on_navigation_item_committed :: "nav_env \<Rightarrow> nav_manager \<Rightarrow> nav_manager option" where
  "on_navigation_item_committed env s = do {
     (p, s) \<leftarrow> get_last_committed_item_in_session env s;
     item \<leftarrow> deref s p;
     let s = call_delegate (ItemCommitted (ni_url item)) s;
     Some (if restore_url env (ni_url item) then s else s\<lparr>restored_visible_item := None\<rparr>)
   }"

text \<open>The indices a commit sets; \<open>was_empty\<close> is \<open>last_committed_item_was_empty_window_open_item\<close>.\<close>

definition record_commit :: "bool \<Rightarrow> nav_manager \<Rightarrow> nav_manager" where
  "record_commit was_empty s =
     (let s = (if \<not> was_empty then s\<lparr>previous_item_index := last_committed_item_index s\<rparr> else s)
      in s\<lparr>last_committed_item_index :=
             (if empty_window_open_item s \<noteq> None then 0 else get_current_item_index s)\<rparr>)"

definition commit_pending_item :: "nav_env \<Rightarrow> nav_manager \<Rightarrow> nav_manager option" where
  "commit_pending_item env s = do {
     dcheck (attached_to_web_view s);
     if pending_item_index s = -1 \<and> pending_item s = None
     then Some (s\<lparr>empty_window_open_item := None\<rparr>)
     else do {
       let was_empty = (empty_window_open_item s \<noteq> None);
       s \<leftarrow>
         (if pending_item_index s = -1 then do {
            item \<leftarrow> pending_item s;
            let (now, s) = smoothed_now s;
            let item = (reset_for_commit item)\<lparr>timestamp := now\<rparr>;
            case nav_web_view s of
              None \<Rightarrow> set_navigation_item_in_wk_item CurrentItem (Some item) (s\<lparr>empty_window_open_item := None\<rparr>)
            | Some w \<Rightarrow>
                if wv_current_item w = None then do {
                  dcheck (has_prefix (nav_spec (nav_urls env) (wv_url w)) kAboutBlankURL);
                  dcheck (wv_back_list w = []);
                  dcheck (wv_forward_list w = []);
                  Some (s\<lparr>empty_window_open_item := Some item\<rparr>)
                }
                else set_navigation_item_in_wk_item CurrentItem (Some item)
                       (s\<lparr>empty_window_open_item := None\<rparr>)
          }
          else Some s);
       let s = s\<lparr>pending_item_index := -1, pending_item := None\<rparr>;
       on_navigation_item_committed env (record_commit was_empty s)
     }
   }"

text \<open>
  The entry that gets an item committed from outside: the current one, unless only the one
  before or after it has the URL of the item.
\<close>

definition entry_for_commit :: "nav_url \<Rightarrow> web_view \<Rightarrow> wk_position" where
  "entry_for_commit wanted w =
     (let has_url = (\<lambda>x. case x of Some e \<Rightarrow> wanted = wk_url e | None \<Rightarrow> False);
          back = BackItem (length (wv_back_list w) - 1)
      in if has_url (wv_current_item w) then CurrentItem
         else if wv_back_list w \<noteq> [] \<and> has_url (wk_item_at w back) then back
         else if wv_forward_list w \<noteq> [] \<and> has_url (wk_item_at w (ForwardItem 0)) then ForwardItem 0
         else CurrentItem)"

definition commit_given_item ::
  "nav_env \<Rightarrow> navigation_item option \<Rightarrow> nav_manager \<Rightarrow> nav_manager option" where
  "commit_given_item env given s =
     (case given of
        None \<Rightarrow> commit_pending_item env s
      | Some item \<Rightarrow> do {
          dcheck (attached_to_web_view s);
          let was_empty = (empty_window_open_item s \<noteq> None);
          let (now, s) = smoothed_now s;
          let item = (reset_for_commit item)\<lparr>timestamp := now\<rparr>;
          s \<leftarrow>
            (case nav_web_view s of
               None \<Rightarrow> set_navigation_item_in_wk_item CurrentItem (Some item) (s\<lparr>empty_window_open_item := None\<rparr>)
             | Some w \<Rightarrow>
                 if wv_current_item w = None then do {
                   dcheck (running_on_ios13_or_later env
                           \<or> has_prefix (nav_spec (nav_urls env) (wv_url w)) kAboutBlankURL);
                   dcheck (wv_back_list w = []);
                   dcheck (wv_forward_list w = []);
                   Some (s\<lparr>empty_window_open_item := Some item\<rparr>)
                 }
                 else set_navigation_item_in_wk_item (entry_for_commit (ni_url item) w) (Some item)
                        (s\<lparr>empty_window_open_item := None\<rparr>));
          on_navigation_item_committed env (record_commit was_empty s)
        })"

section \<open>Detaching\<close>

text \<open>The copy of an item for the cache, without the URL of a redirect.\<close>

definition copy_for_cache :: "nav_env \<Rightarrow> navigation_item \<Rightarrow> navigation_item option" where
  "copy_for_cache env item = do {
     let copy = copy_navigation_item env item;
     let url = ni_url copy;
     target \<leftarrow> (if restore_url env url then extract_target_url (nav_urls env) url else Some None);
     case target of
       Some extracted_url \<Rightarrow> set_item_url env extracted_url copy
     | None \<Rightarrow> Some copy
   }"

fun copy_items_for_cache ::
  "nav_env \<Rightarrow> nat list \<Rightarrow> nav_manager \<Rightarrow> (navigation_item list \<times> nav_manager) option" where
  "copy_items_for_cache env [] s = Some ([], s)"
| "copy_items_for_cache env (index # indices) s = do {
     (p, s) \<leftarrow> cache_get_item_at_index env index s;
     item \<leftarrow> deref s p;
     copy \<leftarrow> copy_for_cache env item;
     (copies, s) \<leftarrow> copy_items_for_cache env indices s;
     Some (copy # copies, s)
   }"

definition detach_from_web_view :: "nav_env \<Rightarrow> nav_manager \<Rightarrow> nav_manager option" where
  "detach_from_web_view env s = do {
     s \<leftarrow> (if attached_to_web_view s then do {
             let current = get_current_item_index s;
             (copies, s) \<leftarrow> copy_items_for_cache env [0..<get_back_forward_list_item_count s] s;
             Some (s\<lparr>cached_current_item_index := current, cached_items := copies\<rparr>)
           }
           else Some s);
     Some (s\<lparr>attached_to_web_view := False, is_restore_session_in_progress := False\<rparr>)
   }"

definition reset_to_attached :: "nav_manager \<Rightarrow> nav_manager" where
  "reset_to_attached s =
     s\<lparr>cached_items := [], cached_current_item_index := -1, attached_to_web_view := True\<rparr>"

definition release_cached_items :: "nav_manager \<Rightarrow> (navigation_item list \<times> nav_manager) option" where
  "release_cached_items s = do {
     dcheck (\<not> attached_to_web_view s);
     Some (cached_items s, s\<lparr>cached_items := []\<rparr>)
   }"

text \<open>\<open>removeWebView\<close> of the web controller.\<close>

definition remove_web_view :: "nav_env \<Rightarrow> nav_manager \<Rightarrow> nav_manager option" where
  "remove_web_view env s =
     (if nav_web_view s = None then Some s
      else do {
        s \<leftarrow> detach_from_web_view env (call_delegate ClearDialogs s);
        Some (s\<lparr>nav_web_view := None, context_pending_item := None\<rparr>)
      })"

section \<open>Loading and restoring\<close>

text \<open>\<open>NavigationManagerImpl::LoadURLWithParams\<close> up to \<open>FinishLoadURLWithParams\<close>.\<close>

definition prepare_added_item ::
  "nav_env \<Rightarrow> web_load_params \<Rightarrow> nav_manager \<Rightarrow> nav_manager option" where
  "prepare_added_item env params s = do {
     (pending, s) \<leftarrow> get_pending_item_in_session env s;
     s \<leftarrow>
       (case (pending, deref s pending) of
          (Some r, Some item) \<Rightarrow> do {
            (committed, s) \<leftarrow> get_last_committed_item_in_session env s;
            let last_committed_url = (case deref s committed of Some i \<Rightarrow> get_virtual_url i | None \<Rightarrow> []);
            let pending_url = ni_url item;
            let s = (if last_committed_url \<noteq> pending_url
                        \<and> equals_ignoring_ref env last_committed_url pending_url
                     then update_item r (\<lambda>i. i\<lparr>is_created_from_hash_change := True\<rparr>) s else s);
            Some (if nav_is_valid (nav_urls env) (lp_virtual_url params)
                  then update_item r (set_virtual_url (lp_virtual_url params)) s else s)
          }
        | _ \<Rightarrow> Some s);
     dcheck (transient_item s = None);
     (added, s) \<leftarrow> (if pending \<noteq> None then Some (pending, s) else get_last_committed_item_in_session env s);
     r \<leftarrow> added;
     let s = update_item r (add_http_request_headers (lp_extra_headers params)) s;
     (case lp_post_data params of
        None \<Rightarrow> Some s
      | Some post_data \<Rightarrow> do {
          item \<leftarrow> deref s (Some r);
          headers \<leftarrow> http_request_headers item;
          dcheck (map_of headers ''Content-Type'' \<noteq> None);
          Some (update_item r (\<lambda>i. i\<lparr>ni_post_data := Some post_data,
                  should_skip_repost_form_confirmation := True\<rparr>) s)
        })
   }"

definition load_initiation :: "web_load_params \<Rightarrow> navigation_initiation_type" where
  "load_initiation params = (if lp_is_renderer_initiated params then RENDERER_INITIATED else BROWSER_INITIATED)"

definition begin_load_url_with_params ::
  "nav_env \<Rightarrow> web_load_params \<Rightarrow> nav_manager \<Rightarrow> nav_manager option" where
  "begin_load_url_with_params env params s = do {
     dcheck (lp_transition_type params AND page_transition_forward_back env = 0);
     let s = call_delegate RecordPageState (call_delegate ClearDialogs (call_delegate ClearTransientContent s));
     s \<leftarrow> add_pending_item env (lp_url params) (lp_referrer params) (lp_transition_type params)
           (load_initiation params) (lp_user_agent_override_option params) s;
     prepare_added_item env params s
   }"

text \<open>Items in the form \<open>CreateRestoreSessionUrl\<close> reads them.\<close>

definition session_item :: "navigation_item \<Rightarrow> nav_item" where
  "session_item item = \<lparr>item_url = ni_url item, item_title = ni_title item\<rparr>"

fun rewrite_item_urls :: "nav_env \<Rightarrow> navigation_item list \<Rightarrow> navigation_item list option" where
  "rewrite_item_urls env [] = Some []"
| "rewrite_item_urls env (item # items) = do {
     item \<leftarrow> rewrite_item_url_if_necessary env item;
     items \<leftarrow> rewrite_item_urls env items;
     Some (item # items)
   }"

type_synonym loader = "web_load_params \<Rightarrow> nav_manager \<Rightarrow> nav_manager option"

text \<open>\<open>WKBasedNavigationManagerImpl::LoadURLWithParams\<close> over the one of the base class.\<close>

definition add_restore_completion_callback :: "restore_callback \<Rightarrow> nav_manager \<Rightarrow> nav_manager" where
  "add_restore_completion_callback callback s =
     s\<lparr>restore_session_completion_callbacks := restore_session_completion_callbacks s @ [callback]\<rparr>"

definition load_or_defer :: "nav_env \<Rightarrow> loader \<Rightarrow> loader" where
  "load_or_defer env base params s =
     (if is_restore_session_in_progress s \<and> \<not> restore_url env (lp_url params)
      then Some (add_restore_completion_callback (DeferredLoad params) s)
      else base params s)"

definition unsafe_restore_with ::
  "loader \<Rightarrow> nav_env \<Rightarrow> int \<Rightarrow> navigation_item list \<Rightarrow> nav_manager \<Rightarrow> nav_manager option" where
  "unsafe_restore_with base env last_index items s = do {
     items \<leftarrow> rewrite_item_urls env items;
     (url, first_index) \<leftarrow> create_restore_session_url (nav_urls env) last_index (map session_item items);
     dcheck (first_index \<ge> 0);
     dcheck (first_index < int (length items));
     dcheck (nav_is_valid (nav_urls env) url);
     let first = items ! nat first_index;
     let params = (new_web_load_params env url)\<lparr>lp_transition_type := page_transition_reload env,
                     lp_virtual_url := get_virtual_url first\<rparr>;
     let s = s\<lparr>is_restore_session_in_progress := True\<rparr>;
     let s = (if last_index > -1 then s\<lparr>restored_visible_item := Some (items ! nat last_index)\<rparr> else s);
     s \<leftarrow> load_or_defer env base params s;
     (pending, s) \<leftarrow> get_pending_item_in_session env s;
     Some (case pending of Some r \<Rightarrow> update_item r (set_title (ni_title first)) s | None \<Rightarrow> s)
   }"

definition restore_with ::
  "loader \<Rightarrow> nav_env \<Rightarrow> int \<Rightarrow> navigation_item list \<Rightarrow> nav_manager \<Rightarrow> nav_manager option" where
  "restore_with base env last_index items s = do {
     dcheck (\<not> is_restore_session_in_progress s);
     dcheck (last_index < int (length items));
     dcheck (items = [] \<or> last_index \<ge> 0);
     if items = [] then Some s
     else do {
       let s = (if \<not> attached_to_web_view s then reset_to_attached s else s);
       let s = discard_non_committed_items s;
       s \<leftarrow> (if get_item_count s > 0 then remove_web_view env s else Some s);
       dcheck (get_item_count s = 0);
       dcheck (pending_item_index s = -1);
       unsafe_restore_with base env last_index items (s\<lparr>previous_item_index := -1, last_committed_item_index := -1\<rparr>)
     }
   }"

text \<open>
  \<open>FinishLoadURLWithParams\<close>. The vector of cached items is cut or extended to hold the pending
  item after the current one; a null item left by an extension would be followed by
  \<open>UnsafeRestore\<close>.
\<close>

definition finish_load_url_with_params_with ::
  "loader \<Rightarrow> nav_env \<Rightarrow> navigation_initiation_type \<Rightarrow> nav_manager \<Rightarrow> nav_manager option" where
  "finish_load_url_with_params_with base env initiation s =
     (if attached_to_web_view s then Some (call_delegate (LoadCurrentItem initiation) s)
      else do {
        dcheck (pending_item_index s = -1);
        case pending_item s of
          Some item \<Rightarrow>
            if get_back_forward_list_item_count s > 0 then do {
              (items, s) \<leftarrow> release_cached_items s;
              let next_item_index = get_current_item_index s + 1;
              dcheck (next_item_index > 0);
              dcheck (nat next_item_index \<le> length items);
              s \<leftarrow> restore_with base env next_item_index (take (nat next_item_index) items @ [item])
                    (s\<lparr>pending_item := None\<rparr>);
              dcheck (attached_to_web_view s);
              Some s
            }
            else Some (call_delegate (LoadCurrentItem initiation) (reset_to_attached s))
        | None \<Rightarrow> Some (call_delegate (LoadCurrentItem initiation) (reset_to_attached s))
      })"

text \<open>
  \<open>NavigationManagerImpl::LoadURLWithParams\<close>, which may restore and so come back to itself:
  \<open>load_round\<close> is its body, with what it calls then as the argument \<open>base\<close>.
\<close>

definition load_round :: "nav_env \<Rightarrow> loader \<Rightarrow> loader" where
  "load_round env base params s = do {
     s \<leftarrow> begin_load_url_with_params env params s;
     finish_load_url_with_params_with base env (load_initiation params) s
   }"

fun base_load_url_with_params :: "nat \<Rightarrow> nav_env \<Rightarrow> loader" where
  "base_load_url_with_params 0 env params s = None"
| "base_load_url_with_params (Suc depth) env params s =
     load_round env (base_load_url_with_params depth env) params s"

text \<open>A load restores at most once, and the load of the restored session does not restore.\<close>

definition load_depth :: nat where "load_depth = 2"

definition base_load :: "nav_env \<Rightarrow> loader" where
  "base_load env = base_load_url_with_params load_depth env"

definition load_url_with_params :: "nav_env \<Rightarrow> loader" where
  "load_url_with_params env = load_or_defer env (base_load env)"

definition unsafe_restore ::
  "nav_env \<Rightarrow> int \<Rightarrow> navigation_item list \<Rightarrow> nav_manager \<Rightarrow> nav_manager option" where
  "unsafe_restore env = unsafe_restore_with (base_load env) env"

definition restore_items ::
  "nav_env \<Rightarrow> int \<Rightarrow> navigation_item list \<Rightarrow> nav_manager \<Rightarrow> nav_manager option" where
  "restore_items env = restore_with (base_load env) env"

definition load_if_necessary :: "nav_env \<Rightarrow> nav_manager \<Rightarrow> nav_manager option" where
  "load_if_necessary env s =
     (if \<not> attached_to_web_view s then do {
        (items, s) \<leftarrow> release_cached_items s;
        s \<leftarrow> restore_items env (get_current_item_index s) items s;
        dcheck (attached_to_web_view s);
        Some s
      }
      else Some (call_delegate LoadIfNecessary s))"

text \<open>A deferred load is bound to the virtual \<open>LoadURLWithParams\<close>.\<close>

fun run_restore_callbacks :: "nav_env \<Rightarrow> restore_callback list \<Rightarrow> nav_manager \<Rightarrow> nav_manager option" where
  "run_restore_callbacks env [] s = Some s"
| "run_restore_callbacks env (callback # callbacks) s = do {
     s \<leftarrow> (case callback of
             DeferredLoad params \<Rightarrow> load_url_with_params env params s
           | ClientCallback n \<Rightarrow> Some (call_delegate (RanCallback n) s));
     run_restore_callbacks env callbacks s
   }"

definition finalize_session_restore :: "nav_env \<Rightarrow> nav_manager \<Rightarrow> nav_manager option" where
  "finalize_session_restore env s = do {
     s \<leftarrow> run_restore_callbacks env (restore_session_completion_callbacks s)
           (s\<lparr>is_restore_session_in_progress := False\<rparr>);
     load_if_necessary env (s\<lparr>restore_session_completion_callbacks := []\<rparr>)
   }"

definition on_navigation_started :: "nav_env \<Rightarrow> nav_url \<Rightarrow> nav_manager \<Rightarrow> nav_manager option" where
  "on_navigation_started env url s =
     (if \<not> is_restore_session_in_progress s then Some s
      else if restore_url env url then do {
        target \<leftarrow> extract_target_url (nav_urls env) url;
        Some (if target = None then s\<lparr>restoration_timer := True\<rparr> else s)
      }
      else finalize_session_restore env (s\<lparr>restoration_timer := False\<rparr>))"

definition client_callback :: "nat \<Rightarrow> nav_manager \<Rightarrow> nav_manager" where
  "client_callback n s =
     (if \<not> is_restore_session_in_progress s then call_delegate (RanCallback n) s
      else add_restore_completion_callback (ClientCallback n) s)"

definition should_block_url_during_restore ::
  "nav_env \<Rightarrow> nav_url \<Rightarrow> nav_manager \<Rightarrow> (bool \<times> nav_manager) option" where
  "should_block_url_during_restore env url s = do {
     dcheck (is_restore_session_in_progress s);
     if \<not> should_block_url env url then Some (False, s)
     else do {
       let s = discard_non_committed_items s;
       s \<leftarrow> finalize_session_restore env
             (s\<lparr>last_committed_item_index := get_current_item_index s, restored_visible_item := None\<rparr>);
       Some (True, s)
     }
   }"

section \<open>The workaround for clobbered forward history\<close>

fun copy_items_at :: "nav_env \<Rightarrow> nat list \<Rightarrow> nav_manager \<Rightarrow> (navigation_item list \<times> nav_manager) option" where
  "copy_items_at env [] s = Some ([], s)"
| "copy_items_at env (index # indices) s = do {
     (p, s) \<leftarrow> get_navigation_item_impl_at_index env index s;
     item \<leftarrow> deref s p;
     (copies, s) \<leftarrow> copy_items_at env indices s;
     Some (copy_navigation_item env item # copies, s)
   }"

definition apply_forward_history_clobber_workaround :: "nav_env \<Rightarrow> nav_manager \<Rightarrow> nav_manager option" where
  "apply_forward_history_clobber_workaround env s = do {
     dcheck (attached_to_web_view s);
     let current = get_current_item_index s;
     dcheck (current \<ge> 0);
     dcheck (current < get_item_count s);
     (forward_items, s) \<leftarrow> copy_items_at env [nat current..<nat (get_item_count s)] s;
     unsafe_restore env 0 forward_items (discard_non_committed_items s)
   }"

section \<open>Going to an index and reloading\<close>

definition finish_go_to_index ::
  "nav_env \<Rightarrow> int \<Rightarrow> navigation_initiation_type \<Rightarrow> bool \<Rightarrow> nav_manager \<Rightarrow> nav_manager option" where
  "finish_go_to_index env index type has_user_gesture s =
     (if \<not> attached_to_web_view s then do {
        (items, s) \<leftarrow> release_cached_items s;
        s \<leftarrow> restore_items env index items s;
        dcheck (attached_to_web_view s);
        Some s
      }
      else do {
        let s = discard_non_committed_items s;
        (p, s) \<leftarrow> get_navigation_item_impl_at_index env (to_size_t index) s;
        r \<leftarrow> p;
        let s = update_item r
              (\<lambda>i. i\<lparr>transition_type := transition_type i OR page_transition_forward_back env\<rparr>) s;
        wk \<leftarrow> get_wk_item_at_index (to_size_t index) s;
        case wk of
          Some pos \<Rightarrow> Some (call_delegate (GoToBackForwardListItem pos type has_user_gesture) s)
        | None \<Rightarrow> do { dcheck (index = 0 \<and> empty_window_open_item s \<noteq> None); Some s }
      })"

definition go_to_index_with ::
  "nav_env \<Rightarrow> int \<Rightarrow> navigation_initiation_type \<Rightarrow> bool \<Rightarrow> nav_manager \<Rightarrow> nav_manager option" where
  "go_to_index_with env index initiation has_user_gesture s =
     (if index < 0 \<or> index \<ge> get_item_count s then None
      else
        let s = (if transient_item s = None then call_delegate RecordPageState s else s);
            s = call_delegate ClearDialogs (call_delegate ClearTransientContent s)
        in finish_go_to_index env index initiation has_user_gesture s)"

definition go_to_index :: "nav_env \<Rightarrow> int \<Rightarrow> nav_manager \<Rightarrow> nav_manager option" where
  "go_to_index env index s = do {
     (p, s) \<leftarrow> get_last_committed_item_in_session env s;
     case deref s p of
       Some item \<Rightarrow>
         if restore_url env (ni_url item) then Some s
         else go_to_index_with env index BROWSER_INITIATED True s
     | None \<Rightarrow> go_to_index_with env index BROWSER_INITIATED True s
   }"

definition go_back :: "nav_env \<Rightarrow> nav_manager \<Rightarrow> nav_manager option" where
  "go_back env s = go_to_index env (get_index_for_offset (-1) s) s"

definition go_forward :: "nav_env \<Rightarrow> nav_manager \<Rightarrow> nav_manager option" where
  "go_forward env s = go_to_index env (get_index_for_offset 1 s) s"

definition finish_reload :: "nav_env \<Rightarrow> nav_manager \<Rightarrow> nav_manager option" where
  "finish_reload env s =
     (if \<not> attached_to_web_view s then do {
        (items, s) \<leftarrow> release_cached_items s;
        s \<leftarrow> restore_items env (get_current_item_index s) items s;
        dcheck (attached_to_web_view s);
        Some s
      }
      else Some (call_delegate ReloadPage s))"

definition reload :: "nav_env \<Rightarrow> bool \<Rightarrow> nav_manager \<Rightarrow> nav_manager option" where
  "reload env original_request_url_type s =
     (if is_restore_session_in_progress s then Some s
      else do {
        (pending, s) \<leftarrow> (if transient_item s = None then get_pending_item env s else Some (None, s));
        (committed, s) \<leftarrow> (if transient_item s = None \<and> pending = None
                           then get_last_committed_item env s else Some (None, s));
        let reload_item = (if transient_item s \<noteq> None then Some TransientRef
                           else if pending \<noteq> None then pending else committed);
        case reload_item of
          None \<Rightarrow> Some s
        | Some r \<Rightarrow> do {
            let s = call_delegate ClearDialogs s;
            s \<leftarrow> (if original_request_url_type then do {
                    item \<leftarrow> deref s (Some r);
                    item \<leftarrow> set_item_url env (original_request_url item) item;
                    Some (update_item r (\<lambda>_. item) s)
                  }
                  else Some s);
            finish_reload env s
          }
      })"

definition page_transition_is_redirect :: "nav_env \<Rightarrow> 32 word \<Rightarrow> bool" where
  "page_transition_is_redirect env transition =
     (transition AND page_transition_is_redirect_mask env \<noteq> 0)"

fun find_non_redirected_item ::
  "nav_env \<Rightarrow> nat list \<Rightarrow> nav_manager \<Rightarrow> (item_ref option \<times> nav_manager) option" where
  "find_non_redirected_item env [] s = Some (None, s)"
| "find_non_redirected_item env (index # indices) s = do {
     (p, s) \<leftarrow> get_navigation_item_impl_at_index env index s;
     item \<leftarrow> deref s p;
     if \<not> page_transition_is_redirect env (transition_type item) then Some (p, s)
     else find_non_redirected_item env indices s
   }"

definition get_last_committed_non_redirected_item ::
  "nav_env \<Rightarrow> nav_manager \<Rightarrow> (item_ref option \<times> nav_manager) option" where
  "get_last_committed_non_redirected_item env s =
     (if get_item_count s = 0 then Some (None, s)
      else do {
        (index, s) \<leftarrow> get_last_committed_item_index env s;
        find_non_redirected_item env (rev [0..<nat (index + 1)]) s
      })"

text \<open>The item a reload with another user agent starts from.\<close>

definition item_to_reload :: "nav_env \<Rightarrow> nav_manager \<Rightarrow> (item_ref option \<times> nav_manager) option" where
  "item_to_reload env s = do {
     let redirected = (\<lambda>s p. case deref s p of
           None \<Rightarrow> True | Some i \<Rightarrow> page_transition_is_redirect env (transition_type i));
     let p = get_transient_item s;
     (p, s) \<leftarrow> (if redirected s p then get_visible_item env s else Some (p, s));
     if redirected s p then get_last_committed_non_redirected_item env s else Some (p, s)
   }"

definition reload_with_user_agent_type ::
  "nav_env \<Rightarrow> user_agent_type \<Rightarrow> nav_manager \<Rightarrow> nav_manager option" where
  "reload_with_user_agent_type env agent s = do {
     dcheck (agent \<noteq> UA_NONE);
     (p, s) \<leftarrow> item_to_reload env s;
     case deref s p of
       None \<Rightarrow> Some s
     | Some item \<Rightarrow> do {
         let url = (if original_request_url item = [] then get_virtual_url item else original_request_url item);
         target \<leftarrow> (if restore_url env url then extract_target_url (nav_urls env) url else Some None);
         let url = (case target of Some t \<Rightarrow> t | None \<Rightarrow> url);
         dcheck (\<not> restore_url env url);
         let redirect_url = create_redirect_url (nav_urls env) url;
         let params = (new_web_load_params env redirect_url)\<lparr>
               lp_virtual_url := (if get_virtual_url item \<noteq> redirect_url then get_virtual_url item else []),
               lp_referrer := ni_referrer item, lp_transition_type := page_transition_reload env\<rparr>;
         option \<leftarrow> (case agent of
             UA_DESKTOP \<Rightarrow> Some UA_OVERRIDE_DESKTOP
           | UA_MOBILE \<Rightarrow> Some UA_OVERRIDE_MOBILE
           | _ \<Rightarrow> None);
         load_url_with_params env (params\<lparr>lp_user_agent_override_option := option\<rparr>) s
       }
   }"

section \<open>Items by their id\<close>

fun find_unique_id :: "nav_env \<Rightarrow> int \<Rightarrow> nat list \<Rightarrow> nav_manager \<Rightarrow> (int \<times> nav_manager) option" where
  "find_unique_id env n [] s = Some (-1, s)"
| "find_unique_id env n (index # indices) s = do {
     (p, s) \<leftarrow> get_navigation_item_impl_at_index env index s;
     item \<leftarrow> deref s p;
     if unique_id item = n then Some (int index, s) else find_unique_id env n indices s
   }"

definition get_committed_item_index_with_unique_id ::
  "nav_env \<Rightarrow> int \<Rightarrow> nav_manager \<Rightarrow> (int \<times> nav_manager) option" where
  "get_committed_item_index_with_unique_id env n s = find_unique_id env n [0..<nat (get_item_count s)] s"

definition get_committed_item_with_unique_id ::
  "nav_env \<Rightarrow> int \<Rightarrow> nav_manager \<Rightarrow> (item_ref option \<times> nav_manager) option" where
  "get_committed_item_with_unique_id env n s = do {
     (index, s) \<leftarrow> get_committed_item_index_with_unique_id env n s;
     if index \<noteq> -1 then get_navigation_item_impl_at_index env (to_size_t index) s else Some (None, s)
   }"

text \<open>The item of a navigation context that does not own one; \<open>n\<close> is the id it keeps.\<close>

definition get_item_with_unique_id ::
  "nav_env \<Rightarrow> int \<Rightarrow> nav_manager \<Rightarrow> (item_ref option \<times> nav_manager) option" where
  "get_item_with_unique_id env n s =
     (if (case transient_item s of Some i \<Rightarrow> unique_id i = n | None \<Rightarrow> False) then Some (Some TransientRef, s)
      else do {
        (p, s) \<leftarrow> get_pending_item_in_session env s;
        if (case deref s p of Some i \<Rightarrow> unique_id i = n | None \<Rightarrow> False) then Some (p, s)
        else get_committed_item_with_unique_id env n s
      })"

end
