(* ===== verification/NavStorage.thy ===== *)
theory NavStorage
  imports NavItems
begin

text \<open>
  What is stored of a navigation item: \<open>web/navigation/navigation_item_storage_builder.mm\<close> and the
  coding of \<open>web/crw_navigation_item_storage.mm\<close>. An \<open>NSCoder\<close> is a map from keys to coded
  values; decoding an absent key gives zero, no bytes or \<open>nil\<close>.
\<close>

record navigation_item_storage =
  st_virtual_url :: nav_url
  st_referrer :: "nav_url referrer"
  st_timestamp :: int
  st_title :: string
  st_display_state :: page_display_state
  st_should_skip_repost_form_confirmation :: bool
  st_user_agent_type :: user_agent_type
  st_post_data :: "string option"
  st_http_request_headers :: "http_headers option"

definition build_item_storage :: "navigation_item \<Rightarrow> navigation_item_storage" where
  "build_item_storage item =
     \<lparr>st_virtual_url = get_virtual_url item, st_referrer = ni_referrer item,
      st_timestamp = timestamp item, st_title = ni_title item,
      st_display_state = ni_display_state item,
      st_should_skip_repost_form_confirmation = should_skip_repost_form_confirmation item,
      st_user_agent_type = ni_user_agent_type item, st_post_data = ni_post_data item,
      st_http_request_headers = http_request_headers item\<rparr>"

definition build_navigation_item_impl ::
  "nav_env \<Rightarrow> int \<Rightarrow> navigation_item_storage \<Rightarrow> navigation_item option" where
  "build_navigation_item_impl env n storage = do {
     let item = (new_navigation_item env n)\<lparr>original_request_url := st_virtual_url storage\<rparr>;
     item \<leftarrow> set_item_url env (st_virtual_url storage) item;
     Some (item\<lparr>ni_referrer := st_referrer storage, timestamp := st_timestamp storage,
                ni_title := st_title storage, ni_display_state := st_display_state storage,
                should_skip_repost_form_confirmation := st_should_skip_repost_form_confirmation storage,
                transition_type := page_transition_reload env,
                ni_user_agent_type := st_user_agent_type storage,
                ni_post_data := st_post_data storage,
                http_request_headers := st_http_request_headers storage\<rparr>)
   }"

section \<open>Coding\<close>

datatype coded_value =
    CodedBytes string
  | CodedInt int
  | CodedBool bool
  | CodedURL nav_url
  | CodedString string
  | CodedDisplayState display_serialization
  | CodedData "string option"
  | CodedHeaders "http_headers option"

type_synonym coder = "(string \<times> coded_value) list"

definition kNavigationItemStorageURLKey :: string where
  "kNavigationItemStorageURLKey = ''virtualUrlString''"

definition kNavigationItemStorageReferrerURLKey :: string where
  "kNavigationItemStorageReferrerURLKey = ''referrerUrlString''"

definition kNavigationItemStorageReferrerURLDeprecatedKey :: string where
  "kNavigationItemStorageReferrerURLDeprecatedKey = ''referrer''"

definition kNavigationItemStorageReferrerPolicyKey :: string where
  "kNavigationItemStorageReferrerPolicyKey = ''referrerPolicy''"

definition kNavigationItemStorageTimestampKey :: string where
  "kNavigationItemStorageTimestampKey = ''timestamp''"

definition kNavigationItemStorageTitleKey :: string where
  "kNavigationItemStorageTitleKey = ''title''"

definition kNavigationItemStoragePageDisplayStateKey :: string where
  "kNavigationItemStoragePageDisplayStateKey = ''state''"

definition kNavigationItemStoragePOSTDataKey :: string where
  "kNavigationItemStoragePOSTDataKey = ''POSTData''"

definition kNavigationItemStorageHTTPRequestHeadersKey :: string where
  "kNavigationItemStorageHTTPRequestHeadersKey = ''httpHeaders''"

definition kNavigationItemStorageSkipRepostFormConfirmationKey :: string where
  "kNavigationItemStorageSkipRepostFormConfirmationKey = ''skipResubmitDataConfirmation''"

definition kNavigationItemStorageUserAgentTypeKey :: string where
  "kNavigationItemStorageUserAgentTypeKey = ''userAgentType''"

lemmas storage_key_defs =
  kNavigationItemStorageURLKey_def kNavigationItemStorageReferrerURLKey_def
  kNavigationItemStorageReferrerURLDeprecatedKey_def kNavigationItemStorageReferrerPolicyKey_def
  kNavigationItemStorageTimestampKey_def kNavigationItemStorageTitleKey_def
  kNavigationItemStoragePageDisplayStateKey_def kNavigationItemStoragePOSTDataKey_def
  kNavigationItemStorageHTTPRequestHeadersKey_def
  kNavigationItemStorageSkipRepostFormConfirmationKey_def kNavigationItemStorageUserAgentTypeKey_def

text \<open>A \<open>ReferrerPolicy\<close> is coded by its number.\<close>

definition referrer_policies :: "referrer_policy list" where
  "referrer_policies =
     [ReferrerPolicyAlways, ReferrerPolicyDefault, ReferrerPolicyNoReferrerWhenDowngrade,
      ReferrerPolicyNever, ReferrerPolicyOrigin, ReferrerPolicyOriginWhenCrossOrigin,
      ReferrerPolicySameOrigin, ReferrerPolicyStrictOrigin,
      ReferrerPolicyStrictOriginWhenCrossOrigin]"

definition referrer_policy_number :: "referrer_policy \<Rightarrow> int" where
  "referrer_policy_number p = int (length (takeWhile (\<lambda>q. q \<noteq> p) referrer_policies))"

text \<open>The cast of another number is no enumerator and taken to be undefined: \<^term>\<open>None\<close>.\<close>

definition referrer_policy_of_number :: "int \<Rightarrow> referrer_policy option" where
  "referrer_policy_of_number n =
     (if 0 \<le> n \<and> n < int (length referrer_policies) then Some (referrer_policies ! nat n) else None)"

definition decode_string :: "coder \<Rightarrow> string \<Rightarrow> string" where
  "decode_string c key = (case map_of c key of Some (CodedBytes s) \<Rightarrow> s | _ \<Rightarrow> [])"

definition decode_int :: "coder \<Rightarrow> string \<Rightarrow> int" where
  "decode_int c key = (case map_of c key of Some (CodedInt n) \<Rightarrow> n | _ \<Rightarrow> 0)"

definition decode_bool :: "coder \<Rightarrow> string \<Rightarrow> bool" where
  "decode_bool c key = (case map_of c key of Some (CodedBool b) \<Rightarrow> b | _ \<Rightarrow> False)"

text \<open>\<open>nil\<close> has no entries: a message to it for a key gives \<open>nil\<close>.\<close>

definition nil_serialization :: display_serialization where
  "nil_serialization =
     \<lparr>content_offset_value = None, content_inset_value = None, min_zoom_value = None,
      max_zoom_value = None, zoom_value = None, deprecated_x_offset = None,
      deprecated_y_offset = None\<rparr>"

definition encode_item_storage :: "nav_env \<Rightarrow> navigation_item_storage \<Rightarrow> coder option" where
  "encode_item_storage env s = do {
     description \<leftarrow> get_user_agent_type_description env (st_user_agent_type s);
     Some
       [(kNavigationItemStorageURLKey, CodedBytes (nav_spec (nav_urls env) (st_virtual_url s))),
        (kNavigationItemStorageReferrerURLKey,
         CodedBytes (nav_spec (nav_urls env) (referrer_url (st_referrer s)))),
        (kNavigationItemStorageReferrerPolicyKey,
         CodedInt (referrer_policy_number (policy_of (st_referrer s)))),
        (kNavigationItemStorageTimestampKey, CodedInt (st_timestamp s)),
        (kNavigationItemStorageTitleKey, CodedString (st_title s)),
        (kNavigationItemStoragePageDisplayStateKey,
         CodedDisplayState (get_serialization (st_display_state s))),
        (kNavigationItemStorageSkipRepostFormConfirmationKey,
         CodedBool (st_should_skip_repost_form_confirmation s)),
        (kNavigationItemStorageUserAgentTypeKey, CodedBytes description),
        (kNavigationItemStoragePOSTDataKey, CodedData (st_post_data s)),
        (kNavigationItemStorageHTTPRequestHeadersKey, CodedHeaders (st_http_request_headers s))]
   }"

definition decode_item_storage :: "nav_env \<Rightarrow> coder \<Rightarrow> navigation_item_storage option" where
  "decode_item_storage env c = do {
     let url = (if map_of c kNavigationItemStorageURLKey \<noteq> None
                then nav_parse (nav_urls env) (decode_string c kNavigationItemStorageURLKey) else []);
     referrer \<leftarrow>
       (if map_of c kNavigationItemStorageReferrerURLKey \<noteq> None
        then do {
          policy \<leftarrow> referrer_policy_of_number (decode_int c kNavigationItemStorageReferrerPolicyKey);
          Some \<lparr>referrer_url =
                  nav_parse (nav_urls env) (decode_string c kNavigationItemStorageReferrerURLKey),
                policy_of = policy\<rparr>
        }
        else Some \<lparr>referrer_url =
                     (case map_of c kNavigationItemStorageReferrerURLDeprecatedKey of
                        Some (CodedURL u) \<Rightarrow> u | _ \<Rightarrow> []),
                   policy_of = ReferrerPolicyDefault\<rparr>);
     let time = (if map_of c kNavigationItemStorageTimestampKey \<noteq> None
                 then decode_int c kNavigationItemStorageTimestampKey else 0);
     let agent = (if map_of c kNavigationItemStorageUserAgentTypeKey \<noteq> None
                  then get_user_agent_type_with_description
                         (decode_string c kNavigationItemStorageUserAgentTypeKey)
                  else UA_NONE);
     let title = (case map_of c kNavigationItemStorageTitleKey of Some (CodedString t) \<Rightarrow> t | _ \<Rightarrow> []);
     let display = display_state_of_serialization
           (case map_of c kNavigationItemStoragePageDisplayStateKey of
              Some (CodedDisplayState d) \<Rightarrow> d | _ \<Rightarrow> nil_serialization);
     Some \<lparr>st_virtual_url = url, st_referrer = referrer, st_timestamp = time, st_title = title,
           st_display_state = display,
           st_should_skip_repost_form_confirmation =
             decode_bool c kNavigationItemStorageSkipRepostFormConfirmationKey,
           st_user_agent_type = agent,
           st_post_data = (case map_of c kNavigationItemStoragePOSTDataKey of
                             Some (CodedData d) \<Rightarrow> d | _ \<Rightarrow> None),
           st_http_request_headers = (case map_of c kNavigationItemStorageHTTPRequestHeadersKey of
                                        Some (CodedHeaders h) \<Rightarrow> h | _ \<Rightarrow> None)\<rparr>
   }"

end
