(* ===== verification/SessionStorage.thy ===== *)
theory SessionStorage
  imports NavLoads NavStorage
begin

text \<open>
  Sessions that are stored and restored: \<open>web/navigation/session_storage_builder.mm\<close> and the coding
  of \<open>web/session/crw_session_storage.mm\<close>. The certificate policies of the session are in
  \<open>CertPolicies\<close>; the serializable user data belongs to the embedder and is left out.
\<close>

record session_storage =
  ss_has_opener :: bool
  ss_last_committed_item_index :: int
  ss_previous_item_index :: int
  ss_item_storages :: "navigation_item_storage list"

text \<open>
  The loop over the items: the index of the last committed item goes down for every item before
  or at \<open>original_index\<close>, a \<open>size_t\<close>, that is not stored.
\<close>

fun store_items ::
  "nav_env \<Rightarrow> nat \<Rightarrow> nat list \<Rightarrow> int \<Rightarrow> nav_manager
     \<Rightarrow> (int \<times> navigation_item_storage list \<times> nav_manager) option" where
  "store_items env original_index [] committed s = Some (committed, [], s)"
| "store_items env original_index (index # indices) committed s = do {
     (p, s) \<leftarrow> get_navigation_item_impl_at_index env index s;
     item \<leftarrow> deref s p;
     if should_skip_serialization item
     then store_items env original_index indices
            (if index \<le> original_index then committed - 1 else committed) s
     else do {
       (committed, storages, s) \<leftarrow> store_items env original_index indices committed s;
       Some (committed, build_item_storage item # storages, s)
     }
   }"

definition build_session_storage ::
  "nav_env \<Rightarrow> bool \<Rightarrow> nav_manager \<Rightarrow> (session_storage \<times> nav_manager) option" where
  "build_session_storage env has_opener s = do {
     (index, s) \<leftarrow> get_last_committed_item_index env s;
     let index = (if index = -1 then get_item_count s - 1 else index);
     (committed, storages, s) \<leftarrow>
       store_items env (to_size_t index) [0..<nat (get_item_count s)] index s;
     dcheck (committed < int (length storages));
     Some (\<lparr>ss_has_opener = has_opener, ss_last_committed_item_index = committed,
            ss_previous_item_index = previous_item_index s, ss_item_storages = storages\<rparr>, s)
   }"

fun items_of_storages ::
  "nav_env \<Rightarrow> navigation_item_storage list \<Rightarrow> nav_manager \<Rightarrow> (navigation_item list \<times> nav_manager) option" where
  "items_of_storages env [] s = Some ([], s)"
| "items_of_storages env (storage # storages) s = do {
     item \<leftarrow> build_navigation_item_impl env (nav_next_id s) storage;
     item \<leftarrow> rewrite_item_url_if_necessary env item;
     (items, s) \<leftarrow> items_of_storages env storages (s\<lparr>nav_next_id := nav_next_id s + 1\<rparr>);
     Some (item # items, s)
   }"

text \<open>The manager, and \<open>created_with_opener_\<close> of the web state.\<close>

definition extract_session_state ::
  "nav_env \<Rightarrow> session_storage \<Rightarrow> nav_manager \<Rightarrow> (bool \<times> nav_manager) option" where
  "extract_session_state env storage s = do {
     (items, s) \<leftarrow> items_of_storages env (ss_item_storages storage) s;
     s \<leftarrow> restore_items env (ss_last_committed_item_index storage) items s;
     s \<leftarrow> set_previous_item_index (ss_previous_item_index storage) s;
     Some (ss_has_opener storage, s)
   }"

section \<open>Coding of a session\<close>

datatype coded_session_value =
    SessionBool bool
  | SessionInt int
  | SessionItems "coder list"

type_synonym session_coder = "(string \<times> coded_session_value) list"

definition kItemStoragesKey :: string where "kItemStoragesKey = ''entries''"

definition kHasOpenerKey :: string where "kHasOpenerKey = ''openedByDOM''"

definition kLastCommittedItemIndexKey :: string where
  "kLastCommittedItemIndexKey = ''lastCommittedItemIndex''"

definition kPreviousItemIndexKey :: string where "kPreviousItemIndexKey = ''previousItemIndex''"

definition kLastCommittedItemIndexDeprecatedKey :: string where
  "kLastCommittedItemIndexDeprecatedKey = ''currentNavigationIndex''"

definition kPreviousItemIndexDeprecatedKey :: string where
  "kPreviousItemIndexDeprecatedKey = ''previousNavigationIndex''"

lemmas session_key_defs =
  kItemStoragesKey_def kHasOpenerKey_def kLastCommittedItemIndexKey_def kPreviousItemIndexKey_def
  kLastCommittedItemIndexDeprecatedKey_def kPreviousItemIndexDeprecatedKey_def

definition session_int :: "session_coder \<Rightarrow> string \<Rightarrow> int" where
  "session_int c key = (case map_of c key of Some (SessionInt n) \<Rightarrow> n | _ \<Rightarrow> 0)"

fun encode_item_storages :: "nav_env \<Rightarrow> navigation_item_storage list \<Rightarrow> coder list option" where
  "encode_item_storages env [] = Some []"
| "encode_item_storages env (x # xs) = do {
     c \<leftarrow> encode_item_storage env x;
     cs \<leftarrow> encode_item_storages env xs;
     Some (c # cs)
   }"

fun decode_item_storages :: "nav_env \<Rightarrow> coder list \<Rightarrow> navigation_item_storage list option" where
  "decode_item_storages env [] = Some []"
| "decode_item_storages env (c # cs) = do {
     x \<leftarrow> decode_item_storage env c;
     xs \<leftarrow> decode_item_storages env cs;
     Some (x # xs)
   }"

definition encode_session :: "nav_env \<Rightarrow> session_storage \<Rightarrow> session_coder option" where
  "encode_session env s = do {
     items \<leftarrow> encode_item_storages env (ss_item_storages s);
     Some [(kHasOpenerKey, SessionBool (ss_has_opener s)),
           (kLastCommittedItemIndexKey, SessionInt (to_int32 (ss_last_committed_item_index s))),
           (kPreviousItemIndexKey, SessionInt (to_int32 (ss_previous_item_index s))),
           (kItemStoragesKey, SessionItems items)]
   }"

definition decode_session :: "nav_env \<Rightarrow> session_coder \<Rightarrow> session_storage option" where
  "decode_session env c = do {
     let committed = session_int c (if map_of c kLastCommittedItemIndexKey \<noteq> None
           then kLastCommittedItemIndexKey else kLastCommittedItemIndexDeprecatedKey);
     let previous = session_int c (if map_of c kPreviousItemIndexKey \<noteq> None
           then kPreviousItemIndexKey else kPreviousItemIndexDeprecatedKey);
     items \<leftarrow> decode_item_storages env
       (case map_of c kItemStoragesKey of Some (SessionItems cs) \<Rightarrow> cs | _ \<Rightarrow> []);
     Some \<lparr>ss_has_opener = (case map_of c kHasOpenerKey of Some (SessionBool b) \<Rightarrow> b | _ \<Rightarrow> False),
           ss_last_committed_item_index = (if items = [] then -1 else committed),
           ss_previous_item_index = previous, ss_item_storages = items\<rparr>
   }"

end
