(* ===== verification/NavFacts.thy ===== *)
theory NavFacts
  imports SessionStorage
begin

text \<open>
  Lemmas on navigation items and on the queries of the navigation manager: reading and changing an
  item through its place, the queries are total but for the check of the last committed item, they
  change nothing but the items they create (\<open>looked\<close>), and every item they create has a user agent
  exactly when its URL needs one (\<open>item_ok\<close>).
\<close>

section \<open>User agents of items\<close>

definition needs_agent :: "nav_env \<Rightarrow> nav_url \<Rightarrow> bool" where
  "needs_agent env url = (url_needs_user_agent_type (nav_urls env) url = Some True)"

lemma url_needs_user_agent_type [simp]:
  "url_needs_user_agent_type (nav_urls env) url = Some (needs_agent env url)"
proof -
  let ?e = "nav_urls env"
  have original: "\<exists>y. extract_url_from_placeholder_url ?e url = Some y" if "\<not> use_js_for_error_page ?e"
    using that by (simp add: extract_url_from_placeholder_url_def is_placeholder_url_def)
  have "\<exists>b. (if \<not> use_js_for_error_page ?e \<and> nav_scheme ?e url = ''about''
              then is_placeholder_url ?e url else Some False) = Some b
             \<and> (b \<longrightarrow> \<not> use_js_for_error_page ?e)"
    by (auto simp: is_placeholder_url_def intro: exI [of _ False])
  then obtain b where b: "(if \<not> use_js_for_error_page ?e \<and> nav_scheme ?e url = ''about''
      then is_placeholder_url ?e url else Some False) = Some b" "b \<longrightarrow> \<not> use_js_for_error_page ?e"
    by blast
  have "\<exists>y. url_needs_user_agent_type ?e url = Some y"
    unfolding url_needs_user_agent_type_def b(1) using original b(2)
    by (cases b; cases "is_app_specific_url ?e url") (auto simp del: not_None_eq)
  then show ?thesis by (auto simp: needs_agent_def)
qed

text \<open>An item has a user agent type, and one to inherit, exactly when its URL needs one.\<close>

definition item_ok :: "nav_env \<Rightarrow> navigation_item \<Rightarrow> bool" where
  "item_ok env item \<longleftrightarrow>
     (ni_user_agent_type item \<noteq> UA_NONE \<longleftrightarrow> needs_agent env (ni_url item))
   \<and> (needs_agent env (ni_url item) \<longrightarrow> user_agent_type_inheritance item \<noteq> UA_NONE)"

lemma set_user_agent_type_eq:
  "set_user_agent_type env type b item =
     (if (type \<noteq> UA_NONE) = needs_agent env (ni_url item)
      then Some (item\<lparr>ni_user_agent_type := type,
                     user_agent_type_inheritance := (if b then type else user_agent_type_inheritance item)\<rparr>)
      else None)"
  by (auto simp: set_user_agent_type_def dcheck_def Let_def)

lemma set_item_url_total: "\<exists>i. set_item_url env url item = Some i"
  by (auto simp: set_item_url_def set_user_agent_type_eq Let_def)

lemma set_item_url_url: "set_item_url env url item = Some i \<Longrightarrow> ni_url i = url"
  by (auto simp: set_item_url_def set_user_agent_type_eq Let_def split: if_splits)

lemma set_item_url_agent:
  "set_item_url env url item = Some i \<Longrightarrow> (ni_user_agent_type i \<noteq> UA_NONE) = needs_agent env url"
  by (auto simp: set_item_url_def set_user_agent_type_eq Let_def split: if_splits)

lemma set_item_url_ok:
  assumes "set_item_url env url item = Some i"
    and "ni_user_agent_type item \<noteq> UA_NONE \<longrightarrow> user_agent_type_inheritance item \<noteq> UA_NONE"
  shows "item_ok env i"
  using assms by (auto simp: set_item_url_def set_user_agent_type_eq item_ok_def Let_def split: if_splits)

text \<open>What a new URL leaves as it was.\<close>

lemma set_item_url_frame:
  assumes "set_item_url env url item = Some i"
  shows "ni_title i = ni_title item" "initiation_type i = initiation_type item"
    "ni_virtual_url i = ni_virtual_url item" "original_request_url i = original_request_url item"
    "unique_id i = unique_id item" "should_skip_serialization i = should_skip_serialization item"
    "transition_type i = transition_type item" "ni_referrer i = ni_referrer item"
    "is_untrusted i = is_untrusted item" "timestamp i = timestamp item"
  using assms by (auto simp: set_item_url_def set_user_agent_type_eq Let_def split: if_splits)

lemma item_ok_inherits:
  "item_ok env item \<Longrightarrow> ni_user_agent_type item \<noteq> UA_NONE \<longrightarrow> user_agent_type_inheritance item \<noteq> UA_NONE"
  by (auto simp: item_ok_def)

lemma new_item_inherits:
  "ni_user_agent_type (new_navigation_item env n) \<noteq> UA_NONE
     \<longrightarrow> user_agent_type_inheritance (new_navigation_item env n) \<noteq> UA_NONE"
  by (simp add: new_navigation_item_def Let_def)

lemma new_item_not_desktop: "ni_user_agent_type (new_navigation_item env n) \<noteq> UA_DESKTOP"
  by (simp add: new_navigation_item_def Let_def)

lemma set_item_url_not_desktop:
  "set_item_url env url item = Some i \<Longrightarrow> ni_user_agent_type item \<noteq> UA_DESKTOP
     \<Longrightarrow> ni_user_agent_type i \<noteq> UA_DESKTOP"
  by (auto simp: set_item_url_def set_user_agent_type_eq Let_def split: if_splits)

text \<open>Changes of an item that keep it well formed.\<close>

lemma item_ok_simps [simp]:
  "item_ok env (set_virtual_url u i) = item_ok env i"
  "item_ok env (set_title t i) = item_ok env i"
  "item_ok env (set_untrusted i) = item_ok env i"
  "item_ok env (add_http_request_headers h i) = item_ok env i"
  "item_ok env (reset_http_request_headers i) = item_ok env i"
  "item_ok env (reset_for_commit i) = item_ok env i"
  "item_ok env (copy_navigation_item env i) = item_ok env i"
  "item_ok env (i\<lparr>timestamp := n\<rparr>) = item_ok env i"
  "item_ok env (i\<lparr>transition_type := w\<rparr>) = item_ok env i"
  "item_ok env (i\<lparr>ni_referrer := r\<rparr>) = item_ok env i"
  "item_ok env (i\<lparr>initiation_type := x\<rparr>) = item_ok env i"
  "item_ok env (i\<lparr>is_created_from_hash_change := b\<rparr>) = item_ok env i"
  "item_ok env (i\<lparr>should_skip_serialization := b\<rparr>) = item_ok env i"
  "item_ok env (i\<lparr>ni_post_data := d\<rparr>) = item_ok env i"
  "item_ok env (i\<lparr>should_skip_repost_form_confirmation := b\<rparr>) = item_ok env i"
  "item_ok env (i\<lparr>serialized_state_object := o1\<rparr>) = item_ok env i"
  "item_ok env (i\<lparr>has_state_been_replaced := b\<rparr>) = item_ok env i"
  by (simp_all add: item_ok_def set_virtual_url_def set_title_def set_untrusted_def
      add_http_request_headers_def reset_http_request_headers_def reset_for_commit_def
      copy_navigation_item_def split: option.split)

lemma set_virtual_url_sels [simp]:
  "ni_url (set_virtual_url u i) = ni_url i" "ni_title (set_virtual_url u i) = ni_title i"
  "should_skip_serialization (set_virtual_url u i) = should_skip_serialization i"
  "initiation_type (set_virtual_url u i) = initiation_type i"
  "unique_id (set_virtual_url u i) = unique_id i"
  by (simp_all add: set_virtual_url_def)

lemma set_title_sels [simp]:
  "ni_url (set_title u i) = ni_url i" "ni_title (set_title u i) = u"
  "should_skip_serialization (set_title u i) = should_skip_serialization i"
  "initiation_type (set_title u i) = initiation_type i" "unique_id (set_title u i) = unique_id i"
  "ni_virtual_url (set_title u i) = ni_virtual_url i"
  by (simp_all add: set_title_def)

section \<open>Places of items\<close>

lemma wk_item_at_update:
  "wk_item_at (update_wk_item pos f w) pos' =
     (if pos' = pos then map_option f (wk_item_at w pos) else wk_item_at w pos')"
  by (cases pos; cases pos') (auto simp: wk_item_at_def update_wk_item_def)

lemma item_of_update_item:
  "item_of (update_item r f s) r' = (if r' = r then map_option f (item_of s r) else item_of s r')"
proof -
  have held: "Option.bind (map_option (\<lambda>x. x\<lparr>wk_held_item := map_option f (wk_held_item x)\<rparr>) o1) wk_held_item
      = map_option f (Option.bind o1 wk_held_item)" for o1
    by (cases o1) auto
  show ?thesis
    by (cases r; cases r')
      (auto simp: item_of_def update_item_def wk_item_at_update held split: option.split)
qed

text \<open>Every item is well formed but the one kept to be shown during a restoration.\<close>

definition nav_ok :: "nav_env \<Rightarrow> nav_manager \<Rightarrow> bool" where
  "nav_ok env s \<longleftrightarrow> (\<forall>r i. item_of s r = Some i \<longrightarrow> r \<noteq> RestoredRef \<longrightarrow> item_ok env i)"

lemma nav_okD: "nav_ok env s \<Longrightarrow> item_of s r = Some i \<Longrightarrow> r \<noteq> RestoredRef \<Longrightarrow> item_ok env i"
  by (auto simp: nav_ok_def)

lemma item_of_simps [simp]:
  "item_of s PendingRef = pending_item s"
  "item_of s TransientRef = transient_item s"
  "item_of s EmptyWindowRef = empty_window_open_item s"
  "item_of s WebViewItemRef = last_committed_web_view_item s"
  "item_of s RestoredRef = restored_visible_item s"
  "item_of s ContextRef = context_pending_item s"
  by (simp_all add: item_of_def)

lemma item_of_update_simps [simp]:
  "item_of (s\<lparr>nav_next_id := v0\<rparr>) r = item_of s r"
  "item_of (s\<lparr>nav_time_smoother := v1\<rparr>) r = item_of s r"
  "item_of (s\<lparr>pending_item_index := v2\<rparr>) r = item_of s r"
  "item_of (s\<lparr>previous_item_index := v3\<rparr>) r = item_of s r"
  "item_of (s\<lparr>last_committed_item_index := v4\<rparr>) r = item_of s r"
  "item_of (s\<lparr>attached_to_web_view := v5\<rparr>) r = item_of s r"
  "item_of (s\<lparr>cached_current_item_index := v6\<rparr>) r = item_of s r"
  "item_of (s\<lparr>is_restore_session_in_progress := v7\<rparr>) r = item_of s r"
  "item_of (s\<lparr>going_to_back_forward_list_item := v8\<rparr>) r = item_of s r"
  "item_of (s\<lparr>next_pending_url_should_skip_serialization := v9\<rparr>) r = item_of s r"
  "item_of (s\<lparr>restoration_timer := v10\<rparr>) r = item_of s r"
  "item_of (s\<lparr>restore_session_completion_callbacks := v11\<rparr>) r = item_of s r"
  "item_of (s\<lparr>transient_url_rewriters := v12\<rparr>) r = item_of s r"
  "item_of (s\<lparr>has_nav_web_state := v13\<rparr>) r = item_of s r"
  "item_of (s\<lparr>document_url := v14\<rparr>) r = item_of s r"
  "item_of (s\<lparr>web_state_is_loading := v15\<rparr>) r = item_of s r"
  "item_of (s\<lparr>nav_clock := v16\<rparr>) r = item_of s r"
  "item_of (s\<lparr>delegate_calls := v17\<rparr>) r = item_of s r"
  "item_of (s\<lparr>pending_item := x\<rparr>) r = (if r = PendingRef then x else item_of s r)"
  "item_of (s\<lparr>transient_item := x\<rparr>) r = (if r = TransientRef then x else item_of s r)"
  "item_of (s\<lparr>empty_window_open_item := x\<rparr>) r = (if r = EmptyWindowRef then x else item_of s r)"
  "item_of (s\<lparr>last_committed_web_view_item := x\<rparr>) r = (if r = WebViewItemRef then x else item_of s r)"
  "item_of (s\<lparr>restored_visible_item := x\<rparr>) r = (if r = RestoredRef then x else item_of s r)"
  "item_of (s\<lparr>context_pending_item := x\<rparr>) r = (if r = ContextRef then x else item_of s r)"
  by (cases r; simp add: item_of_def)+

lemma nav_ok_update_simps [simp]:
  "nav_ok env (s\<lparr>nav_next_id := v0\<rparr>) = nav_ok env s"
  "nav_ok env (s\<lparr>nav_time_smoother := v1\<rparr>) = nav_ok env s"
  "nav_ok env (s\<lparr>pending_item_index := v2\<rparr>) = nav_ok env s"
  "nav_ok env (s\<lparr>previous_item_index := v3\<rparr>) = nav_ok env s"
  "nav_ok env (s\<lparr>last_committed_item_index := v4\<rparr>) = nav_ok env s"
  "nav_ok env (s\<lparr>attached_to_web_view := v5\<rparr>) = nav_ok env s"
  "nav_ok env (s\<lparr>cached_current_item_index := v6\<rparr>) = nav_ok env s"
  "nav_ok env (s\<lparr>is_restore_session_in_progress := v7\<rparr>) = nav_ok env s"
  "nav_ok env (s\<lparr>going_to_back_forward_list_item := v8\<rparr>) = nav_ok env s"
  "nav_ok env (s\<lparr>next_pending_url_should_skip_serialization := v9\<rparr>) = nav_ok env s"
  "nav_ok env (s\<lparr>restoration_timer := v10\<rparr>) = nav_ok env s"
  "nav_ok env (s\<lparr>restore_session_completion_callbacks := v11\<rparr>) = nav_ok env s"
  "nav_ok env (s\<lparr>transient_url_rewriters := v12\<rparr>) = nav_ok env s"
  "nav_ok env (s\<lparr>has_nav_web_state := v13\<rparr>) = nav_ok env s"
  "nav_ok env (s\<lparr>document_url := v14\<rparr>) = nav_ok env s"
  "nav_ok env (s\<lparr>web_state_is_loading := v15\<rparr>) = nav_ok env s"
  "nav_ok env (s\<lparr>nav_clock := v16\<rparr>) = nav_ok env s"
  "nav_ok env (s\<lparr>delegate_calls := v17\<rparr>) = nav_ok env s"
  by (simp_all add: nav_ok_def)

lemma item_of_cong:
  assumes "cached_items s' = cached_items s" and "nav_web_view s' = nav_web_view s"
  shows "item_of s' (CachedRef i) = item_of s (CachedRef i)" "item_of s' (WkRef p) = item_of s (WkRef p)"
  using assms by (simp_all add: item_of_def)

text \<open>The manager without what a query may change.\<close>

definition strip_wk_item :: "wk_item \<Rightarrow> wk_item" where
  "strip_wk_item x = x\<lparr>wk_held_item := None\<rparr>"

definition strip_view :: "web_view \<Rightarrow> web_view" where
  "strip_view w = w\<lparr>wv_back_list := map strip_wk_item (wv_back_list w),
     wv_current_item := map_option strip_wk_item (wv_current_item w),
     wv_forward_list := map strip_wk_item (wv_forward_list w)\<rparr>"

definition skeleton :: "nav_manager \<Rightarrow> nav_manager" where
  "skeleton s = s\<lparr>nav_next_id := 0, nav_time_smoother := new_time_smoother,
     last_committed_web_view_item := None, nav_web_view := map_option strip_view (nav_web_view s)\<rparr>"

definition looked :: "nav_env \<Rightarrow> nav_manager \<Rightarrow> nav_manager \<Rightarrow> bool" where
  "looked env s s' \<longleftrightarrow> skeleton s' = skeleton s
     \<and> (\<forall>r i. r \<noteq> WebViewItemRef \<longrightarrow> item_of s r = Some i \<longrightarrow> item_of s' r = Some i)
     \<and> (nav_ok env s \<longrightarrow> nav_ok env s')"

lemma looked_refl [simp]: "looked env s s"
  by (simp add: looked_def)

lemma looked_trans: "looked env s t \<Longrightarrow> looked env t u \<Longrightarrow> looked env s u"
  by (simp add: looked_def)

lemma looked_ok: "looked env s s' \<Longrightarrow> nav_ok env s \<Longrightarrow> nav_ok env s'"
  by (simp add: looked_def)

lemma looked_item: "looked env s s' \<Longrightarrow> r \<noteq> WebViewItemRef \<Longrightarrow> item_of s r = Some i \<Longrightarrow> item_of s' r = Some i"
  by (simp add: looked_def)

lemma strip_view_eqD:
  assumes "strip_view v = strip_view w"
  shows "wv_url v = wv_url w" "length (wv_back_list v) = length (wv_back_list w)"
    "length (wv_forward_list v) = length (wv_forward_list w)"
    "(wv_current_item v = None) = (wv_current_item w = None)"
    "wk_count v = wk_count w" "item_at_offset v = item_at_offset w"
    "map_option strip_wk_item (wk_item_at v p) = map_option strip_wk_item (wk_item_at w p)"
proof -
  have lists: "map strip_wk_item (wv_back_list v) = map strip_wk_item (wv_back_list w)"
    "map_option strip_wk_item (wv_current_item v) = map_option strip_wk_item (wv_current_item w)"
    "map strip_wk_item (wv_forward_list v) = map strip_wk_item (wv_forward_list w)"
    using arg_cong [OF assms, of wv_back_list] arg_cong [OF assms, of wv_current_item]
      arg_cong [OF assms, of wv_forward_list] by (simp_all add: strip_view_def)
  show url: "wv_url v = wv_url w" using arg_cong [OF assms, of wv_url] by (simp add: strip_view_def)
  show lb: "length (wv_back_list v) = length (wv_back_list w)"
    and lf: "length (wv_forward_list v) = length (wv_forward_list w)"
    using lists(1,3) map_eq_imp_length_eq by blast+
  show cn: "(wv_current_item v = None) = (wv_current_item w = None)"
    using lists(2) by (metis option.map_disc_iff)
  show "wk_count v = wk_count w" by (simp add: wk_count_def lb lf cn)
  show "item_at_offset v = item_at_offset w" by (rule ext) (simp add: item_at_offset_def lb lf cn)
  show "map_option strip_wk_item (wk_item_at v p) = map_option strip_wk_item (wk_item_at w p)"
    using lists lb lf by (cases p) (auto simp: wk_item_at_def list_eq_iff_nth_eq)
qed

lemma skeleton_iff:
  "skeleton t = skeleton s \<longleftrightarrow>
     pending_item t = pending_item s
   \<and> pending_item_index t = pending_item_index s
   \<and> previous_item_index t = previous_item_index s
   \<and> last_committed_item_index t = last_committed_item_index s
   \<and> empty_window_open_item t = empty_window_open_item s
   \<and> transient_item t = transient_item s
   \<and> attached_to_web_view t = attached_to_web_view s
   \<and> cached_items t = cached_items s
   \<and> cached_current_item_index t = cached_current_item_index s
   \<and> is_restore_session_in_progress t = is_restore_session_in_progress s
   \<and> going_to_back_forward_list_item t = going_to_back_forward_list_item s
   \<and> next_pending_url_should_skip_serialization t = next_pending_url_should_skip_serialization s
   \<and> restored_visible_item t = restored_visible_item s
   \<and> restore_session_completion_callbacks t = restore_session_completion_callbacks s
   \<and> transient_url_rewriters t = transient_url_rewriters s
   \<and> context_pending_item t = context_pending_item s
   \<and> has_nav_web_state t = has_nav_web_state s
   \<and> document_url t = document_url s
   \<and> web_state_is_loading t = web_state_is_loading s
   \<and> nav_clock t = nav_clock s
   \<and> delegate_calls t = delegate_calls s
   \<and> map_option strip_view (nav_web_view t) = map_option strip_view (nav_web_view s)
   \<and> restoration_timer t = restoration_timer s"
  by (cases s; cases t) (auto simp: skeleton_def)

lemma skeleton_eqD:
  assumes "skeleton t = skeleton s"
  shows "pending_item t = pending_item s" "pending_item_index t = pending_item_index s"
    "previous_item_index t = previous_item_index s"
    "last_committed_item_index t = last_committed_item_index s"
    "empty_window_open_item t = empty_window_open_item s" "transient_item t = transient_item s"
    "attached_to_web_view t = attached_to_web_view s" "cached_items t = cached_items s"
    "cached_current_item_index t = cached_current_item_index s"
    "is_restore_session_in_progress t = is_restore_session_in_progress s"
    "going_to_back_forward_list_item t = going_to_back_forward_list_item s"
    "next_pending_url_should_skip_serialization t = next_pending_url_should_skip_serialization s"
    "restored_visible_item t = restored_visible_item s"
    "restore_session_completion_callbacks t = restore_session_completion_callbacks s"
    "transient_url_rewriters t = transient_url_rewriters s"
    "context_pending_item t = context_pending_item s" "has_nav_web_state t = has_nav_web_state s"
    "document_url t = document_url s" "web_state_is_loading t = web_state_is_loading s"
    "nav_clock t = nav_clock s" "delegate_calls t = delegate_calls s"
    "map_option strip_view (nav_web_view t) = map_option strip_view (nav_web_view s)"
    "restoration_timer t = restoration_timer s"
  using assms unfolding skeleton_iff by simp_all

lemma skeleton_view:
  assumes "skeleton t = skeleton s"
  shows "get_back_forward_list_item_count t = get_back_forward_list_item_count s"
    "get_current_item_index t = get_current_item_index s"
    "get_visible_web_view_url t = get_visible_web_view_url s"
    "get_wk_item_at_index i t = get_wk_item_at_index i s"
    "get_item_count t = get_item_count s"
    "get_last_committed_item_index_in_session t = get_last_committed_item_index_in_session s"
    "(nav_web_view t = None) = (nav_web_view s = None)"
proof -
  note eqs = skeleton_eqD(5,2,4,7,8,9) [OF assms]
  have view: "map_option strip_view (nav_web_view t) = map_option strip_view (nav_web_view s)"
    by (rule skeleton_eqD(22) [OF assms])
  show none: "(nav_web_view t = None) = (nav_web_view s = None)" using view by (metis option.map_disc_iff)
  have cases: "(nav_web_view t = None \<and> nav_web_view s = None)
      \<or> (\<exists>v w. nav_web_view t = Some v \<and> nav_web_view s = Some w \<and> wk_count v = wk_count w
           \<and> length (wv_back_list v) = length (wv_back_list w)
           \<and> (wv_current_item v = None) = (wv_current_item w = None)
           \<and> wv_url v = wv_url w \<and> item_at_offset v = item_at_offset w)"
  proof (cases "nav_web_view t")
    case None
    then show ?thesis using none by simp
  next
    case (Some v)
    then obtain w where w: "nav_web_view s = Some w" "strip_view v = strip_view w"
      using view by (cases "nav_web_view s") simp_all
    show ?thesis using strip_view_eqD(1,2,4,5,6) [OF w(2)]
      by (intro disjI2 exI [of _ v] exI [of _ w]) (simp add: Some w(1))
  qed
  show cnt: "get_back_forward_list_item_count t = get_back_forward_list_item_count s"
    using cases by (elim disjE exE conjE) (simp_all add: get_back_forward_list_item_count_def eqs)
  show cur: "get_current_item_index t = get_current_item_index s"
    using cases by (elim disjE exE conjE) (simp_all add: get_current_item_index_def eqs)
  show "get_visible_web_view_url t = get_visible_web_view_url s"
    using cases by (elim disjE exE conjE) (simp_all add: get_visible_web_view_url_def eqs)
  show "get_wk_item_at_index i t = get_wk_item_at_index i s"
    using cases by (elim disjE exE conjE) (simp_all add: get_wk_item_at_index_def eqs cnt cur)
  show "get_item_count t = get_item_count s" by (simp add: get_item_count_def eqs cnt)
  show "get_last_committed_item_index_in_session t = get_last_committed_item_index_in_session s"
    by (simp add: get_last_committed_item_index_in_session_def eqs cur)
qed

section \<open>Creating items\<close>

text \<open>The URL an item gets, and how the item and the counter come out.\<close>

definition loaded_url ::
  "nav_env \<Rightarrow> nav_url \<Rightarrow> 32 word \<Rightarrow> navigation_initiation_type \<Rightarrow> nav_url \<Rightarrow> url_rewriter list option \<Rightarrow> nav_url" where
  "loaded_url env url transition initiation previous_url additional =
     (let loaded =
        (if \<not> use_js env \<and> is_placeholder env url = Some True then url
         else let (done1, url1) = (case additional of None \<Rightarrow> (False, url)
                                   | Some rewriters \<Rightarrow> rewrite_url_with_writers rewriters url)
              in if done1 then url1 else snd (rewrite_url_if_necessary env url1))
      in if (initiation = RENDERER_INITIATED
             \<or> page_transition_core_type_is env transition (page_transition_reload env))
            \<and> loaded \<noteq> url \<and> app_specific env loaded \<and> \<not> app_specific env previous_url
         then url else loaded)"

lemma is_placeholder_total: "\<not> use_js env \<Longrightarrow> \<exists>b. is_placeholder env url = Some b"
  by (simp add: is_placeholder_def is_placeholder_url_def use_js_def)

lemma create_total:
  "\<exists>item. create_navigation_item_with_rewriters env url referrer transition initiation previous additional s
       = Some (item, s\<lparr>nav_next_id := nav_next_id s + 1\<rparr>)
     \<and> ni_url item = loaded_url env url transition initiation previous additional
     \<and> item_ok env item \<and> ni_user_agent_type item \<noteq> UA_DESKTOP
     \<and> initiation_type item = initiation \<and> ni_virtual_url item = []
     \<and> should_skip_serialization item = False \<and> ni_title item = [] \<and> unique_id item = nav_next_id s"
proof -
  let ?new = "(new_navigation_item env (nav_next_id s))\<lparr>original_request_url :=
    loaded_url env url transition initiation previous additional\<rparr>"
  obtain b where b: "(if use_js env then Some False else is_placeholder env url) = Some b"
    using is_placeholder_total [of env url] by (cases "use_js env") auto
  have b': "b = (\<not> use_js env \<and> is_placeholder env url = Some True)" using b by (auto split: if_splits)
  obtain i where i: "set_item_url env (loaded_url env url transition initiation previous additional) ?new = Some i"
    using set_item_url_total by blast
  have "item_ok env i" "ni_user_agent_type i \<noteq> UA_DESKTOP"
    using set_item_url_ok [OF i] set_item_url_not_desktop [OF i] new_item_inherits new_item_not_desktop
    by (auto simp: new_navigation_item_def Let_def)
  moreover have "ni_virtual_url i = []" "should_skip_serialization i = False" "ni_title i = []"
    "unique_id i = nav_next_id s"
    using set_item_url_frame [OF i] by (simp_all add: new_navigation_item_def Let_def)
  moreover have "create_navigation_item_with_rewriters env url referrer transition initiation previous additional s
      = Some (i\<lparr>ni_referrer := referrer, transition_type := transition, initiation_type := initiation\<rparr>,
              s\<lparr>nav_next_id := nav_next_id s + 1\<rparr>)"
    using i unfolding create_navigation_item_with_rewriters_def b loaded_url_def b' [symmetric]
    by (simp add: Let_def split: prod.split option.split)
  ultimately show ?thesis using set_item_url_url [OF i] by simp
qed

lemma looked_id [simp]: "looked env s (s\<lparr>nav_next_id := n\<rparr>)"
  by (auto simp: looked_def skeleton_def nav_ok_def item_of_def split: item_ref.splits)

lemma looked_smoother [simp]: "looked env s (s\<lparr>nav_time_smoother := m\<rparr>)"
  by (auto simp: looked_def skeleton_def nav_ok_def item_of_def split: item_ref.splits)

lemma smoothed_now_eq: "\<exists>now m. smoothed_now s = (now, s\<lparr>nav_time_smoother := m\<rparr>)"
  by (cases "get_smoothed_time (nav_time_smoother s) (nav_clock s)") (auto simp: smoothed_now_def)

lemma extract_total: "\<not> use_js env \<Longrightarrow> \<exists>u. extract_url_from_placeholder_url (nav_urls env) url = Some u"
  by (simp add: extract_url_from_placeholder_url_def is_placeholder_url_def use_js_def)

lemma extract_target_total: "restore_url env url \<Longrightarrow> \<exists>t. extract_target_url (nav_urls env) url = Some t"
  by (simp add: extract_target_url_def)

lemma unwrap_total: "\<exists>u. unwrap_placeholder env url = Some u"
proof (cases "use_js env")
  case False
  then obtain b u where "is_placeholder env url = Some b" "extract_url_from_placeholder_url (nav_urls env) url = Some u"
    using is_placeholder_total extract_total by blast
  then show ?thesis by (cases b) (simp_all add: unwrap_placeholder_def)
qed (simp add: unwrap_placeholder_def)

text \<open>Hiding an internal URL from an item, as for an entry without one.\<close>

lemma new_item_for_wk_item_total:
  "\<exists>item m. new_item_for_wk_item env wk prev s
       = Some (item, s\<lparr>nav_next_id := nav_next_id s + 1, nav_time_smoother := m\<rparr>)
     \<and> item_ok env item \<and> should_skip_serialization item = False \<and> ni_title item = wk_title wk
     \<and> ni_url item = loaded_url env (wk_url wk) (page_transition_link env) RENDERER_INITIATED
         (case prev of Some p \<Rightarrow> wk_url p | None \<Rightarrow> []) None"
proof -
  let ?prev = "case prev of Some p \<Rightarrow> wk_url p | None \<Rightarrow> []"
  obtain item where create: "create_navigation_item_with_rewriters env (wk_url wk)
       (if prev \<noteq> None then \<lparr>referrer_url = ?prev, policy_of = ReferrerPolicyAlways\<rparr> else new_referrer)
       (page_transition_link env) RENDERER_INITIATED ?prev None s
       = Some (item, s\<lparr>nav_next_id := nav_next_id s + 1\<rparr>)"
    and item: "item_ok env item" "should_skip_serialization item = False"
      "ni_url item = loaded_url env (wk_url wk) (page_transition_link env) RENDERER_INITIATED ?prev None"
    using create_total [of env "wk_url wk" "if prev \<noteq> None then \<lparr>referrer_url = ?prev,
        policy_of = ReferrerPolicyAlways\<rparr> else new_referrer" "page_transition_link env" RENDERER_INITIATED
        ?prev None s] by blast
  obtain now m where now: "smoothed_now (s\<lparr>nav_next_id := nav_next_id s + 1\<rparr>)
      = (now, s\<lparr>nav_next_id := nav_next_id s + 1, nav_time_smoother := m\<rparr>)"
    using smoothed_now_eq by blast
  let ?i = "set_title (wk_title wk) (item\<lparr>timestamp := now\<rparr>)"
  have title: "ni_url ?i = ni_url item" by (simp add: set_title_def)
  have "\<exists>v. (if restore_url env (ni_url item) then do {
          target \<leftarrow> extract_target_url (nav_urls env) (ni_url item);
          case target of
            None \<Rightarrow> Some ?i
          | Some virtual_url \<Rightarrow> do {
              virtual_url \<leftarrow> unwrap_placeholder env virtual_url;
              Some (set_virtual_url virtual_url ?i)
            }
        }
        else Some ?i) = Some v \<and> (v = ?i \<or> (\<exists>u. v = set_virtual_url u ?i))"
  proof (cases "restore_url env (ni_url item)")
    case True
    then obtain target where "extract_target_url (nav_urls env) (ni_url item) = Some target"
      using extract_target_total by blast
    with True show ?thesis
    proof (cases target)
      case (Some virtual_url)
      obtain u where "unwrap_placeholder env virtual_url = Some u" using unwrap_total by blast
      then show ?thesis using True \<open>extract_target_url _ _ = _\<close> Some by auto
    qed auto
  qed auto
  then obtain v where v1: "(if restore_url env (ni_url item) then do {
          target \<leftarrow> extract_target_url (nav_urls env) (ni_url item);
          case target of
            None \<Rightarrow> Some ?i
          | Some virtual_url \<Rightarrow> do {
              virtual_url \<leftarrow> unwrap_placeholder env virtual_url;
              Some (set_virtual_url virtual_url ?i)
            }
        }
        else Some ?i) = Some v" and v: "v = ?i \<or> (\<exists>u. v = set_virtual_url u ?i)" by blast
  obtain b where b: "(if use_js env then Some False else is_placeholder env (ni_url item)) = Some b"
    using is_placeholder_total [of env "ni_url item"] by (cases "use_js env") auto
  obtain x where x: "(if b then do {
                original \<leftarrow> extract_url_from_placeholder_url (nav_urls env) (ni_url item);
                Some (set_virtual_url original v)
              }
              else Some v) = Some x" and x': "x = v \<or> (\<exists>u. x = set_virtual_url u v)"
  proof (cases b)
    case True
    then have "\<not> use_js env" using b by (auto split: if_splits)
    then obtain u where "extract_url_from_placeholder_url (nav_urls env) (ni_url item) = Some u"
      using extract_total by blast
    with True show ?thesis using that [of "set_virtual_url u v"] by auto
  qed (use that [of v] in auto)
  have "new_item_for_wk_item env wk prev s = Some (x, s\<lparr>nav_next_id := nav_next_id s + 1, nav_time_smoother := m\<rparr>)"
    unfolding new_item_for_wk_item_def Let_def create bind.bind_lunit prod.case now title v1 b x by simp
  moreover have "item_ok env x \<and> should_skip_serialization x = False \<and> ni_title x = wk_title wk \<and> ni_url x = ni_url item"
    using v x' item by auto
  ultimately show ?thesis using item(3) by auto
qed

section \<open>The items of the list\<close>

text \<open>The place of the item at an index, without creating it.\<close>

definition cache_ref_at :: "nav_manager \<Rightarrow> nat \<Rightarrow> item_ref option" where
  "cache_ref_at s i =
     (if i \<ge> get_back_forward_list_item_count s then None
      else if \<not> attached_to_web_view s then Some (CachedRef i)
      else case nav_web_view s of
        None \<Rightarrow> None
      | Some w \<Rightarrow> map_option WkRef (item_at_offset w (int i - get_current_item_index s)))"

definition item_ref_at :: "nav_manager \<Rightarrow> nat \<Rightarrow> item_ref option" where
  "item_ref_at s i =
     (if empty_window_open_item s \<noteq> None then (if i = 0 then Some EmptyWindowRef else None)
      else cache_ref_at s i)"

lemma item_at_offset_wk: "item_at_offset w n = Some pos \<Longrightarrow> wk_item_at w pos \<noteq> None"
  by (auto simp: item_at_offset_def wk_item_at_def split: if_splits)

lemma strip_held: "map_option strip_wk_item (map_option (\<lambda>x. x\<lparr>wk_held_item := i\<rparr>) o1) = map_option strip_wk_item o1"
  by (cases o1) (simp_all add: strip_wk_item_def)

lemma strip_list_update:
  "map strip_wk_item (xs[n := (xs ! n)\<lparr>wk_held_item := i\<rparr>]) = map strip_wk_item xs"
proof (rule nth_equalityI)
  fix k
  assume "k < length (map strip_wk_item (xs[n := (xs ! n)\<lparr>wk_held_item := i\<rparr>]))"
  then show "map strip_wk_item (xs[n := (xs ! n)\<lparr>wk_held_item := i\<rparr>]) ! k = map strip_wk_item xs ! k"
    by (cases "k = n") (simp_all add: strip_wk_item_def)
qed simp

lemma strip_view_hold: "strip_view (update_wk_item pos (\<lambda>x. x\<lparr>wk_held_item := i\<rparr>) w) = strip_view w"
  by (cases pos) (simp_all add: strip_view_def update_wk_item_def strip_list_update strip_held)

lemma item_of_held:
  assumes "nav_web_view s = Some w" and "wk_item_at w pos \<noteq> None"
  shows "item_of (s\<lparr>nav_web_view := Some (update_wk_item pos (\<lambda>x. x\<lparr>wk_held_item := i\<rparr>) w)\<rparr>) r =
    (if r = WkRef pos then i else item_of s r)"
  using assms by (cases r) (auto simp: item_of_def wk_item_at_update)

text \<open>Giving an item to an entry that has none.\<close>

lemma looked_hold:
  assumes "nav_web_view s = Some w" and "wk_item_at w pos \<noteq> None" and "item_of s (WkRef pos) = None"
    and "item_ok env i"
  shows "looked env s (s\<lparr>nav_web_view := Some (update_wk_item pos (\<lambda>x. x\<lparr>wk_held_item := Some i\<rparr>) w)\<rparr>)"
proof -
  have "skeleton (s\<lparr>nav_web_view := Some (update_wk_item pos (\<lambda>x. x\<lparr>wk_held_item := Some i\<rparr>) w)\<rparr>) = skeleton s"
    by (simp add: skeleton_def strip_view_hold assms(1))
  then show ?thesis
    using assms(3,4) by (auto simp: looked_def item_of_held [OF assms(1,2)] nav_ok_def)
qed

lemma cache_get:
  "\<exists>s'. cache_get_item_at_index env i s = Some (cache_ref_at s i, s') \<and> looked env s s'
     \<and> (\<forall>r. cache_ref_at s i = Some r \<longrightarrow> item_of s' r \<noteq> None \<and> r \<noteq> WebViewItemRef \<and> r \<noteq> RestoredRef)"
proof (cases "i \<ge> get_back_forward_list_item_count s \<or> \<not> attached_to_web_view s")
  case True
  then show ?thesis
    by (auto simp: cache_get_item_at_index_def cache_ref_at_def get_back_forward_list_item_count_def item_of_def)
next
  case False
  then obtain w where w: "nav_web_view s = Some w" and att: "attached_to_web_view s"
    and lt: "\<not> i \<ge> get_back_forward_list_item_count s"
    by (cases "nav_web_view s") (auto simp: get_back_forward_list_item_count_def)
  define wk where "wk = item_at_offset w (int i - get_current_item_index s)"
  have at: "get_wk_item_at_index i s = Some wk" using w att lt by (simp add: get_wk_item_at_index_def wk_def)
  have ref: "cache_ref_at s i = map_option WkRef wk" using w att lt by (simp add: cache_ref_at_def wk_def)
  show ?thesis
  proof (cases wk)
    case None
    then show ?thesis using w att lt at ref by (simp add: cache_get_item_at_index_def)
  next
    case (Some pos)
    then have pos: "wk_item_at w pos \<noteq> None" by (metis wk_def item_at_offset_wk)
    then obtain x where x: "wk_item_at w pos = Some x" by blast
    show ?thesis
    proof (cases "item_of s (WkRef pos)")
      case None
      obtain prev where prev: "(if i = 0 then Some None else get_wk_item_at_index (i - 1) s) = Some prev"
        using att by (cases "i = 0") (auto simp: get_wk_item_at_index_def)
      obtain item m where item: "new_item_for_wk_item env x (Option.bind prev (wk_item_at w)) s
          = Some (item, s\<lparr>nav_next_id := nav_next_id s + 1, nav_time_smoother := m\<rparr>)" "item_ok env item"
        using new_item_for_wk_item_total by blast
      let ?t = "s\<lparr>nav_next_id := nav_next_id s + 1, nav_time_smoother := m\<rparr>"
      let ?s' = "?t\<lparr>nav_web_view := Some (update_wk_item pos (\<lambda>x. x\<lparr>wk_held_item := Some item\<rparr>) w)\<rparr>"
      have t: "looked env s ?t" by (rule looked_trans [OF looked_id looked_smoother])
      have tw: "nav_web_view ?t = Some w" using w by simp
      have "item_of ?t (WkRef pos) = None" using None by (simp add: item_of_def)
      then have s': "looked env s ?s'"
        using looked_trans [OF t looked_hold [OF tw pos _ item(2)]] by simp
      have held: "item_of ?s' (WkRef pos) = Some item" using item_of_held [OF tw pos] by simp
      have "cache_get_item_at_index env i s = Some (Some (WkRef pos), ?s')"
        using att lt w at x None Some prev item(1) held pos
        by (simp add: cache_get_item_at_index_def get_navigation_item_from_wk_item_def
            set_navigation_item_in_wk_item_def Let_def)
      then show ?thesis using s' held ref Some by auto
    next
      case item: (Some item)
      then have "cache_get_item_at_index env i s = Some (Some (WkRef pos), s)"
        using att lt w at Some by (simp add: cache_get_item_at_index_def get_navigation_item_from_wk_item_def Let_def)
      then show ?thesis using item ref Some by auto
    qed
  qed
qed

lemma looked_refs:
  assumes "looked env s s'"
  shows "cache_ref_at s' i = cache_ref_at s i" "item_ref_at s' i = item_ref_at s i"
proof -
  have sk: "skeleton s' = skeleton s" using assms by (simp add: looked_def)
  show c: "cache_ref_at s' i = cache_ref_at s i"
  proof (cases "nav_web_view s'")
    case None
    then show ?thesis using skeleton_view(1,7) [OF sk] skeleton_eqD(7) [OF sk] by (simp add: cache_ref_at_def)
  next
    case (Some v)
    then obtain w where w: "nav_web_view s = Some w" "strip_view v = strip_view w"
      using skeleton_eqD(22) [OF sk] by (cases "nav_web_view s") simp_all
    show ?thesis using skeleton_view(1,2) [OF sk] skeleton_eqD(7) [OF sk] strip_view_eqD(6) [OF w(2)]
      by (simp add: cache_ref_at_def Some w(1))
  qed
  show "item_ref_at s' i = item_ref_at s i" using c skeleton_eqD(5) [OF sk] by (simp add: item_ref_at_def)
qed

lemma get_item:
  "\<exists>s'. get_navigation_item_impl_at_index env i s = Some (item_ref_at s i, s') \<and> looked env s s'
     \<and> (\<forall>r. item_ref_at s i = Some r \<longrightarrow> item_of s' r \<noteq> None \<and> r \<noteq> WebViewItemRef \<and> r \<noteq> RestoredRef)"
  using cache_get [of env i s] by (auto simp: get_navigation_item_impl_at_index_def item_ref_at_def)

lemma get_items:
  "\<exists>s'. get_items_at env indices s = Some (map (item_ref_at s) indices, s') \<and> looked env s s'"
proof (induction indices arbitrary: s)
  case (Cons i indices)
  obtain t where t: "get_navigation_item_impl_at_index env i s = Some (item_ref_at s i, t)" "looked env s t"
    using get_item by blast
  obtain u where u: "get_items_at env indices t = Some (map (item_ref_at t) indices, u)" "looked env t u"
    using Cons.IH by blast
  have "map (item_ref_at t) indices = map (item_ref_at s) indices" by (simp add: looked_refs [OF t(2)])
  then show ?case using t u looked_trans [OF t(2) u(2)] by auto
qed simp

section \<open>The committed, pending and visible items\<close>

text \<open>A pointer that a query returns.\<close>

definition good_ref :: "nav_manager \<Rightarrow> item_ref option \<Rightarrow> bool" where
  "good_ref s p \<longleftrightarrow> (\<forall>r. p = Some r \<longrightarrow> item_of s r \<noteq> None \<and> r \<noteq> RestoredRef)"

lemma good_ref_None [simp]: "good_ref s None"
  by (simp add: good_ref_def)

lemma good_ref_deref: "good_ref s p \<Longrightarrow> p \<noteq> None \<Longrightarrow> \<exists>i. deref s p = Some i"
  by (auto simp: good_ref_def deref_def)

lemma deref_ok: "nav_ok env s \<Longrightarrow> good_ref s p \<Longrightarrow> deref s p = Some i \<Longrightarrow> item_ok env i"
  by (cases p) (auto simp: good_ref_def deref_def nav_ok_def)

lemma looked_hold_web_view_item:
  assumes "nav_ok env s \<Longrightarrow> item_ok env i"
  shows "looked env s (s\<lparr>last_committed_web_view_item := Some i\<rparr>)"
proof -
  have "item_of (s\<lparr>last_committed_web_view_item := Some i\<rparr>) r =
      (if r = WebViewItemRef then Some i else item_of s r)" for r
    by (cases r) (simp_all add: item_of_def)
  then show ?thesis using assms by (auto simp: looked_def skeleton_def nav_ok_def)
qed

lemma web_view_item:
  "\<exists>s' i. get_last_committed_web_view_item env s = Some (Some WebViewItemRef, s') \<and> looked env s s'
     \<and> last_committed_web_view_item s' = Some i \<and> ni_url i = document_url s"
proof -
  have "\<exists>t item. (if last_committed_web_view_item s = None then do {
             (item, s) \<leftarrow> create_navigation_item_with_rewriters env [] new_referrer
                (page_transition_link env) RENDERER_INITIATED [] None s;
             Some (s\<lparr>last_committed_web_view_item := Some (set_untrusted item)\<rparr>)
           }
           else Some s) = Some t \<and> last_committed_web_view_item t = Some item \<and> looked env s t"
  proof (cases "last_committed_web_view_item s")
    case None
    obtain item where item: "create_navigation_item_with_rewriters env [] new_referrer
        (page_transition_link env) RENDERER_INITIATED [] None s = Some (item, s\<lparr>nav_next_id := nav_next_id s + 1\<rparr>)"
      "item_ok env item" using create_total by blast
    have "looked env s (s\<lparr>nav_next_id := nav_next_id s + 1, last_committed_web_view_item := Some (set_untrusted item)\<rparr>)"
      using looked_trans [OF looked_id looked_hold_web_view_item [of env _ "set_untrusted item"]] item(2) by simp
    then show ?thesis using None item(1) by simp
  qed auto
  then obtain t item where t: "(if last_committed_web_view_item s = None then do {
             (item, s) \<leftarrow> create_navigation_item_with_rewriters env [] new_referrer
                (page_transition_link env) RENDERER_INITIATED [] None s;
             Some (s\<lparr>last_committed_web_view_item := Some (set_untrusted item)\<rparr>)
           }
           else Some s) = Some t" and item: "last_committed_web_view_item t = Some item" and l: "looked env s t"
    by blast
  obtain i where i: "set_item_url env (document_url s) item = Some i" using set_item_url_total by blast
  obtain target where target: "(if restore_url env (document_url s)
      then extract_target_url (nav_urls env) (document_url s) else Some None) = Some target"
    using extract_target_total by (cases "restore_url env (document_url s)") auto
  obtain v where v: "(case target of None \<Rightarrow> Some (document_url s)
      | Some virtual_url \<Rightarrow> unwrap_placeholder env virtual_url) = Some v"
    using unwrap_total by (cases target) auto
  obtain now m where now: "smoothed_now t = (now, t\<lparr>nav_time_smoother := m\<rparr>)" using smoothed_now_eq by blast
  let ?s' = "t\<lparr>nav_time_smoother := m, last_committed_web_view_item := Some ((set_virtual_url v i)\<lparr>timestamp := now\<rparr>)\<rparr>"
  have "nav_ok env t \<Longrightarrow> item_ok env i"
    using set_item_url_ok [OF i] nav_okD [of env t WebViewItemRef item] item item_ok_inherits by auto
  then have "looked env t ?s'"
    by (intro looked_trans [OF looked_smoother looked_hold_web_view_item]) simp
  moreover have "get_last_committed_web_view_item env s = Some (Some WebViewItemRef, ?s')"
    unfolding get_last_committed_web_view_item_def Let_def t bind.bind_lunit item i target v now by simp
  ultimately show ?thesis using looked_trans [OF l] set_item_url_url [OF i] by auto
qed

text \<open>When the check of \<open>GetLastCommittedItemInCurrentOrRestoredSession\<close> holds.\<close>

definition committed_known :: "nav_manager \<Rightarrow> bool" where
  "committed_known s \<longleftrightarrow> empty_window_open_item s \<noteq> None
     \<or> get_last_committed_item_index_in_session s \<noteq> -1 \<or> get_item_count s = 0"

lemma last_committed:
  assumes "committed_known s"
  shows "\<exists>p s'. get_last_committed_item_in_session env s = Some (p, s') \<and> looked env s s' \<and> good_ref s' p"
proof (cases "empty_window_open_item s \<noteq> None \<or> get_last_committed_item_index_in_session s = -1")
  case True
  then show ?thesis using assms
    by (auto simp: get_last_committed_item_in_session_def committed_known_def good_ref_def)
next
  case False
  let ?i = "to_size_t (get_last_committed_item_index_in_session s)"
  obtain t where t: "get_navigation_item_impl_at_index env ?i s = Some (item_ref_at s ?i, t)" "looked env s t"
    "good_ref t (item_ref_at s ?i)" using get_item [of env ?i s] by (auto simp: good_ref_def)
  obtain u where u: "get_last_committed_web_view_item env t = Some (Some WebViewItemRef, u)" "looked env t u"
    "good_ref u (Some WebViewItemRef)" using web_view_item by (fastforce simp: good_ref_def)
  show ?thesis
    using False t u looked_trans [OF t(2) u(2)]
    by (auto simp: get_last_committed_item_in_session_def Let_def split: option.split)
qed

lemma last_committedD:
  assumes "get_last_committed_item_in_session env s = Some (p, s')"
  shows "looked env s s'" "good_ref s' p" "committed_known s"
proof -
  show known: "committed_known s"
    using assms by (auto simp: get_last_committed_item_in_session_def committed_known_def Let_def
        dcheck_def split: if_splits)
  show "looked env s s'" "good_ref s' p" using last_committed [OF known, of env] assms by auto
qed

lemma pending_in_session:
  "\<exists>p s'. get_pending_item_in_session env s = Some (p, s') \<and> looked env s s' \<and> good_ref s' p"
  using get_item [of env "to_size_t (pending_item_index s)" s]
  by (auto simp: get_pending_item_in_session_def good_ref_def)

lemma pending_in_sessionD:
  assumes "get_pending_item_in_session env s = Some (p, s')"
  shows "looked env s s'" "good_ref s' p"
  using pending_in_session [of env s] assms by auto

lemma get_pendingD:
  assumes "get_pending_item env s = Some (p, s')"
  shows "looked env s s'" "good_ref s' p"
  using assms pending_in_sessionD by (auto simp: get_pending_item_def split: if_splits)

lemma get_last_committedD:
  assumes "get_last_committed_item env s = Some (p, s')"
  shows "looked env s s'" "good_ref s' p"
  using assms last_committedD
  by (auto simp: get_last_committed_item_def option_dest split: if_splits option.splits prod.splits)

lemma get_last_committed_indexD:
  assumes "get_last_committed_item_index env s = Some (n, s')"
  shows "looked env s s'"
  using assms last_committedD(1)
  by (auto simp: get_last_committed_item_index_def option_dest split: if_splits option.splits prod.splits)

lemma find_with_agentD:
  "find_item_with_user_agent_type env indices s = Some (p, s') \<Longrightarrow> looked env s s' \<and> good_ref s' p"
proof (induction indices arbitrary: s)
  case (Cons i indices)
  obtain t where t: "get_navigation_item_impl_at_index env i s = Some (item_ref_at s i, t)" "looked env s t"
    "good_ref t (item_ref_at s i)" using get_item [of env i s] by (auto simp: good_ref_def)
  show ?case
  proof (cases "deref t (item_ref_at s i)")
    case (Some item)
    with Cons.prems t Cons.IH [of t] looked_trans [OF t(2)] show ?thesis
      by (auto simp: option_dest split: if_splits)
  qed (use Cons.prems t in simp)
qed simp

lemma with_agentD:
  assumes "get_last_committed_item_with_user_agent_type env s = Some (p, s')"
  shows "looked env s s'" "good_ref s' p"
  using find_with_agentD assms by (auto simp: get_last_committed_item_with_user_agent_type_def)

lemma get_currentD:
  assumes "get_current_item env s = Some (p, s')"
  shows "looked env s s'" "good_ref s' p"
proof -
  have "looked env s s' \<and> good_ref s' p"
  proof (cases "transient_item s")
    case None
    with assms obtain q t where q: "get_pending_item_in_session env s = Some (q, t)"
      "(if q \<noteq> None then Some (q, t) else get_last_committed_item_in_session env t) = Some (p, s')"
      by (auto simp: get_current_item_def option_dest split: prod.splits)
    then show ?thesis
      using pending_in_sessionD [OF q(1)] last_committedD looked_trans by (auto split: if_splits)
  qed (use assms in \<open>auto simp: get_current_item_def good_ref_def\<close>)
  then show "looked env s s'" "good_ref s' p" by blast+
qed

end
