(* ===== verification/NavInvariant.thy ===== *)
theory NavInvariant
  imports NavFacts
begin

text \<open>
  Every operation of the navigation manager keeps its items well formed (\<open>nav_ok\<close>): an item has a
  user agent type exactly when its URL needs one.
\<close>

section \<open>Placing items\<close>

lemma nav_ok_place:
  assumes "nav_ok env s" and "\<And>i. x = Some i \<Longrightarrow> item_ok env i"
  shows "nav_ok env (s\<lparr>pending_item := x\<rparr>)" "nav_ok env (s\<lparr>transient_item := x\<rparr>)"
    "nav_ok env (s\<lparr>empty_window_open_item := x\<rparr>)" "nav_ok env (s\<lparr>context_pending_item := x\<rparr>)"
  using assms by (auto simp: nav_ok_def split: if_splits)

lemma nav_ok_restored [simp]: "nav_ok env (s\<lparr>restored_visible_item := x\<rparr>) = nav_ok env s"
  by (auto simp: nav_ok_def)

lemma nav_ok_put [simp]:
  assumes "nav_ok env s" and "item_ok env i"
  shows "nav_ok env (s\<lparr>pending_item := Some i\<rparr>)" "nav_ok env (s\<lparr>transient_item := Some i\<rparr>)"
    "nav_ok env (s\<lparr>empty_window_open_item := Some i\<rparr>)" "nav_ok env (s\<lparr>context_pending_item := Some i\<rparr>)"
  using assms by (auto intro: nav_ok_place)

lemma nav_ok_remove [simp]:
  assumes "nav_ok env s"
  shows "nav_ok env (s\<lparr>pending_item := None\<rparr>)" "nav_ok env (s\<lparr>transient_item := None\<rparr>)"
    "nav_ok env (s\<lparr>empty_window_open_item := None\<rparr>)" "nav_ok env (s\<lparr>context_pending_item := None\<rparr>)"
  using nav_ok_place [OF assms, of None] by simp_all

lemma nav_ok_mono:
  assumes "nav_ok env s" and "\<And>r i. item_of t r = Some i \<Longrightarrow> item_of s r = Some i \<or> item_ok env i"
  shows "nav_ok env t"
  using assms by (meson nav_ok_def)

lemma nav_ok_cached:
  assumes "nav_ok env s" and "\<And>i. i \<in> set items \<Longrightarrow> item_ok env i"
  shows "nav_ok env (s\<lparr>cached_items := items\<rparr>)"
proof (rule nav_ok_mono [OF assms(1)])
  fix r i
  assume "item_of (s\<lparr>cached_items := items\<rparr>) r = Some i"
  then show "item_of s r = Some i \<or> item_ok env i"
    using assms(2) by (cases r) (auto simp: item_of_def split: if_splits)
qed

lemma nav_ok_no_view: "nav_ok env s \<Longrightarrow> nav_ok env (s\<lparr>nav_web_view := None\<rparr>)"
  by (erule nav_ok_mono) (auto simp: item_of_def split: item_ref.splits if_splits)

lemma nav_ok_update_item:
  assumes "nav_ok env s" and "\<And>i. item_ok env i \<Longrightarrow> item_ok env (f i)"
  shows "nav_ok env (update_item r f s)"
  using assms by (auto simp: nav_ok_def item_of_update_item split: if_splits)

lemma nav_ok_replace_item:
  assumes "nav_ok env s" and "item_ok env i"
  shows "nav_ok env (update_item r (\<lambda>_. i) s)"
  using assms by (auto simp: nav_ok_def item_of_update_item split: if_splits)

lemma nav_ok_hold:
  assumes "set_navigation_item_in_wk_item pos x s = Some s'" and "nav_ok env s"
    and "\<And>i. x = Some i \<Longrightarrow> item_ok env i"
  shows "nav_ok env s'"
proof -
  obtain w where w: "nav_web_view s = Some w" "wk_item_at w pos \<noteq> None"
    and s': "s' = s\<lparr>nav_web_view := Some (update_wk_item pos (\<lambda>y. y\<lparr>wk_held_item := x\<rparr>) w)\<rparr>"
    using assms(1) by (auto simp: set_navigation_item_in_wk_item_def option_dest)
  show ?thesis using assms(2,3) by (auto simp: nav_ok_def s' item_of_held [OF w] split: if_splits)
qed

lemma nav_ok_call [simp]: "nav_ok env (call_delegate c s) = nav_ok env s"
  by (simp add: call_delegate_def)

lemma nav_ok_callback [simp]: "nav_ok env (add_restore_completion_callback c s) = nav_ok env s"
  by (simp add: add_restore_completion_callback_def)

lemma nav_ok_discard: "nav_ok env s \<Longrightarrow> nav_ok env (discard_non_committed_items s)"
  by (simp add: discard_non_committed_items_def nav_ok_remove)

lemma nav_ok_reset: "nav_ok env s \<Longrightarrow> nav_ok env (reset_to_attached s)"
  using nav_ok_cached [of env s "[]"] by (simp add: reset_to_attached_def)

lemma nav_ok_smoothed: "smoothed_now s = (now, t) \<Longrightarrow> nav_ok env s \<Longrightarrow> nav_ok env t"
  using smoothed_now_eq [of s] by auto

lemma nav_ok_committed [simp]: "nav_ok env (record_commit b s) = nav_ok env s"
  by (simp add: record_commit_def Let_def)

section \<open>Pending items\<close>

lemma nav_ok_created:
  assumes "create_navigation_item_with_rewriters env url r tr ini prev add s = Some (item, t)"
  shows "t = s\<lparr>nav_next_id := nav_next_id s + 1\<rparr>" "item_ok env item"
  using create_total [of env url r tr ini prev add s] assms by auto

lemma set_user_agent_type_ok:
  assumes "set_user_agent_type env a True i = Some j" and "a \<noteq> UA_NONE"
  shows "item_ok env j"
  using assms by (auto simp: set_user_agent_type_eq item_ok_def split: if_splits)

lemma update_pending_agent_ok:
  assumes "update_pending_item_user_agent_type env option p i = Some j"
    and "item_ok env i" and "\<And>k. p = Some k \<Longrightarrow> item_ok env k"
  shows "item_ok env j"
proof (cases "ni_user_agent_type i = UA_NONE")
  case False
  show ?thesis
  proof (cases "option = UA_INHERIT")
    case inherit: True
    show ?thesis
    proof (cases p)
      case (Some k)
      then have "ni_user_agent_type k \<noteq> UA_NONE" "set_user_agent_type env (user_agent_type_inheritance k) True i = Some j"
        using assms(1) False inherit by (auto simp: update_pending_item_user_agent_type_def option_dest)
      moreover have "user_agent_type_inheritance k \<noteq> UA_NONE"
        using calculation(1) item_ok_inherits [OF assms(3) [OF Some]] by simp
      ultimately show ?thesis using set_user_agent_type_ok by blast
    qed (use assms False inherit in \<open>auto simp: update_pending_item_user_agent_type_def option_dest\<close>)
  next
    case other: False
    then have "\<exists>a. a \<noteq> UA_NONE \<and> set_user_agent_type env a True i = Some j"
      using assms(1) False by (cases option) (auto simp: update_pending_item_user_agent_type_def option_dest)
    then show ?thesis using set_user_agent_type_ok by blast
  qed
qed (use assms in \<open>auto simp: update_pending_item_user_agent_type_def option_dest\<close>)

lemma nav_ok_reuse:
  assumes "reuse_current_item env tr ini s = Some s'" and "nav_ok env s"
  shows "nav_ok env s'"
proof -
  obtain item where item: "pending_item s = Some item" using assms(1) by (auto simp: reuse_current_item_def option_dest)
  then have ok: "item_ok env item" using nav_okD [OF assms(2), of PendingRef] by simp
  let ?t = "s\<lparr>pending_item_index := get_current_item_index s\<rparr>"
  have "s' = s \<or> (\<exists>u. (u = ?t \<or> set_navigation_item_in_wk_item CurrentItem (pending_item s) ?t = Some u)
      \<and> s' = u\<lparr>pending_item := None\<rparr>)"
    using assms(1) by (auto simp: reuse_current_item_def option_dest Let_def split: if_splits)
  then show ?thesis
    using assms(2) nav_ok_hold [of CurrentItem "pending_item s" ?t _ env] item ok nav_ok_remove(1) by fastforce
qed

lemma add_pendingE:
  assumes "add_pending_item env url r tr ini option s = Some s'"
  obtains committed t item u with_agent v i where
    "get_last_committed_item_in_session env (discard_non_committed_items s) = Some (committed, t)"
    "create_navigation_item_with_rewriters env url r tr ini
        (case deref t committed of Some i \<Rightarrow> ni_url i | None \<Rightarrow> []) (Some (transient_url_rewriters t)) t = Some (item, u)"
    "get_last_committed_item_with_user_agent_type env
        (u\<lparr>pending_item := Some item, transient_url_rewriters := []\<rparr>) = Some (with_agent, v)"
    "update_pending_item_user_agent_type env option (deref v with_agent) item = Some i"
    "(let i = (if next_pending_url_should_skip_serialization v \<noteq> []
                    \<and> url = next_pending_url_should_skip_serialization v
                 then i\<lparr>should_skip_serialization := True\<rparr> else i);
               w = v\<lparr>pending_item := Some i, next_pending_url_should_skip_serialization := []\<rparr>
           in if \<not> attached_to_web_view w then Some w else reuse_current_item env tr ini w) = Some s'"
  using assms by (auto simp: add_pending_item_def option_dest Let_def split: prod.splits)

lemma nav_ok_add_pending:
  assumes "add_pending_item env url r tr ini option s = Some s'" and "nav_ok env s"
  shows "nav_ok env s'"
  using assms(1)
proof (rule add_pendingE)
  fix committed t item u with_agent v i
  assume t: "get_last_committed_item_in_session env (discard_non_committed_items s) = Some (committed, t)"
    and create: "create_navigation_item_with_rewriters env url r tr ini
        (case deref t committed of Some i \<Rightarrow> ni_url i | None \<Rightarrow> []) (Some (transient_url_rewriters t)) t = Some (item, u)"
    and v: "get_last_committed_item_with_user_agent_type env
        (u\<lparr>pending_item := Some item, transient_url_rewriters := []\<rparr>) = Some (with_agent, v)"
    and i: "update_pending_item_user_agent_type env option (deref v with_agent) item = Some i"
    and s': "(let i = (if next_pending_url_should_skip_serialization v \<noteq> []
                    \<and> url = next_pending_url_should_skip_serialization v
                 then i\<lparr>should_skip_serialization := True\<rparr> else i);
               w = v\<lparr>pending_item := Some i, next_pending_url_should_skip_serialization := []\<rparr>
           in if \<not> attached_to_web_view w then Some w else reuse_current_item env tr ini w) = Some s'"
  have "nav_ok env t" using looked_ok [OF last_committedD(1) [OF t]] nav_ok_discard assms(2) by blast
  then have "nav_ok env (u\<lparr>pending_item := Some item, transient_url_rewriters := []\<rparr>)"
    using nav_ok_created [OF create] by simp
  then have vok: "nav_ok env v" using looked_ok [OF with_agentD(1) [OF v]] by blast
  then have "item_ok env i"
    using update_pending_agent_ok [OF i nav_ok_created(2) [OF create]] deref_ok [OF vok with_agentD(2) [OF v]] by blast
  then show ?thesis
    using s' vok by (auto simp: Let_def split: if_splits elim: nav_ok_reuse)
qed

lemma nav_ok_add_transient:
  assumes "add_transient_item env url s = Some s'" and "nav_ok env s"
  shows "nav_ok env s'"
proof -
  obtain committed t item u where
    t: "get_last_committed_item env s = Some (committed, t)"
    and create: "create_navigation_item_with_rewriters env url new_referrer (page_transition_client_redirect env)
        BROWSER_INITIATED (case deref t committed of Some i \<Rightarrow> ni_url i | None \<Rightarrow> []) None t = Some (item, u)"
    and rest: "(case smoothed_now u of (now, v) \<Rightarrow> do {
        (p, w) \<leftarrow> get_pending_item env (v\<lparr>transient_item := Some (item\<lparr>timestamp := now\<rparr>)\<rparr>);
        (q, x) \<leftarrow> (if p = None then get_last_committed_item_with_user_agent_type env w else Some (p, w));
        case deref x q of
          None \<Rightarrow> Some x
        | Some agent_item \<Rightarrow> do {
            dcheck (ni_user_agent_type agent_item \<noteq> UA_NONE);
            item \<leftarrow> transient_item x;
            item \<leftarrow> set_user_agent_type env (user_agent_type_inheritance agent_item) True item;
            Some (x\<lparr>transient_item := Some item\<rparr>)
          }
      }) = Some s'"
    using assms(1) by (auto simp: add_transient_item_def option_dest)
  obtain now m where now: "smoothed_now u = (now, u\<lparr>nav_time_smoother := m\<rparr>)" using smoothed_now_eq by blast
  define v where "v = u\<lparr>nav_time_smoother := m\<rparr>"
  obtain p w q x where
    w: "get_pending_item env (v\<lparr>transient_item := Some (item\<lparr>timestamp := now\<rparr>)\<rparr>) = Some (p, w)"
    and x: "(if p = None then get_last_committed_item_with_user_agent_type env w else Some (p, w)) = Some (q, x)"
    and s': "(case deref x q of
       None \<Rightarrow> Some x
     | Some agent_item \<Rightarrow> do {
         dcheck (ni_user_agent_type agent_item \<noteq> UA_NONE);
         item \<leftarrow> transient_item x;
         item \<leftarrow> set_user_agent_type env (user_agent_type_inheritance agent_item) True item;
         Some (x\<lparr>transient_item := Some item\<rparr>)
       }) = Some s'"
    using rest by (auto simp: now v_def option_dest)
  have "nav_ok env t" using looked_ok [OF get_last_committedD(1) [OF t]] assms(2) by blast
  then have "nav_ok env v" using nav_ok_created(1) [OF create] by (simp add: v_def)
  then have "nav_ok env (v\<lparr>transient_item := Some (item\<lparr>timestamp := now\<rparr>)\<rparr>)"
    using nav_ok_created(2) [OF create] by (intro nav_ok_place) auto
  then have wok: "nav_ok env w" using looked_ok [OF get_pendingD(1) [OF w]] by blast
  have xok: "nav_ok env x \<and> good_ref x q"
  proof (cases "p = None")
    case True
    then have "get_last_committed_item_with_user_agent_type env w = Some (q, x)" using x by simp
    from with_agentD [OF this] show ?thesis using looked_ok wok by blast
  qed (use x wok get_pendingD(2) [OF w] in auto)
  show ?thesis
  proof (cases "deref x q")
    case (Some a)
    then obtain i j where "transient_item x = Some i" and agent: "ni_user_agent_type a \<noteq> UA_NONE"
      and j: "set_user_agent_type env (user_agent_type_inheritance a) True i = Some j" "s' = x\<lparr>transient_item := Some j\<rparr>"
      using s' by (auto simp: option_dest)
    have "item_ok env a" using deref_ok xok Some by blast
    then have "item_ok env j" using set_user_agent_type_ok [OF j(1)] item_ok_inherits agent by blast
    then show ?thesis using j(2) xok by (simp add: nav_ok_place)
  qed (use s' xok in simp)
qed

lemma nav_ok_update_url:
  assumes "update_pending_item_url env url s = Some s'" and "nav_ok env s"
  shows "nav_ok env s'"
proof -
  obtain p t where t: "get_pending_item_in_session env s = Some (p, t)" using pending_in_session by blast
  have tok: "nav_ok env t" "good_ref t p" using pending_in_sessionD [OF t] looked_ok assms(2) by blast+
  show ?thesis
  proof (cases p)
    case (Some r)
    then obtain i where i: "deref t p = Some i" using good_ref_deref tok by blast
    then have ok: "item_ok env i" using deref_ok tok by blast
    show ?thesis
    proof (cases "url = ni_url i")
      case False
      with assms(1) t i Some obtain j where j: "set_item_url env url i = Some j"
        "s' = update_item r (\<lambda>_. reset_http_request_headers ((set_virtual_url url j)\<lparr>ni_post_data := None\<rparr>)) t"
        by (auto simp: update_pending_item_url_def option_dest)
      then show ?thesis using nav_ok_replace_item [OF tok(1)] set_item_url_ok [OF j(1)] item_ok_inherits [OF ok] by auto
    qed (use assms(1) t i Some tok in \<open>auto simp: update_pending_item_url_def\<close>)
  qed (use assms(1) t tok in \<open>auto simp: update_pending_item_url_def\<close>)
qed

lemma nav_ok_replace_state:
  assumes "update_current_item_for_replace_state env url obj s = Some s'" and "nav_ok env s"
  shows "nav_ok env s'"
proof -
  obtain p t r i j where t: "get_current_item env s = Some (p, t)" and p: "p = Some r" "deref t p = Some i"
    and j: "set_item_url env url i = Some j"
    and s': "s' = update_item r (\<lambda>_. j\<lparr>serialized_state_object := obj, has_state_been_replaced := True,
      ni_post_data := None\<rparr>) t"
    using assms(1) by (auto simp: update_current_item_for_replace_state_def option_dest split: prod.splits)
  have tok: "nav_ok env t" "good_ref t p" using get_currentD [OF t] looked_ok assms(2) by blast+
  have "item_ok env j" using set_item_url_ok [OF j] item_ok_inherits [OF deref_ok [OF tok p(2)]] by blast
  then show ?thesis unfolding s' by (intro nav_ok_replace_item [OF tok(1)]) simp
qed

section \<open>Commits\<close>

lemma nav_ok_on_committed:
  assumes "on_navigation_item_committed env s = Some s'" and "nav_ok env s"
  shows "nav_ok env s'"
proof -
  obtain p t i where t: "get_last_committed_item_in_session env s = Some (p, t)" and "deref t p = Some i"
    and s': "s' = (let u = call_delegate (ItemCommitted (ni_url i)) t
        in if restore_url env (ni_url i) then u else u\<lparr>restored_visible_item := None\<rparr>)"
    using assms(1) by (auto simp: on_navigation_item_committed_def option_dest Let_def split: prod.splits)
  have "nav_ok env t" using looked_ok [OF last_committedD(1) [OF t]] assms(2) by blast
  then show ?thesis by (simp add: s' Let_def)
qed

lemma nav_ok_commit_pending:
  assumes "commit_pending_item env s = Some s'" and "nav_ok env s"
  shows "nav_ok env s'"
proof (cases "pending_item_index s = -1 \<and> pending_item s = None")
  case False
  obtain t where t: "on_navigation_item_committed env
      (record_commit (empty_window_open_item s \<noteq> None) (t\<lparr>pending_item_index := -1, pending_item := None\<rparr>)) = Some s'"
    and tok: "nav_ok env t"
  proof (cases "pending_item_index s = -1")
    case True
    with False obtain item where item: "pending_item s = Some item" by auto
    then have ok: "item_ok env item" using nav_okD [OF assms(2), of PendingRef] by simp
    obtain now m where now: "smoothed_now s = (now, s\<lparr>nav_time_smoother := m\<rparr>)" using smoothed_now_eq by blast
    let ?s = "s\<lparr>nav_time_smoother := m\<rparr>" and ?i = "(reset_for_commit item)\<lparr>timestamp := now\<rparr>"
    have "\<exists>t. (t = ?s\<lparr>empty_window_open_item := Some ?i\<rparr>
          \<or> set_navigation_item_in_wk_item CurrentItem (Some ?i) (?s\<lparr>empty_window_open_item := None\<rparr>) = Some t)
        \<and> on_navigation_item_committed env
            (record_commit (empty_window_open_item s \<noteq> None) (t\<lparr>pending_item_index := -1, pending_item := None\<rparr>)) = Some s'"
      using assms(1) False True item now
      by (cases "nav_web_view s") (auto simp: commit_pending_item_def option_dest Let_def split: if_splits)
    then obtain t where t: "t = ?s\<lparr>empty_window_open_item := Some ?i\<rparr>
          \<or> set_navigation_item_in_wk_item CurrentItem (Some ?i) (?s\<lparr>empty_window_open_item := None\<rparr>) = Some t"
      and s': "on_navigation_item_committed env
            (record_commit (empty_window_open_item s \<noteq> None) (t\<lparr>pending_item_index := -1, pending_item := None\<rparr>)) = Some s'"
      by blast
    have "nav_ok env t"
      using t
    proof
      assume "t = ?s\<lparr>empty_window_open_item := Some ?i\<rparr>"
      then show ?thesis using assms(2) ok by simp
    next
      assume "set_navigation_item_in_wk_item CurrentItem (Some ?i) (?s\<lparr>empty_window_open_item := None\<rparr>) = Some t"
      then show ?thesis by (rule nav_ok_hold) (use assms(2) ok in auto)
    qed
    then show ?thesis using that s' by blast
  next
    case index: False
    show ?thesis by (rule that [OF _ assms(2)]) (use assms(1) index in \<open>simp add: commit_pending_item_def option_dest Let_def\<close>)
  qed
  then show ?thesis using nav_ok_on_committed by fastforce
qed (use assms in \<open>auto simp: commit_pending_item_def option_dest\<close>)

lemma nav_ok_commit_given:
  assumes "commit_given_item env given s = Some s'" and "nav_ok env s"
    and "\<And>i. given = Some i \<Longrightarrow> item_ok env i"
  shows "nav_ok env s'"
proof (cases given)
  case (Some item)
  then have ok: "item_ok env item" using assms(3) by blast
  obtain now m where now: "smoothed_now s = (now, s\<lparr>nav_time_smoother := m\<rparr>)" using smoothed_now_eq by blast
  let ?s = "s\<lparr>nav_time_smoother := m\<rparr>" and ?i = "(reset_for_commit item)\<lparr>timestamp := now\<rparr>"
  have "\<exists>t. (t = ?s\<lparr>empty_window_open_item := Some ?i\<rparr>
        \<or> (\<exists>pos. set_navigation_item_in_wk_item pos (Some ?i) (?s\<lparr>empty_window_open_item := None\<rparr>) = Some t))
      \<and> on_navigation_item_committed env (record_commit (empty_window_open_item s \<noteq> None) t) = Some s'"
    using assms(1) Some now
    by (cases "nav_web_view s") (auto simp: commit_given_item_def option_dest Let_def split: if_splits)
  then obtain t where t: "t = ?s\<lparr>empty_window_open_item := Some ?i\<rparr>
        \<or> (\<exists>pos. set_navigation_item_in_wk_item pos (Some ?i) (?s\<lparr>empty_window_open_item := None\<rparr>) = Some t)"
    and s': "on_navigation_item_committed env (record_commit (empty_window_open_item s \<noteq> None) t) = Some s'" by blast
  have "nav_ok env t"
    using t
  proof
    assume "t = ?s\<lparr>empty_window_open_item := Some ?i\<rparr>"
    then show ?thesis using assms(2) ok by simp
  next
    assume "\<exists>pos. set_navigation_item_in_wk_item pos (Some ?i) (?s\<lparr>empty_window_open_item := None\<rparr>) = Some t"
    then obtain pos where h: "set_navigation_item_in_wk_item pos (Some ?i) (?s\<lparr>empty_window_open_item := None\<rparr>) = Some t" ..
    show ?thesis by (rule nav_ok_hold [OF h]) (use assms(2) ok in auto)
  qed
  then show ?thesis using nav_ok_on_committed [OF s'] by simp
qed (use assms nav_ok_commit_pending in \<open>simp add: commit_given_item_def\<close>)

section \<open>Detaching\<close>

lemma copy_for_cache_ok:
  assumes "copy_for_cache env i = Some j" and "item_ok env i"
  shows "item_ok env j"
proof -
  have "j = copy_navigation_item env i \<or> (\<exists>u. set_item_url env u (copy_navigation_item env i) = Some j)"
    using assms(1) by (auto simp: copy_for_cache_def Let_def option_dest split: if_splits option.splits)
  then show ?thesis
    using assms(2) set_item_url_ok item_ok_inherits [of env "copy_navigation_item env i"] by auto
qed

lemma copies_ok:
  "copy_items_for_cache env indices s = Some (copies, s') \<Longrightarrow>
     looked env s s' \<and> length copies = length indices \<and> (nav_ok env s \<longrightarrow> (\<forall>i \<in> set copies. item_ok env i))"
proof (induction indices arbitrary: s copies)
  case (Cons k indices)
  obtain t where t: "cache_get_item_at_index env k s = Some (cache_ref_at s k, t)" "looked env s t"
    "good_ref t (cache_ref_at s k)" using cache_get [of env k s] by (auto simp: good_ref_def)
  then obtain i c cs where i: "deref t (cache_ref_at s k) = Some i" "copy_for_cache env i = Some c"
    "copy_items_for_cache env indices t = Some (cs, s')" "copies = c # cs"
    using Cons.prems by (auto simp: option_dest split: prod.splits)
  have "nav_ok env s \<Longrightarrow> item_ok env c"
    using copy_for_cache_ok [OF i(2)] deref_ok [OF looked_ok [OF t(2)] t(3) i(1)] by blast
  then show ?case using Cons.IH [OF i(3)] i(4) looked_trans [OF t(2)] looked_ok [OF t(2)] by auto
qed simp

lemma nav_ok_detach:
  assumes "detach_from_web_view env s = Some s'" and "nav_ok env s"
  shows "nav_ok env s'"
proof (cases "attached_to_web_view s")
  case True
  then obtain copies t where t: "copy_items_for_cache env [0..<get_back_forward_list_item_count s] s = Some (copies, t)"
    and s': "s' = t\<lparr>cached_current_item_index := get_current_item_index s, cached_items := copies,
      attached_to_web_view := False, is_restore_session_in_progress := False\<rparr>"
    using assms(1) by (auto simp: detach_from_web_view_def option_dest Let_def split: prod.splits)
  have "nav_ok env (t\<lparr>cached_current_item_index := get_current_item_index s\<rparr>)"
    using copies_ok [OF t] looked_ok assms(2) by auto
  then have "nav_ok env (t\<lparr>cached_current_item_index := get_current_item_index s, cached_items := copies\<rparr>)"
    by (rule nav_ok_cached) (use copies_ok [OF t] assms(2) in auto)
  then show ?thesis by (simp add: s')
qed (use assms in \<open>auto simp: detach_from_web_view_def\<close>)

lemma nav_ok_remove_view:
  assumes "remove_web_view env s = Some s'" and "nav_ok env s"
  shows "nav_ok env s'"
proof (cases "nav_web_view s = None")
  case False
  then obtain t where "detach_from_web_view env (call_delegate ClearDialogs s) = Some t"
    "s' = t\<lparr>nav_web_view := None, context_pending_item := None\<rparr>"
    using assms(1) by (auto simp: remove_web_view_def option_dest)
  then show ?thesis using nav_ok_detach nav_ok_no_view assms(2) by fastforce
qed (use assms in \<open>simp add: remove_web_view_def\<close>)

lemma nav_ok_released:
  assumes "release_cached_items s = Some (items, t)" and "nav_ok env s"
  shows "nav_ok env t" "\<And>i. i \<in> set items \<Longrightarrow> item_ok env i"
proof -
  have eq: "items = cached_items s" "t = s\<lparr>cached_items := []\<rparr>"
    using assms(1) by (auto simp: release_cached_items_def option_dest)
  show "nav_ok env t" unfolding eq(2) by (rule nav_ok_cached [OF assms(2)]) simp
  fix i
  assume "i \<in> set items"
  then obtain k where "k < length (cached_items s)" "cached_items s ! k = i" by (auto simp: eq in_set_conv_nth)
  then show "item_ok env i" using nav_okD [OF assms(2), of "CachedRef k"] by (simp add: item_of_def)
qed

section \<open>Loading and restoring\<close>

lemma prepare_added_induct:
  assumes "prepare_added_item env params s = Some s'" and "P s"
    and look: "\<And>s t. looked env s t \<Longrightarrow> P s \<Longrightarrow> P t"
    and change: "\<And>r f s. \<forall>i. item_ok env (f i) = item_ok env i \<Longrightarrow> P s \<Longrightarrow> P (update_item r f s)"
  shows "P s'"
proof -
  obtain pending t where t: "get_pending_item_in_session env s = Some (pending, t)"
    using pending_in_session by blast
  have tP: "P t" using look [OF pending_in_sessionD(1) [OF t] assms(2)] .
  define first where "first = (case (pending, deref t pending) of
          (Some r, Some item) \<Rightarrow> do {
            (committed, s) \<leftarrow> get_last_committed_item_in_session env t;
            let last_committed_url = (case deref s committed of Some i \<Rightarrow> get_virtual_url i | None \<Rightarrow> []);
            let pending_url = ni_url item;
            let s = (if last_committed_url \<noteq> pending_url
                        \<and> equals_ignoring_ref env last_committed_url pending_url
                     then update_item r (\<lambda>i. i\<lparr>is_created_from_hash_change := True\<rparr>) s else s);
            Some (if nav_is_valid (nav_urls env) (lp_virtual_url params)
                  then update_item r (set_virtual_url (lp_virtual_url params)) s else s)
          }
        | _ \<Rightarrow> Some t)"
  obtain u where u: "first = Some u"
    and rest: "do {
       dcheck (transient_item u = None);
       (added, s) \<leftarrow> (if pending \<noteq> None then Some (pending, u) else get_last_committed_item_in_session env u);
       r \<leftarrow> added;
       let s = update_item r (add_http_request_headers (lp_extra_headers params)) s;
       (case lp_post_data params of
          None \<Rightarrow> Some s
        | Some post_data \<Rightarrow> do {
            item \<leftarrow> deref s (Some r);
            headers \<leftarrow> http_request_headers item;
            dcheck (map_of headers ''Content-Type'' \<noteq> None);
            Some (update_item r (\<lambda>i. i\<lparr>ni_post_data := Some post_data,
                    should_skip_repost_form_confirmation := True\<rparr>) s)
          })
     } = Some s'"
    using assms(1) t unfolding prepare_added_item_def first_def by (auto simp: option_dest)
  have uP: "P u"
  proof (cases "pending = None \<or> deref t pending = None")
    case False
    then obtain r i committed v where "pending = Some r" "deref t pending = Some i"
      and v: "get_last_committed_item_in_session env t = Some (committed, v)"
      using u by (auto simp: first_def option_dest)
    then have "P v" "\<exists>w. (w = v \<or> w = update_item r (\<lambda>i. i\<lparr>is_created_from_hash_change := True\<rparr>) v)
        \<and> (u = w \<or> u = update_item r (set_virtual_url (lp_virtual_url params)) w)"
      using u look [OF last_committedD(1) [OF v] tP] by (auto simp: first_def Let_def split: if_splits)
    then show ?thesis using change by fastforce
  qed (use u tP in \<open>auto simp: first_def split: option.splits\<close>)
  obtain added v r where v: "(if pending \<noteq> None then Some (pending, u) else get_last_committed_item_in_session env u)
        = Some (added, v)"
    and s': "\<exists>w. w = update_item r (add_http_request_headers (lp_extra_headers params)) v
      \<and> (s' = w \<or> (\<exists>d. s' = update_item r (\<lambda>i. i\<lparr>ni_post_data := Some d,
           should_skip_repost_form_confirmation := True\<rparr>) w))"
    using rest by (auto simp: option_dest Let_def split: prod.splits option.splits)
  have "P v"
    using v uP look last_committedD(1) by (cases "pending = None") (simp, blast, simp)
  then show ?thesis using s' change by fastforce
qed

lemma nav_ok_prepare:
  assumes "prepare_added_item env params s = Some s'" and "nav_ok env s"
  shows "nav_ok env s'"
  using assms by (rule prepare_added_induct) (auto intro: looked_ok nav_ok_update_item)

lemma nav_ok_begin_load:
  assumes "begin_load_url_with_params env params s = Some s'" and "nav_ok env s"
  shows "nav_ok env s'"
  using assms by (auto simp: begin_load_url_with_params_def option_dest Let_def
      elim!: nav_ok_prepare nav_ok_add_pending)

definition loader_ok :: "nav_env \<Rightarrow> loader \<Rightarrow> bool" where
  "loader_ok env base \<longleftrightarrow> (\<forall>params s s'. base params s = Some s' \<longrightarrow> nav_ok env s \<longrightarrow> nav_ok env s')"

lemma loader_okD: "loader_ok env base \<Longrightarrow> base params s = Some s' \<Longrightarrow> nav_ok env s \<Longrightarrow> nav_ok env s'"
  by (auto simp: loader_ok_def)

lemma nav_ok_load_or_defer:
  "loader_ok env base \<Longrightarrow> load_or_defer env base params s = Some s' \<Longrightarrow> nav_ok env s \<Longrightarrow> nav_ok env s'"
  by (auto simp: load_or_defer_def loader_ok_def split: if_splits)

lemma nav_ok_unsafe_restore:
  assumes "loader_ok env base" and "unsafe_restore_with base env k items s = Some s'" and "nav_ok env s"
  shows "nav_ok env s'"
proof -
  obtain params x t p u title where t: "load_or_defer env base params
      (s\<lparr>is_restore_session_in_progress := True, restored_visible_item := x\<rparr>) = Some t"
    and u: "get_pending_item_in_session env t = Some (p, u)"
    and s': "s' = (case p of Some r \<Rightarrow> update_item r (set_title title) u | None \<Rightarrow> u)"
  proof -
    obtain items' url first where
      "rewrite_item_urls env items = Some items'"
      "create_restore_session_url (nav_urls env) k (map session_item items') = Some (url, first)"
      using assms(2) by (auto simp: unsafe_restore_with_def option_dest split: prod.splits)
    then show ?thesis
      using assms(2) that [of "(new_web_load_params env url)\<lparr>lp_transition_type := page_transition_reload env,
                     lp_virtual_url := get_virtual_url (items' ! nat first)\<rparr>"
          "if k > -1 then Some (items' ! nat k) else restored_visible_item s"]
      by (auto simp: unsafe_restore_with_def option_dest Let_def split: prod.splits if_splits)
  qed
  have "nav_ok env t" using nav_ok_load_or_defer [OF assms(1) t] assms(3) by simp
  then have "nav_ok env u" using looked_ok [OF pending_in_sessionD(1) [OF u]] by blast
  then show ?thesis unfolding s' by (cases p) (auto intro: nav_ok_update_item)
qed

lemma nav_ok_restore_with:
  assumes "loader_ok env base" and "restore_with base env k items s = Some s'" and "nav_ok env s"
  shows "nav_ok env s'"
proof (cases "items = []")
  case False
  let ?s = "discard_non_committed_items (if \<not> attached_to_web_view s then reset_to_attached s else s)"
  obtain t where t: "(if get_item_count ?s > 0 then remove_web_view env ?s else Some ?s) = Some t"
    and s': "unsafe_restore_with base env k items (t\<lparr>previous_item_index := -1, last_committed_item_index := -1\<rparr>) = Some s'"
    using assms(2) False by (auto simp: restore_with_def option_dest Let_def)
  have "nav_ok env ?s" using assms(3) nav_ok_discard nav_ok_reset by simp
  then have "nav_ok env t" using t nav_ok_remove_view by (auto split: if_splits)
  then show ?thesis using nav_ok_unsafe_restore [OF assms(1) s'] by simp
qed (use assms in \<open>auto simp: restore_with_def option_dest\<close>)

lemma nav_ok_finish_load:
  assumes "loader_ok env base" and "finish_load_url_with_params_with base env ini s = Some s'" and "nav_ok env s"
  shows "nav_ok env s'"
proof (cases "\<not> attached_to_web_view s \<and> pending_item s \<noteq> None \<and> get_back_forward_list_item_count s > 0")
  case True
  then obtain items t k xs where t: "release_cached_items s = Some (items, t)"
    and s': "restore_with base env k xs (t\<lparr>pending_item := None\<rparr>) = Some s'"
    using assms(2) by (auto simp: finish_load_url_with_params_with_def option_dest Let_def split: option.splits prod.splits)
  show ?thesis using nav_ok_restore_with [OF assms(1) s'] nav_ok_released(1) [OF t assms(3)] by simp
qed (use assms nav_ok_reset in \<open>auto simp: finish_load_url_with_params_with_def option_dest split: option.splits if_splits\<close>)

lemma base_loader_ok: "loader_ok env (base_load_url_with_params depth env)"
proof (induction depth)
  case (Suc depth)
  show ?case
    unfolding loader_ok_def
  proof (intro allI impI)
    fix params s s'
    assume "base_load_url_with_params (Suc depth) env params s = Some s'" and s: "nav_ok env s"
    then obtain t where t: "begin_load_url_with_params env params s = Some t"
      and s': "finish_load_url_with_params_with (base_load_url_with_params depth env) env (load_initiation params) t = Some s'"
      by (auto simp: load_round_def option_dest)
    show "nav_ok env s'" using nav_ok_finish_load [OF Suc s' nav_ok_begin_load [OF t s]] .
  qed
qed (simp add: loader_ok_def)

lemma base_load_ok: "loader_ok env (base_load env)"
  by (simp add: base_load_def base_loader_ok)

lemma nav_ok_load:
  "load_url_with_params env params s = Some s' \<Longrightarrow> nav_ok env s \<Longrightarrow> nav_ok env s'"
  unfolding load_url_with_params_def by (rule nav_ok_load_or_defer [OF base_load_ok])

lemma nav_ok_restore: "restore_items env k items s = Some s' \<Longrightarrow> nav_ok env s \<Longrightarrow> nav_ok env s'"
  unfolding restore_items_def by (rule nav_ok_restore_with [OF base_load_ok])

lemma nav_ok_restore_cached:
  assumes "release_cached_items s = Some (items, t)" and "restore_items env k items t = Some s'" and "nav_ok env s"
  shows "nav_ok env s'"
  using nav_ok_restore [OF assms(2)] nav_ok_released(1) [OF assms(1,3)] .

lemma nav_ok_load_if_necessary:
  "load_if_necessary env s = Some s' \<Longrightarrow> nav_ok env s \<Longrightarrow> nav_ok env s'"
  using nav_ok_restore_cached by (auto simp: load_if_necessary_def option_dest split: if_splits prod.splits)

lemma nav_ok_run_callbacks:
  "run_restore_callbacks env cs s = Some s' \<Longrightarrow> nav_ok env s \<Longrightarrow> nav_ok env s'"
proof (induction cs arbitrary: s)
  case (Cons c cs)
  then show ?case using nav_ok_load by (cases c) (auto simp: option_dest)
qed simp

lemma nav_ok_finalize: "finalize_session_restore env s = Some s' \<Longrightarrow> nav_ok env s \<Longrightarrow> nav_ok env s'"
  using nav_ok_run_callbacks nav_ok_load_if_necessary
  by (fastforce simp: finalize_session_restore_def option_dest)

lemma nav_ok_started: "on_navigation_started env url s = Some s' \<Longrightarrow> nav_ok env s \<Longrightarrow> nav_ok env s'"
  using nav_ok_finalize
  by (fastforce simp: on_navigation_started_def option_dest split: if_splits)

lemma nav_ok_client_callback: "nav_ok env s \<Longrightarrow> nav_ok env (client_callback n s)"
  by (simp add: client_callback_def)

lemma nav_ok_should_block:
  "should_block_url_during_restore env url s = Some (b, s') \<Longrightarrow> nav_ok env s \<Longrightarrow> nav_ok env s'"
  by (auto simp: should_block_url_during_restore_def option_dest Let_def nav_ok_discard split: if_splits
      elim!: nav_ok_finalize)

lemma copies_at_looked:
  "copy_items_at env indices s = Some (copies, s') \<Longrightarrow> looked env s s' \<and> length copies = length indices"
proof (induction indices arbitrary: s copies)
  case (Cons k indices)
  obtain t where t: "get_navigation_item_impl_at_index env k s = Some (item_ref_at s k, t)" "looked env s t"
    using get_item by blast
  then obtain cs where "copy_items_at env indices t = Some (cs, s')" "length copies = Suc (length cs)"
    using Cons.prems by (auto simp: option_dest split: prod.splits)
  then show ?case using Cons.IH looked_trans [OF t(2)] by auto
qed simp

lemma nav_ok_workaround:
  assumes "apply_forward_history_clobber_workaround env s = Some s'" and "nav_ok env s"
  shows "nav_ok env s'"
proof -
  obtain items t where t: "copy_items_at env [nat (get_current_item_index s)..<nat (get_item_count s)] s = Some (items, t)"
    and s': "unsafe_restore env 0 items (discard_non_committed_items t) = Some s'"
    using assms(1) by (auto simp: apply_forward_history_clobber_workaround_def option_dest Let_def split: prod.splits)
  have "nav_ok env t" using copies_at_looked [OF t] looked_ok assms(2) by blast
  then show ?thesis
    using nav_ok_unsafe_restore [OF base_load_ok] s' nav_ok_discard unfolding unsafe_restore_def by blast
qed

end
