(* ===== verification/NavMachine.thy ===== *)
theory NavMachine
  imports NavInvariant
begin

text \<open>
  The navigation manager as a machine: what the web state, the web controller and \<open>WKWebView\<close> do
  to it, in any order. The web view may show any list, but no entry has an item that no entry had
  before.
\<close>

section \<open>Going, reloading and looking\<close>

lemma nav_ok_finish_go:
  assumes "finish_go_to_index env k ini g s = Some s'" and "nav_ok env s"
  shows "nav_ok env s'"
proof (cases "attached_to_web_view s")
  case True
  let ?f = "\<lambda>i. i\<lparr>transition_type := transition_type i OR page_transition_forward_back env\<rparr>"
  obtain p t where t: "get_navigation_item_impl_at_index env (to_size_t k) (discard_non_committed_items s) = Some (p, t)"
    "looked env (discard_non_committed_items s) t"
    using get_item by blast
  have tok: "nav_ok env t" using looked_ok [OF t(2)] nav_ok_discard assms(2) by blast
  have "\<exists>r. s' = update_item r ?f t \<or> (\<exists>c. s' = call_delegate c (update_item r ?f t))"
    using assms(1) True t(1)
    by (auto simp: finish_go_to_index_def option_dest Let_def split: option.splits)
  moreover have "nav_ok env (update_item r ?f t)" for r by (rule nav_ok_update_item [OF tok]) simp
  ultimately show ?thesis by auto
next
  case False
  then show ?thesis
    using assms nav_ok_restore_cached
    by (auto simp: finish_go_to_index_def option_dest split: prod.splits)
qed

lemma nav_ok_go_with:
  "go_to_index_with env k ini g s = Some s' \<Longrightarrow> nav_ok env s \<Longrightarrow> nav_ok env s'"
  by (auto simp: go_to_index_with_def Let_def split: if_splits elim!: nav_ok_finish_go)

lemma nav_ok_go:
  assumes "go_to_index env k s = Some s'" and "nav_ok env s"
  shows "nav_ok env s'"
proof -
  obtain p t where t: "get_last_committed_item_in_session env s = Some (p, t)"
    and s': "s' = t \<or> go_to_index_with env k BROWSER_INITIATED True t = Some s'"
    using assms(1) by (auto simp: go_to_index_def option_dest split: prod.splits option.splits if_splits)
  show ?thesis using s' nav_ok_go_with looked_ok [OF last_committedD(1) [OF t] assms(2)] by blast
qed

lemma nav_ok_finish_reload: "finish_reload env s = Some s' \<Longrightarrow> nav_ok env s \<Longrightarrow> nav_ok env s'"
  using nav_ok_restore_cached by (auto simp: finish_reload_def option_dest split: if_splits prod.splits)

lemma nav_ok_reload:
  assumes "reload env b s = Some s'" and "nav_ok env s"
  shows "nav_ok env s'"
proof (cases "is_restore_session_in_progress s")
  case False
  obtain pending t where t: "(if transient_item s = None then get_pending_item env s else Some (None, s)) = Some (pending, t)"
    using assms(1) False by (auto simp: reload_def option_dest)
  have tok: "nav_ok env t" "good_ref t pending"
    using t assms(2) get_pendingD [of env s pending t] looked_ok [of env s t]
    by (cases "transient_item s"; simp)+
  obtain committed u where u: "(if transient_item t = None \<and> pending = None
      then get_last_committed_item env t else Some (None, t)) = Some (committed, u)"
    using assms(1) False t by (auto simp: reload_def option_dest)
  have uok: "nav_ok env u" "good_ref u committed"
    using u tok(1) get_last_committedD [of env t committed u] looked_ok [of env t u]
    by (cases "transient_item t = None \<and> pending = None"; auto)+
  have pending: "good_ref u pending"
    using u tok(2) by (cases "transient_item t = None \<and> pending = None") auto
  define p where "p = (if transient_item u \<noteq> None then Some TransientRef else if pending \<noteq> None then pending else committed)"
  have p: "good_ref u p" using uok(2) pending by (auto simp: p_def good_ref_def)
  show ?thesis
  proof (cases p)
    case (Some r)
    then obtain i where i: "deref u p = Some i" using good_ref_deref p by blast
    then have iok: "item_ok env i" using deref_ok uok(1) p by blast
    let ?u = "call_delegate ClearDialogs u"
    have di: "deref ?u p = Some i" using i Some by (simp add: deref_def call_delegate_def)
    obtain v where v: "(if b then do {
                    item \<leftarrow> deref ?u (Some r);
                    item \<leftarrow> set_item_url env (original_request_url item) item;
                    Some (update_item r (\<lambda>_. item) ?u)
                  }
                  else Some ?u) = Some v" and s': "finish_reload env v = Some s'"
      using assms(1) False t u Some by (auto simp: reload_def option_dest p_def Let_def split: option.splits)
    have "nav_ok env v"
    proof (cases b)
      case True
      then obtain j where j: "set_item_url env (original_request_url i) i = Some j" "v = update_item r (\<lambda>_. j) ?u"
        using v di Some by (auto simp: option_dest)
      then show ?thesis using nav_ok_replace_item [of env ?u j r] uok(1) set_item_url_ok [OF j(1)] item_ok_inherits [OF iok]
        by simp
    qed (use v uok(1) in auto)
    then show ?thesis using nav_ok_finish_reload [OF s'] by blast
  next
    case None
    then have "s' = u" using assms(1) False t u by (auto simp: reload_def p_def Let_def split: option.splits)
    then show ?thesis using uok by simp
  qed
qed (use assms in \<open>simp add: reload_def\<close>)

lemma visibleD:
  assumes "get_visible_item env s = Some (p, s')"
  shows "looked env s s'"
proof (cases "is_restore_session_in_progress s \<or> restored_visible_item s \<noteq> None \<or> transient_item s \<noteq> None")
  case True
  then have "s' = s" using assms by (elim disjE) (simp_all add: get_visible_item_def split: if_splits)
  then show ?thesis by simp
next
  case False
  obtain q t where t: "get_pending_item_in_session env s = Some (q, t)" using pending_in_session by blast
  have lt: "looked env s t" by (rule pending_in_sessionD(1) [OF t])
  have "s' = t \<or> (\<exists>c u. get_last_committed_item env t = Some (c, u)
      \<and> (s' = u \<or> (\<exists>r. get_last_committed_item_in_session env u = Some (r, s'))))"
    using assms False t
    by (auto simp: get_visible_item_def option_dest Let_def split: option.splits if_splits prod.splits)
  then show ?thesis
    using lt looked_trans get_last_committedD(1) last_committedD(1) by blast
qed

lemma find_non_redirectedD:
  "find_non_redirected_item env indices s = Some (p, s') \<Longrightarrow> looked env s s'"
proof (induction indices arbitrary: s)
  case (Cons i indices)
  obtain t where t: "get_navigation_item_impl_at_index env i s = Some (item_ref_at s i, t)" "looked env s t"
    using get_item by blast
  then show ?case
    using Cons looked_trans [OF t(2)] by (auto simp: option_dest split: if_splits)
qed simp

lemma non_redirectedD:
  "get_last_committed_non_redirected_item env s = Some (p, s') \<Longrightarrow> looked env s s'"
  using find_non_redirectedD get_last_committed_indexD looked_trans
  by (fastforce simp: get_last_committed_non_redirected_item_def option_dest split: if_splits prod.splits)

lemma item_to_reloadD:
  assumes "item_to_reload env s = Some (p, s')"
  shows "looked env s s'"
proof -
  obtain q t where t: "q = get_transient_item s \<and> t = s \<or> get_visible_item env s = Some (q, t)"
    and s': "s' = t \<or> get_last_committed_non_redirected_item env t = Some (p, s')"
    using assms by (auto simp: item_to_reload_def option_dest Let_def split: if_splits prod.splits)
  have "looked env s t" using t visibleD by auto
  then show ?thesis using s' non_redirectedD looked_trans by blast
qed

lemma nav_ok_reload_agent:
  assumes "reload_with_user_agent_type env a s = Some s'" and "nav_ok env s"
  shows "nav_ok env s'"
proof -
  obtain p t where t: "item_to_reload env s = Some (p, t)"
    using assms(1) by (auto simp: reload_with_user_agent_type_def option_dest)
  have s': "s' = t \<or> (\<exists>params. load_url_with_params env params t = Some s')"
    using assms(1) t unfolding reload_with_user_agent_type_def
    by (cases "deref t p") (auto simp: option_dest Let_def)
  show ?thesis using s' nav_ok_load looked_ok [OF item_to_reloadD [OF t] assms(2)] by blast
qed

lemma find_unique_idD: "find_unique_id env n indices s = Some (k, s') \<Longrightarrow> looked env s s'"
proof (induction indices arbitrary: s)
  case (Cons i indices)
  obtain t where t: "get_navigation_item_impl_at_index env i s = Some (item_ref_at s i, t)" "looked env s t"
    using get_item by blast
  then show ?case using Cons looked_trans [OF t(2)] by (auto simp: option_dest split: if_splits)
qed simp

section \<open>The machine\<close>

datatype nav_event =
    AddPending nav_url "nav_url referrer" "32 word" navigation_initiation_type user_agent_override_option
  | AddTransient nav_url
  | CommitPending
  | CommitFromContext
  | ReleasePending
  | ReturnPending
  | SetPendingIndex int
  | SetPreviousIndex int
  | DiscardNonCommitted
  | SetNotSerializable nav_url
  | AddRewriter url_rewriter
  | UpdatePendingUrl nav_url
  | ReplaceState nav_url "string option"
  | RemoveView
  | LoadURL web_load_params
  | RestoreSession int "navigation_item list"
  | LoadNow
  | NavigationStarted nav_url
  | AddCallback nat
  | BlockUrl nav_url
  | ClobberWorkaround
  | GoTo int
  | ReloadNow bool
  | ReloadWithAgent user_agent_type
  | GetVisible
  | GetAll
  | WebViewBecomes web_view
  | DocumentBecomes nav_url
  | LoadingBecomes bool
  | ClockBecomes int

definition held_items :: "web_view \<Rightarrow> navigation_item list" where
  "held_items w = List.map_filter wk_held_item
     (wv_back_list w @ (case wv_current_item w of None \<Rightarrow> [] | Some x \<Rightarrow> [x]) @ wv_forward_list w)"

definition web_view_becomes :: "web_view \<Rightarrow> nav_manager \<Rightarrow> nav_manager option" where
  "web_view_becomes w s = do {
     dcheck (set (held_items w) \<subseteq> (case nav_web_view s of None \<Rightarrow> {} | Some v \<Rightarrow> set (held_items v)));
     Some (s\<lparr>nav_web_view := Some w\<rparr>)
   }"

fun nav_step :: "nav_env \<Rightarrow> nav_manager \<Rightarrow> nav_event \<Rightarrow> nav_manager option" where
  "nav_step env s (AddPending url r tr ini option) = add_pending_item env url r tr ini option s"
| "nav_step env s (AddTransient url) = add_transient_item env url s"
| "nav_step env s CommitPending = commit_pending_item env s"
| "nav_step env s CommitFromContext =
     commit_given_item env (context_pending_item s) (s\<lparr>context_pending_item := None\<rparr>)"
| "nav_step env s ReleasePending =
     (let (item, s) = release_pending_item s in Some (s\<lparr>context_pending_item := item\<rparr>))"
| "nav_step env s ReturnPending =
     Some (set_pending_item (context_pending_item s) (s\<lparr>context_pending_item := None\<rparr>))"
| "nav_step env s (SetPendingIndex n) = Some (set_pending_item_index n s)"
| "nav_step env s (SetPreviousIndex n) = set_previous_item_index n s"
| "nav_step env s DiscardNonCommitted = Some (discard_non_committed_items s)"
| "nav_step env s (SetNotSerializable url) = Some (set_next_pending_url_not_serializable url s)"
| "nav_step env s (AddRewriter rewriter) = Some (add_transient_url_rewriter rewriter s)"
| "nav_step env s (UpdatePendingUrl url) = update_pending_item_url env url s"
| "nav_step env s (ReplaceState url object) = update_current_item_for_replace_state env url object s"
| "nav_step env s RemoveView = remove_web_view env s"
| "nav_step env s (LoadURL params) = load_url_with_params env params s"
| "nav_step env s (RestoreSession index items) = restore_items env index items s"
| "nav_step env s LoadNow = load_if_necessary env s"
| "nav_step env s (NavigationStarted url) = on_navigation_started env url s"
| "nav_step env s (AddCallback n) = Some (client_callback n s)"
| "nav_step env s (BlockUrl url) = map_option snd (should_block_url_during_restore env url s)"
| "nav_step env s ClobberWorkaround = apply_forward_history_clobber_workaround env s"
| "nav_step env s (GoTo index) = go_to_index env index s"
| "nav_step env s (ReloadNow original) = reload env original s"
| "nav_step env s (ReloadWithAgent agent) = reload_with_user_agent_type env agent s"
| "nav_step env s GetVisible = map_option snd (get_visible_item env s)"
| "nav_step env s GetAll = map_option snd (get_items_at env [0..<nat (get_item_count s)] s)"
| "nav_step env s (WebViewBecomes w) = web_view_becomes w s"
| "nav_step env s (DocumentBecomes url) = Some (s\<lparr>document_url := url\<rparr>)"
| "nav_step env s (LoadingBecomes b) = Some (s\<lparr>web_state_is_loading := b\<rparr>)"
| "nav_step env s (ClockBecomes t) = Some (s\<lparr>nav_clock := t\<rparr>)"

lemma in_map_filter: "i \<in> set (List.map_filter f xs) \<longleftrightarrow> (\<exists>x \<in> set xs. f x = Some i)"
  by (induction xs) (auto simp: map_filter_simps split: option.splits)

lemma held_items_iff: "i \<in> set (held_items w) \<longleftrightarrow> (\<exists>pos. Option.bind (wk_item_at w pos) wk_held_item = Some i)"
proof
  let ?xs = "wv_back_list w @ (case wv_current_item w of None \<Rightarrow> [] | Some x \<Rightarrow> [x]) @ wv_forward_list w"
  assume "i \<in> set (held_items w)"
  then have "\<exists>x \<in> set ?xs. wk_held_item x = Some i"
    by (simp only: held_items_def in_map_filter)
  then obtain x where x: "x \<in> set ?xs" "wk_held_item x = Some i" by blast
  then consider "x \<in> set (wv_back_list w)" | "wv_current_item w = Some x" | "x \<in> set (wv_forward_list w)"
    by (auto split: option.splits)
  then show "\<exists>pos. Option.bind (wk_item_at w pos) wk_held_item = Some i"
  proof cases
    case 1
    then obtain k where "k < length (wv_back_list w)" "wv_back_list w ! k = x" by (auto simp: in_set_conv_nth)
    then show ?thesis using x(2) by (intro exI [of _ "BackItem k"]) (simp add: wk_item_at_def)
  next
    case 2
    then show ?thesis using x(2) by (intro exI [of _ CurrentItem]) (simp add: wk_item_at_def)
  next
    case 3
    then obtain k where "k < length (wv_forward_list w)" "wv_forward_list w ! k = x" by (auto simp: in_set_conv_nth)
    then show ?thesis using x(2) by (intro exI [of _ "ForwardItem k"]) (simp add: wk_item_at_def)
  qed
next
  assume "\<exists>pos. Option.bind (wk_item_at w pos) wk_held_item = Some i"
  then obtain pos x where "wk_item_at w pos = Some x" "wk_held_item x = Some i"
    by (auto simp: option_dest)
  then have "x \<in> set (wv_back_list w @ (case wv_current_item w of None \<Rightarrow> [] | Some x \<Rightarrow> [x]) @ wv_forward_list w)"
    by (cases pos) (auto simp: wk_item_at_def split: if_splits)
  then show "i \<in> set (held_items w)"
    unfolding held_items_def in_map_filter using \<open>wk_held_item x = Some i\<close> by blast
qed

lemma nav_ok_web_view:
  assumes "web_view_becomes w s = Some s'" and "nav_ok env s"
  shows "nav_ok env s'"
proof (rule nav_ok_mono [OF assms(2)])
  fix r i
  assume i: "item_of s' r = Some i"
  have s': "s' = s\<lparr>nav_web_view := Some w\<rparr>"
    and sub: "set (held_items w) \<subseteq> (case nav_web_view s of None \<Rightarrow> {} | Some v \<Rightarrow> set (held_items v))"
    using assms(1) by (auto simp: web_view_becomes_def option_dest)
  show "item_of s r = Some i \<or> item_ok env i"
  proof (cases "\<exists>pos. r = WkRef pos")
    case True
    then have "i \<in> set (held_items w)" using i by (auto simp: s' item_of_def held_items_iff)
    then obtain v where "nav_web_view s = Some v" "i \<in> set (held_items v)" using sub by (cases "nav_web_view s") auto
    then obtain pos where "item_of s (WkRef pos) = Some i" by (auto simp: held_items_iff item_of_def)
    then show ?thesis using nav_okD [OF assms(2)] by blast
  qed (use i in \<open>auto simp: s' item_of_def split: item_ref.splits\<close>)
qed

lemma nav_step_ok:
  assumes "nav_ok env s" and "nav_step env s c = Some t"
  shows "nav_ok env t"
proof (cases c)
  case CommitFromContext
  then show ?thesis
    using assms nav_ok_commit_given [of env "context_pending_item s" "s\<lparr>context_pending_item := None\<rparr>" t]
      nav_okD [OF assms(1), of ContextRef] by simp
next
  case ReleasePending
  have "nav_ok env ((s\<lparr>pending_item := None\<rparr>)\<lparr>context_pending_item := pending_item s\<rparr>)"
    by (rule nav_ok_place) (use assms(1) nav_okD [OF assms(1), of PendingRef] in auto)
  then show ?thesis using ReleasePending assms(2) by (auto simp: release_pending_item_def)
next
  case ReturnPending
  have "nav_ok env ((s\<lparr>context_pending_item := None\<rparr>)\<lparr>pending_item := context_pending_item s\<rparr>)"
    by (rule nav_ok_place) (use assms(1) nav_okD [OF assms(1), of ContextRef] in auto)
  then show ?thesis using ReturnPending assms(2) by (auto simp: set_pending_item_def)
next
  case GetAll
  then show ?thesis
    using assms get_items [of env "[0..<nat (get_item_count s)]" s] looked_ok by auto
qed (use assms in \<open>auto simp: set_pending_item_index_def set_previous_item_index_def option_dest
    set_next_pending_url_not_serializable_def add_transient_url_rewriter_def nav_ok_client_callback nav_ok_discard
    elim!: nav_ok_add_pending nav_ok_add_transient nav_ok_commit_pending nav_ok_update_url nav_ok_replace_state
      nav_ok_remove_view nav_ok_load nav_ok_restore nav_ok_load_if_necessary nav_ok_started nav_ok_should_block
      nav_ok_workaround nav_ok_go nav_ok_reload nav_ok_reload_agent nav_ok_web_view
    dest!: visibleD looked_ok\<close>)

interpretation nav: step_invariant "nav_step env" "\<lambda>_ _. True" "nav_ok env" for env
  by unfold_locales (use nav_step_ok in blast)

end
