(* ===== verification/NavRestore.thy ===== *)
theory NavRestore
  imports NavMachine
begin

text \<open>
  When the operations of the navigation manager succeed, and what they leave alone: pending items,
  loads, restored sessions, detaching. The lemmas state the conditions under which no check
  fails; \<open>nav_laws\<close> is what is known of the URL library and the constants.
\<close>

definition nav_laws :: "nav_env \<Rightarrow> bool" where
  "nav_laws env \<longleftrightarrow> url_laws (nav_urls env) \<and> session_laws (nav_urls env)
     \<and> (\<forall>r. restore_ref (nav_urls env) r \<longrightarrow> nav_is_valid (nav_urls env) (replace_ref (nav_urls env) (get_restore_session_base_url (nav_urls env)) r))
     \<and> (\<forall>u. nav_is_valid (nav_urls env) u
            \<longrightarrow> nav_is_valid (nav_urls env) (append_query_parameter (nav_urls env)
                  (nav_parse (nav_urls env) kAboutBlankURL) kOriginalUrlKey (nav_spec (nav_urls env) u)))
     \<and> (\<forall>u. nav_is_about_blank (nav_urls env) u \<longrightarrow> nav_scheme (nav_urls env) u = ''about'')
     \<and> nav_scheme (nav_urls env) [] = []
     \<and> (\<forall>u. app_specific env u \<longrightarrow> nav_scheme (nav_urls env) u \<noteq> ''file'')
     \<and> (\<forall>rewriter \<in> set (client_url_rewriters env). \<forall>u.
            nav_scheme (nav_urls env) u = ''file'' \<longrightarrow> rewriter u = (False, u))
     \<and> page_transition_reload env AND page_transition_forward_back env = 0
     \<and> page_transition_link env AND page_transition_forward_back env = 0"

section \<open>Lists and indices\<close>

text \<open>A web view with no current item shows no list; lists are shorter than an \<open>int\<close> counts.\<close>

definition web_view_ok :: "web_view \<Rightarrow> bool" where
  "web_view_ok w \<longleftrightarrow> (wv_current_item w = None \<longrightarrow> wv_back_list w = [] \<and> wv_forward_list w = [])
     \<and> int (wk_count w) < 2 ^ 31 - 1"

definition view_ok :: "nav_manager \<Rightarrow> bool" where
  "view_ok s \<longleftrightarrow> (\<forall>w. nav_web_view s = Some w \<longrightarrow> web_view_ok w)
     \<and> (\<not> attached_to_web_view s \<longrightarrow>
          (cached_items s = [] \<and> cached_current_item_index s = -1
           \<or> 0 \<le> cached_current_item_index s \<and> cached_current_item_index s < int (length (cached_items s)))
          \<and> int (length (cached_items s)) < 2 ^ 31 - 1)"

lemma item_at_offset_in_range:
  assumes "wv_current_item w \<noteq> None" and "i < wk_count w"
  shows "item_at_offset w (int i - int (length (wv_back_list w))) \<noteq> None"
  using assms by (auto simp: item_at_offset_def wk_count_def)

lemma current_item_index_bounds:
  assumes "view_ok s"
  shows "get_back_forward_list_item_count s = 0 \<and> get_current_item_index s = -1
    \<or> 0 \<le> get_current_item_index s \<and> get_current_item_index s < int (get_back_forward_list_item_count s)"
proof (cases "attached_to_web_view s")
  case True
  show ?thesis
  proof (cases "nav_web_view s")
    case (Some w)
    then have "web_view_ok w" using assms by (simp add: view_ok_def)
    then show ?thesis using True Some
      by (cases "wv_current_item w") (auto simp: get_back_forward_list_item_count_def get_current_item_index_def
          web_view_ok_def wk_count_def)
  qed (use True in \<open>simp add: get_back_forward_list_item_count_def get_current_item_index_def\<close>)
next
  case False
  then show ?thesis using assms
    by (auto simp: view_ok_def get_back_forward_list_item_count_def get_current_item_index_def)
qed

lemma count_bound:
  assumes "view_ok s"
  shows "int (get_back_forward_list_item_count s) < 2 ^ 31 - 1"
proof (cases "attached_to_web_view s")
  case True
  then show ?thesis using assms
    by (cases "nav_web_view s") (auto simp: get_back_forward_list_item_count_def view_ok_def web_view_ok_def)
qed (use assms in \<open>auto simp: get_back_forward_list_item_count_def view_ok_def\<close>)

lemma cache_ref_in_range:
  assumes "view_ok s" and "i < get_back_forward_list_item_count s"
  shows "cache_ref_at s i \<noteq> None"
proof (cases "attached_to_web_view s")
  case True
  then obtain w where w: "nav_web_view s = Some w" "i < wk_count w"
    using assms(2) by (cases "nav_web_view s") (auto simp: get_back_forward_list_item_count_def)
  then have "web_view_ok w" using assms(1) by (simp add: view_ok_def)
  then have c: "wv_current_item w \<noteq> None" using w(2)
    by (cases "wv_current_item w") (auto simp: web_view_ok_def wk_count_def)
  then have "get_current_item_index s = int (length (wv_back_list w))"
    using True w(1) by (simp add: get_current_item_index_def)
  then show ?thesis using item_at_offset_in_range [OF c w(2)] True w assms(2) by (auto simp: cache_ref_at_def)
qed (use assms in \<open>simp add: cache_ref_at_def\<close>)

lemma looked_view_ok:
  assumes "looked env s s'"
  shows "view_ok s' = view_ok s"
proof -
  have sk: "skeleton s' = skeleton s" using assms by (simp add: looked_def)
  have "(\<forall>w. nav_web_view s' = Some w \<longrightarrow> web_view_ok w) = (\<forall>w. nav_web_view s = Some w \<longrightarrow> web_view_ok w)"
  proof (cases "nav_web_view s'")
    case (Some v)
    then obtain w where w: "nav_web_view s = Some w" "strip_view v = strip_view w"
      using skeleton_eqD(22) [OF sk] by (cases "nav_web_view s") simp_all
    have "web_view_ok v = web_view_ok w"
      using strip_view_eqD(2,3,4,5) [OF w(2)] unfolding web_view_ok_def by (metis length_0_conv)
    then show ?thesis using Some w(1) by simp
  qed (use skeleton_view(7) [OF sk] in simp)
  then show ?thesis using skeleton_eqD(7-9) [OF sk] by (simp add: view_ok_def)
qed

lemma to_size_t_id: "0 \<le> i \<Longrightarrow> i < 2 ^ 64 \<Longrightarrow> to_size_t i = nat i"
  by (simp add: to_size_t_def)

section \<open>Staying attached\<close>

lemma create_keeps:
  assumes "create_navigation_item_with_rewriters env url referrer transition initiation previous additional s = Some (item, s')"
  shows "s' = s\<lparr>nav_next_id := nav_next_id s + 1\<rparr>" "ni_url item = loaded_url env url transition initiation previous additional"
  using create_total [of env url referrer transition initiation previous additional s] assms by auto

lemma looked_attached: "looked env s s' \<Longrightarrow> attached_to_web_view s' = attached_to_web_view s"
  using skeleton_eqD(7) [of s' s] by (simp add: looked_def)

lemma update_item_attached [simp]: "attached_to_web_view (update_item r f s) = attached_to_web_view s"
  by (cases r) (simp_all add: update_item_def)

lemma reuse_attached: "reuse_current_item env tr ini s = Some s' \<Longrightarrow> attached_to_web_view s' = attached_to_web_view s"
  by (auto simp: reuse_current_item_def set_navigation_item_in_wk_item_def option_dest Let_def split: if_splits)

lemma add_pending_attached:
  assumes "add_pending_item env url r tr ini option s = Some s'"
  shows "attached_to_web_view s' = attached_to_web_view s"
  using assms
proof (rule add_pendingE)
  fix committed t item u with_agent v i
  assume t: "get_last_committed_item_in_session env (discard_non_committed_items s) = Some (committed, t)"
    and u: "create_navigation_item_with_rewriters env url r tr ini
        (case deref t committed of Some i \<Rightarrow> ni_url i | None \<Rightarrow> []) (Some (transient_url_rewriters t)) t = Some (item, u)"
    and v: "get_last_committed_item_with_user_agent_type env
        (u\<lparr>pending_item := Some item, transient_url_rewriters := []\<rparr>) = Some (with_agent, v)"
    and s': "(let i = (if next_pending_url_should_skip_serialization v \<noteq> []
                    \<and> url = next_pending_url_should_skip_serialization v
                 then i\<lparr>should_skip_serialization := True\<rparr> else i);
               w = v\<lparr>pending_item := Some i, next_pending_url_should_skip_serialization := []\<rparr>
           in if \<not> attached_to_web_view w then Some w else reuse_current_item env tr ini w) = Some s'"
  have "attached_to_web_view v = attached_to_web_view s"
    using looked_attached [OF last_committedD(1) [OF t]] create_keeps(1) [OF u] looked_attached [OF with_agentD(1) [OF v]]
    by (simp add: discard_non_committed_items_def)
  then show ?thesis using s' reuse_attached by (fastforce simp: Let_def split: if_splits)
qed

lemma prepare_attached:
  assumes "prepare_added_item env params s = Some s'"
  shows "attached_to_web_view s' = attached_to_web_view s"
  by (rule prepare_added_induct [OF assms]) (simp_all add: looked_attached)

lemma begin_load_attached:
  assumes "begin_load_url_with_params env params s = Some s'"
  shows "attached_to_web_view s' = attached_to_web_view s"
  using assms add_pending_attached prepare_attached
  by (fastforce simp: begin_load_url_with_params_def option_dest Let_def call_delegate_def)

text \<open>When attached, a load does not restore.\<close>

lemma attached_load_round:
  assumes "attached_to_web_view s"
  shows "load_round env base params s = load_round env base' params s"
proof (cases "begin_load_url_with_params env params s")
  case (Some t)
  then show ?thesis using begin_load_attached [OF Some] assms
    by (simp add: load_round_def finish_load_url_with_params_with_def)
qed (simp add: load_round_def)

lemma copies_length:
  "copy_items_for_cache env indices s = Some (copies, s') \<Longrightarrow> length copies = length indices \<and> looked env s s'"
proof (induction indices arbitrary: s copies)
  case (Cons k indices)
  obtain t where t: "cache_get_item_at_index env k s = Some (cache_ref_at s k, t)" "looked env s t"
    using cache_get by blast
  then show ?case using Cons looked_trans [OF t(2)] by (fastforce simp: option_dest)
qed simp

lemma remove_web_view_keeps_items:
  assumes "remove_web_view env s = Some t" and "attached_to_web_view s"
  shows "get_item_count t = get_item_count s"
proof (cases "nav_web_view s")
  case (Some w)
  obtain copies u where c: "copy_items_for_cache env [0..<get_back_forward_list_item_count s]
      (call_delegate ClearDialogs s) = Some (copies, u)"
    using assms Some by (auto simp: remove_web_view_def detach_from_web_view_def call_delegate_def option_dest
        get_back_forward_list_item_count_def)
  have l: "length copies = get_back_forward_list_item_count s" "looked env (call_delegate ClearDialogs s) u"
    using copies_length [OF c] by auto
  have sk: "skeleton u = skeleton (call_delegate ClearDialogs s)" using l(2) by (simp add: looked_def)
  have "empty_window_open_item t = empty_window_open_item s" "cached_items t = copies" "\<not> attached_to_web_view t"
    using assms Some c skeleton_eqD(5) [OF sk]
    by (auto simp: remove_web_view_def detach_from_web_view_def call_delegate_def option_dest Let_def
        get_back_forward_list_item_count_def)
  then show ?thesis using l(1) by (simp add: get_item_count_def get_back_forward_list_item_count_def)
qed (use assms in \<open>simp add: remove_web_view_def\<close>)

section \<open>Restoring\<close>

lemma unsafe_restore_cong:
  assumes "\<And>params t. attached_to_web_view t \<Longrightarrow> base params t = base' params t"
    and "attached_to_web_view s"
  shows "unsafe_restore_with base env k items s = unsafe_restore_with base' env k items s"
proof -
  have "load_or_defer env base params t = load_or_defer env base' params t" if "attached_to_web_view t" for params t
    using assms(1) [OF that] by (simp add: load_or_defer_def)
  then show ?thesis using assms(2) by (cases "k > -1") (simp_all add: unsafe_restore_with_def Let_def)
qed

text \<open>What is restored into, and how, when the list is empty.\<close>

definition cleared_for_restore :: "nav_manager \<Rightarrow> nav_manager" where
  "cleared_for_restore s =
     (discard_non_committed_items (if attached_to_web_view s then s else reset_to_attached s))
       \<lparr>previous_item_index := -1, last_committed_item_index := -1\<rparr>"

lemma cleared_count:
  "get_item_count (cleared_for_restore s) =
     get_item_count (discard_non_committed_items (if \<not> attached_to_web_view s then reset_to_attached s else s))"
  by (cases "attached_to_web_view s") (simp_all add: cleared_for_restore_def get_item_count_def
      get_back_forward_list_item_count_def discard_non_committed_items_def reset_to_attached_def)

lemma restore_into_empty:
  assumes "items \<noteq> []" and "get_item_count (cleared_for_restore s) = 0"
  shows "restore_with base env k items s =
    (if \<not> is_restore_session_in_progress s \<and> k < int (length items) \<and> k \<ge> 0
     then unsafe_restore_with base env k items (cleared_for_restore s) else None)"
proof -
  have "get_item_count (discard_non_committed_items (if \<not> attached_to_web_view s then reset_to_attached s else s)) = 0"
    using assms(2) by (simp only: cleared_count)
  moreover have "pending_item_index (discard_non_committed_items t) = -1" for t
    by (simp add: discard_non_committed_items_def)
  ultimately show ?thesis
    using assms(1) by (auto simp: restore_with_def cleared_for_restore_def dcheck_def)
qed

lemma restore_into_items:
  assumes "items \<noteq> []" and "get_item_count (cleared_for_restore s) \<noteq> 0"
  shows "restore_with base env k items s = None"
proof (rule ccontr)
  let ?d = "discard_non_committed_items (if \<not> attached_to_web_view s then reset_to_attached s else s)"
  assume "restore_with base env k items s \<noteq> None"
  then obtain t where t: "(if get_item_count ?d > 0 then remove_web_view env ?d else Some ?d) = Some t" "get_item_count t = 0"
    using assms(1) by (auto simp: restore_with_def option_dest Let_def)
  moreover have "attached_to_web_view ?d" by (simp add: discard_non_committed_items_def reset_to_attached_def)
  ultimately have "get_item_count ?d = 0" using remove_web_view_keeps_items by (fastforce split: if_splits)
  then show False using assms(2) by (simp only: cleared_count)
qed

lemma restore_cong:
  assumes "\<And>params t. attached_to_web_view t \<Longrightarrow> base params t = base' params t"
  shows "restore_with base env k items s = restore_with base' env k items s"
proof -
  have att: "attached_to_web_view (cleared_for_restore s)"
    by (simp add: cleared_for_restore_def discard_non_committed_items_def reset_to_attached_def)
  consider "items = []" | "items \<noteq> []" "get_item_count (cleared_for_restore s) \<noteq> 0"
    | "items \<noteq> []" "get_item_count (cleared_for_restore s) = 0" by blast
  then show ?thesis
  proof cases
    case 3
    then show ?thesis using unsafe_restore_cong [of base base', OF assms att] by (simp add: restore_into_empty)
  qed (simp add: restore_with_def, simp add: restore_into_items)
qed

section \<open>Restoring into an empty manager\<close>

lemma rewrite_item_titles:
  "rewrite_item_urls env items = Some items' \<Longrightarrow> map ni_title items' = map ni_title items"
proof (induction items arbitrary: items')
  case (Cons item items)
  then obtain i js where i: "rewrite_item_url_if_necessary env item = Some i" "rewrite_item_urls env items = Some js"
    "items' = i # js" by (auto simp: option_dest)
  have "ni_title i = ni_title item"
    using i(1) by (auto simp: rewrite_item_url_if_necessary_def set_item_url_def set_user_agent_type_eq
        set_virtual_url_def option_dest Let_def split: if_splits prod.splits)
  with i Cons.IH [OF i(2)] show ?case by simp
qed simp

text \<open>The URL that restores a session, and the items it is made of.\<close>

lemma restore_page_url:
  assumes "nav_laws env" and "create_restore_session_url (nav_urls env) k items = Some (url, first)"
  shows "nav_is_valid (nav_urls env) url" "nav_scheme (nav_urls env) url = ''file''" "restore_url env url"
    "\<not> app_specific env url"
proof -
  let ?e = "nav_urls env"
  obtain r where url: "url = replace_ref ?e (get_restore_session_base_url ?e) r" and r: "restore_ref ?e r"
    using assms(2)
    by (auto simp: create_restore_session_url_def option_dest Let_def restore_ref_def split: prod.splits)
  show "nav_is_valid ?e url" using assms(1) r by (simp add: nav_laws_def url)
  have laws: "url_laws ?e" using assms(1) by (simp add: nav_laws_def)
  then show scheme: "nav_scheme ?e url = ''file''"
    using r by (simp add: url url_laws_def)
  show "restore_url env url"
    using laws r by (simp add: url url_laws_def is_restore_session_url_def)
  show "\<not> app_specific env url" using assms(1) scheme by (auto simp: nav_laws_def)
qed

lemma file_not_rewritten:
  assumes "nav_laws env" and "nav_scheme (nav_urls env) url = ''file''"
  shows "rewrite_url_if_necessary env url = (False, url)"
proof -
  have "rewrite_url_with_writers rewriters url = (False, url)"
    if "\<forall>rewriter \<in> set rewriters. rewriter url = (False, url)" for rewriters
    using that by (induction rewriters) auto
  moreover have "\<forall>rewriter \<in> set (browser_url_rewriters env). rewriter url = (False, url)"
    using assms by (auto simp: nav_laws_def browser_url_rewriters_def handle_view_source_def)
  ultimately show ?thesis by (simp add: rewrite_url_if_necessary_def)
qed

lemma file_loaded_url:
  assumes "nav_laws env" and "nav_scheme (nav_urls env) url = ''file''"
  shows "loaded_url env url transition initiation previous (Some []) = url"
  using file_not_rewritten [OF assms] by (simp add: loaded_url_def)

definition rewritten_url :: "nav_env \<Rightarrow> nav_url \<Rightarrow> nav_url" where
  "rewritten_url env url =
     (let (rewritten, url1) = rewrite_url_if_necessary env url in if rewritten then url1 else url)"

lemma rewrite_items_total:
  "\<exists>items'. rewrite_item_urls env items = Some items'
     \<and> map ni_url items' = map (\<lambda>i. rewritten_url env (ni_url i)) items"
proof (induction items)
  case (Cons item items)
  obtain rewritten url where r: "rewrite_url_if_necessary env (ni_url item) = (rewritten, url)" by fastforce
  obtain j where j: "set_item_url env url item = Some j" using set_item_url_total by blast
  have "\<exists>i. rewrite_item_url_if_necessary env item = Some i \<and> ni_url i = rewritten_url env (ni_url item)"
    using r j set_item_url_url [OF j]
    by (cases rewritten) (simp_all add: rewrite_item_url_if_necessary_def rewritten_url_def)
  then show ?case using Cons.IH by auto
qed simp

lemma create_restore_total:
  assumes "0 \<le> k" and "k < int (length items)" and "length items < 2 ^ 31"
  shows "\<exists>url first. create_restore_session_url env k items = Some (url, first)
    \<and> 0 \<le> first \<and> first < int (length items)"
proof -
  obtain first past new_k where win: "get_safe_item_iterators k (length items) = (first, past, new_k)"
    by (cases "get_safe_item_iterators k (length items)")
  note w = session_window [OF assms(1,2) _ win]
  have "k < to_int32 (int (length items))" using assms(2,3) by (simp add: to_int32_def)
  then show ?thesis using w assms win by (auto simp: create_restore_session_url_def Let_def)
qed

lemma update_agent_inherit_none:
  assumes "ni_user_agent_type item \<noteq> UA_DESKTOP"
  shows "update_pending_item_user_agent_type env UA_INHERIT None item = Some item"
  using assms by (simp add: update_pending_item_user_agent_type_def)

lemma placeholder_of_total:
  assumes "nav_laws env" and "\<not> use_js env"
  shows "\<exists>b. is_same_or_placeholder_of env u v = Some b"
  using assms by (cases "u = v") (auto simp: is_same_or_placeholder_of_def create_placeholder_url_for_url_def
      use_js_def nav_laws_def Let_def)

lemma same_as_pending_total:
  assumes "nav_laws env"
  shows "\<exists>b. is_current_url_same_as_pending env u v w = Some b"
proof (cases "use_js env")
  case False
  obtain a b where ab: "is_same_or_placeholder_of env u v = Some a" "is_same_or_placeholder_of env u w = Some b"
    using placeholder_of_total [OF assms False] by metis
  then show ?thesis using False by (auto simp: is_current_url_same_as_pending_def)
qed (simp add: is_current_url_same_as_pending_def)

lemma no_entry_not_reused:
  assumes "nav_laws env" and "nav_web_view s = None" and "pending_item s = Some item"
    and "\<not> restore_url env []"
  shows "reuse_current_item env tr ini s = Some s"
proof -
  obtain b where "is_current_url_same_as_pending env [] (ni_url item) [] = Some b"
    using same_as_pending_total [OF assms(1)] by blast
  then show ?thesis using assms by (simp add: reuse_current_item_def)
qed

lemma empty_not_restore_url: "nav_laws env \<Longrightarrow> \<not> restore_url env []"
  by (simp add: nav_laws_def is_restore_session_url_def)

text \<open>A manager without a web view and without an item that is committed.\<close>

definition bare_manager :: "nav_manager \<Rightarrow> bool" where
  "bare_manager s \<longleftrightarrow> attached_to_web_view s \<and> nav_web_view s = None \<and> empty_window_open_item s = None"

lemma bare_queries:
  assumes "bare_manager s" and "pending_item_index s = -1"
  shows "get_last_committed_item_in_session env s = Some (None, s)"
    "get_last_committed_item_with_user_agent_type env s = Some (None, s)"
    "get_item_count s = 0"
  using assms by (simp_all add: bare_manager_def get_last_committed_item_in_session_def
      get_last_committed_item_with_user_agent_type_def get_last_committed_item_index_in_session_def
      get_current_item_index_def get_item_count_def get_back_forward_list_item_count_def)

lemma bare_simps [simp]:
  "bare_manager (discard_non_committed_items s) = bare_manager s"
  "bare_manager (s\<lparr>pending_item := p\<rparr>) = bare_manager s"
  "bare_manager (s\<lparr>transient_url_rewriters := x\<rparr>) = bare_manager s"
  "bare_manager (s\<lparr>nav_next_id := n\<rparr>) = bare_manager s"
  "bare_manager (s\<lparr>next_pending_url_should_skip_serialization := u\<rparr>) = bare_manager s"
  "bare_manager (s\<lparr>is_restore_session_in_progress := b\<rparr>) = bare_manager s"
  "bare_manager (s\<lparr>restored_visible_item := i\<rparr>) = bare_manager s"
  "bare_manager (s\<lparr>previous_item_index := n1\<rparr>) = bare_manager s"
  "bare_manager (s\<lparr>last_committed_item_index := n2\<rparr>) = bare_manager s"
  "bare_manager (call_delegate c s) = bare_manager s"
  by (simp_all add: bare_manager_def discard_non_committed_items_def call_delegate_def)

lemma bare_add_pending:
  assumes "nav_laws env" and "bare_manager s"
  shows "\<exists>s' item. add_pending_item env url r tr ini UA_INHERIT s = Some s' \<and> pending_item s' = Some item
    \<and> ni_url item = loaded_url env url tr ini [] (Some (transient_url_rewriters s))
    \<and> bare_manager s' \<and> pending_item_index s' = -1 \<and> transient_item s' = None
    \<and> is_restore_session_in_progress s' = is_restore_session_in_progress s
    \<and> restored_visible_item s' = restored_visible_item s \<and> delegate_calls s' = delegate_calls s"
proof -
  let ?d = "discard_non_committed_items s"
  have d: "pending_item_index ?d = -1" "transient_url_rewriters ?d = transient_url_rewriters s"
    by (simp_all add: discard_non_committed_items_def)
  obtain item where item: "create_navigation_item_with_rewriters env url r tr ini [] (Some (transient_url_rewriters s)) ?d
       = Some (item, ?d\<lparr>nav_next_id := nav_next_id ?d + 1\<rparr>)"
    "ni_url item = loaded_url env url tr ini [] (Some (transient_url_rewriters s))"
    "ni_user_agent_type item \<noteq> UA_DESKTOP"
    using create_total [of env url r tr ini "[]" "Some (transient_url_rewriters s)" ?d] by blast
  let ?t = "?d\<lparr>nav_next_id := nav_next_id ?d + 1, pending_item := Some item, transient_url_rewriters := []\<rparr>"
  let ?i = "if next_pending_url_should_skip_serialization ?d \<noteq> [] \<and> url = next_pending_url_should_skip_serialization ?d
        then item\<lparr>should_skip_serialization := True\<rparr> else item"
  let ?s' = "?t\<lparr>pending_item := Some ?i, next_pending_url_should_skip_serialization := []\<rparr>"
  have t: "bare_manager ?t" "pending_item_index ?t = -1" using assms(2) d by simp_all
  have s': "bare_manager ?s'" using assms(2) by simp
  have "reuse_current_item env tr ini ?s' = Some ?s'"
    by (rule no_entry_not_reused [OF assms(1) _ _ empty_not_restore_url [OF assms(1)], where item = ?i])
      (use s' in \<open>simp_all add: bare_manager_def\<close>)
  moreover have "attached_to_web_view ?d" using assms(2) by (simp add: bare_manager_def discard_non_committed_items_def)
  ultimately have "add_pending_item env url r tr ini UA_INHERIT s = Some ?s'"
    using bare_queries(1) [of ?d env] bare_queries(2) [of ?t env] assms(2) d t item
    by (simp add: add_pending_item_def Let_def deref_def update_agent_inherit_none)
  then show ?thesis using s' item(2) by (auto simp: discard_non_committed_items_def)
qed

lemma bare_prepare:
  assumes "bare_manager s" and "pending_item s = Some item" and "pending_item_index s = -1"
    and "transient_item s = None" and "lp_extra_headers params = None" and "lp_post_data params = None"
  shows "\<exists>s' p. prepare_added_item env params s = Some s' \<and> pending_item s' = Some p \<and> ni_url p = ni_url item
    \<and> bare_manager s' \<and> pending_item_index s' = -1
    \<and> is_restore_session_in_progress s' = is_restore_session_in_progress s
    \<and> restored_visible_item s' = restored_visible_item s \<and> delegate_calls s' = delegate_calls s"
  using bare_queries(1) [OF assms(1,3), of env] assms
  by (simp add: prepare_added_item_def get_pending_item_in_session_def deref_def Let_def update_item_def
      add_http_request_headers_def)

lemma bare_load:
  assumes "nav_laws env" and "bare_manager s" and "lp_extra_headers params = None" and "lp_post_data params = None"
    and "lp_user_agent_override_option params = UA_INHERIT"
    and "lp_transition_type params AND page_transition_forward_back env = 0"
  shows "\<exists>s' p. base_load env params s = Some s' \<and> pending_item s' = Some p
    \<and> ni_url p = loaded_url env (lp_url params) (lp_transition_type params) (load_initiation params) []
          (Some (transient_url_rewriters s))
    \<and> bare_manager s' \<and> pending_item_index s' = -1
    \<and> is_restore_session_in_progress s' = is_restore_session_in_progress s
    \<and> restored_visible_item s' = restored_visible_item s
    \<and> delegate_calls s' = LoadCurrentItem (load_initiation params) # RecordPageState # ClearDialogs
         # ClearTransientContent # delegate_calls s"
proof -
  let ?c = "call_delegate RecordPageState (call_delegate ClearDialogs (call_delegate ClearTransientContent s))"
  have c: "bare_manager ?c" "transient_url_rewriters ?c = transient_url_rewriters s" "restored_visible_item ?c = restored_visible_item s"
    "is_restore_session_in_progress ?c = is_restore_session_in_progress s"
    "delegate_calls ?c = RecordPageState # ClearDialogs # ClearTransientContent # delegate_calls s"
    using assms(2) by simp_all (simp_all add: call_delegate_def)
  obtain t item where t: "add_pending_item env (lp_url params) (lp_referrer params) (lp_transition_type params)
      (load_initiation params) UA_INHERIT ?c = Some t" "pending_item t = Some item"
    "ni_url item = loaded_url env (lp_url params) (lp_transition_type params) (load_initiation params) []
        (Some (transient_url_rewriters s))"
    "bare_manager t" "pending_item_index t = -1" "transient_item t = None"
    "is_restore_session_in_progress t = is_restore_session_in_progress s"
    "restored_visible_item t = restored_visible_item s" "delegate_calls t = delegate_calls ?c"
    using bare_add_pending [OF assms(1) c(1), of "lp_url params" "lp_referrer params" "lp_transition_type params"
        "load_initiation params"] c(2-4) by auto
  obtain u p where u: "prepare_added_item env params t = Some u" "pending_item u = Some p" "ni_url p = ni_url item"
    "bare_manager u" "pending_item_index u = -1"
    "is_restore_session_in_progress u = is_restore_session_in_progress t"
    "restored_visible_item u = restored_visible_item t" "delegate_calls u = delegate_calls t"
    using bare_prepare [OF t(4,2,5,6) assms(3,4)] by blast
  have "begin_load_url_with_params env params s = Some u"
    using assms(5,6) t(1) u(1) by (simp add: begin_load_url_with_params_def Let_def)
  then have "base_load env params s = Some (call_delegate (LoadCurrentItem (load_initiation params)) u)"
    using u(4) by (simp add: base_load_def load_depth_def numeral_2_eq_2 load_round_def finish_load_url_with_params_with_def bare_manager_def)
  then show ?thesis using t u c(5) by (auto simp: bare_manager_def call_delegate_def)
qed

lemma bare_restore:
  assumes "nav_laws env" and "bare_manager (cleared_for_restore s)" and "transient_url_rewriters s = []"
    and "\<not> is_restore_session_in_progress s" and "items \<noteq> []" and "0 \<le> k" and "k < int (length items)"
    and "length items < 2 ^ 31"
  shows "\<exists>s' p items' url first. restore_items env k items s = Some s'
    \<and> rewrite_item_urls env items = Some items' \<and> length items' = length items
    \<and> map ni_url items' = map (\<lambda>i. rewritten_url env (ni_url i)) items
    \<and> create_restore_session_url (nav_urls env) k (map session_item items') = Some (url, first)
    \<and> pending_item s' = Some p \<and> ni_url p = url \<and> ni_title p = ni_title (items' ! nat first)
    \<and> bare_manager s' \<and> is_restore_session_in_progress s'
    \<and> restored_visible_item s' = Some (items' ! nat k)
    \<and> delegate_calls s' = LoadCurrentItem BROWSER_INITIATED # RecordPageState # ClearDialogs
         # ClearTransientContent # delegate_calls s"
proof -
  let ?c = "cleared_for_restore s"
  have c: "bare_manager ?c" "transient_url_rewriters ?c = []" "delegate_calls ?c = delegate_calls s"
    using assms(2,3) by (simp_all add: cleared_for_restore_def discard_non_committed_items_def reset_to_attached_def)
  have "get_item_count ?c = 0" using bare_queries(3) [OF c(1)] by (simp add: cleared_for_restore_def discard_non_committed_items_def)
  then have restore: "restore_items env k items s = unsafe_restore_with (base_load env) env k items ?c"
    unfolding restore_items_def using restore_into_empty [OF assms(5)] assms(4,6,7) by simp
  obtain items' where items': "rewrite_item_urls env items = Some items'"
    "map ni_url items' = map (\<lambda>i. rewritten_url env (ni_url i)) items"
    using rewrite_items_total by blast
  then have len: "length items' = length items" by (metis length_map)
  obtain url first where url: "create_restore_session_url (nav_urls env) k (map session_item items') = Some (url, first)"
    "0 \<le> first" "first < int (length items')"
    using create_restore_total [of k "map session_item items'" "nav_urls env"] assms(6-8) len by auto
  note page = restore_page_url [OF assms(1) url(1)]
  let ?params = "(new_web_load_params env url)\<lparr>lp_transition_type := page_transition_reload env,
                     lp_virtual_url := get_virtual_url (items' ! nat first)\<rparr>"
  let ?s1 = "?c\<lparr>is_restore_session_in_progress := True, restored_visible_item := Some (items' ! nat k)\<rparr>"
  have "loaded_url env url tr ini [] (Some []) = url" for tr ini by (rule file_loaded_url [OF assms(1) page(2)])
  then obtain t p where t: "base_load env ?params ?s1 = Some t" "pending_item t = Some p" "ni_url p = url"
    "bare_manager t" "pending_item_index t = -1" "is_restore_session_in_progress t"
    "restored_visible_item t = Some (items' ! nat k)"
    "delegate_calls t = LoadCurrentItem BROWSER_INITIATED # RecordPageState # ClearDialogs
         # ClearTransientContent # delegate_calls s"
    using bare_load [OF assms(1), of ?s1 ?params] assms(1) c
    by (auto simp: new_web_load_params_def load_initiation_def nav_laws_def)
  let ?s' = "update_item PendingRef (set_title (ni_title (items' ! nat first))) t"
  have "load_or_defer env (base_load env) ?params ?s1 = Some t"
    using t(1) page(3) by (simp add: load_or_defer_def new_web_load_params_def)
  then have "unsafe_restore_with (base_load env) env k items ?c = Some ?s'"
    using items' url page(1) len t(2,5) assms(6)
    by (simp add: unsafe_restore_with_def Let_def get_pending_item_in_session_def)
  then show ?thesis
    using restore items' url(1) len t by (auto simp: update_item_def bare_manager_def)
qed

section \<open>Copies of the list\<close>

lemma copy_for_cache_total: "\<exists>c. copy_for_cache env i = Some c"
proof -
  obtain target where "(if restore_url env (ni_url (copy_navigation_item env i))
      then extract_target_url (nav_urls env) (ni_url (copy_navigation_item env i)) else Some None) = Some target"
    using extract_target_total by (cases "restore_url env (ni_url (copy_navigation_item env i))") auto
  then show ?thesis
    using set_item_url_total by (cases target) (simp_all add: copy_for_cache_def Let_def)
qed

lemma copies_of_items:
  assumes "view_ok s" and "\<forall>i \<in> set indices. i < get_back_forward_list_item_count s"
  shows "\<exists>copies s'. copy_items_for_cache env indices s = Some (copies, s') \<and> looked env s s'
    \<and> length copies = length indices
    \<and> (\<forall>k < length indices. \<exists>i. deref s' (cache_ref_at s (indices ! k)) = Some i \<and> copy_for_cache env i = Some (copies ! k))"
  using assms
proof (induction indices arbitrary: s)
  case (Cons m indices)
  obtain r where r: "cache_ref_at s m = Some r" using cache_ref_in_range [of s m] Cons.prems by auto
  obtain t i where t: "cache_get_item_at_index env m s = Some (Some r, t)" "looked env s t"
    "item_of t r = Some i" "r \<noteq> WebViewItemRef" using cache_get [of env m s] r by auto
  have sk: "skeleton t = skeleton s" using t(2) by (simp add: looked_def)
  have "\<forall>i \<in> set indices. i < get_back_forward_list_item_count t" using Cons.prems(2) skeleton_view(1) [OF sk] by simp
  then obtain cs s' where cs: "copy_items_for_cache env indices t = Some (cs, s')" "looked env t s'" "length cs = length indices"
    "\<forall>k < length indices. \<exists>i. deref s' (cache_ref_at t (indices ! k)) = Some i \<and> copy_for_cache env i = Some (cs ! k)"
    using Cons.IH [of t] Cons.prems(1) looked_view_ok [OF t(2)] by blast
  obtain c where c: "copy_for_cache env i = Some c" using copy_for_cache_total by blast
  have "item_of s' r = Some i" using looked_item [OF cs(2) t(4,3)] .
  then have "\<exists>i. deref s' (cache_ref_at s ((m # indices) ! k)) = Some i \<and> copy_for_cache env i = Some ((c # cs) ! k)"
    if "k < length (m # indices)" for k
    using that c r cs(4) looked_refs(1) [OF t(2)] by (cases k) (auto simp: deref_def)
  moreover have "copy_items_for_cache env (m # indices) s = Some (c # cs, s')"
    using t(1,3) c cs(1) by (simp add: deref_def)
  ultimately show ?case using looked_trans [OF t(2) cs(2)] cs(3) by auto
qed simp

section \<open>Views of the same list\<close>

lemma strip_view_change_held: "strip_view (update_wk_item pos (\<lambda>x. x\<lparr>wk_held_item := g x\<rparr>) w) = strip_view w"
proof -
  have "map strip_wk_item (xs[n := (xs ! n)\<lparr>wk_held_item := i\<rparr>]) = map strip_wk_item xs" for xs n i
    by (rule strip_list_update)
  moreover have "map_option (strip_wk_item \<circ> (\<lambda>x. x\<lparr>wk_held_item := g x\<rparr>)) o1 = map_option strip_wk_item o1" for o1
    by (cases o1) (simp_all add: strip_wk_item_def)
  ultimately show ?thesis by (cases pos) (simp_all add: strip_view_def update_wk_item_def option.map_comp)
qed

lemma skeleton_update_wk: "skeleton (update_item (WkRef pos) f s) = skeleton s"
  by (cases "nav_web_view s") (simp_all add: update_item_def skeleton_def strip_view_change_held)

lemma same_web_view:
  assumes "attached_to_web_view d" and "attached_to_web_view t" and "nav_web_view d = nav_web_view t"
  shows "get_back_forward_list_item_count d = get_back_forward_list_item_count t"
    "get_wk_item_at_index m d = get_wk_item_at_index m t" "cache_ref_at d m = cache_ref_at t m"
proof -
  show c: "get_back_forward_list_item_count d = get_back_forward_list_item_count t"
    using assms by (simp add: get_back_forward_list_item_count_def)
  have "get_current_item_index d = get_current_item_index t" using assms by (simp add: get_current_item_index_def)
  then show "get_wk_item_at_index m d = get_wk_item_at_index m t" "cache_ref_at d m = cache_ref_at t m"
    using assms c by (simp_all add: get_wk_item_at_index_def cache_ref_at_def split: option.split)
qed

lemma item_of_calls: "item_of (s\<lparr>delegate_calls := c\<rparr>) r = item_of s r"
  by simp

end
