(* ===== verification/NavProps.thy ===== *)
theory NavProps
  imports NavRestore
begin

text \<open>
  What the navigation manager promises, with a concrete environment on which the witnesses run:
  the user agents of items, which item is shown, who can open internal pages, commits, going to an
  offset, detaching and rebuilding a session, storing it; and where the checks of the code fail.
\<close>

section \<open>A concrete environment\<close>

definition scheme_url_env :: url_env where
  "scheme_url_env = plain_url_env\<lparr>nav_scheme := takeWhile (\<lambda>c. c \<noteq> CHR '':'' \<and> c \<noteq> CHR ''#''),
     is_app_specific_url := (\<lambda>u. has_prefix u ''chrome'')\<rparr>"

definition plain_nav_env :: nav_env where
  "plain_nav_env = \<lparr>nav_urls = scheme_url_env, nav_origin = (\<lambda>u. u), equals_ignoring_ref = (=), url_content = drop 12,
   client_url_rewriters = [], should_block_url = (\<lambda>u. False), use_wk_web_view_loading = False,
   use_default_user_agent_in_web_client = False, running_on_ios13_or_later = True,
   page_transition_link = 0, page_transition_reload = 8, page_transition_forward_back = 0x01000000,
   page_transition_client_redirect = 0x40000000, page_transition_core_mask = 0xFF,
   page_transition_is_redirect_mask = 0xC0000000, format_url = (\<lambda>u. u), elide_string = (\<lambda>s n. take n s),
   clone_user_data = (\<lambda>x. x)\<rparr>"

lemma scheme_laws: "url_laws scheme_url_env"
proof -
  have "takeWhile (\<lambda>c. c \<noteq> CHR '':'' \<and> c \<noteq> CHR ''#'') (before_hash u @ CHR ''#'' # r)
      = takeWhile (\<lambda>c. c \<noteq> CHR '':'' \<and> c \<noteq> CHR ''#'') u" for u r
    by (induction u) auto
  then show ?thesis
    by (simp add: scheme_url_env_def url_laws_def plain_url_env_def hash_laws get_restore_session_base_url_def)
qed

lemma scheme_of_prefix: "has_prefix u (c # p) \<Longrightarrow> c \<noteq> CHR '':'' \<Longrightarrow> c \<noteq> CHR ''#'' \<Longrightarrow>
    takeWhile (\<lambda>c. c \<noteq> CHR '':'' \<and> c \<noteq> CHR ''#'') u = c # takeWhile (\<lambda>c. c \<noteq> CHR '':'' \<and> c \<noteq> CHR ''#'') (tl u)"
  by (cases u) auto

lemma plain_nav_laws: "nav_laws plain_nav_env"
proof -
  have "session_laws scheme_url_env" using plain_session_laws
    by (simp add: scheme_url_env_def session_laws_def session_is_text_def restore_ref_def
        get_restore_session_base_url_def cong: imp_cong)
  moreover have "nav_scheme scheme_url_env u = ''about''" if "nav_is_about_blank scheme_url_env u" for u
  proof -
    have "has_prefix u ''about:blank''" using that by (simp add: scheme_url_env_def plain_url_env_def kAboutBlankURL_def)
    then obtain r where "u = ''about:blank'' @ r" unfolding has_prefix_def by (metis append_take_drop_id)
    then show ?thesis by (simp add: scheme_url_env_def)
  qed
  moreover have "nav_scheme scheme_url_env u \<noteq> ''file''" if "is_app_specific_url scheme_url_env u" for u
    using that scheme_of_prefix [of u "CHR ''c''" "''hrome''"] by (auto simp: scheme_url_env_def)
  ultimately show ?thesis
    using scheme_laws by (auto simp: nav_laws_def plain_nav_env_def)
      (auto simp: scheme_url_env_def plain_url_env_def)
qed

definition plain_entry :: "string \<Rightarrow> wk_item" where
  "plain_entry u = \<lparr>wk_url = u, wk_title = ''T'', wk_held_item = None\<rparr>"

definition plain_web_view :: web_view where
  "plain_web_view = \<lparr>wv_url = ''http:1'', wv_back_list = [plain_entry ''http:0''],
     wv_current_item = Some (plain_entry ''http:1''), wv_forward_list = [plain_entry ''http:2'']\<rparr>"

definition plain_loads :: "nav_event list" where
  "plain_loads = [WebViewBecomes plain_web_view, LoadURL (new_web_load_params plain_nav_env ''http:3'')]"

definition three_entries :: nav_manager where
  "three_entries = new_nav_manager\<lparr>nav_web_view := Some plain_web_view\<rparr>"

lemma three_entries_ok: "view_ok three_entries" "committed_known three_entries"
  by (simp_all add: view_ok_def web_view_ok_def three_entries_def new_nav_manager_def plain_web_view_def wk_count_def
      committed_known_def get_last_committed_item_index_in_session_def get_current_item_index_def)

lemma plain_loads_run:
  "case run (nav_step plain_nav_env) new_nav_manager plain_loads of
     None \<Rightarrow> False
   | Some s \<Rightarrow> \<not> is_restore_session_in_progress s \<and> restored_visible_item s = None \<and> transient_item s = None
       \<and> (case item_of s PendingRef of Some i \<Rightarrow> ni_url i = ''http:3'' | None \<Rightarrow> False)
       \<and> (case get_visible_item plain_nav_env s of Some (Some r, s') \<Rightarrow> r = PendingRef | _ \<Rightarrow> False)"
  by code_simp

section \<open>Items\<close>

lemma run_legal: "run step s cs = Some t \<Longrightarrow> legal step (\<lambda>_ _. True) s cs t"
  by (induction cs arbitrary: s) (auto simp: legal_Cons_iff split: option.splits)

lemma new_nav_manager_ok: "nav_ok env new_nav_manager"
  by (auto simp: nav_ok_def item_of_def new_nav_manager_def split: item_ref.splits)

text \<open>
  C8. After any sequence of events every item of the manager has a user agent type exactly when
  its URL needs one, and then one to hand on; but for the item shown in place of a session that is
  being restored (\<open>restored_visible_item_\<close>), which comes from outside and may have any type.
\<close>

theorem navigation_items_well_typed:
  assumes "run (nav_step env) new_nav_manager events = Some s"
    and "item_of s r = Some item" and "r \<noteq> RestoredRef"
  shows "\<exists>needed. url_needs_user_agent_type (nav_urls env) (ni_url item) = Some needed
    \<and> (ni_user_agent_type item \<noteq> UA_NONE \<longleftrightarrow> needed)
    \<and> (needed \<longrightarrow> user_agent_type_inheritance item \<noteq> UA_NONE)"
proof -
  have "nav_ok env s" using nav.legal_inv [OF run_legal [OF assms(1)] new_nav_manager_ok] .
  then have "item_ok env item" using assms(2,3) by (rule nav_okD)
  then show ?thesis by (simp add: item_ok_def)
qed

theorem navigation_items_well_typed_witness:
  "\<exists>s item. run (nav_step plain_nav_env) new_nav_manager plain_loads = Some s
     \<and> item_of s PendingRef = Some item \<and> ni_url item = ''http:3'' \<and> ni_user_agent_type item \<noteq> UA_NONE"
proof -
  obtain s item where s: "run (nav_step plain_nav_env) new_nav_manager plain_loads = Some s"
    "item_of s PendingRef = Some item" "ni_url item = ''http:3''"
    using plain_loads_run by (auto split: option.splits)
  moreover have "url_needs_user_agent_type (nav_urls plain_nav_env) ''http:3'' = Some True" by code_simp
  ultimately show ?thesis using navigation_items_well_typed [OF s(1,2)] by auto
qed

text \<open>
  C10. A navigation of the page, or a reload, gets a pending item with an internal URL only if that
  URL was asked for or the committed page is internal itself, whatever the rewriters do.
\<close>

theorem created_items_not_elevated:
  assumes "add_pending_item env url referrer transition initiation option s = Some s'"
    and "initiation = RENDERER_INITIATED \<or> page_transition_core_type_is env transition (page_transition_reload env)"
    and "get_last_committed_item_in_session env (discard_non_committed_items s) = Some (committed, t)"
    and "pending_item s' = Some item" and "app_specific env (ni_url item)"
  shows "ni_url item = url
    \<or> app_specific env (case deref t committed of Some i \<Rightarrow> ni_url i | None \<Rightarrow> [])"
  using assms(1)
proof (rule add_pendingE)
  fix committed' t' new u with_agent v i
  assume t: "get_last_committed_item_in_session env (discard_non_committed_items s) = Some (committed', t')"
    and u: "create_navigation_item_with_rewriters env url referrer transition initiation
        (case deref t' committed' of Some i \<Rightarrow> ni_url i | None \<Rightarrow> []) (Some (transient_url_rewriters t')) t' = Some (new, u)"
    and i: "update_pending_item_user_agent_type env option (deref v with_agent) new = Some i"
    and s': "(let i = (if next_pending_url_should_skip_serialization v \<noteq> []
                    \<and> url = next_pending_url_should_skip_serialization v
                 then i\<lparr>should_skip_serialization := True\<rparr> else i);
               w = v\<lparr>pending_item := Some i, next_pending_url_should_skip_serialization := []\<rparr>
           in if \<not> attached_to_web_view w then Some w else reuse_current_item env transition initiation w) = Some s'"
  have "ni_url i = ni_url new"
    using i by (auto simp: update_pending_item_user_agent_type_def set_user_agent_type_eq option_dest
        split: if_splits user_agent_override_option.splits option.splits)
  moreover have "ni_url item = ni_url i"
    using s' assms(4) by (auto simp: Let_def reuse_current_item_def option_dest set_navigation_item_in_wk_item_def
        split: if_splits)
  ultimately have "ni_url item = loaded_url env url transition initiation
      (case deref t committed of Some i \<Rightarrow> ni_url i | None \<Rightarrow> []) (Some (transient_url_rewriters t))"
    using create_keeps(2) [OF u] t assms(3) by simp
  then show ?thesis using assms(2,5) by (auto simp: loaded_url_def Let_def split: if_splits)
qed

definition elevating_manager :: nav_manager where
  "elevating_manager = new_nav_manager\<lparr>transient_url_rewriters := [\<lambda>u. (True, ''chrome:x'')],
     nav_web_view := Some \<lparr>wv_url = ''chrome:0'', wv_back_list = [],
        wv_current_item = Some (plain_entry ''chrome:0''), wv_forward_list = []\<rparr>\<rparr>"

theorem created_items_not_elevated_witness:
  "\<exists>s' item t i committed. add_pending_item plain_nav_env ''http:1'' new_referrer 0 RENDERER_INITIATED UA_INHERIT elevating_manager = Some s'
     \<and> pending_item s' = Some item \<and> ni_url item = ''chrome:x''
     \<and> get_last_committed_item_in_session plain_nav_env (discard_non_committed_items elevating_manager) = Some (committed, t)
     \<and> deref t committed = Some i \<and> app_specific plain_nav_env (ni_url i)"
proof -
  have c: "case add_pending_item plain_nav_env ''http:1'' new_referrer 0 RENDERER_INITIATED UA_INHERIT elevating_manager of
       None \<Rightarrow> False | Some s' \<Rightarrow> (case pending_item s' of None \<Rightarrow> False | Some i \<Rightarrow> ni_url i = ''chrome:x'')"
    "app_specific plain_nav_env ''chrome:x''" "\<not> app_specific plain_nav_env []"
    "get_last_committed_item_in_session plain_nav_env (discard_non_committed_items elevating_manager) \<noteq> None"
    by code_simp+
  obtain s' item where s': "add_pending_item plain_nav_env ''http:1'' new_referrer 0 RENDERER_INITIATED UA_INHERIT
      elevating_manager = Some s'" "pending_item s' = Some item" "ni_url item = ''chrome:x''"
    using c(1) by (auto split: option.splits)
  obtain committed t where t: "get_last_committed_item_in_session plain_nav_env (discard_non_committed_items elevating_manager)
      = Some (committed, t)" using c(4) by auto
  have "app_specific plain_nav_env (case deref t committed of Some i \<Rightarrow> ni_url i | None \<Rightarrow> [])"
    using created_items_not_elevated [OF s'(1) _ t s'(2)] s'(3) c(2) by auto
  then show ?thesis using s' t c(3) by (cases "deref t committed") auto
qed

section \<open>The visible item\<close>

lemma last_committed_cases:
  assumes "get_last_committed_item_in_session env s = Some (Some r, s')"
  shows "r = EmptyWindowRef
    \<or> r = WebViewItemRef \<and> (\<exists>i. item_of s' r = Some i \<and> ni_url i = document_url s)
    \<or> Some r = item_ref_at s (to_size_t (get_last_committed_item_index_in_session s))
       \<and> (\<exists>i. item_of s' r = Some i \<and> (has_nav_web_state s \<longrightarrow> can_trust_last_committed_item env i s))"
proof (cases "empty_window_open_item s = None")
  case True
  let ?k = "to_size_t (get_last_committed_item_index_in_session s)"
  obtain t where t: "get_navigation_item_impl_at_index env ?k s = Some (item_ref_at s ?k, t)" "looked env s t"
    "good_ref t (item_ref_at s ?k)" using get_item [of env ?k s] by (auto simp: good_ref_def)
  have sk: "skeleton t = skeleton s" using t(2) by (simp add: looked_def)
  have same: "can_trust_last_committed_item env i t = can_trust_last_committed_item env i s" for i
    using skeleton_view(3) [OF sk] skeleton_eqD(7,11) [OF sk] by (simp add: can_trust_last_committed_item_def)
  have index: "get_last_committed_item_index_in_session s \<noteq> -1"
    using assms True by (auto simp: get_last_committed_item_in_session_def Let_def option_dest split: if_splits)
  obtain u i where u: "get_last_committed_web_view_item env t = Some (Some WebViewItemRef, u)"
    "last_committed_web_view_item u = Some i" "ni_url i = document_url t" using web_view_item by blast
  show ?thesis
  proof (cases "deref t (item_ref_at s ?k)")
    case None
    then show ?thesis using assms True index t good_ref_deref [OF t(3)]
      by (auto simp: get_last_committed_item_in_session_def Let_def)
  next
    case (Some item)
    then show ?thesis using assms True index t u same skeleton_eqD(17,18) [OF sk]
      by (auto simp: get_last_committed_item_in_session_def Let_def deref_def split: if_splits)
  qed
qed (use assms in \<open>auto simp: get_last_committed_item_in_session_def\<close>)

lemma looked_same_trust:
  assumes "looked env s t"
  shows "can_trust_last_committed_item env i t = can_trust_last_committed_item env i s"
  using skeleton_view(3) [of t s] skeleton_eqD(7,11) [of t s] assms
  by (simp add: can_trust_last_committed_item_def looked_def)

definition shown_committed :: "nav_env \<Rightarrow> nav_manager \<Rightarrow> item_ref \<Rightarrow> nav_manager \<Rightarrow> bool" where
  "shown_committed env s r s' \<longleftrightarrow> r = EmptyWindowRef
    \<or> r = WebViewItemRef \<and> (\<exists>i. item_of s' r = Some i \<and> ni_url i = document_url s)
    \<or> Some r = item_ref_at s (to_size_t (get_last_committed_item_index_in_session s))
       \<and> (\<exists>i. item_of s' r = Some i \<and> (has_nav_web_state s \<longrightarrow> can_trust_last_committed_item env i s))"

lemma looked_shown:
  assumes "looked env s t" and "get_last_committed_item_in_session env t = Some (Some r, s')"
  shows "shown_committed env s r s'"
proof -
  have sk: "skeleton t = skeleton s" using assms(1) by (simp add: looked_def)
  show ?thesis
    using last_committed_cases [OF assms(2)]
    by (simp add: shown_committed_def skeleton_eqD(17,18) [OF sk] skeleton_view(6) [OF sk]
        looked_refs(2) [OF assms(1)] looked_same_trust [OF assms(1)])
qed

lemma last_committed_result:
  assumes "get_last_committed_item env s = Some (p, u)"
  shows "p = None \<and> looked env s u \<or> get_last_committed_item_in_session env s = Some (p, u)"
  using assms get_last_committedD [OF assms]
  by (auto simp: get_last_committed_item_def option_dest split: if_splits option.splits prod.splits)

lemma shown_outside_restoration:
  assumes "get_visible_item env s = Some (Some r, s')"
    and "\<not> is_restore_session_in_progress s" and "restored_visible_item s = None" and "transient_item s = None"
  shows "(r = PendingRef \<or> r = ContextRef) \<and> pending_item_index s = -1
      \<and> (\<exists>i. item_of s r = Some i \<and> initiation_type i = BROWSER_INITIATED)
    \<or> shown_committed env s r s'"
proof -
  obtain q t where t: "get_pending_item_in_session env s = Some (q, t)" "looked env s t" "good_ref t q"
    using pending_in_session by blast
  have index: "pending_item_index t = pending_item_index s"
    using t(2) skeleton_eqD(2) [of t s] by (simp add: looked_def)
  have "q = Some r \<and> pending_item_index s = -1 \<and> (\<exists>i. deref t q = Some i \<and> initiation_type i = BROWSER_INITIATED)
      \<or> (\<exists>c u. get_last_committed_item env t = Some (c, u) \<and> (c = Some r \<and> s' = u
            \<or> c = None \<and> get_last_committed_item_in_session env u = Some (Some r, s')))"
    using assms t(1) index
    by (auto simp: get_visible_item_def option_dest Let_def split: option.splits if_splits prod.splits)
  then show ?thesis
  proof (elim disjE exE conjE)
    fix i
    assume p: "q = Some r" "pending_item_index s = -1" "deref t q = Some i" "initiation_type i = BROWSER_INITIATED"
    then have "t = s" "r = PendingRef \<or> r = ContextRef"
      using t(1) by (auto simp: get_pending_item_in_session_def split: if_splits)
    then show ?thesis using p by (auto simp: deref_def)
  next
    fix c u
    assume c: "get_last_committed_item env t = Some (c, u)" "c = Some r" "s' = u"
    then have "shown_committed env s r s'" using last_committed_result [OF c(1)] looked_shown [OF t(2)] by auto
    then show ?thesis by simp
  next
    fix c u
    assume c: "get_last_committed_item env t = Some (c, u)" "c = None"
      "get_last_committed_item_in_session env u = Some (Some r, s')"
    have "looked env s u" using looked_trans [OF t(2) get_last_committedD(1) [OF c(1)]] .
    then have "shown_committed env s r s'" using c(3) by (rule looked_shown)
    then show ?thesis by simp
  qed
qed

text \<open>
  C7. The item shown is, while a session is restored or an item is kept to be shown instead,
  that item; else the transient item, when there is one; and else a new navigation of the
  browser, the page that opened the window, the document itself, or the committed entry when
  the web view can be trusted to show it. So a pending navigation of the page is never shown.
\<close>

theorem visible_item_is_safe:
  assumes "get_visible_item env s = Some (Some r, s')"
  shows "if is_restore_session_in_progress s \<or> restored_visible_item s \<noteq> None
    then r = RestoredRef \<and> restored_visible_item s \<noteq> None
    else if transient_item s \<noteq> None then r = TransientRef
    else (r = PendingRef \<or> r = ContextRef) \<and> pending_item_index s = -1
        \<and> (\<exists>i. item_of s r = Some i \<and> initiation_type i = BROWSER_INITIATED)
      \<or> r = EmptyWindowRef
      \<or> r = WebViewItemRef \<and> (\<exists>i. item_of s' r = Some i \<and> ni_url i = document_url s)
      \<or> Some r = item_ref_at s (to_size_t (get_last_committed_item_index_in_session s))
        \<and> (\<exists>i. item_of s' r = Some i \<and> (has_nav_web_state s \<longrightarrow> can_trust_last_committed_item env i s))"
proof (cases "is_restore_session_in_progress s \<or> restored_visible_item s \<noteq> None \<or> transient_item s \<noteq> None")
  case True
  with assms show ?thesis by (auto simp: get_visible_item_def split: if_splits)
next
  case False
  then have none: "\<not> is_restore_session_in_progress s" "restored_visible_item s = None" "transient_item s = None"
    by simp_all
  have "(r = PendingRef \<or> r = ContextRef) \<and> pending_item_index s = -1
      \<and> (\<exists>i. item_of s r = Some i \<and> initiation_type i = BROWSER_INITIATED) \<or> shown_committed env s r s'"
    using shown_outside_restoration [OF assms none] .
  with none show ?thesis by (simp add: shown_committed_def)
qed

theorem visible_item_is_safe_witness:
  "\<exists>s s' item. run (nav_step plain_nav_env) new_nav_manager plain_loads = Some s
     \<and> get_visible_item plain_nav_env s = Some (Some PendingRef, s')
     \<and> item_of s PendingRef = Some item \<and> initiation_type item = BROWSER_INITIATED"
proof -
  obtain s s' item where s: "run (nav_step plain_nav_env) new_nav_manager plain_loads = Some s"
    "item_of s PendingRef = Some item" "get_visible_item plain_nav_env s = Some (Some PendingRef, s')"
    "\<not> is_restore_session_in_progress s" "restored_visible_item s = None" "transient_item s = None"
    using plain_loads_run by (auto split: option.splits)
  have "item_ref_at s n \<noteq> Some PendingRef" for n
    by (auto simp: item_ref_at_def cache_ref_at_def split: option.splits)
  then have "Some PendingRef \<noteq> item_ref_at s n" for n by (rule not_sym)
  with visible_item_is_safe [OF s(3)] s show ?thesis by (auto split: if_splits)
qed

section \<open>Commits and going to an offset\<close>

text \<open>
  C12. A commit gives the pending item to the current entry of the web view, with a time stamp and
  without its initiation, updates the indices, reports the commit once, and leaves the other
  items alone.
\<close>

theorem commit_moves_pending_item:
  assumes "attached_to_web_view s" and "pending_item_index s = -1" and "pending_item s = Some item"
    and "nav_web_view s = Some w" and "wv_current_item w \<noteq> None"
    and "length (wv_back_list w) < 2 ^ 31"
  shows "\<exists>s' n. commit_pending_item env s = Some s'
    \<and> item_of s' (WkRef CurrentItem) = Some (item\<lparr>initiation_type := INITIATION_NONE, timestamp := n\<rparr>)
    \<and> pending_item s' = None \<and> pending_item_index s' = -1 \<and> empty_window_open_item s' = None
    \<and> last_committed_item_index s' = int (length (wv_back_list w))
    \<and> previous_item_index s' = (if empty_window_open_item s = None then last_committed_item_index s else previous_item_index s)
    \<and> (\<exists>url. delegate_calls s' = ItemCommitted url # delegate_calls s)
    \<and> (\<forall>r i. r \<notin> {WkRef CurrentItem, PendingRef, EmptyWindowRef, WebViewItemRef, RestoredRef}
          \<longrightarrow> item_of s r = Some i \<longrightarrow> item_of s' r = Some i)"
proof -
  obtain now m where now: "smoothed_now s = (now, s\<lparr>nav_time_smoother := m\<rparr>)" using smoothed_now_eq by blast
  let ?i = "item\<lparr>initiation_type := INITIATION_NONE, timestamp := now\<rparr>"
  let ?w = "update_wk_item CurrentItem (\<lambda>x. x\<lparr>wk_held_item := Some ?i\<rparr>) w"
  obtain e where e: "wv_current_item w = Some e" using assms(5) by blast
  have cur: "wk_item_at w CurrentItem \<noteq> None" using assms(5) by (simp add: wk_item_at_def)
  define t where "t = s\<lparr>nav_time_smoother := m, empty_window_open_item := None, nav_web_view := Some ?w,
      pending_item_index := -1, pending_item := None\<rparr>"
  define v where "v = record_commit (empty_window_open_item s \<noteq> None) t"
  have v: "attached_to_web_view v" "nav_web_view v = Some ?w" "pending_item_index v = -1" "empty_window_open_item v = None"
    "pending_item v = None" "last_committed_item_index v = int (length (wv_back_list w))"
    "delegate_calls v = delegate_calls s" "previous_item_index v = (if empty_window_open_item s = None then last_committed_item_index s else previous_item_index s)"
    using assms(1,5) by (auto simp: v_def t_def record_commit_def get_current_item_index_def Let_def update_wk_item_def)
  have items: "item_of v (WkRef CurrentItem) = Some ?i"
    "r \<notin> {WkRef CurrentItem, PendingRef, EmptyWindowRef} \<Longrightarrow> item_of v r = item_of s r" for r
    using cur assms(4) by (auto simp: v_def t_def record_commit_def Let_def item_of_def wk_item_at_update split: item_ref.splits)
  have commit: "commit_pending_item env s = on_navigation_item_committed env v"
    using assms(1-4) e cur now
    by (simp add: commit_pending_item_def set_navigation_item_in_wk_item_def Let_def reset_for_commit_def v_def t_def)
  have index: "get_last_committed_item_index_in_session v = int (length (wv_back_list w))"
    using v e by (simp add: get_last_committed_item_index_in_session_def get_current_item_index_def update_wk_item_def)
  then have known: "committed_known v" by (simp add: committed_known_def)
  obtain p u where u: "get_last_committed_item_in_session env v = Some (p, u)" "looked env v u" "good_ref u p"
    using last_committed [OF known] by blast
  have "item_of u (WkRef CurrentItem) = Some ?i" using looked_item [OF u(2)] items(1) by simp
  have "p \<noteq> None"
  proof
    assume p: "p = None"
    let ?k = "to_size_t (get_last_committed_item_index_in_session v)"
    obtain x where x: "get_navigation_item_impl_at_index env ?k v = Some (item_ref_at v ?k, x)" "good_ref x (item_ref_at v ?k)"
      using get_item [of env ?k v] by (auto simp: good_ref_def)
    have "?k = length (wv_back_list w)" using assms(6) by (simp add: index to_size_t_id)
    then have "item_ref_at v ?k \<noteq> None"
      using v e by (simp add: item_ref_at_def cache_ref_at_def get_back_forward_list_item_count_def
          get_current_item_index_def wk_count_def update_wk_item_def item_at_offset_def)
    then obtain j where "deref x (item_ref_at v ?k) = Some j" using x(2) good_ref_deref by blast
    then show False using u(1) x(1) p v(4) index \<open>item_ref_at v ?k \<noteq> None\<close> web_view_item [of env x]
      by (auto simp: get_last_committed_item_in_session_def Let_def split: if_splits)
  qed
  then obtain j where j: "deref u p = Some j" using good_ref_deref [OF u(3)] by blast
  have su: "skeleton u = skeleton v" using u(2) by (simp add: looked_def)
  define s' where "s' = (if restore_url env (ni_url j) then call_delegate (ItemCommitted (ni_url j)) u
      else (call_delegate (ItemCommitted (ni_url j)) u)\<lparr>restored_visible_item := None\<rparr>)"
  have "commit_pending_item env s = Some s'"
    using commit u(1) j by (simp add: on_navigation_item_committed_def Let_def s'_def)
  moreover have "item_of s' r = item_of u r" if "r \<noteq> RestoredRef" for r
    using that by (auto simp: s'_def call_delegate_def)
  moreover have "pending_item s' = None" "pending_item_index s' = -1" "empty_window_open_item s' = None"
    "last_committed_item_index s' = int (length (wv_back_list w))"
    "previous_item_index s' = (if empty_window_open_item s = None then last_committed_item_index s else previous_item_index s)"
    "delegate_calls s' = ItemCommitted (ni_url j) # delegate_calls s"
    using skeleton_eqD(1,2,3,4,5,21) [OF su] v by (auto simp: s'_def call_delegate_def)
  moreover have "item_of u r = Some i" if "r \<notin> {WkRef CurrentItem, PendingRef, EmptyWindowRef, WebViewItemRef, RestoredRef}"
    "item_of s r = Some i" for r i
    using looked_item [OF u(2)] items(2) that by auto
  ultimately show ?thesis using \<open>item_of u (WkRef CurrentItem) = Some ?i\<close> by auto
qed

definition pending_commit :: nav_manager where
  "pending_commit = three_entries\<lparr>pending_item := Some ((new_navigation_item plain_nav_env 7)\<lparr>ni_url := ''http:1'',
     initiation_type := BROWSER_INITIATED\<rparr>)\<rparr>"

theorem commit_moves_pending_item_witness:
  "\<exists>s' i. commit_pending_item plain_nav_env pending_commit = Some s' \<and> item_of s' (WkRef CurrentItem) = Some i
     \<and> unique_id i = 7 \<and> last_committed_item_index s' = 1"
  using commit_moves_pending_item [of pending_commit _ plain_web_view plain_nav_env]
  by (auto simp: pending_commit_def three_entries_def new_nav_manager_def plain_web_view_def new_navigation_item_def Let_def)

text \<open>
  C11. In an attached manager whose web view has a consistent list, whose last committed item is
  known and that has no item of an opened window: when it is possible to go to an offset, going
  there discards what is not committed, marks the item of that index as a back or forward
  navigation and asks the web view to go to its entry; unless the last committed item is a page of
  a restoration, when nothing happens.
\<close>

theorem go_to_offset_succeeds:
  assumes "can_go_to_offset n s" and "view_ok s" and "attached_to_web_view s" and "empty_window_open_item s = None"
    and "committed_known s"
  shows "\<exists>s' pos. go_to_index env (get_index_for_offset n s) s = Some s'
    \<and> (get_wk_item_at_index (nat (get_index_for_offset n s)) s = Some (Some pos)
       \<and> delegate_calls s' = GoToBackForwardListItem pos BROWSER_INITIATED True # ClearDialogs # ClearTransientContent
            # (if transient_item s = None then [RecordPageState] else []) @ delegate_calls s
       \<and> pending_item s' = None \<and> transient_item s' = None \<and> pending_item_index s' = -1
       \<and> (\<exists>i. item_of s' (WkRef pos) = Some i
            \<and> transition_type i AND page_transition_forward_back env = page_transition_forward_back env)
     \<or> (\<exists>p t i. get_last_committed_item_in_session env s = Some (p, t) \<and> deref t p = Some i
          \<and> restore_url env (ni_url i) \<and> s' = t))"
proof -
  define k where "k = get_index_for_offset n s"
  have k: "\<not> is_restore_session_in_progress s" "0 \<le> k" "k < get_item_count s"
    using assms(1,4) by (auto simp: can_go_to_offset_def k_def Let_def split: if_splits)
  then have small: "k < 2 ^ 64" and nk: "nat k < get_back_forward_list_item_count s"
    using count_bound [OF assms(2)] assms(4) by (auto simp: get_item_count_def)
  obtain p t where t: "get_last_committed_item_in_session env s = Some (p, t)" "looked env s t" "good_ref t p"
    using last_committed [OF assms(5)] by blast
  have sk: "skeleton t = skeleton s" using t(2) by (simp add: looked_def)
  show ?thesis
  proof (cases "\<exists>i. deref t p = Some i \<and> restore_url env (ni_url i)")
    case True
    then show ?thesis using t(1) by (auto simp: go_to_index_def)
  next
    case False
    let ?a = "if transient_item t = None then call_delegate RecordPageState t else t"
    let ?b = "call_delegate ClearDialogs (call_delegate ClearTransientContent ?a)"
    let ?d = "discard_non_committed_items ?b"
    have go: "go_to_index env k s = finish_go_to_index env k BROWSER_INITIATED True ?b"
      using False t(1) k(2,3) skeleton_view(5) [OF sk]
      by (cases "deref t p") (auto simp: go_to_index_def go_to_index_with_def Let_def)
    have d: "attached_to_web_view ?d" "empty_window_open_item ?d = None" "nav_web_view ?d = nav_web_view t"
      "pending_item ?d = None" "transient_item ?d = None" "pending_item_index ?d = -1"
      using skeleton_eqD(5,7) [OF sk] assms(3,4)
      by (simp_all add: discard_non_committed_items_def call_delegate_def)
    have calls: "delegate_calls ?d = ClearDialogs # ClearTransientContent
        # (if transient_item s = None then [RecordPageState] else []) @ delegate_calls s"
      using skeleton_eqD(6,21) [OF sk] by (simp add: discard_non_committed_items_def call_delegate_def)
    have same: "get_back_forward_list_item_count ?d = get_back_forward_list_item_count s"
      "get_wk_item_at_index m ?d = get_wk_item_at_index m s" "cache_ref_at ?d m = cache_ref_at t m" for m
      using same_web_view [OF d(1) _ d(3)] skeleton_view(1,4) [OF sk] skeleton_eqD(7) [OF sk] assms(3) by simp_all
    have "cache_ref_at t (nat k) \<noteq> None"
      using cache_ref_in_range [of t "nat k"] looked_view_ok [OF t(2)] assms(2) nk skeleton_view(1) [OF sk] by simp
    then obtain r where r: "cache_ref_at ?d (nat k) = Some r" using same(3) by auto
    obtain w pos where pos: "nav_web_view ?d = Some w" "r = WkRef pos" "get_wk_item_at_index (nat k) ?d = Some (Some pos)"
      using r d(1) by (auto simp: cache_ref_at_def get_wk_item_at_index_def split: if_splits option.splits)
    obtain u i where u: "get_navigation_item_impl_at_index env (nat k) ?d = Some (Some (WkRef pos), u)" "looked env ?d u"
      "item_of u (WkRef pos) = Some i"
      using get_item [of env "nat k" ?d] r d(2) pos(2) by (auto simp: item_ref_at_def)
    have su: "skeleton u = skeleton ?d" using u(2) by (simp add: looked_def)
    let ?v = "update_item (WkRef pos) (\<lambda>i. i\<lparr>transition_type := transition_type i OR page_transition_forward_back env\<rparr>) u"
    have sv: "skeleton ?v = skeleton ?d" using su by (simp add: skeleton_update_wk)
    let ?s' = "call_delegate (GoToBackForwardListItem pos BROWSER_INITIATED True) ?v"
    have size: "to_size_t k = nat k" using to_size_t_id k(2) small by simp
    have att: "attached_to_web_view ?b" using d(1) by (simp add: discard_non_committed_items_def)
    have "finish_go_to_index env k BROWSER_INITIATED True ?b = Some ?s'"
      using att u(1) pos(3) skeleton_view(4) [OF sv] by (simp add: finish_go_to_index_def size Let_def)
    moreover have "item_of ?s' (WkRef pos) = Some (i\<lparr>transition_type := transition_type i OR page_transition_forward_back env\<rparr>)"
      using u(3) by (simp add: call_delegate_def item_of_update_item item_of_calls)
    moreover have "(x OR y) AND y = y" for x y :: "32 word"
      by (simp add: bit_eq_iff bit_and_iff bit_or_iff)
    ultimately show ?thesis
      using go d calls pos(3) same(2) skeleton_eqD(1,2,6,21) [OF sv] by (simp add: call_delegate_def k_def)
  qed
qed

theorem go_to_offset_succeeds_witness:
  "\<exists>s'. go_to_index plain_nav_env 2 three_entries = Some s'
     \<and> hd (delegate_calls s') = GoToBackForwardListItem (ForwardItem 0) BROWSER_INITIATED True"
proof -
  have "get_index_for_offset 1 three_entries = 2" "can_go_to_offset 1 three_entries"
    "get_wk_item_at_index 2 three_entries = Some (Some (ForwardItem 0))"
    "case get_last_committed_item_in_session plain_nav_env three_entries of
       Some (p, t) \<Rightarrow> (case deref t p of Some i \<Rightarrow> \<not> restore_url plain_nav_env (ni_url i) | None \<Rightarrow> False) | None \<Rightarrow> False"
    by code_simp+
  with go_to_offset_succeeds [of 1 three_entries plain_nav_env] three_entries_ok show ?thesis
    by (auto simp: three_entries_def new_nav_manager_def split: option.splits)
qed

section \<open>Detaching and rebuilding\<close>

text \<open>
  C13. Detaching keeps the list: its length, the current index, and for each entry a copy of its
  item, without the URL of a redirect.
\<close>

theorem detach_keeps_history:
  assumes "view_ok s" and "attached_to_web_view s"
  shows "\<exists>s' t. detach_from_web_view env s = Some s' \<and> looked env s t
    \<and> get_back_forward_list_item_count s' = get_back_forward_list_item_count s
    \<and> get_current_item_index s' = get_current_item_index s
    \<and> get_item_count s' = get_item_count s
    \<and> (\<forall>k < get_back_forward_list_item_count s. \<exists>i. deref t (cache_ref_at s k) = Some i
         \<and> copy_for_cache env i = item_of s' (CachedRef k))"
proof -
  let ?n = "get_back_forward_list_item_count s"
  obtain copies t where c: "copy_items_for_cache env [0..<?n] s = Some (copies, t)" "looked env s t" "length copies = ?n"
    "\<forall>k < ?n. \<exists>i. deref t (cache_ref_at s k) = Some i \<and> copy_for_cache env i = Some (copies ! k)"
    using copies_of_items [OF assms(1), of "[0..<?n]" env] by auto
  have sk: "skeleton t = skeleton s" using c(2) by (simp add: looked_def)
  let ?s' = "t\<lparr>cached_current_item_index := get_current_item_index s, cached_items := copies,
      attached_to_web_view := False, is_restore_session_in_progress := False\<rparr>"
  have "detach_from_web_view env s = Some ?s'" using assms(2) c(1) by (simp add: detach_from_web_view_def Let_def)
  moreover have "get_back_forward_list_item_count ?s' = ?n" "get_current_item_index ?s' = get_current_item_index s"
    "get_item_count ?s' = get_item_count s"
    using c(3) skeleton_eqD(5) [OF sk]
    by (simp_all add: get_back_forward_list_item_count_def [of ?s'] get_current_item_index_def [of ?s']
        get_item_count_def)
  moreover have "item_of ?s' (CachedRef k) = Some (copies ! k)" if "k < ?n" for k
    using that c(3) by (simp add: item_of_def)
  ultimately show ?thesis using c(2,4) by fastforce
qed

theorem detach_keeps_history_witness:
  "\<exists>s'. detach_from_web_view plain_nav_env three_entries = Some s' \<and> get_item_count s' = 3 \<and> get_current_item_index s' = 1"
proof -
  have "get_item_count three_entries = 3" "get_current_item_index three_entries = 1" by code_simp+
  with detach_keeps_history [of three_entries plain_nav_env] three_entries_ok(1) show ?thesis
    by (auto simp: three_entries_def new_nav_manager_def)
qed

text \<open>
  C9. Loading in a detached manager attaches it and loads a page that rebuilds the cached session:
  in a fresh web view its script makes an entry for each item of the window, shows
  the current one, and every entry has the title of its item and redirects to its URL. The window
  has 75 items at most; it lies in the session and no item outside of it is nearer to the current
  one than an item in it, so all of a shorter session is there. The manager has a current item, no
  web view, no item of an opened window and no transient rewriters, is not restoring already, and
  has fewer than \<open>2 ^ 31\<close> items, whose titles are text and whose URLs are not empty.
\<close>

theorem detached_session_is_rebuilt:
  assumes "nav_laws env" and "\<not> attached_to_web_view s" and "nav_web_view s = None" and "empty_window_open_item s = None"
    and "transient_url_rewriters s = []" and "\<not> is_restore_session_in_progress s"
    and "0 \<le> cached_current_item_index s" and "cached_current_item_index s < int (length (cached_items s))"
    and "length (cached_items s) < 2 ^ 31"
    and "\<forall>i \<in> set (cached_items s). nav_spec (nav_urls env) (rewritten_url env (ni_url i)) \<noteq> []
      \<and> is_text (nav_urls env) (ni_title i)"
  shows "\<exists>s' p h first. load_if_necessary env s = Some s' \<and> attached_to_web_view s' \<and> pending_item s' = Some p
    \<and> delegate_calls s' = LoadCurrentItem BROWSER_INITIATED # RecordPageState # ClearDialogs
         # ClearTransientContent # delegate_calls s
    \<and> page_onload (nav_urls env) (ni_url p) fresh_history = HistoryRestored h
    \<and> length (history_entries h) = min (length (cached_items s)) 75
    \<and> 0 \<le> first \<and> first + int (length (history_entries h)) \<le> int (length (cached_items s))
    \<and> (\<forall>i j. 0 \<le> i \<and> i < int (length (cached_items s))
         \<and> \<not> (first \<le> i \<and> i < first + int (length (history_entries h)))
         \<and> first \<le> j \<and> j < first + int (length (history_entries h))
         \<longrightarrow> \<bar>j - cached_current_item_index s\<bar> \<le> \<bar>i - cached_current_item_index s\<bar>)
    \<and> first + int (history_position h) = cached_current_item_index s
    \<and> (\<forall>i < length (history_entries h). fst (history_entries h ! i) =
         (if ni_title (cached_items s ! (nat first + i)) = [] then ''Untitled''
          else ni_title (cached_items s ! (nat first + i))))
    \<and> (\<forall>i < length (history_entries h). \<forall>any.
         page_onload (nav_urls env) (snd (history_entries h ! i)) any =
           RedirectedTo (nav_spec (nav_urls env) (rewritten_url env (ni_url (cached_items s ! (nat first + i))))))"
proof -
  let ?r = "s\<lparr>cached_items := []\<rparr>"
  let ?items = "cached_items s"
  have bare: "bare_manager (cleared_for_restore ?r)" "transient_url_rewriters ?r = []" "\<not> is_restore_session_in_progress ?r"
    using assms(2-6) by (simp_all add: cleared_for_restore_def discard_non_committed_items_def reset_to_attached_def
        bare_manager_def)
  have items: "?items \<noteq> []" using assms(7,8) by auto
  obtain s' p items' url first where r: "restore_items env (cached_current_item_index s) ?items ?r = Some s'"
    "rewrite_item_urls env ?items = Some items'" "length items' = length ?items"
    "map ni_url items' = map (\<lambda>i. rewritten_url env (ni_url i)) ?items"
    "create_restore_session_url (nav_urls env) (cached_current_item_index s) (map session_item items') = Some (url, first)"
    "pending_item s' = Some p" "ni_url p = url" "bare_manager s'"
    "delegate_calls s' = LoadCurrentItem BROWSER_INITIATED # RecordPageState # ClearDialogs
         # ClearTransientContent # delegate_calls ?r"
    using bare_restore [OF assms(1) bare items assms(7,8,9)] by blast
  have load: "load_if_necessary env s = Some s'"
    using r(1,8) assms(2) by (simp add: load_if_necessary_def release_cached_items_def get_current_item_index_def
        bare_manager_def)
  have nth: "ni_url (items' ! i) = rewritten_url env (ni_url (?items ! i))" if "i < length ?items" for i
    using arg_cong [OF r(4), of "\<lambda>xs. xs ! i"] that r(3) by simp
  have title: "ni_title (items' ! i) = ni_title (?items ! i)" if "i < length ?items" for i
    using arg_cong [OF rewrite_item_titles [OF r(2)], of "\<lambda>xs. xs ! i"] that r(3) by simp
  have spec: "\<forall>i \<in> set (map session_item items'). nav_spec (nav_urls env) (item_url i) \<noteq> []
      \<and> is_text (nav_urls env) (item_title i)"
    using assms(10) nth title r(3) by (auto simp: session_item_def in_set_conv_nth [of _ items'])
  have laws: "session_laws (nav_urls env)" using assms(1) by (simp add: nav_laws_def)
  obtain h where h: "page_onload (nav_urls env) url fresh_history = HistoryRestored h"
    "length (history_entries h) = min (length items') 75" "first + int (history_position h) = cached_current_item_index s"
    "0 \<le> first" "first + int (length (history_entries h)) \<le> int (length items')"
    "\<forall>i < length (history_entries h). \<forall>any. page_onload (nav_urls env) (snd (history_entries h ! i)) any =
           RedirectedTo (nav_spec (nav_urls env) (item_url (map session_item items' ! (nat first + i))))"
    "\<forall>i j. 0 \<le> i \<and> i < int (length items') \<and> \<not> (first \<le> i \<and> i < first + int (length (history_entries h)))
       \<and> first \<le> j \<and> j < first + int (length (history_entries h))
       \<longrightarrow> \<bar>j - cached_current_item_index s\<bar> \<le> \<bar>i - cached_current_item_index s\<bar>"
    "\<forall>i < length (history_entries h). fst (history_entries h ! i) =
       (if item_title (map session_item items' ! (nat first + i)) = [] then ''Untitled''
        else item_title (map session_item items' ! (nat first + i)))"
  proof -
    have "cached_current_item_index s < int (length (map session_item items'))"
      "length (map session_item items') < 2 ^ 31" using assms(8,9) r(3) by simp_all
    from session_restored [OF laws assms(7) this spec] obtain url' first' h where
      "create_restore_session_url (nav_urls env) (cached_current_item_index s) (map session_item items') = Some (url', first')"
      and rest: "page_onload (nav_urls env) url' fresh_history = HistoryRestored h"
      "length (history_entries h) = min (length (map session_item items')) 75"
      "first' + int (history_position h) = cached_current_item_index s"
      "0 \<le> first'" "first' + int (length (history_entries h)) \<le> int (length (map session_item items'))"
      "\<forall>i j. 0 \<le> i \<and> i < int (length (map session_item items'))
         \<and> \<not> (first' \<le> i \<and> i < first' + int (length (history_entries h)))
         \<and> first' \<le> j \<and> j < first' + int (length (history_entries h))
         \<longrightarrow> \<bar>j - cached_current_item_index s\<bar> \<le> \<bar>i - cached_current_item_index s\<bar>"
      "\<forall>i < length (history_entries h). fst (history_entries h ! i) =
         (if item_title (map session_item items' ! (nat first' + i)) = [] then ''Untitled''
          else item_title (map session_item items' ! (nat first' + i)))"
      "\<forall>i < length (history_entries h). \<forall>any. page_onload (nav_urls env) (snd (history_entries h ! i)) any =
         RedirectedTo (nav_spec (nav_urls env) (item_url (map session_item items' ! (nat first' + i))))"
      by (elim exE conjE)
    with r(5) have "url' = url" "first' = first" by simp_all
    from rest [unfolded this] show thesis by (intro that [of h]) (simp_all only: length_map)
  qed
  have in_list: "nat first + i < length ?items" if "i < length (history_entries h)" for i
    using h(4,5) that r(3) by simp
  have redirects: "page_onload (nav_urls env) (snd (history_entries h ! i)) any =
      RedirectedTo (nav_spec (nav_urls env) (rewritten_url env (ni_url (?items ! (nat first + i)))))"
    if "i < length (history_entries h)" for i any
    using h(6) that nth [OF in_list [OF that]] in_list [OF that] r(3) by (simp add: session_item_def)
  have titles: "fst (history_entries h ! i) =
      (if ni_title (?items ! (nat first + i)) = [] then ''Untitled'' else ni_title (?items ! (nat first + i)))"
    if "i < length (history_entries h)" for i
    using h(8) that title [OF in_list [OF that]] in_list [OF that] r(3) by (simp add: session_item_def)
  have page: "page_onload (nav_urls env) (ni_url p) fresh_history = HistoryRestored h" using h(1) r(7) by simp
  have calls: "delegate_calls s' = LoadCurrentItem BROWSER_INITIATED # RecordPageState # ClearDialogs
         # ClearTransientContent # delegate_calls s" using r(9) by simp
  have "attached_to_web_view s'" using r(8) by (simp add: bare_manager_def)
  with load r(6) calls page h(2-5,7) redirects titles show ?thesis
    unfolding r(3) by (intro exI [of _ s'] exI [of _ p] exI [of _ h] exI [of _ first]) simp
qed

definition plain_detached :: nav_manager where
  "plain_detached = new_nav_manager\<lparr>attached_to_web_view := False, cached_current_item_index := 1,
     cached_items := [(new_navigation_item plain_nav_env 1)\<lparr>ni_url := ''http:0''\<rparr>,
                      (new_navigation_item plain_nav_env 2)\<lparr>ni_url := ''http:1''\<rparr>]\<rparr>"

theorem detached_session_is_rebuilt_witness:
  "\<exists>s' p h. load_if_necessary plain_nav_env plain_detached = Some s' \<and> pending_item s' = Some p
    \<and> page_onload (nav_urls plain_nav_env) (ni_url p) fresh_history = HistoryRestored h
    \<and> length (history_entries h) = 2"
proof -
  have "\<forall>i \<in> set (cached_items plain_detached).
      nav_spec (nav_urls plain_nav_env) (rewritten_url plain_nav_env (ni_url i)) \<noteq> []
      \<and> is_text (nav_urls plain_nav_env) (ni_title i)"
    by code_simp
  then show ?thesis
    using detached_session_is_rebuilt [OF plain_nav_laws, of plain_detached]
    by (simp add: plain_detached_def new_nav_manager_def) (metis One_nat_def Suc_1)
qed

text \<open>What is called after the second round does not matter; \<open>base_load\<close> is two rounds.\<close>

lemma base_load_rounds: "base_load env params s = load_round env (load_round env (\<lambda>_ _. None)) params s"
proof -
  have "base_load_url_with_params 0 env = (\<lambda>_ _. None)" "base_load_url_with_params (Suc n) env
      = load_round env (base_load_url_with_params n env)" for n by (intro ext, simp)+
  then show ?thesis by (simp only: base_load_def load_depth_def numeral_2_eq_2)
qed

lemma restore_one_round:
  "restore_with (load_round env innermost) env = restore_with (load_round env innermost') env"
  by (intro ext restore_cong) (rule attached_load_round)

lemma load_two_rounds: "load_round env (load_round env innermost) params s = base_load env params s"
  unfolding base_load_rounds load_round_def [of env "load_round _ _"] finish_load_url_with_params_with_def
    restore_one_round [of env innermost "\<lambda>_ _. None"] ..

lemma base_load_restores: "restore_with (base_load env) env = restore_with (load_round env innermost) env"
proof -
  have "base_load env = load_round env (load_round env (\<lambda>_ _. None))" by (intro ext base_load_rounds)
  then show ?thesis using restore_one_round [of env "load_round env (\<lambda>_ _. None)" innermost] by simp
qed

lemma attached_load_ends:
  assumes "attached_to_web_view s" and "begin_load_url_with_params env params s = Some t"
  shows "base_load env params s = Some (call_delegate (LoadCurrentItem (load_initiation params)) t)"
  using assms begin_load_attached [OF assms(2)]
  by (simp add: base_load_rounds load_round_def finish_load_url_with_params_with_def)

text \<open>A detached manager with a session that can be restored around its pending item.\<close>

definition restorable_around_pending :: "nav_manager \<Rightarrow> bool" where
  "restorable_around_pending t \<longleftrightarrow> pending_item t \<noteq> None \<and> pending_item_index t = -1
     \<and> nav_web_view t = None \<and> empty_window_open_item t = None \<and> transient_url_rewriters t = []
     \<and> \<not> is_restore_session_in_progress t \<and> 0 \<le> cached_current_item_index t
     \<and> cached_current_item_index t < int (length (cached_items t)) \<and> int (length (cached_items t)) < 2 ^ 30"

lemma detached_load_ends:
  assumes "nav_laws env" and "\<not> attached_to_web_view s" and "begin_load_url_with_params env params s = Some t"
    and "restorable_around_pending t"
  shows "\<exists>s'. base_load env params s = Some s' \<and> attached_to_web_view s' \<and> is_restore_session_in_progress s'"
proof -
  obtain item where item: "pending_item t = Some item" using assms(4) by (auto simp: restorable_around_pending_def)
  have detached: "\<not> attached_to_web_view t" using begin_load_attached [OF assms(3)] assms(2) by simp
  let ?t = "t\<lparr>cached_items := [], pending_item := None\<rparr>"
  let ?next = "cached_current_item_index t + 1"
  let ?items = "take (nat ?next) (cached_items t) @ [item]"
  have t: "pending_item_index t = -1" "0 \<le> cached_current_item_index t"
      "cached_current_item_index t < int (length (cached_items t))" "int (length (cached_items t)) < 2 ^ 30"
      "transient_url_rewriters ?t = []" "\<not> is_restore_session_in_progress ?t"
      "bare_manager (cleared_for_restore ?t)"
    using assms(4) detached by (simp_all add: restorable_around_pending_def cleared_for_restore_def
        discard_non_committed_items_def reset_to_attached_def bare_manager_def)
  have items: "?items \<noteq> []" "0 \<le> ?next" "?next < int (length ?items)" "length ?items < 2 ^ 31"
    using t(2-4) by simp_all
  obtain s' where s': "restore_items env ?next ?items ?t = Some s'" "bare_manager s'"
      "is_restore_session_in_progress s'"
    using bare_restore [OF assms(1) t(7,5,6) items] by blast
  have "restore_with (load_round env (\<lambda>_ _. None)) env ?next ?items ?t = Some s'"
    using s'(1) by (simp only: restore_items_def base_load_restores [of env "\<lambda>_ _. None"])
  moreover have "nat ?next \<le> length (cached_items t)" "cached_items t \<noteq> []" using t(2,3) by auto
  ultimately have "base_load env params s = Some s'"
    using assms(3) detached t(1,2) item s'(2)
    by (simp add: base_load_rounds load_round_def [of env "load_round _ _"] finish_load_url_with_params_with_def
        release_cached_items_def get_current_item_index_def get_back_forward_list_item_count_def Let_def
        bare_manager_def)
  with s' show ?thesis by (auto simp: bare_manager_def)
qed

text \<open>
  C14. \<open>LoadURLWithParams\<close> calls itself through \<open>Restore\<close> at most once, and not at all when
  the manager is attached: what the second call in a row would call is never reached, whatever it
  is, so the depth of two never cuts a load short. And a load ends with a result: when the manager
  is attached, as soon as the checks made while the pending item is added hold, by asking the
  delegate to load it; when it is detached and the session can be restored around the pending
  item, attached and restoring.
\<close>

theorem load_depth_suffices:
  "load_round env (load_round env innermost) params s = base_load env params s
    \<and> (attached_to_web_view s \<longrightarrow> load_round env innermost params s = base_load env params s)
    \<and> (begin_load_url_with_params env params s = Some t \<longrightarrow>
        (if attached_to_web_view s
         then base_load env params s = Some (call_delegate (LoadCurrentItem (load_initiation params)) t)
         else nav_laws env \<and> restorable_around_pending t \<longrightarrow>
           (\<exists>s'. base_load env params s = Some s' \<and> attached_to_web_view s' \<and> is_restore_session_in_progress s')))"
  using load_two_rounds attached_load_round attached_load_ends detached_load_ends
  unfolding base_load_rounds by (metis (no_types))

text \<open>A load in a detached manager, which restores and so loads once more.\<close>

definition mobile_detached :: nav_manager where
  "mobile_detached = plain_detached\<lparr>cached_items :=
     map (\<lambda>i. i\<lparr>ni_user_agent_type := UA_MOBILE, user_agent_type_inheritance := UA_MOBILE\<rparr>)
       (cached_items plain_detached)\<rparr>"

theorem load_depth_suffices_witness:
  "(\<exists>s' p. load_round plain_nav_env (load_round plain_nav_env (\<lambda>_ _. None))
       (new_web_load_params plain_nav_env ''http:3'') mobile_detached = Some s'
     \<and> pending_item s' = Some p \<and> restore_url plain_nav_env (ni_url p))
   \<and> load_round plain_nav_env (\<lambda>_ _. None) (new_web_load_params plain_nav_env ''http:3'') three_entries
     = base_load plain_nav_env (new_web_load_params plain_nav_env ''http:3'') three_entries
   \<and> (\<exists>s'. base_load plain_nav_env (new_web_load_params plain_nav_env ''http:3'') mobile_detached = Some s'
        \<and> attached_to_web_view s' \<and> is_restore_session_in_progress s')"
proof (intro conjI)
  have "case base_load plain_nav_env (new_web_load_params plain_nav_env ''http:3'') mobile_detached of
      None \<Rightarrow> False
    | Some s' \<Rightarrow> (case pending_item s' of None \<Rightarrow> False | Some p \<Rightarrow> restore_url plain_nav_env (ni_url p))"
    by code_simp
  then show "\<exists>s' p. load_round plain_nav_env (load_round plain_nav_env (\<lambda>_ _. None))
       (new_web_load_params plain_nav_env ''http:3'') mobile_detached = Some s'
     \<and> pending_item s' = Some p \<and> restore_url plain_nav_env (ni_url p)"
    unfolding load_depth_suffices [THEN conjunct1] by (auto split: option.splits)
  have "attached_to_web_view three_entries" by (simp add: three_entries_def new_nav_manager_def)
  then show "load_round plain_nav_env (\<lambda>_ _. None) (new_web_load_params plain_nav_env ''http:3'') three_entries
     = base_load plain_nav_env (new_web_load_params plain_nav_env ''http:3'') three_entries"
    by (rule load_depth_suffices [THEN conjunct2, THEN conjunct1, rule_format])
  have detached: "\<not> attached_to_web_view mobile_detached" by (simp add: mobile_detached_def plain_detached_def)
  have "case begin_load_url_with_params plain_nav_env (new_web_load_params plain_nav_env ''http:3'') mobile_detached of
      None \<Rightarrow> False | Some t \<Rightarrow> restorable_around_pending t"
    by code_simp
  then obtain t where "begin_load_url_with_params plain_nav_env (new_web_load_params plain_nav_env ''http:3'')
      mobile_detached = Some t" "restorable_around_pending t"
    by (auto split: option.splits)
  with detached show "\<exists>s'. base_load plain_nav_env (new_web_load_params plain_nav_env ''http:3'') mobile_detached = Some s'
        \<and> attached_to_web_view s' \<and> is_restore_session_in_progress s'"
    using load_depth_suffices [THEN conjunct2, THEN conjunct2, of plain_nav_env
        "new_web_load_params plain_nav_env ''http:3''" mobile_detached t] plain_nav_laws by simp
qed

section \<open>Stored sessions\<close>

lemma policy_number_roundtrip: "referrer_policy_of_number (referrer_policy_number p) = Some p"
  by (cases p) (simp_all add: referrer_policy_of_number_def referrer_policy_number_def referrer_policies_def)

lemma display_roundtrip: "display_state_of_serialization (get_serialization d) = d"
  by (simp add: display_state_of_serialization_def get_serialization_def get_content_offset_def get_content_inset_def
      get_float_value_def)

definition stored_agent :: "user_agent_type \<Rightarrow> user_agent_type" where
  "stored_agent type = (if type = UA_AUTOMATIC then UA_NONE else type)"

lemma item_storage_round_trip:
  assumes "encode_item_storage env x = Some c"
    and "nav_parse (nav_urls env) (nav_spec (nav_urls env) (st_virtual_url x)) = st_virtual_url x"
    and "nav_parse (nav_urls env) (nav_spec (nav_urls env) (referrer_url (st_referrer x))) = referrer_url (st_referrer x)"
  shows "decode_item_storage env c = Some (x\<lparr>st_user_agent_type := stored_agent (st_user_agent_type x)\<rparr>)"
proof -
  obtain d where d: "get_user_agent_type_description env (st_user_agent_type x) = Some d"
    using assms(1) by (auto simp: encode_item_storage_def option_dest)
  have agent: "get_user_agent_type_with_description d = stored_agent (st_user_agent_type x)"
    using d by (cases "st_user_agent_type x")
      (auto simp: get_user_agent_type_description_def get_user_agent_type_with_description_def stored_agent_def option_dest)
  obtain r where r: "st_referrer x = r" by simp
  have "\<lparr>referrer_url = referrer_url r, policy_of = policy_of r\<rparr> = r" by (cases r) simp
  then show ?thesis
    using assms d agent r
    by (auto simp: encode_item_storage_def decode_item_storage_def storage_key_defs decode_string_def decode_int_def
        decode_bool_def policy_number_roundtrip display_roundtrip Let_def)
qed

lemma item_storages_round_trip:
  assumes "encode_item_storages env xs = Some cs"
    and "\<forall>x \<in> set xs. nav_parse (nav_urls env) (nav_spec (nav_urls env) (st_virtual_url x)) = st_virtual_url x
      \<and> nav_parse (nav_urls env) (nav_spec (nav_urls env) (referrer_url (st_referrer x))) = referrer_url (st_referrer x)"
  shows "decode_item_storages env cs = Some (map (\<lambda>x. x\<lparr>st_user_agent_type := stored_agent (st_user_agent_type x)\<rparr>) xs)"
  using assms
proof (induction xs arbitrary: cs)
  case (Cons x xs)
  then show ?case using item_storage_round_trip [of env x] by (auto simp: option_dest)
qed simp

text \<open>
  C15. A session that is coded is decoded as it was, but an automatic user agent becomes none, and a
  session without items has no last committed one.
\<close>

theorem session_round_trip:
  assumes "encode_session env s = Some c"
    and "\<forall>x \<in> set (ss_item_storages s).
        nav_parse (nav_urls env) (nav_spec (nav_urls env) (st_virtual_url x)) = st_virtual_url x
      \<and> nav_parse (nav_urls env) (nav_spec (nav_urls env) (referrer_url (st_referrer x))) = referrer_url (st_referrer x)"
    and "\<bar>ss_last_committed_item_index s\<bar> < 2 ^ 31" and "\<bar>ss_previous_item_index s\<bar> < 2 ^ 31"
  shows "decode_session env c = Some (s\<lparr>
      ss_last_committed_item_index := (if ss_item_storages s = [] then -1 else ss_last_committed_item_index s),
      ss_item_storages := map (\<lambda>x. x\<lparr>st_user_agent_type :=
          (if st_user_agent_type x = UA_AUTOMATIC then UA_NONE else st_user_agent_type x)\<rparr>) (ss_item_storages s)\<rparr>)"
proof -
  obtain cs where cs: "encode_item_storages env (ss_item_storages s) = Some cs"
    using assms(1) by (auto simp: encode_session_def option_dest)
  note items = item_storages_round_trip [OF cs assms(2)]
  have "to_int32 (ss_last_committed_item_index s) = ss_last_committed_item_index s"
    "to_int32 (ss_previous_item_index s) = ss_previous_item_index s"
    using assms(3,4) by (simp_all add: to_int32_id)
  then show ?thesis
    using assms(1) cs items
    by (auto simp: encode_session_def decode_session_def session_key_defs session_int_def stored_agent_def Let_def)
qed

definition automatic_session :: session_storage where
  "automatic_session = \<lparr>ss_has_opener = True, ss_last_committed_item_index = 0, ss_previous_item_index = -1,
     ss_item_storages = [build_item_storage ((new_navigation_item plain_nav_env 1)\<lparr>ni_url := ''http:0'',
        ni_title := ''A'', ni_user_agent_type := UA_DESKTOP\<rparr>)]\<rparr>"

theorem session_round_trip_witness:
  "Option.bind (encode_session plain_nav_env automatic_session) (decode_session plain_nav_env) = Some automatic_session"
proof -
  have "case encode_session plain_nav_env automatic_session of None \<Rightarrow> False | Some c \<Rightarrow> True" by code_simp
  then obtain c where c: "encode_session plain_nav_env automatic_session = Some c" by (auto split: option.splits)
  then show ?thesis
    using session_round_trip [OF c]
    by (simp add: automatic_session_def build_item_storage_def plain_nav_env_def scheme_url_env_def plain_url_env_def)
qed

section \<open>Failing checks\<close>

lemma store_items_after:
  "store_items env original indices n s = Some (m, storages, s') \<Longrightarrow> \<forall>i \<in> set indices. original < i \<Longrightarrow> m = n"
  by (induction indices arbitrary: s n storages)
    (auto simp: option_dest split: if_splits)

lemma items_of_storages_length:
  "items_of_storages env xs s = Some (items, t) \<Longrightarrow> length items = length xs"
  by (induction xs arbitrary: s items) (auto simp: option_dest)

text \<open>
  C16. When the first item is committed and not stored but later ones are, the session is stored
  with -1 as the index of its last committed item, and restoring it fails a check.
\<close>

theorem skipped_first_item_loses_session:
  assumes "get_last_committed_item_index env s = Some (0, t)"
    and "get_navigation_item_impl_at_index env 0 t = Some (p, u)" and "deref u p = Some item"
    and "should_skip_serialization item"
    and "build_session_storage env opener s = Some (storage, v)" and "ss_item_storages storage \<noteq> []"
  shows "ss_last_committed_item_index storage = -1 \<and> extract_session_state env storage w = None"
proof -
  obtain committed storages x where st: "store_items env 0 [0..<nat (get_item_count t)] 0 t = Some (committed, storages, x)"
    "ss_last_committed_item_index storage = committed" "ss_item_storages storage = storages"
    using assms(1,5) by (auto simp: build_session_storage_def option_dest to_size_t_def)
  have "nat (get_item_count t) \<noteq> 0" using st assms(6) by (intro notI) simp
  then have "[0..<nat (get_item_count t)] = 0 # [1..<nat (get_item_count t)]" by (simp add: upt_conv_Cons)
  then have "store_items env 0 [1..<nat (get_item_count t)] (-1) u = Some (committed, storages, x)"
    using st(1) assms(2-4) by simp
  then have "committed = -1" by (rule store_items_after) simp
  then have c: "ss_last_committed_item_index storage = -1" using st(2) by simp
  have "extract_session_state env storage w = None"
  proof (cases "items_of_storages env (ss_item_storages storage) w")
    case (Some y)
    obtain items y' where y: "y = (items, y')" by (cases y)
    then have "items \<noteq> []" using items_of_storages_length Some assms(6) by fastforce
    then have "restore_items env (-1) items y' = None" by (simp add: restore_items_def restore_with_def dcheck_def)
    then show ?thesis using Some y c by (simp add: extract_session_state_def)
  qed (simp add: extract_session_state_def)
  with c show ?thesis ..
qed

definition unsaved_entry :: nav_manager where
  "unsaved_entry = new_nav_manager\<lparr>nav_web_view := Some \<lparr>wv_url = ''http:0'', wv_back_list = [],
     wv_current_item = Some \<lparr>wk_url = ''http:0'', wk_title = [],
        wk_held_item = Some ((new_navigation_item plain_nav_env 1)\<lparr>ni_url := ''http:0'', should_skip_serialization := True\<rparr>)\<rparr>,
     wv_forward_list = [plain_entry ''http:1'']\<rparr>\<rparr>"

theorem skipped_first_item_loses_session_witness:
  "\<exists>storage v. build_session_storage plain_nav_env False unsaved_entry = Some (storage, v)
     \<and> length (ss_item_storages storage) = 1
     \<and> extract_session_state plain_nav_env storage new_nav_manager = None"
proof -
  have "case get_last_committed_item_index plain_nav_env unsaved_entry of None \<Rightarrow> False
     | Some (n, t) \<Rightarrow> n = 0 \<and> (case get_navigation_item_impl_at_index plain_nav_env 0 t of None \<Rightarrow> False
        | Some (p, u) \<Rightarrow> (case deref u p of None \<Rightarrow> False | Some i \<Rightarrow> should_skip_serialization i))"
    "case build_session_storage plain_nav_env False unsaved_entry of None \<Rightarrow> False
     | Some (storage, v) \<Rightarrow> length (ss_item_storages storage) = 1"
    by code_simp+
  note c = this
  obtain t where t: "get_last_committed_item_index plain_nav_env unsaved_entry = Some (0, t)"
    and c1: "case get_navigation_item_impl_at_index plain_nav_env 0 t of None \<Rightarrow> False
        | Some (p, u) \<Rightarrow> (case deref u p of None \<Rightarrow> False | Some i \<Rightarrow> should_skip_serialization i)"
    using c(1) by (cases "get_last_committed_item_index plain_nav_env unsaved_entry") auto
  obtain p u where p: "get_navigation_item_impl_at_index plain_nav_env 0 t = Some (p, u)"
    and c2: "case deref u p of None \<Rightarrow> False | Some i \<Rightarrow> should_skip_serialization i"
    using c1 by (cases "get_navigation_item_impl_at_index plain_nav_env 0 t") auto
  obtain item where item: "deref u p = Some item" "should_skip_serialization item"
    using c2 by (cases "deref u p") auto
  obtain storage v where st: "build_session_storage plain_nav_env False unsaved_entry = Some (storage, v)"
    "length (ss_item_storages storage) = 1"
    using c(2) by (cases "build_session_storage plain_nav_env False unsaved_entry") auto
  then have "ss_item_storages storage \<noteq> []" by auto
  with skipped_first_item_loses_session [OF t p item st(1)] st show ?thesis by auto
qed

text \<open>Restoring a session into a manager that shows entries fails a check.\<close>

theorem restore_over_entries_aborts:
  assumes "items \<noteq> []" and "attached_to_web_view s" and "get_item_count s > 0"
  shows "restore_items env k items s = None"
proof -
  have "get_item_count (cleared_for_restore s) = get_item_count s"
    using assms(2) by (simp add: cleared_for_restore_def get_item_count_def get_back_forward_list_item_count_def
        discard_non_committed_items_def)
  then show ?thesis unfolding restore_items_def using restore_into_items [OF assms(1)] assms(3) by simp
qed

theorem restore_over_entries_aborts_witness:
  "restore_items plain_nav_env 0 [new_navigation_item plain_nav_env 1] three_entries = None"
proof -
  have "get_item_count three_entries > 0" by code_simp
  then show ?thesis
    using restore_over_entries_aborts [of "[new_navigation_item plain_nav_env 1]" three_entries]
    by (simp add: three_entries_def new_nav_manager_def)
qed

text \<open>Loading in a manager that was detached without entries fails a check.\<close>

theorem empty_detached_load_aborts:
  assumes "\<not> attached_to_web_view s" and "cached_items s = []"
  shows "load_if_necessary env s = None"
  using assms by (auto simp: load_if_necessary_def release_cached_items_def restore_items_def restore_with_def option_dest
      dcheck_def)

theorem empty_detached_load_aborts_witness:
  "\<exists>s. detach_from_web_view plain_nav_env new_nav_manager = Some s \<and> load_if_necessary plain_nav_env s = None"
proof -
  have "case detach_from_web_view plain_nav_env new_nav_manager of None \<Rightarrow> False
    | Some s \<Rightarrow> \<not> attached_to_web_view s \<and> cached_items s = []" by code_simp
  then show ?thesis using empty_detached_load_aborts by (auto split: option.splits)
qed

text \<open>
  While the page that opened the window has no entry in the web view, it is listed as a forward
  item of itself, although going forward is not possible.
\<close>

theorem empty_window_lists_itself_forward:
  assumes "empty_window_open_item s \<noteq> None" and "\<not> is_restore_session_in_progress s"
    and "get_current_item_index s = -1"
  shows "get_forward_items env s = Some ([Some EmptyWindowRef], s) \<and> \<not> can_go_forward s"
  using assms by (simp add: get_forward_items_def get_item_count_def get_navigation_item_impl_at_index_def
      can_go_forward_def can_go_to_offset_def)

theorem empty_window_lists_itself_forward_witness:
  "get_forward_items plain_nav_env (new_nav_manager\<lparr>empty_window_open_item := Some (new_navigation_item plain_nav_env 1)\<rparr>)
     = Some ([Some EmptyWindowRef], new_nav_manager\<lparr>empty_window_open_item := Some (new_navigation_item plain_nav_env 1)\<rparr>)"
  using empty_window_lists_itself_forward
      [of "new_nav_manager\<lparr>empty_window_open_item := Some (new_navigation_item plain_nav_env 1)\<rparr>" plain_nav_env]
  by (simp add: new_nav_manager_def get_current_item_index_def)

end
