(* ===== verification/Spec2Isabelle.thy ===== *)
theory Spec2Isabelle
  imports WebStateListMachine ReadingListDownloadFacts BrowserStatesFacts FirstUserAction
    ErrorRetry CookieCache ChunkedUpload SyncSetupFacts
    NotificationPromo UrlDataReads Referrers PageInfo Removers Breadcrumbs UrlHelpers HttpCacheTasks
    KeyedServicesFacts OverlaysProps OverlayRequestsFacts FindInPageProps NavProps
begin

text \<open>
  This development models core logic of the iOS port of Chromium, the directories \<open>chrome/browser\<close>,
  \<open>chrome/common\<close>, \<open>web\<close> and \<open>net\<close> of the repository, and proves what makes it correct.

  \<^bold>\<open>Reading of the code.\<close> A class is a record of its members, an enumeration a datatype with the same
  constructors, a method a definition that takes the object and returns it updated. \<open>CHECK\<close>,
  \<open>DCHECK\<close> and \<open>NOTREACHED\<close> are \<^term>\<open>None\<close> of an option type, so a theorem that an operation
  returns says that none of its checks fails; for \<open>partial_function\<close> \<^term>\<open>None\<close> is also a loop
  or a recursion that does not end. Calls that leave a component (observers, callbacks, posted
  tasks) are appended to a log in its state, in the order the code makes them. A vector position is
  a natural number and an \<open>int\<close> an integer with \<^const>\<open>to_int32\<close> where the code converts. Libraries
  outside the repository (URLs, JSON, preferences, the sync engine, the disk cache, the string
  utilities) are records of functions given to the definitions; what is used of them are named
  laws (\<open>url_laws\<close>, \<open>session_laws\<close>, \<open>query_laws\<close>, \<open>settings_laws\<close>, \<open>lines_law\<close>, \<open>cache_laws\<close>, \<open>nav_laws\<close>), each with a
  concrete instance on which the witnesses run. The laws of URLs and sessions speak of the URLs that
  the code makes, not of all strings: a parameter put into the reference of a restore URL is read
  back, and a session of non-empty URLs and of titles that are text (\<open>is_text\<close>) survives JSON.

  \<^bold>\<open>Shared theories.\<close> \<open>Prelude\<close> has the checks, vectors, the conversions of integers, sequences of
  operations (\<^const>\<open>run\<close>, \<^const>\<open>legal\<close>) and the locales \<open>step_invariant\<close> and \<open>total_machine\<close>,
  which every component that is driven by events interprets on its own step function.
  \<open>OrderedSet\<close> has \<open>std::set\<close> and \<open>std::set_difference\<close> over a comparator, with the locale
  \<open>set_comparator\<close>, interpreted for the comparators of cookies and of certificate and host pairs.

  \<^bold>\<open>Components\<close>, each with its sources, what the lemmas show, and how it meets the others.

  \<^item> \<open>WebStateList\<close>, \<open>WebStateListFacts\<close>, \<open>WebStateListMachine\<close>: the tabs of a window,
    \<open>chrome/browser/web_state_list\<close>, with openers, the choice of the next active tab and of the
    place of a new one, and the calls to observers and delegate. The facts give the effect of each
    operation on the list, the openers and the active index; the machine runs any permitted
    sequence. Observers do not call back into the list.
  \<^item> \<open>UrlDownloader\<close>, \<open>UrlDownloaderFacts\<close>: the queue that saves and deletes offline pages,
    \<open>chrome/browser/reading_list/url_downloader\<close>, with the files it writes and its loop over image
    references. Its machine takes every request and callback, for valid URLs, while no distilled page has
    an image whose escaped URL is empty, and \<open>CancelTask\<close>, which nothing calls, while no job is out;
    what happens outside of these limits is proved beside it. \<open>ReadingListDownload\<close>, \<open>ReadingListDownloadFacts\<close>: the service that decides which
    entries of the reading list are downloaded, when they are retried and when given up; the model of
    the reading list is a parameter that also changes by itself between two events.
  \<^item> \<open>BrowserStates\<close>, \<open>BrowserStatesFacts\<close>: the browser state manager and the sorted cache of what is
    known of each browser state. \<open>FirstUserAction\<close>: the recorder of the first action of the user.
  \<^item> \<open>WkNavigationUtil\<close>, \<open>WkNavigationUtilFacts\<close>: the special URLs of \<open>web/navigation\<close> and the page that
    rebuilds a session from them, composed: the URL made from the items, loaded in the page, gives the
    history of the items. \<open>ErrorRetry\<close>: the state machine of navigation errors, together with a web
    view that obeys its commands or whose load is cancelled or replaced; it uses the redirect and placeholder URLs of the former.
  \<^item> \<open>NavItems\<close>: the items of the history of a tab, the display state of their pages, their time
    stamps, the rewriters of their URLs and user agent types. \<open>NavStorage\<close>, \<open>SessionStorage\<close>: what is
    stored of an item and of a session, and its coding. \<open>NavManager\<close>, \<open>NavLoads\<close>: the navigation manager,
    \<open>web/navigation/wk_based_navigation_manager_impl\<close> over \<open>navigation_manager_impl\<close>: the former
    has the state, the list of the web view or its copy while detached, and the queries, which create
    missing items on the way; the latter the operations. A pointer to an item is the place that owns
    it (\<^typ>\<open>item_ref\<close>). \<open>NavFacts\<close> shows that queries change nothing but the items they create
    (\<^const>\<open>looked\<close>), \<open>NavInvariant\<close> and \<open>NavMachine\<close> that any sequence of events keeps every item
    well formed, \<open>NavRestore\<close> when restoring succeeds and with what, \<open>NavProps\<close> the properties: what
    is shown, who opens internal pages, commits, going to an offset, detaching, and that a session
    that is restored is rebuilt by the page of \<open>WkNavigationUtil\<close>; and the checks that fail.
  \<^item> \<open>SyncSetup\<close>, \<open>SyncSetupFacts\<close>: the service behind the sync settings, whose two setters are
    mutually recursive. \<open>CookieCache\<close> and \<open>ChunkedUpload\<close>: the cookie cache and the chunked upload
    stream of \<open>net\<close>. \<open>HttpCacheTasks\<close>: counting and clearing the HTTP cache, for every mixture of
    requests that finish at once or later.
  \<^item> \<open>WebThreads\<close>, \<open>WebThreadsFacts\<close>: the well-known threads, their lock, posting of tasks and the life
    of the IO thread. \<open>UrlData\<close> with \<open>UrlDataFacts\<close>, \<open>UrlDataMachine\<close>, \<open>UrlDataOrder\<close> and
    \<open>UrlDataReads\<close>: the reference counted data sources behind WebUI pages and the jobs that read from
    them, on these threads: every task goes through \<^const>\<open>post_task_helper\<close> and each thread runs its
    tasks in order. The facts account for every reference, the machine shows that sources are
    deleted once, on the UI thread, and not too late or too early, the order that the mime type
    comes before the data, and the reads that the data arrives whole. \<open>CertPolicies\<close>: certificates accepted by the user and the SSL status;
    \<open>PageInfo\<close> shows it. \<open>Referrers\<close>: the \<open>Referer\<close> header, against the specification of the tokens.
  \<^item> \<open>NotificationPromo\<close>: promotions over many sessions. \<open>Removers\<close>: clearing bookmarks and reading
    list; the locale \<open>remover\<close> is the contract of the two helpers, interpreted for both.
    \<open>Breadcrumbs\<close>: the manager of recent events composed with the storage that writes them.
    \<open>UrlHelpers\<close>: x-callback, offline, about and history state URLs, and time stamps.

  \<^item> \<open>DependencyGraph\<close>, \<open>KeyedServices\<close>, \<open>KeyedServicesFacts\<close>: the 78 factories of keyed services under
    \<open>chrome/browser\<close>, one record each with what its constructor declares and what building the service
    looks up, and the regular and Incognito browser states. The locale \<open>dependency_graph\<close> shows what
    declared dependencies guarantee of the construction of the factories and of the orders of
    shutdown, and is interpreted on the factories; the facts say which services outlive the ones
    built on them, with the three pairs that do not, that their construction ends, and when no check
    fails in it. The keyed service library itself is outside the repository, and so is the sync
    service: which calls it makes of \<open>IOSChromeSyncClient\<close> while it initializes itself is a
    parameter (\<open>sync_initialize_calls\<close>), and whether a constructor outside takes a null another
    (\<open>accepts_null\<close>). Lookups that services make in later callbacks are not modelled.

  \<^item> \<open>Overlays\<close>: the dialogs over the page of a tab, \<open>chrome/browser/overlays\<close> and
    \<open>chrome/browser/ui/overlays\<close>: the presenter of a window, which observes the tab list and the
    queues of its tabs, and the presentation context, which keeps the UI of each request. They call
    back into one another within a call, so one record holds the fields of all, beside the tab list
    of \<open>WebStateList\<close>, whose notifications it consumes. \<open>OverlaysFacts\<close> has the states between
    two operations and what each call of the presenter does from them, \<open>OverlaysMachine\<close> the queues
    and the cancel handlers, \<open>OverlaysWindow\<close> the operations on tabs, \<open>OverlaysLifecycle\<close> what becomes
    of each request from any state of the presenter, cancellations during an animated dismissal
    included, \<open>OverlaysProps\<close> the window as a machine under stated limits: no check fails, what is on screen is the front request of the active tab, requests are
    completed once; and what goes wrong when a request is cancelled at a bad moment.
    \<open>OverlayRequests\<close>, \<open>OverlayRequestsFacts\<close>: the callbacks of a request, which requests and
    responses are supported, and the installers that give callbacks to requests.
  \<^item> \<open>FindInPage\<close>: searching a page over its frames, \<open>web/find_in_page\<close>. \<open>FindInPageFacts\<close>
    shows the request to be a cursor in the list of all matches, \<open>FindInPageMachine\<close> keeps an account of
    the calls that frames still have to answer, \<open>FindInPageProps\<close> shows that nothing hangs and that
    searches complete, and what late answers do.

  \<^bold>\<open>Loops.\<close> Loops over a vector or list are structural recursion. \<open>close_all_loop\<close> and
  \<open>count_internal\<close> end by a measure. \<^const>\<open>base_load_url_with_params\<close> has the depth of its calls to itself
  as an argument, and \<^const>\<open>load_round\<close> is its body over any function for them; \<^const>\<open>load_depth\<close> is 2
  because a load restores at most once: that what lies below two rounds is never reached, and that a
  load ends with a result, is among the properties. The replacement of image references, the climb through bookmark
  folders, the two sync setters and the walk over frames without matches are \<open>partial_function (option)\<close>; when they end is proved where
  a property needs it, and when they do not is part of the properties of the downloader and of the
  sync settings.

  \<^bold>\<open>Findings.\<close> Several theorems state behaviour that the code does not intend: an image without a
  valid URL blocks the downloader, a cancelled download wedges it, a removed browser state
  reappears, an event of the breadcrumbs comes back with a zero byte, the sync setters can recurse
  for ever, a closed promotion opens again, a cancelled dialog keeps the next one from being shown, a
  late answer of a frame spoils the match count of another, a session whose committed first item is not stored cannot be
  restored, and neither can one over entries that are there.

  \<^bold>\<open>Not modelled.\<close> User interface code (coordinators, mediators, view controllers), bridges to
  autofill, passwords and payments, what the factories hand to keyed services beside other services, the
  public embedding API, the web controller (but its removal of the web view) and the navigation handler,
  tests and resources. Of the navigation manager, calls back into it from within a call of its
  delegate (as when an interstitial is dismissed), histograms, and the user data of stored sessions. Of the data sources, the localized strings of
  \<open>WebUIIOSDataSourceImpl\<close>; an operation on them runs to its end before the next one starts, so the lock
  of the list of deletions is not part of the state.
\<close>

end
